(* ===== verification/Prelude.thy ===== *)
theory Prelude
  imports Main "HOL-Library.Multiset" "HOL-Library.List_Lexorder" "HOL-Library.Char_ord"
begin

text \<open>
  Shared vocabulary of the development: the Rust string operations the framework uses
  (\<open>str::trim\<close>, \<open>str::split\<close>, \<open>[String]::join\<close>, \<open>str::strip_prefix\<close>, ...), the contract
  of \<open>slice::sort_by\<close> as a locale over comparison functions, and generic facts on lists.

  A Rust string is a list of characters. The model's characters are the scalar values
  U+0000 to U+00FF; on those the order of Rust strings (bytewise on UTF-8) is the
  lexicographic order of the character codes, which is what \<open>List_Lexorder\<close> and \<open>Char_ord\<close>
  provide, and \<open>char::is_whitespace\<close> is the eight characters of \<open>is_whitespace\<close> below.
\<close>

named_theorems rust_string \<open>facts on the Rust string operations\<close>
named_theorems rust_list \<open>facts on slices, iterators and sorting\<close>

section \<open>Strings\<close>

definition is_whitespace :: "char \<Rightarrow> bool" where
  "is_whitespace c \<longleftrightarrow> c \<in> set [CHR 0x09, CHR 0x0A, CHR 0x0B, CHR 0x0C, CHR 0x0D, CHR 0x20, CHR 0x85, CHR 0xA0]"

definition trim_start_matches :: "('a \<Rightarrow> bool) \<Rightarrow> 'a list \<Rightarrow> 'a list" where
  "trim_start_matches P s = dropWhile P s"

definition trim_end_matches :: "('a \<Rightarrow> bool) \<Rightarrow> 'a list \<Rightarrow> 'a list" where
  "trim_end_matches P s = rev (dropWhile P (rev s))"

definition trim_matches :: "('a \<Rightarrow> bool) \<Rightarrow> 'a list \<Rightarrow> 'a list" where
  "trim_matches P s = trim_end_matches P (trim_start_matches P s)"

definition trim :: "string \<Rightarrow> string" where
  "trim s = trim_matches is_whitespace s"

text \<open>\<open>str::split(char)\<close>: always at least one piece, empty pieces kept.\<close>

fun split_on :: "'a \<Rightarrow> 'a list \<Rightarrow> 'a list list" where
  "split_on c [] = [[]]"
| "split_on c (x # xs) =
     (if x = c then [] # split_on c xs
      else case split_on c xs of [] \<Rightarrow> [[x]] | y # ys \<Rightarrow> (x # y) # ys)"

text \<open>\<open>[String]::join(sep)\<close>.\<close>

fun join :: "'a list \<Rightarrow> 'a list list \<Rightarrow> 'a list" where
  "join sep [] = []"
| "join sep [x] = x"
| "join sep (x # y # ys) = x @ sep @ join sep (y # ys)"

definition starts_with :: "'a list \<Rightarrow> 'a list \<Rightarrow> bool" where
  "starts_with s p \<longleftrightarrow> take (length p) s = p"

definition strip_prefix :: "'a list \<Rightarrow> 'a list \<Rightarrow> 'a list option" where
  "strip_prefix s p = (if starts_with s p then Some (drop (length p) s) else None)"

definition ends_with :: "'a list \<Rightarrow> 'a list \<Rightarrow> bool" where
  "ends_with s p \<longleftrightarrow> starts_with (rev s) (rev p)"

definition ascii_upper_char :: "char \<Rightarrow> char" where
  "ascii_upper_char c =
     (if of_char c \<in> {97..122::nat} then char_of (of_char c - 32 :: nat) else c)"

definition ascii_lower_char :: "char \<Rightarrow> char" where
  "ascii_lower_char c =
     (if of_char c \<in> {65..90::nat} then char_of (of_char c + 32 :: nat) else c)"

definition to_ascii_uppercase :: "string \<Rightarrow> string" where
  "to_ascii_uppercase s = map ascii_upper_char s"

definition to_ascii_lowercase :: "string \<Rightarrow> string" where
  "to_ascii_lowercase s = map ascii_lower_char s"

text \<open>\<open>Iterator::find_map\<close>.\<close>

text \<open>Decimal digits of a number, as \<open>format!("{}", n)\<close> prints it.\<close>

function show_nat :: "nat \<Rightarrow> string" where
  "show_nat n = (if n < 10 then [char_of (48 + n)] else show_nat (n div 10) @ [char_of (48 + n mod 10)])"
  by auto
termination by (relation "measure id") auto

declare show_nat.simps [simp del]

fun find_map :: "('a \<Rightarrow> 'b option) \<Rightarrow> 'a list \<Rightarrow> 'b option" where
  "find_map f [] = None"
| "find_map f (x # xs) = (case f x of Some y \<Rightarrow> Some y | None \<Rightarrow> find_map f xs)"

subsection \<open>Facts on the string operations\<close>

lemma trim_start_matches_id [rust_string]:
  "(\<And>c. c \<in> set s \<Longrightarrow> \<not> P c) \<Longrightarrow> trim_start_matches P s = s"
  by (cases s) (auto simp: trim_start_matches_def)

lemma trim_end_matches_id [rust_string]:
  "(\<And>c. c \<in> set s \<Longrightarrow> \<not> P c) \<Longrightarrow> trim_end_matches P s = s"
  by (cases s rule: rev_cases) (auto simp: trim_end_matches_def)

lemma trim_end_matches_snoc:
  "trim_end_matches P (s @ [c]) = (if P c then trim_end_matches P s else s @ [c])"
  by (simp add: trim_end_matches_def)

lemma trim_end_matches_Nil [simp]: "trim_end_matches P [] = []"
  by (simp add: trim_end_matches_def)

lemma trim_id [rust_string]:
  "(\<And>c. c \<in> set s \<Longrightarrow> \<not> is_whitespace c) \<Longrightarrow> trim s = s"
  by (simp add: trim_def trim_matches_def trim_start_matches_id trim_end_matches_id)

lemma trim_end_matches_decomp:
  "\<exists>t. s = trim_end_matches P s @ t \<and> (\<forall>c \<in> set t. P c)"
proof (induction s rule: rev_induct)
  case (snoc x xs)
  then obtain t where t: "xs = trim_end_matches P xs @ t" "\<forall>c \<in> set t. P c" by blast
  show ?case
  proof (cases "P x")
    case True
    with t have "xs @ [x] = trim_end_matches P (xs @ [x]) @ (t @ [x])"
      by (simp add: trim_end_matches_snoc)
    moreover have "\<forall>c \<in> set (t @ [x]). P c" using t True by simp
    ultimately show ?thesis by blast
  qed (simp add: trim_end_matches_snoc)
qed simp

lemma trim_end_matches_last:
  "trim_end_matches P s \<noteq> [] \<Longrightarrow> \<not> P (last (trim_end_matches P s))"
  by (induction s rule: rev_induct) (auto simp: trim_end_matches_snoc)

lemma set_trim_end_matches: "set (trim_end_matches P s) \<subseteq> set s"
  by (induction s rule: rev_induct) (auto simp: trim_end_matches_snoc)

lemma set_trim_start_matches: "set (trim_start_matches P s) \<subseteq> set s"
  by (auto simp: trim_start_matches_def dest: set_dropWhileD)

lemma set_trim_matches: "set (trim_matches P s) \<subseteq> set s"
  using set_trim_end_matches set_trim_start_matches unfolding trim_matches_def by fast

lemma set_trim: "set (trim s) \<subseteq> set s"
  by (simp add: trim_def set_trim_matches)

lemma trim_end_matches_idem:
  "trim_end_matches P (trim_end_matches P s) = trim_end_matches P s"
  by (simp add: trim_end_matches_def)

lemma trim_end_matches_head:
  "\<not> P c \<Longrightarrow> \<exists>t. trim_end_matches P (c # s) = c # t"
proof (induction s rule: rev_induct)
  case Nil
  then show ?case by (simp add: trim_end_matches_def)
next
  case (snoc x xs)
  then show ?case using trim_end_matches_snoc [of P "c # xs" x] by auto
qed

lemma trim_pad:
  assumes "list_all is_whitespace u" "list_all is_whitespace v" "s \<noteq> []" "\<not> is_whitespace (hd s)" "\<not> is_whitespace (last s)"
  shows "trim (u @ s @ v) = s"
proof -
  have "dropWhile is_whitespace (u @ s @ v) = s @ v"
    using assms by (cases s) (auto simp: list_all_iff dropWhile_append)
  moreover have "dropWhile is_whitespace (rev (s @ v)) = rev s"
    using assms by (cases s rule: rev_cases) (auto simp: list_all_iff dropWhile_append)
  ultimately show ?thesis by (simp add: trim_def trim_matches_def trim_start_matches_def trim_end_matches_def)
qed

lemma split_on_not_Nil [simp]: "split_on c s \<noteq> []"
  by (cases s) (auto split: list.splits)

lemma split_on_no_sep: "c \<notin> set p \<Longrightarrow> split_on c p = [p]"
  by (induction p) auto

lemma split_on_sep_free: "p \<in> set (split_on c s) \<Longrightarrow> c \<notin> set p"
  by (induction s arbitrary: p) (auto split: if_splits list.splits)

lemma split_on_chars: "p \<in> set (split_on c s) \<Longrightarrow> set p \<subseteq> set s"
proof (induction s arbitrary: p)
  case (Cons x xs)
  obtain y ys where "split_on c xs = y # ys" by (cases "split_on c xs") auto
  with Cons show ?case by (auto split: if_splits; fastforce)
qed simp

lemma split_on_append_sep:
  "c \<notin> set p \<Longrightarrow> split_on c (p @ c # s) = p # split_on c s"
  by (induction p) auto

lemma split_on_snoc_sep: "split_on c (s @ [c]) = split_on c s @ [[]]"
proof (induction s)
  case (Cons x xs)
  then show ?case by (cases "split_on c xs") auto
qed simp

lemma join_split_on: "join [c] (split_on c s) = s"
proof (induction s)
  case (Cons x xs)
  obtain y ys where "split_on c xs = y # ys" by (cases "split_on c xs") auto
  with Cons show ?case by (cases ys) auto
qed simp

lemma split_on_join:
  "ps \<noteq> [] \<Longrightarrow> (\<And>p. p \<in> set ps \<Longrightarrow> c \<notin> set p) \<Longrightarrow> split_on c (join [c] ps) = ps"
proof (induction "[c]" ps rule: join.induct)
  case (3 x y ys)
  then have "split_on c (join [c] (y # ys)) = y # ys" by simp
  with 3 show ?case by (simp add: split_on_append_sep)
qed (auto simp: split_on_no_sep)

lemma set_join: "set (join sep ps) \<subseteq> set sep \<union> (\<Union>p \<in> set ps. set p)"
  by (induction sep ps rule: join.induct) auto

lemma join_eq_Nil_iff: "sep \<noteq> [] \<Longrightarrow> join sep ps = [] \<longleftrightarrow> ps = [] \<or> ps = [[]]"
  by (induction sep ps rule: join.induct) auto

lemma starts_with_Nil [simp]: "starts_with s []"
  by (simp add: starts_with_def)

lemma starts_with_Cons [simp]:
  "starts_with s (c # p) \<longleftrightarrow> (\<exists>t. s = c # t \<and> starts_with t p)"
  by (cases s) (auto simp: starts_with_def)

lemma starts_with_iff: "starts_with s p \<longleftrightarrow> (\<exists>t. s = p @ t)"
  by (metis append_eq_conv_conj append_take_drop_id starts_with_def)

lemma strip_prefix_eq_Some: "strip_prefix s p = Some t \<longleftrightarrow> s = p @ t"
  by (auto simp: strip_prefix_def starts_with_iff)

lemma strip_prefix_eq_None: "strip_prefix s p = None \<longleftrightarrow> \<not> starts_with s p"
  by (simp add: strip_prefix_def)

lemma ends_with_single: "ends_with s [c] \<longleftrightarrow> (\<exists>t. s = t @ [c])"
  by (cases s rule: rev_cases) (auto simp: ends_with_def)

lemma find_map_None_iff: "find_map f xs = None \<longleftrightarrow> (\<forall>x \<in> set xs. f x = None)"
  by (induction xs) (auto split: option.splits)

lemma find_map_append: "find_map f (xs @ ys) =
    (case find_map f xs of Some y \<Rightarrow> Some y | None \<Rightarrow> find_map f ys)"
  by (induction xs) (auto split: option.splits)

lemma find_map_filter:
  "(\<And>x. x \<in> set xs \<Longrightarrow> \<not> P x \<Longrightarrow> f x = None) \<Longrightarrow> find_map f (filter P xs) = find_map f xs"
  by (induction xs) (auto split: option.splits)

lemma find_map_find:
  "find_map (\<lambda>x. if P x then Some (g x) else None) xs = map_option g (find P xs)"
  by (induction xs) auto

lemma find_filter: "find P (filter Q xs) = find (\<lambda>x. Q x \<and> P x) xs"
  by (induction xs) auto

lemma find_first_split:
  "find P xs = Some x \<Longrightarrow> \<exists>us vs. xs = us @ x # vs \<and> P x \<and> (\<forall>u \<in> set us. \<not> P u)"
proof (induction xs)
  case (Cons y ys)
  show ?case
  proof (cases "P y")
    case True
    with Cons.prems have "y # ys = [] @ x # ys \<and> P x" by simp
    then show ?thesis by fastforce
  next
    case False
    with Cons obtain us vs where "ys = us @ x # vs" "P x" "\<forall>u \<in> set us. \<not> P u" by auto
    with False have "y # ys = (y # us) @ x # vs \<and> P x \<and> (\<forall>u \<in> set (y # us). \<not> P u)" by simp
    then show ?thesis by blast
  qed
qed simp

section \<open>Comparison functions and \<open>slice::sort_by\<close>\<close>

datatype ordering = Less | Equal | Greater

fun reverse_ordering :: "ordering \<Rightarrow> ordering" where
  "reverse_ordering Less = Greater"
| "reverse_ordering Equal = Equal"
| "reverse_ordering Greater = Less"

definition cmp_of :: "'a :: linorder \<Rightarrow> 'a \<Rightarrow> ordering" where
  "cmp_of x y = (if x < y then Less else if x = y then Equal else Greater)"

text \<open>
  \<open>slice::sort_by\<close> is a stable sort. Insertion of each element before the first one it is
  not greater than is a stable sort too, and \<open>sort_by_unique\<close> below shows that the result
  is the only stable sorted rearrangement, so the algorithm does not matter.
\<close>

fun insert_by :: "('a \<Rightarrow> 'a \<Rightarrow> ordering) \<Rightarrow> 'a \<Rightarrow> 'a list \<Rightarrow> 'a list" where
  "insert_by cmp x [] = [x]"
| "insert_by cmp x (y # ys) =
     (if cmp x y = Greater then y # insert_by cmp x ys else x # y # ys)"

definition sort_by :: "('a \<Rightarrow> 'a \<Rightarrow> ordering) \<Rightarrow> 'a list \<Rightarrow> 'a list" where
  "sort_by cmp xs = foldr (insert_by cmp) xs []"

lemma sort_by_Nil [simp]: "sort_by cmp [] = []"
  by (simp add: sort_by_def)

lemma sort_by_Cons: "sort_by cmp (x # xs) = insert_by cmp x (sort_by cmp xs)"
  by (simp add: sort_by_def)

lemma mset_insert_by: "mset (insert_by cmp x ys) = add_mset x (mset ys)"
  by (induction ys) auto

lemma mset_sort_by [rust_list]: "mset (sort_by cmp xs) = mset xs"
  by (induction xs) (auto simp: sort_by_Cons mset_insert_by)

lemma set_sort_by [simp]: "set (sort_by cmp xs) = set xs"
  by (metis mset_sort_by set_mset_mset)

lemma length_sort_by [simp]: "length (sort_by cmp xs) = length xs"
  by (metis mset_sort_by size_mset)

abbreviation sorted_by :: "('a \<Rightarrow> 'a \<Rightarrow> ordering) \<Rightarrow> 'a list \<Rightarrow> bool" where
  "sorted_by cmp \<equiv> sorted_wrt (\<lambda>x y. cmp x y \<noteq> Greater)"

text \<open>
  The contract \<open>slice::sort_by\<close> asks of a comparison function (it may panic on one that
  is not a total preorder).
\<close>

locale comparator =
  fixes cmp :: "'a \<Rightarrow> 'a \<Rightarrow> ordering"
  assumes cmp_swap: "cmp y x = reverse_ordering (cmp x y)"
    and cmp_trans: "cmp x y \<noteq> Greater \<Longrightarrow> cmp y z \<noteq> Greater \<Longrightarrow> cmp x z \<noteq> Greater"
begin

lemma cmp_refl: "cmp x x = Equal"
  using cmp_swap [of x x] by (cases "cmp x x") auto

lemma cmp_total: "cmp x y = Greater \<Longrightarrow> cmp y x \<noteq> Greater"
  using cmp_swap [of x y] by (cases "cmp x y") auto

lemma equal_sym: "cmp x y = Equal \<Longrightarrow> cmp y x = Equal"
  using cmp_swap [of y x] by simp

lemma equal_trans: "cmp x y = Equal \<Longrightarrow> cmp y z = Equal \<Longrightarrow> cmp x z = Equal"
proof -
  assume a: "cmp x y = Equal" "cmp y z = Equal"
  then have "cmp x z \<noteq> Greater" "cmp z x \<noteq> Greater"
    using cmp_trans [of x y z] cmp_trans [of z y x] equal_sym by auto
  then show "cmp x z = Equal" using cmp_swap [of z x] by (cases "cmp x z") simp_all
qed

lemma sorted_insert_by: "sorted_by cmp ys \<Longrightarrow> sorted_by cmp (insert_by cmp x ys)"
proof (induction ys)
  case (Cons y ys)
  have in_set: "set (insert_by cmp x ys) = insert x (set ys)"
    by (metis mset_insert_by set_mset_add_mset_insert set_mset_mset)
  show ?case
  proof (cases "cmp x y = Greater")
    case True
    with Cons cmp_total in_set show ?thesis by auto
  next
    case False
    moreover have "cmp x z \<noteq> Greater" if "z \<in> set ys" for z
      using that False Cons.prems cmp_trans [of x y z] by simp
    ultimately show ?thesis using Cons by simp
  qed
qed simp

lemma sorted_sort_by: "sorted_by cmp (sort_by cmp xs)"
  by (induction xs) (auto simp: sort_by_Cons sorted_insert_by)

lemma insert_by_class:
  "sorted_by cmp ys \<Longrightarrow>
   filter (\<lambda>z. cmp k z = Equal) (insert_by cmp x ys) = filter (\<lambda>z. cmp k z = Equal) (x # ys)"
proof (induction ys)
  case (Cons y ys)
  show ?case
  proof (cases "cmp x y = Greater \<and> cmp k x = Equal")
    case True
    then have "cmp k y \<noteq> Equal"
      by (metis cmp_total equal_sym equal_trans cmp_swap ordering.distinct(5))
    with True Cons show ?thesis by auto
  next
    case False
    with Cons show ?thesis by auto
  qed
qed simp

text \<open>Stability: the elements equal to a given one keep their order.\<close>

lemma sort_by_stable:
  "filter (\<lambda>z. cmp k z = Equal) (sort_by cmp xs) = filter (\<lambda>z. cmp k z = Equal) xs"
  by (induction xs) (simp_all add: sort_by_Cons insert_by_class sorted_sort_by)

lemma sorted_class_unique:
  assumes "sorted_by cmp xs" "sorted_by cmp ys"
    and "\<And>k. filter (\<lambda>z. cmp k z = Equal) xs = filter (\<lambda>z. cmp k z = Equal) ys"
  shows "xs = ys"
  using assms
proof (induction xs arbitrary: ys)
  case Nil
  then show ?case
    by (cases ys) (auto simp: cmp_refl, metis cmp_refl list.discI)
next
  case (Cons x xs)
  from Cons.prems(3) [of x] obtain y ys' where ys: "ys = y # ys'"
    by (cases ys) (auto simp: cmp_refl)
  have "x \<in> set ys"
    using arg_cong [OF Cons.prems(3) [of x], of set] cmp_refl [of x] by force
  moreover have "y \<in> set (filter (\<lambda>z. cmp y z = Equal) (x # xs))"
    unfolding Cons.prems(3) ys by (simp add: cmp_refl)
  then have "y \<in> set (x # xs)" unfolding set_filter by blast
  moreover note this
  ultimately have "cmp x y \<noteq> Greater" "cmp y x \<noteq> Greater"
    using Cons.prems(1,2) ys cmp_refl [of x] cmp_refl [of y] by auto
  then have "cmp x y = Equal" using cmp_swap [of y x] by (cases "cmp x y") simp_all
  then have "x = y" using Cons.prems(3) [of x] ys by (simp add: cmp_refl)
  moreover have "xs = ys'"
  proof (rule Cons.IH)
    show "sorted_by cmp xs" "sorted_by cmp ys'" using Cons.prems ys by auto
    fix k show "filter (\<lambda>z. cmp k z = Equal) xs = filter (\<lambda>z. cmp k z = Equal) ys'"
      using Cons.prems(3) [of k] ys \<open>x = y\<close> by (simp split: if_splits)
  qed
  ultimately show ?case using ys by simp
qed

lemma sort_by_unique:
  assumes "sorted_by cmp ys" "\<And>k. filter (\<lambda>z. cmp k z = Equal) ys = filter (\<lambda>z. cmp k z = Equal) xs"
  shows "sort_by cmp xs = ys"
proof (rule sorted_class_unique)
  show "filter (\<lambda>z. cmp k z = Equal) (sort_by cmp xs) = filter (\<lambda>z. cmp k z = Equal) ys" for k
    using assms(2) [of k] by (simp only: sort_by_stable)
qed (use assms(1) sorted_sort_by in auto)

lemma sort_by_sorted: "sorted_by cmp xs \<Longrightarrow> sort_by cmp xs = xs"
  by (rule sort_by_unique) auto

text \<open>Sorting after every push is the same as one stable sort at the end.\<close>

lemma sort_by_push: "sort_by cmp (sort_by cmp xs @ [x]) = sort_by cmp (xs @ [x])"
  by (rule sort_by_unique) (auto simp: sorted_sort_by sort_by_stable)

text \<open>The first hit in a sorted list is a least one, and the earliest of those.\<close>

lemma find_sorted_least:
  assumes "find P (sort_by cmp xs) = Some x" "y \<in> set xs" "P y"
  shows "cmp x y \<noteq> Greater"
proof -
  obtain us vs where split: "sort_by cmp xs = us @ x # vs" "\<forall>u \<in> set us. \<not> P u"
    using find_first_split [OF assms(1)] by blast
  have "sorted_by cmp (us @ x # vs)" using sorted_sort_by [of xs] split by simp
  moreover have "y \<in> set (us @ x # vs)" using assms(2) split(1) by (metis set_sort_by)
  ultimately show ?thesis using split(2) assms(3) cmp_refl by (auto simp: sorted_wrt_append)
qed

lemma find_sorted_earliest:
  assumes "find P (sort_by cmp xs) = Some x"
  shows "find (\<lambda>y. cmp x y = Equal \<and> P y) xs = Some x"
proof -
  obtain us vs where split: "sort_by cmp xs = us @ x # vs" "P x" "\<forall>u \<in> set us. \<not> P u"
    using find_first_split [OF assms] by blast
  have "find (\<lambda>y. cmp x y = Equal \<and> P y) ys = find P (filter (\<lambda>y. cmp x y = Equal) ys)" for ys
    by (simp add: find_filter)
  then have "find (\<lambda>y. cmp x y = Equal \<and> P y) xs = find (\<lambda>y. cmp x y = Equal \<and> P y) (us @ x # vs)"
    using sort_by_stable [of x xs] split(1) by simp
  moreover have "find Q (ws @ zs) = find Q zs" if "\<forall>w \<in> set ws. \<not> Q w" for Q and ws zs :: "'a list"
    using that by (induction ws) auto
  ultimately show ?thesis using split(2,3) cmp_refl by simp
qed

end

section \<open>Lists\<close>

lemma distinct_map_filterI: "distinct (map f xs) \<Longrightarrow> distinct (map f (filter P xs))"
  by (induction xs) auto

end
