(* ===== verification/Route_Pattern.thy ===== *)
theory Route_Pattern
  imports Prelude
begin

text \<open>
  Route paths and route patterns (\<open>nivasa-routing/src/lib.rs\<close>): normalisation and splitting of
  paths, the pattern parser and printer, the matcher with its captures, and the specificity
  order that decides which of two routes is tried first. \<open>wf_pattern\<close> is the invariant the parser
  establishes; \<open>seg_match\<close> is the declarative meaning of a pattern.
\<close>

section \<open>Paths\<close>

definition normalize_path :: "string \<Rightarrow> string" where
  "normalize_path path =
     (let trimmed = trim path in
      if trimmed = [] then ''/''
      else
        let prefixed = (if starts_with trimmed ''/'' then trimmed else ''/'' @ trimmed) in
        if length prefixed > 1 then trim_end_matches (\<lambda>c. c = CHR ''/'') prefixed else prefixed)"

definition split_path_segments :: "string \<Rightarrow> string list" where
  "split_path_segments path = filter (\<lambda>segment. segment \<noteq> []) (split_on (CHR ''/'') path)"

definition join_segments :: "string list \<Rightarrow> string" where
  "join_segments segments = (if segments = [] then ''/'' else ''/'' @ join ''/'' segments)"

definition first_path_segment :: "string \<Rightarrow> string option" where
  "first_path_segment path = find (\<lambda>segment. segment \<noteq> []) (split_on (CHR ''/'') path)"

definition merge_route_paths :: "string \<Rightarrow> string \<Rightarrow> string" where
  "merge_route_paths prefix0 path0 =
     (let prefix = trim prefix0; path = trim path0;
          normalized_prefix = trim_end_matches (\<lambda>c. c = CHR ''/'') prefix;
          normalized_path = trim_matches (\<lambda>c. c = CHR ''/'') path
      in case (normalized_prefix = [], normalized_path = []) of
           (True, True) \<Rightarrow> ''/''
         | (True, False) \<Rightarrow> ''/'' @ normalized_path
         | (False, True) \<Rightarrow> normalized_prefix
         | (False, False) \<Rightarrow> normalized_prefix @ ''/'' @ normalized_path)"

section \<open>Patterns\<close>

datatype RoutePatternSegment =
    Literal string
  | Parameter string
  | OptionalParameter string
  | Wildcard "string option"

datatype RoutePattern =
    Static "string list"
  | Pattern "RoutePatternSegment list"

datatype RouteRegistryError =
    DuplicateRoute string
  | UnsupportedPatternSegment string string

definition unsupported_segment :: "string \<Rightarrow> string \<Rightarrow> RouteRegistryError" where
  "unsupported_segment path segment = UnsupportedPatternSegment path segment"

text \<open>
  The loop of \<open>parse_segments\<close>. The segments still to read replace the index, so
  \<open>index != segments.len() - 1\<close> is \<open>rest \<noteq> []\<close>.
\<close>

fun parse_segments_loop ::
  "string \<Rightarrow> bool \<Rightarrow> RoutePatternSegment list \<Rightarrow> string list \<Rightarrow> RouteRegistryError + RoutePatternSegment list" where
  "parse_segments_loop path saw_wildcard parsed [] = Inr parsed"
| "parse_segments_loop path saw_wildcard parsed (segment # rest) =
     (if saw_wildcard then Inl (unsupported_segment path segment)
      else if ends_with segment ''?'' then
        if rest \<noteq> [] then Inl (unsupported_segment path segment)
        else case strip_prefix (trim_end_matches (\<lambda>c. c = CHR ''?'') segment) '':'' of
               None \<Rightarrow> Inl (unsupported_segment path segment)
             | Some name \<Rightarrow>
                 if name = [] then Inl (unsupported_segment path segment)
                 else parse_segments_loop path saw_wildcard (parsed @ [OptionalParameter name]) rest
      else case strip_prefix segment '':'' of
          Some name \<Rightarrow>
            if name = [] then Inl (unsupported_segment path segment)
            else parse_segments_loop path saw_wildcard (parsed @ [Parameter name]) rest
        | None \<Rightarrow> (case strip_prefix segment ''*'' of
            Some name \<Rightarrow>
              if rest \<noteq> [] then Inl (unsupported_segment path segment)
              else parse_segments_loop path True
                     (parsed @ [Wildcard (if name = [] then None else Some name)]) rest
          | None \<Rightarrow> parse_segments_loop path saw_wildcard (parsed @ [Literal segment]) rest))"

definition parse_segments :: "string \<Rightarrow> RouteRegistryError + RoutePatternSegment list" where
  "parse_segments path = parse_segments_loop path False [] (split_path_segments path)"

fun segment_label :: "RoutePatternSegment \<Rightarrow> string" where
  "segment_label (Literal val) = val"
| "segment_label (Parameter name) = '':'' @ name"
| "segment_label (OptionalParameter name) = '':'' @ name @ ''?''"
| "segment_label (Wildcard name) = (case name of Some val \<Rightarrow> ''*'' @ val | None \<Rightarrow> ''*'')"

fun is_literal :: "RoutePatternSegment \<Rightarrow> bool" where
  "is_literal (Literal _) = True"
| "is_literal _ = False"

fun literal_value :: "RoutePatternSegment \<Rightarrow> string" where
  "literal_value (Literal val) = val"
| "literal_value _ = []"

definition static_path :: "string \<Rightarrow> RouteRegistryError + RoutePattern" where
  "static_path path =
     (let normalized = normalize_path path in
      case parse_segments normalized of
        Inl err \<Rightarrow> Inl err
      | Inr segments \<Rightarrow>
          (case find (\<lambda>segment. \<not> is_literal segment) segments of
             Some segment \<Rightarrow> Inl (unsupported_segment normalized (segment_label segment))
           | None \<Rightarrow> Inr (Static (map literal_value segments))))"

definition parse_pattern :: "string \<Rightarrow> RouteRegistryError + RoutePattern" where
  "parse_pattern path =
     (case parse_segments (normalize_path path) of
        Inl err \<Rightarrow> Inl err
      | Inr segments \<Rightarrow>
          if list_all is_literal segments then Inr (Static (map literal_value segments))
          else Inr (Pattern segments))"

fun pattern_path :: "RoutePattern \<Rightarrow> string" where
  "pattern_path (Static segments) = join_segments segments"
| "pattern_path (Pattern segments) = join_segments (map segment_label segments)"

fun route_pattern_first_segment :: "RoutePattern \<Rightarrow> string option" where
  "route_pattern_first_segment (Static segments) =
     (case segments of [] \<Rightarrow> None | segment # _ \<Rightarrow> Some segment)"
| "route_pattern_first_segment (Pattern segments) =
     (case segments of Literal val # _ \<Rightarrow> Some val | _ \<Rightarrow> None)"

section \<open>Matching and captures\<close>

record RoutePathCaptures =
  parameters :: "(string \<times> string) list"
  wildcard :: "(string option \<times> string) option"

definition captures_default :: RoutePathCaptures where
  "captures_default = \<lparr>parameters = [], wildcard = None\<rparr>"

definition push_parameter :: "RoutePathCaptures \<Rightarrow> string \<Rightarrow> string \<Rightarrow> RoutePathCaptures" where
  "push_parameter caps name val = caps\<lparr>parameters := parameters caps @ [(name, val)]\<rparr>"

definition set_wildcard :: "RoutePathCaptures \<Rightarrow> string option \<Rightarrow> string \<Rightarrow> RoutePathCaptures" where
  "set_wildcard caps name val = caps\<lparr>wildcard := Some (name, val)\<rparr>"

definition captures_len :: "RoutePathCaptures \<Rightarrow> nat" where
  "captures_len caps = length (parameters caps) + (if wildcard caps \<noteq> None then 1 else 0)"

definition captures_is_empty :: "RoutePathCaptures \<Rightarrow> bool" where
  "captures_is_empty caps \<longleftrightarrow> parameters caps = [] \<and> wildcard caps = None"

definition captures_get :: "RoutePathCaptures \<Rightarrow> string \<Rightarrow> string option" where
  "captures_get caps name =
     (case find (\<lambda>(key, val). key = name) (parameters caps) of
        Some (_, val) \<Rightarrow> Some val
      | None \<Rightarrow>
          (case wildcard caps of
             Some (Some key, val) \<Rightarrow> if key = name then Some val else None
           | Some (None, val) \<Rightarrow> if name = ''*'' then Some val else None
           | None \<Rightarrow> None))"

definition captures_iter :: "RoutePathCaptures \<Rightarrow> (string \<times> string) list" where
  "captures_iter caps =
     parameters caps @
     (case wildcard caps of
        None \<Rightarrow> []
      | Some (name, val) \<Rightarrow> [(case name of Some key \<Rightarrow> key | None \<Rightarrow> ''*'', val)])"

text \<open>
  \<open>matches_pattern_from\<close>. The suffixes of the pattern and of the candidate replace the two
  indices; \<open>None\<close> is the result \<open>false\<close>, whose captures no caller reads.
\<close>

fun matches_pattern_from ::
  "RoutePatternSegment list \<Rightarrow> string list \<Rightarrow> RoutePathCaptures \<Rightarrow> RoutePathCaptures option" where
  "matches_pattern_from [] candidate caps = (if candidate = [] then Some caps else None)"
| "matches_pattern_from (Literal expected # pattern) candidate caps =
     (case candidate of
        [] \<Rightarrow> None
      | actual # rest \<Rightarrow>
          if actual \<noteq> expected then None else matches_pattern_from pattern rest caps)"
| "matches_pattern_from (Parameter name # pattern) candidate caps =
     (case candidate of
        [] \<Rightarrow> None
      | val # rest \<Rightarrow> matches_pattern_from pattern rest (push_parameter caps name val))"
| "matches_pattern_from (OptionalParameter name # pattern) candidate caps =
     (case matches_pattern_from pattern candidate caps of
        Some skipped \<Rightarrow> Some skipped
      | None \<Rightarrow>
          (case candidate of
             [] \<Rightarrow> None
           | val # rest \<Rightarrow> matches_pattern_from pattern rest (push_parameter caps name val)))"
| "matches_pattern_from (Wildcard name # pattern) candidate caps =
     (if pattern \<noteq> [] then None else Some (set_wildcard caps name (join ''/'' candidate)))"

definition capture_pattern :: "RoutePatternSegment list \<Rightarrow> string list \<Rightarrow> RoutePathCaptures option" where
  "capture_pattern pattern candidate = matches_pattern_from pattern candidate captures_default"

definition captures :: "RoutePattern \<Rightarrow> string \<Rightarrow> RoutePathCaptures option" where
  "captures pattern path =
     (let candidate_segments = split_path_segments (normalize_path path) in
      case pattern of
        Static expected \<Rightarrow>
          if expected = candidate_segments then Some captures_default else None
      | Pattern expected \<Rightarrow> capture_pattern expected candidate_segments)"

definition matches :: "RoutePattern \<Rightarrow> string \<Rightarrow> bool" where
  "matches pattern path \<longleftrightarrow> captures pattern path \<noteq> None"

section \<open>Specificity\<close>

datatype RouteSegmentKind = KLiteral | KParameter | KOptionalParameter | KWildcard

fun rank :: "RouteSegmentKind \<Rightarrow> nat" where
  "rank KLiteral = 3"
| "rank KParameter = 2"
| "rank KOptionalParameter = 1"
| "rank KWildcard = 0"

fun segment_rank :: "RoutePatternSegment \<Rightarrow> nat" where
  "segment_rank (Literal _) = rank KLiteral"
| "segment_rank (Parameter _) = rank KParameter"
| "segment_rank (OptionalParameter _) = rank KOptionalParameter"
| "segment_rank (Wildcard _) = rank KWildcard"

fun specificity :: "RoutePattern \<Rightarrow> nat list" where
  "specificity (Static segments) = replicate (length segments) (rank KLiteral)"
| "specificity (Pattern segments) = map segment_rank segments"

fun cmp_pairs :: "(nat \<times> nat) list \<Rightarrow> ordering" where
  "cmp_pairs [] = Equal"
| "cmp_pairs ((lhs, rhs) # pairs) =
     (let ordering = cmp_of rhs lhs in if ordering \<noteq> Equal then ordering else cmp_pairs pairs)"

definition cmp_specificity :: "RoutePattern \<Rightarrow> RoutePattern \<Rightarrow> ordering" where
  "cmp_specificity self other =
     (let self_specificity = specificity self; other_specificity = specificity other;
          ordering = cmp_pairs (zip self_specificity other_specificity)
      in if ordering \<noteq> Equal then ordering
         else cmp_of (length self_specificity) (length other_specificity))"

section \<open>The specificity order is a total preorder\<close>

fun rank_cmp :: "nat list \<Rightarrow> nat list \<Rightarrow> ordering" where
  "rank_cmp [] [] = Equal"
| "rank_cmp [] (y # ys) = Less"
| "rank_cmp (x # xs) [] = Greater"
| "rank_cmp (x # xs) (y # ys) =
     (if y < x then Less else if x < y then Greater else rank_cmp xs ys)"

lemma cmp_specificity_rank_cmp:
  "cmp_specificity p q = rank_cmp (specificity p) (specificity q)"
proof -
  have "(if cmp_pairs (zip xs ys) \<noteq> Equal then cmp_pairs (zip xs ys)
         else cmp_of (length xs) (length ys)) = rank_cmp xs ys" for xs ys
  proof (induction xs ys rule: rank_cmp.induct)
    case (4 x xs y ys)
    have suc: "cmp_of (Suc m) (Suc n) = cmp_of m n" for m n :: nat by (simp add: cmp_of_def)
    have same: "cmp_of x x = Equal" and "y < x \<Longrightarrow> cmp_of y x = Less" "x < y \<Longrightarrow> cmp_of y x = Greater"
      by (simp_all add: cmp_of_def)
    with 4 suc show ?case
      by (cases x y rule: linorder_cases) (auto simp: Let_def split: if_splits)
  qed (simp_all add: cmp_of_def)
  then show ?thesis unfolding cmp_specificity_def Let_def .
qed

lemma rank_cmp_swap: "reverse_ordering (rank_cmp xs ys) = rank_cmp ys xs"
  by (induction xs ys rule: rank_cmp.induct) simp_all

lemma rank_cmp_trans:
  "rank_cmp xs ys \<noteq> Greater \<Longrightarrow> rank_cmp ys zs \<noteq> Greater \<Longrightarrow> rank_cmp xs zs \<noteq> Greater"
proof (induction xs ys arbitrary: zs rule: rank_cmp.induct)
  case (2 y ys)
  then show ?case by (cases zs) simp_all
next
  case (4 x xs y ys)
  then obtain z zs' where zs: "zs = z # zs'" by (cases zs) simp_all
  have le: "x \<ge> y" "y \<ge> z" using "4.prems" zs by (auto simp: not_less split: if_splits)
  show ?case
  proof (cases "x = y \<and> y = z")
    case True
    with "4.prems" "4.IH" [of zs'] zs show ?thesis by simp
  next
    case False
    with le zs show ?thesis by auto
  qed
qed simp_all

interpretation pattern_order: comparator cmp_specificity
proof
  show "cmp_specificity q p = reverse_ordering (cmp_specificity p q)" for p q
    unfolding cmp_specificity_rank_cmp by (rule rank_cmp_swap [symmetric])
  show "cmp_specificity p r \<noteq> Greater"
    if "cmp_specificity p q \<noteq> Greater" "cmp_specificity q r \<noteq> Greater" for p q r
    using that unfolding cmp_specificity_rank_cmp by (rule rank_cmp_trans)
qed

text \<open>The order of the entries of a route table: by their patterns.\<close>

lemma comparator_on: "comparator cmp \<Longrightarrow> comparator (\<lambda>x y. cmp (f x) (f y))"
  unfolding comparator_def by blast

section \<open>Segments of a path\<close>

lemma split_path_append_sep:
  "split_path_segments (xs @ CHR ''/'' # ys) = split_path_segments xs @ split_path_segments ys"
proof -
  have "split_on c (us @ c # vs) = split_on c us @ split_on c vs" for c :: char and us vs
  proof (induction us)
    case (Cons u us)
    then show ?case by (cases "split_on c us") auto
  qed simp
  then show ?thesis by (simp add: split_path_segments_def)
qed

lemma split_path_Nil [simp]: "split_path_segments [] = []"
  by (simp add: split_path_segments_def)

lemma split_path_slash [simp]: "split_path_segments (CHR ''/'' # s) = split_path_segments s"
  by (simp add: split_path_segments_def)

lemma split_path_snoc_slash [simp]: "split_path_segments (s @ [CHR ''/'']) = split_path_segments s"
  using split_path_append_sep [of s "[]"] by simp

lemma split_path_trim_end [simp]:
  "split_path_segments (trim_end_matches (\<lambda>c. c = CHR ''/'') s) = split_path_segments s"
proof (induction s rule: rev_induct)
  case (snoc x xs)
  then show ?case by (cases "x = CHR ''/''") (simp_all add: trim_end_matches_snoc)
qed simp

lemma split_path_trim_start [simp]:
  "split_path_segments (trim_start_matches (\<lambda>c. c = CHR ''/'') s) = split_path_segments s"
  by (induction s) (auto simp: trim_start_matches_def)

lemma split_path_trim_matches [simp]:
  "split_path_segments (trim_matches (\<lambda>c. c = CHR ''/'') s) = split_path_segments s"
  by (simp add: trim_matches_def)

lemma split_path_normalize: "split_path_segments (normalize_path s) = split_path_segments (trim s)"
  by (auto simp: normalize_path_def Let_def)

lemma split_path_merge:
  "split_path_segments (merge_route_paths a b) =
   split_path_segments (trim a) @ split_path_segments (trim b)"
proof -
  let ?a = "trim_end_matches (\<lambda>c. c = CHR ''/'') (trim a)"
  let ?b = "trim_matches (\<lambda>c. c = CHR ''/'') (trim b)"
  have "split_path_segments (merge_route_paths a b) = split_path_segments ?a @ split_path_segments ?b"
    by (cases "?a = []"; cases "?b = []")
       (simp_all add: merge_route_paths_def Let_def split_path_append_sep)
  then show ?thesis by simp
qed

lemma split_path_nonempty: "p \<in> set (split_path_segments s) \<Longrightarrow> p \<noteq> []"
  by (simp add: split_path_segments_def)

lemma split_path_slash_free: "p \<in> set (split_path_segments s) \<Longrightarrow> CHR ''/'' \<notin> set p"
  by (auto simp: split_path_segments_def dest: split_on_sep_free)

lemma split_join_segments:
  assumes "\<And>p. p \<in> set ps \<Longrightarrow> p \<noteq> [] \<and> CHR ''/'' \<notin> set p"
  shows "split_path_segments (join_segments ps) = ps"
proof (cases "ps = []")
  case False
  with assms have "filter (\<lambda>segment. segment \<noteq> []) (split_on (CHR ''/'') (join ''/'' ps)) = ps"
    by (subst split_on_join) (auto simp: filter_id_conv)
  with False show ?thesis by (simp add: join_segments_def split_path_segments_def)
qed (simp add: join_segments_def)

lemma first_path_segment_eq:
  "first_path_segment s = (case split_path_segments s of [] \<Rightarrow> None | p # _ \<Rightarrow> Some p)"
proof -
  have "find P xs = (case filter P xs of [] \<Rightarrow> None | x # _ \<Rightarrow> Some x)" for P and xs :: "'a list"
    by (induction xs) auto
  then show ?thesis by (simp add: first_path_segment_def split_path_segments_def)
qed

lemma normalize_path_cases:
  "normalize_path s = ''/'' \<or> normalize_path s = [] \<or>
   (\<exists>t c. normalize_path s = CHR ''/'' # t @ [c] \<and> c \<noteq> CHR ''/'')"
proof -
  let ?P = "\<lambda>c. c = CHR ''/''"
  consider "normalize_path s = ''/''" | u where "normalize_path s = trim_end_matches ?P (CHR ''/'' # u)" "u \<noteq> []"
  proof (cases "trim s")
    case Nil
    with that(1) show thesis by (simp add: normalize_path_def)
  next
    case (Cons a list)
    with that(1) that(2) [of list] that(2) [of "a # list"] show thesis
      by (cases "a = CHR ''/''"; cases "list = []") (simp_all add: normalize_path_def)
  qed
  then show ?thesis
  proof cases
    case 2
    obtain t where t: "CHR ''/'' # u = normalize_path s @ t"
      using 2 trim_end_matches_decomp [of "CHR ''/'' # u" ?P] by metis
    show ?thesis
    proof (cases "normalize_path s")
      case (Cons x xs)
      then have "\<not> ?P (last (normalize_path s))"
        using 2 trim_end_matches_last [of ?P "CHR ''/'' # u"] by simp
      with Cons t show ?thesis by (cases xs rule: rev_cases) auto
    qed simp
  qed simp
qed

text \<open>A normalised path without trailing white space is stable under a second normalisation,
  as far as its segments go. (\<open>"/a /"\<close> is not: its normal form \<open>"/a "\<close> normalises to \<open>"/a"\<close>.)\<close>

lemma split_path_normalize_twice:
  "trim (normalize_path s) = normalize_path s \<Longrightarrow>
   split_path_segments (normalize_path (normalize_path s)) = split_path_segments (normalize_path s)"
  by (simp add: split_path_normalize)

lemma set_normalize_path: "set (normalize_path s) \<subseteq> insert (CHR ''/'') (set s)"
  using set_trim [of s] set_trim_end_matches [of "\<lambda>c. c = CHR ''/''"]
  by (fastforce simp: normalize_path_def Let_def split: if_splits)

lemma whitespace_free_normalize:
  assumes "\<And>c. c \<in> set s \<Longrightarrow> \<not> is_whitespace c"
  shows "trim (normalize_path s) = normalize_path s"
  using assms set_normalize_path [of s] by (intro trim_id) (auto simp: is_whitespace_def)

lemma normalize_path_join:
  assumes "\<And>p. p \<in> set ps \<Longrightarrow> p \<noteq> [] \<and> CHR ''/'' \<notin> set p"
    and "trim (join_segments ps) = join_segments ps"
  shows "normalize_path (join_segments ps) = join_segments ps"
proof (cases ps rule: rev_cases)
  case Nil
  then show ?thesis using assms(2) by (simp add: normalize_path_def join_segments_def Let_def)
next
  case (snoc qs q)
  with assms(1) obtain q' c where q: "q = q' @ [c]" "c \<noteq> CHR ''/''"
    by (cases q rule: rev_cases) fastforce+
  have "\<exists>t. join sep (qs @ [q]) = t @ [c]" for sep
    using q by (induction qs rule: induct_list012) auto
  then obtain t where t: "join_segments ps = CHR ''/'' # t @ [c]"
    using snoc by (auto simp: join_segments_def)
  then have "trim_end_matches (\<lambda>c. c = CHR ''/'') (join_segments ps) = join_segments ps"
    using q trim_end_matches_snoc [of "\<lambda>c. c = CHR ''/''" "CHR ''/'' # t" c] by simp
  with t assms(2) show ?thesis by (simp add: normalize_path_def Let_def)
qed

section \<open>Well-formed patterns; parsing and printing\<close>

definition plain_name :: "string \<Rightarrow> bool" where
  "plain_name name \<longleftrightarrow> name \<noteq> [] \<and> CHR ''/'' \<notin> set name \<and> last name \<noteq> CHR ''?''"

fun wf_segments :: "RoutePatternSegment list \<Rightarrow> bool" where
  "wf_segments [] = True"
| "wf_segments (Literal val # rest) =
     (plain_name val \<and> hd val \<notin> {CHR '':'', CHR ''*''} \<and> wf_segments rest)"
| "wf_segments (Parameter name # rest) = (plain_name name \<and> wf_segments rest)"
| "wf_segments (OptionalParameter name # rest) = (plain_name name \<and> rest = [])"
| "wf_segments (Wildcard name # rest) =
     ((case name of None \<Rightarrow> True | Some val \<Rightarrow> plain_name val) \<and> rest = [])"

fun segments_of :: "RoutePattern \<Rightarrow> RoutePatternSegment list" where
  "segments_of (Static segments) = map Literal segments"
| "segments_of (Pattern segments) = segments"

fun wf_pattern :: "RoutePattern \<Rightarrow> bool" where
  "wf_pattern (Static segments) = wf_segments (map Literal segments)"
| "wf_pattern (Pattern segments) = (wf_segments segments \<and> \<not> list_all is_literal segments)"

lemma pattern_path_segments_of: "pattern_path p = join_segments (map segment_label (segments_of p))"
proof (cases p)
  case (Static segments)
  have "map (segment_label \<circ> Literal) segments = segments" by (induction segments) auto
  with Static show ?thesis by simp
qed simp

lemma ends_with_last: "s \<noteq> [] \<Longrightarrow> ends_with s [c] \<longleftrightarrow> last s = c"
  by (cases s rule: rev_cases) (auto simp: ends_with_single)

lemma strip_prefix_single: "strip_prefix s [c] = (case s of x # t \<Rightarrow> if x = c then Some t else None | [] \<Rightarrow> None)"
  by (auto simp: strip_prefix_def split: list.splits)

lemma label_plain:
  "wf_segments segs \<Longrightarrow> segment \<in> set segs \<Longrightarrow>
   segment_label segment \<noteq> [] \<and> CHR ''/'' \<notin> set (segment_label segment)"
  by (induction segs rule: wf_segments.induct) (auto simp: plain_name_def split: option.splits)

lemma trim_optional_label:
  "plain_name name \<Longrightarrow> trim_end_matches (\<lambda>c. c = CHR ''?'') ('':'' @ name @ ''?'') = '':'' @ name"
proof -
  assume "plain_name name"
  then obtain t c where "name = t @ [c]" "c \<noteq> CHR ''?''"
    by (cases name rule: rev_cases) (auto simp: plain_name_def)
  then show ?thesis
    using trim_end_matches_snoc [of "\<lambda>c. c = CHR ''?''" "CHR '':'' # name" "CHR ''?''"]
      trim_end_matches_snoc [of "\<lambda>c. c = CHR ''?''" "CHR '':'' # t" c] by simp
qed

lemma parse_loop_labels:
  "wf_segments segs \<Longrightarrow>
   parse_segments_loop p False parsed (map segment_label segs) = Inr (parsed @ segs)"
proof (induction segs arbitrary: parsed rule: wf_segments.induct)
  case (2 val rest)
  then show ?case by (cases val) (auto simp: plain_name_def ends_with_last strip_prefix_single)
next
  case (3 name rest)
  then show ?case by (auto simp: plain_name_def ends_with_last strip_prefix_single)
next
  case (4 name rest)
  then have "plain_name name" by simp
  then have "trim_end_matches (\<lambda>c. c = CHR ''?'') (CHR '':'' # name @ ''?'') = CHR '':'' # name"
    using trim_optional_label by simp
  with 4 show ?case
    by (simp add: plain_name_def ends_with_last strip_prefix_single)
next
  case (5 name rest)
  then show ?case
    by (auto simp: plain_name_def ends_with_last strip_prefix_single split: option.splits)
qed simp

lemma optional_base_plain:
  assumes "strip_prefix (trim_end_matches (\<lambda>c. c = CHR ''?'') segment) '':'' = Some name"
    "name \<noteq> []" "CHR ''/'' \<notin> set segment"
  shows "plain_name name"
proof -
  have eq: "trim_end_matches (\<lambda>c. c = CHR ''?'') segment = CHR '':'' # name"
    using assms(1) by (simp add: strip_prefix_eq_Some)
  then have "last name \<noteq> CHR ''?''"
    using trim_end_matches_last [of "\<lambda>c. c = CHR ''?''" segment] assms(2) by simp
  moreover have "set name \<subseteq> set segment"
    using set_trim_end_matches [of "\<lambda>c. c = CHR ''?''" segment] unfolding eq by auto
  ultimately show ?thesis using assms by (auto simp: plain_name_def)
qed

lemma parse_loop_saw_wildcard:
  "parse_segments_loop p True parsed segs = Inr out \<Longrightarrow> segs = [] \<and> out = parsed"
  by (cases segs) auto

lemma parse_loop_wf:
  assumes "parse_segments_loop p False parsed segs = Inr out"
    and "\<And>s. s \<in> set segs \<Longrightarrow> s \<noteq> [] \<and> CHR ''/'' \<notin> set s"
  shows "\<exists>tail. out = parsed @ tail \<and> wf_segments tail"
  using assms
proof (induction segs arbitrary: parsed)
  case (Cons segment rest)
  have seg: "segment \<noteq> []" "CHR ''/'' \<notin> set segment" using Cons.prems(2) by auto
  have IH: "\<exists>tail. out = parsed' @ tail \<and> wf_segments tail"
    if "parse_segments_loop p False parsed' rest = Inr out" for parsed'
    using that by (rule Cons.IH) (use Cons.prems(2) in auto)
  show ?case
  proof (cases "last segment = CHR ''?''")
    case True
    with Cons.prems(1) seg obtain name where
      name: "strip_prefix (trim_end_matches (\<lambda>c. c = CHR ''?'') segment) '':'' = Some name" "name \<noteq> []"
      and "rest = []" "out = parsed @ [OptionalParameter name]"
      by (auto simp: ends_with_last split: if_splits option.splits)
    with optional_base_plain [OF name] seg show ?thesis by auto
  next
    case no_mark: False
    obtain x t where xt: "segment = x # t" using seg by (cases segment) auto
    show ?thesis
    proof (cases "x = CHR '':'' \<or> x \<noteq> CHR ''*''")
      case True
      define part where "part = (if x = CHR '':'' then Parameter t else Literal segment)"
      have ok: "parse_segments_loop p False (parsed @ [part]) rest = Inr out" "x = CHR '':'' \<longrightarrow> t \<noteq> []"
        using Cons.prems(1) no_mark seg xt True
        by (auto simp: part_def ends_with_last strip_prefix_single split: if_splits)
      obtain tail where "out = (parsed @ [part]) @ tail" "wf_segments tail"
        using IH [OF ok(1)] by auto
      moreover have "wf_segments (part # tail) = wf_segments tail"
        using ok(2) no_mark seg xt True by (auto simp: part_def plain_name_def)
      ultimately show ?thesis by (intro exI [of _ "part # tail"]) simp
    next
      case False
      then have "parse_segments_loop p True (parsed @ [Wildcard (if t = [] then None else Some t)]) rest = Inr out"
        using Cons.prems(1) no_mark seg xt
        by (auto simp: ends_with_last strip_prefix_single split: if_splits)
      from parse_loop_saw_wildcard [OF this]
      have "out = parsed @ [Wildcard (if t = [] then None else Some t)]" by simp
      then show ?thesis using no_mark seg xt
        by (intro exI [of _ "[Wildcard (if t = [] then None else Some t)]"]) (auto simp: plain_name_def)
    qed
  qed
qed simp

lemma map_literal_value: "list_all is_literal segs \<Longrightarrow> map Literal (map literal_value segs) = segs"
proof (induction segs)
  case (Cons s segs)
  then show ?case by (cases s) auto
qed simp

lemma parse_pattern_wf: "parse_pattern s = Inr p \<Longrightarrow> wf_pattern p"
proof -
  assume a: "parse_pattern s = Inr p"
  then obtain segs where segs: "parse_segments (normalize_path s) = Inr segs"
    by (auto simp: parse_pattern_def split: sum.splits)
  then have "wf_segments segs"
    using parse_loop_wf [of "normalize_path s" "[]"] split_path_nonempty split_path_slash_free
    unfolding parse_segments_def by fastforce
  with a segs show ?thesis
    by (auto simp: parse_pattern_def simp del: map_map simp: map_literal_value split: if_splits)
qed

lemma wf_pattern_segments: "wf_pattern p \<Longrightarrow> wf_segments (segments_of p)"
  by (cases p) auto

lemma split_pattern_path:
  "wf_pattern p \<Longrightarrow> split_path_segments (pattern_path p) = map segment_label (segments_of p)"
  unfolding pattern_path_segments_of
  by (rule split_join_segments) (use label_plain wf_pattern_segments in fastforce)

lemma parse_pattern_path:
  assumes "wf_pattern p" "trim (pattern_path p) = pattern_path p"
  shows "parse_pattern (pattern_path p) = Inr p"
proof -
  have "normalize_path (pattern_path p) = pattern_path p"
    using assms label_plain [OF wf_pattern_segments [OF assms(1)]]
    unfolding pattern_path_segments_of by (intro normalize_path_join) auto
  then have "parse_segments (normalize_path (pattern_path p)) = Inr (segments_of p)"
    using assms(1) parse_loop_labels [OF wf_pattern_segments, of p _ "[]"]
    by (simp add: parse_segments_def split_pattern_path)
  moreover have "literal_value \<circ> Literal = id" by auto
  ultimately show ?thesis
    using assms(1) by (cases p) (auto simp: parse_pattern_def list_all_iff)
qed

lemma pattern_path_inject:
  "wf_pattern p \<Longrightarrow> wf_pattern q \<Longrightarrow> pattern_path p = pattern_path q \<Longrightarrow> p = q"
proof -
  assume a: "wf_pattern p" "wf_pattern q" "pattern_path p = pattern_path q"
  then have "map segment_label (segments_of p) = map segment_label (segments_of q)"
    by (metis split_pattern_path)
  then have "segments_of p = segments_of q"
    using parse_loop_labels [OF wf_pattern_segments] a by (metis append_Nil sum.inject(2))
  with a show ?thesis
    by (cases p; cases q) (auto simp: list_all_iff dest: inj_map_eq_map [THEN iffD1, rotated] simp: inj_def)
qed

section \<open>The meaning of a pattern\<close>

text \<open>
  \<open>seg_match segs cand params wild\<close>: the candidate's segments are an instance of the pattern, with
  these parameter values in the pattern's order and this wildcard remainder.
\<close>

inductive seg_match ::
  "RoutePatternSegment list \<Rightarrow> string list \<Rightarrow> (string \<times> string) list \<Rightarrow> (string option \<times> string) option \<Rightarrow> bool"
where
  nil: "seg_match [] [] [] None"
| literal: "seg_match segs cand ps w \<Longrightarrow> seg_match (Literal val # segs) (val # cand) ps w"
| parameter: "seg_match segs cand ps w \<Longrightarrow> seg_match (Parameter name # segs) (val # cand) ((name, val) # ps) w"
| optional_absent: "seg_match segs cand ps w \<Longrightarrow> seg_match (OptionalParameter name # segs) cand ps w"
| optional_present:
    "seg_match segs cand ps w \<Longrightarrow> seg_match (OptionalParameter name # segs) (val # cand) ((name, val) # ps) w"
| wildcard: "seg_match [Wildcard name] cand [] (Some (name, join ''/'' cand))"

inductive_cases seg_match_NilE: "seg_match [] cand ps w"
inductive_cases seg_match_LiteralE: "seg_match (Literal val # segs) cand ps w"
inductive_cases seg_match_ParameterE: "seg_match (Parameter name # segs) cand ps w"
inductive_cases seg_match_OptionalE: "seg_match (OptionalParameter name # segs) cand ps w"
inductive_cases seg_match_WildcardE: "seg_match (Wildcard name # segs) cand ps w"

lemmas seg_match_elims =
  seg_match_NilE seg_match_LiteralE seg_match_ParameterE seg_match_OptionalE seg_match_WildcardE

definition add_captures ::
  "RoutePathCaptures \<Rightarrow> (string \<times> string) list \<Rightarrow> (string option \<times> string) option \<Rightarrow> RoutePathCaptures" where
  "add_captures caps ps w =
     caps\<lparr>parameters := parameters caps @ ps,
          wildcard := (case w of None \<Rightarrow> wildcard caps | Some x \<Rightarrow> Some x)\<rparr>"

lemma add_captures_Nil [simp]: "add_captures caps [] None = caps"
  by (simp add: add_captures_def)

lemma add_captures_push [simp]:
  "add_captures (push_parameter caps name val) ps w = add_captures caps ((name, val) # ps) w"
  by (simp add: add_captures_def push_parameter_def split: option.splits)

lemma add_captures_wildcard [simp]:
  "set_wildcard caps name val = add_captures caps [] (Some (name, val))"
  by (simp add: add_captures_def set_wildcard_def)

lemma matches_pattern_from_sound:
  "matches_pattern_from segs cand caps = Some out \<Longrightarrow>
   \<exists>ps w. seg_match segs cand ps w \<and> out = add_captures caps ps w"
proof (induction segs cand caps arbitrary: out rule: matches_pattern_from.induct)
  case (1 cand caps)
  then show ?case by (metis add_captures_Nil nil option.distinct(1) option.inject matches_pattern_from.simps(1))
next
  case (2 expected segs cand caps)
  then show ?case by (fastforce split: list.splits if_splits intro: seg_match.literal)
next
  case (3 name segs cand caps)
  then show ?case by (fastforce split: list.splits intro: seg_match.parameter)
next
  case (4 name segs cand caps)
  then show ?case
    by (cases "matches_pattern_from segs cand caps")
       (fastforce split: list.splits intro: seg_match.optional_present seg_match.optional_absent)+
next
  case (5 name segs cand caps)
  then show ?case by (fastforce split: if_splits intro: seg_match.wildcard)
qed

lemma matches_pattern_from_complete:
  "seg_match segs cand ps w \<Longrightarrow> matches_pattern_from segs cand caps \<noteq> None"
proof (induction segs cand ps w arbitrary: caps rule: seg_match.induct)
  case (optional_absent segs cand ps w name)
  then obtain out where "matches_pattern_from segs cand caps = Some out" by blast
  then show ?case by simp
qed (simp_all split: option.split)

text \<open>An optional parameter is always last in a parsed pattern, so a candidate has one reading.\<close>

lemma seg_match_unique:
  "seg_match segs cand ps w \<Longrightarrow> wf_segments segs \<Longrightarrow> seg_match segs cand ps' w' \<Longrightarrow> ps' = ps \<and> w' = w"
proof (induction segs cand ps w arbitrary: ps' w' rule: seg_match.induct)
  case (literal segs cand ps w val)
  from literal.prems(2) literal.IH literal.prems(1) show ?case by (cases rule: seg_match_LiteralE) auto
next
  case (parameter segs cand ps w name val)
  from parameter.prems(2) parameter.IH parameter.prems(1) show ?case
    by (cases rule: seg_match_ParameterE) auto
next
  case (optional_absent segs cand ps w name)
  have segs: "segs = []" using optional_absent.prems by simp
  with optional_absent.hyps have "cand = []" "ps = []" "w = None" by (auto elim: seg_match_NilE)
  with optional_absent.prems(2) segs show ?case
    by (auto elim: seg_match_OptionalE seg_match_NilE)
next
  case (optional_present segs cand ps w name val)
  have segs: "segs = []" using optional_present.prems by simp
  with optional_present.hyps have "cand = []" "ps = []" "w = None" by (auto elim: seg_match_NilE)
  with optional_present.prems(2) segs show ?case
    by (auto elim: seg_match_OptionalE seg_match_NilE)
next
  case (wildcard name cand)
  then show ?case by (auto elim: seg_match_WildcardE)
qed (auto elim: seg_match_NilE)

lemma captures_seg_match_iff:
  assumes "wf_pattern p"
  shows "captures p s = Some caps \<longleftrightarrow>
    seg_match (segments_of p) (split_path_segments (normalize_path s)) (parameters caps) (wildcard caps)"
    (is "?l \<longleftrightarrow> seg_match _ ?cand _ _")
proof -
  have static: "seg_match (map Literal vs) cand ps w \<longleftrightarrow> cand = vs \<and> ps = [] \<and> w = None" for vs cand ps w
    by (induction vs arbitrary: cand) (auto elim: seg_match_elims intro: seg_match.intros)
  have pat: "capture_pattern segs cand = Some caps \<longleftrightarrow> seg_match segs cand (parameters caps) (wildcard caps)"
    if wf: "wf_segments segs" for segs cand
  proof
    assume "capture_pattern segs cand = Some caps"
    then obtain ps w where "seg_match segs cand ps w" "caps = add_captures captures_default ps w"
      using matches_pattern_from_sound unfolding capture_pattern_def by blast
    then show "seg_match segs cand (parameters caps) (wildcard caps)"
      by (cases w) (simp_all add: add_captures_def captures_default_def)
  next
    assume m: "seg_match segs cand (parameters caps) (wildcard caps)"
    then obtain out where out: "capture_pattern segs cand = Some out"
      using matches_pattern_from_complete unfolding capture_pattern_def by fastforce
    then obtain ps w where "seg_match segs cand ps w" "out = add_captures captures_default ps w"
      using matches_pattern_from_sound unfolding capture_pattern_def by blast
    with seg_match_unique [OF m wf] out show "capture_pattern segs cand = Some caps"
      by (cases w) (auto simp: add_captures_def captures_default_def)
  qed
  show ?thesis
  proof (cases p)
    case (Static vs)
    then show ?thesis by (auto simp: captures_def static captures_default_def)
  next
    case (Pattern segs)
    with assms pat show ?thesis by (simp add: captures_def)
  qed
qed

lemma matches_iff_seg_match:
  "matches p s \<longleftrightarrow> (\<exists>ps w. seg_match (segments_of p) (split_path_segments (normalize_path s)) ps w)"
proof (cases p)
  case (Static vs)
  have "seg_match (map Literal vs) cand ps w \<longleftrightarrow> cand = vs \<and> ps = [] \<and> w = None" for cand ps w
    by (induction vs arbitrary: cand) (auto elim: seg_match_elims intro: seg_match.intros)
  with Static show ?thesis by (auto simp: matches_def captures_def)
next
  case (Pattern segs)
  then show ?thesis
    using matches_pattern_from_sound matches_pattern_from_complete
    by (fastforce simp: matches_def captures_def capture_pattern_def)
qed

text \<open>A route anchored at a literal first segment only matches paths that start with it.\<close>

lemma matches_first_segment:
  assumes "matches p s" "route_pattern_first_segment p = Some seg"
  shows "\<exists>rest. split_path_segments (normalize_path s) = seg # rest"
proof -
  obtain rest where "segments_of p = Literal seg # rest"
    using assms(2)
    by (cases p) (auto split: list.splits RoutePatternSegment.splits)
  with assms(1) show ?thesis
    unfolding matches_iff_seg_match by (auto elim: seg_match_LiteralE)
qed

text \<open>Substituting the captured values back into the pattern.\<close>

fun path_text :: "string list \<Rightarrow> string" where
  "path_text [] = []"
| "path_text (p # ps) = CHR ''/'' # p @ path_text ps"

fun fill_path :: "RoutePatternSegment list \<Rightarrow> (string \<times> string) list \<Rightarrow> string option \<Rightarrow> string" where
  "fill_path [] ps w = []"
| "fill_path (Literal val # segs) ps w = CHR ''/'' # val @ fill_path segs ps w"
| "fill_path (Parameter name # segs) ps w = CHR ''/'' # snd (hd ps) @ fill_path segs (tl ps) w"
| "fill_path (OptionalParameter name # segs) ps w =
     (if ps = [] then fill_path segs ps w else CHR ''/'' # snd (hd ps) @ fill_path segs (tl ps) w)"
| "fill_path (Wildcard name # segs) ps w =
     (case w of None \<Rightarrow> [] | Some rest \<Rightarrow> if rest = [] then [] else CHR ''/'' # rest)"

lemma join_path_text: "cand \<noteq> [] \<Longrightarrow> CHR ''/'' # join ''/'' cand = path_text cand"
  by (induction cand rule: induct_list012) auto

lemma join_segments_path_text: "cand \<noteq> [] \<Longrightarrow> join_segments cand = path_text cand"
  by (simp add: join_segments_def join_path_text)

lemma seg_match_fill:
  "seg_match segs cand ps w \<Longrightarrow> wf_segments segs \<Longrightarrow> [] \<notin> set cand \<Longrightarrow>
   fill_path segs ps (map_option snd w) = path_text cand"
proof (induction segs cand ps w rule: seg_match.induct)
  case (optional_absent segs cand ps w name)
  then show ?case by (auto elim: seg_match_NilE)
next
  case (wildcard name cand)
  then show ?case by (cases "cand = []") (auto simp: join_eq_Nil_iff join_path_text)
qed auto

section \<open>Properties of patterns\<close>

text \<open>C4: what the parser accepts is well formed (every name and literal is non-empty and free of
  slashes, an optional parameter or a wildcard is last, an all-literal path is the static form), and
  printing an accepted pattern and parsing it again gives the same pattern, whenever the printed path
  does not end in white space (which parsing would trim).\<close>

theorem parse_print_roundtrip:
  "parse_pattern s = Inr p \<Longrightarrow>
   wf_pattern p \<and>
   (trim (pattern_path p) = pattern_path p \<longrightarrow> parse_pattern (pattern_path p) = Inr p)"
  using parse_pattern_wf parse_pattern_path by blast

theorem parse_print_roundtrip_witness:
  "parse_pattern ''users/:id/*rest'' = Inr (Pattern [Literal ''users'', Parameter ''id'', Wildcard (Some ''rest'')]) \<and>
   pattern_path (Pattern [Literal ''users'', Parameter ''id'', Wildcard (Some ''rest'')]) = ''/users/:id/*rest'' \<and>
   parse_pattern ''/users/:id/*rest'' = Inr (Pattern [Literal ''users'', Parameter ''id'', Wildcard (Some ''rest'')])"
proof -
  let ?p = "Pattern [Literal ''users'', Parameter ''id'', Wildcard (Some ''rest'')]"
  have parsed: "parse_pattern ''users/:id/*rest'' = Inr ?p" by code_simp
  have path: "pattern_path ?p = ''/users/:id/*rest''" by code_simp
  have "trim ''/users/:id/*rest'' = ''/users/:id/*rest''" by code_simp
  then show ?thesis using parse_print_roundtrip [OF parsed] parsed unfolding path by simp
qed

text \<open>C3: the matcher finds captures for a path exactly when the segments of the path are an instance
  of the pattern (with optional parameters present or absent, and a wildcard taking any remainder);
  for a parsed pattern the captures are the only reading there is, and substituting them back into the
  pattern gives the segments of the path.\<close>

theorem captures_correct:
  "(matches p s \<longleftrightarrow> (\<exists>ps w. seg_match (segments_of p) (split_path_segments (normalize_path s)) ps w)) \<and>
   (wf_pattern p \<longrightarrow>
     (\<forall>caps. captures p s = Some caps \<longleftrightarrow>
        seg_match (segments_of p) (split_path_segments (normalize_path s)) (parameters caps) (wildcard caps)) \<and>
     (\<forall>caps. captures p s = Some caps \<longrightarrow>
        fill_path (segments_of p) (parameters caps) (map_option snd (wildcard caps)) =
        path_text (split_path_segments (normalize_path s))))"
  using matches_iff_seg_match captures_seg_match_iff seg_match_fill wf_pattern_segments split_path_nonempty
  by blast

theorem captures_correct_witness:
  "captures (Pattern [Literal ''users'', Parameter ''id'', Wildcard (Some ''rest'')]) ''/users/7/a/b'' =
     Some \<lparr>parameters = [(''id'', ''7'')], wildcard = Some (Some ''rest'', ''a/b'')\<rparr> \<and>
   fill_path (segments_of (Pattern [Literal ''users'', Parameter ''id'', Wildcard (Some ''rest'')]))
     [(''id'', ''7'')] (map_option snd (Some (Some ''rest'', ''a/b''))) =
     path_text (split_path_segments (normalize_path ''/users/7/a/b''))"
proof -
  let ?p = "Pattern [Literal ''users'', Parameter ''id'', Wildcard (Some ''rest'')]"
  have "wf_pattern ?p" by code_simp
  moreover have caps: "captures ?p ''/users/7/a/b'' =
     Some \<lparr>parameters = [(''id'', ''7'')], wildcard = Some (Some ''rest'', ''a/b'')\<rparr>" by code_simp
  ultimately show ?thesis using captures_correct [of ?p "''/users/7/a/b''"]
    by (metis RoutePathCaptures.select_convs(1,2))
qed

text \<open>Merging a controller prefix with a handler path concatenates their segments, and
  normalising a path keeps exactly the non-empty segments of the trimmed path.\<close>

theorem merge_route_paths_segments:
  "split_path_segments (merge_route_paths prefix route) =
     split_path_segments (trim prefix) @ split_path_segments (trim route) \<and>
   split_path_segments (normalize_path route) = split_path_segments (trim route)"
  using split_path_merge split_path_normalize by blast

end
