(* ===== verification/Route_Registry.thy ===== *)
theory Route_Registry
  imports Route_Pattern
begin

text \<open>
  The two route tables of \<open>nivasa-routing/src/lib.rs\<close>: \<open>RouteRegistry\<close> (path to value) and
  \<open>RouteDispatchRegistry\<close> (method, path and version to value), both kept sorted by specificity and
  both looked up through a first-segment index. The locale \<open>indexed_table\<close> is the contract between
  lookup and index; it is interpreted on both tables.
\<close>

section \<open>The first-segment index\<close>

record RouteFirstSegmentIndex =
  anchored :: "string \<rightharpoonup> nat list"
  fallback :: "nat list"

definition index_default :: RouteFirstSegmentIndex where
  "index_default = \<lparr>anchored = Map.empty, fallback = []\<rparr>"

fun rebuild_loop ::
  "('r \<Rightarrow> string option) \<Rightarrow> nat \<Rightarrow> 'r list \<Rightarrow> RouteFirstSegmentIndex \<Rightarrow> RouteFirstSegmentIndex" where
  "rebuild_loop first_segment i [] ix = ix"
| "rebuild_loop first_segment i (route # routes) ix =
     rebuild_loop first_segment (Suc i) routes
       (case first_segment route of
          Some segment \<Rightarrow>
            ix\<lparr>anchored := (anchored ix)(segment \<mapsto>
                 (case anchored ix segment of None \<Rightarrow> [] | Some is \<Rightarrow> is) @ [i])\<rparr>
        | None \<Rightarrow> ix\<lparr>fallback := fallback ix @ [i]\<rparr>)"

definition rebuild :: "'r list \<Rightarrow> ('r \<Rightarrow> string option) \<Rightarrow> RouteFirstSegmentIndex" where
  "rebuild routes first_segment = rebuild_loop first_segment 0 routes index_default"

fun merge_sorted_indices :: "nat list \<Rightarrow> nat list \<Rightarrow> nat list \<Rightarrow> nat list" where
  "merge_sorted_indices dst (l # left) (r # right) =
     (if l \<le> r then merge_sorted_indices (dst @ [l]) left (r # right)
      else merge_sorted_indices (dst @ [r]) (l # left) right)"
| "merge_sorted_indices dst left right = (dst @ left) @ right"

definition candidate_indices :: "RouteFirstSegmentIndex \<Rightarrow> string \<Rightarrow> nat list" where
  "candidate_indices ix path =
     (case first_path_segment path of
        None \<Rightarrow> fallback ix
      | Some first_segment \<Rightarrow>
          (case anchored ix first_segment of
             None \<Rightarrow> fallback ix
           | Some anch \<Rightarrow>
               if fallback ix = [] then anch else merge_sorted_indices [] anch (fallback ix)))"

text \<open>\<open>slice::get\<close>.\<close>

definition get_index :: "'a list \<Rightarrow> nat \<Rightarrow> 'a option" where
  "get_index xs i = (if i < length xs then Some (xs ! i) else None)"

section \<open>\<open>RouteRegistry\<close>\<close>

record 'a RouteEntry =
  re_pattern :: RoutePattern
  re_value :: 'a

record 'a RouteRegistry =
  rr_routes :: "'a RouteEntry list"
  rr_index :: RouteFirstSegmentIndex

definition registry_new :: "'a RouteRegistry" where
  "registry_new = \<lparr>rr_routes = [], rr_index = index_default\<rparr>"

definition registry_rebuild :: "'a RouteRegistry \<Rightarrow> 'a RouteRegistry" where
  "registry_rebuild reg =
     reg\<lparr>rr_index := rebuild (rr_routes reg) (\<lambda>entry. route_pattern_first_segment (re_pattern entry))\<rparr>"

definition registry_candidates :: "'a RouteRegistry \<Rightarrow> string \<Rightarrow> nat list" where
  "registry_candidates reg path = candidate_indices (rr_index reg) path"

definition registry_register ::
  "'a RouteRegistry \<Rightarrow> RoutePattern \<Rightarrow> 'a \<Rightarrow> RouteRegistryError + 'a RouteRegistry" where
  "registry_register reg pat val =
     (let path = pattern_path pat in
      if list_ex (\<lambda>entry. pattern_path (re_pattern entry) = path) (rr_routes reg)
      then Inl (DuplicateRoute path)
      else Inr (registry_rebuild
        (reg\<lparr>rr_routes :=
           sort_by (\<lambda>left right. cmp_specificity (re_pattern left) (re_pattern right))
             (rr_routes reg @ [\<lparr>re_pattern = pat, re_value = val\<rparr>])\<rparr>)))"

definition registry_register_static ::
  "'a RouteRegistry \<Rightarrow> string \<Rightarrow> 'a \<Rightarrow> RouteRegistryError + 'a RouteRegistry" where
  "registry_register_static reg path val =
     (case static_path path of Inl err \<Rightarrow> Inl err | Inr pat \<Rightarrow> registry_register reg pat val)"

definition registry_register_pattern ::
  "'a RouteRegistry \<Rightarrow> string \<Rightarrow> 'a \<Rightarrow> RouteRegistryError + 'a RouteRegistry" where
  "registry_register_pattern reg path val =
     (case parse_pattern path of Inl err \<Rightarrow> Inl err | Inr pat \<Rightarrow> registry_register reg pat val)"

definition registry_resolve_entry :: "'a RouteRegistry \<Rightarrow> string \<Rightarrow> 'a RouteEntry option" where
  "registry_resolve_entry reg path =
     (let normalized_path = normalize_path path in
      find_map
        (\<lambda>i. case get_index (rr_routes reg) i of
               None \<Rightarrow> None
             | Some entry \<Rightarrow> if matches (re_pattern entry) normalized_path then Some entry else None)
        (registry_candidates reg normalized_path))"

definition registry_resolve :: "'a RouteRegistry \<Rightarrow> string \<Rightarrow> 'a option" where
  "registry_resolve reg path =
     (let normalized_path = normalize_path path in
      find_map
        (\<lambda>i. case get_index (rr_routes reg) i of
               None \<Rightarrow> None
             | Some entry \<Rightarrow>
                 if matches (re_pattern entry) normalized_path then Some (re_value entry) else None)
        (registry_candidates reg normalized_path))"

definition registry_contains :: "'a RouteRegistry \<Rightarrow> string \<Rightarrow> bool" where
  "registry_contains reg path \<longleftrightarrow> registry_resolve reg path \<noteq> None"

section \<open>Methods and versions\<close>

datatype RouteMethod =
  Get | Post | Put | Delete | Patch | Head | Options | All | Other string

definition parse_method :: "string \<Rightarrow> RouteMethod" where
  "parse_method method =
     (let m = to_ascii_uppercase (trim method) in
      if m = ''GET'' then Get else if m = ''POST'' then Post else if m = ''PUT'' then Put
      else if m = ''DELETE'' then Delete else if m = ''PATCH'' then Patch
      else if m = ''HEAD'' then Head else if m = ''OPTIONS'' then Options
      else if m = ''ALL'' then All else Other m)"

fun method_as_str :: "RouteMethod \<Rightarrow> string" where
  "method_as_str Get = ''GET''"
| "method_as_str Post = ''POST''"
| "method_as_str Put = ''PUT''"
| "method_as_str Delete = ''DELETE''"
| "method_as_str Patch = ''PATCH''"
| "method_as_str Head = ''HEAD''"
| "method_as_str Options = ''OPTIONS''"
| "method_as_str All = ''ALL''"
| "method_as_str (Other method) = method"

definition method_matches :: "RouteMethod \<Rightarrow> string \<Rightarrow> bool" where
  "method_matches self method \<longleftrightarrow> self = All \<or> method_as_str self = method"

abbreviation is_slash :: "char \<Rightarrow> bool" where
  "is_slash c \<equiv> c = CHR ''/''"

definition normalize_version_token :: "string \<Rightarrow> string option" where
  "normalize_version_token version =
     (let trimmed = trim_matches is_slash (trim version) in
      if trimmed = [] then None
      else
        let stripped =
          (case strip_prefix trimmed ''v'' of
             Some rest \<Rightarrow> rest
           | None \<Rightarrow> (case strip_prefix trimmed ''V'' of Some rest \<Rightarrow> rest | None \<Rightarrow> trimmed))
        in if stripped = [] then None else Some (''v'' @ stripped))"

definition version_segment :: "string \<Rightarrow> string" where
  "version_segment version =
     (let trimmed = trim_matches is_slash (trim version) in
      if trimmed = [] then []
      else if starts_with trimmed ''v'' \<or> starts_with trimmed ''V'' then trimmed
      else ''v'' @ trimmed)"

definition parse_api_version_header :: "string \<Rightarrow> string option" where
  "parse_api_version_header val = normalize_version_token val"

text \<open>\<open>str::split_once(char)\<close> and \<open>str::rsplit_once(&str)\<close>.\<close>

fun split_once :: "'a \<Rightarrow> 'a list \<Rightarrow> ('a list \<times> 'a list) option" where
  "split_once c [] = None"
| "split_once c (x # xs) =
     (if x = c then Some ([], xs)
      else case split_once c xs of None \<Rightarrow> None | Some (a, b) \<Rightarrow> Some (x # a, b))"

fun rsplit_once :: "'a list \<Rightarrow> 'a list \<Rightarrow> ('a list \<times> 'a list) option" where
  "rsplit_once pat [] = None"
| "rsplit_once pat (x # xs) =
     (case rsplit_once pat xs of
        Some (a, b) \<Rightarrow> Some (x # a, b)
      | None \<Rightarrow> (case strip_prefix (x # xs) pat of None \<Rightarrow> None | Some b \<Rightarrow> Some ([], b)))"

definition accept_candidate_version :: "string \<Rightarrow> string option" where
  "accept_candidate_version candidate0 =
     (let candidate = trim candidate0;
          media_type = trim (hd (split_on (CHR '';'') candidate)) in
      case split_once (CHR ''/'') media_type of
        None \<Rightarrow> None
      | Some (_, subtype) \<Rightarrow>
          (case rsplit_once ''.v'' subtype of
             None \<Rightarrow> None
           | Some (_, version) \<Rightarrow>
               normalize_version_token (takeWhile (\<lambda>c. c \<notin> set ''+;-/'') version)))"

definition parse_api_version_accept :: "string \<Rightarrow> string option" where
  "parse_api_version_accept val = find_map accept_candidate_version (split_on (CHR '','') val)"

section \<open>Controller metadata\<close>

record ControllerMetadata =
  cm_path :: string
  cm_version :: "string option"

definition controller_new :: "string \<Rightarrow> ControllerMetadata" where
  "controller_new path = \<lparr>cm_path = normalize_path path, cm_version = None\<rparr>"

definition with_version :: "ControllerMetadata \<Rightarrow> string \<Rightarrow> ControllerMetadata" where
  "with_version self version =
     self\<lparr>cm_version := (if trim version = [] then None else Some version)\<rparr>"

definition versioned_path :: "ControllerMetadata \<Rightarrow> string" where
  "versioned_path self =
     (case cm_version self of
        Some version \<Rightarrow> merge_route_paths (''/'' @ version_segment version) (cm_path self)
      | None \<Rightarrow> cm_path self)"

definition route_path :: "ControllerMetadata \<Rightarrow> string \<Rightarrow> string" where
  "route_path self path = merge_route_paths (cm_path self) path"

definition versioned_route_path :: "ControllerMetadata \<Rightarrow> string \<Rightarrow> string" where
  "versioned_route_path self path = merge_route_paths (versioned_path self) path"

section \<open>\<open>RouteDispatchRegistry\<close>\<close>

datatype RouteDispatchError =
    DispatchDuplicateRoute string string
  | DispatchUnsupportedPatternSegment string string

fun dispatch_error_of :: "RouteRegistryError \<Rightarrow> RouteDispatchError" where
  "dispatch_error_of (UnsupportedPatternSegment path segment) =
     DispatchUnsupportedPatternSegment path segment"
| "dispatch_error_of (DuplicateRoute path) =
     DispatchDuplicateRoute (method_as_str (parse_method ''GET'')) path"

record 'a RouteDispatchEntry =
  de_method :: RouteMethod
  de_pattern :: RoutePattern
  de_version :: "string option"
  de_value :: 'a

record 'a RouteDispatchRegistry =
  rd_routes :: "'a RouteDispatchEntry list"
  rd_index :: RouteFirstSegmentIndex

definition dispatch_new :: "'a RouteDispatchRegistry" where
  "dispatch_new = \<lparr>rd_routes = [], rd_index = index_default\<rparr>"

definition dispatch_rebuild :: "'a RouteDispatchRegistry \<Rightarrow> 'a RouteDispatchRegistry" where
  "dispatch_rebuild reg =
     reg\<lparr>rd_index := rebuild (rd_routes reg) (\<lambda>entry. route_pattern_first_segment (de_pattern entry))\<rparr>"

definition dispatch_candidates :: "'a RouteDispatchRegistry \<Rightarrow> string \<Rightarrow> nat list" where
  "dispatch_candidates reg path = candidate_indices (rd_index reg) path"

definition register_versioned ::
  "'a RouteDispatchRegistry \<Rightarrow> RouteMethod \<Rightarrow> RoutePattern \<Rightarrow> string option \<Rightarrow> 'a \<Rightarrow>
   RouteDispatchError + 'a RouteDispatchRegistry" where
  "register_versioned reg method pat version0 val =
     (let path = pattern_path pat;
          version = Option.bind version0 normalize_version_token in
      if list_ex (\<lambda>entry. de_method entry = method \<and> pattern_path (de_pattern entry) = path
                        \<and> de_version entry = version) (rd_routes reg)
      then Inl (DispatchDuplicateRoute (method_as_str method) path)
      else Inr (dispatch_rebuild
        (reg\<lparr>rd_routes :=
           sort_by (\<lambda>left right. cmp_specificity (de_pattern left) (de_pattern right))
             (rd_routes reg @
               [\<lparr>de_method = method, de_pattern = pat, de_version = version, de_value = val\<rparr>])\<rparr>)))"

definition dispatch_register ::
  "'a RouteDispatchRegistry \<Rightarrow> RouteMethod \<Rightarrow> RoutePattern \<Rightarrow> 'a \<Rightarrow>
   RouteDispatchError + 'a RouteDispatchRegistry" where
  "dispatch_register reg method pat val = register_versioned reg method pat None val"

definition dispatch_register_static ::
  "'a RouteDispatchRegistry \<Rightarrow> RouteMethod \<Rightarrow> string \<Rightarrow> 'a \<Rightarrow>
   RouteDispatchError + 'a RouteDispatchRegistry" where
  "dispatch_register_static reg method path val =
     (case static_path path of
        Inl err \<Rightarrow> Inl (dispatch_error_of err)
      | Inr pat \<Rightarrow> dispatch_register reg method pat val)"

definition dispatch_register_pattern ::
  "'a RouteDispatchRegistry \<Rightarrow> RouteMethod \<Rightarrow> string \<Rightarrow> 'a \<Rightarrow>
   RouteDispatchError + 'a RouteDispatchRegistry" where
  "dispatch_register_pattern reg method path val =
     (case parse_pattern path of
        Inl err \<Rightarrow> Inl (dispatch_error_of err)
      | Inr pat \<Rightarrow> dispatch_register reg method pat val)"

definition register_controller_route ::
  "'a RouteDispatchRegistry \<Rightarrow> RouteMethod \<Rightarrow> string \<Rightarrow> string \<Rightarrow> 'a \<Rightarrow>
   RouteDispatchError + 'a RouteDispatchRegistry" where
  "register_controller_route reg method controller_prefix path val =
     dispatch_register_pattern reg method (merge_route_paths controller_prefix path) val"

definition register_versioned_controller_route ::
  "'a RouteDispatchRegistry \<Rightarrow> RouteMethod \<Rightarrow> ControllerMetadata \<Rightarrow> string \<Rightarrow> 'a \<Rightarrow>
   RouteDispatchError + 'a RouteDispatchRegistry" where
  "register_versioned_controller_route reg method metadata path val =
     dispatch_register_pattern reg method (versioned_route_path metadata path) val"

definition register_header_versioned_route ::
  "'a RouteDispatchRegistry \<Rightarrow> RouteMethod \<Rightarrow> string \<Rightarrow> string \<Rightarrow> 'a \<Rightarrow>
   RouteDispatchError + 'a RouteDispatchRegistry" where
  "register_header_versioned_route reg method version path val =
     (case parse_pattern path of
        Inl err \<Rightarrow> Inl (dispatch_error_of err)
      | Inr pat \<Rightarrow> register_versioned reg method pat (normalize_version_token version) val)"

definition register_media_type_versioned_route ::
  "'a RouteDispatchRegistry \<Rightarrow> RouteMethod \<Rightarrow> string \<Rightarrow> string \<Rightarrow> 'a \<Rightarrow>
   RouteDispatchError + 'a RouteDispatchRegistry" where
  "register_media_type_versioned_route reg method version path val =
     (case parse_pattern path of
        Inl err \<Rightarrow> Inl (dispatch_error_of err)
      | Inr pat \<Rightarrow> register_versioned reg method pat (normalize_version_token version) val)"

section \<open>Selection and dispatch\<close>

record 'a RouteDispatchSelection =
  sel_path :: string
  requested_version :: "string option"
  exact_version_match :: bool
  entries :: "'a RouteDispatchEntry list"

datatype 'a RouteDispatchOutcome =
    Matched "'a RouteDispatchEntry"
  | MethodNotAllowed string "string list"
  | NotFound

record 'a RouteDispatchMatch =
  rm_entry :: "'a RouteDispatchEntry"
  rm_captures :: RoutePathCaptures

text \<open>The loop of \<open>select_versioned\<close> over the candidate indices, with its two result vectors.\<close>

fun select_loop ::
  "'a RouteDispatchEntry list \<Rightarrow> string \<Rightarrow> string option \<Rightarrow> nat list \<Rightarrow>
   'a RouteDispatchEntry list \<Rightarrow> 'a RouteDispatchEntry list \<Rightarrow>
   'a RouteDispatchEntry list \<times> 'a RouteDispatchEntry list" where
  "select_loop routes path version [] exact unversioned = (exact, unversioned)"
| "select_loop routes path version (i # is) exact unversioned =
     (case get_index routes i of
        None \<Rightarrow> select_loop routes path version is exact unversioned
      | Some entry \<Rightarrow>
          if \<not> matches (de_pattern entry) path then select_loop routes path version is exact unversioned
          else (case version of
              Some v \<Rightarrow>
                if de_version entry = Some v
                then select_loop routes path version is (exact @ [entry]) unversioned
                else if de_version entry = None
                then select_loop routes path version is exact (unversioned @ [entry])
                else select_loop routes path version is exact unversioned
            | None \<Rightarrow>
                if de_version entry = None
                then select_loop routes path version is exact (unversioned @ [entry])
                else select_loop routes path version is exact unversioned))"

definition select_versioned ::
  "'a RouteDispatchRegistry \<Rightarrow> string \<Rightarrow> string option \<Rightarrow> 'a RouteDispatchSelection" where
  "select_versioned reg path version0 =
     (let normalized_path = normalize_path path;
          version = Option.bind version0 normalize_version_token in
      case select_loop (rd_routes reg) normalized_path version
             (dispatch_candidates reg normalized_path) [] [] of
        (exact_version_entries, unversioned_entries) \<Rightarrow>
          if version \<noteq> None \<and> exact_version_entries \<noteq> []
          then \<lparr>sel_path = normalized_path, requested_version = version,
                exact_version_match = True, entries = exact_version_entries\<rparr>
          else \<lparr>sel_path = normalized_path, requested_version = version,
                exact_version_match = False, entries = unversioned_entries\<rparr>)"

definition select :: "'a RouteDispatchRegistry \<Rightarrow> string \<Rightarrow> 'a RouteDispatchSelection" where
  "select reg path = select_versioned reg path None"

definition select_header_versioned ::
  "'a RouteDispatchRegistry \<Rightarrow> string \<Rightarrow> string option \<Rightarrow> 'a RouteDispatchSelection" where
  "select_header_versioned reg path header_value =
     select_versioned reg path (Option.bind header_value parse_api_version_header)"

definition select_media_type_versioned ::
  "'a RouteDispatchRegistry \<Rightarrow> string \<Rightarrow> string option \<Rightarrow> 'a RouteDispatchSelection" where
  "select_media_type_versioned reg path accept_value =
     select_versioned reg path (Option.bind accept_value parse_api_version_accept)"

definition allowed_methods :: "'a RouteDispatchSelection \<Rightarrow> string list" where
  "allowed_methods sel = remdups_adj (sort (map (\<lambda>entry. method_as_str (de_method entry)) (entries sel)))"

definition selection_resolve_entry ::
  "'a RouteDispatchSelection \<Rightarrow> string \<Rightarrow> 'a RouteDispatchEntry option" where
  "selection_resolve_entry sel method = find (\<lambda>entry. method_matches (de_method entry) method) (entries sel)"

definition selection_resolve :: "'a RouteDispatchSelection \<Rightarrow> string \<Rightarrow> 'a option" where
  "selection_resolve sel method =
     map_option de_value (find (\<lambda>entry. method_matches (de_method entry) method) (entries sel))"

fun resolve_match_loop ::
  "string \<Rightarrow> string \<Rightarrow> 'a RouteDispatchEntry list \<Rightarrow> 'a RouteDispatchMatch option" where
  "resolve_match_loop path method [] = None"
| "resolve_match_loop path method (entry # rest) =
     (case captures (de_pattern entry) path of
        None \<Rightarrow> resolve_match_loop path method rest
      | Some caps \<Rightarrow>
          if method_matches (de_method entry) method
          then Some \<lparr>rm_entry = entry, rm_captures = caps\<rparr>
          else resolve_match_loop path method rest)"

definition selection_resolve_match ::
  "'a RouteDispatchSelection \<Rightarrow> string \<Rightarrow> 'a RouteDispatchMatch option" where
  "selection_resolve_match sel method = resolve_match_loop (sel_path sel) method (entries sel)"

definition selection_dispatch :: "'a RouteDispatchSelection \<Rightarrow> string \<Rightarrow> 'a RouteDispatchOutcome" where
  "selection_dispatch sel method =
     (case selection_resolve_entry sel method of
        Some entry \<Rightarrow> Matched entry
      | None \<Rightarrow> if entries sel = [] then NotFound else MethodNotAllowed (sel_path sel) (allowed_methods sel))"

definition request_method :: "string \<Rightarrow> string" where
  "request_method method = to_ascii_uppercase (trim method)"

definition dispatch :: "'a RouteDispatchRegistry \<Rightarrow> string \<Rightarrow> string \<Rightarrow> 'a RouteDispatchOutcome" where
  "dispatch reg method path = selection_dispatch (select reg path) (request_method method)"

definition dispatch_versioned ::
  "'a RouteDispatchRegistry \<Rightarrow> string \<Rightarrow> string \<Rightarrow> string option \<Rightarrow> 'a RouteDispatchOutcome" where
  "dispatch_versioned reg method path version =
     selection_dispatch (select_versioned reg path version) (request_method method)"

definition dispatch_header_versioned ::
  "'a RouteDispatchRegistry \<Rightarrow> string \<Rightarrow> string \<Rightarrow> string option \<Rightarrow> 'a RouteDispatchOutcome" where
  "dispatch_header_versioned reg method path header_value =
     dispatch_versioned reg method path (Option.bind header_value parse_api_version_header)"

definition dispatch_media_type_versioned ::
  "'a RouteDispatchRegistry \<Rightarrow> string \<Rightarrow> string \<Rightarrow> string option \<Rightarrow> 'a RouteDispatchOutcome" where
  "dispatch_media_type_versioned reg method path accept_value =
     dispatch_versioned reg method path (Option.bind accept_value parse_api_version_accept)"

fun outcome_entry :: "'a RouteDispatchOutcome \<Rightarrow> 'a RouteDispatchEntry option" where
  "outcome_entry (Matched entry) = Some entry"
| "outcome_entry _ = None"

definition dispatch_resolve :: "'a RouteDispatchRegistry \<Rightarrow> string \<Rightarrow> string \<Rightarrow> 'a option" where
  "dispatch_resolve reg method path = map_option de_value (outcome_entry (dispatch reg method path))"

definition dispatch_resolve_versioned ::
  "'a RouteDispatchRegistry \<Rightarrow> string \<Rightarrow> string \<Rightarrow> string option \<Rightarrow> 'a option" where
  "dispatch_resolve_versioned reg method path version =
     map_option de_value (outcome_entry (dispatch_versioned reg method path version))"

definition dispatch_resolve_entry ::
  "'a RouteDispatchRegistry \<Rightarrow> string \<Rightarrow> string \<Rightarrow> 'a RouteDispatchEntry option" where
  "dispatch_resolve_entry reg method path = outcome_entry (dispatch reg method path)"

definition dispatch_contains :: "'a RouteDispatchRegistry \<Rightarrow> string \<Rightarrow> string \<Rightarrow> bool" where
  "dispatch_contains reg method path \<longleftrightarrow> dispatch_resolve reg method path \<noteq> None"

definition resolve_match ::
  "'a RouteDispatchRegistry \<Rightarrow> string \<Rightarrow> string \<Rightarrow> 'a RouteDispatchMatch option" where
  "resolve_match reg method path = selection_resolve_match (select reg path) (request_method method)"

definition resolve_match_versioned ::
  "'a RouteDispatchRegistry \<Rightarrow> string \<Rightarrow> string \<Rightarrow> string option \<Rightarrow> 'a RouteDispatchMatch option" where
  "resolve_match_versioned reg method path version =
     selection_resolve_match (select_versioned reg path version) (request_method method)"

definition resolve_header_match ::
  "'a RouteDispatchRegistry \<Rightarrow> string \<Rightarrow> string \<Rightarrow> string option \<Rightarrow> 'a RouteDispatchMatch option" where
  "resolve_header_match reg method path header_value =
     resolve_match_versioned reg method path (Option.bind header_value parse_api_version_header)"

definition resolve_media_type_match ::
  "'a RouteDispatchRegistry \<Rightarrow> string \<Rightarrow> string \<Rightarrow> string option \<Rightarrow> 'a RouteDispatchMatch option" where
  "resolve_media_type_match reg method path accept_value =
     resolve_match_versioned reg method path (Option.bind accept_value parse_api_version_accept)"

section \<open>The index agrees with a scan of the table\<close>

lemma rebuild_loop_spec:
  "rebuild_loop f i routes ix =
   \<lparr>anchored = (\<lambda>s. let new = map ((+) i) (filter (\<lambda>k. f (routes ! k) = Some s) [0..<length routes]) in
        if new = [] then anchored ix s
        else Some ((case anchored ix s of None \<Rightarrow> [] | Some is \<Rightarrow> is) @ new)),
    fallback = fallback ix @ map ((+) i) (filter (\<lambda>k. f (routes ! k) = None) [0..<length routes])\<rparr>"
proof (induction f i routes ix rule: rebuild_loop.induct)
  case (2 f i route routes ix)
  have upt: "[0..<length (route # routes)] = 0 # map Suc [0..<length routes]"
    by (metis length_Cons map_Suc_upt upt_conv_Cons zero_less_Suc)
  have shift: "map ((+) i) (filter P [0..<length (route # routes)]) =
      (if P 0 then [i] else []) @ map ((+) (Suc i)) (filter (\<lambda>k. P (Suc k)) [0..<length routes])" for P
    unfolding upt by (simp add: filter_map o_def)
  show ?case
    unfolding rebuild_loop.simps "2.IH" shift
    by (cases "f route") (auto simp: Let_def fun_eq_iff split: option.splits)
qed (simp add: Let_def)

lemma map_plus_0: "map ((+) (0 :: nat)) xs = xs"
  by (simp add: map_idI)

lemma rebuild_anchored:
  "anchored (rebuild routes f) s =
   (let new = filter (\<lambda>k. f (routes ! k) = Some s) [0..<length routes] in if new = [] then None else Some new)"
  by (simp add: rebuild_def rebuild_loop_spec index_default_def Let_def map_plus_0)

lemma rebuild_fallback:
  "fallback (rebuild routes f) = filter (\<lambda>k. f (routes ! k) = None) [0..<length routes]"
  by (simp add: rebuild_def rebuild_loop_spec index_default_def map_plus_0)

lemma merge_sorted_indices_sorted:
  "sorted left \<Longrightarrow> sorted right \<Longrightarrow> sorted (merge_sorted_indices [] left right)"
  and set_merge_sorted_indices: "set (merge_sorted_indices [] left right) = set left \<union> set right"
  and distinct_merge_sorted_indices:
    "distinct (left @ right) \<Longrightarrow> distinct (merge_sorted_indices [] left right)"
proof -
  have gen: "mset (merge_sorted_indices dst left right) = mset dst + mset left + mset right \<and>
      (sorted (dst @ left) \<longrightarrow> sorted (dst @ right) \<longrightarrow> sorted (merge_sorted_indices dst left right))" for dst
    by (induction dst left right rule: merge_sorted_indices.induct) (fastforce simp: sorted_append)+
  from gen [of "[]"]
  show "sorted left \<Longrightarrow> sorted right \<Longrightarrow> sorted (merge_sorted_indices [] left right)" by simp
  from gen [of "[]"] show "set (merge_sorted_indices [] left right) = set left \<union> set right"
    by (metis add_0 mset.simps(1) set_mset_mset set_mset_union)
  from gen [of "[]"] show "distinct (left @ right) \<Longrightarrow> distinct (merge_sorted_indices [] left right)"
    by (metis add_0 mset.simps(1) mset_append mset_eq_imp_distinct_iff)
qed

text \<open>What the index of a table returns for a path: the sorted positions of the routes that have
  no literal first segment or the path's own.\<close>

lemma candidate_indices_rebuild:
  "candidate_indices (rebuild routes f) path =
   filter (\<lambda>k. f (routes ! k) = None \<or>
               (f (routes ! k) = first_path_segment path \<and> first_path_segment path \<noteq> None))
     [0..<length routes]" (is "?l = filter ?P ?is")
proof -
  let ?fb = "filter (\<lambda>k. f (routes ! k) = None) ?is"
  let ?an = "\<lambda>s. filter (\<lambda>k. f (routes ! k) = Some s) ?is"
  have merged: "merge_sorted_indices [] (?an s) ?fb =
      filter (\<lambda>k. f (routes ! k) = None \<or> f (routes ! k) = Some s) ?is" for s
    by (rule sorted_distinct_set_unique)
       (auto simp: set_merge_sorted_indices sorted_wrt_filter
             intro!: merge_sorted_indices_sorted distinct_merge_sorted_indices)
  show ?thesis
  proof (cases "first_path_segment path")
    case None
    then show ?thesis by (simp add: candidate_indices_def rebuild_fallback)
  next
    case (Some s)
    have "?an s = [] \<Longrightarrow> filter ?P ?is = ?fb" "?fb = [] \<Longrightarrow> filter ?P ?is = ?an s"
      using Some by (auto simp: filter_empty_conv intro!: filter_cong [OF refl])
        (metis atLeast0LessThan lessThan_iff option.distinct(1))
    with Some merged [of s] show ?thesis
      by (simp add: candidate_indices_def rebuild_fallback rebuild_anchored Let_def del: filter_empty_conv)
  qed
qed

lemma filter_nth_upt: "filter Q xs = map ((!) xs) (filter (\<lambda>k. Q (xs ! k)) [0..<length xs])"
  by (metis (mono_tags, lifting) filter_cong filter_map map_nth o_apply)

text \<open>
  The contract between a table and its index: the candidates are increasing positions of the table
  and include every row that covers the path.
\<close>

locale indexed_table =
  fixes rows :: "'t \<Rightarrow> 'e list"
    and candidates :: "'t \<Rightarrow> string \<Rightarrow> nat list"
    and covers :: "'e \<Rightarrow> string \<Rightarrow> bool"
    and valid :: "'t \<Rightarrow> bool"
    and lookup_ok :: "string \<Rightarrow> bool"
  assumes candidates_sorted: "valid t \<Longrightarrow> sorted (candidates t p) \<and> distinct (candidates t p)"
    and candidates_bounded: "valid t \<Longrightarrow> i \<in> set (candidates t p) \<Longrightarrow> i < length (rows t)"
    and candidates_complete:
      "valid t \<Longrightarrow> lookup_ok p \<Longrightarrow> i < length (rows t) \<Longrightarrow> covers (rows t ! i) p \<Longrightarrow> i \<in> set (candidates t p)"
begin

lemma scan:
  assumes "valid t" "lookup_ok p"
  shows "filter (\<lambda>e. covers e p) (map ((!) (rows t)) (candidates t p)) = filter (\<lambda>e. covers e p) (rows t)"
proof -
  let ?Q = "\<lambda>k. covers (rows t ! k) p"
  have "filter ?Q (candidates t p) = filter ?Q [0..<length (rows t)]"
    using candidates_sorted [OF assms(1), of p] candidates_bounded [OF assms(1)]
      candidates_complete [OF assms]
    by (intro sorted_distinct_set_unique) (auto simp: sorted_wrt_filter)
  then show ?thesis
    unfolding filter_nth_upt [of _ "rows t"] by (simp add: filter_map o_def)
qed

lemma get_candidates:
  "valid t \<Longrightarrow> i \<in> set (candidates t p) \<Longrightarrow> get_index (rows t) i = Some (rows t ! i)"
  by (simp add: get_index_def candidates_bounded)

lemma lookup:
  assumes "valid t" "lookup_ok p"
  shows "find_map (\<lambda>i. case get_index (rows t) i of
             None \<Rightarrow> None
           | Some entry \<Rightarrow> if covers entry p then Some (g entry) else None) (candidates t p) =
         map_option g (find (\<lambda>e. covers e p) (rows t))"
proof -
  have "find_map (\<lambda>i. case get_index (rows t) i of
             None \<Rightarrow> None
           | Some entry \<Rightarrow> if covers entry p then Some (g entry) else None) is =
      map_option g (find (\<lambda>e. covers e p) (map ((!) (rows t)) is))"
    if "set is \<subseteq> set (candidates t p)" for "is"
    using that
  proof (induction "is")
    case (Cons i "is")
    then have "get_index (rows t) i = Some (rows t ! i)"
      using get_candidates [OF assms(1), of i p] by simp
    with Cons show ?case by simp
  qed simp
  moreover have "find P xs = (case filter P xs of [] \<Rightarrow> None | x # _ \<Rightarrow> Some x)" for P and xs :: "'e list"
    by (induction xs) auto
  ultimately show ?thesis by (simp add: scan [OF assms])
qed

end

text \<open>The path handed to the index is already normalised; it is looked up faithfully when it has no
  white space at its end.\<close>

abbreviation trimmed :: "string \<Rightarrow> bool" where
  "trimmed path \<equiv> trim path = path"

lemma pattern_in_candidates:
  assumes "trimmed n" "k < length routes" "matches (pat (routes ! k)) n"
  shows "k \<in> set (candidate_indices (rebuild routes (\<lambda>e. route_pattern_first_segment (pat e))) n)"
proof -
  have "split_path_segments (normalize_path n) = split_path_segments n"
    using assms(1) by (simp add: split_path_normalize)
  then show ?thesis
    using assms(2,3) matches_first_segment [of "pat (routes ! k)" n]
    by (auto simp: candidate_indices_rebuild first_path_segment_eq)
qed

definition registry_indexed :: "'a RouteRegistry \<Rightarrow> bool" where
  "registry_indexed reg \<longleftrightarrow>
     rr_index reg = rebuild (rr_routes reg) (\<lambda>entry. route_pattern_first_segment (re_pattern entry))"

definition dispatch_indexed :: "'a RouteDispatchRegistry \<Rightarrow> bool" where
  "dispatch_indexed reg \<longleftrightarrow>
     rd_index reg = rebuild (rd_routes reg) (\<lambda>entry. route_pattern_first_segment (de_pattern entry))"

interpretation path_table: indexed_table rr_routes registry_candidates
  "\<lambda>entry. matches (re_pattern entry)" registry_indexed trimmed
proof
  fix t :: "'a RouteRegistry" and i p
  assume t: "registry_indexed t"
  show "sorted (registry_candidates t p) \<and> distinct (registry_candidates t p)"
    using t by (simp add: registry_candidates_def registry_indexed_def candidate_indices_rebuild sorted_wrt_filter)
  show "i \<in> set (registry_candidates t p) \<Longrightarrow> i < length (rr_routes t)"
    using t by (simp add: registry_candidates_def registry_indexed_def candidate_indices_rebuild)
  show "trimmed p \<Longrightarrow> i < length (rr_routes t) \<Longrightarrow> matches (re_pattern (rr_routes t ! i)) p \<Longrightarrow>
      i \<in> set (registry_candidates t p)"
    using t pattern_in_candidates by (simp add: registry_candidates_def registry_indexed_def)
qed

interpretation dispatch_table: indexed_table rd_routes dispatch_candidates
  "\<lambda>entry. matches (de_pattern entry)" dispatch_indexed trimmed
proof
  fix t :: "'a RouteDispatchRegistry" and i p
  assume t: "dispatch_indexed t"
  show "sorted (dispatch_candidates t p) \<and> distinct (dispatch_candidates t p)"
    using t by (simp add: dispatch_candidates_def dispatch_indexed_def candidate_indices_rebuild sorted_wrt_filter)
  show "i \<in> set (dispatch_candidates t p) \<Longrightarrow> i < length (rd_routes t)"
    using t by (simp add: dispatch_candidates_def dispatch_indexed_def candidate_indices_rebuild)
  show "trimmed p \<Longrightarrow> i < length (rd_routes t) \<Longrightarrow> matches (de_pattern (rd_routes t ! i)) p \<Longrightarrow>
      i \<in> set (dispatch_candidates t p)"
    using t pattern_in_candidates by (simp add: dispatch_candidates_def dispatch_indexed_def)
qed

section \<open>Registration\<close>

definition entry_order :: "'a RouteDispatchEntry \<Rightarrow> 'a RouteDispatchEntry \<Rightarrow> ordering" where
  "entry_order left right = cmp_specificity (de_pattern left) (de_pattern right)"

definition route_order :: "'a RouteEntry \<Rightarrow> 'a RouteEntry \<Rightarrow> ordering" where
  "route_order left right = cmp_specificity (re_pattern left) (re_pattern right)"

interpretation entry_order: comparator entry_order
  using comparator_on [OF pattern_order.comparator_axioms, of de_pattern]
  unfolding entry_order_def [abs_def] .

interpretation route_order: comparator route_order
  using comparator_on [OF pattern_order.comparator_axioms, of re_pattern]
  unfolding route_order_def [abs_def] .

definition entry_key :: "'a RouteDispatchEntry \<Rightarrow> RouteMethod \<times> string \<times> string option" where
  "entry_key entry = (de_method entry, pattern_path (de_pattern entry), de_version entry)"

text \<open>The tables that registration can build, with the entries in the order they were registered.\<close>

inductive dispatch_built :: "'a RouteDispatchEntry list \<Rightarrow> 'a RouteDispatchRegistry \<Rightarrow> bool" where
  new: "dispatch_built [] dispatch_new"
| register:
    "dispatch_built history reg \<Longrightarrow> register_versioned reg method pat version val = Inr reg' \<Longrightarrow>
     dispatch_built
       (history @ [\<lparr>de_method = method, de_pattern = pat,
                    de_version = Option.bind version normalize_version_token, de_value = val\<rparr>]) reg'"

inductive registry_built :: "'a RouteEntry list \<Rightarrow> 'a RouteRegistry \<Rightarrow> bool" where
  new: "registry_built [] registry_new"
| register:
    "registry_built history reg \<Longrightarrow> registry_register reg pat val = Inr reg' \<Longrightarrow>
     registry_built (history @ [\<lparr>re_pattern = pat, re_value = val\<rparr>]) reg'"

lemma register_versioned_cases:
  "register_versioned reg method pat version val =
   (let entry = \<lparr>de_method = method, de_pattern = pat,
                 de_version = Option.bind version normalize_version_token, de_value = val\<rparr>
    in if entry_key entry \<in> entry_key ` set (rd_routes reg)
       then Inl (DispatchDuplicateRoute (method_as_str method) (pattern_path pat))
       else Inr (dispatch_rebuild (reg\<lparr>rd_routes := sort_by entry_order (rd_routes reg @ [entry])\<rparr>)))"
  by (auto simp: register_versioned_def Let_def entry_key_def list_ex_iff image_iff
        entry_order_def [abs_def]) metis

lemma dispatch_built_facts:
  "dispatch_built history reg \<Longrightarrow>
   rd_routes reg = sort_by entry_order history \<and> dispatch_indexed reg \<and>
   distinct (map entry_key history)"
proof (induction rule: dispatch_built.induct)
  case new
  then show ?case
    by (simp add: dispatch_new_def dispatch_indexed_def rebuild_def)
next
  case (register history reg meth pat version val reg')
  then have "entry_key ` set (rd_routes reg) = entry_key ` set history" by simp
  with register show ?case
    by (auto simp: register_versioned_cases Let_def dispatch_rebuild_def dispatch_indexed_def
          entry_order.sort_by_push split: if_splits)
qed

lemma registry_built_facts:
  "registry_built history reg \<Longrightarrow>
   rr_routes reg = sort_by route_order history \<and> registry_indexed reg \<and>
   distinct (map (pattern_path \<circ> re_pattern) history)"
proof (induction rule: registry_built.induct)
  case new
  then show ?case
    by (simp add: registry_new_def registry_indexed_def rebuild_def)
next
  case (register history reg pat val reg')
  then have "set (rr_routes reg) = set history" by simp
  with register show ?case
    by (auto simp: registry_register_def Let_def registry_rebuild_def registry_indexed_def
          list_ex_iff route_order.sort_by_push route_order_def [symmetric] split: if_splits)
qed

section \<open>What dispatch returns\<close>

text \<open>The entries a request may be served by: those that match the path and carry the requested
  version, or the unversioned ones when no matching entry carries it.\<close>

definition eligible ::
  "'a RouteDispatchEntry list \<Rightarrow> string \<Rightarrow> string option \<Rightarrow> 'a RouteDispatchEntry list" where
  "eligible routes path version =
     (let matching = filter (\<lambda>e. matches (de_pattern e) path) routes;
          exact = filter (\<lambda>e. version \<noteq> None \<and> de_version e = version) matching
      in if exact \<noteq> [] then exact else filter (\<lambda>e. de_version e = None) matching)"

lemma select_loop_filter:
  assumes "\<forall>i \<in> set is. i < length routes"
  shows "select_loop routes path version is exact unversioned =
    (let ms = filter (\<lambda>e. matches (de_pattern e) path) (map ((!) routes) is) in
     (exact @ filter (\<lambda>e. version \<noteq> None \<and> de_version e = version) ms,
      unversioned @ filter (\<lambda>e. de_version e = None) ms))"
  using assms
proof (induction "is" arbitrary: exact unversioned)
  case (Cons i "is")
  then have "get_index routes i = Some (routes ! i)" by (simp add: get_index_def)
  with Cons show ?case by (cases version) (simp_all add: Let_def)
qed simp

lemma select_versioned_eligible:
  assumes "dispatch_indexed reg" "trimmed (normalize_path path)"
  shows "entries (select_versioned reg path version) =
      eligible (rd_routes reg) (normalize_path path) (Option.bind version normalize_version_token)"
    and "sel_path (select_versioned reg path version) = normalize_path path"
proof -
  let ?n = "normalize_path path" and ?v = "Option.bind version normalize_version_token"
  have "\<forall>i \<in> set (dispatch_candidates reg ?n). i < length (rd_routes reg)"
    using dispatch_table.candidates_bounded assms(1) by blast
  then have loop: "select_loop (rd_routes reg) ?n ?v (dispatch_candidates reg ?n) [] [] =
    (let ms = filter (\<lambda>e. matches (de_pattern e) ?n) (rd_routes reg) in
     (filter (\<lambda>e. ?v \<noteq> None \<and> de_version e = ?v) ms, filter (\<lambda>e. de_version e = None) ms))"
    using dispatch_table.scan [OF assms(1), of ?n] assms(2) by (simp add: select_loop_filter)
  have none: "filter (\<lambda>e. ?v \<noteq> None \<and> de_version e = ?v) ms \<noteq> [] \<Longrightarrow> ?v \<noteq> None"
    for ms :: "'a RouteDispatchEntry list"
    by (auto simp: filter_empty_conv)
  show "entries (select_versioned reg path version) = eligible (rd_routes reg) ?n ?v"
    unfolding select_versioned_def eligible_def loop Let_def
    using none by (auto simp del: filter_filter)
  show "sel_path (select_versioned reg path version) = ?n"
    by (simp add: select_versioned_def Let_def split: prod.splits)
qed

lemma matches_normalized:
  "trimmed (normalize_path path) \<Longrightarrow> matches p (normalize_path path) = matches p path"
  by (simp add: matches_iff_seg_match split_path_normalize_twice)

lemma captures_normalized:
  "trimmed (normalize_path path) \<Longrightarrow> captures p (normalize_path path) = captures p path"
  by (simp add: captures_def split_path_normalize_twice)

lemma eligible_normalized:
  "trimmed (normalize_path path) \<Longrightarrow> eligible routes (normalize_path path) v = eligible routes path v"
  by (simp add: eligible_def matches_normalized)

lemma eligible_append_filter: "\<exists>Q. \<forall>routes. set routes = R \<longrightarrow> eligible routes path v = filter Q routes"
proof (cases "\<exists>e \<in> R. matches (de_pattern e) path \<and> v \<noteq> None \<and> de_version e = v")
  case True
  then show ?thesis
    by (intro exI [of _ "\<lambda>e. matches (de_pattern e) path \<and> v \<noteq> None \<and> de_version e = v"])
       (auto simp: eligible_def Let_def filter_empty_conv conj_comms)
next
  case False
  then show ?thesis
    by (intro exI [of _ "\<lambda>e. matches (de_pattern e) path \<and> de_version e = None"])
       (auto simp: eligible_def Let_def filter_empty_conv conj_comms)
qed

lemma distinct_remdups_adj_sorted: "sorted xs \<Longrightarrow> distinct (remdups_adj (xs :: 'b :: linorder list))"
  by (induction xs rule: induct_list012) auto

lemma allowed_methods_sorted_set:
  "allowed_methods sel = sorted_list_of_set ((\<lambda>e. method_as_str (de_method e)) ` set (entries sel))"
proof -
  have "remdups_adj (sort xs) = sorted_list_of_set (set xs)" for xs :: "string list"
    by (rule sorted_distinct_set_unique) (auto simp: distinct_remdups_adj_sorted)
  then show ?thesis by (simp add: allowed_methods_def)
qed

lemma dispatch_versioned_find:
  assumes "dispatch_indexed reg" "trimmed (normalize_path path)"
  shows "dispatch_versioned reg method path version =
    (let pool = eligible (rd_routes reg) path (Option.bind version normalize_version_token) in
     case find (\<lambda>e. method_matches (de_method e) (request_method method)) pool of
       Some e \<Rightarrow> Matched e
     | None \<Rightarrow> if pool = [] then NotFound
               else MethodNotAllowed (normalize_path path)
                      (sorted_list_of_set ((\<lambda>e. method_as_str (de_method e)) ` set pool)))"
  by (simp add: dispatch_versioned_def selection_dispatch_def selection_resolve_entry_def
        select_versioned_eligible [OF assms] allowed_methods_sorted_set eligible_normalized [OF assms(2)]
        Let_def cong: option.case_cong)

text \<open>The eligible entries that accept the method.\<close>

definition serving ::
  "'a RouteDispatchEntry list \<Rightarrow> string \<Rightarrow> string \<Rightarrow> string option \<Rightarrow> 'a RouteDispatchEntry list" where
  "serving routes method path version =
     filter (\<lambda>x. method_matches (de_method x) (request_method method))
       (eligible routes path (Option.bind version normalize_version_token))"

lemma dispatch_built_entries:
  "dispatch_built history reg \<Longrightarrow>
   set (rd_routes reg) = set history \<and> dispatch_indexed reg \<and> rd_routes reg = sort_by entry_order history"
  using dispatch_built_facts by fastforce

lemma dispatch_built_find:
  assumes "dispatch_built history reg" "trimmed (normalize_path path)"
    and "dispatch_versioned reg method path version = Matched e"
  shows "\<exists>Q. (\<forall>routes. set routes = set history \<longrightarrow>
           eligible routes path (Option.bind version normalize_version_token) = filter Q routes) \<and>
         find (\<lambda>x. Q x \<and> method_matches (de_method x) (request_method method)) (sort_by entry_order history) = Some e"
proof -
  obtain Q where Q: "\<forall>routes. set routes = set history \<longrightarrow>
      eligible routes path (Option.bind version normalize_version_token) = filter Q routes"
    using eligible_append_filter by blast
  have "find (\<lambda>e. method_matches (de_method e) (request_method method))
      (filter Q (sort_by entry_order history)) = Some e"
    using assms(3) Q dispatch_built_entries [OF assms(1)]
    by (simp add: dispatch_versioned_find [OF _ assms(2)] Let_def split: option.splits if_splits)
  with Q show ?thesis by (auto simp: find_filter)
qed

lemma resolve_match_loop_find:
  "\<forall>e \<in> set es. captures (de_pattern e) n \<noteq> None \<Longrightarrow>
   resolve_match_loop n method es =
   map_option (\<lambda>e. \<lparr>rm_entry = e, rm_captures = the (captures (de_pattern e) n)\<rparr>)
     (find (\<lambda>e. method_matches (de_method e) method) es)"
  by (induction es) auto

lemma eligible_matches: "e \<in> set (eligible routes path v) \<Longrightarrow> e \<in> set routes \<and> matches (de_pattern e) path"
  by (auto simp: eligible_def Let_def split: if_splits)

section \<open>Properties of the route tables\<close>

text \<open>C2: however routes are registered, the table holds exactly the accepted entries, no two of them
  with the same method, path and version, sorted from most to least specific with equally specific
  entries in registration order (sorting after every push amounts to one stable sort), and the
  first-segment index describes the table.\<close>

theorem registration_invariant:
  "dispatch_built history reg \<Longrightarrow>
   rd_routes reg = sort_by entry_order history \<and> sorted_by entry_order (rd_routes reg) \<and>
   mset (rd_routes reg) = mset history \<and> distinct (map entry_key history) \<and> dispatch_indexed reg"
  using dispatch_built_facts [of history reg] by (simp add: entry_order.sorted_sort_by mset_sort_by)

text \<open>A small table used as a concrete input: \<open>GET /users/:id\<close>, then \<open>GET /users/me\<close>, then
  \<open>POST /users/me\<close> in version 2.\<close>

definition demo1 :: "nat RouteDispatchRegistry" where
  "demo1 = projr (register_versioned dispatch_new Get (Pattern [Literal ''users'', Parameter ''id'']) None 1)"

definition demo2 :: "nat RouteDispatchRegistry" where
  "demo2 = projr (register_versioned demo1 Get (Static [''users'', ''me'']) None 2)"

definition demo3 :: "nat RouteDispatchRegistry" where
  "demo3 = projr (register_versioned demo2 Post (Static [''users'', ''me'']) (Some ''2'') 3)"

definition demo_history :: "nat RouteDispatchEntry list" where
  "demo_history =
     [\<lparr>de_method = Get, de_pattern = Pattern [Literal ''users'', Parameter ''id''], de_version = None, de_value = 1\<rparr>,
      \<lparr>de_method = Get, de_pattern = Static [''users'', ''me''], de_version = None, de_value = 2\<rparr>,
      \<lparr>de_method = Post, de_pattern = Static [''users'', ''me''], de_version = Some ''v2'', de_value = 3\<rparr>]"

lemma demo_built: "dispatch_built demo_history demo3"
proof -
  have "\<not> isl (register_versioned dispatch_new Get (Pattern [Literal ''users'', Parameter ''id'']) None (1 :: nat))"
    by code_simp
  then have 1: "register_versioned dispatch_new Get (Pattern [Literal ''users'', Parameter ''id'']) None 1 = Inr demo1"
    unfolding demo1_def by simp
  have "\<not> isl (register_versioned demo1 Get (Static [''users'', ''me'']) None 2)" by code_simp
  then have 2: "register_versioned demo1 Get (Static [''users'', ''me'']) None 2 = Inr demo2"
    unfolding demo2_def by simp
  have "\<not> isl (register_versioned demo2 Post (Static [''users'', ''me'']) (Some ''2'') 3)" by code_simp
  then have 3: "register_versioned demo2 Post (Static [''users'', ''me'']) (Some ''2'') 3 = Inr demo3"
    unfolding demo3_def by simp
  have "normalize_version_token ''2'' = Some ''v2''" by code_simp
  then show ?thesis
    using dispatch_built.register [OF dispatch_built.register [OF dispatch_built.register
      [OF dispatch_built.new 1] 2] 3]
    by (simp add: demo_history_def)
qed

theorem registration_invariant_witness:
  "rd_routes demo3 = sort_by entry_order demo_history \<and> sorted_by entry_order (rd_routes demo3) \<and>
   distinct (map entry_key demo_history)"
  using registration_invariant [OF demo_built] by blast

text \<open>C1: dispatch. A request is answered by the first entry, in table order, that matches the path,
  fits the requested version (entries of that version if any matches the path, unversioned ones
  otherwise) and accepts the method; without such an entry the answer is 405 with the sorted,
  duplicate-free methods of the fitting entries, or 404 when no entry fits.\<close>

theorem dispatch_correct:
  "dispatch_built history reg \<Longrightarrow> trimmed (normalize_path path) \<Longrightarrow>
   dispatch_versioned reg method path version =
    (let pool = eligible (sort_by entry_order history) path (Option.bind version normalize_version_token) in
     case find (\<lambda>e. method_matches (de_method e) (request_method method)) pool of
       Some e \<Rightarrow> Matched e
     | None \<Rightarrow> if pool = [] then NotFound
               else MethodNotAllowed (normalize_path path)
                      (sorted_list_of_set ((\<lambda>e. method_as_str (de_method e)) ` set pool)))"
  using dispatch_built_entries [of history reg] dispatch_versioned_find by metis

theorem dispatch_correct_witness:
  "dispatch_versioned demo3 ''delete'' ''/users/me'' None = MethodNotAllowed ''/users/me'' [''GET''] \<and>
   dispatch_versioned demo3 ''get'' ''/orders'' None = NotFound"
proof -
  note law = dispatch_correct [OF demo_built]
  have "trim (normalize_path ''/users/me'') = normalize_path ''/users/me''"
    "trim (normalize_path ''/orders'') = normalize_path ''/orders''" by code_simp+
  note laws = law [OF this(1), of "''delete''" None] law [OF this(2), of "''get''" None]
  have "eligible (sort_by entry_order demo_history) ''/orders'' None = []" by code_simp
  moreover have "eligible (sort_by entry_order demo_history) ''/users/me'' None =
     [demo_history ! 1, demo_history ! 0]" by code_simp
  moreover have "request_method ''delete'' = ''DELETE''" "normalize_path ''/users/me'' = ''/users/me''"
    by code_simp+
  ultimately show ?thesis
    unfolding laws by (simp add: Let_def demo_history_def method_matches_def)
qed

text \<open>The entry that answers a request is a most specific one: no other entry that could have
  answered comes strictly before it in the specificity order, and of the equally specific ones it is
  the one registered first.\<close>

theorem dispatch_most_specific:
  assumes "dispatch_built history reg" "trimmed (normalize_path path)"
    and "dispatch_versioned reg method path version = Matched e"
  shows "e \<in> set (serving history method path version) \<and>
         (\<forall>x \<in> set (serving history method path version).
            cmp_specificity (de_pattern e) (de_pattern x) \<noteq> Greater) \<and>
         find (\<lambda>x. cmp_specificity (de_pattern e) (de_pattern x) = Equal)
           (serving history method path version) = Some e"
proof -
  let ?pool = "serving history method path version"
  let ?m = "\<lambda>x. method_matches (de_method x) (request_method method)"
  obtain Q where Q: "\<forall>routes. set routes = set history \<longrightarrow>
        eligible routes path (Option.bind version normalize_version_token) = filter Q routes"
    and found: "find (\<lambda>x. Q x \<and> ?m x) (sort_by entry_order history) = Some e"
    using dispatch_built_find [OF assms(1-3)] by blast
  have pool: "?pool = filter (\<lambda>x. Q x \<and> ?m x) history"
    using Q by (simp add: serving_def)
  have "e \<in> set ?pool"
    using found by (auto simp: pool find_Some_iff) (metis nth_mem set_sort_by length_sort_by)
  moreover have "entry_order e x \<noteq> Greater" if "x \<in> set ?pool" for x
    using entry_order.find_sorted_least [OF found] that by (simp add: pool)
  moreover have "find (\<lambda>x. entry_order e x = Equal) ?pool = Some e"
    using entry_order.find_sorted_earliest [OF found] by (simp add: pool find_filter conj_comms)
  ultimately show ?thesis by (simp add: entry_order_def)
qed

theorem dispatch_most_specific_witness:
  "dispatch_versioned demo3 ''get'' ''/users/me'' None = Matched (demo_history ! 1) \<and>
   cmp_specificity (de_pattern (demo_history ! 1)) (de_pattern (demo_history ! 0)) \<noteq> Greater"
proof -
  have ok: "trim (normalize_path ''/users/me'') = normalize_path ''/users/me''" by code_simp
  have hit: "dispatch_versioned demo3 ''get'' ''/users/me'' None = Matched (demo_history ! 1)" by code_simp
  have "demo_history ! 0 \<in> set (serving demo_history ''get'' ''/users/me'' None)" by code_simp
  then show ?thesis using dispatch_most_specific [OF demo_built ok hit] hit by blast
qed

lemma resolve_match_agrees:
  assumes "dispatch_built history reg" "trimmed (normalize_path path)"
  shows "resolve_match_versioned reg method path version = Some m \<longleftrightarrow>
         dispatch_versioned reg method path version = Matched (rm_entry m) \<and>
         captures (de_pattern (rm_entry m)) path = Some (rm_captures m)"
proof -
  let ?sel = "select_versioned reg path version" and ?m = "request_method method"
  have ix: "dispatch_indexed reg" using dispatch_built_entries [OF assms(1)] by simp
  note sel = select_versioned_eligible [OF ix assms(2), of version]
  have caps: "\<forall>e \<in> set (entries ?sel). captures (de_pattern e) (normalize_path path) \<noteq> None"
    unfolding sel using eligible_matches unfolding matches_def by blast
  have "resolve_match_versioned reg method path version =
      map_option (\<lambda>e. \<lparr>rm_entry = e, rm_captures = the (captures (de_pattern e) (normalize_path path))\<rparr>)
        (find (\<lambda>e. method_matches (de_method e) ?m) (entries ?sel))"
    by (simp add: resolve_match_versioned_def selection_resolve_match_def sel(2) resolve_match_loop_find [OF caps])
  moreover have "captures (de_pattern e) path \<noteq> None" if "find P (entries ?sel) = Some e" for P e
    using that caps by (simp add: find_Some_iff captures_normalized [OF assms(2)]) (metis nth_mem option.distinct(1))
  ultimately show ?thesis
    by (cases m) (auto simp: dispatch_versioned_def selection_dispatch_def selection_resolve_entry_def
        captures_normalized [OF assms(2)] split: option.splits if_splits)
qed

text \<open>\<open>resolve_match\<close> and \<open>dispatch\<close> agree: a match is returned exactly when dispatch matches,
  for the same entry, with the captures of that entry's pattern on the request path.\<close>

theorem resolve_match_dispatch:
  assumes "dispatch_built history reg" "trimmed (normalize_path path)"
  shows "resolve_match_versioned reg method path version = Some m \<longleftrightarrow>
         dispatch_versioned reg method path version = Matched (rm_entry m) \<and>
         captures (de_pattern (rm_entry m)) path = Some (rm_captures m)"
  by (rule resolve_match_agrees [OF assms])

theorem resolve_match_dispatch_witness:
  "resolve_match_versioned demo3 ''get'' ''/users/7'' None =
     Some \<lparr>rm_entry = demo_history ! 0,
           rm_captures = \<lparr>parameters = [(''id'', ''7'')], wildcard = None\<rparr>\<rparr>"
proof -
  have ok: "trim (normalize_path ''/users/7'') = normalize_path ''/users/7''" by code_simp
  have "dispatch_versioned demo3 ''get'' ''/users/7'' None = Matched (demo_history ! 0)"
    "captures (de_pattern (demo_history ! 0)) ''/users/7'' = Some \<lparr>parameters = [(''id'', ''7'')], wildcard = None\<rparr>"
    by code_simp+
  then show ?thesis
    using resolve_match_dispatch [OF demo_built ok] by simp
qed

text \<open>The path registry resolves a path to the first entry, in specificity order, whose pattern
  matches it; it has one entry per printed path.\<close>

theorem registry_resolve_correct:
  assumes "registry_built history reg" "trimmed (normalize_path path)"
  shows "registry_resolve_entry reg path = find (\<lambda>e. matches (re_pattern e) path) (sort_by route_order history) \<and>
         registry_resolve reg path = map_option re_value (registry_resolve_entry reg path) \<and>
         distinct (map (pattern_path \<circ> re_pattern) history)"
proof -
  note facts = registry_built_facts [OF assms(1)]
  have "registry_resolve_entry reg path =
      map_option (\<lambda>e. e) (find (\<lambda>e. matches (re_pattern e) (normalize_path path)) (rr_routes reg))"
    unfolding registry_resolve_entry_def Let_def by (rule path_table.lookup) (use facts assms in auto)
  moreover have "registry_resolve reg path =
      map_option re_value (find (\<lambda>e. matches (re_pattern e) (normalize_path path)) (rr_routes reg))"
    unfolding registry_resolve_def Let_def by (rule path_table.lookup) (use facts assms in auto)
  ultimately show ?thesis
    using facts by (simp add: matches_normalized [OF assms(2)] option.map_ident)
qed

theorem registry_resolve_correct_witness:
  "registry_resolve (projr (registry_register registry_new (Static [''a'']) (5 :: nat))) ''a/'' = Some 5"
proof -
  let ?r = "projr (registry_register registry_new (Static [''a'']) (5 :: nat))"
  have "\<not> isl (registry_register registry_new (Static [''a'']) (5 :: nat))" by code_simp
  then have "registry_register registry_new (Static [''a'']) (5 :: nat) = Inr ?r" by simp
  then have built: "registry_built [\<lparr>re_pattern = Static [''a''], re_value = 5\<rparr>] ?r"
    using registry_built.register [OF registry_built.new] by fastforce
  have ok: "trim (normalize_path ''a/'') = normalize_path ''a/''" by code_simp
  have "find (\<lambda>e. matches (re_pattern e) ''a/'') (sort_by route_order [\<lparr>re_pattern = Static [''a''], re_value = 5 :: nat\<rparr>]) =
     Some \<lparr>re_pattern = Static [''a''], re_value = 5\<rparr>" by code_simp
  then show ?thesis using registry_resolve_correct [OF built ok] by simp
qed

text \<open>The hypothesis on white space is needed: on \<open>"/a /"\<close> the index looks under the segment
  \<open>"a "\<close>, the patterns are matched against \<open>"/a"\<close>, and the less specific route wins.\<close>

definition spaced_registry :: "nat RouteRegistry" where
  "spaced_registry = projr (registry_register
     (projr (registry_register registry_new (Static [''a'']) 1)) (Pattern [Parameter ''x'']) 2)"

lemma trailing_space_bypasses_static_route:
  "registry_resolve spaced_registry ''/a /'' = Some 2 \<and>
   find (\<lambda>e. matches (re_pattern e) (normalize_path ''/a /'')) (rr_routes spaced_registry) =
     Some \<lparr>re_pattern = Static [''a''], re_value = 1\<rparr>"
  by code_simp

section \<open>Properties of the version negotiation\<close>

lemma trim_matches_keep:
  "s \<noteq> [] \<Longrightarrow> \<not> P (hd s) \<Longrightarrow> \<not> P (last s) \<Longrightarrow> trim_matches P s = s"
proof -
  assume a: "s \<noteq> []" "\<not> P (hd s)" "\<not> P (last s)"
  then have "trim_start_matches P s = s" by (cases s) (auto simp: trim_start_matches_def)
  moreover have "trim_end_matches P s = s" using a by (cases s rule: rev_cases) (auto simp: trim_end_matches_snoc)
  ultimately show ?thesis by (simp add: trim_matches_def)
qed

definition bare_version :: "string \<Rightarrow> bool" where
  "bare_version s \<longleftrightarrow> s \<noteq> [] \<and> (\<forall>c \<in> set s. \<not> is_whitespace c \<and> \<not> is_slash c \<and> c \<notin> set ''+;-,'')"

lemma normalize_bare:
  assumes "bare_version s" "hd s \<notin> set ''vV''"
  shows "normalize_version_token s = Some (''v'' @ s)"
    and "normalize_version_token (CHR ''v'' # s) = Some (''v'' @ s)"
    and "normalize_version_token (CHR ''V'' # s) = Some (''v'' @ s)"
proof -
  have keep: "trim_matches is_slash (trim t) = t" if "\<forall>c \<in> set t. \<not> is_whitespace c \<and> \<not> is_slash c" for t
    using that by (simp add: trim_id trim_matches_def trim_start_matches_id trim_end_matches_id)
  have "s \<noteq> []" and v: "\<not> is_whitespace CHR ''v''" "\<not> is_whitespace CHR ''V''"
    using assms by (simp_all add: bare_version_def is_whitespace_def)
  with assms show "normalize_version_token s = Some (''v'' @ s)"
    by (cases s) (auto simp: normalize_version_token_def Let_def keep bare_version_def strip_prefix_def)
  from assms v \<open>s \<noteq> []\<close> show "normalize_version_token (CHR ''v'' # s) = Some (''v'' @ s)"
    "normalize_version_token (CHR ''V'' # s) = Some (''v'' @ s)"
    by (auto simp: normalize_version_token_def Let_def keep bare_version_def strip_prefix_def starts_with_def)
qed

lemma rsplit_once_None: "CHR ''v'' \<notin> set t \<Longrightarrow> rsplit_once ''.v'' t = None"
  by (induction t) (auto simp: strip_prefix_def)

lemma rsplit_once_marker:
  "CHR ''v'' \<notin> set t \<Longrightarrow> rsplit_once ''.v'' (sub @ ''.v'' @ t) = Some (sub, t)"
  by (induction sub) (auto simp: rsplit_once_None strip_prefix_def starts_with_def)

lemma split_once_first: "c \<notin> set t \<Longrightarrow> split_once c (t @ c # u) = Some (t, u)"
  by (induction t) auto

lemma accept_candidate_marker:
  assumes "\<forall>c \<in> set (ty @ sub). \<not> is_whitespace c \<and> c \<notin> set ''/;''"
    and "bare_version s" "CHR ''v'' \<notin> set s"
  shows "accept_candidate_version (ty @ ''/'' @ sub @ ''.v'' @ s @ ''+json'') = normalize_version_token s"
proof -
  let ?m = "ty @ ''/'' @ sub @ ''.v'' @ s @ ''+json''"
  have plain: "\<forall>c \<in> set ?m. \<not> is_whitespace c \<and> c \<noteq> CHR '';''"
    using assms by (auto simp: bare_version_def is_whitespace_def)
  then have "trim ?m = ?m" by (intro trim_id) blast
  moreover from plain have "split_on (CHR '';'') ?m = [?m]" by (intro split_on_no_sep) blast
  moreover have "split_once (CHR ''/'') ?m = Some (ty, sub @ ''.v'' @ s @ ''+json'')"
    using assms(1) split_once_first [of "CHR ''/''" ty] by auto
  moreover have "rsplit_once ''.v'' (sub @ ''.v'' @ s @ ''+json'') = Some (sub, s @ ''+json'')"
    using assms(3) by (intro rsplit_once_marker) simp
  moreover have "takeWhile (\<lambda>c. c \<notin> set ''+;-/'') (s @ ''+json'') = s"
    using assms(2) by (subst takeWhile_append2) (auto simp: bare_version_def)
  ultimately show ?thesis by (simp add: accept_candidate_version_def Let_def)
qed

text \<open>Version negotiation is canonical: a bare version \<open>s\<close> written as \<open>s\<close>, \<open>vs\<close> or \<open>Vs\<close>, in
  a version header or as the \<open>.vs+json\<close> marker of the first media type of an \<open>Accept\<close> header, always
  denotes the token \<open>vs\<close>, so a route registered under any of the spellings is found by all of them.\<close>

theorem version_spellings_agree:
  assumes "bare_version s" "hd s \<notin> set ''vV''" "CHR ''v'' \<notin> set s"
    and "\<forall>c \<in> set (ty @ sub). \<not> is_whitespace c \<and> c \<notin> set ''/;,''"
    and "spelling \<in> {s, CHR ''v'' # s, CHR ''V'' # s}"
  shows "parse_api_version_header spelling = Some (''v'' @ s) \<and>
         parse_api_version_accept (ty @ ''/'' @ sub @ ''.v'' @ s @ ''+json'') = Some (''v'' @ s) \<and>
         dispatch_media_type_versioned reg method path (Some (ty @ ''/'' @ sub @ ''.v'' @ s @ ''+json'')) =
         dispatch_header_versioned reg method path (Some spelling)"
proof -
  let ?m = "ty @ ''/'' @ sub @ ''.v'' @ s @ ''+json''"
  have header: "parse_api_version_header spelling = Some (''v'' @ s)"
    using normalize_bare [OF assms(1,2)] assms(5) unfolding parse_api_version_header_def by auto
  have "CHR '','' \<notin> set ?m" using assms(1,4) by (auto simp: bare_version_def)
  then have "split_on (CHR '','') ?m = [?m]" by (rule split_on_no_sep)
  moreover have "accept_candidate_version ?m = Some (''v'' @ s)"
    using accept_candidate_marker [of ty sub s] assms normalize_bare(1) [OF assms(1,2)] by auto
  ultimately have "parse_api_version_accept ?m = Some (''v'' @ s)"
    unfolding parse_api_version_accept_def by simp
  with header show ?thesis
    by (simp add: dispatch_media_type_versioned_def dispatch_header_versioned_def)
qed

theorem version_spellings_agree_witness:
  "dispatch_media_type_versioned demo3 ''POST'' ''/users/me'' (Some ''application/vnd.app.v2+json'') =
   dispatch_header_versioned demo3 ''POST'' ''/users/me'' (Some ''V2'')"
proof -
  have "bare_version ''2''" "hd ''2'' \<notin> set ''vV''" "CHR ''v'' \<notin> set ''2''"
    "\<forall>c \<in> set (''application'' @ ''vnd.app''). \<not> is_whitespace c \<and> c \<notin> set ''/;,''"
    "''V2'' \<in> {''2'', CHR ''v'' # ''2'', CHR ''V'' # ''2''}"
    by (simp_all add: bare_version_def is_whitespace_def)
  from version_spellings_agree [OF this, of demo3 "''POST''" "''/users/me''"] show ?thesis by simp
qed

lemma set_merge_route_paths: "set (merge_route_paths a b) \<subseteq> insert (CHR ''/'') (set a \<union> set b)"
  using set_trim_end_matches [of is_slash "trim a"] set_trim_matches [of is_slash "trim b"]
    set_trim [of a] set_trim [of b]
  by (auto simp: merge_route_paths_def Let_def split: bool.splits)

lemma slash_not_whitespace: "\<not> is_whitespace CHR ''/''"
  by (simp add: is_whitespace_def)

text \<open>A controller's routes live under its version segment followed by its own path: the segments
  of a versioned route are those of \<open>/v<version>\<close>, of the controller and of the handler, in order.\<close>

theorem versioned_route_segments:
  assumes "\<forall>c \<in> set (prefix @ version @ route). \<not> is_whitespace c"
  shows "split_path_segments (versioned_route_path (with_version (controller_new prefix) version) route) =
         split_path_segments (version_segment version) @ split_path_segments prefix @ split_path_segments route"
proof -
  have free: "trim t = t" if "\<forall>c \<in> set t. \<not> is_whitespace c" for t using that by (simp add: trim_id)
  have n_free: "\<forall>c \<in> set (normalize_path prefix). \<not> is_whitespace c"
    using assms set_normalize_path [of prefix] by (auto simp: is_whitespace_def)
  have vs: "set (version_segment version) \<subseteq> insert CHR ''v'' (set version)"
    using set_trim [of version] set_trim_matches [of is_slash "trim version"]
    by (auto simp: version_segment_def Let_def)
  let ?n = "normalize_path prefix" and ?vp = "versioned_path (with_version (controller_new prefix) version)"
  have "split_path_segments ?vp = split_path_segments (version_segment version) @ split_path_segments prefix \<and>
        (\<forall>c \<in> set ?vp. \<not> is_whitespace c)"
  proof (cases "version = []")
    case True
    then show ?thesis
      using n_free by (simp add: versioned_path_def with_version_def controller_new_def version_segment_def
          free split_path_normalize assms trim_matches_def trim_start_matches_def)
  next
    case False
    have vp: "?vp = merge_route_paths (CHR ''/'' # version_segment version) ?n"
      using False assms free
      by (simp add: versioned_path_def with_version_def controller_new_def)
    have "\<forall>c \<in> set (CHR ''/'' # version_segment version). \<not> is_whitespace c"
      using vs assms by (auto simp: is_whitespace_def)
    then show ?thesis
      using n_free set_merge_route_paths [of "CHR ''/'' # version_segment version" ?n] assms
      n_free unfolding vp split_path_merge
      by (auto simp: free split_path_normalize slash_not_whitespace)
  qed
  then show ?thesis
    using assms free unfolding versioned_route_path_def split_path_merge by auto
qed

theorem versioned_route_segments_witness:
  "split_path_segments (versioned_route_path (with_version (controller_new ''users/'') ''1'') '':id'') =
   [''v1'', ''users'', '':id'']"
proof -
  have "\<forall>c \<in> set (''users/'' @ ''1'' @ '':id''). \<not> is_whitespace c" by (simp add: is_whitespace_def)
  from versioned_route_segments [OF this] show ?thesis by simp code_simp
qed

end
