(* ===== verification/Http_Common.thy ===== *)
theory Http_Common
  imports Prelude "HOL-Library.Word"
begin

text \<open>
  The shared HTTP vocabulary (\<open>nivasa-common\<close>): the standard status codes with their conversions
  to and from \<open>u16\<close>, the HTTP exception value every component reports errors with, and the request
  context handed to guards, pipes and handlers.
\<close>

section \<open>Status codes\<close>

datatype HttpStatus =
    St_Continue
  | St_SwitchingProtocols
  | St_Processing
  | St_EarlyHints
  | St_Ok
  | St_Created
  | St_Accepted
  | St_NonAuthoritativeInformation
  | St_NoContent
  | St_ResetContent
  | St_PartialContent
  | St_MultiStatus
  | St_AlreadyReported
  | St_ImUsed
  | St_MultipleChoices
  | St_MovedPermanently
  | St_Found
  | St_SeeOther
  | St_NotModified
  | St_UseProxy
  | St_TemporaryRedirect
  | St_PermanentRedirect
  | St_BadRequest
  | St_Unauthorized
  | St_PaymentRequired
  | St_Forbidden
  | St_NotFound
  | St_MethodNotAllowed
  | St_NotAcceptable
  | St_ProxyAuthenticationRequired
  | St_RequestTimeout
  | St_Conflict
  | St_Gone
  | St_LengthRequired
  | St_PreconditionFailed
  | St_PayloadTooLarge
  | St_UriTooLong
  | St_UnsupportedMediaType
  | St_RangeNotSatisfiable
  | St_ExpectationFailed
  | St_ImATeapot
  | St_MisdirectedRequest
  | St_UnprocessableEntity
  | St_Locked
  | St_FailedDependency
  | St_TooEarly
  | St_UpgradeRequired
  | St_PreconditionRequired
  | St_TooManyRequests
  | St_RequestHeaderFieldsTooLarge
  | St_UnavailableForLegalReasons
  | St_InternalServerError
  | St_NotImplemented
  | St_BadGateway
  | St_ServiceUnavailable
  | St_GatewayTimeout
  | St_HttpVersionNotSupported
  | St_VariantAlsoNegotiates
  | St_InsufficientStorage
  | St_LoopDetected
  | St_NotExtended
  | St_NetworkAuthenticationRequired

primrec as_u16 :: "HttpStatus \<Rightarrow> 16 word" where
  "as_u16 St_Continue = 100"
| "as_u16 St_SwitchingProtocols = 101"
| "as_u16 St_Processing = 102"
| "as_u16 St_EarlyHints = 103"
| "as_u16 St_Ok = 200"
| "as_u16 St_Created = 201"
| "as_u16 St_Accepted = 202"
| "as_u16 St_NonAuthoritativeInformation = 203"
| "as_u16 St_NoContent = 204"
| "as_u16 St_ResetContent = 205"
| "as_u16 St_PartialContent = 206"
| "as_u16 St_MultiStatus = 207"
| "as_u16 St_AlreadyReported = 208"
| "as_u16 St_ImUsed = 226"
| "as_u16 St_MultipleChoices = 300"
| "as_u16 St_MovedPermanently = 301"
| "as_u16 St_Found = 302"
| "as_u16 St_SeeOther = 303"
| "as_u16 St_NotModified = 304"
| "as_u16 St_UseProxy = 305"
| "as_u16 St_TemporaryRedirect = 307"
| "as_u16 St_PermanentRedirect = 308"
| "as_u16 St_BadRequest = 400"
| "as_u16 St_Unauthorized = 401"
| "as_u16 St_PaymentRequired = 402"
| "as_u16 St_Forbidden = 403"
| "as_u16 St_NotFound = 404"
| "as_u16 St_MethodNotAllowed = 405"
| "as_u16 St_NotAcceptable = 406"
| "as_u16 St_ProxyAuthenticationRequired = 407"
| "as_u16 St_RequestTimeout = 408"
| "as_u16 St_Conflict = 409"
| "as_u16 St_Gone = 410"
| "as_u16 St_LengthRequired = 411"
| "as_u16 St_PreconditionFailed = 412"
| "as_u16 St_PayloadTooLarge = 413"
| "as_u16 St_UriTooLong = 414"
| "as_u16 St_UnsupportedMediaType = 415"
| "as_u16 St_RangeNotSatisfiable = 416"
| "as_u16 St_ExpectationFailed = 417"
| "as_u16 St_ImATeapot = 418"
| "as_u16 St_MisdirectedRequest = 421"
| "as_u16 St_UnprocessableEntity = 422"
| "as_u16 St_Locked = 423"
| "as_u16 St_FailedDependency = 424"
| "as_u16 St_TooEarly = 425"
| "as_u16 St_UpgradeRequired = 426"
| "as_u16 St_PreconditionRequired = 428"
| "as_u16 St_TooManyRequests = 429"
| "as_u16 St_RequestHeaderFieldsTooLarge = 431"
| "as_u16 St_UnavailableForLegalReasons = 451"
| "as_u16 St_InternalServerError = 500"
| "as_u16 St_NotImplemented = 501"
| "as_u16 St_BadGateway = 502"
| "as_u16 St_ServiceUnavailable = 503"
| "as_u16 St_GatewayTimeout = 504"
| "as_u16 St_HttpVersionNotSupported = 505"
| "as_u16 St_VariantAlsoNegotiates = 506"
| "as_u16 St_InsufficientStorage = 507"
| "as_u16 St_LoopDetected = 508"
| "as_u16 St_NotExtended = 510"
| "as_u16 St_NetworkAuthenticationRequired = 511"

primrec reason_phrase :: "HttpStatus \<Rightarrow> string" where
  "reason_phrase St_Continue = ''Continue''"
| "reason_phrase St_SwitchingProtocols = ''Switching Protocols''"
| "reason_phrase St_Processing = ''Processing''"
| "reason_phrase St_EarlyHints = ''Early Hints''"
| "reason_phrase St_Ok = ''OK''"
| "reason_phrase St_Created = ''Created''"
| "reason_phrase St_Accepted = ''Accepted''"
| "reason_phrase St_NonAuthoritativeInformation = ''Non-Authoritative Information''"
| "reason_phrase St_NoContent = ''No Content''"
| "reason_phrase St_ResetContent = ''Reset Content''"
| "reason_phrase St_PartialContent = ''Partial Content''"
| "reason_phrase St_MultiStatus = ''Multi-Status''"
| "reason_phrase St_AlreadyReported = ''Already Reported''"
| "reason_phrase St_ImUsed = ''IM Used''"
| "reason_phrase St_MultipleChoices = ''Multiple Choices''"
| "reason_phrase St_MovedPermanently = ''Moved Permanently''"
| "reason_phrase St_Found = ''Found''"
| "reason_phrase St_SeeOther = ''See Other''"
| "reason_phrase St_NotModified = ''Not Modified''"
| "reason_phrase St_UseProxy = ''Use Proxy''"
| "reason_phrase St_TemporaryRedirect = ''Temporary Redirect''"
| "reason_phrase St_PermanentRedirect = ''Permanent Redirect''"
| "reason_phrase St_BadRequest = ''Bad Request''"
| "reason_phrase St_Unauthorized = ''Unauthorized''"
| "reason_phrase St_PaymentRequired = ''Payment Required''"
| "reason_phrase St_Forbidden = ''Forbidden''"
| "reason_phrase St_NotFound = ''Not Found''"
| "reason_phrase St_MethodNotAllowed = ''Method Not Allowed''"
| "reason_phrase St_NotAcceptable = ''Not Acceptable''"
| "reason_phrase St_ProxyAuthenticationRequired = ''Proxy Authentication Required''"
| "reason_phrase St_RequestTimeout = ''Request Timeout''"
| "reason_phrase St_Conflict = ''Conflict''"
| "reason_phrase St_Gone = ''Gone''"
| "reason_phrase St_LengthRequired = ''Length Required''"
| "reason_phrase St_PreconditionFailed = ''Precondition Failed''"
| "reason_phrase St_PayloadTooLarge = ''Payload Too Large''"
| "reason_phrase St_UriTooLong = ''URI Too Long''"
| "reason_phrase St_UnsupportedMediaType = ''Unsupported Media Type''"
| "reason_phrase St_RangeNotSatisfiable = ''Range Not Satisfiable''"
| "reason_phrase St_ExpectationFailed = ''Expectation Failed''"
| "reason_phrase St_ImATeapot = ''I'' @ [CHR 0x27] @ ''m a teapot''"
| "reason_phrase St_MisdirectedRequest = ''Misdirected Request''"
| "reason_phrase St_UnprocessableEntity = ''Unprocessable Entity''"
| "reason_phrase St_Locked = ''Locked''"
| "reason_phrase St_FailedDependency = ''Failed Dependency''"
| "reason_phrase St_TooEarly = ''Too Early''"
| "reason_phrase St_UpgradeRequired = ''Upgrade Required''"
| "reason_phrase St_PreconditionRequired = ''Precondition Required''"
| "reason_phrase St_TooManyRequests = ''Too Many Requests''"
| "reason_phrase St_RequestHeaderFieldsTooLarge = ''Request Header Fields Too Large''"
| "reason_phrase St_UnavailableForLegalReasons = ''Unavailable For Legal Reasons''"
| "reason_phrase St_InternalServerError = ''Internal Server Error''"
| "reason_phrase St_NotImplemented = ''Not Implemented''"
| "reason_phrase St_BadGateway = ''Bad Gateway''"
| "reason_phrase St_ServiceUnavailable = ''Service Unavailable''"
| "reason_phrase St_GatewayTimeout = ''Gateway Timeout''"
| "reason_phrase St_HttpVersionNotSupported = ''HTTP Version Not Supported''"
| "reason_phrase St_VariantAlsoNegotiates = ''Variant Also Negotiates''"
| "reason_phrase St_InsufficientStorage = ''Insufficient Storage''"
| "reason_phrase St_LoopDetected = ''Loop Detected''"
| "reason_phrase St_NotExtended = ''Not Extended''"
| "reason_phrase St_NetworkAuthenticationRequired = ''Network Authentication Required''"

datatype InvalidHttpStatus = InvalidHttpStatus "16 word"

definition try_from :: "16 word \<Rightarrow> InvalidHttpStatus + HttpStatus" where
  "try_from val =
     (if val = 100 then Inr St_Continue
      else if val = 101 then Inr St_SwitchingProtocols
      else if val = 102 then Inr St_Processing
      else if val = 103 then Inr St_EarlyHints
      else if val = 200 then Inr St_Ok
      else if val = 201 then Inr St_Created
      else if val = 202 then Inr St_Accepted
      else if val = 203 then Inr St_NonAuthoritativeInformation
      else if val = 204 then Inr St_NoContent
      else if val = 205 then Inr St_ResetContent
      else if val = 206 then Inr St_PartialContent
      else if val = 207 then Inr St_MultiStatus
      else if val = 208 then Inr St_AlreadyReported
      else if val = 226 then Inr St_ImUsed
      else if val = 300 then Inr St_MultipleChoices
      else if val = 301 then Inr St_MovedPermanently
      else if val = 302 then Inr St_Found
      else if val = 303 then Inr St_SeeOther
      else if val = 304 then Inr St_NotModified
      else if val = 305 then Inr St_UseProxy
      else if val = 307 then Inr St_TemporaryRedirect
      else if val = 308 then Inr St_PermanentRedirect
      else if val = 400 then Inr St_BadRequest
      else if val = 401 then Inr St_Unauthorized
      else if val = 402 then Inr St_PaymentRequired
      else if val = 403 then Inr St_Forbidden
      else if val = 404 then Inr St_NotFound
      else if val = 405 then Inr St_MethodNotAllowed
      else if val = 406 then Inr St_NotAcceptable
      else if val = 407 then Inr St_ProxyAuthenticationRequired
      else if val = 408 then Inr St_RequestTimeout
      else if val = 409 then Inr St_Conflict
      else if val = 410 then Inr St_Gone
      else if val = 411 then Inr St_LengthRequired
      else if val = 412 then Inr St_PreconditionFailed
      else if val = 413 then Inr St_PayloadTooLarge
      else if val = 414 then Inr St_UriTooLong
      else if val = 415 then Inr St_UnsupportedMediaType
      else if val = 416 then Inr St_RangeNotSatisfiable
      else if val = 417 then Inr St_ExpectationFailed
      else if val = 418 then Inr St_ImATeapot
      else if val = 421 then Inr St_MisdirectedRequest
      else if val = 422 then Inr St_UnprocessableEntity
      else if val = 423 then Inr St_Locked
      else if val = 424 then Inr St_FailedDependency
      else if val = 425 then Inr St_TooEarly
      else if val = 426 then Inr St_UpgradeRequired
      else if val = 428 then Inr St_PreconditionRequired
      else if val = 429 then Inr St_TooManyRequests
      else if val = 431 then Inr St_RequestHeaderFieldsTooLarge
      else if val = 451 then Inr St_UnavailableForLegalReasons
      else if val = 500 then Inr St_InternalServerError
      else if val = 501 then Inr St_NotImplemented
      else if val = 502 then Inr St_BadGateway
      else if val = 503 then Inr St_ServiceUnavailable
      else if val = 504 then Inr St_GatewayTimeout
      else if val = 505 then Inr St_HttpVersionNotSupported
      else if val = 506 then Inr St_VariantAlsoNegotiates
      else if val = 507 then Inr St_InsufficientStorage
      else if val = 508 then Inr St_LoopDetected
      else if val = 510 then Inr St_NotExtended
      else if val = 511 then Inr St_NetworkAuthenticationRequired
      else Inl (InvalidHttpStatus val))"

definition is_informational :: "HttpStatus \<Rightarrow> bool" where
  "is_informational self \<longleftrightarrow> 100 \<le> as_u16 self \<and> as_u16 self \<le> 199"

definition is_success :: "HttpStatus \<Rightarrow> bool" where
  "is_success self \<longleftrightarrow> 200 \<le> as_u16 self \<and> as_u16 self \<le> 299"

definition is_redirection :: "HttpStatus \<Rightarrow> bool" where
  "is_redirection self \<longleftrightarrow> 300 \<le> as_u16 self \<and> as_u16 self \<le> 399"

definition is_client_error :: "HttpStatus \<Rightarrow> bool" where
  "is_client_error self \<longleftrightarrow> 400 \<le> as_u16 self \<and> as_u16 self \<le> 499"

definition is_server_error :: "HttpStatus \<Rightarrow> bool" where
  "is_server_error self \<longleftrightarrow> 500 \<le> as_u16 self \<and> as_u16 self \<le> 599"

section \<open>Exceptions\<close>

text \<open>\<open>'j\<close> is the type of JSON values, \<open>'e\<close> that of error causes; neither is inspected here.\<close>

record ('j, 'e) HttpException =
  status_code :: "16 word"
  message :: string
  error :: string
  details :: "'j option"
  cause :: "'e option"

definition default_error_name :: "16 word \<Rightarrow> string" where
  "default_error_name code =
     (case try_from code of Inr status \<Rightarrow> reason_phrase status | Inl _ \<Rightarrow> ''Unknown Error'')"

definition exception_new :: "16 word \<Rightarrow> string \<Rightarrow> ('j, 'e) HttpException" where
  "exception_new code msg =
     \<lparr>status_code = code, message = msg, error = default_error_name code, details = None, cause = None\<rparr>"

definition from_status :: "HttpStatus \<Rightarrow> string \<Rightarrow> ('j, 'e) HttpException" where
  "from_status status msg = exception_new (as_u16 status) msg"

definition into_exception :: "HttpStatus \<Rightarrow> string \<Rightarrow> ('j, 'e) HttpException" where
  "into_exception self msg = from_status self msg"

definition with_details :: "('j, 'e) HttpException \<Rightarrow> 'j \<Rightarrow> ('j, 'e) HttpException" where
  "with_details self d = self\<lparr>details := Some d\<rparr>"

definition with_cause :: "('j, 'e) HttpException \<Rightarrow> 'e \<Rightarrow> ('j, 'e) HttpException" where
  "with_cause self c = self\<lparr>cause := Some c\<rparr>"

definition bad_request :: "string \<Rightarrow> ('j, 'e) HttpException" where
  "bad_request msg = exception_new 400 msg"

definition unauthorized :: "string \<Rightarrow> ('j, 'e) HttpException" where
  "unauthorized msg = exception_new 401 msg"

definition payment_required :: "string \<Rightarrow> ('j, 'e) HttpException" where
  "payment_required msg = exception_new 402 msg"

definition forbidden :: "string \<Rightarrow> ('j, 'e) HttpException" where
  "forbidden msg = exception_new 403 msg"

definition not_found :: "string \<Rightarrow> ('j, 'e) HttpException" where
  "not_found msg = exception_new 404 msg"

definition method_not_allowed :: "string \<Rightarrow> ('j, 'e) HttpException" where
  "method_not_allowed msg = exception_new 405 msg"

definition not_acceptable :: "string \<Rightarrow> ('j, 'e) HttpException" where
  "not_acceptable msg = exception_new 406 msg"

definition conflict :: "string \<Rightarrow> ('j, 'e) HttpException" where
  "conflict msg = exception_new 409 msg"

definition gone :: "string \<Rightarrow> ('j, 'e) HttpException" where
  "gone msg = exception_new 410 msg"

definition payload_too_large :: "string \<Rightarrow> ('j, 'e) HttpException" where
  "payload_too_large msg = exception_new 413 msg"

definition unsupported_media_type :: "string \<Rightarrow> ('j, 'e) HttpException" where
  "unsupported_media_type msg = exception_new 415 msg"

definition unprocessable_entity :: "string \<Rightarrow> ('j, 'e) HttpException" where
  "unprocessable_entity msg = exception_new 422 msg"

definition too_many_requests :: "string \<Rightarrow> ('j, 'e) HttpException" where
  "too_many_requests msg = exception_new 429 msg"

definition request_timeout :: "string \<Rightarrow> ('j, 'e) HttpException" where
  "request_timeout msg = exception_new 408 msg"

definition internal_server_error :: "string \<Rightarrow> ('j, 'e) HttpException" where
  "internal_server_error msg = exception_new 500 msg"

definition not_implemented :: "string \<Rightarrow> ('j, 'e) HttpException" where
  "not_implemented msg = exception_new 501 msg"

definition bad_gateway :: "string \<Rightarrow> ('j, 'e) HttpException" where
  "bad_gateway msg = exception_new 502 msg"

definition service_unavailable :: "string \<Rightarrow> ('j, 'e) HttpException" where
  "service_unavailable msg = exception_new 503 msg"

definition gateway_timeout :: "string \<Rightarrow> ('j, 'e) HttpException" where
  "gateway_timeout msg = exception_new 504 msg"

section \<open>Request context\<close>

text \<open>
  A value stored under its \<open>TypeId\<close> (\<open>Box<dyn Any>\<close>): the type it was boxed at and the value.
  \<open>downcast\<close> to a type succeeds exactly when it is the boxed one.
\<close>

datatype 'v Opaque = Opaque (opaque_type: nat) (opaque_value: 'v)

definition downcast :: "nat \<Rightarrow> 'v Opaque \<Rightarrow> 'v option" where
  "downcast t v = (if opaque_type v = t then Some (opaque_value v) else None)"

record ('v, 'j) RequestContext =
  request_data :: "nat \<rightharpoonup> 'v Opaque"
  handler_metadata :: "string \<rightharpoonup> 'j"
  class_metadata :: "string \<rightharpoonup> 'j"
  custom_data :: "string \<rightharpoonup> 'j"

definition context_new :: "('v, 'j) RequestContext" where
  "context_new = \<lparr>request_data = Map.empty, handler_metadata = Map.empty,
                  class_metadata = Map.empty, custom_data = Map.empty\<rparr>"

definition insert_request_data ::
  "('v, 'j) RequestContext \<Rightarrow> nat \<Rightarrow> 'v \<Rightarrow> ('v, 'j) RequestContext \<times> 'v option" where
  "insert_request_data ctx t val =
     (ctx\<lparr>request_data := (request_data ctx)(t \<mapsto> Opaque t val)\<rparr>,
      Option.bind (request_data ctx t) (downcast t))"

definition get_request_data :: "('v, 'j) RequestContext \<Rightarrow> nat \<Rightarrow> 'v option" where
  "get_request_data ctx t = Option.bind (request_data ctx t) (downcast t)"

definition set_handler_metadata ::
  "('v, 'j) RequestContext \<Rightarrow> string \<Rightarrow> 'j \<Rightarrow> ('v, 'j) RequestContext \<times> 'j option" where
  "set_handler_metadata ctx key val =
     (ctx\<lparr>handler_metadata := (handler_metadata ctx)(key \<mapsto> val)\<rparr>, handler_metadata ctx key)"

definition set_class_metadata ::
  "('v, 'j) RequestContext \<Rightarrow> string \<Rightarrow> 'j \<Rightarrow> ('v, 'j) RequestContext \<times> 'j option" where
  "set_class_metadata ctx key val =
     (ctx\<lparr>class_metadata := (class_metadata ctx)(key \<mapsto> val)\<rparr>, class_metadata ctx key)"

definition set_custom_data ::
  "('v, 'j) RequestContext \<Rightarrow> string \<Rightarrow> 'j \<Rightarrow> ('v, 'j) RequestContext \<times> 'j option" where
  "set_custom_data ctx key val =
     (ctx\<lparr>custom_data := (custom_data ctx)(key \<mapsto> val)\<rparr>, custom_data ctx key)"

section \<open>Facts\<close>

lemma try_from_as_u16 [simp]: "try_from (as_u16 s) = Inr s"
  by (cases s) (simp_all add: try_from_def)

lemma as_u16_try_from: "try_from v = Inr s \<Longrightarrow> as_u16 s = v"
  by (simp add: try_from_def split: if_split_asm; hypsubst; simp)

lemma as_u16_inj: "as_u16 s = as_u16 t \<longleftrightarrow> s = t"
  by (metis sum.inject(2) try_from_as_u16)

text \<open>\<open>derive(PartialOrd, Ord)\<close>: the variants are declared in the order of their codes.\<close>

instantiation HttpStatus :: linorder
begin

definition less_eq_HttpStatus :: "HttpStatus \<Rightarrow> HttpStatus \<Rightarrow> bool" where
  "less_eq_HttpStatus s t \<longleftrightarrow> as_u16 s \<le> as_u16 t"

definition less_HttpStatus :: "HttpStatus \<Rightarrow> HttpStatus \<Rightarrow> bool" where
  "less_HttpStatus s t \<longleftrightarrow> as_u16 s < as_u16 t"

instance
  by standard (auto simp: less_eq_HttpStatus_def less_HttpStatus_def as_u16_inj[symmetric])

end

lemma default_error_name_status [simp]: "default_error_name (as_u16 s) = reason_phrase s"
  by (simp add: default_error_name_def)

section \<open>Properties\<close>

text \<open>The status codes round trip: a code converts to a status exactly when it is that status's
  number, every number outside the table is reported back in the error, no two statuses share a
  number, and every status belongs to exactly one of the five classes.\<close>

theorem status_roundtrip:
  "(try_from v = Inr s \<longleftrightarrow> v = as_u16 s) \<and>
   (try_from v = Inl err \<longleftrightarrow> err = InvalidHttpStatus v \<and> v \<notin> range as_u16) \<and>
   length (filter (\<lambda>P. P s) [is_informational, is_success, is_redirection, is_client_error, is_server_error]) = 1"
proof -
  have "try_from v = Inl e \<Longrightarrow> e = InvalidHttpStatus v" for e
    by (simp add: try_from_def split: if_split_asm)
  moreover have "try_from v = Inl (InvalidHttpStatus v) \<longleftrightarrow> v \<notin> range as_u16"
    using calculation as_u16_try_from by (cases "try_from v") auto
  moreover have "length (filter (\<lambda>P. P s) [is_informational, is_success, is_redirection, is_client_error, is_server_error]) = 1"
    by (cases s) (simp_all add: is_informational_def is_success_def is_redirection_def
        is_client_error_def is_server_error_def)
  ultimately show ?thesis using as_u16_try_from by (cases "try_from v") auto
qed

end
