(* ===== verification/Scxml_Document.thy ===== *)
theory Scxml_Document
  imports Prelude
begin

text \<open>
  SCXML documents (\<open>nivasa-statechart/src/types.rs\<close>, \<open>parser.rs\<close>, \<open>validator.rs\<close>): the document
  types, event descriptors, the parser's handling of the stream of XML events, and the validator with
  its reachability search. The XML reader itself (the \<open>quick_xml\<close> package) is not modelled: the parser
  is a function of the events the reader yields, each with the attributes its iterator yields.

  \<open>HashMap<StateId, State>\<close> is an association list; the order of the list stands for the iteration
  order of the map, which no result below depends on. The texts of validation messages are left out.
\<close>

named_theorems scxml \<open>facts on documents and their states\<close>

section \<open>Types\<close>

type_synonym StateId = string

datatype StateType = Atomic | Compound | Parallel | Final

datatype TransitionType = Internal | External

record Transition =
  tr_event :: "string option"
  tr_cond :: "string option"
  tr_target :: "StateId list"
  tr_type :: TransitionType

datatype HistoryType = Shallow | Deep

record HistoryState =
  hs_id :: StateId
  hs_type :: HistoryType
  hs_parent :: StateId

record Invoke =
  inv_type :: "string option"
  inv_id :: "string option"
  inv_src :: "string option"
  inv_autoforward :: bool

record State =
  st_id :: StateId
  st_type :: StateType
  st_parent :: "StateId option"
  st_children :: "StateId list"
  st_initial :: "StateId option"
  st_transitions :: "Transition list"
  st_has_on_entry :: bool
  st_has_on_exit :: bool
  st_invoke :: "Invoke list"

record ScxmlMetadata =
  md_name :: "string option"
  md_version :: string
  md_initial :: "StateId option"
  md_datamodel :: "string option"

record ScxmlDocument =
  doc_metadata :: ScxmlMetadata
  doc_states :: "(StateId \<times> State) list"
  doc_top_level :: "StateId list"
  doc_history :: "HistoryState list"

section \<open>Event descriptors\<close>

text \<open>\<open>str::trim_end_matches(&str)\<close>: the suffix is removed as often as it occurs.\<close>

function trim_start_matches_str :: "'a list \<Rightarrow> 'a list \<Rightarrow> 'a list" where
  "trim_start_matches_str p s =
     (if p \<noteq> [] \<and> starts_with s p then trim_start_matches_str p (drop (length p) s) else s)"
  by auto
termination
proof (relation "measure (\<lambda>(p, s). length s)")
  fix p s :: "'a list" assume "p \<noteq> [] \<and> starts_with s p"
  then obtain t where "s = p @ t" "p \<noteq> []" using starts_with_iff by blast
  then show "((p, drop (length p) s), (p, s)) \<in> measure (\<lambda>(p, s). length s)" by simp
qed simp

declare trim_start_matches_str.simps [simp del]

definition trim_end_matches_str :: "'a list \<Rightarrow> 'a list \<Rightarrow> 'a list" where
  "trim_end_matches_str p s = rev (trim_start_matches_str (rev p) (rev s))"

definition matches_descriptor :: "string \<Rightarrow> string \<Rightarrow> bool" where
  "matches_descriptor name descriptor0 =
     (if descriptor0 = ''*'' then True
      else
        let descriptor = trim_end_matches (\<lambda>c. c = CHR ''.'') (trim_end_matches_str ''.*'' descriptor0);
            desc_tokens = split_on (CHR ''.'') descriptor;
            name_tokens = split_on (CHR ''.'') name
        in if length desc_tokens > length name_tokens then False
           else list_all (\<lambda>(d, n). d = n) (zip desc_tokens name_tokens))"

section \<open>Parsing\<close>

datatype ParseError = Xml | Io | Utf8 | AttrError | Invalid string

text \<open>The attributes of an element, as the reader's iterator yields them.\<close>

type_synonym attributes = "(ParseError + (string \<times> string)) list"

datatype XmlEvent =
    XStart string attributes
  | XEmpty string attributes
  | XEnd string
  | XOther
  | XError

fun get_attr :: "attributes \<Rightarrow> string \<Rightarrow> ParseError + string option" where
  "get_attr [] name = Inr None"
| "get_attr (Inl err # attrs) name = Inl err"
| "get_attr (Inr (key, val) # attrs) name = (if key = name then Inr (Some val) else get_attr attrs name)"

text \<open>The \<open>?\<close> operator.\<close>

definition try_bind :: "'e + 'a \<Rightarrow> ('a \<Rightarrow> 'e + 'b) \<Rightarrow> 'e + 'b" where
  "try_bind r f = (case r of Inl err \<Rightarrow> Inl err | Inr x \<Rightarrow> f x)"

lemma try_bind_simps [simp]:
  "try_bind (Inl err) f = Inl err"
  "try_bind (Inr x) f = f x"
  by (simp_all add: try_bind_def)

lemma try_bind_Inr: "try_bind r f = Inr y \<longleftrightarrow> (\<exists>x. r = Inr x \<and> f x = Inr y)"
  by (cases r) auto

definition split_whitespace :: "string \<Rightarrow> string list" where
  "split_whitespace s =
     filter (\<lambda>w. w \<noteq> []) (split_on (CHR 0x20) (map (\<lambda>c. if is_whitespace c then CHR 0x20 else c) s))"

definition parse_scxml_attrs :: "attributes \<Rightarrow> ParseError + ScxmlMetadata" where
  "parse_scxml_attrs e =
     try_bind (get_attr e ''name'') (\<lambda>name.
     try_bind (get_attr e ''version'') (\<lambda>version.
     try_bind (get_attr e ''initial'') (\<lambda>initial.
     try_bind (get_attr e ''datamodel'') (\<lambda>datamodel.
       Inr \<lparr>md_name = name, md_version = (case version of Some v \<Rightarrow> v | None \<Rightarrow> ''1.0''),
            md_initial = initial, md_datamodel = datamodel\<rparr>))))"

definition parse_transition :: "attributes \<Rightarrow> ParseError + Transition" where
  "parse_transition e =
     try_bind (get_attr e ''event'') (\<lambda>event.
     try_bind (get_attr e ''cond'') (\<lambda>cnd.
     try_bind (get_attr e ''target'') (\<lambda>target.
     try_bind (get_attr e ''type'') (\<lambda>ty.
       Inr \<lparr>tr_event = event, tr_cond = cnd,
            tr_target = (case target of Some t \<Rightarrow> split_whitespace t | None \<Rightarrow> []),
            tr_type = (if ty = Some ''internal'' then Internal else External)\<rparr>))))"

text \<open>\<open>HashMap::insert\<close> and an update through \<open>HashMap::get_mut\<close>.\<close>

fun al_insert :: "'k \<Rightarrow> 'v \<Rightarrow> ('k \<times> 'v) list \<Rightarrow> ('k \<times> 'v) list" where
  "al_insert k v [] = [(k, v)]"
| "al_insert k v ((k', v') # al) = (if k' = k then (k, v) # al else (k', v') # al_insert k v al)"

definition al_modify :: "'k \<Rightarrow> ('v \<Rightarrow> 'v) \<Rightarrow> ('k \<times> 'v) list \<Rightarrow> ('k \<times> 'v) list" where
  "al_modify k f al = map (\<lambda>(k', v). (k', if k' = k then f v else v)) al"

record ParserState =
  ps_metadata :: "ScxmlMetadata option"
  ps_states :: "(StateId \<times> State) list"
  ps_top_level :: "StateId list"
  ps_history :: "HistoryState list"
  ps_parents :: "StateId list"
  ps_current :: "StateId option"
  ps_onentry :: bool
  ps_onexit :: bool

definition last_option :: "'a list \<Rightarrow> 'a option" where
  "last_option xs = (if xs = [] then None else Some (last xs))"

text \<open>The part the three state-like elements share: link the new id to its parent, or to the top.\<close>

definition link_child :: "StateId \<Rightarrow> ParserState \<Rightarrow> ParserState" where
  "link_child i ps =
     (case last_option (ps_parents ps) of
        Some p \<Rightarrow> ps\<lparr>ps_states := al_modify p (\<lambda>st. st\<lparr>st_children := st_children st @ [i],
             st_type := (if st_type st = Atomic then Compound else st_type st)\<rparr>) (ps_states ps)\<rparr>
      | None \<Rightarrow> ps\<lparr>ps_top_level := ps_top_level ps @ [i]\<rparr>)"

definition add_state :: "StateId \<Rightarrow> StateType \<Rightarrow> StateId option \<Rightarrow> ParserState \<Rightarrow> ParserState" where
  "add_state i ty initial ps =
     (let parent = last_option (ps_parents ps); ps' = link_child i ps in
      ps'\<lparr>ps_states := al_insert i
        \<lparr>st_id = i, st_type = ty, st_parent = parent, st_children = [], st_initial = initial,
         st_transitions = [], st_has_on_entry = False, st_has_on_exit = False, st_invoke = []\<rparr>
        (ps_states ps')\<rparr>)"

definition enter_element :: "bool \<Rightarrow> StateId \<Rightarrow> ParserState \<Rightarrow> ParserState" where
  "enter_element is_empty i ps =
     (if \<not> is_empty then ps\<lparr>ps_parents := ps_parents ps @ [i], ps_current := Some i\<rparr>
      else ps\<lparr>ps_current := last_option (ps_parents ps)\<rparr>)"

definition on_current :: "(State \<Rightarrow> State) \<Rightarrow> ParserState \<Rightarrow> ParserState" where
  "on_current f ps =
     (case ps_current ps of
        Some i \<Rightarrow> ps\<lparr>ps_states := al_modify i f (ps_states ps)\<rparr>
      | None \<Rightarrow> ps)"

definition handle_element :: "string \<Rightarrow> attributes \<Rightarrow> bool \<Rightarrow> ParserState \<Rightarrow> ParseError + ParserState" where
  "handle_element tag_name e is_empty ps =
    (if tag_name = ''scxml'' then
       try_bind (parse_scxml_attrs e) (\<lambda>md. Inr (ps\<lparr>ps_metadata := Some md\<rparr>))
     else if tag_name = ''state'' then
       try_bind (get_attr e ''id'') (\<lambda>id0.
       try_bind (get_attr e ''initial'') (\<lambda>initial.
         let i = (case id0 of Some i \<Rightarrow> i | None \<Rightarrow> ''__anonymous_'' @ show_nat (length (ps_states ps)))
         in Inr (enter_element is_empty i (add_state i Atomic initial ps))))
     else if tag_name = ''parallel'' then
       try_bind (get_attr e ''id'') (\<lambda>id0.
         let i = (case id0 of Some i \<Rightarrow> i | None \<Rightarrow> ''__parallel_'' @ show_nat (length (ps_states ps)))
         in Inr (enter_element is_empty i (add_state i Parallel None ps)))
     else if tag_name = ''final'' then
       try_bind (get_attr e ''id'') (\<lambda>id0.
         let i = (case id0 of Some i \<Rightarrow> i | None \<Rightarrow> ''__final_'' @ show_nat (length (ps_states ps)))
         in Inr (add_state i Final None ps))
     else if tag_name = ''transition'' then
       try_bind (parse_transition e) (\<lambda>tr.
         Inr (on_current (\<lambda>st. st\<lparr>st_transitions := st_transitions st @ [tr]\<rparr>) ps))
     else if tag_name = ''onentry'' then
       Inr (on_current (\<lambda>st. st\<lparr>st_has_on_entry := True\<rparr>) (ps\<lparr>ps_onentry := True\<rparr>))
     else if tag_name = ''onexit'' then
       Inr (on_current (\<lambda>st. st\<lparr>st_has_on_exit := True\<rparr>) (ps\<lparr>ps_onexit := True\<rparr>))
     else if tag_name = ''history'' then
       try_bind (get_attr e ''id'') (\<lambda>id0.
       try_bind (get_attr e ''type'') (\<lambda>ty.
         Inr (ps\<lparr>ps_history := ps_history ps @
           [\<lparr>hs_id = (case id0 of Some i \<Rightarrow> i | None \<Rightarrow> []),
             hs_type = (if ty = Some ''deep'' then Deep else Shallow),
             hs_parent = (case last_option (ps_parents ps) of Some p \<Rightarrow> p | None \<Rightarrow> [])\<rparr>]\<rparr>)))
     else if tag_name = ''invoke'' then
       try_bind (get_attr e ''type'') (\<lambda>ty.
       try_bind (get_attr e ''id'') (\<lambda>id0.
       try_bind (get_attr e ''src'') (\<lambda>src.
       try_bind (get_attr e ''autoforward'') (\<lambda>auto.
         Inr (on_current (\<lambda>st. st\<lparr>st_invoke := st_invoke st @
           [\<lparr>inv_type = ty, inv_id = id0, inv_src = src,
             inv_autoforward = (case auto of Some v \<Rightarrow> v = ''true'' | None \<Rightarrow> False)\<rparr>]\<rparr>) ps)))))
     else Inr ps)"

definition parser_init :: ParserState where
  "parser_init = \<lparr>ps_metadata = None, ps_states = [], ps_top_level = [], ps_history = [],
                  ps_parents = [], ps_current = None, ps_onentry = False, ps_onexit = False\<rparr>"

definition handle_end :: "string \<Rightarrow> ParserState \<Rightarrow> ParserState" where
  "handle_end tag_name ps =
     (if tag_name = ''state'' \<or> tag_name = ''parallel'' then
        let parents = butlast (ps_parents ps) in
        ps\<lparr>ps_parents := parents, ps_current := last_option parents\<rparr>
      else if tag_name = ''onentry'' then ps\<lparr>ps_onentry := False\<rparr>
      else if tag_name = ''onexit'' then ps\<lparr>ps_onexit := False\<rparr>
      else ps)"

fun parse_loop :: "XmlEvent list \<Rightarrow> ParserState \<Rightarrow> ParseError + ParserState" where
  "parse_loop [] ps = Inr ps"
| "parse_loop (XStart tag e # events) ps = try_bind (handle_element tag e False ps) (parse_loop events)"
| "parse_loop (XEmpty tag e # events) ps = try_bind (handle_element tag e True ps) (parse_loop events)"
| "parse_loop (XEnd tag # events) ps = parse_loop events (handle_end tag ps)"
| "parse_loop (XError # events) ps = Inl Xml"
| "parse_loop (XOther # events) ps = parse_loop events ps"

definition from_events :: "XmlEvent list \<Rightarrow> ParseError + ScxmlDocument" where
  "from_events events =
     try_bind (parse_loop events parser_init) (\<lambda>ps.
       case ps_metadata ps of
         None \<Rightarrow> Inl (Invalid ''Missing <scxml> root element'')
       | Some md \<Rightarrow> Inr \<lparr>doc_metadata = md, doc_states = ps_states ps,
                          doc_top_level = ps_top_level ps, doc_history = ps_history ps\<rparr>)"

definition has_state :: "ScxmlDocument \<Rightarrow> StateId \<Rightarrow> bool" where
  "has_state doc i \<longleftrightarrow> map_of (doc_states doc) i \<noteq> None"

definition state_values :: "ScxmlDocument \<Rightarrow> State list" where
  "state_values doc = map snd (doc_states doc)"

definition event_names :: "ScxmlDocument \<Rightarrow> string list" where
  "event_names doc =
     remdups_adj (sort (List.map_filter tr_event (concat (map st_transitions (state_values doc)))))"

section \<open>Validation\<close>

datatype ValidationRule =
  Unreachable | DeadEnd | NonDeterministic | MalformedCompound | InvalidTarget | MissingInitial | InvalidEventName

record ValidationError =
  ve_rule :: ValidationRule
  ve_state :: "StateId option"

record ValidationResult =
  vr_errors :: "ValidationError list"
  vr_warnings :: "ValidationError list"

definition is_valid :: "ValidationResult \<Rightarrow> bool" where
  "is_valid result \<longleftrightarrow> vr_errors result = []"

text \<open>\<open>char::is_alphanumeric\<close> on U+0000 to U+00FF.\<close>

definition is_alphanumeric :: "char \<Rightarrow> bool" where
  "is_alphanumeric c \<longleftrightarrow>
     (let n = of_char c :: nat in
      (48 \<le> n \<and> n \<le> 57) \<or> (65 \<le> n \<and> n \<le> 90) \<or> (97 \<le> n \<and> n \<le> 122) \<or>
      n \<in> {170, 178, 179, 181, 185, 186, 188, 189, 190} \<or>
      (192 \<le> n \<and> n \<le> 214) \<or> (216 \<le> n \<and> n \<le> 246) \<or> (248 \<le> n \<and> n \<le> 255))"

definition is_valid_event_name :: "string \<Rightarrow> bool" where
  "is_valid_event_name name0 =
     (let name = trim_end_matches_str ''.*'' name0 in
      name \<noteq> [] \<and>
      list_all (\<lambda>token. token \<noteq> [] \<and> list_all (\<lambda>c. is_alphanumeric c \<or> c = CHR ''_'') token)
        (split_on (CHR ''.'') name))"

text \<open>The states one step of the search reaches: targets of transitions, children, initial child.\<close>

definition state_successors :: "State \<Rightarrow> StateId list" where
  "state_successors st =
     concat (map tr_target (st_transitions st)) @ st_children st @
     (case st_initial st of Some i \<Rightarrow> [i] | None \<Rightarrow> [])"

definition successors :: "ScxmlDocument \<Rightarrow> StateId \<Rightarrow> StateId list" where
  "successors doc i = (case map_of (doc_states doc) i of Some st \<Rightarrow> state_successors st | None \<Rightarrow> [])"

text \<open>The loop of \<open>compute_reachable\<close>. The queue is popped at its end; pushes are filtered against the
  set as it is when the state is expanded.\<close>

definition all_successors :: "ScxmlDocument \<Rightarrow> StateId list" where
  "all_successors doc = concat (map (state_successors \<circ> snd) (doc_states doc))"

lemma successors_subset: "set (successors doc i) \<subseteq> set (all_successors doc)"
proof (cases "map_of (doc_states doc) i")
  case (Some st)
  then have "(i, st) \<in> set (doc_states doc)" by (rule map_of_SomeD)
  with Some show ?thesis by (force simp: successors_def all_successors_def)
qed (simp add: successors_def)

function reachable_loop :: "ScxmlDocument \<Rightarrow> StateId list \<Rightarrow> StateId list \<Rightarrow> StateId list" where
  "reachable_loop doc reachable queue =
     (if queue = [] then reachable
      else
        let state_id = last queue; rest = butlast queue in
        if state_id \<in> set reachable then reachable_loop doc reachable rest
        else
          let reachable' = reachable @ [state_id] in
          reachable_loop doc reachable'
            (rest @ filter (\<lambda>t. t \<notin> set reachable') (successors doc state_id)))"
  by auto
termination
proof (relation "measures [\<lambda>(doc, r, q). card ((set (all_successors doc) \<union> set q) - set r), \<lambda>(doc, r, q). length q]")
  fix doc and r q :: "StateId list" and x rest r'
  assume q: "q \<noteq> []" "x = last q" "rest = butlast q"
  then have q_set: "set q = insert x (set rest)"
    by (metis append_butlast_last_id insert_commute list.simps(15) rotate1.simps(2) set_rotate1)
  {
    assume "x \<in> set r"
    then have "(set (all_successors doc) \<union> set rest) - set r \<subseteq> (set (all_successors doc) \<union> set q) - set r"
      using q_set by auto
    then have "card ((set (all_successors doc) \<union> set rest) - set r) \<le> card ((set (all_successors doc) \<union> set q) - set r)"
      by (intro card_mono) auto
    moreover have "length rest < length q" using q by simp
    ultimately show "((doc, r, rest), doc, r, q) \<in> measures
        [\<lambda>(doc, r, q). card ((set (all_successors doc) \<union> set q) - set r), \<lambda>(doc, r, q). length q]"
      by auto
  next
    assume x: "x \<notin> set r" and r': "r' = r @ [x]"
    let ?q' = "rest @ filter (\<lambda>t. t \<notin> set r') (successors doc x)"
    have "(set (all_successors doc) \<union> set ?q') - set r' \<subset> (set (all_successors doc) \<union> set q) - set r"
      using q_set x r' successors_subset [of doc x] by auto
    then have "card ((set (all_successors doc) \<union> set ?q') - set r') < card ((set (all_successors doc) \<union> set q) - set r)"
      by (intro psubset_card_mono) auto
    then show "((doc, r', ?q'), doc, r, q) \<in> measures
        [\<lambda>(doc, r, q). card ((set (all_successors doc) \<union> set q) - set r), \<lambda>(doc, r, q). length q]"
      by simp
  }
qed simp

declare reachable_loop.simps [simp del]

definition compute_reachable :: "ScxmlDocument \<Rightarrow> StateId \<Rightarrow> StateId list" where
  "compute_reachable doc initial = reachable_loop doc [] [initial]"

definition initial_id :: "ScxmlDocument \<Rightarrow> StateId option" where
  "initial_id doc =
     (case md_initial (doc_metadata doc) of
        Some i \<Rightarrow> Some i
      | None \<Rightarrow> (case doc_top_level doc of [] \<Rightarrow> None | i # _ \<Rightarrow> Some i))"

fun ambiguous_transitions :: "string option list \<Rightarrow> Transition list \<Rightarrow> Transition list" where
  "ambiguous_transitions seen [] = []"
| "ambiguous_transitions seen (tr # trs) =
     (if tr_cond tr = None then
        if tr_event tr \<in> set seen then tr # ambiguous_transitions seen trs
        else ambiguous_transitions (tr_event tr # seen) trs
      else ambiguous_transitions seen trs)"

definition initial_errors :: "ScxmlDocument \<Rightarrow> ValidationError list" where
  "initial_errors doc =
     (case md_initial (doc_metadata doc) of
        Some i \<Rightarrow> if \<not> has_state doc i then [\<lparr>ve_rule = MissingInitial, ve_state = None\<rparr>] else []
      | None \<Rightarrow> if doc_top_level doc = [] then [\<lparr>ve_rule = MissingInitial, ve_state = None\<rparr>] else [])"

definition target_errors :: "ScxmlDocument \<Rightarrow> ValidationError list" where
  "target_errors doc =
     concat (map (\<lambda>st. concat (map (\<lambda>tr.
       map (\<lambda>_. \<lparr>ve_rule = InvalidTarget, ve_state = Some (st_id st)\<rparr>)
         (filter (\<lambda>t. \<not> has_state doc t) (tr_target tr)))
       (st_transitions st))) (state_values doc))"

definition event_name_errors :: "ScxmlDocument \<Rightarrow> ValidationError list" where
  "event_name_errors doc =
     concat (map (\<lambda>st. map (\<lambda>_. \<lparr>ve_rule = InvalidEventName, ve_state = Some (st_id st)\<rparr>)
       (filter (\<lambda>event. event \<noteq> ''*'' \<and> \<not> is_valid_event_name event)
         (List.map_filter tr_event (st_transitions st)))) (state_values doc))"

definition unreachable_warnings :: "ScxmlDocument \<Rightarrow> ValidationError list" where
  "unreachable_warnings doc =
     (case initial_id doc of
        None \<Rightarrow> []
      | Some i \<Rightarrow>
          let reachable = compute_reachable doc i in
          map (\<lambda>st. \<lparr>ve_rule = Unreachable, ve_state = Some (st_id st)\<rparr>)
            (filter (\<lambda>st. st_id st \<notin> set reachable \<and> st_type st \<noteq> Final \<and>
                \<not> (case st_parent st of Some p \<Rightarrow> p \<in> set reachable | None \<Rightarrow> False))
              (state_values doc)))"

definition dead_end_warnings :: "ScxmlDocument \<Rightarrow> ValidationError list" where
  "dead_end_warnings doc =
     map (\<lambda>st. \<lparr>ve_rule = DeadEnd, ve_state = Some (st_id st)\<rparr>)
       (filter (\<lambda>st. st_type st \<noteq> Final \<and> st_type st \<noteq> Parallel \<and> st_transitions st = [] \<and> st_children st = [])
         (state_values doc))"

definition ambiguity_warnings :: "ScxmlDocument \<Rightarrow> ValidationError list" where
  "ambiguity_warnings doc =
     concat (map (\<lambda>st. map (\<lambda>_. \<lparr>ve_rule = NonDeterministic, ve_state = Some (st_id st)\<rparr>)
       (ambiguous_transitions [] (st_transitions st))) (state_values doc))"

definition validate :: "ScxmlDocument \<Rightarrow> ValidationResult" where
  "validate doc =
     \<lparr>vr_errors = initial_errors doc @ target_errors doc @ event_name_errors doc,
      vr_warnings = unreachable_warnings doc @ dead_end_warnings doc @ ambiguity_warnings doc\<rparr>"

section \<open>The reachability search is exact\<close>

definition edges :: "ScxmlDocument \<Rightarrow> (StateId \<times> StateId) set" where
  "edges doc = {(a, b). b \<in> set (successors doc a)}"

lemma reachable_loop_spec:
  assumes "\<And>a b. a \<in> set reachable \<Longrightarrow> (a, b) \<in> edges doc \<Longrightarrow> b \<in> set reachable \<union> set queue"
  shows "set (reachable_loop doc reachable queue) = (edges doc)\<^sup>* `` (set reachable \<union> set queue)"
  using assms
proof (induction doc reachable queue rule: reachable_loop.induct)
  case (1 doc reachable queue)
  show ?case
  proof (cases "queue = []")
    case True
    have "b \<in> set reachable" if "(a, b) \<in> (edges doc)\<^sup>*" "a \<in> set reachable" for a b
      using that by (induction rule: rtrancl_induct) (use "1.prems" True in force)+
    with True show ?thesis by (subst reachable_loop.simps) (auto simp: Image_def)
  next
    case False
    define x rest where xr: "x = last queue" "rest = butlast queue"
    have q: "set queue = insert x (set rest)"
      using False xr by (metis append_butlast_last_id insert_commute list.simps(15) rotate1.simps(2) set_rotate1)
    show ?thesis
    proof (cases "x \<in> set reachable")
      case True
      have "set (reachable_loop doc reachable rest) = (edges doc)\<^sup>* `` (set reachable \<union> set rest)"
        using "1.IH"(1) [OF False xr(1) xr(2) True] "1.prems" q True by auto
      with True False xr q show ?thesis
        by (subst reachable_loop.simps) (simp add: Let_def insert_absorb)
    next
      case new: False
      define r' where "r' = reachable @ [x]"
      define q' where "q' = rest @ filter (\<lambda>t. t \<notin> set r') (successors doc x)"
      have "b \<in> set r' \<union> set q'" if "a \<in> set r'" "(a, b) \<in> edges doc" for a b
        using that "1.prems" [of a b] q by (auto simp: r'_def q'_def edges_def)
      then have "set (reachable_loop doc r' q') = (edges doc)\<^sup>* `` (set r' \<union> set q')"
        using "1.IH"(2) [OF False xr(1) xr(2) new r'_def] by (simp add: q'_def)
      moreover have "(edges doc)\<^sup>* `` (set r' \<union> set q') = (edges doc)\<^sup>* `` (set reachable \<union> set queue)"
      proof -
        have "set r' \<union> set q' = set reachable \<union> set queue \<union> set (successors doc x)"
          using q by (auto simp: r'_def q'_def)
        moreover have "(edges doc)\<^sup>* `` set (successors doc x) \<subseteq> (edges doc)\<^sup>* `` set queue"
          using q by (auto simp: edges_def intro: converse_rtrancl_into_rtrancl)
        ultimately show ?thesis by (auto simp: Image_Un)
      qed
      ultimately show ?thesis
        using new False xr by (subst reachable_loop.simps) (simp add: Let_def r'_def q'_def)
    qed
  qed
qed

lemma compute_reachable_rtrancl: "set (compute_reachable doc i) = (edges doc)\<^sup>* `` {i}"
  unfolding compute_reachable_def by (subst reachable_loop_spec) auto

section \<open>Well-formed documents\<close>

definition keys :: "('k \<times> 'v) list \<Rightarrow> 'k set" where
  "keys al = fst ` set al"

lemma keys_al_insert [scxml]: "keys (al_insert k v al) = insert k (keys al)"
  by (induction k v al rule: al_insert.induct) (auto simp: keys_def)

lemma set_al_insert: "set (al_insert k v al) \<subseteq> insert (k, v) (set al)"
  by (induction k v al rule: al_insert.induct) auto

lemma distinct_al_insert: "distinct (map fst al) \<Longrightarrow> distinct (map fst (al_insert k v al))"
proof (induction k v al rule: al_insert.induct)
  case (2 k v k' v' al)
  then show ?case using keys_al_insert [of k v al] by (auto simp: keys_def image_iff)
qed simp

lemma map_of_al_insert [scxml]: "map_of (al_insert k v al) = (map_of al)(k \<mapsto> v)"
  by (induction k v al rule: al_insert.induct) auto

lemma keys_al_modify [scxml]: "keys (al_modify k f al) = keys al"
  by (force simp: keys_def al_modify_def)

lemma map_fst_al_modify [scxml]: "map fst (al_modify k f al) = map fst al"
  by (induction al) (auto simp: al_modify_def)

lemma in_al_modify:
  "(i, st) \<in> set (al_modify k f al) \<Longrightarrow> \<exists>st0. (i, st0) \<in> set al \<and> st = (if i = k then f st0 else st0)"
  by (auto simp: al_modify_def)

definition state_wf :: "StateId set \<Rightarrow> StateId \<Rightarrow> State \<Rightarrow> bool" where
  "state_wf ids i st \<longleftrightarrow> st_id st = i \<and> set (st_children st) \<subseteq> ids \<and>
     (\<forall>p. st_parent st = Some p \<longrightarrow> p \<in> ids) \<and> (st_children st \<noteq> [] \<longrightarrow> st_type st \<noteq> Atomic)"

definition states_wf :: "StateId set \<Rightarrow> (StateId \<times> State) list \<Rightarrow> bool" where
  "states_wf ids al \<longleftrightarrow> distinct (map fst al) \<and> (\<forall>(i, st) \<in> set al. state_wf ids i st)"

definition doc_wf :: "ScxmlDocument \<Rightarrow> bool" where
  "doc_wf doc \<longleftrightarrow> states_wf (keys (doc_states doc)) (doc_states doc) \<and>
     set (doc_top_level doc) \<subseteq> keys (doc_states doc)"

definition ps_wf :: "ParserState \<Rightarrow> bool" where
  "ps_wf ps \<longleftrightarrow> states_wf (keys (ps_states ps)) (ps_states ps) \<and>
     set (ps_top_level ps) \<union> set (ps_parents ps) \<union> set_option (ps_current ps) \<subseteq> keys (ps_states ps)"

lemma state_wf_mono: "state_wf ids i st \<Longrightarrow> ids \<subseteq> ids' \<Longrightarrow> state_wf ids' i st"
  by (auto simp: state_wf_def)

lemma last_option_set: "set_option (last_option xs) \<subseteq> set xs"
  by (auto simp: last_option_def split: if_splits)

lemma states_wf_al_modify:
  assumes "states_wf ids al" "ids \<subseteq> ids'"
    and "\<And>i st. state_wf ids i st \<Longrightarrow> state_wf ids' i (f st)"
  shows "states_wf ids' (al_modify k f al)"
proof -
  have "state_wf ids' i st" if mem: "(i, st) \<in> set (al_modify k f al)" for i st
  proof -
    obtain st0 where st0: "(i, st0) \<in> set al" "st = (if i = k then f st0 else st0)"
      using in_al_modify [OF mem] by blast
    then have "state_wf ids i st0" using assms(1) by (auto simp: states_wf_def)
    with st0(2) assms(3) [of i st0] state_wf_mono [OF _ assms(2), of i st0] show ?thesis
      by (cases "i = k") auto
  qed
  with assms(1) show ?thesis by (auto simp: states_wf_def map_fst_al_modify)
qed

lemma states_wf_al_insert:
  "states_wf ids al \<Longrightarrow> state_wf ids k v \<Longrightarrow> states_wf ids (al_insert k v al)"
  using set_al_insert [of k v al] distinct_al_insert [of al k v] by (fastforce simp: states_wf_def)

lemma ps_wf_add_state: "ps_wf ps \<Longrightarrow> ps_wf (add_state i ty initial ps) \<and> i \<in> keys (ps_states (add_state i ty initial ps))"
proof -
  assume wf: "ps_wf ps"
  let ?ids = "insert i (keys (ps_states ps))"
  let ?st = "\<lparr>st_id = i, st_type = ty, st_parent = last_option (ps_parents ps), st_children = [],
     st_initial = initial, st_transitions = [], st_has_on_entry = False, st_has_on_exit = False, st_invoke = []\<rparr>"
  have linked: "states_wf ?ids (ps_states (link_child i ps)) \<and> keys (ps_states (link_child i ps)) = keys (ps_states ps)"
  proof (cases "last_option (ps_parents ps)")
    case None
    have "states_wf ?ids (ps_states ps)"
      using wf by (auto simp: ps_wf_def states_wf_def intro: state_wf_mono)
    with None show ?thesis by (simp add: link_child_def)
  next
    case (Some p)
    have "states_wf ?ids (al_modify p (\<lambda>st. st\<lparr>st_children := st_children st @ [i],
        st_type := (if st_type st = Atomic then Compound else st_type st)\<rparr>) (ps_states ps))"
      using wf by (intro states_wf_al_modify) (auto simp: ps_wf_def state_wf_def)
    with Some show ?thesis by (simp add: link_child_def keys_al_modify)
  qed
  have "state_wf ?ids i ?st"
    using wf last_option_set [of "ps_parents ps"] by (auto simp: state_wf_def ps_wf_def)
  with linked have "states_wf ?ids (al_insert i ?st (ps_states (link_child i ps)))"
    by (intro states_wf_al_insert) auto
  moreover have "set (ps_top_level (link_child i ps)) \<subseteq> insert i (set (ps_top_level ps))"
    "ps_parents (link_child i ps) = ps_parents ps" "ps_current (link_child i ps) = ps_current ps"
    by (auto simp: link_child_def split: option.splits)
  ultimately show ?thesis
    using wf linked by (auto simp: add_state_def Let_def ps_wf_def keys_al_insert)
qed

lemma ps_wf_enter: "ps_wf ps \<Longrightarrow> i \<in> keys (ps_states ps) \<Longrightarrow> ps_wf (enter_element e i ps)"
  using last_option_set [of "ps_parents ps"] by (fastforce simp: enter_element_def ps_wf_def)

lemma ps_wf_on_current:
  assumes "ps_wf ps" "\<And>st. st_id (f st) = st_id st \<and> st_children (f st) = st_children st \<and>
      st_parent (f st) = st_parent st \<and> st_type (f st) = st_type st"
  shows "ps_wf (on_current f ps)"
proof (cases "ps_current ps")
  case (Some i)
  have "states_wf (keys (ps_states ps)) (al_modify i f (ps_states ps))"
    using assms by (intro states_wf_al_modify) (auto simp: ps_wf_def state_wf_def)
  with Some assms(1) show ?thesis by (simp add: on_current_def ps_wf_def keys_al_modify)
qed (use assms in \<open>simp add: on_current_def\<close>)

lemma ps_wf_fields:
  "ps_wf (ps\<lparr>ps_metadata := m\<rparr>) = ps_wf ps" "ps_wf (ps\<lparr>ps_history := h\<rparr>) = ps_wf ps"
  "ps_wf (ps\<lparr>ps_onentry := b\<rparr>) = ps_wf ps" "ps_wf (ps\<lparr>ps_onexit := b\<rparr>) = ps_wf ps"
  by (simp_all add: ps_wf_def)

lemma ps_wf_handle_element: "ps_wf ps \<Longrightarrow> handle_element tag e b ps = Inr ps' \<Longrightarrow> ps_wf ps'"
  by (simp add: handle_element_def split: if_split_asm;
      auto simp: try_bind_Inr Let_def ps_wf_fields ps_wf_add_state ps_wf_enter ps_wf_on_current)

lemma ps_wf_handle_end: "ps_wf ps \<Longrightarrow> ps_wf (handle_end tag ps)"
proof -
  assume wf: "ps_wf ps"
  have "set (butlast (ps_parents ps)) \<subseteq> set (ps_parents ps)" by (auto dest: in_set_butlastD)
  with wf last_option_set [of "butlast (ps_parents ps)"]
  have "ps_wf (ps\<lparr>ps_parents := butlast (ps_parents ps), ps_current := last_option (butlast (ps_parents ps))\<rparr>)"
    unfolding ps_wf_def by auto
  with wf show ?thesis by (simp add: handle_end_def Let_def ps_wf_fields)
qed

lemma ps_wf_parse_loop: "parse_loop events ps = Inr ps' \<Longrightarrow> ps_wf ps \<Longrightarrow> ps_wf ps'"
  by (induction events ps rule: parse_loop.induct)
     (auto simp: try_bind_Inr intro: ps_wf_handle_element ps_wf_handle_end)

lemma from_events_wf: "from_events events = Inr doc \<Longrightarrow> doc_wf doc"
proof -
  assume "from_events events = Inr doc"
  then obtain ps where "parse_loop events parser_init = Inr ps"
    "doc_states doc = ps_states ps" "doc_top_level doc = ps_top_level ps"
    by (auto simp: from_events_def try_bind_Inr split: option.splits)
  moreover have "ps_wf parser_init" by (simp add: ps_wf_def parser_init_def states_wf_def keys_def)
  ultimately show ?thesis
    using ps_wf_parse_loop by (fastforce simp: doc_wf_def ps_wf_def)
qed

section \<open>Properties of documents\<close>

lemma doc_wf_lookup:
  "doc_wf doc \<Longrightarrow> st \<in> set (state_values doc) \<longleftrightarrow> map_of (doc_states doc) (st_id st) = Some st"
proof -
  assume wf: "doc_wf doc"
  then have "distinct (map fst (doc_states doc))" "\<And>i st. (i, st) \<in> set (doc_states doc) \<Longrightarrow> st_id st = i"
    by (auto simp: doc_wf_def states_wf_def state_wf_def)
  then have "map_of (doc_states doc) (st_id st) = Some st \<longleftrightarrow> (st_id st, st) \<in> set (doc_states doc)"
    by (intro map_of_eq_Some_iff)
  moreover have "st \<in> set (state_values doc) \<longleftrightarrow> (st_id st, st) \<in> set (doc_states doc)"
  proof
    assume "st \<in> set (state_values doc)"
    then obtain i where "(i, st) \<in> set (doc_states doc)" by (auto simp: state_values_def)
    with \<open>\<And>i st. (i, st) \<in> set (doc_states doc) \<Longrightarrow> st_id st = i\<close>
    show "(st_id st, st) \<in> set (doc_states doc)" by blast
  qed (force simp: state_values_def)
  ultimately show ?thesis by simp
qed

lemma has_state_keys: "has_state doc i \<longleftrightarrow> i \<in> keys (doc_states doc)"
  by (auto simp: has_state_def keys_def map_of_eq_None_iff)

lemma ambiguous_Nil_distinct:
  "ambiguous_transitions seen trs = [] \<Longrightarrow>
   distinct (map tr_event (filter (\<lambda>tr. tr_cond tr = None) trs)) \<and>
   set (map tr_event (filter (\<lambda>tr. tr_cond tr = None) trs)) \<inter> set seen = {}"
  by (induction seen trs rule: ambiguous_transitions.induct) (auto split: if_splits)


definition small_scxml :: "XmlEvent list" where
  "small_scxml =
     [XStart ''scxml'' [Inr (''name'', ''S''), Inr (''initial'', ''a'')],
      XStart ''state'' [Inr (''id'', ''a''), Inr (''initial'', ''b'')],
      XStart ''state'' [Inr (''id'', ''b'')],
      XEmpty ''transition'' [Inr (''event'', ''go''), Inr (''target'', ''c'')],
      XEnd ''state'', XEnd ''state'', XEmpty ''final'' [Inr (''id'', ''c'')], XEnd ''scxml'']"


text \<open>The validator's search is exact: it collects precisely the ids reachable from the start by
  transition targets, children and initial children.\<close>

theorem compute_reachable_exact:
  "set (compute_reachable doc i) = {j. (i, j) \<in> {(a, b). b \<in> set (successors doc a)}\<^sup>*}"
  using compute_reachable_rtrancl [of doc i] by (auto simp: edges_def)

text \<open>What a clean validation means for a parsed document: without errors every transition target is a
  state and the start state exists; without warnings every non-final state is reachable from the start
  (or its parent is), every atomic state has a way out, and no state has two unconditional transitions
  for the same event.\<close>

theorem validate_sound:
  assumes "doc_wf doc" "is_valid (validate doc)" "vr_warnings (validate doc) = []"
  shows "\<exists>i. initial_id doc = Some i \<and> has_state doc i \<and>
    (\<forall>st \<in> set (state_values doc).
       (\<forall>tr \<in> set (st_transitions st). \<forall>t \<in> set (tr_target tr). has_state doc t) \<and>
       (st_type st \<noteq> Final \<longrightarrow>
          (i, st_id st) \<in> (edges doc)\<^sup>* \<or> (\<exists>p. st_parent st = Some p \<and> (i, p) \<in> (edges doc)\<^sup>*)) \<and>
       (st_type st = Atomic \<or> st_type st = Compound \<longrightarrow> st_transitions st \<noteq> [] \<or> st_children st \<noteq> []) \<and>
       distinct (map tr_event (filter (\<lambda>tr. tr_cond tr = None) (st_transitions st))))"
proof -
  have none: "initial_errors doc = []" "target_errors doc = []" "unreachable_warnings doc = []"
    "dead_end_warnings doc = []" "ambiguity_warnings doc = []"
    using assms(2,3) by (simp_all add: validate_def is_valid_def)
  obtain i where i: "initial_id doc = Some i" "has_state doc i"
  proof (cases "md_initial (doc_metadata doc)")
    case None
    then obtain j js where "doc_top_level doc = j # js"
      using none(1) by (cases "doc_top_level doc") (auto simp: initial_errors_def)
    with that [of j] None assms(1) show thesis
      by (simp add: initial_id_def has_state_keys doc_wf_def)
  next
    case (Some j)
    with that [of j] none(1) show thesis by (simp add: initial_id_def initial_errors_def split: if_splits)
  qed
  have "(st_type st \<noteq> Final \<longrightarrow>
          (i, st_id st) \<in> (edges doc)\<^sup>* \<or> (\<exists>p. st_parent st = Some p \<and> (i, p) \<in> (edges doc)\<^sup>*))"
    if "st \<in> set (state_values doc)" for st
    using none(3) i that compute_reachable_rtrancl [of doc i]
    by (auto simp: unreachable_warnings_def filter_empty_conv Let_def split: option.splits)
  moreover have "has_state doc t" if "st \<in> set (state_values doc)" "tr \<in> set (st_transitions st)" "t \<in> set (tr_target tr)" for st tr t
    using none(2) that by (force simp: target_errors_def filter_empty_conv)
  moreover have "st_type st = Atomic \<or> st_type st = Compound \<longrightarrow> st_transitions st \<noteq> [] \<or> st_children st \<noteq> []"
    if "st \<in> set (state_values doc)" for st
    using none(4) that by (auto simp: dead_end_warnings_def filter_empty_conv)
  moreover have "distinct (map tr_event (filter (\<lambda>tr. tr_cond tr = None) (st_transitions st)))"
    if "st \<in> set (state_values doc)" for st
    using none(5) that ambiguous_Nil_distinct [of "[]" "st_transitions st"] by (auto simp: ambiguity_warnings_def)
  ultimately show ?thesis using i by blast
qed

theorem validate_sound_witness:
  "\<exists>i. initial_id (projr (from_events small_scxml)) = Some i \<and> has_state (projr (from_events small_scxml)) i"
proof -
  have "\<not> isl (from_events small_scxml)" by code_simp
  then have "doc_wf (projr (from_events small_scxml))" by (intro from_events_wf [of small_scxml]) simp
  moreover have "is_valid (validate (projr (from_events small_scxml)))"
    "vr_warnings (validate (projr (from_events small_scxml))) = []" by code_simp+
  ultimately show ?thesis using validate_sound by blast
qed

text \<open>An event descriptor matches an event exactly when it is the wildcard or its dot-separated tokens,
  without trailing dots and wildcard suffixes, are a prefix of the event's.\<close>

theorem matches_descriptor_prefix:
  "matches_descriptor name descriptor \<longleftrightarrow>
   descriptor = ''*'' \<or>
   (\<exists>rest. split_on (CHR ''.'') name =
      split_on (CHR ''.'') (trim_end_matches (\<lambda>c. c = CHR ''.'') (trim_end_matches_str ''.*'' descriptor)) @ rest)"
proof -
  have "length ds \<le> length ns \<and> list_all (\<lambda>(d, n). d = n) (zip ds ns) \<longleftrightarrow> (\<exists>rest. ns = ds @ rest)"
    for ds ns :: "string list"
  proof (induction ds arbitrary: ns)
    case (Cons d ds)
    then show ?case by (cases ns) auto
  qed simp
  then show ?thesis by (auto simp: matches_descriptor_def Let_def not_less)
qed

end
