(* ===== verification/Statechart_Engine.thy ===== *)
theory Statechart_Engine
  imports Prelude
begin

text \<open>
  The statechart engine (\<open>nivasa-statechart/src/engine.rs\<close>): the trait \<open>StatechartSpec\<close> as a record of
  its functions, the engine state and \<open>send_event\<close>. The locale \<open>statechart_spec\<close> states what the engine
  relies on from a chart; it is interpreted on the four generated charts.

  \<open>format!("{:?}")\<close> of states and events are the two \<open>show\<close> functions of the record. A tracer is modelled
  by the list of calls it has received. \<open>debug\<close> is \<open>cfg!(debug_assertions)\<close>: then transitions are recorded
  and a refused event panics.
\<close>

named_theorems engine \<open>facts on the engine\<close>

record ('s, 'e) StatechartSpec =
  sp_transition :: "'s \<Rightarrow> 'e \<Rightarrow> 's option"
  sp_valid_events :: "'s \<Rightarrow> 'e list"
  sp_enter :: "'s \<Rightarrow> 's"
  sp_is_final :: "'s \<Rightarrow> bool"
  sp_show_state :: "'s \<Rightarrow> string"
  sp_show_event :: "'e \<Rightarrow> string"
  sp_name :: string
  sp_hash :: string

datatype TracerCall =
    OnTransition string string string
  | OnInvalidTransition string string "string list"

datatype TransitionKind = Valid | Invalid

record TransitionRecord =
  rec_kind :: TransitionKind
  rec_from :: string
  rec_event :: string
  rec_to :: "string option"
  rec_valid_events :: "string list"

definition record_valid :: "string \<Rightarrow> string \<Rightarrow> string \<Rightarrow> TransitionRecord" where
  "record_valid from_state event to_state =
     \<lparr>rec_kind = Valid, rec_from = from_state, rec_event = event, rec_to = Some to_state, rec_valid_events = []\<rparr>"

definition record_invalid :: "string \<Rightarrow> string \<Rightarrow> string list \<Rightarrow> TransitionRecord" where
  "record_invalid from_state event valid_events =
     \<lparr>rec_kind = Invalid, rec_from = from_state, rec_event = event, rec_to = None, rec_valid_events = valid_events\<rparr>"

record ('s, 'e) InvalidTransitionError =
  err_state :: 's
  err_event :: 'e
  err_valid_events :: "'e list"

record 's StatechartEngine =
  current_state :: 's
  tracer :: "TracerCall list option"
  recent :: "TransitionRecord list"

datatype ('s, 'e) SendResult =
    Sent 's
  | Refused "('s, 'e) InvalidTransitionError"
  | Panicked "('s, 'e) InvalidTransitionError"

definition MAX_RECENT_TRANSITIONS :: nat where
  "MAX_RECENT_TRANSITIONS = 64"

definition engine_new :: "('s, 'e) StatechartSpec \<Rightarrow> 's \<Rightarrow> 's StatechartEngine" where
  "engine_new spec initial_state =
     \<lparr>current_state = sp_enter spec initial_state, tracer = None, recent = []\<rparr>"

definition engine_with_tracer :: "('s, 'e) StatechartSpec \<Rightarrow> 's \<Rightarrow> 's StatechartEngine" where
  "engine_with_tracer spec initial_state =
     \<lparr>current_state = sp_enter spec initial_state, tracer = Some [], recent = []\<rparr>"

definition trace_call :: "TracerCall \<Rightarrow> 's StatechartEngine \<Rightarrow> 's StatechartEngine" where
  "trace_call call eng = eng\<lparr>tracer := map_option (\<lambda>calls. calls @ [call]) (tracer eng)\<rparr>"

definition record_transition :: "bool \<Rightarrow> TransitionRecord \<Rightarrow> 's StatechartEngine \<Rightarrow> 's StatechartEngine" where
  "record_transition debug r eng =
     (if debug then
        eng\<lparr>recent := (if length (recent eng) \<ge> MAX_RECENT_TRANSITIONS then tl (recent eng) else recent eng) @ [r]\<rparr>
      else eng)"

definition send_event ::
  "bool \<Rightarrow> ('s, 'e) StatechartSpec \<Rightarrow> 's StatechartEngine \<Rightarrow> 'e \<Rightarrow> 's StatechartEngine \<times> ('s, 'e) SendResult" where
  "send_event debug spec eng event =
     (let from_state = sp_show_state spec (current_state eng); event_str = sp_show_event spec event in
      case sp_transition spec (current_state eng) event of
        Some target0 \<Rightarrow>
          let target = sp_enter spec target0; to_state = sp_show_state spec target;
              eng1 = trace_call (OnTransition from_state event_str to_state) eng;
              eng2 = record_transition debug (record_valid from_state event_str to_state) eng1
          in (eng2\<lparr>current_state := target\<rparr>, Sent target)
      | None \<Rightarrow>
          let valid_events = sp_valid_events spec (current_state eng);
              valid_debug = map (sp_show_event spec) valid_events;
              eng1 = trace_call (OnInvalidTransition from_state event_str valid_debug) eng;
              eng2 = record_transition debug (record_invalid from_state event_str valid_debug) eng1;
              err = \<lparr>err_state = current_state eng2, err_event = event, err_valid_events = valid_events\<rparr>
          in (eng2, if debug then Panicked err else Refused err))"

definition is_in_final_state :: "('s, 'e) StatechartSpec \<Rightarrow> 's StatechartEngine \<Rightarrow> bool" where
  "is_in_final_state spec eng \<longleftrightarrow> sp_is_final spec (current_state eng)"

definition engine_valid_events :: "('s, 'e) StatechartSpec \<Rightarrow> 's StatechartEngine \<Rightarrow> 'e list" where
  "engine_valid_events spec eng = sp_valid_events spec (current_state eng)"

definition recent_transitions :: "bool \<Rightarrow> 's StatechartEngine \<Rightarrow> TransitionRecord list" where
  "recent_transitions debug eng = (if debug then recent eng else [])"

record StatechartSnapshot =
  snap_name :: string
  snap_state :: string
  snap_hash :: string
  snap_raw :: "string option"
  snap_recent :: "TransitionRecord list"

definition snapshot :: "bool \<Rightarrow> ('s, 'e) StatechartSpec \<Rightarrow> 's StatechartEngine \<Rightarrow> string option \<Rightarrow> StatechartSnapshot" where
  "snapshot debug spec eng raw_scxml =
     \<lparr>snap_name = sp_name spec, snap_state = sp_show_state spec (current_state eng),
      snap_hash = sp_hash spec, snap_raw = raw_scxml, snap_recent = recent_transitions debug eng\<rparr>"

section \<open>Steps of a chart\<close>

definition accepts :: "('s, 'e) SendResult \<Rightarrow> bool" where
  "accepts r \<longleftrightarrow> (case r of Sent _ \<Rightarrow> True | _ \<Rightarrow> False)"

text \<open>One macro step of the chart: a transition followed by the descent into initial children.\<close>

inductive chart_step :: "('s, 'e) StatechartSpec \<Rightarrow> 's \<Rightarrow> 'e \<Rightarrow> 's \<Rightarrow> bool" for spec where
  step: "sp_transition spec s event = Some target \<Longrightarrow> chart_step spec s event (sp_enter spec target)"

inductive_simps chart_step_iff: "chart_step spec s event t"

inductive chart_path :: "('s, 'e) StatechartSpec \<Rightarrow> 's \<Rightarrow> 'e list \<Rightarrow> 's \<Rightarrow> bool" for spec where
  stop: "chart_path spec s [] s"
| go: "chart_step spec s event t \<Longrightarrow> chart_path spec t events u \<Longrightarrow> chart_path spec s (event # events) u"

inductive_cases chart_path_NilE: "chart_path spec s [] t"
inductive_cases chart_path_ConsE: "chart_path spec s (event # events) t"

fun send_all ::
  "bool \<Rightarrow> ('s, 'e) StatechartSpec \<Rightarrow> 's StatechartEngine \<Rightarrow> 'e list \<Rightarrow> 's StatechartEngine \<times> bool" where
  "send_all debug spec eng [] = (eng, True)"
| "send_all debug spec eng (event # events) =
     (let sent = send_event debug spec eng event in
      if accepts (snd sent) then send_all debug spec (fst sent) events else (fst sent, False))"

lemma current_trace_record [simp]:
  "current_state (trace_call call eng) = current_state eng"
  "current_state (record_transition debug r eng) = current_state eng"
  "recent (trace_call call eng) = recent eng"
  by (simp_all add: trace_call_def record_transition_def)

lemma send_event_state [engine]:
  "current_state (fst (send_event debug spec eng event)) =
   (case sp_transition spec (current_state eng) event of
      Some t \<Rightarrow> sp_enter spec t | None \<Rightarrow> current_state eng)"
  by (simp add: send_event_def Let_def split: option.splits)

lemma send_event_accepts [engine]:
  "accepts (snd (send_event debug spec eng event)) \<longleftrightarrow> sp_transition spec (current_state eng) event \<noteq> None"
  by (simp add: send_event_def Let_def accepts_def split: option.splits)

lemma chart_path_append: "chart_path spec s es t \<Longrightarrow> chart_path spec t es' u \<Longrightarrow> chart_path spec s (es @ es') u"
  by (induction rule: chart_path.induct) (auto intro: chart_path.intros)

lemma chart_path_deterministic: "chart_path spec s es t \<Longrightarrow> chart_path spec s es u \<Longrightarrow> t = u"
proof (induction arbitrary: u rule: chart_path.induct)
  case (go s event t events u u')
  from go.prems obtain t' where "chart_step spec s event t'" "chart_path spec t' events u'"
    by (rule chart_path_ConsE)
  moreover from this(1) go.hyps(1) have "t' = t" by (auto simp: chart_step_iff)
  ultimately show ?case using go.IH by simp
qed (auto elim: chart_path_NilE)

lemma send_all_path:
  "snd (send_all debug spec eng events) \<longleftrightarrow>
     chart_path spec (current_state eng) events (current_state (fst (send_all debug spec eng events)))"
proof (induction debug spec eng events rule: send_all.induct)
  case (1 debug spec eng)
  then show ?case by (simp add: chart_path.stop)
next
  case (2 debug spec eng event events)
  note state = send_event_state [of debug spec eng event]
  note acc = send_event_accepts [of debug spec eng event]
  show ?case
  proof (cases "sp_transition spec (current_state eng) event")
    case None
    with acc show ?thesis by (auto simp: Let_def chart_step_iff elim: chart_path_ConsE)
  next
    case (Some t)
    then have step: "chart_step spec (current_state eng) event u \<longleftrightarrow>
        u = current_state (fst (send_event debug spec eng event))" for u
      using state by (auto simp: chart_step_iff)
    have "chart_path spec (current_state eng) (event # events) u \<longleftrightarrow>
        chart_path spec (current_state (fst (send_event debug spec eng event))) events u" for u
      using step by (auto intro: chart_path.go elim: chart_path_ConsE)
    with Some acc 2 show ?thesis by (simp add: Let_def)
  qed
qed

section \<open>The contract of a chart\<close>

locale statechart_spec =
  fixes spec :: "('s, 'e) StatechartSpec"
  assumes valid_events_exact: "sp_transition spec s event \<noteq> None \<longleftrightarrow> event \<in> set (sp_valid_events spec s)"
    and final_no_events: "sp_is_final spec s \<Longrightarrow> sp_valid_events spec s = []"
    and enter_idem: "sp_enter spec (sp_enter spec s) = sp_enter spec s"
begin

lemma accepted_iff: "accepts (snd (send_event debug spec eng event)) \<longleftrightarrow> event \<in> set (engine_valid_events spec eng)"
  unfolding send_event_accepts valid_events_exact engine_valid_events_def ..

lemma refused_keeps_state:
  "event \<notin> set (engine_valid_events spec eng) \<Longrightarrow>
   current_state (fst (send_event debug spec eng event)) = current_state eng"
  using accepted_iff [of debug eng event] by (simp add: send_event_accepts send_event_state)

lemma transition_None: "sp_valid_events spec s = [] \<Longrightarrow> sp_transition spec s event = None"
  using valid_events_exact [of s event] by simp

lemma final_refuses:
  "is_in_final_state spec eng \<Longrightarrow>
   \<not> accepts (snd (send_event debug spec eng event)) \<and>
   current_state (fst (send_event debug spec eng event)) = current_state eng"
  using transition_None final_no_events
  by (simp add: is_in_final_state_def send_event_accepts send_event_state)

lemma entered_new: "sp_enter spec (current_state (engine_new spec s)) = current_state (engine_new spec s)"
  by (simp add: engine_new_def enter_idem)

lemma entered_step:
  "sp_enter spec (current_state eng) = current_state eng \<Longrightarrow>
   sp_enter spec (current_state (fst (send_event debug spec eng event))) = current_state (fst (send_event debug spec eng event))"
  by (simp add: send_event_state enter_idem split: option.splits)

lemma entered_send_all:
  "sp_enter spec (current_state eng) = current_state eng \<Longrightarrow>
   sp_enter spec (current_state (fst (send_all debug spec eng events))) = current_state (fst (send_all debug spec eng events))"
proof (induction events arbitrary: eng)
  case (Cons event events)
  then show ?case using entered_step [of eng debug event] by (simp add: Let_def)
qed simp

end

section \<open>Properties of the engine\<close>

text \<open>C5: the engine enforces its chart. It accepts an event exactly when the chart has a transition for it,
  then it moves to the entered target; otherwise it stays where it is and reports the state, the event and
  the chart's valid events (as an error, or as a panic in debug builds). A sequence of events is accepted
  as a whole exactly when it is a path of the chart.\<close>

theorem engine_enforces_chart:
  "(case sp_transition spec (current_state eng) event of
      Some t \<Rightarrow> current_state (fst (send_event debug spec eng event)) = sp_enter spec t \<and>
                snd (send_event debug spec eng event) = Sent (sp_enter spec t)
    | None \<Rightarrow> current_state (fst (send_event debug spec eng event)) = current_state eng \<and>
        snd (send_event debug spec eng event) =
          (let err = \<lparr>err_state = current_state eng, err_event = event,
                      err_valid_events = sp_valid_events spec (current_state eng)\<rparr>
           in if debug then Panicked err else Refused err)) \<and>
   (snd (send_all debug spec eng events) \<longleftrightarrow>
      (\<exists>t. chart_path spec (current_state eng) events t)) \<and>
   (snd (send_all debug spec eng events) \<longleftrightarrow>
      chart_path spec (current_state eng) events (current_state (fst (send_all debug spec eng events))))"
proof -
  have "\<exists>t. chart_path spec (current_state eng) events t \<Longrightarrow> snd (send_all debug spec eng events)"
  proof (induction events arbitrary: eng)
    case (Cons event events)
    then obtain t u where t: "chart_step spec (current_state eng) event t" "chart_path spec t events u"
      by (auto elim: chart_path_ConsE)
    then have "accepts (snd (send_event debug spec eng event))"
      "current_state (fst (send_event debug spec eng event)) = t"
      by (auto simp: send_event_accepts send_event_state chart_step_iff)
    with t Cons.IH show ?case by (auto simp: Let_def)
  qed simp
  moreover have "case sp_transition spec (current_state eng) event of
      Some t \<Rightarrow> current_state (fst (send_event debug spec eng event)) = sp_enter spec t \<and>
                snd (send_event debug spec eng event) = Sent (sp_enter spec t)
    | None \<Rightarrow> current_state (fst (send_event debug spec eng event)) = current_state eng \<and>
        snd (send_event debug spec eng event) =
          (let err = \<lparr>err_state = current_state eng, err_event = event,
                      err_valid_events = sp_valid_events spec (current_state eng)\<rparr>
           in if debug then Panicked err else Refused err)"
    by (auto simp: send_event_def Let_def split: option.splits)
  ultimately show ?thesis using send_all_path by blast
qed

text \<open>The records of the last transitions a debug engine keeps.\<close>

fun event_records :: "('s, 'e) StatechartSpec \<Rightarrow> 's \<Rightarrow> 'e list \<Rightarrow> TransitionRecord list" where
  "event_records spec s [] = []"
| "event_records spec s (event # events) =
     (case sp_transition spec s event of
        Some t \<Rightarrow> record_valid (sp_show_state spec s) (sp_show_event spec event) (sp_show_state spec (sp_enter spec t))
                  # event_records spec (sp_enter spec t) events
      | None \<Rightarrow> record_invalid (sp_show_state spec s) (sp_show_event spec event)
                  (map (sp_show_event spec) (sp_valid_events spec s)) # event_records spec s events)"

definition last_n :: "nat \<Rightarrow> 'a list \<Rightarrow> 'a list" where
  "last_n n xs = drop (length xs - n) xs"

lemma last_n_snoc: "last_n 64 (last_n 64 xs @ [x]) = last_n 64 (xs @ [x])"
proof -
  have "drop (length xs - 63) xs = drop (length (drop (length xs - 64) xs) - 63) (drop (length xs - 64) xs)"
    by (simp add: add.commute, rule arg_cong [where f = "\<lambda>n. drop n xs"], arith)
  then show ?thesis by (simp add: last_n_def)
qed

lemma last_n_short: "length xs \<le> n \<Longrightarrow> last_n n xs = xs"
  by (simp add: last_n_def)

fun engine_after :: "bool \<Rightarrow> ('s, 'e) StatechartSpec \<Rightarrow> 's StatechartEngine \<Rightarrow> 'e list \<Rightarrow> 's StatechartEngine" where
  "engine_after debug spec eng [] = eng"
| "engine_after debug spec eng (event # events) =
     engine_after debug spec (fst (send_event debug spec eng event)) events"

lemma recent_send_event:
  "recent eng = last_n 64 history \<Longrightarrow>
   recent (fst (send_event True spec eng event)) =
     last_n 64 (history @ event_records spec (current_state eng) [event])"
proof -
  assume a: "recent eng = last_n 64 history"
  have step: "(if length (last_n 64 history) \<ge> 64 then tl (last_n 64 history) else last_n 64 history) @ [r] =
      last_n 64 (history @ [r])" for r
  proof (cases "length history \<ge> 64")
    case True
    then have "tl (drop (length history - 64) history) = drop (Suc (length history - 64)) history"
      by (simp add: drop_Suc drop_tl)
    moreover from True have "Suc (length history - 64) = length history - 63" by simp
    ultimately show ?thesis using True by (simp add: last_n_def)
  qed (simp add: last_n_def)
  have full: "64 \<le> length (last_n 64 history) \<Longrightarrow> tl (last_n 64 history) @ [r] = last_n 64 (history @ [r])"
    and room: "\<not> 64 \<le> length (last_n 64 history) \<Longrightarrow> last_n 64 history @ [r] = last_n 64 (history @ [r])" for r
    using step [of r] by simp_all
  show ?thesis
    by (cases "sp_transition spec (current_state eng) event")
       (simp_all add: send_event_def Let_def record_transition_def MAX_RECENT_TRANSITIONS_def a full room
          trace_call_def)
qed

text \<open>In a debug build the recorded history is always the records of the last 64 events sent, in order,
  accepted and refused ones alike; a release build records nothing.\<close>

theorem recorded_history:
  "recent_transitions True (engine_after True spec (engine_new spec s) events) =
     last_n 64 (event_records spec (sp_enter spec s) events) \<and>
   length (recent (engine_after True spec (engine_new spec s) events)) \<le> MAX_RECENT_TRANSITIONS \<and>
   recent (engine_after False spec (engine_new spec s) events) = []"
proof -
  have rec: "recent (engine_after True spec eng es) =
      last_n 64 (history @ event_records spec (current_state eng) es)"
    if "recent eng = last_n 64 history" for eng history es
    using that
  proof (induction es arbitrary: eng history)
    case (Cons e es)
    have "event_records spec (current_state eng) (e # es) =
        event_records spec (current_state eng) [e] @
        event_records spec (current_state (fst (send_event True spec eng e))) es"
      by (simp add: send_event_state split: option.splits)
    with Cons.IH [OF recent_send_event [OF Cons.prems]] show ?case by simp
  qed simp
  have off: "recent (engine_after False spec eng es) = recent eng" for eng es
    by (induction es arbitrary: eng)
       (simp_all add: send_event_def Let_def record_transition_def split: option.splits)
  have "recent (engine_new spec s) = last_n 64 []" by (simp add: engine_new_def last_n_def)
  from rec [OF this, of events] show ?thesis
    by (simp add: recent_transitions_def off)
       (simp add: engine_new_def last_n_def MAX_RECENT_TRANSITIONS_def)
qed

end
