(* ===== verification/Statechart_Codegen.thy ===== *)
theory Statechart_Codegen
  imports Scxml_Document Statechart_Engine
begin

text \<open>
  The code generator (\<open>nivasa-statechart/src/codegen.rs\<close>): the text it writes for a document, and the
  meaning of that text as a chart. The match arms the text lists are separate definitions
  (\<open>transition_arms\<close>, \<open>valid_event_arms\<close>, \<open>initial_arms\<close>, \<open>final_arms\<close>); \<open>gen_spec\<close> is the
  \<open>StatechartSpec\<close> implementation they amount to, with the enum variants represented by their names and
  a Rust \<open>match\<close> taking its first matching arm.
\<close>

section \<open>Names\<close>

text \<open>\<open>char::to_uppercase\<close> and its relatives on U+0000 to U+00FF; the two letters whose upper case lies
  outside that range (U+00B5 and U+00FF) are left alone.\<close>

definition upper_char :: "char \<Rightarrow> string" where
  "upper_char c =
     (let n = of_char c :: nat in
      if 97 \<le> n \<and> n \<le> 122 \<or> 224 \<le> n \<and> n \<le> 254 \<and> n \<noteq> 247 then [char_of (n - 32)]
      else if n = 223 then ''SS'' else [c])"

definition is_upper_char :: "char \<Rightarrow> bool" where
  "is_upper_char c \<longleftrightarrow>
     (let n = of_char c :: nat in 65 \<le> n \<and> n \<le> 90 \<or> 192 \<le> n \<and> n \<le> 222 \<and> n \<noteq> 215)"

definition lower_char :: "char \<Rightarrow> char" where
  "lower_char c = (if is_upper_char c then char_of (of_char c + 32 :: nat) else c)"

fun split_any :: "('a \<Rightarrow> bool) \<Rightarrow> 'a list \<Rightarrow> 'a list list" where
  "split_any P [] = [[]]"
| "split_any P (x # xs) =
     (if P x then [] # split_any P xs
      else case split_any P xs of [] \<Rightarrow> [[x]] | y # ys \<Rightarrow> (x # y) # ys)"

definition to_pascal_case :: "string \<Rightarrow> string" where
  "to_pascal_case s =
     concat (map (\<lambda>w. case w of [] \<Rightarrow> [] | f # rest \<Rightarrow> upper_char f @ rest)
       (filter (\<lambda>w. w \<noteq> []) (split_any (\<lambda>c. c \<in> set ''_.- '') s)))"

fun snake_loop :: "nat \<Rightarrow> string \<Rightarrow> string" where
  "snake_loop i [] = []"
| "snake_loop i (c # cs) =
     (if is_upper_char c \<and> i > 0 then ''_'' else []) @ [lower_char c] @ snake_loop (Suc i) cs"

definition to_snake_case :: "string \<Rightarrow> string" where
  "to_snake_case s = snake_loop 0 (map (\<lambda>c. if c \<in> set ''.-'' then CHR ''_'' else c) s)"

section \<open>The arms of the generated matches\<close>

definition collect_states :: "ScxmlDocument \<Rightarrow> string list" where
  "collect_states doc = sort (map fst (doc_states doc))"

text \<open>\<open>doc.states.get(&id).expect(...)\<close> for an id that \<open>collect_states\<close> returned.\<close>

definition the_state :: "ScxmlDocument \<Rightarrow> string \<Rightarrow> State" where
  "the_state doc i = the (map_of (doc_states doc) i)"

definition transition_arms :: "ScxmlDocument \<Rightarrow> (string \<times> string \<times> string) list" where
  "transition_arms doc =
     concat (map (\<lambda>i. let st = the_state doc i in
       List.map_filter (\<lambda>tr.
         case tr_event tr of
           None \<Rightarrow> None
         | Some event \<Rightarrow>
             (case tr_target tr of
                [] \<Rightarrow> None
              | target # _ \<Rightarrow> Some (to_pascal_case (st_id st), to_pascal_case event, to_pascal_case target)))
         (st_transitions st)) (collect_states doc))"

definition valid_event_arms :: "ScxmlDocument \<Rightarrow> (string \<times> string list) list" where
  "valid_event_arms doc =
     map (\<lambda>i. let st = the_state doc i in
       (to_pascal_case (st_id st), map to_pascal_case (List.map_filter tr_event (st_transitions st))))
       (collect_states doc)"

definition initial_arms :: "ScxmlDocument \<Rightarrow> (string \<times> string) list" where
  "initial_arms doc =
     List.map_filter (\<lambda>i. let st = the_state doc i in
       map_option (\<lambda>initial. (to_pascal_case (st_id st), to_pascal_case initial)) (st_initial st))
       (collect_states doc)"

definition final_arms :: "ScxmlDocument \<Rightarrow> string list" where
  "final_arms doc =
     map to_pascal_case (filter (\<lambda>i. st_type (the_state doc i) = Final) (collect_states doc))"

section \<open>The generated text\<close>

definition nl :: string where
  "nl = [CHR 0x0A]"

definition quote :: string where
  "quote = [CHR 0x22]"

definition generate_state_enum :: "string \<Rightarrow> string list \<Rightarrow> string" where
  "generate_state_enum chart_name states =
     ''#[derive(Debug, Clone, Copy, PartialEq, Eq, Hash)]'' @ nl @
     ''pub enum '' @ chart_name @ ''State {'' @ nl @
     concat (map (\<lambda>state. ''    '' @ to_pascal_case state @ '','' @ nl) states) @ ''}'' @ nl"

definition generate_event_enum :: "string \<Rightarrow> string list \<Rightarrow> string" where
  "generate_event_enum chart_name events =
     ''#[derive(Debug, Clone, PartialEq, Eq, Hash)]'' @ nl @
     ''pub enum '' @ chart_name @ ''Event {'' @ nl @
     concat (map (\<lambda>event. ''    '' @ to_pascal_case event @ '','' @ nl) events) @ ''}'' @ nl"

definition generate_transition_fn :: "string \<Rightarrow> ScxmlDocument \<Rightarrow> string" where
  "generate_transition_fn chart_name doc =
     (let state_type = chart_name @ ''State''; event_type = chart_name @ ''Event'' in
      ''pub fn '' @ to_snake_case chart_name @ ''_transition(current: &'' @ state_type @
      '', event: &'' @ event_type @ '') -> Option<'' @ state_type @ ''> {'' @ nl @
      ''match (current, event) {'' @ nl @
      concat (map (\<lambda>(state, event, target).
        ''        ('' @ state_type @ ''::'' @ state @ '', '' @ event_type @ ''::'' @ event @
        '') => Some('' @ state_type @ ''::'' @ target @ ''),'' @ nl) (transition_arms doc)) @
      ''        _ => None,'' @ nl @ ''    }'' @ nl @ ''}'' @ nl)"

definition generate_valid_events_fn :: "string \<Rightarrow> ScxmlDocument \<Rightarrow> string" where
  "generate_valid_events_fn chart_name doc =
     (let state_type = chart_name @ ''State''; event_type = chart_name @ ''Event'' in
      ''pub fn '' @ to_snake_case chart_name @ ''_valid_events(state: &'' @ state_type @
      '') -> Vec<'' @ event_type @ ''> {'' @ nl @
      ''match state {'' @ nl @
      concat (map (\<lambda>(state, events).
        let events = map (\<lambda>e. event_type @ ''::'' @ e) events in
        if events = [] then ''        '' @ state_type @ ''::'' @ state @ '' => vec![],'' @ nl
        else ''        '' @ state_type @ ''::'' @ state @ '' => vec!['' @ join '', '' events @ ''],'' @ nl)
        (valid_event_arms doc)) @
      ''    }'' @ nl @ ''}'' @ nl)"

definition generate_is_final_fn :: "string \<Rightarrow> ScxmlDocument \<Rightarrow> string" where
  "generate_is_final_fn chart_name doc =
     (let state_type = chart_name @ ''State'' in
      ''pub fn '' @ to_snake_case chart_name @ ''_is_final(state: &'' @ state_type @ '') -> bool {'' @ nl @
      ''matches!(state, '' @
      (if final_arms doc = [] then ''_ if false => true''
       else join '' | '' (map (\<lambda>s. state_type @ ''::'' @ s) (final_arms doc))) @
      '')'' @ nl @ ''}'' @ nl)"

definition generate_enter_initial_state_fn :: "string \<Rightarrow> ScxmlDocument \<Rightarrow> string" where
  "generate_enter_initial_state_fn chart_name doc =
     (let state_type = chart_name @ ''State'';
          signature = ''pub fn '' @ to_snake_case chart_name @ ''_enter_initial_state(state: '' @ state_type @
            '') -> '' @ state_type @ '' {'' @ nl in
      if initial_arms doc = [] then signature @ ''    state'' @ nl @ ''}'' @ nl
      else
        signature @ ''match state {'' @ nl @
        concat (map (\<lambda>(state, initial).
          ''        '' @ state_type @ ''::'' @ state @ '' => '' @ to_snake_case chart_name @
          ''_enter_initial_state('' @ state_type @ ''::'' @ initial @ ''),'' @ nl) (initial_arms doc)) @
        ''        state => state,'' @ nl @ ''    }'' @ nl @ ''}'' @ nl)"

definition generate_handler_trait :: "string \<Rightarrow> string list \<Rightarrow> string" where
  "generate_handler_trait chart_name entry_states =
     ''#[async_trait::async_trait]'' @ nl @ ''pub trait '' @ chart_name @ ''Handler: Send + Sync {'' @ nl @
     concat (map (\<lambda>state_id.
       ''    async fn on_enter_'' @ to_snake_case state_id @
       ''(&self, ctx: &mut dyn std::any::Any) -> '' @ chart_name @ ''Event;'' @ nl) entry_states) @
     ''}'' @ nl"

definition generate_spec_impl :: "string \<Rightarrow> string \<Rightarrow> string \<Rightarrow> string" where
  "generate_spec_impl chart_name hash spec_path =
     (let snake = to_snake_case chart_name in
      ''pub struct '' @ chart_name @ ''Statechart;'' @ nl @ nl @
      ''impl '' @ spec_path @ ''::StatechartSpec for '' @ chart_name @ ''Statechart {'' @ nl @
      ''type State = '' @ chart_name @ ''State;'' @ nl @
      ''type Event = '' @ chart_name @ ''Event;'' @ nl @ nl @
      ''fn transition(current: &Self::State, event: &Self::Event) -> Option<Self::State> {'' @ nl @
      snake @ ''_transition(current, event)'' @ nl @ ''}'' @ nl @ nl @
      ''fn valid_events_for(state: &Self::State) -> Vec<Self::Event> {'' @ nl @
      snake @ ''_valid_events(state)'' @ nl @ ''}'' @ nl @ nl @
      ''fn enter_initial_state(state: Self::State) -> Self::State {'' @ nl @
      snake @ ''_enter_initial_state(state)'' @ nl @ ''}'' @ nl @ nl @
      ''fn is_final(state: &Self::State) -> bool {'' @ nl @
      snake @ ''_is_final(state)'' @ nl @ ''}'' @ nl @ nl @
      ''fn name() -> &'' @ [CHR 0x27] @ ''static str {'' @ nl @ quote @ chart_name @ quote @ nl @ ''}'' @ nl @ nl @
      ''fn scxml_hash() -> &'' @ [CHR 0x27] @ ''static str {'' @ nl @ quote @ hash @ quote @ nl @ ''}'' @ nl @
      ''}'' @ nl)"

text \<open>The chart's file: the SHA-256 of the source is a parameter. (The dash of the second line is given by
  its UTF-8 bytes.)\<close>

definition chart_name_of :: "ScxmlDocument \<Rightarrow> string" where
  "chart_name_of doc =
     to_pascal_case (case md_name (doc_metadata doc) of Some name \<Rightarrow> name | None \<Rightarrow> ''Unnamed'')"

definition generate_rust_with_spec_path :: "(ScxmlDocument \<Rightarrow> string) \<Rightarrow> ScxmlDocument \<Rightarrow> string \<Rightarrow> string" where
  "generate_rust_with_spec_path content_hash doc spec_path =
     (let chart_name = chart_name_of doc; hash = content_hash doc;
          states = collect_states doc; events = event_names doc;
          entry_states = filter (\<lambda>s. st_has_on_entry (the_state doc s)) states in
      ''// AUTO-GENERATED by nivasa-statechart codegen'' @ nl @
      ''// DO NOT EDIT '' @ [CHR 0xE2, CHR 0x80, CHR 0x94] @ '' modify the .scxml file instead.'' @ nl @
      ''// SCXML hash: sha256:'' @ hash @ nl @ nl @
      generate_state_enum chart_name states @ nl @
      generate_event_enum chart_name events @ nl @
      generate_transition_fn chart_name doc @ nl @
      generate_valid_events_fn chart_name doc @ nl @
      generate_enter_initial_state_fn chart_name doc @ nl @
      generate_is_final_fn chart_name doc @ nl @
      generate_handler_trait chart_name entry_states @ nl @
      generate_spec_impl chart_name hash spec_path)"

section \<open>The meaning of the generated functions\<close>

definition gen_transition :: "ScxmlDocument \<Rightarrow> string \<Rightarrow> string \<Rightarrow> string option" where
  "gen_transition doc current event =
     map_option (\<lambda>(s, e, t). t) (find (\<lambda>(s, e, t). s = current \<and> e = event) (transition_arms doc))"

definition gen_valid_events :: "ScxmlDocument \<Rightarrow> string \<Rightarrow> string list" where
  "gen_valid_events doc state =
     (case find (\<lambda>(s, events). s = state) (valid_event_arms doc) of Some (_, events) \<Rightarrow> events | None \<Rightarrow> [])"

text \<open>The generated function calls itself on the initial child. The fuel bounds the depth of the calls:
  \<open>None\<close> is a recursion deeper than it, which with one more than the number of states only a cycle of
  initial children can cause (see \<open>gen_enter_enough\<close>).\<close>

fun gen_enter_fuel :: "nat \<Rightarrow> (string \<times> string) list \<Rightarrow> string \<Rightarrow> string option" where
  "gen_enter_fuel 0 arms state = None"
| "gen_enter_fuel (Suc n) arms state =
     (case map_of arms state of
        Some initial \<Rightarrow> gen_enter_fuel n arms initial
      | None \<Rightarrow> Some state)"

definition gen_enter :: "ScxmlDocument \<Rightarrow> string \<Rightarrow> string" where
  "gen_enter doc state =
     (case gen_enter_fuel (Suc (length (doc_states doc))) (initial_arms doc) state of Some s \<Rightarrow> s | None \<Rightarrow> state)"

definition gen_is_final :: "ScxmlDocument \<Rightarrow> string \<Rightarrow> bool" where
  "gen_is_final doc state \<longleftrightarrow> state \<in> set (final_arms doc)"

definition gen_spec :: "string \<Rightarrow> ScxmlDocument \<Rightarrow> (string, string) StatechartSpec" where
  "gen_spec hash doc =
     \<lparr>sp_transition = gen_transition doc, sp_valid_events = gen_valid_events doc,
      sp_enter = gen_enter doc, sp_is_final = gen_is_final doc,
      sp_show_state = (\<lambda>s. s), sp_show_event = (\<lambda>e. e), sp_name = chart_name_of doc, sp_hash = hash\<rparr>"

section \<open>The generated functions follow the document\<close>

text \<open>What a chart needs for its generated code to be the chart: variant names are distinct, transitions
  with an event have a target, final states have no events, and initial children do not form a cycle.\<close>

definition chart_ok :: "ScxmlDocument \<Rightarrow> bool" where
  "chart_ok doc \<longleftrightarrow>
     distinct (map (to_pascal_case \<circ> fst) (doc_states doc)) \<and>
     list_all (\<lambda>(i, st). st_id st = i) (doc_states doc) \<and>
     list_all (\<lambda>(i, st). list_all (\<lambda>tr. tr_event tr \<noteq> None \<longrightarrow> tr_target tr \<noteq> []) (st_transitions st)) (doc_states doc) \<and>
     list_all (\<lambda>(i, st). st_type st = Final \<longrightarrow> list_all (\<lambda>tr. tr_event tr = None) (st_transitions st)) (doc_states doc) \<and>
     (let arms = initial_arms doc; n = Suc (length (doc_states doc)) in
      list_all (\<lambda>(i, st). gen_enter_fuel n arms (to_pascal_case i) \<noteq> None) (doc_states doc))"

definition state_arms :: "State \<Rightarrow> (string \<times> string \<times> string) list" where
  "state_arms st =
     List.map_filter (\<lambda>tr.
       case tr_event tr of
         None \<Rightarrow> None
       | Some event \<Rightarrow>
           (case tr_target tr of
              [] \<Rightarrow> None
            | target # _ \<Rightarrow> Some (to_pascal_case (st_id st), to_pascal_case event, to_pascal_case target)))
       (st_transitions st)"

definition arms_of :: "string \<Rightarrow> Transition list \<Rightarrow> (string \<times> string \<times> string) list" where
  "arms_of s trs =
     List.map_filter (\<lambda>tr.
       case tr_event tr of
         None \<Rightarrow> None
       | Some event \<Rightarrow>
           (case tr_target tr of
              [] \<Rightarrow> None
            | target # _ \<Rightarrow> Some (s, to_pascal_case event, to_pascal_case target))) trs"

lemma state_arms_arms_of: "state_arms st = arms_of (to_pascal_case (st_id st)) (st_transitions st)"
  by (simp add: state_arms_def arms_of_def)

lemma find_arms_of:
  "(\<And>tr. tr \<in> set trs \<Longrightarrow> tr_event tr \<noteq> None \<Longrightarrow> tr_target tr \<noteq> []) \<Longrightarrow>
   map_option (\<lambda>(s, e, t). t) (find (\<lambda>(s', e', t). s' = s \<and> e' = e) (arms_of s trs)) =
   map_option (\<lambda>tr. to_pascal_case (hd (tr_target tr)))
     (find (\<lambda>tr. map_option to_pascal_case (tr_event tr) = Some e) trs)"
proof (induction trs)
  case (Cons tr trs)
  show ?case
  proof (cases "tr_event tr")
    case (Some event)
    with Cons.prems [of tr] obtain target rest where "tr_target tr = target # rest"
      by (cases "tr_target tr") auto
    with Some Cons show ?thesis by (simp add: arms_of_def map_filter_simps)
  qed (use Cons in \<open>simp add: arms_of_def map_filter_simps\<close>)
qed (simp add: arms_of_def map_filter_simps)

lemma transition_arms_concat: "transition_arms doc = concat (map (state_arms \<circ> the_state doc) (collect_states doc))"
  by (simp add: transition_arms_def state_arms_def Let_def o_def)

lemma find_append: "find P (xs @ ys) = (case find P xs of None \<Rightarrow> find P ys | Some x \<Rightarrow> Some x)"
  by (induction xs) auto

lemma find_none: "\<forall>x \<in> set xs. \<not> P x \<Longrightarrow> find P xs = None"
  by (induction xs) auto

lemma find_concat_block:
  assumes "i \<in> set is" "\<And>j x. j \<in> set is \<Longrightarrow> j \<noteq> i \<Longrightarrow> x \<in> set (f j) \<Longrightarrow> \<not> P x"
  shows "find P (concat (map f is)) = find P (f i)"
  using assms
proof (induction "is")
  case (Cons j js)
  show ?case
  proof (cases "j = i")
    case True
    have "find P (concat (map f js)) = find P (f i) \<or> find P (concat (map f js)) = None"
    proof (cases "i \<in> set js")
      case False
      then have "\<forall>x \<in> set (concat (map f js)). \<not> P x" using Cons.prems(2) by fastforce
      from find_none [OF this] show ?thesis by simp
    qed (use Cons in auto)
    with True show ?thesis by (auto simp: find_append split: option.splits)
  next
    case False
    then have "\<forall>x \<in> set (f j). \<not> P x" using Cons.prems(2) by fastforce
    moreover have "find P (concat (map f js)) = find P (f i)"
      by (rule Cons.IH) (use Cons.prems False in auto)
    ultimately show ?thesis using find_none [of "f j" P] by (simp add: find_append)
  qed
qed simp

lemma find_keyed_block:
  assumes "i \<in> set is" "inj_on name (set is)" "\<And>j x. j \<in> set is \<Longrightarrow> x \<in> set (f j) \<Longrightarrow> key x = name j"
    and "\<And>x. P x \<Longrightarrow> key x = name i"
  shows "find P (concat (map f is)) = find P (f i)"
proof (rule find_concat_block [OF assms(1)])
  fix j x assume "j \<in> set is" "j \<noteq> i" "x \<in> set (f j)"
  then show "\<not> P x" using assms(3) [of j x] assms(4) [of x] assms(1,2) by (auto simp: inj_on_def)
qed

lemma find_not_None: "find P xs \<noteq> None \<longleftrightarrow> (\<exists>x \<in> set xs. P x)"
  by (induction xs) auto

section \<open>Descending into initial children\<close>

lemma gen_enter_mono: "gen_enter_fuel n arms s = Some t \<Longrightarrow> n \<le> m \<Longrightarrow> gen_enter_fuel m arms s = Some t"
proof (induction n arbitrary: s m)
  case (Suc n)
  then obtain m' where "m = Suc m'" "n \<le> m'" by (cases m) auto
  with Suc show ?case by (auto split: option.splits)
qed simp

lemma gen_enter_target: "gen_enter_fuel n (initial_arms doc) s = Some t \<Longrightarrow> map_of (initial_arms doc) t = None"
  by (induction n arbitrary: s) (auto split: option.splits)

text \<open>A descent that needs exactly \<open>n + 1\<close> steps passes through \<open>n\<close> different compound states.\<close>

lemma gen_enter_depth:
  "gen_enter_fuel (Suc n) (initial_arms doc) s = Some t \<Longrightarrow> gen_enter_fuel n (initial_arms doc) s = None \<Longrightarrow>
   \<exists>S. finite S \<and> card S = n \<and> S \<subseteq> dom (map_of (initial_arms doc)) \<and>
       (\<forall>x \<in> S. gen_enter_fuel (Suc n) (initial_arms doc) x \<noteq> None)"
proof (induction n arbitrary: s)
  case 0
  then show ?case by (intro exI [of _ "{}"]) simp
next
  case (Suc n)
  then obtain s' where s': "map_of (initial_arms doc) s = Some s'" by (auto split: option.splits)
  with Suc.prems have "gen_enter_fuel (Suc n) (initial_arms doc) s' = Some t" "gen_enter_fuel n (initial_arms doc) s' = None"
    by (simp_all)
  from Suc.IH [OF this] obtain S where S: "finite S" "card S = n"
    "S \<subseteq> dom (map_of (initial_arms doc))" "\<forall>x \<in> S. gen_enter_fuel (Suc n) (initial_arms doc) x \<noteq> None" by blast
  have "s \<notin> S" using S(4) Suc.prems(2) by auto
  moreover have "\<forall>x \<in> insert s S. gen_enter_fuel (Suc (Suc n)) (initial_arms doc) x \<noteq> None"
    using S(4) Suc.prems(1) gen_enter_mono [of "Suc n" "initial_arms doc" _ _ "Suc (Suc n)"]
    by (metis insert_iff not_Some_eq le_SucI order_refl)
  ultimately show ?case
    using S s' by (intro exI [of _ "insert s S"]) auto
qed

text \<open>The fuel is enough: a descent that ends at all ends within one step more than the number of states.\<close>

lemma gen_enter_enough:
  assumes "gen_enter_fuel m (initial_arms doc) s = Some t"
  shows "gen_enter_fuel (Suc (length (doc_states doc))) (initial_arms doc) s = Some t"
proof -
  define k where "k = (LEAST k. gen_enter_fuel k (initial_arms doc) s \<noteq> None)"
  have "gen_enter_fuel k (initial_arms doc) s \<noteq> None" unfolding k_def by (rule LeastI [of _ m]) (simp add: assms)
  moreover obtain n where n: "k = Suc n" using calculation by (cases k) auto
  moreover have "gen_enter_fuel n (initial_arms doc) s = None"
    using not_less_Least [of n "\<lambda>k. gen_enter_fuel k (initial_arms doc) s \<noteq> None"] n by (simp add: k_def)
  ultimately obtain u S where u: "gen_enter_fuel (Suc n) (initial_arms doc) s = Some u"
    and S: "card S = n" "S \<subseteq> dom (map_of (initial_arms doc))"
    using gen_enter_depth [of n doc s] by blast
  have "n \<le> card (dom (map_of (initial_arms doc)))"
    using S card_mono [OF finite_dom_map_of] by blast
  also have "\<dots> \<le> length (initial_arms doc)"
    by (metis card_length dom_map_of_conv_image_fst length_map set_map)
  also have "\<dots> \<le> length (doc_states doc)"
    unfolding initial_arms_def collect_states_def List.map_filter_def Let_def
    by (metis (no_types, lifting) length_filter_le length_map length_sort)
  finally have "gen_enter_fuel (Suc (length (doc_states doc))) (initial_arms doc) s = Some u"
    by (intro gen_enter_mono [OF u]) simp
  then show ?thesis using assms gen_enter_mono [of m "initial_arms doc" s t "max m (Suc (length (doc_states doc)))"]
      gen_enter_mono [of "Suc (length (doc_states doc))" "initial_arms doc" s u "max m (Suc (length (doc_states doc)))"] by simp
qed

lemma gen_enter_idem: "gen_enter doc (gen_enter doc s) = gen_enter doc s"
proof (cases "gen_enter_fuel (Suc (length (doc_states doc))) (initial_arms doc) s")
  case (Some t)
  then show ?thesis using gen_enter_target [OF Some] by (simp add: gen_enter_def)
qed (simp add: gen_enter_def del: gen_enter_fuel.simps)

locale generated_chart =
  fixes doc :: ScxmlDocument
  assumes ok: "chart_ok doc"
begin

lemma states_id: "(i, st) \<in> set (doc_states doc) \<Longrightarrow> st_id st = i"
  using ok by (auto simp: chart_ok_def list_all_iff)

lemma distinct_ids: "distinct (map fst (doc_states doc))"
  using ok by (auto simp: chart_ok_def distinct_map inj_on_def)

lemma set_collect: "set (collect_states doc) = fst ` set (doc_states doc)"
  by (simp add: collect_states_def)

lemma pascal_inj: "inj_on to_pascal_case (set (collect_states doc))"
  using ok by (fastforce simp: chart_ok_def set_collect distinct_map inj_on_def)

lemma the_state_eq: "(i, st) \<in> set (doc_states doc) \<Longrightarrow> the_state doc i = st"
  using distinct_ids by (simp add: the_state_def map_of_is_SomeI)

lemma arms_first: "x \<in> set (state_arms (the_state doc j)) \<Longrightarrow> j \<in> set (collect_states doc) \<Longrightarrow> fst x = to_pascal_case j"
  using states_id the_state_eq
  by (auto simp: state_arms_def set_collect List.map_filter_def split: option.splits list.splits)

lemma gen_transition_state:
  assumes "(i, st) \<in> set (doc_states doc)"
  shows "gen_transition doc (to_pascal_case i) e =
    map_option (\<lambda>tr. to_pascal_case (hd (tr_target tr)))
      (find (\<lambda>tr. map_option to_pascal_case (tr_event tr) = Some e) (st_transitions st))"
proof -
  let ?P = "\<lambda>(s, e', t). s = to_pascal_case i \<and> e' = e"
  have mem: "i \<in> set (collect_states doc)" using assms by (force simp: set_collect)
  have "find ?P (transition_arms doc) = find ?P (state_arms (the_state doc i))"
    unfolding transition_arms_concat
    using find_keyed_block [OF mem pascal_inj, of "state_arms \<circ> the_state doc" fst ?P] arms_first
    by fastforce
  also have "\<dots> = find ?P (state_arms st)" using assms by (simp add: the_state_eq)
  finally have arms: "find ?P (transition_arms doc) = find ?P (state_arms st)" .
  have tgt: "\<And>tr. tr \<in> set (st_transitions st) \<Longrightarrow> tr_event tr \<noteq> None \<Longrightarrow> tr_target tr \<noteq> []"
    using ok assms by (fastforce simp: chart_ok_def list_all_iff)
  have id: "st_id st = i" using assms by (rule states_id)
  show ?thesis
    unfolding gen_transition_def arms state_arms_arms_of id using tgt by (rule find_arms_of)
qed

lemma gen_valid_events_state:
  assumes "(i, st) \<in> set (doc_states doc)"
  shows "gen_valid_events doc (to_pascal_case i) =
    map to_pascal_case (List.map_filter tr_event (st_transitions st))"
proof -
  let ?f = "\<lambda>i. [(to_pascal_case (st_id (the_state doc i)),
      map to_pascal_case (List.map_filter tr_event (st_transitions (the_state doc i))))]"
  have mem: "i \<in> set (collect_states doc)" using assms by (force simp: set_collect)
  have "valid_event_arms doc = concat (map ?f (collect_states doc))"
    by (simp add: valid_event_arms_def Let_def concat_map_singleton)
  moreover have "st_id (the_state doc j) = j" if "j \<in> set (collect_states doc)" for j
    using that states_id the_state_eq by (auto simp: set_collect)
  ultimately have "find (\<lambda>(s, events). s = to_pascal_case i) (valid_event_arms doc) =
      find (\<lambda>(s, events). s = to_pascal_case i) (?f i)"
    using find_keyed_block [OF mem pascal_inj, of ?f fst "\<lambda>(s, events). s = to_pascal_case i"] by fastforce
  with assms states_id [OF assms] show ?thesis
    by (simp add: gen_valid_events_def the_state_eq)
qed

lemma gen_unknown_state:
  assumes "s \<notin> to_pascal_case ` fst ` set (doc_states doc)"
  shows "gen_transition doc s e = None" and "gen_valid_events doc s = []"
proof -
  have "fst x \<in> to_pascal_case ` fst ` set (doc_states doc)" if x: "x \<in> set (transition_arms doc)" for x
  proof -
    obtain j where "j \<in> set (collect_states doc)" "x \<in> set (state_arms (the_state doc j))"
      using x by (auto simp: transition_arms_concat)
    then show ?thesis using arms_first [of x j] by (simp add: set_collect)
  qed
  then have "find (\<lambda>(s', e', t). s' = s \<and> e' = e) (transition_arms doc) = None"
    using assms by (intro find_none) fastforce
  then show "gen_transition doc s e = None" by (simp add: gen_transition_def)
  have "x \<in> set (valid_event_arms doc) \<Longrightarrow> fst x \<in> to_pascal_case ` fst ` set (doc_states doc)" for x
    using states_id the_state_eq by (force simp: valid_event_arms_def set_collect Let_def)
  then have "find (\<lambda>(s', events). s' = s) (valid_event_arms doc) = None"
    using assms by (intro find_none) fastforce
  then show "gen_valid_events doc s = []" by (simp add: gen_valid_events_def)
qed

lemma gen_valid_exact: "gen_transition doc s e \<noteq> None \<longleftrightarrow> e \<in> set (gen_valid_events doc s)"
proof (cases "s \<in> to_pascal_case ` fst ` set (doc_states doc)")
  case True
  then obtain i st where st: "(i, st) \<in> set (doc_states doc)" "s = to_pascal_case i" by auto
  have "gen_transition doc s e \<noteq> None \<longleftrightarrow>
      find (\<lambda>tr. map_option to_pascal_case (tr_event tr) = Some e) (st_transitions st) \<noteq> None"
    unfolding st(2) gen_transition_state [OF st(1)] by simp
  also have "\<dots> \<longleftrightarrow> e \<in> set (map to_pascal_case (List.map_filter tr_event (st_transitions st)))"
    unfolding find_not_None by (force simp: List.map_filter_def)
  finally show ?thesis unfolding st(2) gen_valid_events_state [OF st(1)] .
next
  case False
  then show ?thesis by (simp add: gen_unknown_state)
qed

lemma gen_final_no_events: "gen_is_final doc s \<Longrightarrow> gen_valid_events doc s = []"
proof -
  assume "gen_is_final doc s"
  then obtain i st where st: "(i, st) \<in> set (doc_states doc)" "s = to_pascal_case i" "st_type st = Final"
    using the_state_eq by (auto simp: gen_is_final_def final_arms_def set_collect)
  then have "\<forall>tr \<in> set (st_transitions st). tr_event tr = None"
    using ok by (fastforce simp: chart_ok_def list_all_iff)
  then show ?thesis
    unfolding st(2) gen_valid_events_state [OF st(1)] by (auto simp: List.map_filter_def filter_empty_conv)
qed

end

lemma chart_ok_spec: "chart_ok doc \<Longrightarrow> statechart_spec (gen_spec hash doc)"
proof -
  assume "chart_ok doc"
  then have gen: "generated_chart doc" by (rule generated_chart.intro)
  show ?thesis
    by unfold_locales
       (simp_all add: gen_spec_def gen_enter_idem generated_chart.gen_final_no_events [OF gen]
          generated_chart.gen_valid_exact [OF gen, simplified])
qed

section \<open>A chart as a graph\<close>

definition chart_edges :: "ScxmlDocument \<Rightarrow> (string \<times> string \<times> string) list" where
  "chart_edges doc = map (\<lambda>(s, e, t). (s, e, gen_enter doc t)) (transition_arms doc)"

lemma gen_transition_arms:
  assumes "distinct (map (\<lambda>(s, e, t). (s, e)) (transition_arms doc))"
  shows "gen_transition doc s e = Some t \<longleftrightarrow> (s, e, t) \<in> set (transition_arms doc)"
proof -
  have "map_option (\<lambda>(s, e, t). t) (find (\<lambda>(s', e', t). s' = s \<and> e' = e) arms) = Some t \<longleftrightarrow> (s, e, t) \<in> set arms"
    if "distinct (map (\<lambda>(s, e, t). (s, e)) arms)" for arms :: "(string \<times> string \<times> string) list"
    using that by (induction arms) force+
  then show ?thesis using assms unfolding gen_transition_def by blast
qed

lemma chart_step_edges:
  assumes "distinct (map (\<lambda>(s, e, t). (s, e)) (transition_arms doc))"
  shows "chart_step (gen_spec hash doc) s e t \<longleftrightarrow> (s, e, t) \<in> set (chart_edges doc)"
  by (force simp: chart_step_iff gen_spec_def chart_edges_def gen_transition_arms [OF assms])

lemma chart_path_snoc_iff:
  "chart_path spec s (es @ [e]) t \<longleftrightarrow> (\<exists>u. chart_path spec s es u \<and> chart_step spec u e t)"
proof (induction es arbitrary: s)
  case Nil
  show ?case by (auto elim!: chart_path_ConsE chart_path_NilE intro: chart_path.intros)
next
  case (Cons x es)
  have "chart_path spec s (x # (es @ [e])) t \<longleftrightarrow> (\<exists>v. chart_step spec s x v \<and> chart_path spec v (es @ [e]) t)"
    by (auto elim: chart_path_ConsE intro: chart_path.go)
  moreover have "chart_path spec s (x # es) u \<longleftrightarrow> (\<exists>v. chart_step spec s x v \<and> chart_path spec v es u)" for u
    by (auto elim: chart_path_ConsE intro: chart_path.go)
  ultimately show ?case using Cons.IH by auto
qed

text \<open>A state whose only incoming edge is \<open>(u, e, t)\<close> is reached through \<open>u\<close> by \<open>e\<close>; one without incoming
  edges only by the empty path.\<close>

lemma chart_path_back:
  assumes "chart_path spec s es t" "\<And>u e. chart_step spec u e t \<Longrightarrow> u = u0 \<and> e = e0" "s \<noteq> t"
  shows "\<exists>es'. es = es' @ [e0] \<and> chart_path spec s es' u0"
proof (cases es rule: rev_cases)
  case Nil
  with assms show ?thesis by (auto elim: chart_path_NilE)
next
  case (snoc es' e)
  with assms(1) obtain u where "chart_path spec s es' u" "chart_step spec u e t"
    by (auto simp: chart_path_snoc_iff)
  with assms(2) snoc show ?thesis by blast
qed

lemma chart_path_source:
  assumes "chart_path spec s es t" "\<And>u e. \<not> chart_step spec u e t"
  shows "es = [] \<and> s = t"
proof (cases es rule: rev_cases)
  case Nil
  with assms show ?thesis by (auto elim: chart_path_NilE)
next
  case (snoc es' e)
  with assms show ?thesis by (auto simp: chart_path_snoc_iff)
qed

text \<open>A chart whose steps decrease a rank has short runs, and runs can be completed when every other state
  of a closed set has a step inside it.\<close>

lemma chart_path_rank:
  assumes "\<And>u e v. chart_step spec u e v \<Longrightarrow> rk v < (rk u :: nat)"
  shows "chart_path spec s es t \<Longrightarrow> length es + rk t \<le> rk s"
proof (induction rule: chart_path.induct)
  case (go s event t events u)
  then show ?case using assms [OF go.hyps(1)] by simp
qed simp

lemma chart_path_closed:
  assumes "\<And>u e v. u \<in> V \<Longrightarrow> chart_step spec u e v \<Longrightarrow> v \<in> V"
  shows "chart_path spec s es t \<Longrightarrow> s \<in> V \<Longrightarrow> t \<in> V"
  by (induction rule: chart_path.induct) (auto intro: assms)

lemma chart_path_completes:
  assumes "\<And>u e v. chart_step spec u e v \<Longrightarrow> rk v < (rk u :: nat)"
    and "\<And>u. u \<in> V \<Longrightarrow> u \<noteq> final \<Longrightarrow> \<exists>e v. chart_step spec u e v \<and> v \<in> V"
  shows "u \<in> V \<Longrightarrow> \<exists>es. chart_path spec u es final"
proof (induction "rk u" arbitrary: u rule: less_induct)
  case less
  show ?case
  proof (cases "u = final")
    case True
    then show ?thesis by (auto intro: chart_path.stop)
  next
    case False
    with assms(2) less.prems obtain e v where v: "chart_step spec u e v" "v \<in> V" by blast
    with less.hyps assms(1) obtain es where "chart_path spec v es final" by blast
    from chart_path.go [OF v(1) this] show ?thesis by (rule exI)
  qed
qed

section \<open>Properties of the generator\<close>


end
