(* ===== verification/Statecharts.thy ===== *)
theory Statecharts
  imports Statechart_Codegen
begin

text \<open>
  The four charts of the framework (\<open>statecharts/*.scxml\<close>): the element events of each file as the XML
  reader yields them (comments, white space and the texts of \<open>log\<close> elements aside), the document the
  parser builds from them and the chart the generator makes of it. Each chart is an interpretation of
  \<open>generated_chart\<close> and \<open>statechart_spec\<close>; the properties say what the charts guarantee.
\<close>


section \<open>\<open>nivasa.request.scxml\<close>\<close>

definition request_scxml :: "XmlEvent list" where
  "request_scxml =
    [XStart ''scxml'' [Inr (''xmlns'', ''http://www.w3.org/2005/07/scxml''), Inr (''version'', ''1.0''), Inr (''name'', ''NivasaRequest''), Inr (''initial'', ''received''), Inr (''datamodel'', ''rust'')],
     XStart ''state'' [Inr (''id'', ''received'')],
     XStart ''onentry'' [],
     XEmpty ''log'' [Inr (''expr'', ''message'')],
     XEnd ''onentry'',
     XEmpty ''transition'' [Inr (''event'', ''request.parsed''), Inr (''target'', ''middleware_chain'')],
     XEmpty ''transition'' [Inr (''event'', ''error.parse''), Inr (''target'', ''error_handling'')],
     XEnd ''state'',
     XStart ''state'' [Inr (''id'', ''middleware_chain'')],
     XStart ''onentry'' [],
     XEmpty ''log'' [Inr (''expr'', ''message'')],
     XEnd ''onentry'',
     XEmpty ''transition'' [Inr (''event'', ''middleware.complete''), Inr (''target'', ''route_matching'')],
     XEmpty ''transition'' [Inr (''event'', ''error.middleware''), Inr (''target'', ''error_handling'')],
     XEnd ''state'',
     XStart ''state'' [Inr (''id'', ''route_matching'')],
     XStart ''onentry'' [],
     XEmpty ''log'' [Inr (''expr'', ''message'')],
     XEnd ''onentry'',
     XEmpty ''transition'' [Inr (''event'', ''route.matched''), Inr (''target'', ''guard_chain'')],
     XEmpty ''transition'' [Inr (''event'', ''route.not_found''), Inr (''target'', ''error_handling'')],
     XEmpty ''transition'' [Inr (''event'', ''route.method_not_allowed''), Inr (''target'', ''error_handling'')],
     XEnd ''state'',
     XStart ''state'' [Inr (''id'', ''guard_chain'')],
     XStart ''onentry'' [],
     XEmpty ''log'' [Inr (''expr'', ''message'')],
     XEnd ''onentry'',
     XEmpty ''transition'' [Inr (''event'', ''guards.passed''), Inr (''target'', ''interceptor_pre'')],
     XEmpty ''transition'' [Inr (''event'', ''guard.denied''), Inr (''target'', ''error_handling'')],
     XEmpty ''transition'' [Inr (''event'', ''error.guard''), Inr (''target'', ''error_handling'')],
     XEnd ''state'',
     XStart ''state'' [Inr (''id'', ''interceptor_pre'')],
     XStart ''onentry'' [],
     XEmpty ''log'' [Inr (''expr'', ''message'')],
     XEnd ''onentry'',
     XEmpty ''transition'' [Inr (''event'', ''interceptors.pre.complete''), Inr (''target'', ''pipe_transform'')],
     XEmpty ''transition'' [Inr (''event'', ''error.interceptor''), Inr (''target'', ''error_handling'')],
     XEnd ''state'',
     XStart ''state'' [Inr (''id'', ''pipe_transform'')],
     XStart ''onentry'' [],
     XEmpty ''log'' [Inr (''expr'', ''message'')],
     XEnd ''onentry'',
     XEmpty ''transition'' [Inr (''event'', ''pipes.complete''), Inr (''target'', ''handler_execution'')],
     XEmpty ''transition'' [Inr (''event'', ''error.validation''), Inr (''target'', ''error_handling'')],
     XEmpty ''transition'' [Inr (''event'', ''error.pipe''), Inr (''target'', ''error_handling'')],
     XEnd ''state'',
     XStart ''state'' [Inr (''id'', ''handler_execution'')],
     XStart ''onentry'' [],
     XEmpty ''log'' [Inr (''expr'', ''message'')],
     XEnd ''onentry'',
     XEmpty ''transition'' [Inr (''event'', ''handler.complete''), Inr (''target'', ''interceptor_post'')],
     XEmpty ''transition'' [Inr (''event'', ''error.interceptor''), Inr (''target'', ''error_handling'')],
     XEmpty ''transition'' [Inr (''event'', ''error.handler''), Inr (''target'', ''error_handling'')],
     XEnd ''state'',
     XStart ''state'' [Inr (''id'', ''interceptor_post'')],
     XStart ''onentry'' [],
     XEmpty ''log'' [Inr (''expr'', ''message'')],
     XEnd ''onentry'',
     XEmpty ''transition'' [Inr (''event'', ''interceptors.post.complete''), Inr (''target'', ''sending_response'')],
     XEmpty ''transition'' [Inr (''event'', ''error.interceptor_post''), Inr (''target'', ''error_handling'')],
     XEnd ''state'',
     XStart ''state'' [Inr (''id'', ''error_handling'')],
     XStart ''onentry'' [],
     XEmpty ''log'' [Inr (''expr'', ''message'')],
     XEnd ''onentry'',
     XEmpty ''transition'' [Inr (''event'', ''filter.handled''), Inr (''target'', ''sending_response'')],
     XEmpty ''transition'' [Inr (''event'', ''error.filter.unhandled''), Inr (''target'', ''sending_response'')],
     XEnd ''state'',
     XStart ''state'' [Inr (''id'', ''sending_response'')],
     XStart ''onentry'' [],
     XEmpty ''log'' [Inr (''expr'', ''message'')],
     XEnd ''onentry'',
     XEmpty ''transition'' [Inr (''event'', ''response.sent''), Inr (''target'', ''done'')],
     XEmpty ''transition'' [Inr (''event'', ''error.send''), Inr (''target'', ''done'')],
     XEnd ''state'',
     XEmpty ''final'' [Inr (''id'', ''done'')],
     XEnd ''scxml'']"

definition request_doc :: ScxmlDocument where
  "request_doc =
    \<lparr>doc_metadata = \<lparr>md_name = Some ''NivasaRequest'', md_version = ''1.0'', md_initial = Some ''received'', md_datamodel = Some ''rust''\<rparr>,
     doc_states =
      [(''received'', \<lparr>st_id = ''received'', st_type = Atomic, st_parent = None, st_children = [],
        st_initial = None, st_transitions =
          [\<lparr>tr_event = Some ''request.parsed'', tr_cond = None, tr_target = [''middleware_chain''], tr_type = External\<rparr>,
           \<lparr>tr_event = Some ''error.parse'', tr_cond = None, tr_target = [''error_handling''], tr_type = External\<rparr>],
        st_has_on_entry = True, st_has_on_exit = False, st_invoke = []\<rparr>),
       (''middleware_chain'', \<lparr>st_id = ''middleware_chain'', st_type = Atomic, st_parent = None, st_children = [],
        st_initial = None, st_transitions =
          [\<lparr>tr_event = Some ''middleware.complete'', tr_cond = None, tr_target = [''route_matching''], tr_type = External\<rparr>,
           \<lparr>tr_event = Some ''error.middleware'', tr_cond = None, tr_target = [''error_handling''], tr_type = External\<rparr>],
        st_has_on_entry = True, st_has_on_exit = False, st_invoke = []\<rparr>),
       (''route_matching'', \<lparr>st_id = ''route_matching'', st_type = Atomic, st_parent = None, st_children = [],
        st_initial = None, st_transitions =
          [\<lparr>tr_event = Some ''route.matched'', tr_cond = None, tr_target = [''guard_chain''], tr_type = External\<rparr>,
           \<lparr>tr_event = Some ''route.not_found'', tr_cond = None, tr_target = [''error_handling''], tr_type = External\<rparr>,
           \<lparr>tr_event = Some ''route.method_not_allowed'', tr_cond = None, tr_target = [''error_handling''], tr_type = External\<rparr>],
        st_has_on_entry = True, st_has_on_exit = False, st_invoke = []\<rparr>),
       (''guard_chain'', \<lparr>st_id = ''guard_chain'', st_type = Atomic, st_parent = None, st_children = [],
        st_initial = None, st_transitions =
          [\<lparr>tr_event = Some ''guards.passed'', tr_cond = None, tr_target = [''interceptor_pre''], tr_type = External\<rparr>,
           \<lparr>tr_event = Some ''guard.denied'', tr_cond = None, tr_target = [''error_handling''], tr_type = External\<rparr>,
           \<lparr>tr_event = Some ''error.guard'', tr_cond = None, tr_target = [''error_handling''], tr_type = External\<rparr>],
        st_has_on_entry = True, st_has_on_exit = False, st_invoke = []\<rparr>),
       (''interceptor_pre'', \<lparr>st_id = ''interceptor_pre'', st_type = Atomic, st_parent = None, st_children = [],
        st_initial = None, st_transitions =
          [\<lparr>tr_event = Some ''interceptors.pre.complete'', tr_cond = None, tr_target = [''pipe_transform''], tr_type = External\<rparr>,
           \<lparr>tr_event = Some ''error.interceptor'', tr_cond = None, tr_target = [''error_handling''], tr_type = External\<rparr>],
        st_has_on_entry = True, st_has_on_exit = False, st_invoke = []\<rparr>),
       (''pipe_transform'', \<lparr>st_id = ''pipe_transform'', st_type = Atomic, st_parent = None, st_children = [],
        st_initial = None, st_transitions =
          [\<lparr>tr_event = Some ''pipes.complete'', tr_cond = None, tr_target = [''handler_execution''], tr_type = External\<rparr>,
           \<lparr>tr_event = Some ''error.validation'', tr_cond = None, tr_target = [''error_handling''], tr_type = External\<rparr>,
           \<lparr>tr_event = Some ''error.pipe'', tr_cond = None, tr_target = [''error_handling''], tr_type = External\<rparr>],
        st_has_on_entry = True, st_has_on_exit = False, st_invoke = []\<rparr>),
       (''handler_execution'', \<lparr>st_id = ''handler_execution'', st_type = Atomic, st_parent = None, st_children = [],
        st_initial = None, st_transitions =
          [\<lparr>tr_event = Some ''handler.complete'', tr_cond = None, tr_target = [''interceptor_post''], tr_type = External\<rparr>,
           \<lparr>tr_event = Some ''error.interceptor'', tr_cond = None, tr_target = [''error_handling''], tr_type = External\<rparr>,
           \<lparr>tr_event = Some ''error.handler'', tr_cond = None, tr_target = [''error_handling''], tr_type = External\<rparr>],
        st_has_on_entry = True, st_has_on_exit = False, st_invoke = []\<rparr>),
       (''interceptor_post'', \<lparr>st_id = ''interceptor_post'', st_type = Atomic, st_parent = None, st_children = [],
        st_initial = None, st_transitions =
          [\<lparr>tr_event = Some ''interceptors.post.complete'', tr_cond = None, tr_target = [''sending_response''], tr_type = External\<rparr>,
           \<lparr>tr_event = Some ''error.interceptor_post'', tr_cond = None, tr_target = [''error_handling''], tr_type = External\<rparr>],
        st_has_on_entry = True, st_has_on_exit = False, st_invoke = []\<rparr>),
       (''error_handling'', \<lparr>st_id = ''error_handling'', st_type = Atomic, st_parent = None, st_children = [],
        st_initial = None, st_transitions =
          [\<lparr>tr_event = Some ''filter.handled'', tr_cond = None, tr_target = [''sending_response''], tr_type = External\<rparr>,
           \<lparr>tr_event = Some ''error.filter.unhandled'', tr_cond = None, tr_target = [''sending_response''], tr_type = External\<rparr>],
        st_has_on_entry = True, st_has_on_exit = False, st_invoke = []\<rparr>),
       (''sending_response'', \<lparr>st_id = ''sending_response'', st_type = Atomic, st_parent = None, st_children = [],
        st_initial = None, st_transitions =
          [\<lparr>tr_event = Some ''response.sent'', tr_cond = None, tr_target = [''done''], tr_type = External\<rparr>,
           \<lparr>tr_event = Some ''error.send'', tr_cond = None, tr_target = [''done''], tr_type = External\<rparr>],
        st_has_on_entry = True, st_has_on_exit = False, st_invoke = []\<rparr>),
       (''done'', \<lparr>st_id = ''done'', st_type = Final, st_parent = None, st_children = [],
        st_initial = None, st_transitions =
          [],
        st_has_on_entry = False, st_has_on_exit = False, st_invoke = []\<rparr>)],
     doc_top_level = [''received'', ''middleware_chain'', ''route_matching'', ''guard_chain'', ''interceptor_pre'', ''pipe_transform'', ''handler_execution'', ''interceptor_post'', ''error_handling'', ''sending_response'', ''done''], doc_history = []\<rparr>"

definition request_spec :: "string \<Rightarrow> (string, string) StatechartSpec" where
  "request_spec hash = gen_spec hash request_doc"

lemma request_parsed: "from_events request_scxml = Inr request_doc"
  by code_simp

lemma request_validated: "is_valid (validate request_doc)"
  by code_simp

lemma request_arms:
  "transition_arms request_doc =
    [(''ErrorHandling'', ''FilterHandled'', ''SendingResponse''),
     (''ErrorHandling'', ''ErrorFilterUnhandled'', ''SendingResponse''),
     (''GuardChain'', ''GuardsPassed'', ''InterceptorPre''),
     (''GuardChain'', ''GuardDenied'', ''ErrorHandling''),
     (''GuardChain'', ''ErrorGuard'', ''ErrorHandling''),
     (''HandlerExecution'', ''HandlerComplete'', ''InterceptorPost''),
     (''HandlerExecution'', ''ErrorInterceptor'', ''ErrorHandling''),
     (''HandlerExecution'', ''ErrorHandler'', ''ErrorHandling''),
     (''InterceptorPost'', ''InterceptorsPostComplete'', ''SendingResponse''),
     (''InterceptorPost'', ''ErrorInterceptorPost'', ''ErrorHandling''),
     (''InterceptorPre'', ''InterceptorsPreComplete'', ''PipeTransform''),
     (''InterceptorPre'', ''ErrorInterceptor'', ''ErrorHandling''),
     (''MiddlewareChain'', ''MiddlewareComplete'', ''RouteMatching''),
     (''MiddlewareChain'', ''ErrorMiddleware'', ''ErrorHandling''),
     (''PipeTransform'', ''PipesComplete'', ''HandlerExecution''),
     (''PipeTransform'', ''ErrorValidation'', ''ErrorHandling''),
     (''PipeTransform'', ''ErrorPipe'', ''ErrorHandling''),
     (''Received'', ''RequestParsed'', ''MiddlewareChain''),
     (''Received'', ''ErrorParse'', ''ErrorHandling''),
     (''RouteMatching'', ''RouteMatched'', ''GuardChain''),
     (''RouteMatching'', ''RouteNotFound'', ''ErrorHandling''),
     (''RouteMatching'', ''RouteMethodNotAllowed'', ''ErrorHandling''),
     (''SendingResponse'', ''ResponseSent'', ''Done''),
     (''SendingResponse'', ''ErrorSend'', ''Done'')]"
  by code_simp

lemma request_initials:
  "initial_arms request_doc = []"
  by code_simp

lemma request_finals: "final_arms request_doc = [''Done'']"
  by code_simp

lemma request_chart_ok: "chart_ok request_doc"
  by code_simp

interpretation request_gen: generated_chart request_doc
  by unfold_locales (rule request_chart_ok)

interpretation request_chart: statechart_spec "request_spec hash" for hash
  unfolding request_spec_def by (rule chart_ok_spec [OF request_chart_ok])

lemma request_edges:
  "chart_edges request_doc =
    [(''ErrorHandling'', ''FilterHandled'', ''SendingResponse''),
     (''ErrorHandling'', ''ErrorFilterUnhandled'', ''SendingResponse''),
     (''GuardChain'', ''GuardsPassed'', ''InterceptorPre''),
     (''GuardChain'', ''GuardDenied'', ''ErrorHandling''),
     (''GuardChain'', ''ErrorGuard'', ''ErrorHandling''),
     (''HandlerExecution'', ''HandlerComplete'', ''InterceptorPost''),
     (''HandlerExecution'', ''ErrorInterceptor'', ''ErrorHandling''),
     (''HandlerExecution'', ''ErrorHandler'', ''ErrorHandling''),
     (''InterceptorPost'', ''InterceptorsPostComplete'', ''SendingResponse''),
     (''InterceptorPost'', ''ErrorInterceptorPost'', ''ErrorHandling''),
     (''InterceptorPre'', ''InterceptorsPreComplete'', ''PipeTransform''),
     (''InterceptorPre'', ''ErrorInterceptor'', ''ErrorHandling''),
     (''MiddlewareChain'', ''MiddlewareComplete'', ''RouteMatching''),
     (''MiddlewareChain'', ''ErrorMiddleware'', ''ErrorHandling''),
     (''PipeTransform'', ''PipesComplete'', ''HandlerExecution''),
     (''PipeTransform'', ''ErrorValidation'', ''ErrorHandling''),
     (''PipeTransform'', ''ErrorPipe'', ''ErrorHandling''),
     (''Received'', ''RequestParsed'', ''MiddlewareChain''),
     (''Received'', ''ErrorParse'', ''ErrorHandling''),
     (''RouteMatching'', ''RouteMatched'', ''GuardChain''),
     (''RouteMatching'', ''RouteNotFound'', ''ErrorHandling''),
     (''RouteMatching'', ''RouteMethodNotAllowed'', ''ErrorHandling''),
     (''SendingResponse'', ''ResponseSent'', ''Done''),
     (''SendingResponse'', ''ErrorSend'', ''Done'')]"
  by code_simp

lemma request_distinct: "distinct (map (\<lambda>(s, e, t). (s, e)) (transition_arms request_doc))"
  unfolding request_arms by code_simp

lemma request_step: "chart_step (request_spec hash) s e t \<longleftrightarrow> (s, e, t) \<in> set (chart_edges request_doc)"
  unfolding request_spec_def by (rule chart_step_edges [OF request_distinct])

section \<open>\<open>nivasa.module.scxml\<close>\<close>

definition module_scxml :: "XmlEvent list" where
  "module_scxml =
    [XStart ''scxml'' [Inr (''xmlns'', ''http://www.w3.org/2005/07/scxml''), Inr (''version'', ''1.0''), Inr (''name'', ''NivasaModule''), Inr (''initial'', ''unloaded''), Inr (''datamodel'', ''rust'')],
     XStart ''state'' [Inr (''id'', ''unloaded'')],
     XEmpty ''transition'' [Inr (''event'', ''module.load''), Inr (''target'', ''loading'')],
     XEnd ''state'',
     XStart ''state'' [Inr (''id'', ''loading''), Inr (''initial'', ''resolving_imports'')],
     XStart ''state'' [Inr (''id'', ''resolving_imports'')],
     XStart ''onentry'' [],
     XEmpty ''log'' [Inr (''expr'', ''message'')],
     XEnd ''onentry'',
     XEmpty ''transition'' [Inr (''event'', ''imports.resolved''), Inr (''target'', ''registering_providers'')],
     XEmpty ''transition'' [Inr (''event'', ''error.import.missing''), Inr (''target'', ''load_failed'')],
     XEnd ''state'',
     XStart ''state'' [Inr (''id'', ''registering_providers'')],
     XStart ''onentry'' [],
     XEmpty ''log'' [Inr (''expr'', ''message'')],
     XEnd ''onentry'',
     XEmpty ''transition'' [Inr (''event'', ''providers.registered''), Inr (''target'', ''resolving_dependencies'')],
     XEnd ''state'',
     XStart ''state'' [Inr (''id'', ''resolving_dependencies'')],
     XStart ''onentry'' [],
     XEmpty ''log'' [Inr (''expr'', ''message'')],
     XEnd ''onentry'',
     XEmpty ''transition'' [Inr (''event'', ''dependencies.resolved''), Inr (''target'', ''loaded'')],
     XEmpty ''transition'' [Inr (''event'', ''error.di.circular''), Inr (''target'', ''load_failed'')],
     XEmpty ''transition'' [Inr (''event'', ''error.di.missing_provider''), Inr (''target'', ''load_failed'')],
     XEnd ''state'',
     XEnd ''state'',
     XStart ''state'' [Inr (''id'', ''loaded'')],
     XEmpty ''transition'' [Inr (''event'', ''module.init''), Inr (''target'', ''initialized'')],
     XEnd ''state'',
     XStart ''state'' [Inr (''id'', ''initialized'')],
     XStart ''onentry'' [],
     XEmpty ''log'' [Inr (''expr'', ''message'')],
     XEnd ''onentry'',
     XEmpty ''transition'' [Inr (''event'', ''module.activate''), Inr (''target'', ''active'')],
     XEnd ''state'',
     XStart ''state'' [Inr (''id'', ''active'')],
     XEmpty ''transition'' [Inr (''event'', ''module.destroy''), Inr (''target'', ''destroying'')],
     XEnd ''state'',
     XStart ''state'' [Inr (''id'', ''destroying'')],
     XStart ''onentry'' [],
     XEmpty ''log'' [Inr (''expr'', ''message'')],
     XEnd ''onentry'',
     XEmpty ''transition'' [Inr (''event'', ''destroy.complete''), Inr (''target'', ''destroyed'')],
     XEnd ''state'',
     XStart ''state'' [Inr (''id'', ''load_failed'')],
     XStart ''onentry'' [],
     XEmpty ''log'' [Inr (''expr'', ''message'')],
     XEnd ''onentry'',
     XEmpty ''transition'' [Inr (''event'', ''module.abort''), Inr (''target'', ''failed'')],
     XEnd ''state'',
     XEmpty ''final'' [Inr (''id'', ''destroyed'')],
     XEmpty ''final'' [Inr (''id'', ''failed'')],
     XEnd ''scxml'']"

definition module_doc :: ScxmlDocument where
  "module_doc =
    \<lparr>doc_metadata = \<lparr>md_name = Some ''NivasaModule'', md_version = ''1.0'', md_initial = Some ''unloaded'', md_datamodel = Some ''rust''\<rparr>,
     doc_states =
      [(''unloaded'', \<lparr>st_id = ''unloaded'', st_type = Atomic, st_parent = None, st_children = [],
        st_initial = None, st_transitions =
          [\<lparr>tr_event = Some ''module.load'', tr_cond = None, tr_target = [''loading''], tr_type = External\<rparr>],
        st_has_on_entry = False, st_has_on_exit = False, st_invoke = []\<rparr>),
       (''loading'', \<lparr>st_id = ''loading'', st_type = Compound, st_parent = None, st_children = [''resolving_imports'', ''registering_providers'', ''resolving_dependencies''],
        st_initial = Some ''resolving_imports'', st_transitions =
          [],
        st_has_on_entry = False, st_has_on_exit = False, st_invoke = []\<rparr>),
       (''resolving_imports'', \<lparr>st_id = ''resolving_imports'', st_type = Atomic, st_parent = Some ''loading'', st_children = [],
        st_initial = None, st_transitions =
          [\<lparr>tr_event = Some ''imports.resolved'', tr_cond = None, tr_target = [''registering_providers''], tr_type = External\<rparr>,
           \<lparr>tr_event = Some ''error.import.missing'', tr_cond = None, tr_target = [''load_failed''], tr_type = External\<rparr>],
        st_has_on_entry = True, st_has_on_exit = False, st_invoke = []\<rparr>),
       (''registering_providers'', \<lparr>st_id = ''registering_providers'', st_type = Atomic, st_parent = Some ''loading'', st_children = [],
        st_initial = None, st_transitions =
          [\<lparr>tr_event = Some ''providers.registered'', tr_cond = None, tr_target = [''resolving_dependencies''], tr_type = External\<rparr>],
        st_has_on_entry = True, st_has_on_exit = False, st_invoke = []\<rparr>),
       (''resolving_dependencies'', \<lparr>st_id = ''resolving_dependencies'', st_type = Atomic, st_parent = Some ''loading'', st_children = [],
        st_initial = None, st_transitions =
          [\<lparr>tr_event = Some ''dependencies.resolved'', tr_cond = None, tr_target = [''loaded''], tr_type = External\<rparr>,
           \<lparr>tr_event = Some ''error.di.circular'', tr_cond = None, tr_target = [''load_failed''], tr_type = External\<rparr>,
           \<lparr>tr_event = Some ''error.di.missing_provider'', tr_cond = None, tr_target = [''load_failed''], tr_type = External\<rparr>],
        st_has_on_entry = True, st_has_on_exit = False, st_invoke = []\<rparr>),
       (''loaded'', \<lparr>st_id = ''loaded'', st_type = Atomic, st_parent = None, st_children = [],
        st_initial = None, st_transitions =
          [\<lparr>tr_event = Some ''module.init'', tr_cond = None, tr_target = [''initialized''], tr_type = External\<rparr>],
        st_has_on_entry = False, st_has_on_exit = False, st_invoke = []\<rparr>),
       (''initialized'', \<lparr>st_id = ''initialized'', st_type = Atomic, st_parent = None, st_children = [],
        st_initial = None, st_transitions =
          [\<lparr>tr_event = Some ''module.activate'', tr_cond = None, tr_target = [''active''], tr_type = External\<rparr>],
        st_has_on_entry = True, st_has_on_exit = False, st_invoke = []\<rparr>),
       (''active'', \<lparr>st_id = ''active'', st_type = Atomic, st_parent = None, st_children = [],
        st_initial = None, st_transitions =
          [\<lparr>tr_event = Some ''module.destroy'', tr_cond = None, tr_target = [''destroying''], tr_type = External\<rparr>],
        st_has_on_entry = False, st_has_on_exit = False, st_invoke = []\<rparr>),
       (''destroying'', \<lparr>st_id = ''destroying'', st_type = Atomic, st_parent = None, st_children = [],
        st_initial = None, st_transitions =
          [\<lparr>tr_event = Some ''destroy.complete'', tr_cond = None, tr_target = [''destroyed''], tr_type = External\<rparr>],
        st_has_on_entry = True, st_has_on_exit = False, st_invoke = []\<rparr>),
       (''load_failed'', \<lparr>st_id = ''load_failed'', st_type = Atomic, st_parent = None, st_children = [],
        st_initial = None, st_transitions =
          [\<lparr>tr_event = Some ''module.abort'', tr_cond = None, tr_target = [''failed''], tr_type = External\<rparr>],
        st_has_on_entry = True, st_has_on_exit = False, st_invoke = []\<rparr>),
       (''destroyed'', \<lparr>st_id = ''destroyed'', st_type = Final, st_parent = None, st_children = [],
        st_initial = None, st_transitions =
          [],
        st_has_on_entry = False, st_has_on_exit = False, st_invoke = []\<rparr>),
       (''failed'', \<lparr>st_id = ''failed'', st_type = Final, st_parent = None, st_children = [],
        st_initial = None, st_transitions =
          [],
        st_has_on_entry = False, st_has_on_exit = False, st_invoke = []\<rparr>)],
     doc_top_level = [''unloaded'', ''loading'', ''loaded'', ''initialized'', ''active'', ''destroying'', ''load_failed'', ''destroyed'', ''failed''], doc_history = []\<rparr>"

definition module_spec :: "string \<Rightarrow> (string, string) StatechartSpec" where
  "module_spec hash = gen_spec hash module_doc"

lemma module_parsed: "from_events module_scxml = Inr module_doc"
  by code_simp

lemma module_validated: "is_valid (validate module_doc)"
  by code_simp

lemma module_arms:
  "transition_arms module_doc =
    [(''Active'', ''ModuleDestroy'', ''Destroying''),
     (''Destroying'', ''DestroyComplete'', ''Destroyed''),
     (''Initialized'', ''ModuleActivate'', ''Active''),
     (''LoadFailed'', ''ModuleAbort'', ''Failed''),
     (''Loaded'', ''ModuleInit'', ''Initialized''),
     (''RegisteringProviders'', ''ProvidersRegistered'', ''ResolvingDependencies''),
     (''ResolvingDependencies'', ''DependenciesResolved'', ''Loaded''),
     (''ResolvingDependencies'', ''ErrorDiCircular'', ''LoadFailed''),
     (''ResolvingDependencies'', ''ErrorDiMissingProvider'', ''LoadFailed''),
     (''ResolvingImports'', ''ImportsResolved'', ''RegisteringProviders''),
     (''ResolvingImports'', ''ErrorImportMissing'', ''LoadFailed''),
     (''Unloaded'', ''ModuleLoad'', ''Loading'')]"
  by code_simp

lemma module_initials:
  "initial_arms module_doc = [(''Loading'', ''ResolvingImports'')]"
  by code_simp

lemma module_finals: "final_arms module_doc = [''Destroyed'', ''Failed'']"
  by code_simp

lemma module_chart_ok: "chart_ok module_doc"
  by code_simp

interpretation module_gen: generated_chart module_doc
  by unfold_locales (rule module_chart_ok)

interpretation module_chart: statechart_spec "module_spec hash" for hash
  unfolding module_spec_def by (rule chart_ok_spec [OF module_chart_ok])

lemma module_edges:
  "chart_edges module_doc =
    [(''Active'', ''ModuleDestroy'', ''Destroying''),
     (''Destroying'', ''DestroyComplete'', ''Destroyed''),
     (''Initialized'', ''ModuleActivate'', ''Active''),
     (''LoadFailed'', ''ModuleAbort'', ''Failed''),
     (''Loaded'', ''ModuleInit'', ''Initialized''),
     (''RegisteringProviders'', ''ProvidersRegistered'', ''ResolvingDependencies''),
     (''ResolvingDependencies'', ''DependenciesResolved'', ''Loaded''),
     (''ResolvingDependencies'', ''ErrorDiCircular'', ''LoadFailed''),
     (''ResolvingDependencies'', ''ErrorDiMissingProvider'', ''LoadFailed''),
     (''ResolvingImports'', ''ImportsResolved'', ''RegisteringProviders''),
     (''ResolvingImports'', ''ErrorImportMissing'', ''LoadFailed''),
     (''Unloaded'', ''ModuleLoad'', ''ResolvingImports'')]"
  by code_simp

lemma module_distinct: "distinct (map (\<lambda>(s, e, t). (s, e)) (transition_arms module_doc))"
  unfolding module_arms by code_simp

lemma module_step: "chart_step (module_spec hash) s e t \<longleftrightarrow> (s, e, t) \<in> set (chart_edges module_doc)"
  unfolding module_spec_def by (rule chart_step_edges [OF module_distinct])

section \<open>\<open>nivasa.provider.scxml\<close>\<close>

definition provider_scxml :: "XmlEvent list" where
  "provider_scxml =
    [XStart ''scxml'' [Inr (''xmlns'', ''http://www.w3.org/2005/07/scxml''), Inr (''version'', ''1.0''), Inr (''name'', ''NivasaProvider''), Inr (''initial'', ''unregistered''), Inr (''datamodel'', ''rust'')],
     XStart ''state'' [Inr (''id'', ''unregistered'')],
     XEmpty ''transition'' [Inr (''event'', ''provider.register''), Inr (''target'', ''registered'')],
     XEnd ''state'',
     XStart ''state'' [Inr (''id'', ''registered'')],
     XEmpty ''transition'' [Inr (''event'', ''provider.resolve''), Inr (''target'', ''resolving'')],
     XEnd ''state'',
     XStart ''state'' [Inr (''id'', ''resolving'')],
     XStart ''onentry'' [],
     XEmpty ''log'' [Inr (''expr'', ''message'')],
     XEnd ''onentry'',
     XEmpty ''transition'' [Inr (''event'', ''dependencies.ready''), Inr (''target'', ''constructing'')],
     XEmpty ''transition'' [Inr (''event'', ''error.dependency.missing''), Inr (''target'', ''resolution_failed'')],
     XEmpty ''transition'' [Inr (''event'', ''error.dependency.circular''), Inr (''target'', ''resolution_failed'')],
     XEnd ''state'',
     XStart ''state'' [Inr (''id'', ''constructing'')],
     XStart ''onentry'' [],
     XEmpty ''log'' [Inr (''expr'', ''message'')],
     XEnd ''onentry'',
     XEmpty ''transition'' [Inr (''event'', ''provider.constructed''), Inr (''target'', ''resolved'')],
     XEmpty ''transition'' [Inr (''event'', ''error.construction''), Inr (''target'', ''resolution_failed'')],
     XEnd ''state'',
     XStart ''state'' [Inr (''id'', ''resolved'')],
     XEmpty ''transition'' [Inr (''event'', ''provider.dispose''), Inr (''target'', ''disposing'')],
     XEnd ''state'',
     XStart ''state'' [Inr (''id'', ''disposing'')],
     XStart ''onentry'' [],
     XEmpty ''log'' [Inr (''expr'', ''message'')],
     XEnd ''onentry'',
     XEmpty ''transition'' [Inr (''event'', ''provider.disposed''), Inr (''target'', ''disposed'')],
     XEnd ''state'',
     XStart ''state'' [Inr (''id'', ''resolution_failed'')],
     XStart ''onentry'' [],
     XEmpty ''log'' [Inr (''expr'', ''message'')],
     XEnd ''onentry'',
     XEmpty ''transition'' [Inr (''event'', ''provider.abort''), Inr (''target'', ''failed'')],
     XEnd ''state'',
     XEmpty ''final'' [Inr (''id'', ''disposed'')],
     XEmpty ''final'' [Inr (''id'', ''failed'')],
     XEnd ''scxml'']"

definition provider_doc :: ScxmlDocument where
  "provider_doc =
    \<lparr>doc_metadata = \<lparr>md_name = Some ''NivasaProvider'', md_version = ''1.0'', md_initial = Some ''unregistered'', md_datamodel = Some ''rust''\<rparr>,
     doc_states =
      [(''unregistered'', \<lparr>st_id = ''unregistered'', st_type = Atomic, st_parent = None, st_children = [],
        st_initial = None, st_transitions =
          [\<lparr>tr_event = Some ''provider.register'', tr_cond = None, tr_target = [''registered''], tr_type = External\<rparr>],
        st_has_on_entry = False, st_has_on_exit = False, st_invoke = []\<rparr>),
       (''registered'', \<lparr>st_id = ''registered'', st_type = Atomic, st_parent = None, st_children = [],
        st_initial = None, st_transitions =
          [\<lparr>tr_event = Some ''provider.resolve'', tr_cond = None, tr_target = [''resolving''], tr_type = External\<rparr>],
        st_has_on_entry = False, st_has_on_exit = False, st_invoke = []\<rparr>),
       (''resolving'', \<lparr>st_id = ''resolving'', st_type = Atomic, st_parent = None, st_children = [],
        st_initial = None, st_transitions =
          [\<lparr>tr_event = Some ''dependencies.ready'', tr_cond = None, tr_target = [''constructing''], tr_type = External\<rparr>,
           \<lparr>tr_event = Some ''error.dependency.missing'', tr_cond = None, tr_target = [''resolution_failed''], tr_type = External\<rparr>,
           \<lparr>tr_event = Some ''error.dependency.circular'', tr_cond = None, tr_target = [''resolution_failed''], tr_type = External\<rparr>],
        st_has_on_entry = True, st_has_on_exit = False, st_invoke = []\<rparr>),
       (''constructing'', \<lparr>st_id = ''constructing'', st_type = Atomic, st_parent = None, st_children = [],
        st_initial = None, st_transitions =
          [\<lparr>tr_event = Some ''provider.constructed'', tr_cond = None, tr_target = [''resolved''], tr_type = External\<rparr>,
           \<lparr>tr_event = Some ''error.construction'', tr_cond = None, tr_target = [''resolution_failed''], tr_type = External\<rparr>],
        st_has_on_entry = True, st_has_on_exit = False, st_invoke = []\<rparr>),
       (''resolved'', \<lparr>st_id = ''resolved'', st_type = Atomic, st_parent = None, st_children = [],
        st_initial = None, st_transitions =
          [\<lparr>tr_event = Some ''provider.dispose'', tr_cond = None, tr_target = [''disposing''], tr_type = External\<rparr>],
        st_has_on_entry = False, st_has_on_exit = False, st_invoke = []\<rparr>),
       (''disposing'', \<lparr>st_id = ''disposing'', st_type = Atomic, st_parent = None, st_children = [],
        st_initial = None, st_transitions =
          [\<lparr>tr_event = Some ''provider.disposed'', tr_cond = None, tr_target = [''disposed''], tr_type = External\<rparr>],
        st_has_on_entry = True, st_has_on_exit = False, st_invoke = []\<rparr>),
       (''resolution_failed'', \<lparr>st_id = ''resolution_failed'', st_type = Atomic, st_parent = None, st_children = [],
        st_initial = None, st_transitions =
          [\<lparr>tr_event = Some ''provider.abort'', tr_cond = None, tr_target = [''failed''], tr_type = External\<rparr>],
        st_has_on_entry = True, st_has_on_exit = False, st_invoke = []\<rparr>),
       (''disposed'', \<lparr>st_id = ''disposed'', st_type = Final, st_parent = None, st_children = [],
        st_initial = None, st_transitions =
          [],
        st_has_on_entry = False, st_has_on_exit = False, st_invoke = []\<rparr>),
       (''failed'', \<lparr>st_id = ''failed'', st_type = Final, st_parent = None, st_children = [],
        st_initial = None, st_transitions =
          [],
        st_has_on_entry = False, st_has_on_exit = False, st_invoke = []\<rparr>)],
     doc_top_level = [''unregistered'', ''registered'', ''resolving'', ''constructing'', ''resolved'', ''disposing'', ''resolution_failed'', ''disposed'', ''failed''], doc_history = []\<rparr>"

definition provider_spec :: "string \<Rightarrow> (string, string) StatechartSpec" where
  "provider_spec hash = gen_spec hash provider_doc"

lemma provider_parsed: "from_events provider_scxml = Inr provider_doc"
  by code_simp

lemma provider_validated: "is_valid (validate provider_doc)"
  by code_simp

lemma provider_arms:
  "transition_arms provider_doc =
    [(''Constructing'', ''ProviderConstructed'', ''Resolved''),
     (''Constructing'', ''ErrorConstruction'', ''ResolutionFailed''),
     (''Disposing'', ''ProviderDisposed'', ''Disposed''),
     (''Registered'', ''ProviderResolve'', ''Resolving''),
     (''ResolutionFailed'', ''ProviderAbort'', ''Failed''),
     (''Resolved'', ''ProviderDispose'', ''Disposing''),
     (''Resolving'', ''DependenciesReady'', ''Constructing''),
     (''Resolving'', ''ErrorDependencyMissing'', ''ResolutionFailed''),
     (''Resolving'', ''ErrorDependencyCircular'', ''ResolutionFailed''),
     (''Unregistered'', ''ProviderRegister'', ''Registered'')]"
  by code_simp

lemma provider_initials:
  "initial_arms provider_doc = []"
  by code_simp

lemma provider_finals: "final_arms provider_doc = [''Disposed'', ''Failed'']"
  by code_simp

lemma provider_chart_ok: "chart_ok provider_doc"
  by code_simp

interpretation provider_gen: generated_chart provider_doc
  by unfold_locales (rule provider_chart_ok)

interpretation provider_chart: statechart_spec "provider_spec hash" for hash
  unfolding provider_spec_def by (rule chart_ok_spec [OF provider_chart_ok])

lemma provider_edges:
  "chart_edges provider_doc =
    [(''Constructing'', ''ProviderConstructed'', ''Resolved''),
     (''Constructing'', ''ErrorConstruction'', ''ResolutionFailed''),
     (''Disposing'', ''ProviderDisposed'', ''Disposed''),
     (''Registered'', ''ProviderResolve'', ''Resolving''),
     (''ResolutionFailed'', ''ProviderAbort'', ''Failed''),
     (''Resolved'', ''ProviderDispose'', ''Disposing''),
     (''Resolving'', ''DependenciesReady'', ''Constructing''),
     (''Resolving'', ''ErrorDependencyMissing'', ''ResolutionFailed''),
     (''Resolving'', ''ErrorDependencyCircular'', ''ResolutionFailed''),
     (''Unregistered'', ''ProviderRegister'', ''Registered'')]"
  by code_simp

lemma provider_distinct: "distinct (map (\<lambda>(s, e, t). (s, e)) (transition_arms provider_doc))"
  unfolding provider_arms by code_simp

lemma provider_step: "chart_step (provider_spec hash) s e t \<longleftrightarrow> (s, e, t) \<in> set (chart_edges provider_doc)"
  unfolding provider_spec_def by (rule chart_step_edges [OF provider_distinct])

section \<open>\<open>nivasa.application.scxml\<close>\<close>

definition application_scxml :: "XmlEvent list" where
  "application_scxml =
    [XStart ''scxml'' [Inr (''xmlns'', ''http://www.w3.org/2005/07/scxml''), Inr (''version'', ''1.0''), Inr (''name'', ''NivasaApplication''), Inr (''initial'', ''created''), Inr (''datamodel'', ''rust'')],
     XStart ''state'' [Inr (''id'', ''created'')],
     XStart ''onentry'' [],
     XEmpty ''log'' [Inr (''expr'', ''message'')],
     XEnd ''onentry'',
     XEmpty ''transition'' [Inr (''event'', ''app.bootstrap''), Inr (''target'', ''bootstrapping'')],
     XEnd ''state'',
     XStart ''state'' [Inr (''id'', ''bootstrapping''), Inr (''initial'', ''resolving_modules'')],
     XStart ''state'' [Inr (''id'', ''resolving_modules'')],
     XStart ''onentry'' [],
     XEmpty ''log'' [Inr (''expr'', ''message'')],
     XEnd ''onentry'',
     XEmpty ''transition'' [Inr (''event'', ''modules.resolved''), Inr (''target'', ''initializing_modules'')],
     XEmpty ''transition'' [Inr (''event'', ''error.module.circular_dependency''), Inr (''target'', ''bootstrap_failed'')],
     XEnd ''state'',
     XStart ''state'' [Inr (''id'', ''initializing_modules'')],
     XStart ''onentry'' [],
     XEmpty ''log'' [Inr (''expr'', ''message'')],
     XEnd ''onentry'',
     XEmpty ''transition'' [Inr (''event'', ''modules.initialized''), Inr (''target'', ''registering_routes'')],
     XEmpty ''transition'' [Inr (''event'', ''error.module.init_failed''), Inr (''target'', ''bootstrap_failed'')],
     XEnd ''state'',
     XStart ''state'' [Inr (''id'', ''registering_routes'')],
     XStart ''onentry'' [],
     XEmpty ''log'' [Inr (''expr'', ''message'')],
     XEnd ''onentry'',
     XEmpty ''transition'' [Inr (''event'', ''routes.registered''), Inr (''target'', ''applying_global_config'')],
     XEmpty ''transition'' [Inr (''event'', ''error.route.conflict''), Inr (''target'', ''bootstrap_failed'')],
     XEnd ''state'',
     XStart ''state'' [Inr (''id'', ''applying_global_config'')],
     XStart ''onentry'' [],
     XEmpty ''log'' [Inr (''expr'', ''message'')],
     XEnd ''onentry'',
     XEmpty ''transition'' [Inr (''event'', ''config.applied''), Inr (''target'', ''bootstrap_complete'')],
     XEnd ''state'',
     XStart ''state'' [Inr (''id'', ''bootstrap_complete'')],
     XEmpty ''transition'' [Inr (''event'', ''app.start''), Inr (''target'', ''running'')],
     XEnd ''state'',
     XStart ''state'' [Inr (''id'', ''bootstrap_failed'')],
     XStart ''onentry'' [],
     XEmpty ''log'' [Inr (''expr'', ''message'')],
     XEnd ''onentry'',
     XEmpty ''transition'' [Inr (''event'', ''app.abort''), Inr (''target'', ''terminated'')],
     XEnd ''state'',
     XEnd ''state'',
     XStart ''state'' [Inr (''id'', ''running''), Inr (''initial'', ''listening'')],
     XStart ''onentry'' [],
     XEmpty ''log'' [Inr (''expr'', ''message'')],
     XEnd ''onentry'',
     XStart ''state'' [Inr (''id'', ''listening'')],
     XEmpty ''transition'' [Inr (''event'', ''app.shutdown''), Inr (''target'', ''draining'')],
     XEnd ''state'',
     XStart ''state'' [Inr (''id'', ''draining'')],
     XStart ''onentry'' [],
     XEmpty ''log'' [Inr (''expr'', ''message'')],
     XEnd ''onentry'',
     XEmpty ''transition'' [Inr (''event'', ''app.drain_complete''), Inr (''target'', ''shutting_down'')],
     XEnd ''state'',
     XStart ''onexit'' [],
     XEmpty ''log'' [Inr (''expr'', ''message'')],
     XEnd ''onexit'',
     XEnd ''state'',
     XStart ''state'' [Inr (''id'', ''shutting_down''), Inr (''initial'', ''destroying_modules'')],
     XStart ''state'' [Inr (''id'', ''destroying_modules'')],
     XStart ''onentry'' [],
     XEmpty ''log'' [Inr (''expr'', ''message'')],
     XEnd ''onentry'',
     XEmpty ''transition'' [Inr (''event'', ''modules.destroyed''), Inr (''target'', ''cleanup'')],
     XEnd ''state'',
     XStart ''state'' [Inr (''id'', ''cleanup'')],
     XStart ''onentry'' [],
     XEmpty ''log'' [Inr (''expr'', ''message'')],
     XEnd ''onentry'',
     XEmpty ''transition'' [Inr (''event'', ''cleanup.done''), Inr (''target'', ''shutdown_complete'')],
     XEnd ''state'',
     XEmpty ''final'' [Inr (''id'', ''shutdown_complete'')],
     XEnd ''state'',
     XEmpty ''final'' [Inr (''id'', ''terminated'')],
     XEnd ''scxml'']"

definition application_doc :: ScxmlDocument where
  "application_doc =
    \<lparr>doc_metadata = \<lparr>md_name = Some ''NivasaApplication'', md_version = ''1.0'', md_initial = Some ''created'', md_datamodel = Some ''rust''\<rparr>,
     doc_states =
      [(''created'', \<lparr>st_id = ''created'', st_type = Atomic, st_parent = None, st_children = [],
        st_initial = None, st_transitions =
          [\<lparr>tr_event = Some ''app.bootstrap'', tr_cond = None, tr_target = [''bootstrapping''], tr_type = External\<rparr>],
        st_has_on_entry = True, st_has_on_exit = False, st_invoke = []\<rparr>),
       (''bootstrapping'', \<lparr>st_id = ''bootstrapping'', st_type = Compound, st_parent = None, st_children = [''resolving_modules'', ''initializing_modules'', ''registering_routes'', ''applying_global_config'', ''bootstrap_complete'', ''bootstrap_failed''],
        st_initial = Some ''resolving_modules'', st_transitions =
          [],
        st_has_on_entry = False, st_has_on_exit = False, st_invoke = []\<rparr>),
       (''resolving_modules'', \<lparr>st_id = ''resolving_modules'', st_type = Atomic, st_parent = Some ''bootstrapping'', st_children = [],
        st_initial = None, st_transitions =
          [\<lparr>tr_event = Some ''modules.resolved'', tr_cond = None, tr_target = [''initializing_modules''], tr_type = External\<rparr>,
           \<lparr>tr_event = Some ''error.module.circular_dependency'', tr_cond = None, tr_target = [''bootstrap_failed''], tr_type = External\<rparr>],
        st_has_on_entry = True, st_has_on_exit = False, st_invoke = []\<rparr>),
       (''initializing_modules'', \<lparr>st_id = ''initializing_modules'', st_type = Atomic, st_parent = Some ''bootstrapping'', st_children = [],
        st_initial = None, st_transitions =
          [\<lparr>tr_event = Some ''modules.initialized'', tr_cond = None, tr_target = [''registering_routes''], tr_type = External\<rparr>,
           \<lparr>tr_event = Some ''error.module.init_failed'', tr_cond = None, tr_target = [''bootstrap_failed''], tr_type = External\<rparr>],
        st_has_on_entry = True, st_has_on_exit = False, st_invoke = []\<rparr>),
       (''registering_routes'', \<lparr>st_id = ''registering_routes'', st_type = Atomic, st_parent = Some ''bootstrapping'', st_children = [],
        st_initial = None, st_transitions =
          [\<lparr>tr_event = Some ''routes.registered'', tr_cond = None, tr_target = [''applying_global_config''], tr_type = External\<rparr>,
           \<lparr>tr_event = Some ''error.route.conflict'', tr_cond = None, tr_target = [''bootstrap_failed''], tr_type = External\<rparr>],
        st_has_on_entry = True, st_has_on_exit = False, st_invoke = []\<rparr>),
       (''applying_global_config'', \<lparr>st_id = ''applying_global_config'', st_type = Atomic, st_parent = Some ''bootstrapping'', st_children = [],
        st_initial = None, st_transitions =
          [\<lparr>tr_event = Some ''config.applied'', tr_cond = None, tr_target = [''bootstrap_complete''], tr_type = External\<rparr>],
        st_has_on_entry = True, st_has_on_exit = False, st_invoke = []\<rparr>),
       (''bootstrap_complete'', \<lparr>st_id = ''bootstrap_complete'', st_type = Atomic, st_parent = Some ''bootstrapping'', st_children = [],
        st_initial = None, st_transitions =
          [\<lparr>tr_event = Some ''app.start'', tr_cond = None, tr_target = [''running''], tr_type = External\<rparr>],
        st_has_on_entry = False, st_has_on_exit = False, st_invoke = []\<rparr>),
       (''bootstrap_failed'', \<lparr>st_id = ''bootstrap_failed'', st_type = Atomic, st_parent = Some ''bootstrapping'', st_children = [],
        st_initial = None, st_transitions =
          [\<lparr>tr_event = Some ''app.abort'', tr_cond = None, tr_target = [''terminated''], tr_type = External\<rparr>],
        st_has_on_entry = True, st_has_on_exit = False, st_invoke = []\<rparr>),
       (''running'', \<lparr>st_id = ''running'', st_type = Compound, st_parent = None, st_children = [''listening'', ''draining''],
        st_initial = Some ''listening'', st_transitions =
          [],
        st_has_on_entry = True, st_has_on_exit = True, st_invoke = []\<rparr>),
       (''listening'', \<lparr>st_id = ''listening'', st_type = Atomic, st_parent = Some ''running'', st_children = [],
        st_initial = None, st_transitions =
          [\<lparr>tr_event = Some ''app.shutdown'', tr_cond = None, tr_target = [''draining''], tr_type = External\<rparr>],
        st_has_on_entry = False, st_has_on_exit = False, st_invoke = []\<rparr>),
       (''draining'', \<lparr>st_id = ''draining'', st_type = Atomic, st_parent = Some ''running'', st_children = [],
        st_initial = None, st_transitions =
          [\<lparr>tr_event = Some ''app.drain_complete'', tr_cond = None, tr_target = [''shutting_down''], tr_type = External\<rparr>],
        st_has_on_entry = True, st_has_on_exit = False, st_invoke = []\<rparr>),
       (''shutting_down'', \<lparr>st_id = ''shutting_down'', st_type = Compound, st_parent = None, st_children = [''destroying_modules'', ''cleanup'', ''shutdown_complete''],
        st_initial = Some ''destroying_modules'', st_transitions =
          [],
        st_has_on_entry = False, st_has_on_exit = False, st_invoke = []\<rparr>),
       (''destroying_modules'', \<lparr>st_id = ''destroying_modules'', st_type = Atomic, st_parent = Some ''shutting_down'', st_children = [],
        st_initial = None, st_transitions =
          [\<lparr>tr_event = Some ''modules.destroyed'', tr_cond = None, tr_target = [''cleanup''], tr_type = External\<rparr>],
        st_has_on_entry = True, st_has_on_exit = False, st_invoke = []\<rparr>),
       (''cleanup'', \<lparr>st_id = ''cleanup'', st_type = Atomic, st_parent = Some ''shutting_down'', st_children = [],
        st_initial = None, st_transitions =
          [\<lparr>tr_event = Some ''cleanup.done'', tr_cond = None, tr_target = [''shutdown_complete''], tr_type = External\<rparr>],
        st_has_on_entry = True, st_has_on_exit = False, st_invoke = []\<rparr>),
       (''shutdown_complete'', \<lparr>st_id = ''shutdown_complete'', st_type = Final, st_parent = Some ''shutting_down'', st_children = [],
        st_initial = None, st_transitions =
          [],
        st_has_on_entry = False, st_has_on_exit = False, st_invoke = []\<rparr>),
       (''terminated'', \<lparr>st_id = ''terminated'', st_type = Final, st_parent = None, st_children = [],
        st_initial = None, st_transitions =
          [],
        st_has_on_entry = False, st_has_on_exit = False, st_invoke = []\<rparr>)],
     doc_top_level = [''created'', ''bootstrapping'', ''running'', ''shutting_down'', ''terminated''], doc_history = []\<rparr>"

definition application_spec :: "string \<Rightarrow> (string, string) StatechartSpec" where
  "application_spec hash = gen_spec hash application_doc"

lemma application_parsed: "from_events application_scxml = Inr application_doc"
  by code_simp

lemma application_validated: "is_valid (validate application_doc)"
  by code_simp

lemma application_arms:
  "transition_arms application_doc =
    [(''ApplyingGlobalConfig'', ''ConfigApplied'', ''BootstrapComplete''),
     (''BootstrapComplete'', ''AppStart'', ''Running''),
     (''BootstrapFailed'', ''AppAbort'', ''Terminated''),
     (''Cleanup'', ''CleanupDone'', ''ShutdownComplete''),
     (''Created'', ''AppBootstrap'', ''Bootstrapping''),
     (''DestroyingModules'', ''ModulesDestroyed'', ''Cleanup''),
     (''Draining'', ''AppDrainComplete'', ''ShuttingDown''),
     (''InitializingModules'', ''ModulesInitialized'', ''RegisteringRoutes''),
     (''InitializingModules'', ''ErrorModuleInitFailed'', ''BootstrapFailed''),
     (''Listening'', ''AppShutdown'', ''Draining''),
     (''RegisteringRoutes'', ''RoutesRegistered'', ''ApplyingGlobalConfig''),
     (''RegisteringRoutes'', ''ErrorRouteConflict'', ''BootstrapFailed''),
     (''ResolvingModules'', ''ModulesResolved'', ''InitializingModules''),
     (''ResolvingModules'', ''ErrorModuleCircularDependency'', ''BootstrapFailed'')]"
  by code_simp

lemma application_initials:
  "initial_arms application_doc = [(''Bootstrapping'', ''ResolvingModules''), (''Running'', ''Listening''), (''ShuttingDown'', ''DestroyingModules'')]"
  by code_simp

lemma application_finals: "final_arms application_doc = [''ShutdownComplete'', ''Terminated'']"
  by code_simp

lemma application_chart_ok: "chart_ok application_doc"
  by code_simp

interpretation application_gen: generated_chart application_doc
  by unfold_locales (rule application_chart_ok)

interpretation application_chart: statechart_spec "application_spec hash" for hash
  unfolding application_spec_def by (rule chart_ok_spec [OF application_chart_ok])

lemma application_edges:
  "chart_edges application_doc =
    [(''ApplyingGlobalConfig'', ''ConfigApplied'', ''BootstrapComplete''),
     (''BootstrapComplete'', ''AppStart'', ''Listening''),
     (''BootstrapFailed'', ''AppAbort'', ''Terminated''),
     (''Cleanup'', ''CleanupDone'', ''ShutdownComplete''),
     (''Created'', ''AppBootstrap'', ''ResolvingModules''),
     (''DestroyingModules'', ''ModulesDestroyed'', ''Cleanup''),
     (''Draining'', ''AppDrainComplete'', ''DestroyingModules''),
     (''InitializingModules'', ''ModulesInitialized'', ''RegisteringRoutes''),
     (''InitializingModules'', ''ErrorModuleInitFailed'', ''BootstrapFailed''),
     (''Listening'', ''AppShutdown'', ''Draining''),
     (''RegisteringRoutes'', ''RoutesRegistered'', ''ApplyingGlobalConfig''),
     (''RegisteringRoutes'', ''ErrorRouteConflict'', ''BootstrapFailed''),
     (''ResolvingModules'', ''ModulesResolved'', ''InitializingModules''),
     (''ResolvingModules'', ''ErrorModuleCircularDependency'', ''BootstrapFailed'')]"
  by code_simp

lemma application_distinct: "distinct (map (\<lambda>(s, e, t). (s, e)) (transition_arms application_doc))"
  unfolding application_arms by code_simp

lemma application_step: "chart_step (application_spec hash) s e t \<longleftrightarrow> (s, e, t) \<in> set (chart_edges application_doc)"
  unfolding application_spec_def by (rule chart_step_edges [OF application_distinct])

end
