(* ===== verification/Chart_Properties.thy ===== *)
theory Chart_Properties
  imports Statecharts
begin

text \<open>
  What the four charts guarantee: the only way to a handler, bounded and completable request runs, the
  only ways to an active module and a resolved provider, and where an application's life can end.
\<close>

section \<open>Unique runs\<close>

text \<open>Following the only incoming edge of each state backwards from \<open>t\<close> to a state \<open>s\<close> without incoming
  edges gives the only run from \<open>s\<close> to \<open>t\<close>.\<close>

fun unique_back :: "nat \<Rightarrow> (string \<times> string \<times> string) list \<Rightarrow> string \<Rightarrow> string \<Rightarrow> string list option" where
  "unique_back 0 E s t = None"
| "unique_back (Suc n) E s t =
     (case filter (\<lambda>(u, e, v). v = t) E of
        [] \<Rightarrow> if s = t then Some [] else None
      | [(u, e, v)] \<Rightarrow> if s = t then None else map_option (\<lambda>es. es @ [e]) (unique_back n E s u)
      | _ \<Rightarrow> None)"

lemma unique_back_run:
  assumes "\<And>u e v. chart_step spec u e v \<longleftrightarrow> (u, e, v) \<in> set E" "unique_back n E s t = Some es"
  shows "chart_path spec s evs t \<longleftrightarrow> evs = es"
  using assms(2)
proof (induction n arbitrary: t es evs)
  case (Suc n)
  show ?case
  proof (cases "filter (\<lambda>(u, e, v). v = t) E")
    case Nil
    then have "\<not> chart_step spec u e t" for u e by (auto simp: assms(1) filter_empty_conv)
    then show ?thesis
      using chart_path_source [of spec s evs t] Suc.prems Nil by (auto split: if_splits intro: chart_path.stop)
  next
    case (Cons x xs)
    with Suc.prems obtain u e where one: "filter (\<lambda>(u, e, v). v = t) E = [(u, e, t)]" "s \<noteq> t"
      and es: "\<exists>es'. es = es' @ [e] \<and> unique_back n E s u = Some es'"
      by (cases x; cases xs) (auto split: if_splits dest: filter_eq_ConsD)
    have edge: "(u', e', t) \<in> set E \<longleftrightarrow> u' = u \<and> e' = e" for u' e'
    proof -
      have "(u', e', t) \<in> set E \<longleftrightarrow> (u', e', t) \<in> set (filter (\<lambda>(u, e, v). v = t) E)" by simp
      then show ?thesis unfolding one(1) by auto
    qed
    from es obtain es' where es': "es = es' @ [e]" "unique_back n E s u = Some es'" by blast
    have "chart_path spec s evs t \<longleftrightarrow> (\<exists>evs'. evs = evs' @ [e] \<and> chart_path spec s evs' u)"
      using one(2) edge by (cases evs rule: rev_cases)
        (auto simp: chart_path_snoc_iff assms(1) elim: chart_path_NilE)
    with Suc.IH [OF es'(2)] es'(1) show ?thesis by auto
  qed
qed simp

lemma edges_closed:
  assumes "\<And>u e v. chart_step spec u e v \<longleftrightarrow> (u, e, v) \<in> set E"
    and "list_all (\<lambda>(u, e, v). u \<in> set V \<longrightarrow> v \<in> set V) E"
  shows "chart_path spec s es t \<Longrightarrow> s \<in> set V \<Longrightarrow> t \<in> set V"
  by (rule chart_path_closed [of "set V" spec]) (use assms in \<open>auto simp: list_all_iff\<close>)

section \<open>What the charts guarantee\<close>

definition request_rank :: "string \<Rightarrow> nat" where
  "request_rank s =
     (if s = ''Received'' then 10 else if s = ''MiddlewareChain'' then 9 else if s = ''RouteMatching'' then 8
      else if s = ''GuardChain'' then 7 else if s = ''InterceptorPre'' then 6 else if s = ''PipeTransform'' then 5
      else if s = ''HandlerExecution'' then 4 else if s = ''InterceptorPost'' then 3
      else if s = ''ErrorHandling'' then 2 else if s = ''SendingResponse'' then 1 else 0)"

definition request_states :: "string list" where
  "request_states =
     [''Received'', ''MiddlewareChain'', ''RouteMatching'', ''GuardChain'', ''InterceptorPre'', ''PipeTransform'',
      ''HandlerExecution'', ''InterceptorPost'', ''ErrorHandling'', ''SendingResponse'', ''Done'']"

lemma request_step_rank: "chart_step (request_spec hash) u e v \<Longrightarrow> request_rank v < request_rank u"
proof -
  have "list_all (\<lambda>(u, e, v). request_rank v < request_rank u) (chart_edges request_doc)"
    unfolding request_edges by code_simp
  then show "chart_step (request_spec hash) u e v \<Longrightarrow> request_rank v < request_rank u"
    by (auto simp: request_step list_all_iff)
qed

lemma request_step_closed:
  "chart_step (request_spec hash) u e v \<Longrightarrow> u \<in> set request_states \<and> v \<in> set request_states"
proof -
  have "list_all (\<lambda>(u, e, v). u \<in> set request_states \<and> v \<in> set request_states) (chart_edges request_doc)"
    unfolding request_edges by code_simp
  then show "chart_step (request_spec hash) u e v \<Longrightarrow> u \<in> set request_states \<and> v \<in> set request_states"
    by (auto simp: request_step list_all_iff)
qed

lemma request_step_exists:
  "u \<in> set request_states \<Longrightarrow> u \<noteq> ''Done'' \<Longrightarrow>
   \<exists>e v. chart_step (request_spec hash) u e v \<and> v \<in> set request_states"
proof -
  have "list_all (\<lambda>u. u = ''Done'' \<or> list_ex (\<lambda>(s, e, t). s = u) (chart_edges request_doc)) request_states"
    unfolding request_edges by code_simp
  then show "u \<in> set request_states \<Longrightarrow> u \<noteq> ''Done'' \<Longrightarrow>
      \<exists>e v. chart_step (request_spec hash) u e v \<and> v \<in> set request_states"
    using request_step_closed by (fastforce simp: request_step list_all_iff list_ex_iff)
qed

lemma handler_run:
  "chart_path (request_spec hash) ''Received'' events ''HandlerExecution'' \<longleftrightarrow>
   events = [''RequestParsed'', ''MiddlewareComplete'', ''RouteMatched'', ''GuardsPassed'',
             ''InterceptorsPreComplete'', ''PipesComplete'']"
  by (rule unique_back_run [OF request_step, of 10]) (unfold request_edges, code_simp)

text \<open>C6: the handler of a request runs only after the whole chain before it: the one sequence of events
  that leads from \<open>Received\<close> to \<open>HandlerExecution\<close> is parsing, middleware, route match, guards passed,
  pre-interceptors and pipes, in this order.\<close>

theorem handler_needs_full_chain:
  "chart_path (request_spec hash) ''Received'' events ''HandlerExecution'' \<longleftrightarrow>
   events = [''RequestParsed'', ''MiddlewareComplete'', ''RouteMatched'', ''GuardsPassed'',
             ''InterceptorsPreComplete'', ''PipesComplete'']"
  by (rule handler_run)

text \<open>C7: a request never gets stuck and never loops: every run of the request chart takes at most ten
  events, can be continued to \<open>Done\<close> within those ten, and once it is in \<open>ErrorHandling\<close> only the response
  remains.\<close>

theorem request_run_completes:
  assumes "chart_path (request_spec hash) ''Received'' events t"
  shows "(\<exists>more. chart_path (request_spec hash) t more ''Done'' \<and> length (events @ more) \<le> 10) \<and>
         (\<forall>more u. t = ''ErrorHandling'' \<and> chart_path (request_spec hash) t more u \<longrightarrow>
            u \<in> {''ErrorHandling'', ''SendingResponse'', ''Done''})"
proof -
  have states: "t \<in> set request_states"
    using chart_path_closed [of "set request_states" "request_spec hash", OF _ assms] request_step_closed
    by (auto simp: request_states_def)
  obtain more where more: "chart_path (request_spec hash) t more ''Done''"
    using chart_path_completes [of "request_spec hash" request_rank "set request_states" "''Done''"]
      request_step_rank request_step_exists states by blast
  have "chart_path (request_spec hash) ''Received'' (events @ more) ''Done''"
    using assms more by (rule chart_path_append)
  then have "length (events @ more) + request_rank ''Done'' \<le> request_rank ''Received''"
    by (rule chart_path_rank [rotated]) (rule request_step_rank)
  then have "length (events @ more) \<le> 10" by (simp add: request_rank_def)
  moreover have "u \<in> set [''ErrorHandling'', ''SendingResponse'', ''Done'']"
    if "chart_path (request_spec hash) ''ErrorHandling'' es u" for es u
    by (rule edges_closed [OF request_step _ that]) (unfold request_edges, code_simp, simp)
  ultimately show ?thesis using more by auto
qed

theorem request_run_completes_witness:
  "\<exists>more. chart_path (request_spec []) ''HandlerExecution'' more ''Done'' \<and> length more \<le> 4"
proof -
  have "chart_path (request_spec []) ''Received''
      [''RequestParsed'', ''MiddlewareComplete'', ''RouteMatched'', ''GuardsPassed'',
       ''InterceptorsPreComplete'', ''PipesComplete''] ''HandlerExecution''"
    by (simp add: handler_run)
  from request_run_completes [OF this] show ?thesis by auto
qed

text \<open>A module is active only after its whole life cycle: load, imports, providers, dependencies,
  initialisation and activation, in this order; and a load that failed can only be aborted.\<close>

theorem module_activation_sequence:
  "(chart_path (module_spec hash) ''Unloaded'' events ''Active'' \<longleftrightarrow>
    events = [''ModuleLoad'', ''ImportsResolved'', ''ProvidersRegistered'', ''DependenciesResolved'',
              ''ModuleInit'', ''ModuleActivate'']) \<and>
   (chart_path (module_spec hash) ''LoadFailed'' events t \<longleftrightarrow>
    (events, t) \<in> {([], ''LoadFailed''), ([''ModuleAbort''], ''Failed'')})"
proof
  show "chart_path (module_spec hash) ''Unloaded'' events ''Active'' \<longleftrightarrow>
    events = [''ModuleLoad'', ''ImportsResolved'', ''ProvidersRegistered'', ''DependenciesResolved'',
              ''ModuleInit'', ''ModuleActivate'']"
    by (rule unique_back_run [OF module_step, of 10]) (unfold module_edges, code_simp)
  have failed: "chart_path (module_spec hash) ''Failed'' es t \<longleftrightarrow> es = [] \<and> t = ''Failed''" for es
    by (cases es) (auto simp: module_step module_edges elim: chart_path_NilE chart_path_ConsE intro: chart_path.stop)
  show "chart_path (module_spec hash) ''LoadFailed'' events t \<longleftrightarrow>
    (events, t) \<in> {([], ''LoadFailed''), ([''ModuleAbort''], ''Failed'')}"
  proof (cases events)
    case Nil
    then show ?thesis by (auto elim: chart_path_NilE intro: chart_path.stop)
  next
    case (Cons e es)
    have "chart_path (module_spec hash) ''LoadFailed'' (e # es) t \<longleftrightarrow>
        (\<exists>u. chart_step (module_spec hash) ''LoadFailed'' e u \<and> chart_path (module_spec hash) u es t)"
      by (auto elim: chart_path_ConsE intro: chart_path.go)
    with Cons failed show ?thesis by (auto simp: module_step module_edges)
  qed
qed

text \<open>A provider instance is available only after registration, a resolve request, ready dependencies
  and a successful construction, in this order, and a disposed provider is never available again.\<close>

theorem provider_resolution_sequence:
  "(chart_path (provider_spec hash) ''Unregistered'' events ''Resolved'' \<longleftrightarrow>
    events = [''ProviderRegister'', ''ProviderResolve'', ''DependenciesReady'', ''ProviderConstructed'']) \<and>
   \<not> chart_path (provider_spec hash) ''Disposing'' events ''Resolved''"
proof
  show "chart_path (provider_spec hash) ''Unregistered'' events ''Resolved'' \<longleftrightarrow>
    events = [''ProviderRegister'', ''ProviderResolve'', ''DependenciesReady'', ''ProviderConstructed'']"
    by (rule unique_back_run [OF provider_step, of 10]) (unfold provider_edges, code_simp)
  have "t \<in> set [''Disposing'', ''Disposed'']" if "chart_path (provider_spec hash) ''Disposing'' events t" for t
    by (rule edges_closed [OF provider_step _ that]) (unfold provider_edges, code_simp, simp)
  then show "\<not> chart_path (provider_spec hash) ''Disposing'' events ''Resolved''" by fastforce
qed

text \<open>The application serves requests only after the complete bootstrap sequence. From there it can
  drain, destroy its modules and clean up, and it ends in the final state \<open>ShutdownComplete\<close>: the state
  \<open>Terminated\<close>, which the chart's comments describe as the end of every life, is reached only by aborting
  a failed bootstrap.\<close>

theorem application_life_cycle:
  "(chart_path (application_spec hash) ''Created'' events ''Listening'' \<longleftrightarrow>
    events = [''AppBootstrap'', ''ModulesResolved'', ''ModulesInitialized'', ''RoutesRegistered'',
              ''ConfigApplied'', ''AppStart'']) \<and>
   \<not> chart_path (application_spec hash) ''Listening'' events ''Terminated'' \<and>
   chart_path (application_spec hash) ''Listening''
     [''AppShutdown'', ''AppDrainComplete'', ''ModulesDestroyed'', ''CleanupDone''] ''ShutdownComplete'' \<and>
   gen_is_final application_doc ''ShutdownComplete''"
proof (intro conjI)
  show "chart_path (application_spec hash) ''Created'' events ''Listening'' \<longleftrightarrow>
    events = [''AppBootstrap'', ''ModulesResolved'', ''ModulesInitialized'', ''RoutesRegistered'',
              ''ConfigApplied'', ''AppStart'']"
    by (rule unique_back_run [OF application_step, of 10]) (unfold application_edges, code_simp)
  have "t \<in> set [''Listening'', ''Draining'', ''DestroyingModules'', ''Cleanup'', ''ShutdownComplete'']"
    if "chart_path (application_spec hash) ''Listening'' events t" for t
    by (rule edges_closed [OF application_step _ that]) (unfold application_edges, code_simp, simp)
  then show "\<not> chart_path (application_spec hash) ''Listening'' events ''Terminated''" by fastforce
  show "chart_path (application_spec hash) ''Listening''
     [''AppShutdown'', ''AppDrainComplete'', ''ModulesDestroyed'', ''CleanupDone''] ''ShutdownComplete''"
    by (rule chart_path.go [of _ _ _ "''Draining''"] chart_path.go [of _ _ _ "''DestroyingModules''"]
          chart_path.go [of _ _ _ "''Cleanup''"] chart_path.go [of _ _ _ "''ShutdownComplete''"]
          chart_path.stop | simp add: application_step application_edges)+
  show "gen_is_final application_doc ''ShutdownComplete''"
    unfolding gen_is_final_def application_finals by simp
qed


end
