(* ===== verification/Dep_Order.thy ===== *)
theory Dep_Order
  imports Prelude
begin

text \<open>
  Dependency orders, shared by the provider graph and the module graph: what a dependencies-first order
  is, and the contract of a solver that either finds one or reports why there is none.
\<close>

text \<open>The dependencies between nodes; names that are not nodes do not count.\<close>

definition dep_edges :: "'a set \<Rightarrow> ('a \<Rightarrow> 'a list) \<Rightarrow> ('a \<times> 'a) set" where
  "dep_edges nodes deps = {(x, d). x \<in> nodes \<and> d \<in> set (deps x) \<and> d \<in> nodes}"

text \<open>Every node comes after the nodes it depends on.\<close>

fun deps_first :: "'a set \<Rightarrow> ('a \<Rightarrow> 'a list) \<Rightarrow> 'a set \<Rightarrow> 'a list \<Rightarrow> bool" where
  "deps_first nodes deps done [] = True"
| "deps_first nodes deps done (x # xs) =
     ((\<forall>d \<in> set (deps x). d \<in> nodes \<longrightarrow> d \<in> done) \<and> deps_first nodes deps (insert x done) xs)"

fun dep_chain :: "('a \<times> 'a) set \<Rightarrow> 'a list \<Rightarrow> bool" where
  "dep_chain E [] = True"
| "dep_chain E [x] = True"
| "dep_chain E (x # y # ys) = ((x, y) \<in> E \<and> dep_chain E (y # ys))"

lemma deps_first_snoc:
  "deps_first nodes deps done (xs @ [x]) \<longleftrightarrow>
   deps_first nodes deps done xs \<and> (\<forall>d \<in> set (deps x). d \<in> nodes \<longrightarrow> d \<in> done \<union> set xs)"
  by (induction xs arbitrary: "done") auto

lemma deps_first_split:
  "deps_first nodes deps done (us @ x # vs) \<Longrightarrow> d \<in> set (deps x) \<Longrightarrow> d \<in> nodes \<Longrightarrow> d \<in> done \<union> set us"
  by (induction us arbitrary: "done") auto

lemma dep_chain_snoc:
  "dep_chain E (xs @ [x]) \<longleftrightarrow> dep_chain E xs \<and> (xs = [] \<or> (last xs, x) \<in> E)"
  by (induction E xs rule: dep_chain.induct) auto

lemma dep_chain_trancl:
  "dep_chain E (x # xs) \<Longrightarrow> xs \<noteq> [] \<Longrightarrow> (x, last xs) \<in> E\<^sup>+"
proof (induction xs arbitrary: x)
  case (Cons y ys)
  then show ?case by (cases ys) (auto intro: trancl_into_trancl2)
qed simp

lemma dep_chain_suffix: "dep_chain E (us @ xs) \<Longrightarrow> dep_chain E xs"
proof (induction us)
  case (Cons u us)
  then show ?case by (cases "us @ xs") auto
qed simp

lemma dep_chain_repeat_cycle:
  assumes "dep_chain E (xs @ [x])" "x \<in> set xs"
  shows "(x, x) \<in> E\<^sup>+"
proof -
  obtain us vs where "xs = us @ x # vs" using assms(2) by (meson split_list)
  with assms(1) have "dep_chain E (x # (vs @ [x]))" using dep_chain_suffix [of E us] by simp
  from dep_chain_trancl [OF this] show ?thesis by simp
qed

text \<open>A dependencies-first order rules out cycles: the position in the order decreases along edges.\<close>

lemma deps_first_acyclic:
  assumes "deps_first nodes deps {} order" "distinct order" "set order = nodes"
  shows "acyclic (dep_edges nodes deps)"
proof -
  let ?pos = "\<lambda>x. length (takeWhile (\<lambda>y. y \<noteq> x) order)"
  have dec: "?pos d < ?pos x" if e: "(x, d) \<in> dep_edges nodes deps" for x d
  proof -
    have "x \<in> set order" using e assms(3) by (auto simp: dep_edges_def)
    then obtain us vs where o: "order = us @ x # vs" by (meson split_list)
    then have "x \<notin> set us" using assms(2) by auto
    have "d \<in> set us" using deps_first_split [of nodes deps "{}" us x vs d] assms(1) o e
      by (auto simp: dep_edges_def)
    then obtain ws zs where us: "us = ws @ d # zs" by (meson split_list)
    then have "d \<notin> set ws" using assms(2) o by auto
    have "takeWhile (\<lambda>y. y \<noteq> x) order = us" using o \<open>x \<notin> set us\<close> by (subst o, subst takeWhile_append2) auto
    moreover have "takeWhile (\<lambda>y. y \<noteq> d) order = ws"
      unfolding o us append.assoc using \<open>d \<notin> set ws\<close> by (subst takeWhile_append2) auto
    ultimately show ?thesis using us by simp
  qed
  have "?pos d < ?pos x" if "(x, d) \<in> (dep_edges nodes deps)\<^sup>+" for x d
    using that by (induction rule: trancl_induct) (use dec in \<open>auto intro: less_trans\<close>)
  then show ?thesis by (auto simp: acyclic_def)
qed

section \<open>The contract of a dependency solver\<close>

locale dependency_solver =
  fixes solve :: "'g \<Rightarrow> 'e + 'a list"
    and nodes :: "'g \<Rightarrow> 'a set"
    and deps :: "'g \<Rightarrow> 'a \<Rightarrow> 'a list"
    and valid :: "'g \<Rightarrow> bool"
    and broken :: "'g \<Rightarrow> bool"
  assumes solved: "valid g \<Longrightarrow> solve g = Inr order \<Longrightarrow>
      distinct order \<and> set order = nodes g \<and> deps_first (nodes g) (deps g) {} order \<and> \<not> broken g"
    and refused: "valid g \<Longrightarrow> solve g = Inl err \<Longrightarrow> \<not> acyclic (dep_edges (nodes g) (deps g)) \<or> broken g"
begin

lemma solvable_iff:
  assumes "valid g"
  shows "(\<exists>order. solve g = Inr order) \<longleftrightarrow> acyclic (dep_edges (nodes g) (deps g)) \<and> \<not> broken g"
proof (cases "solve g")
  case (Inl err)
  with refused [OF assms] show ?thesis by auto
next
  case (Inr order)
  with solved [OF assms Inr] deps_first_acyclic [of "nodes g" "deps g" order] show ?thesis by auto
qed

lemma dependency_precedes:
  assumes "valid g" "solve g = Inr (us @ x # vs)" "(x, d) \<in> dep_edges (nodes g) (deps g)"
  shows "d \<in> set us"
  using solved [OF assms(1,2)] deps_first_split [of "nodes g" "deps g" "{}" us x vs d] assms(3)
  by (auto simp: dep_edges_def)

text \<open>Taken backwards, the order puts every node before the nodes it depends on.\<close>

lemma dependents_precede_in_reverse:
  assumes "valid g" "solve g = Inr order" "rev order = us @ d # vs" "(x, d) \<in> dep_edges (nodes g) (deps g)"
  shows "x \<in> set us"
proof -
  have order: "order = rev vs @ d # rev us" using arg_cong [OF assms(3), of rev] by simp
  have s: "distinct order" "set order = nodes g" using solved [OF assms(1,2)] by auto
  have "x \<in> set order" using assms(4) s by (auto simp: dep_edges_def)
  moreover have "x \<notin> set (rev vs @ [d])"
  proof
    assume "x \<in> set (rev vs @ [d])"
    then obtain as bs where ab: "rev vs @ [d] = as @ x # bs" by (meson split_list)
    then have "order = as @ x # (bs @ rev us)" using order by (metis append.assoc append_Cons append_Nil)
    then have "d \<in> set as" using dependency_precedes [OF assms(1) _ assms(4)] assms(2) by blast
    moreover have "d \<notin> set as"
    proof -
      have "set as \<subseteq> set (rev vs)"
        using ab by (cases bs rule: rev_cases) (auto dest: arg_cong [where f = set])
      then show ?thesis using s(1) order by auto
    qed
    ultimately show False by simp
  qed
  ultimately show ?thesis using order by auto
qed

end

end
