(* ===== verification/Di_Graph.thy ===== *)
theory Di_Graph
  imports Dep_Order
begin

text \<open>
  The provider dependency graph (\<open>nivasa-core/src/di/graph.rs\<close>): the depth-first search that orders
  providers and detects cycles. A \<open>TypeId\<close> is a number. \<open>HashMap::keys\<close> yields the registered types in
  an unspecified order, which is a parameter of \<open>resolve_order\<close>; the recursion of \<open>dfs\<close> is bounded by
  fuel, and \<open>dfs_enough_fuel\<close> shows that the fuel given is enough.
\<close>

type_synonym TypeId = nat

datatype DiError =
    ProviderNotFound string
  | CircularDependency string
  | ConstructionFailed string string
  | InvalidScope string
  | Registration string

record Node =
  nd_type_name :: string
  nd_dependencies :: "TypeId list"

type_synonym DependencyGraph = "TypeId \<rightharpoonup> Node"

definition graph_new :: DependencyGraph where
  "graph_new = Map.empty"

definition add_node :: "DependencyGraph \<Rightarrow> TypeId \<Rightarrow> string \<Rightarrow> TypeId list \<Rightarrow> DependencyGraph" where
  "add_node g type_id type_name dependencies =
     g(type_id \<mapsto> \<lparr>nd_type_name = type_name, nd_dependencies = dependencies\<rparr>)"

record DfsState =
  visited :: "TypeId set"
  visiting :: "TypeId set"
  order :: "TypeId list"
  path :: "string list"

text \<open>\<open>None\<close>: the fuel ran out; otherwise the \<open>Result\<close> with the final values of the mutable references.\<close>

fun dfs :: "nat \<Rightarrow> DependencyGraph \<Rightarrow> TypeId \<Rightarrow> DfsState \<Rightarrow> (DiError + DfsState) option"
  and dfs_deps :: "nat \<Rightarrow> DependencyGraph \<Rightarrow> TypeId list \<Rightarrow> DfsState \<Rightarrow> (DiError + DfsState) option"
where
  "dfs 0 g current st = None"
| "dfs (Suc n) g current st =
     (case g current of
        None \<Rightarrow> Some (Inr st)
      | Some node \<Rightarrow>
          let st1 = st\<lparr>path := path st @ [nd_type_name node]\<rparr> in
          if current \<in> visiting st1 then Some (Inl (CircularDependency (join '' -> '' (path st1))))
          else if current \<notin> visited st1 then
            (case dfs_deps n g (nd_dependencies node) (st1\<lparr>visiting := insert current (visiting st1)\<rparr>) of
               Some (Inr st2) \<Rightarrow>
                 Some (Inr (st2\<lparr>visiting := visiting st2 - {current}, visited := insert current (visited st2),
                                order := order st2 @ [current], path := butlast (path st2)\<rparr>))
             | Some (Inl err) \<Rightarrow> Some (Inl err)
             | None \<Rightarrow> None)
          else Some (Inr (st1\<lparr>path := butlast (path st1)\<rparr>)))"
| "dfs_deps n g [] st = Some (Inr st)"
| "dfs_deps n g (dep # rest) st =
     (case dfs n g dep st of
        Some (Inr st1) \<Rightarrow> dfs_deps n g rest st1
      | Some (Inl err) \<Rightarrow> Some (Inl err)
      | None \<Rightarrow> None)"

fun resolve_roots :: "nat \<Rightarrow> DependencyGraph \<Rightarrow> TypeId list \<Rightarrow> DfsState \<Rightarrow> (DiError + DfsState) option" where
  "resolve_roots n g [] st = Some (Inr st)"
| "resolve_roots n g (i # ids) st =
     (if i \<notin> visited st then
        (case dfs n g i (st\<lparr>path := []\<rparr>) of
           Some (Inr st1) \<Rightarrow> resolve_roots n g ids st1
         | Some (Inl err) \<Rightarrow> Some (Inl err)
         | None \<Rightarrow> None)
      else resolve_roots n g ids st)"

definition resolve_order :: "TypeId list \<Rightarrow> DependencyGraph \<Rightarrow> (DiError + TypeId list) option" where
  "resolve_order keys g =
     (case resolve_roots (Suc (length keys)) g keys \<lparr>visited = {}, visiting = {}, order = [], path = []\<rparr> of
        Some (Inr st) \<Rightarrow> Some (Inr (order st))
      | Some (Inl err) \<Rightarrow> Some (Inl err)
      | None \<Rightarrow> None)"

section \<open>Enough fuel\<close>

definition node_deps :: "DependencyGraph \<Rightarrow> TypeId \<Rightarrow> TypeId list" where
  "node_deps g x = (case g x of Some node \<Rightarrow> nd_dependencies node | None \<Rightarrow> [])"

definition node_name :: "DependencyGraph \<Rightarrow> TypeId \<Rightarrow> string" where
  "node_name g x = (case g x of Some node \<Rightarrow> nd_type_name node | None \<Rightarrow> [])"

abbreviation graph_edges :: "DependencyGraph \<Rightarrow> (TypeId \<times> TypeId) set" where
  "graph_edges g \<equiv> dep_edges (dom g) (node_deps g)"

lemma dfs_visiting:
  "dfs n g x st = Some (Inr st') \<Longrightarrow> visiting st' = visiting st"
  "dfs_deps n g ds st = Some (Inr st') \<Longrightarrow> visiting st' = visiting st"
proof (induction n g x st and n g ds st arbitrary: st' and st' rule: dfs_dfs_deps.induct)
  case (2 n g x st)
  show ?case
  proof (cases "g x = None \<or> x \<in> visited st \<or> x \<in> visiting st")
    case False
    then obtain node where node: "g x = Some node" "x \<notin> visited st" "x \<notin> visiting st" by auto
    let ?st1 = "st\<lparr>path := path st @ [nd_type_name node], visiting := insert x (visiting st)\<rparr>"
    obtain st2 where st2: "dfs_deps n g (nd_dependencies node) ?st1 = Some (Inr st2)"
      "st' = st2\<lparr>visiting := visiting st2 - {x}, visited := insert x (visited st2),
                 order := order st2 @ [x], path := butlast (path st2)\<rparr>"
      using "2.prems" node by (auto simp: Let_def split: option.splits sum.splits)
    then have "visiting st2 = insert x (visiting st)"
      using "2.IH" [OF node(1) refl, of st2] node by simp
    with st2 node show ?thesis by simp
  qed (use "2.prems" in \<open>auto simp: Let_def split: option.splits if_splits\<close>)
next
  case (4 n g d ds st)
  obtain st1 where st1: "dfs n g d st = Some (Inr st1)" "dfs_deps n g ds st1 = Some (Inr st')"
    using "4.prems" by (auto split: option.splits sum.splits)
  with "4.IH"(1) [OF st1(1)] "4.IH"(2) [OF st1(1) refl st1(2)] show ?case by simp
qed auto

lemma dfs_enough_fuel:
  "finite (dom g) \<Longrightarrow> card (dom g - visiting st) < n \<Longrightarrow> dfs n g x st \<noteq> None"
  "finite (dom g) \<Longrightarrow> n = 0 \<or> card (dom g - visiting st) < n \<Longrightarrow> n \<noteq> 0 \<or> ds = [] \<Longrightarrow> dfs_deps n g ds st \<noteq> None"
proof (induction n g x st and n g ds st rule: dfs_dfs_deps.induct)
  case (2 n g x st)
  show ?case
  proof (cases "g x")
    case (Some node)
    show ?thesis
    proof (cases "x \<in> visiting st \<or> x \<in> visited st")
      case False
      have "dom g - insert x (visiting st) \<subset> dom g - visiting st" using Some False by auto
      then have "card (dom g - insert x (visiting st)) < card (dom g - visiting st)"
        using "2.prems"(1) by (intro psubset_card_mono) auto
      then have less: "card (dom g - insert x (visiting st)) < n" using "2.prems"(2) by simp
      then have "dfs_deps n g (nd_dependencies node)
          (st\<lparr>path := path st @ [nd_type_name node], visiting := insert x (visiting st)\<rparr>) \<noteq> None"
        using "2.IH" [OF Some refl] False "2.prems"(1) by simp
      then show ?thesis using Some False by (auto simp: Let_def split: option.splits sum.splits)
    qed (use Some in \<open>auto simp: Let_def\<close>)
  qed simp
next
  case (4 n g d ds st)
  then have "dfs n g d st \<noteq> None" by auto
  moreover have "dfs_deps n g ds st' \<noteq> None" if "dfs n g d st = Some (Inr st')" for st'
    using 4 that dfs_visiting(1) [OF that] by auto
  ultimately show ?case by (auto split: option.splits sum.splits)
qed auto

section \<open>What the search maintains\<close>

text \<open>\<open>ids\<close> are the nodes on the current path, the ghost of \<open>path\<close>.\<close>

definition dfs_inv :: "DependencyGraph \<Rightarrow> TypeId list \<Rightarrow> DfsState \<Rightarrow> bool" where
  "dfs_inv g ids st \<longleftrightarrow>
     path st = map (node_name g) ids \<and> visiting st = set ids \<and> distinct ids \<and> set ids \<subseteq> dom g \<and>
     dep_chain (graph_edges g) ids \<and> visited st = set (order st) \<and> distinct (order st) \<and>
     visited st \<subseteq> dom g \<and> visited st \<inter> visiting st = {} \<and>
     deps_first (dom g) (node_deps g) {} (order st)"

definition cycle_report :: "DependencyGraph \<Rightarrow> DiError \<Rightarrow> bool" where
  "cycle_report g err \<longleftrightarrow>
     (\<exists>ids x. err = CircularDependency (join '' -> '' (map (node_name g) (ids @ [x]))) \<and>
        dep_chain (graph_edges g) (ids @ [x]) \<and> x \<in> set ids)"

definition dfs_post :: "DependencyGraph \<Rightarrow> TypeId list \<Rightarrow> DfsState \<Rightarrow> TypeId set \<Rightarrow> DiError + DfsState \<Rightarrow> bool" where
  "dfs_post g ids st reached r =
     (case r of
        Inl err \<Rightarrow> cycle_report g err
      | Inr st' \<Rightarrow> dfs_inv g ids st' \<and> visited st \<subseteq> visited st' \<and> reached \<inter> dom g \<subseteq> visited st')"

lemma dfs_spec:
  "dfs_inv g ids st \<Longrightarrow> ids = [] \<or> x \<in> set (node_deps g (last ids)) \<Longrightarrow>
     dfs n g x st = Some r \<Longrightarrow> dfs_post g ids st {x} r"
  "dfs_inv g ids st \<Longrightarrow> ids = [] \<or> set ds \<subseteq> set (node_deps g (last ids)) \<Longrightarrow>
     dfs_deps n g ds st = Some r \<Longrightarrow> dfs_post g ids st (set ds) r"
proof (induction n g x st and n g ds st arbitrary: ids r and ids r rule: dfs_dfs_deps.induct)
  case (2 n g x st)
  show ?case
  proof (cases "g x")
    case None
    with 2 show ?thesis by (auto simp: dfs_post_def dom_def)
  next
    case (Some node)
    have name: "nd_type_name node = node_name g x" and deps: "nd_dependencies node = node_deps g x"
      using Some by (simp_all add: node_name_def node_deps_def)
    have edge: "ids = [] \<or> (last ids, x) \<in> graph_edges g"
    proof (cases "ids = []")
      case False
      then have "last ids \<in> dom g" using "2.prems"(1) last_in_set [OF False] unfolding dfs_inv_def by blast
      with False "2.prems"(2) Some show ?thesis by (auto simp: dep_edges_def)
    qed simp
    then have chain: "dep_chain (graph_edges g) (ids @ [x])"
      using "2.prems"(1) by (auto simp: dfs_inv_def dep_chain_snoc)
    consider "x \<in> visiting st" | "x \<notin> visiting st" "x \<in> visited st" | "x \<notin> visiting st" "x \<notin> visited st" by blast
    then show ?thesis
    proof cases
      case 1
      then have "r = Inl (CircularDependency (join '' -> '' (map (node_name g) (ids @ [x]))))"
        using "2.prems" Some name by (simp add: dfs_inv_def Let_def)
      moreover have "x \<in> set ids" using 1 "2.prems"(1) by (simp add: dfs_inv_def)
      ultimately show ?thesis using chain unfolding dfs_post_def cycle_report_def by auto
    next
      case 2
      with "2.prems" Some show ?thesis by (auto simp: dfs_post_def Let_def)
    next
      case 3
      let ?st1 = "st\<lparr>path := path st @ [nd_type_name node], visiting := insert x (visiting st)\<rparr>"
      have inv1: "dfs_inv g (ids @ [x]) ?st1"
        using "2.prems"(1) 3 Some chain name by (auto simp: dfs_inv_def)
      obtain r1 where r1: "dfs_deps n g (nd_dependencies node) ?st1 = Some r1"
        using "2.prems"(3) Some 3 by (auto simp: Let_def split: option.splits)
      have post1: "dfs_post g (ids @ [x]) ?st1 (set (nd_dependencies node)) r1"
        using "2.IH" [OF Some refl, of "ids @ [x]" r1] 3 inv1 r1 deps by simp
      show ?thesis
      proof (cases r1)
        case (Inl err)
        with post1 r1 "2.prems"(3) Some 3 show ?thesis by (auto simp: dfs_post_def Let_def)
      next
        case (Inr st2)
        with post1 have inv2: "dfs_inv g (ids @ [x]) st2" and sub: "visited st \<subseteq> visited st2"
          and reach: "set (node_deps g x) \<inter> dom g \<subseteq> visited st2"
          by (auto simp: dfs_post_def deps)
        have r: "r = Inr (st2\<lparr>visiting := visiting st2 - {x}, visited := insert x (visited st2),
                                order := order st2 @ [x], path := butlast (path st2)\<rparr>)"
          using r1 Inr "2.prems"(3) Some 3 by (simp add: Let_def)
        have "dfs_inv g ids (st2\<lparr>visiting := visiting st2 - {x}, visited := insert x (visited st2),
                                order := order st2 @ [x], path := butlast (path st2)\<rparr>)"
          using inv2 reach Some "2.prems"(1)
          by (auto simp: dfs_inv_def deps_first_snoc butlast_append)
        with r sub show ?thesis by (auto simp: dfs_post_def)
      qed
    qed
  qed
next
  case (4 n g d ds st)
  obtain r1 where r1: "dfs n g d st = Some r1" using "4.prems"(3) by (auto split: option.splits)
  have post1: "dfs_post g ids st {d} r1"
    using "4.IH"(1) [OF "4.prems"(1) _ r1] "4.prems"(2) by auto
  show ?case
  proof (cases r1)
    case (Inl err)
    with r1 "4.prems"(3) have "r = Inl err" by simp
    with Inl post1 show ?thesis by (simp add: dfs_post_def)
  next
    case (Inr st1)
    with post1 have inv1: "dfs_inv g ids st1" and sub: "visited st \<subseteq> visited st1" "{d} \<inter> dom g \<subseteq> visited st1"
      by (auto simp: dfs_post_def)
    have "dfs_deps n g ds st1 = Some r" using "4.prems"(3) r1 Inr by simp
    then have "dfs_post g ids st1 (set ds) r"
      using "4.IH"(2) [OF r1 Inr inv1] "4.prems"(2) by auto
    with sub show ?thesis by (auto simp: dfs_post_def split: sum.splits)
  qed
qed (auto simp: dfs_post_def)

definition roots_post :: "DependencyGraph \<Rightarrow> TypeId set \<Rightarrow> TypeId set \<Rightarrow> DiError + DfsState \<Rightarrow> bool" where
  "roots_post g before reached r =
     (case r of
        Inl err \<Rightarrow> cycle_report g err
      | Inr st' \<Rightarrow> dfs_inv g [] (st'\<lparr>path := []\<rparr>) \<and> before \<subseteq> visited st' \<and> reached \<inter> dom g \<subseteq> visited st')"

lemma roots_post_grow:
  "roots_post g before' reached r \<Longrightarrow> before \<subseteq> before' \<Longrightarrow> new \<inter> dom g \<subseteq> before' \<Longrightarrow>
   roots_post g before (new \<union> reached) r"
  by (auto simp: roots_post_def split: sum.splits)

lemma resolve_roots_spec:
  assumes "finite (dom g)" "card (dom g) < n" "dfs_inv g [] (st\<lparr>path := []\<rparr>)"
  shows "\<exists>r. resolve_roots n g ids st = Some r \<and> roots_post g (visited st) (set ids) r"
  using assms(3)
proof (induction ids arbitrary: st)
  case Nil
  then show ?case by (simp add: roots_post_def)
next
  case (Cons i ids)
  show ?case
  proof (cases "i \<in> visited st")
    case True
    with Cons.IH [OF Cons.prems] roots_post_grow [of g "visited st" "set ids" _ "visited st" "{i}"]
    show ?thesis by auto
  next
    case False
    have "visiting st = {}" using Cons.prems by (simp add: dfs_inv_def)
    then have "dfs n g i (st\<lparr>path := []\<rparr>) \<noteq> None" using assms(1,2) by (intro dfs_enough_fuel(1)) auto
    then obtain r where r: "dfs n g i (st\<lparr>path := []\<rparr>) = Some r" by blast
    with dfs_spec(1) [OF Cons.prems _ r] have post: "dfs_post g [] (st\<lparr>path := []\<rparr>) {i} r" by simp
    show ?thesis
    proof (cases r)
      case (Inl err)
      with r post False show ?thesis by (simp add: dfs_post_def roots_post_def)
    next
      case (Inr st1)
      with post have inv: "dfs_inv g [] st1" and sub: "visited st \<subseteq> visited st1" "{i} \<inter> dom g \<subseteq> visited st1"
        by (simp_all add: dfs_post_def)
      from inv have "st1\<lparr>path := []\<rparr> = st1" by (simp add: dfs_inv_def)
      with Cons.IH [of st1] inv obtain r' where r': "resolve_roots n g ids st1 = Some r'"
        "roots_post g (visited st1) (set ids) r'" by auto
      with roots_post_grow [OF r'(2) sub] r Inr False show ?thesis by simp
    qed
  qed
qed

text \<open>The keys a map can be iterated over: each of its keys once, in some order.\<close>

definition iteration_of :: "'k list \<Rightarrow> ('k \<rightharpoonup> 'v) \<Rightarrow> bool" where
  "iteration_of keys m \<longleftrightarrow> distinct keys \<and> set keys = dom m"

lemma resolve_order_spec:
  assumes "iteration_of keys g"
  shows "\<exists>r. resolve_order keys g = Some r \<and>
    (case r of
       Inl err \<Rightarrow> cycle_report g err
     | Inr ord \<Rightarrow> distinct ord \<and> set ord = dom g \<and> deps_first (dom g) (node_deps g) {} ord)"
proof -
  have "finite (dom g)" "card (dom g) < Suc (length keys)"
    using assms distinct_card [of keys] by (metis iteration_of_def List.finite_set, simp add: iteration_of_def)
  moreover have "dfs_inv g [] (\<lparr>visited = {}, visiting = {}, order = [], path = []\<rparr>\<lparr>path := []\<rparr>)"
    by (simp add: dfs_inv_def)
  ultimately obtain r where "resolve_roots (Suc (length keys)) g keys \<lparr>visited = {}, visiting = {}, order = [], path = []\<rparr> = Some r"
    and "roots_post g {} (set keys) r"
    using resolve_roots_spec [of g "Suc (length keys)" "\<lparr>visited = {}, visiting = {}, order = [], path = []\<rparr>" keys]
    by auto
  note found = this
  show ?thesis
  proof (cases r)
    case (Inl err)
    with found show ?thesis by (simp add: resolve_order_def roots_post_def)
  next
    case (Inr st)
    with found(2) have inv: "dfs_inv g [] (st\<lparr>path := []\<rparr>)" and reach: "set keys \<inter> dom g \<subseteq> visited st"
      by (simp_all add: roots_post_def)
    from reach have sup: "dom g \<subseteq> visited st" using assms by (simp add: iteration_of_def)
    from inv have sub: "visited st \<subseteq> dom g" by (auto simp: dfs_inv_def)
    from inv have facts: "visited st = set (order st)" "distinct (order st)"
      "deps_first (dom g) (node_deps g) {} (order st)"
      by (simp_all add: dfs_inv_def)
    from sub sup have "set (order st) = dom g" unfolding facts(1) by (rule subset_antisym)
    with facts have "distinct (order st) \<and> set (order st) = dom g \<and> deps_first (dom g) (node_deps g) {} (order st)"
      by simp
    with found(1) Inr show ?thesis by (simp add: resolve_order_def)
  qed
qed

text \<open>The search as a dependency solver, on a graph with the order its keys are visited in.\<close>

definition di_solve :: "TypeId list \<times> DependencyGraph \<Rightarrow> DiError + TypeId list" where
  "di_solve kg = (case resolve_order (fst kg) (snd kg) of Some r \<Rightarrow> r | None \<Rightarrow> Inr [])"

lemma cycle_report_not_acyclic: "cycle_report g err \<Longrightarrow> \<not> acyclic (graph_edges g)"
proof -
  assume "cycle_report g err"
  then obtain ids x where "dep_chain (graph_edges g) (ids @ [x])" "x \<in> set ids"
    unfolding cycle_report_def by blast
  from dep_chain_repeat_cycle [OF this] show ?thesis unfolding acyclic_def by blast
qed

lemma di_solve_resolve:
  assumes "iteration_of keys g"
  shows "resolve_order keys g = Some (di_solve (keys, g))"
  using resolve_order_spec [OF assms] by (auto simp: di_solve_def)

interpretation di_solver: dependency_solver di_solve "\<lambda>kg. dom (snd kg)" "\<lambda>kg. node_deps (snd kg)"
  "\<lambda>kg. iteration_of (fst kg) (snd kg)" "\<lambda>_. False"
proof
  fix kg :: "TypeId list \<times> DependencyGraph" and ord :: "TypeId list" and err :: DiError
  assume "iteration_of (fst kg) (snd kg)"
  note spec = resolve_order_spec [OF this] di_solve_resolve [OF this]
  show "di_solve kg = Inr ord \<Longrightarrow> distinct ord \<and> set ord = dom (snd kg) \<and>
      deps_first (dom (snd kg)) (node_deps (snd kg)) {} ord \<and> \<not> False"
    using spec by auto
  show "di_solve kg = Inl err \<Longrightarrow> \<not> acyclic (graph_edges (snd kg)) \<or> False"
    using spec cycle_report_not_acyclic by fastforce
qed

section \<open>Properties of the graph\<close>

text \<open>C10: \<open>resolve_order\<close> always returns; it returns an order exactly when the registered providers have no
  circular dependency, whatever order the map's keys come in, and the order lists every provider once,
  each after the registered providers it depends on.\<close>

theorem resolve_order_correct:
  assumes "iteration_of keys g"
  shows "resolve_order keys g \<noteq> None \<and>
    ((\<exists>ord. resolve_order keys g = Some (Inr ord)) \<longleftrightarrow> acyclic (graph_edges g)) \<and>
    (\<forall>ord. resolve_order keys g = Some (Inr ord) \<longrightarrow>
       distinct ord \<and> set ord = dom g \<and>
       (\<forall>us x vs d. ord = us @ x # vs \<and> d \<in> set (node_deps g x) \<and> d \<in> dom g \<longrightarrow> d \<in> set us))"
proof -
  note solve = di_solve_resolve [OF assms]
  have valid: "iteration_of (fst (keys, g)) (snd (keys, g))" using assms by simp
  have "(\<exists>ord. di_solve (keys, g) = Inr ord) \<longleftrightarrow> acyclic (graph_edges g)"
    using di_solver.solvable_iff [OF valid] by simp
  moreover have "distinct ord \<and> set ord = dom g" if "di_solve (keys, g) = Inr ord" for ord
    using di_solver.solved [OF valid that] by simp
  moreover have "d \<in> set us" if "di_solve (keys, g) = Inr (us @ x # vs)" "d \<in> set (node_deps g x)" "d \<in> dom g" for us x vs d
    using di_solver.dependency_precedes [OF valid that(1), of d] di_solver.solved [OF valid that(1)] that
    by (auto simp: dep_edges_def)
  ultimately show ?thesis unfolding solve by auto
qed

definition demo_graph :: DependencyGraph where
  "demo_graph = add_node (add_node (add_node graph_new 1 ''App'' [2, 3]) 2 ''Repo'' [3, 9]) 3 ''Config'' []"

theorem resolve_order_correct_witness:
  "resolve_order [1, 2, 3] demo_graph = Some (Inr [3, 2, 1]) \<and> acyclic (graph_edges demo_graph)"
proof -
  have "iteration_of [1, 2, 3] demo_graph"
    by (auto simp: iteration_of_def demo_graph_def add_node_def graph_new_def)
  moreover have "resolve_order [1, 2, 3] demo_graph = Some (Inr [3, 2, 1])" by code_simp
  ultimately show ?thesis using resolve_order_correct [of "[1, 2, 3]" demo_graph] by blast
qed

text \<open>The error names a real cycle: its text is the path of the search, a chain of dependencies
  between registered providers whose last element already occurred on it.\<close>

theorem circular_dependency_report:
  assumes "iteration_of keys g" "resolve_order keys g = Some (Inl err)"
  shows "\<exists>ids x. err = CircularDependency (join '' -> '' (map (node_name g) (ids @ [x]))) \<and>
           dep_chain (graph_edges g) (ids @ [x]) \<and> x \<in> set ids \<and> (x, x) \<in> (graph_edges g)\<^sup>+"
  using resolve_order_spec [OF assms(1)] assms(2) dep_chain_repeat_cycle
  unfolding cycle_report_def by fastforce

definition cyclic_graph :: DependencyGraph where
  "cyclic_graph = add_node (add_node graph_new 1 ''A'' [2]) 2 ''B'' [1]"

theorem circular_dependency_report_witness:
  "resolve_order [2, 1] cyclic_graph = Some (Inl (CircularDependency ''B -> A -> B'')) \<and>
   \<not> acyclic (graph_edges cyclic_graph)"
proof -
  have it: "iteration_of [2, 1] cyclic_graph"
    by (auto simp: iteration_of_def cyclic_graph_def add_node_def graph_new_def)
  have res: "resolve_order [2, 1] cyclic_graph = Some (Inl (CircularDependency ''B -> A -> B''))" by code_simp
  show ?thesis using circular_dependency_report [OF it res] res by (auto simp: acyclic_def)
qed

end
