(* ===== verification/Di_Provider.thy ===== *)
theory Di_Provider
  imports Di_Graph Statecharts "HOL-Library.Word"
begin

text \<open>
  Providers (\<open>nivasa-core/src/di/provider.rs\<close>), the provider registry (\<open>registry.rs\<close>) and lazily
  resolved values (\<open>lazy.rs\<close>).

  An \<open>Arc<dyn Any>\<close> is an \<open>Instance\<close>: its dynamic type, the address that is its identity, and its
  contents. A factory or constructor is an arbitrary Rust future over the container; \<open>Build\<close> is such a
  computation as the sequence of requests it makes of the container, each continuation depending on the
  answers: it may resolve types, ask whether a type is registered, register values, fail, or finish. The environment holds what the
  compiler decides: \<open>type_name::<T>()\<close>, \<open>cfg!(debug_assertions)\<close> and the hash of the chart.
\<close>

record Env =
  env_type_name :: "TypeId \<Rightarrow> string"
  env_debug :: bool
  env_hash :: string

record 'v Instance =
  inst_type :: TypeId
  inst_addr :: nat
  inst_value :: 'v

datatype 'v Build =
    Finish 'v
  | FailWith DiError
  | Resolve TypeId "DiError + 'v Instance \<Rightarrow> 'v Build"
  | Has TypeId "bool \<Rightarrow> 'v Build"
  | RegisterValue TypeId 'v "'v Build"

datatype ProviderScope = Singleton | Scoped | Transient

record ProviderMetadata =
  md_type_id :: TypeId
  md_type_name :: string
  md_scope :: ProviderScope
  md_dependencies :: "TypeId list"

datatype 'v Provider =
    ValueProvider ProviderMetadata "'v Instance"
  | FactoryProvider ProviderMetadata "'v Build"
  | ClassProvider ProviderMetadata "'v Build"
  | ImportedValueProvider ProviderMetadata "'v Instance"

fun provider_metadata :: "'v Provider \<Rightarrow> ProviderMetadata" where
  "provider_metadata (ValueProvider md i) = md"
| "provider_metadata (FactoryProvider md f) = md"
| "provider_metadata (ClassProvider md f) = md"
| "provider_metadata (ImportedValueProvider md i) = md"

text \<open>What a provider builds from: a stored instance, or a computation.\<close>

fun provider_source :: "'v Provider \<Rightarrow> 'v Instance + 'v Build" where
  "provider_source (ValueProvider md i) = Inl i"
| "provider_source (FactoryProvider md f) = Inr f"
| "provider_source (ClassProvider md f) = Inr f"
| "provider_source (ImportedValueProvider md i) = Inl i"

definition value_provider_from_arc :: "Env \<Rightarrow> 'v Instance \<Rightarrow> 'v Provider" where
  "value_provider_from_arc env i =
     ValueProvider \<lparr>md_type_id = inst_type i, md_type_name = env_type_name env (inst_type i),
                    md_scope = Singleton, md_dependencies = []\<rparr> i"

definition factory_provider_new ::
  "Env \<Rightarrow> TypeId \<Rightarrow> ProviderScope \<Rightarrow> TypeId list \<Rightarrow> 'v Build \<Rightarrow> 'v Provider" where
  "factory_provider_new env t scope dependencies factory =
     FactoryProvider \<lparr>md_type_id = t, md_type_name = env_type_name env t,
                      md_scope = scope, md_dependencies = dependencies\<rparr> factory"

definition class_provider_new ::
  "Env \<Rightarrow> TypeId \<Rightarrow> ProviderScope \<Rightarrow> TypeId list \<Rightarrow> 'v Build \<Rightarrow> 'v Provider" where
  "class_provider_new env t scope dependencies constructor =
     ClassProvider \<lparr>md_type_id = t, md_type_name = env_type_name env t,
                    md_scope = scope, md_dependencies = dependencies\<rparr> constructor"

section \<open>The life cycle of one construction\<close>

text \<open>\<open>Display\<close> of \<open>InvalidTransitionError\<close>; the \<open>Debug\<close> of a list of events.\<close>

definition show_events :: "string list \<Rightarrow> string" where
  "show_events es = ''['' @ join '', '' es @ '']''"

definition invalid_transition_text :: "(string, string) StatechartSpec \<Rightarrow> (string, string) InvalidTransitionError \<Rightarrow> string" where
  "invalid_transition_text spec e =
     ''SCXML violation in statechart '' @ [CHR 0x27] @ sp_name spec @ [CHR 0x27] @ '': no transition from '' @
     sp_show_state spec (err_state e) @ '' for event '' @ sp_show_event spec (err_event e) @
     ''. Valid events: '' @ show_events (map (sp_show_event spec) (err_valid_events e))"

text \<open>\<open>LifecycleProvider::new\<close>, and the two events \<open>build\<close> sends before it runs the inner provider. \<open>None\<close>
  is the panic of a refused event in a debug build.\<close>

definition lifecycle_new :: "Env \<Rightarrow> string StatechartEngine" where
  "lifecycle_new env =
     fst (send_event (env_debug env) (provider_spec (env_hash env))
            (engine_new (provider_spec (env_hash env)) ''Unregistered'') ''ProviderRegister'')"

definition lifecycle_send ::
  "Env \<Rightarrow> string StatechartEngine \<Rightarrow> string \<Rightarrow> (DiError + string StatechartEngine) option" where
  "lifecycle_send env eng event =
     (case send_event (env_debug env) (provider_spec (env_hash env)) eng event of
        (eng1, Sent _) \<Rightarrow> Some (Inr eng1)
      | (eng1, Refused e) \<Rightarrow>
          Some (Inl (Registration (''Invalid state transition: '' @ invalid_transition_text (provider_spec (env_hash env)) e)))
      | (eng1, Panicked e) \<Rightarrow> None)"

definition lifecycle_begin :: "Env \<Rightarrow> string StatechartEngine \<Rightarrow> (DiError + string StatechartEngine) option" where
  "lifecycle_begin env eng =
     (case lifecycle_send env eng ''ProviderResolve'' of
        Some (Inr eng1) \<Rightarrow> lifecycle_send env eng1 ''DependenciesReady''
      | r \<Rightarrow> r)"

definition lifecycle_end :: "Env \<Rightarrow> string StatechartEngine \<Rightarrow> bool \<Rightarrow> string StatechartEngine option" where
  "lifecycle_end env eng constructed =
     (case send_event (env_debug env) (provider_spec (env_hash env)) eng
             (if constructed then ''ProviderConstructed'' else ''ErrorConstruction'') of
        (eng1, Panicked e) \<Rightarrow> None
      | (eng1, _) \<Rightarrow> Some eng1)"

section \<open>The provider registry\<close>

record 'v ProviderEntry =
  pe_metadata :: ProviderMetadata
  pe_provider :: "'v Provider"

type_synonym 'v ProviderRegistry = "TypeId \<rightharpoonup> 'v ProviderEntry"

definition insert_by_id :: "'v ProviderRegistry \<Rightarrow> TypeId \<Rightarrow> 'v Provider \<Rightarrow> 'v ProviderRegistry \<times> 'v Provider option" where
  "insert_by_id reg type_id provider =
     (reg(type_id \<mapsto> \<lparr>pe_metadata = provider_metadata provider, pe_provider = provider\<rparr>),
      map_option pe_provider (reg type_id))"

definition provider_contains :: "'v ProviderRegistry \<Rightarrow> TypeId \<Rightarrow> bool" where
  "provider_contains reg type_id \<longleftrightarrow> reg type_id \<noteq> None"

definition get_by_id :: "'v ProviderRegistry \<Rightarrow> TypeId \<Rightarrow> 'v Provider option" where
  "get_by_id reg type_id = map_option pe_provider (reg type_id)"

definition remove_by_id :: "'v ProviderRegistry \<Rightarrow> TypeId \<Rightarrow> 'v ProviderRegistry \<times> 'v Provider option" where
  "remove_by_id reg type_id = (reg(type_id := None), map_option pe_provider (reg type_id))"

definition metadata_by_id :: "'v ProviderRegistry \<Rightarrow> TypeId \<Rightarrow> ProviderMetadata option" where
  "metadata_by_id reg type_id = map_option pe_metadata (reg type_id)"

text \<open>\<open>HashMap::iter\<close> visits the entries in the order of \<open>ks\<close>.\<close>

definition registry_snapshot :: "TypeId list \<Rightarrow> 'v ProviderRegistry \<Rightarrow> (TypeId \<times> 'v Provider \<times> ProviderMetadata) list" where
  "registry_snapshot ks reg =
     List.map_filter (\<lambda>t. map_option (\<lambda>e. (t, pe_provider e, pe_metadata e)) (reg t)) ks"

section \<open>Lazily resolved values\<close>

text \<open>The resolver acts on a world \<open>'w\<close> (the container it captured). Cloning a \<open>OnceCell\<close> copies its
  current contents.\<close>

record ('a, 'w) Lazy =
  lz_resolver :: "'w \<Rightarrow> (DiError + 'a) \<times> 'w"
  lz_cell :: "'a option"

definition lazy_new :: "('w \<Rightarrow> (DiError + 'a) \<times> 'w) \<Rightarrow> ('a, 'w) Lazy" where
  "lazy_new resolver = \<lparr>lz_resolver = resolver, lz_cell = None\<rparr>"

definition lazy_get :: "('a, 'w) Lazy \<Rightarrow> 'w \<Rightarrow> (DiError + 'a) \<times> ('a, 'w) Lazy \<times> 'w" where
  "lazy_get lz w =
     (case lz_cell lz of
        Some v \<Rightarrow> (Inr v, lz, w)
      | None \<Rightarrow>
          (case lz_resolver lz w of
             (Inr v, w') \<Rightarrow> (Inr v, lz\<lparr>lz_cell := Some v\<rparr>, w')
           | (Inl err, w') \<Rightarrow> (Inl err, lz, w')))"

definition lazy_clone :: "('a, 'w) Lazy \<Rightarrow> ('a, 'w) Lazy" where
  "lazy_clone lz = \<lparr>lz_resolver = lz_resolver lz, lz_cell = lz_cell lz\<rparr>"

section \<open>Facts\<close>

lemma provider_next:
  "sp_transition (provider_spec hash) ''Unregistered'' ''ProviderRegister'' = Some ''Registered''"
  "sp_transition (provider_spec hash) ''Registered'' ''ProviderResolve'' = Some ''Resolving''"
  "sp_transition (provider_spec hash) ''Resolving'' ''DependenciesReady'' = Some ''Constructing''"
  "sp_transition (provider_spec hash) ''Constructing'' ''ProviderConstructed'' = Some ''Resolved''"
  "sp_transition (provider_spec hash) ''Constructing'' ''ErrorConstruction'' = Some ''ResolutionFailed''"
  by (simp_all add: provider_spec_def gen_spec_def gen_transition_def provider_arms)

lemma provider_enter:
  "s \<in> set [''Unregistered'', ''Registered'', ''Resolving'', ''Constructing'', ''Resolved'', ''ResolutionFailed''] \<Longrightarrow>
   sp_enter (provider_spec hash) s = s"
  by (simp add: provider_spec_def gen_spec_def gen_enter_def provider_initials)

text \<open>The events a construction sends are never refused: the chart cannot make a build fail.\<close>

lemma lifecycle_accepted:
  "current_state (lifecycle_new env) = ''Registered''"
  "\<exists>eng. lifecycle_begin env (lifecycle_new env) = Some (Inr eng) \<and> current_state eng = ''Constructing'' \<and>
     (\<exists>eng'. lifecycle_end env eng True = Some eng' \<and> current_state eng' = ''Resolved'') \<and>
     (\<exists>eng'. lifecycle_end env eng False = Some eng' \<and> current_state eng' = ''ResolutionFailed'')"
proof -
  let ?spec = "provider_spec (env_hash env)"
  have send: "\<exists>eng'. lifecycle_send env eng event = Some (Inr eng') \<and> current_state eng' = t"
    if "sp_transition ?spec (current_state eng) event = Some t" "sp_enter ?spec t = t" for eng event t
    using that by (simp add: lifecycle_send_def send_event_def Let_def)
  show new: "current_state (lifecycle_new env) = ''Registered''"
    by (simp add: lifecycle_new_def send_event_state engine_new_def provider_next provider_enter)
  obtain eng1 where 1: "lifecycle_send env (lifecycle_new env) ''ProviderResolve'' = Some (Inr eng1)"
    "current_state eng1 = ''Resolving''"
    using send [of "lifecycle_new env" "''ProviderResolve''" "''Resolving''"] new
    by (auto simp: provider_next provider_enter)
  obtain eng2 where 2: "lifecycle_send env eng1 ''DependenciesReady'' = Some (Inr eng2)"
    "current_state eng2 = ''Constructing''"
    using send [of eng1 "''DependenciesReady''" "''Constructing''"] 1
    by (auto simp: provider_next provider_enter)
  have "\<exists>eng'. lifecycle_end env eng2 True = Some eng' \<and> current_state eng' = ''Resolved''"
    "\<exists>eng'. lifecycle_end env eng2 False = Some eng' \<and> current_state eng' = ''ResolutionFailed''"
    using 2 by (simp_all add: lifecycle_end_def send_event_def Let_def provider_next provider_enter)
  with 1 2 show "\<exists>eng. lifecycle_begin env (lifecycle_new env) = Some (Inr eng) \<and> current_state eng = ''Constructing'' \<and>
     (\<exists>eng'. lifecycle_end env eng True = Some eng' \<and> current_state eng' = ''Resolved'') \<and>
     (\<exists>eng'. lifecycle_end env eng False = Some eng' \<and> current_state eng' = ''ResolutionFailed'')"
    by (simp add: lifecycle_begin_def)
qed

text \<open>A lazy value runs its resolver until the first success and never again; but clones share the value
  only when it was already there when they were made: two clones of an unresolved lazy value each run the
  resolver.\<close>

theorem lazy_resolves_once:
  "(lz_cell lz = Some v \<longrightarrow> lazy_get lz w = (Inr v, lz, w) \<and> lz_cell (lazy_clone lz) = Some v) \<and>
   (fst (lazy_get lz w) = Inr v \<longrightarrow> lazy_get (fst (snd (lazy_get lz w))) w' = (Inr v, fst (snd (lazy_get lz w)), w')) \<and>
   (fst (lazy_get lz w) = Inl e \<longrightarrow> fst (snd (lazy_get lz w)) = lz) \<and>
   (lz_cell lz = None \<longrightarrow> snd (snd (lazy_get (lazy_clone lz) (snd (snd (lazy_get lz w))))) =
      snd (lz_resolver lz (snd (lz_resolver lz w))))"
  by (cases "lz_resolver lz w"; cases "lz_resolver lz (snd (lz_resolver lz w))")
     (auto simp: lazy_get_def lazy_clone_def split: option.splits sum.splits)

theorem lazy_resolves_once_witness:
  "let lz = lazy_new (\<lambda>n :: nat. (Inr n, Suc n)) in
   lazy_get (fst (snd (lazy_get lz 0))) 5 = (Inr 0, fst (snd (lazy_get lz 0)), 5) \<and>
   snd (snd (lazy_get (lazy_clone lz) (snd (snd (lazy_get lz 0))))) = 2"
proof -
  let ?lz = "lazy_new (\<lambda>n :: nat. (Inr n, Suc n))"
  have "fst (lazy_get ?lz 0) = Inr 0" "lz_cell ?lz = None" by (simp_all add: lazy_get_def lazy_new_def)
  with lazy_resolves_once [of ?lz 0 0 5] show ?thesis by (simp add: Let_def) (simp add: lazy_new_def)
qed

end
