(* ===== verification/Di_Container.thy ===== *)
theory Di_Container
  imports Di_Provider
begin

text \<open>
  The dependency container (\<open>nivasa-core/src/di/container.rs\<close>) as a state machine: the shared registry,
  singleton cache and version counters, and one cache per scope handle. Every operation that takes a
  handle takes the number of its scope; \<open>dc_next_addr\<close> hands out the addresses of new \<open>Arc\<close>s.

  An operation runs here without interference; \<open>Di_Race\<close> interleaves the lock acquisitions of two tasks.
  Resolution recurses through the factories it runs; \<open>None\<close> is running out of fuel, and
  \<open>resolve_terminates\<close> shows that enough fuel exists when dependencies are acyclic.
\<close>

named_theorems container \<open>facts on the container's primitive operations\<close>

type_synonym ScopeId = nat

record 'v CachedInstance =
  ci_version :: "64 word"
  ci_value :: "'v Instance"

record 'v DependencyContainer =
  dc_providers :: "'v ProviderRegistry"
  dc_singletons :: "TypeId \<rightharpoonup> 'v CachedInstance"
  dc_versions :: "TypeId \<rightharpoonup> 64 word"
  dc_scoped :: "ScopeId \<Rightarrow> TypeId \<rightharpoonup> 'v CachedInstance"
  dc_next_scope :: ScopeId
  dc_next_addr :: nat

definition container_new :: "ScopeId \<times> 'v DependencyContainer" where
  "container_new =
     (0, \<lparr>dc_providers = Map.empty, dc_singletons = Map.empty, dc_versions = Map.empty,
          dc_scoped = (\<lambda>_. Map.empty), dc_next_scope = 1, dc_next_addr = 0\<rparr>)"

definition create_scope :: "'v DependencyContainer \<Rightarrow> ScopeId \<times> 'v DependencyContainer" where
  "create_scope c =
     (dc_next_scope c,
      c\<lparr>dc_scoped := (dc_scoped c)(dc_next_scope c := Map.empty), dc_next_scope := Suc (dc_next_scope c)\<rparr>)"

text \<open>\<open>Arc::new\<close>.\<close>

definition arc_new :: "TypeId \<Rightarrow> 'v \<Rightarrow> 'v DependencyContainer \<Rightarrow> 'v Instance \<times> 'v DependencyContainer" where
  "arc_new t v c =
     (\<lparr>inst_type = t, inst_addr = dc_next_addr c, inst_value = v\<rparr>, c\<lparr>dc_next_addr := Suc (dc_next_addr c)\<rparr>)"

abbreviation u64_max :: "64 word" where
  "u64_max \<equiv> - 1"

definition saturating_succ :: "64 word \<Rightarrow> 64 word" where
  "saturating_succ v = (if v = u64_max then u64_max else v + 1)"

definition current_version :: "TypeId \<Rightarrow> 'v DependencyContainer \<Rightarrow> 64 word" where
  "current_version type_id c = (case dc_versions c type_id of Some v \<Rightarrow> v | None \<Rightarrow> 0)"

definition bump_version :: "TypeId \<Rightarrow> 'v DependencyContainer \<Rightarrow> 64 word \<times> 'v DependencyContainer" where
  "bump_version type_id c =
     (let next = saturating_succ (current_version type_id c)
      in (next, c\<lparr>dc_versions := (dc_versions c)(type_id \<mapsto> next)\<rparr>))"

section \<open>The single lock acquisitions\<close>

definition insert_provider :: "TypeId \<Rightarrow> 'v Provider \<Rightarrow> 'v DependencyContainer \<Rightarrow> 'v DependencyContainer" where
  "insert_provider type_id provider c =
     c\<lparr>dc_providers := fst (insert_by_id (dc_providers c) type_id provider)\<rparr>"

definition insert_singleton :: "TypeId \<Rightarrow> 64 word \<Rightarrow> 'v Instance \<Rightarrow> 'v DependencyContainer \<Rightarrow> 'v DependencyContainer" where
  "insert_singleton type_id version instance c =
     c\<lparr>dc_singletons := (dc_singletons c)(type_id \<mapsto> \<lparr>ci_version = version, ci_value = instance\<rparr>)\<rparr>"

definition remove_singleton :: "TypeId \<Rightarrow> 'v DependencyContainer \<Rightarrow> 'v DependencyContainer" where
  "remove_singleton type_id c = c\<lparr>dc_singletons := (dc_singletons c)(type_id := None)\<rparr>"

definition remove_scoped :: "ScopeId \<Rightarrow> TypeId \<Rightarrow> 'v DependencyContainer \<Rightarrow> 'v DependencyContainer" where
  "remove_scoped s type_id c =
     c\<lparr>dc_scoped := (dc_scoped c)(s := (dc_scoped c s)(type_id := None))\<rparr>"

definition cache_singleton :: "TypeId \<Rightarrow> 64 word \<Rightarrow> 'v Instance \<Rightarrow> 'v DependencyContainer \<Rightarrow> 'v DependencyContainer" where
  "cache_singleton type_id version instance c = insert_singleton type_id version instance c"

definition cache_scoped :: "ScopeId \<Rightarrow> TypeId \<Rightarrow> 64 word \<Rightarrow> 'v Instance \<Rightarrow> 'v DependencyContainer \<Rightarrow> 'v DependencyContainer" where
  "cache_scoped s type_id version instance c =
     c\<lparr>dc_scoped := (dc_scoped c)(s := (dc_scoped c s)(type_id \<mapsto> \<lparr>ci_version = version, ci_value = instance\<rparr>))\<rparr>"

definition read_cached_singleton ::
  "TypeId \<Rightarrow> 64 word \<Rightarrow> 'v DependencyContainer \<Rightarrow> 'v Instance option \<times> 'v DependencyContainer" where
  "read_cached_singleton type_id version c =
     (case dc_singletons c type_id of
        Some entry \<Rightarrow>
          if ci_version entry = version then (Some (ci_value entry), c) else (None, remove_singleton type_id c)
      | None \<Rightarrow> (None, c))"

definition read_cached_scoped ::
  "ScopeId \<Rightarrow> TypeId \<Rightarrow> 64 word \<Rightarrow> 'v DependencyContainer \<Rightarrow> 'v Instance option \<times> 'v DependencyContainer" where
  "read_cached_scoped s type_id version c =
     (case dc_scoped c s type_id of
        Some entry \<Rightarrow>
          if ci_version entry = version then (Some (ci_value entry), c) else (None, remove_scoped s type_id c)
      | None \<Rightarrow> (None, c))"

section \<open>Registration\<close>

definition register_provider_by_id ::
  "ScopeId \<Rightarrow> TypeId \<Rightarrow> 'v Provider \<Rightarrow> 'v DependencyContainer \<Rightarrow> 'v DependencyContainer" where
  "register_provider_by_id s type_id provider c =
     remove_scoped s type_id (remove_singleton type_id (insert_provider type_id provider (snd (bump_version type_id c))))"

definition register :: "ScopeId \<Rightarrow> TypeId \<Rightarrow> 'v Provider \<Rightarrow> 'v DependencyContainer \<Rightarrow> 'v DependencyContainer" where
  "register s t provider c = register_provider_by_id s t provider c"

definition register_value :: "Env \<Rightarrow> TypeId \<Rightarrow> 'v \<Rightarrow> 'v DependencyContainer \<Rightarrow> 'v DependencyContainer" where
  "register_value env t v c =
     (let (version, c1) = bump_version t c;
          (instance_arc, c2) = arc_new t v c1
      in insert_singleton t version instance_arc (insert_provider t (value_provider_from_arc env instance_arc) c2))"

definition register_injectable ::
  "Env \<Rightarrow> ScopeId \<Rightarrow> TypeId \<Rightarrow> ProviderScope \<Rightarrow> TypeId list \<Rightarrow> 'v Build \<Rightarrow> 'v DependencyContainer \<Rightarrow> 'v DependencyContainer" where
  "register_injectable env s t scope dependencies constructor c =
     remove_scoped s t (remove_singleton t
       (insert_provider t (class_provider_new env t scope dependencies constructor) (snd (bump_version t c))))"

definition register_factory ::
  "Env \<Rightarrow> ScopeId \<Rightarrow> TypeId \<Rightarrow> ProviderScope \<Rightarrow> TypeId list \<Rightarrow> 'v Build \<Rightarrow> 'v DependencyContainer \<Rightarrow> 'v DependencyContainer" where
  "register_factory env s t scope dependencies factory c =
     register_provider_by_id s t (factory_provider_new env t scope dependencies factory) c"

definition export_singleton_value :: "TypeId \<Rightarrow> 'v DependencyContainer \<Rightarrow> (ProviderMetadata \<times> 'v Instance) option" where
  "export_singleton_value type_id c =
     (let version = current_version type_id c in
      case metadata_by_id (dc_providers c) type_id of
        None \<Rightarrow> None
      | Some metadata \<Rightarrow>
          if md_scope metadata \<noteq> Singleton then None
          else case dc_singletons c type_id of
            None \<Rightarrow> None
          | Some cached \<Rightarrow> if ci_version cached \<noteq> version then None else Some (metadata, ci_value cached))"

definition import_singleton_value ::
  "ScopeId \<Rightarrow> ProviderMetadata \<Rightarrow> 'v Instance \<Rightarrow> 'v DependencyContainer \<Rightarrow> 'v DependencyContainer" where
  "import_singleton_value s metadata v c =
     (let type_id = md_type_id metadata; (version, c1) = bump_version type_id c
      in remove_scoped s type_id
           (insert_singleton type_id version v (insert_provider type_id (ImportedValueProvider metadata v) c1)))"

definition has :: "TypeId \<Rightarrow> 'v DependencyContainer \<Rightarrow> bool" where
  "has t c = provider_contains (dc_providers c) t"

definition remove_provider :: "ScopeId \<Rightarrow> TypeId \<Rightarrow> 'v DependencyContainer \<Rightarrow> bool \<times> 'v DependencyContainer" where
  "remove_provider s t c =
     (case remove_by_id (dc_providers c) t of
        (providers, removed) \<Rightarrow>
          let c1 = c\<lparr>dc_providers := providers\<rparr> in
          if removed \<noteq> None
          then (True, remove_scoped s t (remove_singleton t (snd (bump_version t c1))))
          else (False, c1))"

section \<open>Resolution\<close>

definition downcast :: "Env \<Rightarrow> TypeId \<Rightarrow> 'v Instance \<Rightarrow> DiError + 'v Instance" where
  "downcast env t instance =
     (if inst_type instance = t then Inr instance
      else Inl (ConstructionFailed (env_type_name env t) ''Internal error: downcast failed''))"

type_synonym ('v, 'a) run = "((DiError + 'a) \<times> 'v DependencyContainer) option"

fun resolve :: "nat \<Rightarrow> Env \<Rightarrow> ScopeId \<Rightarrow> TypeId \<Rightarrow> 'v DependencyContainer \<Rightarrow> ('v, 'v Instance) run"
  and build_provider_with_lifecycle ::
    "nat \<Rightarrow> Env \<Rightarrow> ScopeId \<Rightarrow> 'v Provider \<Rightarrow> 'v DependencyContainer \<Rightarrow> ('v, 'v Instance) run"
  and run_build :: "nat \<Rightarrow> Env \<Rightarrow> ScopeId \<Rightarrow> 'v Build \<Rightarrow> 'v DependencyContainer \<Rightarrow> ('v, 'v) run"
where
  "resolve 0 env s t c = None"
| "resolve (Suc n) env s t c =
     (let version = current_version t c in
      case get_by_id (dc_providers c) t of
        None \<Rightarrow> Some (Inl (ProviderNotFound (env_type_name env t)), c)
      | Some provider \<Rightarrow>
          (case md_scope (provider_metadata provider) of
             Singleton \<Rightarrow>
               (case read_cached_singleton t version c of
                  (Some cached, c1) \<Rightarrow> Some (downcast env t cached, c1)
                | (None, c1) \<Rightarrow>
                    (case build_provider_with_lifecycle n env s provider c1 of
                       None \<Rightarrow> None
                     | Some (Inl err, c2) \<Rightarrow> Some (Inl err, c2)
                     | Some (Inr instance_any, c2) \<Rightarrow>
                         let cached_version = current_version t c2;
                             c3 = if cached_version = version then cache_singleton t version instance_any c2 else c2
                         in Some (downcast env t instance_any, c3)))
           | Scoped \<Rightarrow>
               (case read_cached_scoped s t version c of
                  (Some cached, c1) \<Rightarrow> Some (downcast env t cached, c1)
                | (None, c1) \<Rightarrow>
                    (case build_provider_with_lifecycle n env s provider c1 of
                       None \<Rightarrow> None
                     | Some (Inl err, c2) \<Rightarrow> Some (Inl err, c2)
                     | Some (Inr instance_any, c2) \<Rightarrow>
                         let cached_version = current_version t c2;
                             c3 = if cached_version = version then cache_scoped s t version instance_any c2 else c2
                         in Some (downcast env t instance_any, c3)))
           | Transient \<Rightarrow>
               (case build_provider_with_lifecycle n env s provider c of
                  None \<Rightarrow> None
                | Some (Inl err, c2) \<Rightarrow> Some (Inl err, c2)
                | Some (Inr instance_any, c2) \<Rightarrow> Some (downcast env t instance_any, c2))))"
| "build_provider_with_lifecycle 0 env s provider c = None"
| "build_provider_with_lifecycle (Suc n) env s provider c =
     (case lifecycle_begin env (lifecycle_new env) of
        None \<Rightarrow> None
      | Some (Inl err) \<Rightarrow> Some (Inl err, c)
      | Some (Inr eng) \<Rightarrow>
          (case provider_source provider of
             Inl stored \<Rightarrow>
               (case lifecycle_end env eng True of None \<Rightarrow> None | Some _ \<Rightarrow> Some (Inr stored, c))
           | Inr script \<Rightarrow>
               (case run_build n env s script c of
                  None \<Rightarrow> None
                | Some (Inl err, c1) \<Rightarrow>
                    (case lifecycle_end env eng False of None \<Rightarrow> None | Some _ \<Rightarrow> Some (Inl err, c1))
                | Some (Inr v, c1) \<Rightarrow>
                    let (instance_any, c2) = arc_new (md_type_id (provider_metadata provider)) v c1 in
                    (case lifecycle_end env eng True of None \<Rightarrow> None | Some _ \<Rightarrow> Some (Inr instance_any, c2)))))"
| "run_build 0 env s script c = None"
| "run_build (Suc n) env s (Finish v) c = Some (Inr v, c)"
| "run_build (Suc n) env s (FailWith err) c = Some (Inl err, c)"
| "run_build (Suc n) env s (Resolve t k) c =
     (case resolve n env s t c of
        None \<Rightarrow> None
      | Some (r, c1) \<Rightarrow> run_build n env s (k r) c1)"
| "run_build (Suc n) env s (Has t k) c = run_build n env s (k (has t c)) c"
| "run_build (Suc n) env s (RegisterValue t v k) c = run_build n env s k (register_value env t v c)"

definition resolve_optional ::
  "nat \<Rightarrow> Env \<Rightarrow> ScopeId \<Rightarrow> TypeId \<Rightarrow> 'v DependencyContainer \<Rightarrow> ('v, 'v Instance option) run" where
  "resolve_optional n env s t c =
     (if has t c then
        (case resolve n env s t c of
           None \<Rightarrow> None
         | Some (Inl err, c1) \<Rightarrow> Some (Inl err, c1)
         | Some (Inr instance, c1) \<Rightarrow> Some (Inr (Some instance), c1))
      else Some (Inr None, c))"

section \<open>Initialisation\<close>

definition is_cached :: "TypeId \<Rightarrow> 'v DependencyContainer \<Rightarrow> bool" where
  "is_cached t c = (case dc_singletons c t of Some entry \<Rightarrow> ci_version entry = current_version t c | None \<Rightarrow> False)"

fun initialize_loop :: "nat \<Rightarrow> Env \<Rightarrow> ScopeId \<Rightarrow> TypeId list \<Rightarrow> 'v DependencyContainer \<Rightarrow> ('v, unit) run" where
  "initialize_loop n env s [] c = Some (Inr (), c)"
| "initialize_loop n env s (type_id # rest) c =
     (case get_by_id (dc_providers c) type_id of
        None \<Rightarrow> initialize_loop n env s rest c
      | Some provider \<Rightarrow>
          if md_scope (provider_metadata provider) = Singleton then
            let version = current_version type_id c in
            if \<not> is_cached type_id c then
              (case build_provider_with_lifecycle n env s provider c of
                 None \<Rightarrow> None
               | Some (Inl err, c1) \<Rightarrow> Some (Inl err, c1)
               | Some (Inr instance_any, c1) \<Rightarrow>
                   let latest_version = current_version type_id c1;
                       c2 = if latest_version = version then cache_singleton type_id version instance_any c1 else c1
                   in initialize_loop n env s rest c2)
            else initialize_loop n env s rest c
          else initialize_loop n env s rest c)"

definition provider_graph :: "TypeId list \<Rightarrow> 'v ProviderRegistry \<Rightarrow> DependencyGraph" where
  "provider_graph ks reg =
     fold (\<lambda>(type_id, provider, _) g.
             add_node g type_id (md_type_name (provider_metadata provider)) (md_dependencies (provider_metadata provider)))
       (registry_snapshot ks reg) graph_new"

definition initialize ::
  "nat \<Rightarrow> Env \<Rightarrow> ScopeId \<Rightarrow> TypeId list \<Rightarrow> TypeId list \<Rightarrow> 'v DependencyContainer \<Rightarrow> ('v, unit) run" where
  "initialize n env s ks graph_keys c =
     (case resolve_order graph_keys (provider_graph ks (dc_providers c)) of
        None \<Rightarrow> None
      | Some (Inl err) \<Rightarrow> Some (Inl err, c)
      | Some (Inr resolution_order) \<Rightarrow> initialize_loop n env s resolution_order c)"

end
