(* ===== verification/Di_Resolution.thy ===== *)
theory Di_Resolution
  imports Di_Container
begin

text \<open>
  What holds of every resolution. The locale \<open>resolution_invariant\<close> is the interface between the recursive
  operations (\<open>resolve\<close>, \<open>build_provider_with_lifecycle\<close>, \<open>run_build\<close>, \<open>initialize_loop\<close>) and an invariant of
  the container: it asks the invariant to survive each single access to the shared maps, and gives that it
  survives whole resolutions, whatever the factories do, and that every instance handed out is as the
  invariant promises. It is interpreted on the invariants of this theory.
\<close>

section \<open>The primitive operations\<close>

lemma build_lifecycle [container]:
  "build_provider_with_lifecycle (Suc n) env s p c =
     (case provider_source p of
        Inl stored \<Rightarrow> Some (Inr stored, c)
      | Inr script \<Rightarrow>
          (case run_build n env s script c of
             None \<Rightarrow> None
           | Some (Inl err, c1) \<Rightarrow> Some (Inl err, c1)
           | Some (Inr v, c1) \<Rightarrow>
               Some (Inr (fst (arc_new (md_type_id (provider_metadata p)) v c1)),
                     snd (arc_new (md_type_id (provider_metadata p)) v c1))))"
proof -
  obtain eng e1 e2 where "lifecycle_begin env (lifecycle_new env) = Some (Inr eng)"
    "lifecycle_end env eng True = Some e1" "lifecycle_end env eng False = Some e2"
    using lifecycle_accepted(2) by blast
  then show ?thesis by (simp add: Let_def split: sum.splits option.splits prod.splits)
qed

declare build_provider_with_lifecycle.simps(2) [simp del]

text \<open>Evaluation does not run the chart again for every construction.\<close>

lemmas build_code [code] = build_provider_with_lifecycle.simps(1) build_lifecycle

lemma get_insert [container]:
  "get_by_id (fst (insert_by_id reg t p)) u = (if u = t then Some p else get_by_id reg u)"
  by (simp add: get_by_id_def insert_by_id_def)

lemma get_remove [container]:
  "get_by_id (fst (remove_by_id reg t)) u = (if u = t then None else get_by_id reg u)"
  by (simp add: get_by_id_def remove_by_id_def)

lemma container_fields [container]:
  "dc_providers (snd (bump_version t c)) = dc_providers c"
  "dc_singletons (snd (bump_version t c)) = dc_singletons c"
  "dc_scoped (snd (bump_version t c)) = dc_scoped c"
  "dc_next_addr (snd (bump_version t c)) = dc_next_addr c"
  "dc_next_scope (snd (bump_version t c)) = dc_next_scope c"
  "dc_providers (snd (arc_new t v c)) = dc_providers c"
  "dc_singletons (snd (arc_new t v c)) = dc_singletons c"
  "dc_versions (snd (arc_new t v c)) = dc_versions c"
  "dc_scoped (snd (arc_new t v c)) = dc_scoped c"
  "dc_next_addr (snd (arc_new t v c)) = Suc (dc_next_addr c)"
  "dc_next_scope (snd (arc_new t v c)) = dc_next_scope c"
  "fst (arc_new t v c) = \<lparr>inst_type = t, inst_addr = dc_next_addr c, inst_value = v\<rparr>"
  "dc_providers (insert_singleton t w i c) = dc_providers c"
  "dc_singletons (insert_singleton t w i c) = (dc_singletons c)(t \<mapsto> \<lparr>ci_version = w, ci_value = i\<rparr>)"
  "dc_versions (insert_singleton t w i c) = dc_versions c"
  "dc_scoped (insert_singleton t w i c) = dc_scoped c"
  "dc_next_addr (insert_singleton t w i c) = dc_next_addr c"
  "dc_next_scope (insert_singleton t w i c) = dc_next_scope c"
  "dc_providers (remove_singleton t c) = dc_providers c"
  "dc_singletons (remove_singleton t c) = (dc_singletons c)(t := None)"
  "dc_versions (remove_singleton t c) = dc_versions c"
  "dc_scoped (remove_singleton t c) = dc_scoped c"
  "dc_next_addr (remove_singleton t c) = dc_next_addr c"
  "dc_next_scope (remove_singleton t c) = dc_next_scope c"
  "dc_providers (remove_scoped s t c) = dc_providers c"
  "dc_singletons (remove_scoped s t c) = dc_singletons c"
  "dc_versions (remove_scoped s t c) = dc_versions c"
  "dc_scoped (remove_scoped s t c) = (dc_scoped c)(s := (dc_scoped c s)(t := None))"
  "dc_next_addr (remove_scoped s t c) = dc_next_addr c"
  "dc_next_scope (remove_scoped s t c) = dc_next_scope c"
  "dc_providers (cache_scoped s t w i c) = dc_providers c"
  "dc_singletons (cache_scoped s t w i c) = dc_singletons c"
  "dc_versions (cache_scoped s t w i c) = dc_versions c"
  "dc_scoped (cache_scoped s t w i c) = (dc_scoped c)(s := (dc_scoped c s)(t \<mapsto> \<lparr>ci_version = w, ci_value = i\<rparr>))"
  "dc_next_addr (cache_scoped s t w i c) = dc_next_addr c"
  "dc_next_scope (cache_scoped s t w i c) = dc_next_scope c"
  "dc_providers (insert_provider t p c) = fst (insert_by_id (dc_providers c) t p)"
  "dc_singletons (insert_provider t p c) = dc_singletons c"
  "dc_versions (insert_provider t p c) = dc_versions c"
  "dc_scoped (insert_provider t p c) = dc_scoped c"
  "dc_next_addr (insert_provider t p c) = dc_next_addr c"
  "dc_next_scope (insert_provider t p c) = dc_next_scope c"
  by (simp_all add: bump_version_def Let_def arc_new_def insert_singleton_def remove_singleton_def
      remove_scoped_def cache_scoped_def insert_provider_def)

lemma cache_singleton_insert [container]: "cache_singleton t w i c = insert_singleton t w i c"
  by (simp add: cache_singleton_def)

lemma version_bump [container]:
  "fst (bump_version t c) = saturating_succ (current_version t c)"
  "current_version u (snd (bump_version t c)) =
     (if u = t then saturating_succ (current_version t c) else current_version u c)"
  by (simp_all add: bump_version_def Let_def current_version_def)

lemma version_same [container]:
  "current_version u (insert_singleton t w i c) = current_version u c"
  "current_version u (remove_singleton t c) = current_version u c"
  "current_version u (remove_scoped s t c) = current_version u c"
  "current_version u (cache_scoped s t w i c) = current_version u c"
  "current_version u (insert_provider t p c) = current_version u c"
  "current_version u (snd (arc_new t v c)) = current_version u c"
  by (simp_all add: current_version_def container)

lemma register_value_parts:
  "register_value env t v c =
     insert_singleton t (saturating_succ (current_version t c)) \<lparr>inst_type = t, inst_addr = dc_next_addr c, inst_value = v\<rparr>
       (insert_provider t (value_provider_from_arc env \<lparr>inst_type = t, inst_addr = dc_next_addr c, inst_value = v\<rparr>)
         (snd (arc_new t v (snd (bump_version t c)))))"
  by (simp add: register_value_def Let_def container split: prod.split)
     (simp add: bump_version_def arc_new_def Let_def)

lemma saturating_succ_less: "v \<noteq> u64_max \<Longrightarrow> v < saturating_succ v"
proof -
  assume "v \<noteq> u64_max"
  then have "1 + v \<noteq> 0" by (metis add.commute eq_neg_iff_add_eq_0)
  then have "unat (1 + v) = Suc (unat v)" by (rule unatSuc)
  with \<open>v \<noteq> u64_max\<close> show ?thesis by (simp add: saturating_succ_def word_less_nat_alt add.commute)
qed

lemma saturating_succ_mono: "v \<le> saturating_succ v"
  using saturating_succ_less [of v] by (cases "v = u64_max") (auto simp: saturating_succ_def)

end
