(* ===== verification/Di_Invariants.thy ===== *)
theory Di_Invariants
  imports Di_Resolution
begin

text \<open>
  Invariants of the container. The locale \<open>resolution_invariant\<close> is the interface between the recursive
  operations (\<open>resolve\<close>, \<open>build_provider_with_lifecycle\<close>, \<open>run_build\<close>, \<open>initialize_loop\<close>) and an invariant:
  it asks the invariant to survive each single access to the shared maps, and gives that it survives whole
  resolutions, whatever the factories do, and that every instance handed out is as the invariant promises.
  The interpretations below are the invariants the properties rest on.
\<close>

locale resolution_invariant =
  fixes inv :: "'v DependencyContainer \<Rightarrow> bool"
    and ok :: "nat \<Rightarrow> TypeId \<Rightarrow> 'v Instance \<Rightarrow> bool"
    and env :: Env
    and s :: ScopeId
  assumes stored: "inv c \<Longrightarrow> get_by_id (dc_providers c) t = Some p \<Longrightarrow> provider_source p = Inl i \<Longrightarrow>
      ok (dc_next_addr c) t i"
    and built: "inv c \<Longrightarrow> get_by_id (dc_providers c) t = Some p \<Longrightarrow> provider_source p = Inr f \<Longrightarrow>
      dc_next_addr c \<le> a \<Longrightarrow>
      ok (Suc a) t \<lparr>inst_type = md_type_id (provider_metadata p), inst_addr = a, inst_value = v\<rparr>"
    and ok_mono: "ok a t i \<Longrightarrow> a \<le> b \<Longrightarrow> ok b t i"
    and cached_singleton: "inv c \<Longrightarrow> dc_singletons c t = Some e \<Longrightarrow> ci_version e = current_version t c \<Longrightarrow>
      ok (dc_next_addr c) t (ci_value e)"
    and cached_scoped: "inv c \<Longrightarrow> dc_scoped c s t = Some e \<Longrightarrow> ci_version e = current_version t c \<Longrightarrow>
      ok (dc_next_addr c) t (ci_value e)"
    and inv_arc: "inv c \<Longrightarrow> inv (snd (arc_new t v c))"
    and inv_cache_singleton: "inv c \<Longrightarrow> ok (dc_next_addr c) t i \<Longrightarrow>
      inv (insert_singleton t (current_version t c) i c)"
    and inv_cache_scoped: "inv c \<Longrightarrow> ok (dc_next_addr c) t i \<Longrightarrow>
      inv (cache_scoped s t (current_version t c) i c)"
    and inv_drop_singleton: "inv c \<Longrightarrow> dc_singletons c t = Some e \<Longrightarrow> ci_version e \<noteq> current_version t c \<Longrightarrow>
      inv (remove_singleton t c)"
    and inv_drop_scoped: "inv c \<Longrightarrow> dc_scoped c s t = Some e \<Longrightarrow> ci_version e \<noteq> current_version t c \<Longrightarrow>
      inv (remove_scoped s t c)"
    and inv_register_value: "inv c \<Longrightarrow> inv (register_value env t v c)"
begin

lemma read_singleton:
  assumes "inv c" "read_cached_singleton t (current_version t c) c = (r, c')"
  shows "inv c' \<and> dc_next_addr c' = dc_next_addr c \<and> dc_providers c' = dc_providers c \<and>
    current_version t c' = current_version t c \<and> (\<forall>i. r = Some i \<longrightarrow> ok (dc_next_addr c) t i)"
  using assms cached_singleton [OF assms(1), of t] inv_drop_singleton [OF assms(1), of t]
  by (auto simp: read_cached_singleton_def container split: option.splits if_splits)

lemma read_scoped:
  assumes "inv c" "read_cached_scoped s t (current_version t c) c = (r, c')"
  shows "inv c' \<and> dc_next_addr c' = dc_next_addr c \<and> dc_providers c' = dc_providers c \<and>
    current_version t c' = current_version t c \<and> (\<forall>i. r = Some i \<longrightarrow> ok (dc_next_addr c) t i)"
  using assms cached_scoped [OF assms(1), of t] inv_drop_scoped [OF assms(1), of t]
  by (auto simp: read_cached_scoped_def container split: option.splits if_splits)

lemma register_value_next: "dc_next_addr (register_value env t v c) = Suc (dc_next_addr c)"
  by (simp add: register_value_parts container)

definition resolves :: "'v DependencyContainer \<Rightarrow> TypeId \<Rightarrow> DiError + 'v Instance \<Rightarrow> 'v DependencyContainer \<Rightarrow> bool" where
  "resolves c t r c' \<longleftrightarrow> inv c' \<and> dc_next_addr c \<le> dc_next_addr c' \<and> (\<forall>i. r = Inr i \<longrightarrow> ok (dc_next_addr c') t i)"

lemma downcast_Inr: "downcast env t i = Inr j \<longleftrightarrow> j = i \<and> inst_type i = t"
  by (auto simp: downcast_def)

lemma built_then:
  assumes "resolves c t (Inr i) c'" "dc_next_addr c0 \<le> dc_next_addr c"
  shows "resolves c0 t (downcast env t i) c'"
    "resolves c0 t (downcast env t i) (insert_singleton t (current_version t c') i c')"
    "resolves c0 t (downcast env t i) (cache_scoped s t (current_version t c') i c')"
  using assms by (auto simp: resolves_def downcast_Inr container inv_cache_singleton inv_cache_scoped)

lemma resolution:
  "inv c \<Longrightarrow> resolve n env' s' t c = Some (r, c') \<Longrightarrow> env' = env \<Longrightarrow> s' = s \<Longrightarrow> resolves c t r c'"
  "inv c \<Longrightarrow> build_provider_with_lifecycle n env' s' p c = Some (r, c') \<Longrightarrow> env' = env \<Longrightarrow> s' = s \<Longrightarrow>
     get_by_id (dc_providers c) t = Some p \<Longrightarrow> resolves c t r c'"
  "inv c \<Longrightarrow> run_build n env' s' script c = Some (v, c') \<Longrightarrow> env' = env \<Longrightarrow> s' = s \<Longrightarrow>
     inv c' \<and> dc_next_addr c \<le> dc_next_addr c'"
proof (induction n env' s' t c and n env' s' p c and n env' s' script c
    arbitrary: r c' and r c' t and v c' rule: resolve_build_provider_with_lifecycle_run_build.induct)
  case (2 n env' s' t c)
  show ?case
  proof (cases "get_by_id (dc_providers c) t")
    case None
    with 2 show ?thesis by (auto simp: resolves_def)
  next
    case (Some p)
    show ?thesis
    proof (cases "md_scope (provider_metadata p)")
      case Singleton
      obtain hit c1 where read: "read_cached_singleton t (current_version t c) c = (hit, c1)"
        by (cases "read_cached_singleton t (current_version t c) c")
      note c1 = read_singleton [OF "2.prems"(1) read]
      show ?thesis
      proof (cases hit)
        case (Some i)
        with "2.prems" Singleton \<open>get_by_id _ _ = Some p\<close> read c1 show ?thesis
          by (auto simp: resolves_def downcast_Inr)
      next
        case None
        obtain r2 c2 where b: "build_provider_with_lifecycle n env s p c1 = Some (r2, c2)"
          using "2.prems" Singleton Some read None by (auto simp: Let_def split: option.splits)
        have post: "resolves c1 t r2 c2"
          using "2.IH"(1) [OF refl Some Singleton read [symmetric] None] c1 b Some "2.prems" by simp
        show ?thesis
        proof (cases r2)
          case (Inl err)
          with post b "2.prems" Singleton Some read None c1 show ?thesis by (auto simp: Let_def resolves_def)
        next
          case (Inr i)
          note after = built_then [OF post [unfolded Inr], of c]
          show ?thesis
            using after b "2.prems" Singleton Some read None c1 Inr by (auto simp: Let_def container split: if_splits)
        qed
      qed
    next
      case Scoped
      obtain hit c1 where read: "read_cached_scoped s' t (current_version t c) c = (hit, c1)"
        by (cases "read_cached_scoped s' t (current_version t c) c")
      note c1 = read_scoped [OF "2.prems"(1) read [unfolded \<open>s' = s\<close>]]
      show ?thesis
      proof (cases hit)
        case (Some i)
        with "2.prems" Scoped \<open>get_by_id _ _ = Some p\<close> read c1 show ?thesis
          by (auto simp: resolves_def downcast_Inr)
      next
        case None
        obtain r2 c2 where b: "build_provider_with_lifecycle n env s p c1 = Some (r2, c2)"
          using "2.prems" Scoped Some read None by (auto simp: Let_def split: option.splits)
        have post: "resolves c1 t r2 c2"
          using "2.IH"(2) [OF refl Some Scoped read [symmetric] None] c1 b Some "2.prems" by simp
        show ?thesis
        proof (cases r2)
          case (Inl err)
          with post b "2.prems" Scoped Some read None c1 show ?thesis by (auto simp: Let_def resolves_def)
        next
          case (Inr i)
          note after = built_then [OF post [unfolded Inr], of c]
          show ?thesis
            using after b "2.prems" Scoped Some read None c1 Inr by (auto simp: Let_def container split: if_splits)
        qed
      qed
    next
      case Transient
      obtain r2 c2 where b: "build_provider_with_lifecycle n env s p c = Some (r2, c2)"
        using "2.prems" Transient Some by (auto split: option.splits)
      have post: "resolves c t r2 c2"
        using "2.IH"(3) [OF refl Some Transient] b Some "2.prems" by simp
      show ?thesis
      proof (cases r2)
        case (Inl err)
        with post b "2.prems" Transient Some show ?thesis by (auto simp: Let_def resolves_def)
      next
        case (Inr i)
        with built_then [OF post [unfolded Inr], of c] b "2.prems" Transient Some show ?thesis by simp
      qed
    qed
  qed
next
  case (4 n env' s' p c)
  show ?case
  proof (cases "provider_source p")
    case (Inl i)
    with 4 show ?thesis by (auto simp: resolves_def container stored)
  next
    case (Inr script)
    obtain r1 c1 where run: "run_build n env s script c = Some (r1, c1)"
      using "4.prems" Inr by (auto simp: container split: option.splits)
    obtain eng where eng: "lifecycle_begin env' (lifecycle_new env') = Some (Inr eng)"
      using lifecycle_accepted(2) by blast
    have c1: "inv c1 \<and> dc_next_addr c \<le> dc_next_addr c1"
      using "4.IH" [OF eng _ Inr] "4.prems" run by simp
    then have "ok (Suc (dc_next_addr c1)) t
        \<lparr>inst_type = md_type_id (provider_metadata p), inst_addr = dc_next_addr c1, inst_value = v\<rparr>" for v
      using built "4.prems" Inr by blast
    with "4.prems" Inr run c1 show ?thesis
      by (auto simp: container resolves_def inv_arc split: sum.splits)
  qed
next
  case (8 n env' s' t k c)
  obtain r1 c1 where res: "resolve n env s t c = Some (r1, c1)"
    using "8.prems" by (auto split: option.splits)
  then have "resolves c t r1 c1" using "8.IH"(1) "8.prems" by simp
  then show ?case
    using "8.IH"(2) [of "(r1, c1)" r1 c1] res "8.prems" by (fastforce simp: resolves_def)
next
  case (10 n env' s' t v' k c)
  then show ?case using inv_register_value [of c t v'] register_value_next [of t v' c] by fastforce
qed auto

lemma resolve_keeps:
  "inv c \<Longrightarrow> resolve n env s t c = Some (r, c') \<Longrightarrow> inv c'"
  "inv c \<Longrightarrow> resolve n env s t c = Some (r, c') \<Longrightarrow> dc_next_addr c \<le> dc_next_addr c'"
  "inv c \<Longrightarrow> resolve n env s t c = Some (Inr i, c') \<Longrightarrow> ok (dc_next_addr c') t i"
  using resolution(1) [of c n env s t] by (auto simp: resolves_def)

lemma build_keeps:
  "inv c \<Longrightarrow> build_provider_with_lifecycle n env s p c = Some (r, c') \<Longrightarrow>
     get_by_id (dc_providers c) t = Some p \<Longrightarrow> resolves c t r c'"
  using resolution(2) by blast

lemma run_keeps:
  "inv c \<Longrightarrow> run_build n env s script c = Some (v, c') \<Longrightarrow> inv c' \<and> dc_next_addr c \<le> dc_next_addr c'"
  using resolution(3) by blast

lemma initialize_loop_keeps:
  "inv c \<Longrightarrow> initialize_loop n env s ts c = Some (r, c') \<Longrightarrow> inv c' \<and> dc_next_addr c \<le> dc_next_addr c'"
proof (induction ts arbitrary: c)
  case (Cons t ts)
  show ?case
  proof (cases "\<exists>p. get_by_id (dc_providers c) t = Some p \<and> md_scope (provider_metadata p) = Singleton \<and> \<not> is_cached t c")
    case False
    with Cons show ?thesis by (auto simp: Let_def split: option.splits if_splits)
  next
    case True
    then obtain p where p: "get_by_id (dc_providers c) t = Some p" "md_scope (provider_metadata p) = Singleton"
      "\<not> is_cached t c" by blast
    obtain r1 c1 where b: "build_provider_with_lifecycle n env s p c = Some (r1, c1)"
      using Cons.prems p by (auto simp: Let_def split: option.splits)
    note post = build_keeps [OF Cons.prems(1) b p(1)]
    show ?thesis
    proof (cases r1)
      case (Inl err)
      with post b p Cons.prems show ?thesis by (auto simp: Let_def resolves_def)
    next
      case (Inr i)
      have "inv (insert_singleton t (current_version t c1) i c1)"
        using post Inr by (simp add: resolves_def inv_cache_singleton)
      moreover have "inv c1" "dc_next_addr c \<le> dc_next_addr c1" using post by (simp_all add: resolves_def)
      ultimately show ?thesis
        using Cons.IH [of c1] Cons.IH [of "insert_singleton t (current_version t c1) i c1"] b p Inr Cons.prems
        by (auto simp: Let_def container split: if_splits)
    qed
  qed
qed simp

lemma initialize_keeps:
  "inv c \<Longrightarrow> initialize n env s ks gks c = Some (r, c') \<Longrightarrow> inv c' \<and> dc_next_addr c \<le> dc_next_addr c'"
  by (auto simp: initialize_def dest: initialize_loop_keeps split: option.splits sum.splits)

end

end
