(* ===== verification/Di_Operations.thy ===== *)
theory Di_Operations
  imports Di_Invariants
begin

text \<open>
  Whole histories of a container: the public operations as data, what a run of them does, and the
  well-formedness every reachable container has.
\<close>

section \<open>Histories\<close>

datatype 'v ContainerOp =
    OpCreateScope
  | OpRegister ScopeId TypeId "'v Provider"
  | OpRegisterValue TypeId 'v
  | OpRegisterInjectable ScopeId TypeId ProviderScope "TypeId list" "'v Build"
  | OpRegisterFactory ScopeId TypeId ProviderScope "TypeId list" "'v Build"
  | OpImport ScopeId ProviderMetadata "'v Instance"
  | OpRemove ScopeId TypeId
  | OpResolve nat ScopeId TypeId
  | OpInitialize nat ScopeId "TypeId list" "TypeId list"

text \<open>The container after an operation; \<open>None\<close> when it does not return with the given fuel.\<close>

fun run_op :: "Env \<Rightarrow> 'v ContainerOp \<Rightarrow> 'v DependencyContainer \<Rightarrow> 'v DependencyContainer option" where
  "run_op env OpCreateScope c = Some (snd (create_scope c))"
| "run_op env (OpRegister s t p) c = Some (register s t p c)"
| "run_op env (OpRegisterValue t v) c = Some (register_value env t v c)"
| "run_op env (OpRegisterInjectable s t scope deps f) c = Some (register_injectable env s t scope deps f c)"
| "run_op env (OpRegisterFactory s t scope deps f) c = Some (register_factory env s t scope deps f c)"
| "run_op env (OpImport s md i) c = Some (import_singleton_value s md i c)"
| "run_op env (OpRemove s t) c = Some (snd (remove_provider s t c))"
| "run_op env (OpResolve n s t) c = map_option snd (resolve n env s t c)"
| "run_op env (OpInitialize n s ks gks) c = map_option snd (initialize n env s ks gks c)"

fun run_ops :: "Env \<Rightarrow> 'v ContainerOp list \<Rightarrow> 'v DependencyContainer \<Rightarrow> 'v DependencyContainer option" where
  "run_ops env [] c = Some c"
| "run_ops env (op # ops) c =
     (case run_op env op c of None \<Rightarrow> None | Some c1 \<Rightarrow> run_ops env ops c1)"

text \<open>
  What callers respect: handles exist, a provider is registered under its own type, and an \<open>Arc\<close> that is
  passed in points to allocated memory. \<open>N\<close> is 0 except where a property follows the instances of \<open>t0\<close>
  allocated from address \<open>N\<close> on.
\<close>

definition good_instance :: "TypeId \<Rightarrow> nat \<Rightarrow> nat \<Rightarrow> TypeId \<Rightarrow> 'v Instance \<Rightarrow> bool" where
  "good_instance t0 N a t i \<longleftrightarrow> inst_type i = t \<and> inst_addr i < a \<and> (t = t0 \<longrightarrow> N \<le> inst_addr i)"

definition good_provider :: "TypeId \<Rightarrow> nat \<Rightarrow> nat \<Rightarrow> TypeId \<Rightarrow> 'v Provider \<Rightarrow> bool" where
  "good_provider t0 N a t p \<longleftrightarrow>
     md_type_id (provider_metadata p) = t \<and>
     (case provider_source p of Inl i \<Rightarrow> good_instance t0 N a t i | Inr _ \<Rightarrow> True)"

fun allowed_op :: "TypeId \<Rightarrow> nat \<Rightarrow> 'v DependencyContainer \<Rightarrow> 'v ContainerOp \<Rightarrow> bool" where
  "allowed_op t0 N c (OpRegister s t p) \<longleftrightarrow> s < dc_next_scope c \<and> good_provider t0 N (dc_next_addr c) t p"
| "allowed_op t0 N c (OpRegisterInjectable s t scope deps f) \<longleftrightarrow> s < dc_next_scope c"
| "allowed_op t0 N c (OpRegisterFactory s t scope deps f) \<longleftrightarrow> s < dc_next_scope c"
| "allowed_op t0 N c (OpImport s md i) \<longleftrightarrow>
     s < dc_next_scope c \<and> good_instance t0 N (dc_next_addr c) (md_type_id md) i"
| "allowed_op t0 N c (OpRemove s t) \<longleftrightarrow> s < dc_next_scope c"
| "allowed_op t0 N c (OpResolve n s t) \<longleftrightarrow> s < dc_next_scope c"
| "allowed_op t0 N c (OpInitialize n s ks gks) \<longleftrightarrow> s < dc_next_scope c"
| "allowed_op t0 N c _ \<longleftrightarrow> True"

fun allowed_ops :: "Env \<Rightarrow> TypeId \<Rightarrow> nat \<Rightarrow> 'v DependencyContainer \<Rightarrow> 'v ContainerOp list \<Rightarrow> bool" where
  "allowed_ops env t0 N c [] \<longleftrightarrow> True"
| "allowed_ops env t0 N c (op # ops) \<longleftrightarrow>
     allowed_op t0 N c op \<and> (case run_op env op c of None \<Rightarrow> True | Some c1 \<Rightarrow> allowed_ops env t0 N c1 ops)"

section \<open>Well-formed containers\<close>

definition entry_ok :: "TypeId \<Rightarrow> nat \<Rightarrow> nat \<Rightarrow> 64 word \<Rightarrow> TypeId \<Rightarrow> 'v CachedInstance \<Rightarrow> bool" where
  "entry_ok t0 N a w t e \<longleftrightarrow>
     ci_version e \<le> w \<and> good_instance t0 (if ci_version e = w then N else 0) a t (ci_value e)"

definition metadata_recorded :: "'v ProviderRegistry \<Rightarrow> bool" where
  "metadata_recorded reg \<longleftrightarrow> (\<forall>t e. reg t = Some e \<longrightarrow> pe_metadata e = provider_metadata (pe_provider e))"

lemma metadata_recorded_change [container]:
  "metadata_recorded reg \<Longrightarrow> metadata_recorded (fst (insert_by_id reg t p))"
  "metadata_recorded reg \<Longrightarrow> metadata_recorded (fst (remove_by_id reg t))"
  by (auto simp: metadata_recorded_def insert_by_id_def remove_by_id_def)

definition container_fresh :: "TypeId \<Rightarrow> nat \<Rightarrow> 'v DependencyContainer \<Rightarrow> bool" where
  "container_fresh t0 N c \<longleftrightarrow>
     N \<le> dc_next_addr c \<and>
     metadata_recorded (dc_providers c) \<and>
     (\<forall>t p. get_by_id (dc_providers c) t = Some p \<longrightarrow> good_provider t0 N (dc_next_addr c) t p) \<and>
     (\<forall>t e. dc_singletons c t = Some e \<longrightarrow> entry_ok t0 N (dc_next_addr c) (current_version t c) t e) \<and>
     (\<forall>s t e. dc_scoped c s t = Some e \<longrightarrow> entry_ok t0 N (dc_next_addr c) (current_version t c) t e \<and> s < dc_next_scope c)"

abbreviation container_ok :: "'v DependencyContainer \<Rightarrow> bool" where
  "container_ok \<equiv> container_fresh 0 0"

lemma good_instance_mono: "good_instance t0 N a t i \<Longrightarrow> a \<le> b \<Longrightarrow> good_instance t0 N b t i"
  by (simp add: good_instance_def)

lemma good_provider_mono: "good_provider t0 N a t p \<Longrightarrow> a \<le> b \<Longrightarrow> good_provider t0 N b t p"
  by (auto simp: good_provider_def good_instance_mono split: sum.splits)

lemma entry_ok_mono: "entry_ok t0 N a w t e \<Longrightarrow> a \<le> b \<Longrightarrow> entry_ok t0 N b w t e"
  by (auto simp: entry_ok_def good_instance_def)

lemma entry_ok_bump: "entry_ok t0 N a w t e \<Longrightarrow> entry_ok t0 N a (saturating_succ w) t e"
proof -
  assume e: "entry_ok t0 N a w t e"
  then have le: "ci_version e \<le> saturating_succ w"
    using saturating_succ_mono [of w] by (auto simp: entry_ok_def)
  have "ci_version e = w" if "ci_version e = saturating_succ w"
    using saturating_succ_less [of w] e that by (cases "w = u64_max") (auto simp: entry_ok_def saturating_succ_def)
  with e le show ?thesis by (auto simp: entry_ok_def good_instance_def)
qed

lemma entry_ok_current: "entry_ok t0 N a w t e \<Longrightarrow> ci_version e = w \<Longrightarrow> good_instance t0 N a t (ci_value e)"
  by (simp add: entry_ok_def)

lemma entry_ok_new: "good_instance t0 N a t i \<Longrightarrow> entry_ok t0 N a w t \<lparr>ci_version = w, ci_value = i\<rparr>"
  by (simp add: entry_ok_def)

lemma container_new_fresh: "container_fresh t0 0 (snd container_new)"
  by (simp add: container_fresh_def container_new_def get_by_id_def metadata_recorded_def)

lemma create_scope_fields [container]:
  "dc_providers (snd (create_scope c)) = dc_providers c"
  "dc_singletons (snd (create_scope c)) = dc_singletons c"
  "dc_next_addr (snd (create_scope c)) = dc_next_addr c"
  "dc_next_scope (snd (create_scope c)) = Suc (dc_next_scope c)"
  "dc_scoped (snd (create_scope c)) = (dc_scoped c)(dc_next_scope c := Map.empty)"
  "current_version t (snd (create_scope c)) = current_version t c"
  by (simp_all add: create_scope_def current_version_def)

lemma create_scope_fresh: "container_fresh t0 N c \<Longrightarrow> container_fresh t0 N (snd (create_scope c))"
  by (fastforce simp: container_fresh_def container)

lemma bump_fresh: "container_fresh t0 N c \<Longrightarrow> container_fresh t0 N (snd (bump_version t c))"
  by (simp add: container_fresh_def container entry_ok_bump)

lemma arc_fresh: "container_fresh t0 N c \<Longrightarrow> container_fresh t0 N (snd (arc_new t v c))"
  by (fastforce simp: container_fresh_def container intro: good_provider_mono entry_ok_mono)

lemma insert_provider_fresh:
  "container_fresh t0 N c \<Longrightarrow> good_provider t0 N (dc_next_addr c) t p \<Longrightarrow> container_fresh t0 N (insert_provider t p c)"
  by (simp add: container_fresh_def container)

lemma insert_singleton_fresh:
  "container_fresh t0 N c \<Longrightarrow> good_instance t0 N (dc_next_addr c) t i \<Longrightarrow> w = current_version t c \<Longrightarrow>
   container_fresh t0 N (insert_singleton t w i c)"
  by (simp add: container_fresh_def container entry_ok_new)

lemma cache_scoped_fresh:
  "container_fresh t0 N c \<Longrightarrow> good_instance t0 N (dc_next_addr c) t i \<Longrightarrow> s < dc_next_scope c \<Longrightarrow>
   container_fresh t0 N (cache_scoped s t (current_version t c) i c)"
  by (auto simp: container_fresh_def container entry_ok_new)

lemma remove_singleton_fresh: "container_fresh t0 N c \<Longrightarrow> container_fresh t0 N (remove_singleton t c)"
  by (simp add: container_fresh_def container)

lemma remove_scoped_fresh: "container_fresh t0 N c \<Longrightarrow> container_fresh t0 N (remove_scoped s t c)"
  by (auto simp: container_fresh_def container)

lemma register_value_fresh: "container_fresh t0 N c \<Longrightarrow> container_fresh t0 N (register_value env t v c)"
proof -
  assume c: "container_fresh t0 N c"
  then have "good_instance t0 N (Suc (dc_next_addr c)) t \<lparr>inst_type = t, inst_addr = dc_next_addr c, inst_value = v\<rparr>"
    by (simp add: good_instance_def container_fresh_def)
  with c show ?thesis
    unfolding register_value_parts
    by (intro insert_singleton_fresh insert_provider_fresh arc_fresh bump_fresh)
       (simp_all add: container good_provider_def value_provider_from_arc_def)
qed

interpretation fresh: resolution_invariant
  "\<lambda>c. container_fresh t0 N c \<and> s < dc_next_scope c" "good_instance t0 N" env s for t0 N env s
proof
  fix c :: "'a DependencyContainer" and t p i f e a and v :: 'a
  assume inv: "container_fresh t0 N c \<and> s < dc_next_scope c"
  then have get: "get_by_id (dc_providers c) t = Some p \<Longrightarrow> good_provider t0 N (dc_next_addr c) t p"
    and le: "N \<le> dc_next_addr c"
    and single: "dc_singletons c t = Some e \<Longrightarrow> entry_ok t0 N (dc_next_addr c) (current_version t c) t e"
    and scoped: "dc_scoped c s t = Some e \<Longrightarrow> entry_ok t0 N (dc_next_addr c) (current_version t c) t e"
    by (simp_all add: container_fresh_def)
  show "get_by_id (dc_providers c) t = Some p \<Longrightarrow> provider_source p = Inl i \<Longrightarrow> good_instance t0 N (dc_next_addr c) t i"
    using get by (simp add: good_provider_def)
  show "get_by_id (dc_providers c) t = Some p \<Longrightarrow> provider_source p = Inr f \<Longrightarrow> dc_next_addr c \<le> a \<Longrightarrow>
      good_instance t0 N (Suc a) t \<lparr>inst_type = md_type_id (provider_metadata p), inst_addr = a, inst_value = v\<rparr>"
    using get le by (simp add: good_provider_def good_instance_def)
  show "dc_singletons c t = Some e \<Longrightarrow> ci_version e = current_version t c \<Longrightarrow> good_instance t0 N (dc_next_addr c) t (ci_value e)"
    using single by (simp add: entry_ok_current)
  show "dc_scoped c s t = Some e \<Longrightarrow> ci_version e = current_version t c \<Longrightarrow> good_instance t0 N (dc_next_addr c) t (ci_value e)"
    using scoped by (simp add: entry_ok_current)
  show "container_fresh t0 N (snd (arc_new t v c)) \<and> s < dc_next_scope (snd (arc_new t v c))"
    using inv by (simp add: arc_fresh container)
  show "good_instance t0 N (dc_next_addr c) t i \<Longrightarrow>
      container_fresh t0 N (insert_singleton t (current_version t c) i c) \<and>
      s < dc_next_scope (insert_singleton t (current_version t c) i c)"
    using inv by (simp add: insert_singleton_fresh container)
  show "good_instance t0 N (dc_next_addr c) t i \<Longrightarrow>
      container_fresh t0 N (cache_scoped s t (current_version t c) i c) \<and>
      s < dc_next_scope (cache_scoped s t (current_version t c) i c)"
    using inv by (simp add: cache_scoped_fresh container)
  show "dc_singletons c t = Some e \<Longrightarrow> ci_version e \<noteq> current_version t c \<Longrightarrow>
      container_fresh t0 N (remove_singleton t c) \<and> s < dc_next_scope (remove_singleton t c)"
    using inv by (simp add: remove_singleton_fresh container)
  show "dc_scoped c s t = Some e \<Longrightarrow> ci_version e \<noteq> current_version t c \<Longrightarrow>
      container_fresh t0 N (remove_scoped s t c) \<and> s < dc_next_scope (remove_scoped s t c)"
    using inv by (simp add: remove_scoped_fresh container)
  show "container_fresh t0 N (register_value env t v c) \<and> s < dc_next_scope (register_value env t v c)"
    using inv register_value_fresh [of t0 N c env t v] by (simp add: register_value_parts container)
qed (rule good_instance_mono)

lemma register_provider_fresh:
  "container_fresh t0 N c \<Longrightarrow> good_provider t0 N (dc_next_addr c) t p \<Longrightarrow>
   container_fresh t0 N (register_provider_by_id s t p c)"
  by (simp add: register_provider_by_id_def remove_scoped_fresh remove_singleton_fresh insert_provider_fresh
      bump_fresh container)

lemma import_parts:
  "import_singleton_value s md v c =
     remove_scoped s (md_type_id md)
       (insert_singleton (md_type_id md) (saturating_succ (current_version (md_type_id md) c)) v
         (insert_provider (md_type_id md) (ImportedValueProvider md v) (snd (bump_version (md_type_id md) c))))"
  by (simp add: import_singleton_value_def bump_version_def Let_def)

lemma run_op_fresh:
  assumes "container_fresh t0 N c" "allowed_op t0 N c op" "run_op env op c = Some c'"
  shows "container_fresh t0 N c'"
proof (cases op)
  case (OpResolve n s t)
  then obtain r where "resolve n env s t c = Some (r, c')" using assms(3) by auto
  with fresh.resolve_keeps(1) [of t0 N c s n env t r c'] assms OpResolve show ?thesis by auto
next
  case (OpInitialize n s ks gks)
  then obtain r where "initialize n env s ks gks c = Some (r, c')" using assms(3) by auto
  with fresh.initialize_keeps [of t0 N c s n env ks gks r c'] assms OpInitialize show ?thesis by auto
next
  case (OpRegister s t p)
  with assms show ?thesis by (auto simp: register_def register_provider_fresh)
next
  case (OpRegisterInjectable s t scope deps f)
  with assms show ?thesis
    by (auto simp: register_injectable_def remove_scoped_fresh remove_singleton_fresh insert_provider_fresh
        bump_fresh container good_provider_def class_provider_new_def)
next
  case (OpRegisterFactory s t scope deps f)
  with assms show ?thesis
    by (auto simp: register_factory_def good_provider_def factory_provider_new_def register_provider_fresh)
next
  case (OpImport s md i)
  with assms show ?thesis
    by (auto simp: import_parts container good_provider_def
        intro!: remove_scoped_fresh insert_singleton_fresh insert_provider_fresh bump_fresh)
next
  case (OpRemove s t)
  have "container_fresh t0 N (c\<lparr>dc_providers := fst (remove_by_id (dc_providers c) t)\<rparr>)"
    using assms(1) by (auto simp: container_fresh_def container current_version_def split: if_splits)
  with assms OpRemove show ?thesis
    by (auto simp: remove_provider_def Let_def remove_by_id_def remove_scoped_fresh remove_singleton_fresh bump_fresh)
qed (use assms in \<open>auto simp: create_scope_fresh register_value_fresh\<close>)

lemma run_ops_fresh:
  "container_fresh t0 N c \<Longrightarrow> allowed_ops env t0 N c ops \<Longrightarrow> run_ops env ops c = Some c' \<Longrightarrow> container_fresh t0 N c'"
  by (induction ops arbitrary: c) (auto split: option.splits dest: run_op_fresh)

text \<open>The containers a program can produce.\<close>

definition reachable_container :: "Env \<Rightarrow> 'v DependencyContainer \<Rightarrow> bool" where
  "reachable_container env c \<longleftrightarrow>
     (\<exists>ops. allowed_ops env 0 0 (snd container_new) ops \<and> run_ops env ops (snd container_new) = Some c)"

lemma reachable_ok: "reachable_container env c \<Longrightarrow> container_ok c"
  using container_new_fresh [of 0] by (auto simp: reachable_container_def dest: run_ops_fresh)

end
