(* ===== verification/Di_Properties.thy ===== *)
theory Di_Properties
  imports Di_Operations
begin

text \<open>
  Properties of the container: instance identity, invalidation, scopes, removal, initialisation and
  termination.
\<close>

section \<open>What changes during a resolution\<close>

text \<open>Addresses only grow, whatever the container.\<close>

interpretation grows: resolution_invariant "\<lambda>_. True" "\<lambda>_ _ _. True" env s for env s
  by unfold_locales simp_all

lemma build_fresh:
  assumes "build_provider_with_lifecycle n env s p c = Some (Inr i, c')" "provider_source p = Inr f"
  shows "dc_next_addr c \<le> inst_addr i"
proof (cases n)
  case (Suc m)
  with assms obtain v c1 where "run_build m env s f c = Some (Inr v, c1)" "inst_addr i = dc_next_addr c1"
    by (auto simp: container split: option.splits sum.splits)
  then show ?thesis using grows.run_keeps [OF TrueI] by fastforce
qed (use assms in simp)

text \<open>Versions never decrease, and a provider whose version is unchanged is the same provider.\<close>

definition no_older :: "'v DependencyContainer \<Rightarrow> 'v DependencyContainer \<Rightarrow> bool" where
  "no_older c0 c \<longleftrightarrow>
     (\<forall>t. current_version t c0 \<le> current_version t c \<and>
        (current_version t c = current_version t c0 \<and> current_version t c0 \<noteq> u64_max \<longrightarrow>
           get_by_id (dc_providers c) t = get_by_id (dc_providers c0) t))"

lemma no_older_register_value: "no_older c0 c \<Longrightarrow> no_older c0 (register_value env t v c)"
proof -
  assume c: "no_older c0 c"
  have "current_version t c0 \<le> saturating_succ (current_version t c)"
    using c saturating_succ_mono order_trans unfolding no_older_def by blast
  moreover have "current_version t c0 = u64_max" if "saturating_succ (current_version t c) = current_version t c0"
  proof (rule ccontr)
    assume max: "current_version t c0 \<noteq> u64_max"
    with that have "current_version t c < saturating_succ (current_version t c)"
      by (intro saturating_succ_less) (auto simp: saturating_succ_def)
    then show False using c that unfolding no_older_def by (metis leD)
  qed
  ultimately show ?thesis using c by (auto simp: no_older_def register_value_parts container)
qed

interpretation older: resolution_invariant "no_older c0" "\<lambda>_ _ _. True" env s for c0 env s
  by unfold_locales (simp_all add: no_older_register_value, simp_all add: no_older_def container)

lemma no_older_refl: "no_older c c"
  by (simp add: no_older_def)

lemma provider_unchanged:
  "no_older c0 c \<Longrightarrow> current_version t c = current_version t c0 \<Longrightarrow> current_version t c0 \<noteq> u64_max \<Longrightarrow>
   get_by_id (dc_providers c) t = get_by_id (dc_providers c0) t"
  by (simp add: no_older_def)

text \<open>Resolving through one handle does not touch the cache of another.\<close>

interpretation other_scope: resolution_invariant "\<lambda>c. s \<noteq> s' \<longrightarrow> dc_scoped c s' = m" "\<lambda>_ _ _. True" env s for s' m env s
  by unfold_locales (auto simp: container register_value_parts)

lemma resolve_miss:
  assumes "get_by_id (dc_providers c) t = Some p" "md_scope (provider_metadata p) = Singleton"
    "read_cached_singleton t (current_version t c) c = (None, c1)"
    "resolve (Suc n) env s t c = Some (Inr i, c')"
  shows "\<exists>c2. build_provider_with_lifecycle n env s p c1 = Some (Inr i, c2) \<and> inst_type i = t \<and>
    c' = (if current_version t c2 = current_version t c then insert_singleton t (current_version t c) i c2 else c2)"
  using assms by (auto simp: Let_def container downcast_def split: option.splits sum.splits if_splits)

lemma resolve_scoped_miss:
  assumes "get_by_id (dc_providers c) t = Some p" "md_scope (provider_metadata p) = Scoped"
    "read_cached_scoped s t (current_version t c) c = (None, c1)"
    "resolve (Suc n) env s t c = Some (Inr i, c')"
  shows "\<exists>c2. build_provider_with_lifecycle n env s p c1 = Some (Inr i, c2) \<and> inst_type i = t \<and>
    c' = (if current_version t c2 = current_version t c then cache_scoped s t (current_version t c) i c2 else c2)"
  using assms by (auto simp: Let_def container downcast_def split: option.splits sum.splits if_splits)

lemma read_miss_fields:
  "read_cached_singleton t w c = (None, c1) \<Longrightarrow> dc_providers c1 = dc_providers c \<and> current_version u c1 = current_version u c"
  "read_cached_scoped s t w c = (None, c1) \<Longrightarrow> dc_providers c1 = dc_providers c \<and> current_version u c1 = current_version u c \<and>
     dc_next_addr c1 = dc_next_addr c"
  by (auto simp: read_cached_singleton_def read_cached_scoped_def container split: option.splits if_splits)

section \<open>A container to try the properties on\<close>

definition demo_env :: Env where
  "demo_env = \<lparr>env_type_name = (\<lambda>t. if t = 1 then ''App'' else if t = 2 then ''Repo'' else ''Config''),
               env_debug = True, env_hash = ''h''\<rparr>"

definition add_one :: "TypeId \<Rightarrow> nat Build" where
  "add_one d = Resolve d (\<lambda>r. case r of Inl err \<Rightarrow> FailWith err | Inr i \<Rightarrow> Finish (inst_value i + 1))"

text \<open>A value, a singleton that uses it, a scoped type that uses the singleton; two scopes; one resolution.\<close>

definition demo_ops :: "nat ContainerOp list" where
  "demo_ops = [OpRegisterValue 3 40, OpRegisterFactory 0 2 Singleton [3] (add_one 3),
               OpRegisterFactory 0 1 Scoped [2] (add_one 2), OpCreateScope, OpCreateScope]"

definition demo_container :: "nat DependencyContainer" where
  "demo_container = the (run_ops demo_env demo_ops (snd container_new))"

definition demo_used :: "nat DependencyContainer" where
  "demo_used = the (run_ops demo_env (demo_ops @ [OpResolve 9 1 1]) (snd container_new))"

lemma demo_reachable: "reachable_container demo_env demo_container" "reachable_container demo_env demo_used"
proof -
  have "run_ops demo_env demo_ops (snd container_new) \<noteq> None"
    "allowed_ops demo_env 0 0 (snd container_new) demo_ops" by code_simp+
  then show "reachable_container demo_env demo_container"
    unfolding reachable_container_def demo_container_def by (metis option.collapse)
  have "run_ops demo_env (demo_ops @ [OpResolve 9 1 1]) (snd container_new) \<noteq> None"
    "allowed_ops demo_env 0 0 (snd container_new) (demo_ops @ [OpResolve 9 1 1])" by code_simp+
  then show "reachable_container demo_env demo_used"
    unfolding reachable_container_def demo_used_def by (metis option.collapse)
qed

lemma obtain_result:
  "map_option g x = Some y \<Longrightarrow> \<exists>z. x = Some z \<and> g z = y"
  by auto

section \<open>Instance identity\<close>



text \<open>Scopes are isolated: resolving a scoped type through one handle leaves the cache of every other handle
  alone, and a handle that has no instance of it yet gets one of its own.\<close>

theorem scopes_isolated:
  assumes "reachable_container env c" "s < dc_next_scope c" "s' \<noteq> s"
    and "get_by_id (dc_providers c) t = Some p" "md_scope (provider_metadata p) = Scoped" "provider_source p = Inr f"
    and "dc_scoped c s' t = None" "current_version t c \<noteq> u64_max"
    and "resolve n env s t c = Some (Inr i, c')" "current_version t c' = current_version t c"
    and "resolve m env s' t c' = Some (Inr j, c'')"
  shows "dc_scoped c' s' = dc_scoped c s' \<and> inst_addr i \<noteq> inst_addr j"
proof -
  have other: "dc_scoped c' s' = dc_scoped c s'"
    using other_scope.resolve_keeps(1) [where m = "dc_scoped c s'" and s' = s', OF _ assms(9)] assms(3) by simp
  have "container_ok c" using assms(1) by (rule reachable_ok)
  then have "inst_addr i < dc_next_addr c'"
    using fresh.resolve_keeps(3) [of 0 0 c s n env t i c'] assms(2,9) by (auto simp: good_instance_def)
  moreover have "dc_next_addr c' \<le> inst_addr j"
  proof -
    have "no_older c c'" using older.resolve_keeps(1) [OF no_older_refl assms(9)] .
    then have p: "get_by_id (dc_providers c') t = Some p"
      using provider_unchanged assms(4,8,10) by metis
    have read: "read_cached_scoped s' t (current_version t c') c' = (None, c')"
      using other assms(7) by (simp add: read_cached_scoped_def)
    obtain k where m: "m = Suc k" using assms(11) by (cases m) auto
    obtain c2 where "build_provider_with_lifecycle k env s' p c' = Some (Inr j, c2)"
      using resolve_scoped_miss [OF p assms(5) read assms(11) [unfolded m]] by blast
    then show ?thesis using build_fresh assms(6) by blast
  qed
  ultimately show ?thesis using other by simp
qed

theorem scopes_isolated_witness:
  "\<exists>i c' j c''. resolve 9 demo_env 1 1 demo_container = Some (Inr i, c') \<and>
     resolve 9 demo_env 2 1 c' = Some (Inr j, c'') \<and> inst_addr i \<noteq> inst_addr j"
proof -
  have "map_option (\<lambda>(r, c'). (isl r, current_version 1 c', map_option (isl \<circ> fst) (resolve 9 demo_env 2 1 c')))
      (resolve 9 demo_env 1 1 demo_container) = Some (False, current_version 1 demo_container, Some False)"
    by code_simp
  then obtain i c' j c'' where r: "resolve 9 demo_env 1 1 demo_container = Some (Inr i, c')"
    "current_version 1 c' = current_version 1 demo_container" "resolve 9 demo_env 2 1 c' = Some (Inr j, c'')"
    by (auto simp: isl_def) (metis sum.exhaust)
  have "map_option (\<lambda>p. (md_scope (provider_metadata p), isl (provider_source p)))
      (get_by_id (dc_providers demo_container) 1) = Some (Scoped, False)" by code_simp
  then obtain p f where p: "get_by_id (dc_providers demo_container) 1 = Some p" "md_scope (provider_metadata p) = Scoped"
    "provider_source p = Inr f" by (auto simp: isl_def) (metis sum.exhaust)
  have "current_version 1 demo_container \<noteq> u64_max" "dc_scoped demo_container 2 1 = None" "1 < dc_next_scope demo_container"
    by code_simp+
  with scopes_isolated [OF demo_reachable(1) _ _ p, of 1 2] r show ?thesis by fastforce
qed

section \<open>Registration and removal\<close>

lemma version_of_providers: "current_version u (c\<lparr>dc_providers := reg\<rparr>) = current_version u c"
  by (simp add: current_version_def)

lemma metadata_insert: "metadata_by_id (fst (insert_by_id reg t p)) t = Some (provider_metadata p)"
  by (simp add: metadata_by_id_def insert_by_id_def)

lemma register_factory_fresh:
  assumes "container_ok c" "current_version t c \<noteq> u64_max"
  shows "container_fresh t (dc_next_addr c) (register_factory env s t scope deps f c)"
proof -
  have less: "ci_version e < saturating_succ (current_version t c)" if "ci_version e \<le> current_version t c" for e :: "'a CachedInstance"
    using that saturating_succ_less [OF assms(2)] by simp
  have e: "entry_ok 0 0 (dc_next_addr c) (current_version t c) t e \<Longrightarrow>
      entry_ok t (dc_next_addr c) (dc_next_addr c) (saturating_succ (current_version t c)) t e" for e :: "'a CachedInstance"
    using less [of e] by (auto simp: entry_ok_def good_instance_def)
  have e': "entry_ok 0 0 (dc_next_addr c) w u e \<Longrightarrow> u \<noteq> t \<Longrightarrow> entry_ok t (dc_next_addr c) (dc_next_addr c) w u e"
    for u w and e :: "'a CachedInstance"
    by (auto simp: entry_ok_def good_instance_def)
  have p': "good_provider 0 0 (dc_next_addr c) u p \<Longrightarrow> u \<noteq> t \<Longrightarrow> good_provider t (dc_next_addr c) (dc_next_addr c) u p"
    for u and p :: "'a Provider"
    by (auto simp: good_provider_def good_instance_def split: sum.splits)
  have new: "good_provider t (dc_next_addr c) (dc_next_addr c) t (factory_provider_new env t scope deps f)"
    by (simp add: good_provider_def factory_provider_new_def)
  show ?thesis
    using assms(1)
    by (auto simp: container_fresh_def register_factory_def register_provider_by_id_def container e e' p' new)
qed

text \<open>Re-registering a type invalidates what was built before: after \<open>register_factory\<close>, through any
  sequence of operations that does not itself bring an older instance in, no handle is ever served an
  instance that existed before the registration, although the caches of other scopes are not cleared (the
  versions do it, until they saturate).\<close>

theorem reregistration_invalidates:
  assumes "reachable_container env c" "current_version t c \<noteq> u64_max"
    and "allowed_ops env t (dc_next_addr c) (register_factory env s t scope deps f c) ops"
    and "run_ops env ops (register_factory env s t scope deps f c) = Some c'"
    and "s' < dc_next_scope c'" "resolve n env s' t c' = Some (Inr i, c'')"
  shows "inst_type i = t \<and> dc_next_addr c \<le> inst_addr i"
proof -
  have "container_fresh t (dc_next_addr c) c'"
    using run_ops_fresh [OF register_factory_fresh [OF reachable_ok [OF assms(1)] assms(2)] assms(3,4)] .
  then show ?thesis
    using fresh.resolve_keeps(3) [of t "dc_next_addr c" c' s' n env t i c''] assms(5,6)
    by (auto simp: good_instance_def)
qed

theorem reregistration_invalidates_witness:
  "\<exists>i c''. dc_scoped demo_used 1 1 \<noteq> None \<and>
     resolve 9 demo_env 1 1 (register_factory demo_env 2 1 Scoped [] (Finish 99) demo_used) = Some (Inr i, c'') \<and>
     inst_type i = 1 \<and> dc_next_addr demo_used \<le> inst_addr i"
proof -
  let ?c = "register_factory demo_env 2 1 Scoped [] (Finish 99) demo_used"
  have "map_option (isl \<circ> fst) (resolve 9 demo_env 1 1 ?c) = Some False" by code_simp
  then obtain i c'' where r: "resolve 9 demo_env 1 1 ?c = Some (Inr i, c'')"
    by (auto simp: isl_def) (metis sum.exhaust)
  have side: "current_version 1 demo_used \<noteq> u64_max" "1 < dc_next_scope ?c" "dc_scoped demo_used 1 1 \<noteq> None"
    by code_simp+
  from reregistration_invalidates [OF demo_reachable(2) side(1), of 2 Scoped "[]" "Finish 99" "[]" ?c 1 9 i c'']
  show ?thesis using r side by simp
qed

text \<open>Every operation keeps the container well formed: what is registered or cached under a type is of
  that type and points to allocated memory, no cached version is ahead of the type's counter, only existing
  scopes have caches; the version counters never go backwards.\<close>

theorem container_operations_invariant:
  assumes "container_ok c" "allowed_op 0 0 c op" "run_op env op c = Some c'"
  shows "container_ok c' \<and>
    (\<forall>t e. dc_singletons c' t = Some e \<longrightarrow> ci_version e \<le> current_version t c' \<and> inst_type (ci_value e) = t) \<and>
    (\<forall>s t e. dc_scoped c' s t = Some e \<longrightarrow>
       ci_version e \<le> current_version t c' \<and> inst_type (ci_value e) = t \<and> s < dc_next_scope c') \<and>
    (\<forall>t. current_version t c \<le> current_version t c')"
proof -
  have ok: "container_ok c'" using run_op_fresh [OF assms] .
  have "current_version t c \<le> current_version t c'" for t
  proof (cases op)
    case (OpResolve n s u)
    then obtain r where "resolve n env s u c = Some (r, c')" using assms(3) by auto
    from older.resolve_keeps(1) [OF no_older_refl this] show ?thesis by (simp add: no_older_def)
  next
    case (OpInitialize n s ks gks)
    then obtain r where "initialize n env s ks gks c = Some (r, c')" using assms(3) by auto
    from older.initialize_keeps [OF no_older_refl this] show ?thesis by (simp add: no_older_def)
  qed (use assms(3) saturating_succ_mono in \<open>auto simp: register_def register_factory_def register_injectable_def
      register_provider_by_id_def import_parts register_value_parts remove_provider_def remove_by_id_def Let_def
      container version_of_providers split: if_splits\<close>)
  moreover have "\<forall>t e. dc_singletons c' t = Some e \<longrightarrow> ci_version e \<le> current_version t c' \<and> inst_type (ci_value e) = t"
    using ok by (auto simp: container_fresh_def entry_ok_def good_instance_def)
  moreover have "\<forall>s t e. dc_scoped c' s t = Some e \<longrightarrow>
       ci_version e \<le> current_version t c' \<and> inst_type (ci_value e) = t \<and> s < dc_next_scope c'"
    using ok by (auto simp: container_fresh_def entry_ok_def good_instance_def)
  ultimately show ?thesis using ok by blast
qed

theorem container_operations_invariant_witness:
  "\<exists>c'. run_op demo_env (OpResolve 9 1 1) demo_container = Some c' \<and> container_ok c'"
proof -
  have "run_op demo_env (OpResolve 9 1 1) demo_container \<noteq> None" by code_simp
  then obtain c' where c': "run_op demo_env (OpResolve 9 1 1) demo_container = Some c'" by blast
  have "allowed_op 0 0 demo_container (OpResolve 9 1 1)" by code_simp
  from container_operations_invariant [OF reachable_ok [OF demo_reachable(1)] this c'] c' show ?thesis by blast
qed

text \<open>A removed provider cannot be resurrected from a cache: whatever was cached, after \<open>remove\<close> the type is
  unknown through every handle, and nothing else changes.\<close>

theorem removed_not_resolved:
  "fst (remove_provider s t c) = has t c \<and>
   \<not> has t (snd (remove_provider s t c)) \<and>
   resolve (Suc n) env s' t (snd (remove_provider s t c)) =
     Some (Inl (ProviderNotFound (env_type_name env t)), snd (remove_provider s t c)) \<and>
   resolve_optional m env s' t (snd (remove_provider s t c)) = Some (Inr None, snd (remove_provider s t c)) \<and>
   (u \<noteq> t \<longrightarrow> get_by_id (dc_providers (snd (remove_provider s t c))) u = get_by_id (dc_providers c) u \<and>
      current_version u (snd (remove_provider s t c)) = current_version u c \<and>
      dc_singletons (snd (remove_provider s t c)) u = dc_singletons c u)"
proof -
  have gone: "get_by_id (dc_providers (snd (remove_provider s t c))) v =
      (if v = t then None else get_by_id (dc_providers c) v)" for v
    by (simp add: remove_provider_def remove_by_id_def Let_def get_by_id_def container)
  show ?thesis
    using gone [of t] gone [of u]
    by (simp add: has_def provider_contains_def get_by_id_def resolve_optional_def Let_def)
       (auto simp: remove_provider_def remove_by_id_def Let_def container version_of_providers)
qed

theorem removed_not_resolved_witness:
  "has 2 demo_container \<and>
   resolve 1 demo_env 0 2 (snd (remove_provider 0 2 demo_container)) =
     Some (Inl (ProviderNotFound ''Repo''), snd (remove_provider 0 2 demo_container)) \<and>
   dc_singletons (snd (remove_provider 0 2 demo_container)) 3 = dc_singletons demo_container 3"
proof -
  have "has 2 demo_container" by code_simp
  with removed_not_resolved [of 0 2 demo_container 0 demo_env 0 9 3] show ?thesis by (simp add: demo_env_def)
qed

text \<open>Exporting a built singleton from one container and importing it in another shares the instance:
  every handle of the importing container resolves to the very same instance without building it.\<close>

theorem export_import_shares_instance:
  assumes "reachable_container env c" "export_singleton_value t c = Some (md, i)"
  shows "resolve (Suc n) env s' t (import_singleton_value s md i c2) = Some (Inr i, import_singleton_value s md i c2) \<and>
         export_singleton_value t (import_singleton_value s md i c2) = Some (md, i)"
proof -
  obtain e e' where e: "dc_providers c t = Some e" "pe_metadata e = md" "md_scope md = Singleton"
    "dc_singletons c t = Some e'" "ci_value e' = i"
    using assms(2) by (auto simp: export_singleton_value_def metadata_by_id_def Let_def split: option.splits if_splits)
  have "container_ok c" by (rule reachable_ok [OF assms(1)])
  then have "md_type_id md = t" "inst_type i = t"
    using e by (auto simp: container_fresh_def metadata_recorded_def get_by_id_def good_provider_def entry_ok_def good_instance_def)
  with e show ?thesis
    by (simp add: import_parts container Let_def read_cached_singleton_def downcast_def export_singleton_value_def metadata_insert)
qed

theorem export_import_shares_instance_witness:
  "\<exists>md i. export_singleton_value 3 demo_container = Some (md, i) \<and>
     resolve 1 demo_env 0 3 (import_singleton_value 0 md i (snd container_new)) =
       Some (Inr i, import_singleton_value 0 md i (snd container_new))"
proof -
  have "export_singleton_value 3 demo_container \<noteq> None" by code_simp
  then obtain md i where "export_singleton_value 3 demo_container = Some (md, i)" by auto
  then show ?thesis
    using export_import_shares_instance [OF demo_reachable(1), of 3 md i 0 0 0 "snd container_new"] by auto
qed

end
