(* ===== verification/Di_Initialize.thy ===== *)
theory Di_Initialize
  imports Di_Properties
begin

text \<open>
  \<open>DependencyContainer::initialize\<close>, and termination: resolution returns when the declared dependencies are
  acyclic and factories ask only for what they declare.
\<close>

section \<open>More fuel does not change a result\<close>

lemma fuel_Suc:
  "resolve n env s t c = Some x \<Longrightarrow> resolve (Suc n) env s t c = Some x"
  "build_provider_with_lifecycle n env s p c = Some y \<Longrightarrow> build_provider_with_lifecycle (Suc n) env s p c = Some y"
  "run_build n env s script c = Some z \<Longrightarrow> run_build (Suc n) env s script c = Some z"
proof (induction n env s t c and n env s p c and n env s script c
    arbitrary: x and y and z rule: resolve_build_provider_with_lifecycle_run_build.induct)
  case (2 n env s t c)
  show ?case
  proof (cases "get_by_id (dc_providers c) t")
    case None
    with 2 show ?thesis by simp
  next
    case (Some p)
    note p = this
    show ?thesis
    proof (cases "md_scope (provider_metadata p)")
      case Singleton
      obtain hit c1 where read: "read_cached_singleton t (current_version t c) c = (hit, c1)"
        by (cases "read_cached_singleton t (current_version t c) c")
      show ?thesis
      proof (cases hit)
        case None
        obtain y where y: "build_provider_with_lifecycle n env s p c1 = Some y"
          using "2.prems" p Singleton read None by (auto simp: Let_def split: option.splits)
        from "2.IH"(1) [OF refl p Singleton read [symmetric] None y] y "2.prems" p Singleton read None
        show ?thesis by (simp del: resolve.simps add: resolve.simps(2) Let_def)
      qed (use "2.prems" p Singleton read in simp)
    next
      case Scoped
      obtain hit c1 where read: "read_cached_scoped s t (current_version t c) c = (hit, c1)"
        by (cases "read_cached_scoped s t (current_version t c) c")
      show ?thesis
      proof (cases hit)
        case None
        obtain y where y: "build_provider_with_lifecycle n env s p c1 = Some y"
          using "2.prems" p Scoped read None by (auto simp: Let_def split: option.splits)
        from "2.IH"(2) [OF refl p Scoped read [symmetric] None y] y "2.prems" p Scoped read None
        show ?thesis by (simp del: resolve.simps add: resolve.simps(2) Let_def)
      qed (use "2.prems" p Scoped read in simp)
    next
      case Transient
      obtain y where y: "build_provider_with_lifecycle n env s p c = Some y"
        using "2.prems" p Transient by (auto split: option.splits)
      from "2.IH"(3) [OF refl p Transient y] y "2.prems" p Transient
      show ?thesis by (simp del: resolve.simps add: resolve.simps(2) Let_def)
    qed
  qed
next
  case (4 n env s p c)
  show ?case
  proof (cases "provider_source p")
    case (Inr script)
    obtain eng where eng: "lifecycle_begin env (lifecycle_new env) = Some (Inr eng)"
      using lifecycle_accepted(2) by blast
    obtain z where z: "run_build n env s script c = Some z"
      using "4.prems" Inr by (auto simp: container split: option.splits)
    from "4.IH" [OF eng refl Inr z] z "4.prems" Inr show ?thesis
      by (simp only: build_lifecycle) simp
  qed (use 4 in \<open>simp add: container\<close>)
next
  case (8 n env s t k c)
  obtain r c1 where r: "resolve n env s t c = Some (r, c1)" using "8.prems" by (auto split: option.splits)
  from "8.IH"(1) [OF r] "8.IH"(2) [OF r refl, of z] r "8.prems" show ?case
    by (simp del: resolve.simps)
qed auto

lemma fuel_mono:
  assumes "n \<le> m"
  shows "resolve n env s t c = Some x \<Longrightarrow> resolve m env s t c = Some x"
    "build_provider_with_lifecycle n env s p c = Some y \<Longrightarrow> build_provider_with_lifecycle m env s p c = Some y"
    "run_build n env s script c = Some z \<Longrightarrow> run_build m env s script c = Some z"
  using assms by (induction m rule: dec_induct) (blast intro: fuel_Suc)+

section \<open>Termination\<close>

text \<open>The types a factory may ask for, whatever the answers are.\<close>

inductive asks :: "'v Build \<Rightarrow> TypeId \<Rightarrow> bool" where
  asks_now: "asks (Resolve t k) t"
| asks_later: "asks (k r) d \<Longrightarrow> asks (Resolve t k) d"
| asks_then: "asks (k b) d \<Longrightarrow> asks (Has t k) d"
| asks_after: "asks k d \<Longrightarrow> asks (RegisterValue t v k) d"

inductive_simps asks_simps [simp]:
  "asks (Finish v) d" "asks (FailWith e) d" "asks (Resolve t k) d" "asks (Has t k) d" "asks (RegisterValue t v k) d"

definition well_founded_factories :: "(TypeId \<times> TypeId) set \<Rightarrow> 'v DependencyContainer \<Rightarrow> bool" where
  "well_founded_factories R c \<longleftrightarrow>
     (\<forall>t p f d. get_by_id (dc_providers c) t = Some p \<and> provider_source p = Inr f \<and> asks f d \<longrightarrow> (d, t) \<in> R)"

interpretation factories: resolution_invariant "well_founded_factories R" "\<lambda>_ _ _. True" env s for R env s
  by unfold_locales
     (auto simp: well_founded_factories_def container register_value_parts value_provider_from_arc_def split: if_splits)

lemma run_terminates:
  fixes c :: "'v DependencyContainer"
  assumes "\<And>d (c :: 'v DependencyContainer). asks f d \<Longrightarrow> well_founded_factories R c \<Longrightarrow> \<exists>n. resolve n env s d c \<noteq> None"
    and "well_founded_factories R c"
  shows "\<exists>n. run_build n env s f c \<noteq> None"
  using assms
proof (induction f arbitrary: c)
  case (Finish v)
  have "run_build 1 env s (Finish v) c \<noteq> None" by simp
  then show ?case by blast
next
  case (FailWith e)
  have "run_build 1 env s (FailWith e) c \<noteq> None" by simp
  then show ?case by blast
next
  case (Resolve t k)
  obtain n r c1 where r: "resolve n env s t c = Some (r, c1)"
    using Resolve.prems(1) [of t c] Resolve.prems(2) by auto
  have "well_founded_factories R c1" using factories.resolve_keeps(1) [OF Resolve.prems(2) r] .
  moreover have "\<exists>n. resolve n env s d c2 \<noteq> None" if "asks (k r) d" "well_founded_factories R c2" for d and c2 :: "'v DependencyContainer"
    using Resolve.prems(1) [of d c2] that by auto
  ultimately obtain m z where z: "run_build m env s (k r) c1 = Some z"
    using Resolve.IH [of "k r" c1] by (metis option.exhaust rangeI)
  have "run_build (Suc (max n m)) env s (Resolve t k) c = Some z"
    using fuel_mono(1) [OF max.cobounded1 r, of m] fuel_mono(3) [OF max.cobounded2 z, of n] by simp
  then show ?case by blast
next
  case (Has t k)
  have "\<exists>n. run_build n env s (k (has t c)) c \<noteq> None"
    by (rule Has.IH [OF rangeI]) (blast intro: Has.prems asks_then)+
  then obtain n z where "run_build n env s (k (has t c)) c = Some z" by auto
  then have "run_build (Suc n) env s (Has t k) c = Some z" by simp
  then show ?case by blast
next
  case (RegisterValue t v k)
  have "well_founded_factories R (register_value env t v c)"
    using factories.inv_register_value [OF RegisterValue.prems(2)] .
  then have "\<exists>m. run_build m env s k (register_value env t v c) \<noteq> None"
    by (intro RegisterValue.IH) (use RegisterValue.prems(1) in auto)
  then obtain m z where z: "run_build m env s k (register_value env t v c) = Some z" by auto
  then have "run_build (Suc m) env s (RegisterValue t v k) c = Some z" by simp
  then show ?case by blast
qed

lemma build_terminates:
  fixes c :: "'v DependencyContainer"
  assumes "\<And>d (c :: 'v DependencyContainer). (d, t) \<in> R \<Longrightarrow> well_founded_factories R c \<Longrightarrow> \<exists>n. resolve n env s d c \<noteq> None"
    and "well_founded_factories R c" "get_by_id (dc_providers c) t = Some p"
  shows "\<exists>n. build_provider_with_lifecycle n env s p c \<noteq> None"
proof (cases "provider_source p")
  case (Inl i)
  then have "build_provider_with_lifecycle (Suc 0) env s p c \<noteq> None" by (simp add: container)
  then show ?thesis by blast
next
  case (Inr f)
  have "\<exists>n. run_build n env s f c \<noteq> None"
    using run_terminates [of f R env s c] assms Inr unfolding well_founded_factories_def by blast
  then obtain n z where "run_build n env s f c = Some z" by auto
  then have "build_provider_with_lifecycle (Suc n) env s p c \<noteq> None"
    using Inr by (auto simp: container split: sum.splits prod.splits)
  then show ?thesis by blast
qed

lemma resolve_terminates_wf:
  assumes "wf R" "well_founded_factories R c"
  shows "\<exists>n. resolve n env s t c \<noteq> None"
  using assms(2)
proof (induction t arbitrary: c rule: wf_induct_rule [OF assms(1)])
  case (1 t)
  note less = 1
  show ?case
  proof (cases "get_by_id (dc_providers c) t")
    case None
    then have "resolve (Suc 0) env s t c \<noteq> None" by simp
    then show ?thesis by blast
  next
    case (Some p)
    have keep: "well_founded_factories R c1" if "dc_providers c1 = dc_providers c" for c1
      using less(2) that by (simp add: well_founded_factories_def)
    have build: "\<exists>n y. build_provider_with_lifecycle n env s p c1 = Some y" if "dc_providers c1 = dc_providers c" for c1
      using build_terminates [of t R env s c1 p] less keep [OF that] that Some by auto
    obtain hit1 c1 where read1: "read_cached_singleton t (current_version t c) c = (hit1, c1)"
      by (cases "read_cached_singleton t (current_version t c) c")
    obtain hit2 c2 where read2: "read_cached_scoped s t (current_version t c) c = (hit2, c2)"
      by (cases "read_cached_scoped s t (current_version t c) c")
    have same: "dc_providers c1 = dc_providers c" "dc_providers c2 = dc_providers c"
      using read1 read2 by (auto simp: read_cached_singleton_def read_cached_scoped_def container split: option.splits if_splits)
    obtain n0 y0 n1 y1 n2 y2 where b: "build_provider_with_lifecycle n0 env s p c = Some y0"
      "build_provider_with_lifecycle n1 env s p c1 = Some y1" "build_provider_with_lifecycle n2 env s p c2 = Some y2"
      using build same by metis
    define n where "n = max n0 (max n1 n2)"
    have "build_provider_with_lifecycle n env s p c = Some y0"
      "build_provider_with_lifecycle n env s p c1 = Some y1" "build_provider_with_lifecycle n env s p c2 = Some y2"
      using fuel_mono(2) [OF _ b(1)] fuel_mono(2) [OF _ b(2)] fuel_mono(2) [OF _ b(3)] by (simp_all add: n_def)
    then have "resolve (Suc n) env s t c \<noteq> None"
      using Some read1 read2
      by (cases "md_scope (provider_metadata p)")
         (auto simp: Let_def split: option.splits sum.splits prod.splits)
    then show ?thesis by blast
  qed
qed

section \<open>The graph of the registered providers\<close>

lemma graph_fold:
  "fold (\<lambda>(type_id, provider, _) g.
      add_node g type_id (md_type_name (provider_metadata provider)) (md_dependencies (provider_metadata provider)))
     (registry_snapshot ks reg) g0 t =
   (if t \<in> set ks \<and> reg t \<noteq> None
    then Some \<lparr>nd_type_name = md_type_name (provider_metadata (pe_provider (the (reg t)))),
               nd_dependencies = md_dependencies (provider_metadata (pe_provider (the (reg t))))\<rparr>
    else g0 t)"
proof (induction ks arbitrary: g0)
  case (Cons k ks)
  then show ?case
    by (cases "reg k") (auto simp: registry_snapshot_def List.map_filter_def add_node_def)
qed (simp add: registry_snapshot_def List.map_filter_def)

lemma provider_graph_dom: "set ks = dom reg \<Longrightarrow> dom (provider_graph ks reg) = dom reg"
  by (auto simp: provider_graph_def graph_fold graph_new_def dom_def)

lemma provider_graph_deps:
  "set ks = dom reg \<Longrightarrow> get_by_id reg t = Some p \<Longrightarrow>
   node_deps (provider_graph ks reg) t = md_dependencies (provider_metadata p)"
  by (auto simp: provider_graph_def graph_fold graph_new_def node_deps_def get_by_id_def)

text \<open>Factories that ask only for what their provider declares.\<close>

definition declared_dependencies :: "'v DependencyContainer \<Rightarrow> bool" where
  "declared_dependencies c \<longleftrightarrow>
     (\<forall>t p f d. get_by_id (dc_providers c) t = Some p \<and> provider_source p = Inr f \<and> asks f d \<longrightarrow>
        d \<in> set (md_dependencies (provider_metadata p)))"

lemma declared_acyclic_wf:
  assumes "set ks = dom (dc_providers c)" "declared_dependencies c"
    "acyclic (graph_edges (provider_graph ks (dc_providers c)))"
  shows "\<exists>R. wf R \<and> well_founded_factories R c"
proof -
  let ?g = "provider_graph ks (dc_providers c)"
  let ?R = "{(d, t). t \<in> dom ?g \<and> d \<in> set (node_deps ?g t)}"
  have "finite (dom ?g)" using provider_graph_dom [OF assms(1)] assms(1) by (metis List.finite_set)
  moreover have "graph_edges ?g \<subseteq> dom ?g \<times> dom ?g" by (auto simp: dep_edges_def)
  ultimately have "finite (graph_edges ?g)" by (metis finite_SigmaI finite_subset)
  then have wf: "wf ((graph_edges ?g)\<inverse>)" using assms(3) by (rule finite_acyclic_wf_converse)
  have "wf ?R"
  proof (rule wfUNIVI)
    fix P t assume step: "\<forall>x. (\<forall>y. (y, x) \<in> ?R \<longrightarrow> P y) \<longrightarrow> P x"
    have outside: "P x" if "x \<notin> dom ?g" for x using step that by blast
    show "P t"
      using wf
    proof (induction t rule: wf_induct_rule)
      case (less t)
      have "P y" if "(y, t) \<in> ?R" for y
        using that less outside by (cases "y \<in> dom ?g") (auto simp: dep_edges_def)
      then show ?case using step by blast
    qed
  qed
  moreover have "well_founded_factories ?R c"
    using assms(1,2) provider_graph_deps [OF assms(1)] provider_graph_dom [OF assms(1)]
    unfolding well_founded_factories_def declared_dependencies_def by (fastforce simp: get_by_id_def)
  ultimately show ?thesis by blast
qed

lemma initialize_loop_fuel:
  "n \<le> m \<Longrightarrow> initialize_loop n env s ts c = Some x \<Longrightarrow> initialize_loop m env s ts c = Some x"
proof (induction ts arbitrary: c)
  case (Cons t ts)
  show ?case
  proof (cases "\<exists>p. get_by_id (dc_providers c) t = Some p \<and> md_scope (provider_metadata p) = Singleton \<and> \<not> is_cached t c")
    case False
    with Cons show ?thesis by (auto simp: Let_def split: option.splits if_splits)
  next
    case True
    then obtain p where p: "get_by_id (dc_providers c) t = Some p" "md_scope (provider_metadata p) = Singleton"
      "\<not> is_cached t c" by blast
    obtain r c1 where b: "build_provider_with_lifecycle n env s p c = Some (r, c1)"
      using Cons.prems(2) p by (auto simp: Let_def split: option.splits)
    note bm = fuel_mono(2) [OF Cons.prems(1) b]
    show ?thesis
      using Cons p b bm by (cases r) (simp_all add: Let_def)
  qed
qed simp

lemma initialize_loop_terminates:
  assumes "wf R" "well_founded_factories R c"
  shows "\<exists>n. initialize_loop n env s ts c \<noteq> None"
  using assms(2)
proof (induction ts arbitrary: c)
  case (Cons t ts)
  show ?case
  proof (cases "\<exists>p. get_by_id (dc_providers c) t = Some p \<and> md_scope (provider_metadata p) = Singleton \<and> \<not> is_cached t c")
    case False
    with Cons obtain n where "initialize_loop n env s ts c \<noteq> None" by blast
    with False have "initialize_loop n env s (t # ts) c \<noteq> None" by (auto simp: Let_def split: option.splits)
    then show ?thesis by blast
  next
    case True
    then obtain p where p: "get_by_id (dc_providers c) t = Some p" "md_scope (provider_metadata p) = Singleton"
      "\<not> is_cached t c" by blast
    have "\<exists>n. build_provider_with_lifecycle n env s p c \<noteq> None"
      by (rule build_terminates [OF resolve_terminates_wf [OF assms(1)] Cons.prems p(1)])
    then obtain n r c1 where b: "build_provider_with_lifecycle n env s p c = Some (r, c1)" by auto
    have c1: "well_founded_factories R c1"
      using factories.build_keeps [OF Cons.prems b p(1)] by (simp add: factories.resolves_def)
    show ?thesis
    proof (cases r)
      case (Inl err)
      with p b have "initialize_loop n env s (t # ts) c \<noteq> None" by (simp add: Let_def)
      then show ?thesis by blast
    next
      case (Inr i)
      let ?c2 = "if current_version t c1 = current_version t c then cache_singleton t (current_version t c) i c1 else c1"
      have "well_founded_factories R ?c2" using c1 by (simp add: well_founded_factories_def container)
      then obtain m where "initialize_loop m env s ts ?c2 \<noteq> None" using Cons.IH by blast
      then have "initialize_loop (max n m) env s ts ?c2 \<noteq> None"
        using initialize_loop_fuel [OF max.cobounded2] by fastforce
      moreover have "build_provider_with_lifecycle (max n m) env s p c = Some (r, c1)"
        using fuel_mono(2) [OF max.cobounded1 b] .
      ultimately have "initialize_loop (max n m) env s (t # ts) c \<noteq> None" using p Inr by (simp add: Let_def)
      then show ?thesis by blast
    qed
  qed
qed simp

section \<open>Initialisation serves every singleton\<close>

text \<open>A type that is, if it is a singleton, cached at its current version.\<close>

definition served :: "TypeId \<Rightarrow> 'v DependencyContainer \<Rightarrow> bool" where
  "served t c \<longleftrightarrow>
     (\<forall>p. get_by_id (dc_providers c) t = Some p \<and> md_scope (provider_metadata p) = Singleton \<longrightarrow> is_cached t c)"

lemma is_cached_change [container]:
  "is_cached u (insert_singleton t (current_version t c) i c) \<longleftrightarrow> u = t \<or> is_cached u c"
  "is_cached u (register_value env t v c) \<longleftrightarrow> u = t \<or> is_cached u c"
  "is_cached u (cache_scoped s t w i c) = is_cached u c"
  "is_cached u (remove_scoped s t c) = is_cached u c"
  "is_cached u (snd (arc_new t v c)) = is_cached u c"
  "is_cached u (remove_singleton t c) \<longleftrightarrow> u \<noteq> t \<and> is_cached u c"
  by (auto simp: is_cached_def container register_value_parts split: option.splits)

lemma not_current_not_cached:
  "dc_singletons c t = Some e \<Longrightarrow> ci_version e \<noteq> current_version t c \<Longrightarrow> \<not> is_cached t c"
  by (simp add: is_cached_def)

interpretation serving: resolution_invariant "served u" "\<lambda>_ _ _. True" env s for u env s
proof
  fix c :: "'a DependencyContainer" and t e i and v :: 'a
  assume "served u c"
  then show "served u (snd (arc_new t v c))" "served u (insert_singleton t (current_version t c) i c)"
    "served u (cache_scoped s t (current_version t c) i c)" "served u (register_value env t v c)"
    "served u (remove_scoped s t c)"
    by (auto simp: served_def container) (auto simp: register_value_parts container split: if_splits)
  show "dc_singletons c t = Some e \<Longrightarrow> ci_version e \<noteq> current_version t c \<Longrightarrow> served u (remove_singleton t c)"
    using \<open>served u c\<close> not_current_not_cached [of c t e] by (auto simp: served_def container)
qed simp_all

text \<open>A new version of a type during a build means that a value was registered, and that is cached.\<close>

interpretation rebuilt: resolution_invariant "\<lambda>c. is_cached u c \<or> current_version u c = w" "\<lambda>_ _ _. True" env s for u w env s
proof
  fix c :: "'a DependencyContainer" and t e i and v :: 'a
  assume "is_cached u c \<or> current_version u c = w"
  then show "is_cached u (snd (arc_new t v c)) \<or> current_version u (snd (arc_new t v c)) = w"
    "is_cached u (insert_singleton t (current_version t c) i c) \<or>
     current_version u (insert_singleton t (current_version t c) i c) = w"
    "is_cached u (cache_scoped s t (current_version t c) i c) \<or>
     current_version u (cache_scoped s t (current_version t c) i c) = w"
    "is_cached u (remove_scoped s t c) \<or> current_version u (remove_scoped s t c) = w"
    "is_cached u (register_value env t v c) \<or> current_version u (register_value env t v c) = w"
    by (auto simp: container) (auto simp: register_value_parts container)
  show "dc_singletons c t = Some e \<Longrightarrow> ci_version e \<noteq> current_version t c \<Longrightarrow>
      is_cached u (remove_singleton t c) \<or> current_version u (remove_singleton t c) = w"
    using \<open>is_cached u c \<or> current_version u c = w\<close> not_current_not_cached [of c t e] by (auto simp: container)
qed simp_all

lemma initialize_loop_serves:
  "initialize_loop n env s ts c = Some (Inr (), c') \<Longrightarrow> t \<in> set ts \<or> served t c \<Longrightarrow> served t c'"
proof (induction ts arbitrary: c)
  case (Cons u ts)
  show ?case
  proof (cases "\<exists>p. get_by_id (dc_providers c) u = Some p \<and> md_scope (provider_metadata p) = Singleton \<and> \<not> is_cached u c")
    case False
    then have "served u c" by (auto simp: served_def)
    moreover have "initialize_loop n env s ts c = Some (Inr (), c')"
      using False Cons.prems(1) by (auto simp: Let_def split: option.splits if_splits)
    ultimately show ?thesis using Cons by auto
  next
    case True
    then obtain p where p: "get_by_id (dc_providers c) u = Some p" "md_scope (provider_metadata p) = Singleton"
      "\<not> is_cached u c" by blast
    obtain i c1 where b: "build_provider_with_lifecycle n env s p c = Some (Inr i, c1)"
      using Cons.prems p by (auto simp: Let_def split: option.splits sum.splits)
    let ?c2 = "if current_version u c1 = current_version u c then insert_singleton u (current_version u c1) i c1 else c1"
    have rest: "initialize_loop n env s ts ?c2 = Some (Inr (), c')"
      using Cons.prems(1) p b by (auto simp: Let_def container split: if_splits)
    have "is_cached u c1 \<or> current_version u c1 = current_version u c"
      using rebuilt.build_keeps [OF _ b p(1), of u "current_version u c"] by (simp add: rebuilt.resolves_def)
    moreover have "served u (insert_singleton u (current_version u c1) i c1)" by (simp add: served_def container)
    ultimately have "served u ?c2"
      by (cases "current_version u c1 = current_version u c") (simp_all, simp add: served_def)
    moreover have "served t ?c2" if "served t c"
      using serving.build_keeps [OF that b p(1)] serving.inv_cache_singleton [of t c1 u i]
      by (cases "current_version u c1 = current_version u c") (simp_all add: serving.resolves_def)
    ultimately show ?thesis using Cons.IH [OF rest] Cons.prems(2) by auto
  qed
qed simp

lemma cached_served_resolve:
  assumes "get_by_id (dc_providers c) t = Some p" "md_scope (provider_metadata p) = Singleton" "is_cached t c"
  shows "\<exists>i. \<forall>m s'. resolve (Suc m) env s' t c = Some (downcast env t i, c)"
  using assms by (auto simp: is_cached_def Let_def read_cached_singleton_def split: option.splits)

text \<open>After a successful \<open>initialize\<close> every singleton provider, including those registered while it ran, is
  already built: resolving it through any handle returns its instance without running a factory or changing
  the container.\<close>

theorem initialize_serves_singletons:
  assumes "reachable_container env c" "s < dc_next_scope c"
    and "set ks = dom (dc_providers c)" "iteration_of gks (provider_graph ks (dc_providers c))"
    and "initialize n env s ks gks c = Some (Inr (), c')"
    and "get_by_id (dc_providers c') t = Some p" "md_scope (provider_metadata p) = Singleton"
  shows "\<exists>i. inst_type i = t \<and> (\<forall>m s'. resolve (Suc m) env s' t c' = Some (Inr i, c'))"
proof -
  let ?g = "provider_graph ks (dc_providers c)"
  obtain ord where ord: "resolve_order gks ?g = Some (Inr ord)" "initialize_loop n env s ord c = Some (Inr (), c')"
    using assms(5) by (auto simp: initialize_def split: option.splits sum.splits)
  have "set ord = dom (dc_providers c)"
    using resolve_order_spec [OF assms(4)] ord(1) provider_graph_dom [OF assms(3)] by auto
  then have "t \<in> set ord \<or> served t c" by (auto simp: served_def get_by_id_def dom_def)
  then have cached: "is_cached t c'"
    using initialize_loop_serves [OF ord(2)] assms(6,7) unfolding served_def by blast
  then obtain e where e: "dc_singletons c' t = Some e" "ci_version e = current_version t c'"
    by (auto simp: is_cached_def split: option.splits)
  have "container_ok c'"
    using fresh.initialize_keeps [of 0 0 c s n env ks gks "Inr ()" c'] reachable_ok [OF assms(1)] assms(2,5) by simp
  then have "inst_type (ci_value e) = t" using e by (auto simp: container_fresh_def entry_ok_def good_instance_def)
  then show ?thesis
    using e assms(6,7) by (intro exI [of _ "ci_value e"]) (simp add: Let_def read_cached_singleton_def downcast_def)
qed

lemma demo_keys:
  "set [1, 2, 3] = dom (dc_providers demo_container)"
  "iteration_of [1, 2, 3] (provider_graph [1, 2, 3] (dc_providers demo_container))"
proof -
  show dom: "set [1, 2, 3] = dom (dc_providers demo_container)"
    by (auto simp: demo_container_def demo_ops_def register_value_parts register_factory_def
        register_provider_by_id_def container insert_by_id_def container_new_def)
  show "iteration_of [1, 2, 3] (provider_graph [1, 2, 3] (dc_providers demo_container))"
    using dom provider_graph_dom [OF dom] by (simp add: iteration_of_def)
qed

theorem initialize_serves_singletons_witness:
  "\<exists>c' i. initialize 20 demo_env 0 [1, 2, 3] [1, 2, 3] demo_container = Some (Inr (), c') \<and>
     inst_type i = 2 \<and> (\<forall>m s'. resolve (Suc m) demo_env s' 2 c' = Some (Inr i, c'))"
proof -
  have "map_option (\<lambda>(r, c'). (r, map_option (md_scope \<circ> provider_metadata) (get_by_id (dc_providers c') 2)))
      (initialize 20 demo_env 0 [1, 2, 3] [1, 2, 3] demo_container) = Some (Inr (), Some Singleton)" by code_simp
  then obtain c' p where c': "initialize 20 demo_env 0 [1, 2, 3] [1, 2, 3] demo_container = Some (Inr (), c')"
    "get_by_id (dc_providers c') 2 = Some p" "md_scope (provider_metadata p) = Singleton" by auto
  have "0 < dc_next_scope demo_container" by code_simp
  then show ?thesis
    using initialize_serves_singletons [OF demo_reachable(1) _ demo_keys c'] c' by blast
qed

text \<open>When the declared dependencies contain a cycle, \<open>initialize\<close> reports it and leaves the container as it
  was: nothing is built.\<close>

theorem initialize_rejects_cycles:
  assumes "iteration_of gks (provider_graph ks (dc_providers c))"
    and "\<not> acyclic (graph_edges (provider_graph ks (dc_providers c)))"
  shows "\<exists>ids x. initialize n env s ks gks c =
      Some (Inl (CircularDependency (join '' -> '' (map (node_name (provider_graph ks (dc_providers c))) (ids @ [x])))), c) \<and>
    x \<in> set ids"
proof -
  have solve: "resolve_order gks (provider_graph ks (dc_providers c)) = Some (di_solve (gks, provider_graph ks (dc_providers c)))"
    by (rule di_solve_resolve [OF assms(1)])
  obtain err where err: "di_solve (gks, provider_graph ks (dc_providers c)) = Inl err"
    using di_solver.solvable_iff [of "(gks, provider_graph ks (dc_providers c))"] assms
    by (cases "di_solve (gks, provider_graph ks (dc_providers c))") auto
  then have "cycle_report (provider_graph ks (dc_providers c)) err"
    using resolve_order_spec [OF assms(1)] solve by auto
  then show ?thesis using solve err by (auto simp: cycle_report_def initialize_def)
qed

theorem initialize_rejects_cycles_witness:
  "\<exists>c ids x. initialize 5 demo_env 0 [1, 2] [2, 1] (c :: nat DependencyContainer) =
     Some (Inl (CircularDependency (join '' -> '' (map (node_name (provider_graph [1, 2] (dc_providers c))) (ids @ [x])))), c)"
proof -
  let ?c = "register_factory demo_env 0 1 Singleton [2] (Finish 0)
      (register_factory demo_env 0 2 Singleton [1] (Finish 0) (snd container_new)) :: nat DependencyContainer"
  let ?g = "provider_graph [1, 2] (dc_providers ?c)"
  have dom: "set [1, 2] = dom (dc_providers ?c)"
    by (auto simp: register_factory_def register_provider_by_id_def container insert_by_id_def container_new_def)
  then have keys: "iteration_of [2, 1] ?g" using provider_graph_dom [OF dom] by (auto simp: iteration_of_def)
  have "map_option isl (resolve_order [2, 1] ?g) = Some True" by code_simp
  then have "\<not> acyclic (graph_edges ?g)"
    using di_solver.solvable_iff [of "([2, 1], ?g)"] keys di_solve_resolve [of "[2, 1]" ?g] by auto
  from initialize_rejects_cycles [OF keys this] show ?thesis by blast
qed

text \<open>C12: with acyclic declared dependencies and factories that ask only for what they declare, \<open>resolve\<close> and
  \<open>initialize\<close> return: there is an amount of fuel from which on the answer is there and does not change.\<close>

theorem resolve_terminates:
  assumes "set ks = dom (dc_providers c)" "declared_dependencies c"
    "acyclic (graph_edges (provider_graph ks (dc_providers c)))"
    "iteration_of gks (provider_graph ks (dc_providers c))"
  shows "(\<exists>n r. \<forall>m \<ge> n. resolve m env s t c = Some r) \<and>
    (\<exists>n r. \<forall>m \<ge> n. initialize m env s ks gks c = Some r)"
proof -
  obtain R where R: "wf R" "well_founded_factories R c" using declared_acyclic_wf [OF assms(1-3)] by blast
  obtain n r where "resolve n env s t c = Some r" using resolve_terminates_wf [OF R] by blast
  then have "\<forall>m \<ge> n. resolve m env s t c = Some r" using fuel_mono(1) by blast
  moreover have "\<exists>n r. \<forall>m \<ge> n. initialize m env s ks gks c = Some r"
  proof -
    obtain ord where ord: "resolve_order gks (provider_graph ks (dc_providers c)) = Some (Inr ord)"
      using di_solver.solvable_iff [of "(gks, provider_graph ks (dc_providers c))"] di_solve_resolve [OF assms(4)] assms(3,4)
      by auto
    obtain k x where x: "initialize_loop k env s ord c = Some x" using initialize_loop_terminates [OF R] by blast
    have "initialize m env s ks gks c = Some x" if "k \<le> m" for m
      using initialize_loop_fuel [OF that x] ord by (simp add: initialize_def)
    then show ?thesis by blast
  qed
  ultimately show ?thesis by blast
qed

theorem resolve_terminates_witness:
  "\<exists>n r. \<forall>m \<ge> n. initialize m demo_env 0 [1, 2, 3] [1, 2, 3] demo_container = Some r"
proof -
  let ?g = "provider_graph [1, 2, 3] (dc_providers demo_container)"
  have "declared_dependencies demo_container"
    by (auto simp: declared_dependencies_def demo_container_def demo_ops_def register_value_parts register_factory_def
        register_provider_by_id_def container container_new_def factory_provider_new_def value_provider_from_arc_def
        add_one_def get_by_id_def [of Map.empty] split: if_splits sum.splits)
       (metis sum.exhaust)+
  moreover have "acyclic (graph_edges ?g)"
  proof -
    have "map_option isl (resolve_order [1, 2, 3] ?g) = Some False" by code_simp
    then show ?thesis
      using di_solver.solvable_iff [of "([1, 2, 3], ?g)"] demo_keys di_solve_resolve [of "[1, 2, 3]" ?g]
      by (auto simp: isl_def) (metis sum.exhaust)
  qed
  ultimately show ?thesis
    using resolve_terminates [OF demo_keys(1) _ _ demo_keys(2), of demo_env 0 0] by blast
qed

end
