(* ===== verification/Di_Race.thy ===== *)
theory Di_Race
  imports Di_Properties
begin

text \<open>
  Two tasks on one container: \<open>resolve\<close> of a singleton type and \<open>register_provider_by_id\<close> of the same type,
  interleaved at every lock acquisition of \<open>nivasa-core/src/di/container.rs\<close>. Each step below is one guarded
  access; the build itself is one step, which is exact for a factory that asks nothing of the container.
\<close>

datatype 'v ResolvePc =
    RStart
  | RVersion "64 word"
  | RProvider "64 word" "'v Provider"
  | RMissed "64 word" "'v Provider"
  | RStale "64 word" "'v Provider"
  | RBuilt "64 word" "'v Instance"
  | RRechecked "64 word" "'v Instance" bool
  | RDone "DiError + 'v Instance"

datatype RegisterPc = GStart | GBumped | GInserted | GUncached | GDone

type_synonym 'v race_state = "'v DependencyContainer \<times> 'v ResolvePc \<times> RegisterPc"

inductive race_step :: "Env \<Rightarrow> ScopeId \<Rightarrow> TypeId \<Rightarrow> 'v Provider \<Rightarrow> 'v race_state \<Rightarrow> 'v race_state \<Rightarrow> bool"
  for env s t q where
  read_version: "race_step env s t q (c, RStart, g) (c, RVersion (current_version t c), g)"
| no_provider: "get_by_id (dc_providers c) t = None \<Longrightarrow>
    race_step env s t q (c, RVersion w, g) (c, RDone (Inl (ProviderNotFound (env_type_name env t))), g)"
| get_provider: "get_by_id (dc_providers c) t = Some p \<Longrightarrow>
    race_step env s t q (c, RVersion w, g) (c, RProvider w p, g)"
| hit: "dc_singletons c t = Some e \<Longrightarrow> ci_version e = w \<Longrightarrow>
    race_step env s t q (c, RProvider w p, g) (c, RDone (downcast env t (ci_value e)), g)"
| stale: "dc_singletons c t = Some e \<Longrightarrow> ci_version e \<noteq> w \<Longrightarrow>
    race_step env s t q (c, RProvider w p, g) (c, RStale w p, g)"
| drop: "race_step env s t q (c, RStale w p, g) (remove_singleton t c, RMissed w p, g)"
| miss: "dc_singletons c t = None \<Longrightarrow>
    race_step env s t q (c, RProvider w p, g) (c, RMissed w p, g)"
| build: "build_provider_with_lifecycle n env s p c = Some (Inr i, c') \<Longrightarrow>
    race_step env s t q (c, RMissed w p, g) (c', RBuilt w i, g)"
| build_error: "build_provider_with_lifecycle n env s p c = Some (Inl err, c') \<Longrightarrow>
    race_step env s t q (c, RMissed w p, g) (c', RDone (Inl err), g)"
| recheck: "race_step env s t q (c, RBuilt w i, g) (c, RRechecked w i (current_version t c = w), g)"
| store: "race_step env s t q (c, RRechecked w i same, g)
    (if same then cache_singleton t w i c else c, RDone (downcast env t i), g)"
| bump: "race_step env s t q (c, r, GStart) (snd (bump_version t c), r, GBumped)"
| insert: "race_step env s t q (c, r, GBumped) (insert_provider t q c, r, GInserted)"
| uncache: "race_step env s t q (c, r, GInserted) (remove_singleton t c, r, GUncached)"
| uncache_scoped: "race_step env s t q (c, r, GUncached) (remove_scoped s t c, r, GDone)"

abbreviation race_steps where
  "race_steps env s t q \<equiv> (race_step env s t q)\<^sup>*\<^sup>*"

text \<open>The registering task on its own is \<open>register_provider_by_id\<close>.\<close>

lemma register_alone:
  "race_steps env s t q (c, r, GStart) (register_provider_by_id s t q c, r, GDone)"
  unfolding register_provider_by_id_def
  by (meson race_step.bump race_step.insert race_step.uncache race_step.uncache_scoped
      converse_rtranclp_into_rtranclp rtranclp.rtrancl_refl)

lemma steps_then: "race_steps env s t q a b \<Longrightarrow> race_step env s t q b d \<Longrightarrow> race_steps env s t q a d"
  by (rule rtranclp.rtrancl_into_rtrancl)

text \<open>The version check does not close the race with a registration. When a resolution reads the version after
  the registering task has bumped it but takes the provider before the new one is inserted, it builds with
  the old provider, finds the version unchanged, and caches the old instance under the new version, after
  the registration has cleared the cache. Both tasks are then finished, the new provider is registered, and
  every later resolution returns the old provider's instance.\<close>

theorem registration_race_serves_old_provider:
  assumes "get_by_id (dc_providers c) t = Some (factory_provider_new env t Singleton deps (Finish v))"
    and "dc_singletons c t = None" "md_scope (provider_metadata q) = Singleton"
  shows "\<exists>c' i. race_steps env s t q (c, RStart, GStart) (c', RDone (Inr i), GDone) \<and>
    inst_value i = v \<and> get_by_id (dc_providers c') t = Some q \<and>
    (\<forall>m s'. resolve (Suc m) env s' t c' = Some (Inr i, c'))"
proof -
  let ?p = "factory_provider_new env t Singleton deps (Finish v)"
  let ?w = "saturating_succ (current_version t c)"
  let ?c1 = "snd (bump_version t c)"
  let ?i = "\<lparr>inst_type = t, inst_addr = dc_next_addr c, inst_value = v\<rparr>"
  let ?c2 = "remove_scoped s t (remove_singleton t (insert_provider t q ?c1))"
  let ?c3 = "snd (arc_new t v ?c2)"
  let ?c4 = "cache_singleton t ?w ?i ?c3"
  have build: "build_provider_with_lifecycle (Suc (Suc 0)) env s ?p ?c2 = Some (Inr ?i, ?c3)"
    by (simp add: container factory_provider_new_def)
  have p: "get_by_id (dc_providers ?c1) t = Some ?p" "dc_singletons ?c1 t = None"
    using assms by (simp_all add: container)
  have w: "current_version t ?c1 = ?w" "current_version t ?c3 = ?w" by (simp_all add: container)
  have "race_steps env s t q (c, RStart, GStart) (?c1, RVersion (current_version t ?c1), GBumped)"
    by (rule steps_then [OF steps_then [OF rtranclp.rtrancl_refl race_step.bump] race_step.read_version])
  then have "race_steps env s t q (c, RStart, GStart) (?c1, RVersion ?w, GBumped)" by (simp only: w)
  then have "race_steps env s t q (c, RStart, GStart) (?c1, RProvider ?w ?p, GBumped)"
    by (rule steps_then [OF _ race_step.get_provider [OF p(1)]])
  then have "race_steps env s t q (c, RStart, GStart) (?c1, RMissed ?w ?p, GBumped)"
    by (rule steps_then [OF _ race_step.miss [OF p(2)]])
  then have "race_steps env s t q (c, RStart, GStart) (?c2, RMissed ?w ?p, GDone)"
    by (rule steps_then [OF steps_then [OF steps_then [OF _ race_step.insert] race_step.uncache] race_step.uncache_scoped])
  then have "race_steps env s t q (c, RStart, GStart) (?c3, RRechecked ?w ?i (current_version t ?c3 = ?w), GDone)"
    by (rule steps_then [OF steps_then [OF _ race_step.build [OF build]] race_step.recheck])
  then have "race_steps env s t q (c, RStart, GStart) (?c4, RDone (Inr ?i), GDone)"
    using race_step.store [of env s t q ?c3 ?w ?i True GDone] w(2) steps_then
    by (fastforce simp: downcast_def)
  moreover have "resolve (Suc m) env s' t ?c4 = Some (Inr ?i, ?c4)" for m s'
    using assms(3) w by (simp add: container Let_def read_cached_singleton_def downcast_def)
  moreover have "get_by_id (dc_providers ?c4) t = Some q" by (simp add: container)
  ultimately show ?thesis by (metis (no_types, lifting) Instance.select_convs(3))
qed

theorem registration_race_serves_old_provider_witness:
  "let old = factory_provider_new demo_env 7 Singleton [] (Finish (1 :: nat));
       new = factory_provider_new demo_env 7 Singleton [] (Finish 2);
       c = register_provider_by_id 0 7 old (snd container_new) in
   \<exists>c' i. race_steps demo_env 0 7 new (c, RStart, GStart) (c', RDone (Inr i), GDone) \<and>
     resolve 5 demo_env 0 7 c' = Some (Inr i, c') \<and> inst_value i = 1"
proof -
  let ?old = "factory_provider_new demo_env 7 Singleton [] (Finish (1 :: nat))"
  let ?new = "factory_provider_new demo_env 7 Singleton [] (Finish (2 :: nat))"
  let ?c = "register_provider_by_id 0 7 ?old (snd container_new)"
  have a: "get_by_id (dc_providers ?c) 7 = Some ?old" "dc_singletons ?c 7 = None"
    by (simp_all add: register_provider_by_id_def container)
  have b: "md_scope (provider_metadata ?new) = Singleton" by (simp add: factory_provider_new_def)
  obtain c' i where "race_steps demo_env 0 7 ?new (?c, RStart, GStart) (c', RDone (Inr i), GDone)"
    "inst_value i = 1" "\<forall>m s'. resolve (Suc m) demo_env s' 7 c' = Some (Inr i, c')"
    using registration_race_serves_old_provider [OF a b, of 0] by blast
  moreover from this(3) have "resolve 5 demo_env 0 7 c' = Some (Inr i, c')" by (metis numeral_eq_Suc)
  ultimately show ?thesis unfolding Let_def by blast
qed

end
