(* ===== verification/Module_Registry.thy ===== *)
theory Module_Registry
  imports Di_Graph "HOL-Library.Word"
begin

text \<open>
  The module graph (\<open>nivasa-core/src/module/mod.rs\<close>, \<open>registry.rs\<close>, \<open>dynamic.rs\<close>): what modules declare, the
  order they are bootstrapped in, and which exports a module sees.

  \<open>HashMap::values\<close> visits the entries in the order of a parameter \<open>ks\<close>. A panic of \<open>expect\<close> and running
  out of fuel are both \<open>None\<close>; the properties show that neither happens.
\<close>

record ModuleMetadata =
  mm_imports :: "TypeId list"
  mm_providers :: "TypeId list"
  mm_controllers :: "TypeId list"
  mm_exports :: "TypeId list"
  mm_middlewares :: "TypeId list"
  mm_is_global :: bool

definition module_metadata_new :: ModuleMetadata where
  "module_metadata_new = \<lparr>mm_imports = [], mm_providers = [], mm_controllers = [], mm_exports = [],
     mm_middlewares = [], mm_is_global = False\<rparr>"

definition with_imports :: "ModuleMetadata \<Rightarrow> TypeId list \<Rightarrow> ModuleMetadata" where
  "with_imports md imports = md\<lparr>mm_imports := imports\<rparr>"

definition with_providers :: "ModuleMetadata \<Rightarrow> TypeId list \<Rightarrow> ModuleMetadata" where
  "with_providers md providers = md\<lparr>mm_providers := providers\<rparr>"

definition with_controllers :: "ModuleMetadata \<Rightarrow> TypeId list \<Rightarrow> ModuleMetadata" where
  "with_controllers md controllers = md\<lparr>mm_controllers := controllers\<rparr>"

definition with_exports :: "ModuleMetadata \<Rightarrow> TypeId list \<Rightarrow> ModuleMetadata" where
  "with_exports md exports = md\<lparr>mm_exports := exports\<rparr>"

definition with_middlewares :: "ModuleMetadata \<Rightarrow> TypeId list \<Rightarrow> ModuleMetadata" where
  "with_middlewares md middlewares = md\<lparr>mm_middlewares := middlewares\<rparr>"

definition with_global :: "ModuleMetadata \<Rightarrow> bool \<Rightarrow> ModuleMetadata" where
  "with_global md is_global = md\<lparr>mm_is_global := is_global\<rparr>"

text \<open>What a module says of its controllers; the application builds its routes from it.\<close>

record RouteThrottleRegistration =
  rtr_limit :: "32 word"
  rtr_ttl_secs :: "64 word"

record ControllerRouteRegistration =
  cr_method :: string
  cr_path :: string
  cr_handler :: string
  cr_throttle :: "RouteThrottleRegistration option"
  cr_skip_throttle :: bool

definition route_registration_new :: "string \<Rightarrow> string \<Rightarrow> string \<Rightarrow> ControllerRouteRegistration" where
  "route_registration_new http_method route_path handler =
     \<lparr>cr_method = http_method, cr_path = route_path, cr_handler = handler, cr_throttle = None, cr_skip_throttle = False\<rparr>"

definition with_throttle :: "ControllerRouteRegistration \<Rightarrow> 32 word \<Rightarrow> 64 word \<Rightarrow> ControllerRouteRegistration" where
  "with_throttle route limit ttl_secs =
     route\<lparr>cr_throttle := Some \<lparr>rtr_limit = limit, rtr_ttl_secs = ttl_secs\<rparr>\<rparr>"

definition skip_throttle :: "ControllerRouteRegistration \<Rightarrow> ControllerRouteRegistration" where
  "skip_throttle route = route\<lparr>cr_throttle := None, cr_skip_throttle := True\<rparr>"

record ModuleControllerRegistration =
  mc_controller :: TypeId
  mc_routes :: "ControllerRouteRegistration list"
  mc_middlewares :: "TypeId list"

record DynamicModule =
  dm_metadata :: ModuleMetadata
  dm_providers :: "TypeId list"
  dm_pre_bootstrap :: "(string + unit) option"

definition dynamic_new :: "ModuleMetadata \<Rightarrow> DynamicModule" where
  "dynamic_new metadata = \<lparr>dm_metadata = metadata, dm_providers = [], dm_pre_bootstrap = None\<rparr>"

definition dynamic_with_providers :: "DynamicModule \<Rightarrow> TypeId list \<Rightarrow> DynamicModule" where
  "dynamic_with_providers module providers = module\<lparr>dm_providers := providers\<rparr>"

definition dynamic_with_global :: "DynamicModule \<Rightarrow> bool \<Rightarrow> DynamicModule" where
  "dynamic_with_global module is_global = module\<lparr>dm_metadata := with_global (dm_metadata module) is_global\<rparr>"

definition dynamic_with_pre_bootstrap :: "DynamicModule \<Rightarrow> (string + unit) \<Rightarrow> DynamicModule" where
  "dynamic_with_pre_bootstrap module pre_bootstrap = module\<lparr>dm_pre_bootstrap := Some pre_bootstrap\<rparr>"

definition run_pre_bootstrap :: "DynamicModule \<Rightarrow> string + unit" where
  "run_pre_bootstrap module = (case dm_pre_bootstrap module of Some r \<Rightarrow> r | None \<Rightarrow> Inr ())"

fun append_missing :: "'a list \<Rightarrow> 'a list \<Rightarrow> 'a list" where
  "append_missing ps [] = ps"
| "append_missing ps (p # rest) = append_missing (if p \<in> set ps then ps else ps @ [p]) rest"

definition merged_metadata :: "DynamicModule \<Rightarrow> ModuleMetadata" where
  "merged_metadata module =
     (dm_metadata module)\<lparr>mm_providers := append_missing (mm_providers (dm_metadata module)) (dm_providers module)\<rparr>"

record ModuleEntry =
  me_type_id :: TypeId
  me_type_name :: string
  me_metadata :: ModuleMetadata

datatype ModuleRegistryError =
    MissingImport string TypeId
  | InvalidExport string TypeId
  | CircularImport string string

type_synonym ModuleRegistry = "TypeId \<rightharpoonup> ModuleEntry"

definition module_register :: "ModuleRegistry \<Rightarrow> TypeId \<Rightarrow> string \<Rightarrow> ModuleMetadata \<Rightarrow> bool \<times> ModuleRegistry" where
  "module_register reg t type_name metadata =
     (reg t = None, reg(t \<mapsto> \<lparr>me_type_id = t, me_type_name = type_name, me_metadata = metadata\<rparr>))"

definition register_dynamic :: "ModuleRegistry \<Rightarrow> TypeId \<Rightarrow> string \<Rightarrow> DynamicModule \<Rightarrow> bool \<times> ModuleRegistry" where
  "register_dynamic reg t type_name module = module_register reg t type_name (merged_metadata module)"

definition module_entries :: "TypeId list \<Rightarrow> ModuleRegistry \<Rightarrow> ModuleEntry list" where
  "module_entries ks reg = List.map_filter reg ks"

definition by_name :: "ModuleEntry \<Rightarrow> ModuleEntry \<Rightarrow> ordering" where
  "by_name left right = cmp_of (me_type_name left) (me_type_name right)"

definition global_module_ids :: "TypeId list \<Rightarrow> ModuleRegistry \<Rightarrow> TypeId list" where
  "global_module_ids ks reg =
     map me_type_id (sort_by by_name (filter (\<lambda>entry. mm_is_global (me_metadata entry)) (module_entries ks reg)))"

section \<open>Bootstrap order\<close>

fun mod_dfs :: "nat \<Rightarrow> ModuleRegistry \<Rightarrow> TypeId \<Rightarrow> DfsState \<Rightarrow> (ModuleRegistryError + DfsState) option"
  and mod_imports ::
    "nat \<Rightarrow> ModuleRegistry \<Rightarrow> ModuleEntry \<Rightarrow> TypeId list \<Rightarrow> DfsState \<Rightarrow> (ModuleRegistryError + DfsState) option"
where
  "mod_dfs 0 reg current st = None"
| "mod_dfs (Suc n) reg current st =
     (case reg current of
        None \<Rightarrow> None
      | Some entry \<Rightarrow>
          if current \<in> visiting st then
            Some (Inl (CircularImport (me_type_name entry) (join '' -> '' (path st @ [me_type_name entry]))))
          else if current \<in> visited st then Some (Inr st)
          else
            (case mod_imports n reg entry (mm_imports (me_metadata entry))
                    (st\<lparr>path := path st @ [me_type_name entry], visiting := insert current (visiting st)\<rparr>) of
               Some (Inr st2) \<Rightarrow>
                 Some (Inr (st2\<lparr>visiting := visiting st2 - {current}, visited := insert current (visited st2),
                                order := order st2 @ [current], path := butlast (path st2)\<rparr>))
             | Some (Inl err) \<Rightarrow> Some (Inl err)
             | None \<Rightarrow> None))"
| "mod_imports n reg entry [] st = Some (Inr st)"
| "mod_imports n reg entry (import # rest) st =
     (case reg import of
        None \<Rightarrow> Some (Inl (MissingImport (me_type_name entry) import))
      | Some imported \<Rightarrow>
          if import \<in> visiting st then
            Some (Inl (CircularImport (me_type_name imported) (join '' -> '' (path st @ [me_type_name imported]))))
          else
            (case mod_dfs n reg import st of
               Some (Inr st1) \<Rightarrow> mod_imports n reg entry rest st1
             | Some (Inl err) \<Rightarrow> Some (Inl err)
             | None \<Rightarrow> None))"

fun mod_roots :: "nat \<Rightarrow> ModuleRegistry \<Rightarrow> TypeId list \<Rightarrow> DfsState \<Rightarrow> (ModuleRegistryError + DfsState) option" where
  "mod_roots n reg [] st = Some (Inr st)"
| "mod_roots n reg (t # ts) st =
     (if t \<notin> visited st then
        (case mod_dfs n reg t (st\<lparr>path := []\<rparr>) of
           Some (Inr st1) \<Rightarrow> mod_roots n reg ts st1
         | Some (Inl err) \<Rightarrow> Some (Inl err)
         | None \<Rightarrow> None)
      else mod_roots n reg ts st)"

definition module_resolve_order :: "TypeId list \<Rightarrow> ModuleRegistry \<Rightarrow> (ModuleRegistryError + TypeId list) option" where
  "module_resolve_order ks reg =
     (case mod_roots (Suc (length ks)) reg (map me_type_id (sort_by by_name (module_entries ks reg)))
             \<lparr>visited = {}, visiting = {}, order = [], path = []\<rparr> of
        Some (Inr st) \<Rightarrow> Some (Inr (order st))
      | Some (Inl err) \<Rightarrow> Some (Inl err)
      | None \<Rightarrow> None)"

section \<open>Exports and visibility\<close>

record SurfaceState =
  ss_cache :: "TypeId \<rightharpoonup> TypeId set"
  ss_visiting :: "TypeId set"
  ss_path :: "string list"

fun collect_exports :: "string \<Rightarrow> TypeId set \<Rightarrow> TypeId set list \<Rightarrow> TypeId list \<Rightarrow> TypeId set \<Rightarrow> ModuleRegistryError + TypeId set" where
  "collect_exports name provided import_surfaces [] surface = Inr surface"
| "collect_exports name provided import_surfaces (exported # rest) surface =
     (if exported \<in> provided \<or> list_ex (\<lambda>imported_surface. exported \<in> imported_surface) import_surfaces
      then collect_exports name provided import_surfaces rest (insert exported surface)
      else Inl (InvalidExport name exported))"

fun public_surface_for ::
    "nat \<Rightarrow> ModuleRegistry \<Rightarrow> TypeId \<Rightarrow> SurfaceState \<Rightarrow> (ModuleRegistryError + TypeId set \<times> SurfaceState) option"
  and import_surfaces_for ::
    "nat \<Rightarrow> ModuleRegistry \<Rightarrow> ModuleEntry \<Rightarrow> TypeId list \<Rightarrow> SurfaceState \<Rightarrow>
     (ModuleRegistryError + TypeId set list \<times> SurfaceState) option"
where
  "public_surface_for 0 reg current st = None"
| "public_surface_for (Suc n) reg current st =
     (case ss_cache st current of
        Some cached \<Rightarrow> Some (Inr (cached, st))
      | None \<Rightarrow>
          (case reg current of
             None \<Rightarrow> None
           | Some entry \<Rightarrow>
               if current \<in> ss_visiting st then
                 Some (Inl (CircularImport (me_type_name entry) (join '' -> '' (ss_path st @ [me_type_name entry]))))
               else
                 (case import_surfaces_for n reg entry (mm_imports (me_metadata entry))
                         (st\<lparr>ss_visiting := insert current (ss_visiting st),
                            ss_path := ss_path st @ [me_type_name entry]\<rparr>) of
                    None \<Rightarrow> None
                  | Some (Inl err) \<Rightarrow> Some (Inl err)
                  | Some (Inr (import_surfaces, st1)) \<Rightarrow>
                      (case collect_exports (me_type_name entry) (set (mm_providers (me_metadata entry)))
                              import_surfaces (mm_exports (me_metadata entry)) {} of
                         Inl err \<Rightarrow> Some (Inl err)
                       | Inr surface \<Rightarrow>
                           Some (Inr (surface,
                             st1\<lparr>ss_path := butlast (ss_path st1), ss_visiting := ss_visiting st1 - {current},
                                 ss_cache := (ss_cache st1)(current \<mapsto> surface)\<rparr>))))))"
| "import_surfaces_for n reg entry [] st = Some (Inr ([], st))"
| "import_surfaces_for n reg entry (import # rest) st =
     (case reg import of
        None \<Rightarrow> Some (Inl (MissingImport (me_type_name entry) import))
      | Some imported \<Rightarrow>
          (case public_surface_for n reg import st of
             None \<Rightarrow> None
           | Some (Inl err) \<Rightarrow> Some (Inl err)
           | Some (Inr (surface, st1)) \<Rightarrow>
               (case import_surfaces_for n reg entry rest st1 of
                  None \<Rightarrow> None
                | Some (Inl err) \<Rightarrow> Some (Inl err)
                | Some (Inr (surfaces, st2)) \<Rightarrow> Some (Inr (surface # surfaces, st2)))))"

definition surface_init :: SurfaceState where
  "surface_init = \<lparr>ss_cache = Map.empty, ss_visiting = {}, ss_path = []\<rparr>"

definition exported_surface_for :: "TypeId list \<Rightarrow> ModuleRegistry \<Rightarrow> TypeId \<Rightarrow> (ModuleRegistryError + TypeId set) option" where
  "exported_surface_for ks reg module =
     (case public_surface_for (Suc (length ks)) reg module surface_init of
        None \<Rightarrow> None
      | Some (Inl err) \<Rightarrow> Some (Inl err)
      | Some (Inr (surface, st)) \<Rightarrow> Some (Inr surface))"

text \<open>The three loops of \<open>visible_exports_by_id\<close> extend \<open>visible\<close> with one surface after another.\<close>

fun extend_visible ::
  "nat \<Rightarrow> ModuleRegistry \<Rightarrow> TypeId list \<Rightarrow> TypeId set \<Rightarrow> SurfaceState \<Rightarrow>
   (ModuleRegistryError + TypeId set \<times> SurfaceState) option" where
  "extend_visible n reg [] visible st = Some (Inr (visible, st))"
| "extend_visible n reg (t # ts) visible st =
     (case public_surface_for n reg t st of
        None \<Rightarrow> None
      | Some (Inl err) \<Rightarrow> Some (Inl err)
      | Some (Inr (surface, st1)) \<Rightarrow> extend_visible n reg ts (visible \<union> surface) st1)"

definition visible_exports_by_id :: "TypeId list \<Rightarrow> ModuleRegistry \<Rightarrow> TypeId \<Rightarrow> (ModuleRegistryError + TypeId set) option" where
  "visible_exports_by_id ks reg module =
     (case reg module of
        None \<Rightarrow> None
      | Some entry \<Rightarrow>
          (case extend_visible (Suc (length ks)) reg
                  ([module] @ mm_imports (me_metadata entry) @
                   filter (\<lambda>global. global \<noteq> module) (global_module_ids ks reg) @
                   (if mm_is_global (me_metadata entry) then [module] else [])) {} surface_init of
             None \<Rightarrow> None
           | Some (Inl err) \<Rightarrow> Some (Inl err)
           | Some (Inr (visible, st)) \<Rightarrow> Some (Inr visible)))"

fun import_loop :: "ModuleRegistry \<Rightarrow> string \<Rightarrow> TypeId list \<Rightarrow> TypeId list \<Rightarrow> ModuleRegistryError + TypeId list" where
  "import_loop reg name [] sources = Inr sources"
| "import_loop reg name (import # rest) sources =
     (if reg import = None then Inl (MissingImport name import)
      else import_loop reg name rest (if import \<in> set sources then sources else sources @ [import]))"

definition import_sources_by_id :: "TypeId list \<Rightarrow> ModuleRegistry \<Rightarrow> TypeId \<Rightarrow> (ModuleRegistryError + TypeId list) option" where
  "import_sources_by_id ks reg module =
     (case reg module of
        None \<Rightarrow> None
      | Some entry \<Rightarrow>
          (case import_loop reg (me_type_name entry) (mm_imports (me_metadata entry)) [] of
             Inl err \<Rightarrow> Some (Inl err)
           | Inr sources \<Rightarrow>
               Some (Inr (append_missing sources (filter (\<lambda>global. global \<noteq> module) (global_module_ids ks reg))))))"

definition is_visible_to :: "TypeId list \<Rightarrow> ModuleRegistry \<Rightarrow> TypeId \<Rightarrow> TypeId \<Rightarrow> (ModuleRegistryError + bool) option" where
  "is_visible_to ks reg consumer exported =
     (case visible_exports_by_id ks reg consumer of
        None \<Rightarrow> None
      | Some (Inl err) \<Rightarrow> Some (Inl err)
      | Some (Inr visible) \<Rightarrow> Some (Inr (exported \<in> visible)))"

end
