(* ===== verification/Module_Order.thy ===== *)
theory Module_Order
  imports Module_Registry
begin

text \<open>
  The module order is a dependency order. The search of the module registry is related step by step to the
  search of the provider graph on \<open>module_graph\<close>, so what \<open>Di_Graph\<close> shows of that one carries over; what is
  new are imports that are not registered.
\<close>

definition module_graph :: "ModuleRegistry \<Rightarrow> DependencyGraph" where
  "module_graph reg t =
     map_option (\<lambda>e. \<lparr>nd_type_name = me_type_name e, nd_dependencies = mm_imports (me_metadata e)\<rparr>) (reg t)"

definition module_deps :: "ModuleRegistry \<Rightarrow> TypeId \<Rightarrow> TypeId list" where
  "module_deps reg t = (case reg t of Some e \<Rightarrow> mm_imports (me_metadata e) | None \<Rightarrow> [])"

definition import_missing :: "ModuleRegistry \<Rightarrow> bool" where
  "import_missing reg \<longleftrightarrow> (\<exists>t e d. reg t = Some e \<and> d \<in> set (mm_imports (me_metadata e)) \<and> reg d = None)"

definition entries_keyed :: "ModuleRegistry \<Rightarrow> bool" where
  "entries_keyed reg \<longleftrightarrow> (\<forall>t e. reg t = Some e \<longrightarrow> me_type_id e = t)"

lemma module_graph_simps [simp]:
  "dom (module_graph reg) = dom reg"
  "node_deps (module_graph reg) = module_deps reg"
  by (auto simp: module_graph_def dom_def node_deps_def module_deps_def fun_eq_iff split: option.splits)

lemma module_graph_eq: "module_graph reg t = None \<longleftrightarrow> reg t = None"
  by (simp add: module_graph_def)

lemma mod_dfs_found:
  "mod_dfs n reg x st = Some (Inr st') \<Longrightarrow> n \<le> m \<Longrightarrow> dfs m (module_graph reg) x st = Some (Inr st')"
  "mod_imports n reg entry ds st = Some (Inr st') \<Longrightarrow> n \<le> m \<Longrightarrow> dfs_deps m (module_graph reg) ds st = Some (Inr st')"
proof (induction n reg x st and n reg entry ds st arbitrary: st' m and st' m rule: mod_dfs_mod_imports.induct)
  case (2 n reg x st)
  obtain k where m: "m = Suc k" "n \<le> k" using "2.prems"(2) by (cases m) auto
  obtain entry where e: "reg x = Some entry" using "2.prems"(1) by (auto split: option.splits)
  have g: "module_graph reg x = Some \<lparr>nd_type_name = me_type_name entry, nd_dependencies = mm_imports (me_metadata entry)\<rparr>"
    using e by (simp add: module_graph_def)
  have vis: "x \<notin> visiting st" using "2.prems"(1) e by (auto split: if_splits)
  show ?case
  proof (cases "x \<in> visited st")
    case True
    with "2.prems"(1) e vis m g show ?thesis by (simp add: Let_def)
  next
    case False
    let ?st1 = "st\<lparr>path := path st @ [me_type_name entry], visiting := insert x (visiting st)\<rparr>"
    obtain st2 where st2: "mod_imports n reg entry (mm_imports (me_metadata entry)) ?st1 = Some (Inr st2)"
      "st' = st2\<lparr>visiting := visiting st2 - {x}, visited := insert x (visited st2),
                 order := order st2 @ [x], path := butlast (path st2)\<rparr>"
      using "2.prems"(1) e vis False by (auto split: option.splits sum.splits)
    from "2.IH" [OF e vis False st2(1) m(2)] st2(2) m g vis False show ?thesis by (simp add: Let_def)
  qed
next
  case (4 n reg entry d ds st)
  obtain e where e: "reg d = Some e" "d \<notin> visiting st" using "4.prems"(1) by (auto split: option.splits if_splits)
  obtain st1 where st1: "mod_dfs n reg d st = Some (Inr st1)" "mod_imports n reg entry ds st1 = Some (Inr st')"
    using "4.prems"(1) e by (auto split: option.splits sum.splits)
  from "4.IH"(1) [OF e st1(1) "4.prems"(2)] "4.IH"(2) [OF e st1(1) refl st1(2) "4.prems"(2)]
  show ?case by simp
qed auto

lemma mod_dfs_none:
  "mod_dfs n reg x st = None \<Longrightarrow> reg x \<noteq> None \<Longrightarrow> dfs n (module_graph reg) x st = None"
  "mod_imports n reg entry ds st = None \<Longrightarrow> dfs_deps n (module_graph reg) ds st = None"
proof (induction n reg x st and n reg entry ds st rule: mod_dfs_mod_imports.induct)
  case (2 n reg x st)
  then obtain entry where e: "reg x = Some entry" by auto
  have g: "module_graph reg x = Some \<lparr>nd_type_name = me_type_name entry, nd_dependencies = mm_imports (me_metadata entry)\<rparr>"
    using e by (simp add: module_graph_def)
  from "2.prems"(1) e have vis: "x \<notin> visiting st" "x \<notin> visited st"
    by (auto split: if_splits)
  from "2.prems"(1) e vis have "mod_imports n reg entry (mm_imports (me_metadata entry))
      (st\<lparr>path := path st @ [me_type_name entry], visiting := insert x (visiting st)\<rparr>) = None"
    by (auto split: option.splits sum.splits)
  from "2.IH" [OF e vis this] g vis show ?case by (simp add: Let_def)
next
  case (4 n reg entry d ds st)
  obtain e where e: "reg d = Some e" "d \<notin> visiting st" using "4.prems" by (auto split: option.splits if_splits)
  show ?case
  proof (cases "mod_dfs n reg d st")
    case None
    with "4.IH"(1) [OF e] e show ?thesis by simp
  next
    case (Some r)
    with "4.prems" e obtain st1 where st1: "mod_dfs n reg d st = Some (Inr st1)" "mod_imports n reg entry ds st1 = None"
      by (auto split: sum.splits)
    from "4.IH"(2) [OF e st1(1) refl st1(2)] mod_dfs_found(1) [OF st1(1), of n] show ?thesis by simp
  qed
qed auto

lemma mod_dfs_circular:
  "mod_dfs n reg x st = Some (Inl (CircularImport name cycle)) \<Longrightarrow>
     dfs (Suc n) (module_graph reg) x st = Some (Inl (CircularDependency cycle))"
  "mod_imports n reg entry ds st = Some (Inl (CircularImport name cycle)) \<Longrightarrow>
     dfs_deps (Suc n) (module_graph reg) ds st = Some (Inl (CircularDependency cycle))"
proof (induction n reg x st and n reg entry ds st rule: mod_dfs_mod_imports.induct)
  case (2 n reg x st)
  obtain entry where e: "reg x = Some entry" using "2.prems"(1) by (auto split: option.splits)
  have g: "module_graph reg x = Some \<lparr>nd_type_name = me_type_name entry, nd_dependencies = mm_imports (me_metadata entry)\<rparr>"
    using e by (simp add: module_graph_def)
  show ?case
  proof (cases "x \<in> visiting st")
    case True
    with "2.prems" e g show ?thesis by (auto simp: Let_def)
  next
    case False
    with "2.prems" e have vis: "x \<notin> visited st" by (auto split: if_splits)
    from "2.prems" e False vis have "mod_imports n reg entry (mm_imports (me_metadata entry))
        (st\<lparr>path := path st @ [me_type_name entry], visiting := insert x (visiting st)\<rparr>) = Some (Inl (CircularImport name cycle))"
      by (auto split: option.splits sum.splits)
    from "2.IH" [OF e False vis this] g False vis show ?thesis by (simp add: Let_def)
  qed
next
  case (4 n reg entry d ds st)
  obtain e where e: "reg d = Some e" using "4.prems" by (auto split: option.splits)
  have g: "module_graph reg d = Some \<lparr>nd_type_name = me_type_name e, nd_dependencies = mm_imports (me_metadata e)\<rparr>"
    using e by (simp add: module_graph_def)
  show ?case
  proof (cases "d \<in> visiting st")
    case True
    with "4.prems" e g show ?thesis by (auto simp: Let_def)
  next
    case False
    show ?thesis
    proof (cases "mod_dfs n reg d st = Some (Inl (CircularImport name cycle))")
      case True
      from "4.IH"(1) [OF e False True] show ?thesis by simp
    next
      case other: False
      with "4.prems" e False obtain st1 where st1: "mod_dfs n reg d st = Some (Inr st1)"
        "mod_imports n reg entry ds st1 = Some (Inl (CircularImport name cycle))"
        by (auto split: option.splits sum.splits)
      from "4.IH"(2) [OF e False st1(1) refl st1(2)] mod_dfs_found(1) [OF st1(1), of "Suc n"] show ?thesis by simp
    qed
  qed
qed (auto split: option.splits)

lemma mod_dfs_errors:
  "mod_dfs n reg x st = Some (Inl err) \<Longrightarrow>
     (\<exists>name cycle. err = CircularImport name cycle) \<or>
     (\<exists>t e d. err = MissingImport (me_type_name e) d \<and> reg t = Some e \<and> d \<in> set (mm_imports (me_metadata e)) \<and> reg d = None)"
  "mod_imports n reg entry ds st = Some (Inl err) \<Longrightarrow>
     (\<exists>name cycle. err = CircularImport name cycle) \<or>
     (\<exists>d \<in> set ds. err = MissingImport (me_type_name entry) d \<and> reg d = None) \<or>
     (\<exists>t e d. err = MissingImport (me_type_name e) d \<and> reg t = Some e \<and> d \<in> set (mm_imports (me_metadata e)) \<and> reg d = None)"
proof (induction n reg x st and n reg entry ds st rule: mod_dfs_mod_imports.induct)
  case (2 n reg x st)
  obtain entry where e: "reg x = Some entry" using "2.prems"(1) by (auto split: option.splits)
  show ?case
  proof (cases "x \<in> visiting st")
    case False
    with "2.prems" e have vis: "x \<notin> visited st" by (auto split: if_splits)
    from "2.prems" e False vis have "mod_imports n reg entry (mm_imports (me_metadata entry))
        (st\<lparr>path := path st @ [me_type_name entry], visiting := insert x (visiting st)\<rparr>) = Some (Inl err)"
      by (auto split: option.splits sum.splits)
    from "2.IH" [OF e False vis this] e show ?thesis by blast
  qed (use "2.prems" e in auto)
next
  case (4 n reg entry d ds st)
  show ?case
  proof (cases "reg d")
    case (Some e)
    show ?thesis
    proof (cases "d \<in> visiting st")
      case False
      show ?thesis
      proof (cases "mod_dfs n reg d st = Some (Inl err)")
        case True
        from "4.IH"(1) [OF Some False True] show ?thesis by blast
      next
        case other: False
        with "4.prems" Some False obtain st1 where st1: "mod_dfs n reg d st = Some (Inr st1)"
          "mod_imports n reg entry ds st1 = Some (Inl err)" by (auto split: option.splits sum.splits)
        from "4.IH"(2) [OF Some False st1(1) refl st1(2)] show ?thesis by auto
      qed
    qed (use "4.prems" Some in auto)
  qed (use "4.prems" in auto)
qed (auto split: option.splits)

text \<open>Whatever the search has visited has all its imports registered.\<close>

lemma mod_dfs_registered:
  "mod_dfs n reg x st = Some (Inr st') \<Longrightarrow> (\<forall>y \<in> visited st. set (module_deps reg y) \<subseteq> dom reg) \<Longrightarrow>
     (\<forall>y \<in> visited st'. set (module_deps reg y) \<subseteq> dom reg)"
  "mod_imports n reg entry ds st = Some (Inr st') \<Longrightarrow> (\<forall>y \<in> visited st. set (module_deps reg y) \<subseteq> dom reg) \<Longrightarrow>
     (\<forall>y \<in> visited st'. set (module_deps reg y) \<subseteq> dom reg) \<and> set ds \<subseteq> dom reg"
proof (induction n reg x st and n reg entry ds st arbitrary: st' and st' rule: mod_dfs_mod_imports.induct)
  case (2 n reg x st)
  obtain entry where e: "reg x = Some entry" "x \<notin> visiting st" using "2.prems"(1) by (auto split: option.splits if_splits)
  show ?case
  proof (cases "x \<in> visited st")
    case False
    let ?st1 = "st\<lparr>path := path st @ [me_type_name entry], visiting := insert x (visiting st)\<rparr>"
    obtain st2 where st2: "mod_imports n reg entry (mm_imports (me_metadata entry)) ?st1 = Some (Inr st2)"
      "visited st' = insert x (visited st2)"
      using "2.prems"(1) e False by (auto split: option.splits sum.splits)
    from "2.IH" [OF e False st2(1)] "2.prems"(2) st2(2) e show ?thesis by (auto simp: module_deps_def)
  qed (use 2 e in auto)
next
  case (4 n reg entry d ds st)
  obtain e where e: "reg d = Some e" "d \<notin> visiting st" using "4.prems"(1) by (auto split: option.splits if_splits)
  obtain st1 where st1: "mod_dfs n reg d st = Some (Inr st1)" "mod_imports n reg entry ds st1 = Some (Inr st')"
    using "4.prems"(1) e by (auto split: option.splits sum.splits)
  from "4.IH"(1) [OF e st1(1) "4.prems"(2)] "4.IH"(2) [OF e st1(1) refl st1(2)] e show ?case by auto
qed auto

lemma mod_roots_found:
  "mod_roots n reg ts st = Some (Inr st') \<Longrightarrow> n \<le> m \<Longrightarrow> resolve_roots m (module_graph reg) ts st = Some (Inr st')"
proof (induction ts arbitrary: st)
  case (Cons t ts)
  show ?case
  proof (cases "t \<in> visited st")
    case False
    with Cons.prems(1) obtain st1 where st1: "mod_dfs n reg t (st\<lparr>path := []\<rparr>) = Some (Inr st1)" "mod_roots n reg ts st1 = Some (Inr st')"
      by (auto split: option.splits sum.splits)
    from mod_dfs_found(1) [OF st1(1) Cons.prems(2)] Cons.IH [OF st1(2) Cons.prems(2)] False show ?thesis by simp
  qed (use Cons in simp)
qed simp

lemma mod_roots_cases:
  "set ts \<subseteq> dom reg \<Longrightarrow> mod_roots n reg ts st = None \<Longrightarrow> resolve_roots n (module_graph reg) ts st = None"
  "mod_roots n reg ts st = Some (Inl (CircularImport name cycle)) \<Longrightarrow>
     resolve_roots (Suc n) (module_graph reg) ts st = Some (Inl (CircularDependency cycle))"
  "mod_roots n reg ts st = Some (Inl err) \<Longrightarrow>
     (\<exists>name cycle. err = CircularImport name cycle) \<or>
     (\<exists>t e d. err = MissingImport (me_type_name e) d \<and> reg t = Some e \<and> d \<in> set (mm_imports (me_metadata e)) \<and> reg d = None)"
  "mod_roots n reg ts st = Some (Inr st') \<Longrightarrow> (\<forall>y \<in> visited st. set (module_deps reg y) \<subseteq> dom reg) \<Longrightarrow>
     (\<forall>y \<in> visited st'. set (module_deps reg y) \<subseteq> dom reg)"
proof (induction ts arbitrary: st)
  case (Cons t ts)
  {
    case 1
    show ?case
    proof (cases "t \<in> visited st")
      case False
      show ?thesis
      proof (cases "mod_dfs n reg t (st\<lparr>path := []\<rparr>)")
        case None
        moreover have "reg t \<noteq> None" using 1 by auto
        ultimately have "dfs n (module_graph reg) t (st\<lparr>path := []\<rparr>) = None" by (intro mod_dfs_none(1))
        with False show ?thesis by simp
      next
        case (Some r)
        with 1 False obtain st1 where "mod_dfs n reg t (st\<lparr>path := []\<rparr>) = Some (Inr st1)" "mod_roots n reg ts st1 = None"
          by (auto split: sum.splits)
        with mod_dfs_found(1) [OF this(1), of n] Cons.IH(1) [of st1] 1 False show ?thesis by simp
      qed
    qed (use Cons 1 in simp)
  next
    case 2
    show ?case
    proof (cases "t \<in> visited st")
      case False
      show ?thesis
      proof (cases "mod_dfs n reg t (st\<lparr>path := []\<rparr>) = Some (Inl (CircularImport name cycle))")
        case True
        with mod_dfs_circular(1) [OF True] False show ?thesis by simp
      next
        case other: False
        with 2 False obtain st1 where "mod_dfs n reg t (st\<lparr>path := []\<rparr>) = Some (Inr st1)"
          "mod_roots n reg ts st1 = Some (Inl (CircularImport name cycle))" by (auto split: option.splits sum.splits)
        with mod_dfs_found(1) [OF this(1), of "Suc n"] Cons.IH(2) [of st1] False show ?thesis by simp
      qed
    qed (use Cons 2 in simp)
  next
    case 3
    then show ?case
      using Cons.IH(3) mod_dfs_errors(1) [of n reg t "st\<lparr>path := []\<rparr>" err] by (auto split: if_splits option.splits sum.splits)
  next
    case 4
    then show ?case
      using Cons.IH(4) mod_dfs_registered(1) [of n reg t "st\<lparr>path := []\<rparr>"] by (auto split: if_splits option.splits sum.splits)
  }
qed auto

section \<open>The order\<close>

lemma set_module_roots:
  assumes "iteration_of ks reg" "entries_keyed reg"
  shows "set (map me_type_id (sort_by by_name (module_entries ks reg))) = dom reg"
  using assms by (force simp: module_entries_def List.map_filter_def iteration_of_def entries_keyed_def dom_def)

definition module_cycle_report :: "ModuleRegistry \<Rightarrow> ModuleRegistryError \<Rightarrow> bool" where
  "module_cycle_report reg err \<longleftrightarrow>
     (\<exists>name ids x. err = CircularImport name (join '' -> '' (map (node_name (module_graph reg)) (ids @ [x]))) \<and>
        dep_chain (dep_edges (dom reg) (module_deps reg)) (ids @ [x]) \<and> x \<in> set ids)"

lemma module_order_spec:
  assumes "iteration_of ks reg" "entries_keyed reg"
  shows "\<exists>r. module_resolve_order ks reg = Some r \<and>
    (case r of
       Inl err \<Rightarrow> module_cycle_report reg err \<or>
         (\<exists>t e d. err = MissingImport (me_type_name e) d \<and> reg t = Some e \<and> d \<in> set (mm_imports (me_metadata e)) \<and> reg d = None)
     | Inr ord \<Rightarrow> distinct ord \<and> set ord = dom reg \<and> deps_first (dom reg) (module_deps reg) {} ord \<and> \<not> import_missing reg)"
proof -
  let ?roots = "map me_type_id (sort_by by_name (module_entries ks reg))"
  let ?st = "\<lparr>visited = {}, visiting = {}, order = [], path = []\<rparr>"
  let ?n = "Suc (length ks)"
  let ?g = "module_graph reg"
  have roots: "set ?roots = dom reg" by (rule set_module_roots [OF assms])
  have fin: "finite (dom ?g)" "card (dom ?g) < ?n" "card (dom ?g) < Suc ?n"
    using assms(1) distinct_card [of ks] by (auto simp: iteration_of_def) (metis List.finite_set)
  have init: "dfs_inv ?g [] (?st\<lparr>path := []\<rparr>)" by (simp add: dfs_inv_def)
  obtain r where r: "resolve_roots ?n ?g ?roots ?st = Some r" "roots_post ?g {} (set ?roots) r"
    using resolve_roots_spec [OF fin(1,2) init, of ?roots] by auto
  obtain r' where r': "resolve_roots (Suc ?n) ?g ?roots ?st = Some r'" "roots_post ?g {} (set ?roots) r'"
    using resolve_roots_spec [OF fin(1,3) init, of ?roots] by auto
  have "mod_roots ?n reg ?roots ?st \<noteq> None"
    using mod_roots_cases(1) [of ?roots reg ?n ?st] roots r by auto
  then obtain q where q: "mod_roots ?n reg ?roots ?st = Some q" by blast
  show ?thesis
  proof (cases q)
    case (Inl err)
    have "module_cycle_report reg err" if "err = CircularImport name cycle" for name cycle
    proof -
      have "r' = Inl (CircularDependency cycle)"
        using mod_roots_cases(2) [of ?n reg ?roots ?st name cycle] q Inl that r'(1) by simp
      with r'(2) have "cycle_report ?g (CircularDependency cycle)" by (simp add: roots_post_def)
      with that show ?thesis unfolding cycle_report_def module_cycle_report_def by auto
    qed
    with mod_roots_cases(3) [of ?n reg ?roots ?st err] q Inl show ?thesis
      by (auto simp: module_resolve_order_def)
  next
    case (Inr st)
    have "r = Inr st" using mod_roots_found [of ?n reg ?roots ?st st ?n] q Inr r(1) by simp
    with r(2) have inv: "dfs_inv ?g [] (st\<lparr>path := []\<rparr>)" and reach: "set ?roots \<inter> dom ?g \<subseteq> visited st"
      by (simp_all add: roots_post_def)
    from inv have sub: "visited st \<subseteq> dom reg" by (auto simp: dfs_inv_def)
    from inv have facts: "visited st = set (order st)" "distinct (order st)"
      "deps_first (dom reg) (module_deps reg) {} (order st)" by (simp_all add: dfs_inv_def)
    have all: "visited st = dom reg" using sub reach roots by auto
    have "\<forall>y \<in> visited st. set (module_deps reg y) \<subseteq> dom reg"
      using mod_roots_cases(4) [of ?n reg ?roots ?st st] q Inr by simp
    then have "set (module_deps reg t) \<subseteq> dom reg" if "reg t = Some e" for t e
      using that all by blast
    then have "\<not> import_missing reg" by (force simp: import_missing_def module_deps_def)
    with facts all q Inr show ?thesis by (simp add: module_resolve_order_def)
  qed
qed

definition module_solve :: "TypeId list \<times> ModuleRegistry \<Rightarrow> ModuleRegistryError + TypeId list" where
  "module_solve kr = (case module_resolve_order (fst kr) (snd kr) of Some r \<Rightarrow> r | None \<Rightarrow> Inr [])"

lemma module_solve_resolve:
  assumes "iteration_of ks reg" "entries_keyed reg"
  shows "module_resolve_order ks reg = Some (module_solve (ks, reg))"
  using module_order_spec [OF assms] by (auto simp: module_solve_def)

interpretation module_solver: dependency_solver module_solve "\<lambda>kr. dom (snd kr)" "\<lambda>kr. module_deps (snd kr)"
  "\<lambda>kr. iteration_of (fst kr) (snd kr) \<and> entries_keyed (snd kr)" "\<lambda>kr. import_missing (snd kr)"
proof
  fix kr :: "TypeId list \<times> ModuleRegistry" and ord :: "TypeId list" and err :: ModuleRegistryError
  assume valid: "iteration_of (fst kr) (snd kr) \<and> entries_keyed (snd kr)"
  note spec = module_order_spec [OF valid [THEN conjunct1] valid [THEN conjunct2]]
    module_solve_resolve [OF valid [THEN conjunct1] valid [THEN conjunct2]]
  show "module_solve kr = Inr ord \<Longrightarrow> distinct ord \<and> set ord = dom (snd kr) \<and>
      deps_first (dom (snd kr)) (module_deps (snd kr)) {} ord \<and> \<not> import_missing (snd kr)"
    using spec by auto
  assume "module_solve kr = Inl err"
  with spec have "module_cycle_report (snd kr) err \<or> import_missing (snd kr)"
    by (auto simp: import_missing_def)
  then show "\<not> acyclic (dep_edges (dom (snd kr)) (module_deps (snd kr))) \<or> import_missing (snd kr)"
    using dep_chain_repeat_cycle by (fastforce simp: module_cycle_report_def acyclic_def)
qed

text \<open>C13: the bootstrap order. \<open>resolve_order\<close> always returns; it returns an order exactly when every import is
  registered and no imports are circular, and then lists every module once, after all modules it imports.
  Otherwise it names an import that is really missing, or a real chain of imports that closes a cycle.\<close>

theorem module_order_correct:
  assumes "iteration_of ks reg" "entries_keyed reg"
  shows "module_resolve_order ks reg \<noteq> None \<and>
    ((\<exists>ord. module_resolve_order ks reg = Some (Inr ord)) \<longleftrightarrow>
       \<not> import_missing reg \<and> acyclic (dep_edges (dom reg) (module_deps reg))) \<and>
    (\<forall>us m vs d. module_resolve_order ks reg = Some (Inr (us @ m # vs)) \<and> d \<in> set (module_deps reg m) \<longrightarrow>
       d \<in> set us) \<and>
    (\<forall>ord. module_resolve_order ks reg = Some (Inr ord) \<longrightarrow> distinct ord \<and> set ord = dom reg) \<and>
    (\<forall>err. module_resolve_order ks reg = Some (Inl err) \<longrightarrow> module_cycle_report reg err \<or>
       (\<exists>t e d. err = MissingImport (me_type_name e) d \<and> reg t = Some e \<and>
          d \<in> set (mm_imports (me_metadata e)) \<and> reg d = None))"
proof -
  note solve = module_solve_resolve [OF assms]
  have valid: "iteration_of (fst (ks, reg)) (snd (ks, reg)) \<and> entries_keyed (snd (ks, reg))" using assms by simp
  have iff: "(\<exists>ord. module_solve (ks, reg) = Inr ord) \<longleftrightarrow>
      \<not> import_missing reg \<and> acyclic (dep_edges (dom reg) (module_deps reg))"
    using module_solver.solvable_iff [OF valid] by auto
  have first: "d \<in> set us" if "module_solve (ks, reg) = Inr (us @ m # vs)" "d \<in> set (module_deps reg m)" for us m vs d
  proof -
    note s = module_solver.solved [OF valid that(1)]
    have "m \<in> dom reg" using s by auto
    moreover from this have "d \<in> dom reg"
    proof -
      obtain e where "reg m = Some e" using \<open>m \<in> dom reg\<close> by blast
      then show ?thesis using s that(2) by (auto simp: import_missing_def module_deps_def)
    qed
    ultimately have "(m, d) \<in> dep_edges (dom reg) (module_deps reg)" using that(2) by (simp add: dep_edges_def)
    then show ?thesis using module_solver.dependency_precedes [OF valid that(1)] by simp
  qed
  have all: "distinct ord \<and> set ord = dom reg" if "module_solve (ks, reg) = Inr ord" for ord
    using module_solver.solved [OF valid that] by simp
  show ?thesis
    using iff first all module_order_spec [OF assms] unfolding solve by auto
qed

definition demo_modules :: ModuleRegistry where
  "demo_modules =
     snd (module_register (snd (module_register (snd (module_register Map.empty
       1 ''AppModule'' (with_imports module_metadata_new [2, 3])))
       2 ''UserModule'' (with_exports (with_providers (with_imports module_metadata_new [3]) [20]) [20, 30])))
       3 ''DbModule'' (with_exports (with_providers module_metadata_new [30, 31]) [30]))"

lemma demo_modules_ok: "iteration_of [1, 2, 3] demo_modules" "entries_keyed demo_modules"
  by (auto simp: iteration_of_def entries_keyed_def demo_modules_def module_register_def)

theorem module_order_correct_witness:
  "module_resolve_order [1, 2, 3] demo_modules = Some (Inr [3, 2, 1]) \<and> \<not> import_missing demo_modules"
proof -
  have "module_resolve_order [1, 2, 3] demo_modules = Some (Inr [3, 2, 1])" by code_simp
  then show ?thesis
    using module_order_correct [OF demo_modules_ok, THEN conjunct2, THEN conjunct1] by auto
qed

end
