(* ===== verification/Module_Visibility.thy ===== *)
theory Module_Visibility
  imports Module_Order
begin

text \<open>
  What a module sees. \<open>exports_ok\<close> is the abstract meaning of a well-formed module: its imports are
  well-formed (so there is no import cycle) and everything it exports is provided by itself or exported by
  one of them. The memoising search of \<open>public_surface_for\<close> decides exactly that.
\<close>

definition exports_of :: "ModuleRegistry \<Rightarrow> TypeId \<Rightarrow> TypeId set" where
  "exports_of reg m = (case reg m of Some e \<Rightarrow> set (mm_exports (me_metadata e)) | None \<Rightarrow> {})"

definition providers_of :: "ModuleRegistry \<Rightarrow> TypeId \<Rightarrow> TypeId set" where
  "providers_of reg m = (case reg m of Some e \<Rightarrow> set (mm_providers (me_metadata e)) | None \<Rightarrow> {})"

inductive exports_ok :: "ModuleRegistry \<Rightarrow> TypeId \<Rightarrow> bool" for reg where
  exports_ok: "m \<in> dom reg \<Longrightarrow> (\<And>d. d \<in> set (module_deps reg m) \<Longrightarrow> exports_ok reg d) \<Longrightarrow>
    (\<And>x. x \<in> exports_of reg m \<Longrightarrow> x \<in> providers_of reg m \<or> (\<exists>d \<in> set (module_deps reg m). x \<in> exports_of reg d)) \<Longrightarrow>
    exports_ok reg m"

inductive_cases exports_okE: "exports_ok reg m"

abbreviation module_edges :: "ModuleRegistry \<Rightarrow> (TypeId \<times> TypeId) set" where
  "module_edges reg \<equiv> dep_edges (dom reg) (module_deps reg)"

lemma exports_ok_acyclic: "exports_ok reg m \<Longrightarrow> (m, m) \<notin> (module_edges reg)\<^sup>+"
proof (induction rule: exports_ok.induct)
  case (exports_ok m)
  show ?case
  proof
    assume "(m, m) \<in> (module_edges reg)\<^sup>+"
    then obtain d where d: "(m, d) \<in> module_edges reg" "(d, m) \<in> (module_edges reg)\<^sup>*"
      by (meson tranclD)
    then have "(d, d) \<in> (module_edges reg)\<^sup>+" by (meson rtrancl_into_trancl1)
    moreover have "d \<in> set (module_deps reg m)" using d(1) by (simp add: dep_edges_def)
    ultimately show False using exports_ok.IH by blast
  qed
qed

lemma collect_exports_spec:
  "collect_exports name provided surfaces xs acc =
     (if \<forall>x \<in> set xs. x \<in> provided \<or> (\<exists>s \<in> set surfaces. x \<in> s) then Inr (acc \<union> set xs)
      else Inl (InvalidExport name (hd (filter (\<lambda>x. \<not> (x \<in> provided \<or> (\<exists>s \<in> set surfaces. x \<in> s))) xs))))"
  by (induction name provided surfaces xs acc rule: collect_exports.induct) (auto simp: list_ex_iff)

definition surface_inv :: "ModuleRegistry \<Rightarrow> TypeId list \<Rightarrow> SurfaceState \<Rightarrow> bool" where
  "surface_inv reg ids st \<longleftrightarrow>
     ss_visiting st = set ids \<and> distinct ids \<and> set ids \<subseteq> dom reg \<and> dep_chain (module_edges reg) ids \<and>
     (\<forall>m S. ss_cache st m = Some S \<longrightarrow> exports_ok reg m \<and> S = exports_of reg m)"

lemma surface_spec:
  "finite (dom reg) \<Longrightarrow> surface_inv reg ids st \<Longrightarrow> x \<in> dom reg \<Longrightarrow> ids = [] \<or> x \<in> set (module_deps reg (last ids)) \<Longrightarrow>
     card (dom reg - ss_visiting st) < n \<Longrightarrow>
     \<exists>r. public_surface_for n reg x st = Some r \<and>
       (case r of
          Inl err \<Rightarrow> \<not> exports_ok reg x
        | Inr (S, st') \<Rightarrow> exports_ok reg x \<and> S = exports_of reg x \<and> surface_inv reg ids st')"
  "finite (dom reg) \<Longrightarrow> surface_inv reg ids st \<Longrightarrow> ids \<noteq> [] \<Longrightarrow> set ds \<subseteq> set (module_deps reg (last ids)) \<Longrightarrow>
     n = 0 \<or> card (dom reg - ss_visiting st) < n \<Longrightarrow> n \<noteq> 0 \<or> ds = [] \<or> hd ds \<notin> dom reg \<Longrightarrow>
     \<exists>r. import_surfaces_for n reg entry ds st = Some r \<and>
       (case r of
          Inl err \<Rightarrow> \<exists>d \<in> set ds. \<not> exports_ok reg d
        | Inr (Ss, st') \<Rightarrow> (\<forall>d \<in> set ds. exports_ok reg d) \<and> Ss = map (exports_of reg) ds \<and> surface_inv reg ids st')"
proof (induction n reg x st and n reg entry ds st arbitrary: ids and ids rule: public_surface_for_import_surfaces_for.induct)
  case (2 n reg x st)
  obtain entry where e: "reg x = Some entry" using "2.prems"(3) by blast
  show ?case
  proof (cases "ss_cache st x")
    case (Some S)
    with "2.prems" show ?thesis by (auto simp: surface_inv_def)
  next
    case None
    have edge: "ids = [] \<or> (last ids, x) \<in> module_edges reg"
    proof (cases "ids = []")
      case False
      then have "last ids \<in> dom reg" using "2.prems"(2) last_in_set [OF False] unfolding surface_inv_def by blast
      with False "2.prems"(3,4) show ?thesis by (auto simp: dep_edges_def)
    qed simp
    then have chain: "dep_chain (module_edges reg) (ids @ [x])"
      using "2.prems"(2) by (auto simp: surface_inv_def dep_chain_snoc)
    show ?thesis
    proof (cases "x \<in> ss_visiting st")
      case True
      then have "x \<in> set ids" using "2.prems"(2) by (simp add: surface_inv_def)
      with dep_chain_repeat_cycle [OF chain] exports_ok_acyclic have "\<not> exports_ok reg x" by blast
      with None e True show ?thesis by simp
    next
      case False
      let ?st1 = "st\<lparr>ss_visiting := insert x (ss_visiting st), ss_path := ss_path st @ [me_type_name entry]\<rparr>"
      have inv1: "surface_inv reg (ids @ [x]) ?st1"
        using "2.prems"(2,3) False chain by (auto simp: surface_inv_def)
      have "dom reg - insert x (ss_visiting st) \<subset> dom reg - ss_visiting st" using "2.prems"(3) False by auto
      then have "card (dom reg - insert x (ss_visiting st)) < card (dom reg - ss_visiting st)"
        using "2.prems"(1) by (intro psubset_card_mono) auto
      then have less: "card (dom reg - insert x (ss_visiting st)) < n" using "2.prems"(5) by simp
      have deps: "module_deps reg x = mm_imports (me_metadata entry)" using e by (simp add: module_deps_def)
      obtain r where r: "import_surfaces_for n reg entry (mm_imports (me_metadata entry)) ?st1 = Some r"
        "case r of
          Inl err \<Rightarrow> \<exists>d \<in> set (module_deps reg x). \<not> exports_ok reg d
        | Inr (Ss, st') \<Rightarrow> (\<forall>d \<in> set (module_deps reg x). exports_ok reg d) \<and> Ss = map (exports_of reg) (module_deps reg x) \<and>
            surface_inv reg (ids @ [x]) st'"
      proof -
        have "n = 0 \<or> card (dom reg - ss_visiting ?st1) < n" "n \<noteq> 0 \<or> mm_imports (me_metadata entry) = [] \<or>
            hd (mm_imports (me_metadata entry)) \<notin> dom reg"
          "set (mm_imports (me_metadata entry)) \<subseteq> set (module_deps reg (last (ids @ [x])))"
          using less deps by auto
        from "2.IH" [OF None e False "2.prems"(1) inv1 _ this(3,1,2)] that show ?thesis by (simp only: deps) blast
      qed
      show ?thesis
      proof (cases r)
        case (Inl err)
        with r have "\<not> exports_ok reg x" by (auto elim: exports_okE)
        with Inl r None e False show ?thesis by simp
      next
        case (Inr q)
        obtain Ss st' where q: "q = (Ss, st')" by (cases q)
        with r Inr have ok: "\<forall>d \<in> set (module_deps reg x). exports_ok reg d" "Ss = map (exports_of reg) (module_deps reg x)"
          and inv: "surface_inv reg (ids @ [x]) st'" by auto
        let ?good = "\<forall>y \<in> exports_of reg x. y \<in> providers_of reg x \<or> (\<exists>s \<in> set Ss. y \<in> s)"
        have iff: "?good \<longleftrightarrow> exports_ok reg x"
        proof
          assume ?good
          then have "y \<in> providers_of reg x \<or> (\<exists>d \<in> set (module_deps reg x). y \<in> exports_of reg d)"
            if "y \<in> exports_of reg x" for y
            using that ok(2) by auto
          note exported = this
          show "exports_ok reg x"
            by (rule exports_ok.intros) (use "2.prems"(3) ok(1) exported in simp_all)
        next
          assume "exports_ok reg x"
          then have "\<forall>y \<in> exports_of reg x. y \<in> providers_of reg x \<or> (\<exists>d \<in> set (module_deps reg x). y \<in> exports_of reg d)"
            by (rule exports_okE) blast
          with ok(2) show ?good by auto
        qed
        show ?thesis
        proof (cases ?good)
          case True
          with iff have "exports_ok reg x" by simp
          moreover from this have "surface_inv reg ids (st'\<lparr>ss_path := butlast (ss_path st'),
              ss_visiting := ss_visiting st' - {x}, ss_cache := (ss_cache st')(x \<mapsto> exports_of reg x)\<rparr>)"
            using inv by (auto simp: surface_inv_def dep_chain_snoc)
          ultimately show ?thesis
            using None e False r Inr q True by (simp add: collect_exports_spec exports_of_def providers_of_def)
        next
          case no: False
          have sets: "exports_of reg x = set (mm_exports (me_metadata entry))" "providers_of reg x = set (mm_providers (me_metadata entry))"
            using e by (simp_all add: exports_of_def providers_of_def)
          have "\<not> exports_ok reg x" using no iff by simp
          with no None e False r(1) Inr q show ?thesis unfolding sets by (simp add: collect_exports_spec)
        qed
      qed
    qed
  qed
next
  case (4 n reg entry d ds st)
  show ?case
  proof (cases "reg d")
    case None
    then have "\<not> exports_ok reg d" by (auto elim: exports_okE)
    with None show ?thesis by simp
  next
    case (Some imported)
    then have n: "card (dom reg - ss_visiting st) < n" using "4.prems"(5,6) by auto
    obtain r where r: "public_surface_for n reg d st = Some r"
      "case r of Inl err \<Rightarrow> \<not> exports_ok reg d
       | Inr (S, st') \<Rightarrow> exports_ok reg d \<and> S = exports_of reg d \<and> surface_inv reg ids st'"
      using "4.IH"(1) [OF Some "4.prems"(1,2)] "4.prems"(3,4) Some n by auto
    show ?thesis
    proof (cases r)
      case (Inl err)
      with r Some show ?thesis by simp
    next
      case (Inr q)
      obtain S st1 where q: "q = (S, st1)" by (cases q)
      with r Inr have ok: "exports_ok reg d" "S = exports_of reg d" and inv: "surface_inv reg ids st1" by auto
      have "ss_visiting st1 = ss_visiting st" using inv "4.prems"(2) by (simp add: surface_inv_def)
      then obtain r2 where r2: "import_surfaces_for n reg entry ds st1 = Some r2"
        "case r2 of Inl err \<Rightarrow> \<exists>d \<in> set ds. \<not> exports_ok reg d
         | Inr (Ss, st') \<Rightarrow> (\<forall>d \<in> set ds. exports_ok reg d) \<and> Ss = map (exports_of reg) ds \<and> surface_inv reg ids st'"
        using "4.IH"(2) [OF Some r(1) [unfolded Inr] refl q [symmetric] "4.prems"(1) inv "4.prems"(3)] "4.prems"(4) n by auto
      with ok r Inr q Some show ?thesis by (auto split: sum.splits)
    qed
  qed
qed auto

lemma extend_visible_spec:
  assumes "finite (dom reg)" "card (dom reg) < n" "surface_inv reg [] st" "set ts \<subseteq> dom reg"
  shows "\<exists>r. extend_visible n reg ts visible st = Some r \<and>
    (case r of
       Inl err \<Rightarrow> \<exists>t \<in> set ts. \<not> exports_ok reg t
     | Inr (V, st') \<Rightarrow> (\<forall>t \<in> set ts. exports_ok reg t) \<and> V = visible \<union> (\<Union>t \<in> set ts. exports_of reg t))"
  using assms(3,4)
proof (induction ts arbitrary: visible st)
  case (Cons t ts)
  have "card (dom reg - ss_visiting st) < n" using Cons.prems(1) assms(2) by (simp add: surface_inv_def)
  then obtain r where r: "public_surface_for n reg t st = Some r"
      "case r of Inl err \<Rightarrow> \<not> exports_ok reg t
       | Inr (S, st') \<Rightarrow> exports_ok reg t \<and> S = exports_of reg t \<and> surface_inv reg [] st'"
    using surface_spec(1) [OF assms(1) Cons.prems(1), of t n] Cons.prems(2) by auto
  show ?case
  proof (cases r)
    case (Inr q)
    obtain S st1 where q: "q = (S, st1)" by (cases q)
    with r Inr have ok: "exports_ok reg t" "S = exports_of reg t" "surface_inv reg [] st1" by auto
    obtain r2 where r2: "extend_visible n reg ts (visible \<union> S) st1 = Some r2"
      "case r2 of Inl err \<Rightarrow> \<exists>t \<in> set ts. \<not> exports_ok reg t
       | Inr (V, st') \<Rightarrow> (\<forall>t \<in> set ts. exports_ok reg t) \<and> V = (visible \<union> S) \<union> (\<Union>t \<in> set ts. exports_of reg t)"
      using Cons.IH [OF ok(3), of "visible \<union> S"] Cons.prems(2) by auto
    with ok r Inr q show ?thesis by (cases r2) auto
  qed (use r in simp)
qed simp

lemma surface_init_inv: "surface_inv reg [] surface_init"
  by (simp add: surface_inv_def surface_init_def)

definition is_global_module :: "ModuleRegistry \<Rightarrow> TypeId \<Rightarrow> bool" where
  "is_global_module reg m \<longleftrightarrow> (\<exists>e. reg m = Some e \<and> mm_is_global (me_metadata e))"

lemma set_global_ids:
  assumes "iteration_of ks reg" "entries_keyed reg"
  shows "set (global_module_ids ks reg) = {m. is_global_module reg m}"
  using assms
  by (force simp: global_module_ids_def is_global_module_def module_entries_def List.map_filter_def iteration_of_def
      entries_keyed_def dom_def)

lemma exported_provided:
  assumes "exports_ok reg m" "x \<in> exports_of reg m"
  shows "\<exists>p. (m, p) \<in> (module_edges reg)\<^sup>* \<and> x \<in> providers_of reg p \<and> x \<in> exports_of reg p"
  using assms
proof (induction rule: exports_ok.induct)
  case (exports_ok m)
  show ?case
  proof (cases "x \<in> providers_of reg m")
    case False
    with exports_ok.hyps(3) [OF exports_ok.prems] obtain d where d: "d \<in> set (module_deps reg m)" "x \<in> exports_of reg d"
      by blast
    have "d \<in> dom reg" using exports_ok.hyps(2) [OF d(1)] by (auto elim: exports_okE)
    then have "(m, d) \<in> module_edges reg" using d(1) exports_ok.hyps(1) by (simp add: dep_edges_def)
    moreover obtain p where "(d, p) \<in> (module_edges reg)\<^sup>*" "x \<in> providers_of reg p" "x \<in> exports_of reg p"
      using exports_ok.IH [OF d] by blast
    ultimately show ?thesis by (meson converse_rtrancl_into_rtrancl)
  qed (use exports_ok.prems in blast)
qed

text \<open>C14: visibility. \<open>visible_exports_by_id\<close> returns for every registered module: the exports of the module
  itself, of the modules it imports directly (imports of imports are not seen) and of the global modules,
  when all of those modules are well formed, and an error otherwise; and whatever a module sees is really
  provided by some module that exports it, reached through a chain of imports.\<close>

theorem visible_exports_exact:
  assumes "iteration_of ks reg" "entries_keyed reg" "reg m = Some e"
  shows "(\<exists>r. visible_exports_by_id ks reg m = Some r) \<and>
    ((\<exists>V. visible_exports_by_id ks reg m = Some (Inr V)) \<longleftrightarrow>
       exports_ok reg m \<and> (\<forall>g. is_global_module reg g \<longrightarrow> exports_ok reg g)) \<and>
    (\<forall>V. visible_exports_by_id ks reg m = Some (Inr V) \<longrightarrow>
       V = exports_of reg m \<union> (\<Union>d \<in> set (module_deps reg m). exports_of reg d) \<union>
           (\<Union>g \<in> {g. is_global_module reg g}. exports_of reg g) \<and>
       (\<forall>x \<in> V. \<exists>a p. a \<in> dom reg \<and> (a, p) \<in> (module_edges reg)\<^sup>* \<and> x \<in> providers_of reg p \<and> x \<in> exports_of reg p))"
proof (cases "set (module_deps reg m) \<subseteq> dom reg")
  case False
  have "set (module_deps reg m) \<subseteq> dom reg" if "exports_ok reg m"
    using that by (rule exports_okE) (blast elim: exports_okE)
  with False have bad: "\<not> exports_ok reg m" by blast
  have "finite (dom reg)" "card (dom reg) < Suc (length ks)"
    using assms(1) distinct_card [of ks] by (auto simp: iteration_of_def) (metis List.finite_set)
  then obtain r where "public_surface_for (Suc (length ks)) reg m surface_init = Some r"
    "case r of Inl err \<Rightarrow> \<not> exports_ok reg m
       | Inr (S, st') \<Rightarrow> exports_ok reg m \<and> S = exports_of reg m \<and> surface_inv reg [] st'"
    using surface_spec(1) [OF _ surface_init_inv, of reg m "Suc (length ks)"] assms(3)
    by (auto simp: surface_init_def)
  with bad assms(3) have "\<exists>err. visible_exports_by_id ks reg m = Some (Inl err)"
    by (auto simp: visible_exports_by_id_def split: sum.splits)
  with bad show ?thesis by auto
next
  case True
  let ?ts = "[m] @ mm_imports (me_metadata e) @ filter (\<lambda>g. g \<noteq> m) (global_module_ids ks reg) @
      (if mm_is_global (me_metadata e) then [m] else [])"
  have fin: "finite (dom reg)" "card (dom reg) < Suc (length ks)"
    using assms(1) distinct_card [of ks] by (auto simp: iteration_of_def) (metis List.finite_set)
  have globals: "set (global_module_ids ks reg) = {g. is_global_module reg g}"
    by (rule set_global_ids [OF assms(1,2)])
  have deps: "module_deps reg m = mm_imports (me_metadata e)" using assms(3) by (simp add: module_deps_def)
  have ts: "set ?ts \<subseteq> dom reg"
    using True assms(3) globals deps by (auto simp: is_global_module_def)
  have set_ts: "set ?ts = {m} \<union> set (module_deps reg m) \<union> {g. is_global_module reg g}"
    using globals deps assms(3) by (auto simp: is_global_module_def)
  obtain r where r: "extend_visible (Suc (length ks)) reg ?ts {} surface_init = Some r"
    "case r of
       Inl err \<Rightarrow> \<exists>t \<in> set ?ts. \<not> exports_ok reg t
     | Inr (V, st') \<Rightarrow> (\<forall>t \<in> set ?ts. exports_ok reg t) \<and> V = {} \<union> (\<Union>t \<in> set ?ts. exports_of reg t)"
    using extend_visible_spec [OF fin surface_init_inv ts, of "{}"] by blast
  have all: "(\<forall>t \<in> set ?ts. exports_ok reg t) \<longleftrightarrow> exports_ok reg m \<and> (\<forall>g. is_global_module reg g \<longrightarrow> exports_ok reg g)"
    unfolding set_ts by (auto elim: exports_okE)
  show ?thesis
  proof (cases r)
    case (Inl err)
    with r(1) assms(3) have "visible_exports_by_id ks reg m = Some (Inl err)"
      by (simp add: visible_exports_by_id_def)
    moreover have "\<not> (exports_ok reg m \<and> (\<forall>g. is_global_module reg g \<longrightarrow> exports_ok reg g))"
      using r(2) Inl all by auto
    ultimately show ?thesis by simp
  next
    case (Inr q)
    obtain V st where q: "q = (V, st)" by (cases q)
    with r Inr have ok: "\<forall>t \<in> set ?ts. exports_ok reg t" and V: "V = (\<Union>t \<in> set ?ts. exports_of reg t)" by auto
    have res: "visible_exports_by_id ks reg m = Some (Inr V)"
      using r(1) Inr q assms(3) by (simp add: visible_exports_by_id_def)
    have "\<exists>a p. a \<in> dom reg \<and> (a, p) \<in> (module_edges reg)\<^sup>* \<and> x \<in> providers_of reg p \<and> x \<in> exports_of reg p"
      if "x \<in> V" for x
    proof -
      obtain t where "t \<in> set ?ts" "x \<in> exports_of reg t" using \<open>x \<in> V\<close> unfolding V by blast
      with exported_provided ok ts show ?thesis by blast
    qed
    moreover have "V = exports_of reg m \<union> (\<Union>d \<in> set (module_deps reg m). exports_of reg d) \<union>
           (\<Union>g \<in> {g. is_global_module reg g}. exports_of reg g)"
      unfolding V set_ts by auto
    ultimately show ?thesis using res ok all by simp
  qed
qed

theorem visible_exports_exact_witness:
  "visible_exports_by_id [1, 2, 3] demo_modules 1 = Some (Inr {20, 30}) \<and> exports_ok demo_modules 1 \<and>
   visible_exports_by_id [1, 2, 3] (snd (module_register demo_modules 4 ''Bad'' (with_exports module_metadata_new [9]))) 4 =
     Some (Inl (InvalidExport ''Bad'' 9))"
proof -
  have v: "visible_exports_by_id [1, 2, 3] demo_modules 1 = Some (Inr {20, 30})" by code_simp
  have "demo_modules 1 \<noteq> None" by code_simp
  then obtain e where "demo_modules 1 = Some e" by blast
  note exact = visible_exports_exact [OF demo_modules_ok this]
  have "exports_ok demo_modules 1" using exact [THEN conjunct2, THEN conjunct1] v by blast
  moreover have "visible_exports_by_id [1, 2, 3] (snd (module_register demo_modules 4 ''Bad'' (with_exports module_metadata_new [9]))) 4 =
     Some (Inl (InvalidExport ''Bad'' 9))" by code_simp
  ultimately show ?thesis using v by blast
qed

end
