(* ===== verification/Module_Runtime.thy ===== *)
theory Module_Runtime
  imports Module_Visibility Di_Initialize
begin

text \<open>
  The life of one module (\<open>nivasa-core/src/module/runtime.rs\<close>) and of all modules of an application
  (\<open>nivasa-core/src/module/orchestrator.rs\<close>).

  A module's \<open>configure\<close> is an arbitrary function on its container. A computation takes the state it borrows
  mutably and returns its \<open>Result\<close> with the changed state, or \<open>None\<close> when it does not return. The module
  containers share one heap: \<open>or_next_addr\<close> is where it ends. Module hooks cannot fail; a run is observed
  through the log of the hooks it awaited. \<open>run_iter\<close> is the order a \<open>HashMap\<close> or \<open>HashSet\<close> with the given keys
  (as a membership test) is iterated in, and \<open>run_fuel\<close> bounds the recursion of the container.
\<close>

datatype ModuleLifecycleError =
    InvalidTransition string string string
  | DependencyInjection DiError

type_synonym ('e, 'a, 's) result = "(('e + 'a) \<times> 's) option"

definition bind_result ::
  "('s \<Rightarrow> ('e, 'a, 's) result) \<Rightarrow> ('a \<Rightarrow> 's \<Rightarrow> ('e, 'b, 's) result) \<Rightarrow> 's \<Rightarrow> ('e, 'b, 's) result" where
  "bind_result m k s =
     (case m s of
        None \<Rightarrow> None
      | Some (Inl err, s1) \<Rightarrow> Some (Inl err, s1)
      | Some (Inr x, s1) \<Rightarrow> k x s1)"

record Runner =
  run_env :: Env
  run_fuel :: nat
  run_iter :: "(TypeId \<Rightarrow> bool) \<Rightarrow> TypeId list"

abbreviation occupied :: "('k \<rightharpoonup> 'v) \<Rightarrow> 'k \<Rightarrow> bool" where
  "occupied m \<equiv> (\<lambda>k. m k \<noteq> None)"

record 'v ModuleRuntime =
  rt_configure :: "'v DependencyContainer \<Rightarrow> (DiError, unit, 'v DependencyContainer) result"
  rt_container :: "'v DependencyContainer"
  rt_engine :: "string StatechartEngine"

definition runtime_with_container ::
  "Runner \<Rightarrow> ('v DependencyContainer \<Rightarrow> (DiError, unit, 'v DependencyContainer) result) \<Rightarrow>
   'v DependencyContainer \<Rightarrow> 'v ModuleRuntime" where
  "runtime_with_container R configure container =
     \<lparr>rt_configure = configure, rt_container = container,
      rt_engine = engine_new (module_spec (env_hash (run_env R))) ''Unloaded''\<rparr>"

definition runtime_state :: "'v ModuleRuntime \<Rightarrow> string" where
  "runtime_state rt = current_state (rt_engine rt)"

definition runtime_valid_events :: "Runner \<Rightarrow> 'v ModuleRuntime \<Rightarrow> string list" where
  "runtime_valid_events R rt = engine_valid_events (module_spec (env_hash (run_env R))) (rt_engine rt)"

definition is_terminal :: "Runner \<Rightarrow> 'v ModuleRuntime \<Rightarrow> bool" where
  "is_terminal R rt = is_in_final_state (module_spec (env_hash (run_env R))) (rt_engine rt)"

text \<open>\<open>ModuleRuntime::send_event\<close>: a refused event is an error, and the panic it is in a debug build is caught and
  turned into the same error.\<close>

definition runtime_send :: "Runner \<Rightarrow> string \<Rightarrow> 'v ModuleRuntime \<Rightarrow> (ModuleLifecycleError, string, 'v ModuleRuntime) result" where
  "runtime_send R event rt =
     (let spec = module_spec (env_hash (run_env R)) in
      case send_event (env_debug (run_env R)) spec (rt_engine rt) event of
        (eng, Sent s) \<Rightarrow> Some (Inr s, rt\<lparr>rt_engine := eng\<rparr>)
      | (eng, Panicked err) \<Rightarrow>
          Some (Inl (InvalidTransition (current_state (rt_engine rt)) event (invalid_transition_text spec err)), rt\<lparr>rt_engine := eng\<rparr>)
      | (eng, Refused err) \<Rightarrow>
          Some (Inl (InvalidTransition (err_state err) (err_event err) (invalid_transition_text spec err)), rt\<lparr>rt_engine := eng\<rparr>))"

definition start_loading where "start_loading R = runtime_send R ''ModuleLoad''"
definition imports_resolved where "imports_resolved R = runtime_send R ''ImportsResolved''"
definition import_missing_event where "import_missing_event R = runtime_send R ''ErrorImportMissing''"
definition abort_load where "abort_load R = runtime_send R ''ModuleAbort''"
definition runtime_initialize where "runtime_initialize R = runtime_send R ''ModuleInit''"
definition activate where "activate R = runtime_send R ''ModuleActivate''"
definition begin_destroy where "begin_destroy R = runtime_send R ''ModuleDestroy''"
definition complete_destroy where "complete_destroy R = runtime_send R ''DestroyComplete''"

definition register_providers :: "Runner \<Rightarrow> 'v ModuleRuntime \<Rightarrow> (ModuleLifecycleError, string, 'v ModuleRuntime) result" where
  "register_providers R rt =
     (case rt_configure rt (rt_container rt) of
        None \<Rightarrow> None
      | Some (Inl err, c) \<Rightarrow> Some (Inl (DependencyInjection err), rt\<lparr>rt_container := c\<rparr>)
      | Some (Inr _, c) \<Rightarrow> runtime_send R ''ProvidersRegistered'' (rt\<lparr>rt_container := c\<rparr>))"

definition run_initialize :: "Runner \<Rightarrow> 'v DependencyContainer \<Rightarrow> ('v, unit) run" where
  "run_initialize R c =
     (let ks = run_iter R (occupied (dc_providers c)) in
      initialize (run_fuel R) (run_env R) 0 ks (run_iter R (occupied (provider_graph ks (dc_providers c)))) c)"

definition resolve_dependencies :: "Runner \<Rightarrow> 'v ModuleRuntime \<Rightarrow> (ModuleLifecycleError, string, 'v ModuleRuntime) result" where
  "resolve_dependencies R rt =
     (case run_initialize R (rt_container rt) of
        None \<Rightarrow> None
      | Some (Inr _, c) \<Rightarrow> runtime_send R ''DependenciesResolved'' (rt\<lparr>rt_container := c\<rparr>)
      | Some (Inl err, c) \<Rightarrow>
          let rt1 = rt\<lparr>rt_container := c\<rparr>;
              report = \<lambda>event. bind_result (runtime_send R event) (\<lambda>_ rt2. Some (Inl (DependencyInjection err), rt2)) rt1
          in (case err of
                CircularDependency _ \<Rightarrow> report ''ErrorDiCircular''
              | ProviderNotFound _ \<Rightarrow> report ''ErrorDiMissingProvider''
              | _ \<Rightarrow> Some (Inl (DependencyInjection err), rt1)))"

definition load :: "Runner \<Rightarrow> 'v ModuleRuntime \<Rightarrow> (ModuleLifecycleError, string, 'v ModuleRuntime) result" where
  "load R =
     bind_result (start_loading R) (\<lambda>_.
     bind_result (imports_resolved R) (\<lambda>_.
     bind_result (register_providers R) (\<lambda>_.
     resolve_dependencies R)))"

definition activate_after_init :: "Runner \<Rightarrow> 'v ModuleRuntime \<Rightarrow> (ModuleLifecycleError, string, 'v ModuleRuntime) result" where
  "activate_after_init R = bind_result (runtime_initialize R) (\<lambda>_. activate R)"

section \<open>The orchestrator\<close>

datatype Hook = ModuleInit | ModuleDestroy | ApplicationBootstrap | ApplicationShutdown

record 'v ManagedRuntime =
  mr_runtime :: "'v ModuleRuntime"
  mr_hooks :: "Hook set"

datatype ModuleOrchestratorError =
    RegistryError ModuleRegistryError
  | LifecycleError ModuleLifecycleError
  | MissingRuntime TypeId

record 'v ModuleOrchestrator =
  or_registry :: ModuleRegistry
  or_runtimes :: "TypeId \<rightharpoonup> 'v ManagedRuntime"
  or_activation_order :: "TypeId list"
  or_log :: "(TypeId \<times> Hook) list"
  or_next_addr :: nat

type_synonym ('a, 'v) orchestration = "(ModuleOrchestratorError, 'a, 'v ModuleOrchestrator) result"

definition orchestrator_new :: "'v ModuleOrchestrator" where
  "orchestrator_new = \<lparr>or_registry = Map.empty, or_runtimes = Map.empty, or_activation_order = [], or_log = [], or_next_addr = 0\<rparr>"

definition register_with_hooks ::
  "Runner \<Rightarrow> TypeId \<Rightarrow> ModuleMetadata \<Rightarrow> ('v DependencyContainer \<Rightarrow> (DiError, unit, 'v DependencyContainer) result) \<Rightarrow>
   Hook set \<Rightarrow> 'v ModuleOrchestrator \<Rightarrow> bool \<times> 'v ModuleOrchestrator" where
  "register_with_hooks R t metadata configure hooks o1 =
     (let (inserted, reg) = module_register (or_registry o1) t (env_type_name (run_env R) t) metadata;
          runtime = \<lparr>mr_runtime = runtime_with_container R configure (snd container_new), mr_hooks = hooks\<rparr>
      in (inserted, o1\<lparr>or_registry := reg, or_runtimes := (or_runtimes o1)(t \<mapsto> runtime)\<rparr>))"

text \<open>Running an operation of one module's runtime, on the common heap.\<close>

definition with_runtime ::
  "TypeId \<Rightarrow> ('v ModuleRuntime \<Rightarrow> (ModuleLifecycleError, 'a, 'v ModuleRuntime) result) \<Rightarrow>
   'v ModuleOrchestrator \<Rightarrow> ('a, 'v) orchestration" where
  "with_runtime t f o1 =
     (case or_runtimes o1 t of
        None \<Rightarrow> Some (Inl (MissingRuntime t), o1)
      | Some mr \<Rightarrow>
          let rt = mr_runtime mr in
          (case f (rt\<lparr>rt_container := (rt_container rt)\<lparr>dc_next_addr := or_next_addr o1\<rparr>\<rparr>) of
             None \<Rightarrow> None
           | Some (r, rt1) \<Rightarrow>
               Some (map_sum LifecycleError id r,
                     o1\<lparr>or_runtimes := (or_runtimes o1)(t \<mapsto> mr\<lparr>mr_runtime := rt1\<rparr>),
                        or_next_addr := dc_next_addr (rt_container rt1)\<rparr>)))"

definition run_hook :: "TypeId \<Rightarrow> Hook \<Rightarrow> 'v ModuleOrchestrator \<Rightarrow> (unit, 'v) orchestration" where
  "run_hook t hook o1 =
     (case or_runtimes o1 t of
        None \<Rightarrow> Some (Inl (MissingRuntime t), o1)
      | Some mr \<Rightarrow> Some (Inr (), if hook \<in> mr_hooks mr then o1\<lparr>or_log := or_log o1 @ [(t, hook)]\<rparr> else o1))"

definition initialize_and_activate :: "Runner \<Rightarrow> TypeId \<Rightarrow> 'v ModuleOrchestrator \<Rightarrow> (unit, 'v) orchestration" where
  "initialize_and_activate R t =
     bind_result (with_runtime t (runtime_initialize R)) (\<lambda>_.
     bind_result (run_hook t ModuleInit) (\<lambda>_.
     bind_result (with_runtime t (activate R)) (\<lambda>_ o1. Some (Inr (), o1))))"

definition destroy :: "Runner \<Rightarrow> TypeId \<Rightarrow> 'v ModuleOrchestrator \<Rightarrow> (unit, 'v) orchestration" where
  "destroy R t =
     bind_result (with_runtime t (begin_destroy R)) (\<lambda>_.
     bind_result (run_hook t ModuleDestroy) (\<lambda>_.
     bind_result (with_runtime t (complete_destroy R)) (\<lambda>_ o1. Some (Inr (), o1))))"

fun each :: "('x \<Rightarrow> 's \<Rightarrow> ('e, unit, 's) result) \<Rightarrow> 'x list \<Rightarrow> 's \<Rightarrow> ('e, unit, 's) result" where
  "each f [] s = Some (Inr (), s)"
| "each f (x # xs) s = bind_result (f x) (\<lambda>_. each f xs) s"

definition seed_export :: "Runner \<Rightarrow> TypeId \<Rightarrow> TypeId \<Rightarrow> TypeId \<Rightarrow> 'v ModuleOrchestrator \<Rightarrow> (unit, 'v) orchestration" where
  "seed_export R target source exported o1 =
     (case (or_runtimes o1 source, or_runtimes o1 target) of
        (Some src, Some tgt) \<Rightarrow>
          (case export_singleton_value exported (rt_container (mr_runtime src)) of
             None \<Rightarrow> Some (Inr (), o1)
           | Some (metadata, v) \<Rightarrow>
               let rt = mr_runtime tgt in
               Some (Inr (), o1\<lparr>or_runtimes := (or_runtimes o1)(target \<mapsto>
                 tgt\<lparr>mr_runtime := rt\<lparr>rt_container := import_singleton_value 0 metadata v (rt_container rt)\<rparr>\<rparr>)\<rparr>))
      | (None, _) \<Rightarrow> Some (Inl (MissingRuntime source), o1)
      | (_, None) \<Rightarrow> Some (Inl (MissingRuntime target), o1))"

definition seed_source :: "Runner \<Rightarrow> TypeId \<Rightarrow> TypeId \<Rightarrow> 'v ModuleOrchestrator \<Rightarrow> (unit, 'v) orchestration" where
  "seed_source R target source o1 =
     (if or_runtimes o1 source = None then Some (Inl (MissingRuntime source), o1)
      else case exported_surface_for (run_iter R (occupied (or_registry o1))) (or_registry o1) source of
        None \<Rightarrow> None
      | Some (Inl err) \<Rightarrow> Some (Inl (RegistryError err), o1)
      | Some (Inr surface) \<Rightarrow> each (seed_export R target source) (run_iter R (\<lambda>t. t \<in> surface)) o1)"

definition seed_imported_exports :: "Runner \<Rightarrow> TypeId \<Rightarrow> 'v ModuleOrchestrator \<Rightarrow> (unit, 'v) orchestration" where
  "seed_imported_exports R t o1 =
     (if or_runtimes o1 t = None then Some (Inl (MissingRuntime t), o1)
      else case import_sources_by_id (run_iter R (occupied (or_registry o1))) (or_registry o1) t of
        None \<Rightarrow> None
      | Some (Inl err) \<Rightarrow> Some (Inl (RegistryError err), o1)
      | Some (Inr sources) \<Rightarrow> each (seed_source R t) sources o1)"

definition bring_up :: "Runner \<Rightarrow> TypeId \<Rightarrow> 'v ModuleOrchestrator \<Rightarrow> (unit, 'v) orchestration" where
  "bring_up R t =
     bind_result (seed_imported_exports R t) (\<lambda>_.
     bind_result (with_runtime t (load R)) (\<lambda>_.
     initialize_and_activate R t))"

definition bootstrap :: "Runner \<Rightarrow> 'v ModuleOrchestrator \<Rightarrow> (TypeId list, 'v) orchestration" where
  "bootstrap R o1 =
     (case module_resolve_order (run_iter R (occupied (or_registry o1))) (or_registry o1) of
        None \<Rightarrow> None
      | Some (Inl err) \<Rightarrow> Some (Inl (RegistryError err), o1)
      | Some (Inr ord) \<Rightarrow>
          bind_result (each (bring_up R) ord) (\<lambda>_.
          bind_result (each (\<lambda>t. run_hook t ApplicationBootstrap) ord) (\<lambda>_ o2.
          Some (Inr ord, o2\<lparr>or_activation_order := ord\<rparr>))) o1)"

definition shutdown :: "Runner \<Rightarrow> 'v ModuleOrchestrator \<Rightarrow> (unit, 'v) orchestration" where
  "shutdown R o1 =
     bind_result (each (\<lambda>t. run_hook t ApplicationShutdown) (rev (or_activation_order o1))) (\<lambda>_.
     each (destroy R) (rev (or_activation_order o1))) o1"

end
