(* ===== verification/Chart_Code.thy ===== *)
theory Chart_Code
  imports Statecharts
begin

text \<open>
  The generated functions of the request, module and provider charts with their arms evaluated once, as code
  equations for the executions of the components that run on them.
\<close>

lemma gen_enter_known: "gen_enter_fuel m (initial_arms doc) s = Some t \<Longrightarrow> gen_enter doc s = t"
  by (simp add: gen_enter_def gen_enter_enough del: gen_enter_fuel.simps)

lemma module_spec_code [code]:
  "module_spec hash =
     \<lparr>sp_transition = (\<lambda>current event. map_option (\<lambda>(s, e, t). t) (find (\<lambda>(s, e, t). s = current \<and> e = event)
        [(''Active'', ''ModuleDestroy'', ''Destroying''),
         (''Destroying'', ''DestroyComplete'', ''Destroyed''),
         (''Initialized'', ''ModuleActivate'', ''Active''),
         (''LoadFailed'', ''ModuleAbort'', ''Failed''),
         (''Loaded'', ''ModuleInit'', ''Initialized''),
         (''RegisteringProviders'', ''ProvidersRegistered'', ''ResolvingDependencies''),
         (''ResolvingDependencies'', ''DependenciesResolved'', ''Loaded''),
         (''ResolvingDependencies'', ''ErrorDiCircular'', ''LoadFailed''),
         (''ResolvingDependencies'', ''ErrorDiMissingProvider'', ''LoadFailed''),
         (''ResolvingImports'', ''ImportsResolved'', ''RegisteringProviders''),
         (''ResolvingImports'', ''ErrorImportMissing'', ''LoadFailed''),
         (''Unloaded'', ''ModuleLoad'', ''Loading'')])),
      sp_valid_events = gen_valid_events module_doc,
      sp_enter = (\<lambda>s. if s = ''Loading'' then ''ResolvingImports'' else s),
      sp_is_final = gen_is_final module_doc,
      sp_show_state = (\<lambda>s. s), sp_show_event = (\<lambda>e. e), sp_name = chart_name_of module_doc, sp_hash = hash\<rparr>"
proof -
  have "gen_enter module_doc = (\<lambda>s. if s = ''Loading'' then ''ResolvingImports'' else s)"
    by (rule ext, rule gen_enter_known [of 2]) (simp add: module_initials eval_nat_numeral)
  moreover have "gen_transition module_doc =
      (\<lambda>current event. map_option (\<lambda>(s, e, t). t) (find (\<lambda>(s, e, t). s = current \<and> e = event) (transition_arms module_doc)))"
    by (simp add: fun_eq_iff gen_transition_def)
  ultimately show ?thesis by (simp only: module_spec_def gen_spec_def module_arms)
qed

lemma provider_spec_code [code]:
  "provider_spec hash =
     \<lparr>sp_transition = (\<lambda>current event. map_option (\<lambda>(s, e, t). t) (find (\<lambda>(s, e, t). s = current \<and> e = event)
        [(''Constructing'', ''ProviderConstructed'', ''Resolved''),
         (''Constructing'', ''ErrorConstruction'', ''ResolutionFailed''),
         (''Disposing'', ''ProviderDisposed'', ''Disposed''),
         (''Registered'', ''ProviderResolve'', ''Resolving''),
         (''ResolutionFailed'', ''ProviderAbort'', ''Failed''),
         (''Resolved'', ''ProviderDispose'', ''Disposing''),
         (''Resolving'', ''DependenciesReady'', ''Constructing''),
         (''Resolving'', ''ErrorDependencyMissing'', ''ResolutionFailed''),
         (''Resolving'', ''ErrorDependencyCircular'', ''ResolutionFailed''),
         (''Unregistered'', ''ProviderRegister'', ''Registered'')])),
      sp_valid_events = gen_valid_events provider_doc, sp_enter = (\<lambda>s. s), sp_is_final = gen_is_final provider_doc,
      sp_show_state = (\<lambda>s. s), sp_show_event = (\<lambda>e. e), sp_name = chart_name_of provider_doc, sp_hash = hash\<rparr>"
proof -
  have "gen_enter provider_doc = (\<lambda>s. s)"
    by (rule ext, rule gen_enter_known [of 1]) (simp add: provider_initials)
  moreover have "gen_transition provider_doc =
      (\<lambda>current event. map_option (\<lambda>(s, e, t). t) (find (\<lambda>(s, e, t). s = current \<and> e = event) (transition_arms provider_doc)))"
    by (simp add: fun_eq_iff gen_transition_def)
  ultimately show ?thesis by (simp only: provider_spec_def gen_spec_def provider_arms)
qed

lemma request_spec_code [code]:
  "request_spec hash =
     \<lparr>sp_transition = (\<lambda>current event. map_option (\<lambda>(s, e, t). t) (find (\<lambda>(s, e, t). s = current \<and> e = event)
        [(''ErrorHandling'', ''FilterHandled'', ''SendingResponse''),
         (''ErrorHandling'', ''ErrorFilterUnhandled'', ''SendingResponse''),
         (''GuardChain'', ''GuardsPassed'', ''InterceptorPre''),
         (''GuardChain'', ''GuardDenied'', ''ErrorHandling''),
         (''GuardChain'', ''ErrorGuard'', ''ErrorHandling''),
         (''HandlerExecution'', ''HandlerComplete'', ''InterceptorPost''),
         (''HandlerExecution'', ''ErrorInterceptor'', ''ErrorHandling''),
         (''HandlerExecution'', ''ErrorHandler'', ''ErrorHandling''),
         (''InterceptorPost'', ''InterceptorsPostComplete'', ''SendingResponse''),
         (''InterceptorPost'', ''ErrorInterceptorPost'', ''ErrorHandling''),
         (''InterceptorPre'', ''InterceptorsPreComplete'', ''PipeTransform''),
         (''InterceptorPre'', ''ErrorInterceptor'', ''ErrorHandling''),
         (''MiddlewareChain'', ''MiddlewareComplete'', ''RouteMatching''),
         (''MiddlewareChain'', ''ErrorMiddleware'', ''ErrorHandling''),
         (''PipeTransform'', ''PipesComplete'', ''HandlerExecution''),
         (''PipeTransform'', ''ErrorValidation'', ''ErrorHandling''),
         (''PipeTransform'', ''ErrorPipe'', ''ErrorHandling''),
         (''Received'', ''RequestParsed'', ''MiddlewareChain''),
         (''Received'', ''ErrorParse'', ''ErrorHandling''),
         (''RouteMatching'', ''RouteMatched'', ''GuardChain''),
         (''RouteMatching'', ''RouteNotFound'', ''ErrorHandling''),
         (''RouteMatching'', ''RouteMethodNotAllowed'', ''ErrorHandling''),
         (''SendingResponse'', ''ResponseSent'', ''Done''),
         (''SendingResponse'', ''ErrorSend'', ''Done'')])),
      sp_valid_events = gen_valid_events request_doc, sp_enter = (\<lambda>s. s), sp_is_final = gen_is_final request_doc,
      sp_show_state = (\<lambda>s. s), sp_show_event = (\<lambda>e. e), sp_name = chart_name_of request_doc, sp_hash = hash\<rparr>"
proof -
  have "gen_enter request_doc = (\<lambda>s. s)"
    by (rule ext, rule gen_enter_known [of 1]) (simp add: request_initials)
  moreover have "gen_transition request_doc =
      (\<lambda>current event. map_option (\<lambda>(s, e, t). t) (find (\<lambda>(s, e, t). s = current \<and> e = event) (transition_arms request_doc)))"
    by (simp add: fun_eq_iff gen_transition_def)
  ultimately show ?thesis by (simp only: request_spec_def gen_spec_def request_arms)
qed

end
