(* ===== verification/Module_Lifecycle.thy ===== *)
theory Module_Lifecycle
  imports Module_Runtime Chart_Code
begin

text \<open>
  Properties of module runtimes and of the orchestrator: what a load can end in, the order modules come up
  and go down in, and what crosses from one module's container to another's.
\<close>

named_theorems orchestrator \<open>facts on the orchestrator's operations\<close>

section \<open>Runtimes\<close>

lemma module_next:
  "sp_transition (module_spec hash) ''Unloaded'' ''ModuleLoad'' = Some ''Loading''"
  "sp_transition (module_spec hash) ''ResolvingImports'' ''ImportsResolved'' = Some ''RegisteringProviders''"
  "sp_transition (module_spec hash) ''RegisteringProviders'' ''ProvidersRegistered'' = Some ''ResolvingDependencies''"
  "sp_transition (module_spec hash) ''ResolvingDependencies'' ''DependenciesResolved'' = Some ''Loaded''"
  "sp_transition (module_spec hash) ''ResolvingDependencies'' ''ErrorDiCircular'' = Some ''LoadFailed''"
  "sp_transition (module_spec hash) ''ResolvingDependencies'' ''ErrorDiMissingProvider'' = Some ''LoadFailed''"
  "sp_transition (module_spec hash) ''Loaded'' ''ModuleInit'' = Some ''Initialized''"
  "sp_transition (module_spec hash) ''Initialized'' ''ModuleActivate'' = Some ''Active''"
  "sp_transition (module_spec hash) ''Active'' ''ModuleDestroy'' = Some ''Destroying''"
  "sp_transition (module_spec hash) ''Destroying'' ''DestroyComplete'' = Some ''Destroyed''"
  "sp_transition (module_spec hash) ''RegisteringProviders'' ''ModuleAbort'' = None"
  "sp_transition (module_spec hash) ''ResolvingDependencies'' ''ModuleAbort'' = None"
  "sp_transition (module_spec hash) ''LoadFailed'' ''ModuleAbort'' = Some ''Failed''"
  by (simp_all add: module_spec_def gen_spec_def gen_transition_def module_arms)

lemma module_enter:
  "sp_enter (module_spec hash) ''Loading'' = ''ResolvingImports''"
  "s \<in> set [''Unloaded'', ''RegisteringProviders'', ''ResolvingDependencies'', ''Loaded'', ''LoadFailed'', ''Initialized'',
     ''Active'', ''Destroying'', ''Destroyed'', ''Failed''] \<Longrightarrow> sp_enter (module_spec hash) s = s"
  by (auto simp: module_spec_def gen_spec_def module_initials eval_nat_numeral
      intro!: gen_enter_known [of 2 module_doc])

lemma runtime_send_accepted:
  assumes "sp_transition (module_spec (env_hash (run_env R))) (runtime_state rt) event = Some s"
    "sp_enter (module_spec (env_hash (run_env R))) s = s'"
  shows "\<exists>eng. runtime_send R event rt = Some (Inr s', rt\<lparr>rt_engine := eng\<rparr>) \<and> current_state eng = s'"
  using assms
  by (cases "send_event (env_debug (run_env R)) (module_spec (env_hash (run_env R))) (rt_engine rt) event")
    (auto simp: runtime_send_def send_event_def runtime_state_def Let_def)

lemma runtime_send_refused:
  assumes "sp_transition (module_spec (env_hash (run_env R))) (runtime_state rt) event = None"
  shows "\<exists>eng details. runtime_send R event rt =
      Some (Inl (InvalidTransition (runtime_state rt) event details), rt\<lparr>rt_engine := eng\<rparr>) \<and>
    current_state eng = runtime_state rt"
  using assms by (auto simp: runtime_send_def send_event_def runtime_state_def Let_def)

text \<open>What a load did: which stage returned, and with what.\<close>

lemma load_stages:
  assumes "runtime_state rt = ''Unloaded''" "load R rt = Some (r, rt')"
  shows "(\<exists>err c. rt_configure rt (rt_container rt) = Some (Inl err, c) \<and> r = Inl (DependencyInjection err) \<and>
            runtime_state rt' = ''RegisteringProviders'' \<and> rt_container rt' = c) \<or>
         (\<exists>c c'. rt_configure rt (rt_container rt) = Some (Inr (), c) \<and> run_initialize R c = Some (Inr (), c') \<and>
            r = Inr ''Loaded'' \<and> runtime_state rt' = ''Loaded'' \<and> rt_container rt' = c') \<or>
         (\<exists>c err c'. rt_configure rt (rt_container rt) = Some (Inr (), c) \<and> run_initialize R c = Some (Inl err, c') \<and>
            r = Inl (DependencyInjection err) \<and> rt_container rt' = c' \<and>
            runtime_state rt' = (case err of CircularDependency _ \<Rightarrow> ''LoadFailed'' | ProviderNotFound _ \<Rightarrow> ''LoadFailed''
                                 | _ \<Rightarrow> ''ResolvingDependencies''))"
proof -
  obtain e1 where 1: "start_loading R rt = Some (Inr ''ResolvingImports'', rt\<lparr>rt_engine := e1\<rparr>)" "current_state e1 = ''ResolvingImports''"
    using runtime_send_accepted [of R rt "''ModuleLoad''" "''Loading''" "''ResolvingImports''"] assms(1)
    by (auto simp: start_loading_def module_next module_enter)
  obtain e2 where 2: "imports_resolved R (rt\<lparr>rt_engine := e1\<rparr>) = Some (Inr ''RegisteringProviders'', rt\<lparr>rt_engine := e2\<rparr>)"
    "current_state e2 = ''RegisteringProviders''"
    using runtime_send_accepted [of R "rt\<lparr>rt_engine := e1\<rparr>" "''ImportsResolved''" "''RegisteringProviders''" "''RegisteringProviders''"] 1(2)
    by (auto simp: imports_resolved_def module_next module_enter runtime_state_def)
  have load: "load R rt = bind_result (register_providers R) (\<lambda>_. resolve_dependencies R) (rt\<lparr>rt_engine := e2\<rparr>)"
    by (simp add: load_def bind_result_def 1 2)
  show ?thesis
  proof (cases "rt_configure rt (rt_container rt)")
    case None
    with assms(2) load show ?thesis by (simp add: bind_result_def register_providers_def)
  next
    case (Some q)
    obtain q1 c where q: "q = (q1, c)" by (cases q)
    show ?thesis
    proof (cases q1)
      case (Inl err)
      with assms(2) load Some q 2(2) show ?thesis
        by (auto simp: bind_result_def register_providers_def runtime_state_def)
    next
      case (Inr u)
      let ?rt2 = "rt\<lparr>rt_engine := e2, rt_container := c\<rparr>"
      obtain e3 where 3: "runtime_send R ''ProvidersRegistered'' ?rt2 = Some (Inr ''ResolvingDependencies'', ?rt2\<lparr>rt_engine := e3\<rparr>)"
        "current_state e3 = ''ResolvingDependencies''"
        using runtime_send_accepted [of R ?rt2 "''ProvidersRegistered''" "''ResolvingDependencies''" "''ResolvingDependencies''"] 2(2)
        by (auto simp: module_next module_enter runtime_state_def)
      then have load': "load R rt = resolve_dependencies R (?rt2\<lparr>rt_engine := e3\<rparr>)"
        using load Some q Inr by (simp add: bind_result_def register_providers_def)
      have report: "\<exists>eng. runtime_send R event (?rt2\<lparr>rt_engine := e3, rt_container := c'\<rparr>) =
            Some (Inr s, rt\<lparr>rt_container := c', rt_engine := eng\<rparr>) \<and> current_state eng = s"
        if "(event, s) \<in> {(''DependenciesResolved'', ''Loaded''), (''ErrorDiCircular'', ''LoadFailed''),
             (''ErrorDiMissingProvider'', ''LoadFailed'')}" for event s c'
        using runtime_send_accepted [of R "?rt2\<lparr>rt_engine := e3, rt_container := c'\<rparr>" event s s] 3(2) that
        by (auto simp: module_next module_enter runtime_state_def)
      show ?thesis
      proof (cases "run_initialize R c")
        case None
        with assms(2) load' show ?thesis by (simp add: resolve_dependencies_def)
      next
        case (Some p)
        obtain p1 c' where p: "p = (p1, c')" by (cases p)
        show ?thesis
        proof (cases p1)
          case (Inr v)
          with assms(2) load' Some p report [of "''DependenciesResolved''" "''Loaded''" c'] \<open>q1 = Inr u\<close> q
            \<open>rt_configure rt (rt_container rt) = Some q\<close>
          show ?thesis by (auto simp: resolve_dependencies_def runtime_state_def)
        next
          case (Inl err)
          with assms(2) load' Some p report [of "''ErrorDiCircular''" "''LoadFailed''" c']
            report [of "''ErrorDiMissingProvider''" "''LoadFailed''" c'] \<open>q1 = Inr u\<close> q 3(2)
            \<open>rt_configure rt (rt_container rt) = Some q\<close>
          show ?thesis
            by (cases err) (auto simp: resolve_dependencies_def runtime_state_def Let_def bind_result_def)
        qed
      qed
    qed
  qed
qed

definition demo_runner :: Runner where
  "demo_runner =
     \<lparr>run_env = \<lparr>env_type_name = (\<lambda>t. if t = 1 then ''AppModule'' else if t = 2 then ''UserModule'' else ''ConfigModule''),
                 env_debug = True, env_hash = ''h''\<rparr>,
      run_fuel = 20, run_iter = (\<lambda>P. filter P [1, 2, 3, 20, 30])\<rparr>"

definition provide :: "TypeId \<Rightarrow> nat \<Rightarrow> nat DependencyContainer \<Rightarrow> (DiError, unit, nat DependencyContainer) result" where
  "provide t v c = Some (Inr (), register_factory (run_env demo_runner) 0 t Singleton [] (Finish v) c)"

text \<open>A load of a fresh module ends loaded; or failed in the chart's \<open>LoadFailed\<close> state, from where it can be
  aborted, and then the error is a dependency cycle or a missing provider; or, for any other error of \<open>configure\<close>
  or of a factory, in the state it was in when the error arose, where aborting the load is refused.\<close>

theorem load_outcomes:
  assumes "runtime_state rt = ''Unloaded''" "load R rt = Some (r, rt')"
  shows "(r = Inr ''Loaded'' \<and> runtime_state rt' = ''Loaded'') \<or>
    (\<exists>err. r = Inl (DependencyInjection err) \<and>
       (runtime_state rt' = ''LoadFailed'' \<and> (\<exists>name. err = CircularDependency name \<or> err = ProviderNotFound name) \<and>
          (\<exists>s rt''. abort_load R rt' = Some (Inr s, rt'') \<and> runtime_state rt'' = ''Failed'') \<or>
        runtime_state rt' \<in> {''RegisteringProviders'', ''ResolvingDependencies''} \<and>
          (\<exists>e rt''. abort_load R rt' = Some (Inl e, rt'') \<and> runtime_state rt'' = runtime_state rt')))"
proof -
  have abort: "\<exists>s rt''. abort_load R rt' = Some (Inr s, rt'') \<and> runtime_state rt'' = ''Failed''"
    if "runtime_state rt' = ''LoadFailed''"
    using runtime_send_accepted [of R rt' "''ModuleAbort''" "''Failed''" "''Failed''"] that
    by (auto simp: abort_load_def module_next module_enter runtime_state_def)
  have stuck: "\<exists>e rt''. abort_load R rt' = Some (Inl e, rt'') \<and> runtime_state rt'' = runtime_state rt'"
    if "runtime_state rt' \<in> {''RegisteringProviders'', ''ResolvingDependencies''}"
    using runtime_send_refused [of R rt' "''ModuleAbort''"] that
    by (auto simp: abort_load_def module_next runtime_state_def)
  from load_stages [OF assms] show ?thesis
  proof (elim disjE exE conjE)
    fix c err c'
    assume "r = Inl (DependencyInjection err)"
      "runtime_state rt' = (case err of CircularDependency _ \<Rightarrow> ''LoadFailed'' | ProviderNotFound _ \<Rightarrow> ''LoadFailed''
                                 | _ \<Rightarrow> ''ResolvingDependencies'')"
    then show ?thesis using abort stuck by (cases err) auto
  qed (use stuck in auto)
qed

definition broken_config :: "nat ModuleRuntime" where
  "broken_config =
     runtime_with_container demo_runner (\<lambda>c. Some (Inl (Registration ''no config''), c)) (snd container_new)"

theorem load_outcomes_witness:
  "\<exists>rt'. load demo_runner broken_config = Some (Inl (DependencyInjection (Registration ''no config'')), rt') \<and>
     runtime_state rt' \<in> {''RegisteringProviders'', ''ResolvingDependencies''} \<and>
     (\<exists>e rt''. abort_load demo_runner rt' = Some (Inl e, rt''))"
proof -
  have "map_option fst (load demo_runner broken_config) = Some (Inl (DependencyInjection (Registration ''no config'')))"
    by code_simp
  then obtain rt' where rt': "load demo_runner broken_config = Some (Inl (DependencyInjection (Registration ''no config'')), rt')"
    by auto
  have "runtime_state broken_config = ''Unloaded''" by code_simp
  from load_outcomes [OF this rt'] rt' show ?thesis by auto
qed

section \<open>What the steps of the orchestrator leave alone\<close>

definition or_state :: "'v ModuleOrchestrator \<Rightarrow> TypeId \<Rightarrow> string option" where
  "or_state o1 t = map_option (\<lambda>mr. runtime_state (mr_runtime mr)) (or_runtimes o1 t)"

definition or_hooks :: "'v ModuleOrchestrator \<Rightarrow> TypeId \<Rightarrow> Hook set option" where
  "or_hooks o1 t = map_option mr_hooks (or_runtimes o1 t)"

definition hook_log :: "'v ModuleOrchestrator \<Rightarrow> TypeId list \<Rightarrow> Hook \<Rightarrow> (TypeId \<times> Hook) list" where
  "hook_log o1 ts hook = map (\<lambda>t. (t, hook)) (filter (\<lambda>t. \<exists>hs. or_hooks o1 t = Some hs \<and> hook \<in> hs) ts)"

text \<open>Same registry, hooks, order; the log grows by \<open>l\<close>; the states of the modules change as \<open>f\<close> says.\<close>

definition moved :: "(TypeId \<times> Hook) list \<Rightarrow> (TypeId \<Rightarrow> string option) \<Rightarrow> 'v ModuleOrchestrator \<Rightarrow> 'v ModuleOrchestrator \<Rightarrow> bool" where
  "moved l f o1 o2 \<longleftrightarrow>
     or_registry o2 = or_registry o1 \<and> or_hooks o2 = or_hooks o1 \<and> or_activation_order o2 = or_activation_order o1 \<and>
     or_log o2 = or_log o1 @ l \<and> or_state o2 = f"

lemma moved_refl: "moved [] (or_state o1) o1 o1"
  by (simp add: moved_def)

lemma moved_trans: "moved l f o1 o2 \<Longrightarrow> moved l' f' o2 o3 \<Longrightarrow> moved (l @ l') f' o1 o3"
  by (simp add: moved_def)

lemma hook_log_moved: "moved l f o1 o2 \<Longrightarrow> hook_log o2 ts hook = hook_log o1 ts hook"
  by (simp add: moved_def hook_log_def)

lemma bind_result_cases:
  "bind_result m k s = Some (r, s') \<Longrightarrow>
   (\<exists>err. m s = Some (Inl err, s') \<and> r = Inl err) \<or> (\<exists>x s1. m s = Some (Inr x, s1) \<and> k x s1 = Some (r, s'))"
  by (auto simp: bind_result_def split: option.splits sum.splits)

lemma seed_export_moved:
  "seed_export R target source x o1 = Some (r, o2) \<Longrightarrow> moved [] (or_state o1) o1 o2"
  by (auto simp: seed_export_def moved_def or_state_def or_hooks_def runtime_state_def Let_def fun_eq_iff
      split: option.splits prod.splits if_splits)

lemma each_moved:
  assumes "\<And>x o1 r o2. f x o1 = Some (r, o2) \<Longrightarrow> moved [] (or_state o1) o1 o2"
  shows "each f xs o1 = Some (r, o2) \<Longrightarrow> moved [] (or_state o1) o1 o2"
proof (induction xs arbitrary: o1)
  case (Cons x xs)
  then show ?case
    using bind_result_cases [of "f x" "\<lambda>_. each f xs" o1 r o2] assms
    by (auto dest: moved_trans) (metis append_Nil assms moved_def moved_trans)
qed (simp add: moved_refl)

lemma seed_moved:
  assumes "seed_imported_exports R t o1 = Some (r, o2)"
  shows "moved [] (or_state o1) o1 o2"
proof -
  have "moved [] (or_state o1) o1 o2" if "seed_source R t source o1 = Some (r, o2)" for source o1 r o2
    using that each_moved [of "seed_export R t source", OF seed_export_moved]
    by (auto simp: seed_source_def moved_refl split: option.splits sum.splits if_splits)
  from each_moved [of "seed_source R t", OF this] show ?thesis
    using assms by (auto simp: seed_imported_exports_def moved_refl split: option.splits sum.splits if_splits)
qed

lemma with_runtime_moved:
  assumes "with_runtime t f o1 = Some (r, o2)" "or_runtimes o1 t = Some mr"
    and "\<And>rt r rt'. f rt = Some (r, rt') \<Longrightarrow> runtime_state rt = runtime_state (mr_runtime mr) \<Longrightarrow> P r (runtime_state rt')"
  shows "\<exists>r' s. r = map_sum LifecycleError id r' \<and> P r' s \<and> moved [] ((or_state o1)(t \<mapsto> s)) o1 o2"
  using assms(1,2) assms(3) [of "(mr_runtime mr)\<lparr>rt_container := (rt_container (mr_runtime mr))\<lparr>dc_next_addr := or_next_addr o1\<rparr>\<rparr>"]
  by (auto simp: with_runtime_def moved_def or_state_def or_hooks_def runtime_state_def Let_def fun_eq_iff split: option.splits)

lemma run_hook_moved:
  "or_runtimes o1 t \<noteq> None \<Longrightarrow>
   \<exists>o2. run_hook t hook o1 = Some (Inr (), o2) \<and> moved (hook_log o1 [t] hook) (or_state o1) o1 o2 \<and>
     or_runtimes o2 = or_runtimes o1"
  by (auto simp: run_hook_def moved_def hook_log_def or_hooks_def or_state_def fun_eq_iff)

text \<open>Events the chart accepts always succeed.\<close>

lemma with_runtime_send:
  assumes "or_state o1 t = Some s"
    "sp_transition (module_spec (env_hash (run_env R))) s event = Some s1"
    "sp_enter (module_spec (env_hash (run_env R))) s1 = s2"
  shows "\<exists>o2. with_runtime t (runtime_send R event) o1 = Some (Inr s2, o2) \<and> moved [] ((or_state o1)(t \<mapsto> s2)) o1 o2"
proof -
  obtain mr where mr: "or_runtimes o1 t = Some mr" "runtime_state (mr_runtime mr) = s"
    using assms(1) by (auto simp: or_state_def)
  let ?rt = "(mr_runtime mr)\<lparr>rt_container := (rt_container (mr_runtime mr))\<lparr>dc_next_addr := or_next_addr o1\<rparr>\<rparr>"
  obtain eng where "runtime_send R event ?rt = Some (Inr s2, ?rt\<lparr>rt_engine := eng\<rparr>)" "current_state eng = s2"
    using runtime_send_accepted [of R ?rt event s1 s2] mr(2) assms(2,3) by (auto simp: runtime_state_def)
  with mr(1) show ?thesis
    by (auto simp: with_runtime_def Let_def moved_def or_state_def or_hooks_def runtime_state_def fun_eq_iff)
qed

lemma or_state_runtime: "or_state o1 t = Some s \<Longrightarrow> or_runtimes o1 t \<noteq> None"
  by (auto simp: or_state_def)

lemma initialize_and_activate_up:
  assumes "or_state o1 t = Some ''Loaded''"
  shows "\<exists>o2. initialize_and_activate R t o1 = Some (Inr (), o2) \<and>
    moved (hook_log o1 [t] ModuleInit) ((or_state o1)(t \<mapsto> ''Active'')) o1 o2"
proof -
  obtain a where a: "with_runtime t (runtime_initialize R) o1 = Some (Inr ''Initialized'', a)"
    "moved [] ((or_state o1)(t \<mapsto> ''Initialized'')) o1 a"
    using with_runtime_send [OF assms, of R "''ModuleInit''" "''Initialized''" "''Initialized''"]
    by (auto simp: runtime_initialize_def module_next module_enter)
  then have "or_state a t = Some ''Initialized''" by (simp add: moved_def)
  then obtain b where b: "run_hook t ModuleInit a = Some (Inr (), b)" "moved (hook_log a [t] ModuleInit) (or_state a) a b"
    using run_hook_moved or_state_runtime by metis
  then have "or_state b t = Some ''Initialized''" using \<open>or_state a t = _\<close> by (simp add: moved_def)
  then obtain d where d: "with_runtime t (activate R) b = Some (Inr ''Active'', d)"
    "moved [] ((or_state b)(t \<mapsto> ''Active'')) b d"
    using with_runtime_send [of b t "''Initialized''" R "''ModuleActivate''" "''Active''" "''Active''"]
    by (auto simp: activate_def module_next module_enter)
  have "moved (hook_log o1 [t] ModuleInit) ((or_state o1)(t \<mapsto> ''Active'')) o1 d"
    using a(2) b(2) d(2) hook_log_moved [OF a(2)] by (simp add: moved_def)
  with a(1) b(1) d(1) show ?thesis by (simp add: initialize_and_activate_def bind_result_def)
qed

lemma destroy_down:
  assumes "or_state o1 t = Some ''Active''"
  shows "\<exists>o2. destroy R t o1 = Some (Inr (), o2) \<and>
    moved (hook_log o1 [t] ModuleDestroy) ((or_state o1)(t \<mapsto> ''Destroyed'')) o1 o2"
proof -
  obtain a where a: "with_runtime t (begin_destroy R) o1 = Some (Inr ''Destroying'', a)"
    "moved [] ((or_state o1)(t \<mapsto> ''Destroying'')) o1 a"
    using with_runtime_send [OF assms, of R "''ModuleDestroy''" "''Destroying''" "''Destroying''"]
    by (auto simp: begin_destroy_def module_next module_enter)
  then have "or_state a t = Some ''Destroying''" by (simp add: moved_def)
  then obtain b where b: "run_hook t ModuleDestroy a = Some (Inr (), b)" "moved (hook_log a [t] ModuleDestroy) (or_state a) a b"
    using run_hook_moved or_state_runtime by metis
  then have "or_state b t = Some ''Destroying''" using \<open>or_state a t = _\<close> by (simp add: moved_def)
  then obtain d where d: "with_runtime t (complete_destroy R) b = Some (Inr ''Destroyed'', d)"
    "moved [] ((or_state b)(t \<mapsto> ''Destroyed'')) b d"
    using with_runtime_send [of b t "''Destroying''" R "''DestroyComplete''" "''Destroyed''" "''Destroyed''"]
    by (auto simp: complete_destroy_def module_next module_enter)
  have "moved (hook_log o1 [t] ModuleDestroy) ((or_state o1)(t \<mapsto> ''Destroyed'')) o1 d"
    using a(2) b(2) d(2) hook_log_moved [OF a(2)] by (simp add: moved_def)
  with a(1) b(1) d(1) show ?thesis by (simp add: destroy_def bind_result_def)
qed

end
