(* ===== verification/Module_Bootstrap.thy ===== *)
theory Module_Bootstrap
  imports Module_Lifecycle
begin

text \<open>
  Bootstrap and shutdown of all modules of an application: in which order modules come up and go down, which
  hooks are awaited when, and what a failed bootstrap leaves behind.
\<close>

lemma moved_state: "moved l f o1 o2 \<Longrightarrow> or_state o2 = f"
  by (simp add: moved_def)

lemma bring_up_outcome:
  assumes "or_state o1 t = Some ''Unloaded''" "bring_up R t o1 = Some (r, o2)"
  shows "(r = Inr () \<and> moved (hook_log o1 [t] ModuleInit) ((or_state o1)(t \<mapsto> ''Active'')) o1 o2) \<or>
    (\<exists>err s. r = Inl err \<and> s \<noteq> ''Active'' \<and> moved [] ((or_state o1)(t \<mapsto> s)) o1 o2)"
proof -
  have same: "(or_state o1)(t \<mapsto> ''Unloaded'') = or_state o1" using assms(1) by auto
  have ex: "\<exists>s. s \<noteq> ''Active'' \<and> moved [] ((or_state o1)(t \<mapsto> s)) o1 a" if "moved [] (or_state o1) o1 a" for a
    using that same by (intro exI [of _ "''Unloaded''"]) simp
  from bind_result_cases [OF assms(2) [unfolded bring_up_def]]
  consider (seed) err where "seed_imported_exports R t o1 = Some (Inl err, o2)" "r = Inl err"
    | (on) a where "seed_imported_exports R t o1 = Some (Inr (), a)"
        "bind_result (with_runtime t (load R)) (\<lambda>_. initialize_and_activate R t) a = Some (r, o2)"
    by auto
  then show ?thesis
  proof cases
    case seed
    with seed_moved [OF seed(1)] ex show ?thesis by blast
  next
    case on
    note a = seed_moved [OF on(1)]
    then have state: "or_state a t = Some ''Unloaded''" using assms(1) moved_state by metis
    then obtain mr where mr: "or_runtimes a t = Some mr" "runtime_state (mr_runtime mr) = ''Unloaded''"
      by (auto simp: or_state_def)
    have loaded: "(\<exists>s. q = Inr s \<and> runtime_state rt' = ''Loaded'') \<or> (\<exists>err. q = Inl err \<and> runtime_state rt' \<noteq> ''Active'')"
      if "load R rt = Some (q, rt')" "runtime_state rt = runtime_state (mr_runtime mr)" for rt q rt'
      using load_stages [of rt R q rt'] that mr(2) by (fastforce split: DiError.splits)
    have step: "\<exists>r' s. r1 = map_sum LifecycleError id r' \<and>
        ((\<exists>x. r' = Inr x \<and> s = ''Loaded'') \<or> (\<exists>err. r' = Inl err \<and> s \<noteq> ''Active'')) \<and>
        moved [] ((or_state a)(t \<mapsto> s)) a b" if "with_runtime t (load R) a = Some (r1, b)" for r1 b
      by (rule with_runtime_moved [OF that mr(1)]) (use loaded in blast)
    from bind_result_cases [OF on(2)] consider
      (fails) err where "with_runtime t (load R) a = Some (Inl err, o2)" "r = Inl err"
      | (goes) x b where "with_runtime t (load R) a = Some (Inr x, b)" "initialize_and_activate R t b = Some (r, o2)" by blast
    then show ?thesis
    proof cases
      case fails
      with step [OF fails(1)] obtain s where "s \<noteq> ''Active''" "moved [] ((or_state a)(t \<mapsto> s)) a o2" by force
      with a fails(2) show ?thesis by (auto simp: moved_def)
    next
      case goes
      with step [OF goes(1)] have b: "moved [] ((or_state a)(t \<mapsto> ''Loaded'')) a b" by force
      then have "or_state b t = Some ''Loaded''" by (simp add: moved_def)
      from initialize_and_activate_up [OF this, of R] goes(2)
      have "r = Inr ()" "moved (hook_log b [t] ModuleInit) ((or_state b)(t \<mapsto> ''Active'')) b o2" by auto
      moreover from this a b have "hook_log b [t] ModuleInit = hook_log o1 [t] ModuleInit"
        using hook_log_moved by metis
      ultimately show ?thesis using a b by (auto simp: moved_def)
    qed
  qed
qed

text \<open>The states once the modules \<open>ts\<close> are in state \<open>s\<close>.\<close>

definition put :: "(TypeId \<Rightarrow> string option) \<Rightarrow> TypeId list \<Rightarrow> string \<Rightarrow> TypeId \<Rightarrow> string option" where
  "put f ts s t = (if t \<in> set ts then Some s else f t)"

lemma put_simps [simp]: "put f [] s = f" "put (f(t \<mapsto> s)) ts s = put f (t # ts) s"
  by (auto simp: put_def fun_eq_iff)

lemma hook_log_Cons: "hook_log o1 (t # ts) h = hook_log o1 [t] h @ hook_log o1 ts h"
  by (simp add: hook_log_def)

lemma each_bring_up:
  assumes "each (bring_up R) ts o1 = Some (r, o2)" "distinct ts" "\<forall>t \<in> set ts. or_state o1 t = Some ''Unloaded''"
  shows "(r = Inr () \<and> moved (hook_log o1 ts ModuleInit) (put (or_state o1) ts ''Active'') o1 o2) \<or>
    (\<exists>before t after err s. ts = before @ t # after \<and> r = Inl err \<and> s \<noteq> ''Active'' \<and>
       moved (hook_log o1 before ModuleInit) ((put (or_state o1) before ''Active'')(t \<mapsto> s)) o1 o2)"
  using assms
proof (induction ts arbitrary: o1)
  case Nil
  then show ?case using moved_refl by (auto simp: hook_log_def)
next
  case (Cons t ts)
  from Cons.prems(3) have t: "or_state o1 t = Some ''Unloaded''" by simp
  from Cons.prems(1) bind_result_cases [of "bring_up R t" "\<lambda>_. each (bring_up R) ts" o1 r o2] consider
    (fails) err where "bring_up R t o1 = Some (Inl err, o2)" "r = Inl err"
    | (goes) a where "bring_up R t o1 = Some (Inr (), a)" "each (bring_up R) ts a = Some (r, o2)" by auto
  then show ?case
  proof cases
    case fails
    with bring_up_outcome [OF t fails(1)] obtain s where s: "s \<noteq> ''Active''" "moved [] ((or_state o1)(t \<mapsto> s)) o1 o2" by auto
    have "\<exists>before t' after err s. t # ts = before @ t' # after \<and> r = Inl err \<and> s \<noteq> ''Active'' \<and>
       moved (hook_log o1 before ModuleInit) ((put (or_state o1) before ''Active'')(t' \<mapsto> s)) o1 o2"
      by (rule exI [of _ "[]"], rule exI [of _ t]) (use fails s in \<open>auto simp: hook_log_def\<close>)
    then show ?thesis by blast
  next
    case goes
    from bring_up_outcome [OF t goes(1)]
    have a: "moved (hook_log o1 [t] ModuleInit) ((or_state o1)(t \<mapsto> ''Active'')) o1 a" by auto
    have logs: "hook_log a us ModuleInit = hook_log o1 us ModuleInit" for us by (rule hook_log_moved [OF a])
    have "\<forall>u \<in> set ts. or_state a u = Some ''Unloaded''" using a Cons.prems(2,3) by (auto simp: moved_def)
    moreover have "distinct ts" using Cons.prems(2) by simp
    ultimately have "(r = Inr () \<and> moved (hook_log a ts ModuleInit) (put (or_state a) ts ''Active'') a o2) \<or>
      (\<exists>before t after err s. ts = before @ t # after \<and> r = Inl err \<and> s \<noteq> ''Active'' \<and>
         moved (hook_log a before ModuleInit) ((put (or_state a) before ''Active'')(t \<mapsto> s)) a o2)"
      using Cons.IH [OF goes(2)] by blast
    then show ?thesis
    proof (elim disjE exE conjE)
      assume "r = Inr ()" "moved (hook_log a ts ModuleInit) (put (or_state a) ts ''Active'') a o2"
      with a show ?thesis by (auto simp: moved_def logs hook_log_Cons [of o1 t ts])
    next
      fix before u after err s
      assume u: "ts = before @ u # after" "r = Inl err" "s \<noteq> ''Active''"
        "moved (hook_log a before ModuleInit) ((put (or_state a) before ''Active'')(u \<mapsto> s)) a o2"
      have "moved (hook_log o1 (t # before) ModuleInit) ((put (or_state o1) (t # before) ''Active'')(u \<mapsto> s)) o1 o2"
        using a u(4) by (simp add: moved_def logs hook_log_Cons [of o1 t before])
      with u show ?thesis by (metis append_Cons)
    qed
  qed
qed

lemma each_run_hook:
  assumes "\<forall>t \<in> set ts. or_state o1 t \<noteq> None"
  shows "\<exists>o2. each (\<lambda>t. run_hook t h) ts o1 = Some (Inr (), o2) \<and> moved (hook_log o1 ts h) (or_state o1) o1 o2"
  using assms
proof (induction ts arbitrary: o1)
  case Nil
  then show ?case by (simp add: moved_refl hook_log_def)
next
  case (Cons t ts)
  have "or_runtimes o1 t \<noteq> None" using Cons.prems or_state_runtime by fastforce
  then obtain a where a: "run_hook t h o1 = Some (Inr (), a)" "moved (hook_log o1 [t] h) (or_state o1) o1 a"
    using run_hook_moved [of o1 t h] by auto
  have "\<forall>u \<in> set ts. or_state a u \<noteq> None" using a(2) Cons.prems by (simp add: moved_def)
  from Cons.IH [OF this] obtain b where
    "each (\<lambda>t. run_hook t h) ts a = Some (Inr (), b)" "moved (hook_log a ts h) (or_state a) a b" by blast
  with a hook_log_moved [OF a(2), of ts h] show ?case
    by (auto simp: bind_result_def moved_def hook_log_Cons [of o1 t ts])
qed

lemma each_destroy:
  assumes "\<forall>t \<in> set ts. or_state o1 t = Some ''Active''" "distinct ts"
  shows "\<exists>o2. each (destroy R) ts o1 = Some (Inr (), o2) \<and>
    moved (hook_log o1 ts ModuleDestroy) (put (or_state o1) ts ''Destroyed'') o1 o2"
  using assms
proof (induction ts arbitrary: o1)
  case Nil
  then show ?case by (simp add: moved_refl hook_log_def)
next
  case (Cons t ts)
  obtain a where a: "destroy R t o1 = Some (Inr (), a)"
    "moved (hook_log o1 [t] ModuleDestroy) ((or_state o1)(t \<mapsto> ''Destroyed'')) o1 a"
    using destroy_down [of o1 t R] Cons.prems(1) by auto
  have "\<forall>u \<in> set ts. or_state a u = Some ''Active''" using a(2) Cons.prems by (auto simp: moved_def)
  from Cons.IH [OF this] Cons.prems(2) obtain b where
    "each (destroy R) ts a = Some (Inr (), b)" "moved (hook_log a ts ModuleDestroy) (put (or_state a) ts ''Destroyed'') a b" by auto
  with a hook_log_moved [OF a(2), of ts ModuleDestroy] show ?case
    by (auto simp: bind_result_def moved_def hook_log_Cons [of o1 t ts])
qed

section \<open>Bootstrap and shutdown\<close>

definition orchestrator_fresh :: "Runner \<Rightarrow> 'v ModuleOrchestrator \<Rightarrow> bool" where
  "orchestrator_fresh R o1 \<longleftrightarrow>
     iteration_of (run_iter R (occupied (or_registry o1))) (or_registry o1) \<and> entries_keyed (or_registry o1) \<and>
     (\<forall>t \<in> dom (or_registry o1). or_state o1 t = Some ''Unloaded'')"

lemma entries_keyed_register:
  "entries_keyed reg \<Longrightarrow> entries_keyed (snd (module_register reg t name metadata))"
  by (auto simp: entries_keyed_def module_register_def)

text \<open>An application that only registered modules is fresh.\<close>

lemma registered_fresh:
  assumes "entries_keyed (or_registry o1)" "\<forall>t \<in> dom (or_registry o1). or_state o1 t = Some ''Unloaded''"
    "register_with_hooks R t metadata configure hooks o1 = (b, o2)"
  shows "entries_keyed (or_registry o2)" "\<forall>t \<in> dom (or_registry o2). or_state o2 t = Some ''Unloaded''"
  using assms entries_keyed_register [OF assms(1), of t "env_type_name (run_env R) t" metadata]
  by (auto simp: register_with_hooks_def Let_def or_state_def runtime_with_container_def runtime_state_def engine_new_def
      module_register_def domIff module_enter split: prod.splits if_splits)

lemma bootstrap_effect:
  assumes "orchestrator_fresh R o1" "bootstrap R o1 = Some (r, o2)"
  shows "or_registry o2 = or_registry o1 \<and> or_hooks o2 = or_hooks o1 \<and>
    (\<forall>ord. r = Inr ord \<longrightarrow>
       distinct ord \<and> set ord = dom (or_registry o1) \<and>
       deps_first (dom (or_registry o1)) (module_deps (or_registry o1)) {} ord \<and>
       or_activation_order o2 = ord \<and> or_state o2 = put (or_state o1) ord ''Active'' \<and>
       or_log o2 = or_log o1 @ hook_log o1 ord ModuleInit @ hook_log o1 ord ApplicationBootstrap) \<and>
    (\<forall>err. r = Inl err \<longrightarrow>
       or_activation_order o2 = or_activation_order o1 \<and>
       (o2 = o1 \<and> (\<exists>e. err = RegistryError e) \<or>
        (\<exists>ord. distinct ord \<and> set ord = dom (or_registry o1) \<and>
           deps_first (dom (or_registry o1)) (module_deps (or_registry o1)) {} ord \<and>
        (\<exists>before t after s. ord = before @ t # after \<and>
           or_state o2 = (put (or_state o1) before ''Active'')(t \<mapsto> s) \<and> s \<noteq> ''Active'' \<and>
           or_log o2 = or_log o1 @ hook_log o1 before ModuleInit))))"
proof -
  let ?ks = "run_iter R (occupied (or_registry o1))"
  have ok: "iteration_of ?ks (or_registry o1)" "entries_keyed (or_registry o1)"
    and fresh: "\<forall>t \<in> dom (or_registry o1). or_state o1 t = Some ''Unloaded''"
    using assms(1) by (simp_all add: orchestrator_fresh_def)
  note order = module_order_spec [OF ok]
  show ?thesis
  proof (cases "\<exists>e. module_resolve_order ?ks (or_registry o1) = Some (Inl e)")
    case True
    with assms(2) show ?thesis by (auto simp: bootstrap_def)
  next
    case False
    with order obtain r' where "module_resolve_order ?ks (or_registry o1) = Some r'" "\<forall>e. r' \<noteq> Inl e" by auto
    with order obtain ord where ord: "module_resolve_order ?ks (or_registry o1) = Some (Inr ord)"
      "distinct ord" "set ord = dom (or_registry o1)" "deps_first (dom (or_registry o1)) (module_deps (or_registry o1)) {} ord"
      by (cases r') auto
    note ups = each_bring_up [where ts = ord, OF _ ord(2)]
    from assms(2) ord(1) have "bind_result (each (bring_up R) ord) (\<lambda>_.
          bind_result (each (\<lambda>t. run_hook t ApplicationBootstrap) ord) (\<lambda>_ o2.
          Some (Inr ord, o2\<lparr>or_activation_order := ord\<rparr>))) o1 = Some (r, o2)" by (simp add: bootstrap_def)
    from bind_result_cases [OF this] show ?thesis
    proof (elim disjE exE conjE)
      fix err
      assume "each (bring_up R) ord o1 = Some (Inl err, o2)" "r = Inl err"
      from ups [OF this(1)] fresh ord(3) obtain before t after s where
        stop: "ord = before @ t # after" "s \<noteq> ''Active''"
        "moved (hook_log o1 before ModuleInit) ((put (or_state o1) before ''Active'')(t \<mapsto> s)) o1 o2" by auto
      then have "\<exists>before t after s. ord = before @ t # after \<and>
           or_state o2 = (put (or_state o1) before ''Active'')(t \<mapsto> s) \<and> s \<noteq> ''Active'' \<and>
           or_log o2 = or_log o1 @ hook_log o1 before ModuleInit"
        unfolding moved_def by blast
      with ord(2-4) stop(3) \<open>r = Inl err\<close> show ?thesis unfolding moved_def by blast
    next
      fix x a
      assume a: "each (bring_up R) ord o1 = Some (Inr x, a)"
        "bind_result (each (\<lambda>t. run_hook t ApplicationBootstrap) ord) (\<lambda>_ o2.
          Some (Inr ord, o2\<lparr>or_activation_order := ord\<rparr>)) a = Some (r, o2)"
      from ups [OF a(1)] fresh ord have up: "moved (hook_log o1 ord ModuleInit) (put (or_state o1) ord ''Active'') o1 a" by auto
      then have "\<forall>t \<in> set ord. or_state a t \<noteq> None" by (simp add: moved_def put_def)
      from each_run_hook [OF this] obtain b where b: "each (\<lambda>t. run_hook t ApplicationBootstrap) ord a = Some (Inr (), b)"
        "moved (hook_log a ord ApplicationBootstrap) (or_state a) a b" by blast
      with a(2) have res: "r = Inr ord" "o2 = b\<lparr>or_activation_order := ord\<rparr>" by (auto simp: bind_result_def)
      have "or_hooks o2 = or_hooks b" "or_state o2 = or_state b" by (simp_all add: res or_hooks_def or_state_def fun_eq_iff)
      with up b(2) hook_log_moved [OF up, of ord ApplicationBootstrap] ord res show ?thesis by (simp add: moved_def)
    qed
  qed
qed

section \<open>An application to try the properties on\<close>

text \<open>\<open>AppModule\<close> (1) imports \<open>UserModule\<close> (2), which exports its singleton 20; \<open>ConfigModule\<close> (3) is global
  and exports its singleton 30.\<close>

definition demo_app :: "nat ModuleOrchestrator" where
  "demo_app =
     (let add = (\<lambda>t metadata configure hooks o1. snd (register_with_hooks demo_runner t metadata configure hooks o1))
      in add 3 (with_global (with_exports (with_providers module_metadata_new [30]) [30]) True) (provide 30 7) {ModuleInit}
        (add 2 (with_exports (with_providers module_metadata_new [20]) [20]) (provide 20 8) {ModuleInit, ModuleDestroy}
        (add 1 (with_imports module_metadata_new [2]) (\<lambda>c. Some (Inr (), c)) {ModuleInit, ApplicationBootstrap, ApplicationShutdown}
        orchestrator_new)))"

lemma demo_app_registry: "dom (or_registry demo_app) = {1, 2, 3}"
  by (auto simp: demo_app_def register_with_hooks_def module_register_def Let_def orchestrator_new_def)

lemma demo_app_fresh: "orchestrator_fresh demo_runner demo_app"
proof -
  have "entries_keyed (or_registry demo_app)"
    by (simp add: demo_app_def register_with_hooks_def module_register_def Let_def orchestrator_new_def entries_keyed_def)
  moreover have "\<forall>t \<in> {1, 2, 3}. or_state demo_app t = Some ''Unloaded''" by code_simp
  moreover have "run_iter demo_runner (occupied (or_registry demo_app)) = [1, 2, 3]" by code_simp
  ultimately show ?thesis by (simp add: orchestrator_fresh_def demo_app_registry iteration_of_def)
qed

lemma demo_app_bootstrap:
  "map_option (\<lambda>(r, o2). (r, map (or_state o2) [1, 2, 3], or_log o2,
        map (\<lambda>x. map_option (\<lambda>mr. has x (rt_container (mr_runtime mr))) (or_runtimes o2 1)) [20, 30]))
      (bootstrap demo_runner demo_app) =
     Some (Inr [2, 1, 3], [Some ''Active'', Some ''Active'', Some ''Active''],
       [(2, ModuleInit), (1, ModuleInit), (3, ModuleInit), (1, ApplicationBootstrap)], [Some True, Some False])"
  by code_simp

text \<open>C15: bootstrap of freshly registered modules. When it returns an order, that order lists every module once and
  after its imports, all modules are active, and the hooks awaited are first the module-init hooks in that order,
  then the application-bootstrap hooks in that order. When it fails, the order is not recorded and no
  application-bootstrap hook has run; exactly the modules before the failing one are active and have had their init
  hook, and those after it are untouched.\<close>

theorem bootstrap_outcome:
  assumes "orchestrator_fresh R o1" "bootstrap R o1 = Some (r, o2)"
  shows "or_registry o2 = or_registry o1 \<and> or_hooks o2 = or_hooks o1 \<and>
    (\<forall>ord. r = Inr ord \<longrightarrow>
       distinct ord \<and> set ord = dom (or_registry o1) \<and>
       deps_first (dom (or_registry o1)) (module_deps (or_registry o1)) {} ord \<and>
       or_activation_order o2 = ord \<and> or_state o2 = put (or_state o1) ord ''Active'' \<and>
       or_log o2 = or_log o1 @ hook_log o1 ord ModuleInit @ hook_log o1 ord ApplicationBootstrap) \<and>
    (\<forall>err. r = Inl err \<longrightarrow>
       or_activation_order o2 = or_activation_order o1 \<and>
       (o2 = o1 \<and> (\<exists>e. err = RegistryError e) \<or>
        (\<exists>ord. distinct ord \<and> set ord = dom (or_registry o1) \<and>
           deps_first (dom (or_registry o1)) (module_deps (or_registry o1)) {} ord \<and>
        (\<exists>before t after s. ord = before @ t # after \<and>
           or_state o2 = (put (or_state o1) before ''Active'')(t \<mapsto> s) \<and> s \<noteq> ''Active'' \<and>
           or_log o2 = or_log o1 @ hook_log o1 before ModuleInit))))"
  by (rule bootstrap_effect [OF assms])

theorem bootstrap_outcome_witness:
  "\<exists>o2. bootstrap demo_runner demo_app = Some (Inr [2, 1, 3], o2) \<and>
     or_log o2 = hook_log demo_app [2, 1, 3] ModuleInit @ hook_log demo_app [2, 1, 3] ApplicationBootstrap"
proof -
  obtain o2 where o2: "bootstrap demo_runner demo_app = Some (Inr [2, 1, 3], o2)"
    using demo_app_bootstrap by auto
  have "or_log demo_app = []" by code_simp
  with bootstrap_outcome [OF demo_app_fresh o2] o2 show ?thesis by simp
qed

text \<open>C16: shutdown after a successful bootstrap succeeds: it awaits the application-shutdown hooks and then the
  module-destroy hooks, both in reverse bootstrap order, so that a module is destroyed before the modules it
  imports, and leaves every module destroyed. After a failed first bootstrap it returns success and does nothing: the
  modules that had come up stay up.\<close>

theorem shutdown_undoes_bootstrap:
  assumes "orchestrator_fresh R o1" "bootstrap R o1 = Some (r, o2)" "or_activation_order o1 = []"
  shows "case r of
      Inr ord \<Rightarrow> \<exists>o3. shutdown R o2 = Some (Inr (), o3) \<and>
        or_log o3 = or_log o2 @ hook_log o1 (rev ord) ApplicationShutdown @ hook_log o1 (rev ord) ModuleDestroy \<and>
        (\<forall>t \<in> dom (or_registry o1). or_state o3 t = Some ''Destroyed'')
    | Inl err \<Rightarrow> shutdown R o2 = Some (Inr (), o2)"
proof (cases r)
  case (Inl err)
  with bootstrap_effect [OF assms(1,2)] assms(3) show ?thesis by (simp add: shutdown_def bind_result_def)
next
  case (Inr ord)
  note up = bootstrap_effect [OF assms(1,2), THEN conjunct2, THEN conjunct2, THEN conjunct1, rule_format, OF Inr]
  have hooks: "hook_log o2 = hook_log o1"
    using bootstrap_effect [OF assms(1,2)] by (simp add: hook_log_def fun_eq_iff)
  have "\<forall>t \<in> set (rev ord). or_state o2 t \<noteq> None" using up by (simp add: put_def)
  from each_run_hook [OF this] obtain a where
    a: "each (\<lambda>t. run_hook t ApplicationShutdown) (rev ord) o2 = Some (Inr (), a)"
    "moved (hook_log o2 (rev ord) ApplicationShutdown) (or_state o2) o2 a" by blast
  have "\<forall>t \<in> set (rev ord). or_state a t = Some ''Active''" "distinct (rev ord)"
    using a(2) up by (simp_all add: moved_def put_def)
  from each_destroy [OF this, of R] obtain b where
    b: "each (destroy R) (rev ord) a = Some (Inr (), b)"
    "moved (hook_log a (rev ord) ModuleDestroy) (put (or_state a) (rev ord) ''Destroyed'') a b" by blast
  have "shutdown R o2 = Some (Inr (), b)" using a(1) b(1) up by (simp add: shutdown_def bind_result_def)
  moreover have "or_log b = or_log o2 @ hook_log o1 (rev ord) ApplicationShutdown @ hook_log o1 (rev ord) ModuleDestroy"
    using a(2) b(2) hook_log_moved [OF a(2), of "rev ord" ModuleDestroy] by (simp add: moved_def hooks)
  moreover have "\<forall>t \<in> dom (or_registry o1). or_state b t = Some ''Destroyed''"
    using b(2) up by (simp add: moved_def put_def)
  ultimately show ?thesis using Inr by auto
qed

theorem shutdown_undoes_bootstrap_witness:
  "\<exists>o2 o3. bootstrap demo_runner demo_app = Some (Inr [2, 1, 3], o2) \<and> shutdown demo_runner o2 = Some (Inr (), o3) \<and>
     or_state o3 1 = Some ''Destroyed''"
proof -
  obtain o2 where o2: "bootstrap demo_runner demo_app = Some (Inr [2, 1, 3], o2)"
    using demo_app_bootstrap by auto
  have "or_activation_order demo_app = []" by code_simp
  with shutdown_undoes_bootstrap [OF demo_app_fresh o2] o2 show ?thesis by (auto simp: demo_app_registry)
qed

text \<open>What bootstrap seeds. \<open>AppModule\<close> sees the exports of the global \<open>ConfigModule\<close>: the registry calls type 30
  visible to it. After a successful bootstrap its container resolves type 20, which it imports, but has no
  provider of type 30: modules are brought up in import order, \<open>ConfigModule\<close> comes after \<open>AppModule\<close>, and the
  seeding of \<open>AppModule\<close> found nothing to share in a module that had not been loaded.\<close>

theorem global_export_not_seeded:
  "is_visible_to (run_iter demo_runner (occupied (or_registry demo_app))) (or_registry demo_app) 1 30 = Some (Inr True) \<and>
   (\<exists>o2 mr. bootstrap demo_runner demo_app = Some (Inr [2, 1, 3], o2) \<and> or_runtimes o2 1 = Some mr \<and>
      has 20 (rt_container (mr_runtime mr)) \<and> \<not> has 30 (rt_container (mr_runtime mr)))"
proof -
  have "is_visible_to (run_iter demo_runner (occupied (or_registry demo_app))) (or_registry demo_app) 1 30 = Some (Inr True)"
    by code_simp
  then show ?thesis using demo_app_bootstrap by auto
qed

end
