(* ===== verification/Http_Request.thy ===== *)
theory Http_Request
  imports Route_Pattern "HOL-Library.Word"
begin

text \<open>
  Requests, bodies and extractors (\<open>nivasa-http/src/request.rs\<close> and \<open>body.rs\<close>).

  What the sources use of the crates \<open>http\<close>, \<open>url\<close> and \<open>serde_json\<close> are the functions of a record \<open>HttpOps\<close>:
  canonical header names and admissible header values, form decoding, JSON and UTF-8 conversions with their
  error texts, and the numbers that are status codes. A \<open>HeaderMap\<close> maps a canonical name to its values: \<open>get\<close> reads the first, \<open>insert\<close>
  replaces all. A type to deserialise is given by its two deserialisers, from text and from a JSON value.
\<close>

type_synonym bytes = "8 word list"

record 'j HttpOps =
  header_name :: "string \<Rightarrow> string option"
  header_value :: "string \<Rightarrow> string option"
  header_to_str :: "string \<Rightarrow> string + string"
  form_parse :: "string \<Rightarrow> (string \<times> string) list"
  utf8_bytes :: "string \<Rightarrow> bytes"
  utf8_text :: "bytes \<Rightarrow> string + string"
  json_from_str :: "string \<Rightarrow> string + 'j"
  json_from_slice :: "bytes \<Rightarrow> string + 'j"
  json_to_string :: "'j \<Rightarrow> string + string"
  json_to_vec :: "'j \<Rightarrow> string + bytes"
  json_string :: "string \<Rightarrow> 'j"
  json_object :: "(string \<rightharpoonup> 'j) \<Rightarrow> 'j"
  json_number :: "nat \<Rightarrow> 'j"
  json_array :: "'j list \<Rightarrow> 'j"
  json_null :: 'j
  json_is_null :: "'j \<Rightarrow> bool"
  valid_status :: "16 word \<Rightarrow> bool"

record ('j, 't) Deserialize =
  de_from_str :: "string \<Rightarrow> string + 't"
  de_from_value :: "'j \<Rightarrow> string + 't"

section \<open>Bodies\<close>

datatype 'j Body = Empty | Text string | Html string | Json 'j | Bytes bytes

definition content_type :: "'j Body \<Rightarrow> string option" where
  "content_type b =
     (case b of
        Empty \<Rightarrow> None
      | Text _ \<Rightarrow> Some ''text/plain; charset=utf-8''
      | Html _ \<Rightarrow> Some ''text/html; charset=utf-8''
      | Json _ \<Rightarrow> Some ''application/json''
      | Bytes _ \<Rightarrow> Some ''application/octet-stream'')"

definition body_is_empty :: "'j Body \<Rightarrow> bool" where
  "body_is_empty b = (case b of Empty \<Rightarrow> True | _ \<Rightarrow> False)"

definition as_bytes :: "'j HttpOps \<Rightarrow> 'j Body \<Rightarrow> bytes" where
  "as_bytes H b =
     (case b of
        Empty \<Rightarrow> []
      | Text text \<Rightarrow> utf8_bytes H text
      | Html html \<Rightarrow> utf8_bytes H html
      | Json json \<Rightarrow> (case json_to_vec H json of Inr v \<Rightarrow> v | Inl _ \<Rightarrow> [])
      | Bytes v \<Rightarrow> v)"

section \<open>Requests\<close>

record 'j NivasaRequest =
  rq_method :: string
  rq_path :: string
  rq_query :: "string option"
  rq_headers :: "string \<rightharpoonup> string list"
  rq_body :: "'j Body"
  rq_path_params :: "RoutePathCaptures option"

datatype RequestExtractError =
    MissingBody
  | MissingPathParameters
  | MissingPathParameter string
  | MissingQueryParameter string
  | MissingHeader string
  | InvalidBody string
  | InvalidPathParameter string string
  | InvalidQueryParameter string string
  | InvalidHeader string string
  | InvalidQuery string
  | MissingExtension string

definition extract_error_text :: "RequestExtractError \<Rightarrow> string" where
  "extract_error_text e =
     (case e of
        MissingBody \<Rightarrow> ''request body is empty''
      | MissingPathParameters \<Rightarrow> ''request has no captured path parameters''
      | MissingPathParameter name \<Rightarrow> ''request is missing path parameter `'' @ name @ ''`''
      | MissingQueryParameter name \<Rightarrow> ''request is missing query parameter `'' @ name @ ''`''
      | MissingHeader name \<Rightarrow> ''request is missing header `'' @ name @ ''`''
      | InvalidBody err \<Rightarrow> ''invalid request body: '' @ err
      | InvalidPathParameter name error \<Rightarrow> ''invalid path parameter `'' @ name @ ''`: '' @ error
      | InvalidQueryParameter name error \<Rightarrow> ''invalid query parameter `'' @ name @ ''`: '' @ error
      | InvalidHeader name error \<Rightarrow> ''invalid header `'' @ name @ ''`: '' @ error
      | InvalidQuery err \<Rightarrow> ''invalid query string: '' @ err
      | MissingExtension type_name \<Rightarrow> ''request is missing extension `'' @ type_name @ ''`'')"

definition header :: "'j HttpOps \<Rightarrow> 'j NivasaRequest \<Rightarrow> string \<Rightarrow> string option" where
  "header H rq name =
     Option.bind (header_name H name) (\<lambda>n. Option.bind (rq_headers rq n) (\<lambda>vs. case vs of [] \<Rightarrow> None | v # _ \<Rightarrow> Some v))"

definition set_header :: "'j HttpOps \<Rightarrow> 'j NivasaRequest \<Rightarrow> string \<Rightarrow> string \<Rightarrow> 'j NivasaRequest" where
  "set_header H rq name val =
     (case (header_name H name, header_value H val) of
        (Some n, Some v) \<Rightarrow> rq\<lparr>rq_headers := (rq_headers rq)(n \<mapsto> [v])\<rparr>
      | _ \<Rightarrow> rq)"

definition deserialize_path_value :: "'j HttpOps \<Rightarrow> ('j, 't) Deserialize \<Rightarrow> string \<Rightarrow> string + 't" where
  "deserialize_path_value H D raw =
     (case de_from_str D raw of Inr v \<Rightarrow> Inr v | Inl _ \<Rightarrow> de_from_value D (json_string H raw))"

definition header_typed ::
  "'j HttpOps \<Rightarrow> ('j, 't) Deserialize \<Rightarrow> 'j NivasaRequest \<Rightarrow> string \<Rightarrow> RequestExtractError + 't" where
  "header_typed H D rq name =
     (case header H rq name of
        None \<Rightarrow> Inl (MissingHeader name)
      | Some raw0 \<Rightarrow>
          (case header_to_str H raw0 of
             Inl error \<Rightarrow> Inl (InvalidHeader name error)
           | Inr raw \<Rightarrow> map_sum (InvalidHeader name) id (deserialize_path_value H D raw)))"

definition query_pairs :: "'j HttpOps \<Rightarrow> 'j NivasaRequest \<Rightarrow> (string \<times> string) list" where
  "query_pairs H rq = (case rq_query rq of None \<Rightarrow> [] | Some query \<Rightarrow> form_parse H query)"

definition query_param :: "'j HttpOps \<Rightarrow> 'j NivasaRequest \<Rightarrow> string \<Rightarrow> string option" where
  "query_param H rq name =
     (case rev (filter (\<lambda>(key, val). key = name) (query_pairs H rq)) of [] \<Rightarrow> None | (key, val) # _ \<Rightarrow> Some val)"

definition query_typed ::
  "'j HttpOps \<Rightarrow> ('j, 't) Deserialize \<Rightarrow> 'j NivasaRequest \<Rightarrow> string \<Rightarrow> RequestExtractError + 't" where
  "query_typed H D rq name =
     (case query_param H rq name of
        None \<Rightarrow> Inl (MissingQueryParameter name)
      | Some raw \<Rightarrow> map_sum (InvalidQueryParameter name) id (deserialize_path_value H D raw))"

definition query_values :: "'j HttpOps \<Rightarrow> 'j NivasaRequest \<Rightarrow> string \<rightharpoonup> 'j" where
  "query_values H rq =
     fold (\<lambda>(key, raw) acc. acc(key \<mapsto> (case json_from_str H raw of Inr v \<Rightarrow> v | Inl _ \<Rightarrow> json_string H raw)))
       (query_pairs H rq) Map.empty"

definition set_path_params :: "'j NivasaRequest \<Rightarrow> RoutePathCaptures \<Rightarrow> 'j NivasaRequest" where
  "set_path_params rq path_params = rq\<lparr>rq_path_params := Some path_params\<rparr>"

definition clear_path_params :: "'j NivasaRequest \<Rightarrow> 'j NivasaRequest" where
  "clear_path_params rq = rq\<lparr>rq_path_params := None\<rparr>"

definition path_param :: "'j NivasaRequest \<Rightarrow> string \<Rightarrow> string option" where
  "path_param rq name = Option.bind (rq_path_params rq) (\<lambda>caps. captures_get caps name)"

definition path_param_typed ::
  "'j HttpOps \<Rightarrow> ('j, 't) Deserialize \<Rightarrow> 'j NivasaRequest \<Rightarrow> string \<Rightarrow> RequestExtractError + 't" where
  "path_param_typed H D rq name =
     (case path_param rq name of
        None \<Rightarrow> Inl (MissingPathParameter name)
      | Some raw \<Rightarrow> map_sum (InvalidPathParameter name) id (deserialize_path_value H D raw))"

section \<open>Extractors\<close>

definition captures_from_request :: "'j NivasaRequest \<Rightarrow> RequestExtractError + RoutePathCaptures" where
  "captures_from_request rq = (case rq_path_params rq of Some caps \<Rightarrow> Inr caps | None \<Rightarrow> Inl MissingPathParameters)"

definition string_from_request :: "'j HttpOps \<Rightarrow> 'j NivasaRequest \<Rightarrow> RequestExtractError + string" where
  "string_from_request H rq =
     (case rq_body rq of
        Empty \<Rightarrow> Inr []
      | Text text \<Rightarrow> Inr text
      | Html text \<Rightarrow> Inr text
      | Json json \<Rightarrow> map_sum InvalidBody id (json_to_string H json)
      | Bytes v \<Rightarrow> map_sum InvalidBody id (utf8_text H v))"

definition value_from_request :: "'j HttpOps \<Rightarrow> 'j NivasaRequest \<Rightarrow> RequestExtractError + 'j" where
  "value_from_request H rq =
     (case rq_body rq of
        Empty \<Rightarrow> Inl MissingBody
      | Text text \<Rightarrow> map_sum InvalidBody id (json_from_str H text)
      | Html text \<Rightarrow> map_sum InvalidBody id (json_from_str H text)
      | Json json \<Rightarrow> Inr json
      | Bytes v \<Rightarrow> map_sum InvalidBody id (json_from_slice H v))"

definition json_from_request ::
  "'j HttpOps \<Rightarrow> ('j, 't) Deserialize \<Rightarrow> 'j NivasaRequest \<Rightarrow> RequestExtractError + 't" where
  "json_from_request H D rq =
     (case value_from_request H rq of
        Inl err \<Rightarrow> Inl err
      | Inr v \<Rightarrow> map_sum InvalidBody id (de_from_value D v))"

end
