(* ===== verification/Throttler_Storage.thy ===== *)
theory Throttler_Storage
  imports Prelude "HOL-Library.Word"
begin

text \<open>
  The throttle windows of \<open>nivasa-guards/src/lib.rs\<close>: \<open>InMemoryThrottlerStorage\<close>, and what a storage promises the
  throttler guard, as the locale \<open>throttler_storage\<close>.

  An \<open>Instant\<close> is the number of nanoseconds since some origin, a \<open>Duration\<close> a number of nanoseconds;
  \<open>duration_since\<close> is zero for a later instant. A call holds the lock from before it reads the clock until it
  returns, so the calls of a history are in the order of their clock readings.
\<close>

record ThrottleWindowState =
  tw_started_at :: nat
  tw_count :: "32 word"

type_synonym InMemoryThrottlerStorage = "string \<rightharpoonup> ThrottleWindowState"

definition throttler_storage_new :: InMemoryThrottlerStorage where
  "throttler_storage_new = Map.empty"

definition throttler_snapshot :: "InMemoryThrottlerStorage \<Rightarrow> string \<rightharpoonup> 32 word" where
  "throttler_snapshot st key = map_option tw_count (st key)"

definition saturating_inc :: "32 word \<Rightarrow> 32 word" where
  "saturating_inc v = (if v = - 1 then - 1 else v + 1)"

definition allow ::
  "InMemoryThrottlerStorage \<Rightarrow> nat \<Rightarrow> string \<Rightarrow> 32 word \<Rightarrow> nat \<Rightarrow> bool \<times> InMemoryThrottlerStorage" where
  "allow st now key limit ttl =
     (if limit = 0 \<or> ttl = 0 then (False, st)
      else
        let entry0 = (case st key of Some entry \<Rightarrow> entry | None \<Rightarrow> \<lparr>tw_started_at = now, tw_count = 0\<rparr>);
            entry = (if now - tw_started_at entry0 \<ge> ttl then \<lparr>tw_started_at = now, tw_count = 0\<rparr> else entry0)
        in if tw_count entry \<ge> limit then (False, st(key \<mapsto> entry))
           else (True, st(key \<mapsto> entry\<lparr>tw_count := saturating_inc (tw_count entry)\<rparr>)))"

section \<open>Histories of calls\<close>

record ThrottleCall =
  tc_now :: nat
  tc_key :: string
  tc_limit :: "32 word"
  tc_ttl :: nat

type_synonym 's storage_allow = "'s \<Rightarrow> nat \<Rightarrow> string \<Rightarrow> 32 word \<Rightarrow> nat \<Rightarrow> bool \<times> 's"

fun serve :: "'s storage_allow \<Rightarrow> 's \<Rightarrow> ThrottleCall list \<Rightarrow> (ThrottleCall \<times> bool) list" where
  "serve al st [] = []"
| "serve al st (c # cs) =
     (case al st (tc_now c) (tc_key c) (tc_limit c) (tc_ttl c) of (ok, st1) \<Rightarrow> (c, ok) # serve al st1 cs)"

definition accepted :: "(ThrottleCall \<Rightarrow> bool) \<Rightarrow> (ThrottleCall \<times> bool) list \<Rightarrow> nat" where
  "accepted P served = length (filter (\<lambda>(c, ok). ok \<and> P c) served)"

text \<open>A history in clock order in which every call for \<open>k\<close> has the limit \<open>L\<close> and the window \<open>T\<close>.\<close>

definition throttle_history :: "string \<Rightarrow> 32 word \<Rightarrow> nat \<Rightarrow> ThrottleCall list \<Rightarrow> bool" where
  "throttle_history k L T cs \<longleftrightarrow>
     sorted (map tc_now cs) \<and> (\<forall>c \<in> set cs. tc_key c = k \<longrightarrow> tc_limit c = L \<and> tc_ttl c = T)"

lemma accepted_simps [simp]:
  "accepted P [] = 0"
  "accepted P ((c, ok) # served) = (if ok \<and> P c then Suc (accepted P served) else accepted P served)"
  "accepted P (served @ served') = accepted P served + accepted P served'"
  by (simp_all add: accepted_def)

text \<open>What a storage promises: in a window's length of time it accepts less than twice the limit, and it refuses a
  call only when it accepted as many as the limit within the window before it.\<close>

locale throttler_storage =
  fixes storage_new :: 's and storage_allow :: "'s storage_allow"
  assumes rate: "throttle_history k L T cs \<Longrightarrow>
      accepted (\<lambda>c. tc_key c = k \<and> from \<le> tc_now c \<and> tc_now c < from + T) (serve storage_allow storage_new cs) \<le> 2 * unat L - 1"
    and refused: "throttle_history k L T cs \<Longrightarrow> L \<noteq> 0 \<Longrightarrow> T \<noteq> 0 \<Longrightarrow>
      serve storage_allow storage_new cs = before @ (c, False) # after \<Longrightarrow> tc_key c = k \<Longrightarrow>
      unat L \<le> accepted (\<lambda>b. tc_key b = k \<and> tc_now c < tc_now b + T) before"
begin

lemma first_accepted:
  assumes "throttle_history k L T (cs @ [c])" "L \<noteq> 0" "T \<noteq> 0" "tc_key c = k" "\<forall>b \<in> set cs. tc_key b \<noteq> k"
    "serve storage_allow storage_new (cs @ [c]) = served @ [(c, ok)]" "map fst served = cs"
  shows ok
proof (rule ccontr)
  assume "\<not> ok"
  with assms(6) have "serve storage_allow storage_new (cs @ [c]) = served @ (c, False) # []" by simp
  from refused [OF assms(1,2,3) this assms(4)] have "0 < accepted (\<lambda>b. tc_key b = k \<and> tc_now c < tc_now b + T) served"
    using assms(2) by (metis gr0I le_zero_eq unat_eq_zero)
  then have "filter (\<lambda>(b, ok). ok \<and> tc_key b = k \<and> tc_now c < tc_now b + T) served \<noteq> []"
    by (simp add: accepted_def)
  then obtain b ok' where "(b, ok') \<in> set served" "tc_key b = k" by (auto simp: filter_empty_conv)
  moreover from this(1) have "b \<in> set cs" using assms(7) by force
  ultimately show False using assms(5) by blast
qed

end

section \<open>The in-memory storage keeps the promise\<close>

lemma unat_saturating_inc: "v < w \<Longrightarrow> unat (saturating_inc v) = Suc (unat v)"
proof -
  assume "v < w"
  then have "v \<noteq> - 1" by (metis not_less word_n1_ge)
  then have "1 + v \<noteq> 0" by (metis add.commute eq_neg_iff_add_eq_0)
  with \<open>v \<noteq> - 1\<close> show ?thesis by (simp add: saturating_inc_def unatSuc add.commute)
qed

lemma allow_cases:
  assumes "allow st now key limit ttl = (ok, st')"
  shows "(limit = 0 \<or> ttl = 0) \<and> \<not> ok \<and> st' = st \<or>
    (limit \<noteq> 0 \<and> ttl \<noteq> 0 \<and> (st key = None \<or> (\<exists>w. st key = Some w \<and> tw_started_at w + ttl \<le> now)) \<and>
       ok \<and> st' = st(key \<mapsto> \<lparr>tw_started_at = now, tw_count = 1\<rparr>)) \<or>
    (\<exists>w. limit \<noteq> 0 \<and> ttl \<noteq> 0 \<and> st key = Some w \<and> now < tw_started_at w + ttl \<and> tw_count w < limit \<and> ok \<and>
       st' = st(key \<mapsto> w\<lparr>tw_count := saturating_inc (tw_count w)\<rparr>)) \<or>
    (\<exists>w. limit \<noteq> 0 \<and> ttl \<noteq> 0 \<and> st key = Some w \<and> now < tw_started_at w + ttl \<and> limit \<le> tw_count w \<and> \<not> ok \<and> st' = st)"
proof -
  have "saturating_inc 0 = 1" by (simp add: saturating_inc_def)
  moreover have "limit \<noteq> 0 \<Longrightarrow> \<not> limit \<le> 0" by simp
  ultimately show ?thesis
    using assms unfolding allow_def Let_def
    by (cases "st key") (auto simp: not_le fun_upd_idem split: if_splits)
qed

text \<open>How many calls at times in \<open>{from ..< from + T}\<close> can still be accepted: the window that is open, and at
  most one more that starts in the interval after it, or two when it is over before the interval.\<close>

definition window_budget :: "nat \<Rightarrow> nat \<Rightarrow> nat \<Rightarrow> ThrottleWindowState option \<Rightarrow> nat" where
  "window_budget L T from w =
     (case w of
        None \<Rightarrow> 2 * L - 1
      | Some w \<Rightarrow>
          if tw_started_at w \<ge> from + T then 0
          else if tw_started_at w \<ge> from then L - unat (tw_count w)
          else if tw_started_at w + T > from then (L - unat (tw_count w)) + L
          else 2 * L - 1)"

lemma allow_budget:
  assumes "allow st now k L T = (ok, st')" "\<forall>w. st k = Some w \<longrightarrow> tw_started_at w \<le> now"
  shows "(if ok \<and> from \<le> now \<and> now < from + T then Suc (window_budget (unat L) T from (st' k))
      else window_budget (unat L) T from (st' k)) \<le> window_budget (unat L) T from (st k) \<and>
    (\<forall>w. st' k = Some w \<longrightarrow> tw_started_at w \<le> now)"
proof -
  have pos: "0 < unat L" if "L \<noteq> 0"
    using that by (metis neq0_conv unat_eq_zero)
  have lt: "Suc (unat L - Suc (unat (tw_count w))) = unat L - unat (tw_count w)" if "tw_count w < L" for w
    using that by (simp add: word_less_nat_alt Suc_diff_Suc)
  from allow_cases [OF assms(1)] show ?thesis
    by (elim disjE exE conjE; use assms(2) pos in \<open>auto simp: window_budget_def unat_saturating_inc lt\<close>)
qed

lemma allow_other:
  "allow st now key L T = (ok, st') \<Longrightarrow> key \<noteq> k \<Longrightarrow> st' k = st k"
  using allow_cases [of st now key L T ok st'] by auto

lemma serve_rate:
  assumes "throttle_history k L T cs" "\<forall>w. st k = Some w \<longrightarrow> (\<forall>c \<in> set cs. tw_started_at w \<le> tc_now c)"
  shows "accepted (\<lambda>c. tc_key c = k \<and> from \<le> tc_now c \<and> tc_now c < from + T) (serve allow st cs)
    \<le> window_budget (unat L) T from (st k)"
  using assms
proof (induction cs arbitrary: st)
  case (Cons c cs)
  obtain ok st1 where step: "allow st (tc_now c) (tc_key c) (tc_limit c) (tc_ttl c) = (ok, st1)" by fastforce
  have hist: "throttle_history k L T cs" "\<forall>b \<in> set cs. tc_now c \<le> tc_now b"
    using Cons.prems(1) by (auto simp: throttle_history_def)
  show ?case
  proof (cases "tc_key c = k")
    case True
    with Cons.prems(1) step have step': "allow st (tc_now c) k L T = (ok, st1)" by (simp add: throttle_history_def)
    have "\<forall>w. st k = Some w \<longrightarrow> tw_started_at w \<le> tc_now c" using Cons.prems(2) by simp
    note budget = allow_budget [OF step' this, of "from"]
    with hist(2) have "\<forall>w. st1 k = Some w \<longrightarrow> (\<forall>b \<in> set cs. tw_started_at w \<le> tc_now b)" by fastforce
    from Cons.IH [of st1, OF hist(1) this] budget [THEN conjunct1] True step show ?thesis by (auto split: if_splits)
  next
    case False
    with allow_other [OF step False] Cons.prems(2) Cons.IH [OF hist(1), of st1] step show ?thesis by simp
  qed
qed simp

text \<open>What a window's count counts: the calls accepted since it was opened.\<close>

definition counts_since :: "string \<Rightarrow> InMemoryThrottlerStorage \<Rightarrow> (ThrottleCall \<times> bool) list \<Rightarrow> bool" where
  "counts_since k st served \<longleftrightarrow>
     (\<forall>w. st k = Some w \<longrightarrow> unat (tw_count w) \<le> accepted (\<lambda>b. tc_key b = k \<and> tw_started_at w \<le> tc_now b) served)"

lemma accepted_mono: "(\<And>c. P c \<Longrightarrow> Q c) \<Longrightarrow> accepted P served \<le> accepted Q served"
  by (induction served) auto

lemma serve_refused:
  assumes "throttle_history k L T cs" "L \<noteq> 0" "T \<noteq> 0" "serve allow st cs = before @ (c, False) # after" "tc_key c = k"
    "counts_since k st past" "\<forall>w. st k = Some w \<longrightarrow> (\<forall>c \<in> set cs. tw_started_at w \<le> tc_now c)"
  shows "unat L \<le> accepted (\<lambda>b. tc_key b = k \<and> tc_now c < tc_now b + T) (past @ before)"
  using assms
proof (induction cs arbitrary: st before past)
  case (Cons d cs)
  obtain ok st1 where step: "allow st (tc_now d) (tc_key d) (tc_limit d) (tc_ttl d) = (ok, st1)" by fastforce
  note cases = allow_cases [OF step]
  have hist: "throttle_history k L T cs" using Cons.prems(1) by (simp add: throttle_history_def)
  show ?case
  proof (cases before)
    case Nil
    with Cons.prems(4,5) step have "d = c" "\<not> ok" "tc_key d = k" by auto
    moreover from this Cons.prems(1) have "tc_limit d = L" "tc_ttl d = T" by (auto simp: throttle_history_def)
    ultimately obtain w where w: "st k = Some w" "tc_now c < tw_started_at w + T" "L \<le> tw_count w"
      using cases Cons.prems(2,3) by auto
    have "unat L \<le> unat (tw_count w)" using w(3) by (simp add: word_le_nat_alt)
    also have "\<dots> \<le> accepted (\<lambda>b. tc_key b = k \<and> tw_started_at w \<le> tc_now b) past"
      using Cons.prems(6) w(1) by (simp add: counts_since_def)
    also have "\<dots> \<le> accepted (\<lambda>b. tc_key b = k \<and> tc_now c < tc_now b + T) past"
      using w(2) by (intro accepted_mono) auto
    finally show ?thesis using Nil by simp
  next
    case (Cons b before')
    with Cons.prems(4) step have b: "b = (d, ok)" and rest: "serve allow st1 cs = before' @ (c, False) # after" by auto
    have later: "\<forall>c \<in> set cs. tc_now d \<le> tc_now c" using Cons.prems(1) by (simp add: throttle_history_def)
    have "counts_since k st1 (past @ [(d, ok)]) \<and> (\<forall>w. st1 k = Some w \<longrightarrow> (\<forall>c \<in> set cs. tw_started_at w \<le> tc_now c))"
    proof (cases "tc_key d = k")
      case True
      from cases show ?thesis
      proof (elim disjE exE conjE)
        fix w assume w: "st (tc_key d) = Some w" "tw_count w < tc_limit d" "ok"
          "st1 = st(tc_key d \<mapsto> w\<lparr>tw_count := saturating_inc (tw_count w)\<rparr>)"
        with True Cons.prems(7) have "tw_started_at w \<le> tc_now d" by simp
        with w True Cons.prems(6,7) show ?thesis by (auto simp: counts_since_def unat_saturating_inc)
      qed (use True Cons.prems(6,7) later in \<open>auto simp: counts_since_def\<close>)
    next
      case False
      with allow_other [OF step False] Cons.prems(6,7) show ?thesis by (simp add: counts_since_def)
    qed
    then show ?thesis
      using Cons.IH [OF hist Cons.prems(2,3) rest Cons.prems(5), of "past @ [(d, ok)]"] Cons b by simp
  qed
qed simp

interpretation memory_storage: throttler_storage throttler_storage_new allow
proof
  fix k L T cs "from" before c after
  assume hist: "throttle_history k L T cs"
  show "accepted (\<lambda>c. tc_key c = k \<and> from \<le> tc_now c \<and> tc_now c < from + T) (serve allow throttler_storage_new cs) \<le> 2 * unat L - 1"
    using serve_rate [OF hist, of throttler_storage_new "from"] by (simp add: throttler_storage_new_def window_budget_def)
  assume "L \<noteq> 0" "T \<noteq> 0" "serve allow throttler_storage_new cs = before @ (c, False) # after" "tc_key c = k"
  from serve_refused [OF hist this, of "[]"]
  show "unat L \<le> accepted (\<lambda>b. tc_key b = k \<and> tc_now c < tc_now b + T) before"
    by (simp add: throttler_storage_new_def counts_since_def)
qed

text \<open>The throttle. In any history of calls in clock order, with any other keys in between, a key with limit
  \<open>L\<close> and window \<open>T\<close> has at most \<open>2 L - 1\<close> calls accepted in any span of time of length \<open>T\<close>, and a call of it is
  refused only when \<open>L\<close> calls were accepted in the \<open>T\<close> before it. (The windows are fixed, not sliding: the
  witness reaches \<open>2 L - 1\<close>.)\<close>

theorem throttle_window_bounds:
  assumes "throttle_history k L T cs"
  shows "accepted (\<lambda>c. tc_key c = k \<and> from \<le> tc_now c \<and> tc_now c < from + T) (serve allow throttler_storage_new cs)
      \<le> 2 * unat L - 1 \<and>
    (\<forall>before c after. L \<noteq> 0 \<and> T \<noteq> 0 \<and> serve allow throttler_storage_new cs = before @ (c, False) # after \<and> tc_key c = k \<longrightarrow>
       unat L \<le> accepted (\<lambda>b. tc_key b = k \<and> tc_now c < tc_now b + T) before)"
  using memory_storage.rate [OF assms] memory_storage.refused [OF assms] by blast

definition demo_calls :: "ThrottleCall list" where
  "demo_calls = map (\<lambda>(now, key). \<lparr>tc_now = now, tc_key = key, tc_limit = 2, tc_ttl = 10\<rparr>)
     [(0, ''a''), (9, ''a''), (9, ''b''), (9, ''a''), (10, ''a''), (10, ''a''), (12, ''a'')]"

theorem throttle_window_bounds_witness:
  "map snd (serve allow throttler_storage_new demo_calls) = [True, True, True, False, True, True, False] \<and>
   accepted (\<lambda>c. tc_key c = ''a'' \<and> 9 \<le> tc_now c \<and> tc_now c < 9 + 10) (serve allow throttler_storage_new demo_calls) = 3 \<and>
   3 \<le> 2 * unat (2 :: 32 word) - 1"
proof -
  have "throttle_history ''a'' 2 10 demo_calls" by (simp add: throttle_history_def demo_calls_def)
  note bound = throttle_window_bounds [OF this, of 9]
  have "map snd (serve allow throttler_storage_new demo_calls) = [True, True, True, False, True, True, False]"
    by code_simp
  moreover have three: "accepted (\<lambda>c. tc_key c = ''a'' \<and> 9 \<le> tc_now c \<and> tc_now c < 9 + 10)
      (serve allow throttler_storage_new demo_calls) = 3" by code_simp
  ultimately show ?thesis using bound [unfolded three] by blast
qed

end
