(* ===== verification/Guards.thy ===== *)
theory Guards
  imports Http_Common Throttler_Storage
begin

text \<open>
  The guards of \<open>nivasa-guards/src/lib.rs\<close>: the execution context and the authentication, throttler and roles
  guards.

  A \<open>serde_json::Value\<close> is of the parameter type \<open>'j\<close>; the accessors the guards call are the functions of a record
  \<open>JsonOps\<close>. A context value (\<open>Arc<dyn Any>\<close>) is one of the four types the guards downcast to or an opaque value of
  another type. A guard is a function of the context and of the world it may change (a throttler storage).
\<close>

record 'j JsonOps =
  as_str :: "'j \<Rightarrow> string option"
  as_bool :: "'j \<Rightarrow> bool option"
  as_u64 :: "'j \<Rightarrow> 64 word option"
  as_array :: "'j \<Rightarrow> 'j list option"

datatype 'v ContextValue =
    CString string
  | CStr string
  | CStrings "string list"
  | CStrs "string list"
  | COther "'v Opaque"

type_synonym 'v ContextDataMap = "string \<rightharpoonup> 'v ContextValue"

record ('v, 'j) ExecutionContext =
  ec_request :: "'v ContextValue"
  ec_request_context :: "('v, 'j) RequestContext option"
  ec_handler_metadata :: "'v ContextDataMap"
  ec_class_metadata :: "'v ContextDataMap"
  ec_custom_data :: "'v ContextDataMap"

definition execution_context_new :: "'v ContextValue \<Rightarrow> ('v, 'j) ExecutionContext" where
  "execution_context_new request =
     \<lparr>ec_request = request, ec_request_context = None, ec_handler_metadata = Map.empty,
      ec_class_metadata = Map.empty, ec_custom_data = Map.empty\<rparr>"

definition with_request_context :: "('v, 'j) ExecutionContext \<Rightarrow> ('v, 'j) RequestContext \<Rightarrow> ('v, 'j) ExecutionContext" where
  "with_request_context ctx request_context = ctx\<lparr>ec_request_context := Some request_context\<rparr>"

definition value_downcast :: "nat \<Rightarrow> 'v ContextValue \<Rightarrow> 'v option" where
  "value_downcast t v = (case v of COther other \<Rightarrow> downcast t other | _ \<Rightarrow> None)"

definition request_as :: "nat \<Rightarrow> ('v, 'j) ExecutionContext \<Rightarrow> 'v option" where
  "request_as t ctx =
     (case value_downcast t (ec_request ctx) of
        Some r \<Rightarrow> Some r
      | None \<Rightarrow> Option.bind (ec_request_context ctx) (\<lambda>request_context. get_request_data request_context t))"

definition handler_metadata_as :: "nat \<Rightarrow> ('v, 'j) ExecutionContext \<Rightarrow> string \<Rightarrow> 'v option" where
  "handler_metadata_as t ctx key = Option.bind (ec_handler_metadata ctx key) (value_downcast t)"

definition class_metadata_as :: "nat \<Rightarrow> ('v, 'j) ExecutionContext \<Rightarrow> string \<Rightarrow> 'v option" where
  "class_metadata_as t ctx key = Option.bind (ec_class_metadata ctx key) (value_downcast t)"

definition custom_data_as :: "nat \<Rightarrow> ('v, 'j) ExecutionContext \<Rightarrow> string \<Rightarrow> 'v option" where
  "custom_data_as t ctx key = Option.bind (ec_custom_data ctx key) (value_downcast t)"

definition insert_handler_metadata :: "('v, 'j) ExecutionContext \<Rightarrow> string \<Rightarrow> 'v ContextValue \<Rightarrow> ('v, 'j) ExecutionContext" where
  "insert_handler_metadata ctx key val = ctx\<lparr>ec_handler_metadata := (ec_handler_metadata ctx)(key \<mapsto> val)\<rparr>"

definition insert_class_metadata :: "('v, 'j) ExecutionContext \<Rightarrow> string \<Rightarrow> 'v ContextValue \<Rightarrow> ('v, 'j) ExecutionContext" where
  "insert_class_metadata ctx key val = ctx\<lparr>ec_class_metadata := (ec_class_metadata ctx)(key \<mapsto> val)\<rparr>"

definition insert_custom_data :: "('v, 'j) ExecutionContext \<Rightarrow> string \<Rightarrow> 'v ContextValue \<Rightarrow> ('v, 'j) ExecutionContext" where
  "insert_custom_data ctx key val = ctx\<lparr>ec_custom_data := (ec_custom_data ctx)(key \<mapsto> val)\<rparr>"

type_synonym ('v, 'j, 'x, 'w) Guard = "('v, 'j) ExecutionContext \<Rightarrow> 'w \<Rightarrow> ('x + bool) \<times> 'w"

text \<open>What the request context stores under a key, read with one of the JSON accessors.\<close>

definition request_custom :: "('j \<Rightarrow> 'a option) \<Rightarrow> ('v, 'j) ExecutionContext \<Rightarrow> string \<Rightarrow> 'a option" where
  "request_custom as_type ctx key =
     Option.bind (ec_request_context ctx) (\<lambda>request_context. Option.bind (custom_data request_context key) as_type)"

section \<open>Authentication\<close>

definition bearer_token_from_context :: "'j JsonOps \<Rightarrow> ('v, 'j) ExecutionContext \<Rightarrow> string option" where
  "bearer_token_from_context J ctx =
     (case request_custom (as_str J) ctx ''authorization'' of
        Some token \<Rightarrow> Some token
      | None \<Rightarrow>
          (case ec_custom_data ctx ''authorization'' of
             Some (CString token) \<Rightarrow> Some token
           | Some (CStr token) \<Rightarrow> Some token
           | _ \<Rightarrow> None))"

definition looks_like_jwt_bearer :: "string \<Rightarrow> bool" where
  "looks_like_jwt_bearer token0 =
     (case strip_prefix (trim token0) ''Bearer '' of
        None \<Rightarrow> False
      | Some token \<Rightarrow>
          let segments = split_on CHR ''.'' token
          in length segments = 3 \<and> list_all (\<lambda>segment. trim segment \<noteq> []) segments)"

definition auth_guard :: "'j JsonOps \<Rightarrow> ('v, 'j, 'x, 'w) Guard" where
  "auth_guard J ctx w =
     (Inr (case bearer_token_from_context J ctx of Some token \<Rightarrow> looks_like_jwt_bearer token | None \<Rightarrow> False), w)"

section \<open>Throttling\<close>

definition request_field :: "'j JsonOps \<Rightarrow> ('v, 'j) ExecutionContext \<Rightarrow> string \<Rightarrow> string \<Rightarrow> string" where
  "request_field J ctx key fallback = (case request_custom (as_str J) ctx key of Some v \<Rightarrow> v | None \<Rightarrow> fallback)"

definition throttle_key_from_context :: "'j JsonOps \<Rightarrow> ('v, 'j) ExecutionContext \<Rightarrow> string" where
  "throttle_key_from_context J ctx =
     (if ec_request_context ctx = None then ''global''
      else
        let request_method = request_field J ctx ''request_method'' ''UNKNOWN'';
            request_path = request_field J ctx ''request_path'' ''/'';
            module_name = request_field J ctx ''module_name'' [];
            user_id = request_field J ctx ''user_id'' []
        in module_name @ '':'' @ user_id @ '':'' @ request_method @ '':'' @ request_path)"

record ThrottlerGuard =
  tg_limit :: "32 word"
  tg_ttl :: nat

definition has_minimal_valid_configuration :: "ThrottlerGuard \<Rightarrow> bool" where
  "has_minimal_valid_configuration guard \<longleftrightarrow> tg_limit guard > 0 \<and> tg_ttl guard \<noteq> 0"

definition duration_from_secs :: "64 word \<Rightarrow> nat" where
  "duration_from_secs secs = unat secs * 1000000000"

definition allows_request ::
  "'j JsonOps \<Rightarrow> 's storage_allow \<Rightarrow> ThrottlerGuard \<Rightarrow> nat \<Rightarrow> ('v, 'j) ExecutionContext \<Rightarrow> 's \<Rightarrow> bool \<times> 's" where
  "allows_request J storage_allow guard now ctx st =
     (if \<not> has_minimal_valid_configuration guard then (False, st)
      else if request_custom (as_bool J) ctx ''throttle_skip'' = Some True then (True, st)
      else
        let limit = (case request_custom (as_u64 J) ctx ''throttle_limit'' of Some v \<Rightarrow> ucast v | None \<Rightarrow> tg_limit guard);
            ttl = (case request_custom (as_u64 J) ctx ''throttle_ttl_secs'' of
                     Some v \<Rightarrow> duration_from_secs v | None \<Rightarrow> tg_ttl guard)
        in storage_allow st now (throttle_key_from_context J ctx) limit ttl)"

text \<open>The guard reads the clock \<open>now\<close> when it runs.\<close>

definition throttler_guard ::
  "'j JsonOps \<Rightarrow> 's storage_allow \<Rightarrow> ThrottlerGuard \<Rightarrow> nat \<Rightarrow> ('v, 'j, 'x, 's) Guard" where
  "throttler_guard J storage_allow guard now ctx st =
     (case allows_request J storage_allow guard now ctx st of (ok, st1) \<Rightarrow> (Inr ok, st1))"

section \<open>Roles\<close>

definition roles_from_context_values :: "'v ContextDataMap \<Rightarrow> string list option" where
  "roles_from_context_values values =
     (case values ''roles'' of
        Some (CStrings roles) \<Rightarrow> Some roles
      | Some (CStrs roles) \<Rightarrow> Some roles
      | _ \<Rightarrow> None)"

definition json_roles :: "'j JsonOps \<Rightarrow> 'j \<Rightarrow> string list option" where
  "json_roles J values = Option.bind (as_array J values) (\<lambda>roles. those (map (as_str J) roles))"

definition required_roles :: "'j JsonOps \<Rightarrow> ('v, 'j) ExecutionContext \<Rightarrow> string list option" where
  "required_roles J ctx =
     (let fallback = (case roles_from_context_values (ec_handler_metadata ctx) of
            Some roles \<Rightarrow> Some roles
          | None \<Rightarrow> roles_from_context_values (ec_class_metadata ctx))
      in case ec_request_context ctx of
           None \<Rightarrow> fallback
         | Some request_context \<Rightarrow>
             (case handler_metadata request_context ''roles'' of
                Some values \<Rightarrow> json_roles J values
              | None \<Rightarrow>
                  (case class_metadata request_context ''roles'' of
                     Some values \<Rightarrow> json_roles J values
                   | None \<Rightarrow> fallback)))"

definition principal_roles :: "'j JsonOps \<Rightarrow> ('v, 'j) ExecutionContext \<Rightarrow> string list option" where
  "principal_roles J ctx =
     (case Option.bind (ec_request_context ctx) (\<lambda>request_context. custom_data request_context ''roles'') of
        Some values \<Rightarrow> json_roles J values
      | None \<Rightarrow> roles_from_context_values (ec_custom_data ctx))"

definition roles_match :: "string list \<Rightarrow> string list \<Rightarrow> bool" where
  "roles_match required have_roles \<longleftrightarrow> list_ex (\<lambda>role. list_ex (\<lambda>candidate. candidate = role) have_roles) required"

definition roles_guard :: "'j JsonOps \<Rightarrow> ('v, 'j, 'x, 'w) Guard" where
  "roles_guard J ctx w =
     (case required_roles J ctx of
        None \<Rightarrow> (Inr True, w)
      | Some required \<Rightarrow>
          (Inr (roles_match required (case principal_roles J ctx of Some roles \<Rightarrow> roles | None \<Rightarrow> [])), w))"

section \<open>What the guards decide\<close>

lemma split_on_three:
  "length (split_on c s) = 3 \<Longrightarrow> \<exists>x y z. split_on c s = [x, y, z] \<and> s = x @ c # y @ c # z"
  using join_split_on [of c s] by (auto simp: length_Suc_conv eval_nat_numeral)

text \<open>The authentication guard never fails, and lets a request through exactly when its authorization value,
  from the JSON request data or else from the context data, is \<open>Bearer\<close> and three dot-separated segments none of
  which is blank. No signature is checked: the guard looks at the shape only.\<close>

theorem auth_guard_decision:
  "auth_guard J ctx w = (Inr (\<exists>token a b c. bearer_token_from_context J ctx = Some token \<and>
       trim token = ''Bearer '' @ a @ ''.'' @ b @ ''.'' @ c \<and>
       list_all (\<lambda>s. CHR ''.'' \<notin> set s \<and> trim s \<noteq> []) [a, b, c]), w)"
proof -
  have "looks_like_jwt_bearer token \<longleftrightarrow>
      (\<exists>a b c. trim token = ''Bearer '' @ a @ ''.'' @ b @ ''.'' @ c \<and>
         list_all (\<lambda>s. CHR ''.'' \<notin> set s \<and> trim s \<noteq> []) [a, b, c])" (is "_ \<longleftrightarrow> ?shape") for token
  proof
    assume "looks_like_jwt_bearer token"
    then obtain rest where rest: "trim token = ''Bearer '' @ rest" "length (split_on CHR ''.'' rest) = 3"
      "list_all (\<lambda>s. trim s \<noteq> []) (split_on CHR ''.'' rest)"
      by (auto simp: looks_like_jwt_bearer_def strip_prefix_eq_Some Let_def split: option.splits)
    from split_on_three [OF rest(2)] obtain x y z where
      "split_on CHR ''.'' rest = [x, y, z]" "rest = x @ CHR ''.'' # y @ CHR ''.'' # z" by blast
    moreover from this(1) have "\<forall>s \<in> {x, y, z}. CHR ''.'' \<notin> set s"
      using split_on_sep_free [of _ "CHR ''.''" rest] by simp
    ultimately have "trim token = ''Bearer '' @ x @ ''.'' @ y @ ''.'' @ z \<and>
         list_all (\<lambda>s. CHR ''.'' \<notin> set s \<and> trim s \<noteq> []) [x, y, z]" using rest by simp
    then show ?shape by blast
  next
    assume ?shape
    then obtain a b c where t: "trim token = ''Bearer '' @ a @ ''.'' @ b @ ''.'' @ c"
      "list_all (\<lambda>s. CHR ''.'' \<notin> set s \<and> trim s \<noteq> []) [a, b, c]" by auto
    then have "split_on CHR ''.'' (a @ ''.'' @ b @ ''.'' @ c) = [a, b, c]" 
      using split_on_append_sep [of "CHR ''.''"] by (simp add: split_on_no_sep)
    with t show "looks_like_jwt_bearer token" by (simp add: looks_like_jwt_bearer_def strip_prefix_def starts_with_def)
  qed
  then show ?thesis by (auto simp: auth_guard_def split: option.splits)
qed

text \<open>The roles guard. It never fails; it lets a request through exactly when no roles are required or one of
  the required roles is among the roles of the principal. Where the JSON metadata of the handler has a \<open>roles\<close>
  entry that is not an array of strings, nothing is required: everyone is let through, whatever the class or the
  context data require.\<close>

theorem roles_guard_decision:
  "roles_guard J ctx w =
     (Inr (case required_roles J ctx of
        None \<Rightarrow> True
      | Some required \<Rightarrow>
          (\<exists>role roles. role \<in> set required \<and> principal_roles J ctx = Some roles \<and> role \<in> set roles)), w) \<and>
   (\<forall>rc v. ec_request_context ctx = Some rc \<and> handler_metadata rc ''roles'' = Some v \<and> json_roles J v = None \<longrightarrow>
      roles_guard J ctx w = (Inr True, w))"
proof (intro conjI allI impI)
  have "roles_match required (case principal_roles J ctx of Some roles \<Rightarrow> roles | None \<Rightarrow> []) \<longleftrightarrow>
      (\<exists>role roles. role \<in> set required \<and> principal_roles J ctx = Some roles \<and> role \<in> set roles)" for required
    by (cases "principal_roles J ctx") (auto simp: roles_match_def list_ex_iff)
  then show "roles_guard J ctx w =
     (Inr (case required_roles J ctx of
        None \<Rightarrow> True
      | Some required \<Rightarrow>
          (\<exists>role roles. role \<in> set required \<and> principal_roles J ctx = Some roles \<and> role \<in> set roles)), w)"
    unfolding roles_guard_def by (cases "required_roles J ctx") simp_all
next
  fix rc v
  assume "ec_request_context ctx = Some rc \<and> handler_metadata rc ''roles'' = Some v \<and> json_roles J v = None"
  then show "roles_guard J ctx w = (Inr True, w)" by (simp add: roles_guard_def required_roles_def Let_def)
qed

text \<open>JSON values to try the guards on: strings, numbers and arrays.\<close>

datatype DemoJson = JStr string | JNum "64 word" | JArr "DemoJson list"

definition demo_json :: "DemoJson JsonOps" where
  "demo_json = \<lparr>as_str = (\<lambda>v. case v of JStr s \<Rightarrow> Some s | _ \<Rightarrow> None), as_bool = (\<lambda>v. None),
     as_u64 = (\<lambda>v. case v of JNum n \<Rightarrow> Some n | _ \<Rightarrow> None), as_array = (\<lambda>v. case v of JArr vs \<Rightarrow> Some vs | _ \<Rightarrow> None)\<rparr>"

text \<open>A handler that means to require a role, written as a string instead of an array.\<close>

definition demo_request :: "(unit, DemoJson) ExecutionContext" where
  "demo_request = with_request_context (execution_context_new (CStr ''request''))
     (context_new\<lparr>handler_metadata := [''roles'' \<mapsto> JStr ''admin''], class_metadata := [''roles'' \<mapsto> JArr [JStr ''user'']],
        custom_data := [''request_path'' \<mapsto> JStr ''/a'', ''user_id'' \<mapsto> JStr ''u'']\<rparr>)"

theorem roles_guard_decision_witness:
  "roles_guard demo_json demo_request () = (Inr True, ())"
proof -
  have "ec_request_context demo_request = Some (the (ec_request_context demo_request)) \<and>
      handler_metadata (the (ec_request_context demo_request)) ''roles'' = Some (JStr ''admin'') \<and>
      json_roles demo_json (JStr ''admin'') = None"
    by (simp add: demo_request_def with_request_context_def execution_context_new_def json_roles_def demo_json_def)
  then show ?thesis using roles_guard_decision [of demo_json demo_request "()"] by blast
qed

section \<open>The throttler guard over any storage\<close>

lemma allows_request_plain:
  assumes "has_minimal_valid_configuration guard" "request_custom (as_bool J) ctx ''throttle_skip'' \<noteq> Some True"
    "request_custom (as_u64 J) ctx ''throttle_limit'' = None" "request_custom (as_u64 J) ctx ''throttle_ttl_secs'' = None"
  shows "allows_request J al guard now ctx st = al st now (throttle_key_from_context J ctx) (tg_limit guard) (tg_ttl guard)"
  using assms by (simp add: allows_request_def)

fun serve_requests ::
  "'j JsonOps \<Rightarrow> 's storage_allow \<Rightarrow> ThrottlerGuard \<Rightarrow> (nat \<times> ('v, 'j) ExecutionContext) list \<Rightarrow> 's \<Rightarrow>
   ((nat \<times> ('v, 'j) ExecutionContext) \<times> bool) list" where
  "serve_requests J al guard [] st = []"
| "serve_requests J al guard ((now, ctx) # requests) st =
     (case allows_request J al guard now ctx st of (ok, st1) \<Rightarrow> ((now, ctx), ok) # serve_requests J al guard requests st1)"

text \<open>Requests that do not carry throttle settings of their own.\<close>

definition plain_request :: "'j JsonOps \<Rightarrow> ('v, 'j) ExecutionContext \<Rightarrow> bool" where
  "plain_request J ctx \<longleftrightarrow>
     request_custom (as_bool J) ctx ''throttle_skip'' \<noteq> Some True \<and>
     request_custom (as_u64 J) ctx ''throttle_limit'' = None \<and> request_custom (as_u64 J) ctx ''throttle_ttl_secs'' = None"

definition request_call :: "'j JsonOps \<Rightarrow> ThrottlerGuard \<Rightarrow> nat \<times> ('v, 'j) ExecutionContext \<Rightarrow> ThrottleCall" where
  "request_call J guard request =
     \<lparr>tc_now = fst request, tc_key = throttle_key_from_context J (snd request), tc_limit = tg_limit guard, tc_ttl = tg_ttl guard\<rparr>"

lemma serve_requests_calls:
  assumes "has_minimal_valid_configuration guard" "\<forall>(now, ctx) \<in> set requests. plain_request J ctx"
  shows "serve al st (map (request_call J guard) requests) =
     map (\<lambda>(request, ok). (request_call J guard request, ok)) (serve_requests J al guard requests st)"
  using assms
proof (induction J al guard requests st rule: serve_requests.induct)
  case (2 J al guard now ctx requests st)
  have "allows_request J al guard now ctx st = al st now (throttle_key_from_context J ctx) (tg_limit guard) (tg_ttl guard)"
    by (rule allows_request_plain) (use "2.prems" in \<open>simp_all add: plain_request_def\<close>)
  with 2 show ?case by (auto simp: request_call_def split: prod.splits)
qed simp

context throttler_storage
begin

lemma guard_rate:
  fixes requests :: "(nat \<times> ('v, 'j) ExecutionContext) list"
  assumes "has_minimal_valid_configuration guard" "\<forall>(now, ctx) \<in> set requests. plain_request J ctx"
    "sorted (map fst requests)"
  shows "length (filter (\<lambda>((now, ctx), ok). ok \<and> throttle_key_from_context J ctx = k \<and> from \<le> now \<and> now < from + tg_ttl guard)
      (serve_requests J storage_allow guard requests storage_new)) \<le> 2 * unat (tg_limit guard) - 1"
proof -
  have "sorted (map tc_now (map (request_call J guard) requests))"
    using assms(3) by (simp add: request_call_def comp_def)
  then have hist: "throttle_history k (tg_limit guard) (tg_ttl guard) (map (request_call J guard) requests)"
    unfolding throttle_history_def by (auto simp: request_call_def)
  have split: "(\<lambda>((now, ctx), ok). P now ctx ok) = (\<lambda>x. P (fst (fst x)) (snd (fst x)) (snd x))"
    for P :: "nat \<Rightarrow> ('v, 'j) ExecutionContext \<Rightarrow> bool \<Rightarrow> bool"
    by (simp add: fun_eq_iff)
  from rate [OF hist, of "from"] show ?thesis
    unfolding serve_requests_calls [OF assms(1,2)] split
    by (simp add: accepted_def filter_map comp_def case_prod_beta request_call_def)
qed

end

text \<open>C17: what a throttler guard with a limit and a window guarantees over the in-memory storage: of any sequence
  of requests that do not carry settings of their own, it lets through at most \<open>2 * limit - 1\<close> per key in any span
  of time of the window's length.\<close>

theorem throttler_guard_rate:
  assumes "has_minimal_valid_configuration guard" "\<forall>(now, ctx) \<in> set requests. plain_request J ctx"
    "sorted (map fst requests)"
  shows "length (filter (\<lambda>((now, ctx), ok). ok \<and> throttle_key_from_context J ctx = k \<and> from \<le> now \<and> now < from + tg_ttl guard)
      (serve_requests J allow guard requests throttler_storage_new)) \<le> 2 * unat (tg_limit guard) - 1"
  by (rule memory_storage.guard_rate [OF assms])

definition demo_guard :: ThrottlerGuard where
  "demo_guard = \<lparr>tg_limit = 1, tg_ttl = 10\<rparr>"

theorem throttler_guard_rate_witness:
  "map snd (serve_requests demo_json allow demo_guard [(0, demo_request), (3, demo_request), (12, demo_request)]
     throttler_storage_new) = [True, False, True] \<and>
   length (filter (\<lambda>((now, ctx), ok). ok \<and> throttle_key_from_context demo_json ctx = '':u:UNKNOWN:/a'' \<and> 0 \<le> now \<and> now < 0 + tg_ttl demo_guard)
     (serve_requests demo_json allow demo_guard [(0, demo_request), (3, demo_request), (12, demo_request)] throttler_storage_new))
     \<le> 2 * unat (tg_limit demo_guard) - 1"
proof -
  have valid: "has_minimal_valid_configuration demo_guard" by code_simp
  have plain: "\<forall>(now, ctx) \<in> set [(0, demo_request), (3, demo_request), (12, demo_request)]. plain_request demo_json ctx"
    by (simp add: plain_request_def request_custom_def demo_request_def with_request_context_def execution_context_new_def)
  have "sorted (map fst [(0 :: nat, demo_request), (3, demo_request), (12, demo_request)])" by simp
  from throttler_guard_rate [OF valid plain this, of "'':u:UNKNOWN:/a''" 0]
  have "length (filter (\<lambda>((now, ctx), ok). ok \<and> throttle_key_from_context demo_json ctx = '':u:UNKNOWN:/a'' \<and> 0 \<le> now \<and> now < 0 + tg_ttl demo_guard)
     (serve_requests demo_json allow demo_guard [(0, demo_request), (3, demo_request), (12, demo_request)] throttler_storage_new))
     \<le> 2 * unat (tg_limit demo_guard) - 1" .
  moreover have "map snd (serve_requests demo_json allow demo_guard [(0, demo_request), (3, demo_request), (12, demo_request)]
     throttler_storage_new) = [True, False, True]" by code_simp
  ultimately show ?thesis by blast
qed

text \<open>The throttle key tells apart any two requests whose module, user and method contain no colon. It does not
  tell apart a user and path pair from another in general: the witness has two users with one bucket.\<close>

theorem throttle_key_injective:
  assumes "ec_request_context ctx \<noteq> None" "ec_request_context ctx' \<noteq> None"
    "throttle_key_from_context J ctx = throttle_key_from_context J ctx'"
    "\<forall>c \<in> {ctx, ctx'}. CHR '':'' \<notin> set (request_field J c ''module_name'' []) \<and>
       CHR '':'' \<notin> set (request_field J c ''user_id'' []) \<and> CHR '':'' \<notin> set (request_field J c ''request_method'' ''UNKNOWN'')"
  shows "request_field J ctx ''module_name'' [] = request_field J ctx' ''module_name'' [] \<and>
    request_field J ctx ''user_id'' [] = request_field J ctx' ''user_id'' [] \<and>
    request_field J ctx ''request_method'' ''UNKNOWN'' = request_field J ctx' ''request_method'' ''UNKNOWN'' \<and>
    request_field J ctx ''request_path'' ''/'' = request_field J ctx' ''request_path'' ''/''"
proof -
  have split: "x @ CHR '':'' # r = x' @ CHR '':'' # r' \<longleftrightarrow> x = x' \<and> r = r'"
    if "CHR '':'' \<notin> set x" "CHR '':'' \<notin> set x'" for x r x' r' :: string
  proof
    assume eq: "x @ CHR '':'' # r = x' @ CHR '':'' # r'"
    have "x # split_on CHR '':'' r = x' # split_on CHR '':'' r'"
      using arg_cong [OF eq, of "split_on CHR '':''"] that by (simp add: split_on_append_sep)
    with eq show "x = x' \<and> r = r'" by simp
  qed simp
  show ?thesis
    using assms(3,4) by (simp add: throttle_key_from_context_def assms(1,2) split)
qed

text \<open>Two users of module \<open>m\<close> whose requests share one throttle bucket.\<close>

definition user_request :: "string \<Rightarrow> string \<Rightarrow> (unit, DemoJson) ExecutionContext" where
  "user_request user request_path = with_request_context (execution_context_new (CStr ''request''))
     (context_new\<lparr>custom_data := [''module_name'' \<mapsto> JStr ''m'', ''user_id'' \<mapsto> JStr user,
        ''request_method'' \<mapsto> JStr ''GET'', ''request_path'' \<mapsto> JStr request_path]\<rparr>)"

theorem throttle_key_injective_witness:
  "throttle_key_from_context demo_json (user_request ''a'' ''/x'') \<noteq> throttle_key_from_context demo_json (user_request ''b'' ''/x'') \<and>
   throttle_key_from_context demo_json (user_request ''a'' ''/x:GET:/y'') =
     throttle_key_from_context demo_json (user_request ''a:GET:/x'' ''/y'')"
proof -
  have field: "request_field demo_json (user_request user p) ''module_name'' [] = ''m''"
    "request_field demo_json (user_request user p) ''user_id'' [] = user"
    "request_field demo_json (user_request user p) ''request_method'' ''UNKNOWN'' = ''GET''" for user p
    by (simp_all add: request_field_def request_custom_def user_request_def with_request_context_def demo_json_def
        execution_context_new_def)
  have "ec_request_context (user_request ''a'' ''/x'') \<noteq> None" "ec_request_context (user_request ''b'' ''/x'') \<noteq> None"
    by (simp_all add: user_request_def with_request_context_def)
  from throttle_key_injective [OF this, of demo_json]
  have "throttle_key_from_context demo_json (user_request ''a'' ''/x'') \<noteq> throttle_key_from_context demo_json (user_request ''b'' ''/x'')"
    by (auto simp: field)
  moreover have "throttle_key_from_context demo_json (user_request ''a'' ''/x:GET:/y'') =
     throttle_key_from_context demo_json (user_request ''a:GET:/x'' ''/y'')" by code_simp
  ultimately show ?thesis by blast
qed

end
