(* ===== verification/Request_Pipeline.thy ===== *)
theory Request_Pipeline
  imports Http_Request Guards Route_Registry Chart_Properties Chart_Code
begin

text \<open>
  The request pipeline (\<open>nivasa-http/src/pipeline.rs\<close>): a request with its statechart engine, route matching and
  guard evaluation.

  An engine call answers with the new state, an error, or in a debug build a panic; the last two end the method
  that made the call. A guard is a function of its context and of the world \<open>'w\<close> it may change.
\<close>

datatype RequestEvent =
    RequestParsed
  | ErrorParse
  | MiddlewareComplete
  | ErrorMiddleware
  | RouteMatched
  | RouteNotFound
  | RouteMethodNotAllowed
  | GuardsPassed
  | GuardDenied
  | ErrorGuard
  | InterceptorsPreComplete
  | ErrorInterceptor
  | PipesComplete
  | ErrorValidation
  | ErrorPipe
  | HandlerComplete
  | ErrorHandler
  | InterceptorsPostComplete
  | ErrorInterceptorPost
  | FilterHandled
  | ErrorFilterUnhandled
  | ResponseSent
  | ErrorSend

fun request_event_name :: "RequestEvent \<Rightarrow> string" where
  "request_event_name RequestParsed = ''RequestParsed''"
| "request_event_name ErrorParse = ''ErrorParse''"
| "request_event_name MiddlewareComplete = ''MiddlewareComplete''"
| "request_event_name ErrorMiddleware = ''ErrorMiddleware''"
| "request_event_name RouteMatched = ''RouteMatched''"
| "request_event_name RouteNotFound = ''RouteNotFound''"
| "request_event_name RouteMethodNotAllowed = ''RouteMethodNotAllowed''"
| "request_event_name GuardsPassed = ''GuardsPassed''"
| "request_event_name GuardDenied = ''GuardDenied''"
| "request_event_name ErrorGuard = ''ErrorGuard''"
| "request_event_name InterceptorsPreComplete = ''InterceptorsPreComplete''"
| "request_event_name ErrorInterceptor = ''ErrorInterceptor''"
| "request_event_name PipesComplete = ''PipesComplete''"
| "request_event_name ErrorValidation = ''ErrorValidation''"
| "request_event_name ErrorPipe = ''ErrorPipe''"
| "request_event_name HandlerComplete = ''HandlerComplete''"
| "request_event_name ErrorHandler = ''ErrorHandler''"
| "request_event_name InterceptorsPostComplete = ''InterceptorsPostComplete''"
| "request_event_name ErrorInterceptorPost = ''ErrorInterceptorPost''"
| "request_event_name FilterHandled = ''FilterHandled''"
| "request_event_name ErrorFilterUnhandled = ''ErrorFilterUnhandled''"
| "request_event_name ResponseSent = ''ResponseSent''"
| "request_event_name ErrorSend = ''ErrorSend''"

definition for_route_outcome :: "'a RouteDispatchOutcome \<Rightarrow> RequestEvent" where
  "for_route_outcome outcome =
     (case outcome of
        Matched _ \<Rightarrow> RouteMatched
      | MethodNotAllowed _ _ \<Rightarrow> RouteMethodNotAllowed
      | NotFound \<Rightarrow> RouteNotFound)"

datatype 'x GuardExecutionOutcome = Passed | Denied | GuardError 'x

record 'j RequestPipeline =
  pl_engine :: "string StatechartEngine"
  pl_request :: "'j NivasaRequest"

text \<open>The build: whether assertions are on, and the hash of the chart.\<close>

record Build =
  bd_debug :: bool
  bd_hash :: string

type_synonym sent = "(string, string) SendResult"

definition pipeline_new :: "Build \<Rightarrow> 'j NivasaRequest \<Rightarrow> 'j RequestPipeline" where
  "pipeline_new B request = \<lparr>pl_engine = engine_new (request_spec (bd_hash B)) ''Received'', pl_request = request\<rparr>"

definition pipeline_state :: "'j RequestPipeline \<Rightarrow> string" where
  "pipeline_state pl = current_state (pl_engine pl)"

definition pipeline_snapshot :: "Build \<Rightarrow> 'j RequestPipeline \<Rightarrow> StatechartSnapshot" where
  "pipeline_snapshot B pl = snapshot (bd_debug B) (request_spec (bd_hash B)) (pl_engine pl) None"

definition advance :: "Build \<Rightarrow> RequestEvent \<Rightarrow> 'j RequestPipeline \<Rightarrow> sent \<times> 'j RequestPipeline" where
  "advance B event pl =
     (case send_event (bd_debug B) (request_spec (bd_hash B)) (pl_engine pl) (request_event_name event) of
        (eng, sent) \<Rightarrow> (sent, pl\<lparr>pl_engine := eng\<rparr>))"

definition parse_request where "parse_request B = advance B RequestParsed"
definition fail_parse where "fail_parse B = advance B ErrorParse"
definition complete_middleware where "complete_middleware B = advance B MiddlewareComplete"
definition fail_middleware where "fail_middleware B = advance B ErrorMiddleware"
definition pass_guards where "pass_guards B = advance B GuardsPassed"
definition deny_guards where "deny_guards B = advance B GuardDenied"
definition fail_guards where "fail_guards B = advance B ErrorGuard"
definition complete_interceptors_pre where "complete_interceptors_pre B = advance B InterceptorsPreComplete"
definition fail_interceptors_pre where "fail_interceptors_pre B = advance B ErrorInterceptor"
definition complete_pipes where "complete_pipes B = advance B PipesComplete"
definition fail_validation where "fail_validation B = advance B ErrorValidation"
definition fail_pipes where "fail_pipes B = advance B ErrorPipe"
definition complete_handler where "complete_handler B = advance B HandlerComplete"
definition fail_handler where "fail_handler B = advance B ErrorHandler"
definition complete_interceptors_post where "complete_interceptors_post B = advance B InterceptorsPostComplete"
definition fail_interceptors_post where "fail_interceptors_post B = advance B ErrorInterceptorPost"
definition handle_filter where "handle_filter B = advance B FilterHandled"
definition fail_filter_unhandled where "fail_filter_unhandled B = advance B ErrorFilterUnhandled"
definition complete_response where "complete_response B = advance B ResponseSent"
definition fail_send where "fail_send B = advance B ErrorSend"

definition match_route ::
  "Build \<Rightarrow> 'a RouteDispatchRegistry \<Rightarrow> 'j RequestPipeline \<Rightarrow> (sent + 'a RouteDispatchOutcome) \<times> 'j RequestPipeline" where
  "match_route B routes pl =
     (let rq = pl_request pl;
          outcome = dispatch routes (rq_method rq) (rq_path rq);
          rq1 = (case outcome of
                   Matched _ \<Rightarrow>
                     (case resolve_match routes (rq_method rq) (rq_path rq) of
                        Some matched \<Rightarrow> set_path_params rq (rm_captures matched)
                      | None \<Rightarrow> clear_path_params rq)
                 | MethodNotAllowed _ _ \<Rightarrow> clear_path_params rq
                 | NotFound \<Rightarrow> clear_path_params rq)
      in case advance B (for_route_outcome outcome) (pl\<lparr>pl_request := rq1\<rparr>) of
           (Sent s, pl1) \<Rightarrow> (Inr outcome, pl1)
         | (failed, pl1) \<Rightarrow> (Inl failed, pl1))"

fun evaluate_guard_chain ::
  "Build \<Rightarrow> ('v, 'j, 'x, 'w) Guard list \<Rightarrow> ('v, 'j) ExecutionContext \<Rightarrow> 'j RequestPipeline \<Rightarrow> 'w \<Rightarrow>
   (sent + 'x GuardExecutionOutcome) \<times> 'j RequestPipeline \<times> 'w" where
  "evaluate_guard_chain B [] ctx pl w =
     (case pass_guards B pl of
        (Sent s, pl1) \<Rightarrow> (Inr Passed, pl1, w)
      | (failed, pl1) \<Rightarrow> (Inl failed, pl1, w))"
| "evaluate_guard_chain B (guard # rest) ctx pl w =
     (case guard ctx w of
        (Inr True, w1) \<Rightarrow> evaluate_guard_chain B rest ctx pl w1
      | (Inr False, w1) \<Rightarrow>
          (case deny_guards B pl of
             (Sent s, pl1) \<Rightarrow> (Inr Denied, pl1, w1)
           | (failed, pl1) \<Rightarrow> (Inl failed, pl1, w1))
      | (Inl exc, w1) \<Rightarrow>
          (case fail_guards B pl of
             (Sent s, pl1) \<Rightarrow> (Inr (GuardError exc), pl1, w1)
           | (failed, pl1) \<Rightarrow> (Inl failed, pl1, w1)))"

definition evaluate_guard where
  "evaluate_guard B guard = evaluate_guard_chain B [guard]"

section \<open>Runs of a pipeline\<close>

text \<open>What a caller does with a pipeline: calls of the methods that only send an event, route matching, guard
  chains. The log has the events the engine accepted, each with the call and the world it was sent from.\<close>

datatype ('v, 'j, 'x, 'w) PipelineOp =
    Call RequestEvent
  | MatchRoute
  | GuardChain "('v, 'j, 'x, 'w) Guard list" "('v, 'j) ExecutionContext"

fun all_guards_pass :: "('v, 'j, 'x, 'w) Guard list \<Rightarrow> ('v, 'j) ExecutionContext \<Rightarrow> 'w \<Rightarrow> bool" where
  "all_guards_pass [] ctx w \<longleftrightarrow> True"
| "all_guards_pass (guard # rest) ctx w \<longleftrightarrow> (case guard ctx w of (Inr True, w1) \<Rightarrow> all_guards_pass rest ctx w1 | _ \<Rightarrow> False)"

fun guards_event :: "('v, 'j, 'x, 'w) Guard list \<Rightarrow> ('v, 'j) ExecutionContext \<Rightarrow> 'w \<Rightarrow> RequestEvent \<times> 'x GuardExecutionOutcome \<times> 'w" where
  "guards_event [] ctx w = (GuardsPassed, Passed, w)"
| "guards_event (guard # rest) ctx w =
     (case guard ctx w of
        (Inr True, w1) \<Rightarrow> guards_event rest ctx w1
      | (Inr False, w1) \<Rightarrow> (GuardDenied, Denied, w1)
      | (Inl exc, w1) \<Rightarrow> (ErrorGuard, GuardError exc, w1))"

text \<open>The guard chain in terms of its decision: one event, and the outcome when the engine accepts it.\<close>

lemma evaluate_guard_chain_event:
  "evaluate_guard_chain B guards ctx pl w =
     (case guards_event guards ctx w of
        (event, outcome, w1) \<Rightarrow>
          (case advance B event pl of
             (Sent s, pl1) \<Rightarrow> (Inr outcome, pl1, w1)
           | (failed, pl1) \<Rightarrow> (Inl failed, pl1, w1)))"
  by (induction guards ctx w rule: guards_event.induct)
    (auto simp: pass_guards_def deny_guards_def fail_guards_def split: prod.splits sum.splits bool.splits SendResult.splits)

lemma guards_event_passed: "GuardsPassed = fst (guards_event guards ctx w) \<longleftrightarrow> all_guards_pass guards ctx w"
  by (induction guards ctx w rule: guards_event.induct) (auto split: prod.splits sum.splits bool.splits)

lemma guards_event_not_matched [simp]: "RouteMatched \<noteq> fst (guards_event guards ctx w)"
  by (induction guards ctx w rule: guards_event.induct) (auto split: prod.splits sum.splits bool.splits)

type_synonym ('v, 'j, 'x, 'w) pipeline_log = "(RequestEvent \<times> ('v, 'j, 'x, 'w) PipelineOp \<times> 'w) list"

definition logged :: "sent + 'a \<Rightarrow> RequestEvent \<Rightarrow> ('v, 'j, 'x, 'w) PipelineOp \<Rightarrow> 'w \<Rightarrow> ('v, 'j, 'x, 'w) pipeline_log" where
  "logged r event op w = (case r of Inr _ \<Rightarrow> [(event, op, w)] | Inl _ \<Rightarrow> [])"

fun pipeline_op ::
  "Build \<Rightarrow> 'a RouteDispatchRegistry \<Rightarrow> ('v, 'j, 'x, 'w) PipelineOp \<Rightarrow> 'j RequestPipeline \<Rightarrow> 'w \<Rightarrow>
   ('v, 'j, 'x, 'w) pipeline_log \<times> 'j RequestPipeline \<times> 'w" where
  "pipeline_op B routes (Call event) pl w =
     (case advance B event pl of
        (sent, pl1) \<Rightarrow> (if accepts sent then [(event, Call event, w)] else [], pl1, w))"
| "pipeline_op B routes MatchRoute pl w =
     (case match_route B routes pl of
        (r, pl1) \<Rightarrow>
          (logged r (for_route_outcome (dispatch routes (rq_method (pl_request pl)) (rq_path (pl_request pl)))) MatchRoute w, pl1, w))"
| "pipeline_op B routes (GuardChain guards ctx) pl w =
     (case evaluate_guard_chain B guards ctx pl w of
        (r, pl1, w1) \<Rightarrow> (logged r (fst (guards_event guards ctx w)) (GuardChain guards ctx) w, pl1, w1))"

fun pipeline_run ::
  "Build \<Rightarrow> 'a RouteDispatchRegistry \<Rightarrow> ('v, 'j, 'x, 'w) PipelineOp list \<Rightarrow> 'j RequestPipeline \<Rightarrow> 'w \<Rightarrow>
   ('v, 'j, 'x, 'w) pipeline_log \<times> 'j RequestPipeline \<times> 'w" where
  "pipeline_run B routes [] pl w = ([], pl, w)"
| "pipeline_run B routes (op # ops) pl w =
     (case pipeline_op B routes op pl w of
        (l, pl1, w1) \<Rightarrow> (case pipeline_run B routes ops pl1 w1 of (ls, pl2, w2) \<Rightarrow> (l @ ls, pl2, w2)))"

lemma advance_cases:
  "advance B event pl = (sent, pl1) \<Longrightarrow>
   pl_request pl1 = pl_request pl \<and>
   (accepts sent \<and> (\<exists>s. sent = Sent s) \<and> chart_step (request_spec (bd_hash B)) (pipeline_state pl) (request_event_name event) (pipeline_state pl1) \<or>
    \<not> accepts sent \<and> (\<forall>s. sent \<noteq> Sent s) \<and> pipeline_state pl1 = pipeline_state pl)"
  by (auto simp: advance_def pipeline_state_def send_event_def Let_def accepts_def chart_step_iff split: option.splits if_splits)

text \<open>What the request's path parameters are after route matching.\<close>

definition matched_params :: "'a RouteDispatchRegistry \<Rightarrow> 'j NivasaRequest \<Rightarrow> RoutePathCaptures option" where
  "matched_params routes rq =
     (case dispatch routes (rq_method rq) (rq_path rq) of
        Matched _ \<Rightarrow> map_option rm_captures (resolve_match routes (rq_method rq) (rq_path rq))
      | _ \<Rightarrow> None)"

lemma match_route_advance:
  "match_route B routes pl =
     (let outcome = dispatch routes (rq_method (pl_request pl)) (rq_path (pl_request pl)) in
      case advance B (for_route_outcome outcome)
             (pl\<lparr>pl_request := (pl_request pl)\<lparr>rq_path_params := matched_params routes (pl_request pl)\<rparr>\<rparr>) of
        (Sent s, pl1) \<Rightarrow> (Inr outcome, pl1)
      | (failed, pl1) \<Rightarrow> (Inl failed, pl1))"
  unfolding match_route_def Let_def
  by (auto simp: matched_params_def set_path_params_def clear_path_params_def split: RouteDispatchOutcome.splits option.splits)

lemma pipeline_op_step:
  assumes "pipeline_op B routes op pl w = (l, pl1, w1)"
  shows "(l = [] \<and> pipeline_state pl1 = pipeline_state pl \<or>
      (\<exists>event. l = [(event, op, w)] \<and>
         chart_step (request_spec (bd_hash B)) (pipeline_state pl) (request_event_name event) (pipeline_state pl1) \<and>
         (case op of
            Call e \<Rightarrow> event = e
          | MatchRoute \<Rightarrow> event = for_route_outcome (dispatch routes (rq_method (pl_request pl)) (rq_path (pl_request pl)))
          | GuardChain guards ctx \<Rightarrow> event = fst (guards_event guards ctx w)))) \<and>
    rq_method (pl_request pl1) = rq_method (pl_request pl) \<and> rq_path (pl_request pl1) = rq_path (pl_request pl) \<and>
    rq_path_params (pl_request pl1) = (if op = MatchRoute then matched_params routes (pl_request pl) else rq_path_params (pl_request pl))"
proof (cases op)
  case (Call event)
  obtain sent pl2 where a: "advance B event pl = (sent, pl2)" by fastforce
  from advance_cases [OF a] assms Call a show ?thesis by auto
next
  case MatchRoute
  let ?e = "for_route_outcome (dispatch routes (rq_method (pl_request pl)) (rq_path (pl_request pl)))"
  let ?pl = "pl\<lparr>pl_request := (pl_request pl)\<lparr>rq_path_params := matched_params routes (pl_request pl)\<rparr>\<rparr>"
  obtain sent pl2 where a: "advance B ?e ?pl = (sent, pl2)" by fastforce
  have "pipeline_state ?pl = pipeline_state pl" by (simp add: pipeline_state_def)
  with advance_cases [OF a] assms MatchRoute a show ?thesis
    by (cases sent) (auto simp: match_route_advance Let_def logged_def)
next
  case (GuardChain guards ctx)
  obtain event outcome w2 where g: "guards_event guards ctx w = (event, outcome, w2)" by (cases "guards_event guards ctx w") auto
  obtain sent pl2 where a: "advance B event pl = (sent, pl2)" by fastforce
  with advance_cases [OF a] assms GuardChain a g show ?thesis
    by (cases sent) (auto simp: evaluate_guard_chain_event logged_def)
qed

text \<open>What the log of a run says of it.\<close>

definition log_entry_ok ::
  "'a RouteDispatchRegistry \<Rightarrow> 'j NivasaRequest \<Rightarrow> ('v, 'j, 'x, 'w) PipelineOp list \<Rightarrow>
   RequestEvent \<times> ('v, 'j, 'x, 'w) PipelineOp \<times> 'w \<Rightarrow> bool" where
  "log_entry_ok routes rq ops entry \<longleftrightarrow>
     (case entry of (event, op, w) \<Rightarrow> op \<in> set ops \<and>
        (case op of
           Call e \<Rightarrow> event = e
         | MatchRoute \<Rightarrow> event = for_route_outcome (dispatch routes (rq_method rq) (rq_path rq))
         | GuardChain guards ctx \<Rightarrow> event = fst (guards_event guards ctx w)))"

lemma matched_params_cong:
  "rq_method rq' = rq_method rq \<Longrightarrow> rq_path rq' = rq_path rq \<Longrightarrow> matched_params routes rq' = matched_params routes rq"
  by (simp add: matched_params_def split: RouteDispatchOutcome.split)

lemma dispatch_matched_captures:
  assumes "dispatch_built history routes" "trimmed (normalize_path p)" "dispatch routes http_method p = Matched entry"
  shows "\<exists>caps. captures (de_pattern entry) p = Some caps \<and>
    resolve_match routes http_method p = Some \<lparr>rm_entry = entry, rm_captures = caps\<rparr>"
proof -
  have disp: "dispatch_versioned routes http_method p None = Matched entry"
    using assms(3) by (simp add: dispatch_def dispatch_versioned_def select_def)
  have ix: "dispatch_indexed routes" using dispatch_built_entries [OF assms(1)] by simp
  note sel = select_versioned_eligible [OF ix assms(2), of None]
  have "entry \<in> set (entries (select_versioned routes p None))"
    using disp by (auto simp: dispatch_versioned_def selection_dispatch_def selection_resolve_entry_def find_Some_iff
        split: option.splits if_splits)
  then have "captures (de_pattern entry) (normalize_path p) \<noteq> None"
    unfolding sel using eligible_matches unfolding matches_def by blast
  then obtain caps where caps: "captures (de_pattern entry) p = Some caps"
    by (auto simp: captures_normalized [OF assms(2)])
  have "resolve_match_versioned routes http_method p None = Some \<lparr>rm_entry = entry, rm_captures = caps\<rparr>"
    using resolve_match_agrees [OF assms(1,2)] disp caps by simp
  with caps show ?thesis by (simp add: resolve_match_def resolve_match_versioned_def select_def)
qed

lemma pipeline_run_log:
  assumes "pipeline_run B routes ops pl w = (log, pl', w')" "rq_method (pl_request pl) = rq_method rq"
    "rq_path (pl_request pl) = rq_path rq"
  shows "chart_path (request_spec (bd_hash B)) (pipeline_state pl) (map (request_event_name \<circ> fst) log) (pipeline_state pl')"
    "\<forall>entry \<in> set log. log_entry_ok routes rq ops entry"
    "rq_path_params (pl_request pl') =
      (if MatchRoute \<in> set ops then matched_params routes rq else rq_path_params (pl_request pl))"
proof -
  have "chart_path (request_spec (bd_hash B)) (pipeline_state pl) (map (request_event_name \<circ> fst) log) (pipeline_state pl') \<and>
    (\<forall>entry \<in> set log. log_entry_ok routes rq ops entry) \<and>
    rq_path_params (pl_request pl') =
      (if MatchRoute \<in> set ops then matched_params routes rq else rq_path_params (pl_request pl))"
    using assms
  proof (induction ops arbitrary: pl w log)
    case Nil
    then show ?case by (auto intro: chart_path.stop)
  next
    case (Cons op ops)
    obtain l pl1 w1 where op: "pipeline_op B routes op pl w = (l, pl1, w1)" by (cases "pipeline_op B routes op pl w") auto
    obtain ls where ls: "pipeline_run B routes ops pl1 w1 = (ls, pl', w')" "log = l @ ls"
      using Cons.prems(1) op by (auto split: prod.splits)
    note step = pipeline_op_step [OF op]
    have same: "rq_method (pl_request pl1) = rq_method rq" "rq_path (pl_request pl1) = rq_path rq"
      using step Cons.prems(2,3) by simp_all
    note IH = Cons.IH [OF ls(1) same]
    have later: "\<forall>entry \<in> set ls. log_entry_ok routes rq (op # ops) entry"
      using IH by (auto simp: log_entry_ok_def)
    have params: "rq_path_params (pl_request pl') =
        (if MatchRoute \<in> set (op # ops) then matched_params routes rq else rq_path_params (pl_request pl))"
      using IH step matched_params_cong [OF Cons.prems(2,3), of routes] by auto
    from step [THEN conjunct1] show ?case
    proof (elim disjE exE conjE)
      assume "l = []" "pipeline_state pl1 = pipeline_state pl"
      with IH later params ls(2) show ?thesis by simp
    next
      fix event
      assume l: "l = [(event, op, w)]"
        "chart_step (request_spec (bd_hash B)) (pipeline_state pl) (request_event_name event) (pipeline_state pl1)"
        "case op of Call e \<Rightarrow> event = e
          | MatchRoute \<Rightarrow> event = for_route_outcome (dispatch routes (rq_method (pl_request pl)) (rq_path (pl_request pl)))
          | GuardChain guards ctx \<Rightarrow> event = fst (guards_event guards ctx w)"
      have "log_entry_ok routes rq (op # ops) (event, op, w)"
        using l(3) Cons.prems(2,3) by (cases op) (simp_all add: log_entry_ok_def)
      with l(1,2) IH later params ls(2) show ?thesis by (auto intro: chart_path.go)
    qed
  qed
  then show "chart_path (request_spec (bd_hash B)) (pipeline_state pl) (map (request_event_name \<circ> fst) log) (pipeline_state pl')"
    "\<forall>entry \<in> set log. log_entry_ok routes rq ops entry"
    "rq_path_params (pl_request pl') =
      (if MatchRoute \<in> set ops then matched_params routes rq else rq_path_params (pl_request pl))" by simp_all
qed

lemma request_event_name_inj: "request_event_name e = request_event_name e' \<longleftrightarrow> e = e'"
  by (cases e; cases e') simp_all

text \<open>A request reaches its handler only through routing and the guards. Whatever calls are made on a new
  pipeline, if it is in \<open>HandlerExecution\<close> and nobody called \<open>pass_guards\<close> directly, then dispatch matched a route
  for the request's method and path, the path parameters are the captures of that route's pattern on the path,
  and some guard chain was evaluated in which every guard answered \<open>Ok(true)\<close>; the accepted events are the six
  of the full chain.\<close>

theorem handler_after_match_and_guards:
  assumes "dispatch_built history routes" "trimmed (normalize_path (rq_path rq))"
    "pipeline_run B routes ops (pipeline_new B rq) w = (log, pl, w')"
    "pipeline_state pl = ''HandlerExecution''" "Call GuardsPassed \<notin> set ops" "Call RouteMatched \<notin> set ops"
  shows "map fst log = [RequestParsed, MiddlewareComplete, RouteMatched, GuardsPassed, InterceptorsPreComplete, PipesComplete] \<and>
    (\<exists>entry caps guards ctx w1.
       dispatch routes (rq_method rq) (rq_path rq) = Matched entry \<and> captures (de_pattern entry) (rq_path rq) = Some caps \<and>
       rq_path_params (pl_request pl) = Some caps \<and>
       (GuardsPassed, GuardChain guards ctx, w1) \<in> set log \<and> all_guards_pass guards ctx w1)"
proof -
  let ?names = "[''RequestParsed'', ''MiddlewareComplete'', ''RouteMatched'', ''GuardsPassed'', ''InterceptorsPreComplete'', ''PipesComplete'']"
  have start: "pipeline_state (pipeline_new B rq) = ''Received''" "pl_request (pipeline_new B rq) = rq"
    by (simp_all add: pipeline_state_def pipeline_new_def engine_new_def request_spec_code)
  note run = pipeline_run_log [OF assms(3), of rq, unfolded start, OF refl refl]
  from run(1) assms(4) have "map (request_event_name \<circ> fst) log = ?names" by (simp add: handler_run)
  also have "?names = map request_event_name
      [RequestParsed, MiddlewareComplete, RouteMatched, GuardsPassed, InterceptorsPreComplete, PipesComplete]" by simp
  finally have "map request_event_name (map fst log) = map request_event_name
      [RequestParsed, MiddlewareComplete, RouteMatched, GuardsPassed, InterceptorsPreComplete, PipesComplete]"
    unfolding map_map .
  moreover have "inj request_event_name" by (simp add: inj_def request_event_name_inj)
  ultimately have events: "map fst log = [RequestParsed, MiddlewareComplete, RouteMatched, GuardsPassed, InterceptorsPreComplete, PipesComplete]"
    by (metis inj_map_eq_map)
  have "RouteMatched \<in> fst ` set log" "GuardsPassed \<in> fst ` set log" unfolding set_map [symmetric] events by simp_all
  then obtain op1 w1 op2 w2 where in_log: "(RouteMatched, op1, w1) \<in> set log" "(GuardsPassed, op2, w2) \<in> set log" by auto
  from run(2) in_log have ok: "log_entry_ok routes rq ops (RouteMatched, op1, w1)" "log_entry_ok routes rq ops (GuardsPassed, op2, w2)"
    by blast+
  from ok(1) assms(6) have op1: "op1 = MatchRoute" by (cases op1) (auto simp: log_entry_ok_def)
  with ok(1) obtain entry where entry: "dispatch routes (rq_method rq) (rq_path rq) = Matched entry" "MatchRoute \<in> set ops"
    by (auto simp: log_entry_ok_def for_route_outcome_def split: RouteDispatchOutcome.splits)
  obtain guards ctx where guards: "op2 = GuardChain guards ctx" "all_guards_pass guards ctx w2"
    using ok(2) assms(5)
    by (cases op2) (auto simp: guards_event_passed log_entry_ok_def for_route_outcome_def split: RouteDispatchOutcome.splits)
  from dispatch_matched_captures [OF assms(1,2) entry(1)] obtain caps where
    "captures (de_pattern entry) (rq_path rq) = Some caps" "matched_params routes rq = Some caps"
    by (auto simp: matched_params_def entry(1))
  with run(3) entry guards in_log(2) events show ?thesis by auto
qed

text \<open>A request through a table of routes with one authentication guard.\<close>

definition demo_http_request :: "DemoJson NivasaRequest" where
  "demo_http_request = \<lparr>rq_method = ''GET'', rq_path = ''/users/7'', rq_query = None, rq_headers = Map.empty,
     rq_body = Empty, rq_path_params = None\<rparr>"

definition demo_context :: "string \<Rightarrow> (unit, DemoJson) ExecutionContext" where
  "demo_context token = insert_custom_data (execution_context_new (CStr ''request'')) ''authorization'' (CString token)"

definition demo_calls_ops :: "string \<Rightarrow> (unit, DemoJson, string, unit) PipelineOp list" where
  "demo_calls_ops token =
     [Call RequestParsed, Call MiddlewareComplete, MatchRoute, GuardChain [auth_guard demo_json] (demo_context token),
      Call InterceptorsPreComplete, Call PipesComplete]"

definition demo_run where
  "demo_run token = pipeline_run \<lparr>bd_debug = False, bd_hash = ''h''\<rparr> demo3 (demo_calls_ops token)
     (pipeline_new \<lparr>bd_debug = False, bd_hash = ''h''\<rparr> demo_http_request) ()"

theorem handler_after_match_and_guards_witness:
  "\<exists>log pl w. demo_run ''Bearer a.b.c'' = (log, pl, w) \<and> pipeline_state pl = ''HandlerExecution'' \<and>
     rq_path_params (pl_request pl) = Some \<lparr>parameters = [(''id'', ''7'')], wildcard = None\<rparr> \<and>
     (\<exists>guards ctx w1. (GuardsPassed, GuardChain guards ctx, w1) \<in> set log \<and> all_guards_pass guards ctx w1)"
proof -
  obtain log pl w where r: "demo_run ''Bearer a.b.c'' = (log, pl, w)" by (cases "demo_run ''Bearer a.b.c''") auto
  have "(case demo_run ''Bearer a.b.c'' of (log, pl, w) \<Rightarrow> (pipeline_state pl, rq_path_params (pl_request pl))) =
      (''HandlerExecution'', Some \<lparr>parameters = [(''id'', ''7'')], wildcard = None\<rparr>)" by code_simp
  then have end_state: "pipeline_state pl = ''HandlerExecution''"
    "rq_path_params (pl_request pl) = Some \<lparr>parameters = [(''id'', ''7'')], wildcard = None\<rparr>"
    by (simp_all add: r)
  have ok: "trimmed (normalize_path (rq_path demo_http_request))" by code_simp
  have "Call GuardsPassed \<notin> set (demo_calls_ops ''Bearer a.b.c'')" "Call RouteMatched \<notin> set (demo_calls_ops ''Bearer a.b.c'')"
    by (simp_all add: demo_calls_ops_def)
  from handler_after_match_and_guards [OF demo_built ok r [unfolded demo_run_def] end_state(1) this] r end_state
  show ?thesis by blast
qed

end
