(* ===== verification/Http_Response.thy ===== *)
theory Http_Response
  imports Http_Request Http_Common
begin

text \<open>
  Responses (\<open>nivasa-http/src/response.rs\<close>): the builder, headers and content types, redirects and downloads,
  streamed bodies, server-sent events, and the response of an HTTP exception.

  The event-stream client at the end of the theory is the parser that the WHATWG HTML standard prescribes for
  \<open>text/event-stream\<close> (section 9.2.6): the reader that rendered events are meant for.
\<close>

section \<open>Responses\<close>

type_synonym Headers = "string \<rightharpoonup> string list"

definition put_header :: "'j HttpOps \<Rightarrow> string \<Rightarrow> string \<Rightarrow> Headers \<Rightarrow> Headers" where
  "put_header H name val headers =
     (case (header_name H name, header_value H val) of
        (Some n, Some v) \<Rightarrow> headers(n \<mapsto> [v])
      | _ \<Rightarrow> headers)"

record 'j NivasaResponse =
  rs_status :: "16 word"
  rs_headers :: Headers
  rs_body :: "'j Body"

record 'j NivasaResponseBuilder =
  rb_status :: "16 word"
  rb_headers :: Headers
  rb_body :: "'j Body"

record 'j ControllerResponse =
  cr_status :: "16 word"
  cr_headers :: Headers
  cr_body :: "'j Body"

definition response_builder :: "'j NivasaResponseBuilder" where
  "response_builder = \<lparr>rb_status = 200, rb_headers = Map.empty, rb_body = Empty\<rparr>"

definition builder_status :: "'j NivasaResponseBuilder \<Rightarrow> 16 word \<Rightarrow> 'j NivasaResponseBuilder" where
  "builder_status b status = b\<lparr>rb_status := status\<rparr>"

definition builder_header :: "'j HttpOps \<Rightarrow> 'j NivasaResponseBuilder \<Rightarrow> string \<Rightarrow> string \<Rightarrow> 'j NivasaResponseBuilder" where
  "builder_header H b name val = b\<lparr>rb_headers := put_header H name val (rb_headers b)\<rparr>"

definition response_build :: "'j NivasaResponseBuilder \<Rightarrow> 'j NivasaResponse" where
  "response_build b =
     (let headers = rb_headers b;
          headers1 =
            (if headers ''content-type'' = None
             then (case content_type (rb_body b) of
                     Some ct \<Rightarrow> headers(''content-type'' \<mapsto> [ct])
                   | None \<Rightarrow> headers)
             else headers)
      in \<lparr>rs_status = rb_status b, rs_headers = headers1, rs_body = rb_body b\<rparr>)"

definition builder_body :: "'j NivasaResponseBuilder \<Rightarrow> 'j Body \<Rightarrow> 'j NivasaResponse" where
  "builder_body b body = response_build (b\<lparr>rb_body := body\<rparr>)"

definition response_new :: "16 word \<Rightarrow> 'j Body \<Rightarrow> 'j NivasaResponse" where
  "response_new status body = builder_body (builder_status response_builder status) body"

definition response_text :: "string \<Rightarrow> 'j NivasaResponse" where
  "response_text text = response_new 200 (Text text)"

definition response_html :: "string \<Rightarrow> 'j NivasaResponse" where
  "response_html html = response_new 200 (Html html)"

definition response_json :: "'j \<Rightarrow> 'j NivasaResponse" where
  "response_json json = response_new 200 (Json json)"

definition response_bytes :: "bytes \<Rightarrow> 'j NivasaResponse" where
  "response_bytes v = response_new 200 (Bytes v)"

definition with_header :: "'j HttpOps \<Rightarrow> 'j NivasaResponse \<Rightarrow> string \<Rightarrow> string \<Rightarrow> 'j NivasaResponse" where
  "with_header H r name val = r\<lparr>rs_headers := put_header H name val (rs_headers r)\<rparr>"

definition redirect :: "'j HttpOps \<Rightarrow> 16 word \<Rightarrow> string \<Rightarrow> 'j NivasaResponse" where
  "redirect H status location = with_header H (response_new status Empty) ''location'' location"

definition redirect_permanent :: "'j HttpOps \<Rightarrow> string \<Rightarrow> 'j NivasaResponse" where
  "redirect_permanent H location = redirect H 301 location"

definition redirect_temporary :: "'j HttpOps \<Rightarrow> string \<Rightarrow> 'j NivasaResponse" where
  "redirect_temporary H location = redirect H 302 location"

definition redirect_temporary_preserve_method :: "'j HttpOps \<Rightarrow> string \<Rightarrow> 'j NivasaResponse" where
  "redirect_temporary_preserve_method H location = redirect H 307 location"

definition redirect_permanent_preserve_method :: "'j HttpOps \<Rightarrow> string \<Rightarrow> 'j NivasaResponse" where
  "redirect_permanent_preserve_method H location = redirect H 308 location"

fun escape_content_disposition_filename :: "string \<Rightarrow> string" where
  "escape_content_disposition_filename [] = []"
| "escape_content_disposition_filename (ch # filename) =
     (if ch = CHR 0x5C \<or> ch = CHR 0x22 then [CHR 0x5C, ch] else [ch]) @ escape_content_disposition_filename filename"

definition download :: "'j HttpOps \<Rightarrow> string \<Rightarrow> bytes \<Rightarrow> 'j NivasaResponse" where
  "download H filename v =
     with_header H (response_bytes v) ''content-disposition''
       (''attachment; filename='' @ [CHR 0x22] @ escape_content_disposition_filename filename @ [CHR 0x22])"

section \<open>Controller responses\<close>

definition controller_response_new :: "'j ControllerResponse" where
  "controller_response_new = \<lparr>cr_status = 200, cr_headers = Map.empty, cr_body = Empty\<rparr>"

definition controller_status :: "'j ControllerResponse \<Rightarrow> 16 word \<Rightarrow> 'j ControllerResponse" where
  "controller_status r status = r\<lparr>cr_status := status\<rparr>"

definition controller_header :: "'j HttpOps \<Rightarrow> 'j ControllerResponse \<Rightarrow> string \<Rightarrow> string \<Rightarrow> 'j ControllerResponse" where
  "controller_header H r name val = r\<lparr>cr_headers := put_header H name val (cr_headers r)\<rparr>"

definition controller_body :: "'j ControllerResponse \<Rightarrow> 'j Body \<Rightarrow> 'j ControllerResponse" where
  "controller_body r body = r\<lparr>cr_body := body\<rparr>"

definition controller_into_response :: "'j ControllerResponse \<Rightarrow> 'j NivasaResponse" where
  "controller_into_response r =
     response_build \<lparr>rb_status = cr_status r, rb_headers = cr_headers r, rb_body = cr_body r\<rparr>"

text \<open>A status with a value: the value's response, with that status.\<close>

definition status_into_response :: "16 word \<Rightarrow> 'j NivasaResponse \<Rightarrow> 'j NivasaResponse" where
  "status_into_response status r = r\<lparr>rs_status := status\<rparr>"

section \<open>Exceptions\<close>

record HttpExceptionSummary =
  hs_status_code :: "16 word"
  hs_error :: string
  hs_message :: string

definition http_exception_summary :: "('j, 'e) HttpException \<Rightarrow> HttpExceptionSummary" where
  "http_exception_summary exc =
     \<lparr>hs_status_code = status_code exc, hs_error = error exc, hs_message = message exc\<rparr>"

definition summary_text :: "HttpExceptionSummary \<Rightarrow> string" where
  "summary_text s = show_nat (unat (hs_status_code s)) @ '' '' @ hs_error s @ '': '' @ hs_message s"

text \<open>The object that the derived serialiser of \<open>HttpException\<close> writes: no \<open>details\<close> when there are none, and
  never the cause.\<close>

definition exception_json :: "'j HttpOps \<Rightarrow> ('j, 'e) HttpException \<Rightarrow> 'j" where
  "exception_json H exc =
     json_object H
       ([''statusCode'' \<mapsto> json_number H (unat (status_code exc)), ''message'' \<mapsto> json_string H (message exc),
         ''error'' \<mapsto> json_string H (error exc)] ++
        (case details exc of Some d \<Rightarrow> [''details'' \<mapsto> d] | None \<Rightarrow> Map.empty))"

definition status_or_500 :: "'j HttpOps \<Rightarrow> 16 word \<Rightarrow> 16 word" where
  "status_or_500 H code = (if valid_status H code then code else 500)"

definition exception_into_response :: "'j HttpOps \<Rightarrow> ('j, 'e) HttpException \<Rightarrow> 'j NivasaResponse" where
  "exception_into_response H exc = response_new (status_or_500 H (status_code exc)) (Json (exception_json H exc))"

definition summary_into_response :: "'j HttpOps \<Rightarrow> HttpExceptionSummary \<Rightarrow> 'j NivasaResponse" where
  "summary_into_response H s =
     response_new (status_or_500 H (hs_status_code s))
       (Json (json_object H
          [''statusCode'' \<mapsto> json_number H (unat (hs_status_code s)), ''message'' \<mapsto> json_string H (hs_message s),
           ''error'' \<mapsto> json_string H (hs_error s)]))"

definition http_exception_filter :: "'j HttpOps \<Rightarrow> ('j, 'e) HttpException \<Rightarrow> 'j NivasaResponse" where
  "http_exception_filter H exc = summary_into_response H (http_exception_summary exc)"

section \<open>Streams\<close>

record 'j StreamBody =
  sb_chunks :: "'j Body list"
  sb_content_type :: "string option"

fun infer_from :: "string option \<Rightarrow> 'j Body list \<Rightarrow> string option" where
  "infer_from known [] = known"
| "infer_from known (chunk # chunks) =
     (if body_is_empty chunk then infer_from known chunks
      else
        (case content_type chunk of
           None \<Rightarrow> None
         | Some ct \<Rightarrow>
             (case known of
                None \<Rightarrow> infer_from (Some ct) chunks
              | Some existing \<Rightarrow> if existing = ct then infer_from known chunks else None)))"

definition infer_stream_content_type :: "'j Body list \<Rightarrow> string option" where
  "infer_stream_content_type chunks = infer_from None chunks"

definition stream_into_parts :: "'j HttpOps \<Rightarrow> 'j StreamBody \<Rightarrow> 'j Body \<times> string option" where
  "stream_into_parts H s =
     (let ct = (case sb_content_type s of
                  Some t \<Rightarrow> Some t | None \<Rightarrow> infer_stream_content_type (sb_chunks s));
          body = concat (map (as_bytes H) (sb_chunks s))
      in (if body = [] then Empty else Bytes body, ct))"

definition stream_into_response :: "'j HttpOps \<Rightarrow> 'j StreamBody \<Rightarrow> 'j NivasaResponse" where
  "stream_into_response H s =
     (case stream_into_parts H s of
        (body, ct) \<Rightarrow>
          (let r = response_new 200 body
           in case ct of Some t \<Rightarrow> with_header H r ''content-type'' t | None \<Rightarrow> r))"

section \<open>Server-sent events\<close>

record SseEvent =
  se_event :: "string option"
  se_id :: "string option"
  se_retry :: "64 word option"
  se_data :: "string list"
  se_comment :: "string list"

definition sse_data :: "string \<Rightarrow> SseEvent" where
  "sse_data d = \<lparr>se_event = None, se_id = None, se_retry = None, se_data = [d], se_comment = []\<rparr>"

definition sse_comment :: "string \<Rightarrow> SseEvent" where
  "sse_comment c = \<lparr>se_event = None, se_id = None, se_retry = None, se_data = [], se_comment = [c]\<rparr>"

definition sse_data_line :: "SseEvent \<Rightarrow> string \<Rightarrow> SseEvent" where
  "sse_data_line e d = e\<lparr>se_data := se_data e @ [d]\<rparr>"

abbreviation CR :: char where "CR \<equiv> CHR 0x0D"
abbreviation LF :: char where "LF \<equiv> CHR 0x0A"

definition sanitize_sse_single_line :: "string \<Rightarrow> string" where
  "sanitize_sse_single_line v = map (\<lambda>ch. if ch = CR \<or> ch = LF then CHR '' '' else ch) v"

definition push_sse_field :: "string \<Rightarrow> string \<Rightarrow> string \<Rightarrow> string" where
  "push_sse_field body name v = body @ name @ v @ [LF]"

definition strip_cr :: "string \<Rightarrow> string" where
  "strip_cr line = (if ends_with line [CR] then butlast line else line)"

definition push_sse_multiline_field :: "string \<Rightarrow> string \<Rightarrow> string \<Rightarrow> string" where
  "push_sse_multiline_field body name v =
     foldl (\<lambda>acc line. acc @ name @ strip_cr line @ [LF]) body (split_on LF v)"

definition sse_render :: "SseEvent \<Rightarrow> string \<Rightarrow> string" where
  "sse_render e body0 =
     (let body1 = (case se_event e of
                     Some ev \<Rightarrow> push_sse_field body0 ''event: '' (sanitize_sse_single_line ev) | None \<Rightarrow> body0);
          body2 = (case se_id e of
                     Some i \<Rightarrow> push_sse_field body1 ''id: '' (sanitize_sse_single_line i) | None \<Rightarrow> body1);
          body3 = (case se_retry e of
                     Some r \<Rightarrow> push_sse_field body2 ''retry: '' (show_nat (unat r)) | None \<Rightarrow> body2);
          body4 = foldl (\<lambda>acc c. push_sse_multiline_field acc '': '' c) body3 (se_comment e);
          body5 = foldl (\<lambda>acc d. push_sse_multiline_field acc ''data: '' d) body4 (se_data e)
      in body5 @ [LF])"

definition sse_into_body :: "SseEvent list \<Rightarrow> string" where
  "sse_into_body events = foldl (\<lambda>body e. sse_render e body) [] events"

definition sse_into_response :: "'j HttpOps \<Rightarrow> SseEvent list \<Rightarrow> 'j NivasaResponse" where
  "sse_into_response H events =
     with_header H
       (with_header H (response_new 200 (Text (sse_into_body events))) ''content-type''
          ''text/event-stream; charset=utf-8'')
       ''cache-control'' ''no-cache''"

section \<open>The client of an event stream\<close>

definition drop_lf :: "string \<Rightarrow> string" where
  "drop_lf s = (case s of c # cs \<Rightarrow> if c = LF then cs else s | [] \<Rightarrow> [])"

lemma length_drop_lf [simp]: "length (drop_lf s) \<le> length s"
  by (simp add: drop_lf_def split: list.splits)

text \<open>The lines of a stream: a line ends with LF, CR or CR LF; a line that is not ended is dropped.\<close>

function es_lines :: "string \<Rightarrow> string \<Rightarrow> string list" where
  "es_lines acc [] = []"
| "es_lines acc (c # cs) =
     (if c = LF then rev acc # es_lines [] cs
      else if c = CR then rev acc # es_lines [] (drop_lf cs)
      else es_lines (c # acc) cs)"
  by pat_completeness auto
termination by (relation "measure (\<lambda>(acc, s). length s)") (auto simp: le_imp_less_Suc)

record EventSource =
  es_data :: string
  es_event :: string
  es_last_id :: string
  es_retry :: "string option"
  es_dispatched :: "(string \<times> string \<times> string) list"

definition es_init :: EventSource where
  "es_init = \<lparr>es_data = [], es_event = [], es_last_id = [], es_retry = None, es_dispatched = []\<rparr>"

definition es_field :: "string \<Rightarrow> string \<Rightarrow> EventSource \<Rightarrow> EventSource" where
  "es_field name v st =
     (if name = ''event'' then st\<lparr>es_event := v\<rparr>
      else if name = ''data'' then st\<lparr>es_data := es_data st @ v @ [LF]\<rparr>
      else if name = ''id'' then (if CHR 0x00 \<in> set v then st else st\<lparr>es_last_id := v\<rparr>)
      else if name = ''retry''
      then (if v \<noteq> [] \<and> list_all (\<lambda>c. CHR ''0'' \<le> c \<and> c \<le> CHR ''9'') v then st\<lparr>es_retry := Some v\<rparr> else st)
      else st)"

definition es_dispatch :: "EventSource \<Rightarrow> EventSource" where
  "es_dispatch st =
     (let st1 = st\<lparr>es_data := [], es_event := []\<rparr>
      in if es_data st = [] then st1
         else st1\<lparr>es_dispatched := es_dispatched st @
           [(if es_event st = [] then ''message'' else es_event st, butlast (es_data st), es_last_id st)]\<rparr>)"

definition drop_space :: "string \<Rightarrow> string" where
  "drop_space v = (case v of c # cs \<Rightarrow> if c = CHR '' '' then cs else v | [] \<Rightarrow> [])"

definition es_line :: "EventSource \<Rightarrow> string \<Rightarrow> EventSource" where
  "es_line st line =
     (if line = [] then es_dispatch st
      else if CHR '':'' \<in> set line
      then (let name = takeWhile (\<lambda>c. c \<noteq> CHR '':'') line
            in if name = [] then st
               else es_field name (drop_space (drop 1 (dropWhile (\<lambda>c. c \<noteq> CHR '':'') line))) st)
      else es_field line [] st)"

definition event_source :: "string \<Rightarrow> EventSource" where
  "event_source stream = foldl es_line es_init (es_lines [] stream)"

text \<open>What a list of events means: an event without data is not dispatched, the type is \<open>message\<close> by default, the
  last event id and the reconnection time stay until an event changes them.\<close>

definition sse_lines :: "string \<Rightarrow> string list" where
  "sse_lines v = map strip_cr (split_on LF v)"

definition next_id :: "SseEvent \<Rightarrow> string \<Rightarrow> string" where
  "next_id e lid =
     (case se_id e of Some i \<Rightarrow> if CHR 0x00 \<in> set i then lid else sanitize_sse_single_line i | None \<Rightarrow> lid)"

definition event_type :: "SseEvent \<Rightarrow> string" where
  "event_type e = (case se_event e of Some ev \<Rightarrow> if ev = [] then ''message'' else sanitize_sse_single_line ev | None \<Rightarrow> ''message'')"

fun sse_meaning :: "string \<Rightarrow> SseEvent list \<Rightarrow> (string \<times> string \<times> string) list" where
  "sse_meaning lid [] = []"
| "sse_meaning lid (e # es) =
     (if se_data e = [] then []
      else [(event_type e, join [LF] (concat (map sse_lines (se_data e))), next_id e lid)]) @
     sse_meaning (next_id e lid) es"

fun sse_retry_time :: "string option \<Rightarrow> SseEvent list \<Rightarrow> string option" where
  "sse_retry_time t [] = t"
| "sse_retry_time t (e # es) =
     sse_retry_time (case se_retry e of Some r \<Rightarrow> Some (show_nat (unat r)) | None \<Rightarrow> t) es"

text \<open>Data and comments are sent as they are meant when their carriage returns stand at the end of lines.\<close>

definition sse_clean :: "SseEvent \<Rightarrow> bool" where
  "sse_clean e \<longleftrightarrow> list_all (\<lambda>v. list_all (\<lambda>line. CR \<notin> set line) (sse_lines v)) (se_data e @ se_comment e)"

definition event_lines :: "SseEvent \<Rightarrow> string list" where
  "event_lines e =
     (case se_event e of Some ev \<Rightarrow> [''event: '' @ sanitize_sse_single_line ev] | None \<Rightarrow> []) @
     (case se_id e of Some i \<Rightarrow> [''id: '' @ sanitize_sse_single_line i] | None \<Rightarrow> []) @
     (case se_retry e of Some r \<Rightarrow> [''retry: '' @ show_nat (unat r)] | None \<Rightarrow> []) @
     concat (map (\<lambda>c. map (\<lambda>l. '': '' @ l) (sse_lines c)) (se_comment e)) @
     concat (map (\<lambda>d. map (\<lambda>l. ''data: '' @ l) (sse_lines d)) (se_data e)) @ [[]]"

definition unlines :: "string list \<Rightarrow> string" where
  "unlines ls = concat (map (\<lambda>l. l @ [LF]) ls)"

lemma unlines_simps [simp]: "unlines [] = []" "unlines (l # ls) = l @ LF # unlines ls" "unlines (ks @ ls) = unlines ks @ unlines ls"
  by (simp_all add: unlines_def)

lemma push_multiline: "push_sse_multiline_field body name v = body @ unlines (map (\<lambda>l. name @ l) (sse_lines v))"
proof -
  have "foldl (\<lambda>acc line. acc @ name @ strip_cr line @ [LF]) body ls = body @ unlines (map (\<lambda>l. name @ l) (map strip_cr ls))" for ls
    by (induction ls arbitrary: body) simp_all
  then show ?thesis by (simp add: push_sse_multiline_field_def sse_lines_def)
qed

lemma push_multilines:
  "foldl (\<lambda>acc v. push_sse_multiline_field acc name v) body vs =
   body @ unlines (concat (map (\<lambda>v. map (\<lambda>l. name @ l) (sse_lines v)) vs))"
  by (induction vs arbitrary: body) (simp_all add: push_multiline)

lemma sse_render_lines: "sse_render e body = body @ unlines (event_lines e)"
  by (simp add: sse_render_def event_lines_def push_multilines push_sse_field_def Let_def split: option.splits)

lemma sse_into_body_lines: "sse_into_body events = unlines (concat (map event_lines events))"
proof -
  have "foldl (\<lambda>body e. sse_render e body) body events = body @ unlines (concat (map event_lines events))" for body
    by (induction events arbitrary: body) (simp_all add: sse_render_lines)
  then show ?thesis by (simp add: sse_into_body_def)
qed

lemma es_lines_line:
  "CR \<notin> set l \<Longrightarrow> LF \<notin> set l \<Longrightarrow> es_lines acc (l @ LF # rest) = (rev acc @ l) # es_lines [] rest"
  by (induction l arbitrary: acc) auto

lemma es_lines_unlines:
  "list_all (\<lambda>l. CR \<notin> set l \<and> LF \<notin> set l) ls \<Longrightarrow> es_lines [] (unlines ls) = ls"
  by (induction ls) (simp_all add: es_lines_line)

lemma show_nat_digits: "show_nat n \<noteq> [] \<and> list_all (\<lambda>c. CHR ''0'' \<le> c \<and> c \<le> CHR ''9'') (show_nat n)"
proof (induction n rule: show_nat.induct)
  case (1 n)
  then show ?case by (subst (1 2) show_nat.simps) (auto simp: less_eq_char_def)
qed

lemma show_nat_line [simp]: "CR \<notin> set (show_nat n)" "LF \<notin> set (show_nat n)"
  using show_nat_digits [of n] by (auto simp: list_all_iff less_eq_char_def)

lemma sanitize_line [simp]: "CR \<notin> set (sanitize_sse_single_line v)" "LF \<notin> set (sanitize_sse_single_line v)"
  by (auto simp: sanitize_sse_single_line_def split: if_splits)

lemma sanitize_NUL [simp]: "CHR 0x00 \<in> set (sanitize_sse_single_line v) \<longleftrightarrow> CHR 0x00 \<in> set v"
  by (auto simp: sanitize_sse_single_line_def image_iff split: if_splits)

lemma sanitize_Nil [simp]: "sanitize_sse_single_line v = [] \<longleftrightarrow> v = []"
  by (simp add: sanitize_sse_single_line_def)

lemma sse_lines_no_LF: "l \<in> set (sse_lines v) \<Longrightarrow> LF \<notin> set l"
  by (auto simp: sse_lines_def strip_cr_def split: if_splits dest: split_on_sep_free in_set_butlastD)

lemma event_lines_ended:
  assumes "sse_clean e"
  shows "list_all (\<lambda>l. CR \<notin> set l \<and> LF \<notin> set l) (event_lines e)"
proof -
  have "CR \<notin> set l \<and> LF \<notin> set l" if "v \<in> set (se_data e) \<or> v \<in> set (se_comment e)" "l \<in> set (sse_lines v)" for v l
    using assms that sse_lines_no_LF [of l v] by (auto simp: sse_clean_def list_all_iff)
  then show ?thesis unfolding event_lines_def list_all_iff by (fastforce split: option.splits)
qed

lemma es_line_field:
  assumes "CHR '':'' \<notin> set name" "name \<noteq> []"
  shows "es_line st (name @ CHR '':'' # CHR '' '' # v) = es_field name v st"
proof -
  have "takeWhile (\<lambda>c. c \<noteq> CHR '':'') (name @ CHR '':'' # s) = name \<and>
    dropWhile (\<lambda>c. c \<noteq> CHR '':'') (name @ CHR '':'' # s) = CHR '':'' # s" for s
    using assms(1) by (induction name) auto
  with assms(2) show ?thesis by (simp add: es_line_def drop_space_def)
qed

lemma es_line_comment: "es_line st (CHR '':'' # v) = st"
  by (simp add: es_line_def)

lemma es_fields:
  "es_line st (''event: '' @ v) = st\<lparr>es_event := v\<rparr>"
  "es_line st (''data: '' @ v) = st\<lparr>es_data := es_data st @ v @ [LF]\<rparr>"
  "es_line st (''id: '' @ v) = (if CHR 0x00 \<in> set v then st else st\<lparr>es_last_id := v\<rparr>)"
  "es_line st (''retry: '' @ show_nat n) = st\<lparr>es_retry := Some (show_nat n)\<rparr>"
  using es_line_field [of "''event''" st v] es_line_field [of "''data''" st v] es_line_field [of "''id''" st v]
    es_line_field [of "''retry''" st "show_nat n"] show_nat_digits [of n]
  by (simp_all add: es_field_def)

lemma es_comments: "foldl es_line st (concat (map (\<lambda>c. map (\<lambda>l. '': '' @ l) (sse_lines c)) cs)) = st"
proof -
  have "foldl es_line st (map (\<lambda>l. '': '' @ l) ls) = st" for ls by (induction ls) (simp_all add: es_line_comment)
  then show ?thesis by (induction cs) simp_all
qed

lemma es_datas:
  "foldl es_line st (concat (map (\<lambda>d. map (\<lambda>l. ''data: '' @ l) (sse_lines d)) ds)) =
   st\<lparr>es_data := es_data st @ unlines (concat (map sse_lines ds))\<rparr>"
proof -
  have "foldl es_line st (map (\<lambda>l. ''data: '' @ l) ls) = st\<lparr>es_data := es_data st @ unlines ls\<rparr>" for st ls
    by (induction ls arbitrary: st) (simp_all add: es_fields(2) [simplified])
  then show ?thesis by (induction ds arbitrary: st) simp_all
qed

lemma butlast_unlines: "ls \<noteq> [] \<Longrightarrow> butlast (unlines ls) = join [LF] ls"
proof (induction ls)
  case (Cons l ls)
  then show ?case by (cases ls) (auto simp: butlast_append)
qed simp

text \<open>The client on the lines of one event, from a state between two events.\<close>

lemma es_event_lines:
  assumes "es_data st = []" "es_event st = []"
  shows "foldl es_line st (event_lines e) =
    \<lparr>es_data = [], es_event = [], es_last_id = next_id e (es_last_id st),
     es_retry = (case se_retry e of Some r \<Rightarrow> Some (show_nat (unat r)) | None \<Rightarrow> es_retry st),
     es_dispatched = es_dispatched st @ sse_meaning (es_last_id st) [e]\<rparr>"
proof -
  define L where "L = concat (map sse_lines (se_data e))"
  have lines: "L = [] \<longleftrightarrow> se_data e = []"
    unfolding L_def by (cases "se_data e") (simp_all add: sse_lines_def)
  have unl: "unlines ls = [] \<longleftrightarrow> ls = []" for ls by (cases ls) simp_all
  define st1 where "st1 = \<lparr>es_data = [], es_event = (case se_event e of Some ev \<Rightarrow> sanitize_sse_single_line ev | None \<Rightarrow> []),
    es_last_id = next_id e (es_last_id st),
    es_retry = (case se_retry e of Some r \<Rightarrow> Some (show_nat (unat r)) | None \<Rightarrow> es_retry st),
    es_dispatched = es_dispatched st\<rparr>"
  have "foldl es_line st (event_lines e) = es_dispatch (st1\<lparr>es_data := unlines L\<rparr>)"
    using assms unfolding event_lines_def
    by (cases st; cases "se_event e"; cases "se_id e"; cases "se_retry e")
      (simp_all add: st1_def next_id_def es_comments es_datas es_fields [simplified]
        es_line_def [of _ "[]"] L_def)
  moreover have "es_dispatch (st1\<lparr>es_data := unlines L\<rparr>) =
    st1\<lparr>es_event := [], es_dispatched := es_dispatched st @ sse_meaning (es_last_id st) [e]\<rparr>"
    using lines butlast_unlines [of L]
    by (cases "L = []") (simp_all add: st1_def es_dispatch_def unl event_type_def L_def [symmetric] split: option.splits)
  ultimately show ?thesis by (simp add: st1_def)
qed

lemma es_events:
  assumes "es_data st = []" "es_event st = []"
  shows "foldl es_line st (concat (map event_lines events)) =
    \<lparr>es_data = [], es_event = [], es_last_id = fold next_id events (es_last_id st),
     es_retry = sse_retry_time (es_retry st) events,
     es_dispatched = es_dispatched st @ sse_meaning (es_last_id st) events\<rparr>"
  using assms
proof (induction events arbitrary: st)
  case (Cons e es)
  then show ?case by (simp add: es_event_lines)
qed simp

text \<open>C18: server-sent events arrive as they were meant. Where every carriage return in the data and the comments ends a
  line, the client of the event stream that the server renders dispatches exactly the events with data: their type,
  the data as written with line ends normalised, and the last event id; and it ends with the last reconnection time.
  A carriage return inside a line is not escaped: then the rest of the line is read as fields of its own, and one
  event can arrive as two.\<close>

theorem sse_roundtrip:
  assumes "list_all sse_clean events"
  shows "event_source (sse_into_body events) =
      \<lparr>es_data = [], es_event = [], es_last_id = fold next_id events [], es_retry = sse_retry_time None events,
       es_dispatched = sse_meaning [] events\<rparr> \<and>
    es_dispatched (event_source (sse_into_body [sse_data (''a'' @ [CR, CR] @ ''event: b'' @ [CR] @ ''data: c'')])) =
      [(''message'', ''a'', []), (''b'', ''c'', [])]"
proof
  have "list_all (\<lambda>l. CR \<notin> set l \<and> LF \<notin> set l) (concat (map event_lines events))"
    using assms event_lines_ended by (fastforce simp: list_all_iff)
  then have "es_lines [] (sse_into_body events) = concat (map event_lines events)"
    by (simp add: sse_into_body_lines es_lines_unlines)
  then show "event_source (sse_into_body events) =
      \<lparr>es_data = [], es_event = [], es_last_id = fold next_id events [], es_retry = sse_retry_time None events,
       es_dispatched = sse_meaning [] events\<rparr>"
    using es_events [of es_init events] by (simp add: event_source_def es_init_def)
next
  show "es_dispatched (event_source (sse_into_body [sse_data (''a'' @ [CR, CR] @ ''event: b'' @ [CR] @ ''data: c'')])) =
      [(''message'', ''a'', []), (''b'', ''c'', [])]"
    by code_simp
qed

definition demo_events :: "SseEvent list" where
  "demo_events =
     [(sse_data (''one'' @ [CR, LF] @ ''two''))\<lparr>se_event := Some ''up'', se_id := Some ''7'', se_retry := Some 3000\<rparr>,
      sse_comment ''ping'', sse_data_line (sse_data ''three'') ''four'']"

theorem sse_roundtrip_witness:
  "list_all sse_clean demo_events \<and>
   es_dispatched (event_source (sse_into_body demo_events)) =
     [(''up'', ''one'' @ [LF] @ ''two'', ''7''), (''message'', ''three'' @ [LF] @ ''four'', ''7'')] \<and>
   es_retry (event_source (sse_into_body demo_events)) = Some ''3000''"
proof -
  have "list_all sse_clean demo_events" by code_simp
  moreover have "sse_meaning [] demo_events =
     [(''up'', ''one'' @ [LF] @ ''two'', ''7''), (''message'', ''three'' @ [LF] @ ''four'', ''7'')]"
    "sse_retry_time None demo_events = Some ''3000''" by code_simp+
  ultimately show ?thesis using sse_roundtrip [of demo_events] by simp
qed

section \<open>Downloads\<close>

text \<open>What a client reads of a quoted string: a backslash stands for the character after it.\<close>

fun unquote :: "string \<Rightarrow> (string \<times> string) option" where
  "unquote [] = None"
| "unquote [c] = (if c = CHR 0x22 then Some ([], []) else None)"
| "unquote (c # d # s) =
     (if c = CHR 0x22 then Some ([], d # s)
      else if c = CHR 0x5C then map_option (map_prod (Cons d) id) (unquote s)
      else map_option (map_prod (Cons c) id) (unquote (d # s)))"

lemma unquote_escape: "unquote (escape_content_disposition_filename filename @ CHR 0x22 # rest) = Some (filename, rest)"
proof (induction filename)
  case Nil
  then show ?case by (cases rest) simp_all
next
  case (Cons c cs)
  show ?case
  proof (cases "escape_content_disposition_filename cs @ CHR 0x22 # rest")
    case Nil
    then show ?thesis by simp
  next
    case (Cons d ds)
    with Cons.IH show ?thesis by auto
  qed
qed

end
