(* ===== verification/Http_Middleware.thy ===== *)
theory Http_Middleware
  imports Http_Response Route_Registry
begin

text \<open>
  Middleware (\<open>nivasa-http/src/lib.rs\<close>): the middleware that the crate ships, its tower adapters, and the helpers
  of generated controllers.

  A middleware gets the request and a \<open>NextMiddleware\<close> that it may run any number of times, in any order with its
  own effects. It is a tree: answer, run the next service on a request and go on with its response, or change the
  world and go on with what was read from it.
\<close>

section \<open>Middleware and services\<close>

datatype ('j, 'w) Flow =
    Respond "'j NivasaResponse"
  | RunNext "'j NivasaRequest" "'j NivasaResponse \<Rightarrow> ('j, 'w) Flow"
  | Perform "'w \<Rightarrow> 'w" "'w \<Rightarrow> ('j, 'w) Flow"

type_synonym ('j, 'w) NivasaMiddleware = "'j NivasaRequest \<Rightarrow> ('j, 'w) Flow"

type_synonym ('j, 'w) TowerService = "'j NivasaRequest \<Rightarrow> 'w \<Rightarrow> 'j NivasaResponse \<times> 'w"

primrec run_flow :: "('j, 'w) TowerService \<Rightarrow> ('j, 'w) Flow \<Rightarrow> 'w \<Rightarrow> 'j NivasaResponse \<times> 'w" where
  "run_flow service (Respond r) = (\<lambda>w. (r, w))"
| "run_flow service (RunNext rq k) = (\<lambda>w. case service rq w of (r, w1) \<Rightarrow> run_flow service (k r) w1)"
| "run_flow service (Perform f k) = (\<lambda>w. run_flow service (k w) (f w))"

definition middleware_service :: "('j, 'w) NivasaMiddleware \<Rightarrow> ('j, 'w) TowerService \<Rightarrow> ('j, 'w) TowerService" where
  "middleware_service middleware service rq w = run_flow service (middleware rq) w"

definition tower_service_middleware :: "('j, 'w) TowerService \<Rightarrow> ('j, 'w) NivasaMiddleware" where
  "tower_service_middleware service rq = Perform (\<lambda>w. snd (service rq w)) (\<lambda>w. Respond (fst (service rq w)))"

section \<open>Header values\<close>

definition first_value :: "'j HttpOps \<Rightarrow> Headers \<Rightarrow> string \<Rightarrow> string option" where
  "first_value H headers name =
     Option.bind (headers name) (\<lambda>vs. case vs of [] \<Rightarrow> None
       | v # _ \<Rightarrow> (case header_to_str H v of Inr t \<Rightarrow> Some t | Inl _ \<Rightarrow> None))"

definition non_blank :: "string \<Rightarrow> string option" where
  "non_blank v = (let t = trim v in if t = [] then None else Some t)"

definition header_value_from_request :: "'j HttpOps \<Rightarrow> 'j NivasaRequest \<Rightarrow> string \<Rightarrow> string option" where
  "header_value_from_request H rq name =
     Option.bind (header H rq name) (\<lambda>v. case header_to_str H v of Inr t \<Rightarrow> non_blank t | Inl _ \<Rightarrow> None)"

definition header_value_from_response :: "'j HttpOps \<Rightarrow> 'j NivasaResponse \<Rightarrow> string \<Rightarrow> string option" where
  "header_value_from_response H r name = Option.bind (first_value H (rs_headers r) name) non_blank"

definition request_id_from_request :: "'j HttpOps \<Rightarrow> 'j NivasaRequest \<Rightarrow> string option" where
  "request_id_from_request H rq = header_value_from_request H rq ''x-request-id''"

section \<open>The middleware of the crate\<close>

definition helmet_headers :: "(string \<times> string) list" where
  "helmet_headers =
     [(''content-security-policy'',
       ''default-src '' @ [CHR 0x27] @ ''self'' @ [CHR 0x27] @ ''; base-uri '' @ [CHR 0x27] @ ''self'' @ [CHR 0x27] @
       ''; frame-ancestors '' @ [CHR 0x27] @ ''none'' @ [CHR 0x27]),
      (''referrer-policy'', ''no-referrer''),
      (''strict-transport-security'', ''max-age=31536000; includeSubDomains''),
      (''x-content-type-options'', ''nosniff''),
      (''x-frame-options'', ''DENY'')]"

definition with_headers :: "'j HttpOps \<Rightarrow> 'j NivasaResponse \<Rightarrow> (string \<times> string) list \<Rightarrow> 'j NivasaResponse" where
  "with_headers H r headers = foldl (\<lambda>acc (name, val). with_header H acc name val) r headers"

definition helmet_middleware :: "'j HttpOps \<Rightarrow> ('j, 'w) NivasaMiddleware" where
  "helmet_middleware H rq = RunNext rq (\<lambda>r. Respond (with_headers H r helmet_headers))"

text \<open>\<open>Uuid::new_v4\<close> draws from the world.\<close>

definition request_id_middleware :: "'j HttpOps \<Rightarrow> ('w \<Rightarrow> string \<times> 'w) \<Rightarrow> ('j, 'w) NivasaMiddleware" where
  "request_id_middleware H new_uuid rq =
     (let forward = (\<lambda>request_id. RunNext (set_header H rq ''x-request-id'' request_id)
                        (\<lambda>r. Respond (with_header H r ''x-request-id'' request_id)))
      in case request_id_from_request H rq of
           Some request_id \<Rightarrow> forward request_id
         | None \<Rightarrow> Perform (\<lambda>w. snd (new_uuid w)) (\<lambda>w. forward (fst (new_uuid w))))"

record LogContext =
  lc_request_id :: "string option"
  lc_user_id :: "string option"
  lc_module_name :: "string option"

definition or_else :: "'a option \<Rightarrow> 'a option \<Rightarrow> 'a option" where
  "or_else a b = (case a of Some x \<Rightarrow> Some x | None \<Rightarrow> b)"

definition log_context_from_request_and_response :: "'j HttpOps \<Rightarrow> 'j NivasaRequest \<Rightarrow> 'j NivasaResponse \<Rightarrow> LogContext" where
  "log_context_from_request_and_response H rq r =
     (let find = (\<lambda>name. or_else (header_value_from_request H rq name) (header_value_from_response H r name))
      in \<lparr>lc_request_id = find ''x-request-id'', lc_user_id = find ''x-user-id'', lc_module_name = find ''x-module-name''\<rparr>)"

record RequestLog =
  rl_context :: LogContext
  rl_method :: string
  rl_path :: string
  rl_status :: "16 word"

text \<open>The logger, up to the duration it adds to the line.\<close>

definition logger_middleware :: "'j HttpOps \<Rightarrow> (RequestLog \<Rightarrow> 'w \<Rightarrow> 'w) \<Rightarrow> ('j, 'w) NivasaMiddleware" where
  "logger_middleware H info rq =
     RunNext rq (\<lambda>r.
       Perform (info \<lparr>rl_context = log_context_from_request_and_response H rq r, rl_method = rq_method rq,
                      rl_path = rq_path rq, rl_status = rs_status r\<rparr>)
         (\<lambda>w. Respond r))"

subsection \<open>Compression\<close>

datatype CompressionFormat = Brotli | Gzip | Deflate

text \<open>The features of the build.\<close>

record CompressionFeatures =
  cf_brotli :: bool
  cf_gzip :: bool
  cf_deflate :: bool

definition encoding_format :: "CompressionFeatures \<Rightarrow> string \<Rightarrow> CompressionFormat option" where
  "encoding_format F encoding0 =
     (let encoding = trim (hd (split_on CHR '';'' (trim encoding0)))
      in if encoding = ''br'' then (if cf_brotli F then Some Brotli else None)
         else if encoding = ''gzip'' then (if cf_gzip F then Some Gzip else None)
         else if encoding = ''deflate'' then (if cf_deflate F then Some Deflate else None)
         else if encoding = ''*''
         then (if cf_brotli F then Some Brotli else if cf_gzip F then Some Gzip
               else if cf_deflate F then Some Deflate else None)
         else None)"

definition accepts_compression :: "CompressionFeatures \<Rightarrow> 'j HttpOps \<Rightarrow> 'j NivasaRequest \<Rightarrow> CompressionFormat option" where
  "accepts_compression F H rq =
     Option.bind (header H rq ''accept-encoding'') (\<lambda>v.
       case header_to_str H v of
         Inr t \<Rightarrow> find_map (encoding_format F) (split_on CHR '','' t)
       | Inl _ \<Rightarrow> None)"

definition eq_ignore_ascii_case :: "string \<Rightarrow> string \<Rightarrow> bool" where
  "eq_ignore_ascii_case a b \<longleftrightarrow> to_ascii_lowercase a = to_ascii_lowercase b"

definition append_vary_accept_encoding :: "'j HttpOps \<Rightarrow> Headers \<Rightarrow> Headers" where
  "append_vary_accept_encoding H headers =
     (let updated =
            (case first_value H headers ''vary'' of
               Some existing \<Rightarrow>
                 if list_ex (\<lambda>part. eq_ignore_ascii_case (trim part) ''accept-encoding'') (split_on CHR '','' existing)
                 then None else Some (existing @ '', Accept-Encoding'')
             | None \<Rightarrow> Some ''Accept-Encoding'')
      in case updated of
           None \<Rightarrow> headers
         | Some val \<Rightarrow> (case header_value H val of Some v \<Rightarrow> headers(''vary'' \<mapsto> [v]) | None \<Rightarrow> headers))"

fun format_name :: "CompressionFormat \<Rightarrow> string" where
  "format_name Brotli = ''br''"
| "format_name Gzip = ''gzip''"
| "format_name Deflate = ''deflate''"

definition compress_response ::
  "'j HttpOps \<Rightarrow> (CompressionFormat \<Rightarrow> bytes \<Rightarrow> bytes) \<Rightarrow> 'j NivasaResponse \<Rightarrow> CompressionFormat \<Rightarrow> 'j NivasaResponse" where
  "compress_response H encode r format =
     (if body_is_empty (rs_body r) then r
      else
        let compressed = encode format (as_bytes H (rs_body r));
            headers = ((rs_headers r)(''content-length'' := None))(''content-encoding'' \<mapsto> [format_name format]);
            headers1 = append_vary_accept_encoding H headers;
            headers2 = (case header_value H (show_nat (length compressed)) of
                          Some v \<Rightarrow> headers1(''content-length'' \<mapsto> [v]) | None \<Rightarrow> headers1)
        in r\<lparr>rs_headers := headers2, rs_body := Bytes compressed\<rparr>)"

definition compression_middleware ::
  "CompressionFeatures \<Rightarrow> 'j HttpOps \<Rightarrow> (CompressionFormat \<Rightarrow> bytes \<Rightarrow> bytes) \<Rightarrow> ('j, 'w) NivasaMiddleware" where
  "compression_middleware F H encode rq =
     RunNext rq (\<lambda>r. Respond (case accepts_compression F H rq of
                                 Some format \<Rightarrow> compress_response H encode r format
                               | None \<Rightarrow> r))"

end
