(* ===== verification/Http_Cors.thy ===== *)
theory Http_Cors
  imports Http_Middleware
begin

text \<open>
  Cross-origin resource sharing (\<open>CorsOptions\<close> and the CORS functions of \<open>nivasa-http/src/server.rs\<close>): the header
  values that a configuration allows, the headers added to every response, and the answer to a preflight request.
\<close>

record CorsOptions =
  allowed_origins :: "string list option"
  cors_methods :: "string list option"
  allowed_headers :: "string list option"
  allow_credentials :: bool

definition permissive :: CorsOptions where
  "permissive = \<lparr>allowed_origins = None, cors_methods = None, allowed_headers = None, allow_credentials = False\<rparr>"

definition allow_origins :: "CorsOptions \<Rightarrow> string list \<Rightarrow> CorsOptions" where
  "allow_origins co origins = co\<lparr>allowed_origins := Some origins\<rparr>"

definition allow_methods :: "CorsOptions \<Rightarrow> string list \<Rightarrow> CorsOptions" where
  "allow_methods co methods = co\<lparr>cors_methods := Some methods\<rparr>"

definition allow_headers :: "CorsOptions \<Rightarrow> string list \<Rightarrow> CorsOptions" where
  "allow_headers co headers = co\<lparr>allowed_headers := Some headers\<rparr>"

definition set_allow_credentials :: "CorsOptions \<Rightarrow> bool \<Rightarrow> CorsOptions" where
  "set_allow_credentials co allowed = co\<lparr>allow_credentials := allowed\<rparr>"

definition allow_origin_header_value :: "'j HttpOps \<Rightarrow> CorsOptions \<Rightarrow> string option \<Rightarrow> string option" where
  "allow_origin_header_value H co request_origin =
     (case allowed_origins co of
        Some origins \<Rightarrow>
          (case request_origin of
             None \<Rightarrow> None
           | Some origin \<Rightarrow> if list_ex (\<lambda>a. a = origin) origins then header_value H origin else None)
      | None \<Rightarrow>
          (case (allow_credentials co, request_origin) of
             (True, Some origin) \<Rightarrow> header_value H origin
           | (True, None) \<Rightarrow> None
           | (False, _) \<Rightarrow> Some ''*''))"

definition allow_methods_header_value :: "'j HttpOps \<Rightarrow> CorsOptions \<Rightarrow> Headers \<Rightarrow> string option" where
  "allow_methods_header_value H co headers =
     (case cors_methods co of
        Some methods \<Rightarrow> if methods = [] then None else header_value H (join '', '' methods)
      | None \<Rightarrow>
          (case first_value H headers ''access-control-request-method'' of
             None \<Rightarrow> None
           | Some requested0 \<Rightarrow>
               let requested = trim requested0
               in if requested = [] then None
                  else if eq_ignore_ascii_case requested ''OPTIONS'' then header_value H ''OPTIONS''
                  else header_value H (requested @ '', OPTIONS'')))"

definition allow_headers_header_value :: "'j HttpOps \<Rightarrow> CorsOptions \<Rightarrow> Headers \<Rightarrow> string option" where
  "allow_headers_header_value H co headers =
     (case allowed_headers co of
        Some names \<Rightarrow> if names = [] then None else header_value H (join '', '' names)
      | None \<Rightarrow> Option.bind (first_value H headers ''access-control-request-headers'') (header_value H))"

definition allow_credentials_header_value :: "CorsOptions \<Rightarrow> string option" where
  "allow_credentials_header_value co = (if allow_credentials co then Some ''true'' else None)"

text \<open>A header value goes through \<open>to_str\<close> before it is set.\<close>

definition set_if_some :: "'j HttpOps \<Rightarrow> 'j NivasaResponse \<Rightarrow> string \<Rightarrow> string option \<Rightarrow> 'j NivasaResponse" where
  "set_if_some H r name v =
     (case v of
        None \<Rightarrow> r
      | Some raw \<Rightarrow> (case header_to_str H raw of Inr t \<Rightarrow> with_header H r name t | Inl _ \<Rightarrow> r))"

definition apply_cors_headers_to_response ::
  "'j HttpOps \<Rightarrow> 'j NivasaResponse \<Rightarrow> CorsOptions option \<Rightarrow> string option \<Rightarrow> 'j NivasaResponse" where
  "apply_cors_headers_to_response H r cors request_origin =
     (case cors of
        None \<Rightarrow> r
      | Some co \<Rightarrow>
          set_if_some H
            (set_if_some H r ''access-control-allow-origin'' (allow_origin_header_value H co request_origin))
            ''access-control-allow-credentials'' (allow_credentials_header_value co))"

definition is_cors_preflight :: "Headers \<Rightarrow> string \<Rightarrow> bool" where
  "is_cors_preflight headers method \<longleftrightarrow>
     method = ''OPTIONS'' \<and> headers ''origin'' \<noteq> None \<and> headers ''access-control-request-method'' \<noteq> None"

definition build_cors_preflight_nivasa_response ::
  "'j HttpOps \<Rightarrow> Headers \<Rightarrow> CorsOptions option \<Rightarrow> string option \<Rightarrow> 'j NivasaResponse" where
  "build_cors_preflight_nivasa_response H headers cors request_origin =
     (let r0 = apply_cors_headers_to_response H (response_new 204 Empty) cors request_origin;
          r1 = set_if_some H r0 ''access-control-allow-methods''
                 (Option.bind cors (\<lambda>co. allow_methods_header_value H co headers));
          r2 = set_if_some H r1 ''access-control-allow-headers''
                 (Option.bind cors (\<lambda>co. allow_headers_header_value H co headers))
      in case cors of
           None \<Rightarrow> r2
         | Some co \<Rightarrow> set_if_some H r2 ''access-control-allow-credentials'' (allow_credentials_header_value co))"

section \<open>What a browser is told\<close>

text \<open>The documented behaviour of the header types on what the CORS functions set: the names are canonical, and a
  value that was accepted reads back as it was.\<close>

definition plain_headers :: "'j HttpOps \<Rightarrow> bool" where
  "plain_headers H \<longleftrightarrow>
     (\<forall>name \<in> {''access-control-allow-origin'', ''access-control-allow-credentials'', ''access-control-allow-methods'',
                 ''access-control-allow-headers''}. header_name H name = Some name) \<and>
     (\<forall>v u. header_value H v = Some u \<longrightarrow> u = v \<and> header_to_str H u = Inr u) \<and>
     header_value H ''*'' = Some ''*'' \<and> header_value H ''true'' = Some ''true''"

lemma set_if_some_header:
  assumes "plain_headers H" "v = None \<or> (\<exists>t. v = Some t \<and> header_value H t = Some t)"
    "name \<in> {''access-control-allow-origin'', ''access-control-allow-credentials'', ''access-control-allow-methods'',
                 ''access-control-allow-headers''}"
  shows "rs_headers (set_if_some H r name v) = (case v of None \<Rightarrow> rs_headers r | Some t \<Rightarrow> (rs_headers r)(name \<mapsto> [t]))"
  using assms
  by (auto simp: plain_headers_def set_if_some_def with_header_def put_header_def split: option.splits sum.splits)

lemma accepted_value:
  "plain_headers H \<Longrightarrow> header_value H t = Some v \<Longrightarrow> header_value H v = Some v"
  by (auto simp: plain_headers_def)

lemma cors_values:
  assumes "plain_headers H"
  shows "allow_origin_header_value H co og = Some v \<Longrightarrow> header_value H v = Some v"
    "allow_credentials_header_value co = Some v \<Longrightarrow> header_value H v = Some v"
    "allow_methods_header_value H co hs = Some v \<Longrightarrow> header_value H v = Some v"
    "allow_headers_header_value H co hs = Some v \<Longrightarrow> header_value H v = Some v"
  using assms accepted_value [OF assms]
  by (auto simp: allow_origin_header_value_def allow_credentials_header_value_def allow_methods_header_value_def
      allow_headers_header_value_def plain_headers_def Let_def bind_eq_Some_conv split: option.splits if_splits bool.splits)

lemma cors_response_headers:
  assumes "plain_headers H"
  shows "rs_headers (apply_cors_headers_to_response H r (Some co) og) =
    (let h = (case allow_origin_header_value H co og of None \<Rightarrow> rs_headers r
                | Some t \<Rightarrow> (rs_headers r)(''access-control-allow-origin'' \<mapsto> [t]))
     in if allow_credentials co then h(''access-control-allow-credentials'' \<mapsto> [''true'']) else h)"
  using assms cors_values(1) [OF assms, of co og] cors_values(2) [OF assms, of co]
  by (cases "allow_origin_header_value H co og")
    (simp_all add: apply_cors_headers_to_response_def set_if_some_header allow_credentials_header_value_def Let_def)

text \<open>What a response tells the browser. A response that did not name an allowed origin itself names one exactly
  when the configuration lists the origin of the request or lists no origins; a listed configuration never names an
  origin outside its list, and no configuration combines the wildcard with credentials unless the request itself
  claims the origin \<open>*\<close>. Credentials are allowed exactly when configured. Without a list but with credentials,
  every origin is named back and gets credentials.\<close>

theorem cors_origin_safe:
  assumes "plain_headers H" "rs_headers r ''access-control-allow-origin'' = None"
    "rs_headers r ''access-control-allow-credentials'' = None"
  shows "rs_headers (apply_cors_headers_to_response H r (Some co) og) ''access-control-allow-origin'' =
      (case allowed_origins co of
         Some origins \<Rightarrow> (case og of Some v \<Rightarrow> if v \<in> set origins \<and> header_value H v \<noteq> None then Some [v] else None | None \<Rightarrow> None)
       | None \<Rightarrow>
           if allow_credentials co then (case og of Some v \<Rightarrow> if header_value H v \<noteq> None then Some [v] else None | None \<Rightarrow> None)
           else Some [''*'']) \<and>
    rs_headers (apply_cors_headers_to_response H r (Some co) og) ''access-control-allow-credentials'' =
      (if allow_credentials co then Some [''true''] else None) \<and>
    (rs_headers (apply_cors_headers_to_response H r (Some co) og) ''access-control-allow-origin'' = Some [''*''] \<and>
     rs_headers (apply_cors_headers_to_response H r (Some co) og) ''access-control-allow-credentials'' = Some [''true''] \<longrightarrow>
     og = Some ''*'')"
proof -
  have eq: "header_value H v = Some u \<Longrightarrow> u = v" for v u using assms(1) by (auto simp: plain_headers_def)
  have "allow_origin_header_value H co og =
      (case allowed_origins co of
         Some origins \<Rightarrow> (case og of Some v \<Rightarrow> if v \<in> set origins \<and> header_value H v \<noteq> None then Some v else None | None \<Rightarrow> None)
       | None \<Rightarrow>
           if allow_credentials co then (case og of Some v \<Rightarrow> if header_value H v \<noteq> None then Some v else None | None \<Rightarrow> None)
           else Some ''*'')"
    using eq by (auto simp: allow_origin_header_value_def list_ex_iff split: option.splits bool.splits)
  then show ?thesis
    using assms(2,3)
    by (auto simp: cors_response_headers [OF assms(1)] Let_def split: option.splits if_splits)
qed

end
