(* ===== verification/Interceptors.thy ===== *)
theory Interceptors
  imports Http_Common
begin

text \<open>
  Interceptors (\<open>nivasa-interceptors/src/lib.rs\<close>): the context they see, the chain around a handler, and the timeout,
  class serialiser, logging and cache interceptors.

  \<open>CallHandler::handle\<close> takes its object, so an interceptor calls the rest of the chain at most once: it either
  answers itself, or goes on with the result of the rest. Both may change the world; the clock is read from it.
\<close>

record ('v, 'j) InterceptorContext =
  ic_request_method :: "string option"
  ic_request_path :: "string option"
  ic_handler_name :: "string option"
  ic_class_name :: "string option"
  ic_handler_metadata :: "string \<rightharpoonup> string"
  ic_class_metadata :: "string \<rightharpoonup> string"
  ic_custom_data :: "string \<rightharpoonup> string"
  ic_request_context :: "('v, 'j) RequestContext option"

definition interceptor_context_new :: "('v, 'j) InterceptorContext" where
  "interceptor_context_new =
     \<lparr>ic_request_method = None, ic_request_path = None, ic_handler_name = None, ic_class_name = None,
      ic_handler_metadata = Map.empty, ic_class_metadata = Map.empty, ic_custom_data = Map.empty,
      ic_request_context = None\<rparr>"

definition with_request :: "('v, 'j) InterceptorContext \<Rightarrow> string \<Rightarrow> string \<Rightarrow> ('v, 'j) InterceptorContext" where
  "with_request ctx method path = ctx\<lparr>ic_request_method := Some method, ic_request_path := Some path\<rparr>"

definition with_handler_name :: "('v, 'j) InterceptorContext \<Rightarrow> string \<Rightarrow> ('v, 'j) InterceptorContext" where
  "with_handler_name ctx name = ctx\<lparr>ic_handler_name := Some name\<rparr>"

definition with_class_name :: "('v, 'j) InterceptorContext \<Rightarrow> string \<Rightarrow> ('v, 'j) InterceptorContext" where
  "with_class_name ctx name = ctx\<lparr>ic_class_name := Some name\<rparr>"

type_synonym ('v, 'j, 'r, 'x, 'w) Interceptor =
  "('v, 'j) InterceptorContext \<Rightarrow> 'w \<Rightarrow> (('x + 'r) + ('x + 'r \<Rightarrow> 'w \<Rightarrow> ('x + 'r) \<times> 'w)) \<times> 'w"

section \<open>The chain\<close>

text \<open>The chain around a call: the result, whether the call was made, and the world.\<close>

fun interceptor_chain ::
  "('v, 'j, 'r, 'x, 'w) Interceptor list \<Rightarrow> ('v, 'j) InterceptorContext \<Rightarrow> ('w \<Rightarrow> ('x + 'r) \<times> 'w) \<Rightarrow> 'w \<Rightarrow>
   ('x + 'r) \<times> bool \<times> 'w" where
  "interceptor_chain [] ctx call w = (case call w of (result, w1) \<Rightarrow> (result, True, w1))"
| "interceptor_chain (interceptor # rest) ctx call w =
     (case interceptor ctx w of
        (Inl result, w1) \<Rightarrow> (result, False, w1)
      | (Inr continue, w1) \<Rightarrow>
          (case interceptor_chain rest ctx call w1 of
             (result, called, w2) \<Rightarrow> (case continue result w2 of (result1, w3) \<Rightarrow> (result1, called, w3))))"

section \<open>Timeout\<close>

definition timeout_interceptor ::
  "('w \<Rightarrow> nat) \<Rightarrow> nat \<Rightarrow> ('v, 'j, 'r, ('j, 'e) HttpException, 'w) Interceptor" where
  "timeout_interceptor clock timeout ctx w =
     (let started = clock w
      in (Inr (\<lambda>result w1.
            (if clock w1 - started > timeout then Inl (from_status St_RequestTimeout ''request timed out'') else result, w1)), w))"

section \<open>Class serialiser\<close>

record ClassSerializer =
  cs_excluded_fields :: "string list"
  cs_exposed_fields :: "string list option"

text \<open>\<open>on_object f v\<close> is \<open>v\<close> with \<open>f\<close> applied to its fields if \<open>v\<close> is a JSON object, and \<open>v\<close> otherwise.\<close>

definition class_serialize_fields :: "ClassSerializer \<Rightarrow> (string \<rightharpoonup> 'j) \<Rightarrow> string \<rightharpoonup> 'j" where
  "class_serialize_fields cs obj =
     (let exposed = (case cs_exposed_fields cs of
                       Some names \<Rightarrow> (\<lambda>key. if key \<in> set names then obj key else None)
                     | None \<Rightarrow> obj)
      in if cs_excluded_fields cs = [] then exposed
         else (\<lambda>key. if key \<in> set (cs_excluded_fields cs) then None else exposed key))"

definition class_serializer_interceptor ::
  "(((string \<rightharpoonup> 'j) \<Rightarrow> string \<rightharpoonup> 'j) \<Rightarrow> 'j \<Rightarrow> 'j) \<Rightarrow> ClassSerializer \<Rightarrow> ('v, 'j, 'j, 'x, 'w) Interceptor" where
  "class_serializer_interceptor on_object cs ctx w =
     (Inr (\<lambda>result w1. (map_sum id (on_object (class_serialize_fields cs)) result, w1)), w)"

section \<open>Logging\<close>

record InterceptorLog =
  il_method :: string
  il_path :: string
  il_handler :: string
  il_class :: string
  il_status :: string
  il_duration :: nat

definition or_unknown :: "string option \<Rightarrow> string" where
  "or_unknown v = (case v of Some s \<Rightarrow> s | None \<Rightarrow> ''unknown'')"

definition log_line :: "InterceptorLog \<Rightarrow> string" where
  "log_line l =
     ''method='' @ il_method l @ '' path='' @ il_path l @ '' handler='' @ il_handler l @ '' class='' @ il_class l @
     '' status='' @ il_status l @ '' duration_ns='' @ show_nat (il_duration l)"

definition logging_interceptor ::
  "('w \<Rightarrow> nat) \<Rightarrow> (string \<Rightarrow> 'w \<Rightarrow> 'w) \<Rightarrow> ('r \<Rightarrow> string) \<Rightarrow> ('v, 'j, 'r, ('j, 'e) HttpException, 'w) Interceptor" where
  "logging_interceptor clock sink status_formatter ctx w =
     (let started = clock w
      in (Inr (\<lambda>result w1.
            let status = (case result of Inr r \<Rightarrow> status_formatter r | Inl err \<Rightarrow> show_nat (unat (status_code err)))
            in (result,
                sink (log_line \<lparr>il_method = or_unknown (ic_request_method ctx), il_path = or_unknown (ic_request_path ctx),
                       il_handler = or_unknown (ic_handler_name ctx), il_class = or_unknown (ic_class_name ctx),
                       il_status = status, il_duration = clock w1 - started\<rparr>) w1)), w))"

section \<open>Cache\<close>

record 'r CacheEntry =
  ce_value :: 'r
  ce_inserted_at :: nat

type_synonym 'r CacheStore = "string \<rightharpoonup> 'r CacheEntry"

text \<open>How the world holds the clock and the store of a cache.\<close>

record ('r, 'w) CacheAccess =
  ca_clock :: "'w \<Rightarrow> nat"
  ca_store :: "'w \<Rightarrow> 'r CacheStore"
  ca_update :: "('r CacheStore \<Rightarrow> 'r CacheStore) \<Rightarrow> 'w \<Rightarrow> 'w"

record ('v, 'j) CacheInterceptor =
  ci_key_resolver :: "('v, 'j) InterceptorContext \<Rightarrow> string"
  ci_ttl :: "nat option"

definition default_cache_key :: "('v, 'j) InterceptorContext \<Rightarrow> string" where
  "default_cache_key ctx =
     ''method='' @ or_unknown (ic_request_method ctx) @ '';path='' @ or_unknown (ic_request_path ctx) @
     '';handler='' @ or_unknown (ic_handler_name ctx) @ '';class='' @ or_unknown (ic_class_name ctx)"

definition cache_new :: "('v, 'j) CacheInterceptor" where
  "cache_new = \<lparr>ci_key_resolver = default_cache_key, ci_ttl = None\<rparr>"

definition cache_with_ttl :: "nat \<Rightarrow> ('v, 'j) CacheInterceptor" where
  "cache_with_ttl ttl = \<lparr>ci_key_resolver = default_cache_key, ci_ttl = Some ttl\<rparr>"

definition is_expired :: "nat option \<Rightarrow> nat \<Rightarrow> 'r CacheEntry \<Rightarrow> bool" where
  "is_expired ttl now entry \<longleftrightarrow> (case ttl of Some t \<Rightarrow> now - ce_inserted_at entry \<ge> t | None \<Rightarrow> False)"

definition cache_interceptor ::
  "('r, 'w) CacheAccess \<Rightarrow> ('v, 'j) CacheInterceptor \<Rightarrow> ('v, 'j, 'r, 'x, 'w) Interceptor" where
  "cache_interceptor A c ctx w =
     (let cache_key = ci_key_resolver c ctx;
          call = Inr (\<lambda>result w1.
            (result,
             case result of
               Inr r \<Rightarrow> ca_update A (\<lambda>store. store(cache_key \<mapsto> \<lparr>ce_value = r, ce_inserted_at = ca_clock A w1\<rparr>)) w1
             | Inl err \<Rightarrow> w1))
      in case ca_store A w cache_key of
           None \<Rightarrow> (call, w)
         | Some entry \<Rightarrow>
             if \<not> is_expired (ci_ttl c) (ca_clock A w) entry then (Inl (Inr (ce_value entry)), w)
             else (call, ca_update A (\<lambda>store. store(cache_key := None)) w))"

end
