(* ===== verification/Pipes.thy ===== *)
theory Pipes
  imports Guards
begin

text \<open>
  Pipes (\<open>nivasa-pipes/src/lib.rs\<close>): the metadata of an argument, the parsing, trimming, default, validation and
  enum pipes, and the chain of two pipes.

  A pipe is a function of the value, the metadata and the world. JSON values are a parameter: \<open>ValueOps\<close> extends the
  accessors of the guards by the constructors and tests that the pipes use. The parsers of floats and UUIDs are
  arguments; the integer parser of the standard library is modelled, on machine words.
\<close>

section \<open>Metadata and pipes\<close>

record ArgumentMetadata =
  am_param_name :: "string option"
  am_metatype :: "nat option"
  am_data_type :: "string option"
  am_index :: nat

definition argument_metadata_new :: "nat \<Rightarrow> ArgumentMetadata" where
  "argument_metadata_new i = \<lparr>am_param_name = None, am_metatype = None, am_data_type = None, am_index = i\<rparr>"

definition with_param_name :: "ArgumentMetadata \<Rightarrow> string \<Rightarrow> ArgumentMetadata" where
  "with_param_name a name = a\<lparr>am_param_name := Some name\<rparr>"

definition with_metatype :: "ArgumentMetadata \<Rightarrow> nat \<Rightarrow> ArgumentMetadata" where
  "with_metatype a t = a\<lparr>am_metatype := Some t\<rparr>"

definition with_data_type :: "ArgumentMetadata \<Rightarrow> string \<Rightarrow> ArgumentMetadata" where
  "with_data_type a data_type = a\<lparr>am_data_type := Some data_type\<rparr>"

record 'j ValueOps = "'j JsonOps" +
  value_of_bool :: "bool \<Rightarrow> 'j"
  value_of_int :: "int \<Rightarrow> 'j"
  value_of_str :: "string \<Rightarrow> 'j"
  is_null :: "'j \<Rightarrow> bool"
  is_object :: "'j \<Rightarrow> bool"

type_synonym ('j, 'e, 'w) Pipe = "'j \<Rightarrow> ArgumentMetadata \<Rightarrow> 'w \<Rightarrow> (('j, 'e) HttpException + 'j) \<times> 'w"

definition pipe_chain :: "('j, 'e, 'w) Pipe \<Rightarrow> ('j, 'e, 'w) Pipe \<Rightarrow> ('j, 'e, 'w) Pipe" where
  "pipe_chain first second v metadata w =
     (case first v metadata w of
        (Inl err, w1) \<Rightarrow> (Inl err, w1)
      | (Inr v1, w1) \<Rightarrow> second v1 metadata w1)"

section \<open>Pipes on strings\<close>

definition on_string ::
  "'j ValueOps \<Rightarrow> string \<Rightarrow> (string \<Rightarrow> ('j, 'e) HttpException + 'j) \<Rightarrow> ('j, 'e, 'w) Pipe" where
  "on_string V name f v metadata w =
     (case as_str V v of
        None \<Rightarrow> (Inl (bad_request (name @ '' expects a string value'')), w)
      | Some input \<Rightarrow> (f input, w))"

definition or_bad_request :: "string \<Rightarrow> 'a option \<Rightarrow> ('j, 'e) HttpException + 'a" where
  "or_bad_request msg r = (case r of Some x \<Rightarrow> Inr x | None \<Rightarrow> Inl (bad_request msg))"

definition quoted :: "string \<Rightarrow> string" where
  "quoted s = ''`'' @ s @ ''`''"

definition parse_bool :: "string \<Rightarrow> bool option" where
  "parse_bool s = (if s = ''true'' then Some True else if s = ''false'' then Some False else None)"

definition parse_bool_pipe :: "'j ValueOps \<Rightarrow> ('j, 'e, 'w) Pipe" where
  "parse_bool_pipe V =
     on_string V ''ParseBoolPipe'' (\<lambda>input.
       map_sum id (value_of_bool V)
         (or_bad_request (''ParseBoolPipe could not parse '' @ quoted input @ '' as a boolean'') (parse_bool input)))"

text \<open>\<open>str::parse\<close> of a signed integer: an optional sign, at least one digit, and checked arithmetic at the width.\<close>

definition digit_value :: "char \<Rightarrow> int option" where
  "digit_value c = (if CHR ''0'' \<le> c \<and> c \<le> CHR ''9'' then Some (int (of_char c) - 48) else None)"

definition checked :: "int \<Rightarrow> 'a :: len word option" where
  "checked i = (if - (2 ^ (LENGTH('a) - 1)) \<le> i \<and> i < 2 ^ (LENGTH('a) - 1) then Some (word_of_int i) else None)"

fun parse_digits :: "bool \<Rightarrow> 'a :: len word \<Rightarrow> string \<Rightarrow> 'a word option" where
  "parse_digits negative acc [] = Some acc"
| "parse_digits negative acc (c # cs) =
     (case checked (sint acc * 10) of
        None \<Rightarrow> None
      | Some (p :: 'a word) \<Rightarrow>
          (case digit_value c of
             None \<Rightarrow> None
           | Some d \<Rightarrow>
               (case checked (if negative then sint p - d else sint p + d) of
                  None \<Rightarrow> None
                | Some acc1 \<Rightarrow> parse_digits negative acc1 cs)))"

definition parse_int :: "string \<Rightarrow> 'a :: len word option" where
  "parse_int s =
     (case s of
        [] \<Rightarrow> None
      | c # cs \<Rightarrow>
          if (c = CHR ''+'' \<or> c = CHR ''-'') \<and> cs = [] then None
          else if c = CHR ''-'' then parse_digits True 0 cs
          else if c = CHR ''+'' then parse_digits False 0 cs
          else parse_digits False 0 s)"

text \<open>The two targets of the integer pipe.\<close>

record ('j, 't) ParseTarget =
  pt_parse :: "string \<Rightarrow> 't option"
  pt_into_value :: "'t \<Rightarrow> 'j"

definition target_i32 :: "'j ValueOps \<Rightarrow> ('j, 32 word) ParseTarget" where
  "target_i32 V = \<lparr>pt_parse = parse_int, pt_into_value = (\<lambda>i. value_of_int V (sint i))\<rparr>"

definition target_i64 :: "'j ValueOps \<Rightarrow> ('j, 64 word) ParseTarget" where
  "target_i64 V = \<lparr>pt_parse = parse_int, pt_into_value = (\<lambda>i. value_of_int V (sint i))\<rparr>"

definition parse_int_pipe :: "'j ValueOps \<Rightarrow> ('j, 't) ParseTarget \<Rightarrow> ('j, 'e, 'w) Pipe" where
  "parse_int_pipe V T =
     on_string V ''ParseIntPipe'' (\<lambda>input.
       map_sum id (pt_into_value T)
         (or_bad_request (''ParseIntPipe could not parse '' @ quoted input @ '' as an integer'') (pt_parse T input)))"

definition parse_float_pipe :: "'j ValueOps \<Rightarrow> ('j, 't) ParseTarget \<Rightarrow> ('j, 'e, 'w) Pipe" where
  "parse_float_pipe V T =
     on_string V ''ParseFloatPipe'' (\<lambda>input.
       map_sum id (pt_into_value T)
         (or_bad_request (''ParseFloatPipe could not parse '' @ quoted input @ '' as a float'') (pt_parse T input)))"

definition trim_pipe :: "'j ValueOps \<Rightarrow> ('j, 'e, 'w) Pipe" where
  "trim_pipe V = on_string V ''TrimPipe'' (\<lambda>input. Inr (value_of_str V (trim input)))"

definition parse_uuid_pipe :: "'j ValueOps \<Rightarrow> (string \<Rightarrow> string option) \<Rightarrow> ('j, 'e, 'w) Pipe" where
  "parse_uuid_pipe V uuid_parse =
     on_string V ''ParseUuidPipe'' (\<lambda>input.
       map_sum id (value_of_str V)
         (or_bad_request (''ParseUuidPipe could not parse '' @ quoted input @ '' as a UUID'') (uuid_parse input)))"

record ('j, 't) ParseEnumTarget =
  et_parse :: "string \<Rightarrow> string + 't"
  et_into_value :: "'t \<Rightarrow> 'j"

definition parse_enum_pipe :: "'j ValueOps \<Rightarrow> ('j, 't) ParseEnumTarget \<Rightarrow> ('j, 'e, 'w) Pipe" where
  "parse_enum_pipe V T =
     on_string V ''ParseEnumPipe'' (\<lambda>input.
       case et_parse T input of
         Inr t \<Rightarrow> Inr (et_into_value T t)
       | Inl reason \<Rightarrow>
           Inl (bad_request (''ParseEnumPipe could not parse '' @ quoted input @ '' as an enum variant: '' @ reason)))"

section \<open>Defaults and validation\<close>

definition default_value_pipe :: "'j ValueOps \<Rightarrow> 'j \<Rightarrow> ('j, 'e, 'w) Pipe" where
  "default_value_pipe V default_value v metadata w = (Inr (if is_null V v then default_value else v), w)"

record ('j, 't, 'v) DtoOps =
  dto_from_value :: "'j \<Rightarrow> string + 't"
  dto_validate :: "'t \<Rightarrow> 'v option"
  dto_to_value :: "'t \<Rightarrow> string + 'j"
  errors_to_value :: "'v \<Rightarrow> 'j"

definition validation_exception :: "('j, 't, 'v) DtoOps \<Rightarrow> 'v \<Rightarrow> ('j, 'e) HttpException" where
  "validation_exception D errors = with_details (bad_request ''Validation failed'') (errors_to_value D errors)"

definition validation_pipe :: "'j ValueOps \<Rightarrow> ('j, 't, 'v) DtoOps \<Rightarrow> ('j, 'e, 'w) Pipe" where
  "validation_pipe V D v metadata w =
     (if \<not> is_object V v then (Inl (bad_request ''ValidationPipe expects a JSON object value''), w)
      else
        (case dto_from_value D v of
           Inl err \<Rightarrow> (Inl (bad_request (''ValidationPipe could not deserialize request body: '' @ err)), w)
         | Inr dto \<Rightarrow>
             (case dto_validate D dto of
                Some errors \<Rightarrow> (Inl (validation_exception D errors), w)
              | None \<Rightarrow>
                  (case dto_to_value D dto of
                     Inl err \<Rightarrow> (Inl (bad_request (''ValidationPipe could not serialize validated DTO: '' @ err)), w)
                   | Inr r \<Rightarrow> (Inr r, w)))))"

section \<open>What the integer parser accepts\<close>

definition decimal :: "string \<Rightarrow> int" where
  "decimal ds = foldl (\<lambda>n c. 10 * n + (int (of_char c) - 48)) 0 ds"

definition all_digits :: "string \<Rightarrow> bool" where
  "all_digits ds \<longleftrightarrow> list_all (\<lambda>c. CHR ''0'' \<le> c \<and> c \<le> CHR ''9'') ds"

text \<open>A decimal numeral and its value.\<close>

definition numeral :: "string \<Rightarrow> int \<Rightarrow> bool" where
  "numeral s i \<longleftrightarrow>
     (\<exists>ds. ds \<noteq> [] \<and> all_digits ds \<and>
        (s = ds \<and> i = decimal ds \<or> s = CHR ''+'' # ds \<and> i = decimal ds \<or> s = CHR ''-'' # ds \<and> i = - decimal ds))"

definition in_range :: "nat \<Rightarrow> int \<Rightarrow> bool" where
  "in_range n i \<longleftrightarrow> - (2 ^ (n - 1)) \<le> i \<and> i < 2 ^ (n - 1)"

lemma checked_eq_Some:
  "checked i = Some (w :: 'a :: len word) \<longleftrightarrow> in_range LENGTH('a) i \<and> w = word_of_int i"
  by (auto simp: checked_def in_range_def)

lemma sint_in_range: "in_range LENGTH('a) i \<Longrightarrow> sint (word_of_int i :: 'a :: len word) = i"
  by (simp add: in_range_def signed_take_bit_int_eq_self sint_sbintrunc')

lemma digit_value_eq_Some:
  "digit_value c = Some d \<longleftrightarrow> CHR ''0'' \<le> c \<and> c \<le> CHR ''9'' \<and> d = int (of_char c) - 48"
  by (auto simp: digit_value_def)

lemma digit_bounds: "CHR ''0'' \<le> c \<Longrightarrow> 0 \<le> int (of_char c) - 48"
  by (simp add: less_eq_char_def)

text \<open>The value of digits after an accumulator, and that it only moves away from zero.\<close>

definition digits_after :: "bool \<Rightarrow> int \<Rightarrow> string \<Rightarrow> int" where
  "digits_after negative a ds =
     foldl (\<lambda>n c. if negative then 10 * n - (int (of_char c) - 48) else 10 * n + (int (of_char c) - 48)) a ds"

lemma digits_after_simps [simp]:
  "digits_after negative a [] = a"
  "digits_after negative a (c # cs) =
     digits_after negative (if negative then 10 * a - (int (of_char c) - 48) else 10 * a + (int (of_char c) - 48)) cs"
  by (simp_all add: digits_after_def)

lemma digits_after_away:
  "all_digits ds \<Longrightarrow> (if negative then a \<le> 0 else 0 \<le> a) \<Longrightarrow>
   (if negative then digits_after negative a ds \<le> a else a \<le> digits_after negative a ds)"
proof (induction ds arbitrary: a)
  case (Cons c cs)
  from Cons.prems have d: "0 \<le> int (of_char c) - 48" "all_digits cs"
    by (simp_all add: all_digits_def less_eq_char_def)
  show ?case
  proof (cases negative)
    case True
    with Cons.prems d Cons.IH [of "10 * a - (int (of_char c) - 48)"] show ?thesis by simp
  next
    case False
    with Cons.prems d Cons.IH [of "10 * a + (int (of_char c) - 48)"] show ?thesis by simp
  qed
qed simp

lemma digits_after_zero: "digits_after False 0 ds = decimal ds" "digits_after True 0 ds = - decimal ds"
proof -
  have "digits_after False a ds = foldl (\<lambda>n c. 10 * n + (int (of_char c) - 48)) a ds" for a
    by (simp add: digits_after_def)
  then show "digits_after False 0 ds = decimal ds" by (simp add: decimal_def)
  have "digits_after True (- a) ds = - digits_after False a ds" for a
    by (induction ds arbitrary: a) (simp_all add: algebra_simps, metis minus_add_distrib minus_diff_eq uminus_add_conv_diff)
  from this [of 0] show "digits_after True 0 ds = - decimal ds"
    using \<open>digits_after False 0 ds = decimal ds\<close> by simp
qed

lemma in_range_between: "in_range n i \<Longrightarrow> (0 \<le> j \<and> j \<le> i \<or> i \<le> j \<and> j \<le> 0) \<Longrightarrow> in_range n j"
proof -
  have "(0 :: int) < 2 ^ (n - 1)" by simp
  then show "in_range n i \<Longrightarrow> (0 \<le> j \<and> j \<le> i \<or> i \<le> j \<and> j \<le> 0) \<Longrightarrow> in_range n j"
    by (auto simp: in_range_def)
qed

lemma parse_digits_exact:
  assumes "if negative then sint acc \<le> 0 else 0 \<le> sint acc"
  shows "parse_digits negative acc ds = Some (w :: 'a :: len word) \<longleftrightarrow>
    all_digits ds \<and> in_range LENGTH('a) (digits_after negative (sint acc) ds) \<and>
    w = word_of_int (digits_after negative (sint acc) ds)"
  using assms
proof (induction ds arbitrary: acc)
  case Nil
  have "in_range LENGTH('a) (sint acc)"
    using sint_ge [of acc] sint_lt [of acc] by (simp add: in_range_def)
  then show ?case by (auto simp: all_digits_def)
next
  case (Cons c cs)
  let ?d = "int (of_char c) - 48" and ?p = "sint acc * 10"
  let ?n = "if negative then ?p - ?d else ?p + ?d"
  show ?case
  proof (cases "CHR ''0'' \<le> c \<and> c \<le> CHR ''9'' \<and> in_range LENGTH('a) ?p \<and> in_range LENGTH('a) ?n")
    case True
    then have sg: "if negative then ?n \<le> 0 else 0 \<le> ?n" and sn: "sint (word_of_int ?n :: 'a word) = ?n"
      using Cons.prems digit_bounds [of c] by (auto simp: sint_in_range split: if_splits)
    have "checked ?p = Some (word_of_int ?p :: 'a word)" "sint (word_of_int ?p :: 'a word) = ?p"
      "checked ?n = Some (word_of_int ?n :: 'a word)" "digit_value c = Some ?d"
      using True by (simp_all only: checked_eq_Some sint_in_range digit_value_def if_True simp_thms)
    then have "parse_digits negative acc (c # cs) = parse_digits negative (word_of_int ?n) cs"
      by (simp only: parse_digits.simps option.case)
    moreover have "digits_after negative (sint acc) (c # cs) = digits_after negative ?n cs"
      by (simp add: mult.commute)
    ultimately show ?thesis
      using Cons.IH [of "word_of_int ?n"] True sg unfolding sn by (simp add: all_digits_def)
  next
    case False
    have "parse_digits negative acc (c # cs) = None"
    proof (cases "in_range LENGTH('a) ?p \<and> CHR ''0'' \<le> c \<and> c \<le> CHR ''9''")
      case True
      then have "checked ?p = Some (word_of_int ?p :: 'a word)" "sint (word_of_int ?p :: 'a word) = ?p"
        "digit_value c = Some ?d" "checked ?n = (None :: 'a word option)"
        using False by (simp_all only: checked_eq_Some sint_in_range digit_value_def if_True simp_thms)
          (auto simp: checked_def in_range_def)
      then show ?thesis by (simp only: parse_digits.simps option.case)
    next
      case no: False
      show ?thesis
      proof (cases "in_range LENGTH('a) ?p")
        case True
        then have "checked ?p = Some (word_of_int ?p :: 'a word)" by (simp only: checked_eq_Some simp_thms)
        moreover have "digit_value c = None" using True no by (auto simp: digit_value_def)
        ultimately show ?thesis by (simp only: parse_digits.simps option.case)
      next
        case False
        then have "checked ?p = (None :: 'a word option)" by (auto simp: checked_def in_range_def)
        then show ?thesis by (simp only: parse_digits.simps option.case)
      qed
    qed
    moreover have "\<not> (all_digits (c # cs) \<and> in_range LENGTH('a) (digits_after negative (sint acc) (c # cs)))"
    proof
      assume a: "all_digits (c # cs) \<and> in_range LENGTH('a) (digits_after negative (sint acc) (c # cs))"
      then have d: "0 \<le> ?d" "all_digits cs" "CHR ''0'' \<le> c \<and> c \<le> CHR ''9''"
        by (simp_all add: all_digits_def less_eq_char_def)
      have n: "if negative then ?n \<le> ?p \<and> ?p \<le> 0 else 0 \<le> ?p \<and> ?p \<le> ?n" using Cons.prems d(1) by auto
      define D where "D = digits_after negative ?n cs"
      have "digits_after negative (sint acc) (c # cs) = D" by (simp add: D_def mult.commute)
      with a have D: "in_range LENGTH('a) D" by simp
      have away: "if negative then D \<le> ?n else ?n \<le> D"
        unfolding D_def by (rule digits_after_away [OF d(2)]) (use n in \<open>cases negative; simp\<close>)
      have "0 \<le> ?n \<and> ?n \<le> D \<and> 0 \<le> ?p \<and> ?p \<le> D \<or> D \<le> ?n \<and> ?n \<le> 0 \<and> D \<le> ?p \<and> ?p \<le> 0"
        using n away by (cases negative) simp_all
      then have "in_range LENGTH('a) ?n" "in_range LENGTH('a) ?p"
        using in_range_between [OF D, of ?n] in_range_between [OF D, of ?p] by blast+
      with d(3) False show False by blast
    qed
    ultimately show ?thesis by auto
  qed
qed

lemma parse_int_exact:
  "parse_int s = Some (w :: 'a :: len word) \<longleftrightarrow> (\<exists>i. numeral s i \<and> in_range LENGTH('a) i \<and> w = word_of_int i)"
proof -
  have pos: "parse_digits False 0 ds = Some w \<longleftrightarrow>
      all_digits ds \<and> in_range LENGTH('a) (decimal ds) \<and> w = word_of_int (decimal ds)" for ds
    using parse_digits_exact [of False 0 ds w] by (simp add: digits_after_zero)
  have neg: "parse_digits True 0 ds = Some w \<longleftrightarrow>
      all_digits ds \<and> in_range LENGTH('a) (- decimal ds) \<and> w = word_of_int (- decimal ds)" for ds
    using parse_digits_exact [of True 0 ds w] by (simp add: digits_after_zero)
  have sign: "all_digits (c # cs) \<Longrightarrow> c \<noteq> CHR ''+'' \<and> c \<noteq> CHR ''-''" for c cs
    by (auto simp: all_digits_def less_eq_char_def)
  show ?thesis
  proof (cases s)
    case Nil
    then show ?thesis by (simp add: parse_int_def numeral_def)
  next
    case (Cons c cs)
    consider "c = CHR ''-''" | "c = CHR ''+''" | "c \<noteq> CHR ''-''" "c \<noteq> CHR ''+''" by blast
    then show ?thesis
    proof cases
      case 1
      have "numeral s i \<longleftrightarrow> cs \<noteq> [] \<and> all_digits cs \<and> i = - decimal cs" for i
        using Cons 1 sign by (auto simp: numeral_def)
      with Cons 1 neg [of cs] show ?thesis by (auto simp: parse_int_def)
    next
      case 2
      have "numeral s i \<longleftrightarrow> cs \<noteq> [] \<and> all_digits cs \<and> i = decimal cs" for i
        using Cons 2 sign by (auto simp: numeral_def)
      with Cons 2 pos [of cs] show ?thesis by (auto simp: parse_int_def)
    next
      case 3
      have "numeral s i \<longleftrightarrow> all_digits s \<and> i = decimal s" for i
        using Cons 3 by (auto simp: numeral_def)
      with Cons 3 pos [of s] show ?thesis by (auto simp: parse_int_def)
    qed
  qed
qed

lemma parse_int_numeral:
  "numeral s n \<and> in_range LENGTH('a) n \<Longrightarrow>
   parse_int s = Some (word_of_int n :: 'a :: len word) \<and> sint (word_of_int n :: 'a word) = n"
  using parse_int_exact [of s "word_of_int n :: 'a word"] sint_in_range [where 'a = 'a, of n] by blast

lemma parse_int_other:
  "\<forall>n. \<not> (numeral s n \<and> in_range LENGTH('a) n) \<Longrightarrow> parse_int s = (None :: 'a :: len word option)"
  using parse_int_exact [where 'a = 'a, of s] by (cases "parse_int s :: 'a word option") blast+

text \<open>The integer pipe is exact at both widths: on a string that is a numeral (an optional sign and decimal
  digits) of a value in the range of the type, up to both ends of the range, it answers with that value; on every
  other string with status 400 and a message that quotes the string. It changes nothing else.\<close>

theorem parse_int_pipe_exact:
  assumes "as_str V v = Some s"
  shows "(numeral s n \<and> - (2 ^ 31) \<le> n \<and> n < 2 ^ 31 \<longrightarrow>
       parse_int_pipe V (target_i32 V) v metadata w = (Inr (value_of_int V n), w)) \<and>
    ((\<forall>n. \<not> (numeral s n \<and> - (2 ^ 31) \<le> n \<and> n < 2 ^ 31)) \<longrightarrow>
       parse_int_pipe V (target_i32 V) v metadata w =
         (Inl (bad_request (''ParseIntPipe could not parse '' @ quoted s @ '' as an integer'')), w)) \<and>
    (numeral s n \<and> - (2 ^ 63) \<le> n \<and> n < 2 ^ 63 \<longrightarrow>
       parse_int_pipe V (target_i64 V) v metadata w = (Inr (value_of_int V n), w)) \<and>
    ((\<forall>n. \<not> (numeral s n \<and> - (2 ^ 63) \<le> n \<and> n < 2 ^ 63)) \<longrightarrow>
       parse_int_pipe V (target_i64 V) v metadata w =
         (Inl (bad_request (''ParseIntPipe could not parse '' @ quoted s @ '' as an integer'')), w))"
  using assms parse_int_numeral [where 'a = 32, of s n] parse_int_numeral [where 'a = 64, of s n]
    parse_int_other [where 'a = 32, of s] parse_int_other [where 'a = 64, of s]
  by (simp add: parse_int_pipe_def on_string_def target_i32_def target_i64_def or_bad_request_def in_range_def)

definition demo_values :: "(string + int) ValueOps" where
  "demo_values = \<lparr>as_str = (\<lambda>v. case v of Inl s \<Rightarrow> Some s | Inr _ \<Rightarrow> None), as_bool = Map.empty, as_u64 = Map.empty,
     as_array = Map.empty, value_of_bool = (\<lambda>b. Inr 0), value_of_int = Inr, value_of_str = Inl,
     is_null = (\<lambda>v. False), is_object = (\<lambda>v. False)\<rparr>"

theorem parse_int_pipe_exact_witness:
  "parse_int_pipe demo_values (target_i32 demo_values) (Inl ''-2147483648'') (argument_metadata_new 0) () =
     (Inr (Inr (- 2147483648)) :: (string + int, unit) HttpException + string + int, ())"
proof -
  have n: "numeral ''-2147483648'' (- 2147483648)"
    unfolding numeral_def
    by (rule exI [of _ "''2147483648''"]) (simp add: all_digits_def decimal_def less_eq_char_def)
  have v: "as_str demo_values (Inl ''-2147483648'') = Some ''-2147483648''" by (simp add: demo_values_def)
  have "parse_int_pipe demo_values (target_i32 demo_values) (Inl ''-2147483648'') (argument_metadata_new 0) () =
     (Inr (value_of_int demo_values (- 2147483648)), ())"
    by (rule parse_int_pipe_exact [OF v, THEN conjunct1, THEN mp]) (simp add: n)
  then show ?thesis by (simp add: demo_values_def)
qed

end
