(* ===== verification/Http_Server.thy ===== *)
theory Http_Server
  imports Request_Pipeline Http_Cors Interceptors Pipes
begin

text \<open>
  The server (\<open>nivasa-http/src/server.rs\<close>): its configuration and builder, and how it takes a request through
  middleware, routing, guards, pipes, interceptors, the handler and exception filters to a response.

  The parts that users supply are functions of their arguments and of a world \<open>'w\<close> that they may read and change. A
  handler or a filter may panic: its response is \<open>None\<close>. The JSON value type \<open>'j\<close> comes with the accessors \<open>J\<close> and the
  third-party functions \<open>H\<close>. \<open>Died\<close> is a panic of the server itself, which a refused transition is in a debug build.
\<close>

section \<open>Configuration\<close>

type_synonym ('j, 'w) RouteHandler = "'j NivasaRequest \<Rightarrow> 'w \<Rightarrow> 'j NivasaResponse option \<times> 'w"

record 'j ArgumentsHost =
  ah_request_context :: "('j NivasaRequest, 'j) RequestContext option"

definition arguments_host_new :: "'j ArgumentsHost" where
  "arguments_host_new = \<lparr>ah_request_context = None\<rparr>"

definition host_with_request_context :: "'j ArgumentsHost \<Rightarrow> ('j NivasaRequest, 'j) RequestContext \<Rightarrow> 'j ArgumentsHost" where
  "host_with_request_context host rc = host\<lparr>ah_request_context := Some rc\<rparr>"

record ('j, 'e, 'w) GlobalFilterBinding =
  gf_filter :: "('j, 'e) HttpException \<Rightarrow> 'j ArgumentsHost \<Rightarrow> 'w \<Rightarrow> 'j NivasaResponse option \<times> 'w"
  gf_exception_type :: "string option"
  gf_catch_all :: bool

record ('j, 'e, 'w) RouteHandlerBinding =
  rh_handler :: "('j, 'w) RouteHandler"
  rh_module_middlewares :: "('j, 'w) NivasaMiddleware list"
  rh_module_name :: "string option"
  rh_handler_filters :: "('j, 'e, 'w) GlobalFilterBinding list"
  rh_controller_filters :: "('j, 'e, 'w) GlobalFilterBinding list"

definition binding_new :: "('j, 'w) RouteHandler \<Rightarrow> ('j, 'e, 'w) RouteHandlerBinding" where
  "binding_new handler =
     \<lparr>rh_handler = handler, rh_module_middlewares = [], rh_module_name = None, rh_handler_filters = [],
      rh_controller_filters = []\<rparr>"

record ('j, 'w) RouteMiddlewareBinding =
  mb_pattern :: RoutePattern
  mb_excluded_paths :: "RoutePattern list"
  mb_middleware :: "('j, 'w) NivasaMiddleware"

type_synonym ('j, 'e, 'w) ServerGuard = "('j NivasaRequest, 'j, ('j, 'e) HttpException, 'w) Guard"

type_synonym ('j, 'e, 'w) ServerInterceptor =
  "('j NivasaRequest, 'j, 'j NivasaResponse, ('j, 'e) HttpException, 'w) Interceptor"

record ('j, 'e, 'w) NivasaServer =
  sv_routes :: "('j, 'e, 'w) RouteHandlerBinding RouteDispatchRegistry"
  sv_middleware :: "('j, 'w) NivasaMiddleware option"
  sv_module_middlewares :: "('j, 'w) NivasaMiddleware list"
  sv_route_middlewares :: "('j, 'w) RouteMiddlewareBinding list"
  sv_global_guards :: "('j, 'e, 'w) ServerGuard list"
  sv_global_pipes :: "('j, 'e, 'w) Pipe list"
  sv_interceptors :: "('j, 'e, 'w) ServerInterceptor list"
  sv_global_filters :: "('j, 'e, 'w) GlobalFilterBinding list"
  sv_cors :: "CorsOptions option"
  sv_request_body_size_limit :: "nat option"

section \<open>The builder\<close>

text \<open>The throttler storage of the builder is the \<open>allow\<close> of an object in the world, with the clock it reads.\<close>

record ('j, 'e, 'w) NivasaServerBuilder = "('j, 'e, 'w) NivasaServer" +
  sb_storage :: "'w storage_allow"
  sb_clock :: "'w \<Rightarrow> nat"

definition builder_new :: "'w storage_allow \<Rightarrow> ('w \<Rightarrow> nat) \<Rightarrow> ('j, 'e, 'w) NivasaServerBuilder" where
  "builder_new storage clock =
     \<lparr>sv_routes = dispatch_new, sv_middleware = None, sv_module_middlewares = [], sv_route_middlewares = [],
      sv_global_guards = [], sv_global_pipes = [], sv_interceptors = [], sv_global_filters = [], sv_cors = None,
      sv_request_body_size_limit = None, sb_storage = storage, sb_clock = clock\<rparr>"

definition add_route ::
  "('j, 'e, 'w) NivasaServerBuilder \<Rightarrow> RouteMethod \<Rightarrow> string \<Rightarrow> ('j, 'e, 'w) RouteHandlerBinding \<Rightarrow>
   RouteDispatchError + ('j, 'e, 'w) NivasaServerBuilder" where
  "add_route b method p binding =
     map_sum id (\<lambda>routes. b\<lparr>sv_routes := routes\<rparr>) (dispatch_register_pattern (sv_routes b) method p binding)"

definition route where
  "route b method p handler = add_route b method p (binding_new handler)"

definition route_with_filters where
  "route_with_filters b method p handler handler_filters controller_filters =
     add_route b method p
       ((binding_new handler)\<lparr>rh_handler_filters := handler_filters, rh_controller_filters := controller_filters\<rparr>)"

text \<open>\<open>rsplit("::").next()\<close>: what follows the last double colon.\<close>

definition short_type_name :: "string \<Rightarrow> string" where
  "short_type_name type_name = (case rsplit_once ''::'' type_name of Some (_, name) \<Rightarrow> name | None \<Rightarrow> type_name)"

definition route_with_module_middlewares where
  "route_with_module_middlewares b method p type_name module_middlewares handler =
     add_route b method p
       ((binding_new handler)\<lparr>rh_module_middlewares := module_middlewares,
          rh_module_name := Some (short_type_name type_name)\<rparr>)"

definition route_header_versioned where
  "route_header_versioned b method version p handler =
     map_sum id (\<lambda>routes. b\<lparr>sv_routes := routes\<rparr>)
       (register_header_versioned_route (sv_routes b) method version p (binding_new handler))"

definition route_media_type_versioned where
  "route_media_type_versioned b method version p handler =
     map_sum id (\<lambda>routes. b\<lparr>sv_routes := routes\<rparr>)
       (register_media_type_versioned_route (sv_routes b) method version p (binding_new handler))"

definition use_throttler_storage where
  "use_throttler_storage b storage clock = b\<lparr>sb_storage := storage, sb_clock := clock\<rparr>"

definition builder_middleware where
  "builder_middleware b middleware = b\<lparr>sv_middleware := Some middleware\<rparr>"

definition module_middleware where
  "module_middleware b middleware = b\<lparr>sv_module_middlewares := sv_module_middlewares b @ [middleware]\<rparr>"

definition use_global_guard where
  "use_global_guard b guard = b\<lparr>sv_global_guards := sv_global_guards b @ [guard]\<rparr>"

definition use_global_pipe where
  "use_global_pipe b pipe = b\<lparr>sv_global_pipes := sv_global_pipes b @ [pipe]\<rparr>"

definition add_interceptor where
  "add_interceptor b interceptor = b\<lparr>sv_interceptors := sv_interceptors b @ [interceptor]\<rparr>"

definition use_global_filter where
  "use_global_filter b binding = b\<lparr>sv_global_filters := sv_global_filters b @ [binding]\<rparr>"

definition cors_options where
  "cors_options b co = b\<lparr>sv_cors := Some co\<rparr>"

definition request_body_size_limit where
  "request_body_size_limit b limit = b\<lparr>sv_request_body_size_limit := Some limit\<rparr>"

definition server_build :: "('j, 'e, 'w) NivasaServerBuilder \<Rightarrow> ('j, 'e, 'w) NivasaServer" where
  "server_build b = NivasaServer.truncate b"

text \<open>\<open>apply(middleware).exclude(path)...for_routes(path)\<close>.\<close>

record ('j, 'e, 'w) RouteMiddlewareBuilder =
  rmb_builder :: "('j, 'e, 'w) NivasaServerBuilder"
  rmb_middleware :: "('j, 'w) NivasaMiddleware"
  rmb_excluded_paths :: "RoutePattern list"

definition apply_middleware where
  "apply_middleware b middleware = \<lparr>rmb_builder = b, rmb_middleware = middleware, rmb_excluded_paths = []\<rparr>"

definition exclude where
  "exclude rb p = map_sum id (\<lambda>pat. rb\<lparr>rmb_excluded_paths := rmb_excluded_paths rb @ [pat]\<rparr>) (static_path p)"

definition for_routes where
  "for_routes rb p =
     map_sum id
       (\<lambda>pat. (rmb_builder rb)\<lparr>sv_route_middlewares := sv_route_middlewares (rmb_builder rb) @
          [\<lparr>mb_pattern = pat, mb_excluded_paths = rmb_excluded_paths rb, mb_middleware = rmb_middleware rb\<rparr>]\<rparr>)
       (parse_pattern p)"

section \<open>Headers and contexts of a request\<close>

definition build_response :: "'j HttpOps \<Rightarrow> 'j NivasaResponse \<Rightarrow> 16 word \<times> Headers \<times> bytes" where
  "build_response H r = (rs_status r, rs_headers r, as_bytes H (rs_body r))"

definition with_request_id :: "'j HttpOps \<Rightarrow> 'j NivasaResponse \<Rightarrow> string option \<Rightarrow> 'j NivasaResponse" where
  "with_request_id H r request_id =
     (case request_id of Some i \<Rightarrow> with_header H r ''x-request-id'' i | None \<Rightarrow> r)"

definition attach_module_name :: "'j HttpOps \<Rightarrow> 'j NivasaRequest \<Rightarrow> string option \<Rightarrow> 'j NivasaRequest" where
  "attach_module_name H rq module_name =
     (case module_name of Some name \<Rightarrow> set_header H rq ''x-module-name'' name | None \<Rightarrow> rq)"

definition request_header_value :: "'j HttpOps \<Rightarrow> 'j NivasaRequest \<Rightarrow> string \<Rightarrow> string option" where
  "request_header_value H rq name =
     Option.bind (header H rq name) (\<lambda>v. case header_to_str H v of Inr t \<Rightarrow> non_blank t | Inl _ \<Rightarrow> None)"

definition request_id_from_headers :: "'j HttpOps \<Rightarrow> ('w \<Rightarrow> string \<times> 'w) \<Rightarrow> Headers \<Rightarrow> 'w \<Rightarrow> string \<times> 'w" where
  "request_id_from_headers H new_uuid headers w =
     (case Option.bind (first_value H headers ''x-request-id'') non_blank of
        Some i \<Rightarrow> (i, w)
      | None \<Rightarrow> new_uuid w)"

definition seed_request_identity :: "'j HttpOps \<Rightarrow> 'j NivasaRequest \<Rightarrow> string \<Rightarrow> 'j NivasaRequest" where
  "seed_request_identity H rq request_id = set_header H rq ''x-request-id'' request_id"

text \<open>The type of requests among the types of opaque values.\<close>

definition request_type :: nat where
  "request_type = 0"

definition put_custom :: "'j HttpOps \<Rightarrow> string \<Rightarrow> string option \<Rightarrow> ('v, 'j) RequestContext \<Rightarrow> ('v, 'j) RequestContext" where
  "put_custom H key v rc = (case v of Some s \<Rightarrow> fst (set_custom_data rc key (json_string H s)) | None \<Rightarrow> rc)"

definition request_context_from_request :: "'j HttpOps \<Rightarrow> 'j NivasaRequest \<Rightarrow> ('j NivasaRequest, 'j) RequestContext" where
  "request_context_from_request H rq =
     put_custom H ''module_name'' (request_header_value H rq ''x-module-name'')
       (put_custom H ''user_id'' (request_header_value H rq ''x-user-id'')
         (put_custom H ''request_id'' (request_header_value H rq ''x-request-id'')
           (put_custom H ''authorization'' (request_header_value H rq ''authorization'')
             (put_custom H ''request_path'' (Some (rq_path rq))
               (put_custom H ''request_method'' (Some (rq_method rq))
                 (fst (insert_request_data context_new request_type rq)))))))"

definition guard_context :: "'j HttpOps \<Rightarrow> 'j NivasaRequest \<Rightarrow> ('j NivasaRequest, 'j) ExecutionContext" where
  "guard_context H rq =
     with_request_context (execution_context_new (COther (Opaque request_type rq))) (request_context_from_request H rq)"

definition finalize_nivasa_response ::
  "'j HttpOps \<Rightarrow> 'j NivasaResponse \<Rightarrow> CorsOptions option \<Rightarrow> string option \<Rightarrow> string option \<Rightarrow> 'j NivasaResponse" where
  "finalize_nivasa_response H r cors request_origin request_id =
     apply_cors_headers_to_response H (with_request_id H r request_id) cors request_origin"

text \<open>A route with its own throttle: the handler is wrapped with a throttler guard on the builder's storage.\<close>

definition throttled_handler ::
  "'j JsonOps \<Rightarrow> 'j HttpOps \<Rightarrow> 'w storage_allow \<Rightarrow> ('w \<Rightarrow> nat) \<Rightarrow> 32 word \<Rightarrow> 64 word \<Rightarrow>
   ('j, 'w) RouteHandler \<Rightarrow> ('j, 'w) RouteHandler" where
  "throttled_handler J H storage clock limit ttl_secs handler rq w =
     (case allows_request J storage \<lparr>tg_limit = limit, tg_ttl = duration_from_secs ttl_secs\<rparr> (clock w) (guard_context H rq) w of
        (True, w1) \<Rightarrow> handler rq w1
      | (False, w1) \<Rightarrow> (Some (response_new 429 (Text ''too many requests'')), w1))"

definition route_with_throttle where
  "route_with_throttle J H b method p handler limit ttl_secs =
     add_route b method p (binding_new (throttled_handler J H (sb_storage b) (sb_clock b) limit ttl_secs handler))"

section \<open>Versions\<close>

definition requested_api_version :: "'j HttpOps \<Rightarrow> 'j NivasaRequest \<Rightarrow> string option" where
  "requested_api_version H rq =
     or_else (Option.bind (first_value H (rq_headers rq) ''x-api-version'') parse_api_version_header)
       (Option.bind (first_value H (rq_headers rq) ''accept'') parse_api_version_accept)"

text \<open>The table of the routes that the request's path and version select.\<close>

definition should_include :: "'a RouteDispatchEntry list \<Rightarrow> string \<Rightarrow> string option \<Rightarrow> 'a RouteDispatchEntry \<Rightarrow> bool" where
  "should_include routes p version entry \<longleftrightarrow>
     matches (de_pattern entry) p \<and>
     (case version of
        Some v \<Rightarrow>
          if list_ex (\<lambda>e. de_version e = Some v \<and> matches (de_pattern e) p) routes
          then de_version entry = Some v else de_version entry = None
      | None \<Rightarrow> de_version entry = None)"

definition register_selected ::
  "'a RouteDispatchEntry \<Rightarrow> 'a RouteDispatchRegistry \<Rightarrow> 'a RouteDispatchRegistry" where
  "register_selected entry selected =
     (case dispatch_register selected (de_method entry) (de_pattern entry) (de_value entry) of
        Inr selected1 \<Rightarrow> selected1
      | Inl _ \<Rightarrow> selected)"

definition versioned_routes_for_request ::
  "'j HttpOps \<Rightarrow> 'j NivasaRequest \<Rightarrow> 'a RouteDispatchRegistry \<Rightarrow> 'a RouteDispatchRegistry" where
  "versioned_routes_for_request H rq routes =
     fold (\<lambda>entry selected.
         if should_include (rd_routes routes) (rq_path rq) (requested_api_version H rq) entry
         then register_selected entry selected else selected)
       (rd_routes routes) dispatch_new"

definition module_name_for_request ::
  "'j HttpOps \<Rightarrow> 'j NivasaRequest \<Rightarrow> ('j, 'e, 'w) RouteHandlerBinding RouteDispatchRegistry \<Rightarrow> string option" where
  "module_name_for_request H rq routes =
     Option.bind
       (selection_resolve_entry (select_versioned routes (rq_path rq) (requested_api_version H rq)) (rq_method rq))
       (\<lambda>entry. rh_module_name (de_value entry))"

section \<open>Middleware\<close>

datatype 'j MiddlewareExecution =
    Forwarded "'j NivasaRequest"
  | ShortCircuited "'j NivasaRequest" "'j NivasaResponse"

text \<open>The next service only notes the request it was given, the last one if it is run again.\<close>

primrec run_capturing ::
  "('j, 'w) Flow \<Rightarrow> 'j NivasaRequest option \<Rightarrow> 'w \<Rightarrow> 'j NivasaResponse \<times> 'j NivasaRequest option \<times> 'w" where
  "run_capturing (Respond r) = (\<lambda>noted w. (r, noted, w))"
| "run_capturing (RunNext rq k) = (\<lambda>noted w. run_capturing (k (response_new 204 Empty)) (Some rq) w)"
| "run_capturing (Perform f k) = (\<lambda>noted w. run_capturing (k w) noted (f w))"

definition execute_middleware ::
  "('j, 'w) NivasaMiddleware \<Rightarrow> 'j NivasaRequest \<Rightarrow> 'w \<Rightarrow> 'j MiddlewareExecution \<times> 'w" where
  "execute_middleware middleware rq w =
     (case run_capturing (middleware rq) None w of
        (r, Some forwarded, w1) \<Rightarrow> (Forwarded forwarded, w1)
      | (r, None, w1) \<Rightarrow> (ShortCircuited rq r, w1))"

fun execute_middleware_sequence ::
  "('j, 'w) NivasaMiddleware list \<Rightarrow> 'j NivasaRequest \<Rightarrow> 'w \<Rightarrow> 'j MiddlewareExecution \<times> 'w" where
  "execute_middleware_sequence [] rq w = (Forwarded rq, w)"
| "execute_middleware_sequence (middleware # rest) rq w =
     (case execute_middleware middleware rq w of
        (Forwarded next_request, w1) \<Rightarrow> execute_middleware_sequence rest next_request w1
      | (ShortCircuited _ r, w1) \<Rightarrow> (ShortCircuited rq r, w1))"

definition matching_route_middlewares :: "string \<Rightarrow> ('j, 'w) RouteMiddlewareBinding list \<Rightarrow> ('j, 'w) NivasaMiddleware list" where
  "matching_route_middlewares p bindings =
     map mb_middleware
       (filter (\<lambda>b. matches (mb_pattern b) p \<and> \<not> list_ex (\<lambda>pat. matches pat p) (mb_excluded_paths b)) bindings)"

section \<open>Pipes\<close>

definition contains_sub :: "'a list \<Rightarrow> 'a list \<Rightarrow> bool" where
  "contains_sub s sub \<longleftrightarrow> list_ex (\<lambda>i. starts_with (drop i s) sub) [0..<Suc (length s)]"

definition request_body_looks_json :: "'j HttpOps \<Rightarrow> 'j NivasaRequest \<Rightarrow> bool" where
  "request_body_looks_json H rq =
     (case Option.bind (header H rq ''content-type'') (\<lambda>v. case header_to_str H v of Inr t \<Rightarrow> Some t | Inl _ \<Rightarrow> None) of
        None \<Rightarrow> False
      | Some v0 \<Rightarrow>
          let v = to_ascii_lowercase (trim v0)
          in starts_with v ''application/json'' \<or> ends_with v ''+json'' \<or> contains_sub v ''/json'')"

definition text_to_pipe_value :: "'j HttpOps \<Rightarrow> 'j NivasaRequest \<Rightarrow> string \<Rightarrow> ('j, 'e) HttpException + 'j" where
  "text_to_pipe_value H rq text =
     (if request_body_looks_json H rq
      then map_sum (\<lambda>err. bad_request (''global pipe could not parse request body as JSON: '' @ err)) id (json_from_str H text)
      else Inr (json_string H text))"

definition request_body_to_pipe_value :: "'j HttpOps \<Rightarrow> 'j NivasaRequest \<Rightarrow> ('j, 'e) HttpException + 'j" where
  "request_body_to_pipe_value H rq =
     (case rq_body rq of
        Empty \<Rightarrow> Inr (json_null H)
      | Json v \<Rightarrow> Inr v
      | Text text \<Rightarrow> text_to_pipe_value H rq text
      | Html text \<Rightarrow> text_to_pipe_value H rq text
      | Bytes v \<Rightarrow>
          (case utf8_text H v of
             Inl err \<Rightarrow> Inl (bad_request (''global pipe requires a UTF-8 request body: '' @ err))
           | Inr text \<Rightarrow> text_to_pipe_value H rq text))"

definition pipe_value_to_body :: "'j JsonOps \<Rightarrow> 'j HttpOps \<Rightarrow> 'j \<Rightarrow> 'j Body" where
  "pipe_value_to_body J H v =
     (if json_is_null H v then Empty
      else case as_str J v of Some text \<Rightarrow> Text text | None \<Rightarrow> Json v)"

fun run_pipes ::
  "('j, 'e, 'w) Pipe list \<Rightarrow> ArgumentMetadata \<Rightarrow> 'j \<Rightarrow> 'w \<Rightarrow> (('j, 'e) HttpException + 'j) \<times> 'w" where
  "run_pipes [] metadata v w = (Inr v, w)"
| "run_pipes (pipe # pipes) metadata v w =
     (case pipe v metadata w of
        (Inl err, w1) \<Rightarrow> (Inl err, w1)
      | (Inr v1, w1) \<Rightarrow> run_pipes pipes metadata v1 w1)"

definition apply_global_pipes ::
  "'j JsonOps \<Rightarrow> 'j HttpOps \<Rightarrow> 'j NivasaRequest \<Rightarrow> ('j, 'e, 'w) Pipe list \<Rightarrow> 'w \<Rightarrow>
   (('j, 'e) HttpException + 'j Body) \<times> 'w" where
  "apply_global_pipes J H rq pipes w =
     (if pipes = [] then (Inr (rq_body rq), w)
      else
        (case request_body_to_pipe_value H rq of
           Inl err \<Rightarrow> (Inl err, w)
         | Inr v \<Rightarrow>
             (case run_pipes pipes (with_data_type (argument_metadata_new 0) ''body'') v w of
                (r, w1) \<Rightarrow> (map_sum id (pipe_value_to_body J H) r, w1))))"

section \<open>Exception filters\<close>

text \<open>\<open>type_name::<HttpException>()\<close>.\<close>

definition exception_type_name :: string where
  "exception_type_name = ''nivasa_common::exceptions::HttpException''"

definition filter_score :: "('j, 'e, 'w) GlobalFilterBinding \<Rightarrow> nat" where
  "filter_score binding =
     (case gf_exception_type binding of
        Some target \<Rightarrow> if target = exception_type_name then 2 else 0
      | None \<Rightarrow> if gf_catch_all binding then 1 else 0)"

definition better_filter ::
  "(nat \<times> nat \<times> ('j, 'e, 'w) GlobalFilterBinding) option \<Rightarrow> nat \<times> ('j, 'e, 'w) GlobalFilterBinding \<Rightarrow>
   (nat \<times> nat \<times> ('j, 'e, 'w) GlobalFilterBinding) option" where
  "better_filter best indexed =
     (case indexed of
        (i, binding) \<Rightarrow>
          let score = filter_score binding
          in if score = 0 then best
             else
               (case best of
                  None \<Rightarrow> Some (i, score, binding)
                | Some (best_index, best_score, best_binding) \<Rightarrow>
                    if score > best_score \<or> score = best_score \<and> i > best_index
                    then Some (i, score, binding) else Some (best_index, best_score, best_binding)))"

definition select_exception_filter ::
  "('j, 'e, 'w) GlobalFilterBinding list \<Rightarrow> ('j, 'e, 'w) GlobalFilterBinding option" where
  "select_exception_filter filters =
     map_option (\<lambda>(i, score, binding). binding) (foldl better_filter None (zip [0..<length filters] filters))"

definition fallback_unhandled_exception_response :: "'j HttpOps \<Rightarrow> 'j NivasaResponse" where
  "fallback_unhandled_exception_response H =
     summary_into_response H
       (http_exception_summary (internal_server_error ''request handler failed'' :: ('j, unit) HttpException))"

definition handle_http_exception ::
  "'j HttpOps \<Rightarrow> ('j, 'e) HttpException \<Rightarrow> ('j, 'e, 'w) GlobalFilterBinding list \<Rightarrow>
   ('j, 'e, 'w) GlobalFilterBinding list \<Rightarrow> ('j, 'e, 'w) GlobalFilterBinding list \<Rightarrow> 'j NivasaRequest \<Rightarrow> 'w \<Rightarrow>
   'j NivasaResponse \<times> 'w" where
  "handle_http_exception H exc handler_filters controller_filters global_filters rq w =
     (case or_else (or_else (select_exception_filter handler_filters) (select_exception_filter controller_filters))
             (select_exception_filter global_filters) of
        Some binding \<Rightarrow>
          (case gf_filter binding exc
                  (host_with_request_context arguments_host_new (request_context_from_request H rq)) w of
             (Some r, w1) \<Rightarrow> (r, w1)
           | (None, w1) \<Rightarrow> (fallback_unhandled_exception_response H, w1))
      | None \<Rightarrow> (summary_into_response H (http_exception_summary exc), w))"

section \<open>Interceptors\<close>

datatype ('j, 'e) InterceptorExecution =
    Completed "'j NivasaResponse"
  | Intercepted "'j NivasaResponse"
  | InterceptorError "('j, 'e) HttpException" bool

definition call_handler ::
  "('j, 'w) RouteHandler \<Rightarrow> 'j NivasaRequest \<Rightarrow> 'w \<Rightarrow> (('j, 'e) HttpException + 'j NivasaResponse) \<times> 'w" where
  "call_handler handler rq w =
     (case handler rq w of
        (Some r, w1) \<Rightarrow> (Inr r, w1)
      | (None, w1) \<Rightarrow> (Inl (internal_server_error ''request handler failed''), w1))"

definition execute_interceptors ::
  "('j, 'e, 'w) ServerInterceptor list \<Rightarrow> 'j NivasaRequest \<Rightarrow> ('j, 'w) RouteHandler \<Rightarrow> 'w \<Rightarrow>
   ('j, 'e) InterceptorExecution \<times> 'w" where
  "execute_interceptors interceptors rq handler w =
     (case interceptor_chain interceptors (with_request interceptor_context_new (rq_method rq) (rq_path rq))
             (call_handler handler rq) w of
        (Inr r, handler_called, w1) \<Rightarrow> (if handler_called then Completed r else Intercepted r, w1)
      | (Inl exc, handler_called, w1) \<Rightarrow> (InterceptorError exc handler_called, w1))"

text \<open>The response that the client gets of an intercepted one: the body under \<open>data\<close>, the status, and the headers but
  the content type. Setting a header replaces it, so the last of several values of a name stays.\<close>

definition mapped_body :: "'j HttpOps \<Rightarrow> 'j Body \<Rightarrow> 'j" where
  "mapped_body H body =
     json_object H [''data'' \<mapsto>
       (case body of
          Empty \<Rightarrow> json_null H
        | Text v \<Rightarrow> json_string H v
        | Html v \<Rightarrow> json_string H v
        | Json v \<Rightarrow> v
        | Bytes bs \<Rightarrow> json_array H (map (\<lambda>b. json_number H (unat b)) bs))]"

definition copied_value :: "'j HttpOps \<Rightarrow> string list \<Rightarrow> string list option" where
  "copied_value H vs =
     foldl (\<lambda>old v. case header_to_str H v of
              Inr t \<Rightarrow> (case header_value H t of Some u \<Rightarrow> Some [u] | None \<Rightarrow> old)
            | Inl _ \<Rightarrow> old) None vs"

definition map_interceptor_response :: "'j HttpOps \<Rightarrow> 'j NivasaResponse \<Rightarrow> 'j NivasaResponse" where
  "map_interceptor_response H r =
     (let mapped = response_new (rs_status r) (Json (mapped_body H (rs_body r)))
      in mapped\<lparr>rs_headers := rs_headers mapped ++
           (\<lambda>name. if name = ''content-type'' then None else Option.bind (rs_headers r name) (copied_value H))\<rparr>)"

section \<open>Collecting the body\<close>

datatype BodyFrame = DataFrame bytes | TrailersFrame | FailedFrame

datatype BodyCollectionError = InvalidBodyFrame | TooLarge

definition saturating_add_usize :: "nat \<Rightarrow> nat \<Rightarrow> nat" where
  "saturating_add_usize a b = min (a + b) (2 ^ 64 - 1)"

fun collect_from :: "nat option \<Rightarrow> bytes \<Rightarrow> BodyFrame list \<Rightarrow> BodyCollectionError + bytes" where
  "collect_from limit buffer [] = Inr buffer"
| "collect_from limit buffer (FailedFrame # frames) = Inl InvalidBodyFrame"
| "collect_from limit buffer (TrailersFrame # frames) = collect_from limit buffer frames"
| "collect_from limit buffer (DataFrame data # frames) =
     (case limit of
        Some l \<Rightarrow>
          if saturating_add_usize (length buffer) (length data) > l then Inl TooLarge
          else collect_from limit (buffer @ data) frames
      | None \<Rightarrow> collect_from limit (buffer @ data) frames)"

definition collect_request_body :: "BodyFrame list \<Rightarrow> nat option \<Rightarrow> BodyCollectionError + bytes" where
  "collect_request_body frames limit = collect_from limit [] frames"

section \<open>Handling a request\<close>

datatype 'j ServerReply = Answer "'j NivasaResponse" | Died

definition failure :: "string \<Rightarrow> 'j NivasaResponse" where
  "failure text = response_new 500 (Text text)"

text \<open>Transitions in a row: the first that is refused makes the reply.\<close>

fun transitions ::
  "string \<Rightarrow> ('j RequestPipeline \<Rightarrow> sent \<times> 'j RequestPipeline) list \<Rightarrow> 'j RequestPipeline \<Rightarrow>
   'j ServerReply + 'j RequestPipeline" where
  "transitions text [] pl = Inr pl"
| "transitions text (t # ts) pl =
     (case t pl of
        (Sent _, pl1) \<Rightarrow> transitions text ts pl1
      | (Refused _, pl1) \<Rightarrow> Inl (Answer (failure text))
      | (Panicked _, pl1) \<Rightarrow> Inl Died)"

definition middleware_stage ::
  "Build \<Rightarrow> ('j, 'w) NivasaMiddleware option \<Rightarrow> 'j NivasaRequest \<Rightarrow> 'w \<Rightarrow> ('j ServerReply + 'j NivasaRequest) \<times> 'w" where
  "middleware_stage B middleware rq w =
     (case middleware of
        None \<Rightarrow> (Inr rq, w)
      | Some m \<Rightarrow>
          (case execute_middleware m rq w of
             (Forwarded forwarded, w1) \<Rightarrow> (Inr forwarded, w1)
           | (ShortCircuited rq0 r, w1) \<Rightarrow>
               (case transitions ''request pipeline middleware transition failed'' [parse_request B, fail_middleware B]
                       (pipeline_new B rq0) of
                  Inl reply \<Rightarrow> (Inl reply, w1)
                | Inr _ \<Rightarrow> (Inl (Answer r), w1))))"

definition start_stage :: "Build \<Rightarrow> 'j NivasaRequest \<Rightarrow> 'j ServerReply + 'j RequestPipeline" where
  "start_stage B rq =
     (case transitions ''request pipeline parse transition failed'' [parse_request B] (pipeline_new B rq) of
        Inl reply \<Rightarrow> Inl reply
      | Inr pl \<Rightarrow> transitions ''request pipeline middleware transition failed'' [complete_middleware B] pl)"

definition route_middleware_stage ::
  "'j HttpOps \<Rightarrow> ('j, 'e, 'w) NivasaServer \<Rightarrow> ('j, 'e, 'w) RouteHandlerBinding \<Rightarrow> 'j NivasaRequest \<Rightarrow> 'w \<Rightarrow>
   ('j NivasaResponse + 'j NivasaRequest) \<times> 'w" where
  "route_middleware_stage H S binding rq0 w =
     (let rq = attach_module_name H rq0 (rh_module_name binding);
          route_middlewares = matching_route_middlewares (rq_path rq) (sv_route_middlewares S)
      in case execute_middleware_sequence (sv_module_middlewares S) rq w of
           (ShortCircuited _ r, w1) \<Rightarrow> (Inl r, w1)
         | (Forwarded rq1, w1) \<Rightarrow>
             (case execute_middleware_sequence (rh_module_middlewares binding) rq1 w1 of
                (ShortCircuited _ r, w2) \<Rightarrow> (Inl r, w2)
              | (Forwarded rq2, w2) \<Rightarrow>
                  (case execute_middleware_sequence route_middlewares rq2 w2 of
                     (ShortCircuited _ r, w3) \<Rightarrow> (Inl r, w3)
                   | (Forwarded rq3, w3) \<Rightarrow> (Inr rq3, w3))))"

definition handle_exception where
  "handle_exception H S binding exc rq w =
     handle_http_exception H exc (rh_handler_filters binding) (rh_controller_filters binding) (sv_global_filters S) rq w"

definition guard_denied_response :: "'j HttpOps \<Rightarrow> 'j NivasaResponse" where
  "guard_denied_response H =
     summary_into_response H (http_exception_summary (forbidden ''request denied by guard'' :: ('j, unit) HttpException))"

definition guard_stage ::
  "Build \<Rightarrow> 'j HttpOps \<Rightarrow> ('j, 'e, 'w) NivasaServer \<Rightarrow> ('j, 'e, 'w) RouteHandlerBinding \<Rightarrow> 'j RequestPipeline \<Rightarrow> 'w \<Rightarrow>
   ('j ServerReply + 'j RequestPipeline) \<times> 'w" where
  "guard_stage B H S binding pl w =
     (case evaluate_guard_chain B (sv_global_guards S) (guard_context H (pl_request pl)) pl w of
        (Inr Passed, pl1, w1) \<Rightarrow> (Inr pl1, w1)
      | (Inr Denied, pl1, w1) \<Rightarrow> (Inl (Answer (guard_denied_response H)), w1)
      | (Inr (GuardError exc), pl1, w1) \<Rightarrow>
          (case handle_exception H S binding exc (pl_request pl1) w1 of (r, w2) \<Rightarrow> (Inl (Answer r), w2))
      | (Inl (Panicked _), pl1, w1) \<Rightarrow> (Inl Died, w1)
      | (Inl _, pl1, w1) \<Rightarrow> (Inl (Answer (failure ''request pipeline guard transition failed'')), w1))"

definition pipe_stage ::
  "Build \<Rightarrow> 'j JsonOps \<Rightarrow> 'j HttpOps \<Rightarrow> ('j, 'e, 'w) NivasaServer \<Rightarrow> ('j, 'e, 'w) RouteHandlerBinding \<Rightarrow>
   'j RequestPipeline \<Rightarrow> 'w \<Rightarrow> ('j ServerReply + 'j RequestPipeline) \<times> 'w" where
  "pipe_stage B J H S binding pl w =
     (case apply_global_pipes J H (pl_request pl) (sv_global_pipes S) w of
        (Inl exc, w1) \<Rightarrow>
          (case transitions ''request pipeline pipe transition failed'' [fail_pipes B] pl of
             Inl reply \<Rightarrow> (Inl reply, w1)
           | Inr pl1 \<Rightarrow>
               (case handle_exception H S binding exc (pl_request pl1) w1 of (r, w2) \<Rightarrow> (Inl (Answer r), w2)))
      | (Inr body, w1) \<Rightarrow>
          (transitions ''request pipeline pipe transition failed'' [complete_pipes B]
             (pl\<lparr>pl_request := (pl_request pl)\<lparr>rq_body := body\<rparr>\<rparr>), w1))"

definition intercepted_handler_stage ::
  "Build \<Rightarrow> 'j HttpOps \<Rightarrow> string option \<Rightarrow> ('j, 'e, 'w) NivasaServer \<Rightarrow> ('j, 'e, 'w) RouteHandlerBinding \<Rightarrow>
   'j RequestPipeline \<Rightarrow> 'w \<Rightarrow> 'j ServerReply \<times> 'w" where
  "intercepted_handler_stage B H request_id S binding pl w =
     (let text = ''request pipeline interceptor transition failed'' in
      case execute_interceptors (sv_interceptors S) (pl_request pl) (rh_handler binding) w of
        (Completed r, w1) \<Rightarrow>
          (case transitions text [complete_handler B, complete_interceptors_post B, complete_response B] pl of
             Inl reply \<Rightarrow> (reply, w1)
           | Inr _ \<Rightarrow> (Answer (with_request_id H (map_interceptor_response H r) request_id), w1))
      | (Intercepted r, w1) \<Rightarrow>
          (case transitions text [fail_interceptors_pre B] pl of
             Inl reply \<Rightarrow> (reply, w1)
           | Inr _ \<Rightarrow> (Answer (with_request_id H (map_interceptor_response H r) request_id), w1))
      | (InterceptorError exc handler_called, w1) \<Rightarrow>
          (case transitions text
                  (if handler_called then [complete_handler B, fail_interceptors_post B] else [fail_interceptors_pre B]) pl of
             Inl reply \<Rightarrow> (reply, w1)
           | Inr pl1 \<Rightarrow> (case handle_exception H S binding exc (pl_request pl1) w1 of (r, w2) \<Rightarrow> (Answer r, w2))))"

definition plain_handler_stage ::
  "Build \<Rightarrow> ('j, 'e, 'w) RouteHandlerBinding \<Rightarrow> 'j RequestPipeline \<Rightarrow> 'w \<Rightarrow> 'j ServerReply \<times> 'w" where
  "plain_handler_stage B binding pl w =
     (let text = ''request pipeline handler transition failed'' in
      case rh_handler binding (pl_request pl) w of
        (Some r, w1) \<Rightarrow>
          (case transitions text [complete_handler B, complete_interceptors_post B, complete_response B] pl of
             Inl reply \<Rightarrow> (reply, w1)
           | Inr _ \<Rightarrow> (Answer r, w1))
      | (None, w1) \<Rightarrow>
          (case transitions text [fail_handler B] pl of
             Inl reply \<Rightarrow> (reply, w1)
           | Inr _ \<Rightarrow> (Answer (failure ''request handler failed''), w1)))"

definition matched_stage ::
  "Build \<Rightarrow> 'j JsonOps \<Rightarrow> 'j HttpOps \<Rightarrow> string option \<Rightarrow> ('j, 'e, 'w) NivasaServer \<Rightarrow>
   ('j, 'e, 'w) RouteHandlerBinding \<Rightarrow> 'j RequestPipeline \<Rightarrow> 'w \<Rightarrow> 'j ServerReply \<times> 'w" where
  "matched_stage B J H request_id S binding pl w =
     (case route_middleware_stage H S binding (pl_request pl) w of
        (Inl r, w1) \<Rightarrow> (Answer r, w1)
      | (Inr rq, w1) \<Rightarrow>
          (case guard_stage B H S binding (pl\<lparr>pl_request := rq\<rparr>) w1 of
             (Inl reply, w2) \<Rightarrow> (reply, w2)
           | (Inr pl1, w2) \<Rightarrow>
               (case transitions ''request pipeline interceptor transition failed'' [complete_interceptors_pre B] pl1 of
                  Inl reply \<Rightarrow> (reply, w2)
                | Inr pl2 \<Rightarrow>
                    (case pipe_stage B J H S binding pl2 w2 of
                       (Inl reply, w3) \<Rightarrow> (reply, w3)
                     | (Inr pl3, w3) \<Rightarrow>
                         if sv_interceptors S \<noteq> []
                         then intercepted_handler_stage B H request_id S binding pl3 w3
                         else plain_handler_stage B binding pl3 w3))))"

text \<open>From the request with its identity to the reply that is still to be finalised. \<open>wrap_id\<close> is the request id where
  the caller sets it on intercepted responses.\<close>

definition serve_seeded ::
  "Build \<Rightarrow> 'j JsonOps \<Rightarrow> 'j HttpOps \<Rightarrow> string option \<Rightarrow> ('j, 'e, 'w) NivasaServer \<Rightarrow> 'j NivasaRequest \<Rightarrow> 'w \<Rightarrow>
   'j ServerReply \<times> 'w" where
  "serve_seeded B J H wrap_id S rq0 w =
     (let rq = attach_module_name H rq0 (module_name_for_request H rq0 (sv_routes S)) in
      case middleware_stage B (sv_middleware S) rq w of
        (Inl reply, w1) \<Rightarrow> (reply, w1)
      | (Inr rq1, w1) \<Rightarrow>
          (case start_stage B rq1 of
             Inl reply \<Rightarrow> (reply, w1)
           | Inr pl \<Rightarrow>
               (case match_route B (versioned_routes_for_request H (pl_request pl) (sv_routes S)) pl of
                  (Inr (Matched entry), pl1) \<Rightarrow> matched_stage B J H wrap_id S (de_value entry) pl1 w1
                | (Inr NotFound, pl1) \<Rightarrow> (Answer (response_new 404 (Text ''not found'')), w1)
                | (Inr (MethodNotAllowed p methods), pl1) \<Rightarrow>
                    (Answer (with_header H (response_new 405 (Text ''method not allowed'')) ''allow'' (join '', '' methods)), w1)
                | (Inl (Panicked _), pl1) \<Rightarrow> (Died, w1)
                | (Inl _, pl1) \<Rightarrow> (Answer (failure ''request pipeline route transition failed''), w1))))"

definition finalize_reply ::
  "'j HttpOps \<Rightarrow> CorsOptions option \<Rightarrow> string option \<Rightarrow> string option \<Rightarrow> 'j ServerReply \<Rightarrow> 'j ServerReply" where
  "finalize_reply H cors origin request_id reply =
     (case reply of Answer r \<Rightarrow> Answer (finalize_nivasa_response H r cors origin request_id) | Died \<Rightarrow> Died)"

text \<open>The in-process entry point that test clients use.\<close>

definition dispatch_nivasa_request ::
  "Build \<Rightarrow> 'j JsonOps \<Rightarrow> 'j HttpOps \<Rightarrow> ('w \<Rightarrow> string \<times> 'w) \<Rightarrow> ('j, 'e, 'w) NivasaServer \<Rightarrow> 'j NivasaRequest \<Rightarrow> 'w \<Rightarrow>
   'j ServerReply \<times> 'w" where
  "dispatch_nivasa_request B J H new_uuid S rq w =
     (let origin = Option.bind (header H rq ''origin'') (\<lambda>v. case header_to_str H v of Inr t \<Rightarrow> Some t | Inl _ \<Rightarrow> None) in
      case (case request_header_value H rq ''x-request-id'' of Some i \<Rightarrow> (i, w) | None \<Rightarrow> new_uuid w) of
        (request_id, w1) \<Rightarrow>
          (case serve_seeded B J H None S (seed_request_identity H rq request_id) w1 of
             (reply, w2) \<Rightarrow> (finalize_reply H (sv_cors S) origin (Some request_id) reply, w2)))"

text \<open>The entry point of the network: a request without its body, and the frames of the body.\<close>

definition handle_request ::
  "Build \<Rightarrow> 'j JsonOps \<Rightarrow> 'j HttpOps \<Rightarrow> ('w \<Rightarrow> string \<times> 'w) \<Rightarrow> ('j, 'e, 'w) NivasaServer \<Rightarrow> 'j NivasaRequest \<Rightarrow>
   BodyFrame list \<Rightarrow> 'w \<Rightarrow> 'j ServerReply \<times> 'w" where
  "handle_request B J H new_uuid S parts frames w =
     (let origin = first_value H (rq_headers parts) ''origin'' in
      case request_id_from_headers H new_uuid (rq_headers parts) w of
        (request_id, w1) \<Rightarrow>
          if sv_cors S \<noteq> None \<and> is_cors_preflight (rq_headers parts) (rq_method parts)
          then (Answer (build_cors_preflight_nivasa_response H (rq_headers parts) (sv_cors S) origin), w1)
          else
            (case collect_request_body frames (sv_request_body_size_limit S) of
               Inl TooLarge \<Rightarrow>
                 (finalize_reply H (sv_cors S) origin (Some request_id)
                    (Answer (response_new 413 (Text ''request body too large''))), w1)
             | Inl InvalidBodyFrame \<Rightarrow>
                 (finalize_reply H (sv_cors S) origin (Some request_id)
                    (Answer (response_new 400 (Text ''invalid request body''))), w1)
             | Inr collected \<Rightarrow>
                 (case serve_seeded B J H (Some request_id) S
                         (seed_request_identity H (parts\<lparr>rq_body := if collected = [] then Empty else Bytes collected\<rparr>) request_id)
                         w1 of
                    (reply, w2) \<Rightarrow> (finalize_reply H (sv_cors S) origin (Some request_id) reply, w2))))"

end
