(* ===== verification/Server_Properties.thy ===== *)
theory Server_Properties
  imports Http_Server
begin

text \<open>
  What the server guarantees: it refines a description of its request handling that knows no statechart, so no
  transition it asks for is ever refused, in any build; and from that description, what middleware, guards, versions,
  filters and body limits do for a request.
\<close>

section \<open>The transitions the server asks for\<close>

definition server_moves :: "(string \<times> RequestEvent \<times> string) list" where
  "server_moves =
     [(''Received'', RequestParsed, ''MiddlewareChain''),
      (''MiddlewareChain'', MiddlewareComplete, ''RouteMatching''),
      (''MiddlewareChain'', ErrorMiddleware, ''ErrorHandling''),
      (''RouteMatching'', RouteMatched, ''GuardChain''),
      (''RouteMatching'', RouteNotFound, ''ErrorHandling''),
      (''RouteMatching'', RouteMethodNotAllowed, ''ErrorHandling''),
      (''GuardChain'', GuardsPassed, ''InterceptorPre''),
      (''GuardChain'', GuardDenied, ''ErrorHandling''),
      (''GuardChain'', ErrorGuard, ''ErrorHandling''),
      (''InterceptorPre'', InterceptorsPreComplete, ''PipeTransform''),
      (''PipeTransform'', PipesComplete, ''HandlerExecution''),
      (''PipeTransform'', ErrorPipe, ''ErrorHandling''),
      (''HandlerExecution'', ErrorInterceptor, ''ErrorHandling''),
      (''HandlerExecution'', HandlerComplete, ''InterceptorPost''),
      (''HandlerExecution'', ErrorHandler, ''ErrorHandling''),
      (''InterceptorPost'', InterceptorsPostComplete, ''SendingResponse''),
      (''InterceptorPost'', ErrorInterceptorPost, ''ErrorHandling''),
      (''SendingResponse'', ResponseSent, ''Done'')]"

lemma server_moves_enabled:
  "list_all (\<lambda>(s, e, t). sp_transition (request_spec h) s (request_event_name e) = Some t \<and> sp_enter (request_spec h) t = t)
     server_moves"
  by code_simp

text \<open>The pipeline after an event, whatever the engine said of it.\<close>

definition moved :: "Build \<Rightarrow> RequestEvent \<Rightarrow> 'j RequestPipeline \<Rightarrow> 'j RequestPipeline" where
  "moved B event pl = snd (advance B event pl)"

lemma moved_request [simp]: "pl_request (moved B event pl) = pl_request pl"
  by (simp add: moved_def advance_def split: prod.split)

lemma state_with_request [simp]: "pipeline_state (pl\<lparr>pl_request := rq\<rparr>) = pipeline_state pl"
  by (simp add: pipeline_state_def)

lemma move:
  assumes "(pipeline_state pl, event, t) \<in> set server_moves"
  shows "advance B event pl = (Sent t, moved B event pl)" "pipeline_state (moved B event pl) = t"
  using assms server_moves_enabled [of "bd_hash B"]
  by (auto simp: list_all_iff advance_def moved_def send_event_def pipeline_state_def Let_def split: prod.splits)

lemma moves:
  "pipeline_state pl = ''Received'' \<Longrightarrow> advance B RequestParsed pl = (Sent ''MiddlewareChain'', moved B RequestParsed pl)"
  "pipeline_state pl = ''MiddlewareChain'' \<Longrightarrow> advance B MiddlewareComplete pl = (Sent ''RouteMatching'', moved B MiddlewareComplete pl)"
  "pipeline_state pl = ''MiddlewareChain'' \<Longrightarrow> advance B ErrorMiddleware pl = (Sent ''ErrorHandling'', moved B ErrorMiddleware pl)"
  "pipeline_state pl = ''RouteMatching'' \<Longrightarrow> advance B RouteMatched pl = (Sent ''GuardChain'', moved B RouteMatched pl)"
  "pipeline_state pl = ''RouteMatching'' \<Longrightarrow> advance B RouteNotFound pl = (Sent ''ErrorHandling'', moved B RouteNotFound pl)"
  "pipeline_state pl = ''RouteMatching'' \<Longrightarrow> advance B RouteMethodNotAllowed pl = (Sent ''ErrorHandling'', moved B RouteMethodNotAllowed pl)"
  "pipeline_state pl = ''GuardChain'' \<Longrightarrow> advance B GuardsPassed pl = (Sent ''InterceptorPre'', moved B GuardsPassed pl)"
  "pipeline_state pl = ''GuardChain'' \<Longrightarrow> advance B GuardDenied pl = (Sent ''ErrorHandling'', moved B GuardDenied pl)"
  "pipeline_state pl = ''GuardChain'' \<Longrightarrow> advance B ErrorGuard pl = (Sent ''ErrorHandling'', moved B ErrorGuard pl)"
  "pipeline_state pl = ''InterceptorPre'' \<Longrightarrow> advance B InterceptorsPreComplete pl = (Sent ''PipeTransform'', moved B InterceptorsPreComplete pl)"
  "pipeline_state pl = ''PipeTransform'' \<Longrightarrow> advance B PipesComplete pl = (Sent ''HandlerExecution'', moved B PipesComplete pl)"
  "pipeline_state pl = ''PipeTransform'' \<Longrightarrow> advance B ErrorPipe pl = (Sent ''ErrorHandling'', moved B ErrorPipe pl)"
  "pipeline_state pl = ''HandlerExecution'' \<Longrightarrow> advance B ErrorInterceptor pl = (Sent ''ErrorHandling'', moved B ErrorInterceptor pl)"
  "pipeline_state pl = ''HandlerExecution'' \<Longrightarrow> advance B HandlerComplete pl = (Sent ''InterceptorPost'', moved B HandlerComplete pl)"
  "pipeline_state pl = ''HandlerExecution'' \<Longrightarrow> advance B ErrorHandler pl = (Sent ''ErrorHandling'', moved B ErrorHandler pl)"
  "pipeline_state pl = ''InterceptorPost'' \<Longrightarrow> advance B InterceptorsPostComplete pl = (Sent ''SendingResponse'', moved B InterceptorsPostComplete pl)"
  "pipeline_state pl = ''InterceptorPost'' \<Longrightarrow> advance B ErrorInterceptorPost pl = (Sent ''ErrorHandling'', moved B ErrorInterceptorPost pl)"
  "pipeline_state pl = ''SendingResponse'' \<Longrightarrow> advance B ResponseSent pl = (Sent ''Done'', moved B ResponseSent pl)"
  by (rule move(1), simp add: server_moves_def)+

lemma moved_states:
  "pipeline_state pl = ''Received'' \<Longrightarrow> pipeline_state (moved B RequestParsed pl) = ''MiddlewareChain''"
  "pipeline_state pl = ''MiddlewareChain'' \<Longrightarrow> pipeline_state (moved B MiddlewareComplete pl) = ''RouteMatching''"
  "pipeline_state pl = ''RouteMatching'' \<Longrightarrow> pipeline_state (moved B RouteMatched pl) = ''GuardChain''"
  "pipeline_state pl = ''GuardChain'' \<Longrightarrow> pipeline_state (moved B GuardsPassed pl) = ''InterceptorPre''"
  "pipeline_state pl = ''InterceptorPre'' \<Longrightarrow> pipeline_state (moved B InterceptorsPreComplete pl) = ''PipeTransform''"
  "pipeline_state pl = ''PipeTransform'' \<Longrightarrow> pipeline_state (moved B PipesComplete pl) = ''HandlerExecution''"
  "pipeline_state pl = ''HandlerExecution'' \<Longrightarrow> pipeline_state (moved B HandlerComplete pl) = ''InterceptorPost''"
  "pipeline_state pl = ''InterceptorPost'' \<Longrightarrow> pipeline_state (moved B InterceptorsPostComplete pl) = ''SendingResponse''"
  by (rule move(2), simp add: server_moves_def)+

lemma request_initial: "sp_enter (request_spec h) ''Received'' = ''Received''"
  by code_simp

lemma pipeline_new_state [simp]:
  "pipeline_state (pipeline_new B rq) = ''Received''" "pl_request (pipeline_new B rq) = rq"
  by (simp_all add: pipeline_state_def pipeline_new_def engine_new_def request_initial)

lemmas pipeline_events =
  parse_request_def fail_parse_def complete_middleware_def fail_middleware_def pass_guards_def deny_guards_def
  fail_guards_def complete_interceptors_pre_def fail_interceptors_pre_def complete_pipes_def fail_pipes_def
  complete_handler_def fail_handler_def complete_interceptors_post_def fail_interceptors_post_def complete_response_def

section \<open>The server without its statechart\<close>

definition handler_spec ::
  "'j HttpOps \<Rightarrow> string option \<Rightarrow> ('j, 'e, 'w) NivasaServer \<Rightarrow> ('j, 'e, 'w) RouteHandlerBinding \<Rightarrow> 'j NivasaRequest \<Rightarrow> 'w \<Rightarrow>
   'j NivasaResponse \<times> 'w" where
  "handler_spec H wrap_id S binding rq w =
     (if sv_interceptors S = []
      then (case rh_handler binding rq w of
              (Some r, w1) \<Rightarrow> (r, w1)
            | (None, w1) \<Rightarrow> (failure ''request handler failed'', w1))
      else (case execute_interceptors (sv_interceptors S) rq (rh_handler binding) w of
              (Completed r, w1) \<Rightarrow> (with_request_id H (map_interceptor_response H r) wrap_id, w1)
            | (Intercepted r, w1) \<Rightarrow> (with_request_id H (map_interceptor_response H r) wrap_id, w1)
            | (InterceptorError exc _, w1) \<Rightarrow> handle_exception H S binding exc rq w1))"

definition guarded_spec ::
  "'j JsonOps \<Rightarrow> 'j HttpOps \<Rightarrow> string option \<Rightarrow> ('j, 'e, 'w) NivasaServer \<Rightarrow> ('j, 'e, 'w) RouteHandlerBinding \<Rightarrow>
   'j NivasaRequest \<Rightarrow> 'w \<Rightarrow> 'j NivasaResponse \<times> 'w" where
  "guarded_spec J H wrap_id S binding rq w =
     (case guards_event (sv_global_guards S) (guard_context H rq) w of
        (_, Denied, w1) \<Rightarrow> (guard_denied_response H, w1)
      | (_, GuardError exc, w1) \<Rightarrow> handle_exception H S binding exc rq w1
      | (_, Passed, w1) \<Rightarrow>
          (case apply_global_pipes J H rq (sv_global_pipes S) w1 of
             (Inl exc, w2) \<Rightarrow> handle_exception H S binding exc rq w2
           | (Inr body, w2) \<Rightarrow> handler_spec H wrap_id S binding (rq\<lparr>rq_body := body\<rparr>) w2))"

definition matched_spec ::
  "'j JsonOps \<Rightarrow> 'j HttpOps \<Rightarrow> string option \<Rightarrow> ('j, 'e, 'w) NivasaServer \<Rightarrow> ('j, 'e, 'w) RouteHandlerBinding \<Rightarrow>
   'j NivasaRequest \<Rightarrow> 'w \<Rightarrow> 'j NivasaResponse \<times> 'w" where
  "matched_spec J H wrap_id S binding rq w =
     (case route_middleware_stage H S binding rq w of
        (Inl r, w1) \<Rightarrow> (r, w1)
      | (Inr rq1, w1) \<Rightarrow> guarded_spec J H wrap_id S binding rq1 w1)"

definition routed_spec ::
  "'j JsonOps \<Rightarrow> 'j HttpOps \<Rightarrow> string option \<Rightarrow> ('j, 'e, 'w) NivasaServer \<Rightarrow> 'j NivasaRequest \<Rightarrow> 'w \<Rightarrow>
   'j NivasaResponse \<times> 'w" where
  "routed_spec J H wrap_id S rq w =
     (let routes = versioned_routes_for_request H rq (sv_routes S) in
      case dispatch routes (rq_method rq) (rq_path rq) of
        Matched entry \<Rightarrow> matched_spec J H wrap_id S (de_value entry) (rq\<lparr>rq_path_params := matched_params routes rq\<rparr>) w
      | NotFound \<Rightarrow> (response_new 404 (Text ''not found''), w)
      | MethodNotAllowed p methods \<Rightarrow>
          (with_header H (response_new 405 (Text ''method not allowed'')) ''allow'' (join '', '' methods), w))"

definition serve_spec ::
  "'j JsonOps \<Rightarrow> 'j HttpOps \<Rightarrow> string option \<Rightarrow> ('j, 'e, 'w) NivasaServer \<Rightarrow> 'j NivasaRequest \<Rightarrow> 'w \<Rightarrow>
   'j NivasaResponse \<times> 'w" where
  "serve_spec J H wrap_id S rq0 w =
     (let rq = attach_module_name H rq0 (module_name_for_request H rq0 (sv_routes S)) in
      case sv_middleware S of
        None \<Rightarrow> routed_spec J H wrap_id S rq w
      | Some m \<Rightarrow>
          (case execute_middleware m rq w of
             (Forwarded rq1, w1) \<Rightarrow> routed_spec J H wrap_id S rq1 w1
           | (ShortCircuited _ r, w1) \<Rightarrow> (r, w1)))"

lemma plain_handler_stage_spec:
  assumes "pipeline_state pl = ''HandlerExecution''" "sv_interceptors S = []"
  shows "plain_handler_stage B binding pl w = map_prod Answer id (handler_spec H wrap_id S binding (pl_request pl) w)"
  using assms
  by (cases "rh_handler binding (pl_request pl) w"; cases "fst (rh_handler binding (pl_request pl) w)")
    (simp_all add: plain_handler_stage_def handler_spec_def pipeline_events moves moved_states)

lemma intercepted_handler_stage_spec:
  assumes "pipeline_state pl = ''HandlerExecution''" "sv_interceptors S \<noteq> []"
  shows "intercepted_handler_stage B H wrap_id S binding pl w =
    map_prod Answer id (handler_spec H wrap_id S binding (pl_request pl) w)"
proof -
  obtain x w1 where e: "execute_interceptors (sv_interceptors S) (pl_request pl) (rh_handler binding) w = (x, w1)"
    by fastforce
  show ?thesis
  proof (cases x)
    case (InterceptorError exc called)
    then show ?thesis
      using assms e
      by (cases called; cases "handle_exception H S binding exc (pl_request pl) w1")
        (simp_all add: intercepted_handler_stage_def handler_spec_def pipeline_events moves moved_states Let_def)
  qed (use assms e in \<open>simp_all add: intercepted_handler_stage_def handler_spec_def pipeline_events moves moved_states Let_def\<close>)
qed

lemma guard_chain_moves:
  assumes "pipeline_state pl = ''GuardChain''"
  shows "evaluate_guard_chain B guards ctx pl w =
    (case guards_event guards ctx w of (event, outcome, w1) \<Rightarrow> (Inr outcome, moved B event pl, w1))"
proof -
  have "fst (guards_event guards ctx w) \<in> {GuardsPassed, GuardDenied, ErrorGuard}"
    by (induction guards ctx w rule: guards_event.induct) (auto split: prod.splits sum.splits bool.splits)
  with assms show ?thesis
    by (auto simp: evaluate_guard_chain_event moves split: prod.splits)
qed

lemma guards_event_outcome:
  "guards_event guards ctx w = (event, outcome, w1) \<Longrightarrow>
   event = (case outcome of Passed \<Rightarrow> GuardsPassed | Denied \<Rightarrow> GuardDenied | GuardError _ \<Rightarrow> ErrorGuard)"
  by (induction guards ctx w rule: guards_event.induct) (auto split: prod.splits sum.splits bool.splits)

lemma after_guards_spec:
  assumes "pipeline_state pl = ''InterceptorPre''" and rq: "pl_request pl = rq"
  shows "(case transitions ''request pipeline interceptor transition failed'' [complete_interceptors_pre B] pl of
            Inl reply \<Rightarrow> (reply, w)
          | Inr pl2 \<Rightarrow>
              (case pipe_stage B J H S binding pl2 w of
                 (Inl reply, w3) \<Rightarrow> (reply, w3)
               | (Inr pl3, w3) \<Rightarrow>
                   if sv_interceptors S \<noteq> []
                   then intercepted_handler_stage B H wrap_id S binding pl3 w3
                   else plain_handler_stage B binding pl3 w3)) =
     map_prod Answer id
       (case apply_global_pipes J H rq (sv_global_pipes S) w of
          (Inl exc, w2) \<Rightarrow> handle_exception H S binding exc rq w2
        | (Inr body, w2) \<Rightarrow> handler_spec H wrap_id S binding (rq\<lparr>rq_body := body\<rparr>) w2)"
proof -
  let ?pl2 = "moved B InterceptorsPreComplete pl"
  have s2: "pipeline_state ?pl2 = ''PipeTransform''" by (rule moved_states) (rule assms(1))
  obtain r w2 where a: "apply_global_pipes J H (pl_request pl) (sv_global_pipes S) w = (r, w2)" by fastforce
  show ?thesis
  proof (cases r)
    case (Inl exc)
    then show ?thesis
      using assms a s2
      by (cases "handle_exception H S binding exc (pl_request pl) w2") (simp add: pipe_stage_def pipeline_events moves rq [symmetric])
  next
    case (Inr body)
    let ?pl3 = "moved B PipesComplete (?pl2\<lparr>pl_request := (pl_request pl)\<lparr>rq_body := body\<rparr>\<rparr>)"
    have s3: "pipeline_state ?pl3 = ''HandlerExecution''" by (rule moved_states) (simp add: s2)
    show ?thesis
      using assms a s2 Inr plain_handler_stage_spec [OF s3, where S = S and B = B and binding = binding and w = w2 and H = H and wrap_id = wrap_id]
        intercepted_handler_stage_spec [OF s3, where S = S and B = B and binding = binding and w = w2 and H = H and wrap_id = wrap_id]
      by (simp add: pipe_stage_def pipeline_events moves rq [symmetric])
  qed
qed

lemma matched_stage_spec:
  assumes "pipeline_state pl = ''GuardChain''"
  shows "matched_stage B J H wrap_id S binding pl w =
    map_prod Answer id (matched_spec J H wrap_id S binding (pl_request pl) w)"
proof -
  obtain r w1 where m: "route_middleware_stage H S binding (pl_request pl) w = (r, w1)" by fastforce
  show ?thesis
  proof (cases r)
    case (Inr rq)
    let ?pl = "pl\<lparr>pl_request := rq\<rparr>"
    obtain event outcome w2 where g: "guards_event (sv_global_guards S) (guard_context H rq) w1 = (event, outcome, w2)"
      by (cases "guards_event (sv_global_guards S) (guard_context H rq) w1") auto
    from guards_event_outcome [OF g] have e:
      "event = (case outcome of Passed \<Rightarrow> GuardsPassed | Denied \<Rightarrow> GuardDenied | GuardError _ \<Rightarrow> ErrorGuard)" .
    have c: "evaluate_guard_chain B (sv_global_guards S) (guard_context H (pl_request ?pl)) ?pl w1 =
        (Inr outcome, moved B event ?pl, w2)"
      using guard_chain_moves [of ?pl B "sv_global_guards S" "guard_context H rq" w1] assms g by simp
    show ?thesis
    proof (cases outcome)
      case Passed
      have "pipeline_state (moved B GuardsPassed ?pl) = ''InterceptorPre''"
        by (rule moved_states) (simp add: assms)
      from after_guards_spec [OF this, where rq = rq and B = B and w = w2 and J = J and H = H and S = S and binding = binding and wrap_id = wrap_id] show ?thesis
        using m Inr g c e Passed by (simp add: matched_stage_def matched_spec_def guarded_spec_def guard_stage_def)
    next
      case Denied
      then show ?thesis
        using m Inr g c by (simp add: matched_stage_def matched_spec_def guarded_spec_def guard_stage_def)
    next
      case (GuardError exc)
      then show ?thesis
        using m Inr g c
        by (cases "handle_exception H S binding exc rq w2")
          (simp add: matched_stage_def matched_spec_def guarded_spec_def guard_stage_def)
    qed
  qed (use m in \<open>simp add: matched_stage_def matched_spec_def\<close>)
qed

lemma routed_stage_spec:
  assumes "pipeline_state pl = ''RouteMatching''"
  shows "(case match_route B (versioned_routes_for_request H (pl_request pl) (sv_routes S)) pl of
            (Inr (Matched entry), pl1) \<Rightarrow> matched_stage B J H wrap_id S (de_value entry) pl1 w
          | (Inr NotFound, pl1) \<Rightarrow> (Answer (response_new 404 (Text ''not found'')), w)
          | (Inr (MethodNotAllowed p methods), pl1) \<Rightarrow>
              (Answer (with_header H (response_new 405 (Text ''method not allowed'')) ''allow'' (join '', '' methods)), w)
          | (Inl (Panicked _), pl1) \<Rightarrow> (Died, w)
          | (Inl _, pl1) \<Rightarrow> (Answer (failure ''request pipeline route transition failed''), w)) =
     map_prod Answer id (routed_spec J H wrap_id S (pl_request pl) w)"
proof -
  let ?rq = "pl_request pl" and ?routes = "versioned_routes_for_request H (pl_request pl) (sv_routes S)"
  let ?pl = "pl\<lparr>pl_request := ?rq\<lparr>rq_path_params := matched_params ?routes ?rq\<rparr>\<rparr>"
  have s: "pipeline_state ?pl = ''RouteMatching''" using assms by simp
  show ?thesis
  proof (cases "dispatch ?routes (rq_method ?rq) (rq_path ?rq)")
    case (Matched entry)
    have s1: "pipeline_state (moved B RouteMatched ?pl) = ''GuardChain''" by (rule moved_states) (rule s)
    have "match_route B ?routes pl = (Inr (Matched entry), moved B RouteMatched ?pl)"
      using Matched moves(4) [OF s] by (simp add: match_route_advance for_route_outcome_def)
    then show ?thesis
      using Matched matched_stage_spec [OF s1, where B = B and J = J and H = H and wrap_id = wrap_id and S = S and binding = "de_value entry" and w = w] by (simp add: routed_spec_def Let_def)
  next
    case (MethodNotAllowed p methods)
    have "match_route B ?routes pl = (Inr (MethodNotAllowed p methods), moved B RouteMethodNotAllowed ?pl)"
      using MethodNotAllowed moves(6) [OF s] by (simp add: match_route_advance for_route_outcome_def)
    then show ?thesis using MethodNotAllowed by (simp add: routed_spec_def Let_def)
  next
    case NotFound
    have "match_route B ?routes pl = (Inr NotFound, moved B RouteNotFound ?pl)"
      using NotFound moves(5) [OF s] by (simp add: match_route_advance for_route_outcome_def)
    then show ?thesis using NotFound by (simp add: routed_spec_def Let_def)
  qed
qed

lemma serve_seeded_spec:
  "serve_seeded B J H wrap_id S rq w = map_prod Answer id (serve_spec J H wrap_id S rq w)"
proof -
  have start: "start_stage B rq1 = Inr (moved B MiddlewareComplete (moved B RequestParsed (pipeline_new B rq1)))" for rq1
    by (simp add: start_stage_def pipeline_events moves moved_states)
  have "pipeline_state (moved B MiddlewareComplete (moved B RequestParsed (pipeline_new B rq1))) = ''RouteMatching''" for rq1
    by (simp add: moved_states)
  note routed = routed_stage_spec [OF this, where B = B and H = H and S = S and J = J and wrap_id = wrap_id, simplified]
  let ?rq = "attach_module_name H rq (module_name_for_request H rq (sv_routes S))"
  show ?thesis
  proof (cases "sv_middleware S")
    case None
    then show ?thesis
      by (simp add: serve_seeded_def serve_spec_def Let_def middleware_stage_def start routed)
  next
    case (Some m)
    obtain x w1 where "execute_middleware m ?rq w = (x, w1)" by fastforce
    with Some show ?thesis
      by (cases x) (simp_all add: serve_seeded_def serve_spec_def Let_def middleware_stage_def start routed pipeline_events moves moved_states)
  qed
qed

lemma finalize_answer [simp]:
  "(case map_prod Answer id x of (reply, w2) \<Rightarrow> (finalize_reply H cors origin i reply, w2)) =
   (Answer (finalize_nivasa_response H (fst x) cors origin i), snd x)"
  "finalize_reply H cors origin i (Answer r) = Answer (finalize_nivasa_response H r cors origin i)"
  by (simp_all add: finalize_reply_def map_prod_def split: prod.split)

text \<open>C19: the server refines its description without the statechart: whatever the configuration, the request and the
  build, the reply and the world after it are those of \<open>serve_spec\<close>, finalised. So no transition that the server asks
  for is refused: no reply says that a transition failed, a debug build never dies of one, and debug and release
  builds answer alike.\<close>

theorem server_refines_spec:
  "serve_seeded B J H wrap_id S rq w = map_prod Answer id (serve_spec J H wrap_id S rq w) \<and>
   fst (handle_request B J H new_uuid S parts frames w) \<noteq> Died \<and>
   handle_request B J H new_uuid S parts frames w = handle_request B' J H new_uuid S parts frames w \<and>
   dispatch_nivasa_request B J H new_uuid S rq w = dispatch_nivasa_request B' J H new_uuid S rq w"
proof (intro conjI)
  show "fst (handle_request B J H new_uuid S parts frames w) \<noteq> Died"
    by (cases "request_id_from_headers H new_uuid (rq_headers parts) w";
        cases "collect_request_body frames (sv_request_body_size_limit S)")
      (auto simp: handle_request_def serve_seeded_spec Let_def split: BodyCollectionError.split)
qed (simp_all only: handle_request_def dispatch_nivasa_request_def serve_seeded_spec)

section \<open>Middleware that works on responses\<close>

lemma execute_response_middleware:
  "execute_middleware (helmet_middleware H) rq w = (Forwarded rq, w)"
  "execute_middleware (compression_middleware F H encode) rq w = (Forwarded rq, w)"
  "execute_middleware (logger_middleware H info) rq w =
     (Forwarded rq,
      info \<lparr>rl_context = log_context_from_request_and_response H rq (response_new 204 Empty), rl_method = rq_method rq,
            rl_path = rq_path rq, rl_status = 204\<rparr> w)"
  by (simp_all add: execute_middleware_def helmet_middleware_def compression_middleware_def logger_middleware_def
      response_new_def builder_body_def builder_status_def response_build_def response_builder_def Let_def content_type_def)

lemma handle_request_cong:
  assumes "\<And>wrap_id q u. serve_seeded B J H wrap_id S q u = serve_seeded B J H wrap_id S' q u"
    "sv_cors S = sv_cors S'" "sv_request_body_size_limit S = sv_request_body_size_limit S'"
  shows "handle_request B J H new_uuid S parts frames w = handle_request B J H new_uuid S' parts frames w"
proof -
  have "serve_seeded B J H wrap_id S = serve_seeded B J H wrap_id S'" for wrap_id using assms(1) by (intro ext)
  then show ?thesis by (simp only: handle_request_def assms(2,3))
qed

text \<open>The server takes from a middleware only the request that it passes on. Run behind a tower service the helmet
  sets its headers; in the server neither it nor the compression has any effect, as the middleware of the server or of
  its modules: every request is answered as without them. The logger there logs status 204 for every request that it
  passes on.\<close>

theorem response_middleware_inert:
  "list_all (\<lambda>m.
      handle_request B J H new_uuid (S\<lparr>sv_middleware := Some m\<rparr>) parts frames w =
        handle_request B J H new_uuid (S\<lparr>sv_middleware := None\<rparr>) parts frames w \<and>
      handle_request B J H new_uuid (S\<lparr>sv_module_middlewares := m # sv_module_middlewares S\<rparr>) parts frames w =
        handle_request B J H new_uuid S parts frames w)
     [helmet_middleware H, compression_middleware F H encode] \<and>
   execute_middleware (logger_middleware H info) rq w =
     (Forwarded rq,
      info \<lparr>rl_context = log_context_from_request_and_response H rq (response_new 204 Empty), rl_method = rq_method rq,
            rl_path = rq_path rq, rl_status = 204\<rparr> w) \<and>
   middleware_service (helmet_middleware H) service rq w =
     (case service rq w of (r, w1) \<Rightarrow> (with_headers H r helmet_headers, w1))"
proof -
  have "serve_seeded B J H wrap_id (S\<lparr>sv_middleware := Some m\<rparr>) q u =
        serve_seeded B J H wrap_id (S\<lparr>sv_middleware := None\<rparr>) q u \<and>
      serve_seeded B J H wrap_id (S\<lparr>sv_module_middlewares := m # sv_module_middlewares S\<rparr>) q u =
        serve_seeded B J H wrap_id S q u"
    if inert: "\<And>q u. execute_middleware m q u = (Forwarded q, u)" for m wrap_id q u
  proof -
    have rm: "route_middleware_stage H (S\<lparr>sv_middleware := x\<rparr>) = route_middleware_stage H S"
      "route_middleware_stage H (S\<lparr>sv_module_middlewares := m # sv_module_middlewares S\<rparr>) = route_middleware_stage H S" for x
      by (simp_all add: fun_eq_iff route_middleware_stage_def inert)
    have he: "handle_exception H (S\<lparr>sv_middleware := x\<rparr>) = handle_exception H S"
      "handle_exception H (S\<lparr>sv_module_middlewares := y\<rparr>) = handle_exception H S" for x y
      by (simp_all add: fun_eq_iff handle_exception_def)
    have h: "handler_spec H wrap_id (S\<lparr>sv_middleware := x\<rparr>) = handler_spec H wrap_id S" for x
      by (intro ext, unfold handler_spec_def he) simp
    have h': "handler_spec H wrap_id (S\<lparr>sv_module_middlewares := y\<rparr>) = handler_spec H wrap_id S" for y
      by (intro ext, unfold handler_spec_def he) simp
    have pipes: "sv_global_pipes (S\<lparr>sv_middleware := x\<rparr>) = sv_global_pipes S"
      "sv_global_pipes (S\<lparr>sv_module_middlewares := y\<rparr>) = sv_global_pipes S" for x y by simp_all
    have g: "guarded_spec J H wrap_id (S\<lparr>sv_middleware := x\<rparr>) = guarded_spec J H wrap_id S" for x
      by (intro ext, unfold guarded_spec_def he h pipes) simp
    have g': "guarded_spec J H wrap_id (S\<lparr>sv_module_middlewares := y\<rparr>) = guarded_spec J H wrap_id S" for y
      by (intro ext, unfold guarded_spec_def he h' pipes) simp
    have ms: "matched_spec J H wrap_id (S\<lparr>sv_middleware := x\<rparr>) = matched_spec J H wrap_id S" for x
      by (intro ext, unfold matched_spec_def rm g) (rule refl)
    have r: "routed_spec J H wrap_id (S\<lparr>sv_middleware := x\<rparr>) = routed_spec J H wrap_id S" for x
      by (intro ext, unfold routed_spec_def ms) simp
    have ms': "matched_spec J H wrap_id (S\<lparr>sv_module_middlewares := m # sv_module_middlewares S\<rparr>) = matched_spec J H wrap_id S"
      by (intro ext, unfold matched_spec_def rm g') (rule refl)
    have r': "routed_spec J H wrap_id (S\<lparr>sv_module_middlewares := m # sv_module_middlewares S\<rparr>) = routed_spec J H wrap_id S"
      by (intro ext, unfold routed_spec_def ms') simp
    have "serve_seeded B J H wrap_id (S\<lparr>sv_middleware := Some m\<rparr>) q u =
        serve_seeded B J H wrap_id (S\<lparr>sv_middleware := None\<rparr>) q u"
      by (unfold serve_seeded_spec serve_spec_def r) (simp add: inert)
    moreover have "serve_seeded B J H wrap_id (S\<lparr>sv_module_middlewares := m # sv_module_middlewares S\<rparr>) q u =
        serve_seeded B J H wrap_id S q u"
      by (unfold serve_seeded_spec serve_spec_def r') simp
    ultimately show ?thesis ..
  qed
  then have "handle_request B J H new_uuid (S\<lparr>sv_middleware := Some m\<rparr>) parts frames w =
        handle_request B J H new_uuid (S\<lparr>sv_middleware := None\<rparr>) parts frames w \<and>
      handle_request B J H new_uuid (S\<lparr>sv_module_middlewares := m # sv_module_middlewares S\<rparr>) parts frames w =
        handle_request B J H new_uuid S parts frames w"
    if "\<And>q u. execute_middleware m q u = (Forwarded q, u)" for m
    using that by (intro conjI handle_request_cong) simp_all
  then show ?thesis
    by (simp add: execute_response_middleware middleware_service_def helmet_middleware_def)
qed

section \<open>Versions\<close>

definition unversioned :: "'a RouteDispatchEntry \<Rightarrow> 'a RouteDispatchEntry" where
  "unversioned entry = entry\<lparr>de_version := None\<rparr>"

lemma unversioned_fields [simp]:
  "de_method (unversioned e) = de_method e" "de_pattern (unversioned e) = de_pattern e"
  "de_value (unversioned e) = de_value e" "de_version (unversioned e) = None"
  by (simp_all add: unversioned_def)

lemma register_selected_new:
  assumes "dispatch_indexed reg" "rd_routes reg = map unversioned pre"
    "sorted_by entry_order (map unversioned (pre @ [e]))" "distinct (map entry_key (map unversioned (pre @ [e])))"
  shows "dispatch_indexed (register_selected e reg) \<and> rd_routes (register_selected e reg) = map unversioned (pre @ [e])"
proof -
  have e: "\<lparr>de_method = de_method e, de_pattern = de_pattern e, de_version = Option.bind None normalize_version_token,
      de_value = de_value e\<rparr> = unversioned e"
    by (simp add: unversioned_def)
  have "register_versioned reg (de_method e) (de_pattern e) None (de_value e) =
      Inr (dispatch_rebuild (reg\<lparr>rd_routes := map unversioned (pre @ [e])\<rparr>))"
    using assms(2-4) unfolding register_versioned_cases e Let_def
    by (simp add: entry_order.sort_by_sorted image_image)
  then show ?thesis
    by (simp add: register_selected_def dispatch_register_def dispatch_rebuild_def dispatch_indexed_def)
qed

lemma register_selected_all:
  assumes "dispatch_indexed reg" "rd_routes reg = map unversioned pre"
    "sorted_by entry_order (map unversioned (pre @ filter P es))"
    "distinct (map entry_key (map unversioned (pre @ filter P es)))"
  defines "reg' \<equiv> fold (\<lambda>entry selected. if P entry then register_selected entry selected else selected) es reg"
  shows "dispatch_indexed reg' \<and> rd_routes reg' = map unversioned (pre @ filter P es)"
  using assms(1-4) unfolding reg'_def
proof (induction es arbitrary: reg pre)
  case (Cons e es)
  show ?case
  proof (cases "P e")
    case True
    have "dispatch_indexed (register_selected e reg) \<and> rd_routes (register_selected e reg) = map unversioned (pre @ [e])"
      using Cons.prems True by (intro register_selected_new) (simp_all add: sorted_wrt_append)
    with Cons.IH [of "register_selected e reg" "pre @ [e]"] Cons.prems True show ?thesis by simp
  qed (use Cons in simp)
qed simp

lemma eligible_should_include:
  "eligible routes p v = filter (should_include routes p v) routes"
proof (cases v)
  case None
  then show ?thesis by (simp add: eligible_def should_include_def [abs_def] conj_commute)
next
  case (Some a)
  let ?some = "list_ex (\<lambda>e. de_version e = Some a \<and> matches (de_pattern e) p) routes"
  have "filter (\<lambda>e. de_version e = Some a \<and> matches (de_pattern e) p) routes \<noteq> [] \<longleftrightarrow> ?some"
    by (simp add: filter_empty_conv list_ex_iff)
  with Some show ?thesis
    by (cases ?some) (simp_all add: eligible_def should_include_def [abs_def] Let_def conj_commute)
qed

lemma eligible_same_version:
  "e \<in> set (eligible routes p v) \<Longrightarrow> e' \<in> set (eligible routes p v) \<Longrightarrow> de_version e = de_version e'"
  by (auto simp: eligible_def Let_def split: if_splits)

lemma eligible_unversioned:
  "\<forall>e \<in> set es. matches (de_pattern e) p \<Longrightarrow> eligible (map unversioned es) p None = map unversioned es"
  by (auto simp: eligible_def Let_def filter_empty_conv intro!: filter_True)

lemma find_map_apply: "find P (map f xs) = map_option f (find (\<lambda>x. P (f x)) xs)"
  by (induction xs) auto

definition forget_version :: "'a RouteDispatchOutcome \<Rightarrow> 'a RouteDispatchOutcome" where
  "forget_version outcome = (case outcome of Matched e \<Rightarrow> Matched (unversioned e) | other \<Rightarrow> other)"

lemma versioned_routes_table:
  assumes "dispatch_built history routes" and v: "requested_api_version H rq = v"
  shows "dispatch_indexed (versioned_routes_for_request H rq routes) \<and>
    rd_routes (versioned_routes_for_request H rq routes) = map unversioned (eligible (rd_routes routes) (rq_path rq) v)"
proof -
  let ?P = "should_include (rd_routes routes) (rq_path rq) v"
  let ?el = "eligible (rd_routes routes) (rq_path rq) v"
  note facts = dispatch_built_facts [OF assms(1)]
  have "sorted_by entry_order (rd_routes routes)" using facts by (simp add: entry_order.sorted_sort_by)
  then have sorted: "sorted_by entry_order (map unversioned ?el)"
    by (simp add: eligible_should_include sorted_wrt_map sorted_wrt_filter entry_order_def)
  have "distinct (map entry_key (rd_routes routes))"
    using facts mset_eq_imp_distinct_iff [of "map entry_key (rd_routes routes)" "map entry_key history"]
    by (simp add: mset_sort_by)
  then have keys: "distinct (map entry_key ?el)"
    by (simp add: eligible_should_include distinct_map_filterI)
  have "inj_on (\<lambda>e. entry_key (unversioned e)) (set ?el)"
  proof (rule inj_onI)
    fix e e'
    assume e: "e \<in> set ?el" "e' \<in> set ?el" and "entry_key (unversioned e) = entry_key (unversioned e')"
    then have "entry_key e = entry_key e'"
      using eligible_same_version [OF e] by (simp add: entry_key_def)
    with keys e show "e = e'" by (metis distinct_map inj_onD)
  qed
  then have "distinct (map entry_key (map unversioned ?el))"
    using keys by (simp add: distinct_map comp_def inj_on_def)
  then show ?thesis
    using register_selected_all [of dispatch_new "[]" ?P "rd_routes routes"] sorted
    by (simp add: versioned_routes_for_request_def v eligible_should_include dispatch_new_def dispatch_indexed_def rebuild_def)
qed

text \<open>Dispatch on the table that the server builds for a request is dispatch on the server's routes at the version
  the request asks for, by its version header or else its accept header: the same outcome, with the entry's version
  forgotten.\<close>

theorem versioned_routes_agree:
  assumes "dispatch_built history routes" "trimmed (normalize_path (rq_path rq))"
    and "Option.bind (requested_api_version H rq) normalize_version_token = requested_api_version H rq"
  shows "dispatch (versioned_routes_for_request H rq routes) http_method (rq_path rq) =
    forget_version (dispatch_versioned routes http_method (rq_path rq) (requested_api_version H rq))"
proof -
  let ?v = "requested_api_version H rq" and ?sel = "versioned_routes_for_request H rq routes"
  let ?el = "eligible (rd_routes routes) (rq_path rq) ?v"
  note table = versioned_routes_table [OF assms(1) refl, of H rq]
  have match: "\<forall>e \<in> set ?el. matches (de_pattern e) (rq_path rq)" using eligible_matches by blast
  then have "eligible (map unversioned ?el) (rq_path rq) None = map unversioned ?el"
    by (rule eligible_unversioned)
  then have pool: "eligible (rd_routes ?sel) (rq_path rq) (Option.bind None normalize_version_token) = map unversioned ?el"
    using table by simp
  have "dispatch ?sel http_method (rq_path rq) = dispatch_versioned ?sel http_method (rq_path rq) None"
    by (simp add: dispatch_def select_def dispatch_versioned_def)
  also have "\<dots> =
      (case find (\<lambda>e. method_matches (de_method e) (request_method http_method)) (map unversioned ?el) of
         Some e \<Rightarrow> Matched e
       | None \<Rightarrow> if map unversioned ?el = [] then NotFound
                 else MethodNotAllowed (normalize_path (rq_path rq))
                        (sorted_list_of_set ((\<lambda>e. method_as_str (de_method e)) ` set (map unversioned ?el))))"
    unfolding dispatch_versioned_find [OF conjunct1 [OF table] assms(2)] pool Let_def ..
  also have "(\<lambda>e. method_as_str (de_method e)) ` set (map unversioned ?el) = (\<lambda>e. method_as_str (de_method e)) ` set ?el"
    by (simp add: image_image)
  finally have "dispatch ?sel http_method (rq_path rq) =
      (case find (\<lambda>e. method_matches (de_method e) (request_method http_method)) (map unversioned ?el) of
         Some e \<Rightarrow> Matched e
       | None \<Rightarrow> if map unversioned ?el = [] then NotFound
                 else MethodNotAllowed (normalize_path (rq_path rq))
                        (sorted_list_of_set ((\<lambda>e. method_as_str (de_method e)) ` set ?el)))" .
  moreover have "dispatch_indexed routes" using dispatch_built_entries [OF assms(1)] by simp
  ultimately show ?thesis
    unfolding dispatch_versioned_find [OF \<open>dispatch_indexed routes\<close> assms(2)] assms(3) Let_def find_map_apply
    by (auto simp: forget_version_def split: option.split)
qed

text \<open>JSON and header functions to try the server on: names in lower case, every value admissible.\<close>

definition demo_http :: "DemoJson HttpOps" where
  "demo_http =
     \<lparr>header_name = (\<lambda>n. Some (to_ascii_lowercase n)), header_value = Some, header_to_str = Inr, form_parse = (\<lambda>q. []),
      utf8_bytes = map of_char, utf8_text = (\<lambda>bs. Inr (map (char_of \<circ> unat) bs)), json_from_str = (\<lambda>s. Inr (JStr s)),
      json_from_slice = (\<lambda>bs. Inr (JStr (map (char_of \<circ> unat) bs))), json_to_string = (\<lambda>j. Inr []), json_to_vec = (\<lambda>j. Inr []),
      json_string = JStr,
      json_object = (\<lambda>m. case m ''data'' of Some v \<Rightarrow> v | None \<Rightarrow> (case m ''message'' of Some v \<Rightarrow> v | None \<Rightarrow> JArr [])),
      json_number = (\<lambda>n. JNum (of_nat n)), json_array = JArr, json_null = JArr [], json_is_null = (\<lambda>v. v = JArr []),
      valid_status = (\<lambda>c. 100 \<le> c \<and> c < 1000)\<rparr>"

definition demo_http_get :: "string \<Rightarrow> string \<Rightarrow> (string \<times> string) list \<Rightarrow> DemoJson NivasaRequest" where
  "demo_http_get http_method p headers =
     \<lparr>rq_method = http_method, rq_path = p, rq_query = None, rq_headers = (\<lambda>n. map_option (\<lambda>v. [v]) (map_of headers n)),
      rq_body = Empty, rq_path_params = None\<rparr>"

theorem versioned_routes_agree_witness:
  "dispatch (versioned_routes_for_request demo_http (demo_http_get ''POST'' ''/users/me'' [(''x-api-version'', ''2'')]) demo3)
     ''POST'' ''/users/me'' = Matched (unversioned (demo_history ! 2)) \<and>
   dispatch (versioned_routes_for_request demo_http (demo_http_get ''GET'' ''/users/me'' [(''accept'', ''a/b.v3+json'')]) demo3)
     ''GET'' ''/users/me'' = Matched (unversioned (demo_history ! 1))"
proof -
  let ?q2 = "demo_http_get ''POST'' ''/users/me'' [(''x-api-version'', ''2'')]"
    and ?q3 = "demo_http_get ''GET'' ''/users/me'' [(''accept'', ''a/b.v3+json'')]"
  have p: "rq_path ?q2 = ''/users/me''" "rq_path ?q3 = ''/users/me''" by (simp_all add: demo_http_get_def)
  have t: "trim (normalize_path ''/users/me'') = normalize_path ''/users/me''" by code_simp
  have v: "requested_api_version demo_http ?q2 = Some ''v2''" "requested_api_version demo_http ?q3 = Some ''v3''" by code_simp+
  have n: "normalize_version_token ''v2'' = Some ''v2''" "normalize_version_token ''v3'' = Some ''v3''" by code_simp+
  have "dispatch_versioned demo3 ''POST'' ''/users/me'' (Some ''v2'') = Matched (demo_history ! 2)"
    "dispatch_versioned demo3 ''GET'' ''/users/me'' (Some ''v3'') = Matched (demo_history ! 1)" by code_simp+
  with versioned_routes_agree [OF demo_built, of ?q2 demo_http "''POST''"]
    versioned_routes_agree [OF demo_built, of ?q3 demo_http "''GET''"]
  show ?thesis by (simp add: p t v n forget_version_def)
qed

section \<open>Bodies, filters, entry points\<close>

fun frame_data :: "BodyFrame list \<Rightarrow> bytes" where
  "frame_data [] = []"
| "frame_data (DataFrame d # frames) = d @ frame_data frames"
| "frame_data (TrailersFrame # frames) = frame_data frames"
| "frame_data (FailedFrame # frames) = []"


lemma collect_from_limit:
  assumes "length buffer \<le> l" "l < 2 ^ 64 - 1"
  shows "(collect_from (Some l) buffer frames = Inr b \<longleftrightarrow>
      FailedFrame \<notin> set frames \<and> b = buffer @ frame_data frames \<and> length b \<le> l) \<and>
    (collect_from (Some l) buffer frames = Inl TooLarge \<longleftrightarrow> l < length (buffer @ frame_data frames))"
  using assms
  by (induction frames arbitrary: buffer rule: frame_data.induct) (auto simp: saturating_add_usize_def)

text \<open>The body limit is exact. With a limit, a body is accepted exactly when no frame fails and the data of its frames
  is at most the limit, and then it is that data; it is refused as too large exactly when the data before the first
  failed frame exceeds the limit, at whatever frame that happens.\<close>

theorem body_limit_exact:
  assumes "l < 2 ^ 64 - 1"
  shows "(collect_request_body frames (Some l) = Inr b \<longleftrightarrow>
      FailedFrame \<notin> set frames \<and> b = frame_data frames \<and> length b \<le> l) \<and>
    (collect_request_body frames (Some l) = Inl TooLarge \<longleftrightarrow> l < length (frame_data frames)) \<and>
    (collect_request_body frames None = Inr b \<longleftrightarrow> FailedFrame \<notin> set frames \<and> b = frame_data frames)"
proof (intro conjI)
  note limit = collect_from_limit [of "[]" l, OF _ assms]
  show "collect_request_body frames (Some l) = Inr b \<longleftrightarrow>
      FailedFrame \<notin> set frames \<and> b = frame_data frames \<and> length b \<le> l"
    using limit by (auto simp: collect_request_body_def)
  show "collect_request_body frames (Some l) = Inl TooLarge \<longleftrightarrow> l < length (frame_data frames)"
    using limit by (auto simp: collect_request_body_def)
  have "collect_from None buffer frames = Inr b \<longleftrightarrow> FailedFrame \<notin> set frames \<and> b = buffer @ frame_data frames" for buffer
    by (induction frames arbitrary: buffer rule: frame_data.induct) auto
  then show "collect_request_body frames None = Inr b \<longleftrightarrow> FailedFrame \<notin> set frames \<and> b = frame_data frames"
    by (simp add: collect_request_body_def)
qed

theorem body_limit_exact_witness:
  "collect_request_body [DataFrame [1, 2], TrailersFrame, DataFrame [3]] (Some 3) = Inr [1, 2, 3] \<and>
   collect_request_body [DataFrame [1, 2], DataFrame [3, 4], FailedFrame] (Some 3) = Inl TooLarge"
proof -
  have l: "(3 :: nat) < 2 ^ 64 - 1" by simp
  show ?thesis
    using body_limit_exact [OF l, of "[DataFrame [1, 2], TrailersFrame, DataFrame [3]]" "[1, 2, 3]"]
      body_limit_exact [OF l, of "[DataFrame [1, 2], DataFrame [3, 4], FailedFrame]"] by simp
qed

definition best_filter :: "('j, 'e, 'w) GlobalFilterBinding list \<Rightarrow> ('j, 'e, 'w) GlobalFilterBinding option" where
  "best_filter filters =
     (case rev (filter (\<lambda>b. gf_exception_type b = Some exception_type_name) filters) of
        b # _ \<Rightarrow> Some b
      | [] \<Rightarrow>
          (case rev (filter (\<lambda>b. gf_exception_type b = None \<and> gf_catch_all b) filters) of
             b # _ \<Rightarrow> Some b
           | [] \<Rightarrow> None))"

lemma filter_score_values:
  "filter_score b = 2 \<longleftrightarrow> gf_exception_type b = Some exception_type_name"
  "filter_score b = Suc 0 \<longleftrightarrow> gf_exception_type b = None \<and> gf_catch_all b"
  "filter_score b = 0 \<or> filter_score b = Suc 0 \<or> filter_score b = 2"
  by (auto simp: filter_score_def split: option.splits)

lemma best_filter_cases:
  obtains c cs where "rev (filter (\<lambda>b. gf_exception_type b = Some exception_type_name) bs) = c # cs"
      "best_filter bs = Some c" "filter_score c = 2"
  | c cs where "rev (filter (\<lambda>b. gf_exception_type b = Some exception_type_name) bs) = []"
      "rev (filter (\<lambda>b. gf_exception_type b = None \<and> gf_catch_all b) bs) = c # cs" "best_filter bs = Some c" "filter_score c = Suc 0"
  | "rev (filter (\<lambda>b. gf_exception_type b = Some exception_type_name) bs) = []"
      "rev (filter (\<lambda>b. gf_exception_type b = None \<and> gf_catch_all b) bs) = []" "best_filter bs = None"
proof -
  have mem: "rev (filter P bs) = c # cs \<Longrightarrow> P c" for P c cs
  proof -
    assume "rev (filter P bs) = c # cs"
    then have "c \<in> set (rev (filter P bs))" by simp
    then show "P c" by simp
  qed
  show thesis
  proof (cases "rev (filter (\<lambda>b. gf_exception_type b = Some exception_type_name) bs)")
    case (Cons c cs)
    with mem [OF Cons] show thesis by (intro that(1)) (simp_all add: best_filter_def filter_score_values)
  next
    case Nil
    show thesis
    proof (cases "rev (filter (\<lambda>b. gf_exception_type b = None \<and> gf_catch_all b) bs)")
      case (Cons c cs)
      with mem [OF Cons] Nil show thesis by (intro that(2)) (simp_all add: best_filter_def filter_score_values)
    next
      case Nil': Nil
      with Nil show thesis by (intro that(3)) (simp_all add: best_filter_def)
    qed
  qed
qed

lemma best_filter_snoc:
  "best_filter (bs @ [b]) =
    (if filter_score b = 2 then Some b
     else if filter_score b = Suc 0
     then (case best_filter bs of Some c \<Rightarrow> if filter_score c = 2 then Some c else Some b | None \<Rightarrow> Some b)
     else best_filter bs)"
proof (cases "filter_score b = 2")
  case True
  then show ?thesis by (simp add: best_filter_def filter_score_values)
next
  case False
  then show ?thesis
    by (cases rule: best_filter_cases [of bs])
      (simp_all add: best_filter_def [of "bs @ [b]"] filter_score_values del: rev_is_Nil_conv filter.simps)
qed

lemma select_exception_filter_best: "select_exception_filter filters = best_filter filters"
proof -
  have "(case foldl better_filter None (zip [0..<length filters] filters) of
           None \<Rightarrow> best_filter filters = None
         | Some (i, score, b) \<Rightarrow> i < length filters \<and> score = filter_score b \<and> score \<noteq> 0 \<and> best_filter filters = Some b)"
  proof (induction filters rule: rev_induct)
    case Nil
    then show ?case by (simp add: best_filter_def)
  next
    case (snoc b bs)
    have best: "best_filter (bs @ [b]) =
        (if filter_score b = 2 then Some b
         else if filter_score b = Suc 0 then (case best_filter bs of Some c \<Rightarrow> if filter_score c = 2 then Some c else Some b | None \<Rightarrow> Some b)
         else best_filter bs)"
      by (rule best_filter_snoc)
    obtain r where r: "foldl better_filter None (zip [0..<length bs] bs) = r" by blast
    have step: "foldl better_filter None (zip [0..<length (bs @ [b])] (bs @ [b])) = better_filter r (length bs, b)"
      using r by (simp add: zip_append)
    note IH = snoc.IH [unfolded r]
    show ?case
      unfolding step
    proof (cases r)
      case None
      with IH best filter_score_values(3) [of b]
      show "case better_filter r (length bs, b) of None \<Rightarrow> best_filter (bs @ [b]) = None
        | Some (i, score, c) \<Rightarrow> i < length (bs @ [b]) \<and> score = filter_score c \<and> score \<noteq> 0 \<and> best_filter (bs @ [b]) = Some c"
        by (auto simp: better_filter_def Let_def)
    next
      case (Some x)
      obtain i score c where x: "x = (i, score, c)" by (cases x)
      with IH Some have "i < length bs" "score = filter_score c" "score \<noteq> 0" "best_filter bs = Some c" by simp_all
      with x Some best filter_score_values(3) [of b] filter_score_values(3) [of c]
      show "case better_filter r (length bs, b) of None \<Rightarrow> best_filter (bs @ [b]) = None
        | Some (i, score, c) \<Rightarrow> i < length (bs @ [b]) \<and> score = filter_score c \<and> score \<noteq> 0 \<and> best_filter (bs @ [b]) = Some c"
        by (auto simp: better_filter_def Let_def)
    qed
  qed
  then show ?thesis
    by (auto simp: select_exception_filter_def split: option.splits)
qed

text \<open>Which filter answers an exception. The handler's filters come before the controller's, those before the global
  ones; at the first level that has a filter for HTTP exceptions or a catch-all one, the last one registered for HTTP
  exceptions is taken, or else the last catch-all one. Its response is the answer; if it panics the answer has status
  500. Without such a filter the answer is the exception's own summary.\<close>

theorem exception_filter_choice:
  "handle_http_exception H exc handler_filters controller_filters global_filters rq w =
     (case find_map best_filter [handler_filters, controller_filters, global_filters] of
        Some binding \<Rightarrow>
          (case gf_filter binding exc \<lparr>ah_request_context = Some (request_context_from_request H rq)\<rparr> w of
             (Some r, w1) \<Rightarrow> (r, w1)
           | (None, w1) \<Rightarrow> (fallback_unhandled_exception_response H, w1))
      | None \<Rightarrow> (summary_into_response H (http_exception_summary exc), w)) \<and>
   rs_status (fallback_unhandled_exception_response H) = 500"
  by (auto simp: handle_http_exception_def select_exception_filter_best or_else_def host_with_request_context_def
      arguments_host_new_def fallback_unhandled_exception_response_def summary_into_response_def status_or_500_def
      response_new_def builder_body_def builder_status_def response_build_def response_builder_def
      http_exception_summary_def internal_server_error_def exception_new_def Let_def split: option.splits)

section \<open>The two entry points\<close>

lemma wrapped_id:
  "\<exists>r1 r2 w1. serve_spec J H (Some i) S rq w = (r1, w1) \<and> serve_spec J H None S rq w = (r2, w1) \<and>
     with_request_id H r1 (Some i) = with_request_id H r2 (Some i)"
proof -
  have twice: "with_request_id H (with_request_id H r (Some i)) (Some i) = with_request_id H r (Some i)"
    "with_request_id H r None = r" for r
    by (auto simp: with_request_id_def with_header_def put_header_def split: option.splits)
  let ?same = "\<lambda>x y. snd x = snd y \<and> with_request_id H (fst x) (Some i) = with_request_id H (fst y) (Some i)"
  have h: "?same (handler_spec H (Some i) S b q u) (handler_spec H None S b q u)" for b q u
    by (auto simp: handler_spec_def twice split: prod.splits option.splits InterceptorExecution.splits)
  have g: "?same (guarded_spec J H (Some i) S b q u) (guarded_spec J H None S b q u)" for b q u
    by (auto simp: guarded_spec_def h split: prod.splits sum.splits GuardExecutionOutcome.splits)
  have r: "?same (routed_spec J H (Some i) S q u) (routed_spec J H None S q u)" for q u
    by (auto simp: routed_spec_def matched_spec_def g Let_def split: prod.splits sum.splits RouteDispatchOutcome.splits)
  have "?same (serve_spec J H (Some i) S rq w) (serve_spec J H None S rq w)"
    by (auto simp: serve_spec_def r Let_def split: prod.splits option.splits MiddlewareExecution.splits)
  then show ?thesis by (metis prod.collapse)
qed

text \<open>The in-process entry point, which the test client calls, answers as the network does: for a request that is not
  a preflight and whose body is accepted, both give the same reply and leave the same world.\<close>

theorem in_process_agrees:
  assumes "header_name H ''origin'' = Some ''origin''" "header_name H ''x-request-id'' = Some ''x-request-id''"
    and "sv_cors S = None \<or> \<not> is_cors_preflight (rq_headers parts) (rq_method parts)"
    and "collect_request_body frames (sv_request_body_size_limit S) = Inr collected"
  shows "handle_request B J H new_uuid S parts frames w =
    dispatch_nivasa_request B J H new_uuid S (parts\<lparr>rq_body := if collected = [] then Empty else Bytes collected\<rparr>) w"
proof -
  let ?rq = "parts\<lparr>rq_body := if collected = [] then Empty else Bytes collected\<rparr>"
  have h: "header H ?rq n = Option.bind (rq_headers parts n) (\<lambda>vs. case vs of [] \<Rightarrow> None | v # _ \<Rightarrow> Some v)"
    if "header_name H n = Some n" for n using that by (simp add: header_def)
  have origin: "first_value H (rq_headers parts) ''origin'' =
      Option.bind (header H ?rq ''origin'') (\<lambda>v. case header_to_str H v of Inr t \<Rightarrow> Some t | Inl _ \<Rightarrow> None)"
    unfolding h [OF assms(1)] first_value_def
    by (cases "rq_headers parts ''origin''") (simp_all split: list.split)
  have ident: "Option.bind (first_value H (rq_headers parts) ''x-request-id'') non_blank = request_header_value H ?rq ''x-request-id''"
    unfolding request_header_value_def h [OF assms(2)] first_value_def
    by (cases "rq_headers parts ''x-request-id''") (simp_all split: list.split sum.split)
  obtain i w1 where id: "request_id_from_headers H new_uuid (rq_headers parts) w = (i, w1)" by fastforce
  have id': "(case request_header_value H ?rq ''x-request-id'' of Some i \<Rightarrow> (i, w) | None \<Rightarrow> new_uuid w) = (i, w1)"
    using id unfolding request_id_from_headers_def ident by simp
  obtain r1 r2 w2 where same: "serve_spec J H (Some i) S (seed_request_identity H ?rq i) w1 = (r1, w2)"
    "serve_spec J H None S (seed_request_identity H ?rq i) w1 = (r2, w2)"
    "with_request_id H r1 (Some i) = with_request_id H r2 (Some i)"
    using wrapped_id [of J H i S "seed_request_identity H ?rq i" w1] by blast
  have pre: "\<not> (sv_cors S \<noteq> None \<and> is_cors_preflight (rq_headers parts) (rq_method parts))" using assms(3) by auto
  show ?thesis
    unfolding handle_request_def dispatch_nivasa_request_def Let_def id id' origin serve_seeded_spec if_not_P [OF pre] assms(4)
      prod.case sum.case
    by (simp add: same finalize_nivasa_response_def)
qed

text \<open>A server to try: one route, whose handler answers with the path and counts its calls in the world; its guard lets
  requests through that carry an \<open>x-user-id\<close>.\<close>

definition demo_handler :: "(DemoJson, nat) RouteHandler" where
  "demo_handler rq n = (Some (response_text (rq_path rq)), n + 1)"

definition demo_user_guard :: "(DemoJson, unit, nat) ServerGuard" where
  "demo_user_guard ctx n = (Inr (request_custom (as_str demo_json) ctx ''user_id'' \<noteq> None), n)"

definition demo_server :: "(DemoJson, unit, nat) NivasaServer" where
  "demo_server =
     server_build
       (use_global_guard (projr (route (builder_new (\<lambda>st now k l t. (True, st)) (\<lambda>n. 0)) Get ''/users'' demo_handler))
          demo_user_guard)"

theorem in_process_agrees_witness:
  "handle_request \<lparr>bd_debug = True, bd_hash = ''h''\<rparr> demo_json demo_http (\<lambda>n. (''id'', n)) demo_server
       (demo_http_get ''GET'' ''/users'' [(''x-user-id'', ''7'')]) [DataFrame [65]] 0 =
     dispatch_nivasa_request \<lparr>bd_debug = True, bd_hash = ''h''\<rparr> demo_json demo_http (\<lambda>n. (''id'', n)) demo_server
       ((demo_http_get ''GET'' ''/users'' [(''x-user-id'', ''7'')])\<lparr>rq_body := Bytes [65]\<rparr>) 0"
proof -
  have "header_name demo_http ''origin'' = Some ''origin''" "header_name demo_http ''x-request-id'' = Some ''x-request-id''"
    by code_simp+
  moreover have "sv_cors demo_server = None" "sv_request_body_size_limit demo_server = None"
    by (simp_all add: demo_server_def server_build_def NivasaServer.truncate_def use_global_guard_def route_def add_route_def
        builder_new_def) code_simp+
  moreover have "collect_request_body [DataFrame [65]] None = Inr [65]" by code_simp
  ultimately show ?thesis
    using in_process_agrees [of demo_http demo_server "demo_http_get ''GET'' ''/users'' [(''x-user-id'', ''7'')]"
        "[DataFrame [65]]" "[65]"] by simp
qed

section \<open>The cache in the server\<close>

text \<open>How the parts of the world that a cache uses behave: its store can be updated, and that does not move the clock.\<close>

definition cache_laws :: "('r, 'w) CacheAccess \<Rightarrow> bool" where
  "cache_laws A \<longleftrightarrow> (\<forall>f w. ca_store A (ca_update A f w) = f (ca_store A w) \<and> ca_clock A (ca_update A f w) = ca_clock A w)"

definition server_cache_key :: "'j NivasaRequest \<Rightarrow> string" where
  "server_cache_key rq =
     default_cache_key (with_request interceptor_context_new (rq_method rq) (rq_path rq) :: (unit, unit) InterceptorContext)"

lemma server_cache_key:
  "default_cache_key (with_request interceptor_context_new (rq_method rq) (rq_path rq)) = server_cache_key rq"
  by (simp add: server_cache_key_def default_cache_key_def with_request_def interceptor_context_new_def)

lemma cache_run:
  "execute_interceptors [cache_interceptor A (cache_with_ttl ttl)] rq handler w =
     (let key = server_cache_key rq;
          called = (\<lambda>w0. case handler rq w0 of
             (Some r, w1) \<Rightarrow> (Completed r, ca_update A (\<lambda>store. store(key \<mapsto> \<lparr>ce_value = r, ce_inserted_at = ca_clock A w1\<rparr>)) w1)
           | (None, w1) \<Rightarrow> (InterceptorError (internal_server_error ''request handler failed'') True, w1))
      in case ca_store A w key of
           None \<Rightarrow> called w
         | Some entry \<Rightarrow>
             if ttl \<le> ca_clock A w - ce_inserted_at entry then called (ca_update A (\<lambda>store. store(key := None)) w)
             else (Intercepted (ce_value entry), w))"
proof (cases "ca_store A w (server_cache_key rq)")
  case None
  then show ?thesis
    by (cases "handler rq w"; cases "fst (handler rq w)")
      (simp_all add: execute_interceptors_def cache_interceptor_def cache_with_ttl_def server_cache_key Let_def call_handler_def)
next
  case (Some entry)
  let ?w = "ca_update A (\<lambda>store. store(server_cache_key rq := None)) w"
  from Some show ?thesis
    by (cases "handler rq ?w"; cases "fst (handler rq ?w)")
      (simp_all add: execute_interceptors_def cache_interceptor_def cache_with_ttl_def server_cache_key Let_def call_handler_def
        is_expired_def)
qed

text \<open>The cache interceptor in the server. The first request for a key runs the handler, is answered with its response
  and stored at the time of the answer. Until its time to live has passed, every later request with the same method
  and path is answered with that response and does not run its handler, whatever its query, headers, user or body,
  and for a \<open>POST\<close> as for a \<open>GET\<close>. From that time on the handler runs again.\<close>

theorem cached_response_shared:
  fixes ttl :: nat
  assumes "cache_laws A" "ca_store A w (server_cache_key rq) = None" "handler rq w = (Some r, w1)"
  defines "run \<equiv> execute_interceptors [cache_interceptor A (cache_with_ttl ttl)]"
    and "w2 \<equiv> ca_update A (\<lambda>store. store(server_cache_key rq \<mapsto> \<lparr>ce_value = r, ce_inserted_at = ca_clock A w1\<rparr>)) w1"
  shows "run rq handler w = (Completed r, w2) \<and>
    (rq_method rq' = rq_method rq \<and> rq_path rq' = rq_path rq \<and> ca_store A w' = ca_store A w2 \<longrightarrow>
       (if ca_clock A w' - ca_clock A w1 < ttl then run rq' handler' w' = (Intercepted r, w')
        else \<forall>r'. fst (run rq' handler' w') \<noteq> Intercepted r'))"
proof -
  have stored: "ca_store A w2 (server_cache_key rq) = Some \<lparr>ce_value = r, ce_inserted_at = ca_clock A w1\<rparr>"
    using assms(1) by (simp add: cache_laws_def w2_def)
  have "server_cache_key rq' = server_cache_key rq" if "rq_method rq' = rq_method rq" "rq_path rq' = rq_path rq"
    using that by (simp add: server_cache_key_def)
  then show ?thesis
    using assms(2,3) stored by (auto simp: run_def w2_def cache_run Let_def split: option.split prod.split)
qed

text \<open>A world of a clock and a store.\<close>

definition demo_cache :: "(DemoJson NivasaResponse, nat \<times> DemoJson NivasaResponse CacheStore) CacheAccess" where
  "demo_cache = \<lparr>ca_clock = fst, ca_store = snd, ca_update = (\<lambda>f w. (fst w, f (snd w)))\<rparr>"

theorem cached_response_shared_witness:
  "let run = execute_interceptors [cache_interceptor demo_cache (cache_with_ttl 60)];
       handler = (\<lambda>rq w. (Some (response_text (''hello '' @ the (rq_query rq))), w));
       ask = (\<lambda>q. (demo_http_get ''GET'' ''/greet'' [])\<lparr>rq_query := Some q\<rparr>)
   in fst (run (ask ''bob'') handler (10, snd (snd (run (ask ''ann'') handler (0, Map.empty))))) =
        (Intercepted (response_text ''hello ann'') :: (DemoJson, unit) InterceptorExecution)"
proof -
  let ?h = "\<lambda>rq (w :: nat \<times> DemoJson NivasaResponse CacheStore).
    (Some (response_text (''hello '' @ the (rq_query rq)) :: DemoJson NivasaResponse), w)"
  let ?ask = "\<lambda>q. (demo_http_get ''GET'' ''/greet'' [])\<lparr>rq_query := Some q\<rparr>"
  have laws: "cache_laws demo_cache" by (simp add: cache_laws_def demo_cache_def)
  have empty: "ca_store demo_cache (0, Map.empty) (server_cache_key (?ask ''ann'')) = None" by (simp add: demo_cache_def)
  have "?h (?ask ''ann'') (0, Map.empty) = (Some (response_text ''hello ann''), 0, Map.empty)" by simp
  note shared = cached_response_shared [where handler = ?h and handler' = ?h and ttl = 60 and rq' = "?ask ''bob''",
      OF laws empty this]
  let ?run = "execute_interceptors [cache_interceptor demo_cache (cache_with_ttl 60)] ::
    _ \<Rightarrow> _ \<Rightarrow> _ \<Rightarrow> (DemoJson, unit) InterceptorExecution \<times> _"
  let ?w2 = "ca_update demo_cache (\<lambda>store. store(server_cache_key (?ask ''ann'') \<mapsto>
      \<lparr>ce_value = response_text ''hello ann'', ce_inserted_at = ca_clock demo_cache (0, Map.empty)\<rparr>)) (0, Map.empty)"
  have first: "?run (?ask ''ann'') ?h (0, Map.empty) = (Completed (response_text ''hello ann''), ?w2)"
    by (rule shared [THEN conjunct1])
  have same: "rq_method (?ask ''bob'') = rq_method (?ask ''ann'') \<and> rq_path (?ask ''bob'') = rq_path (?ask ''ann'') \<and>
      ca_store demo_cache (10, snd ?w2) = ca_store demo_cache ?w2"
    by (simp add: demo_cache_def demo_http_get_def)
  have "ca_clock demo_cache (10, snd ?w2) - ca_clock demo_cache (0, Map.empty) < 60" by (simp add: demo_cache_def)
  with shared [THEN conjunct2, THEN mp, OF same]
  have "?run (?ask ''bob'') ?h (10, snd ?w2) = (Intercepted (response_text ''hello ann''), (10, snd ?w2))" by simp
  then show ?thesis unfolding Let_def first snd_conv by simp
qed

theorem cors_origin_safe_witness:
  "let co = set_allow_credentials (allow_origins permissive [''https://a.example'']) True;
       answer = (\<lambda>origin. rs_headers (apply_cors_headers_to_response demo_http (response_new 200 Empty :: DemoJson NivasaResponse)
         (Some co) (Some origin)))
   in answer ''https://a.example'' ''access-control-allow-origin'' = Some [''https://a.example''] \<and>
      answer ''https://b.example'' ''access-control-allow-origin'' = None"
proof -
  have plain: "plain_headers demo_http"
    by (simp add: plain_headers_def demo_http_def) code_simp
  have empty: "rs_headers (response_new 200 Empty :: DemoJson NivasaResponse) ''access-control-allow-origin'' = None"
    "rs_headers (response_new 200 Empty :: DemoJson NivasaResponse) ''access-control-allow-credentials'' = None"
    by (simp_all add: response_new_def builder_body_def builder_status_def response_build_def response_builder_def Let_def content_type_def)
  show ?thesis
    using cors_origin_safe [OF plain empty, of "set_allow_credentials (allow_origins permissive [''https://a.example'']) True"
        "Some ''https://a.example''"]
      cors_origin_safe [OF plain empty, of "set_allow_credentials (allow_origins permissive [''https://a.example'']) True"
        "Some ''https://b.example''"]
    by (simp add: set_allow_credentials_def allow_origins_def permissive_def demo_http_def)
qed

section \<open>Guards stand before everything else of the route\<close>

text \<open>C20: when the request that the route's middleware passes on is not let through by all global guards, nothing of the
  route but its filters matters: the reply and the world are the same for every handler and every list of pipes and
  interceptors, and a guard's refusal is answered with status 403.\<close>

theorem guards_before_handler:
  assumes "pipeline_state pl = ''GuardChain''"
    and "route_middleware_stage H S binding (pl_request pl) w = (Inr rq, w1)"
    and "\<not> all_guards_pass (sv_global_guards S) (guard_context H rq) w1"
  shows "matched_stage B J H wrap_id (S\<lparr>sv_global_pipes := pipes, sv_interceptors := interceptors\<rparr>)
      (binding\<lparr>rh_handler := handler\<rparr>) pl w = matched_stage B J H wrap_id S binding pl w \<and>
    (\<forall>event w2. guards_event (sv_global_guards S) (guard_context H rq) w1 = (event, Denied, w2) \<longrightarrow>
       matched_stage B J H wrap_id S binding pl w = (Answer (guard_denied_response H), w2)) \<and>
    (valid_status H 403 \<longrightarrow> rs_status (guard_denied_response H) = 403)"
proof -
  let ?S = "S\<lparr>sv_global_pipes := pipes, sv_interceptors := interceptors\<rparr>" and ?b = "binding\<lparr>rh_handler := handler\<rparr>"
  obtain event outcome w2 where g: "guards_event (sv_global_guards S) (guard_context H rq) w1 = (event, outcome, w2)"
    by (cases "guards_event (sv_global_guards S) (guard_context H rq) w1") auto
  have "outcome \<noteq> Passed"
    using guards_event_passed [of "sv_global_guards S" "guard_context H rq" w1] assms(3) g guards_event_outcome [OF g] by auto
  moreover have same: "sv_module_middlewares ?S = sv_module_middlewares S" "sv_route_middlewares ?S = sv_route_middlewares S"
    "rh_module_name ?b = rh_module_name binding" "rh_module_middlewares ?b = rh_module_middlewares binding"
    by simp_all
  have "route_middleware_stage H ?S ?b (pl_request pl) w = (Inr rq, w1)"
    using assms(2) unfolding route_middleware_stage_def same .
  ultimately show ?thesis
    using assms(2) g
    by (cases outcome)
      (simp_all add: matched_stage_spec [OF assms(1)] matched_spec_def guarded_spec_def handle_exception_def
        guard_denied_response_def summary_into_response_def http_exception_summary_def forbidden_def exception_new_def
        status_or_500_def response_new_def builder_body_def builder_status_def response_build_def Let_def)
qed

definition demo_pipeline :: "DemoJson RequestPipeline" where
  "demo_pipeline =
     moved \<lparr>bd_debug = False, bd_hash = []\<rparr> RouteMatched
       (moved \<lparr>bd_debug = False, bd_hash = []\<rparr> MiddlewareComplete
         (moved \<lparr>bd_debug = False, bd_hash = []\<rparr> RequestParsed
           (pipeline_new \<lparr>bd_debug = False, bd_hash = []\<rparr> (demo_http_get ''GET'' ''/users'' []))))"

theorem guards_before_handler_witness:
  "matched_stage \<lparr>bd_debug = False, bd_hash = []\<rparr> demo_json demo_http None demo_server (binding_new demo_handler)
     demo_pipeline 5 = (Answer (guard_denied_response demo_http), 5) \<and>
   rs_status (guard_denied_response demo_http) = 403"
proof -
  have state: "pipeline_state demo_pipeline = ''GuardChain''" by (simp add: demo_pipeline_def moved_states)
  have rq: "pl_request demo_pipeline = demo_http_get ''GET'' ''/users'' []" by (simp add: demo_pipeline_def)
  have parts: "sv_global_guards demo_server = [demo_user_guard]" "sv_module_middlewares demo_server = []"
    "sv_route_middlewares demo_server = []"
    by (simp_all add: demo_server_def server_build_def NivasaServer.truncate_def use_global_guard_def route_def add_route_def
        builder_new_def) code_simp+
  have rm: "route_middleware_stage demo_http demo_server (binding_new demo_handler) (pl_request demo_pipeline) 5 =
      (Inr (demo_http_get ''GET'' ''/users'' []), 5)"
    by (simp add: route_middleware_stage_def parts rq binding_new_def attach_module_name_def matching_route_middlewares_def)
  have "demo_user_guard (guard_context demo_http (demo_http_get ''GET'' ''/users'' [])) 5 = (Inr False, 5)" by code_simp
  then have "\<not> all_guards_pass (sv_global_guards demo_server) (guard_context demo_http (demo_http_get ''GET'' ''/users'' [])) 5"
    "guards_event (sv_global_guards demo_server) (guard_context demo_http (demo_http_get ''GET'' ''/users'' [])) 5 = (GuardDenied, Denied, 5)"
    by (simp_all add: parts)
  from guards_before_handler [OF state rm this(1), where B = "\<lparr>bd_debug = False, bd_hash = []\<rparr>" and J = demo_json and wrap_id = None] this(2)
  show ?thesis by (simp add: demo_http_def)
qed

end
