(* ===== verification/Scheduler.thy ===== *)
theory Scheduler
  imports Prelude "HOL-Library.Word"
begin

text \<open>
  The in-memory scheduler (\<open>nivasa-scheduling/src/lib.rs\<close>): cron, interval and timeout jobs that a tick drives against
  a clock the caller supplies. Instants are integers and durations natural numbers (nanoseconds). The crates \<open>cron\<close>
  and \<open>chrono\<close> are the parameter \<open>TimeOps\<close>. A handler may itself register and remove jobs, since the scheduler holds
  no lock while it runs: handlers are names, and the environment says what running one does to the jobs and the world.
  Handlers are taken to return; an uuid is a natural number that the caller of a registration has drawn.
\<close>

record 'c TimeOps =
  schedule_from_str :: "string \<Rightarrow> string + 'c"
  cron_after :: "'c \<Rightarrow> int \<Rightarrow> int option"
  duration_to_chrono :: "nat \<Rightarrow> int option"
  checked_add_signed :: "int \<Rightarrow> int \<Rightarrow> int option"
  show_duration :: "nat \<Rightarrow> string"

datatype ScheduleError =
  InvalidCronExpression string string
| NoUpcomingFireTime string
| JobNotFound nat
| JobFailed string string
| InvalidIntervalDuration "64 word"

record 'c CronSchedule =
  cs_expression :: string
  cs_schedule :: 'c

definition cron_parse :: "'c TimeOps \<Rightarrow> string \<Rightarrow> ScheduleError + 'c CronSchedule" where
  "cron_parse T expression =
     (case schedule_from_str T expression of
        Inl message \<Rightarrow> Inl (InvalidCronExpression expression message)
      | Inr schedule \<Rightarrow> Inr \<lparr>cs_expression = expression, cs_schedule = schedule\<rparr>)"

definition cron_next_after :: "'c TimeOps \<Rightarrow> 'c CronSchedule \<Rightarrow> int \<Rightarrow> int option" where
  "cron_next_after T cron t = cron_after T (cs_schedule cron) t"

datatype SchedulePattern = Cron string | Interval nat | Timeout nat

datatype 'c ScheduledJobSchedule = CronJob string "'c CronSchedule" | IntervalJob nat | TimeoutJob nat

definition add_duration :: "'c TimeOps \<Rightarrow> int \<Rightarrow> nat \<Rightarrow> int option" where
  "add_duration T t d = Option.bind (duration_to_chrono T d) (checked_add_signed T t)"

definition initial_fire_at :: "'c TimeOps \<Rightarrow> 'c ScheduledJobSchedule \<Rightarrow> int \<Rightarrow> int option" where
  "initial_fire_at T schedule now =
     (case schedule of
        CronJob _ cron \<Rightarrow> cron_next_after T cron now
      | IntervalJob every \<Rightarrow> add_duration T now every
      | TimeoutJob delay \<Rightarrow> add_duration T now delay)"

definition schedule_next_after :: "'c TimeOps \<Rightarrow> 'c ScheduledJobSchedule \<Rightarrow> int \<Rightarrow> int option" where
  "schedule_next_after T schedule t =
     (case schedule of
        CronJob _ cron \<Rightarrow> cron_next_after T cron t
      | IntervalJob every \<Rightarrow> add_duration T t every
      | TimeoutJob _ \<Rightarrow> None)"

definition schedule_pattern :: "'c ScheduledJobSchedule \<Rightarrow> SchedulePattern" where
  "schedule_pattern schedule =
     (case schedule of CronJob expression _ \<Rightarrow> Cron expression | IntervalJob every \<Rightarrow> Interval every | TimeoutJob delay \<Rightarrow> Timeout delay)"

definition schedule_from_pattern :: "'c TimeOps \<Rightarrow> SchedulePattern \<Rightarrow> ScheduleError + 'c ScheduledJobSchedule" where
  "schedule_from_pattern T pattern =
     (case pattern of
        Cron expression \<Rightarrow>
          (case cron_parse T expression of Inl e \<Rightarrow> Inl e | Inr cron \<Rightarrow> Inr (CronJob expression cron))
      | Interval every \<Rightarrow> Inr (IntervalJob every)
      | Timeout delay \<Rightarrow> Inr (TimeoutJob delay))"

section \<open>Jobs\<close>

record ScheduledJobInfo =
  si_id :: nat
  si_name :: string
  si_pattern :: SchedulePattern
  si_next_fire_at :: "int option"

record ('c, 'h) ScheduledJob =
  sj_id :: nat
  sj_name :: string
  sj_schedule :: "'c ScheduledJobSchedule"
  sj_handler :: 'h
  sj_next_fire_at :: "int option"

definition scheduled_job_new ::
  "'c TimeOps \<Rightarrow> nat \<Rightarrow> string \<Rightarrow> 'c ScheduledJobSchedule \<Rightarrow> 'h \<Rightarrow> int \<Rightarrow> ScheduleError + ('c, 'h) ScheduledJob" where
  "scheduled_job_new T uuid name schedule handler now =
     (case initial_fire_at T schedule now of
        None \<Rightarrow>
          Inl (NoUpcomingFireTime
            (case schedule of
               CronJob expression _ \<Rightarrow> expression
             | IntervalJob every \<Rightarrow> ''interval:'' @ show_duration T every
             | TimeoutJob delay \<Rightarrow> ''timeout:'' @ show_duration T delay))
      | Some t \<Rightarrow>
          Inr \<lparr>sj_id = uuid, sj_name = name, sj_schedule = schedule, sj_handler = handler, sj_next_fire_at = Some t\<rparr>)"

definition job_info :: "('c, 'h) ScheduledJob \<Rightarrow> ScheduledJobInfo" where
  "job_info j =
     \<lparr>si_id = sj_id j, si_name = sj_name j, si_pattern = schedule_pattern (sj_schedule j), si_next_fire_at = sj_next_fire_at j\<rparr>"

record ('c, 'h) ScheduledJobSnapshot =
  sn_id :: nat
  sn_name :: string
  sn_schedule :: "'c ScheduledJobSchedule"
  sn_handler :: 'h
  sn_due_at :: int

definition snapshot_if_due :: "('c, 'h) ScheduledJob \<Rightarrow> int \<Rightarrow> ('c, 'h) ScheduledJobSnapshot option" where
  "snapshot_if_due j now =
     (case sj_next_fire_at j of
        None \<Rightarrow> None
      | Some t \<Rightarrow>
          if t > now then None
          else Some \<lparr>sn_id = sj_id j, sn_name = sj_name j, sn_schedule = sj_schedule j, sn_handler = sj_handler j, sn_due_at = t\<rparr>)"

type_synonym ('c, 'h) Jobs = "nat \<rightharpoonup> ('c, 'h) ScheduledJob"

section \<open>Registration\<close>

definition register_job ::
  "'c TimeOps \<Rightarrow> nat \<Rightarrow> string \<Rightarrow> 'c ScheduledJobSchedule \<Rightarrow> int \<Rightarrow> 'h \<Rightarrow> ('c, 'h) Jobs \<Rightarrow> (ScheduleError + nat) \<times> ('c, 'h) Jobs" where
  "register_job T uuid name schedule now handler jobs =
     (case scheduled_job_new T uuid name schedule handler now of
        Inl e \<Rightarrow> (Inl e, jobs)
      | Inr job \<Rightarrow> (Inr (sj_id job), jobs(sj_id job \<mapsto> job)))"

definition register_pattern_at ::
  "'c TimeOps \<Rightarrow> nat \<Rightarrow> string \<Rightarrow> SchedulePattern \<Rightarrow> int \<Rightarrow> 'h \<Rightarrow> ('c, 'h) Jobs \<Rightarrow> (ScheduleError + nat) \<times> ('c, 'h) Jobs" where
  "register_pattern_at T uuid name pattern now handler jobs =
     (case schedule_from_pattern T pattern of
        Inl e \<Rightarrow> (Inl e, jobs)
      | Inr schedule \<Rightarrow> register_job T uuid name schedule now handler jobs)"

text \<open>The variants without \<open>_at\<close> read the clock; here the clock's value is their argument \<open>now\<close>.\<close>

definition register_pattern where
  "register_pattern T uuid name pattern now handler jobs = register_pattern_at T uuid name pattern now handler jobs"

definition register_cron where
  "register_cron T uuid name expression now handler jobs = register_pattern_at T uuid name (Cron expression) now handler jobs"

definition register_cron_at where
  "register_cron_at T uuid name expression now handler jobs =
     (case schedule_from_pattern T (Cron expression) of
        Inl e \<Rightarrow> (Inl e, jobs)
      | Inr schedule \<Rightarrow> register_job T uuid name schedule now handler jobs)"

definition register_interval where
  "register_interval T uuid name every now handler jobs = register_pattern_at T uuid name (Interval every) now handler jobs"

definition register_interval_at where
  "register_interval_at T uuid name every now handler jobs =
     (if every = 0 then (Inl (InvalidIntervalDuration (of_nat (every div 1000000))), jobs)
      else
        (case schedule_from_pattern T (Interval every) of
           Inl e \<Rightarrow> (Inl e, jobs)
         | Inr schedule \<Rightarrow> register_job T uuid name schedule now handler jobs))"

definition register_timeout where
  "register_timeout T uuid name delay now handler jobs = register_pattern_at T uuid name (Timeout delay) now handler jobs"

definition register_timeout_at where
  "register_timeout_at T uuid name delay now handler jobs =
     (case schedule_from_pattern T (Timeout delay) of
        Inl e \<Rightarrow> (Inl e, jobs)
      | Inr schedule \<Rightarrow> register_job T uuid name schedule now handler jobs)"

definition remove_job :: "nat \<Rightarrow> ('c, 'h) Jobs \<Rightarrow> bool \<times> ('c, 'h) Jobs" where
  "remove_job i jobs = (jobs i \<noteq> None, jobs(i := None))"

definition scheduled_job :: "nat \<Rightarrow> ('c, 'h) Jobs \<Rightarrow> ScheduledJobInfo option" where
  "scheduled_job i jobs = map_option job_info (jobs i)"

definition scheduled_next_fire_at :: "nat \<Rightarrow> ('c, 'h) Jobs \<Rightarrow> int option" where
  "scheduled_next_fire_at i jobs = Option.bind (jobs i) sj_next_fire_at"

section \<open>Ticks\<close>

text \<open>What running a handler does, and the order in which the hash map of jobs is read.\<close>

record ('c, 'h, 'w) JobWorld =
  run_handler :: "'h \<Rightarrow> ('c, 'h) Jobs \<Rightarrow> 'w \<Rightarrow> (string + unit) \<times> ('c, 'h) Jobs \<times> 'w"
  iteration :: "('c, 'h) Jobs \<Rightarrow> nat list"

text \<open>The first of the smallest.\<close>

fun min_by_due :: "('c, 'h) ScheduledJobSnapshot list \<Rightarrow> ('c, 'h) ScheduledJobSnapshot option" where
  "min_by_due [] = None"
| "min_by_due (x # xs) =
     (case min_by_due xs of None \<Rightarrow> Some x | Some y \<Rightarrow> if sn_due_at x \<le> sn_due_at y then Some x else Some y)"

definition next_due :: "('c, 'h, 'w) JobWorld \<Rightarrow> int \<Rightarrow> ('c, 'h) Jobs \<Rightarrow> ('c, 'h) ScheduledJobSnapshot option" where
  "next_due E now jobs =
     min_by_due (List.map_filter (\<lambda>i. Option.bind (jobs i) (\<lambda>j. snapshot_if_due j now)) (iteration E jobs))"

text \<open>The write after a run: the job may be gone by then.\<close>

definition settle_job :: "nat \<Rightarrow> int option \<Rightarrow> ('c, 'h) Jobs \<Rightarrow> ('c, 'h) Jobs" where
  "settle_job i next_fire jobs =
     (let jobs1 = (case jobs i of None \<Rightarrow> jobs | Some j \<Rightarrow> jobs(i \<mapsto> j\<lparr>sj_next_fire_at := next_fire\<rparr>))
      in if next_fire = None then jobs1(i := None) else jobs1)"

text \<open>The loop of a tick, which may run for ever: then it is \<open>None\<close>.\<close>

partial_function (option) tick_loop ::
  "('c, 'h, 'w) JobWorld \<Rightarrow> 'c TimeOps \<Rightarrow> int \<Rightarrow> nat list \<Rightarrow> ('c, 'h) Jobs \<Rightarrow> 'w \<Rightarrow>
   ((ScheduleError + nat list) \<times> ('c, 'h) Jobs \<times> 'w) option" where
  "tick_loop E T now fired jobs w =
     (case next_due E now jobs of
        None \<Rightarrow> Some (Inr fired, jobs, w)
      | Some snap \<Rightarrow>
          (case run_handler E (sn_handler snap) jobs w of
             (result, jobs1, w1) \<Rightarrow>
               let next_fire = schedule_next_after T (sn_schedule snap) (sn_due_at snap);
                   jobs2 = settle_job (sn_id snap) next_fire jobs1
               in case result of
                    Inr _ \<Rightarrow> tick_loop E T now (fired @ [sn_id snap]) jobs2 w1
                  | Inl message \<Rightarrow> Some (Inl (JobFailed (sn_name snap) message), jobs2, w1)))"

definition tick_at where
  "tick_at E T now jobs w = tick_loop E T now [] jobs w"

section \<open>The instants a job is owed\<close>

text \<open>The instants up to \<open>now\<close> at which a job that is next due at \<open>d\<close> is to fire. A schedule that does not move forward
  ends the list.\<close>

function fire_times :: "'c TimeOps \<Rightarrow> 'c ScheduledJobSchedule \<Rightarrow> int \<Rightarrow> int \<Rightarrow> int list" where
  "fire_times T schedule now d =
     (if d \<le> now
      then d # (case schedule_next_after T schedule d of
                  None \<Rightarrow> [] | Some t \<Rightarrow> if d < t then fire_times T schedule now t else [])
      else [])"
  by auto
termination by (relation "measure (\<lambda>(T, schedule, now, d). nat (now + 1 - d))") auto

declare fire_times.simps [simp del]

definition owed :: "'c TimeOps \<Rightarrow> int \<Rightarrow> ('c, 'h) Jobs \<Rightarrow> nat \<Rightarrow> int list" where
  "owed T now jobs i =
     (case jobs i of
        None \<Rightarrow> []
      | Some j \<Rightarrow> (case sj_next_fire_at j of None \<Rightarrow> [] | Some d \<Rightarrow> fire_times T (sj_schedule j) now d))"

definition steady :: "'c TimeOps \<Rightarrow> 'c ScheduledJobSchedule \<Rightarrow> bool" where
  "steady T schedule \<longleftrightarrow> (\<forall>t t'. schedule_next_after T schedule t = Some t' \<longrightarrow> t < t')"

text \<open>The jobs a scheduler can hold.\<close>

definition jobs_ok :: "'c TimeOps \<Rightarrow> ('c, 'h) Jobs \<Rightarrow> bool" where
  "jobs_ok T jobs \<longleftrightarrow> finite (dom jobs) \<and>
     (\<forall>i j. jobs i = Some j \<longrightarrow> sj_id j = i \<and> sj_next_fire_at j \<noteq> None \<and> steady T (sj_schedule j))"

definition faithful_iteration :: "('c, 'h, 'w) JobWorld \<Rightarrow> bool" where
  "faithful_iteration E \<longleftrightarrow> (\<forall>jobs. finite (dom jobs) \<longrightarrow> set (iteration E jobs) = dom jobs)"

lemma jobs_ok_finite: "jobs_ok T jobs \<Longrightarrow> finite (dom jobs)"
  by (simp add: jobs_ok_def)

lemma jobs_okD:
  "jobs_ok T jobs \<Longrightarrow> jobs i = Some j \<Longrightarrow> sj_id j = i \<and> (\<exists>d. sj_next_fire_at j = Some d) \<and> steady T (sj_schedule j)"
  by (auto simp: jobs_ok_def)

lemma fire_times_late [simp]: "now < d \<Longrightarrow> fire_times T schedule now d = []"
  by (simp add: fire_times.simps)

lemma fire_times_from: "t \<in> set (fire_times T schedule now d) \<Longrightarrow> d \<le> t \<and> t \<le> now"
proof (induction T schedule now d rule: fire_times.induct)
  case (1 T schedule now d)
  show ?case
  proof (cases "d \<le> now")
    case True
    with "1.prems" have "t = d \<or> (\<exists>t'. schedule_next_after T schedule d = Some t' \<and> d < t' \<and> t \<in> set (fire_times T schedule now t'))"
      by (cases "schedule_next_after T schedule d") (simp_all add: fire_times.simps [of T schedule now d] split: if_splits)
    then show ?thesis using "1.IH" [OF True] True by fastforce
  qed (use "1.prems" in simp)
qed

lemma min_by_due_none: "min_by_due xs = None \<longleftrightarrow> xs = []"
  by (cases xs) (auto split: option.split)

lemma min_by_due_some: "min_by_due xs = Some x \<Longrightarrow> x \<in> set xs \<and> (\<forall>y \<in> set xs. sn_due_at x \<le> sn_due_at y)"
proof (induction xs arbitrary: x)
  case (Cons z zs)
  show ?case
  proof (cases "min_by_due zs")
    case None
    with Cons.prems show ?thesis by (simp add: min_by_due_none)
  next
    case (Some y)
    with Cons.prems Cons.IH [of y] show ?thesis by (auto split: if_splits)
  qed
qed simp

definition snapshot_of :: "('c, 'h) ScheduledJob \<Rightarrow> int \<Rightarrow> ('c, 'h) ScheduledJobSnapshot" where
  "snapshot_of j d =
     \<lparr>sn_id = sj_id j, sn_name = sj_name j, sn_schedule = sj_schedule j, sn_handler = sj_handler j, sn_due_at = d\<rparr>"

lemma snapshot_of_sel [simp]:
  "sn_id (snapshot_of j d) = sj_id j" "sn_name (snapshot_of j d) = sj_name j" "sn_schedule (snapshot_of j d) = sj_schedule j"
  "sn_handler (snapshot_of j d) = sj_handler j" "sn_due_at (snapshot_of j d) = d"
  by (simp_all add: snapshot_of_def)

lemma snapshot_if_due_some:
  "snapshot_if_due j now = Some x \<longleftrightarrow> (\<exists>d. sj_next_fire_at j = Some d \<and> d \<le> now \<and> x = snapshot_of j d)"
  by (cases "sj_next_fire_at j") (auto simp: snapshot_if_due_def snapshot_of_def)

lemma due_snapshots:
  assumes "faithful_iteration E" "finite (dom jobs)"
  shows "x \<in> set (List.map_filter (\<lambda>i. Option.bind (jobs i) (\<lambda>j. snapshot_if_due j now)) (iteration E jobs)) \<longleftrightarrow>
    (\<exists>i j d. jobs i = Some j \<and> sj_next_fire_at j = Some d \<and> d \<le> now \<and> x = snapshot_of j d)"
proof -
  have dom: "set (iteration E jobs) = dom jobs" using assms by (simp add: faithful_iteration_def)
  have "x \<in> set (List.map_filter f (iteration E jobs)) \<longleftrightarrow> (\<exists>i \<in> dom jobs. f i = Some x)" for f
    by (force simp: List.map_filter_def dom [symmetric])
  then show ?thesis by (auto simp: bind_eq_Some_conv snapshot_if_due_some)
qed

lemma next_due_none:
  assumes "faithful_iteration E" "jobs_ok T jobs" "next_due E now jobs = None"
  shows "owed T now jobs i = []"
proof (cases "jobs i")
  case (Some j)
  from jobs_okD [OF assms(2) Some] obtain d where d: "sj_next_fire_at j = Some d" by auto
  have "\<not> d \<le> now"
    using assms(3) due_snapshots [OF assms(1) jobs_ok_finite [OF assms(2)], of "snapshot_of j d" now] Some d
    by (auto simp: next_due_def min_by_due_none)
  with Some d show ?thesis by (simp add: owed_def)
qed (simp add: owed_def)

lemma next_due_some:
  assumes "faithful_iteration E" "jobs_ok T jobs" "next_due E now jobs = Some x"
  obtains j where "jobs (sn_id x) = Some j" "sj_next_fire_at j = Some (sn_due_at x)" "sn_due_at x \<le> now"
    "x = snapshot_of j (sn_due_at x)" "\<And>i t. t \<in> set (owed T now jobs i) \<Longrightarrow> sn_due_at x \<le> t"
proof -
  note x = min_by_due_some [OF assms(3) [unfolded next_due_def], unfolded due_snapshots [OF assms(1) jobs_ok_finite [OF assms(2)]]]
  from x obtain i j d where j: "jobs i = Some j" "sj_next_fire_at j = Some d" "d \<le> now" "x = snapshot_of j d" by auto
  have "d \<le> t" if t: "t \<in> set (owed T now jobs i')" for i' t
  proof -
    obtain j' where j': "jobs i' = Some j'" using t by (cases "jobs i'") (simp_all add: owed_def)
    then obtain d' where d': "sj_next_fire_at j' = Some d'" using jobs_okD [OF assms(2)] by blast
    from t have "d' \<le> t" "d' \<le> now" using fire_times_from j' d' by (force simp: owed_def)+
    moreover have "sn_due_at x \<le> d'"
      using x min_by_due_some [OF assms(3) [unfolded next_due_def]] due_snapshots [OF assms(1) jobs_ok_finite [OF assms(2)]] j' d' \<open>d' \<le> now\<close>
      by (metis snapshot_of_sel(5))
    ultimately show ?thesis using j by simp
  qed
  with j jobs_okD [OF assms(2) j(1)] show thesis by (intro that) auto
qed

section \<open>What a tick does\<close>

definition fires :: "(nat \<times> int) list \<Rightarrow> nat \<Rightarrow> int list" where
  "fires ps i = map snd (filter (\<lambda>p. fst p = i) ps)"

lemma fires_simps [simp]:
  "fires [] i = []" "fires ((k, d) # ps) i = (if k = i then d # fires ps i else fires ps i)"
  by (simp_all add: fires_def)

lemma fires_mem: "p \<in> set ps \<Longrightarrow> snd p \<in> set (fires ps (fst p))"
  by (force simp: fires_def)

lemma count_fires: "count_list (map fst ps) i = length (fires ps i)"
  by (induction ps) (auto simp: fires_def)

text \<open>The jobs after the firings \<open>ps\<close>: a job that has fired is next due after its last firing, or gone.\<close>

definition jobs_after :: "'c TimeOps \<Rightarrow> ('c, 'h) Jobs \<Rightarrow> (nat \<times> int) list \<Rightarrow> ('c, 'h) Jobs" where
  "jobs_after T jobs ps =
     (\<lambda>i. Option.bind (jobs i) (\<lambda>j.
        if fires ps i = [] then Some j
        else map_option (\<lambda>t. j\<lparr>sj_next_fire_at := Some t\<rparr>) (schedule_next_after T (sj_schedule j) (last (fires ps i)))))"

text \<open>Handlers that leave the scheduler alone, whatever they return.\<close>

definition quiet :: "('c, 'h, 'w) JobWorld \<Rightarrow> bool" where
  "quiet E \<longleftrightarrow> (\<forall>h jobs w. fst (snd (run_handler E h jobs w)) = jobs)"

lemma settle_steps:
  assumes ok: "jobs_ok T jobs" and j: "jobs i = Some j" "sj_next_fire_at j = Some d" "d \<le> now"
  defines "jobs1 \<equiv> settle_job i (schedule_next_after T (sj_schedule j) d) jobs"
  shows "jobs_ok T jobs1" "owed T now jobs i = d # owed T now jobs1 i"
    "k \<noteq> i \<Longrightarrow> owed T now jobs1 k = owed T now jobs k" "k \<noteq> i \<Longrightarrow> jobs1 k = jobs k"
    "jobs1 i = map_option (\<lambda>t. j\<lparr>sj_next_fire_at := Some t\<rparr>) (schedule_next_after T (sj_schedule j) d)"
proof -
  have steady: "schedule_next_after T (sj_schedule j) d = Some t \<Longrightarrow> d < t" for t
    using jobs_okD [OF ok j(1)] by (simp add: steady_def)
  show at: "jobs1 i = map_option (\<lambda>t. j\<lparr>sj_next_fire_at := Some t\<rparr>) (schedule_next_after T (sj_schedule j) d)"
    using j by (cases "schedule_next_after T (sj_schedule j) d") (simp_all add: jobs1_def settle_job_def Let_def)
  show other: "jobs1 k = jobs k" if "k \<noteq> i" for k
    using that j by (simp add: jobs1_def settle_job_def Let_def)
  then show "k \<noteq> i \<Longrightarrow> owed T now jobs1 k = owed T now jobs k"
    by (simp add: owed_def)
  have "dom jobs1 \<subseteq> dom jobs" using other j by (metis domI domIff subsetI)
  moreover have "sj_id j' = k \<and> sj_next_fire_at j' \<noteq> None \<and> steady T (sj_schedule j')" if "jobs1 k = Some j'" for k j'
    using that at other [of k] jobs_okD [OF ok j(1)] jobs_okD [OF ok, of k j'] by (cases "k = i") auto
  ultimately show "jobs_ok T jobs1" using ok finite_subset by (auto simp: jobs_ok_def)
  show "owed T now jobs i = d # owed T now jobs1 i"
    using j at steady fire_times.simps [of T "sj_schedule j" now d]
    by (cases "schedule_next_after T (sj_schedule j) d") (simp_all add: owed_def)
qed

definition backlog :: "'c TimeOps \<Rightarrow> int \<Rightarrow> ('c, 'h) Jobs \<Rightarrow> nat" where
  "backlog T now jobs = (\<Sum>i \<in> dom jobs. length (owed T now jobs i))"

lemma backlog_step:
  assumes ok: "jobs_ok T jobs" and j: "jobs i = Some j" "sj_next_fire_at j = Some d" "d \<le> now"
  shows "backlog T now (settle_job i (schedule_next_after T (sj_schedule j) d) jobs) < backlog T now jobs"
proof -
  let ?jobs1 = "settle_job i (schedule_next_after T (sj_schedule j) d) jobs"
  note step = settle_steps [OF ok j]
  have fin: "finite (dom jobs)" using ok by (simp add: jobs_ok_def)
  have "dom ?jobs1 \<subseteq> dom jobs" using step(4) j by (metis domI domIff subsetI)
  then have "backlog T now ?jobs1 = (\<Sum>k \<in> dom jobs. length (owed T now ?jobs1 k))"
    unfolding backlog_def by (rule sum.mono_neutral_left [OF fin]) (auto simp: owed_def domIff)
  also have "\<dots> < backlog T now jobs"
    unfolding backlog_def
  proof (rule sum_strict_mono_ex1 [OF fin])
    show "\<forall>k \<in> dom jobs. length (owed T now ?jobs1 k) \<le> length (owed T now jobs k)"
      using step(2,3) by (metis length_Cons le_SucI order_refl)
    show "\<exists>k \<in> dom jobs. length (owed T now ?jobs1 k) < length (owed T now jobs k)"
      using step(2) j(1) by (intro bexI [of _ i]) auto
  qed
  finally show ?thesis .
qed

definition tick_result ::
  "'c TimeOps \<Rightarrow> int \<Rightarrow> ('c, 'h) Jobs \<Rightarrow> nat list \<Rightarrow> ScheduleError + nat list \<Rightarrow> ('c, 'h) Jobs \<Rightarrow> (nat \<times> int) list \<Rightarrow> bool" where
  "tick_result T now jobs fired result jobs' ps \<longleftrightarrow>
     sorted (map snd ps) \<and>
     jobs' = jobs_after T jobs ps \<and>
     (\<forall>i. owed T now jobs i = fires ps i @ owed T now jobs' i) \<and>
     (case result of
        Inr fired' \<Rightarrow> fired' = fired @ map fst ps \<and> (\<forall>i. owed T now jobs' i = [])
      | Inl e \<Rightarrow> ps \<noteq> [] \<and> (\<exists>j message. jobs (fst (last ps)) = Some j \<and> e = JobFailed (sj_name j) message))"

lemma tick_result_step:
  assumes ok: "jobs_ok T jobs" and j: "jobs i = Some j" "sj_next_fire_at j = Some d" "d \<le> now"
    and first: "\<And>k t. t \<in> set (owed T now jobs k) \<Longrightarrow> d \<le> t"
    and rest: "tick_result T now (settle_job i (schedule_next_after T (sj_schedule j) d) jobs) (fired @ [i]) result jobs' ps"
  shows "tick_result T now jobs fired result jobs' ((i, d) # ps)"
proof -
  let ?jobs1 = "settle_job i (schedule_next_after T (sj_schedule j) d) jobs"
  note step = settle_steps [OF ok j]
  from rest have r: "sorted (map snd ps)" "jobs' = jobs_after T ?jobs1 ps"
    "\<And>k. owed T now ?jobs1 k = fires ps k @ owed T now jobs' k"
    by (auto simp: tick_result_def)
  have "d \<le> snd p" if "p \<in> set ps" for p
  proof -
    have "snd p \<in> set (owed T now ?jobs1 (fst p))" using fires_mem [OF that] r(3) by simp
    then have "snd p \<in> set (owed T now jobs (fst p))"
      using step(2,3) by (cases "fst p = i") auto
    then show ?thesis by (rule first)
  qed
  then have "sorted (map snd ((i, d) # ps))" using r(1) by simp
  moreover have "jobs_after T ?jobs1 ps k = jobs_after T jobs ((i, d) # ps) k" for k
  proof (cases "k = i")
    case True
    have "fires ps i = []" if "schedule_next_after T (sj_schedule j) d = None"
      using r(3) [of i] step(5) that by (simp add: owed_def)
    with True show ?thesis
      using step(5) j(1) by (cases "schedule_next_after T (sj_schedule j) d") (auto simp: jobs_after_def)
  next
    case False
    then have "fires ((i, d) # ps) k = fires ps k" by simp
    then show ?thesis by (simp only: jobs_after_def step(4) [OF False])
  qed
  moreover have "owed T now jobs k = fires ((i, d) # ps) k @ owed T now jobs' k" for k
    using step(2) step(3) [of k] r(3) [of k] by (cases "k = i") auto
  moreover have "jobs (fst (last ((i, d) # ps))) = Some j' \<and> sj_name j' = n"
    if "ps \<noteq> []" "?jobs1 (fst (last ps)) = Some j''" "sj_name j'' = n" "j' = the (jobs (fst (last ps)))" for j' j'' n
    using that step(4,5) j(1) by (cases "fst (last ps) = i") auto
  ultimately show ?thesis
    using rest r(2) unfolding tick_result_def
    by (cases result) (auto split: if_splits, metis)
qed

lemma tick_run:
  assumes "faithful_iteration E" "quiet E" "jobs_ok T jobs"
  shows "\<exists>result jobs' w' ps. tick_loop E T now fired jobs w = Some (result, jobs', w') \<and>
    tick_result T now jobs fired result jobs' ps \<and>
    (\<forall>e. result = Inl e \<longrightarrow> (\<exists>h jobs w message. fst (run_handler E h jobs w) = Inl message))"
  using assms(3)
proof (induction "backlog T now jobs" arbitrary: fired jobs w rule: less_induct)
  case less
  show ?case
  proof (cases "next_due E now jobs")
    case None
    then show ?thesis
      using next_due_none [OF assms(1) less.prems None]
      by (auto simp: tick_loop.simps [of E T now fired jobs w] tick_result_def jobs_after_def intro!: exI [of _ "[]"])
  next
    case (Some x)
    obtain j where j: "jobs (sn_id x) = Some j" "sj_next_fire_at j = Some (sn_due_at x)" "sn_due_at x \<le> now"
      "x = snapshot_of j (sn_due_at x)" "\<And>i t. t \<in> set (owed T now jobs i) \<Longrightarrow> sn_due_at x \<le> t"
      using next_due_some [OF assms(1) less.prems Some] by blast
    have sched: "sn_schedule x = sj_schedule j" "sn_name x = sj_name j" using j(4) by (metis snapshot_of_sel)+
    let ?jobs1 = "settle_job (sn_id x) (schedule_next_after T (sj_schedule j) (sn_due_at x)) jobs"
    note step = settle_steps [OF less.prems j(1-3)]
    obtain answer w1 where run: "run_handler E (sn_handler x) jobs w = (answer, jobs, w1)"
      using assms(2) unfolding quiet_def by (metis prod.collapse)
    show ?thesis
    proof (cases answer)
      case (Inr u)
      from less.hyps [OF backlog_step [OF less.prems j(1-3)] step(1), of "fired @ [sn_id x]" w1]
      obtain result jobs' w' ps where rest: "tick_loop E T now (fired @ [sn_id x]) ?jobs1 w1 = Some (result, jobs', w')"
        "tick_result T now ?jobs1 (fired @ [sn_id x]) result jobs' ps"
        "\<forall>e. result = Inl e \<longrightarrow> (\<exists>h jobs w message. fst (run_handler E h jobs w) = Inl message)"
        by blast
      have "tick_loop E T now fired jobs w = Some (result, jobs', w')"
        using Some run Inr rest(1) sched by (simp add: tick_loop.simps [of E T now fired jobs w])
      moreover have "tick_result T now jobs fired result jobs' ((sn_id x, sn_due_at x) # ps)"
        by (rule tick_result_step [OF less.prems j(1-3) _ rest(2)]) (rule j(5))
      ultimately show ?thesis using rest(3) by blast
    next
      case (Inl message)
      have "tick_loop E T now fired jobs w = Some (Inl (JobFailed (sj_name j) message), ?jobs1, w1)"
        using Some run Inl sched by (simp add: tick_loop.simps [of E T now fired jobs w])
      moreover have "?jobs1 = jobs_after T jobs [(sn_id x, sn_due_at x)]"
        using step(4,5) j(1) by (auto simp: jobs_after_def fun_eq_iff bind_eq_Some_conv)
      moreover have "owed T now jobs i = fires [(sn_id x, sn_due_at x)] i @ owed T now ?jobs1 i" for i
        using step(2,3) by (cases "i = sn_id x") auto
      ultimately have "tick_result T now jobs fired (Inl (JobFailed (sj_name j) message)) ?jobs1 [(sn_id x, sn_due_at x)]"
        using j(1) by (auto simp: tick_result_def)
      moreover have "fst (run_handler E (sn_handler x) jobs w) = Inl message" using run Inl by simp
      ultimately show ?thesis
        using \<open>tick_loop E T now fired jobs w = Some (Inl (JobFailed (sj_name j) message), ?jobs1, w1)\<close> by blast
    qed
  qed
qed

section \<open>The scheduler keeps its promises\<close>


text \<open>An interval job whose instants stay in the range of the clock.\<close>

lemma interval_fire_times:
  assumes "0 < every" "\<And>t. t \<le> now \<Longrightarrow> add_duration T t every = Some (t + int every)"
  shows "fire_times T (IntervalJob every) now d =
    (if d \<le> now then map (\<lambda>k. d + int k * int every) [0..<Suc (nat ((now - d) div int every))] else [])"
proof (induction "nat (now + 1 - d)" arbitrary: d rule: less_induct)
  case less
  show ?case
  proof (cases "d \<le> now")
    case True
    let ?e = "int every" and ?d = "d + int every"
    have step: "fire_times T (IntervalJob every) now d = d # fire_times T (IntervalJob every) now ?d"
      using assms True by (simp add: fire_times.simps [of T _ now d] schedule_next_after_def)
    have IH: "fire_times T (IntervalJob every) now ?d =
        (if ?d \<le> now then map (\<lambda>k. ?d + int k * ?e) [0..<Suc (nat ((now - ?d) div ?e))] else [])"
      using assms(1) True by (intro less.hyps) auto
    show ?thesis
    proof (cases "?d \<le> now")
      case next_in: True
      have "(now - d) div ?e = (now - ?d + ?e) div ?e" by simp
      also have "\<dots> = (now - ?d) div ?e + 1" using assms(1) by (subst div_add_self2) auto
      finally have "nat ((now - d) div ?e) = Suc (nat ((now - ?d) div ?e))"
        using next_in by (simp add: pos_imp_zdiv_nonneg_iff assms(1) nat_add_distrib)
      moreover have "map (\<lambda>k. d + int k * ?e) [0..<Suc (Suc n)] = d # map (\<lambda>k. ?d + int k * ?e) [0..<Suc n]" for n
        by (subst upt_conv_Cons) (simp_all add: map_Suc_upt [symmetric] algebra_simps del: upt_Suc)
      ultimately show ?thesis using step IH next_in True by (simp del: upt_Suc)
    next
      case False
      then have "(now - d) div ?e = 0" using True by (simp add: div_pos_pos_trivial)
      then show ?thesis using step IH False True by simp
    qed
  qed simp
qed

text \<open>A tick catches up. An interval job that is due at \<open>d\<close> fires once for every period that has begun by \<open>now\<close>, however
  late the tick is, and is next due at the first instant of its grid after \<open>now\<close>.\<close>

theorem interval_catches_up:
  assumes "faithful_iteration E" "quiet E" "jobs_ok T jobs"
    and success: "\<And>h jobs w. fst (run_handler E h jobs w) = Inr ()"
    and job: "jobs i = Some j" "sj_schedule j = IntervalJob every" "sj_next_fire_at j = Some d" "d \<le> now"
    and every: "0 < every" "\<And>t. t \<le> now \<Longrightarrow> add_duration T t every = Some (t + int every)"
  shows "\<exists>fired jobs' w'. tick_at E T now jobs w = Some (Inr fired, jobs', w') \<and>
    count_list fired i = Suc (nat ((now - d) div int every)) \<and>
    jobs' i = Some (j\<lparr>sj_next_fire_at := Some (d + int (Suc (nat ((now - d) div int every))) * int every)\<rparr>) \<and>
    now < d + int (Suc (nat ((now - d) div int every))) * int every"
proof -
  let ?n = "nat ((now - d) div int every)"
  let ?at = "\<lambda>k. d + int k * int every"
  obtain result jobs' w' ps where run: "tick_loop E T now [] jobs w = Some (result, jobs', w')"
    "tick_result T now jobs [] result jobs' ps"
    "\<forall>e. result = Inl e \<longrightarrow> (\<exists>h jobs w message. fst (run_handler E h jobs w) = Inl message)"
    using tick_run [OF assms(1-3)] by blast
  from run(3) success obtain fired where fired: "result = Inr fired" by (cases result) auto
  with run(2) have ps: "fired = map fst ps" "jobs' = jobs_after T jobs ps" "owed T now jobs i = fires ps i"
    by (auto simp: tick_result_def)
  have fires: "fires ps i = map ?at [0..<Suc ?n]"
    using ps(3) job interval_fire_times [OF every] by (simp add: owed_def del: upt_Suc)
  have div: "int ?n = (now - d) div int every" using job(4) every(1) by (simp add: pos_imp_zdiv_nonneg_iff)
  have grid: "int ?n * int every = now - d - (now - d) mod int every"
    unfolding div by (simp add: minus_mod_eq_div_mult)
  then have le: "?at ?n \<le> now"
    using pos_mod_sign [of "int every" "now - d"] every(1) by linarith
  have "?at (Suc ?n) = d + int ?n * int every + int every" by (simp add: algebra_simps)
  then have lt: "now < ?at (Suc ?n)"
    using grid pos_mod_bound [of "int every" "now - d"] every(1) by linarith
  have "last (fires ps i) = ?at ?n" unfolding fires by simp
  moreover have "fires ps i \<noteq> []" unfolding fires by simp
  ultimately have "jobs' i = Some (j\<lparr>sj_next_fire_at := Some (?at (Suc ?n))\<rparr>)"
    using ps(2) job every(2) [OF le] by (simp add: jobs_after_def schedule_next_after_def algebra_simps)
  moreover have "count_list fired i = Suc ?n"
    using fires unfolding ps(1) count_fires by simp
  ultimately show ?thesis using run(1) fired lt unfolding tick_at_def by blast
qed

text \<open>A job whose interval is zero and that is due stays due.\<close>

definition stuck :: "int \<Rightarrow> nat \<Rightarrow> ('c, 'h) ScheduledJob \<Rightarrow> ('c, 'h) Jobs \<Rightarrow> bool" where
  "stuck now uuid z jobs \<longleftrightarrow>
     jobs uuid = Some z \<and> sj_schedule z = IntervalJob 0 \<and> (\<exists>d \<le> now. sj_next_fire_at z = Some d) \<and>
     finite (dom jobs) \<and> (\<forall>i j. jobs i = Some j \<longrightarrow> sj_id j = i)"

lemma stuck_step:
  assumes "faithful_iteration E" "stuck now uuid z jobs" "\<And>t. add_duration T t 0 = Some t"
  obtains x where "next_due E now jobs = Some x"
    "stuck now uuid z (settle_job (sn_id x) (schedule_next_after T (sn_schedule x) (sn_due_at x)) jobs)"
proof -
  from assms(2) have fin: "finite (dom jobs)" and at: "jobs uuid = Some z" "sj_schedule z = IntervalJob 0"
    and key: "\<And>i j. jobs i = Some j \<Longrightarrow> sj_id j = i" by (auto simp: stuck_def)
  obtain t where t: "sj_next_fire_at z = Some t" "t \<le> now" using assms(2) by (auto simp: stuck_def)
  note due = due_snapshots [OF assms(1) fin, where now = now]
  have "snapshot_of z t \<in> set (List.map_filter (\<lambda>i. Option.bind (jobs i) (\<lambda>j. snapshot_if_due j now)) (iteration E jobs))"
    unfolding due using at t by blast
  then obtain x where x: "next_due E now jobs = Some x"
    unfolding next_due_def by (metis min_by_due_none empty_iff empty_set not_Some_eq)
  from min_by_due_some [OF x [unfolded next_due_def]] obtain i j d where j: "jobs i = Some j" "sj_next_fire_at j = Some d"
    "x = snapshot_of j d"
    unfolding due by blast
  let ?jobs1 = "settle_job (sn_id x) (schedule_next_after T (sn_schedule x) (sn_due_at x)) jobs"
  have "?jobs1 uuid = Some z"
  proof (cases "i = uuid")
    case True
    then have "j = z" "d = t" "sj_id z = uuid" using at j t key by auto
    then show ?thesis
      using at t j(3) assms(3) by (simp add: settle_job_def schedule_next_after_def Let_def)
  next
    case False
    then show ?thesis using at j key [OF j(1)] by (auto simp: settle_job_def Let_def split: option.split)
  qed
  moreover have "finite (dom ?jobs1)"
    using fin by (rule rev_finite_subset) (auto simp: settle_job_def Let_def split: option.splits if_splits)
  moreover have "sj_id j' = k" if "?jobs1 k = Some j'" for k j'
    using that key by (force simp: settle_job_def Let_def split: option.splits if_splits)
  ultimately have "stuck now uuid z ?jobs1" using assms(2) by (simp add: stuck_def)
  with x show thesis by (rule that)
qed

lemma stuck_never_returns:
  assumes "faithful_iteration E" "quiet E" "\<And>t. add_duration T t 0 = Some t"
    and success: "\<And>h jobs w. fst (run_handler E h jobs w) = Inr ()"
    and "tick_loop E T now fired jobs w = Some y"
  shows "\<not> stuck now uuid z jobs"
proof -
  have "E' = E \<and> T' = T \<and> now' = now \<longrightarrow> \<not> stuck now' uuid z jobs'"
    if "tick_loop E' T' now' fired jobs' w = Some y" for E' T' now' fired jobs' w y
  proof (rule tick_loop.raw_induct [where P = "\<lambda>E' T' now' fired jobs' w y. E' = E \<and> T' = T \<and> now' = now \<longrightarrow> \<not> stuck now' uuid z jobs'",
        OF _ that])
    fix loop E' T' now' fired jobs' w y
    assume IH: "\<And>E' T' now' fired jobs' w y. loop E' T' now' fired jobs' w = Some y \<Longrightarrow>
        E' = E \<and> T' = T \<and> now' = now \<longrightarrow> \<not> stuck now' uuid z jobs'"
      and eq: "(case next_due E' now' jobs' of
         None \<Rightarrow> Some (Inr fired, jobs', w)
       | Some snap \<Rightarrow>
           case run_handler E' (sn_handler snap) jobs' w of
             (result, jobs1, w1) \<Rightarrow>
               let next_fire = schedule_next_after T' (sn_schedule snap) (sn_due_at snap);
                   jobs2 = settle_job (sn_id snap) next_fire jobs1
               in case result of
                    Inl message \<Rightarrow> Some (Inl (JobFailed (sn_name snap) message), jobs2, w1)
                  | Inr _ \<Rightarrow> loop E' T' now' (fired @ [sn_id snap]) jobs2 w1) = Some y"
    show "E' = E \<and> T' = T \<and> now' = now \<longrightarrow> \<not> stuck now' uuid z jobs'"
    proof (intro impI notI)
      assume same: "E' = E \<and> T' = T \<and> now' = now" and "stuck now' uuid z jobs'"
      then obtain x where x: "next_due E now jobs' = Some x"
        "stuck now uuid z (settle_job (sn_id x) (schedule_next_after T (sn_schedule x) (sn_due_at x)) jobs')"
        using stuck_step [OF assms(1) _ assms(3)] by blast
      obtain w1 where "run_handler E (sn_handler x) jobs' w = (Inr (), jobs', w1)"
        using assms(2) success unfolding quiet_def by (metis prod.collapse)
      with eq same x(1) have "loop E T now (fired @ [sn_id x])
          (settle_job (sn_id x) (schedule_next_after T (sn_schedule x) (sn_due_at x)) jobs') w1 = Some y"
        by (simp add: Let_def)
      from IH [OF this] x(2) show False by blast
    qed
  qed
  with assms(5) show ?thesis by blast
qed

text \<open>The check that an interval is not zero is in only one of the three ways to register an interval job. A job
  registered through the others with a zero interval makes every later tick run for ever.\<close>

theorem zero_interval_hangs:
  assumes "faithful_iteration E" "quiet E" "finite (dom jobs)" "\<And>i j. jobs i = Some j \<Longrightarrow> sj_id j = i"
    and success: "\<And>h jobs w. fst (run_handler E h jobs w) = Inr ()"
    and zero: "duration_to_chrono T 0 = Some 0" "\<And>t. checked_add_signed T t 0 = Some t"
    and "start \<le> now"
  shows "fst (register_interval_at T uuid name 0 start handler jobs) = Inl (InvalidIntervalDuration 0) \<and>
    fst (register_interval T uuid name 0 start handler jobs) = Inr uuid \<and>
    tick_at E T now (snd (register_interval T uuid name 0 start handler jobs)) w = None"
proof -
  let ?zero = "\<lparr>sj_id = uuid, sj_name = name, sj_schedule = IntervalJob 0, sj_handler = handler, sj_next_fire_at = Some start\<rparr>"
  have add: "add_duration T t 0 = Some t" for t using zero by (simp add: add_duration_def)
  have "register_interval T uuid name 0 start handler jobs = (Inr uuid, jobs(uuid \<mapsto> ?zero))"
    by (simp add: register_interval_def register_pattern_at_def schedule_from_pattern_def register_job_def
        scheduled_job_new_def initial_fire_at_def add)
  moreover have "stuck now uuid ?zero (jobs(uuid \<mapsto> ?zero))"
    using assms(3,4,8) by (auto simp: stuck_def split: if_splits)
  then have "tick_at E T now (jobs(uuid \<mapsto> ?zero)) w = None"
    unfolding tick_at_def using stuck_never_returns [OF assms(1,2) add success] by (metis not_Some_eq)
  ultimately show ?thesis by (simp add: register_interval_at_def)
qed

section \<open>A scheduler to try\<close>

definition demo_time :: "unit TimeOps" where
  "demo_time =
     \<lparr>schedule_from_str = (\<lambda>e. Inl ''no cron''), cron_after = (\<lambda>c t. None), duration_to_chrono = (\<lambda>n. Some (int n)),
      checked_add_signed = (\<lambda>t d. Some (t + d)), show_duration = show_nat\<rparr>"

text \<open>Handlers are numbers that a log collects; 9 fails.\<close>

definition demo_handlers :: "(unit, nat, nat list) JobWorld" where
  "demo_handlers =
     \<lparr>run_handler = (\<lambda>h jobs log. (if h = 9 then Inl ''down'' else Inr (), jobs, log @ [h])),
      iteration = (\<lambda>jobs. sorted_list_of_set (dom jobs))\<rparr>"

definition demo_calm :: "(unit, nat, nat list) JobWorld" where
  "demo_calm =
     \<lparr>run_handler = (\<lambda>h jobs log. (Inr (), jobs, log @ [h])), iteration = (\<lambda>jobs. sorted_list_of_set (dom jobs))\<rparr>"

definition demo_jobs :: "(unit, nat) Jobs" where
  "demo_jobs =
     snd (register_timeout demo_time 2 ''once'' 12 0 9
       (snd (register_interval_at demo_time 1 ''tick'' 10 0 7 Map.empty)))"

lemma demo_worlds: "faithful_iteration demo_handlers" "quiet demo_handlers" "faithful_iteration demo_calm" "quiet demo_calm"
  by (simp_all add: faithful_iteration_def quiet_def demo_handlers_def demo_calm_def)

lemma demo_jobs_eq:
  "demo_jobs = [1 \<mapsto> \<lparr>sj_id = 1, sj_name = ''tick'', sj_schedule = IntervalJob 10, sj_handler = 7, sj_next_fire_at = Some 10\<rparr>,
     2 \<mapsto> \<lparr>sj_id = 2, sj_name = ''once'', sj_schedule = TimeoutJob 12, sj_handler = 9, sj_next_fire_at = Some 12\<rparr>]"
  by (simp add: demo_jobs_def demo_time_def register_timeout_def register_pattern_at_def register_interval_at_def
      schedule_from_pattern_def register_job_def scheduled_job_new_def initial_fire_at_def add_duration_def)

lemma demo_jobs_ok: "jobs_ok demo_time demo_jobs"
  by (auto simp: jobs_ok_def demo_jobs_eq steady_def schedule_next_after_def add_duration_def demo_time_def split: if_splits)

lemma demo_owed: "owed demo_time 25 demo_jobs 1 = [10, 20]"
  by (simp add: owed_def demo_jobs_eq fire_times.simps schedule_next_after_def add_duration_def demo_time_def)


theorem interval_catches_up_witness:
  "\<exists>fired jobs' w'. tick_at demo_calm demo_time 35 demo_jobs [] = Some (Inr fired, jobs', w') \<and> count_list fired 1 = 3"
  using interval_catches_up [OF demo_worlds(3,4) demo_jobs_ok _, of 1 _ 10 10 35 "[]"]
  by (auto simp: demo_calm_def demo_jobs_eq demo_time_def add_duration_def)

theorem zero_interval_hangs_witness:
  "fst (register_interval demo_time 3 ''busy'' 0 0 7 demo_jobs) = Inr 3 \<and>
   tick_at demo_calm demo_time 5 (snd (register_interval demo_time 3 ''busy'' 0 0 7 demo_jobs)) [] = None"
proof -
  have keyed: "finite (dom demo_jobs)" "\<And>i j. demo_jobs i = Some j \<Longrightarrow> sj_id j = i"
    using demo_jobs_ok by (auto simp: jobs_ok_def)
  have calm: "\<And>h jobs w. fst (run_handler demo_calm h jobs w) = Inr ()" by (simp add: demo_calm_def)
  have time: "duration_to_chrono demo_time 0 = Some 0" "\<And>t. checked_add_signed demo_time t 0 = Some t"
    by (simp_all add: demo_time_def)
  show ?thesis
    using zero_interval_hangs [OF demo_worlds(3,4) keyed calm time, of 0 5 3 "''busy''" 7 "[]"] by simp
qed

end
