(* ===== verification/Config.thy ===== *)
theory Config
  imports Module_Registry Route_Registry
begin

text \<open>
  Configuration (\<open>nivasa-config/src/lib.rs\<close>): reading \<open>.env\<close> files, expanding variables, merging with the environment
  of the process, validating against a schema, and the dynamic module that carries it. The file system and the
  environment of the process are parameters: a file is its contents or the text of an I/O error.
\<close>

record ConfigOptions =
  co_is_global :: bool
  co_env_file_paths :: "string list"
  co_ignore_env_file :: bool
  co_expand_variables :: bool

definition config_options_new :: ConfigOptions where
  "config_options_new =
     \<lparr>co_is_global = False, co_env_file_paths = [], co_ignore_env_file = False, co_expand_variables = False\<rparr>"

definition config_with_global :: "ConfigOptions \<Rightarrow> bool \<Rightarrow> ConfigOptions" where
  "config_with_global o1 is_global = o1\<lparr>co_is_global := is_global\<rparr>"

definition normalize_env_file_path :: "string \<Rightarrow> string" where
  "normalize_env_file_path p = trim p"

definition with_env_file_path :: "ConfigOptions \<Rightarrow> string \<Rightarrow> ConfigOptions" where
  "with_env_file_path o1 p0 =
     (let p = normalize_env_file_path p0
      in if p \<noteq> [] then o1\<lparr>co_env_file_paths := co_env_file_paths o1 @ [p]\<rparr> else o1)"

definition with_env_file_paths :: "ConfigOptions \<Rightarrow> string list \<Rightarrow> ConfigOptions" where
  "with_env_file_paths o1 paths =
     o1\<lparr>co_env_file_paths := filter (\<lambda>p. p \<noteq> []) (map normalize_env_file_path paths)\<rparr>"

definition with_ignore_env_file :: "ConfigOptions \<Rightarrow> bool \<Rightarrow> ConfigOptions" where
  "with_ignore_env_file o1 b = o1\<lparr>co_ignore_env_file := b\<rparr>"

definition with_expand_variables :: "ConfigOptions \<Rightarrow> bool \<Rightarrow> ConfigOptions" where
  "with_expand_variables o1 b = o1\<lparr>co_expand_variables := b\<rparr>"

datatype ConfigException = MissingKey string

definition config_exception_text :: "ConfigException \<Rightarrow> string" where
  "config_exception_text e = (case e of MissingKey key \<Rightarrow> ''missing config key: '' @ key)"

datatype ConfigValidationIssue = MissingRequiredKey string | InvalidValue string string string

definition issue_text :: "ConfigValidationIssue \<Rightarrow> string" where
  "issue_text issue =
     (case issue of
        MissingRequiredKey key \<Rightarrow> ''missing required config key: '' @ key
      | InvalidValue key value expected \<Rightarrow>
          ''invalid config value for '' @ key @ '': '' @ value @ '' ('' @ expected @ '')'')"

definition validation_error_text :: "ConfigValidationIssue list \<Rightarrow> string" where
  "validation_error_text issues =
     (if issues = [] then ''config validation failed'' else join ''; '' (map issue_text issues))"

type_synonym Settings = "string \<rightharpoonup> string"

text \<open>The service is the map itself; a type that a value is parsed into comes with its \<open>from_str\<close>.\<close>

definition get_raw :: "Settings \<Rightarrow> string \<Rightarrow> string option" where
  "get_raw settings key = settings key"

definition config_get :: "(string \<Rightarrow> 'e + 't) \<Rightarrow> Settings \<Rightarrow> string \<Rightarrow> 't option" where
  "config_get from_str settings key =
     (case get_raw settings key of
        None \<Rightarrow> None
      | Some raw \<Rightarrow> (case from_str raw of Inr v \<Rightarrow> Some v | Inl _ \<Rightarrow> None))"

definition get_or_default :: "(string \<Rightarrow> 'e + 't) \<Rightarrow> Settings \<Rightarrow> string \<Rightarrow> 't \<Rightarrow> 't" where
  "get_or_default from_str settings key d = (case config_get from_str settings key of Some v \<Rightarrow> v | None \<Rightarrow> d)"

definition get_or_throw :: "Settings \<Rightarrow> string \<Rightarrow> ConfigException + string" where
  "get_or_throw settings key = (case get_raw settings key of Some raw \<Rightarrow> Inr raw | None \<Rightarrow> Inl (MissingKey key))"

section \<open>Reading a file\<close>

text \<open>\<open>str::lines\<close>: no line after a final newline, a carriage return before a newline is dropped.\<close>

definition strip_line_cr :: "string \<Rightarrow> string" where
  "strip_line_cr l = (if ends_with l [CHR 0x0D] then butlast l else l)"

definition str_lines :: "string \<Rightarrow> string list" where
  "str_lines s =
     (let parts = split_on (CHR 0x0A) s
      in map strip_line_cr (butlast parts) @ (if last parts = [] then [] else [last parts]))"

abbreviation quote_char :: char where "quote_char \<equiv> CHR 0x22"
abbreviation apostrophe :: char where "apostrophe \<equiv> CHR 0x27"

definition strip_quotes :: "string \<Rightarrow> string" where
  "strip_quotes value =
     (if 2 \<le> length value \<and>
         (hd value = quote_char \<and> last value = quote_char \<or> hd value = apostrophe \<and> last value = apostrophe)
      then butlast (tl value) else value)"

definition parse_env_line :: "string \<Rightarrow> (string \<times> string) option" where
  "parse_env_line line0 =
     (let line1 = trim line0
      in if line1 = [] \<or> starts_with line1 ''#'' then None
         else
           let line = (case strip_prefix line1 ''export '' of Some rest \<Rightarrow> rest | None \<Rightarrow> line1)
           in case split_once (CHR ''='') line of
                None \<Rightarrow> None
              | Some (key0, value) \<Rightarrow>
                  let key = trim key0
                  in if key = [] then None else Some (key, strip_quotes (trim value)))"

definition load_lines :: "string list \<Rightarrow> Settings" where
  "load_lines ls =
     fold (\<lambda>line loaded. case parse_env_line line of Some (key, value) \<Rightarrow> loaded(key \<mapsto> value) | None \<Rightarrow> loaded) ls Map.empty"

type_synonym Files = "string \<Rightarrow> string + string"

definition load_env_file :: "Files \<Rightarrow> string \<Rightarrow> string + Settings" where
  "load_env_file fs p = (case fs p of Inl e \<Rightarrow> Inl e | Inr contents \<Rightarrow> Inr (load_lines (str_lines contents)))"

section \<open>Variables\<close>

text \<open>Bytes are read as characters here: \<open>utf8\<close> is the encoding of the characters of the model (up to \<open>U+00FF\<close>), and
  \<open>from_utf8\<close> takes a slice of it back.\<close>

fun utf8 :: "string \<Rightarrow> string" where
  "utf8 [] = []"
| "utf8 (c # s) =
     (let n = of_char c :: nat
      in if n < 0x80 then c # utf8 s else char_of (0xC0 + n div 0x40) # char_of (0x80 + n mod 0x40) # utf8 s)"

fun from_utf8 :: "string \<Rightarrow> string" where
  "from_utf8 (a # b # s) =
     (let n = of_char a :: nat
      in if n < 0x80 then a # from_utf8 (b # s)
         else char_of ((n mod 0x20) * 0x40 + (of_char b mod 0x40)) # from_utf8 s)"
| "from_utf8 s = s"

definition char_between :: "char \<Rightarrow> char \<Rightarrow> char \<Rightarrow> bool" where
  "char_between lo hi c \<longleftrightarrow> lo \<le> c \<and> c \<le> hi"

definition is_alphabetic :: "char \<Rightarrow> bool" where
  "is_alphabetic c \<longleftrightarrow> char_between (CHR ''a'') (CHR ''z'') c \<or> char_between (CHR ''A'') (CHR ''Z'') c"

definition is_env_name_start :: "char \<Rightarrow> bool" where
  "is_env_name_start c \<longleftrightarrow> c = CHR ''_'' \<or> is_alphabetic c"

definition is_env_name_continue :: "char \<Rightarrow> bool" where
  "is_env_name_continue c \<longleftrightarrow> c = CHR ''_'' \<or> is_alphabetic c \<or> char_between (CHR ''0'') (CHR ''9'') c"

definition lookup_env_value :: "Settings \<Rightarrow> Settings \<Rightarrow> string \<Rightarrow> string option" where
  "lookup_env_value process_env settings key = (case process_env key of Some v \<Rightarrow> Some v | None \<Rightarrow> settings key)"

text \<open>The scan of one value, with what a name expands to as an argument.\<close>

function expand_scan :: "(string \<Rightarrow> string) \<Rightarrow> string \<Rightarrow> string" where
  "expand_scan f [] = []"
| "expand_scan f (b # bs) =
     (if b \<noteq> CHR ''$'' then b # expand_scan f bs
      else
        case bs of
          [] \<Rightarrow> ''$''
        | b1 # bs1 \<Rightarrow>
            if b1 = CHR ''{'' then
              (if CHR ''}'' \<in> set bs1
               then f (from_utf8 (takeWhile (\<lambda>x. x \<noteq> CHR ''}'') bs1)) @ expand_scan f (tl (dropWhile (\<lambda>x. x \<noteq> CHR ''}'') bs1))
               else CHR ''$'' # expand_scan f bs)
            else if \<not> is_env_name_start b1 then CHR ''$'' # expand_scan f bs
            else f (from_utf8 (b1 # takeWhile is_env_name_continue bs1)) @ expand_scan f (dropWhile is_env_name_continue bs1))"
  by pat_completeness auto
termination
  by (relation "measure (\<lambda>(f, bs). length bs)")
    (auto simp: less_Suc_eq_le intro: le_trans [OF diff_le_self] le_SucI length_dropWhile_le
       le_trans [OF length_dropWhile_le])

declare expand_scan.simps(2) [simp del]

function expand_env_value :: "Settings \<Rightarrow> Settings \<Rightarrow> nat \<Rightarrow> string \<Rightarrow> string" where
  "expand_env_value process_env settings depth value =
     (if depth > 8 then value
      else expand_scan
        (\<lambda>name. case lookup_env_value process_env settings name of
                   Some v \<Rightarrow> expand_env_value process_env settings (depth + 1) v | None \<Rightarrow> [])
        (utf8 value))"
  by pat_completeness auto
termination by (relation "measure (\<lambda>(process_env, settings, depth, value). 9 - depth)") auto

declare expand_env_value.simps [simp del]

definition expand_env_values :: "Settings \<Rightarrow> Settings \<Rightarrow> Settings" where
  "expand_env_values process_env settings = map_option (expand_env_value process_env settings 0) \<circ> settings"

fun load_files :: "Files \<Rightarrow> string list \<Rightarrow> Settings \<Rightarrow> string + Settings" where
  "load_files fs [] loaded = Inr loaded"
| "load_files fs (p # ps) loaded =
     (case load_env_file fs p of Inl e \<Rightarrow> Inl e | Inr file \<Rightarrow> load_files fs ps (loaded ++ file))"

definition load_env :: "Files \<Rightarrow> Settings \<Rightarrow> ConfigOptions \<Rightarrow> string + Settings" where
  "load_env fs process_env options =
     (if co_ignore_env_file options then Inr Map.empty
      else if co_env_file_paths options = [] then Inr Map.empty
      else
        case load_files fs (co_env_file_paths options) Map.empty of
          Inl e \<Rightarrow> Inl e
        | Inr loaded \<Rightarrow>
            Inr ((if co_expand_variables options then expand_env_values process_env loaded else loaded) ++ process_env))"

section \<open>Validation\<close>

fun collect_missing :: "Settings \<Rightarrow> string list \<Rightarrow> string list \<Rightarrow> string list" where
  "collect_missing loaded [] missing = missing"
| "collect_missing loaded (k # ks) missing =
     (let key = trim k
      in collect_missing loaded ks
           (if key = [] \<or> loaded key \<noteq> None \<or> key \<in> set missing then missing else missing @ [key]))"

definition collect_missing_required_key_issues :: "Settings \<Rightarrow> string list \<Rightarrow> ConfigValidationIssue list" where
  "collect_missing_required_key_issues loaded keys = map MissingRequiredKey (collect_missing loaded keys [])"

definition validate_required_keys :: "Settings \<Rightarrow> string list \<Rightarrow> ConfigValidationIssue list + unit" where
  "validate_required_keys loaded keys =
     (let issues = collect_missing_required_key_issues loaded keys in if issues = [] then Inr () else Inl issues)"

record ConfigSchema =
  required_keys :: "string list"
  schema_defaults :: "(string \<times> string) list"
  schema_validate :: "Settings \<Rightarrow> ConfigValidationIssue list"

definition apply_defaults :: "(string \<times> string) list \<Rightarrow> Settings \<Rightarrow> Settings" where
  "apply_defaults defaults loaded =
     fold (\<lambda>(k, v) merged. case merged k of None \<Rightarrow> merged(k \<mapsto> v) | Some _ \<Rightarrow> merged) defaults loaded"

definition validate_schema :: "ConfigSchema \<Rightarrow> Settings \<Rightarrow> ConfigValidationIssue list + Settings" where
  "validate_schema S loaded =
     (let merged = apply_defaults (schema_defaults S) loaded;
          issues = collect_missing_required_key_issues merged (required_keys S) @ schema_validate S merged
      in if issues \<noteq> [] then Inl issues else Inr merged)"

section \<open>The module\<close>

datatype ConfigBootstrapError = LoadFailed string | ValidationFailed string

definition bootstrap_error_text :: "ConfigBootstrapError \<Rightarrow> string" where
  "bootstrap_error_text e =
     (case e of LoadFailed m \<Rightarrow> ''config load failed: '' @ m | ValidationFailed m \<Rightarrow> ''config validation failed: '' @ m)"

text \<open>The type ids of the two providers are parameters.\<close>

definition root_dynamic_module :: "TypeId \<Rightarrow> TypeId \<Rightarrow> ConfigOptions \<Rightarrow> DynamicModule" where
  "root_dynamic_module options_id service_id options =
     dynamic_with_global
       (dynamic_with_providers (dynamic_new (with_exports module_metadata_new [service_id])) [options_id, service_id])
       (co_is_global options)"

definition for_root_with_schema ::
  "TypeId \<Rightarrow> TypeId \<Rightarrow> Files \<Rightarrow> Settings \<Rightarrow> ConfigSchema \<Rightarrow> ConfigOptions \<Rightarrow> ConfigBootstrapError + DynamicModule" where
  "for_root_with_schema options_id service_id fs process_env S options =
     (case load_env fs process_env options of
        Inl e \<Rightarrow> Inl (LoadFailed e)
      | Inr loaded \<Rightarrow>
          let module = dynamic_with_pre_bootstrap (root_dynamic_module options_id service_id options)
                (case validate_schema S loaded of Inr _ \<Rightarrow> Inr () | Inl issues \<Rightarrow> Inl (validation_error_text issues))
          in case run_pre_bootstrap module of Inl message \<Rightarrow> Inl (ValidationFailed message) | Inr _ \<Rightarrow> Inr module)"

section \<open>Which value wins\<close>

text \<open>Every assignment of the files, in the order of the files and of their lines.\<close>

definition assignments :: "Files \<Rightarrow> string list \<Rightarrow> (string \<times> string) list" where
  "assignments fs paths =
     List.map_filter parse_env_line (concat (map (\<lambda>p. case fs p of Inr contents \<Rightarrow> str_lines contents | Inl _ \<Rightarrow> []) paths))"

lemma map_filter_append: "List.map_filter f (xs @ ys) = List.map_filter f xs @ List.map_filter f ys"
  by (simp add: List.map_filter_def)

lemma load_lines_map_of: "fold (\<lambda>line loaded. case parse_env_line line of Some (key, value) \<Rightarrow> loaded(key \<mapsto> value) | None \<Rightarrow> loaded) ls m =
    m ++ map_of (rev (List.map_filter parse_env_line ls))"
  by (induction ls arbitrary: m) (auto split: option.split)

lemma load_files_exact:
  "load_files fs paths loaded =
    (case find_map (\<lambda>p. case fs p of Inl e \<Rightarrow> Some e | Inr _ \<Rightarrow> None) paths of
       Some e \<Rightarrow> Inl e | None \<Rightarrow> Inr (loaded ++ map_of (rev (assignments fs paths))))"
  by (induction paths arbitrary: loaded)
    (auto simp: assignments_def load_env_file_def load_lines_def load_lines_map_of map_filter_append split: sum.split option.split)

text \<open>C22: what loading yields. The first unreadable file is the error. Otherwise a variable of the process wins over every
  file, and among the files the last assignment wins; expansion concerns the values of files only. When files are
  ignored, or none is named, the result is empty: the environment of the process is left out too.\<close>

theorem load_env_exact:
  "load_env fs process_env options =
    (if co_ignore_env_file options \<or> co_env_file_paths options = [] then Inr (\<lambda>k. None)
     else
       case find_map (\<lambda>p. case fs p of Inl e \<Rightarrow> Some e | Inr _ \<Rightarrow> None) (co_env_file_paths options) of
         Some e \<Rightarrow> Inl e
       | None \<Rightarrow>
           Inr (\<lambda>k. case process_env k of
                     Some v \<Rightarrow> Some v
                   | None \<Rightarrow>
                       let assigned = map_of (rev (assignments fs (co_env_file_paths options)))
                       in map_option (if co_expand_variables options then expand_env_value process_env assigned 0 else id) (assigned k)))"
  by (auto simp: load_env_def load_files_exact expand_env_values_def map_add_def Let_def option.map_id fun_eq_iff split: option.split)

section \<open>Expansion\<close>

text \<open>The reference: a value is a sequence of literal bytes and names.\<close>

function tokens :: "string \<Rightarrow> (string + string) list" where
  "tokens [] = []"
| "tokens (b # bs) =
     (if b \<noteq> CHR ''$'' then Inl [b] # tokens bs
      else
        case bs of
          [] \<Rightarrow> [Inl ''$'']
        | b1 # bs1 \<Rightarrow>
            if b1 = CHR ''{'' then
              (if CHR ''}'' \<in> set bs1
               then Inr (from_utf8 (takeWhile (\<lambda>x. x \<noteq> CHR ''}'') bs1)) # tokens (tl (dropWhile (\<lambda>x. x \<noteq> CHR ''}'') bs1))
               else Inl ''$'' # tokens bs)
            else if \<not> is_env_name_start b1 then Inl ''$'' # tokens bs
            else Inr (from_utf8 (b1 # takeWhile is_env_name_continue bs1)) # tokens (dropWhile is_env_name_continue bs1))"
  by pat_completeness auto
termination
  by (relation "measure length")
    (auto simp: less_Suc_eq_le intro: le_trans [OF diff_le_self] le_SucI length_dropWhile_le
       le_trans [OF length_dropWhile_le])

declare tokens.simps(2) [simp del]

lemma expand_scan_tokens: "expand_scan f bs = concat (map (case_sum id f) (tokens bs))"
  by (induction f bs rule: expand_scan.induct)
    (simp_all add: expand_scan.simps(2) tokens.simps(2) split: list.split)

definition named :: "Settings \<Rightarrow> Settings \<Rightarrow> string \<Rightarrow> string \<Rightarrow> bool" where
  "named process_env settings value name \<longleftrightarrow>
     Inr name \<in> set (tokens (utf8 value)) \<and> lookup_env_value process_env settings name \<noteq> None"

lemma expand_tokens:
  "depth \<le> 8 \<Longrightarrow> expand_env_value P S depth template =
    concat (map (\<lambda>token. case token of
        Inl literal \<Rightarrow> literal
      | Inr name \<Rightarrow> (case lookup_env_value P S name of Some v \<Rightarrow> expand_env_value P S (depth + 1) v | None \<Rightarrow> []))
      (tokens (utf8 template)))"
  unfolding expand_env_value.simps [of P S depth template] expand_scan_tokens
  by (auto intro!: arg_cong [where f = concat] map_cong split: sum.split)

lemma expand_cong:
  assumes "depth \<le> 8" "depth' \<le> 8"
    "\<And>name v. named P S template name \<Longrightarrow> lookup_env_value P S name = Some v \<Longrightarrow>
       expand_env_value P S (depth + 1) v = expand_env_value P S (depth' + 1) v"
  shows "expand_env_value P S depth template = expand_env_value P S depth' template"
  unfolding expand_tokens [OF assms(1)] expand_tokens [OF assms(2)]
  by (intro arg_cong [where f = concat] map_cong refl) (auto simp: named_def intro!: assms(3) [unfolded Suc_eq_plus1 [symmetric]] split: sum.split option.split)

lemma depth_irrelevant:
  assumes height: "\<And>name v n. lookup_env_value P S name = Some v \<Longrightarrow> named P S v n \<Longrightarrow> height n < (height name :: nat)"
    and "\<And>n. named P S template n \<Longrightarrow> height n < r" "depth + r \<le> 8" "depth' + r \<le> 8"
  shows "expand_env_value P S depth template = expand_env_value P S depth' template"
  using assms(2-)
proof (induction r arbitrary: template depth depth' rule: less_induct)
  case (less r)
  show ?case
  proof (rule expand_cong)
    fix name v assume n: "named P S template name" "lookup_env_value P S name = Some v"
    have "height name < r" by (rule less.prems(1) [OF n(1)])
    moreover from this have "depth + 1 + height name \<le> 8" "depth' + 1 + height name \<le> 8" using less.prems by auto
    ultimately show "expand_env_value P S (depth + 1) v = expand_env_value P S (depth' + 1) v"
      using less.IH [of "height name" v] height [OF n(2)] by blast
  qed (use less.prems in auto)
qed

lemma utf8_mem: "x \<in> set (utf8 s) \<Longrightarrow> x \<in> set s \<or> 0x80 \<le> (of_char x :: nat)"
proof (induction s)
  case (Cons c s)
  have c: "of_char c < (256 :: nat)" by (rule nat_of_char_less_256)
  show ?case
  proof (cases "of_char c < (0x80 :: nat)")
    case False
    then have "x = char_of (0xC0 + of_char c div 0x40 :: nat) \<or> x = char_of (0x80 + of_char c mod 0x40 :: nat) \<or> x \<in> set (utf8 s)"
      using Cons.prems by (simp add: Let_def)
    moreover have "of_char c div 0x40 < (4 :: nat)" using c by (intro less_mult_imp_div_less) simp
    moreover have "of_char c mod 0x40 < (0x40 :: nat)" by simp
    ultimately show ?thesis using Cons.IH by (auto simp: of_char_of)
  qed (use Cons in \<open>auto simp: Let_def\<close>)
qed simp

lemma utf8_length: "length s \<le> length (utf8 s)"
  by (induction s) (auto simp: Let_def)

lemma utf8_id: "utf8 s = s \<longleftrightarrow> (\<forall>c \<in> set s. of_char c < (0x80 :: nat))"
proof (induction s)
  case (Cons c s)
  have "char_of (0xC0 + n div 0x40) # char_of (0x80 + n mod 0x40) # utf8 s \<noteq> c # s" for n :: nat
    using utf8_length [of s] by (metis length_Cons not_less_eq_eq Suc_n_not_le_n le_SucI)
  with Cons show ?case by (auto simp: Let_def)
qed simp

lemma tokens_plain: "CHR ''$'' \<notin> set bs \<Longrightarrow> tokens bs = map (\<lambda>b. Inl [b]) bs"
  by (induction bs) (auto simp: tokens.simps(2))

lemma expand_plain:
  assumes "CHR ''$'' \<notin> set template" "depth \<le> 8"
  shows "expand_env_value P S depth template = utf8 template"
proof -
  have "CHR ''$'' \<notin> set (utf8 template)" using assms(1) utf8_mem [of "CHR ''$''" template] by auto
  then show ?thesis by (simp add: expand_tokens [OF assms(2)] tokens_plain comp_def)
qed

text \<open>C23: where variables do not refer to themselves and no chain of them is longer than eight, the depth limit is
  invisible: expansion replaces every name by the full expansion of its value, the process environment first, and
  every unknown name by nothing. A value without a dollar sign becomes its UTF-8 bytes read as characters, so it
  is unchanged exactly when it is ASCII.\<close>

theorem expansion_exact:
  assumes height: "\<And>name v n. lookup_env_value P S name = Some v \<Longrightarrow> named P S v n \<Longrightarrow> height n < (height name :: nat)"
    and "\<And>n. named P S template n \<Longrightarrow> height n < 8"
  shows "expand_env_value P S 0 template =
      concat (map (\<lambda>token. case token of
          Inl literal \<Rightarrow> literal
        | Inr name \<Rightarrow> (case lookup_env_value P S name of Some v \<Rightarrow> expand_env_value P S 0 v | None \<Rightarrow> []))
        (tokens (utf8 template))) \<and>
    (CHR ''$'' \<notin> set template \<longrightarrow>
       (expand_env_value P S 0 template = template \<longleftrightarrow> (\<forall>c \<in> set template. of_char c < (0x80 :: nat))))"
proof -
  have "expand_env_value P S 1 v = expand_env_value P S 0 v"
    if "named P S template name" "lookup_env_value P S name = Some v" for name v
    using assms(2) [OF that(1)] height [OF that(2)]
    by (intro depth_irrelevant [where height = height and r = "height name"]) (auto intro: height)
  then have "expand_env_value P S 0 template =
      concat (map (\<lambda>token. case token of
          Inl literal \<Rightarrow> literal
        | Inr name \<Rightarrow> (case lookup_env_value P S name of Some v \<Rightarrow> expand_env_value P S 0 v | None \<Rightarrow> []))
        (tokens (utf8 template)))"
    unfolding expand_tokens [of 0 P S template, simplified]
    by (intro arg_cong [where f = concat] map_cong refl) (auto simp: named_def split: sum.split option.split)
  moreover have "CHR ''$'' \<notin> set template \<longrightarrow>
      (expand_env_value P S 0 template = template \<longleftrightarrow> (\<forall>c \<in> set template. of_char c < (0x80 :: nat)))"
    by (simp add: expand_plain utf8_id)
  ultimately show ?thesis ..
qed

text \<open>The process overrides a variable that another one is built from.\<close>

definition demo_settings :: Settings where
  "demo_settings = [''A'' \<mapsto> ''${B}x'', ''B'' \<mapsto> ''d'']"

theorem expansion_exact_witness:
  "expand_env_value [''B'' \<mapsto> ''p''] demo_settings 0 ''/$A/${C}'' = ''/px/'' \<and>
   expand_env_value [''B'' \<mapsto> ''p''] demo_settings 0 [CHR 0xE9] \<noteq> [CHR 0xE9]"
proof -
  let ?P = "[''B'' \<mapsto> ''p'']" and ?height = "\<lambda>n. if n = ''A'' then 1 else 0 :: nat"
  have toks: "tokens (utf8 ''/$A/${C}'') = [Inl ''/'', Inr ''A'', Inl ''/'', Inr ''C'']"
    "tokens (utf8 ''${B}x'') = [Inr ''B'', Inl ''x'']" "tokens (utf8 ''p'') = [Inl ''p'']"
    by code_simp+
  have look: "lookup_env_value ?P demo_settings name =
      (if name = ''B'' then Some ''p'' else if name = ''A'' then Some ''${B}x'' else None)" for name
    by (simp add: lookup_env_value_def demo_settings_def)
  have height: "?height n < ?height name" if "lookup_env_value ?P demo_settings name = Some v" "named ?P demo_settings v n" for name v n
    using that unfolding look named_def by (cases "name = ''B''"; cases "name = ''A''") (auto simp: toks simp del: utf8.simps)
  have small: "?height n < 8" for n by simp
  note expand = expansion_exact [of ?P demo_settings ?height, OF height small, THEN conjunct1]
  have "expand_env_value ?P demo_settings 0 ''p'' = ''p''"
    by (subst expand) (simp_all add: toks del: utf8.simps)
  then have "expand_env_value ?P demo_settings 0 ''${B}x'' = ''px''"
    by (subst expand) (simp_all add: toks look del: utf8.simps)
  then have "expand_env_value ?P demo_settings 0 ''/$A/${C}'' = ''/px/''"
    by (subst expand) (simp_all add: toks look del: utf8.simps)
  moreover have "expand_env_value ?P demo_settings 0 [CHR 0xE9] \<noteq> [CHR 0xE9]"
    using expansion_exact [of ?P demo_settings ?height "[CHR 0xE9]", OF height small, THEN conjunct2] by simp
  ultimately show ?thesis ..
qed

section \<open>Lines and schemas\<close>

lemma export_stripped:
  assumes "key \<noteq> ''export''" "\<forall>c \<in> set key. \<not> is_whitespace c" "CHR ''='' \<notin> set key" "list_all is_whitespace v"
    "exported \<in> {[], ''export ''}"
  shows "(case strip_prefix (exported @ key @ v @ CHR ''='' # t) ''export '' of Some rest \<Rightarrow> rest
      | None \<Rightarrow> exported @ key @ v @ CHR ''='' # t) = key @ v @ CHR ''='' # t"
proof (cases "exported = []")
  case True
  let ?word = "takeWhile (\<lambda>c. \<not> is_whitespace c \<and> c \<noteq> CHR ''='')"
  have "?word (key @ v @ CHR ''='' # t) = key"
    using assms(2-4) by (cases v) (simp_all add: takeWhile_append)
  moreover have "?word (''export '' @ r) = ''export''" for r by (simp add: is_whitespace_def)
  ultimately have "key = ''export''" if "key @ v @ CHR ''='' # t = ''export '' @ r" for r
    using arg_cong [OF that, of ?word] by (simp only:)
  then have "\<not> starts_with (key @ v @ CHR ''='' # t) ''export ''"
    using assms(1) unfolding starts_with_iff by blast
  then have "strip_prefix (key @ v @ CHR ''='' # t) ''export '' = None" by (simp only: strip_prefix_eq_None not_False_eq_True)
  then show ?thesis by (simp only: True append_Nil option.case)
next
  case False
  then have "exported = ''export ''" using assms(5) by simp
  then show ?thesis by (simp add: strip_prefix_def)
qed

text \<open>An assignment as people write it reads back as it was written: whitespace around the line, the name and the
  value, an \<open>export\<close> before it, and a value in quotes of either kind, whatever the value contains.\<close>

theorem env_line_roundtrip:
  assumes "list_all is_whitespace u" "list_all is_whitespace v" "list_all is_whitespace x" "list_all is_whitespace y"
    and key: "key \<noteq> []" "key \<noteq> ''export''" "hd key \<noteq> CHR ''#''" "\<forall>c \<in> set key. \<not> is_whitespace c \<and> c \<noteq> CHR ''=''"
    and "q \<in> {quote_char, apostrophe}" "exported \<in> {[], ''export ''}"
  shows "parse_env_line (u @ exported @ key @ v @ ''='' @ x @ [q] @ body @ [q] @ y) = Some (key, body)"
proof -
  let ?line = "exported @ key @ v @ CHR ''='' # x @ q # body @ [q]"
  have q: "\<not> is_whitespace q" using assms(9) by (auto simp: is_whitespace_def)
  have hd: "hd ?line = CHR ''e'' \<or> hd ?line = hd key" "?line \<noteq> []" using key(1) assms(10) by auto
  have "\<not> is_whitespace (CHR ''e'')" by (simp add: is_whitespace_def)
  then have "\<not> is_whitespace (hd ?line)" using hd(1) key(1,4) hd_in_set [of key] by metis
  then have line: "trim (u @ ?line @ y) = ?line" using assms(1,4) q by (intro trim_pad) auto
  have hash: "\<not> starts_with ?line ''#''"
  proof
    assume "starts_with ?line ''#''"
    then obtain r where "?line = ''#'' @ r" unfolding starts_with_iff by blast
    from arg_cong [OF this, of hd] have h: "hd ?line = CHR ''#''" by (simp only: append_Cons list.sel)
    from hd(1) show False
    proof
      assume "hd ?line = CHR ''e''"
      from trans [OF sym [OF this] h] show False by simp
    next
      assume "hd ?line = hd key"
      from trans [OF sym [OF this] h] key(3) show False by contradiction
    qed
  qed
  have "\<not> is_whitespace (CHR ''='')" by (simp add: is_whitespace_def)
  then have "CHR ''='' \<notin> set (key @ v)" using key(4) assms(2) unfolding list_all_iff set_append by blast
  from split_once_first [OF this] have split: "split_once (CHR ''='') (key @ v @ CHR ''='' # t) = Some (key @ v, t)" for t by simp
  have trims: "trim (key @ v) = key" "trim (x @ q # body @ [q]) = q # body @ [q]"
    using trim_pad [of "[]" v key] trim_pad [of x "[]" "q # body @ [q]"] assms(2,3) key(1,4) q by simp_all
  have "strip_quotes (q # body @ [q]) = body"
    using assms(9) by (auto simp: strip_quotes_def)
  moreover have "u @ exported @ key @ v @ ''='' @ x @ [q] @ body @ [q] @ y = u @ ?line @ y" by simp
  moreover have "(case strip_prefix ?line ''export '' of Some rest \<Rightarrow> rest | None \<Rightarrow> ?line) = key @ v @ CHR ''='' # x @ q # body @ [q]"
    using key(2,4) assms(2,10) by (intro export_stripped) auto
  ultimately show ?thesis
    using hd(2) hash key(1) by (simp only: parse_env_line_def line Let_def split trims prod.case option.case if_False simp_thms)
qed

theorem env_line_roundtrip_witness:
  "parse_env_line ('' export KEY = '' @ [quote_char] @ ''a=b #c'' @ [quote_char, CHR 0x0D]) = Some (''KEY'', ''a=b #c'')"
  using env_line_roundtrip [of "'' ''" "'' ''" "'' ''" "[CHR 0x0D]" "''KEY''" quote_char "''export ''" "''a=b #c''"]
  by (simp add: is_whitespace_def)

lemma apply_defaults_lookup:
  "apply_defaults defaults loaded k = (case loaded k of Some v \<Rightarrow> Some v | None \<Rightarrow> map_of defaults k)"
proof (induction defaults arbitrary: loaded)
  case (Cons d defaults)
  obtain a b where d: "d = (a, b)" by fastforce
  have step: "apply_defaults (d # defaults) loaded = apply_defaults defaults (case loaded a of None \<Rightarrow> loaded(a \<mapsto> b) | Some _ \<Rightarrow> loaded)"
    by (simp add: apply_defaults_def d)
  show ?case unfolding step Cons.IH by (cases "loaded a"; cases "loaded k") (auto simp: d)
qed (simp add: apply_defaults_def split: option.split)

lemma collect_missing_exact:
  assumes "distinct missing"
  shows "distinct (collect_missing loaded ks missing) \<and>
    set (collect_missing loaded ks missing) = set missing \<union> {k \<in> trim ` set ks. k \<noteq> [] \<and> loaded k = None}"
  using assms
proof (induction ks arbitrary: missing)
  case (Cons k ks)
  then show ?case
    using Cons.IH [of missing] Cons.IH [of "missing @ [trim k]"] Cons.prems by (auto simp: Let_def)
qed simp

text \<open>Validation succeeds exactly when, after filling in defaults, every required key that is not blank is present and
  the schema has no objection; the result then is the filled-in map. Otherwise each missing key is reported once, and
  then what the schema objects to.\<close>

theorem validate_schema_exact:
  "\<exists>merged missing.
     (\<forall>k. merged k = (case loaded k of Some v \<Rightarrow> Some v | None \<Rightarrow> map_of (schema_defaults S) k)) \<and>
     distinct missing \<and>
     set missing = {k \<in> trim ` set (required_keys S). k \<noteq> [] \<and> merged k = None} \<and>
     validate_schema S loaded =
       (if missing = [] \<and> schema_validate S merged = [] then Inr merged
        else Inl (map MissingRequiredKey missing @ schema_validate S merged))"
  using collect_missing_exact [of "[]" "apply_defaults (schema_defaults S) loaded" "required_keys S"]
  by (intro exI [of _ "apply_defaults (schema_defaults S) loaded"] exI
      [of _ "collect_missing (apply_defaults (schema_defaults S) loaded) (required_keys S) []"])
    (auto simp: apply_defaults_lookup validate_schema_def collect_missing_required_key_issues_def Let_def)

text \<open>A module is built exactly when loading and validation succeed, and it then passes the check that the framework
  replays before it bootstraps.\<close>

lemma for_root_exact:
  "for_root_with_schema a b fs P S options = Inr module \<longleftrightarrow>
    (\<exists>loaded merged. load_env fs P options = Inr loaded \<and> validate_schema S loaded = Inr merged \<and>
       module = dynamic_with_pre_bootstrap (root_dynamic_module a b options) (Inr ()))"
  "for_root_with_schema a b fs P S options = Inr module \<Longrightarrow>
     run_pre_bootstrap module = Inr () \<and> mm_is_global (merged_metadata module) = co_is_global options"
  by (auto simp: for_root_with_schema_def run_pre_bootstrap_def dynamic_with_pre_bootstrap_def Let_def
      root_dynamic_module_def dynamic_with_global_def dynamic_with_providers_def dynamic_new_def merged_metadata_def with_global_def
      split: sum.splits)

end
