(* ===== verification/Rooms.thy ===== *)
theory Rooms
  imports Prelude
begin

text \<open>
  The in-memory registries of \<open>nivasa-websocket/src/lib.rs\<close>: which client is in which room of which namespace, and the
  inboxes that events are put into. A hash set is a set; where its iteration order could reach a result the order is a
  parameter, an enumeration of the set. The scoped handles (\<open>client\<close>, \<open>server\<close>, \<open>to\<close>) only carry the arguments of the
  operations below.
\<close>

record 'c RoomRegistry =
  rr_namespace :: string
  rr_rooms :: "string \<rightharpoonup> 'c set"

definition room_registry_new :: "string \<Rightarrow> 'c RoomRegistry" where
  "room_registry_new namespace = \<lparr>rr_namespace = namespace, rr_rooms = Map.empty\<rparr>"

definition room_join :: "'c RoomRegistry \<Rightarrow> string \<Rightarrow> 'c \<Rightarrow> bool \<times> 'c RoomRegistry" where
  "room_join reg room client =
     (let members = (case rr_rooms reg room of Some m \<Rightarrow> m | None \<Rightarrow> {})
      in (client \<notin> members, reg\<lparr>rr_rooms := (rr_rooms reg)(room \<mapsto> insert client members)\<rparr>))"

definition room_leave :: "'c RoomRegistry \<Rightarrow> string \<Rightarrow> 'c \<Rightarrow> bool \<times> 'c RoomRegistry" where
  "room_leave reg room client =
     (case rr_rooms reg room of
        None \<Rightarrow> (False, reg)
      | Some members0 \<Rightarrow>
          let members = members0 - {client}
          in (client \<in> members0,
              reg\<lparr>rr_rooms := (if members = {} then (rr_rooms reg)(room := None) else (rr_rooms reg)(room \<mapsto> members))\<rparr>))"

definition room_contains :: "'c RoomRegistry \<Rightarrow> string \<Rightarrow> 'c \<Rightarrow> bool" where
  "room_contains reg room client \<longleftrightarrow> (case rr_rooms reg room of Some m \<Rightarrow> client \<in> m | None \<Rightarrow> False)"

definition room_members :: "'c RoomRegistry \<Rightarrow> string \<Rightarrow> 'c set" where
  "room_members reg room = (case rr_rooms reg room of Some m \<Rightarrow> m | None \<Rightarrow> {})"

definition registry_is_empty :: "'c RoomRegistry \<Rightarrow> bool" where
  "registry_is_empty reg \<longleftrightarrow> rr_rooms reg = Map.empty"

type_synonym 'c NamespaceRegistry = "string \<rightharpoonup> 'c RoomRegistry"

definition ns_join :: "'c NamespaceRegistry \<Rightarrow> string \<Rightarrow> string \<Rightarrow> 'c \<Rightarrow> bool \<times> 'c NamespaceRegistry" where
  "ns_join nss namespace room client =
     (case room_join (case nss namespace of Some reg \<Rightarrow> reg | None \<Rightarrow> room_registry_new namespace) room client of
        (fresh, reg) \<Rightarrow> (fresh, nss(namespace \<mapsto> reg)))"

definition ns_leave :: "'c NamespaceRegistry \<Rightarrow> string \<Rightarrow> string \<Rightarrow> 'c \<Rightarrow> bool \<times> 'c NamespaceRegistry" where
  "ns_leave nss namespace room client =
     (case nss namespace of
        None \<Rightarrow> (False, nss)
      | Some reg0 \<Rightarrow>
          (case room_leave reg0 room client of
             (removed, reg) \<Rightarrow> (removed, if registry_is_empty reg then nss(namespace := None) else nss(namespace \<mapsto> reg))))"

text \<open>The two nested \<open>retain\<close>s of a disconnect.\<close>

definition retain_rooms :: "'c \<Rightarrow> 'c RoomRegistry \<Rightarrow> 'c RoomRegistry" where
  "retain_rooms client reg =
     reg\<lparr>rr_rooms := (\<lambda>room. case rr_rooms reg room of
                               None \<Rightarrow> None
                             | Some m \<Rightarrow> if m - {client} = {} then None else Some (m - {client}))\<rparr>"

definition ns_disconnect :: "'c NamespaceRegistry \<Rightarrow> 'c \<Rightarrow> bool \<times> 'c NamespaceRegistry" where
  "ns_disconnect nss client =
     (\<exists>reg \<in> ran nss. \<exists>m \<in> ran (rr_rooms reg). client \<in> m,
      \<lambda>namespace. case nss namespace of
                    None \<Rightarrow> None
                  | Some reg0 \<Rightarrow> let reg = retain_rooms client reg0 in if registry_is_empty reg then None else Some reg)"

definition ns_members :: "'c NamespaceRegistry \<Rightarrow> string \<Rightarrow> string \<Rightarrow> 'c set" where
  "ns_members nss namespace room = (case nss namespace of Some reg \<Rightarrow> room_members reg room | None \<Rightarrow> {})"

definition ns_contains :: "'c NamespaceRegistry \<Rightarrow> string \<Rightarrow> string \<Rightarrow> 'c \<Rightarrow> bool" where
  "ns_contains nss namespace room client \<longleftrightarrow>
     (case nss namespace of Some reg \<Rightarrow> room_contains reg room client | None \<Rightarrow> False)"

definition has_namespace :: "'c NamespaceRegistry \<Rightarrow> string \<Rightarrow> bool" where
  "has_namespace nss namespace \<longleftrightarrow> nss namespace \<noteq> None"

section \<open>Inboxes\<close>

type_synonym Event = "string \<times> string"
type_synonym 'c Inboxes = "'c \<rightharpoonup> Event list"

definition events_for :: "'c Inboxes \<Rightarrow> 'c \<Rightarrow> Event list" where
  "events_for clients client = (case clients client of Some es \<Rightarrow> es | None \<Rightarrow> [])"

text \<open>\<open>ClientEventHandle::emit\<close> makes an inbox where there is none; connecting keeps one that is there.\<close>

definition client_emit :: "'c Inboxes \<Rightarrow> 'c \<Rightarrow> string \<Rightarrow> string \<Rightarrow> nat \<times> 'c Inboxes" where
  "client_emit clients client event payload =
     (let entry = events_for clients client @ [(event, payload)] in (length entry, clients(client \<mapsto> entry)))"

definition inbox_connect :: "'c Inboxes \<Rightarrow> 'c \<Rightarrow> 'c Inboxes" where
  "inbox_connect clients client = clients(client \<mapsto> events_for clients client)"

definition inbox_disconnect :: "'c Inboxes \<Rightarrow> 'c \<Rightarrow> bool \<times> 'c Inboxes" where
  "inbox_disconnect clients client = (clients client \<noteq> None, clients(client := None))"

text \<open>The loops over clients: every client that has an inbox gets the event and counts.\<close>

fun deliver :: "Event \<Rightarrow> 'c list \<Rightarrow> 'c Inboxes \<Rightarrow> nat \<Rightarrow> nat \<times> 'c Inboxes" where
  "deliver ev [] clients delivered = (delivered, clients)"
| "deliver ev (c # cs) clients delivered =
     (case clients c of
        Some inbox \<Rightarrow> deliver ev cs (clients(c \<mapsto> inbox @ [ev])) (delivered + 1)
      | None \<Rightarrow> deliver ev cs clients delivered)"

definition server_emit :: "('c set \<Rightarrow> 'c list) \<Rightarrow> 'c Inboxes \<Rightarrow> string \<Rightarrow> string \<Rightarrow> nat \<times> 'c Inboxes" where
  "server_emit order clients event payload = deliver (event, payload) (order (dom clients)) clients 0"

record 'c RoomEventRegistry =
  re_namespace :: string
  re_rooms :: "'c NamespaceRegistry"
  re_clients :: "'c Inboxes"

definition room_events_new :: "string \<Rightarrow> 'c RoomEventRegistry" where
  "room_events_new namespace = \<lparr>re_namespace = namespace, re_rooms = Map.empty, re_clients = Map.empty\<rparr>"

definition events_connect :: "'c RoomEventRegistry \<Rightarrow> 'c \<Rightarrow> 'c RoomEventRegistry" where
  "events_connect E client = E\<lparr>re_clients := inbox_connect (re_clients E) client\<rparr>"

definition events_disconnect :: "'c RoomEventRegistry \<Rightarrow> 'c \<Rightarrow> bool \<times> 'c RoomEventRegistry" where
  "events_disconnect E client =
     (case inbox_disconnect (re_clients E) client of
        (removed_client, clients) \<Rightarrow>
          (case ns_disconnect (re_rooms E) client of
             (removed_rooms, rooms) \<Rightarrow> (removed_client \<or> removed_rooms, E\<lparr>re_clients := clients, re_rooms := rooms\<rparr>)))"

definition events_join :: "'c RoomEventRegistry \<Rightarrow> string \<Rightarrow> 'c \<Rightarrow> bool \<times> 'c RoomEventRegistry" where
  "events_join E room client =
     (case ns_join (re_rooms E) (re_namespace E) room client of (fresh, rooms) \<Rightarrow> (fresh, E\<lparr>re_rooms := rooms\<rparr>))"

definition room_emit ::
  "('c set \<Rightarrow> 'c list) \<Rightarrow> 'c RoomEventRegistry \<Rightarrow> string \<Rightarrow> string \<Rightarrow> string \<Rightarrow> nat \<times> 'c RoomEventRegistry" where
  "room_emit order E room event payload =
     (case deliver (event, payload) (order (ns_members (re_rooms E) (re_namespace E) room)) (re_clients E) 0 of
        (delivered, clients) \<Rightarrow> (delivered, E\<lparr>re_clients := clients\<rparr>))"

section \<open>Membership as a contract\<close>

text \<open>What a registry of memberships promises: a valid state stands for a set of memberships, and every operation does to
  the set what its name says and answers whether it changed anything.\<close>

datatype 'c RoomOp = JoinRoom string string 'c | LeaveRoom string string 'c | LeaveAll 'c

fun spec_op :: "'c RoomOp \<Rightarrow> (string \<times> string \<times> 'c) set \<Rightarrow> bool \<times> (string \<times> string \<times> 'c) set" where
  "spec_op (JoinRoom n r c) M = ((n, r, c) \<notin> M, insert (n, r, c) M)"
| "spec_op (LeaveRoom n r c) M = ((n, r, c) \<in> M, M - {(n, r, c)})"
| "spec_op (LeaveAll c) M = (\<exists>n r. (n, r, c) \<in> M, {m \<in> M. snd (snd m) \<noteq> c})"

fun run_room_ops :: "('o \<Rightarrow> 's \<Rightarrow> bool \<times> 's) \<Rightarrow> 'o list \<Rightarrow> 's \<Rightarrow> bool list \<times> 's" where
  "run_room_ops f [] s = ([], s)"
| "run_room_ops f (x # xs) s = (case f x s of (b, s1) \<Rightarrow> (case run_room_ops f xs s1 of (bs, s2) \<Rightarrow> (b # bs, s2)))"

locale membership =
  fixes valid :: "'s \<Rightarrow> bool"
    and memberships :: "'s \<Rightarrow> (string \<times> string \<times> 'c) set"
    and operate :: "'c RoomOp \<Rightarrow> 's \<Rightarrow> bool \<times> 's"
  assumes keeps_valid: "valid s \<Longrightarrow> valid (snd (operate x s))"
    and answers: "valid s \<Longrightarrow> fst (operate x s) = fst (spec_op x (memberships s))"
    and updates: "valid s \<Longrightarrow> memberships (snd (operate x s)) = snd (spec_op x (memberships s))"
begin

lemma history:
  "valid s \<Longrightarrow> valid (snd (run_room_ops operate xs s)) \<and>
     fst (run_room_ops operate xs s) = fst (run_room_ops spec_op xs (memberships s)) \<and>
     memberships (snd (run_room_ops operate xs s)) = snd (run_room_ops spec_op xs (memberships s))"
proof (induction xs arbitrary: s)
  case (Cons x xs)
  from Cons.IH [OF keeps_valid [OF Cons.prems, of x]] show ?case
    by (simp add: split_beta answers [OF Cons.prems] updates [OF Cons.prems])
qed simp

end

fun registry_op :: "'c RoomOp \<Rightarrow> 'c NamespaceRegistry \<Rightarrow> bool \<times> 'c NamespaceRegistry" where
  "registry_op (JoinRoom n r c) nss = ns_join nss n r c"
| "registry_op (LeaveRoom n r c) nss = ns_leave nss n r c"
| "registry_op (LeaveAll c) nss = ns_disconnect nss c"

definition members_of :: "'c NamespaceRegistry \<Rightarrow> (string \<times> string \<times> 'c) set" where
  "members_of nss = {(n, r, c). ns_contains nss n r c}"

text \<open>No namespace without rooms, no room without members, every registry under its own name.\<close>

definition tidy :: "'c NamespaceRegistry \<Rightarrow> bool" where
  "tidy nss \<longleftrightarrow>
     (\<forall>n reg. nss n = Some reg \<longrightarrow>
        rr_namespace reg = n \<and> rr_rooms reg \<noteq> Map.empty \<and> (\<forall>r m. rr_rooms reg r = Some m \<longrightarrow> m \<noteq> {}))"

lemma ns_contains_iff: "ns_contains nss n r c \<longleftrightarrow> (\<exists>reg m. nss n = Some reg \<and> rr_rooms reg r = Some m \<and> c \<in> m)"
  by (auto simp: ns_contains_def room_contains_def split: option.split)

lemma contains_join:
  "ns_contains (snd (ns_join nss n r c)) n' r' c' \<longleftrightarrow> (n', r', c') = (n, r, c) \<or> ns_contains nss n' r' c'"
  "fst (ns_join nss n r c) \<longleftrightarrow> \<not> ns_contains nss n r c"
  by (cases "nss n"; cases "rr_rooms (the (nss n)) r";
      simp add: ns_contains_def room_contains_def ns_join_def room_join_def room_registry_new_def Let_def split: option.split; blast)+

lemma room_leave_contains:
  "room_contains (snd (room_leave reg r c)) r' c' \<longleftrightarrow> (r', c') \<noteq> (r, c) \<and> room_contains reg r' c'"
  "fst (room_leave reg r c) \<longleftrightarrow> room_contains reg r c"
  by (cases "rr_rooms reg r"; auto simp: room_contains_def room_leave_def Let_def split: option.split)+

lemma empty_contains: "registry_is_empty reg \<Longrightarrow> \<not> room_contains reg r c"
  by (simp add: registry_is_empty_def room_contains_def)

lemma contains_leave:
  "ns_contains (snd (ns_leave nss n r c)) n' r' c' \<longleftrightarrow> (n', r', c') \<noteq> (n, r, c) \<and> ns_contains nss n' r' c'"
  "fst (ns_leave nss n r c) \<longleftrightarrow> ns_contains nss n r c"
proof -
  show "ns_contains (snd (ns_leave nss n r c)) n' r' c' \<longleftrightarrow> (n', r', c') \<noteq> (n, r, c) \<and> ns_contains nss n' r' c'"
    using room_leave_contains(1) [of "the (nss n)" r c r' c'] empty_contains [of "snd (room_leave (the (nss n)) r c)" r' c']
    by (cases "nss n") (auto simp: ns_contains_def ns_leave_def split_beta)
  show "fst (ns_leave nss n r c) \<longleftrightarrow> ns_contains nss n r c"
    by (cases "nss n") (simp_all add: ns_contains_def ns_leave_def room_leave_contains split_beta)
qed

lemma retain_contains: "room_contains (retain_rooms c reg) r c' \<longleftrightarrow> c' \<noteq> c \<and> room_contains reg r c'"
  by (cases "rr_rooms reg r") (auto simp: room_contains_def retain_rooms_def)

lemma contains_disconnect:
  "ns_contains (snd (ns_disconnect nss c)) n' r' c' \<longleftrightarrow> c' \<noteq> c \<and> ns_contains nss n' r' c'"
  "fst (ns_disconnect nss c) \<longleftrightarrow> (\<exists>n r. ns_contains nss n r c)"
proof -
  show "ns_contains (snd (ns_disconnect nss c)) n' r' c' \<longleftrightarrow> c' \<noteq> c \<and> ns_contains nss n' r' c'"
    using retain_contains [of c "the (nss n')" r' c'] empty_contains [of "retain_rooms c (the (nss n'))" r' c']
    by (cases "nss n'") (auto simp: ns_contains_def ns_disconnect_def Let_def)
  show "fst (ns_disconnect nss c) \<longleftrightarrow> (\<exists>n r. ns_contains nss n r c)"
    unfolding ns_disconnect_def ns_contains_iff ran_def by auto
qed

lemma tidy_op:
  assumes "tidy nss"
  shows "tidy (snd (registry_op x nss))"
proof -
  have entry: "rr_namespace reg = n" "rr_rooms reg \<noteq> Map.empty" "rr_rooms reg r = Some m \<Longrightarrow> m \<noteq> {}" if "nss n = Some reg" for n reg r m
    using assms that unfolding tidy_def by blast+
  show ?thesis
  proof (cases x)
    case (JoinRoom n r c)
    then show ?thesis
      using entry by (cases "nss n") (auto simp: tidy_def ns_join_def room_join_def room_registry_new_def Let_def)
  next
    case (LeaveRoom n r c)
    then show ?thesis
      using entry by (cases "nss n"; cases "rr_rooms (the (nss n)) r")
        (auto simp: tidy_def ns_leave_def room_leave_def registry_is_empty_def Let_def)
  next
    case (LeaveAll c)
    then show ?thesis
      using entry by (auto simp: tidy_def ns_disconnect_def retain_rooms_def registry_is_empty_def Let_def split: option.splits if_splits)
  qed
qed

interpretation rooms: membership tidy members_of registry_op
proof
  fix x :: "'c RoomOp" and nss :: "'c NamespaceRegistry"
  assume "tidy nss"
  then show "tidy (snd (registry_op x nss))" by (rule tidy_op)
  show "fst (registry_op x nss) = fst (spec_op x (members_of nss))"
    by (cases x) (simp_all add: members_of_def contains_join contains_leave contains_disconnect)
  show "members_of (snd (registry_op x nss)) = snd (spec_op x (members_of nss))"
    by (cases x) (auto simp: members_of_def contains_join contains_leave contains_disconnect)
qed

lemma has_namespace_iff: "tidy nss \<Longrightarrow> has_namespace nss n \<longleftrightarrow> (\<exists>r c. (n, r, c) \<in> members_of nss)"
  unfolding tidy_def has_namespace_def members_of_def ns_contains_iff by (auto simp: fun_eq_iff) (metis all_not_in_conv option.exhaust)

text \<open>C24: the namespace registry refines a set of memberships. After any history of joins, leaves and disconnects every
  answer is the one the set gives, the rooms hold exactly the members of the set, and a namespace exists exactly while
  some room of it has a member.\<close>

theorem rooms_refine_memberships:
  "fst (run_room_ops registry_op ops Map.empty) = fst (run_room_ops spec_op ops {}) \<and>
   ns_members (snd (run_room_ops registry_op ops Map.empty)) n r = {c. (n, r, c) \<in> snd (run_room_ops spec_op ops {})} \<and>
   (has_namespace (snd (run_room_ops registry_op ops Map.empty)) n \<longleftrightarrow> (\<exists>r c. (n, r, c) \<in> snd (run_room_ops spec_op ops {})))"
proof -
  have "tidy (Map.empty :: 'a NamespaceRegistry)" by (simp add: tidy_def)
  moreover have "members_of (Map.empty :: 'a NamespaceRegistry) = {}" by (simp add: members_of_def ns_contains_def)
  ultimately have hist: "tidy (snd (run_room_ops registry_op ops Map.empty))"
    "fst (run_room_ops registry_op ops Map.empty) = fst (run_room_ops spec_op ops {})"
    "members_of (snd (run_room_ops registry_op ops Map.empty)) = snd (run_room_ops spec_op ops {})"
    using rooms.history [of Map.empty ops] by simp_all
  have "ns_members nss n r = {c. (n, r, c) \<in> members_of nss}" for nss :: "'a NamespaceRegistry"
    by (auto simp: ns_members_def room_members_def members_of_def ns_contains_iff split: option.split)
  with hist has_namespace_iff [OF hist(1)] show ?thesis by simp
qed

section \<open>Who gets an event\<close>

lemma deliver_exact:
  "distinct cs \<Longrightarrow> deliver ev cs clients k =
    (k + card (set cs \<inter> dom clients), \<lambda>c. if c \<in> set cs then map_option (\<lambda>inbox. inbox @ [ev]) (clients c) else clients c)"
proof (induction cs arbitrary: clients k)
  case (Cons c cs)
  show ?case
  proof (cases "clients c")
    case None
    then have "set (c # cs) \<inter> dom clients = set cs \<inter> dom clients" by auto
    with None Cons show ?thesis by (auto simp: fun_eq_iff)
  next
    case (Some inbox)
    have "set (c # cs) \<inter> dom clients = insert c (set cs \<inter> dom clients)" using Some by auto
    moreover have "c \<notin> set cs \<inter> dom clients" using Cons.prems by simp
    moreover have "set cs \<inter> insert c (dom clients) = set cs \<inter> dom clients" using Cons.prems by auto
    ultimately show ?thesis using Some Cons by (auto simp: fun_eq_iff)
  qed
qed simp

definition enumerates :: "('c set \<Rightarrow> 'c list) \<Rightarrow> bool" where
  "enumerates order \<longleftrightarrow> (\<forall>S. finite S \<longrightarrow> set (order S) = S \<and> distinct (order S))"

text \<open>An event for a room is appended to the inbox of every connected member of the room, once, whatever order the
  members are visited in; it reaches nobody else and counts them. A client that disconnects is in no room, has no
  inbox, and later events do not reach it until it joins and connects again.\<close>

theorem room_emit_exact:
  assumes "enumerates order" "finite (ns_members (re_rooms E) (re_namespace E) room)"
  shows "room_emit order E room event payload =
      (card (ns_members (re_rooms E) (re_namespace E) room \<inter> dom (re_clients E)),
       E\<lparr>re_clients := \<lambda>c.
           if c \<in> ns_members (re_rooms E) (re_namespace E) room
           then map_option (\<lambda>inbox. inbox @ [(event, payload)]) (re_clients E c) else re_clients E c\<rparr>) \<and>
    re_clients (snd (events_disconnect E client)) client = None \<and>
      client \<notin> ns_members (re_rooms (snd (events_disconnect E client))) (re_namespace E) room'"
proof -
  have "client \<notin> ns_members (snd (ns_disconnect (re_rooms E) client)) (re_namespace E) room'"
    using contains_disconnect(1) [of "re_rooms E" client "re_namespace E" room' client]
    by (auto simp: ns_members_def ns_contains_def room_contains_def room_members_def split: option.splits)
  then show ?thesis
    using assms
    by (simp add: room_emit_def enumerates_def deliver_exact events_disconnect_def inbox_disconnect_def split_beta)
qed

definition demo_rooms :: "nat RoomEventRegistry" where
  "demo_rooms =
     snd (events_join (snd (events_join (events_connect (events_connect (room_events_new ''/chat'') 1) 2) ''lobby'' 1)) ''lobby'' 3)"

theorem room_emit_exact_witness:
  "fst (room_emit sorted_list_of_set demo_rooms ''lobby'' ''notice'' ''hello'') = 1 \<and>
   re_clients (snd (room_emit sorted_list_of_set demo_rooms ''lobby'' ''notice'' ''hello'')) 1 = Some [(''notice'', ''hello'')]"
proof -
  have members: "ns_members (re_rooms demo_rooms) (re_namespace demo_rooms) ''lobby'' = {1, 3}"
    by (auto simp: demo_rooms_def events_join_def events_connect_def room_events_new_def ns_join_def room_join_def
        room_registry_new_def ns_members_def room_members_def Let_def)
  have clients: "re_clients demo_rooms = [1 \<mapsto> [], 2 \<mapsto> []]"
    by (simp add: demo_rooms_def events_join_def events_connect_def room_events_new_def ns_join_def room_join_def
        room_registry_new_def inbox_connect_def events_for_def Let_def)
  have "enumerates (sorted_list_of_set :: nat set \<Rightarrow> nat list)" by (simp add: enumerates_def)
  from room_emit_exact [OF this, of demo_rooms "''lobby''" "''notice''" "''hello''"]
  show ?thesis by (simp add: members clients)
qed

end
