(* ===== verification/Application.thy ===== *)
theory Application
  imports Http_Server Module_Runtime
begin

text \<open>
  The application shell (\<open>nivasa/src/application.rs\<close>), the registry of controller handlers (\<open>nivasa-http/src/lib.rs\<close>)
  and the code that the controller and module macros generate to fill it (\<open>nivasa-macros/src/controller.rs\<close>,
  \<open>module_macro.rs\<close>): from the controllers of a module to the routes of a server.

  The crate's version and the name of the root module are parameters; so is the banner. A preflight hook is its result
  on the module and the configuration.
\<close>

section \<open>Options\<close>

datatype VersioningStrategy = UriVersioning | HeaderVersioning | MediaTypeVersioning

record VersioningOptions =
  vo_strategy :: VersioningStrategy
  vo_default_version :: "string option"

definition app_version_token :: "string \<Rightarrow> string" where
  "app_version_token version =
     (let trimmed = trim_matches is_slash (trim version);
          stripped = (case strip_prefix trimmed ''v'' of
                        Some s \<Rightarrow> s
                      | None \<Rightarrow> (case strip_prefix trimmed ''V'' of Some s \<Rightarrow> s | None \<Rightarrow> trimmed))
      in ''v'' @ stripped)"

definition versioning_new :: "VersioningStrategy \<Rightarrow> VersioningOptions" where
  "versioning_new strategy = \<lparr>vo_strategy = strategy, vo_default_version = None\<rparr>"

definition with_default_version :: "VersioningOptions \<Rightarrow> string \<Rightarrow> VersioningOptions" where
  "with_default_version o1 version =
     o1\<lparr>vo_default_version := (if trim version = [] then None else Some (app_version_token version))\<rparr>"

record ServerOptions =
  so_host :: string
  so_port :: "16 word"
  so_cors :: bool
  so_global_prefix :: "string option"
  so_versioning :: "VersioningOptions option"

definition server_options_new :: "string \<Rightarrow> 16 word \<Rightarrow> ServerOptions" where
  "server_options_new host port =
     \<lparr>so_host = host, so_port = port, so_cors = False, so_global_prefix = None, so_versioning = None\<rparr>"

definition normalize_path_prefix :: "string \<Rightarrow> string" where
  "normalize_path_prefix prefix =
     (let trimmed = trim prefix
      in if trimmed = [] then []
         else
           let prefixed = (if starts_with trimmed ''/'' then trimmed else ''/'' @ trimmed)
           in if length prefixed > 1 then trim_end_matches is_slash prefixed else prefixed)"

definition normalize_route_path :: "string \<Rightarrow> string" where
  "normalize_route_path p =
     (let trimmed = trim p
      in if trimmed = [] \<or> trimmed = ''/'' then ''/''
         else ''/'' @ trim_end_matches is_slash (trim_start_matches is_slash trimmed))"

definition with_global_prefix :: "ServerOptions \<Rightarrow> string \<Rightarrow> ServerOptions" where
  "with_global_prefix so prefix0 =
     (let prefix = normalize_path_prefix prefix0 in so\<lparr>so_global_prefix := (if prefix = [] then None else Some prefix)\<rparr>)"

definition options_enable_cors :: "ServerOptions \<Rightarrow> ServerOptions" where
  "options_enable_cors so = so\<lparr>so_cors := True\<rparr>"

definition with_versioning :: "ServerOptions \<Rightarrow> VersioningOptions \<Rightarrow> ServerOptions" where
  "with_versioning so versioning = so\<lparr>so_versioning := Some versioning\<rparr>"

text \<open>The builder of server options has the same fields; it starts from the defaults.\<close>

definition server_options_default :: ServerOptions where
  "server_options_default = server_options_new ''127.0.0.1'' 3000"

type_synonym ServerOptionsBuilder = ServerOptions

definition options_builder :: ServerOptionsBuilder where
  "options_builder = server_options_default"

definition builder_host :: "ServerOptionsBuilder \<Rightarrow> string \<Rightarrow> ServerOptionsBuilder" where
  "builder_host b host = b\<lparr>so_host := host\<rparr>"

definition builder_port :: "ServerOptionsBuilder \<Rightarrow> 16 word \<Rightarrow> ServerOptionsBuilder" where
  "builder_port b port = b\<lparr>so_port := port\<rparr>"

definition builder_cors :: "ServerOptionsBuilder \<Rightarrow> bool \<Rightarrow> ServerOptionsBuilder" where
  "builder_cors b cors = b\<lparr>so_cors := cors\<rparr>"

definition builder_global_prefix :: "ServerOptionsBuilder \<Rightarrow> string \<Rightarrow> ServerOptionsBuilder" where
  "builder_global_prefix b prefix0 =
     (let prefix = normalize_path_prefix prefix0 in b\<lparr>so_global_prefix := (if prefix = [] then None else Some prefix)\<rparr>)"

definition builder_versioning :: "ServerOptionsBuilder \<Rightarrow> VersioningOptions \<Rightarrow> ServerOptionsBuilder" where
  "builder_versioning b versioning = b\<lparr>so_versioning := Some versioning\<rparr>"

definition options_build :: "ServerOptionsBuilder \<Rightarrow> ServerOptions" where
  "options_build b =
     \<lparr>so_host = so_host b, so_port = so_port b, so_cors = so_cors b, so_global_prefix = so_global_prefix b, so_versioning = so_versioning b\<rparr>"

definition format_listen_address :: "string \<Rightarrow> 16 word \<Rightarrow> string" where
  "format_listen_address host port =
     (if CHR '':'' \<in> set host \<and> \<not> starts_with host ''[''
      then ''['' @ host @ '']:'' @ show_nat (unat port)
      else host @ '':'' @ show_nat (unat port))"

record AppBootstrapConfig =
  bc_server :: ServerOptions
  bc_openapi_spec_path :: string
  bc_swagger_ui_path :: string

definition bootstrap_config_new :: "ServerOptions \<Rightarrow> AppBootstrapConfig" where
  "bootstrap_config_new so =
     \<lparr>bc_server = so, bc_openapi_spec_path = ''/api/docs/openapi.json'', bc_swagger_ui_path = ''/api/docs''\<rparr>"

definition absolute :: "string \<Rightarrow> string" where
  "absolute p = (if starts_with p ''/'' then p else ''/'' @ p)"

definition with_openapi_spec_path :: "AppBootstrapConfig \<Rightarrow> string \<Rightarrow> AppBootstrapConfig" where
  "with_openapi_spec_path cfg p0 =
     (let p = trim p0 in cfg\<lparr>bc_openapi_spec_path := (if p = [] then ''/api/docs/openapi.json'' else absolute p)\<rparr>)"

definition with_swagger_ui_path :: "AppBootstrapConfig \<Rightarrow> string \<Rightarrow> AppBootstrapConfig" where
  "with_swagger_ui_path cfg p0 =
     (let p = trim p0 in cfg\<lparr>bc_swagger_ui_path := (if p = [] then ''/api/docs'' else absolute p)\<rparr>)"

definition enable_versioning :: "AppBootstrapConfig \<Rightarrow> VersioningOptions \<Rightarrow> AppBootstrapConfig" where
  "enable_versioning cfg versioning = cfg\<lparr>bc_server := with_versioning (bc_server cfg) versioning\<rparr>"

definition global_prefix :: "AppBootstrapConfig \<Rightarrow> string option" where
  "global_prefix cfg = so_global_prefix (bc_server cfg)"

definition prefixed_route_path :: "AppBootstrapConfig \<Rightarrow> string \<Rightarrow> string" where
  "prefixed_route_path cfg p =
     (let route = normalize_route_path p
      in case global_prefix cfg of
           Some prefix \<Rightarrow> if route = ''/'' then prefix else prefix @ route
         | None \<Rightarrow> route)"

section \<open>What the macros generate\<close>

text \<open>A controller as the attributes describe it. A method whose parameters the generated code cannot supply has no action.\<close>

record 'f GeneratedMethod =
  gm_method :: string
  gm_path :: string
  gm_handler :: string
  gm_action :: "'f option"

record 'f GeneratedController =
  gc_type :: TypeId
  gc_path :: string
  gc_methods :: "'f GeneratedMethod list"
  gc_throttle_metadata :: "(string \<times> (32 word \<times> 64 word) option \<times> bool) list"

definition controller_join_route :: "string \<Rightarrow> string \<Rightarrow> string" where
  "controller_join_route prefix p =
     (let normalized_prefix = trim_end_matches is_slash (trim prefix);
          normalized_path = trim_start_matches is_slash (trim p)
      in case (normalized_prefix = [], normalized_path = []) of
           (True, True) \<Rightarrow> ''/''
         | (True, False) \<Rightarrow> ''/'' @ normalized_path
         | (False, True) \<Rightarrow> normalized_prefix
         | (False, False) \<Rightarrow> normalized_prefix @ ''/'' @ normalized_path)"

type_synonym 'f HandlerRegistry = "string \<rightharpoonup> 'f"

definition controller_route_handler_key :: "string \<Rightarrow> string \<Rightarrow> string" where
  "controller_route_handler_key p handler = trim p @ ''::'' @ trim handler"

definition register_controller_route_handler :: "string \<Rightarrow> string \<Rightarrow> 'f \<Rightarrow> 'f HandlerRegistry \<Rightarrow> 'f HandlerRegistry" where
  "register_controller_route_handler p handler route_handler reg = reg(controller_route_handler_key p handler \<mapsto> route_handler)"

definition resolve_controller_route_handler :: "'f HandlerRegistry \<Rightarrow> string \<Rightarrow> string \<Rightarrow> 'f option" where
  "resolve_controller_route_handler reg p handler = reg (controller_route_handler_key p handler)"

definition register_route_handlers :: "'f GeneratedController \<Rightarrow> 'f HandlerRegistry \<Rightarrow> 'f HandlerRegistry" where
  "register_route_handlers c reg =
     fold (\<lambda>m reg. case gm_action m of
                     Some f \<Rightarrow> register_controller_route_handler (controller_join_route (gc_path c) (gm_path m)) (gm_handler m) f reg
                   | None \<Rightarrow> reg) (gc_methods c) reg"

text \<open>Asking for the routes registers the handlers.\<close>

definition controller_routes :: "'f GeneratedController \<Rightarrow> 'f HandlerRegistry \<Rightarrow> (string \<times> string \<times> string) list \<times> 'f HandlerRegistry" where
  "controller_routes c reg =
     (map (\<lambda>m. (gm_method m, controller_join_route (gc_path c) (gm_path m), gm_handler m)) (gc_methods c),
      register_route_handlers c reg)"

definition route_registration ::
  "(string \<times> (32 word \<times> 64 word) option \<times> bool) list \<Rightarrow> string \<times> string \<times> string \<Rightarrow> ControllerRouteRegistration" where
  "route_registration throttle_metadata = (\<lambda>(method, p, handler).
     let route = route_registration_new method p handler
     in case find (\<lambda>t. fst t = handler) throttle_metadata of
          None \<Rightarrow> route
        | Some (_, throttle, skip) \<Rightarrow>
            if skip then skip_throttle route
            else (case throttle of Some (limit, ttl_secs) \<Rightarrow> with_throttle route limit ttl_secs | None \<Rightarrow> route))"

fun module_controller_registrations ::
  "TypeId list \<Rightarrow> 'f GeneratedController list \<Rightarrow> 'f HandlerRegistry \<Rightarrow> ModuleControllerRegistration list \<times> 'f HandlerRegistry" where
  "module_controller_registrations middlewares [] reg = ([], reg)"
| "module_controller_registrations middlewares (c # cs) reg =
     (case controller_routes c reg of
        (routes, reg1) \<Rightarrow>
          (case module_controller_registrations middlewares cs reg1 of
             (rs, reg2) \<Rightarrow>
               (\<lparr>mc_controller = gc_type c, mc_routes = map (route_registration (gc_throttle_metadata c)) routes,
                  mc_middlewares = middlewares\<rparr> # rs, reg2)))"

section \<open>Building the application\<close>

datatype AppBuildError =
  PreflightValidation string
| AppDependencyInjection DiError
| AppDuplicateRoute string string
| MissingRouteHandler string
| ListenFailed string

record AppRoute =
  ar_method :: RouteMethod
  ar_path :: string
  ar_handler :: string
  ar_throttle :: "RouteThrottleRegistration option"
  ar_skip_throttle :: bool

fun resolve_app_routes ::
  "AppBootstrapConfig \<Rightarrow> ControllerRouteRegistration list \<Rightarrow> (RouteMethod \<times> string) list \<Rightarrow> AppBuildError + AppRoute list" where
  "resolve_app_routes cfg [] seen = Inr []"
| "resolve_app_routes cfg (r # rs) seen =
     (let method = parse_method (cr_method r);
          p = prefixed_route_path cfg (cr_path r)
      in if (method, p) \<in> set seen then Inl (AppDuplicateRoute (cr_method r) p)
         else
           map_sum id
             (\<lambda>routes. \<lparr>ar_method = method, ar_path = p, ar_handler = cr_handler r, ar_throttle = cr_throttle r,
                ar_skip_throttle = cr_skip_throttle r\<rparr> # routes)
             (resolve_app_routes cfg rs ((method, p) # seen)))"

definition resolve_routes :: "AppBootstrapConfig \<Rightarrow> ModuleControllerRegistration list \<Rightarrow> AppBuildError + AppRoute list" where
  "resolve_routes cfg registrations = resolve_app_routes cfg (concat (map mc_routes registrations)) []"

record 'v AppModule =
  ap_metadata :: ModuleMetadata
  ap_registrations :: "ModuleControllerRegistration list"
  ap_configure :: "'v DependencyContainer \<Rightarrow> (DiError, unit, 'v DependencyContainer) result"

record 'v NestApplication =
  na_app_module :: "'v AppModule"
  na_bootstrap :: AppBootstrapConfig
  na_preflight :: "('v AppModule \<Rightarrow> AppBootstrapConfig \<Rightarrow> AppBuildError + unit) option"

record 'v App =
  app_module :: "'v AppModule"
  app_bootstrap :: AppBootstrapConfig
  app_container :: "'v DependencyContainer"
  app_module_metadata :: ModuleMetadata
  app_registrations :: "ModuleControllerRegistration list"
  app_routes :: "AppRoute list"

definition application_create :: "'v AppModule \<Rightarrow> 'v NestApplication" where
  "application_create module =
     \<lparr>na_app_module = module, na_bootstrap = bootstrap_config_new server_options_default, na_preflight = None\<rparr>"

definition with_preflight where
  "with_preflight app preflight = app\<lparr>na_preflight := Some preflight\<rparr>"

text \<open>\<open>None\<close> when configuring or initialising does not return.\<close>

definition application_build :: "Runner \<Rightarrow> 'v NestApplication \<Rightarrow> (AppBuildError + 'v App) option" where
  "application_build R app =
     (let module = na_app_module app; cfg = na_bootstrap app in
      case (case na_preflight app of Some preflight \<Rightarrow> preflight module cfg | None \<Rightarrow> Inr ()) of
        Inl e \<Rightarrow> Some (Inl e)
      | Inr _ \<Rightarrow>
          (case ap_configure module (snd container_new) of
             None \<Rightarrow> None
           | Some (Inl e, _) \<Rightarrow> Some (Inl (AppDependencyInjection e))
           | Some (Inr _, container1) \<Rightarrow>
               (case run_initialize R container1 of
                  None \<Rightarrow> None
                | Some (Inl e, _) \<Rightarrow> Some (Inl (AppDependencyInjection e))
                | Some (Inr _, container2) \<Rightarrow>
                    (case resolve_routes cfg (ap_registrations module) of
                       Inl e \<Rightarrow> Some (Inl e)
                     | Inr routes \<Rightarrow>
                         Some (Inr \<lparr>app_module = module, app_bootstrap = cfg, app_container = container2,
                           app_module_metadata = ap_metadata module, app_registrations = ap_registrations module,
                           app_routes = routes\<rparr>)))))"

definition startup_lines :: "string \<Rightarrow> string \<Rightarrow> 'v App \<Rightarrow> string list" where
  "startup_lines banner root_module app =
     [banner, ''root module loaded: '' @ root_module, ''routes registered: '' @ show_nat (length (app_routes app)),
      ''listen address: '' @ format_listen_address (so_host (bc_server (app_bootstrap app))) (so_port (bc_server (app_bootstrap app)))]"

section \<open>The server of an application\<close>

definition server_builder :: "'w storage_allow \<Rightarrow> ('w \<Rightarrow> nat) \<Rightarrow> AppBootstrapConfig \<Rightarrow> ('j, 'e, 'w) NivasaServerBuilder" where
  "server_builder storage clock cfg =
     (let b = builder_new storage clock in if so_cors (bc_server cfg) then cors_options b permissive else b)"

definition bootstrap_route where
  "bootstrap_route storage clock cfg method p handler =
     route (server_builder storage clock cfg) method (prefixed_route_path cfg p) handler"

definition route_error :: "RouteMethod \<Rightarrow> RouteDispatchError \<Rightarrow> AppBuildError" where
  "route_error method e =
     (case e of
        DispatchDuplicateRoute m p \<Rightarrow> AppDuplicateRoute m p
      | DispatchUnsupportedPatternSegment p _ \<Rightarrow> AppDuplicateRoute (method_as_str method) p)"

definition add_app_route where
  "add_app_route J H b r handler =
     map_sum (route_error (ar_method r)) id
       (if ar_skip_throttle r then route b (ar_method r) (ar_path r) handler
        else
          case ar_throttle r of
            Some throttle \<Rightarrow> route_with_throttle J H b (ar_method r) (ar_path r) handler (rtr_limit throttle) (rtr_ttl_secs throttle)
          | None \<Rightarrow> route b (ar_method r) (ar_path r) handler)"

fun add_app_routes where
  "add_app_routes J H resolve_handler [] b = Inr b"
| "add_app_routes J H resolve_handler (r # rs) b =
     (case resolve_handler r of
        None \<Rightarrow> Inl (MissingRouteHandler (ar_handler r))
      | Some handler \<Rightarrow>
          (case add_app_route J H b r handler of
             Inl e \<Rightarrow> Inl e
           | Inr b1 \<Rightarrow> add_app_routes J H resolve_handler rs b1))"

definition to_server ::
  "'j JsonOps \<Rightarrow> 'j HttpOps \<Rightarrow> 'w storage_allow \<Rightarrow> ('w \<Rightarrow> nat) \<Rightarrow> AppBootstrapConfig \<Rightarrow> AppRoute list \<Rightarrow>
   (AppRoute \<Rightarrow> ('j, 'w) RouteHandler option) \<Rightarrow> AppBuildError + ('j, 'e, 'w) NivasaServer" where
  "to_server J H storage clock cfg routes resolve_handler =
     map_sum id server_build (add_app_routes J H resolve_handler routes (server_builder storage clock cfg))"

definition controller_lookup_path :: "string option \<Rightarrow> string \<Rightarrow> string" where
  "controller_lookup_path prefix0 p0 =
     (let p = normalize_route_path p0
      in case prefix0 of
           None \<Rightarrow> p
         | Some prefix1 \<Rightarrow>
             let prefix = normalize_route_path prefix1
             in if prefix = ''/'' then p
                else if p = prefix then ''/''
                else
                  case strip_prefix p prefix of
                    None \<Rightarrow> p
                  | Some rest0 \<Rightarrow>
                      (case strip_prefix rest0 ''/'' of
                         None \<Rightarrow> p
                       | Some rest \<Rightarrow> if rest = [] then ''/'' else ''/'' @ rest))"

text \<open>The server that \<open>App::listen\<close> starts: handlers come from the registry of the macros.\<close>

definition listen_handler :: "AppBootstrapConfig \<Rightarrow> 'f HandlerRegistry \<Rightarrow> AppRoute \<Rightarrow> 'f option" where
  "listen_handler cfg reg r =
     resolve_controller_route_handler reg (controller_lookup_path (global_prefix cfg) (ar_path r)) (ar_handler r)"

definition listen_server where
  "listen_server J H storage clock cfg reg routes = to_server J H storage clock cfg routes (listen_handler cfg reg)"

section \<open>Prefixes and paths\<close>

definition plain :: "string \<Rightarrow> bool" where
  "plain s \<longleftrightarrow> (\<forall>c \<in> set s. \<not> is_whitespace c)"

text \<open>A path without the slashes around it.\<close>

abbreviation core :: "string \<Rightarrow> string" where
  "core s \<equiv> trim_matches is_slash s"

lemma plain_append [simp]: "plain (s @ t) \<longleftrightarrow> plain s \<and> plain t"
  by (auto simp: plain_def)

lemma plain_slash [simp]: "plain (CHR ''/'' # t) \<longleftrightarrow> plain t" "plain []"
  by (auto simp: plain_def is_whitespace_def)

lemma plain_trim [simp]: "plain s \<Longrightarrow> trim s = s"
  by (simp add: plain_def trim_id)

lemma plain_core [simp]: "plain s \<Longrightarrow> plain (core s)"
  using set_trim_matches [of is_slash s] by (auto simp: plain_def)

lemma core_slash [simp]: "core (CHR ''/'' # t) = core t" "core [] = []"
  by (simp_all add: trim_matches_def trim_start_matches_def)

lemma core_ends: "core s = [] \<or> (\<not> is_slash (hd (core s)) \<and> \<not> is_slash (last (core s)))"
proof (cases "dropWhile is_slash s")
  case (Cons c t)
  then have c: "\<not> is_slash c" using hd_dropWhile [of is_slash s] by simp
  moreover obtain u where u: "core s = c # u"
    using trim_end_matches_head [of is_slash c t] c Cons by (auto simp: trim_matches_def trim_start_matches_def)
  moreover have "\<not> is_slash (last (core s))"
    using u trim_end_matches_last [of is_slash "trim_start_matches is_slash s"] by (simp add: trim_matches_def)
  ultimately show ?thesis by simp
next
  case Nil
  then have "core s = []" unfolding trim_matches_def trim_start_matches_def by (simp only: trim_end_matches_Nil)
  then show ?thesis by simp
qed

lemma core_fix: "s \<noteq> [] \<Longrightarrow> \<not> is_slash (hd s) \<Longrightarrow> \<not> is_slash (last s) \<Longrightarrow> core s = s"
proof -
  assume a: "s \<noteq> []" "\<not> is_slash (hd s)" "\<not> is_slash (last s)"
  from a(1,2) have "trim_start_matches is_slash s = s" by (cases s) (simp_all add: trim_start_matches_def)
  moreover from a(1,3) have "trim_end_matches is_slash s = s"
    by (cases s rule: rev_cases) (simp_all add: trim_end_matches_snoc)
  ultimately show ?thesis by (simp add: trim_matches_def)
qed

lemma core_idem [simp]: "core (core s) = core s"
  using core_fix [of "core s"] core_ends [of s] by (cases "core s = []") auto

lemma core_middle: "core a \<noteq> [] \<Longrightarrow> core b \<noteq> [] \<Longrightarrow> core (core a @ CHR ''/'' # core b) = core a @ CHR ''/'' # core b"
  using core_ends [of a] core_ends [of b] by (intro core_fix) (auto simp: hd_append)

lemma normalize_route_path_core: "plain s \<Longrightarrow> normalize_route_path s = CHR ''/'' # core s"
  by (auto simp: normalize_route_path_def trim_matches_def trim_start_matches_def)

lemma core_snoc [simp]: "core (s @ ''/'') = core s"
proof (cases "\<forall>c \<in> set s. is_slash c")
  case True
  then have "dropWhile is_slash s = []" "dropWhile is_slash (s @ ''/'') = []" by (auto simp: dropWhile_eq_Nil_conv)
  then show ?thesis unfolding trim_matches_def trim_start_matches_def by (simp only: trim_end_matches_Nil)
next
  case False
  then obtain c where "c \<in> set s" "\<not> is_slash c" by blast
  then have "dropWhile is_slash (s @ ''/'') = dropWhile is_slash s @ ''/''" by (rule dropWhile_append1)
  then show ?thesis unfolding trim_matches_def trim_start_matches_def by (simp add: trim_end_matches_snoc)
qed

lemma core_slashes: "\<forall>c \<in> set u. is_slash c \<Longrightarrow> core (u @ s) = core s" "\<forall>c \<in> set u. is_slash c \<Longrightarrow> core (s @ u) = core s"
proof -
  show "\<forall>c \<in> set u. is_slash c \<Longrightarrow> core (u @ s) = core s" by (induction u) simp_all
  show "\<forall>c \<in> set u. is_slash c \<Longrightarrow> core (s @ u) = core s"
  proof (induction u rule: rev_induct)
    case (snoc x xs)
    then show ?case using core_snoc [of "s @ xs"] by simp
  qed simp
qed

lemma core_split: "\<exists>u v. s = u @ core s @ v \<and> (\<forall>c \<in> set (u @ v). is_slash c)"
proof -
  obtain v where v: "dropWhile is_slash s = core s @ v" "\<forall>c \<in> set v. is_slash c"
    using trim_end_matches_decomp [of "dropWhile is_slash s" is_slash] unfolding trim_matches_def trim_start_matches_def by blast
  have "s = takeWhile is_slash s @ core s @ v" using v(1) takeWhile_dropWhile_id [of is_slash s] by simp
  moreover have "\<forall>c \<in> set (takeWhile is_slash s @ v). is_slash c" using v(2) by (auto dest: set_takeWhileD)
  ultimately show ?thesis by blast
qed

text \<open>A normalised prefix is slashes and a core, or one slash.\<close>

lemma trim_end_slashes:
  assumes "core s \<noteq> []" and "\<forall>c \<in> set v. is_slash c"
  shows "trim_end_matches is_slash (u @ core s @ v) = u @ core s"
  using assms(2)
proof (induction v rule: rev_induct)
  case Nil
  have "u @ core s = (u @ butlast (core s)) @ [last (core s)]" using assms(1) by simp
  then show ?case using core_ends [of s] assms(1) trim_end_matches_snoc [of is_slash "u @ butlast (core s)" "last (core s)"] by simp
next
  case (snoc x xs)
  then show ?case using trim_end_matches_snoc [of is_slash "u @ core s @ xs" x] by simp
qed

lemma normalized_prefix:
  assumes "plain s" and "normalize_path_prefix s \<noteq> []"
  shows "(core s = [] \<and> normalize_path_prefix s = ''/'') \<or>
    (core s \<noteq> [] \<and> (\<exists>u. normalize_path_prefix s = u @ core s \<and> (\<forall>c \<in> set u. is_slash c) \<and> u \<noteq> []))"
proof -
  let ?p = "if starts_with s ''/'' then s else ''/'' @ s"
  have n: "normalize_path_prefix s = (if length ?p > 1 then trim_end_matches is_slash ?p else ?p)"
    using assms by (auto simp: normalize_path_prefix_def Let_def split: if_splits)
  obtain u v where d: "?p = u @ core ?p @ v" "\<forall>c \<in> set (u @ v). is_slash c" using core_split by blast
  have c: "core ?p = core s" by simp
  show ?thesis
  proof (cases "core s = []")
    case True
    then have "\<forall>c \<in> set ?p. is_slash c" using d c by (metis append_Nil)
    then have e: "trim_end_matches is_slash ?p = []" by (auto simp: trim_end_matches_def dropWhile_eq_Nil_conv)
    have "\<not> length ?p > 1"
    proof
      assume "length ?p > 1"
      then have "normalize_path_prefix s = trim_end_matches is_slash ?p" unfolding n by (rule if_P)
      then show False using e assms(2) by (simp only: simp_thms)
    qed
    then have "?p = ''/''" by (cases s) (auto simp: starts_with_Cons split: if_splits)
    then show ?thesis using True n \<open>\<not> length ?p > 1\<close> by simp
  next
    case False
    have "\<forall>c \<in> set v. is_slash c" using d(2) by simp
    then have t: "trim_end_matches is_slash (u @ core s @ v) = u @ core s" by (rule trim_end_slashes [OF False])
    have whole: "?p = u @ core s @ v" using d(1) unfolding c .
    have "u \<noteq> []"
    proof
      assume "u = []"
      then have "hd ?p = hd (core s)" unfolding whole using False by simp
      moreover have "hd ?p = CHR ''/''" by (cases s) (auto simp: starts_with_Cons split: if_splits)
      ultimately show False using core_ends [of s] False by simp
    qed
    have "length ?p = length u + length (core s) + length v" unfolding whole by simp
    moreover have "length u > 0" "length (core s) > 0" using \<open>u \<noteq> []\<close> False by (simp_all only: length_greater_0_conv simp_thms)
    ultimately have "length ?p > 1" by arith
    then have "normalize_path_prefix s = u @ core s" using t n unfolding whole by (simp only: if_True simp_thms)
    then show ?thesis using False d(2) \<open>u \<noteq> []\<close> by auto
  qed
qed

text \<open>The configurations whose prefix was set by \<open>with_global_prefix\<close>, without white space in it.\<close>

definition configured :: "AppBootstrapConfig \<Rightarrow> bool" where
  "configured cfg \<longleftrightarrow> (\<exists>so s. plain s \<and> global_prefix cfg = so_global_prefix (with_global_prefix so s))"

lemma lookup_prefixed_at:
  assumes "plain s" and "plain p" and cfg: "global_prefix cfg = so_global_prefix (with_global_prefix so s)"
  shows "controller_lookup_path (global_prefix cfg) (prefixed_route_path cfg p) = normalize_route_path p"
proof -
  let ?g = "normalize_path_prefix s"
  have p: "normalize_route_path p = CHR ''/'' # core p" using assms(2) by (rule normalize_route_path_core)
  have again: "normalize_route_path (CHR ''/'' # core p) = CHR ''/'' # core p"
    using normalize_route_path_core [of "CHR ''/'' # core p"] assms(2) by simp
  show ?thesis
  proof (cases "?g = []")
    case True
    then show ?thesis
      by (simp add: cfg with_global_prefix_def prefixed_route_path_def controller_lookup_path_def p again)
  next
    case False
    have so: "global_prefix cfg = Some ?g"
      and route: "prefixed_route_path cfg p = (if core p = [] then ?g else ?g @ CHR ''/'' # core p)"
      using False by (simp_all add: cfg with_global_prefix_def prefixed_route_path_def p)
    show ?thesis
      using normalized_prefix [OF assms(1) False]
    proof
      assume g: "core s = [] \<and> ?g = ''/''"
      have "normalize_route_path ''/'' = ''/''" using normalize_route_path_core [of "''/''"] by simp
      moreover have "normalize_route_path (CHR ''/'' # CHR ''/'' # core p) = CHR ''/'' # core p"
        using normalize_route_path_core [of "CHR ''/'' # CHR ''/'' # core p"] assms(2) by simp
      ultimately show ?thesis using g by (simp add: controller_lookup_path_def so route p)
    next
      assume "core s \<noteq> [] \<and> (\<exists>u. ?g = u @ core s \<and> (\<forall>c \<in> set u. is_slash c) \<and> u \<noteq> [])"
      then obtain u where s: "core s \<noteq> []" and g: "?g = u @ core s" "\<forall>c \<in> set u. is_slash c" by blast
      have "plain u" using g(2) by (auto simp: plain_def is_whitespace_def)
      then have plain_g: "plain ?g" using g(1) assms(1) by simp
      have prefix: "normalize_route_path ?g = CHR ''/'' # core s"
        using normalize_route_path_core [OF plain_g] g core_slashes(1) [OF g(2), of "core s"] by simp
      show ?thesis
      proof (cases "core p = []")
        case True
        then show ?thesis using s by (simp add: controller_lookup_path_def so route prefix p)
      next
        case False
        have "core (?g @ CHR ''/'' # core p) = core s @ CHR ''/'' # core p"
          using g core_slashes(1) [OF g(2), of "core s @ CHR ''/'' # core p"] core_middle [OF s False] by simp
        then have "normalize_route_path (?g @ CHR ''/'' # core p) = CHR ''/'' # core s @ CHR ''/'' # core p"
          using normalize_route_path_core [of "?g @ CHR ''/'' # core p"] plain_g assms(2) by simp
        then show ?thesis using s False
          by (simp add: controller_lookup_path_def so route prefix p strip_prefix_def starts_with_def)
      qed
    qed
  qed
qed

lemma lookup_prefixed:
  "configured cfg \<Longrightarrow> plain p \<Longrightarrow>
   controller_lookup_path (global_prefix cfg) (prefixed_route_path cfg p) = normalize_route_path p"
  unfolding configured_def using lookup_prefixed_at by blast

section \<open>Every route has its handler\<close>

text \<open>The endpoints of controllers: method, path, handler name and action.\<close>

definition endpoints :: "'f GeneratedController list \<Rightarrow> (string \<times> string \<times> string \<times> 'f option) list" where
  "endpoints cs =
     concat (map (\<lambda>c. map (\<lambda>m. (gm_method m, controller_join_route (gc_path c) (gm_path m), gm_handler m, gm_action m))
       (gc_methods c)) cs)"

definition endpoint_key :: "string \<times> string \<times> string \<times> 'f option \<Rightarrow> string" where
  "endpoint_key = (\<lambda>(_, p, h, _). controller_route_handler_key p h)"

definition add_endpoint :: "string \<times> string \<times> string \<times> 'f option \<Rightarrow> 'f HandlerRegistry \<Rightarrow> 'f HandlerRegistry" where
  "add_endpoint x reg = (case snd (snd (snd x)) of Some f \<Rightarrow> reg(endpoint_key x \<mapsto> f) | None \<Rightarrow> reg)"

lemma registrations_endpoints:
  "module_controller_registrations mws cs reg0 = (regs, reg) \<Longrightarrow>
   map (\<lambda>r. (cr_method r, cr_path r, cr_handler r)) (concat (map mc_routes regs)) =
     map (\<lambda>(m, p, h, a). (m, p, h)) (endpoints cs) \<and>
   reg = fold add_endpoint (endpoints cs) reg0"
proof (induction cs arbitrary: reg0 regs reg)
  case Nil
  then show ?case by (simp add: endpoints_def)
next
  case (Cons c cs)
  obtain rs reg2 where rest: "module_controller_registrations mws cs (register_route_handlers c reg0) = (rs, reg2)" by force
  have fields: "cr_method (route_registration ts x) = fst x" "cr_path (route_registration ts x) = fst (snd x)"
    "cr_handler (route_registration ts x) = snd (snd x)" for ts x
    by (auto simp: route_registration_def route_registration_new_def skip_throttle_def with_throttle_def Let_def
        split: prod.splits option.splits)
  have "register_route_handlers c reg0 =
      fold add_endpoint (map (\<lambda>m. (gm_method m, controller_join_route (gc_path c) (gm_path m), gm_handler m, gm_action m)) (gc_methods c)) reg0"
    unfolding register_route_handlers_def fold_map
    by (intro fold_cong) (auto simp: add_endpoint_def endpoint_key_def register_controller_route_handler_def split: option.splits)
  then show ?case
    using Cons.prems Cons.IH [OF rest] rest by (auto simp: controller_routes_def endpoints_def fields o_def)
qed

lemma add_endpoints_other: "k \<notin> endpoint_key ` set xs \<Longrightarrow> fold add_endpoint xs reg k = reg k"
proof (induction xs arbitrary: reg)
  case (Cons x xs)
  then have "fold add_endpoint xs (add_endpoint x reg) k = add_endpoint x reg k" by simp
  moreover have "add_endpoint x reg k = reg k" using Cons.prems by (simp add: add_endpoint_def split: option.splits)
  ultimately show ?case by simp
qed simp

lemma add_endpoints_own:
  "distinct (map endpoint_key xs) \<Longrightarrow> (m, p, h, Some f) \<in> set xs \<Longrightarrow>
   fold add_endpoint xs reg (controller_route_handler_key p h) = Some f"
proof (induction xs arbitrary: reg)
  case (Cons x xs)
  show ?case
  proof (cases "x = (m, p, h, Some f)")
    case True
    then have "endpoint_key x = controller_route_handler_key p h" by (simp add: endpoint_key_def)
    moreover from this True have "add_endpoint x reg (controller_route_handler_key p h) = Some f" by (simp add: add_endpoint_def)
    ultimately show ?thesis using Cons.prems(1) by (simp add: add_endpoints_other)
  next
    case False
    then show ?thesis using Cons by simp
  qed
qed simp

lemma resolved_routes:
  "resolve_app_routes cfg rs seen = Inr routes \<Longrightarrow>
   list_all2 (\<lambda>r a. ar_method a = parse_method (cr_method r) \<and> ar_path a = prefixed_route_path cfg (cr_path r) \<and> ar_handler a = cr_handler r)
     rs routes \<and>
   distinct (map (\<lambda>a. (ar_method a, ar_path a)) routes) \<and> (\<forall>a \<in> set routes. (ar_method a, ar_path a) \<notin> set seen)"
proof (induction rs arbitrary: seen routes)
  case (Cons r rs)
  let ?k = "(parse_method (cr_method r), prefixed_route_path cfg (cr_path r))"
  from Cons.prems obtain rest where "resolve_app_routes cfg rs (?k # seen) = Inr rest" and new: "?k \<notin> set seen"
    and routes: "routes = \<lparr>ar_method = fst ?k, ar_path = snd ?k, ar_handler = cr_handler r, ar_throttle = cr_throttle r,
      ar_skip_throttle = cr_skip_throttle r\<rparr> # rest"
    by (auto simp: Let_def map_sum_def split: if_splits sum.splits)
  with Cons.IH [of "?k # seen" rest] show ?case by auto
qed simp

lemma registered_routes:
  assumes mc: "module_controller_registrations mws cs reg0 = (regs, reg)" and routes: "resolve_routes cfg regs = Inr routes"
  shows "list_all2 (\<lambda>(m, p, h, a) r. ar_method r = parse_method m \<and> ar_path r = prefixed_route_path cfg p \<and> ar_handler r = h)
      (endpoints cs) routes"
    and "distinct (map (\<lambda>r. (ar_method r, ar_path r)) routes)"
    and "reg = fold add_endpoint (endpoints cs) reg0"
proof -
  let ?rs = "concat (map mc_routes regs)"
  note ends = registrations_endpoints [OF mc]
  have r: "list_all2 (\<lambda>r a. ar_method a = parse_method (cr_method r) \<and> ar_path a = prefixed_route_path cfg (cr_path r) \<and>
      ar_handler a = cr_handler r) ?rs routes"
    and d: "distinct (map (\<lambda>r. (ar_method r, ar_path r)) routes)"
    using resolved_routes [of cfg ?rs "[]" routes] routes by (auto simp: resolve_routes_def)
  then show "distinct (map (\<lambda>r. (ar_method r, ar_path r)) routes)" by simp
  show "reg = fold add_endpoint (endpoints cs) reg0" using ends by simp
  have "list_all2 (\<lambda>(m, p, h) a. ar_method a = parse_method m \<and> ar_path a = prefixed_route_path cfg p \<and> ar_handler a = h)
      (map (\<lambda>r. (cr_method r, cr_path r, cr_handler r)) ?rs) routes"
    using r by (simp add: list_all2_map1)
  then have "list_all2 (\<lambda>(m, p, h) a. ar_method a = parse_method m \<and> ar_path a = prefixed_route_path cfg p \<and> ar_handler a = h)
      (map (\<lambda>(m, p, h, a). (m, p, h)) (endpoints cs)) routes"
    using ends by simp
  then show "list_all2 (\<lambda>(m, p, h, a) r. ar_method r = parse_method m \<and> ar_path r = prefixed_route_path cfg p \<and> ar_handler r = h)
      (endpoints cs) routes"
    by (simp add: list_all2_map1 case_prod_unfold)
qed

lemma listen_handler_at:
  assumes "configured cfg" and "plain p" and "ar_path r = prefixed_route_path cfg p"
  shows "listen_handler cfg reg r = reg (controller_route_handler_key (normalize_route_path p) (ar_handler r))"
  using assms by (simp add: listen_handler_def resolve_controller_route_handler_def lookup_prefixed)

text \<open>C25: A started application calls what was declared. When the routes of a module's controllers resolve, there is one
  route for each declared method in the order of declaration, no two with the same HTTP method and path, and the
  handler that \<open>App::listen\<close> looks up for it, by path and name in the registry the macros filled, is the action of
  exactly that method: with any global prefix, provided that the declared paths are in normal form, that every action
  can be generated, and that no two methods share both full path and function name.
\<close>

theorem listen_finds_actions:
  assumes "module_controller_registrations mws cs reg0 = (regs, reg)" and "resolve_routes cfg regs = Inr routes"
    and "configured cfg"
    and "\<forall>(m, p, h, a) \<in> set (endpoints cs). plain p \<and> normalize_route_path p = p \<and> a \<noteq> None"
    and "distinct (map endpoint_key (endpoints cs))"
  shows "list_all2 (\<lambda>(m, p, h, a) r. ar_method r = parse_method m \<and> ar_path r = prefixed_route_path cfg p \<and>
        ar_handler r = h \<and> listen_handler cfg reg r = a) (endpoints cs) routes \<and>
      distinct (map (\<lambda>r. (ar_method r, ar_path r)) routes)"
proof -
  note rr = registered_routes [OF assms(1,2)]
  have own: "listen_handler cfg reg r = a"
    if "(m, p, h, a) \<in> set (endpoints cs)" "ar_path r = prefixed_route_path cfg p" "ar_handler r = h" for m p h a r
  proof -
    have "plain p \<and> normalize_route_path p = p \<and> a \<noteq> None" using bspec [OF assms(4) that(1)] by simp
    then obtain f where f: "a = Some f" and p: "plain p" "normalize_route_path p = p" by blast
    show ?thesis
      unfolding listen_handler_at [OF assms(3) p(1) that(2)] that(3) p(2) f rr(3)
      by (rule add_endpoints_own [OF assms(5)]) (use that(1) f in simp)
  qed
  have "list_all2 (\<lambda>(m, p, h, a) r. ar_method r = parse_method m \<and> ar_path r = prefixed_route_path cfg p \<and>
      ar_handler r = h \<and> listen_handler cfg reg r = a) (endpoints cs) routes"
    using rr(1)
  proof (rule list.rel_mono_strong, goal_cases)
    case (1 x r)
    then show ?case
      using own [of "fst x" "fst (snd x)" "fst (snd (snd x))" "snd (snd (snd x))" r] by (simp add: case_prod_unfold)
  qed
  then show ?thesis using rr(2) by simp
qed

lemma missing_handler_fails:
  "r \<in> set routes \<Longrightarrow> resolve_handler r = None \<Longrightarrow> \<exists>e. add_app_routes J H resolve_handler routes b = Inl e"
  by (induction routes arbitrary: b) (auto split: option.splits sum.splits)

lemma endpoint_route:
  assumes "module_controller_registrations mws cs reg0 = (regs, reg)" and "resolve_routes cfg regs = Inr routes"
    and "(m, p, h, a) \<in> set (endpoints cs)"
  obtains r where "r \<in> set routes" "ar_method r = parse_method m" "ar_path r = prefixed_route_path cfg p" "ar_handler r = h"
proof -
  obtain i where i: "i < length (endpoints cs)" "endpoints cs ! i = (m, p, h, a)" using assms(3) by (metis in_set_conv_nth)
  with list_all2_nthD [OF registered_routes(1) [OF assms(1,2)] i(1)] list_all2_lengthD [OF registered_routes(1) [OF assms(1,2)]]
  show thesis using that [of "routes ! i"] by auto
qed

text \<open>C26: A controller whose full path is not in normal form keeps the whole application from starting. Handlers are
  registered under the path as the macros join it, but looked up under the normalised path; when these differ (a
  trailing slash as in \<open>#[get("list/")]\<close>, a controller path without its leading slash) and no other method happens to be
  registered under the normalised path and the same name, building the server to listen with fails.
\<close>

theorem unnormalized_path_never_listens:
  fixes J :: "'j JsonOps" and H :: "'j HttpOps" and storage :: "'w storage_allow"
  assumes "module_controller_registrations mws cs Map.empty = (regs, reg)" and "resolve_routes cfg regs = Inr routes"
    and "configured cfg" and "(m, p, h, a) \<in> set (endpoints cs)" and "plain p"
    and "controller_route_handler_key (normalize_route_path p) h \<notin> endpoint_key ` set (endpoints cs)"
  shows "\<exists>e. listen_server J H storage clock cfg reg routes = (Inl e :: AppBuildError + ('j, 'e, 'w) NivasaServer)"
proof -
  obtain r where r: "r \<in> set routes" "ar_path r = prefixed_route_path cfg p" "ar_handler r = h"
    by (rule endpoint_route [OF assms(1,2,4)])
  have none: "listen_handler cfg reg r = None"
    using listen_handler_at [OF assms(3,5) r(2), of reg] r(3) registered_routes(3) [OF assms(1,2)] add_endpoints_other [OF assms(6), of Map.empty]
    by simp
  have "\<exists>e. add_app_routes J H (listen_handler cfg reg) routes (server_builder storage clock cfg :: ('j, 'e, 'w) NivasaServerBuilder) = Inl e"
    using r(1) none by (rule missing_handler_fails)
  then show ?thesis by (auto simp: listen_server_def to_server_def)
qed

text \<open>The key of a handler holds neither the HTTP method nor the controller, so two controllers that declare methods of
  the same name on the same path, for different HTTP methods, share one entry: requests of the first are answered by the
  action of the second.
\<close>

theorem shared_name_serves_other_action:
  assumes "module_controller_registrations mws cs reg0 = (regs, reg)" and "resolve_routes cfg regs = Inr routes"
    and "configured cfg" and "endpoints cs = xs @ (m2, p, h, Some f2) # ys"
    and "controller_route_handler_key p h \<notin> endpoint_key ` set ys"
    and "(m1, p, h, Some f1) \<in> set xs" and "plain p" and "normalize_route_path p = p"
  shows "\<exists>r \<in> set routes. ar_method r = parse_method m1 \<and> ar_path r = prefixed_route_path cfg p \<and> listen_handler cfg reg r = Some f2"
proof -
  have "(m1, p, h, Some f1) \<in> set (endpoints cs)" using assms(4,6) by simp
  then obtain r where r: "r \<in> set routes" "ar_method r = parse_method m1" "ar_path r = prefixed_route_path cfg p" "ar_handler r = h"
    by (rule endpoint_route [OF assms(1,2)])
  have "reg (controller_route_handler_key p h) = Some f2"
    using registered_routes(3) [OF assms(1,2)] add_endpoints_other [OF assms(5), of "add_endpoint (m2, p, h, Some f2) (fold add_endpoint xs reg0)"]
    unfolding assms(4) by (simp add: add_endpoint_def endpoint_key_def)
  then have "listen_handler cfg reg r = Some f2"
    using listen_handler_at [OF assms(3,7) r(3), of reg] assms(8) r(4) by simp
  then show ?thesis using r by blast
qed

section \<open>Examples\<close>

definition demo_config :: AppBootstrapConfig where
  "demo_config = bootstrap_config_new (with_global_prefix (server_options_new ''localhost'' 3000) ''api/'')"

definition demo_controller :: "string \<Rightarrow> 'f \<Rightarrow> 'f \<Rightarrow> 'f GeneratedController" where
  "demo_controller p f g =
     \<lparr>gc_type = 1, gc_path = ''/users'',
      gc_methods = [\<lparr>gm_method = ''GET'', gm_path = p, gm_handler = ''list'', gm_action = Some f\<rparr>,
        \<lparr>gm_method = ''POST'', gm_path = ''/'', gm_handler = ''create'', gm_action = Some g\<rparr>],
      gc_throttle_metadata = []\<rparr>"

lemma demo_configured: "configured demo_config"
  unfolding configured_def demo_config_def
  by (rule exI [of _ "server_options_new ''localhost'' 3000"], rule exI [of _ "''api/''"])
    (simp add: plain_def is_whitespace_def global_prefix_def bootstrap_config_new_def)

lemma demo_facts:
  "parse_method ''GET'' = Get" "parse_method ''POST'' = Post"
  "prefixed_route_path demo_config ''/users'' = ''/api/users''" "prefixed_route_path demo_config ''/users/list'' = ''/api/users/list''"
  "prefixed_route_path demo_config ''/users/list/'' = ''/api/users/list''"
  "controller_join_route ''/users'' ''/'' = ''/users''" "controller_join_route ''/users'' ''/list'' = ''/users/list''"
  "controller_join_route ''/users'' ''list/'' = ''/users/list/''"
  "normalize_route_path ''/users'' = ''/users''" "normalize_route_path ''/users/list'' = ''/users/list''"
  "normalize_route_path ''/users/list/'' = ''/users/list''"
  "endpoint_key (m, ''/users'', ''create'', a) = ''/users::create''" "endpoint_key (m, ''/users/list'', ''list'', a) = ''/users/list::list''"
  "endpoint_key (m, ''/users/list/'', ''list'', a) = ''/users/list/::list''"
  by (simp_all add: endpoint_key_def) code_simp+

lemma demo_endpoints:
  "endpoints [demo_controller ''/list'' f g] = [(''GET'', ''/users/list'', ''list'', Some f), (''POST'', ''/users'', ''create'', Some g)]"
  "endpoints [demo_controller ''list/'' f g] = [(''GET'', ''/users/list/'', ''list'', Some f), (''POST'', ''/users'', ''create'', Some g)]"
  by (simp_all add: endpoints_def demo_controller_def demo_facts)

definition demo_registrations :: "string \<Rightarrow> ModuleControllerRegistration list" where
  "demo_registrations p = fst (module_controller_registrations [] [demo_controller p (1 :: nat) 2] Map.empty)"

lemma demo_registered:
  "\<exists>reg. module_controller_registrations [] [demo_controller p (f :: 'f) g] Map.empty = (demo_registrations p, reg)"
  by (simp add: demo_registrations_def demo_controller_def controller_routes_def)

definition demo_routes :: "AppRoute list" where
  "demo_routes =
     [\<lparr>ar_method = Get, ar_path = ''/api/users/list'', ar_handler = ''list'', ar_throttle = None, ar_skip_throttle = False\<rparr>,
      \<lparr>ar_method = Post, ar_path = ''/api/users'', ar_handler = ''create'', ar_throttle = None, ar_skip_throttle = False\<rparr>]"

lemma demo_resolved:
  "resolve_routes demo_config (demo_registrations ''/list'') = Inr demo_routes"
  "resolve_routes demo_config (demo_registrations ''list/'') = Inr demo_routes"
  by (simp_all add: demo_registrations_def demo_controller_def controller_routes_def resolve_routes_def route_registration_def
      route_registration_new_def demo_facts demo_routes_def Let_def)

theorem listen_finds_actions_witness:
  "\<exists>reg. module_controller_registrations [] [demo_controller ''/list'' (1 :: nat) 2] Map.empty = (demo_registrations ''/list'', reg) \<and>
     map (listen_handler demo_config reg) demo_routes = [Some 1, Some 2]"
proof -
  obtain reg where reg: "module_controller_registrations [] [demo_controller ''/list'' (1 :: nat) 2] Map.empty = (demo_registrations ''/list'', reg)"
    using demo_registered [of "''/list''" "1 :: nat" 2] by (rule exE)
  have "plain ''/users''" "plain ''/users/list''" by (simp_all add: plain_def is_whitespace_def)
  then show ?thesis
    using listen_finds_actions [OF reg demo_resolved(1) demo_configured] reg
    by (auto simp: demo_endpoints demo_facts demo_routes_def)
qed

theorem unnormalized_path_never_listens_witness:
  "\<forall>(J :: 'j JsonOps) (H :: 'j HttpOps) (storage :: 'w storage_allow) clock f g. \<exists>reg.
     module_controller_registrations [] [demo_controller ''list/'' f g] Map.empty = (demo_registrations ''list/'', reg) \<and>
     (\<exists>e. listen_server J H storage clock demo_config reg demo_routes = (Inl e :: AppBuildError + ('j, 'e, 'w) NivasaServer))"
proof (intro allI)
  fix J :: "'j JsonOps" and H :: "'j HttpOps" and storage :: "'w storage_allow" and clock and f g :: "('j, 'w) RouteHandler"
  obtain reg where reg: "module_controller_registrations [] [demo_controller ''list/'' f g] Map.empty = (demo_registrations ''list/'', reg)"
    using demo_registered [of "''list/''" f g] by (rule exE)
  have key: "controller_route_handler_key (normalize_route_path ''/users/list/'') ''list'' = ''/users/list::list''"
    unfolding demo_facts by code_simp
  have plain: "plain ''/users/list/''" by code_simp
  have "\<exists>e. listen_server J H storage clock demo_config reg demo_routes = (Inl e :: AppBuildError + ('j, 'e, 'w) NivasaServer)"
    by (rule unnormalized_path_never_listens [OF reg demo_resolved(2) demo_configured, of "''GET''" "''/users/list/''" "''list''" "Some f"])
      (simp_all add: demo_endpoints demo_facts(12-) key plain del: plain_slash)
  with reg show "\<exists>reg. module_controller_registrations [] [demo_controller ''list/'' f g] Map.empty = (demo_registrations ''list/'', reg) \<and>
     (\<exists>e. listen_server J H storage clock demo_config reg demo_routes = (Inl e :: AppBuildError + ('j, 'e, 'w) NivasaServer))"
    by blast
qed

definition demo_clash :: "nat GeneratedController list" where
  "demo_clash =
     [\<lparr>gc_type = 1, gc_path = ''/users'',
       gc_methods = [\<lparr>gm_method = ''GET'', gm_path = [], gm_handler = ''run'', gm_action = Some 1\<rparr>], gc_throttle_metadata = []\<rparr>,
      \<lparr>gc_type = 2, gc_path = ''/users'',
       gc_methods = [\<lparr>gm_method = ''POST'', gm_path = [], gm_handler = ''run'', gm_action = Some 2\<rparr>], gc_throttle_metadata = []\<rparr>]"

theorem shared_name_serves_other_action_witness:
  "\<exists>regs reg routes. module_controller_registrations [] demo_clash Map.empty = (regs, reg) \<and>
     resolve_routes demo_config regs = Inr routes \<and>
     (\<exists>r \<in> set routes. ar_method r = Get \<and> ar_path r = ''/api/users'' \<and> listen_handler demo_config reg r = Some 2)"
proof -
  let ?m = "module_controller_registrations [] demo_clash Map.empty"
  have j: "controller_join_route ''/users'' [] = ''/users''" by code_simp
  have ends: "endpoints demo_clash = [(''GET'', ''/users'', ''run'', Some 1)] @ (''POST'', ''/users'', ''run'', Some 2) # []"
    by (simp add: endpoints_def demo_clash_def j)
  have m: "?m = (fst ?m, snd ?m)" by simp
  have "\<exists>routes. resolve_routes demo_config (fst ?m) = Inr routes"
    by (simp add: demo_clash_def controller_routes_def resolve_routes_def route_registration_def
      route_registration_new_def demo_facts j Let_def)
  then obtain routes where routes: "resolve_routes demo_config (fst ?m) = Inr routes" by (rule exE)
  have "plain ''/users''" by code_simp
  then have "\<exists>r \<in> set routes. ar_method r = Get \<and> ar_path r = ''/api/users'' \<and> listen_handler demo_config (snd ?m) r = Some 2"
    using shared_name_serves_other_action [OF m routes demo_configured ends, of "''GET''" 1] by (simp add: demo_facts)
  then show ?thesis using m routes by blast
qed

end
