(* ===== verification/Upload.thy ===== *)
theory Upload
  imports Http_Middleware "HOL-Library.Sublist"
begin

text \<open>
  Uploads (\<open>nivasa-http/src/upload.rs\<close>): limits, the parser of multipart bodies, the extraction of one file or of all
  files of a field. The boundary parameter of a content type is read by the crate \<open>multer\<close>, a parameter; UTF-8 is that of
  \<open>HttpOps\<close>. Sizes are lengths of lists, limits are 64-bit words.
\<close>

record UploadedFile =
  uf_filename :: string
  uf_content_type :: "string option"
  uf_bytes :: bytes

record MultipartLimits =
  ml_whole_stream :: "64 word option"
  ml_per_field :: "64 word option"
  ml_field_limits :: "string \<rightharpoonup> 64 word"
  ml_allowed_fields :: "string list"
  ml_allowed_mime_types :: "string list"

definition limits_new :: MultipartLimits where
  "limits_new =
     \<lparr>ml_whole_stream = None, ml_per_field = None, ml_field_limits = Map.empty, ml_allowed_fields = [], ml_allowed_mime_types = []\<rparr>"

definition whole_stream :: "MultipartLimits \<Rightarrow> 64 word \<Rightarrow> MultipartLimits" where
  "whole_stream l n = l\<lparr>ml_whole_stream := Some n\<rparr>"

definition per_field :: "MultipartLimits \<Rightarrow> 64 word \<Rightarrow> MultipartLimits" where
  "per_field l n = l\<lparr>ml_per_field := Some n\<rparr>"

definition field_limit :: "MultipartLimits \<Rightarrow> string \<Rightarrow> 64 word \<Rightarrow> MultipartLimits" where
  "field_limit l field n = l\<lparr>ml_field_limits := (ml_field_limits l)(field \<mapsto> n)\<rparr>"

definition allowed_fields :: "MultipartLimits \<Rightarrow> string list \<Rightarrow> MultipartLimits" where
  "allowed_fields l fs = l\<lparr>ml_allowed_fields := fs\<rparr>"

definition allowed_mime_types :: "MultipartLimits \<Rightarrow> string list \<Rightarrow> MultipartLimits" where
  "allowed_mime_types l ts = l\<lparr>ml_allowed_mime_types := ts\<rparr>"

definition field_limit_for :: "MultipartLimits \<Rightarrow> string \<Rightarrow> 64 word option" where
  "field_limit_for l field = ml_field_limits l field"

definition allows_mime_type :: "MultipartLimits \<Rightarrow> string option \<Rightarrow> bool" where
  "allows_mime_type l mime_type =
     (if ml_allowed_mime_types l = [] then True
      else case mime_type of None \<Rightarrow> False | Some t \<Rightarrow> list_ex (\<lambda>item. item = t) (ml_allowed_mime_types l))"

datatype UploadInterceptError =
    MissingMultipartBoundary
  | InvalidMultipart string
  | UnknownField string
  | MissingFile string
  | TooManyFiles string nat
  | FieldTooLarge string "64 word" nat
  | StreamTooLarge "64 word" nat
  | DisallowedMimeType "string option"

definition upload_error_text :: "UploadInterceptError \<Rightarrow> string" where
  "upload_error_text e =
     (case e of
        MissingMultipartBoundary \<Rightarrow> ''missing multipart boundary in content type''
      | InvalidMultipart err \<Rightarrow> ''invalid multipart payload: '' @ err
      | UnknownField name \<Rightarrow> ''multipart field `'' @ name @ ''` is not allowed''
      | MissingFile field \<Rightarrow> ''missing uploaded file for field `'' @ field @ ''`''
      | TooManyFiles field n \<Rightarrow> ''expected one file for field `'' @ field @ ''`, found '' @ show_nat n
      | FieldTooLarge field limit actual \<Rightarrow>
          ''multipart field `'' @ field @ ''` exceeded size limit '' @ show_nat (unat limit) @ '' bytes with '' @
          show_nat actual @ '' bytes''
      | StreamTooLarge limit actual \<Rightarrow>
          ''multipart payload exceeded size limit '' @ show_nat (unat limit) @ '' bytes with '' @ show_nat actual @ '' bytes''
      | DisallowedMimeType mime_type \<Rightarrow>
          (case mime_type of
             Some t \<Rightarrow> ''multipart MIME type `'' @ t @ ''` is not allowed''
           | None \<Rightarrow> ''multipart file is missing an allowed MIME type''))"

section \<open>Sections\<close>

abbreviation dashes :: bytes where "dashes \<equiv> [0x2D, 0x2D]"
abbreviation crlf :: bytes where "crlf \<equiv> [0x0D, 0x0A]"

fun find_bytes :: "'a list \<Rightarrow> 'a list \<Rightarrow> nat option" where
  "find_bytes [] needle = (if needle = [] then Some 0 else None)"
| "find_bytes (b # bs) needle =
     (if starts_with (b # bs) needle then Some 0 else map_option Suc (find_bytes bs needle))"

definition split_once_bytes :: "bytes \<Rightarrow> bytes \<Rightarrow> (bytes \<times> bytes) option" where
  "split_once_bytes bs delimiter =
     map_option (\<lambda>i. (take i bs, drop (i + length delimiter) bs)) (find_bytes bs delimiter)"

definition strip_suffix :: "'a list \<Rightarrow> 'a list \<Rightarrow> 'a list option" where
  "strip_suffix s p = (if ends_with s p then Some (take (length s - length p) s) else None)"

lemma find_bytes_bound: "find_bytes bs needle = Some i \<Longrightarrow> i + length needle \<le> length bs"
proof (induction bs arbitrary: i)
  case (Cons b bs)
  show ?case
  proof (cases "starts_with (b # bs) needle")
    case True
    then obtain t where "b # bs = needle @ t" by (auto simp: starts_with_iff)
    then have "length needle \<le> length (b # bs)" by simp
    then show ?thesis using True Cons.prems by simp
  next
    case False
    then show ?thesis using Cons by auto
  qed
qed (auto split: if_splits)

definition skip_crlf :: "bytes \<Rightarrow> bytes" where
  "skip_crlf bs = (case strip_prefix bs crlf of Some stripped \<Rightarrow> stripped | None \<Rightarrow> bs)"

definition drop_crlf :: "bytes \<Rightarrow> bytes" where
  "drop_crlf bs = (case strip_suffix bs crlf of Some stripped \<Rightarrow> stripped | None \<Rightarrow> bs)"

lemma crlf_lengths: "length (skip_crlf bs) \<le> length bs" "length (drop_crlf bs) \<le> length bs"
  by (auto simp: skip_crlf_def drop_crlf_def strip_prefix_def strip_suffix_def)

text \<open>The loop over a body. An empty marker cannot occur: it starts with two dashes.\<close>

function multipart_sections :: "bytes \<Rightarrow> bytes \<Rightarrow> UploadInterceptError + bytes list" where
  "multipart_sections rest marker =
     (case find_bytes rest marker of
        None \<Rightarrow> Inr []
      | Some index \<Rightarrow>
          let rest1 = drop (index + length marker) rest
          in if starts_with rest1 dashes \<or> marker = [] then Inr []
             else case find_bytes (skip_crlf rest1) marker of
                    None \<Rightarrow> Inl (InvalidMultipart ''multipart payload is missing a closing boundary'')
                  | Some next_boundary \<Rightarrow>
                      map_sum id ((#) (drop_crlf (take next_boundary (skip_crlf rest1))))
                        (multipart_sections (drop next_boundary (skip_crlf rest1)) marker))"
  by pat_completeness auto
termination
proof (relation "measure (\<lambda>(rest, marker). length rest)", goal_cases)
  case (2 rest marker index rest1 next_boundary)
  then show ?case
    using crlf_lengths(1) [of rest1] find_bytes_bound [OF 2(1)] by (cases marker) auto
qed simp

declare multipart_sections.simps [simp del]

section \<open>Parts\<close>

text \<open>\<open>str::split(&str)\<close>.\<close>

function split_str :: "string \<Rightarrow> string \<Rightarrow> string list" where
  "split_str pat s =
     (case find_bytes s pat of
        None \<Rightarrow> [s]
      | Some i \<Rightarrow> if pat = [] then [s] else take i s # split_str pat (drop (i + length pat) s))"
  by pat_completeness auto
termination
proof (relation "measure (\<lambda>(pat, s). length s)", goal_cases)
  case (2 pat s i)
  then show ?case using find_bytes_bound [of s pat i] by (cases pat) auto
qed simp

declare split_str.simps [simp del]

abbreviation is_double_quote :: "char \<Rightarrow> bool" where
  "is_double_quote c \<equiv> c = CHR 0x22"

record PartHeaders =
  ph_field_name :: "string option"
  ph_filename :: "string option"
  ph_content_type :: "string option"

definition disposition_segment :: "string \<Rightarrow> PartHeaders \<Rightarrow> PartHeaders" where
  "disposition_segment segment0 ph =
     (let segment = trim segment0 in
      case strip_prefix segment ''name='' of
        Some v \<Rightarrow> ph\<lparr>ph_field_name := Some (trim_matches is_double_quote v)\<rparr>
      | None \<Rightarrow>
          (case strip_prefix segment ''filename='' of
             Some v \<Rightarrow> ph\<lparr>ph_filename := Some (trim_matches is_double_quote v)\<rparr>
           | None \<Rightarrow> ph))"

fun part_headers :: "string list \<Rightarrow> PartHeaders \<Rightarrow> UploadInterceptError + PartHeaders" where
  "part_headers [] ph = Inr ph"
| "part_headers (line # lines) ph =
     (case split_once (CHR '':'') line of
        None \<Rightarrow> Inl (InvalidMultipart (''invalid header line `'' @ line @ ''`''))
      | Some (name0, value0) \<Rightarrow>
          let name = trim name0; v = trim value0 in
          part_headers lines
            (if eq_ignore_ascii_case name ''content-disposition''
             then fold disposition_segment (drop 1 (split_on (CHR '';'') v)) ph
             else if eq_ignore_ascii_case name ''content-type'' then ph\<lparr>ph_content_type := Some v\<rparr>
             else ph))"

record ParsedMultipartFile =
  pm_field_name :: string
  pm_file :: UploadedFile

text \<open>What one section contributes: nothing when it has no file name.\<close>

definition parse_section ::
  "'j HttpOps \<Rightarrow> MultipartLimits \<Rightarrow> bytes \<Rightarrow> UploadInterceptError + ParsedMultipartFile option" where
  "parse_section H limits part =
     (case split_once_bytes part (crlf @ crlf) of
        None \<Rightarrow> Inl (InvalidMultipart ''missing header separator'')
      | Some (header_bytes, content) \<Rightarrow>
          (case utf8_text H header_bytes of
             Inl _ \<Rightarrow> Inl (InvalidMultipart ''multipart headers must be valid UTF-8'')
           | Inr headers \<Rightarrow>
               (case part_headers (split_str [CHR 0x0D, CHR 0x0A] headers) \<lparr>ph_field_name = None, ph_filename = None, ph_content_type = None\<rparr> of
                  Inl e \<Rightarrow> Inl e
                | Inr ph \<Rightarrow>
                    (case (ph_field_name ph, ph_filename ph) of
                       (None, _) \<Rightarrow> Inl (InvalidMultipart ''multipart field is missing a name'')
                     | (Some field_name, None) \<Rightarrow> Inr None
                     | (Some field_name, Some filename) \<Rightarrow>
                         if ml_allowed_fields limits \<noteq> [] \<and> \<not> list_ex (\<lambda>field. field = field_name) (ml_allowed_fields limits)
                         then Inl (UnknownField field_name)
                         else if \<not> allows_mime_type limits (ph_content_type ph)
                         then Inl (DisallowedMimeType (ph_content_type ph))
                         else
                           let file = \<lparr>pm_field_name = field_name, pm_file = \<lparr>uf_filename = filename,
                                 uf_content_type = ph_content_type ph, uf_bytes = content\<rparr>\<rparr>
                           in case or_else (field_limit_for limits field_name) (ml_per_field limits) of
                                Some limit \<Rightarrow>
                                  if length content > unat limit then Inl (FieldTooLarge field_name limit (length content))
                                  else Inr (Some file)
                              | None \<Rightarrow> Inr (Some file)))))"

fun parse_sections ::
  "'j HttpOps \<Rightarrow> MultipartLimits \<Rightarrow> bytes list \<Rightarrow> UploadInterceptError + ParsedMultipartFile list" where
  "parse_sections H limits [] = Inr []"
| "parse_sections H limits (part # parts) =
     (case parse_section H limits part of
        Inl e \<Rightarrow> Inl e
      | Inr None \<Rightarrow> parse_sections H limits parts
      | Inr (Some file) \<Rightarrow> map_sum id ((#) file) (parse_sections H limits parts))"

definition parse_uploaded_files ::
  "'j HttpOps \<Rightarrow> (string \<Rightarrow> string option) \<Rightarrow> string \<Rightarrow> bytes \<Rightarrow> MultipartLimits \<Rightarrow>
   UploadInterceptError + ParsedMultipartFile list" where
  "parse_uploaded_files H parse_boundary content_type0 body limits =
     (case parse_boundary content_type0 of
        None \<Rightarrow> Inl MissingMultipartBoundary
      | Some boundary \<Rightarrow>
          let parse = (case multipart_sections body (utf8_bytes H (''--'' @ boundary)) of
                         Inl e \<Rightarrow> Inl e | Inr parts \<Rightarrow> parse_sections H limits parts)
          in case ml_whole_stream limits of
               Some limit \<Rightarrow> if length body > unat limit then Inl (StreamTooLarge limit (length body)) else parse
             | None \<Rightarrow> parse)"

record FileInterceptor =
  fi_field_name :: string
  fi_limits :: MultipartLimits

definition file_interceptor_new :: "string \<Rightarrow> FileInterceptor" where
  "file_interceptor_new field_name = \<lparr>fi_field_name = field_name, fi_limits = limits_new\<rparr>"

definition with_limits :: "FileInterceptor \<Rightarrow> MultipartLimits \<Rightarrow> FileInterceptor" where
  "with_limits fi limits = fi\<lparr>fi_limits := limits\<rparr>"

definition field_files :: "string \<Rightarrow> ParsedMultipartFile list \<Rightarrow> UploadedFile list" where
  "field_files field_name parts = map pm_file (filter (\<lambda>part. pm_field_name part = field_name) parts)"

definition extract_file ::
  "'j HttpOps \<Rightarrow> (string \<Rightarrow> string option) \<Rightarrow> FileInterceptor \<Rightarrow> string \<Rightarrow> bytes \<Rightarrow> UploadInterceptError + UploadedFile" where
  "extract_file H parse_boundary fi content_type0 body =
     (case parse_uploaded_files H parse_boundary content_type0 body (fi_limits fi) of
        Inl e \<Rightarrow> Inl e
      | Inr parts \<Rightarrow>
          (case field_files (fi_field_name fi) parts of
             [] \<Rightarrow> Inl (MissingFile (fi_field_name fi))
           | [file] \<Rightarrow> Inr file
           | files \<Rightarrow> Inl (TooManyFiles (fi_field_name fi) (length files))))"

definition extract_files ::
  "'j HttpOps \<Rightarrow> (string \<Rightarrow> string option) \<Rightarrow> FileInterceptor \<Rightarrow> string \<Rightarrow> bytes \<Rightarrow> UploadInterceptError + UploadedFile list" where
  "extract_files H parse_boundary fi content_type0 body =
     (case parse_uploaded_files H parse_boundary content_type0 body (fi_limits fi) of
        Inl e \<Rightarrow> Inl e
      | Inr parts \<Rightarrow>
          let files = field_files (fi_field_name fi) parts
          in if files = [] then Inl (MissingFile (fi_field_name fi)) else Inr files)"

section \<open>Finding a delimiter\<close>

lemma find_bytes_skip: "x \<notin> set a \<Longrightarrow> find_bytes (a @ s) (x # needle) = map_option ((+) (length a)) (find_bytes s (x # needle))"
  by (induction a) (auto simp: starts_with_Cons option.map_comp o_def map_option_case split: option.splits)

lemma find_bytes_here: "find_bytes (needle @ s) needle = Some 0"
  by (cases "needle @ s") (auto simp: starts_with_iff intro!: exI [of _ s])

lemma find_bytes_first:
  "\<not> sublist needle (a @ butlast needle) \<Longrightarrow> needle \<noteq> [] \<Longrightarrow> find_bytes (a @ needle @ s) needle = Some (length a)"
proof (induction a)
  case Nil
  then show ?case by (simp add: find_bytes_here)
next
  case (Cons x a)
  have "\<not> starts_with (x # a @ needle @ s) needle"
  proof
    assume "starts_with (x # a @ needle @ s) needle"
    then obtain t where "(x # a @ butlast needle) @ last needle # s = needle @ t"
      using Cons.prems(2) by (auto simp: starts_with_iff) (metis append.assoc append_Cons append_Nil append_butlast_last_id)
    then have "prefix needle ((x # a @ butlast needle) @ last needle # s)" by (auto simp: prefix_def)
    then have "prefix needle (x # a @ butlast needle)" by (rule prefix_length_prefix) (use Cons.prems(2) in auto)
    then show False using Cons.prems(1) by (auto intro: prefix_imp_sublist)
  qed
  moreover have "\<not> sublist needle (a @ butlast needle)" using Cons.prems(1) by (auto simp: sublist_Cons_right)
  ultimately show ?case using Cons.IH Cons.prems(2) by simp
qed

section \<open>Limits\<close>

lemma split_once_bytes_sizes: "split_once_bytes bs d = Some (a, b) \<Longrightarrow> length a + length d + length b = length bs"
  using find_bytes_bound by (fastforce simp: split_once_bytes_def)

lemma sections_step:
  assumes "find_bytes rest marker = Some index" and "marker \<noteq> []" and "\<not> starts_with (drop (index + length marker) rest) dashes"
    and "find_bytes (skip_crlf (drop (index + length marker) rest)) marker = Some n"
  shows "multipart_sections rest marker =
     map_sum id ((#) (drop_crlf (take n (skip_crlf (drop (index + length marker) rest)))))
       (multipart_sections (drop n (skip_crlf (drop (index + length marker) rest))) marker)"
  using assms by (subst multipart_sections.simps) (simp add: Let_def del: starts_with_Cons)

lemma sections_size: "multipart_sections rest marker = Inr parts \<Longrightarrow> sum_list (map length parts) \<le> length rest"
proof (induction rest marker arbitrary: parts rule: multipart_sections.induct)
  case (1 rest marker)
  note eq = 1(2) [unfolded multipart_sections.simps [of rest marker]]
  show ?case
  proof (cases "find_bytes rest marker")
    case None
    then show ?thesis using eq by simp
  next
    case (Some index)
    define rest1 where "rest1 = drop (index + length marker) rest"
    show ?thesis
    proof (cases "starts_with rest1 dashes \<or> marker = []")
      case True
      then show ?thesis using eq unfolding Some option.case Let_def rest1_def [symmetric] by simp
    next
      case False
      then obtain n where n: "find_bytes (skip_crlf rest1) marker = Some n"
        using eq unfolding Some option.case Let_def rest1_def [symmetric]
        by (cases "find_bytes (skip_crlf rest1) marker") (auto simp del: starts_with_Cons)
      let ?s = "drop_crlf (take n (skip_crlf rest1))"
      have "multipart_sections rest marker = map_sum id ((#) ?s) (multipart_sections (drop n (skip_crlf rest1)) marker)"
        using sections_step [OF Some] False n unfolding rest1_def by simp
      then obtain ps where ps: "multipart_sections (drop n (skip_crlf rest1)) marker = Inr ps" "parts = ?s # ps"
        using 1(2) by (cases "multipart_sections (drop n (skip_crlf rest1)) marker") auto
      have "sum_list (map length ps) \<le> length (drop n (skip_crlf rest1))"
        by (rule 1(1) [OF Some rest1_def False n ps(1)])
      moreover have "length ?s \<le> length (take n (skip_crlf rest1))" by (rule crlf_lengths)
      moreover have "length (skip_crlf rest1) \<le> length rest"
        using crlf_lengths(1) [of rest1] by (simp add: rest1_def)
      ultimately show ?thesis using ps(2) find_bytes_bound [OF n] by simp
    qed
  qed
qed

definition within_limits :: "MultipartLimits \<Rightarrow> ParsedMultipartFile \<Rightarrow> bool" where
  "within_limits l f \<longleftrightarrow>
     (ml_allowed_fields l = [] \<or> pm_field_name f \<in> set (ml_allowed_fields l)) \<and>
     (ml_allowed_mime_types l = [] \<or> (\<exists>t \<in> set (ml_allowed_mime_types l). uf_content_type (pm_file f) = Some t)) \<and>
     (case (ml_field_limits l (pm_field_name f), ml_per_field l) of
        (Some n, _) \<Rightarrow> length (uf_bytes (pm_file f)) \<le> unat n
      | (None, Some n) \<Rightarrow> length (uf_bytes (pm_file f)) \<le> unat n
      | (None, None) \<Rightarrow> True)"

lemma parse_section_file:
  assumes "parse_section H l part = Inr (Some f)"
  shows "within_limits l f \<and> length (uf_bytes (pm_file f)) \<le> length part"
  using assms
  by (auto simp: parse_section_def Let_def within_limits_def allows_mime_type_def field_limit_for_def or_else_def list_ex_iff
      dest!: split_once_bytes_sizes split: option.splits prod.splits sum.splits if_splits)

lemma parse_sections_files:
  "parse_sections H l parts = Inr files \<Longrightarrow>
   (\<forall>f \<in> set files. within_limits l f) \<and>
   sum_list (map (\<lambda>f. length (uf_bytes (pm_file f))) files) \<le> sum_list (map length parts)"
proof (induction parts arbitrary: files)
  case (Cons part parts)
  then obtain r where r: "parse_section H l part = Inr r" by (cases "parse_section H l part") auto
  show ?case
  proof (cases r)
    case None
    then show ?thesis using Cons r by fastforce
  next
    case (Some f)
    then obtain fs where "parse_sections H l parts = Inr fs" "files = f # fs"
      using Cons.prems r by (cases "parse_sections H l parts") auto
    with Cons.IH [of fs] parse_section_file [of H l part f] r Some show ?thesis by fastforce
  qed
qed simp

text \<open>What an upload hands to a controller keeps to the configured limits: the body is no longer than the limit of the
  whole stream; every file belongs to an allowed field, declares an allowed MIME type and is no longer than the limit of
  its field, or the limit per field when it has none of its own; and all files together are no longer than the body.
  A file interceptor returns a file only when its field has exactly one.\<close>

theorem upload_limits:
  assumes "parse_uploaded_files H parse_boundary ct body l = Inr files"
  shows "(\<forall>n. ml_whole_stream l = Some n \<longrightarrow> length body \<le> unat n) \<and> (\<forall>f \<in> set files. within_limits l f) \<and>
     sum_list (map (\<lambda>f. length (uf_bytes (pm_file f))) files) \<le> length body \<and>
     (\<forall>field up. extract_file H parse_boundary \<lparr>fi_field_name = field, fi_limits = l\<rparr> ct body = Inr up \<longleftrightarrow>
        map pm_file (filter (\<lambda>f. pm_field_name f = field) files) = [up])"
proof -
  obtain boundary where b: "parse_boundary ct = Some boundary"
    using assms by (cases "parse_boundary ct") (simp_all add: parse_uploaded_files_def)
  have whole: "\<forall>n. ml_whole_stream l = Some n \<longrightarrow> length body \<le> unat n"
    using assms b by (auto simp: parse_uploaded_files_def Let_def split: if_splits)
  then obtain parts where "multipart_sections body (utf8_bytes H (''--'' @ boundary)) = Inr parts"
    and "parse_sections H l parts = Inr files"
    using assms b by (auto simp: parse_uploaded_files_def Let_def split: option.splits if_splits sum.splits)
  then have "(\<forall>f \<in> set files. within_limits l f) \<and> sum_list (map (\<lambda>f. length (uf_bytes (pm_file f))) files) \<le> length body"
    using sections_size parse_sections_files le_trans by blast
  moreover have "extract_file H parse_boundary \<lparr>fi_field_name = field, fi_limits = l\<rparr> ct body = Inr up \<longleftrightarrow>
      map pm_file (filter (\<lambda>f. pm_field_name f = field) files) = [up]" for field up
    using assms by (auto simp: extract_file_def field_files_def split: list.splits)
  ultimately show ?thesis using whole by blast
qed

section \<open>Bodies that clients send\<close>

text \<open>A body as browsers write it, one part per file.\<close>

definition quoted_param :: "string \<Rightarrow> string" where
  "quoted_param v = [CHR 0x22] @ v @ [CHR 0x22]"

definition part_header_lines :: "ParsedMultipartFile \<Rightarrow> string list" where
  "part_header_lines f =
     (''Content-Disposition: form-data; name='' @ quoted_param (pm_field_name f) @ ''; filename='' @
       quoted_param (uf_filename (pm_file f))) #
     (case uf_content_type (pm_file f) of None \<Rightarrow> [] | Some t \<Rightarrow> [''Content-Type: '' @ t])"

definition part_bytes :: "'j HttpOps \<Rightarrow> ParsedMultipartFile \<Rightarrow> bytes" where
  "part_bytes H f =
     utf8_bytes H (join [CHR 0x0D, CHR 0x0A] (part_header_lines f)) @ crlf @ crlf @ uf_bytes (pm_file f)"

definition multipart_body :: "'j HttpOps \<Rightarrow> bytes \<Rightarrow> ParsedMultipartFile list \<Rightarrow> bytes" where
  "multipart_body H marker files =
     concat (map (\<lambda>f. marker @ crlf @ part_bytes H f @ crlf) files) @ marker @ dashes @ crlf"

text \<open>UTF-8 concatenates, keeps ASCII, uses no ASCII byte for other characters, and decodes what it encodes.\<close>

definition utf8_laws :: "'j HttpOps \<Rightarrow> bool" where
  "utf8_laws H \<longleftrightarrow>
     (\<forall>s t. utf8_bytes H (s @ t) = utf8_bytes H s @ utf8_bytes H t) \<and>
     (\<forall>c. of_char c < (0x80 :: nat) \<longrightarrow> utf8_bytes H [c] = [word_of_nat (of_char c)]) \<and>
     (\<forall>c. of_char c \<ge> (0x80 :: nat) \<longrightarrow> (\<forall>b \<in> set (utf8_bytes H [c]). b \<ge> 0x80)) \<and>
     (\<forall>s. utf8_text H (utf8_bytes H s) = Inr s)"

text \<open>The texts a part can carry: no control over line ends, and what the parser strips or splits at.\<close>

definition param_text :: "string \<Rightarrow> bool" where
  "param_text s \<longleftrightarrow> CHR 0x0D \<notin> set s \<and> CHR 0x22 \<notin> set s \<and> CHR '';'' \<notin> set s"

definition type_text :: "string \<Rightarrow> bool" where
  "type_text s \<longleftrightarrow> CHR 0x0D \<notin> set s \<and> trim s = s"

definition sendable :: "'j HttpOps \<Rightarrow> bytes \<Rightarrow> ParsedMultipartFile \<Rightarrow> bool" where
  "sendable H marker f \<longleftrightarrow>
     param_text (pm_field_name f) \<and> param_text (uf_filename (pm_file f)) \<and>
     (case uf_content_type (pm_file f) of None \<Rightarrow> True | Some t \<Rightarrow> type_text t) \<and>
     \<not> sublist marker (part_bytes H f @ crlf @ butlast marker)"

lemma utf8_Nil: "utf8_laws H \<Longrightarrow> utf8_bytes H [] = []"
  unfolding utf8_laws_def by (metis append_self_conv2 append_Nil)

lemma utf8_Cons: "utf8_laws H \<Longrightarrow> utf8_bytes H (c # s) = utf8_bytes H [c] @ utf8_bytes H s"
  unfolding utf8_laws_def by (metis append_Cons append_Nil)

lemma utf8_cr: "utf8_laws H \<Longrightarrow> CHR 0x0D \<notin> set s \<Longrightarrow> 0x0D \<notin> set (utf8_bytes H s)"
proof (induction s)
  case Nil
  then show ?case by (simp add: utf8_Nil)
next
  case (Cons c s)
  have "0x0D \<notin> set (utf8_bytes H [c])"
  proof (cases "of_char c < (0x80 :: nat)")
    case True
    then have "utf8_bytes H [c] = [word_of_nat (of_char c)]" using Cons.prems(1) by (simp add: utf8_laws_def)
    moreover have "word_of_nat (of_char c) \<noteq> (0x0D :: 8 word)"
    proof
      assume "word_of_nat (of_char c) = (0x0D :: 8 word)"
      then have "unat (word_of_nat (of_char c) :: 8 word) = 13" by simp
      then have "of_char c = (13 :: nat)" using True by (simp add: unat_of_nat)
      then have "char_of (13 :: nat) = c" by (metis char_of_char)
      moreover have "char_of (13 :: nat) = CHR 0x0D" by code_simp
      ultimately show False using Cons.prems(2) by simp
    qed
    ultimately show ?thesis by simp
  next
    case False
    then have "\<forall>b \<in> set (utf8_bytes H [c]). b \<ge> 0x80" using Cons.prems(1) by (auto simp: utf8_laws_def not_less)
    then show ?thesis by (auto simp: word_le_nat_alt)
  qed
  with Cons show ?case using utf8_Cons [of H c s] by simp
qed

lemma sections_encoded:
  assumes "marker \<noteq> []" and "\<forall>f \<in> set files. \<not> sublist marker (part_bytes H f @ crlf @ butlast marker)"
  shows "multipart_sections (multipart_body H marker files) marker = Inr (map (part_bytes H) files)"
  using assms(2)
proof (induction files)
  case Nil
  have "find_bytes (marker @ dashes @ crlf) marker = Some 0" by (rule find_bytes_here)
  then show ?case by (subst multipart_sections.simps) (simp add: multipart_body_def)
next
  case (Cons f files)
  let ?rest = "multipart_body H marker files" and ?body = "multipart_body H marker (f # files)"
  obtain u where u: "?rest = marker @ u" by (cases files) (auto simp: multipart_body_def)
  have body: "?body = marker @ crlf @ part_bytes H f @ crlf @ ?rest" by (simp add: multipart_body_def)
  have start: "find_bytes ?body marker = Some 0" unfolding body by (rule find_bytes_here)
  have skip: "skip_crlf (drop (0 + length marker) ?body) = (part_bytes H f @ crlf) @ marker @ u"
    by (simp add: body u skip_crlf_def strip_prefix_def starts_with_def)
  have next_marker: "find_bytes ((part_bytes H f @ crlf) @ marker @ u) marker = Some (length (part_bytes H f @ crlf))"
    using Cons.prems assms(1) by (intro find_bytes_first) auto
  have strip: "drop_crlf (part_bytes H f @ crlf) = part_bytes H f"
    by (simp add: drop_crlf_def strip_suffix_def ends_with_def starts_with_def)
  have "multipart_sections ?body marker =
      map_sum id ((#) (drop_crlf (take (length (part_bytes H f @ crlf)) ((part_bytes H f @ crlf) @ marker @ u))))
        (multipart_sections (drop (length (part_bytes H f @ crlf)) ((part_bytes H f @ crlf) @ marker @ u)) marker)"
    using sections_step [OF start assms(1), unfolded skip, OF _ next_marker] by (simp add: body starts_with_def)
  also have "\<dots> = map_sum id ((#) (part_bytes H f)) (multipart_sections ?rest marker)"
    by (simp add: strip u)
  finally show ?case using Cons by simp
qed

lemma trim_fixed: "x \<noteq> [] \<Longrightarrow> \<not> is_whitespace (hd x) \<Longrightarrow> \<not> is_whitespace (last x) \<Longrightarrow> trim (CHR '' '' # x) = x"
proof -
  assume a: "x \<noteq> []" "\<not> is_whitespace (hd x)" "\<not> is_whitespace (last x)"
  then have "trim_start_matches is_whitespace (CHR '' '' # x) = x"
    by (cases x) (simp_all add: trim_start_matches_def is_whitespace_def)
  moreover have "trim_end_matches is_whitespace x = x"
    using a by (cases x rule: rev_cases) (simp_all add: trim_end_matches_snoc)
  ultimately show ?thesis by (simp add: trim_def trim_matches_def)
qed

lemma unquoted: "CHR 0x22 \<notin> set v \<Longrightarrow> trim_matches is_double_quote (quoted_param v) = v"
proof (cases "v = []")
  case True
  then show ?thesis by (simp add: quoted_param_def trim_matches_def trim_start_matches_def)
next
  case False
  assume "CHR 0x22 \<notin> set v"
  moreover from this False have "trim_start_matches is_double_quote (quoted_param v) = v @ [CHR 0x22]"
    by (cases v) (auto simp: quoted_param_def trim_start_matches_def)
  moreover have "trim_end_matches is_double_quote v = v" using calculation(1) by (intro trim_end_matches_id) auto
  ultimately show ?thesis unfolding trim_matches_def by (simp add: trim_end_matches_snoc)
qed

lemma disposition_value:
  assumes "param_text n" and "param_text f"
  shows "drop 1 (split_on (CHR '';'') (trim ('' form-data; name='' @ quoted_param n @ ''; filename='' @ quoted_param f))) =
     ['' name='' @ quoted_param n, '' filename='' @ quoted_param f]"
proof -
  let ?v = "''form-data; name='' @ quoted_param n @ ''; filename='' @ quoted_param f"
  have "last ?v = CHR 0x22" by (simp add: quoted_param_def)
  then have "trim (CHR '' '' # ?v) = ?v" by (intro trim_fixed) (simp_all add: is_whitespace_def)
  moreover have "?v = ''form-data'' @ CHR '';'' # ('' name='' @ quoted_param n) @ CHR '';'' # ('' filename='' @ quoted_param f)" by simp
  moreover have "split_on (CHR '';'') (''form-data'' @ CHR '';'' # ('' name='' @ quoted_param n) @ CHR '';'' # ('' filename='' @ quoted_param f)) =
      ''form-data'' # split_on (CHR '';'') (('' name='' @ quoted_param n) @ CHR '';'' # ('' filename='' @ quoted_param f))"
    by (rule split_on_append_sep) simp
  moreover have "split_on (CHR '';'') (('' name='' @ quoted_param n) @ CHR '';'' # ('' filename='' @ quoted_param f)) =
      ('' name='' @ quoted_param n) # split_on (CHR '';'') ('' filename='' @ quoted_param f)"
    using assms(1) by (intro split_on_append_sep) (simp add: param_text_def quoted_param_def)
  moreover have "split_on (CHR '';'') ('' filename='' @ quoted_param f) = ['' filename='' @ quoted_param f]"
    using assms(2) by (intro split_on_no_sep) (simp add: param_text_def quoted_param_def)
  ultimately show ?thesis by (simp only: drop_Suc_Cons drop_0 One_nat_def append_Cons append_Nil)
qed

lemma disposition_segments:
  assumes "param_text n" and "param_text f"
  shows "disposition_segment ('' name='' @ quoted_param n) ph = ph\<lparr>ph_field_name := Some n\<rparr>"
    and "disposition_segment ('' filename='' @ quoted_param f) ph = ph\<lparr>ph_filename := Some f\<rparr>"
proof -
  have "trim ('' name='' @ quoted_param n) = ''name='' @ quoted_param n"
    "trim ('' filename='' @ quoted_param f) = ''filename='' @ quoted_param f"
    using trim_fixed [of "''name='' @ quoted_param n"] trim_fixed [of "''filename='' @ quoted_param f"]
    by (simp_all add: quoted_param_def is_whitespace_def)
  then show "disposition_segment ('' name='' @ quoted_param n) ph = ph\<lparr>ph_field_name := Some n\<rparr>"
    and "disposition_segment ('' filename='' @ quoted_param f) ph = ph\<lparr>ph_filename := Some f\<rparr>"
    using assms unquoted [of n] unquoted [of f]
    by (simp_all add: disposition_segment_def strip_prefix_def starts_with_def param_text_def)
qed

lemma disposition_line:
  assumes "param_text n" and "param_text f"
  shows "part_headers ((''Content-Disposition: form-data; name='' @ quoted_param n @ ''; filename='' @ quoted_param f) # lines) ph =
     part_headers lines (ph\<lparr>ph_field_name := Some n, ph_filename := Some f\<rparr>)"
proof -
  let ?v = "'' form-data; name='' @ quoted_param n @ ''; filename='' @ quoted_param f"
  have "split_once (CHR '':'') (''Content-Disposition'' @ CHR '':'' # ?v) = Some (''Content-Disposition'', ?v)"
    by (rule split_once_first) simp
  moreover have "eq_ignore_ascii_case (trim ''Content-Disposition'') ''content-disposition''" by code_simp
  ultimately show ?thesis
    using disposition_value [OF assms] disposition_segments [OF assms] by simp
qed

lemma content_type_line:
  assumes "type_text t"
  shows "part_headers [''Content-Type: '' @ t] ph = Inr (ph\<lparr>ph_content_type := Some t\<rparr>)"
proof -
  have "split_once (CHR '':'') (''Content-Type'' @ CHR '':'' # ('' '' @ t)) = Some (''Content-Type'', '' '' @ t)"
    by (rule split_once_first) simp
  moreover have "trim (CHR '' '' # t) = t"
    using assms by (simp add: type_text_def trim_def trim_matches_def trim_start_matches_def is_whitespace_def)
  moreover have "\<not> eq_ignore_ascii_case (trim ''Content-Type'') ''content-disposition''"
    "eq_ignore_ascii_case (trim ''Content-Type'') ''content-type''" by code_simp+
  ultimately show ?thesis by simp
qed

lemma find_bytes_after: "x \<notin> set a \<Longrightarrow> find_bytes (a @ x # needle @ s) (x # needle) = Some (length a)"
  using find_bytes_skip [of x a "x # needle @ s" needle] find_bytes_here [of "x # needle" s] by simp

lemma find_bytes_absent: "x \<notin> set a \<Longrightarrow> find_bytes a (x # needle) = None"
  using find_bytes_skip [of x a "[]" needle] by simp

text \<open>An empty line is not mistaken for the end of an earlier one.\<close>

lemma find_empty_line:
  assumes "cr \<notin> set l" and "cr \<notin> set k" and "cr \<noteq> lf" and "k \<noteq> []"
  shows "find_bytes (l @ cr # lf # k @ cr # lf # cr # lf # s) [cr, lf, cr, lf] = Some (length l + 2 + length k)"
proof -
  have no: "\<not> starts_with (cr # lf # k @ t) [cr, lf, cr, lf]" for t
    using assms(2,4) by (cases k) auto
  have "find_bytes ((lf # k) @ cr # [lf, cr, lf] @ s) [cr, lf, cr, lf] = Some (length (lf # k))"
    using assms(2,3) by (intro find_bytes_after) auto
  then have "find_bytes (cr # lf # k @ cr # lf # cr # lf # s) [cr, lf, cr, lf] = Some (Suc (length (lf # k)))"
    using no by (simp del: starts_with_Cons)
  then show ?thesis
    using find_bytes_skip [OF assms(1), of "cr # lf # k @ cr # lf # cr # lf # s" "[lf, cr, lf]"] by simp
qed

lemma split_lines:
  assumes "CHR 0x0D \<notin> set l" and "CHR 0x0D \<notin> set k"
  shows "split_str [CHR 0x0D, CHR 0x0A] l = [l]"
    and "split_str [CHR 0x0D, CHR 0x0A] (l @ CHR 0x0D # CHR 0x0A # k) = [l, k]"
proof -
  have one: "split_str [CHR 0x0D, CHR 0x0A] m = [m]" if "CHR 0x0D \<notin> set m" for m
    using find_bytes_absent [OF that] by (subst split_str.simps) simp
  then show "split_str [CHR 0x0D, CHR 0x0A] l = [l]" using assms(1) by blast
  show "split_str [CHR 0x0D, CHR 0x0A] (l @ CHR 0x0D # CHR 0x0A # k) = [l, k]"
    using find_bytes_after [OF assms(1), of "[CHR 0x0A]" k] one [OF assms(2)] by (subst split_str.simps) simp
qed

lemma parse_sent_section:
  assumes utf8: "utf8_laws H" and f: "sendable H marker f" and "within_limits l f"
  shows "parse_section H l (part_bytes H f) = Inr (Some f)"
proof -
  let ?n = "pm_field_name f" and ?fn = "uf_filename (pm_file f)" and ?ct = "uf_content_type (pm_file f)" and ?b = "uf_bytes (pm_file f)"
  let ?lines = "part_header_lines f"
  let ?h = "join [CHR 0x0D, CHR 0x0A] ?lines"
  define d where "d = ''Content-Disposition: form-data; name='' @ quoted_param ?n @ ''; filename='' @ quoted_param ?fn"
  have texts: "param_text ?n" "param_text ?fn" using f by (simp_all add: sendable_def)
  have d: "CHR 0x0D \<notin> set d" using texts by (simp add: d_def param_text_def quoted_param_def)
  have lines: "?lines = d # (case ?ct of None \<Rightarrow> [] | Some t \<Rightarrow> [''Content-Type: '' @ t])"
    by (simp add: part_header_lines_def d_def)
  have "split_once_bytes (part_bytes H f) (crlf @ crlf) = Some (utf8_bytes H ?h, ?b) \<and> split_str [CHR 0x0D, CHR 0x0A] ?h = ?lines"
  proof (cases ?ct)
    case None
    then show ?thesis
      using find_bytes_after [OF utf8_cr [OF utf8 d], of "[0x0A, 0x0D, 0x0A]" ?b] split_lines(1) [OF d d]
      by (simp add: split_once_bytes_def part_bytes_def lines)
  next
    case (Some t)
    define k where "k = ''Content-Type: '' @ t"
    have lines2: "?lines = [d, k]" using Some by (simp add: lines k_def)
    then have h: "?h = d @ CHR 0x0D # CHR 0x0A # k" by simp
    have k: "CHR 0x0D \<notin> set k" using f Some by (simp add: sendable_def type_text_def k_def)
    have "utf8_bytes H k \<noteq> []" using utf8 utf8_Cons [OF utf8, of "CHR ''C''" "''ontent-Type: '' @ t"] by (simp add: utf8_laws_def k_def)
    moreover have hb: "utf8_bytes H ?h = utf8_bytes H d @ 0x0D # 0x0A # utf8_bytes H k"
      using utf8 utf8_Cons [OF utf8, of "CHR 0x0D" "CHR 0x0A # k"] utf8_Cons [OF utf8, of "CHR 0x0A" k] by (simp add: h utf8_laws_def)
    ultimately have "find_bytes (utf8_bytes H ?h @ crlf @ crlf @ ?b) (crlf @ crlf) = Some (length (utf8_bytes H ?h))"
      using find_empty_line [OF utf8_cr [OF utf8 d] utf8_cr [OF utf8 k], where lf = "0x0A" and s = ?b] by simp
    then have "split_once_bytes (part_bytes H f) (crlf @ crlf) = Some (utf8_bytes H ?h, ?b)"
      unfolding split_once_bytes_def part_bytes_def by simp
    moreover have "split_str [CHR 0x0D, CHR 0x0A] ?h = [d, k]" using split_lines(2) [OF d k] h by simp
    ultimately show ?thesis unfolding lines2 by simp
  qed
  moreover have "utf8_text H (utf8_bytes H ?h) = Inr ?h" using utf8 by (simp add: utf8_laws_def)
  moreover have "part_headers ?lines \<lparr>ph_field_name = None, ph_filename = None, ph_content_type = None\<rparr> =
      Inr \<lparr>ph_field_name = Some ?n, ph_filename = Some ?fn, ph_content_type = ?ct\<rparr>"
  proof -
    have rest: "part_headers (case ?ct of None \<Rightarrow> [] | Some t \<Rightarrow> [''Content-Type: '' @ t]) ph =
        Inr (ph\<lparr>ph_content_type := (case ?ct of None \<Rightarrow> ph_content_type ph | Some t \<Rightarrow> Some t)\<rparr>)" for ph
    proof (cases ?ct)
      case (Some t)
      have "type_text t" using f Some by (simp add: sendable_def)
      then show ?thesis unfolding Some option.case by (rule content_type_line)
    qed simp
    have "part_headers (d # ls) ph = part_headers ls (ph\<lparr>ph_field_name := Some ?n, ph_filename := Some ?fn\<rparr>)" for ls ph
      unfolding d_def by (rule disposition_line [OF texts])
    then show ?thesis unfolding lines by (simp add: rest split: option.split)
  qed
  moreover have "\<lparr>pm_field_name = ?n, pm_file = \<lparr>uf_filename = ?fn, uf_content_type = ?ct, uf_bytes = ?b\<rparr>\<rparr> = f" by simp
  ultimately show ?thesis
    using assms(3) unfolding parse_section_def
    by (auto simp: within_limits_def allows_mime_type_def field_limit_for_def or_else_def list_ex_iff Let_def split: option.splits)
qed

lemma parse_sent_body:
  assumes "utf8_laws H" and "parse_boundary ct = Some boundary" and "marker = utf8_bytes H (''--'' @ boundary)"
    and "\<forall>f \<in> set files. sendable H marker f \<and> within_limits l f"
    and "\<forall>n. ml_whole_stream l = Some n \<longrightarrow> length (multipart_body H marker files) \<le> unat n"
  shows "parse_uploaded_files H parse_boundary ct (multipart_body H marker files) l = Inr files"
proof -
  have "utf8_bytes H (''--'' @ boundary) = [word_of_nat (of_char (CHR ''-''))] @ utf8_bytes H (CHR ''-'' # boundary)"
    using utf8_Cons [OF assms(1), of "CHR ''-''" "CHR ''-'' # boundary"] assms(1) by (simp add: utf8_laws_def)
  then have marker: "marker \<noteq> []" using assms(3) by simp
  have "multipart_sections (multipart_body H marker files) marker = Inr (map (part_bytes H) files)"
    using assms(4) by (intro sections_encoded [OF marker]) (simp add: sendable_def)
  moreover have "parse_sections H l (map (part_bytes H) files) = Inr files"
  proof -
    have "\<forall>f \<in> set files. parse_section H l (part_bytes H f) = Inr (Some f)"
      using assms(4) parse_sent_section [OF assms(1)] by blast
    then show ?thesis by (induction files) simp_all
  qed
  ultimately show ?thesis
    using assms(2,3,5) by (auto simp: parse_uploaded_files_def Let_def split: option.splits)
qed

text \<open>C27: Multipart bodies survive the journey. What a client writes as a multipart body, one part per file with its field
  name, file name, content type and bytes, is read back as exactly these files in this order, when the limits admit them,
  the boundary does not occur in a part, and names hold no quote, semicolon or carriage return. A semicolon inside a quoted
  file name is not protected: the name that is read ends there.\<close>

theorem multipart_roundtrip:
  assumes "utf8_laws H" and "parse_boundary ct = Some boundary" and "marker = utf8_bytes H (''--'' @ boundary)"
    and "\<forall>f \<in> set files. sendable H marker f \<and> within_limits l f"
    and "\<forall>n. ml_whole_stream l = Some n \<longrightarrow> length (multipart_body H marker files) \<le> unat n"
  shows "parse_uploaded_files H parse_boundary ct (multipart_body H marker files) l = Inr files"
  using assms by (rule parse_sent_body)

lemma semicolon_ends_filename:
  "part_headers [''Content-Disposition: form-data; name='' @ quoted_param ''a'' @ ''; filename='' @ quoted_param ''b;c.png'']
     \<lparr>ph_field_name = None, ph_filename = None, ph_content_type = None\<rparr> =
   Inr \<lparr>ph_field_name = Some ''a'', ph_filename = Some ''b'', ph_content_type = None\<rparr>"
  by code_simp

section \<open>Examples\<close>

text \<open>UTF-8 for the characters of the model.\<close>

definition encode_char :: "char \<Rightarrow> bytes" where
  "encode_char c =
     (let n = of_char c :: nat
      in if n < 0x80 then [word_of_nat n] else [word_of_nat (0xC0 + n div 0x40), word_of_nat (0x80 + n mod 0x40)])"

fun decode_chars :: "bytes \<Rightarrow> string" where
  "decode_chars [] = []"
| "decode_chars [b] = [char_of (unat b)]"
| "decode_chars (b # b1 # bs) =
     (if b < 0x80 then char_of (unat b) # decode_chars (b1 # bs)
      else char_of ((unat b - 0xC0) * 0x40 + (unat b1 - 0x80)) # decode_chars bs)"

definition demo_utf8 :: "unit HttpOps" where
  "demo_utf8 =
     \<lparr>header_name = Some, header_value = Some, header_to_str = Inr, form_parse = (\<lambda>_. []),
      utf8_bytes = (\<lambda>s. concat (map encode_char s)), utf8_text = (\<lambda>bs. Inr (decode_chars bs)),
      json_from_str = (\<lambda>_. Inr ()), json_from_slice = (\<lambda>_. Inr ()), json_to_string = (\<lambda>_. Inr ''null''),
      json_to_vec = (\<lambda>_. Inr []), json_string = (\<lambda>_. ()), json_object = (\<lambda>_. ()), json_number = (\<lambda>_. ()),
      json_array = (\<lambda>_. ()), json_null = (), json_is_null = (\<lambda>_. True), valid_status = (\<lambda>n. 100 \<le> n \<and> n < 1000)\<rparr>"

lemma wide_bytes:
  "unat (word_of_nat (0xC0 + of_char c div 0x40) :: 8 word) = 0xC0 + of_char c div 0x40"
  "unat (word_of_nat (0x80 + of_char c mod 0x40) :: 8 word) = 0x80 + of_char c mod 0x40"
proof -
  have "of_char c div 0x40 < (4 :: nat)" by (rule less_mult_imp_div_less) simp
  moreover have "of_char c mod 0x40 < (0x40 :: nat)" by simp
  ultimately show "unat (word_of_nat (0xC0 + of_char c div 0x40) :: 8 word) = 0xC0 + of_char c div 0x40"
    and "unat (word_of_nat (0x80 + of_char c mod 0x40) :: 8 word) = 0x80 + of_char c mod 0x40"
    by (simp_all add: unat_of_nat del: of_nat_add)
qed

lemma decode_encode: "decode_chars (encode_char c @ bs) = c # decode_chars bs"
proof (cases "of_char c < (0x80 :: nat)")
  case True
  then have "unat (word_of_nat (of_char c) :: 8 word) = of_char c" by (simp add: unat_of_nat)
  then show ?thesis using True by (cases bs) (simp_all add: encode_char_def word_less_nat_alt)
next
  case False
  then show ?thesis using wide_bytes [of c] by (simp add: encode_char_def word_less_nat_alt Let_def del: of_nat_add)
qed

lemma demo_utf8_laws: "utf8_laws demo_utf8"
proof -
  have "decode_chars (concat (map encode_char s)) = s" for s
    by (induction s) (simp_all add: decode_encode)
  moreover have "encode_char c = [word_of_nat (of_char c)]" if "of_char c < (0x80 :: nat)" for c
    using that by (simp add: encode_char_def)
  moreover have "b \<ge> 0x80" if "of_char c \<ge> (0x80 :: nat)" "b \<in> set (encode_char c)" for b c
  proof -
    show ?thesis using that wide_bytes [of c] by (auto simp: encode_char_def word_le_nat_alt Let_def simp del: of_nat_add)
  qed
  ultimately show ?thesis by (simp add: utf8_laws_def demo_utf8_def)
qed

definition demo_limits :: MultipartLimits where
  "demo_limits = per_field (allowed_mime_types (allowed_fields (whole_stream limits_new 1000) [''avatar'']) [''image/png'', ''text/plain'']) 4"

definition demo_uploads :: "ParsedMultipartFile list" where
  "demo_uploads =
     [\<lparr>pm_field_name = ''avatar'', pm_file = \<lparr>uf_filename = ''me.png'', uf_content_type = Some ''image/png'', uf_bytes = [1, 0x0D, 0x0A, 0x2D]\<rparr>\<rparr>,
      \<lparr>pm_field_name = ''avatar'', pm_file = \<lparr>uf_filename = [], uf_content_type = Some ''text/plain'', uf_bytes = []\<rparr>\<rparr>]"

definition demo_boundary :: "string \<Rightarrow> string option" where
  "demo_boundary ct = strip_prefix ct ''multipart/form-data; boundary=''"

lemma demo_sends:
  "demo_boundary ''multipart/form-data; boundary=XX'' = Some ''XX''"
  "\<forall>f \<in> set demo_uploads. sendable demo_utf8 (utf8_bytes demo_utf8 (''--'' @ ''XX'')) f \<and> within_limits demo_limits f"
  "length (multipart_body demo_utf8 (utf8_bytes demo_utf8 (''--'' @ ''XX'')) demo_uploads) \<le> 1000"
  by code_simp+

lemma demo_limits_sel:
  "ml_whole_stream demo_limits = Some 1000" "ml_per_field demo_limits = Some 4" "ml_field_limits demo_limits = Map.empty"
  by (simp_all add: demo_limits_def per_field_def allowed_mime_types_def allowed_fields_def whole_stream_def limits_new_def)

theorem multipart_roundtrip_witness:
  "parse_uploaded_files demo_utf8 demo_boundary ''multipart/form-data; boundary=XX''
     (multipart_body demo_utf8 (utf8_bytes demo_utf8 (''--'' @ ''XX'')) demo_uploads) demo_limits = Inr demo_uploads"
  using demo_utf8_laws demo_sends(1) refl demo_sends(2)
  by (rule multipart_roundtrip) (use demo_sends(3) in \<open>simp add: demo_limits_sel\<close>)

lemma demo_parsed:
  "parse_uploaded_files demo_utf8 demo_boundary ''multipart/form-data; boundary=XX''
     (multipart_body demo_utf8 (utf8_bytes demo_utf8 (''--'' @ ''XX'')) demo_uploads) demo_limits = Inr demo_uploads"
  using demo_utf8_laws demo_sends(1) refl demo_sends(2)
  by (rule parse_sent_body) (use demo_sends(3) in \<open>simp add: demo_limits_sel\<close>)

theorem upload_limits_witness:
  "demo_uploads \<noteq> [] \<and> (\<forall>f \<in> set demo_uploads. within_limits demo_limits f) \<and>
   length (multipart_body demo_utf8 (utf8_bytes demo_utf8 (''--'' @ ''XX'')) demo_uploads) \<le> unat (1000 :: 64 word)"
proof -
  have "demo_uploads \<noteq> []" by (simp add: demo_uploads_def)
  then show ?thesis using upload_limits [OF demo_parsed] demo_limits_sel(1) by simp
qed

end
