(* ===== verification/Controller_Actions.thy ===== *)
theory Controller_Actions
  imports Upload Module_Registry
begin

text \<open>
  Running controller methods (\<open>nivasa-http/src/lib.rs\<close>): what each parameter attribute extracts from the request, the
  response of a failed extraction, the address of the client, response metadata, guard metadata, uploads; and the options
  and module surface of throttling (\<open>nivasa-http/src/throttling.rs\<close>).

  An action is the composition of the user's function with \<open>IntoResponse::into_response\<close>. Request extensions
  are not part of the model's requests: what the code reads from one is an argument.
\<close>

definition bad_request_response :: "'j HttpOps \<Rightarrow> string \<Rightarrow> 'j NivasaResponse" where
  "bad_request_response H msg = exception_into_response H (bad_request msg :: ('j, unit) HttpException)"

definition run_controller_action ::
  "('j NivasaRequest \<Rightarrow> 'j ControllerResponse \<Rightarrow> 'j ControllerResponse) \<Rightarrow> 'j NivasaRequest \<Rightarrow> 'j NivasaResponse" where
  "run_controller_action action rq = controller_into_response (action rq controller_response_new)"

text \<open>The common shape: extract, then run the action or answer 400 with the text of the error.\<close>

definition run_with_body ::
  "'j HttpOps \<Rightarrow> ('j NivasaRequest \<Rightarrow> RequestExtractError + 't) \<Rightarrow> 'j NivasaRequest \<Rightarrow> ('t \<Rightarrow> 'j NivasaResponse) \<Rightarrow> 'j NivasaResponse" where
  "run_with_body H from_request rq action =
     (case from_request rq of
        Inr body \<Rightarrow> action body
      | Inl e \<Rightarrow> bad_request_response H (extract_error_text e))"

definition run_with_request :: "'j NivasaRequest \<Rightarrow> ('j NivasaRequest \<Rightarrow> 'j NivasaResponse) \<Rightarrow> 'j NivasaResponse" where
  "run_with_request rq action = action rq"

definition run_with_param ::
  "'j HttpOps \<Rightarrow> ('j, 't) Deserialize \<Rightarrow> 'j NivasaRequest \<Rightarrow> string \<Rightarrow> ('t \<Rightarrow> 'j NivasaResponse) \<Rightarrow> 'j NivasaResponse" where
  "run_with_param H D rq name action =
     (case path_param_typed H D rq name of
        Inr param \<Rightarrow> action param
      | Inl e \<Rightarrow> bad_request_response H (extract_error_text e))"

text \<open>A deserialiser that reports the path to a faulty field, as \<open>serde_path_to_error\<close> does.\<close>

definition query_from_request ::
  "'j HttpOps \<Rightarrow> (bytes \<Rightarrow> (string \<times> string) + 't) \<Rightarrow> 'j NivasaRequest \<Rightarrow> RequestExtractError + 't" where
  "query_from_request H deserialize rq =
     (case json_to_vec H (json_object H (query_values H rq)) of
        Inl e \<Rightarrow> Inl (InvalidQuery e)
      | Inr payload \<Rightarrow>
          map_sum (\<lambda>(p, e). InvalidQuery (if p = [] then e else ''field `'' @ p @ ''`: '' @ e)) id (deserialize payload))"

definition run_with_query ::
  "'j HttpOps \<Rightarrow> (bytes \<Rightarrow> (string \<times> string) + 't) \<Rightarrow> 'j NivasaRequest \<Rightarrow> ('t \<Rightarrow> 'j NivasaResponse) \<Rightarrow> 'j NivasaResponse" where
  "run_with_query H deserialize rq action =
     (case query_from_request H deserialize rq of
        Inr query \<Rightarrow> action query
      | Inl e \<Rightarrow> bad_request_response H (extract_error_text e))"

definition run_with_headers :: "'j NivasaRequest \<Rightarrow> (Headers \<Rightarrow> 'j NivasaResponse) \<Rightarrow> 'j NivasaResponse" where
  "run_with_headers rq action = action (rq_headers rq)"

definition run_with_header ::
  "'j HttpOps \<Rightarrow> ('j, 't) Deserialize \<Rightarrow> 'j NivasaRequest \<Rightarrow> string \<Rightarrow> ('t \<Rightarrow> 'j NivasaResponse) \<Rightarrow> 'j NivasaResponse" where
  "run_with_header H D rq name action =
     (case header_typed H D rq name of
        Inr h \<Rightarrow> action h
      | Inl e \<Rightarrow> bad_request_response H (extract_error_text e))"

section \<open>The address of the client\<close>

definition header_trimmed_value :: "'j HttpOps \<Rightarrow> 'j NivasaRequest \<Rightarrow> string \<Rightarrow> string option" where
  "header_trimmed_value H rq name =
     Option.bind (header H rq name) (\<lambda>raw. case header_to_str H raw of Inr t \<Rightarrow> non_blank t | Inl _ \<Rightarrow> None)"

definition header_first_csv_value :: "'j HttpOps \<Rightarrow> 'j NivasaRequest \<Rightarrow> string \<Rightarrow> string option" where
  "header_first_csv_value H rq name =
     Option.bind (header_trimmed_value H rq name)
       (\<lambda>v. find (\<lambda>part. part \<noteq> []) (map trim (split_on (CHR '','') v)))"

definition forwarded_part :: "string \<Rightarrow> string option" where
  "forwarded_part part =
     (case split_once (CHR ''='') part of
        None \<Rightarrow> None
      | Some (name, v0) \<Rightarrow>
          if \<not> eq_ignore_ascii_case (trim name) ''for'' then None
          else let v = trim_matches is_double_quote (trim v0) in if v = [] then None else Some v)"

definition forwarded_for_value :: "'j HttpOps \<Rightarrow> 'j NivasaRequest \<Rightarrow> string option" where
  "forwarded_for_value H rq =
     Option.bind (header_trimmed_value H rq ''forwarded'') (\<lambda>v. find_map forwarded_part (split_on (CHR '';'') v))"

definition controller_client_ip :: "'j HttpOps \<Rightarrow> string option \<Rightarrow> 'j NivasaRequest \<Rightarrow> string option" where
  "controller_client_ip H extension rq =
     or_else (or_else (or_else (Option.bind extension non_blank)
       (header_first_csv_value H rq ''x-forwarded-for''))
       (header_trimmed_value H rq ''x-real-ip''))
       (forwarded_for_value H rq)"

definition run_with_ip :: "'j HttpOps \<Rightarrow> string option \<Rightarrow> 'j NivasaRequest \<Rightarrow> (string \<Rightarrow> 'j NivasaResponse) \<Rightarrow> 'j NivasaResponse" where
  "run_with_ip H extension rq action =
     (case controller_client_ip H extension rq of
        Some ip \<Rightarrow> action ip
      | None \<Rightarrow> bad_request_response H ''request client IP is missing'')"

definition run_with_session :: "'j HttpOps \<Rightarrow> string \<Rightarrow> 't option \<Rightarrow> ('t \<Rightarrow> 'j NivasaResponse) \<Rightarrow> 'j NivasaResponse" where
  "run_with_session H type_name extension action =
     (case extension of
        Some session \<Rightarrow> action session
      | None \<Rightarrow> bad_request_response H (''request session data `'' @ type_name @ ''` is missing''))"

definition run_with_custom_param ::
  "'j HttpOps \<Rightarrow> ('j NivasaRequest \<Rightarrow> ('j, 'e) HttpException + 't) \<Rightarrow> 'j NivasaRequest \<Rightarrow> ('t \<Rightarrow> 'j NivasaResponse) \<Rightarrow> 'j NivasaResponse" where
  "run_with_custom_param H extractor rq action =
     (case extractor rq of Inr v \<Rightarrow> action v | Inl e \<Rightarrow> exception_into_response H e)"

section \<open>Uploads\<close>

definition upload_content_type :: "'j HttpOps \<Rightarrow> 'j NivasaRequest \<Rightarrow> string + string" where
  "upload_content_type H rq =
     (case header H rq ''content-type'' of
        None \<Rightarrow> Inl ''request is missing header `content-type`''
      | Some raw \<Rightarrow>
          (case header_to_str H raw of
             Inl _ \<Rightarrow> Inl ''invalid header `content-type`: header value is not valid ASCII''
           | Inr ct \<Rightarrow> Inr ct))"

definition run_with_file ::
  "'j HttpOps \<Rightarrow> (string \<Rightarrow> string option) \<Rightarrow> 'j NivasaRequest \<Rightarrow> FileInterceptor \<Rightarrow> (UploadedFile \<Rightarrow> 'j NivasaResponse) \<Rightarrow> 'j NivasaResponse" where
  "run_with_file H parse_boundary rq interceptor action =
     (case upload_content_type H rq of
        Inl msg \<Rightarrow> bad_request_response H msg
      | Inr ct \<Rightarrow>
          (case extract_file H parse_boundary interceptor ct (as_bytes H (rq_body rq)) of
             Inr up \<Rightarrow> action up
           | Inl e \<Rightarrow> bad_request_response H (upload_error_text e)))"

definition run_with_files ::
  "'j HttpOps \<Rightarrow> (string \<Rightarrow> string option) \<Rightarrow> 'j NivasaRequest \<Rightarrow> FileInterceptor \<Rightarrow> (UploadedFile list \<Rightarrow> 'j NivasaResponse) \<Rightarrow> 'j NivasaResponse" where
  "run_with_files H parse_boundary rq interceptor action =
     (case upload_content_type H rq of
        Inl msg \<Rightarrow> bad_request_response H msg
      | Inr ct \<Rightarrow>
          (case extract_files H parse_boundary interceptor ct (as_bytes H (rq_body rq)) of
             Inr ups \<Rightarrow> action ups
           | Inl e \<Rightarrow> bad_request_response H (upload_error_text e)))"

section \<open>Metadata of a method\<close>

definition apply_controller_response_metadata ::
  "'j HttpOps \<Rightarrow> 'j NivasaResponse \<Rightarrow> string \<Rightarrow> (string \<times> 16 word option \<times> (string \<times> string) list) list \<Rightarrow> 'j NivasaResponse" where
  "apply_controller_response_metadata H response handler metadata =
     (case find (\<lambda>m. fst m = handler) metadata of
        None \<Rightarrow> response
      | Some (_, code_override, headers) \<Rightarrow>
          let response1 =
            (case code_override of
               Some status \<Rightarrow> if valid_status H status then response\<lparr>rs_status := status\<rparr> else response
             | None \<Rightarrow> response)
          in fold (\<lambda>(name, v) r. with_header H r name v) headers response1)"

record ControllerGuardExecutionContract =
  gx_handler :: string
  gx_guards :: "string list"

definition resolve_controller_guard_execution ::
  "string \<Rightarrow> string list \<Rightarrow> (string \<times> string list) list \<Rightarrow> ControllerGuardExecutionContract option" where
  "resolve_controller_guard_execution handler controller_guards handler_guard_metadata =
     (let guards = controller_guards @
        (case find (\<lambda>m. fst m = handler) handler_guard_metadata of Some (_, handler_guards) \<Rightarrow> handler_guards | None \<Rightarrow> [])
      in if guards = [] then None else Some \<lparr>gx_handler = handler, gx_guards = guards\<rparr>)"

section \<open>The throttling module\<close>

record ThrottlerOptions =
  to_is_global :: bool
  to_limit :: "32 word"
  to_ttl :: nat

definition throttler_options_new :: "32 word \<Rightarrow> nat \<Rightarrow> ThrottlerOptions" where
  "throttler_options_new limit ttl = \<lparr>to_is_global = False, to_limit = limit, to_ttl = ttl\<rparr>"

definition throttler_options_with_global :: "ThrottlerOptions \<Rightarrow> bool \<Rightarrow> ThrottlerOptions" where
  "throttler_options_with_global o1 is_global = o1\<lparr>to_is_global := is_global\<rparr>"

definition throttler_options_default :: ThrottlerOptions where
  "throttler_options_default = throttler_options_new 10 (60 * 10 ^ 9)"

text \<open>The type ids of the options, the storage and the guard are parameters.\<close>

definition throttler_for_root :: "TypeId \<Rightarrow> TypeId \<Rightarrow> TypeId \<Rightarrow> ThrottlerOptions \<Rightarrow> DynamicModule" where
  "throttler_for_root options_id storage_id guard_id options =
     dynamic_with_global
       (dynamic_with_providers (dynamic_new (with_exports module_metadata_new [storage_id, guard_id]))
         [options_id, storage_id, guard_id])
       (to_is_global options)"

section \<open>Facts\<close>

text \<open>A chain of proxies in one \<open>Forwarded\<close> header: its elements are not told apart.\<close>

lemma forwarded_chain_not_split:
  assumes "CHR '';'' \<notin> set client" and "CHR '';'' \<notin> set rest"
    and "client \<noteq> []" and "\<forall>c \<in> set (client @ rest). c \<noteq> CHR 0x22 \<and> \<not> is_whitespace c"
  shows "find_map forwarded_part (split_on (CHR '';'') (''for='' @ client @ '','' @ rest)) = Some (client @ '','' @ rest)"
proof -
  let ?v = "client @ '','' @ rest"
  have "split_on (CHR '';'') (''for='' @ ?v) = [''for='' @ ?v]" using assms(1,2) by (intro split_on_no_sep) simp
  moreover have "split_once (CHR ''='') (''for'' @ CHR ''='' # ?v) = Some (''for'', ?v)" by (rule split_once_first) simp
  moreover have "trim ?v = ?v" using assms(4) by (intro trim_id) (auto simp: is_whitespace_def)
  moreover have plain: "\<not> is_double_quote c" if "c \<in> set ?v" for c using assms(4) that by auto
  moreover have "trim_matches is_double_quote ?v = ?v"
    unfolding trim_matches_def
    by (subst trim_start_matches_id) (use plain in blast, rule trim_end_matches_id, use plain in blast)
  moreover have "eq_ignore_ascii_case (trim ''for'') ''for''" by code_simp
  ultimately show ?thesis using assms(3) by (simp add: forwarded_part_def)
qed

text \<open>Controller guards come before those of the method, and a method without any has no contract.\<close>

lemma guard_contract_order:
  "resolve_controller_guard_execution h cg ((h, hg) # ms) = (if cg @ hg = [] then None else Some \<lparr>gx_handler = h, gx_guards = cg @ hg\<rparr>)"
  by (simp add: resolve_controller_guard_execution_def)

end
