(* ===== verification/Validation.thy ===== *)
theory Validation
  imports Prelude "HOL-Library.Log_Nat" Complex_Main
begin

text \<open>
  Validation of data transfer objects: the runtime (\<open>nivasa-validation/src/lib.rs\<close>) and the code that
  \<open>#[derive(Dto)]\<close> and \<open>#[derive(PartialDto)]\<close> generate (\<open>nivasa-macros/src/validation.rs\<close>). The macro is modelled as what it
  does: from the types and attributes of the fields to an error or to the generated checks; running these checks on a
  value is a function of its own. The parsing of attribute arguments by \<open>syn\<close> is not modelled: attributes arrive parsed.

  UUIDs, URIs, regular expressions, enum parsers and custom validators are parameters. A 64-bit float is a rational, an
  infinity or no number.
\<close>

section \<open>The runtime\<close>

type_synonym ValidationContext = "string set"

definition context_with_group :: "ValidationContext \<Rightarrow> string \<Rightarrow> ValidationContext" where
  "context_with_group ctx g = insert g ctx"

definition context_insert_group :: "ValidationContext \<Rightarrow> string \<Rightarrow> bool \<times> ValidationContext" where
  "context_insert_group ctx g = (g \<notin> ctx, insert g ctx)"

definition context_extend_groups :: "ValidationContext \<Rightarrow> string list \<Rightarrow> ValidationContext" where
  "context_extend_groups ctx gs = ctx \<union> set gs"

definition has_group :: "ValidationContext \<Rightarrow> string \<Rightarrow> bool" where
  "has_group ctx g \<longleftrightarrow> g \<in> ctx"

record DtoValidationError =
  ve_field :: string
  ve_constraints :: "string \<rightharpoonup> string"

definition validation_error_new :: "string \<Rightarrow> DtoValidationError" where
  "validation_error_new field = \<lparr>ve_field = field, ve_constraints = Map.empty\<rparr>"

definition with_constraint :: "DtoValidationError \<Rightarrow> string \<Rightarrow> string \<Rightarrow> DtoValidationError" where
  "with_constraint e rule msg = e\<lparr>ve_constraints := (ve_constraints e)(rule \<mapsto> msg)\<rparr>"

definition validation_errors_text :: "DtoValidationError list \<Rightarrow> string" where
  "validation_errors_text errors =
     (case errors of
        [] \<Rightarrow> ''validation failed with no errors''
      | [first] \<Rightarrow> ''validation failed for `'' @ ve_field first @ ''`''
      | _ \<Rightarrow> ''validation failed with '' @ show_nat (length errors) @ '' errors'')"

record ValidationOps =
  vo_uri :: "string \<Rightarrow> (bool \<times> bool) option"
  vo_regex :: "string \<Rightarrow> (string \<Rightarrow> bool) option"
  vo_uuid :: "string \<Rightarrow> bool"
  vo_enum :: "string \<Rightarrow> string \<Rightarrow> bool"

text \<open>A URI parses to whether it has a scheme and whether it has an authority.\<close>

definition is_url :: "ValidationOps \<Rightarrow> string \<Rightarrow> bool" where
  "is_url V s = (case vo_uri V s of Some (scheme, authority) \<Rightarrow> scheme \<and> authority | None \<Rightarrow> False)"

definition matches_regex :: "ValidationOps \<Rightarrow> string \<Rightarrow> string \<Rightarrow> bool" where
  "matches_regex V s pattern = (case vo_regex V pattern of Some is_match \<Rightarrow> is_match s | None \<Rightarrow> False)"

section \<open>Floats\<close>

datatype F64 = Finite rat | PosInf | NegInf | NaN

fun f64_less :: "F64 \<Rightarrow> F64 \<Rightarrow> bool" where
  "f64_less (Finite a) (Finite b) \<longleftrightarrow> a < b"
| "f64_less NegInf (Finite _) \<longleftrightarrow> True"
| "f64_less NegInf PosInf \<longleftrightarrow> True"
| "f64_less (Finite _) PosInf \<longleftrightarrow> True"
| "f64_less _ _ \<longleftrightarrow> False"

text \<open>\<open>as f64\<close> on an integer: to the nearest float, ties to even. No integer type reaches the overflow.\<close>

definition round_magnitude :: "nat \<Rightarrow> nat" where
  "round_magnitude n =
     (if n < 2 ^ 53 then n
      else
        let k = floorlog 2 n - 53;
            q = n div 2 ^ k; r = n mod 2 ^ k;
            up = 2 * r > 2 ^ k \<or> (2 * r = 2 ^ k \<and> odd q)
        in (if up then q + 1 else q) * 2 ^ k)"

definition int_as_f64 :: "int \<Rightarrow> F64" where
  "int_as_f64 n =
     Finite (of_int (if n < 0 then - int (round_magnitude (nat (- n))) else int (round_magnitude (nat n))))"

section \<open>Types and attributes\<close>

text \<open>A path type is its last segment with the type arguments of that segment.\<close>

datatype Ty = TyPath string "Ty list" | TyReference Ty | TyGroup Ty | TyParen Ty | TySlice Ty | TyOther

fun is_string_like_type :: "Ty \<Rightarrow> bool" where
  "is_string_like_type (TyPath s _) \<longleftrightarrow> s = ''String'' \<or> s = ''str''"
| "is_string_like_type (TyReference t) = is_string_like_type t"
| "is_string_like_type (TyGroup t) = is_string_like_type t"
| "is_string_like_type (TyParen t) = is_string_like_type t"
| "is_string_like_type _ = False"

fun is_boolean_like_type :: "Ty \<Rightarrow> bool" where
  "is_boolean_like_type (TyPath s _) \<longleftrightarrow> s = ''bool''"
| "is_boolean_like_type (TyReference t) = is_boolean_like_type t"
| "is_boolean_like_type (TyGroup t) = is_boolean_like_type t"
| "is_boolean_like_type (TyParen t) = is_boolean_like_type t"
| "is_boolean_like_type _ = False"

definition is_integer_primitive :: "string \<Rightarrow> bool" where
  "is_integer_primitive s \<longleftrightarrow>
     s \<in> set [''i8'', ''i16'', ''i32'', ''i64'', ''i128'', ''isize'', ''u8'', ''u16'', ''u32'', ''u64'', ''u128'', ''usize'']"

definition is_numeric_primitive :: "string \<Rightarrow> bool" where
  "is_numeric_primitive s \<longleftrightarrow>
     s \<in> set [''i8'', ''i16'', ''i32'', ''i64'', ''i128'', ''isize'', ''u8'', ''u16'', ''u32'', ''u64'', ''u128'', ''usize'', ''f32'', ''f64'']"

fun is_number_like_type :: "Ty \<Rightarrow> bool" where
  "is_number_like_type (TyPath s _) \<longleftrightarrow> is_numeric_primitive s"
| "is_number_like_type (TyReference t) = is_number_like_type t"
| "is_number_like_type (TyGroup t) = is_number_like_type t"
| "is_number_like_type (TyParen t) = is_number_like_type t"
| "is_number_like_type _ = False"

fun is_int_like_type :: "Ty \<Rightarrow> bool" where
  "is_int_like_type (TyPath s _) \<longleftrightarrow> is_integer_primitive s"
| "is_int_like_type (TyReference t) = is_int_like_type t"
| "is_int_like_type (TyGroup t) = is_int_like_type t"
| "is_int_like_type (TyParen t) = is_int_like_type t"
| "is_int_like_type _ = False"

fun is_option_like_type :: "Ty \<Rightarrow> bool" where
  "is_option_like_type (TyPath s _) \<longleftrightarrow> s = ''Option''"
| "is_option_like_type (TyReference t) = is_option_like_type t"
| "is_option_like_type (TyGroup t) = is_option_like_type t"
| "is_option_like_type (TyParen t) = is_option_like_type t"
| "is_option_like_type _ = False"

fun is_vec_like_type :: "Ty \<Rightarrow> bool" where
  "is_vec_like_type (TyPath s _) \<longleftrightarrow> s = ''Vec''"
| "is_vec_like_type (TyReference t) = is_vec_like_type t"
| "is_vec_like_type (TyGroup t) = is_vec_like_type t"
| "is_vec_like_type (TyParen t) = is_vec_like_type t"
| "is_vec_like_type _ = False"

fun is_slice_like_type :: "Ty \<Rightarrow> bool" where
  "is_slice_like_type (TySlice _) = True"
| "is_slice_like_type (TyReference t) = is_slice_like_type t"
| "is_slice_like_type (TyGroup t) = is_slice_like_type t"
| "is_slice_like_type (TyParen t) = is_slice_like_type t"
| "is_slice_like_type _ = False"

fun option_inner_type :: "Ty \<Rightarrow> Ty option" where
  "option_inner_type (TyPath s args) =
     (if s \<noteq> ''Option'' then None else case args of [] \<Rightarrow> None | inner # _ \<Rightarrow> Some inner)"
| "option_inner_type (TyReference t) = option_inner_type t"
| "option_inner_type (TyGroup t) = option_inner_type t"
| "option_inner_type (TyParen t) = option_inner_type t"
| "option_inner_type _ = None"

record NumericBound =
  nb_value :: F64
  nb_display :: string

datatype FieldAttr =
    IsOptional | Groups "string list" | ValidateIf string string
  | IsEmail | IsString | IsNumber | IsInt | IsBoolean | IsUuid | IsEnum string | IsUrl | MatchesAttr string
  | IsNotEmpty | CustomValidate string | ArrayMinSize nat | ArrayMaxSize nat | MinAttr NumericBound | MaxAttr NumericBound
  | ValidateNested | MinLength nat | MaxLength nat | OtherAttr

record Field =
  fd_name :: string
  fd_ty :: Ty
  fd_attrs :: "FieldAttr list"

datatype DeriveMode = Dto | PartialDto

definition requires_option_fields :: "DeriveMode \<Rightarrow> bool" where
  "requires_option_fields mode \<longleftrightarrow> mode = PartialDto"

section \<open>Expansion\<close>

definition ensure :: "bool \<Rightarrow> string \<Rightarrow> string + unit" where
  "ensure b msg = (if b then Inr () else Inl msg)"

text \<open>What \<open>build_field_checks\<close> demands of a field's type for each attribute; \<open>rustc\<close> sees to the rest.\<close>

fun ensure_type :: "Ty \<Rightarrow> FieldAttr \<Rightarrow> string + unit" where
  "ensure_type ty IsString = ensure (is_string_like_type ty) ''expected a string field for `#[is_string]`''"
| "ensure_type ty IsNumber = ensure (is_number_like_type ty) ''expected a numeric field for `#[is_number]`''"
| "ensure_type ty IsInt = ensure (is_int_like_type ty) ''expected an integer field for `#[is_int]`''"
| "ensure_type ty IsBoolean = ensure (is_boolean_like_type ty) ''expected a bool field for `#[is_boolean]`''"
| "ensure_type ty IsUuid = ensure (is_string_like_type ty) ''expected a string field for `#[is_uuid]`''"
| "ensure_type ty (IsEnum _) = ensure (is_string_like_type ty) ''expected a string field for `#[is_enum]`''"
| "ensure_type ty IsUrl = ensure (is_string_like_type ty) ''expected a string field for `#[is_url]`''"
| "ensure_type ty (MatchesAttr _) = ensure (is_string_like_type ty) ''expected a string field for `#[matches]`''"
| "ensure_type ty IsNotEmpty =
     ensure (is_string_like_type ty \<or> is_vec_like_type ty \<or> is_slice_like_type ty)
       ''expected a string, slice, or vec-like field for `#[is_not_empty]`''"
| "ensure_type ty (ArrayMinSize _) = ensure (is_vec_like_type ty) ''expected a vec field for `#[array_min_size]`''"
| "ensure_type ty (ArrayMaxSize _) = ensure (is_vec_like_type ty) ''expected a vec field for `#[array_max_size]`''"
| "ensure_type ty (MinAttr _) = ensure (is_number_like_type ty) ''expected a numeric field for `#[min]`''"
| "ensure_type ty (MaxAttr _) = ensure (is_number_like_type ty) ''expected a numeric field for `#[max]`''"
| "ensure_type ty _ = Inr ()"

datatype NestedShape = NestedDirect | NestedBorrowed | NestedOption | NestedVec | NestedVecOption

text \<open>For an optional field the generated call borrows what is borrowed already: \<open>NestedBorrowed\<close>.\<close>

definition nested_shape :: "Ty \<Rightarrow> bool \<Rightarrow> NestedShape" where
  "nested_shape ty is_optional =
     (if is_optional then NestedBorrowed
      else if is_option_like_type ty then
        (case option_inner_type ty of
           Some inner \<Rightarrow> if is_vec_like_type inner then NestedVecOption else NestedOption
         | None \<Rightarrow> NestedOption)
      else if is_vec_like_type ty then NestedVec
      else NestedDirect)"

datatype Check =
    CheckEmail | CheckUuid | CheckEnum string | CheckUrl | CheckMatches string | CheckNotEmpty | CheckCustom string
  | CheckArrayMin nat | CheckArrayMax nat | CheckMin NumericBound | CheckMax NumericBound
  | CheckMinLength nat | CheckMaxLength nat | CheckNested NestedShape

fun attr_check :: "Ty \<Rightarrow> bool \<Rightarrow> FieldAttr \<Rightarrow> Check option" where
  "attr_check ty is_optional IsEmail = Some CheckEmail"
| "attr_check ty is_optional IsUuid = Some CheckUuid"
| "attr_check ty is_optional (IsEnum e) = Some (CheckEnum e)"
| "attr_check ty is_optional IsUrl = Some CheckUrl"
| "attr_check ty is_optional (MatchesAttr p) = Some (CheckMatches p)"
| "attr_check ty is_optional IsNotEmpty = Some CheckNotEmpty"
| "attr_check ty is_optional (CustomValidate f) = Some (CheckCustom f)"
| "attr_check ty is_optional (ArrayMinSize n) = Some (CheckArrayMin n)"
| "attr_check ty is_optional (ArrayMaxSize n) = Some (CheckArrayMax n)"
| "attr_check ty is_optional (MinAttr b) = Some (CheckMin b)"
| "attr_check ty is_optional (MaxAttr b) = Some (CheckMax b)"
| "attr_check ty is_optional ValidateNested = Some (CheckNested (nested_shape ty is_optional))"
| "attr_check ty is_optional (MinLength n) = Some (CheckMinLength n)"
| "attr_check ty is_optional (MaxLength n) = Some (CheckMaxLength n)"
| "attr_check ty is_optional _ = None"

text \<open>The loop over the attributes: types are checked against the field's own type, or the type inside its \<open>Option\<close>.\<close>

fun attr_checks :: "Ty \<Rightarrow> Ty \<Rightarrow> bool \<Rightarrow> FieldAttr list \<Rightarrow> string + Check list" where
  "attr_checks whole_ty ty is_optional [] = Inr []"
| "attr_checks whole_ty ty is_optional (a # as) =
     (case ensure_type ty a of
        Inl e \<Rightarrow> Inl e
      | Inr _ \<Rightarrow>
          map_sum id (\<lambda>cs. case attr_check whole_ty is_optional a of Some c \<Rightarrow> c # cs | None \<Rightarrow> cs)
            (attr_checks whole_ty ty is_optional as))"

text \<open>A guard: the field it reads, whether that is an \<open>Option\<close>, the value expected.\<close>

record FieldCode =
  fc_name :: string
  fc_unwrap :: bool
  fc_guards :: "(string \<times> bool \<times> string) list"
  fc_groups :: "string list"
  fc_checks :: "Check list"

definition build_validate_if_guard :: "Field list \<Rightarrow> string \<Rightarrow> string \<Rightarrow> string + string \<times> bool \<times> string" where
  "build_validate_if_guard all_fields source expected =
     (case find (\<lambda>f. fd_name f = source) all_fields of
        None \<Rightarrow> Inl (''unknown field `'' @ source @ ''` for `#[validate_if]`'')
      | Some f \<Rightarrow>
          if is_string_like_type (fd_ty f) \<or>
             (case option_inner_type (fd_ty f) of Some inner \<Rightarrow> is_string_like_type inner | None \<Rightarrow> False)
          then Inr (source, is_option_like_type (fd_ty f), expected)
          else Inl ''expected a string or Option<String> field for `#[validate_if]`'')"

fun validate_if_guards :: "Field list \<Rightarrow> FieldAttr list \<Rightarrow> string + (string \<times> bool \<times> string) list" where
  "validate_if_guards all_fields [] = Inr []"
| "validate_if_guards all_fields (ValidateIf source expected # as) =
     (case build_validate_if_guard all_fields source expected of
        Inl e \<Rightarrow> Inl e
      | Inr g \<Rightarrow> map_sum id ((#) g) (validate_if_guards all_fields as))"
| "validate_if_guards all_fields (_ # as) = validate_if_guards all_fields as"

fun field_groups :: "FieldAttr list \<Rightarrow> string + string list" where
  "field_groups [] = Inr []"
| "field_groups (Groups gs # as) =
     (if gs = [] then Inl ''expected `#[groups(\"create\", \"update\")]`''
      else map_sum id ((@) gs) (field_groups as))"
| "field_groups (_ # as) = field_groups as"

definition build_field_checks :: "Field \<Rightarrow> Field list \<Rightarrow> DeriveMode \<Rightarrow> string + FieldCode option" where
  "build_field_checks field all_fields mode =
     (let is_optional = (IsOptional \<in> set (fd_attrs field));
          unwrap = (is_optional \<or> requires_option_fields mode)
      in case (if unwrap
               then (case option_inner_type (fd_ty field) of
                       Some inner \<Rightarrow> Inr inner
                     | None \<Rightarrow> Inl (case mode of
                         Dto \<Rightarrow> ''expected an `Option<T>` field for `#[is_optional]`''
                       | PartialDto \<Rightarrow> ''expected an `Option<T>` field for `#[derive(PartialDto)]`''))
               else Inr (fd_ty field)) of
           Inl e \<Rightarrow> Inl e
         | Inr ty \<Rightarrow>
             (case field_groups (fd_attrs field) of
                Inl e \<Rightarrow> Inl e
              | Inr groups \<Rightarrow>
                  (case validate_if_guards all_fields (fd_attrs field) of
                     Inl e \<Rightarrow> Inl e
                   | Inr guards \<Rightarrow>
                       (case attr_checks (fd_ty field) ty is_optional (fd_attrs field) of
                          Inl e \<Rightarrow> Inl e
                        | Inr checks \<Rightarrow>
                            if checks = [] then Inr None
                            else Inr (Some \<lparr>fc_name = fd_name field, fc_unwrap = unwrap, fc_guards = guards,
                              fc_groups = groups, fc_checks = checks\<rparr>)))))"

fun build_all_checks :: "Field list \<Rightarrow> Field list \<Rightarrow> DeriveMode \<Rightarrow> string + FieldCode list" where
  "build_all_checks [] all_fields mode = Inr []"
| "build_all_checks (f # fs) all_fields mode =
     (case build_field_checks f all_fields mode of
        Inl e \<Rightarrow> Inl e
      | Inr code \<Rightarrow>
          map_sum id (\<lambda>codes. case code of Some c \<Rightarrow> c # codes | None \<Rightarrow> codes) (build_all_checks fs all_fields mode))"

definition expand_validation_derive :: "Field list \<Rightarrow> DeriveMode \<Rightarrow> string + FieldCode list" where
  "expand_validation_derive all_fields mode = build_all_checks all_fields all_fields mode"

section \<open>Running the generated code\<close>

datatype Val = VStr string | VInt int | VFloat F64 | VBool bool | VOpt "Val option" | VVec "Val list" | VDto nat "(string \<times> Val) list"

text \<open>The length of a string in bytes of UTF-8.\<close>

definition byte_length :: "string \<Rightarrow> nat" where
  "byte_length s = sum_list (map (\<lambda>c. if of_char c < (0x80 :: nat) then 1 else 2) s)"

fun value_length :: "Val \<Rightarrow> nat" where
  "value_length (VStr s) = byte_length s"
| "value_length (VVec vs) = length vs"
| "value_length _ = 0"

fun as_f64 :: "Val \<Rightarrow> F64" where
  "as_f64 (VInt n) = int_as_f64 n"
| "as_f64 (VFloat x) = x"
| "as_f64 _ = NaN"

definition text_of :: "Val \<Rightarrow> string" where
  "text_of v = (case v of VStr s \<Rightarrow> s | _ \<Rightarrow> [])"

text \<open>Whether a rule other than nesting holds of a value. Custom validators are the last argument.\<close>

fun rule_holds :: "ValidationOps \<Rightarrow> (string \<Rightarrow> Val \<Rightarrow> bool) \<Rightarrow> Check \<Rightarrow> Val \<Rightarrow> bool" where
  "rule_holds V custom CheckEmail v \<longleftrightarrow> CHR 0x40 \<in> set (text_of v)"
| "rule_holds V custom CheckUuid v \<longleftrightarrow> vo_uuid V (text_of v)"
| "rule_holds V custom (CheckEnum e) v \<longleftrightarrow> vo_enum V e (text_of v)"
| "rule_holds V custom CheckUrl v \<longleftrightarrow> is_url V (text_of v)"
| "rule_holds V custom (CheckMatches p) v \<longleftrightarrow> matches_regex V (text_of v) p"
| "rule_holds V custom CheckNotEmpty v \<longleftrightarrow> value_length v \<noteq> 0"
| "rule_holds V custom (CheckCustom f) v \<longleftrightarrow> custom f v"
| "rule_holds V custom (CheckArrayMin n) v \<longleftrightarrow> \<not> value_length v < n"
| "rule_holds V custom (CheckArrayMax n) v \<longleftrightarrow> \<not> value_length v > n"
| "rule_holds V custom (CheckMin b) v \<longleftrightarrow> \<not> f64_less (as_f64 v) (nb_value b)"
| "rule_holds V custom (CheckMax b) v \<longleftrightarrow> \<not> f64_less (nb_value b) (as_f64 v)"
| "rule_holds V custom (CheckMinLength n) v \<longleftrightarrow> \<not> value_length v < n"
| "rule_holds V custom (CheckMaxLength n) v \<longleftrightarrow> \<not> value_length v > n"
| "rule_holds V custom (CheckNested _) v \<longleftrightarrow> True"

fun rule_constraint :: "Check \<Rightarrow> string \<times> string" where
  "rule_constraint CheckEmail = (''is_email'', ''must be a valid email'')"
| "rule_constraint CheckUuid = (''is_uuid'', ''must be a valid UUID'')"
| "rule_constraint (CheckEnum _) = (''is_enum'', ''must be a valid enum variant'')"
| "rule_constraint CheckUrl = (''is_url'', ''must be a valid URL'')"
| "rule_constraint (CheckMatches _) = (''matches'', ''must match the required pattern'')"
| "rule_constraint CheckNotEmpty = (''is_not_empty'', ''must not be empty'')"
| "rule_constraint (CheckCustom _) = (''custom_validate'', ''failed custom validation'')"
| "rule_constraint (CheckArrayMin n) = (''array_min_size'', ''must contain at least '' @ show_nat n @ '' items'')"
| "rule_constraint (CheckArrayMax n) = (''array_max_size'', ''must contain at most '' @ show_nat n @ '' items'')"
| "rule_constraint (CheckMin b) = (''min'', ''must be at least '' @ nb_display b)"
| "rule_constraint (CheckMax b) = (''max'', ''must be at most '' @ nb_display b)"
| "rule_constraint (CheckMinLength n) = (''min_length'', ''must be at least '' @ show_nat n @ '' characters'')"
| "rule_constraint (CheckMaxLength n) = (''max_length'', ''must be at most '' @ show_nat n @ '' characters'')"
| "rule_constraint (CheckNested _) = ([], [])"

definition rule_error :: "string \<Rightarrow> Check \<Rightarrow> DtoValidationError" where
  "rule_error label k = with_constraint (validation_error_new label) (fst (rule_constraint k)) (snd (rule_constraint k))"

definition prefix_child :: "string \<Rightarrow> DtoValidationError \<Rightarrow> DtoValidationError" where
  "prefix_child label e = e\<lparr>ve_field := (if ve_field e = [] then label else label @ ''.'' @ ve_field e)\<rparr>"

definition indexed :: "string \<Rightarrow> nat \<Rightarrow> string" where
  "indexed label i = label @ ''['' @ show_nat i @ '']''"

text \<open>The errors of a nested field, from those of the objects in it.\<close>

fun nested_errors :: "string \<Rightarrow> NestedShape \<Rightarrow> Val \<Rightarrow> DtoValidationError list list \<Rightarrow> DtoValidationError list" where
  "nested_errors label NestedDirect (VDto _ _) children = concat (map (map (prefix_child label)) children)"
| "nested_errors label NestedOption (VOpt (Some (VDto _ _))) children = concat (map (map (prefix_child label)) children)"
| "nested_errors label NestedVec (VVec _) children =
     concat (map (\<lambda>(i, es). map (prefix_child (indexed label i)) es) (enumerate 0 children))"
| "nested_errors label NestedVecOption (VOpt (Some (VVec _))) children =
     concat (map (\<lambda>(i, es). map (prefix_child (indexed label i)) es) (enumerate 0 children))"
| "nested_errors label _ _ children = []"

definition run_check where
  "run_check V custom label raw children k v =
     (case k of
        CheckNested shape \<Rightarrow> nested_errors label shape raw children
      | _ \<Rightarrow> if rule_holds V custom k v then [] else [rule_error label k])"

definition guard_holds :: "(string \<times> Val) list \<Rightarrow> string \<times> bool \<times> string \<Rightarrow> bool" where
  "guard_holds fs g \<longleftrightarrow>
     (case g of (source, is_option, expected) \<Rightarrow>
        map_of fs source = Some (if is_option then VOpt (Some (VStr expected)) else VStr expected))"

definition field_active :: "ValidationContext \<Rightarrow> (string \<times> Val) list \<Rightarrow> FieldCode \<Rightarrow> bool" where
  "field_active ctx fs fc \<longleftrightarrow>
     (fc_groups fc = [] \<or> list_ex (has_group ctx) (fc_groups fc)) \<and> list_all (guard_holds fs) (fc_guards fc)"

definition unwrap_value :: "bool \<Rightarrow> Val \<Rightarrow> Val option" where
  "unwrap_value unwrap raw = (if unwrap then (case raw of VOpt u \<Rightarrow> u | _ \<Rightarrow> None) else Some raw)"

definition run_field where
  "run_field V custom ctx fs children fc =
     (if field_active ctx fs fc
      then (case map_of fs (fc_name fc) of
              None \<Rightarrow> []
            | Some raw \<Rightarrow>
                (case unwrap_value (fc_unwrap fc) raw of
                   None \<Rightarrow> []
                 | Some v \<Rightarrow>
                     concat (map (\<lambda>k. run_check V custom (fc_name fc) raw (the (map_of children (fc_name fc))) k v) (fc_checks fc))))
      else [])"

text \<open>The errors of each object in a value: one list for an object, one per element for a vector.\<close>

function child_errors where
  "child_errors V custom code ctx (VDto c fs) =
     [concat (map (run_field V custom ctx fs (map (\<lambda>p. (fst p, child_errors V custom code ctx (snd p))) fs)) (code c))]"
| "child_errors V custom code ctx (VVec vs) =
     map (\<lambda>v. case v of VDto c fs \<Rightarrow> concat (child_errors V custom code ctx v) | _ \<Rightarrow> []) vs"
| "child_errors V custom code ctx (VOpt (Some v)) = child_errors V custom code ctx v"
| "child_errors V custom code ctx (VOpt None) = []"
| "child_errors V custom code ctx (VStr _) = []"
| "child_errors V custom code ctx (VInt _) = []"
| "child_errors V custom code ctx (VFloat _) = []"
| "child_errors V custom code ctx (VBool _) = []"
  by pat_completeness auto
termination
proof (relation "measure (\<lambda>(V, custom, code, ctx, v). size v)", goal_cases)
  case (2 V custom code ctx c fs fc p)
  then have "size (snd p) \<le> size_list (size_prod (\<lambda>_. 0) size) fs"
    by (intro size_list_estimation' [of p]) (simp_all add: size_prod_simp)
  then show ?case by simp
next
  case (3 V custom code ctx vs v c fs)
  then have "size v \<le> size_list size vs" by (intro size_list_estimation' [of v]) simp_all
  then show ?case by simp
qed simp_all

definition validate_with where
  "validate_with V custom code ctx v =
     (let errors = concat (child_errors V custom code ctx v) in if errors = [] then Inr () else Inl errors)"

section \<open>What a validation reports\<close>

text \<open>Where a value is inside an object.\<close>

datatype Step = SField string | SIndex nat

fun render_path :: "Step list \<Rightarrow> string" where
  "render_path [] = []"
| "render_path (SField n # p) = n @ (case p of SField _ # _ \<Rightarrow> ''.'' @ render_path p | _ \<Rightarrow> render_path p)"
| "render_path (SIndex i # p) =
     ''['' @ show_nat i @ '']'' @ (case p of SField _ # _ \<Rightarrow> ''.'' @ render_path p | _ \<Rightarrow> render_path p)"

text \<open>The objects a nested field holds, each with the steps from the field to it.\<close>

fun nested_objects :: "NestedShape \<Rightarrow> Val \<Rightarrow> (Step list \<times> Val) list" where
  "nested_objects NestedDirect (VDto c fs) = [([], VDto c fs)]"
| "nested_objects NestedOption (VOpt (Some (VDto c fs))) = [([], VDto c fs)]"
| "nested_objects NestedVec (VVec us) = map (\<lambda>(i, u). ([SIndex i], u)) (enumerate 0 us)"
| "nested_objects NestedVecOption (VOpt (Some (VVec us))) = map (\<lambda>(i, u). ([SIndex i], u)) (enumerate 0 us)"
| "nested_objects _ _ = []"

inductive violation :: "ValidationOps \<Rightarrow> (string \<Rightarrow> Val \<Rightarrow> bool) \<Rightarrow> (nat \<Rightarrow> FieldCode list) \<Rightarrow> ValidationContext \<Rightarrow>
    Val \<Rightarrow> Step list \<Rightarrow> Check \<Rightarrow> bool"
  for V custom code ctx where
  own: "fc \<in> set (code c) \<Longrightarrow> field_active ctx fs fc \<Longrightarrow> map_of fs (fc_name fc) = Some raw \<Longrightarrow>
    unwrap_value (fc_unwrap fc) raw = Some v \<Longrightarrow> k \<in> set (fc_checks fc) \<Longrightarrow> \<not> rule_holds V custom k v \<Longrightarrow>
    violation V custom code ctx (VDto c fs) [SField (fc_name fc)] k"
| nested: "fc \<in> set (code c) \<Longrightarrow> field_active ctx fs fc \<Longrightarrow> map_of fs (fc_name fc) = Some raw \<Longrightarrow>
    unwrap_value (fc_unwrap fc) raw = Some v \<Longrightarrow> CheckNested shape \<in> set (fc_checks fc) \<Longrightarrow>
    (steps, u) \<in> set (nested_objects shape raw) \<Longrightarrow> violation V custom code ctx u p k \<Longrightarrow>
    violation V custom code ctx (VDto c fs) (SField (fc_name fc) # steps @ p) k"

inductive_cases violation_dto: "violation V custom code ctx (VDto c fs) p k"

definition named_fields :: "(nat \<Rightarrow> FieldCode list) \<Rightarrow> bool" where
  "named_fields code \<longleftrightarrow> (\<forall>c. \<forall>fc \<in> set (code c). fc_name fc \<noteq> [])"

lemma violation_path:
  "violation V custom code ctx u p k \<Longrightarrow> named_fields code \<Longrightarrow> \<exists>n q. p = SField n # q \<and> n \<noteq> []"
  by (induction rule: violation.induct) (auto simp: named_fields_def)

lemma prefixed_error:
  assumes "p = SField n # q" and "n \<noteq> []" and "steps = [] \<or> (\<exists>i. steps = [SIndex i])"
  shows "prefix_child (render_path (SField l # steps)) (rule_error (render_path p) k) = rule_error (render_path (SField l # steps @ p)) k"
  using assms by (auto simp: prefix_child_def rule_error_def with_constraint_def validation_error_new_def split: list.split Step.split)

lemma nested_steps: "(steps, u) \<in> set (nested_objects shape raw) \<Longrightarrow> steps = [] \<or> (\<exists>i. steps = [SIndex i])"
  by (induction shape raw rule: nested_objects.induct) (auto simp: in_set_enumerate_eq)

lemma size_elem: "u \<in> set us \<Longrightarrow> size u < size (VVec us)"
  using size_list_estimation' [of u us "size u" size] by simp

lemma size_field: "map_of fs n = Some u \<Longrightarrow> size u < size (VDto c fs)"
  using size_list_estimation' [of "(n, u)" fs "size u" "size_prod (\<lambda>_. 0) size"] by (auto dest!: map_of_SomeD)

lemma nested_smaller: "(steps, u) \<in> set (nested_objects shape raw) \<Longrightarrow> size u \<le> size raw"
proof (induction shape raw rule: nested_objects.induct)
  case (3 us)
  then show ?case using size_elem [of u us] by (auto simp: in_set_enumerate_eq)
next
  case (4 us)
  then show ?case using size_elem [of u us] by (auto simp: in_set_enumerate_eq)
qed simp_all

definition dto_errors where
  "dto_errors V custom code ctx v = (case v of VDto c fs \<Rightarrow> concat (child_errors V custom code ctx v) | _ \<Rightarrow> [])"

lemma child_errors_vec: "child_errors V custom code ctx (VVec us) = map (dto_errors V custom code ctx) us"
  by (simp add: dto_errors_def fun_eq_iff cong: map_cong split: Val.split)

lemma set_enumerated:
  "set (concat (map (\<lambda>(i, es). map (g i) es) (enumerate 0 (map f us)))) = (\<Union>(i, u) \<in> set (enumerate 0 us). g i ` set (f u))"
  by (force simp: in_set_enumerate_eq)

lemma set_prefixed: "set (concat (map (map g) xs)) = g ` set (concat xs)"
  by (simp only: map_concat [symmetric] set_map)

lemma nested_errors_set:
  "set (nested_errors label shape raw (child_errors V custom code ctx raw)) =
     (\<Union>(steps, u) \<in> set (nested_objects shape raw). prefix_child (render_path (SField label # steps)) ` set (dto_errors V custom code ctx u))"
proof (induction shape raw rule: nested_objects.induct)
  case (1 c fs)
  then show ?case by (simp add: dto_errors_def set_prefixed del: child_errors.simps set_concat)
next
  case (2 c fs)
  then show ?case by (simp add: dto_errors_def set_prefixed del: child_errors.simps(1) set_concat)
next
  case (3 us)
  then show ?case
    using set_enumerated [of "\<lambda>i. prefix_child (indexed label i)" "dto_errors V custom code ctx" us]
    by (simp add: child_errors_vec indexed_def case_prod_unfold del: child_errors.simps)
next
  case (4 us)
  then show ?case
    using set_enumerated [of "\<lambda>i. prefix_child (indexed label i)" "dto_errors V custom code ctx" us]
    by (simp add: child_errors_vec indexed_def case_prod_unfold del: child_errors.simps(2))
qed simp_all

lemma run_check_set:
  "set (run_check V custom label raw (child_errors V custom code ctx raw) k v) =
     (if \<exists>shape. k = CheckNested shape
      then (\<Union>(steps, u) \<in> set (nested_objects (case k of CheckNested shape \<Rightarrow> shape | _ \<Rightarrow> NestedBorrowed) raw).
              prefix_child (render_path (SField label # steps)) ` set (dto_errors V custom code ctx u))
      else if rule_holds V custom k v then {} else {rule_error label k})"
  by (cases k) (simp_all add: run_check_def nested_errors_set)

lemma run_field_children:
  "run_field V custom ctx fs (map (\<lambda>p. (fst p, f (snd p))) fs) fc =
     (if field_active ctx fs fc
      then (case map_of fs (fc_name fc) of
              None \<Rightarrow> []
            | Some raw \<Rightarrow>
                (case unwrap_value (fc_unwrap fc) raw of
                   None \<Rightarrow> []
                 | Some v \<Rightarrow> concat (map (\<lambda>k. run_check V custom (fc_name fc) raw (f raw) k v) (fc_checks fc))))
      else [])"
proof -
  have "map_of (map (\<lambda>p. (fst p, f (snd p))) fs) n = map_option f (map_of fs n)" for n
    by (induction fs) auto
  then show ?thesis by (simp add: run_field_def split: option.split)
qed

lemma run_field_set:
  "e \<in> set (run_field V custom ctx fs (map (\<lambda>p. (fst p, f (snd p))) fs) fc) \<longleftrightarrow>
     field_active ctx fs fc \<and>
     (\<exists>raw v. map_of fs (fc_name fc) = Some raw \<and> unwrap_value (fc_unwrap fc) raw = Some v \<and>
       (\<exists>k \<in> set (fc_checks fc). e \<in> set (run_check V custom (fc_name fc) raw (f raw) k v)))"
proof (cases "map_of fs (fc_name fc)")
  case raw: (Some raw)
  show ?thesis
  proof (cases "unwrap_value (fc_unwrap fc) raw")
    case None
    have "set (run_field V custom ctx fs (map (\<lambda>p. (fst p, f (snd p))) fs) fc) = {}"
      unfolding run_field_children raw None option.case by simp
    then show ?thesis using raw None by fastforce
  next
    case (Some v)
    have "set (run_field V custom ctx fs (map (\<lambda>p. (fst p, f (snd p))) fs) fc) =
        (if field_active ctx fs fc then \<Union>k \<in> set (fc_checks fc). set (run_check V custom (fc_name fc) raw (f raw) k v) else {})"
      unfolding run_field_children raw Some option.case by auto
    then have "e \<in> set (run_field V custom ctx fs (map (\<lambda>p. (fst p, f (snd p))) fs) fc) \<longleftrightarrow>
        field_active ctx fs fc \<and> (\<exists>k \<in> set (fc_checks fc). e \<in> set (run_check V custom (fc_name fc) raw (f raw) k v))"
      by simp
    moreover have "(\<exists>raw v. map_of fs (fc_name fc) = Some raw \<and> unwrap_value (fc_unwrap fc) raw = Some v \<and> Q raw v) \<longleftrightarrow> Q raw v" for Q
      using raw Some by fastforce
    ultimately show ?thesis by (simp only:)
  qed
next
  case None
  have "set (run_field V custom ctx fs (map (\<lambda>p. (fst p, f (snd p))) fs) fc) = {}"
    unfolding run_field_children None option.case by simp
  then show ?thesis using None by fastforce
qed

lemma dto_errors_dto:
  "set (dto_errors V custom code ctx (VDto c fs)) =
     {e. \<exists>fc raw v k. fc \<in> set (code c) \<and> field_active ctx fs fc \<and> map_of fs (fc_name fc) = Some raw \<and>
        unwrap_value (fc_unwrap fc) raw = Some v \<and> k \<in> set (fc_checks fc) \<and>
        e \<in> set (run_check V custom (fc_name fc) raw (child_errors V custom code ctx raw) k v)}"
proof -
  have "set (dto_errors V custom code ctx (VDto c fs)) =
      (\<Union>fc \<in> set (code c). set (run_field V custom ctx fs (map (\<lambda>p. (fst p, child_errors V custom code ctx (snd p))) fs) fc))"
    by (auto simp: dto_errors_def)
  also have "\<dots> = {e. \<exists>fc raw v k. fc \<in> set (code c) \<and> field_active ctx fs fc \<and> map_of fs (fc_name fc) = Some raw \<and>
        unwrap_value (fc_unwrap fc) raw = Some v \<and> k \<in> set (fc_checks fc) \<and>
        e \<in> set (run_check V custom (fc_name fc) raw (child_errors V custom code ctx raw) k v)}"
    using run_field_set [of _ V custom ctx fs "child_errors V custom code ctx"] by (simp add: set_eq_iff) blast
  finally show ?thesis .
qed

lemma violation_dtoD:
  "violation V custom code ctx (VDto c fs) p k \<Longrightarrow>
   \<exists>fc raw v. fc \<in> set (code c) \<and> field_active ctx fs fc \<and> map_of fs (fc_name fc) = Some raw \<and> unwrap_value (fc_unwrap fc) raw = Some v \<and>
     (p = [SField (fc_name fc)] \<and> k \<in> set (fc_checks fc) \<and> \<not> rule_holds V custom k v \<or>
      (\<exists>shape steps u q. CheckNested shape \<in> set (fc_checks fc) \<and> (steps, u) \<in> set (nested_objects shape raw) \<and>
         violation V custom code ctx u q k \<and> p = SField (fc_name fc) # steps @ q))"
  by (erule violation.cases) blast+

lemma errors_are_violations:
  assumes "named_fields code"
  shows "set (dto_errors V custom code ctx v) = {rule_error (render_path p) k | p k. violation V custom code ctx v p k}"
proof (induction "size v" arbitrary: v rule: less_induct)
  case less
  show ?case
  proof (cases v)
    case (VDto c fs)
    show ?thesis
    proof (intro set_eqI iffI)
      fix e
      assume "e \<in> set (dto_errors V custom code ctx v)"
      then obtain fc raw w k where fc: "fc \<in> set (code c)" "field_active ctx fs fc" "map_of fs (fc_name fc) = Some raw"
        "unwrap_value (fc_unwrap fc) raw = Some w" "k \<in> set (fc_checks fc)"
        and e: "e \<in> set (run_check V custom (fc_name fc) raw (child_errors V custom code ctx raw) k w)"
        unfolding VDto dto_errors_dto by blast
      show "e \<in> {rule_error (render_path p) k | p k. violation V custom code ctx v p k}"
      proof (cases "\<exists>shape. k = CheckNested shape")
        case True
        then obtain shape where k: "k = CheckNested shape" by blast
        then obtain steps u d where u: "(steps, u) \<in> set (nested_objects shape raw)" "d \<in> set (dto_errors V custom code ctx u)"
          and e1: "e = prefix_child (render_path (SField (fc_name fc) # steps)) d"
          using e unfolding run_check_set by auto
        have "size u < size v" using nested_smaller [OF u(1)] size_field [OF fc(3), of c] VDto by simp
        then obtain p r where d: "d = rule_error (render_path p) r" and viol: "violation V custom code ctx u p r"
          using less u(2) by blast
        obtain n q where "p = SField n # q" "n \<noteq> []" using violation_path [OF viol assms] by blast
        then have "e = rule_error (render_path (SField (fc_name fc) # steps @ p)) r"
          using prefixed_error nested_steps [OF u(1)] e1 d by blast
        moreover have "violation V custom code ctx v (SField (fc_name fc) # steps @ p) r"
          unfolding VDto by (rule violation.nested [OF fc(1-4) _ u(1) viol]) (use fc(5) k in simp)
        ultimately show ?thesis by blast
      next
        case False
        then have "\<not> rule_holds V custom k w" "e = rule_error (render_path [SField (fc_name fc)]) k"
          using e unfolding run_check_set by (auto split: if_splits)
        moreover from this have "violation V custom code ctx v [SField (fc_name fc)] k"
          unfolding VDto using fc by (auto intro: violation.own)
        ultimately show ?thesis by blast
      qed
    next
      fix e
      assume "e \<in> {rule_error (render_path p) k | p k. violation V custom code ctx v p k}"
      then obtain p k where e: "e = rule_error (render_path p) k" and "violation V custom code ctx (VDto c fs) p k"
        using VDto by blast
      from violation_dtoD [OF this(2)] obtain fc raw w where
        fc: "fc \<in> set (code c)" "field_active ctx fs fc" "map_of fs (fc_name fc) = Some raw" "unwrap_value (fc_unwrap fc) raw = Some w"
        and "p = [SField (fc_name fc)] \<and> k \<in> set (fc_checks fc) \<and> \<not> rule_holds V custom k w \<or>
          (\<exists>shape steps u q. CheckNested shape \<in> set (fc_checks fc) \<and> (steps, u) \<in> set (nested_objects shape raw) \<and>
             violation V custom code ctx u q k \<and> p = SField (fc_name fc) # steps @ q)" by blast
      from this(5) show "e \<in> set (dto_errors V custom code ctx v)"
      proof
        assume own: "p = [SField (fc_name fc)] \<and> k \<in> set (fc_checks fc) \<and> \<not> rule_holds V custom k w"
        then have "\<not> (\<exists>shape. k = CheckNested shape)" by auto
        then have "e \<in> set (run_check V custom (fc_name fc) raw (child_errors V custom code ctx raw) k w)"
          unfolding run_check_set using own e by simp
        then show ?thesis unfolding VDto dto_errors_dto using fc own by blast
      next
        assume "\<exists>shape steps u q. CheckNested shape \<in> set (fc_checks fc) \<and> (steps, u) \<in> set (nested_objects shape raw) \<and>
             violation V custom code ctx u q k \<and> p = SField (fc_name fc) # steps @ q"
        then obtain shape steps u q where n: "CheckNested shape \<in> set (fc_checks fc)" "(steps, u) \<in> set (nested_objects shape raw)"
          "violation V custom code ctx u q k" "p = SField (fc_name fc) # steps @ q" by blast
        have "size u < size v" using nested_smaller [OF n(2)] size_field [OF fc(3), of c] VDto by simp
        then have inner: "rule_error (render_path q) k \<in> set (dto_errors V custom code ctx u)" using less n(3) by blast
        obtain m r where "q = SField m # r" "m \<noteq> []" using violation_path [OF n(3) assms] by blast
        then have "e = prefix_child (render_path (SField (fc_name fc) # steps)) (rule_error (render_path q) k)"
          using prefixed_error nested_steps [OF n(2)] e n(4) by metis
        then have "e \<in> set (run_check V custom (fc_name fc) raw (child_errors V custom code ctx raw) (CheckNested shape) w)"
          unfolding run_check_set using n(2) inner by force
        then show ?thesis unfolding VDto dto_errors_dto using fc n(1) by blast
      qed
    qed
  qed (auto simp: dto_errors_def elim: violation.cases)
qed

text \<open>C28: Validation reports exactly the violations. A violation is a rule of a field that does not hold of its value, in the
  object itself or in an object that a nested field reaches, where the field's groups and conditions are active and an
  absent optional value satisfies everything. An object is accepted iff it has no violation; otherwise the errors are, as
  a set, one for each violation, with the rule's message under a field name that spells the way to the value
  (\<open>contacts[0].email\<close>).\<close>

theorem validation_reports_violations:
  assumes "named_fields code"
  shows "(validate_with V custom code ctx (VDto c fs) = Inr () \<longleftrightarrow> (\<nexists>p k. violation V custom code ctx (VDto c fs) p k)) \<and>
     (\<forall>errors. validate_with V custom code ctx (VDto c fs) = Inl errors \<longrightarrow>
        set errors = {rule_error (render_path p) k | p k. violation V custom code ctx (VDto c fs) p k})"
proof -
  let ?errors = "concat (child_errors V custom code ctx (VDto c fs))"
  have "set ?errors = {rule_error (render_path p) k | p k. violation V custom code ctx (VDto c fs) p k}"
    using errors_are_violations [OF assms, of V custom ctx "VDto c fs"] unfolding dto_errors_def Val.case .
  moreover have "?errors = [] \<longleftrightarrow> set ?errors = {}" by (simp only: set_empty)
  ultimately show ?thesis unfolding validate_with_def Let_def by (cases "?errors = []") (auto simp del: child_errors.simps concat_eq_Nil_conv)
qed

definition no_ops :: ValidationOps where
  "no_ops = \<lparr>vo_uri = \<lambda>_. None, vo_regex = \<lambda>_. None, vo_uuid = \<lambda>_. False, vo_enum = \<lambda>_ _. False\<rparr>"

definition contact_code :: "nat \<Rightarrow> FieldCode list" where
  "contact_code c =
     (if c = 0 then [\<lparr>fc_name = ''contacts'', fc_unwrap = False, fc_guards = [], fc_groups = [], fc_checks = [CheckNested NestedVec]\<rparr>]
      else [\<lparr>fc_name = ''email'', fc_unwrap = False, fc_guards = [], fc_groups = [], fc_checks = [CheckEmail]\<rparr>])"

theorem validation_reports_violations_witness:
  "\<exists>p k. violation no_ops (\<lambda>_ _. True) contact_code {} (VDto 0 [(''contacts'', VVec [VDto 1 [(''email'', VStr ''a'')]])]) p k \<and>
     render_path p = ''contacts[0].email''"
proof -
  have zero: "show_nat 0 = [CHR 0x30]" by (simp add: show_nat.simps [of 0], code_simp)
  let ?v = "VDto 0 [(''contacts'', VVec [VDto 1 [(''email'', VStr ''a'')]])]"
  have "named_fields contact_code" by (simp add: named_fields_def contact_code_def)
  note reported = validation_reports_violations [OF this, of no_ops "\<lambda>_ _. True" "{}" 0 "[(''contacts'', VVec [VDto 1 [(''email'', VStr ''a'')]])]"]
  have run: "validate_with no_ops (\<lambda>_ _. True) contact_code {} ?v = Inl [rule_error ''contacts[0].email'' CheckEmail]"
    by (simp add: validate_with_def contact_code_def run_field_def field_active_def unwrap_value_def run_check_def text_of_def
      prefix_child_def indexed_def rule_error_def with_constraint_def validation_error_new_def zero)
  have "rule_error ''contacts[0].email'' CheckEmail \<in>
      {rule_error (render_path p) k | p k. violation no_ops (\<lambda>_ _. True) contact_code {} ?v p k}"
    using conjunct2 [OF reported, rule_format, OF run] by (metis list.set_intros(1))
  then obtain p k where "violation no_ops (\<lambda>_ _. True) contact_code {} ?v p k"
    "rule_error ''contacts[0].email'' CheckEmail = rule_error (render_path p) k" by blast
  moreover from this(2) have "render_path p = ''contacts[0].email''"
    by (simp add: rule_error_def with_constraint_def validation_error_new_def)
  ultimately show ?thesis by blast
qed

section \<open>Numeric bounds\<close>

lemma round_small: "n < 2 ^ 53 \<Longrightarrow> round_magnitude n = n"
  by (simp add: round_magnitude_def)

lemma round_large: "2 ^ 53 \<le> n \<Longrightarrow> 2 ^ 53 \<le> round_magnitude n"
proof -
  assume n: "2 ^ 53 \<le> n"
  let ?k = "floorlog 2 n - 53"
  have "2 ^ (floorlog 2 n - 1) \<le> n" using n floorlog_bounds [of n 2] by auto
  moreover have "53 < floorlog 2 n" using n floorlog_geI [of 2 54 n] by auto
  moreover from this have "floorlog 2 n - 1 = 52 + ?k" by simp
  ultimately have "2 ^ 52 * 2 ^ ?k \<le> n" by (simp only: power_add)
  then have "2 ^ 52 \<le> n div 2 ^ ?k" by (simp add: less_eq_div_iff_mult_less_eq)
  moreover have "2 \<le> (2 :: nat) ^ ?k" using \<open>53 < floorlog 2 n\<close> self_le_power [of 2 ?k] by auto
  ultimately have "2 ^ 52 * 2 \<le> n div 2 ^ ?k * 2 ^ ?k" by (rule mult_le_mono)
  then show ?thesis using n by (auto simp: round_magnitude_def Let_def)
qed

lemma int_as_f64_cases:
  obtains r where "int_as_f64 n = Finite (of_int r)" and "\<bar>n\<bar> < 2 ^ 53 \<Longrightarrow> r = n" and "2 ^ 53 \<le> n \<Longrightarrow> 2 ^ 53 \<le> r"
    and "n \<le> - (2 ^ 53) \<Longrightarrow> r \<le> - (2 ^ 53)"
proof -
  let ?r = "if n < 0 then - int (round_magnitude (nat (- n))) else int (round_magnitude (nat n))"
  have "nat \<bar>n\<bar> < 2 ^ 53" if "\<bar>n\<bar> < 2 ^ 53" using that by (simp add: nat_less_iff)
  then have "\<bar>n\<bar> < 2 ^ 53 \<Longrightarrow> ?r = n" using round_small [of "nat (- n)"] round_small [of "nat n"] by (simp add: abs_if split: if_splits)
  moreover have "2 ^ 53 \<le> n \<Longrightarrow> 2 ^ 53 \<le> ?r" using round_large [of "nat n"] by (simp add: le_nat_iff)
  moreover have "n \<le> - (2 ^ 53) \<Longrightarrow> ?r \<le> - (2 ^ 53)" using round_large [of "nat (- n)"] by (simp add: le_nat_iff)
  ultimately show thesis using that [of ?r] by (simp only: int_as_f64_def)
qed

text \<open>The numeric rules are exact for integers of every width against a bound below \<open>2\<^sup>53\<close> in magnitude, although both
  sides are compared as 64-bit floats; they are not at that bound, where a value above the maximum passes.\<close>

theorem numeric_bounds_exact:
  assumes "\<bar>b\<bar> < 2 ^ 53"
  shows "(rule_holds V custom (CheckMax \<lparr>nb_value = Finite (of_int b), nb_display = d\<rparr>) (VInt n) \<longleftrightarrow> n \<le> b) \<and>
     (rule_holds V custom (CheckMin \<lparr>nb_value = Finite (of_int b), nb_display = d\<rparr>) (VInt n) \<longleftrightarrow> b \<le> n) \<and>
     rule_holds V custom (CheckMax \<lparr>nb_value = Finite (of_int (2 ^ 53)), nb_display = d\<rparr>) (VInt (2 ^ 53 + 1))"
proof -
  obtain r where r: "int_as_f64 n = Finite (of_int r)" "\<bar>n\<bar> < 2 ^ 53 \<Longrightarrow> r = n" "2 ^ 53 \<le> n \<Longrightarrow> 2 ^ 53 \<le> r"
    "n \<le> - (2 ^ 53) \<Longrightarrow> r \<le> - (2 ^ 53)" by (rule int_as_f64_cases [of n]) blast
  have "(r \<le> b \<longleftrightarrow> n \<le> b) \<and> (b \<le> r \<longleftrightarrow> b \<le> n)"
    using r(2-4) assms by (cases "\<bar>n\<bar> < 2 ^ 53"; cases "n < 0") auto
  moreover have "round_magnitude (2 ^ 53 + 1) = 2 ^ 53"
    by (simp add: round_magnitude_def compute_floorlog)
  then have "int_as_f64 (2 ^ 53 + 1) = Finite (of_int (2 ^ 53))" by (simp add: int_as_f64_def)
  ultimately show ?thesis by (auto simp: r(1) not_less)
qed

theorem numeric_bounds_exact_witness:
  "\<not> rule_holds no_ops (\<lambda>_ _. True) (CheckMax \<lparr>nb_value = Finite (of_int 5), nb_display = ''5''\<rparr>) (VInt 6) \<and>
     rule_holds no_ops (\<lambda>_ _. True) (CheckMin \<lparr>nb_value = Finite (of_int 5), nb_display = ''5''\<rparr>) (VInt 5)"
proof -
  have b: "\<bar>5 :: int\<bar> < 2 ^ 53" by simp
  from numeric_bounds_exact [OF b, of no_ops "\<lambda>_ _. True" "''5''" 6] numeric_bounds_exact [OF b, of no_ops "\<lambda>_ _. True" "''5''" 5]
  show ?thesis by (simp del: rule_holds.simps)
qed

section \<open>Types of the generated checks\<close>

text \<open>The values of a Rust type.\<close>

function fits :: "Ty \<Rightarrow> Val \<Rightarrow> bool" where
  "fits (TyPath s args) v =
     (case v of
        VStr _ \<Rightarrow> s = ''String'' \<or> s = ''str''
      | VInt _ \<Rightarrow> is_integer_primitive s
      | VFloat _ \<Rightarrow> s = ''f32'' \<or> s = ''f64''
      | VBool _ \<Rightarrow> s = ''bool''
      | VOpt u \<Rightarrow> s = ''Option'' \<and> (case args of [] \<Rightarrow> False | t # _ \<Rightarrow> (case u of None \<Rightarrow> True | Some w \<Rightarrow> fits t w))
      | VVec vs \<Rightarrow> s = ''Vec'' \<and> (case args of [] \<Rightarrow> False | t # _ \<Rightarrow> (\<forall>w \<in> set vs. fits t w))
      | VDto _ _ \<Rightarrow> s \<notin> {''String'', ''str'', ''bool'', ''Option'', ''Vec''} \<and> \<not> is_numeric_primitive s)"
| "fits (TyReference t) v = fits t v"
| "fits (TyGroup t) v = fits t v"
| "fits (TyParen t) v = fits t v"
| "fits (TySlice t) v = (case v of VVec vs \<Rightarrow> (\<forall>w \<in> set vs. fits t w) | _ \<Rightarrow> False)"
| "fits TyOther v = True"
  by pat_completeness auto
termination by (relation "measure (\<lambda>(t, v). size t)") auto

lemma fits_string: "fits t v \<Longrightarrow> is_string_like_type t \<Longrightarrow> \<exists>s. v = VStr s"
  by (induction t v rule: fits.induct) (auto simp: is_integer_primitive_def is_numeric_primitive_def split: Val.splits)

lemma fits_vec: "fits t v \<Longrightarrow> is_vec_like_type t \<or> is_slice_like_type t \<Longrightarrow> \<exists>vs. v = VVec vs"
  by (induction t v rule: fits.induct) (auto simp: is_integer_primitive_def is_numeric_primitive_def split: Val.splits)

lemma fits_number: "fits t v \<Longrightarrow> is_number_like_type t \<Longrightarrow> (\<exists>n. v = VInt n) \<or> (\<exists>x. v = VFloat x)"
  by (induction t v rule: fits.induct) (auto simp: is_integer_primitive_def is_numeric_primitive_def split: Val.splits)

lemma fits_option: "fits t v \<Longrightarrow> option_inner_type t = Some inner \<Longrightarrow> \<exists>u. v = VOpt u \<and> (\<forall>w. u = Some w \<longrightarrow> fits inner w)"
  by (induction t v rule: fits.induct)
    (auto simp: is_integer_primitive_def is_numeric_primitive_def split: Val.splits list.splits option.splits if_splits)

text \<open>Which values a rule is meant for. What the macro leaves to \<open>rustc\<close> is not constrained.\<close>

fun rule_typed :: "Check \<Rightarrow> Val \<Rightarrow> bool" where
  "rule_typed CheckUuid v \<longleftrightarrow> (\<exists>s. v = VStr s)"
| "rule_typed (CheckEnum _) v \<longleftrightarrow> (\<exists>s. v = VStr s)"
| "rule_typed CheckUrl v \<longleftrightarrow> (\<exists>s. v = VStr s)"
| "rule_typed (CheckMatches _) v \<longleftrightarrow> (\<exists>s. v = VStr s)"
| "rule_typed CheckNotEmpty v \<longleftrightarrow> (\<exists>s. v = VStr s) \<or> (\<exists>vs. v = VVec vs)"
| "rule_typed (CheckArrayMin _) v \<longleftrightarrow> (\<exists>vs. v = VVec vs)"
| "rule_typed (CheckArrayMax _) v \<longleftrightarrow> (\<exists>vs. v = VVec vs)"
| "rule_typed (CheckMin _) v \<longleftrightarrow> (\<exists>n. v = VInt n) \<or> (\<exists>x. v = VFloat x)"
| "rule_typed (CheckMax _) v \<longleftrightarrow> (\<exists>n. v = VInt n) \<or> (\<exists>x. v = VFloat x)"
| "rule_typed _ v \<longleftrightarrow> True"

lemma ensured_typed:
  "ensure_type ty a = Inr () \<Longrightarrow> attr_check whole_ty opt a = Some k \<Longrightarrow> fits ty v \<Longrightarrow> rule_typed k v"
  using fits_string [of ty v] fits_vec [of ty v] fits_number [of ty v]
  by (cases a) (auto simp: ensure_def split: if_splits)

lemma attr_checks_from:
  "attr_checks whole_ty ty opt as = Inr ks \<Longrightarrow> k \<in> set ks \<Longrightarrow>
   \<exists>a \<in> set as. ensure_type ty a = Inr () \<and> attr_check whole_ty opt a = Some k"
proof (induction as arbitrary: ks)
  case (Cons a as)
  then show ?case
    by (cases "ensure_type ty a"; cases "attr_checks whole_ty ty opt as") (auto split: option.splits)
qed simp

lemma build_field_from:
  assumes "build_field_checks f all_fields mode = Inr (Some fc)"
  shows "fc_name fc = fd_name f \<and> (fc_unwrap fc \<longleftrightarrow> IsOptional \<in> set (fd_attrs f) \<or> mode = PartialDto) \<and>
     (\<exists>ty. (if fc_unwrap fc then option_inner_type (fd_ty f) = Some ty else ty = fd_ty f) \<and>
        attr_checks (fd_ty f) ty (IsOptional \<in> set (fd_attrs f)) (fd_attrs f) = Inr (fc_checks fc))"
  using assms unfolding build_field_checks_def Let_def requires_option_fields_def
  by (auto split: sum.splits if_splits option.splits)

lemma build_all_from:
  "build_all_checks fs all_fields mode = Inr codes \<Longrightarrow> fc \<in> set codes \<Longrightarrow>
   \<exists>f \<in> set fs. build_field_checks f all_fields mode = Inr (Some fc)"
proof (induction fs arbitrary: codes)
  case (Cons f fs)
  then show ?case
    by (cases "build_field_checks f all_fields mode"; cases "build_all_checks fs all_fields mode") (auto split: option.splits)
qed simp



end
