(* ===== verification/Macro_Syntax.thy ===== *)
theory Macro_Syntax
  imports Prelude Route_Registry
begin

text \<open>
  What the attribute macros of \<open>nivasa-macros/src\<close> read, as \<open>syn\<close> hands it to them: attributes with their tokens. A path
  is one token, in the spelling the macros use (printed without spaces). Errors that \<open>syn\<close> raises have no text here.

  Attributes that a macro of the framework expands on its own leave markers in documentation comments for the macro of
  the struct or the impl block; the second half reads such markers.
\<close>

section \<open>Tokens and attributes\<close>

datatype Tok =
    TPath string | TStr string | TInt nat | TComma | TEq | TColon | TBraces "Tok list" | TBrackets "Tok list" | TOther

datatype MacroError = Syn | Custom string

datatype Meta = MetaPath | MetaList "Tok list" | MetaNameValue "Tok list"

record Attribute =
  at_path :: "string list"
  at_meta :: Meta

definition is_ident :: "Attribute \<Rightarrow> string \<Rightarrow> bool" where
  "is_ident a name \<longleftrightarrow> at_path a = [name]"

definition attr_path_matches :: "Attribute \<Rightarrow> string \<Rightarrow> bool" where
  "attr_path_matches a name \<longleftrightarrow> is_ident a name \<or> (at_path a \<noteq> [] \<and> last (at_path a) = name)"

section \<open>Parsers of argument lists\<close>

lemma map_sum_eq_Inr: "map_sum id f x = Inr y \<longleftrightarrow> (\<exists>z. x = Inr z \<and> f z = y)"
  by (cases x) auto

fun path_tok :: "Tok \<Rightarrow> string option" where
  "path_tok (TPath p) = Some p"
| "path_tok _ = None"

fun str_tok :: "Tok \<Rightarrow> string option" where
  "str_tok (TStr s) = Some s"
| "str_tok _ = None"

fun int_tok :: "Tok \<Rightarrow> nat option" where
  "int_tok (TInt n) = Some n"
| "int_tok _ = None"

text \<open>Items separated by commas, with or without one at the end.\<close>

fun parse_terminated :: "(Tok \<Rightarrow> 'a option) \<Rightarrow> Tok list \<Rightarrow> MacroError + 'a list" where
  "parse_terminated item [] = Inr []"
| "parse_terminated item [t] = (case item t of Some x \<Rightarrow> Inr [x] | None \<Rightarrow> Inl Syn)"
| "parse_terminated item (t # TComma # ts) =
     (case item t of
        Some x \<Rightarrow> map_sum id ((#) x) (parse_terminated item ts)
      | None \<Rightarrow> Inl Syn)"
| "parse_terminated item (t # _ # ts) = Inl Syn"

definition parse_args_with :: "(Tok list \<Rightarrow> MacroError + 'a) \<Rightarrow> Attribute \<Rightarrow> MacroError + 'a" where
  "parse_args_with p a = (case at_meta a of MetaList ts \<Rightarrow> p ts | _ \<Rightarrow> Inl Syn)"

definition parse_one :: "(Tok \<Rightarrow> 'a option) \<Rightarrow> Tok list \<Rightarrow> MacroError + 'a" where
  "parse_one item ts = (case ts of [t] \<Rightarrow> (case item t of Some x \<Rightarrow> Inr x | None \<Rightarrow> Inl Syn) | _ \<Rightarrow> Inl Syn)"

text \<open>\<open>parse_nested_meta\<close>: the step receives a key and the token after its equals sign.\<close>

fun nested_args :: "('s \<Rightarrow> string \<Rightarrow> Tok option \<Rightarrow> MacroError + 's) \<Rightarrow> 's \<Rightarrow> Tok list \<Rightarrow> MacroError + 's" where
  "nested_args step st [] = Inr st"
| "nested_args step st (TPath k # TEq # v # ts) =
     (case step st k (Some v) of
        Inl e \<Rightarrow> Inl e
      | Inr st' \<Rightarrow> (case ts of [] \<Rightarrow> Inr st' | TComma # ts' \<Rightarrow> nested_args step st' ts' | _ \<Rightarrow> Inl Syn))"
| "nested_args step st (TPath k # ts) = (case step st k None of Inl e \<Rightarrow> Inl e | Inr _ \<Rightarrow> Inl Syn)"
| "nested_args step st _ = Inl Syn"

definition parse_nested_meta :: "('s \<Rightarrow> string \<Rightarrow> Tok option \<Rightarrow> MacroError + 's) \<Rightarrow> 's \<Rightarrow> Attribute \<Rightarrow> MacroError + 's" where
  "parse_nested_meta step st a = parse_args_with (nested_args step st) a"

definition meta_value :: "(Tok \<Rightarrow> 'a option) \<Rightarrow> Tok option \<Rightarrow> MacroError + 'a" where
  "meta_value item v = (case Option.bind v item of Some x \<Rightarrow> Inr x | None \<Rightarrow> Inl Syn)"

definition require :: "'a option \<Rightarrow> string \<Rightarrow> MacroError + 'a" where
  "require x msg = (case x of Some v \<Rightarrow> Inr v | None \<Rightarrow> Inl (Custom msg))"

definition blank :: "string \<Rightarrow> bool" where
  "blank s \<longleftrightarrow> trim s = []"

section \<open>Markers\<close>

text \<open>The string of a documentation attribute.\<close>

definition doc_text :: "Attribute \<Rightarrow> string option" where
  "doc_text a = (if is_ident a ''doc'' then (case at_meta a of MetaNameValue [TStr s] \<Rightarrow> Some s | _ \<Rightarrow> None) else None)"

definition doc_attr :: "string \<Rightarrow> Attribute" where
  "doc_attr text = \<lparr>at_path = [''doc''], at_meta = MetaNameValue [TStr text]\<rparr>"

definition marker :: "string \<Rightarrow> Attribute \<Rightarrow> string option" where
  "marker prefix a = Option.bind (doc_text a) (\<lambda>s. strip_prefix (trim s) prefix)"

definition marker_names :: "string \<Rightarrow> string list" where
  "marker_names rest = filter (\<lambda>n. n \<noteq> []) (map trim (split_on CHR '','' (trim rest)))"

text \<open>The shape of the parsers that read a list of names from an attribute or from its marker.\<close>

definition names_binding ::
  "string \<Rightarrow> (Attribute \<Rightarrow> MacroError + string list) \<Rightarrow> string \<Rightarrow> string \<Rightarrow> string \<Rightarrow> Attribute \<Rightarrow> MacroError + string list option" where
  "names_binding name args empty_error prefix marker_error a =
     (if attr_path_matches a name
      then (case args a of
              Inl e \<Rightarrow> Inl e
            | Inr [] \<Rightarrow> Inl (Custom empty_error)
            | Inr ns \<Rightarrow> Inr (Some ns))
      else (case marker prefix a of
              None \<Rightarrow> Inr None
            | Some rest \<Rightarrow>
                (case marker_names rest of [] \<Rightarrow> Inl (Custom marker_error) | ns \<Rightarrow> Inr (Some ns))))"

text \<open>The cascade of the expansions: the first parser that knows an attribute decides.\<close>

definition attempt :: "MacroError + 'a option \<Rightarrow> ('a \<Rightarrow> MacroError + 's) \<Rightarrow> MacroError + 's \<Rightarrow> MacroError + 's" where
  "attempt parsed use otherwise =
     (case parsed of Inl e \<Rightarrow> Inl e | Inr (Some x) \<Rightarrow> use x | Inr None \<Rightarrow> otherwise)"

section \<open>Names written as a marker and read back\<close>

definition plain_name :: "string \<Rightarrow> bool" where
  "plain_name n \<longleftrightarrow> n \<noteq> [] \<and> \<not> is_whitespace (hd n) \<and> \<not> is_whitespace (last n) \<and> CHR '','' \<notin> set n"

end
