(* ===== verification/Controller_Attributes.thy ===== *)
theory Controller_Attributes
  imports Macro_Syntax "HOL-Library.Word"
begin

text \<open>
  The attributes of controllers (\<open>nivasa-macros/src/controller.rs\<close>): one definition per parser of an attribute, and per
  attribute macro that leaves a marker when it is expanded before the macro of its controller.
\<close>

section \<open>Bindings\<close>

record ControllerArgs =
  ca_path :: "string option"
  ca_version :: "string option"

record RouteBinding =
  rb_method :: string
  rb_path :: string

record ParameterBinding =
  pb_kind :: string
  pb_name :: "string option"

datatype ParameterExtractorKind =
    EBody | EMessageBody | EConnectedSocket | EParam | EQuery | EHeaders | EHeader | EReq | ERes | ECustomParam | EIp
  | ESession | EFile | EFiles

record ResponseBinding =
  resp_status_code :: "16 word option"
  resp_headers :: "(string \<times> string) list"

record ThrottleBinding =
  tb_limit :: "32 word"
  tb_ttl_secs :: "64 word"

record MetadataBinding =
  mb_key :: string
  mb_value :: string

record ApiParamBinding =
  ap_name :: string
  ap_description :: string

record ApiResponseBinding =
  ar_status :: "16 word"
  ar_ty :: string
  ar_description :: string

text \<open>\<open>base10_parse\<close> and \<open>str::parse\<close> at a width.\<close>

definition int_of_width :: "nat \<Rightarrow> 'w :: len word option" where
  "int_of_width n = (if n < 2 ^ LENGTH('w) then Some (of_nat n) else None)"

definition parse_uint :: "string \<Rightarrow> 'w :: len word option" where
  "parse_uint s =
     (let digits = (case s of CHR ''+'' # ds \<Rightarrow> ds | _ \<Rightarrow> s) in
      if digits \<noteq> [] \<and> (\<forall>c \<in> set digits. CHR ''0'' \<le> c \<and> c \<le> CHR ''9'')
      then int_of_width (foldl (\<lambda>n c. 10 * n + (of_char c - 48)) 0 digits) else None)"

section \<open>The argument of the controller attribute\<close>

definition set_path :: "ControllerArgs \<Rightarrow> string \<Rightarrow> MacroError + ControllerArgs" where
  "set_path args v =
     (if ca_path args \<noteq> None then Inl (Custom ''duplicate `path` entry in `#[controller]`'')
      else Inr (args\<lparr>ca_path := Some v\<rparr>))"

definition set_version :: "ControllerArgs \<Rightarrow> string \<Rightarrow> MacroError + ControllerArgs" where
  "set_version args v =
     (if ca_version args \<noteq> None then Inl (Custom ''duplicate `version` entry in `#[controller]`'')
      else Inr (args\<lparr>ca_version := Some v\<rparr>))"

fun braced_args :: "ControllerArgs \<Rightarrow> Tok list \<Rightarrow> MacroError + ControllerArgs" where
  "braced_args args [] = Inr args"
| "braced_args args (TPath k # TColon # TStr v # ts) =
     (case (if k = ''path'' then set_path args v
            else if k = ''version'' then set_version args v
            else Inl (Custom (''unknown `#[controller]` key `'' @ k @ ''`; expected `path` or `version`''))) of
        Inl e \<Rightarrow> Inl e
      | Inr args' \<Rightarrow> (case ts of [] \<Rightarrow> Inr args' | TComma # ts' \<Rightarrow> braced_args args' ts' | _ \<Rightarrow> Inl Syn))"
| "braced_args args _ = Inl Syn"

definition parse_controller_args :: "Tok list \<Rightarrow> MacroError + ControllerArgs" where
  "parse_controller_args ts =
     (case ts of
        TStr p # rest \<Rightarrow>
          (let args = \<lparr>ca_path = Some p, ca_version = None\<rparr> in
           case rest of
             [] \<Rightarrow> Inr args
           | [TComma] \<Rightarrow> Inr args
           | TComma # TPath k # TEq # TStr v # trailing \<Rightarrow>
               if k \<noteq> ''version'' then Inl (Custom (''unknown `#[controller]` key `'' @ k @ ''`; expected `version`''))
               else if trailing \<noteq> [] then Inl (Custom ''unexpected trailing controller arguments'')
               else set_version args v
           | _ \<Rightarrow> Inl Syn)
      | TBraces content # rest \<Rightarrow>
          (case braced_args \<lparr>ca_path = None, ca_version = None\<rparr> content of
             Inl e \<Rightarrow> Inl e
           | Inr args \<Rightarrow>
               if ca_path args = None then Inl (Custom ''missing `path` in `#[controller]` attribute'')
               else if rest \<noteq> [] then Inl Syn
               else Inr args)
      | _ \<Rightarrow> Inl Syn)"

section \<open>Names: guards, roles, interceptors, filters, pipes\<close>

definition parse_guard_binding :: "Attribute \<Rightarrow> MacroError + string list option" where
  "parse_guard_binding =
     names_binding ''guard'' (parse_args_with (parse_terminated path_tok))
       ''`#[guard]` requires at least one guard type'' ''nivasa-guard:'' ''invalid controller guard marker''"

definition parse_roles_binding :: "Attribute \<Rightarrow> MacroError + string list option" where
  "parse_roles_binding =
     names_binding ''roles'' (\<lambda>a. map_sum id (map trim) (parse_args_with (parse_terminated str_tok) a))
       ''`#[roles]` requires at least one role name'' ''nivasa-roles:'' ''invalid controller roles marker''"

definition parse_interceptor_binding :: "Attribute \<Rightarrow> MacroError + string list option" where
  "parse_interceptor_binding =
     names_binding ''interceptor'' (parse_args_with (parse_terminated path_tok))
       ''`#[interceptor]` requires at least one interceptor type'' ''nivasa-interceptor:'' ''invalid controller interceptor marker''"

definition parse_filter_binding :: "Attribute \<Rightarrow> MacroError + string list option" where
  "parse_filter_binding =
     names_binding ''use_filters'' (parse_args_with (parse_terminated path_tok))
       ''`#[use_filters]` requires at least one filter type'' ''nivasa-filter:'' ''invalid controller filter marker''"

definition parse_pipe_binding :: "Attribute \<Rightarrow> MacroError + string list option" where
  "parse_pipe_binding =
     names_binding ''pipe''
       (\<lambda>a. map_sum (\<lambda>_. Custom ''`#[pipe]` requires at least one pipe type'') id (parse_args_with (parse_terminated path_tok) a))
       ''`#[pipe]` requires at least one pipe type'' ''nivasa-pipe:'' ''invalid controller pipe marker''"

section \<open>Metadata and throttling\<close>

fun metadata_entry :: "string option \<times> string option \<Rightarrow> string \<Rightarrow> Tok option \<Rightarrow> MacroError + string option \<times> string option" where
  "metadata_entry (key, val) k v =
     (if k = ''key'' then map_sum id (\<lambda>s. (Some s, val)) (meta_value str_tok v)
      else if k = ''value'' then map_sum id (\<lambda>s. (key, Some s)) (meta_value str_tok v)
      else Inl (Custom ''expected `key` or `value` in `#[set_metadata]`''))"

definition metadata_pair :: "string option \<times> string option \<Rightarrow> MacroError + MetadataBinding" where
  "metadata_pair found =
     (case require (fst found) ''`#[set_metadata]` requires a `key` entry'' of
        Inl e \<Rightarrow> Inl e
      | Inr key \<Rightarrow>
          (case require (snd found) ''`#[set_metadata]` requires a `value` entry'' of
             Inl e \<Rightarrow> Inl e
           | Inr val \<Rightarrow>
               if blank key \<or> blank val then Inl (Custom ''`#[set_metadata]` key and value cannot be empty'')
               else Inr \<lparr>mb_key = trim key, mb_value = trim val\<rparr>))"

definition parse_set_metadata_binding :: "Attribute \<Rightarrow> MacroError + MetadataBinding list option" where
  "parse_set_metadata_binding a =
     (if attr_path_matches a ''set_metadata''
      then (case parse_nested_meta metadata_entry (None, None) a of
              Inl e \<Rightarrow> Inl e
            | Inr found \<Rightarrow> map_sum id (\<lambda>m. Some [m]) (metadata_pair found))
      else (case marker ''nivasa-set-metadata:'' a of
              None \<Rightarrow> Inr None
            | Some rest \<Rightarrow>
                (case split_once CHR ''='' (trim rest) of
                   None \<Rightarrow> Inl (Custom ''invalid controller metadata marker'')
                 | Some (key, val) \<Rightarrow>
                     if blank key \<or> blank val then Inl (Custom ''invalid controller metadata marker'')
                     else Inr (Some [\<lparr>mb_key = trim key, mb_value = trim val\<rparr>]))))"

type_synonym ThrottleEntries = "32 word option \<times> 64 word option"

fun throttle_entry :: "ThrottleEntries \<Rightarrow> string \<Rightarrow> Tok option \<Rightarrow> MacroError + ThrottleEntries" where
  "throttle_entry (limit, ttl) k v =
     (if k = ''limit'' then
        if limit \<noteq> None then Inl (Custom ''duplicate `limit` entry in `#[throttle]`'')
        else map_sum id (\<lambda>n. (Some n, ttl)) (meta_value (\<lambda>t. Option.bind (int_tok t) int_of_width) v)
      else if k = ''ttl'' then
        if ttl \<noteq> None then Inl (Custom ''duplicate `ttl` entry in `#[throttle]`'')
        else map_sum id (\<lambda>n. (limit, Some n)) (meta_value (\<lambda>t. Option.bind (int_tok t) int_of_width) v)
      else Inl (Custom ''expected `limit` or `ttl` in `#[throttle]`''))"

definition throttle_pair :: "ThrottleEntries \<Rightarrow> MacroError + ThrottleBinding" where
  "throttle_pair found =
     (case require (fst found) ''`#[throttle]` requires a `limit` entry'' of
        Inl e \<Rightarrow> Inl e
      | Inr limit \<Rightarrow>
          (case require (snd found) ''`#[throttle]` requires a `ttl` entry'' of
             Inl e \<Rightarrow> Inl e
           | Inr ttl \<Rightarrow>
               if limit = 0 \<or> ttl = 0 then Inl (Custom ''`#[throttle]` limit and ttl must be greater than zero'')
               else Inr \<lparr>tb_limit = limit, tb_ttl_secs = ttl\<rparr>))"

fun throttle_parts :: "ThrottleEntries \<Rightarrow> string list \<Rightarrow> ThrottleEntries option" where
  "throttle_parts found [] = Some found"
| "throttle_parts (limit, ttl) (part # parts) =
     (if trim part = [] then throttle_parts (limit, ttl) parts
      else case split_once CHR ''='' (trim part) of
          None \<Rightarrow> None
        | Some (key, val) \<Rightarrow>
            if trim key = ''limit'' then
              if limit \<noteq> None then None
              else (case parse_uint (trim val) of Some n \<Rightarrow> throttle_parts (Some n, ttl) parts | None \<Rightarrow> None)
            else if trim key = ''ttl'' then
              if ttl \<noteq> None then None
              else (case parse_uint (trim val) of Some n \<Rightarrow> throttle_parts (limit, Some n) parts | None \<Rightarrow> None)
            else None)"

definition parse_throttle_binding :: "Attribute \<Rightarrow> MacroError + ThrottleBinding option" where
  "parse_throttle_binding a =
     (if attr_path_matches a ''throttle''
      then (case parse_nested_meta throttle_entry (None, None) a of
              Inl e \<Rightarrow> Inl e
            | Inr found \<Rightarrow> map_sum id Some (throttle_pair found))
      else (case marker ''nivasa-throttle:'' a of
              None \<Rightarrow> Inr None
            | Some rest \<Rightarrow>
                (case throttle_parts (None, None) (split_on CHR '','' (trim rest)) of
                   Some (Some limit, Some ttl) \<Rightarrow>
                     if limit > 0 \<and> ttl > 0 then Inr (Some \<lparr>tb_limit = limit, tb_ttl_secs = ttl\<rparr>)
                     else Inl (Custom ''invalid controller throttle marker'')
                 | _ \<Rightarrow> Inl (Custom ''invalid controller throttle marker''))))"

text \<open>Attributes without arguments.\<close>

definition bare_binding :: "string \<Rightarrow> string \<Rightarrow> Attribute \<Rightarrow> MacroError + unit option" where
  "bare_binding name msg a =
     (if attr_path_matches a name then (if at_meta a = MetaPath then Inr (Some ()) else Inl (Custom msg)) else Inr None)"

definition parse_skip_throttle_binding :: "Attribute \<Rightarrow> MacroError + unit option" where
  "parse_skip_throttle_binding a =
     (if attr_path_matches a ''skip_throttle''
      then (if at_meta a = MetaPath then Inr (Some ()) else Inl (Custom ''`#[skip_throttle]` does not accept arguments''))
      else Inr (if map_option trim (doc_text a) = Some ''nivasa-skip-throttle:'' then Some () else None))"

section \<open>API documentation\<close>

definition parse_api_tags_binding :: "Attribute \<Rightarrow> MacroError + string list option" where
  "parse_api_tags_binding a =
     (if \<not> attr_path_matches a ''api_tags'' then Inr None
      else case parse_args_with (parse_terminated str_tok) a of
          Inl _ \<Rightarrow> Inl (Custom ''`#[api_tags]` requires at least one tag'')
        | Inr tags \<Rightarrow>
            if tags = [] then Inl (Custom ''`#[api_tags]` requires at least one tag'')
            else if \<exists>t \<in> set tags. blank t then Inl (Custom ''`#[api_tags]` tag cannot be empty'')
            else Inr (Some tags))"

fun api_param_entry :: "string option \<times> string option \<Rightarrow> string \<Rightarrow> Tok option \<Rightarrow> MacroError + string option \<times> string option" where
  "api_param_entry (name, description) k v =
     (if k = ''name'' then
        if name \<noteq> None then Inl (Custom ''duplicate `name` entry in `#[api_param]`'')
        else map_sum id (\<lambda>s. (Some s, description)) (meta_value str_tok v)
      else if k = ''description'' then
        if description \<noteq> None then Inl (Custom ''duplicate `description` entry in `#[api_param]`'')
        else map_sum id (\<lambda>s. (name, Some s)) (meta_value str_tok v)
      else Inl (Custom ''expected `name = \"...\"` or `description = \"...\"` in `#[api_param]`''))"

definition parse_api_param_binding :: "Attribute \<Rightarrow> MacroError + ApiParamBinding option" where
  "parse_api_param_binding a =
     (if \<not> attr_path_matches a ''api_param'' then Inr None
      else case parse_nested_meta api_param_entry (None, None) a of
          Inl e \<Rightarrow> Inl e
        | Inr found \<Rightarrow>
            (case require (fst found) ''`#[api_param]` requires a `name` entry'' of
               Inl e \<Rightarrow> Inl e
             | Inr name \<Rightarrow>
                 (case require (snd found) ''`#[api_param]` requires a `description` entry'' of
                    Inl e \<Rightarrow> Inl e
                  | Inr description \<Rightarrow>
                      if blank name then Inl (Custom ''`#[api_param]` name cannot be empty'')
                      else if blank description then Inl (Custom ''`#[api_param]` description cannot be empty'')
                      else Inr (Some \<lparr>ap_name = name, ap_description = description\<rparr>))))"

type_synonym ApiResponseEntries = "nat option \<times> string option \<times> string option"

fun api_response_entry :: "ApiResponseEntries \<Rightarrow> string \<Rightarrow> Tok option \<Rightarrow> MacroError + ApiResponseEntries" where
  "api_response_entry (status, ty, description) k v =
     (if k = ''status'' then
        if status \<noteq> None then Inl (Custom ''duplicate `status` entry in `#[api_response]`'')
        else map_sum id (\<lambda>n. (Some n, ty, description)) (meta_value int_tok v)
      else if k = ''type'' then
        if ty \<noteq> None then Inl (Custom ''duplicate `type` entry in `#[api_response]`'')
        else map_sum id (\<lambda>p. (status, Some p, description)) (meta_value path_tok v)
      else if k = ''description'' then
        if description \<noteq> None then Inl (Custom ''duplicate `description` entry in `#[api_response]`'')
        else map_sum id (\<lambda>s. (status, ty, Some s)) (meta_value str_tok v)
      else Inl (Custom ''expected `status = ...`, `type = ...`, or `description = ...` in `#[api_response]`''))"

definition api_response_of :: "ApiResponseEntries \<Rightarrow> MacroError + ApiResponseBinding" where
  "api_response_of found =
     (case found of (status, ty, description) \<Rightarrow>
        (case require status ''`#[api_response]` requires a `status` entry'' of
           Inl e \<Rightarrow> Inl e
         | Inr digits \<Rightarrow>
             (case require ty ''`#[api_response]` requires a `type` entry'' of
                Inl e \<Rightarrow> Inl e
              | Inr p \<Rightarrow>
                  (case require description ''`#[api_response]` requires a `description` entry'' of
                     Inl e \<Rightarrow> Inl e
                   | Inr text \<Rightarrow>
                       (case int_of_width digits of
                          None \<Rightarrow> Inl (Custom ''`#[api_response]` status must be a valid u16'')
                        | Some code \<Rightarrow>
                            if blank text then Inl (Custom ''`#[api_response]` description cannot be empty'')
                            else Inr \<lparr>ar_status = code, ar_ty = p, ar_description = text\<rparr>)))))"

definition parse_api_response_binding :: "Attribute \<Rightarrow> MacroError + ApiResponseBinding option" where
  "parse_api_response_binding a =
     (if \<not> attr_path_matches a ''api_response'' then Inr None
      else case parse_nested_meta api_response_entry (None, None, None) a of
          Inl e \<Rightarrow> Inl e
        | Inr found \<Rightarrow> map_sum id Some (api_response_of found))"

fun single_entry :: "string \<Rightarrow> (Tok \<Rightarrow> 'a option) \<Rightarrow> string \<Rightarrow> string \<Rightarrow> 'a option \<Rightarrow> string \<Rightarrow> Tok option \<Rightarrow> MacroError + 'a option" where
  "single_entry key item duplicate unknown found k v =
     (if k = key then
        if \<not> Option.is_none found then Inl (Custom duplicate) else map_sum id Some (meta_value item v)
      else Inl (Custom unknown))"

definition parse_api_body_binding :: "Attribute \<Rightarrow> MacroError + string option" where
  "parse_api_body_binding a =
     (if \<not> attr_path_matches a ''api_body'' then Inr None
      else case parse_nested_meta (single_entry ''type'' path_tok ''duplicate `type` entry in `#[api_body]`''
                  ''expected `type = ...` in `#[api_body]`'') None a of
          Inl e \<Rightarrow> Inl e
        | Inr ty \<Rightarrow> map_sum id Some (require ty ''`#[api_body]` requires a `type` entry''))"

definition parse_api_bearer_auth_binding :: "Attribute \<Rightarrow> MacroError + unit option" where
  "parse_api_bearer_auth_binding = bare_binding ''api_bearer_auth'' ''`#[api_bearer_auth]` does not take arguments''"

definition parse_health_check_binding :: "Attribute \<Rightarrow> MacroError + unit option" where
  "parse_health_check_binding = bare_binding ''health_check'' ''`#[health_check]` does not take arguments''"

definition parse_api_operation_binding :: "Attribute \<Rightarrow> MacroError + string option" where
  "parse_api_operation_binding a =
     (if \<not> attr_path_matches a ''api_operation'' then Inr None
      else case parse_nested_meta (single_entry ''summary'' str_tok ''duplicate `summary` entry in `#[api_operation]`''
                  ''expected `summary = \"...\"` in `#[api_operation]`'') None a of
          Inl e \<Rightarrow> Inl e
        | Inr found \<Rightarrow>
            (case require found ''`#[api_operation]` requires a `summary` entry'' of
               Inl e \<Rightarrow> Inl e
             | Inr summary \<Rightarrow>
                 if blank summary then Inl (Custom ''`#[api_operation]` summary cannot be empty'') else Inr (Some summary)))"


section \<open>Parameters\<close>

fun extractor_name :: "ParameterExtractorKind \<Rightarrow> string" where
  "extractor_name EBody = ''body''"
| "extractor_name EMessageBody = ''message_body''"
| "extractor_name EConnectedSocket = ''connected_socket''"
| "extractor_name EParam = ''param''"
| "extractor_name EQuery = ''query''"
| "extractor_name EHeaders = ''headers''"
| "extractor_name EHeader = ''header''"
| "extractor_name EReq = ''req''"
| "extractor_name ERes = ''res''"
| "extractor_name ECustomParam = ''custom_param''"
| "extractor_name EIp = ''ip''"
| "extractor_name ESession = ''session''"
| "extractor_name EFile = ''file''"
| "extractor_name EFiles = ''files''"

definition takes_name :: "ParameterExtractorKind \<Rightarrow> bool" where
  "takes_name k \<longleftrightarrow> k \<in> {EParam, EQuery, EHeader, ECustomParam}"

definition accepts_optional_name :: "ParameterExtractorKind \<Rightarrow> bool" where
  "accepts_optional_name k \<longleftrightarrow> k \<in> {EBody, EMessageBody, EHeaders, EReq, ERes}"

definition rejects_arguments :: "ParameterExtractorKind \<Rightarrow> bool" where
  "rejects_arguments k \<longleftrightarrow> k \<in> {EIp, EConnectedSocket, ESession, EFile, EFiles}"

definition extractor_kind :: "Attribute \<Rightarrow> ParameterExtractorKind option" where
  "extractor_kind a =
     find (\<lambda>k. attr_path_matches a (extractor_name k))
       [EBody, EMessageBody, EConnectedSocket, EParam, EQuery, EHeaders, EHeader, EReq, ERes, ECustomParam, EIp, ESession,
        EFile, EFiles]"

definition named_parameter :: "ParameterExtractorKind \<Rightarrow> Attribute \<Rightarrow> MacroError + ParameterBinding option" where
  "named_parameter kind a =
     (case parse_args_with (parse_one str_tok) a of
        Inl e \<Rightarrow> Inl e
      | Inr name \<Rightarrow>
          if blank name then Inl (Custom ''extractor name cannot be empty'')
          else Inr (Some \<lparr>pb_kind = extractor_name kind, pb_name = Some name\<rparr>))"

text \<open>The last branch of the original, for other kinds, is unreachable: every kind is of one of the four.\<close>

definition parse_parameter_extractor :: "Attribute \<Rightarrow> MacroError + ParameterBinding option" where
  "parse_parameter_extractor a =
     (case extractor_kind a of
        None \<Rightarrow> Inr None
      | Some kind \<Rightarrow>
          if kind = ECustomParam then
            (case parse_args_with (parse_one path_tok) a of
               Inl e \<Rightarrow> Inl e
             | Inr p \<Rightarrow>
                 if p = [] then Inl (Custom ''`#[custom_param]` requires a parameter extractor type'')
                 else Inr (Some \<lparr>pb_kind = extractor_name kind, pb_name = Some p\<rparr>))
          else if takes_name kind then named_parameter kind a
          else if accepts_optional_name kind then
            (case at_meta a of
               MetaPath \<Rightarrow> Inr (Some \<lparr>pb_kind = extractor_name kind, pb_name = None\<rparr>)
             | MetaList _ \<Rightarrow> named_parameter kind a
             | MetaNameValue _ \<Rightarrow>
                 Inl (Custom (''`#['' @ extractor_name kind @ '']` only supports bare or string-list syntax'')))
          else
            (if at_meta a = MetaPath then Inr (Some \<lparr>pb_kind = extractor_name kind, pb_name = None\<rparr>)
             else Inl (Custom (''`#['' @ extractor_name kind @ '']` does not take arguments''))))"

lemma extractor_kinds: "kind = ECustomParam \<or> takes_name kind \<or> accepts_optional_name kind \<or> rejects_arguments kind"
  by (cases kind) (simp_all add: takes_name_def accepts_optional_name_def rejects_arguments_def)

definition parse_parameter_pipe :: "Attribute \<Rightarrow> MacroError + string list option" where
  "parse_parameter_pipe a =
     (if \<not> attr_path_matches a ''pipe'' then Inr None
      else case parse_args_with (parse_terminated path_tok) a of
          Inl _ \<Rightarrow> Inl (Custom ''`#[pipe]` requires at least one pipe type'')
        | Inr [] \<Rightarrow> Inl (Custom ''`#[pipe]` requires at least one pipe type'')
        | Inr ps \<Rightarrow> Inr (Some ps))"

section \<open>Responses and routes\<close>

definition status_binding :: "16 word \<Rightarrow> MacroError + ResponseBinding option" where
  "status_binding code =
     (if 100 \<le> code \<and> code \<le> 599 then Inr (Some \<lparr>resp_status_code = Some code, resp_headers = []\<rparr>)
      else Inl (Custom ''controller response status code must be between 100 and 599''))"

definition parse_response_marker :: "Attribute \<Rightarrow> MacroError + ResponseBinding option" where
  "parse_response_marker a =
     (case marker ''nivasa-response:'' a of
        None \<Rightarrow> Inr None
      | Some rest \<Rightarrow>
          (case split_once CHR '' '' (trim rest) of
             None \<Rightarrow> Inl (Custom ''invalid controller response marker'')
           | Some (kind, payload) \<Rightarrow>
               if blank kind \<or> blank payload then Inl (Custom ''invalid controller response marker'')
               else if trim kind = ''http_code'' then
                 (case parse_uint (trim payload) of
                    None \<Rightarrow> Inl (Custom ''invalid controller response status code'')
                  | Some code \<Rightarrow> status_binding code)
               else if trim kind = ''header'' then
                 (case split_once CHR '' '' (trim payload) of
                    None \<Rightarrow> Inl (Custom ''invalid controller response header marker'')
                  | Some (name, val) \<Rightarrow>
                      if blank name \<or> blank val
                      then Inl (Custom ''controller response header name and value cannot be empty'')
                      else Inr (Some \<lparr>resp_status_code = None, resp_headers = [(trim name, trim val)]\<rparr>))
               else Inl (Custom (''unsupported controller response marker `'' @ trim kind @ ''`''))))"

definition parse_response_binding :: "Attribute \<Rightarrow> MacroError + ResponseBinding option" where
  "parse_response_binding a =
     (if attr_path_matches a ''http_code'' then
        (case parse_args_with (parse_one int_tok) a of
           Inl e \<Rightarrow> Inl e
         | Inr n \<Rightarrow>
             (case int_of_width n of
                None \<Rightarrow> Inl (Custom ''invalid controller response status code'')
              | Some code \<Rightarrow> status_binding code))
      else if attr_path_matches a ''header'' then
        (case parse_args_with (parse_terminated str_tok) a of
           Inl e \<Rightarrow> Inl e
         | Inr [name, val] \<Rightarrow>
             if blank name \<or> blank val
             then Inl (Custom ''controller response header name and value cannot be empty'')
             else Inr (Some \<lparr>resp_status_code = None, resp_headers = [(name, val)]\<rparr>)
         | Inr _ \<Rightarrow> Inl (Custom ''`#[header]` expects exactly two string arguments''))
      else parse_response_marker a)"

definition route_methods :: "(string \<times> string) list" where
  "route_methods =
     [(''get'', ''GET''), (''post'', ''POST''), (''put'', ''PUT''), (''delete'', ''DELETE''), (''patch'', ''PATCH''),
      (''head'', ''HEAD''), (''options'', ''OPTIONS''), (''all'', ''ALL'')]"

definition parse_route_marker :: "Attribute \<Rightarrow> MacroError + RouteBinding option" where
  "parse_route_marker a =
     (case marker ''nivasa-route:'' a of
        None \<Rightarrow> Inr None
      | Some rest \<Rightarrow>
          (case split_once CHR '' '' (trim rest) of
             None \<Rightarrow> Inl (Custom ''invalid controller route marker'')
           | Some (method, p) \<Rightarrow>
               if blank method \<or> blank p then Inl (Custom ''invalid controller route marker'')
               else if trim method \<in> set (map snd route_methods)
               then Inr (Some \<lparr>rb_method = trim method, rb_path = trim p\<rparr>)
               else Inl (Custom (''unsupported controller route method `'' @ trim method @ ''`''))))"

definition parse_route_binding :: "Attribute \<Rightarrow> MacroError + RouteBinding option" where
  "parse_route_binding a =
     (case find (\<lambda>(name, _). attr_path_matches a name) route_methods of
        None \<Rightarrow> parse_route_marker a
      | Some (_, method) \<Rightarrow>
          (case parse_args_with (parse_one str_tok) a of
             Inl e \<Rightarrow> Inl e
           | Inr p \<Rightarrow>
               if blank p then Inl (Custom ''route path cannot be empty'')
               else Inr (Some \<lparr>rb_method = method, rb_path = p\<rparr>)))"


section \<open>Attribute macros that leave a marker\<close>

text \<open>What the item of an attribute macro is, as far as the macros tell items apart.\<close>

datatype ItemKind = KMethod | KStruct | KParameter | KOther

definition attach :: "string \<Rightarrow> Attribute \<Rightarrow> ItemKind \<Rightarrow> Attribute list \<Rightarrow> MacroError + Attribute list" where
  "attach unsupported a kind attrs =
     (case kind of KMethod \<Rightarrow> Inr (a # attrs) | KStruct \<Rightarrow> Inr (a # attrs) | _ \<Rightarrow> Inl (Custom unsupported))"

definition guard_marker_attr :: "string list \<Rightarrow> Attribute" where
  "guard_marker_attr ns = doc_attr (''nivasa-guard: '' @ join '','' ns)"

definition interceptor_marker_attr :: "string list \<Rightarrow> Attribute" where
  "interceptor_marker_attr ns = doc_attr (''nivasa-interceptor: '' @ join '','' ns)"

definition filter_marker_attr :: "string list \<Rightarrow> Attribute" where
  "filter_marker_attr ns = doc_attr (''nivasa-filter: '' @ join '','' ns)"

definition pipe_marker_attr :: "string list \<Rightarrow> Attribute" where
  "pipe_marker_attr ns = doc_attr (''nivasa-pipe: '' @ join '','' ns)"

definition throttle_marker_attr :: "32 word \<Rightarrow> 64 word \<Rightarrow> Attribute" where
  "throttle_marker_attr limit ttl =
     doc_attr (''nivasa-throttle: limit='' @ show_nat (unat limit) @ '',ttl='' @ show_nat (unat ttl))"

definition skip_throttle_marker_attr :: Attribute where
  "skip_throttle_marker_attr = doc_attr ''nivasa-skip-throttle:''"

definition route_marker_attr :: "string \<Rightarrow> string \<Rightarrow> Attribute" where
  "route_marker_attr method p = doc_attr (''nivasa-route: '' @ method @ '' '' @ trim p)"

definition guard_macro :: "Tok list \<Rightarrow> ItemKind \<Rightarrow> Attribute list \<Rightarrow> MacroError + Attribute list" where
  "guard_macro args kind attrs =
     (case parse_terminated path_tok args of
        Inl e \<Rightarrow> Inl e
      | Inr ns \<Rightarrow>
          if ns = [] then Inl (Custom ''`#[guard]` requires at least one guard type'')
          else attach ''`#[guard]` only supports controller structs and inherent controller methods'' (guard_marker_attr ns) kind attrs)"

definition interceptor_macro :: "Tok list \<Rightarrow> ItemKind \<Rightarrow> Attribute list \<Rightarrow> MacroError + Attribute list" where
  "interceptor_macro args kind attrs =
     (case parse_terminated path_tok args of
        Inl e \<Rightarrow> Inl e
      | Inr ns \<Rightarrow>
          if ns = [] then Inl (Custom ''`#[interceptor]` requires at least one interceptor type'')
          else attach ''`#[interceptor]` only supports controller structs and inherent controller methods''
            (interceptor_marker_attr ns) kind attrs)"

definition use_filters_macro :: "Tok list \<Rightarrow> ItemKind \<Rightarrow> Attribute list \<Rightarrow> MacroError + Attribute list" where
  "use_filters_macro args kind attrs =
     (case parse_terminated path_tok args of
        Inl e \<Rightarrow> Inl e
      | Inr ns \<Rightarrow>
          if ns = [] then Inl (Custom ''`#[use_filters]` requires at least one filter type'')
          else attach ''`#[use_filters]` only supports controller structs and inherent controller methods''
            (filter_marker_attr ns) kind attrs)"

definition roles_macro :: "Tok list \<Rightarrow> ItemKind \<Rightarrow> Attribute list \<Rightarrow> MacroError + Attribute list" where
  "roles_macro args kind attrs =
     (case parse_terminated str_tok args of
        Inl e \<Rightarrow> Inl e
      | Inr rs \<Rightarrow>
          if rs = [] then Inl (Custom ''`#[roles]` requires at least one role name'')
          else attach ''`#[roles]` only supports controller structs and inherent controller methods''
            (doc_attr (''nivasa-roles: '' @ join '','' (map trim rs))) kind attrs)"

definition pipe_macro :: "Tok list \<Rightarrow> ItemKind \<Rightarrow> Attribute list \<Rightarrow> MacroError + Attribute list" where
  "pipe_macro args kind attrs =
     (case parse_terminated path_tok args of
        Inl _ \<Rightarrow> Inl (Custom ''`#[pipe]` requires at least one pipe type'')
      | Inr ns \<Rightarrow>
          if ns = [] then Inl (Custom ''`#[pipe]` requires at least one pipe type'')
          else if kind = KParameter then Inr attrs
          else attach (''`#[pipe]` only supports controller structs, controller method parameters, '' @
              ''and inherent controller methods'') (pipe_marker_attr ns) kind attrs)"

definition set_metadata_macro :: "Tok list \<Rightarrow> ItemKind \<Rightarrow> Attribute list \<Rightarrow> MacroError + Attribute list" where
  "set_metadata_macro args kind attrs =
     (case nested_args metadata_entry (None, None) args of
        Inl e \<Rightarrow> Inl e
      | Inr found \<Rightarrow>
          (case metadata_pair found of
             Inl e \<Rightarrow> Inl e
           | Inr m \<Rightarrow>
               attach ''`#[set_metadata]` only supports controller structs and inherent controller methods''
                 (doc_attr (''nivasa-set-metadata: '' @ mb_key m @ ''='' @ mb_value m)) kind attrs))"

text \<open>The arguments of \<open>throttle\<close> are parsed before any of them is looked at.\<close>

fun parse_name_values :: "Tok list \<Rightarrow> MacroError + (string \<times> Tok) list" where
  "parse_name_values [] = Inr []"
| "parse_name_values [TPath k, TEq, v] = Inr [(k, v)]"
| "parse_name_values (TPath k # TEq # v # TComma # ts) = map_sum id ((#) (k, v)) (parse_name_values ts)"
| "parse_name_values _ = Inl Syn"

definition single_segment :: "string \<Rightarrow> bool" where
  "single_segment k \<longleftrightarrow> CHR '':'' \<notin> set k \<and> CHR ''<'' \<notin> set k"

text \<open>The limit is read at 64 bits and cut down to 32.\<close>

definition throttle_kv :: "ThrottleEntries \<Rightarrow> string \<times> Tok \<Rightarrow> MacroError + ThrottleEntries" where
  "throttle_kv found kv =
     (case (found, kv) of ((limit, ttl), (k, v)) \<Rightarrow>
        if \<not> single_segment k then Inl (Custom ''`#[throttle]` expects `limit = <int>, ttl = <int>`'')
        else (case int_tok v of
           None \<Rightarrow> Inl (Custom ''`#[throttle]` expects integer values for `limit` and `ttl`'')
         | Some n \<Rightarrow>
             (case int_of_width n :: 64 word option of
                None \<Rightarrow> Inl Syn
              | Some parsed_value \<Rightarrow>
                  if k = ''limit'' then
                    if limit \<noteq> None then Inl (Custom ''duplicate `limit` entry in `#[throttle]`'')
                    else Inr (Some (ucast parsed_value), ttl)
                  else if k = ''ttl'' then
                    if ttl \<noteq> None then Inl (Custom ''duplicate `ttl` entry in `#[throttle]`'')
                    else Inr (limit, Some parsed_value)
                  else Inl (Custom (''unknown `#[throttle]` key `'' @ k @ ''`; expected `limit` or `ttl`'')))))"

fun throttle_kvs :: "ThrottleEntries \<Rightarrow> (string \<times> Tok) list \<Rightarrow> MacroError + ThrottleEntries" where
  "throttle_kvs found [] = Inr found"
| "throttle_kvs found (kv # kvs) = (case throttle_kv found kv of Inl e \<Rightarrow> Inl e | Inr found' \<Rightarrow> throttle_kvs found' kvs)"

definition throttle_macro :: "Tok list \<Rightarrow> ItemKind \<Rightarrow> Attribute list \<Rightarrow> MacroError + Attribute list" where
  "throttle_macro args kind attrs =
     (case parse_name_values args of
        Inl e \<Rightarrow> Inl e
      | Inr kvs \<Rightarrow>
          (case throttle_kvs (None, None) kvs of
             Inl e \<Rightarrow> Inl e
           | Inr (limit, ttl) \<Rightarrow>
               (case require limit ''`#[throttle]` requires a `limit` entry'' of
                  Inl e \<Rightarrow> Inl e
                | Inr l \<Rightarrow>
                    (case require ttl ''`#[throttle]` requires a `ttl` entry'' of
                       Inl e \<Rightarrow> Inl e
                     | Inr t \<Rightarrow>
                         attach ''`#[throttle]` only supports controller structs and inherent controller methods''
                           (throttle_marker_attr l t) kind attrs))))"

definition skip_throttle_macro :: "Tok list \<Rightarrow> ItemKind \<Rightarrow> Attribute list \<Rightarrow> MacroError + Attribute list" where
  "skip_throttle_macro args kind attrs =
     (if args \<noteq> [] then Inl (Custom ''`#[skip_throttle]` does not accept arguments'')
      else attach ''`#[skip_throttle]` only supports controller structs and inherent controller methods''
        skip_throttle_marker_attr kind attrs)"

text \<open>The macros of HTTP methods, and the two of responses, which leave other items alone.\<close>

definition route_macro :: "string \<Rightarrow> Tok list \<Rightarrow> ItemKind \<Rightarrow> Attribute list \<Rightarrow> MacroError + Attribute list" where
  "route_macro method args kind attrs =
     (case parse_one str_tok args of
        Inl e \<Rightarrow> Inl e
      | Inr p \<Rightarrow> if kind = KMethod then Inr (route_marker_attr method p # attrs) else Inl Syn)"

definition response_marker_attr :: "string \<Rightarrow> Attribute" where
  "response_marker_attr text = doc_attr text"

definition http_code_macro :: "Tok list \<Rightarrow> ItemKind \<Rightarrow> Attribute list \<Rightarrow> MacroError + Attribute list" where
  "http_code_macro args kind attrs =
     (if kind = KMethod
      then (case parse_one int_tok args of
              Inl e \<Rightarrow> Inl e
            | Inr n \<Rightarrow> Inr (response_marker_attr (''http_code '' @ show_nat n) # attrs))
      else Inr attrs)"

definition header_macro :: "Tok list \<Rightarrow> ItemKind \<Rightarrow> Attribute list \<Rightarrow> MacroError + Attribute list" where
  "header_macro args kind attrs =
     (if kind = KMethod
      then (case parse_terminated str_tok args of
              Inl e \<Rightarrow> Inl e
            | Inr [name, val] \<Rightarrow> Inr (response_marker_attr (''header '' @ trim name @ '' '' @ trim val) # attrs)
            | Inr _ \<Rightarrow> Inl (Custom ''`#[header]` expects exactly two string arguments''))
      else Inr attrs)"

end
