(* ===== verification/Controller_Expansion.thy ===== *)
theory Controller_Expansion
  imports Controller_Attributes Application
begin

text \<open>
  The two macros of a controller (\<open>nivasa-macros/src/controller.rs\<close>): \<open>#[controller]\<close> on the struct, \<open>#[impl_controller]\<close>
  on its methods, and the functions they generate. The result of an expansion is the item with the attributes that are
  left on it, and the bindings from which the generated functions are written.
\<close>

section \<open>The struct\<close>

record ControllerStruct =
  ct_pipes :: "string list"
  ct_guards :: "string list"
  ct_roles :: "string list"
  ct_interceptors :: "string list"
  ct_filters :: "string list"
  ct_metadata :: "MetadataBinding list"
  ct_tags :: "string list"
  ct_throttle :: "ThrottleBinding option"
  ct_skip_throttle :: bool
  ct_retained :: "Attribute list"

definition no_controller_attrs :: ControllerStruct where
  "no_controller_attrs =
     \<lparr>ct_pipes = [], ct_guards = [], ct_roles = [], ct_interceptors = [], ct_filters = [], ct_metadata = [], ct_tags = [],
      ct_throttle = None, ct_skip_throttle = False, ct_retained = []\<rparr>"

definition controller_attr :: "Attribute \<Rightarrow> ControllerStruct \<Rightarrow> MacroError + ControllerStruct" where
  "controller_attr a st =
     attempt (parse_pipe_binding a) (\<lambda>ps. Inr (st\<lparr>ct_pipes := ct_pipes st @ ps\<rparr>))
     (attempt (parse_guard_binding a) (\<lambda>gs. Inr (st\<lparr>ct_guards := ct_guards st @ gs\<rparr>))
     (attempt (parse_roles_binding a) (\<lambda>rs. Inr (st\<lparr>ct_roles := ct_roles st @ rs\<rparr>))
     (attempt (parse_interceptor_binding a) (\<lambda>is. Inr (st\<lparr>ct_interceptors := ct_interceptors st @ is\<rparr>))
     (attempt (parse_filter_binding a) (\<lambda>fs. Inr (st\<lparr>ct_filters := ct_filters st @ fs\<rparr>))
     (attempt (parse_set_metadata_binding a) (\<lambda>ms. Inr (st\<lparr>ct_metadata := ct_metadata st @ ms\<rparr>))
     (attempt (parse_api_tags_binding a) (\<lambda>ts. Inr (st\<lparr>ct_tags := ct_tags st @ ts\<rparr>))
     (attempt (parse_throttle_binding a)
        (\<lambda>b. if ct_throttle st \<noteq> None then Inl (Custom ''duplicate `#[throttle]` entry in controller'')
             else Inr (st\<lparr>ct_throttle := Some b\<rparr>))
     (attempt (parse_skip_throttle_binding a)
        (\<lambda>_. if ct_skip_throttle st then Inl (Custom ''duplicate `#[skip_throttle]` entry in controller'')
             else Inr (st\<lparr>ct_skip_throttle := True\<rparr>))
     (Inr (st\<lparr>ct_retained := ct_retained st @ [a]\<rparr>))))))))))"

fun controller_attrs :: "Attribute list \<Rightarrow> ControllerStruct \<Rightarrow> MacroError + ControllerStruct" where
  "controller_attrs [] st = Inr st"
| "controller_attrs (a # as) st = (case controller_attr a st of Inl e \<Rightarrow> Inl e | Inr st' \<Rightarrow> controller_attrs as st')"

text \<open>The generated functions of the struct return the path and the version of the arguments, and the bindings.\<close>

definition expand_controller :: "ControllerArgs \<Rightarrow> Attribute list \<Rightarrow> MacroError + string \<times> string option \<times> ControllerStruct" where
  "expand_controller args attrs =
     (case controller_attrs attrs no_controller_attrs of
        Inl e \<Rightarrow> Inl e
      | Inr st \<Rightarrow> map_sum id (\<lambda>p. (p, ca_version args, st)) (require (ca_path args) ''missing controller path''))"

definition controller_throttle_default :: "ControllerStruct \<Rightarrow> (32 word \<times> 64 word) option" where
  "controller_throttle_default st = map_option (\<lambda>b. (tb_limit b, tb_ttl_secs b)) (ct_throttle st)"

section \<open>Methods\<close>

datatype ArgType = ArgReference string | ArgPath string | ArgOther

datatype FnArg = Receiver | Typed "Attribute list" ArgType

record ImplItemFn =
  fn_name :: string
  fn_attrs :: "Attribute list"
  fn_async :: bool
  fn_inputs :: "FnArg list"

datatype ImplItem = ImplFn ImplItemFn | ImplOther

datatype ControllerDispatchKind = NoArgs | Request | Unsupported

record MethodAttrs =
  ma_route :: "RouteBinding option"
  ma_pipes :: "string list"
  ma_pipe_attr_count :: nat
  ma_responses :: "ResponseBinding list"
  ma_guards :: "string list"
  ma_roles :: "string list"
  ma_interceptors :: "string list"
  ma_filters :: "string list"
  ma_metadata :: "MetadataBinding list"
  ma_throttle :: "ThrottleBinding option"
  ma_skip_throttle :: bool
  ma_operation :: "string option"
  ma_api_params :: "ApiParamBinding list"
  ma_api_responses :: "ApiResponseBinding list"
  ma_api_body :: "string option"
  ma_api_bearer_auth :: bool
  ma_health_check :: bool
  ma_retained :: "Attribute list"

definition no_method_attrs :: MethodAttrs where
  "no_method_attrs =
     \<lparr>ma_route = None, ma_pipes = [], ma_pipe_attr_count = 0, ma_responses = [], ma_guards = [], ma_roles = [],
      ma_interceptors = [], ma_filters = [], ma_metadata = [], ma_throttle = None, ma_skip_throttle = False,
      ma_operation = None, ma_api_params = [], ma_api_responses = [], ma_api_body = None, ma_api_bearer_auth = False,
      ma_health_check = False, ma_retained = []\<rparr>"

definition only_one :: "bool \<Rightarrow> string \<Rightarrow> MethodAttrs \<Rightarrow> MacroError + MethodAttrs" where
  "only_one taken what st = (if taken then Inl (Custom (''a controller method can only use one '' @ what @ '' attribute'')) else Inr st)"

definition method_attr :: "Attribute \<Rightarrow> MethodAttrs \<Rightarrow> MacroError + MethodAttrs" where
  "method_attr a st =
     attempt (parse_guard_binding a) (\<lambda>gs. Inr (st\<lparr>ma_guards := ma_guards st @ gs\<rparr>))
     (attempt (parse_roles_binding a) (\<lambda>rs. Inr (st\<lparr>ma_roles := ma_roles st @ rs\<rparr>))
     (attempt (parse_interceptor_binding a) (\<lambda>is. Inr (st\<lparr>ma_interceptors := ma_interceptors st @ is\<rparr>))
     (attempt (parse_filter_binding a) (\<lambda>fs. Inr (st\<lparr>ma_filters := ma_filters st @ fs\<rparr>))
     (attempt (parse_set_metadata_binding a) (\<lambda>ms. Inr (st\<lparr>ma_metadata := ma_metadata st @ ms\<rparr>))
     (attempt (parse_api_operation_binding a)
        (\<lambda>s. only_one (ma_operation st \<noteq> None) ''`#[api_operation]`'' (st\<lparr>ma_operation := Some s\<rparr>))
     (attempt (parse_api_param_binding a) (\<lambda>p. Inr (st\<lparr>ma_api_params := ma_api_params st @ [p]\<rparr>))
     (attempt (parse_api_response_binding a) (\<lambda>r. Inr (st\<lparr>ma_api_responses := ma_api_responses st @ [r]\<rparr>))
     (attempt (parse_api_body_binding a)
        (\<lambda>t. only_one (ma_api_body st \<noteq> None) ''`#[api_body]`'' (st\<lparr>ma_api_body := Some t\<rparr>))
     (attempt (parse_api_bearer_auth_binding a)
        (\<lambda>_. only_one (ma_api_bearer_auth st) ''`#[api_bearer_auth]`'' (st\<lparr>ma_api_bearer_auth := True\<rparr>))
     (attempt (parse_health_check_binding a)
        (\<lambda>_. only_one (ma_health_check st) ''`#[health_check]`'' (st\<lparr>ma_health_check := True\<rparr>))
     (attempt (parse_route_binding a) (\<lambda>r. only_one (ma_route st \<noteq> None) ''HTTP method'' (st\<lparr>ma_route := Some r\<rparr>))
     (attempt (parse_pipe_binding a)
        (\<lambda>ps. Inr (st\<lparr>ma_pipes := ma_pipes st @ ps, ma_pipe_attr_count := ma_pipe_attr_count st + 1\<rparr>))
     (attempt (parse_throttle_binding a)
        (\<lambda>b. only_one (ma_throttle st \<noteq> None) ''`#[throttle]`'' (st\<lparr>ma_throttle := Some b\<rparr>))
     (attempt (parse_skip_throttle_binding a)
        (\<lambda>_. only_one (ma_skip_throttle st) ''`#[skip_throttle]`'' (st\<lparr>ma_skip_throttle := True\<rparr>))
     (attempt (parse_response_binding a) (\<lambda>r. Inr (st\<lparr>ma_responses := ma_responses st @ [r]\<rparr>))
     (Inr (st\<lparr>ma_retained := ma_retained st @ [a]\<rparr>)))))))))))))))))"

fun method_attrs :: "Attribute list \<Rightarrow> MethodAttrs \<Rightarrow> MacroError + MethodAttrs" where
  "method_attrs [] st = Inr st"
| "method_attrs (a # as) st = (case method_attr a st of Inl e \<Rightarrow> Inl e | Inr st' \<Rightarrow> method_attrs as st')"

section \<open>Parameters of a method\<close>

record ParameterAttrs =
  pa_binding :: "ParameterBinding option"
  pa_pipes :: "string list"
  pa_pipe_attr_count :: nat
  pa_retained :: "Attribute list"

definition parameter_attr :: "Attribute \<Rightarrow> ParameterAttrs \<Rightarrow> MacroError + ParameterAttrs" where
  "parameter_attr a st =
     attempt (parse_parameter_extractor a)
       (\<lambda>b. if pa_binding st \<noteq> None
            then Inl (Custom ''a controller parameter can only use one extractor attribute'')
            else Inr (st\<lparr>pa_binding := Some b\<rparr>))
     (attempt (parse_parameter_pipe a)
       (\<lambda>ps. if pa_pipe_attr_count st + 1 > 1
             then Inl (Custom ''a controller parameter can only use one `#[pipe]` attribute'')
             else Inr (st\<lparr>pa_pipes := pa_pipes st @ ps, pa_pipe_attr_count := pa_pipe_attr_count st + 1\<rparr>))
     (Inr (st\<lparr>pa_retained := pa_retained st @ [a]\<rparr>)))"

fun parameter_attrs :: "Attribute list \<Rightarrow> ParameterAttrs \<Rightarrow> MacroError + ParameterAttrs" where
  "parameter_attrs [] st = Inr st"
| "parameter_attrs (a # as) st = (case parameter_attr a st of Inl e \<Rightarrow> Inl e | Inr st' \<Rightarrow> parameter_attrs as st')"

fun collect_parameter_bindings ::
  "FnArg list \<Rightarrow> MacroError + FnArg list \<times> ParameterBinding list \<times> string list list" where
  "collect_parameter_bindings [] = Inr ([], [], [])"
| "collect_parameter_bindings (Receiver # inputs) =
     map_sum id (\<lambda>(kept, rest). (Receiver # kept, rest)) (collect_parameter_bindings inputs)"
| "collect_parameter_bindings (Typed attrs ty # inputs) =
     (case parameter_attrs attrs \<lparr>pa_binding = None, pa_pipes = [], pa_pipe_attr_count = 0, pa_retained = []\<rparr> of
        Inl e \<Rightarrow> Inl e
      | Inr st \<Rightarrow>
          map_sum id
            (\<lambda>(kept, parameters, pipes).
               (Typed (pa_retained st) ty # kept,
                (case pa_binding st of Some b \<Rightarrow> b # parameters | None \<Rightarrow> parameters),
                pa_pipes st # pipes))
            (collect_parameter_bindings inputs))"

section \<open>How a method can be called\<close>

definition is_nivasa_request_type :: "string \<Rightarrow> bool" where
  "is_nivasa_request_type printed \<longleftrightarrow> ends_with printed ''NivasaRequest''"

fun is_nivasa_request_arg :: "FnArg \<Rightarrow> bool" where
  "is_nivasa_request_arg (Typed _ (ArgReference t)) = is_nivasa_request_type t"
| "is_nivasa_request_arg (Typed _ (ArgPath t)) = is_nivasa_request_type t"
| "is_nivasa_request_arg _ = False"

definition controller_dispatch_kind :: "bool \<Rightarrow> FnArg list \<Rightarrow> ParameterBinding list \<Rightarrow> bool \<Rightarrow> ControllerDispatchKind" where
  "controller_dispatch_kind is_async inputs bound unit_struct =
     (if \<not> unit_struct \<or> is_async then Unsupported
      else case inputs of
          Receiver # params \<Rightarrow>
            if params = [] \<and> bound = [] then NoArgs
            else (case params of
                [p] \<Rightarrow> if is_nivasa_request_arg p then Request else Unsupported
              | _ \<Rightarrow> Unsupported)
        | _ \<Rightarrow> Unsupported)"


section \<open>The impl block\<close>

record ControllerMethodBinding =
  cm_route :: RouteBinding
  cm_handler :: string
  cm_pipes :: "string list"
  cm_parameters :: "ParameterBinding list"
  cm_parameter_pipes :: "string list list"
  cm_guards :: "string list"
  cm_roles :: "string list"
  cm_interceptors :: "string list"
  cm_filters :: "string list"
  cm_metadata :: "MetadataBinding list"
  cm_throttle :: "ThrottleBinding option"
  cm_skip_throttle :: bool
  cm_operation :: "string option"
  cm_api_params :: "ApiParamBinding list"
  cm_api_responses :: "ApiResponseBinding list"
  cm_api_body :: "string option"
  cm_api_bearer_auth :: bool
  cm_health_check :: bool
  cm_response :: "ResponseBinding option"
  cm_dispatch :: ControllerDispatchKind

fun merge_responses :: "ResponseBinding \<Rightarrow> ResponseBinding list \<Rightarrow> MacroError + ResponseBinding" where
  "merge_responses merged [] = Inr merged"
| "merge_responses merged (b # bs) =
     (if resp_status_code b \<noteq> None \<and> resp_status_code merged \<noteq> None
      then Inl (Custom ''a controller method can only use one `#[http_code]` attribute'')
      else merge_responses
        \<lparr>resp_status_code = (if resp_status_code b \<noteq> None then resp_status_code b else resp_status_code merged),
         resp_headers = resp_headers merged @ resp_headers b\<rparr> bs)"

definition merged_response :: "ResponseBinding list \<Rightarrow> MacroError + ResponseBinding option" where
  "merged_response bs =
     (if bs = [] then Inr None else map_sum id Some (merge_responses \<lparr>resp_status_code = None, resp_headers = []\<rparr> bs))"

definition has_controller_metadata :: "MethodAttrs \<Rightarrow> ParameterBinding list \<Rightarrow> string list list \<Rightarrow> bool" where
  "has_controller_metadata st bound pipes \<longleftrightarrow>
     ma_responses st \<noteq> [] \<or> ma_pipes st \<noteq> [] \<or> bound \<noteq> [] \<or> (\<exists>ps \<in> set pipes. ps \<noteq> []) \<or> ma_guards st \<noteq> []
     \<or> ma_roles st \<noteq> [] \<or> ma_interceptors st \<noteq> [] \<or> ma_filters st \<noteq> [] \<or> ma_metadata st \<noteq> []
     \<or> ma_operation st \<noteq> None \<or> ma_api_params st \<noteq> [] \<or> ma_api_responses st \<noteq> [] \<or> ma_api_body st \<noteq> None
     \<or> ma_api_bearer_auth st \<or> ma_health_check st \<or> ma_throttle st \<noteq> None \<or> ma_skip_throttle st"

definition method_binding ::
  "ImplItemFn \<Rightarrow> RouteBinding \<Rightarrow> MethodAttrs \<Rightarrow> ParameterBinding list \<Rightarrow> string list list \<Rightarrow> ResponseBinding option \<Rightarrow>
   ControllerDispatchKind \<Rightarrow> ControllerMethodBinding" where
  "method_binding f r st bound pipes response dispatch_kind =
     \<lparr>cm_route = r, cm_handler = fn_name f, cm_pipes = ma_pipes st, cm_parameters = bound, cm_parameter_pipes = pipes,
      cm_guards = ma_guards st, cm_roles = ma_roles st, cm_interceptors = ma_interceptors st, cm_filters = ma_filters st,
      cm_metadata = ma_metadata st, cm_throttle = (if ma_skip_throttle st then None else ma_throttle st),
      cm_skip_throttle = ma_skip_throttle st, cm_operation = ma_operation st, cm_api_params = ma_api_params st,
      cm_api_responses = ma_api_responses st, cm_api_body = ma_api_body st, cm_api_bearer_auth = ma_api_bearer_auth st,
      cm_health_check = ma_health_check st, cm_response = response, cm_dispatch = dispatch_kind\<rparr>"

text \<open>One method: what is left of it, and its binding when it has a route. The checks are in the order of the original.\<close>

definition expand_method ::
  "ImplItemFn \<Rightarrow> (string \<times> string) set \<Rightarrow> MacroError + ImplItemFn \<times> ControllerMethodBinding option" where
  "expand_method f seen_routes =
     (case method_attrs (fn_attrs f) no_method_attrs of
        Inl e \<Rightarrow> Inl e
      | Inr st \<Rightarrow>
          (case collect_parameter_bindings (fn_inputs f) of
             Inl e \<Rightarrow> Inl e
           | Inr (inputs, bound, pipes) \<Rightarrow>
               let kept = f\<lparr>fn_attrs := ma_retained st, fn_inputs := inputs\<rparr> in
               if ma_pipe_attr_count st > 1 then Inl (Custom ''a controller method can only use one `#[pipe]` attribute'')
               else case merged_response (ma_responses st) of
                   Inl e \<Rightarrow> Inl e
                 | Inr response \<Rightarrow>
                     (case ma_route st of
                        None \<Rightarrow>
                          if has_controller_metadata st bound pipes
                          then Inl (Custom ''controller metadata requires an HTTP method attribute'')
                          else Inr (kept, None)
                      | Some r \<Rightarrow>
                          if (rb_method r, rb_path r) \<in> seen_routes
                          then Inl (Custom (''duplicate controller route `'' @ rb_method r @ ''` `'' @ rb_path r @ ''`''))
                          else Inr (kept, Some (method_binding f r st bound pipes response
                            (controller_dispatch_kind (fn_async f) inputs bound True))))))"

fun expand_items :: "ImplItem list \<Rightarrow> (string \<times> string) set \<Rightarrow> MacroError + ImplItem list \<times> ControllerMethodBinding list" where
  "expand_items [] seen = Inr ([], [])"
| "expand_items (ImplOther # items) seen = map_sum id (\<lambda>(kept, ms). (ImplOther # kept, ms)) (expand_items items seen)"
| "expand_items (ImplFn f # items) seen =
     (case expand_method f seen of
        Inl e \<Rightarrow> Inl e
      | Inr (f', None) \<Rightarrow> map_sum id (\<lambda>(kept, ms). (ImplFn f' # kept, ms)) (expand_items items seen)
      | Inr (f', Some m) \<Rightarrow>
          map_sum id (\<lambda>(kept, ms). (ImplFn f' # kept, m # ms))
            (expand_items items (insert (rb_method (cm_route m), rb_path (cm_route m)) seen)))"

definition expand_impl_controller :: "bool \<Rightarrow> ImplItem list \<Rightarrow> MacroError + ImplItem list \<times> ControllerMethodBinding list" where
  "expand_impl_controller of_trait items =
     (if of_trait then Inl (Custom ''#[impl_controller] only supports inherent impl blocks'') else expand_items items {})"

definition impl_controller :: "Tok list \<Rightarrow> bool \<Rightarrow> ImplItem list \<Rightarrow> MacroError + ImplItem list \<times> ControllerMethodBinding list" where
  "impl_controller args of_trait items =
     (if args \<noteq> [] then Inl (Custom ''#[impl_controller] takes no arguments'') else expand_impl_controller of_trait items)"

section \<open>The generated functions\<close>

text \<open>Actions are what the methods do, by name: without arguments, or on the request.\<close>

record 'f MethodActions =
  act_no_args :: "string \<Rightarrow> 'f"
  act_request :: "string \<Rightarrow> 'f"

definition generated_method :: "'f MethodActions \<Rightarrow> ControllerMethodBinding \<Rightarrow> 'f GeneratedMethod" where
  "generated_method A m =
     \<lparr>gm_method = rb_method (cm_route m), gm_path = rb_path (cm_route m), gm_handler = cm_handler m,
      gm_action = (case cm_dispatch m of
         NoArgs \<Rightarrow> Some (act_no_args A (cm_handler m))
       | Request \<Rightarrow> Some (act_request A (cm_handler m))
       | Unsupported \<Rightarrow> None)\<rparr>"

definition parameter_metadata :: "ControllerMethodBinding list \<Rightarrow> (string \<times> (string \<times> string option) list) list" where
  "parameter_metadata ms = map (\<lambda>m. (cm_handler m, map (\<lambda>b. (pb_kind b, pb_name b)) (cm_parameters m))) ms"

definition pipe_metadata :: "ControllerMethodBinding list \<Rightarrow> (string \<times> string list) list" where
  "pipe_metadata ms = map (\<lambda>m. (cm_handler m, cm_pipes m)) (filter (\<lambda>m. cm_pipes m \<noteq> []) ms)"

definition parameter_pipe_metadata :: "ControllerMethodBinding list \<Rightarrow> (string \<times> string list list) list" where
  "parameter_pipe_metadata ms =
     map (\<lambda>m. (cm_handler m, cm_parameter_pipes m)) (filter (\<lambda>m. list_ex (\<lambda>ps. ps \<noteq> []) (cm_parameter_pipes m)) ms)"

definition response_metadata :: "ControllerMethodBinding list \<Rightarrow> (string \<times> 16 word option \<times> (string \<times> string) list) list" where
  "response_metadata ms =
     map (\<lambda>m. (cm_handler m, Option.bind (cm_response m) resp_status_code,
       (case cm_response m of Some r \<Rightarrow> resp_headers r | None \<Rightarrow> []))) ms"

definition guard_metadata :: "ControllerMethodBinding list \<Rightarrow> (string \<times> string list) list" where
  "guard_metadata ms = map (\<lambda>m. (cm_handler m, cm_guards m)) ms"

definition role_metadata :: "ControllerMethodBinding list \<Rightarrow> (string \<times> string list) list" where
  "role_metadata ms = map (\<lambda>m. (cm_handler m, cm_roles m)) ms"

definition interceptor_metadata :: "ControllerMethodBinding list \<Rightarrow> (string \<times> string list) list" where
  "interceptor_metadata ms = map (\<lambda>m. (cm_handler m, cm_interceptors m)) ms"

definition filter_metadata :: "ControllerMethodBinding list \<Rightarrow> (string \<times> string list) list" where
  "filter_metadata ms = map (\<lambda>m. (cm_handler m, cm_filters m)) ms"

definition set_metadata_metadata :: "ControllerMethodBinding list \<Rightarrow> (string \<times> (string \<times> string) list) list" where
  "set_metadata_metadata ms = map (\<lambda>m. (cm_handler m, map (\<lambda>e. (mb_key e, mb_value e)) (cm_metadata m))) ms"

definition throttle_metadata ::
  "ControllerStruct \<Rightarrow> ControllerMethodBinding list \<Rightarrow> (string \<times> (32 word \<times> 64 word) option \<times> bool) list" where
  "throttle_metadata st ms =
     map (\<lambda>m. (cm_handler m,
       (if ct_skip_throttle st \<or> cm_skip_throttle m then None
        else case cm_throttle m of
            Some b \<Rightarrow> Some (tb_limit b, tb_ttl_secs b)
          | None \<Rightarrow> controller_throttle_default st),
       cm_skip_throttle m \<or> ct_skip_throttle st)) ms"

definition api_param_metadata :: "ControllerMethodBinding list \<Rightarrow> (string \<times> (string \<times> string) list) list" where
  "api_param_metadata ms = map (\<lambda>m. (cm_handler m, map (\<lambda>p. (ap_name p, ap_description p)) (cm_api_params m))) ms"

definition api_response_metadata :: "ControllerMethodBinding list \<Rightarrow> (string \<times> (16 word \<times> string \<times> string) list) list" where
  "api_response_metadata ms =
     map (\<lambda>m. (cm_handler m, map (\<lambda>r. (ar_status r, ar_ty r, ar_description r)) (cm_api_responses m))) ms"

definition api_body_metadata :: "ControllerMethodBinding list \<Rightarrow> (string \<times> string) list" where
  "api_body_metadata ms = List.map_filter (\<lambda>m. map_option (Pair (cm_handler m)) (cm_api_body m)) ms"

definition api_bearer_auth_metadata :: "ControllerMethodBinding list \<Rightarrow> string list" where
  "api_bearer_auth_metadata ms = map cm_handler (filter cm_api_bearer_auth ms)"

definition health_check_metadata :: "ControllerMethodBinding list \<Rightarrow> string list" where
  "health_check_metadata ms = map cm_handler (filter cm_health_check ms)"

definition api_operation_metadata :: "ControllerMethodBinding list \<Rightarrow> (string \<times> string option) list" where
  "api_operation_metadata ms = map (\<lambda>m. (cm_handler m, cm_operation m)) ms"

text \<open>The controller that the module macro and the application work with.\<close>

definition generated_controller ::
  "'f MethodActions \<Rightarrow> TypeId \<Rightarrow> string \<Rightarrow> ControllerStruct \<Rightarrow> ControllerMethodBinding list \<Rightarrow> 'f GeneratedController" where
  "generated_controller A t p st ms =
     \<lparr>gc_type = t, gc_path = p, gc_methods = map (generated_method A) ms, gc_throttle_metadata = throttle_metadata st ms\<rparr>"

end
