(* ===== verification/Controller_Properties.thy ===== *)
theory Controller_Properties
  imports Controller_Expansion
begin

text \<open>
  What the controller macros guarantee: attributes may stand above or below \<open>#[controller]\<close>; the expansion of an impl block
  loses no attribute; limits reach the routes of a module.
\<close>

section \<open>Which parser an attribute belongs to\<close>

text \<open>The name an attribute goes by: its last segment, or the word before the colon in a documentation comment.\<close>

definition tag :: "Attribute \<Rightarrow> string" where
  "tag a = (case doc_text a of Some s \<Rightarrow> takeWhile (\<lambda>c. c \<noteq> CHR '':'') (trim s) | None \<Rightarrow> last (at_path a))"

lemma tag_named: "attr_path_matches a name \<Longrightarrow> name \<noteq> ''doc'' \<Longrightarrow> tag a = name \<and> doc_text a = None"
  by (auto simp: attr_path_matches_def is_ident_def tag_def doc_text_def)

lemma not_named: "tag a \<noteq> name \<Longrightarrow> name \<noteq> ''doc'' \<Longrightarrow> \<not> attr_path_matches a name"
  using tag_named by blast

lemma marker_None: "CHR '':'' \<in> set prefix \<Longrightarrow> tag a \<noteq> takeWhile (\<lambda>c. c \<noteq> CHR '':'') prefix \<Longrightarrow> marker prefix a = None"
  by (auto simp: marker_def tag_def strip_prefix_eq_None starts_with_iff takeWhile_append1 split: option.splits bind_splits)

lemma names_binding_None:
  "name \<noteq> ''doc'' \<Longrightarrow> tag a \<noteq> name \<Longrightarrow> CHR '':'' \<in> set prefix \<Longrightarrow> tag a \<noteq> takeWhile (\<lambda>c. c \<noteq> CHR '':'') prefix \<Longrightarrow>
   names_binding name args e prefix m a = Inr None"
  by (simp add: names_binding_def not_named marker_None)

lemma parse_guard_None: "tag a \<noteq> ''guard'' \<Longrightarrow> tag a \<noteq> ''nivasa-guard'' \<Longrightarrow> parse_guard_binding a = Inr None"
  by (simp add: parse_guard_binding_def names_binding_None)

lemma parse_roles_None: "tag a \<noteq> ''roles'' \<Longrightarrow> tag a \<noteq> ''nivasa-roles'' \<Longrightarrow> parse_roles_binding a = Inr None"
  by (simp add: parse_roles_binding_def names_binding_None)

lemma parse_interceptor_None: "tag a \<noteq> ''interceptor'' \<Longrightarrow> tag a \<noteq> ''nivasa-interceptor'' \<Longrightarrow> parse_interceptor_binding a = Inr None"
  by (simp add: parse_interceptor_binding_def names_binding_None)

lemma parse_filter_None: "tag a \<noteq> ''use_filters'' \<Longrightarrow> tag a \<noteq> ''nivasa-filter'' \<Longrightarrow> parse_filter_binding a = Inr None"
  by (simp add: parse_filter_binding_def names_binding_None)

lemma parse_pipe_None: "tag a \<noteq> ''pipe'' \<Longrightarrow> tag a \<noteq> ''nivasa-pipe'' \<Longrightarrow> parse_pipe_binding a = Inr None"
  by (simp add: parse_pipe_binding_def names_binding_None)

lemma parse_set_metadata_None:
  "tag a \<noteq> ''set_metadata'' \<Longrightarrow> tag a \<noteq> ''nivasa-set-metadata'' \<Longrightarrow> parse_set_metadata_binding a = Inr None"
  by (simp add: parse_set_metadata_binding_def not_named marker_None)

lemma parse_throttle_None: "tag a \<noteq> ''throttle'' \<Longrightarrow> tag a \<noteq> ''nivasa-throttle'' \<Longrightarrow> parse_throttle_binding a = Inr None"
  by (simp add: parse_throttle_binding_def not_named marker_None)

lemma parse_skip_throttle_None:
  "tag a \<noteq> ''skip_throttle'' \<Longrightarrow> tag a \<noteq> ''nivasa-skip-throttle'' \<Longrightarrow> parse_skip_throttle_binding a = Inr None"
  by (auto simp: parse_skip_throttle_binding_def not_named tag_def split: option.splits)

lemma parse_api_tags_None: "tag a \<noteq> ''api_tags'' \<Longrightarrow> parse_api_tags_binding a = Inr None"
  by (simp add: parse_api_tags_binding_def not_named)

lemma parse_api_operation_None: "tag a \<noteq> ''api_operation'' \<Longrightarrow> parse_api_operation_binding a = Inr None"
  by (simp add: parse_api_operation_binding_def not_named)

lemma parse_api_param_None: "tag a \<noteq> ''api_param'' \<Longrightarrow> parse_api_param_binding a = Inr None"
  by (simp add: parse_api_param_binding_def not_named)

lemma parse_api_response_None: "tag a \<noteq> ''api_response'' \<Longrightarrow> parse_api_response_binding a = Inr None"
  by (simp add: parse_api_response_binding_def not_named)

lemma parse_api_body_None: "tag a \<noteq> ''api_body'' \<Longrightarrow> parse_api_body_binding a = Inr None"
  by (simp add: parse_api_body_binding_def not_named)

lemma parse_bare_None:
  "tag a \<noteq> ''api_bearer_auth'' \<Longrightarrow> parse_api_bearer_auth_binding a = Inr None"
  "tag a \<noteq> ''health_check'' \<Longrightarrow> parse_health_check_binding a = Inr None"
  by (simp_all add: parse_api_bearer_auth_binding_def parse_health_check_binding_def bare_binding_def not_named)

definition route_tags :: "string list" where
  "route_tags = ''nivasa-route'' # map fst route_methods"

lemma parse_route_None: "tag a \<notin> set route_tags \<Longrightarrow> parse_route_binding a = Inr None"
  by (simp add: parse_route_binding_def parse_route_marker_def route_tags_def route_methods_def not_named marker_None)

lemma parse_response_None:
  "tag a \<noteq> ''http_code'' \<Longrightarrow> tag a \<noteq> ''header'' \<Longrightarrow> tag a \<noteq> ''nivasa-response'' \<Longrightarrow> parse_response_binding a = Inr None"
  by (simp add: parse_response_binding_def parse_response_marker_def not_named marker_None)

lemmas parsers_None =
  parse_guard_None parse_roles_None parse_interceptor_None parse_filter_None parse_pipe_None parse_set_metadata_None
  parse_throttle_None parse_skip_throttle_None parse_api_tags_None parse_api_operation_None parse_api_param_None
  parse_api_response_None parse_api_body_None parse_bare_None parse_route_None parse_response_None

section \<open>Markers read back\<close>

lemma marker_written:
  assumes "prefix \<noteq> []" "\<not> is_whitespace (hd prefix)" "t \<noteq> []" "\<not> is_whitespace (last t)" "CHR '':'' \<in> set prefix"
  shows "marker prefix (doc_attr (prefix @ '' '' @ t)) = Some ('' '' @ t)"
    and "tag (doc_attr (prefix @ '' '' @ t)) = takeWhile (\<lambda>c. c \<noteq> CHR '':'') prefix"
proof -
  have "trim (prefix @ '' '' @ t) = prefix @ '' '' @ t"
    using trim_pad [of "[]" "[]" "prefix @ '' '' @ t"] assms by simp
  then show "marker prefix (doc_attr (prefix @ '' '' @ t)) = Some ('' '' @ t)"
    and "tag (doc_attr (prefix @ '' '' @ t)) = takeWhile (\<lambda>c. c \<noteq> CHR '':'') prefix"
    using assms(5) by (simp_all add: marker_def doc_text_def doc_attr_def is_ident_def tag_def strip_prefix_eq_Some takeWhile_append1)
qed

lemma trim_ends:
  assumes "trim s \<noteq> []"
  shows "\<not> is_whitespace (hd (trim s)) \<and> \<not> is_whitespace (last (trim s)) \<and> trim (trim s) = trim s"
proof -
  let ?u = "trim_start_matches is_whitespace s"
  have u: "trim s = trim_end_matches is_whitespace ?u" by (simp add: trim_def trim_matches_def)
  then obtain c t where c: "?u = c # t" using assms by (cases ?u) auto
  then have "\<not> is_whitespace c" by (auto simp: trim_start_matches_def dropWhile_eq_Cons_conv)
  then have "hd (trim s) = c" using u c trim_end_matches_head [of is_whitespace c t] by auto
  then have "\<not> is_whitespace (hd (trim s)) \<and> \<not> is_whitespace (last (trim s))"
    using \<open>\<not> is_whitespace c\<close> trim_end_matches_last [of is_whitespace ?u] assms u by auto
  then show ?thesis using trim_pad [of "[]" "[]" "trim s"] assms by simp
qed

lemma joined_ends:
  "ns \<noteq> [] \<Longrightarrow> \<forall>n \<in> set ns. plain_name n \<Longrightarrow>
   join '','' ns \<noteq> [] \<and> \<not> is_whitespace (hd (join '','' ns)) \<and> \<not> is_whitespace (last (join '','' ns))"
  by (induction "'',''" ns rule: join.induct) (auto simp: plain_name_def)

lemma plain_name_trim: "plain_name n \<Longrightarrow> trim n = n"
  using trim_pad [of "[]" "[]" n] by (simp add: plain_name_def)

lemma marker_names_written:
  assumes "ns \<noteq> []" "\<forall>n \<in> set ns. plain_name n"
  shows "marker_names ('' '' @ join '','' ns) = ns"
proof -
  have "trim ('' '' @ join '','' ns @ []) = join '','' ns"
    using joined_ends [OF assms] by (intro trim_pad) (simp_all add: is_whitespace_def)
  moreover have "split_on (CHR '','') (join '','' ns) = ns" using assms by (intro split_on_join) (auto simp: plain_name_def)
  moreover have "map trim ns = ns" using assms plain_name_trim by (intro map_idI) blast
  moreover have "filter (\<lambda>n. n \<noteq> []) ns = ns" using assms by (auto simp: filter_id_conv plain_name_def)
  ultimately show ?thesis by (simp add: marker_names_def)
qed

lemma names_written:
  assumes "ns \<noteq> []" "\<forall>n \<in> set ns. plain_name n" "name \<noteq> ''doc''"
    "prefix \<noteq> []" "\<not> is_whitespace (hd prefix)" "CHR '':'' \<in> set prefix"
  shows "names_binding name args e prefix m (doc_attr (prefix @ '' '' @ join '','' ns)) = Inr (Some ns)"
proof -
  have "\<not> attr_path_matches (doc_attr (prefix @ '' '' @ join '','' ns)) name"
    using assms(3) by (simp add: attr_path_matches_def is_ident_def doc_attr_def)
  then show ?thesis
    using marker_written [of prefix "join '','' ns"] joined_ends [OF assms(1,2)] marker_names_written [OF assms(1,2)] assms
    by (auto simp: names_binding_def split: list.split)
qed

lemma parse_terminated_items: "parse_terminated item ts = Inr xs \<Longrightarrow> x \<in> set xs \<Longrightarrow> \<exists>t \<in> set ts. item t = Some x"
proof (induction item ts arbitrary: xs rule: parse_terminated.induct)
  case (3 item t ts)
  then obtain y ys where "item t = Some y" "parse_terminated item ts = Inr ys" "xs = y # ys"
    by (cases "item t"; cases "parse_terminated item ts") auto
  with 3 show ?case by auto
qed (auto split: option.splits)


section \<open>Above or below the controller attribute\<close>

definition written :: "string \<Rightarrow> Tok list \<Rightarrow> Attribute" where
  "written name args = \<lparr>at_path = [name], at_meta = (if args = [] then MetaPath else MetaList args)\<rparr>"

lemma written_simps:
  "name \<noteq> ''doc'' \<Longrightarrow> tag (written name args) = name"
  "attr_path_matches (written name args) other \<longleftrightarrow> name = other"
  "args \<noteq> [] \<Longrightarrow> parse_args_with p (written name args) = p args"
  "name \<noteq> ''doc'' \<Longrightarrow> doc_text (written name args) = None"
  by (auto simp: written_def tag_def doc_text_def is_ident_def attr_path_matches_def parse_args_with_def)

lemma names_attr:
  "attr_path_matches a name \<Longrightarrow> args a = Inr ns \<Longrightarrow> ns \<noteq> [] \<Longrightarrow> names_binding name args e prefix m a = Inr (Some ns)"
  by (auto simp: names_binding_def split: list.split)

lemma controller_attrs_Cons_cong:
  "(\<And>st. controller_attr a st = controller_attr b st) \<Longrightarrow> expand_controller c (a # attrs) = expand_controller c (b # attrs)"
  by (simp add: expand_controller_def)

lemma names_both:
  assumes "ns \<noteq> []" "\<forall>n \<in> set ns. plain_name n" "name \<noteq> ''doc''" "reader (written name args) = Inr ns"
    "prefix \<noteq> []" "\<not> is_whitespace (hd prefix)" "CHR '':'' \<in> set prefix"
  shows "names_binding name reader e prefix m (doc_attr (prefix @ '' '' @ join '','' ns)) = Inr (Some ns)"
    and "names_binding name reader e prefix m (written name args) = Inr (Some ns)"
    and "tag (doc_attr (prefix @ '' '' @ join '','' ns)) = takeWhile (\<lambda>c. c \<noteq> CHR '':'') prefix"
  using names_written [OF assms(1-3,5-7)] names_attr [of "written name args" name reader ns] assms
    marker_written(2) [of prefix "join '','' ns"] joined_ends [OF assms(1,2)] by (simp_all add: written_simps)

lemma struct_guard:
  assumes "parse_terminated path_tok args = Inr ns" "ns \<noteq> []" "\<forall>n \<in> set ns. plain_name n"
  shows "controller_attr (guard_marker_attr ns) st = controller_attr (written ''guard'' args) st"
proof -
  have "args \<noteq> []" using assms by auto
  with assms show ?thesis
    using names_both [of ns "''guard''" "parse_args_with (parse_terminated path_tok)" args "''nivasa-guard:''"]
    by (simp add: guard_marker_attr_def parse_guard_binding_def is_whitespace_def controller_attr_def attempt_def
      parsers_None written_simps)
qed

lemma struct_interceptor:
  assumes "parse_terminated path_tok args = Inr ns" "ns \<noteq> []" "\<forall>n \<in> set ns. plain_name n"
  shows "controller_attr (interceptor_marker_attr ns) st = controller_attr (written ''interceptor'' args) st"
proof -
  have "args \<noteq> []" using assms by auto
  with assms show ?thesis
    using names_both [of ns "''interceptor''" "parse_args_with (parse_terminated path_tok)" args "''nivasa-interceptor:''"]
    by (simp add: interceptor_marker_attr_def parse_interceptor_binding_def is_whitespace_def controller_attr_def attempt_def
      parsers_None written_simps)
qed

lemma struct_filter:
  assumes "parse_terminated path_tok args = Inr ns" "ns \<noteq> []" "\<forall>n \<in> set ns. plain_name n"
  shows "controller_attr (filter_marker_attr ns) st = controller_attr (written ''use_filters'' args) st"
proof -
  have "args \<noteq> []" using assms by auto
  with assms show ?thesis
    using names_both [of ns "''use_filters''" "parse_args_with (parse_terminated path_tok)" args "''nivasa-filter:''"]
    by (simp add: filter_marker_attr_def parse_filter_binding_def is_whitespace_def controller_attr_def attempt_def
      parsers_None written_simps)
qed

lemma struct_pipe:
  assumes "parse_terminated path_tok args = Inr ns" "ns \<noteq> []" "\<forall>n \<in> set ns. plain_name n"
  shows "controller_attr (pipe_marker_attr ns) st = controller_attr (written ''pipe'' args) st"
proof -
  have "args \<noteq> []" using assms by auto
  with assms show ?thesis
    using names_both [of ns "''pipe''"
        "\<lambda>a. map_sum (\<lambda>_. Custom ''`#[pipe]` requires at least one pipe type'') id (parse_args_with (parse_terminated path_tok) a)"
        args "''nivasa-pipe:''"]
    by (simp add: pipe_marker_attr_def parse_pipe_binding_def is_whitespace_def controller_attr_def attempt_def
      parsers_None written_simps)
qed

lemma struct_roles:
  assumes "parse_terminated str_tok args = Inr rs" "rs \<noteq> []" "\<forall>n \<in> set (map trim rs). plain_name n"
  shows "controller_attr (doc_attr (''nivasa-roles: '' @ join '','' (map trim rs))) st = controller_attr (written ''roles'' args) st"
proof -
  have "args \<noteq> []" using assms by auto
  with assms show ?thesis
    using names_both [of "map trim rs" "''roles''" "\<lambda>a. map_sum id (map trim) (parse_args_with (parse_terminated str_tok) a)"
        args "''nivasa-roles:''"]
    by (simp add: parse_roles_binding_def is_whitespace_def controller_attr_def attempt_def parsers_None written_simps)
qed

lemma struct_skip_throttle: "controller_attr skip_throttle_marker_attr st = controller_attr (written ''skip_throttle'' []) st"
proof -
  have "trim ''nivasa-skip-throttle:'' = ''nivasa-skip-throttle:''" by (rule trim_id) (auto simp: is_whitespace_def)
  then have "tag skip_throttle_marker_attr = ''nivasa-skip-throttle''"
    and "parse_skip_throttle_binding skip_throttle_marker_attr = Inr (Some ())"
    by (simp_all add: skip_throttle_marker_attr_def tag_def doc_attr_def doc_text_def is_ident_def parse_skip_throttle_binding_def
      attr_path_matches_def)
  moreover have "parse_skip_throttle_binding (written ''skip_throttle'' []) = Inr (Some ())"
    by (simp add: parse_skip_throttle_binding_def attr_path_matches_def is_ident_def written_def)
  ultimately show ?thesis by (simp add: controller_attr_def attempt_def parsers_None written_simps)
qed

lemma struct_metadata:
  assumes "nested_args metadata_entry (None, None) args = Inr found" "metadata_pair found = Inr m" "CHR ''='' \<notin> set (mb_key m)"
  shows "controller_attr (doc_attr (''nivasa-set-metadata: '' @ mb_key m @ ''='' @ mb_value m)) st =
    controller_attr (written ''set_metadata'' args) st"
proof -
  have args: "args \<noteq> []" using assms(1,2) by (auto simp: metadata_pair_def require_def)
  obtain k v where m: "mb_key m = trim k" "mb_value m = trim v" "trim k \<noteq> []" "trim v \<noteq> []"
    using assms(2) by (auto simp: metadata_pair_def require_def blank_def split: option.splits if_splits)
  have ends: "\<not> is_whitespace (last (trim v))" "\<not> is_whitespace (hd (trim k))" "trim (trim k) = trim k" "trim (trim v) = trim v"
    using m(3,4) trim_ends by blast+
  let ?t = "mb_key m @ ''='' @ mb_value m"
  have "trim ('' '' @ ?t @ []) = ?t"
    using m ends by (intro trim_pad) (auto simp: is_whitespace_def)
  moreover have "split_once (CHR ''='') ?t = Some (mb_key m, mb_value m)"
    using split_once_first [OF assms(3), of "mb_value m"] by simp
  moreover have "marker ''nivasa-set-metadata:'' (doc_attr (''nivasa-set-metadata:'' @ '' '' @ ?t)) = Some ('' '' @ ?t)"
    and "tag (doc_attr (''nivasa-set-metadata:'' @ '' '' @ ?t)) = ''nivasa-set-metadata''"
    using marker_written [of "''nivasa-set-metadata:''" ?t] m ends by (simp_all add: is_whitespace_def)
  ultimately have "parse_set_metadata_binding (doc_attr (''nivasa-set-metadata: '' @ ?t)) = Inr (Some [m])"
    using m ends by (simp add: parse_set_metadata_binding_def attr_path_matches_def is_ident_def doc_attr_def blank_def)
  moreover have "parse_set_metadata_binding (written ''set_metadata'' args) = Inr (Some [m])"
    using assms args by (simp add: parse_set_metadata_binding_def written_simps parse_nested_meta_def)
  moreover note \<open>tag (doc_attr (''nivasa-set-metadata:'' @ '' '' @ ?t)) = ''nivasa-set-metadata''\<close>
  ultimately show ?thesis by (simp add: controller_attr_def attempt_def parsers_None written_simps)
qed


subsection \<open>Limits as digits\<close>

lemma show_nat_decimal: "show_nat n \<noteq> [] \<and> (\<forall>c \<in> set (show_nat n). CHR ''0'' \<le> c \<and> c \<le> CHR ''9'')"
proof (induction n rule: show_nat.induct)
  case (1 n)
  then show ?case by (subst (1 2) show_nat.simps) (auto simp: less_eq_char_def)
qed

lemma digits_value: "foldl (\<lambda>n c. 10 * n + (of_char c - 48)) 0 (show_nat n) = (n :: nat)"
proof (induction n rule: show_nat.induct)
  case (1 n)
  then show ?case by (subst show_nat.simps) simp
qed

lemma parse_uint_show: "n < 2 ^ LENGTH('w) \<Longrightarrow> parse_uint (show_nat n) = Some (of_nat n :: 'w :: len word)"
proof -
  assume n: "n < 2 ^ LENGTH('w)"
  have "hd (show_nat n) \<noteq> CHR ''+''" using show_nat_decimal [of n] by (cases "show_nat n") (auto simp: less_eq_char_def)
  then have "(case show_nat n of CHR ''+'' # ds \<Rightarrow> ds | _ \<Rightarrow> show_nat n) = show_nat n"
    by (auto split: list.split char.split bool.split)
  then show ?thesis using n show_nat_decimal [of n] by (simp add: parse_uint_def digits_value int_of_width_def Let_def)
qed

lemma show_nat_chars: "c \<in> set (show_nat n) \<Longrightarrow> \<not> is_whitespace c \<and> c \<noteq> CHR '','' \<and> c \<noteq> CHR ''=''"
  using show_nat_decimal [of n] by (auto simp: less_eq_char_def is_whitespace_def)

lemma throttle_marker_read:
  assumes "limit > 0" "ttl > 0"
  shows "parse_throttle_binding (throttle_marker_attr limit ttl) = Inr (Some \<lparr>tb_limit = limit, tb_ttl_secs = ttl\<rparr>)"
    and "tag (throttle_marker_attr limit ttl) = ''nivasa-throttle''"
proof -
  let ?l = "show_nat (unat limit)" and ?t = "show_nat (unat ttl)"
  let ?parts = "''limit='' @ ?l @ '',ttl='' @ ?t"
  have "\<not> is_whitespace (last ?t)" using show_nat_decimal [of "unat ttl"] show_nat_chars last_in_set by blast
  then have last: "\<not> is_whitespace (last ?parts)" using show_nat_decimal [of "unat ttl"] by simp
  then have trimmed: "trim ('' '' @ ?parts @ []) = ?parts" by (intro trim_pad) (simp_all add: is_whitespace_def)
  have no: "CHR '','' \<notin> set (''limit='' @ ?l)" "CHR '','' \<notin> set (''ttl='' @ ?t)" using show_nat_chars by auto
  have eq: "?parts = (''limit='' @ ?l) @ CHR '','' # (''ttl='' @ ?t)" by simp
  have "split_on (CHR '','') ?parts = [''limit='' @ ?l, ''ttl='' @ ?t]"
    unfolding eq split_on_append_sep [OF no(1)] split_on_no_sep [OF no(2)] ..
  then have split: "split_on (CHR '','') (trim ('' '' @ ?parts)) = [''limit='' @ ?l, ''ttl='' @ ?t]"
    using trimmed by (simp only: append_Nil2)
  have part: "trim (key @ CHR ''='' # show_nat n) = key @ CHR ''='' # show_nat n" if "\<forall>c \<in> set key. \<not> is_whitespace c" for key n
    using that show_nat_chars [of _ n] by (intro trim_id) (auto simp: is_whitespace_def)
  have digits: "trim (show_nat n) = show_nat n" for n using show_nat_chars by (intro trim_id) blast
  have key: "trim ''limit'' = ''limit''" "trim ''ttl'' = ''ttl''" by (auto intro!: trim_id simp: is_whitespace_def)
  have "throttle_parts (None, None) (split_on (CHR '','') (trim ('' '' @ ?parts))) = Some (Some limit, Some ttl)"
    unfolding split
    using part [of "''limit''" "unat limit"] part [of "''ttl''" "unat ttl"] key digits
      split_once_first [of "CHR ''=''" "''limit''" ?l] split_once_first [of "CHR ''=''" "''ttl''" ?t]
      parse_uint_show [of "unat limit", where 'w = 32] parse_uint_show [of "unat ttl", where 'w = 64]
      unsigned_less [of limit, where ?'a = nat] unsigned_less [of ttl, where ?'a = nat]
    by (simp add: is_whitespace_def)
  moreover have "marker ''nivasa-throttle:'' (throttle_marker_attr limit ttl) = Some ('' '' @ ?parts)"
    and tag: "tag (throttle_marker_attr limit ttl) = ''nivasa-throttle''"
    using marker_written [of "''nivasa-throttle:''" ?parts] last by (simp_all add: throttle_marker_attr_def is_whitespace_def)
  moreover have "\<not> attr_path_matches (throttle_marker_attr limit ttl) ''throttle''"
    by (simp add: attr_path_matches_def is_ident_def throttle_marker_attr_def doc_attr_def)
  ultimately show "parse_throttle_binding (throttle_marker_attr limit ttl) = Inr (Some \<lparr>tb_limit = limit, tb_ttl_secs = ttl\<rparr>)"
    and "tag (throttle_marker_attr limit ttl) = ''nivasa-throttle''"
    using assms by (simp_all add: parse_throttle_binding_def)
qed

definition small_limit :: "Tok \<Rightarrow> bool" where
  "small_limit t \<longleftrightarrow> (case t of TInt n \<Rightarrow> 0 < n \<and> n < 2 ^ 32 | _ \<Rightarrow> True)"

lemma throttle_kv_entry:
  assumes "throttle_kv found (k, v) = Inr found'" "small_limit v"
  shows "throttle_entry found k (Some v) = Inr found'"
proof -
  obtain n where n: "v = TInt n" using assms(1) by (cases v) (auto simp: throttle_kv_def split: prod.splits if_splits)
  then have "n < 2 ^ 32" "n < 2 ^ 64" using assms(2) by (auto simp: small_limit_def)
  moreover have "ucast (word_of_nat n :: 64 word) = (word_of_nat n :: 32 word)"
    using \<open>n < 2 ^ 64\<close> by (simp add: unsigned_of_nat take_bit_nat_eq_self)
  ultimately show ?thesis using assms(1) n
    by (cases found) (auto simp: throttle_kv_def meta_value_def int_of_width_def split: if_splits)
qed

lemma throttle_args_agree:
  "parse_name_values args = Inr kvs \<Longrightarrow> throttle_kvs found kvs = Inr r \<Longrightarrow> \<forall>t \<in> set args. small_limit t \<Longrightarrow>
   nested_args throttle_entry found args = Inr r"
proof (induction args arbitrary: kvs found rule: parse_name_values.induct)
  case (3 k v ts)
  then obtain kvs' where "parse_name_values ts = Inr kvs'" "kvs = (k, v) # kvs'" by (cases "parse_name_values ts") auto
  moreover from this 3 obtain found' where "throttle_kv found (k, v) = Inr found'" "throttle_kvs found' kvs' = Inr r"
    by (cases "throttle_kv found (k, v)") auto
  ultimately show ?case using throttle_kv_entry [of found k v found'] 3 by auto
next
  case (2 k v)
  then obtain found' where "throttle_kv found (k, v) = Inr found'" "found' = r"
    by (cases "throttle_kv found (k, v)") auto
  then show ?case using throttle_kv_entry [of found k v found'] 2 by auto
qed auto


definition positive_entries :: "ThrottleEntries \<Rightarrow> bool" where
  "positive_entries found \<longleftrightarrow> (\<forall>x. fst found = Some x \<longrightarrow> x > 0) \<and> (\<forall>x. snd found = Some x \<longrightarrow> x > 0)"

lemma positive_throttle_kv:
  assumes "throttle_kv found (k, v) = Inr found'" "small_limit v" "positive_entries found"
  shows "positive_entries found'"
proof -
  obtain n where n: "v = TInt n" using assms(1) by (cases v) (auto simp: throttle_kv_def split: prod.splits if_splits)
  then have "0 < n" "n < 2 ^ 32" using assms(2) by (auto simp: small_limit_def)
  then have "(word_of_nat n :: 64 word) > 0" "ucast (word_of_nat n :: 64 word) > (0 :: 32 word)"
    by (simp_all add: word_less_nat_alt unsigned_of_nat take_bit_nat_eq_self)
  then show ?thesis using assms(1,3) n
    by (cases found) (auto simp: throttle_kv_def positive_entries_def int_of_width_def split: if_splits)
qed

lemma positive_throttle_kvs:
  "throttle_kvs found kvs = Inr found' \<Longrightarrow> \<forall>kv \<in> set kvs. small_limit (snd kv) \<Longrightarrow> positive_entries found \<Longrightarrow>
   positive_entries found'"
proof (induction found kvs rule: throttle_kvs.induct)
  case (2 found kv kvs)
  then obtain found1 where "throttle_kv found kv = Inr found1" "throttle_kvs found1 kvs = Inr found'"
    by (cases "throttle_kv found kv") auto
  moreover from this(1) have "positive_entries found1"
    using positive_throttle_kv [of found "fst kv" "snd kv" found1] 2 by simp
  ultimately show ?case using 2 by simp
qed simp

lemma name_values_tokens: "parse_name_values args = Inr kvs \<Longrightarrow> kv \<in> set kvs \<Longrightarrow> snd kv \<in> set args"
proof (induction args arbitrary: kvs rule: parse_name_values.induct)
  case (3 k v ts)
  then show ?case by (cases "parse_name_values ts") auto
qed auto

lemma struct_throttle:
  assumes "parse_name_values args = Inr kvs" "throttle_kvs (None, None) kvs = Inr (Some limit, Some ttl)"
    "\<forall>t \<in> set args. small_limit t"
  shows "controller_attr (throttle_marker_attr limit ttl) st = controller_attr (written ''throttle'' args) st"
proof -
  have positive: "limit > 0" "ttl > 0"
    using positive_throttle_kvs [OF assms(2)] assms(3) name_values_tokens [OF assms(1)] by (auto simp: positive_entries_def)
  then have nonzero: "limit \<noteq> 0" "ttl \<noteq> 0" by auto
  have "args \<noteq> []" using assms(1,2) by auto
  then have "parse_throttle_binding (written ''throttle'' args) = Inr (Some \<lparr>tb_limit = limit, tb_ttl_secs = ttl\<rparr>)"
    using throttle_args_agree [OF assms] nonzero
    by (simp add: parse_throttle_binding_def written_simps parse_nested_meta_def throttle_pair_def require_def)
  then show ?thesis using throttle_marker_read [OF positive]
    by (simp add: controller_attr_def attempt_def parsers_None written_simps)
qed

subsection \<open>The order of attributes\<close>

definition marker_macros :: "(string \<times> (Tok list \<Rightarrow> ItemKind \<Rightarrow> Attribute list \<Rightarrow> MacroError + Attribute list)) list" where
  "marker_macros =
     [(''guard'', guard_macro), (''roles'', roles_macro), (''interceptor'', interceptor_macro),
      (''use_filters'', use_filters_macro), (''pipe'', pipe_macro), (''set_metadata'', set_metadata_macro),
      (''throttle'', throttle_macro), (''skip_throttle'', skip_throttle_macro)]"

text \<open>Arguments a marker can carry: names without commas, metadata keys without equals signs, limits of 32 bits.\<close>

definition carried :: "string \<Rightarrow> Tok list \<Rightarrow> bool" where
  "carried name args \<longleftrightarrow>
     (if name = ''roles'' then \<forall>s. TStr s \<in> set args \<longrightarrow> plain_name (trim s)
      else if name = ''set_metadata'' then
        \<forall>found m. nested_args metadata_entry (None, None) args = Inr found \<longrightarrow> metadata_pair found = Inr m \<longrightarrow>
          CHR ''='' \<notin> set (mb_key m)
      else if name = ''throttle'' then \<forall>t \<in> set args. small_limit t
      else \<forall>p. TPath p \<in> set args \<longrightarrow> plain_name p)"

lemma path_tok_Some: "path_tok t = Some p \<longleftrightarrow> t = TPath p"
  by (cases t) auto

lemma str_tok_Some: "str_tok t = Some s \<longleftrightarrow> t = TStr s"
  by (cases t) auto

lemma carried_paths:
  assumes "parse_terminated path_tok args = Inr ns" "\<forall>p. TPath p \<in> set args \<longrightarrow> plain_name p"
  shows "\<forall>n \<in> set ns. plain_name n"
  using parse_terminated_items [OF assms(1)] assms(2) by (auto simp: path_tok_Some)

text \<open>C30: An attribute of a controller means the same above and below \<open>#[controller]\<close>. Above, the attribute's own macro
  runs first and leaves a marker in a comment; below, the controller's macro reads the attribute itself. For every
  attribute whose arguments a marker can carry, both expansions of the struct agree, errors included.\<close>

theorem attribute_order_irrelevant:
  assumes "(name, m) \<in> set marker_macros" "m args KStruct attrs = Inr attrs'" "carried name args"
  shows "expand_controller c attrs' = expand_controller c (written name args # attrs)"
proof -
  have paths: "\<forall>p. TPath p \<in> set args \<longrightarrow> plain_name p" if "name \<notin> {''roles'', ''set_metadata'', ''throttle''}"
    using assms(3) that by (simp add: carried_def)
  have "\<exists>a. attrs' = a # attrs \<and> (\<forall>st. controller_attr a st = controller_attr (written name args) st)"
    using assms(1) unfolding marker_macros_def set_simps
  proof (elim insertE; clarsimp)
    assume n: "name = ''guard''" "m = guard_macro"
    then obtain ns where ns: "parse_terminated path_tok args = Inr ns" "ns \<noteq> []" "attrs' = guard_marker_attr ns # attrs"
      using assms(2) by (auto simp: guard_macro_def attach_def split: sum.splits if_splits)
    then show "\<exists>a. attrs' = a # attrs \<and> (\<forall>st. controller_attr a st = controller_attr (written ''guard'' args) st)"
      using struct_guard [OF ns(1,2) carried_paths [OF ns(1) paths]] n by simp
  next
    assume n: "name = ''roles''" "m = roles_macro"
    then obtain rs where r: "parse_terminated str_tok args = Inr rs" "rs \<noteq> []"
      "attrs' = doc_attr (''nivasa-roles: '' @ join '','' (map trim rs)) # attrs"
      using assms(2) by (auto simp: roles_macro_def attach_def split: sum.splits if_splits)
    then have "\<forall>n \<in> set (map trim rs). plain_name n"
      using parse_terminated_items [OF r(1)] assms(3) n by (auto simp: carried_def str_tok_Some)
    then show "\<exists>a. attrs' = a # attrs \<and> (\<forall>st. controller_attr a st = controller_attr (written ''roles'' args) st)"
      using struct_roles [OF r(1,2)] r(3) by blast
  next
    assume n: "name = ''interceptor''" "m = interceptor_macro"
    then obtain ns where ns: "parse_terminated path_tok args = Inr ns" "ns \<noteq> []" "attrs' = interceptor_marker_attr ns # attrs"
      using assms(2) by (auto simp: interceptor_macro_def attach_def split: sum.splits if_splits)
    then show "\<exists>a. attrs' = a # attrs \<and> (\<forall>st. controller_attr a st = controller_attr (written ''interceptor'' args) st)"
      using struct_interceptor [OF ns(1,2) carried_paths [OF ns(1) paths]] n by simp
  next
    assume n: "name = ''use_filters''" "m = use_filters_macro"
    then obtain ns where ns: "parse_terminated path_tok args = Inr ns" "ns \<noteq> []" "attrs' = filter_marker_attr ns # attrs"
      using assms(2) by (auto simp: use_filters_macro_def attach_def split: sum.splits if_splits)
    then show "\<exists>a. attrs' = a # attrs \<and> (\<forall>st. controller_attr a st = controller_attr (written ''use_filters'' args) st)"
      using struct_filter [OF ns(1,2) carried_paths [OF ns(1) paths]] n by simp
  next
    assume n: "name = ''pipe''" "m = pipe_macro"
    then obtain ns where ns: "parse_terminated path_tok args = Inr ns" "ns \<noteq> []" "attrs' = pipe_marker_attr ns # attrs"
      using assms(2) by (auto simp: pipe_macro_def attach_def split: sum.splits if_splits)
    then show "\<exists>a. attrs' = a # attrs \<and> (\<forall>st. controller_attr a st = controller_attr (written ''pipe'' args) st)"
      using struct_pipe [OF ns(1,2) carried_paths [OF ns(1) paths]] n by simp
  next
    assume n: "name = ''set_metadata''" "m = set_metadata_macro"
    then obtain found b where "nested_args metadata_entry (None, None) args = Inr found" "metadata_pair found = Inr b"
      "attrs' = doc_attr (''nivasa-set-metadata: '' @ mb_key b @ ''='' @ mb_value b) # attrs"
      using assms(2) by (auto simp: set_metadata_macro_def attach_def split: sum.splits)
    then show "\<exists>a. attrs' = a # attrs \<and> (\<forall>st. controller_attr a st = controller_attr (written ''set_metadata'' args) st)"
      using struct_metadata [of args found b] assms(3) n by (simp add: carried_def)
  next
    assume n: "name = ''throttle''" "m = throttle_macro"
    then obtain kvs limit ttl where "parse_name_values args = Inr kvs" "throttle_kvs (None, None) kvs = Inr (Some limit, Some ttl)"
      "attrs' = throttle_marker_attr limit ttl # attrs"
      using assms(2) by (auto simp: throttle_macro_def attach_def require_def split: sum.splits option.splits)
    then show "\<exists>a. attrs' = a # attrs \<and> (\<forall>st. controller_attr a st = controller_attr (written ''throttle'' args) st)"
      using struct_throttle [of args kvs limit ttl] assms(3) n by (simp add: carried_def)
  next
    assume n: "name = ''skip_throttle''" "m = skip_throttle_macro"
    then have "attrs' = skip_throttle_marker_attr # attrs" "args = []"
      using assms(2) by (auto simp: skip_throttle_macro_def attach_def split: if_splits)
    then show "\<exists>a. attrs' = a # attrs \<and> (\<forall>st. controller_attr a st = controller_attr (written ''skip_throttle'' args) st)"
      using struct_skip_throttle by blast
  qed
  then show ?thesis using controller_attrs_Cons_cong by metis
qed


theorem attribute_order_irrelevant_witness:
  "\<exists>attrs. guard_macro [TPath ''AuthGuard'', TComma, TPath ''RoleGuard''] KStruct [] = Inr attrs \<and>
     expand_controller \<lparr>ca_path = Some ''/users'', ca_version = None\<rparr> attrs =
     expand_controller \<lparr>ca_path = Some ''/users'', ca_version = None\<rparr> [written ''guard'' [TPath ''AuthGuard'', TComma, TPath ''RoleGuard'']]"
proof -
  let ?args = "[TPath ''AuthGuard'', TComma, TPath ''RoleGuard'']"
  have "guard_macro ?args KStruct [] = Inr [guard_marker_attr [''AuthGuard'', ''RoleGuard'']]"
    by (simp add: guard_macro_def attach_def)
  moreover have "carried ''guard'' ?args" by (simp add: carried_def plain_name_def is_whitespace_def)
  moreover have "(''guard'', guard_macro) \<in> set marker_macros" by (simp add: marker_macros_def)
  ultimately show ?thesis using attribute_order_irrelevant by blast
qed

text \<open>Arguments that a marker cannot carry: a comma inside a role, and a limit above 32 bits.\<close>

lemma marker_splits_role:
  "\<exists>a. roles_macro [TStr ''a,b''] KStruct [] = Inr [a] \<and> parse_roles_binding a = Inr (Some [''a'', ''b'']) \<and>
     parse_roles_binding (written ''roles'' [TStr ''a,b'']) = Inr (Some [''a,b''])"
proof -
  have trims: "trim ''a,b'' = ''a,b''" "trim ''a'' = ''a''" "trim ''b'' = ''b''" by (auto intro!: trim_id simp: is_whitespace_def)
  have "trim (''nivasa-roles:'' @ '' a,b'') = ''nivasa-roles: a,b''"
    using trim_pad [of "[]" "[]" "''nivasa-roles: a,b''"] by (simp add: is_whitespace_def)
  moreover have "trim ('' '' @ ''a,b'' @ []) = ''a,b''" by (rule trim_pad) (simp_all add: is_whitespace_def)
  ultimately show ?thesis using trims
    by (simp add: roles_macro_def attach_def parse_roles_binding_def names_binding_def attr_path_matches_def is_ident_def doc_attr_def
      marker_def doc_text_def strip_prefix_def starts_with_def marker_names_def written_def parse_args_with_def)
qed

lemma marker_cuts_limit:
  "\<exists>a. throttle_macro [TPath ''limit'', TEq, TInt (2 ^ 32 + 5), TComma, TPath ''ttl'', TEq, TInt 60] KStruct [] = Inr [a] \<and>
     parse_throttle_binding a = Inr (Some \<lparr>tb_limit = 5, tb_ttl_secs = 60\<rparr>)"
proof -
  have wraps: "(4294967301 :: 32 word) = 5" by (transfer; simp add: take_bit_eq_mod)
  have "throttle_macro [TPath ''limit'', TEq, TInt (2 ^ 32 + 5), TComma, TPath ''ttl'', TEq, TInt 60] KStruct [] =
      Inr [throttle_marker_attr 5 60]"
    by (simp add: throttle_macro_def throttle_kv_def single_segment_def int_of_width_def require_def attach_def wraps)
  then show ?thesis using throttle_marker_read(1) [of 5 60] by simp
qed

text \<open>The markers of responses have no prefix, so that the expansion of the impl block does not know them.\<close>

lemma response_marker_unread: "parse_response_binding (response_marker_attr (''http_code '' @ show_nat 201)) = Inr None"
proof -
  have "trim (''http_code '' @ show_nat 201) = ''http_code '' @ show_nat 201"
    using trim_pad [of "[]" "[]" "''http_code '' @ show_nat 201"] show_nat_decimal [of 201] show_nat_chars [of "last (show_nat 201)" 201]
    by (simp add: is_whitespace_def)
  then have "tag (response_marker_attr (''http_code '' @ show_nat 201)) \<noteq> ''http_code''
      \<and> tag (response_marker_attr (''http_code '' @ show_nat 201)) \<noteq> ''header''
      \<and> tag (response_marker_attr (''http_code '' @ show_nat 201)) \<noteq> ''nivasa-response''"
    by (simp add: tag_def response_marker_attr_def doc_attr_def doc_text_def is_ident_def takeWhile_eq_Nil_iff)
  then show ?thesis by (simp add: parse_response_None)
qed


section \<open>The expansion of an impl block\<close>

text \<open>What a parser finds in a list of attributes.\<close>

definition found :: "(Attribute \<Rightarrow> MacroError + 'a option) \<Rightarrow> Attribute list \<Rightarrow> 'a list" where
  "found p as = concat (map (\<lambda>a. case p a of Inr (Some x) \<Rightarrow> [x] | _ \<Rightarrow> []) as)"

lemma found_simps: "found p [] = []" "found p (as @ bs) = found p as @ found p bs"
  by (simp_all add: found_def)

definition claimed :: "Attribute \<Rightarrow> bool" where
  "claimed a \<longleftrightarrow>
     parse_guard_binding a \<noteq> Inr None \<or> parse_roles_binding a \<noteq> Inr None \<or> parse_interceptor_binding a \<noteq> Inr None
     \<or> parse_filter_binding a \<noteq> Inr None \<or> parse_set_metadata_binding a \<noteq> Inr None \<or> parse_api_operation_binding a \<noteq> Inr None
     \<or> parse_api_param_binding a \<noteq> Inr None \<or> parse_api_response_binding a \<noteq> Inr None \<or> parse_api_body_binding a \<noteq> Inr None
     \<or> parse_api_bearer_auth_binding a \<noteq> Inr None \<or> parse_health_check_binding a \<noteq> Inr None \<or> parse_route_binding a \<noteq> Inr None
     \<or> parse_pipe_binding a \<noteq> Inr None \<or> parse_throttle_binding a \<noteq> Inr None \<or> parse_skip_throttle_binding a \<noteq> Inr None
     \<or> parse_response_binding a \<noteq> Inr None"

definition some_found :: "Attribute list \<Rightarrow> bool" where
  "some_found as \<longleftrightarrow>
     found parse_guard_binding as \<noteq> [] \<or> found parse_roles_binding as \<noteq> [] \<or> found parse_interceptor_binding as \<noteq> []
     \<or> found parse_filter_binding as \<noteq> [] \<or> found parse_set_metadata_binding as \<noteq> [] \<or> found parse_api_operation_binding as \<noteq> []
     \<or> found parse_api_param_binding as \<noteq> [] \<or> found parse_api_response_binding as \<noteq> [] \<or> found parse_api_body_binding as \<noteq> []
     \<or> found parse_api_bearer_auth_binding as \<noteq> [] \<or> found parse_health_check_binding as \<noteq> [] \<or> found parse_route_binding as \<noteq> []
     \<or> found parse_pipe_binding as \<noteq> [] \<or> found parse_throttle_binding as \<noteq> [] \<or> found parse_skip_throttle_binding as \<noteq> []
     \<or> found parse_response_binding as \<noteq> []"

definition opt_list :: "'a option \<Rightarrow> 'a list" where
  "opt_list x = (case x of None \<Rightarrow> [] | Some v \<Rightarrow> [v])"

definition flag_list :: "bool \<Rightarrow> unit list" where
  "flag_list b = (if b then [()] else [])"

text \<open>The effect of attributes on what the expansion has collected.\<close>

definition adds :: "Attribute list \<Rightarrow> MethodAttrs \<Rightarrow> MethodAttrs \<Rightarrow> bool" where
  "adds as st st' \<longleftrightarrow>
     ma_guards st' = ma_guards st @ concat (found parse_guard_binding as)
     \<and> ma_roles st' = ma_roles st @ concat (found parse_roles_binding as)
     \<and> ma_interceptors st' = ma_interceptors st @ concat (found parse_interceptor_binding as)
     \<and> ma_filters st' = ma_filters st @ concat (found parse_filter_binding as)
     \<and> ma_metadata st' = ma_metadata st @ concat (found parse_set_metadata_binding as)
     \<and> opt_list (ma_operation st') = opt_list (ma_operation st) @ found parse_api_operation_binding as
     \<and> ma_api_params st' = ma_api_params st @ found parse_api_param_binding as
     \<and> ma_api_responses st' = ma_api_responses st @ found parse_api_response_binding as
     \<and> opt_list (ma_api_body st') = opt_list (ma_api_body st) @ found parse_api_body_binding as
     \<and> flag_list (ma_api_bearer_auth st') = flag_list (ma_api_bearer_auth st) @ found parse_api_bearer_auth_binding as
     \<and> flag_list (ma_health_check st') = flag_list (ma_health_check st) @ found parse_health_check_binding as
     \<and> opt_list (ma_route st') = opt_list (ma_route st) @ found parse_route_binding as
     \<and> ma_pipes st' = ma_pipes st @ concat (found parse_pipe_binding as)
     \<and> opt_list (ma_throttle st') = opt_list (ma_throttle st) @ found parse_throttle_binding as
     \<and> flag_list (ma_skip_throttle st') = flag_list (ma_skip_throttle st) @ found parse_skip_throttle_binding as
     \<and> ma_responses st' = ma_responses st @ found parse_response_binding as
     \<and> ma_retained st' = ma_retained st @ filter (\<lambda>a. \<not> claimed a) as
     \<and> ((\<exists>a \<in> set as. claimed a) \<longrightarrow> some_found as)"

lemma adds_Nil: "adds [] st st"
  by (simp add: adds_def found_simps)

lemma adds_append: "adds as st st1 \<Longrightarrow> adds bs st1 st2 \<Longrightarrow> adds (as @ bs) st st2"
  unfolding adds_def some_found_def found_simps by auto

lemma opt_list_simps:
  "opt_list None = []" "opt_list (Some x) = [x]" "flag_list False = []" "flag_list True = [()]"
  by (simp_all add: opt_list_def flag_list_def)

text \<open>One attribute: its tag decides which parser, if any, can know it.\<close>

lemmas method_attr_unfolds =
  method_attr_def attempt_def only_one_def adds_def found_def claimed_def some_found_def opt_list_simps

lemma method_attr_adds:
  assumes "method_attr a st = Inr st'"
  shows "adds [a] st st'"
proof -
  consider "tag a = ''guard'' \<or> tag a = ''nivasa-guard''"
    | "tag a = ''roles'' \<or> tag a = ''nivasa-roles''"
    | "tag a = ''interceptor'' \<or> tag a = ''nivasa-interceptor''"
    | "tag a = ''use_filters'' \<or> tag a = ''nivasa-filter''"
    | "tag a = ''set_metadata'' \<or> tag a = ''nivasa-set-metadata''"
    | "tag a = ''api_operation''"
    | "tag a = ''api_param''"
    | "tag a = ''api_response''"
    | "tag a = ''api_body''"
    | "tag a = ''api_bearer_auth''"
    | "tag a = ''health_check''"
    | "tag a \<in> set route_tags"
    | "tag a = ''pipe'' \<or> tag a = ''nivasa-pipe''"
    | "tag a = ''throttle'' \<or> tag a = ''nivasa-throttle''"
    | "tag a = ''skip_throttle'' \<or> tag a = ''nivasa-skip-throttle''"
    | "tag a = ''http_code'' \<or> tag a = ''header'' \<or> tag a = ''nivasa-response''"
    | "tag a \<notin> {''guard'', ''nivasa-guard'', ''roles'', ''nivasa-roles'', ''interceptor'', ''nivasa-interceptor'', ''use_filters'', ''nivasa-filter'', ''set_metadata'', ''nivasa-set-metadata'', ''api_operation'', ''api_param'', ''api_response'', ''api_body'', ''api_bearer_auth'', ''health_check'', ''pipe'', ''nivasa-pipe'', ''throttle'', ''nivasa-throttle'', ''skip_throttle'', ''nivasa-skip-throttle'', ''http_code'', ''header'', ''nivasa-response''} \<union> set route_tags"
    unfolding Un_iff insert_iff empty_iff by blast
  then show ?thesis
  proof cases
    case 1
    then have none: "parse_roles_binding a = Inr None" "parse_interceptor_binding a = Inr None" "parse_filter_binding a = Inr None" "parse_set_metadata_binding a = Inr None" "parse_api_operation_binding a = Inr None"
      "parse_api_param_binding a = Inr None" "parse_api_response_binding a = Inr None" "parse_api_body_binding a = Inr None" "parse_api_bearer_auth_binding a = Inr None" "parse_health_check_binding a = Inr None"
      "parse_route_binding a = Inr None" "parse_pipe_binding a = Inr None" "parse_throttle_binding a = Inr None" "parse_skip_throttle_binding a = Inr None" "parse_response_binding a = Inr None"
      by (auto simp: parsers_None route_tags_def route_methods_def)
    show ?thesis using assms by (cases "parse_guard_binding a") (auto simp: method_attr_unfolds none split: option.splits if_splits)
  next
    case 2
    then have none: "parse_guard_binding a = Inr None" "parse_interceptor_binding a = Inr None" "parse_filter_binding a = Inr None" "parse_set_metadata_binding a = Inr None" "parse_api_operation_binding a = Inr None"
      "parse_api_param_binding a = Inr None" "parse_api_response_binding a = Inr None" "parse_api_body_binding a = Inr None" "parse_api_bearer_auth_binding a = Inr None" "parse_health_check_binding a = Inr None"
      "parse_route_binding a = Inr None" "parse_pipe_binding a = Inr None" "parse_throttle_binding a = Inr None" "parse_skip_throttle_binding a = Inr None" "parse_response_binding a = Inr None"
      by (auto simp: parsers_None route_tags_def route_methods_def)
    show ?thesis using assms by (cases "parse_roles_binding a") (auto simp: method_attr_unfolds none split: option.splits if_splits)
  next
    case 3
    then have none: "parse_guard_binding a = Inr None" "parse_roles_binding a = Inr None" "parse_filter_binding a = Inr None" "parse_set_metadata_binding a = Inr None" "parse_api_operation_binding a = Inr None"
      "parse_api_param_binding a = Inr None" "parse_api_response_binding a = Inr None" "parse_api_body_binding a = Inr None" "parse_api_bearer_auth_binding a = Inr None" "parse_health_check_binding a = Inr None"
      "parse_route_binding a = Inr None" "parse_pipe_binding a = Inr None" "parse_throttle_binding a = Inr None" "parse_skip_throttle_binding a = Inr None" "parse_response_binding a = Inr None"
      by (auto simp: parsers_None route_tags_def route_methods_def)
    show ?thesis using assms by (cases "parse_interceptor_binding a") (auto simp: method_attr_unfolds none split: option.splits if_splits)
  next
    case 4
    then have none: "parse_guard_binding a = Inr None" "parse_roles_binding a = Inr None" "parse_interceptor_binding a = Inr None" "parse_set_metadata_binding a = Inr None" "parse_api_operation_binding a = Inr None"
      "parse_api_param_binding a = Inr None" "parse_api_response_binding a = Inr None" "parse_api_body_binding a = Inr None" "parse_api_bearer_auth_binding a = Inr None" "parse_health_check_binding a = Inr None"
      "parse_route_binding a = Inr None" "parse_pipe_binding a = Inr None" "parse_throttle_binding a = Inr None" "parse_skip_throttle_binding a = Inr None" "parse_response_binding a = Inr None"
      by (auto simp: parsers_None route_tags_def route_methods_def)
    show ?thesis using assms by (cases "parse_filter_binding a") (auto simp: method_attr_unfolds none split: option.splits if_splits)
  next
    case 5
    then have none: "parse_guard_binding a = Inr None" "parse_roles_binding a = Inr None" "parse_interceptor_binding a = Inr None" "parse_filter_binding a = Inr None" "parse_api_operation_binding a = Inr None"
      "parse_api_param_binding a = Inr None" "parse_api_response_binding a = Inr None" "parse_api_body_binding a = Inr None" "parse_api_bearer_auth_binding a = Inr None" "parse_health_check_binding a = Inr None"
      "parse_route_binding a = Inr None" "parse_pipe_binding a = Inr None" "parse_throttle_binding a = Inr None" "parse_skip_throttle_binding a = Inr None" "parse_response_binding a = Inr None"
      by (auto simp: parsers_None route_tags_def route_methods_def)
    show ?thesis using assms by (cases "parse_set_metadata_binding a") (auto simp: method_attr_unfolds none split: option.splits if_splits)
  next
    case 6
    then have none: "parse_guard_binding a = Inr None" "parse_roles_binding a = Inr None" "parse_interceptor_binding a = Inr None" "parse_filter_binding a = Inr None" "parse_set_metadata_binding a = Inr None"
      "parse_api_param_binding a = Inr None" "parse_api_response_binding a = Inr None" "parse_api_body_binding a = Inr None" "parse_api_bearer_auth_binding a = Inr None" "parse_health_check_binding a = Inr None"
      "parse_route_binding a = Inr None" "parse_pipe_binding a = Inr None" "parse_throttle_binding a = Inr None" "parse_skip_throttle_binding a = Inr None" "parse_response_binding a = Inr None"
      by (auto simp: parsers_None route_tags_def route_methods_def)
    show ?thesis using assms by (cases "parse_api_operation_binding a") (auto simp: method_attr_unfolds none split: option.splits if_splits)
  next
    case 7
    then have none: "parse_guard_binding a = Inr None" "parse_roles_binding a = Inr None" "parse_interceptor_binding a = Inr None" "parse_filter_binding a = Inr None" "parse_set_metadata_binding a = Inr None"
      "parse_api_operation_binding a = Inr None" "parse_api_response_binding a = Inr None" "parse_api_body_binding a = Inr None" "parse_api_bearer_auth_binding a = Inr None" "parse_health_check_binding a = Inr None"
      "parse_route_binding a = Inr None" "parse_pipe_binding a = Inr None" "parse_throttle_binding a = Inr None" "parse_skip_throttle_binding a = Inr None" "parse_response_binding a = Inr None"
      by (auto simp: parsers_None route_tags_def route_methods_def)
    show ?thesis using assms by (cases "parse_api_param_binding a") (auto simp: method_attr_unfolds none split: option.splits if_splits)
  next
    case 8
    then have none: "parse_guard_binding a = Inr None" "parse_roles_binding a = Inr None" "parse_interceptor_binding a = Inr None" "parse_filter_binding a = Inr None" "parse_set_metadata_binding a = Inr None"
      "parse_api_operation_binding a = Inr None" "parse_api_param_binding a = Inr None" "parse_api_body_binding a = Inr None" "parse_api_bearer_auth_binding a = Inr None" "parse_health_check_binding a = Inr None"
      "parse_route_binding a = Inr None" "parse_pipe_binding a = Inr None" "parse_throttle_binding a = Inr None" "parse_skip_throttle_binding a = Inr None" "parse_response_binding a = Inr None"
      by (auto simp: parsers_None route_tags_def route_methods_def)
    show ?thesis using assms by (cases "parse_api_response_binding a") (auto simp: method_attr_unfolds none split: option.splits if_splits)
  next
    case 9
    then have none: "parse_guard_binding a = Inr None" "parse_roles_binding a = Inr None" "parse_interceptor_binding a = Inr None" "parse_filter_binding a = Inr None" "parse_set_metadata_binding a = Inr None"
      "parse_api_operation_binding a = Inr None" "parse_api_param_binding a = Inr None" "parse_api_response_binding a = Inr None" "parse_api_bearer_auth_binding a = Inr None" "parse_health_check_binding a = Inr None"
      "parse_route_binding a = Inr None" "parse_pipe_binding a = Inr None" "parse_throttle_binding a = Inr None" "parse_skip_throttle_binding a = Inr None" "parse_response_binding a = Inr None"
      by (auto simp: parsers_None route_tags_def route_methods_def)
    show ?thesis using assms by (cases "parse_api_body_binding a") (auto simp: method_attr_unfolds none split: option.splits if_splits)
  next
    case 10
    then have none: "parse_guard_binding a = Inr None" "parse_roles_binding a = Inr None" "parse_interceptor_binding a = Inr None" "parse_filter_binding a = Inr None" "parse_set_metadata_binding a = Inr None"
      "parse_api_operation_binding a = Inr None" "parse_api_param_binding a = Inr None" "parse_api_response_binding a = Inr None" "parse_api_body_binding a = Inr None" "parse_health_check_binding a = Inr None"
      "parse_route_binding a = Inr None" "parse_pipe_binding a = Inr None" "parse_throttle_binding a = Inr None" "parse_skip_throttle_binding a = Inr None" "parse_response_binding a = Inr None"
      by (auto simp: parsers_None route_tags_def route_methods_def)
    show ?thesis using assms by (cases "parse_api_bearer_auth_binding a") (auto simp: method_attr_unfolds none split: option.splits if_splits)
  next
    case 11
    then have none: "parse_guard_binding a = Inr None" "parse_roles_binding a = Inr None" "parse_interceptor_binding a = Inr None" "parse_filter_binding a = Inr None" "parse_set_metadata_binding a = Inr None"
      "parse_api_operation_binding a = Inr None" "parse_api_param_binding a = Inr None" "parse_api_response_binding a = Inr None" "parse_api_body_binding a = Inr None" "parse_api_bearer_auth_binding a = Inr None"
      "parse_route_binding a = Inr None" "parse_pipe_binding a = Inr None" "parse_throttle_binding a = Inr None" "parse_skip_throttle_binding a = Inr None" "parse_response_binding a = Inr None"
      by (auto simp: parsers_None route_tags_def route_methods_def)
    show ?thesis using assms by (cases "parse_health_check_binding a") (auto simp: method_attr_unfolds none split: option.splits if_splits)
  next
    case 12
    then have none: "parse_guard_binding a = Inr None" "parse_roles_binding a = Inr None" "parse_interceptor_binding a = Inr None" "parse_filter_binding a = Inr None" "parse_set_metadata_binding a = Inr None"
      "parse_api_operation_binding a = Inr None" "parse_api_param_binding a = Inr None" "parse_api_response_binding a = Inr None" "parse_api_body_binding a = Inr None" "parse_api_bearer_auth_binding a = Inr None"
      "parse_health_check_binding a = Inr None" "parse_pipe_binding a = Inr None" "parse_throttle_binding a = Inr None" "parse_skip_throttle_binding a = Inr None" "parse_response_binding a = Inr None"
      by (auto simp: parsers_None route_tags_def route_methods_def)
    show ?thesis using assms by (cases "parse_route_binding a") (auto simp: method_attr_unfolds none split: option.splits if_splits)
  next
    case 13
    then have none: "parse_guard_binding a = Inr None" "parse_roles_binding a = Inr None" "parse_interceptor_binding a = Inr None" "parse_filter_binding a = Inr None" "parse_set_metadata_binding a = Inr None"
      "parse_api_operation_binding a = Inr None" "parse_api_param_binding a = Inr None" "parse_api_response_binding a = Inr None" "parse_api_body_binding a = Inr None" "parse_api_bearer_auth_binding a = Inr None"
      "parse_health_check_binding a = Inr None" "parse_route_binding a = Inr None" "parse_throttle_binding a = Inr None" "parse_skip_throttle_binding a = Inr None" "parse_response_binding a = Inr None"
      by (auto simp: parsers_None route_tags_def route_methods_def)
    show ?thesis using assms by (cases "parse_pipe_binding a") (auto simp: method_attr_unfolds none split: option.splits if_splits)
  next
    case 14
    then have none: "parse_guard_binding a = Inr None" "parse_roles_binding a = Inr None" "parse_interceptor_binding a = Inr None" "parse_filter_binding a = Inr None" "parse_set_metadata_binding a = Inr None"
      "parse_api_operation_binding a = Inr None" "parse_api_param_binding a = Inr None" "parse_api_response_binding a = Inr None" "parse_api_body_binding a = Inr None" "parse_api_bearer_auth_binding a = Inr None"
      "parse_health_check_binding a = Inr None" "parse_route_binding a = Inr None" "parse_pipe_binding a = Inr None" "parse_skip_throttle_binding a = Inr None" "parse_response_binding a = Inr None"
      by (auto simp: parsers_None route_tags_def route_methods_def)
    show ?thesis using assms by (cases "parse_throttle_binding a") (auto simp: method_attr_unfolds none split: option.splits if_splits)
  next
    case 15
    then have none: "parse_guard_binding a = Inr None" "parse_roles_binding a = Inr None" "parse_interceptor_binding a = Inr None" "parse_filter_binding a = Inr None" "parse_set_metadata_binding a = Inr None"
      "parse_api_operation_binding a = Inr None" "parse_api_param_binding a = Inr None" "parse_api_response_binding a = Inr None" "parse_api_body_binding a = Inr None" "parse_api_bearer_auth_binding a = Inr None"
      "parse_health_check_binding a = Inr None" "parse_route_binding a = Inr None" "parse_pipe_binding a = Inr None" "parse_throttle_binding a = Inr None" "parse_response_binding a = Inr None"
      by (auto simp: parsers_None route_tags_def route_methods_def)
    show ?thesis using assms by (cases "parse_skip_throttle_binding a") (auto simp: method_attr_unfolds none split: option.splits if_splits)
  next
    case 16
    then have none: "parse_guard_binding a = Inr None" "parse_roles_binding a = Inr None" "parse_interceptor_binding a = Inr None" "parse_filter_binding a = Inr None" "parse_set_metadata_binding a = Inr None"
      "parse_api_operation_binding a = Inr None" "parse_api_param_binding a = Inr None" "parse_api_response_binding a = Inr None" "parse_api_body_binding a = Inr None" "parse_api_bearer_auth_binding a = Inr None"
      "parse_health_check_binding a = Inr None" "parse_route_binding a = Inr None" "parse_pipe_binding a = Inr None" "parse_throttle_binding a = Inr None" "parse_skip_throttle_binding a = Inr None"
      by (auto simp: parsers_None route_tags_def route_methods_def)
    show ?thesis using assms by (cases "parse_response_binding a") (auto simp: method_attr_unfolds none split: option.splits if_splits)
  next
    case 17
    then show ?thesis using assms by (auto simp: method_attr_unfolds parsers_None)
  qed
qed


lemma method_attrs_adds: "method_attrs as st = Inr st' \<Longrightarrow> adds as st st'"
proof (induction as arbitrary: st)
  case (Cons a as)
  then obtain st1 where "method_attr a st = Inr st1" "method_attrs as st1 = Inr st'" by (cases "method_attr a st") auto
  then show ?case using adds_append [of "[a]" st st1 as st'] method_attr_adds Cons.IH by simp
qed (simp add: adds_Nil)

lemma names_binding_nonempty: "names_binding name args e prefix m a = Inr (Some ns) \<Longrightarrow> ns \<noteq> []"
  by (auto simp: names_binding_def split: if_splits sum.splits list.splits option.splits)

lemma found_nonempty:
  "found parse_guard_binding as = [] \<longleftrightarrow> concat (found parse_guard_binding as) = []"
  "found parse_roles_binding as = [] \<longleftrightarrow> concat (found parse_roles_binding as) = []"
  "found parse_interceptor_binding as = [] \<longleftrightarrow> concat (found parse_interceptor_binding as) = []"
  "found parse_filter_binding as = [] \<longleftrightarrow> concat (found parse_filter_binding as) = []"
  "found parse_pipe_binding as = [] \<longleftrightarrow> concat (found parse_pipe_binding as) = []"
  "found parse_set_metadata_binding as = [] \<longleftrightarrow> concat (found parse_set_metadata_binding as) = []"
proof -
  have empty: "found p as = [] \<longleftrightarrow> concat (found p as) = []" if "\<And>a xs. p a = Inr (Some xs) \<Longrightarrow> xs \<noteq> []"
    for p :: "Attribute \<Rightarrow> MacroError + 'a list option"
  proof (induction as)
    case (Cons a as)
    then show ?case using that [of a] by (cases "p a"; cases "projr (p a)") (auto simp: found_def)
  qed (simp add: found_def)
  show "found parse_guard_binding as = [] \<longleftrightarrow> concat (found parse_guard_binding as) = []"
    "found parse_roles_binding as = [] \<longleftrightarrow> concat (found parse_roles_binding as) = []"
    "found parse_interceptor_binding as = [] \<longleftrightarrow> concat (found parse_interceptor_binding as) = []"
    "found parse_filter_binding as = [] \<longleftrightarrow> concat (found parse_filter_binding as) = []"
    "found parse_pipe_binding as = [] \<longleftrightarrow> concat (found parse_pipe_binding as) = []"
    by (intro empty; simp add: parse_guard_binding_def parse_roles_binding_def parse_interceptor_binding_def parse_filter_binding_def
      parse_pipe_binding_def names_binding_nonempty)+
  show "found parse_set_metadata_binding as = [] \<longleftrightarrow> concat (found parse_set_metadata_binding as) = []"
    by (intro empty) (auto simp: parse_set_metadata_binding_def map_sum_eq_Inr split: if_splits sum.splits option.splits prod.splits)
qed

text \<open>A method and its binding.\<close>

definition binds :: "ImplItemFn \<Rightarrow> ControllerMethodBinding \<Rightarrow> bool" where
  "binds f m \<longleftrightarrow>
     cm_handler m = fn_name f \<and> found parse_route_binding (fn_attrs f) = [cm_route m]
     \<and> cm_guards m = concat (found parse_guard_binding (fn_attrs f))
     \<and> cm_roles m = concat (found parse_roles_binding (fn_attrs f))
     \<and> cm_interceptors m = concat (found parse_interceptor_binding (fn_attrs f))
     \<and> cm_filters m = concat (found parse_filter_binding (fn_attrs f))
     \<and> cm_pipes m = concat (found parse_pipe_binding (fn_attrs f))
     \<and> cm_metadata m = concat (found parse_set_metadata_binding (fn_attrs f))
     \<and> cm_api_params m = found parse_api_param_binding (fn_attrs f)
     \<and> cm_api_responses m = found parse_api_response_binding (fn_attrs f)
     \<and> opt_list (cm_operation m) = found parse_api_operation_binding (fn_attrs f)
     \<and> opt_list (cm_api_body m) = found parse_api_body_binding (fn_attrs f)
     \<and> cm_api_bearer_auth m = (found parse_api_bearer_auth_binding (fn_attrs f) \<noteq> [])
     \<and> cm_health_check m = (found parse_health_check_binding (fn_attrs f) \<noteq> [])
     \<and> cm_skip_throttle m = (found parse_skip_throttle_binding (fn_attrs f) \<noteq> [])
     \<and> opt_list (cm_throttle m) = (if cm_skip_throttle m then [] else found parse_throttle_binding (fn_attrs f))
     \<and> (case cm_response m of Some r \<Rightarrow> resp_headers r | None \<Rightarrow> []) =
         concat (map resp_headers (found parse_response_binding (fn_attrs f)))"

definition routed :: "ImplItemFn \<Rightarrow> bool" where
  "routed f \<longleftrightarrow> found parse_route_binding (fn_attrs f) \<noteq> []"

fun impl_fns :: "ImplItem list \<Rightarrow> ImplItemFn list" where
  "impl_fns [] = []"
| "impl_fns (ImplFn f # items) = f # impl_fns items"
| "impl_fns (ImplOther # items) = impl_fns items"

lemma merge_responses_headers:
  "merge_responses merged bs = Inr r \<Longrightarrow> resp_headers r = resp_headers merged @ concat (map resp_headers bs)"
  by (induction merged bs rule: merge_responses.induct) (auto split: if_splits)

lemma opt_list_iff: "opt_list x = [] \<longleftrightarrow> x = None" "opt_list x = [y] \<longleftrightarrow> x = Some y" "flag_list b = [] \<longleftrightarrow> \<not> b" "flag_list b \<noteq> [] \<longleftrightarrow> b"
  by (simp_all add: opt_list_def flag_list_def split: option.split)

lemma expand_method_spec:
  assumes "expand_method f seen = Inr (f', b)"
  shows "fn_attrs f' = filter (\<lambda>a. \<not> claimed a) (fn_attrs f)"
    and "b = None \<Longrightarrow> \<not> routed f \<and> (\<forall>a \<in> set (fn_attrs f). \<not> claimed a)"
    and "b = Some m \<Longrightarrow> routed f \<and> binds f m \<and> (rb_method (cm_route m), rb_path (cm_route m)) \<notin> seen"
proof -
  obtain st inputs bound pipes response where run:
    "method_attrs (fn_attrs f) no_method_attrs = Inr st" "collect_parameter_bindings (fn_inputs f) = Inr (inputs, bound, pipes)"
    "merged_response (ma_responses st) = Inr response"
    using assms by (auto simp: expand_method_def Let_def split: sum.splits if_splits)
  have "adds (fn_attrs f) no_method_attrs st" using method_attrs_adds run(1) .
  then have st: "ma_guards st = concat (found parse_guard_binding (fn_attrs f))"
      "ma_roles st = concat (found parse_roles_binding (fn_attrs f))"
      "ma_interceptors st = concat (found parse_interceptor_binding (fn_attrs f))"
      "ma_filters st = concat (found parse_filter_binding (fn_attrs f))"
      "ma_pipes st = concat (found parse_pipe_binding (fn_attrs f))"
      "ma_metadata st = concat (found parse_set_metadata_binding (fn_attrs f))"
      "opt_list (ma_operation st) = found parse_api_operation_binding (fn_attrs f)"
      "ma_api_params st = found parse_api_param_binding (fn_attrs f)"
      "ma_api_responses st = found parse_api_response_binding (fn_attrs f)"
      "opt_list (ma_api_body st) = found parse_api_body_binding (fn_attrs f)"
      "flag_list (ma_api_bearer_auth st) = found parse_api_bearer_auth_binding (fn_attrs f)"
      "flag_list (ma_health_check st) = found parse_health_check_binding (fn_attrs f)"
      "opt_list (ma_route st) = found parse_route_binding (fn_attrs f)"
      "opt_list (ma_throttle st) = found parse_throttle_binding (fn_attrs f)"
      "flag_list (ma_skip_throttle st) = found parse_skip_throttle_binding (fn_attrs f)"
      "ma_responses st = found parse_response_binding (fn_attrs f)"
      "ma_retained st = filter (\<lambda>a. \<not> claimed a) (fn_attrs f)"
    and claims: "(\<exists>a \<in> set (fn_attrs f). claimed a) \<longrightarrow> some_found (fn_attrs f)"
    by (simp_all add: adds_def no_method_attrs_def opt_list_def flag_list_def)
  show "fn_attrs f' = filter (\<lambda>a. \<not> claimed a) (fn_attrs f)"
    using assms run st(17) by (auto simp: expand_method_def Let_def split: if_splits option.splits)
  have headers: "(case response of Some r \<Rightarrow> resp_headers r | None \<Rightarrow> []) = concat (map resp_headers (ma_responses st))"
    using run(3) merge_responses_headers [of "\<lparr>resp_status_code = None, resp_headers = []\<rparr>" "ma_responses st"]
    by (cases "merge_responses \<lparr>resp_status_code = None, resp_headers = []\<rparr> (ma_responses st)")
      (auto simp: merged_response_def split: if_splits)
  {
    assume "b = Some m"
    then obtain r where r: "ma_route st = Some r" "m = method_binding f r st bound pipes response
        (controller_dispatch_kind (fn_async f) inputs bound True)" "(rb_method r, rb_path r) \<notin> seen"
      using assms run by (auto simp: expand_method_def Let_def split: if_splits option.splits)
    have "opt_list (ma_route st) = [r]" using r(1) by (simp add: opt_list_iff)
    then show "routed f \<and> binds f m \<and> (rb_method (cm_route m), rb_path (cm_route m)) \<notin> seen"
      using r headers by (simp add: routed_def binds_def method_binding_def opt_list_iff flip: st(1-16))
  }
  assume "b = None"
  then have "ma_route st = None" "\<not> has_controller_metadata st bound pipes"
    using assms run by (auto simp: expand_method_def Let_def split: if_splits option.splits)
  then have "\<not> some_found (fn_attrs f)" "\<not> routed f"
    unfolding some_found_def found_nonempty routed_def
    by (simp_all add: has_controller_metadata_def opt_list_iff flip: st(1-16))
  then show "\<not> routed f \<and> (\<forall>a \<in> set (fn_attrs f). \<not> claimed a)" using claims by blast
qed

lemma expand_items_spec:
  assumes "expand_items items seen = Inr (kept, ms)"
  shows "list_all2 binds (filter routed (impl_fns items)) ms
    \<and> distinct (map (\<lambda>m. (rb_method (cm_route m), rb_path (cm_route m))) ms)
    \<and> (\<forall>m \<in> set ms. (rb_method (cm_route m), rb_path (cm_route m)) \<notin> seen)
    \<and> (\<forall>f \<in> set (impl_fns items). \<not> routed f \<longrightarrow> (\<forall>a \<in> set (fn_attrs f). \<not> claimed a))
    \<and> map fn_attrs (impl_fns kept) = map (\<lambda>f. filter (\<lambda>a. \<not> claimed a) (fn_attrs f)) (impl_fns items)"
  using assms
proof (induction items seen arbitrary: kept ms rule: expand_items.induct)
  case (2 items seen)
  then show ?case by (fastforce simp: map_sum_eq_Inr)
next
  case (3 f items seen)
  then obtain f' b where f: "expand_method f seen = Inr (f', b)" by (cases "expand_method f seen") auto
  show ?case
  proof (cases b)
    case None
    then obtain kept' where "expand_items items seen = Inr (kept', ms)" "kept = ImplFn f' # kept'"
      using 3(3) f by (auto simp: map_sum_eq_Inr)
    with 3(1) [OF f refl None] expand_method_spec(1,2) [OF f] None show ?thesis by simp
  next
    case (Some m)
    let ?key = "(rb_method (cm_route m), rb_path (cm_route m))"
    obtain kept' ms' where "expand_items items (insert ?key seen) = Inr (kept', ms')" "kept = ImplFn f' # kept'" "ms = m # ms'"
      using 3(3) f Some by (auto simp: map_sum_eq_Inr)
    with 3(2) [OF f refl Some] expand_method_spec(1,3) [OF f] Some show ?thesis by auto
  qed
qed simp

text \<open>C31: The expansion of an impl block loses no attribute and invents none. If it succeeds, the methods with a route are
  bound in their order, each with exactly the guards, roles, interceptors, filters, pipes, metadata, limits, headers and
  documentation that its attributes name; no two methods have the same HTTP method and path; a method without a route has
  no attribute of the framework; and what is left on the methods are the attributes that the framework does not know.\<close>

theorem controller_bindings_exact:
  assumes "expand_impl_controller of_trait items = Inr (kept, ms)"
  shows "\<not> of_trait \<and> list_all2 binds (filter routed (impl_fns items)) ms
    \<and> distinct (map (\<lambda>m. (rb_method (cm_route m), rb_path (cm_route m))) ms)
    \<and> (\<forall>f \<in> set (impl_fns items). \<not> routed f \<longrightarrow> (\<forall>a \<in> set (fn_attrs f). \<not> claimed a))
    \<and> map fn_attrs (impl_fns kept) = map (\<lambda>f. filter (\<lambda>a. \<not> claimed a) (fn_attrs f)) (impl_fns items)"
  using assms expand_items_spec [of items "{}" kept ms] by (simp add: expand_impl_controller_def split: if_splits)

definition demo_method :: ImplItemFn where
  "demo_method =
     \<lparr>fn_name = ''list'', fn_attrs = [written ''guard'' [TPath ''AuthGuard''], written ''get'' [TStr ''/users''], written ''inline'' []],
      fn_async = False, fn_inputs = [Receiver]\<rparr>"

theorem controller_bindings_exact_witness:
  "\<exists>kept m. expand_impl_controller False [ImplFn demo_method] = Inr (kept, [m]) \<and> cm_guards m = [''AuthGuard''] \<and>
     map fn_attrs (impl_fns kept) = [[written ''inline'' []]]"
proof -
  have trims: "trim ''/users'' = ''/users''" by (rule trim_id) (auto simp: is_whitespace_def)
  have attrs: "parse_guard_binding (written ''guard'' [TPath ''AuthGuard'']) = Inr (Some [''AuthGuard''])"
    "parse_route_binding (written ''get'' [TStr ''/users'']) = Inr (Some \<lparr>rb_method = ''GET'', rb_path = ''/users''\<rparr>)"
    by (simp_all add: parse_guard_binding_def names_binding_def parse_route_binding_def route_methods_def parse_one_def written_simps
      blank_def trims)
  have "\<exists>kept m. expand_impl_controller False [ImplFn demo_method] = Inr (kept, [m])"
    by (simp add: expand_impl_controller_def expand_method_def demo_method_def method_attr_def attempt_def only_one_def attrs
      no_method_attrs_def parsers_None written_simps route_tags_def route_methods_def merged_response_def)
  then obtain kept m where run: "expand_impl_controller False [ImplFn demo_method] = Inr (kept, [m])" by blast
  have "claimed (written ''guard'' [TPath ''AuthGuard''])" "claimed (written ''get'' [TStr ''/users''])"
    "\<not> claimed (written ''inline'' [])"
    by (simp_all add: claimed_def attrs parsers_None written_simps route_tags_def route_methods_def)
  then show ?thesis using controller_bindings_exact [OF run] run
    by (auto simp: demo_method_def routed_def found_def attrs binds_def parsers_None written_simps route_tags_def route_methods_def
      split: if_splits)
qed

section \<open>Limits of routes\<close>

text \<open>C32: The rate limit of a route is the one its method declares, else the one its controller declares; a route is
  exempt exactly if the method or the controller is. This holds of the registrations that the module macro makes from the
  generated functions, for every controller whose methods have different names.\<close>

theorem throttle_reaches_route:
  assumes "distinct (map cm_handler ms)" "m \<in> set ms"
    and "module_controller_registrations middlewares [generated_controller A t p st ms] reg = ([r], reg')"
  shows "\<exists>route \<in> set (mc_routes r). cr_handler route = cm_handler m \<and> cr_method route = rb_method (cm_route m)
     \<and> cr_path route = controller_join_route p (rb_path (cm_route m))
     \<and> cr_skip_throttle route = (ct_skip_throttle st \<or> cm_skip_throttle m)
     \<and> cr_throttle route =
         (if cr_skip_throttle route then None
          else map_option (\<lambda>b. \<lparr>rtr_limit = tb_limit b, rtr_ttl_secs = tb_ttl_secs b\<rparr>)
            (case cm_throttle m of Some b \<Rightarrow> Some b | None \<Rightarrow> ct_throttle st))"
proof -
  let ?entry = "\<lambda>m. (cm_handler m,
      (if ct_skip_throttle st \<or> cm_skip_throttle m then None
       else case cm_throttle m of Some b \<Rightarrow> Some (tb_limit b, tb_ttl_secs b) | None \<Rightarrow> controller_throttle_default st),
      cm_skip_throttle m \<or> ct_skip_throttle st)"
  let ?route = "route_registration (throttle_metadata st ms)
      (rb_method (cm_route m), controller_join_route p (rb_path (cm_route m)), cm_handler m)"
  have "find (\<lambda>t. fst t = cm_handler m) (throttle_metadata st ms) = Some (?entry m)"
    using assms(1,2) unfolding throttle_metadata_def
    by (induction ms) (auto simp: image_iff)
  moreover have "?route \<in> set (mc_routes r)"
    using assms(2,3) by (auto simp: controller_routes_def generated_controller_def generated_method_def)
  ultimately show ?thesis
    by (intro bexI [of _ ?route]; cases "cm_throttle m"; cases "ct_throttle st")
      (simp_all add: route_registration_def route_registration_new_def skip_throttle_def with_throttle_def
        controller_throttle_default_def Let_def)
qed

theorem throttle_reaches_route_witness:
  "\<exists>st m. ct_throttle st = Some \<lparr>tb_limit = 5, tb_ttl_secs = 60\<rparr> \<and>
     (\<exists>route \<in> set (mc_routes (hd (fst (module_controller_registrations []
         [generated_controller \<lparr>act_no_args = id, act_request = id\<rparr> 1 ''/users'' st [m]] Map.empty)))).
       cr_throttle route = Some \<lparr>rtr_limit = 5, rtr_ttl_secs = 60\<rparr>)"
proof -
  let ?st = "no_controller_attrs\<lparr>ct_throttle := Some \<lparr>tb_limit = 5, tb_ttl_secs = 60\<rparr>\<rparr>"
  let ?m = "method_binding demo_method \<lparr>rb_method = ''GET'', rb_path = ''/''\<rparr> no_method_attrs [] [] None NoArgs"
  let ?run = "module_controller_registrations [] [generated_controller \<lparr>act_no_args = id, act_request = id\<rparr> 1 ''/users'' ?st [?m]] Map.empty"
  obtain r reg where run: "?run = ([r], reg)" by (simp add: controller_routes_def)
  have "distinct (map cm_handler [?m])" "?m \<in> set [?m]" by simp_all
  from throttle_reaches_route [OF this run] obtain route where "route \<in> set (mc_routes r)"
    "cr_throttle route = (if cr_skip_throttle route then None
          else map_option (\<lambda>b. \<lparr>rtr_limit = tb_limit b, rtr_ttl_secs = tb_ttl_secs b\<rparr>)
            (case cm_throttle ?m of Some b \<Rightarrow> Some b | None \<Rightarrow> ct_throttle ?st))"
    "cr_skip_throttle route = (ct_skip_throttle ?st \<or> cm_skip_throttle ?m)" by blast
  then have "cr_throttle route = Some \<lparr>rtr_limit = 5, rtr_ttl_secs = 60\<rparr>"
    by (simp add: method_binding_def no_method_attrs_def no_controller_attrs_def)
  then show ?thesis using run \<open>route \<in> set (mc_routes r)\<close> by (intro exI [of _ ?st] exI [of _ ?m]) auto
qed

end
