(* ===== verification/Injectable.thy ===== *)
theory Injectable
  imports Di_Initialize Macro_Syntax
begin

text \<open>
  The macro \<open>#[injectable]\<close> (\<open>nivasa-macros/src/injectable.rs\<close>): how it reads the fields of a struct, the dependencies
  and the constructor it generates, and what becomes of them in a container.
\<close>

section \<open>Arguments\<close>

definition parse_scope :: "string \<Rightarrow> MacroError + ProviderScope" where
  "parse_scope v =
     (if v = ''singleton'' then Inr Singleton
      else if v = ''scoped'' then Inr Scoped
      else if v = ''transient'' then Inr Transient
      else Inl (Custom (''invalid injectable scope `'' @ v @ ''`; expected `singleton`, `scoped`, or `transient`'')))"

fun parse_injectable_args :: "ProviderScope \<Rightarrow> Tok list \<Rightarrow> MacroError + ProviderScope" where
  "parse_injectable_args scope [] = Inr scope"
| "parse_injectable_args scope (TPath k # TEq # TStr v # ts) =
     (if k = ''scope''
      then (case parse_scope v of
              Inl e \<Rightarrow> Inl e
            | Inr scope' \<Rightarrow>
                (case ts of [] \<Rightarrow> Inr scope' | TComma # ts' \<Rightarrow> parse_injectable_args scope' ts' | _ \<Rightarrow> Inl Syn))
      else Inl (Custom (''unknown `#[injectable]` argument `'' @ k @
        ''`; expected `scope = \"singleton\" | \"scoped\" | \"transient\"`'')))"
| "parse_injectable_args scope _ = Inl Syn"

section \<open>Fields and their types\<close>

text \<open>A path type is its leading segments and its last one with its arguments, if those are in angle brackets.\<close>

datatype FieldType = PathType "string list" string "GenericArg list option" | OtherType string
  and GenericArg = TypeArg FieldType | OtherArg string

record InjectField =
  fd_name :: "string option"
  fd_attrs :: "Attribute list"
  fd_ty :: FieldType

datatype StructFields = Named "InjectField list" | Unnamed "InjectField list" | UnitFields

definition first_type_arg :: "string \<Rightarrow> FieldType \<Rightarrow> FieldType option" where
  "first_type_arg ident ty =
     (case ty of
        PathType _ last_ident (Some (TypeArg inner # _)) \<Rightarrow> if last_ident = ident then Some inner else None
      | _ \<Rightarrow> None)"

definition extract_arc_inner_type :: "FieldType \<Rightarrow> FieldType option" where
  "extract_arc_inner_type ty = first_type_arg ''Arc'' ty"

definition extract_optional_arc_inner_type :: "FieldType \<Rightarrow> FieldType option" where
  "extract_optional_arc_inner_type ty = Option.bind (first_type_arg ''Option'' ty) extract_arc_inner_type"

definition extract_lazy_arc_inner_type :: "FieldType \<Rightarrow> FieldType option" where
  "extract_lazy_arc_inner_type ty = Option.bind (first_type_arg ''Lazy'' ty) extract_arc_inner_type"

definition has_inject_attr :: "InjectField \<Rightarrow> bool" where
  "has_inject_attr f \<longleftrightarrow> list_ex (\<lambda>a. is_ident a ''inject'') (fd_attrs f)"

definition strip_inject_attr :: "InjectField \<Rightarrow> InjectField" where
  "strip_inject_attr f = f\<lparr>fd_attrs := filter (\<lambda>a. \<not> is_ident a ''inject'') (fd_attrs f)\<rparr>"

fun strip_inject_attrs_from_struct :: "StructFields \<Rightarrow> StructFields" where
  "strip_inject_attrs_from_struct (Named fs) = Named (map strip_inject_attr fs)"
| "strip_inject_attrs_from_struct (Unnamed fs) = Unnamed (map strip_inject_attr fs)"
| "strip_inject_attrs_from_struct UnitFields = UnitFields"

text \<open>Bounds of the type parameters of the struct.\<close>

definition add_injectable_bounds :: "(string \<times> string list) list \<Rightarrow> (string \<times> string list) list" where
  "add_injectable_bounds = map (\<lambda>(p, bounds). (p, bounds @ [''Send'', ''Sync'', CHR 0x27 # ''static'']))"

section \<open>Resolutions\<close>

text \<open>
  The expressions the macro writes for a field: \<open>container.resolve::<T>().await?\<close>, \<open>resolve_optional\<close>, and a \<open>Lazy\<close>
  whose closure resolves the type when it is first asked.
\<close>

datatype Resolution = ResolveType FieldType | ResolveOptional FieldType | ResolveLazily FieldType

definition build_lazy_resolution :: "InjectField \<Rightarrow> MacroError + Resolution \<times> FieldType list" where
  "build_lazy_resolution f =
     (case extract_lazy_arc_inner_type (fd_ty f) of
        Some inner \<Rightarrow> Inr (ResolveLazily inner, [])
      | None \<Rightarrow> Inl (Custom ''`Lazy` fields must use `Lazy<Arc<T>>`''))"

definition build_injected_resolution :: "InjectField \<Rightarrow> MacroError + Resolution \<times> FieldType list" where
  "build_injected_resolution f =
     (if extract_lazy_arc_inner_type (fd_ty f) \<noteq> None then build_lazy_resolution f
      else case extract_arc_inner_type (fd_ty f) of
          Some inner \<Rightarrow> Inr (ResolveType inner, [inner])
        | None \<Rightarrow>
            (case extract_optional_arc_inner_type (fd_ty f) of
               Some inner \<Rightarrow> Inr (ResolveOptional inner, [inner])
             | None \<Rightarrow> Inl (Custom ''`#[inject]` fields must use `Arc<T>` or `Option<Arc<T>>`'')))"

definition build_fallback_resolution :: "InjectField \<Rightarrow> Resolution \<times> FieldType list" where
  "build_fallback_resolution f =
     (case extract_lazy_arc_inner_type (fd_ty f) of
        Some inner \<Rightarrow> (ResolveLazily inner, [])
      | None \<Rightarrow>
          (case extract_arc_inner_type (fd_ty f) of
             Some inner \<Rightarrow> (ResolveType inner, [inner])
           | None \<Rightarrow>
               (case extract_optional_arc_inner_type (fd_ty f) of
                  Some inner \<Rightarrow> (ResolveOptional inner, [inner])
                | None \<Rightarrow> (ResolveType (fd_ty f), [fd_ty f]))))"

record Injectable =
  ij_scope :: ProviderScope
  ij_init :: "Resolution list"
  ij_dependencies :: "FieldType list"
  ij_fields :: StructFields
  ij_generics :: "(string \<times> string list) list"

text \<open>One field; the fields of a struct with names have one, which the parser of structs guarantees.\<close>

definition field_resolution :: "bool \<Rightarrow> InjectField \<Rightarrow> MacroError + Resolution \<times> FieldType list" where
  "field_resolution named f =
     (if named \<and> fd_name f = None then Inl (Custom ''named injectable fields must have identifiers'')
      else if has_inject_attr f then build_injected_resolution f
      else Inr (build_fallback_resolution f))"

fun field_resolutions :: "bool \<Rightarrow> InjectField list \<Rightarrow> MacroError + Resolution list \<times> FieldType list" where
  "field_resolutions named [] = Inr ([], [])"
| "field_resolutions named (f # fs) =
     (case field_resolution named f of
        Inl e \<Rightarrow> Inl e
      | Inr (r, deps) \<Rightarrow>
          map_sum id (\<lambda>(rs, rest). (r # rs, deps @ rest)) (field_resolutions named fs))"

definition expand_injectable :: "ProviderScope \<Rightarrow> (string \<times> string list) list \<Rightarrow> StructFields \<Rightarrow> MacroError + Injectable" where
  "expand_injectable scope generics fds =
     map_sum id
       (\<lambda>(rs, deps). \<lparr>ij_scope = scope, ij_init = rs, ij_dependencies = deps,
          ij_fields = strip_inject_attrs_from_struct fds, ij_generics = add_injectable_bounds generics\<rparr>)
       (case fds of
          Named fs \<Rightarrow> field_resolutions True fs
        | Unnamed fs \<Rightarrow> field_resolutions False fs
        | UnitFields \<Rightarrow> Inr ([], []))"

definition injectable_impl :: "Tok list \<Rightarrow> (string \<times> string list) list \<Rightarrow> StructFields \<Rightarrow> MacroError + Injectable" where
  "injectable_impl args generics fds =
     (case parse_injectable_args Singleton args of
        Inl e \<Rightarrow> Inl e
      | Inr scope \<Rightarrow> expand_injectable scope generics fds)"

section \<open>The generated constructor\<close>

text \<open>
  What a field holds once the constructor has run; \<open>mk\<close> is the struct literal and \<open>tid\<close> the \<open>TypeId\<close> of a type, both
  of which the compiler provides.
\<close>

datatype 'v FieldValue = FArc "'v Instance" | FOption "'v Instance option" | FLazy TypeId

fun injectable_build :: "(FieldType \<Rightarrow> TypeId) \<Rightarrow> ('v FieldValue list \<Rightarrow> 'v) \<Rightarrow> Resolution list \<Rightarrow> 'v FieldValue list \<Rightarrow> 'v Build" where
  "injectable_build tid mk [] vs = Finish (mk vs)"
| "injectable_build tid mk (ResolveType ty # rs) vs =
     Resolve (tid ty) (\<lambda>r. case r of Inl e \<Rightarrow> FailWith e | Inr i \<Rightarrow> injectable_build tid mk rs (vs @ [FArc i]))"
| "injectable_build tid mk (ResolveOptional ty # rs) vs =
     Has (tid ty) (\<lambda>present.
       if present
       then Resolve (tid ty) (\<lambda>r. case r of Inl e \<Rightarrow> FailWith e | Inr i \<Rightarrow> injectable_build tid mk rs (vs @ [FOption (Some i)]))
       else injectable_build tid mk rs (vs @ [FOption None]))"
| "injectable_build tid mk (ResolveLazily ty # rs) vs = injectable_build tid mk rs (vs @ [FLazy (tid ty)])"

definition injectable_register ::
  "Env \<Rightarrow> ScopeId \<Rightarrow> (FieldType \<Rightarrow> TypeId) \<Rightarrow> TypeId \<Rightarrow> ('v FieldValue list \<Rightarrow> 'v) \<Rightarrow> Injectable \<Rightarrow> 'v DependencyContainer \<Rightarrow> 'v DependencyContainer" where
  "injectable_register env s tid t mk ij c =
     register_injectable env s t (ij_scope ij) (map tid (ij_dependencies ij)) (injectable_build tid mk (ij_init ij) []) c"


section \<open>Declared and requested dependencies\<close>

fun eager :: "Resolution \<Rightarrow> FieldType list" where
  "eager (ResolveType ty) = [ty]"
| "eager (ResolveOptional ty) = [ty]"
| "eager (ResolveLazily ty) = []"

lemma field_resolution_eager: "field_resolution named f = Inr (r, deps) \<Longrightarrow> deps = eager r"
  by (auto simp: field_resolution_def build_injected_resolution_def build_lazy_resolution_def build_fallback_resolution_def
      split: if_splits option.splits)

lemma field_resolutions_eager: "field_resolutions named fs = Inr (rs, deps) \<Longrightarrow> deps = concat (map eager rs)"
proof (induction fs arbitrary: rs deps)
  case (Cons f fs)
  then show ?case
    using field_resolution_eager [of named f] by (auto split: sum.splits prod.splits simp: map_sum_eq_Inr)
qed simp

lemma field_resolutions_each:
  "field_resolutions named fs = Inr (rs, deps) \<Longrightarrow> list_all2 (\<lambda>f r. field_resolution named f = Inr (r, eager r)) fs rs"
proof (induction fs arbitrary: rs deps)
  case (Cons f fs)
  then show ?case
    using field_resolution_eager [of named f] by (auto split: sum.splits prod.splits simp: map_sum_eq_Inr)
qed simp

fun struct_fields :: "StructFields \<Rightarrow> InjectField list" where
  "struct_fields (Named fs) = fs"
| "struct_fields (Unnamed fs) = fs"
| "struct_fields UnitFields = []"

lemma expand_injectable_fields:
  assumes "expand_injectable scope generics fds = Inr ij"
  shows "ij_dependencies ij = concat (map eager (ij_init ij))" "ij_scope ij = scope"
    "\<exists>named. list_all2 (\<lambda>f r. field_resolution named f = Inr (r, eager r)) (struct_fields fds) (ij_init ij)"
  using assms field_resolutions_eager field_resolutions_each
  by (cases fds; force simp: expand_injectable_def map_sum_eq_Inr)+

lemma asks_build: "asks (injectable_build tid mk rs vs) d \<longleftrightarrow> d \<in> tid ` set (concat (map eager rs))"
proof (induction rs arbitrary: vs)
  case (Cons r rs)
  have one: "(\<exists>x. asks (case x of Inl e \<Rightarrow> FailWith e | Inr i \<Rightarrow> injectable_build tid mk rs (f i)) d) \<longleftrightarrow>
      d \<in> tid ` set (concat (map eager rs))" for f :: "'a Instance \<Rightarrow> _"
    using Cons by (metis asks_simps(2) old.sum.simps(5,6) sum.exhaust)
  show ?case
  proof (cases r)
    case (ResolveOptional ty)
    have "asks (injectable_build tid mk (r # rs) vs) d \<longleftrightarrow>
        (d = tid ty \<or> d \<in> tid ` set (concat (map eager rs))) \<or> d \<in> tid ` set (concat (map eager rs))"
      unfolding ResolveOptional injectable_build.simps asks_simps ex_bool_eq using one Cons by simp
    then show ?thesis using ResolveOptional by auto
  qed (use one Cons in auto)
qed simp

text \<open>The type of the expression is the type of the field.\<close>

fun resolution_fits :: "FieldType \<Rightarrow> Resolution \<Rightarrow> bool" where
  "resolution_fits ty (ResolveType inner) \<longleftrightarrow> extract_arc_inner_type ty = Some inner"
| "resolution_fits ty (ResolveOptional inner) \<longleftrightarrow> extract_optional_arc_inner_type ty = Some inner"
| "resolution_fits ty (ResolveLazily inner) \<longleftrightarrow> extract_lazy_arc_inner_type ty = Some inner"

definition container_type :: "FieldType \<Rightarrow> bool" where
  "container_type ty \<longleftrightarrow>
     extract_arc_inner_type ty \<noteq> None \<or> extract_optional_arc_inner_type ty \<noteq> None \<or> extract_lazy_arc_inner_type ty \<noteq> None"

lemma field_resolution_fits:
  "field_resolution named f = Inr (r, deps) \<Longrightarrow> resolution_fits (fd_ty f) r \<longleftrightarrow> container_type (fd_ty f)"
  by (auto simp: field_resolution_def build_injected_resolution_def build_lazy_resolution_def build_fallback_resolution_def
      container_type_def split: if_splits option.splits)

text \<open>C33: the constructor that \<open>#[injectable]\<close> generates asks the container for exactly the types it declares as
  dependencies, whatever the container answers. There is one expression for each field, in order, and it has the type
  of the field exactly when that is \<open>Arc\<close>, \<open>Option\<close> of \<open>Arc\<close> or \<open>Lazy\<close> of \<open>Arc\<close>.\<close>

theorem injectable_dependencies_exact:
  assumes "expand_injectable scope generics fds = Inr ij"
  shows "{d. asks (injectable_build tid mk (ij_init ij) vs) d} = set (map tid (ij_dependencies ij)) \<and>
    list_all2 (\<lambda>f r. resolution_fits (fd_ty f) r \<longleftrightarrow> container_type (fd_ty f)) (struct_fields fds) (ij_init ij)"
proof
  show "{d. asks (injectable_build tid mk (ij_init ij) vs) d} = set (map tid (ij_dependencies ij))"
    using expand_injectable_fields(1) [OF assms] by (simp add: asks_build)
  show "list_all2 (\<lambda>f r. resolution_fits (fd_ty f) r \<longleftrightarrow> container_type (fd_ty f)) (struct_fields fds) (ij_init ij)"
    using expand_injectable_fields(3) [OF assms] field_resolution_fits by (blast intro: list_all2_mono)
qed


section \<open>A container of injectables\<close>

text \<open>Providers are values or the constructors of expanded structs, whose \<open>Arc\<close> fields are in a set of types.\<close>

definition injectable_provider :: "(FieldType \<Rightarrow> TypeId) \<Rightarrow> TypeId set \<Rightarrow> TypeId \<Rightarrow> 'v Provider \<Rightarrow> bool" where
  "injectable_provider tid A t p \<longleftrightarrow>
     (case provider_source p of
        Inl i \<Rightarrow> inst_type i = t
      | Inr f \<Rightarrow>
          md_type_id (provider_metadata p) = t \<and>
          (\<exists>mk rs. f = injectable_build tid mk rs [] \<and>
             md_dependencies (provider_metadata p) = map tid (concat (map eager rs)) \<and>
             (\<forall>ty. ResolveType ty \<in> set rs \<longrightarrow> tid ty \<in> A)))"

definition injectables_in :: "(FieldType \<Rightarrow> TypeId) \<Rightarrow> TypeId set \<Rightarrow> 'v DependencyContainer \<Rightarrow> bool" where
  "injectables_in tid A c \<longleftrightarrow>
     (\<forall>t p. get_by_id (dc_providers c) t = Some p \<longrightarrow> injectable_provider tid A t p)
     \<and> (\<forall>t e. dc_singletons c t = Some e \<longrightarrow> inst_type (ci_value e) = t)
     \<and> (\<forall>s t e. dc_scoped c s t = Some e \<longrightarrow> inst_type (ci_value e) = t)"

definition injectable_container :: "(FieldType \<Rightarrow> TypeId) \<Rightarrow> 'v DependencyContainer \<Rightarrow> bool" where
  "injectable_container tid c \<longleftrightarrow> injectables_in tid {t. has t c} c"

lemma has_same: "dc_providers c' = dc_providers c \<Longrightarrow> has t c' = has t c"
  by (simp add: has_def)

lemma has_register_value: "has u (register_value env t v c) \<longleftrightarrow> u = t \<or> has u c"
  by (auto simp: has_def provider_contains_def register_value_parts container insert_by_id_def)

lemma injectable_provider_mono: "injectable_provider tid A t p \<Longrightarrow> A \<subseteq> B \<Longrightarrow> injectable_provider tid B t p"
  by (cases "provider_source p") (auto simp: injectable_provider_def)

lemma injectables_in_mono: "injectables_in tid A c \<Longrightarrow> A \<subseteq> B \<Longrightarrow> injectables_in tid B c"
  unfolding injectables_in_def by (meson injectable_provider_mono)

lemma injectables_in_register_value: "injectables_in tid A c \<Longrightarrow> injectables_in tid A (register_value env t v c)"
  by (auto simp: injectables_in_def register_value_parts container value_provider_from_arc_def injectable_provider_def
      split: if_splits)

lemma injectables_in_same:
  assumes "injectables_in tid A c" "dc_providers c' = dc_providers c"
    and "\<And>t e. dc_singletons c' t = Some e \<Longrightarrow> inst_type (ci_value e) = t"
    and "\<And>s t e. dc_scoped c' s t = Some e \<Longrightarrow> inst_type (ci_value e) = t"
  shows "injectables_in tid A c'"
  using assms by (simp add: injectables_in_def)

lemma injectable_provider_cases:
  "injectable_provider tid A t p \<Longrightarrow> provider_source p = Inl i \<Longrightarrow> inst_type i = t"
  "injectable_provider tid A t p \<Longrightarrow> provider_source p = Inr f \<Longrightarrow> md_type_id (provider_metadata p) = t"
  by (simp_all add: injectable_provider_def)

interpretation injectables: resolution_invariant "injectable_container tid" "\<lambda>_ t i. inst_type i = t" env s for tid env s
proof
  fix c :: "'a DependencyContainer" and t p i f a e and v :: 'a
  assume c: "injectable_container tid c"
  have cached: "dc_singletons c t = Some e \<Longrightarrow> inst_type (ci_value e) = t"
    "dc_scoped c s t = Some e \<Longrightarrow> inst_type (ci_value e) = t" for s t e
    using c by (simp_all add: injectable_container_def injectables_in_def)
  then show "dc_singletons c t = Some e \<Longrightarrow> inst_type (ci_value e) = t"
    "dc_scoped c s t = Some e \<Longrightarrow> inst_type (ci_value e) = t"
    by blast+
  show "get_by_id (dc_providers c) t = Some p \<Longrightarrow> provider_source p = Inl i \<Longrightarrow> inst_type i = t"
    "get_by_id (dc_providers c) t = Some p \<Longrightarrow> provider_source p = Inr f \<Longrightarrow>
      inst_type \<lparr>inst_type = md_type_id (provider_metadata p), inst_addr = a, inst_value = v\<rparr> = t"
    using c injectable_provider_cases [of tid _ t p] by (auto simp: injectable_container_def injectables_in_def)
  have keep: "injectable_container tid c'"
    if "dc_providers c' = dc_providers c" "\<And>t e. dc_singletons c' t = Some e \<Longrightarrow> inst_type (ci_value e) = t"
      "\<And>s t e. dc_scoped c' s t = Some e \<Longrightarrow> inst_type (ci_value e) = t" for c'
    using injectables_in_same [OF c [unfolded injectable_container_def] that] has_same [OF that(1)]
    by (simp add: injectable_container_def)
  show "injectable_container tid (snd (arc_new t v c))"
    "inst_type i = t \<Longrightarrow> injectable_container tid (insert_singleton t (current_version t c) i c)"
    "inst_type i = t \<Longrightarrow> injectable_container tid (cache_scoped s t (current_version t c) i c)"
    "injectable_container tid (remove_singleton t c)" "injectable_container tid (remove_scoped s t c)"
    by (rule keep; use cached in \<open>auto simp: container split: if_splits\<close>)+
  show "injectable_container tid (register_value env t v c)"
    unfolding injectable_container_def has_register_value
    by (rule injectables_in_mono [OF injectables_in_register_value [OF c [unfolded injectable_container_def]]]) blast
qed

text \<open>What is registered stays registered while a resolution runs.\<close>

interpretation registered: resolution_invariant "has u" "\<lambda>_ _ _. True" env s for u env s
  by unfold_locales (simp_all add: has_register_value, simp_all add: has_def container)


lemma run_build_succeeds:
  assumes IH: "\<And>t (c :: 'v DependencyContainer) r c'. injectable_container tid c \<Longrightarrow> has t c \<Longrightarrow>
      resolve n env s t c = Some (r, c') \<Longrightarrow> \<exists>i. r = Inr i"
    and build: "\<And>rs vs (c :: 'v DependencyContainer) r c'. injectable_container tid c \<Longrightarrow>
      \<forall>ty. ResolveType ty \<in> set rs \<longrightarrow> has (tid ty) c \<Longrightarrow>
      run_build n env s (injectable_build tid mk rs vs) c = Some (r, c') \<Longrightarrow> \<exists>v. r = Inr v"
    and opt: "\<And>ty rs vs (c :: 'v DependencyContainer) r c'. injectable_container tid c \<Longrightarrow> has (tid ty) c \<Longrightarrow>
      \<forall>ty. ResolveType ty \<in> set rs \<longrightarrow> has (tid ty) c \<Longrightarrow>
      run_build n env s (Resolve (tid ty) (\<lambda>r. case r of Inl e \<Rightarrow> FailWith e
        | Inr i \<Rightarrow> injectable_build tid mk rs (vs @ [FOption (Some i)]))) c = Some (r, c') \<Longrightarrow> \<exists>v. r = Inr v"
    and c: "injectable_container tid c" "\<forall>ty. ResolveType ty \<in> set rs \<longrightarrow> has (tid ty) c"
    and run: "run_build (Suc n) env s (injectable_build tid mk rs vs) c = Some (r, c')"
  shows "\<exists>v. r = Inr v"
  using c run
proof (induction rs arbitrary: vs)
  case (Cons x rs)
  show ?case
  proof (cases x)
    case (ResolveType ty)
    obtain r1 c1 where r1: "resolve n env s (tid ty) c = Some (r1, c1)"
      using Cons.prems ResolveType by (auto split: option.splits)
    obtain i where i: "r1 = Inr i" using IH [OF Cons.prems(1) _ r1] Cons.prems(2) ResolveType by auto
    have "injectable_container tid c1" using injectables.resolve_keeps(1) [OF Cons.prems(1) r1] .
    moreover have "\<forall>ty. ResolveType ty \<in> set rs \<longrightarrow> has (tid ty) c1"
      using registered.resolve_keeps(1) [OF _ r1] Cons.prems(2) by auto
    ultimately show ?thesis using build Cons.prems(3) ResolveType r1 i by simp
  next
    case (ResolveOptional ty)
    then show ?thesis
      using Cons.prems opt [of c ty rs vs r c'] build [of c rs "vs @ [FOption None]" r c'] by (auto split: if_splits)
  next
    case (ResolveLazily ty)
    then show ?thesis using Cons.IH [of "vs @ [FLazy (tid ty)]"] Cons.prems by simp
  qed
qed auto

lemma succeeds:
  fixes c :: "'v DependencyContainer"
  shows
  "injectable_container tid c \<Longrightarrow> has t c \<Longrightarrow> resolve n env s t c = Some (r, c') \<Longrightarrow> \<exists>i. r = Inr i"
  "injectable_container tid c \<Longrightarrow> get_by_id (dc_providers c) t = Some p \<Longrightarrow>
     build_provider_with_lifecycle n env s p c = Some (r, c') \<Longrightarrow> \<exists>i. r = Inr i"
  "injectable_container tid c \<Longrightarrow> \<forall>ty. ResolveType ty \<in> set rs \<longrightarrow> has (tid ty) c \<Longrightarrow>
     run_build n env s (injectable_build tid mk rs vs) c = Some (v, c') \<Longrightarrow> \<exists>x. v = Inr x"
  "injectable_container tid c \<Longrightarrow> has (tid ty) c \<Longrightarrow> \<forall>ty. ResolveType ty \<in> set rs \<longrightarrow> has (tid ty) c \<Longrightarrow>
     run_build n env s (Resolve (tid ty) (\<lambda>r. case r of Inl e \<Rightarrow> FailWith e
        | Inr i \<Rightarrow> injectable_build tid mk rs (vs @ [FOption (Some i)]))) c = Some (v, c') \<Longrightarrow> \<exists>x. v = Inr x"
proof (induction n arbitrary: t p r v c c' rs vs mk ty)
  case (Suc n)
  { case 1
    then obtain p where p: "get_by_id (dc_providers c) t = Some p"
      by (auto simp: has_def provider_contains_def get_by_id_def)
    have same: "get_by_id (dc_providers c1) t = Some p" if "dc_providers c1 = dc_providers c" for c1
      using p that by simp
    show ?case
    proof (cases "md_scope (provider_metadata p)")
      case Singleton
      obtain hit c1 where read: "read_cached_singleton t (current_version t c) c = (hit, c1)"
        by (cases "read_cached_singleton t (current_version t c) c")
      note c1 = injectables.read_singleton [OF 1(1) read]
      show ?thesis
      proof (cases hit)
        case (Some i)
        then show ?thesis using 1 p Singleton read c1 by (auto simp: downcast_def Let_def)
      next
        case None
        then obtain r2 c2 where b: "build_provider_with_lifecycle n env s p c1 = Some (r2, c2)"
          using 1 Singleton p read by (auto simp: Let_def split: option.splits)
        moreover obtain i where "r2 = Inr i" using Suc.IH(2) [OF _ same b] c1 by blast
        moreover have "inst_type i = t"
          using injectables.build_keeps [OF _ b same] c1 \<open>r2 = Inr i\<close> by (auto simp: injectables.resolves_def)
        ultimately show ?thesis using 1 p Singleton read None by (auto simp: downcast_def Let_def)
      qed
    next
      case Scoped
      obtain hit c1 where read: "read_cached_scoped s t (current_version t c) c = (hit, c1)"
        by (cases "read_cached_scoped s t (current_version t c) c")
      note c1 = injectables.read_scoped [OF 1(1) read]
      show ?thesis
      proof (cases hit)
        case (Some i)
        then show ?thesis using 1 p Scoped read c1 by (auto simp: downcast_def Let_def)
      next
        case None
        then obtain r2 c2 where b: "build_provider_with_lifecycle n env s p c1 = Some (r2, c2)"
          using 1 Scoped p read by (auto simp: Let_def split: option.splits)
        moreover obtain i where "r2 = Inr i" using Suc.IH(2) [OF _ same b] c1 by blast
        moreover have "inst_type i = t"
          using injectables.build_keeps [OF _ b same] c1 \<open>r2 = Inr i\<close> by (auto simp: injectables.resolves_def)
        ultimately show ?thesis using 1 p Scoped read None by (auto simp: downcast_def Let_def)
      qed
    next
      case Transient
      then obtain r2 c2 where b: "build_provider_with_lifecycle n env s p c = Some (r2, c2)"
        using 1 p by (auto simp: Let_def split: option.splits)
      moreover obtain i where "r2 = Inr i" using Suc.IH(2) [OF 1(1) p b] by blast
      moreover have "inst_type i = t"
        using injectables.build_keeps [OF 1(1) b p] \<open>r2 = Inr i\<close> by (auto simp: injectables.resolves_def)
      ultimately show ?thesis using 1 p Transient by (auto simp: downcast_def Let_def)
    qed
  next
    case 2
    then have p: "injectable_provider tid {t. has t c} t p" by (simp add: injectable_container_def injectables_in_def)
    show ?case
    proof (cases "provider_source p")
      case (Inl i)
      then show ?thesis using 2 by (auto simp: build_lifecycle)
    next
      case (Inr f)
      then obtain mk rs where f: "f = injectable_build tid mk rs []" "\<forall>ty. ResolveType ty \<in> set rs \<longrightarrow> has (tid ty) c"
        using p by (auto simp: injectable_provider_def)
      obtain v c1 where run: "run_build n env s f c = Some (v, c1)"
        using 2 Inr by (auto simp: build_lifecycle split: option.splits)
      then obtain x where "v = Inr x" using Suc.IH(3) [OF 2(1) f(2), of mk "[]"] f(1) by blast
      then show ?thesis using 2 Inr run by (auto simp: build_lifecycle)
    qed
  next
    case 3
    show ?case by (rule run_build_succeeds [OF Suc.IH(1) Suc.IH(3) Suc.IH(4) 3])
  next
    case 4
    obtain r1 c1 where r1: "resolve n env s (tid ty) c = Some (r1, c1)" using 4 by (auto split: option.splits)
    obtain i where i: "r1 = Inr i" using Suc.IH(1) [OF 4(1,2) r1] by blast
    have "injectable_container tid c1" using injectables.resolve_keeps(1) [OF 4(1) r1] .
    moreover have "\<forall>ty. ResolveType ty \<in> set rs \<longrightarrow> has (tid ty) c1"
      using registered.resolve_keeps(1) [OF _ r1] 4(3) by auto
    ultimately show ?case using Suc.IH(3) 4(4) r1 i by simp
  }
qed simp_all


lemma initialize_loop_succeeds:
  "injectable_container tid c \<Longrightarrow> initialize_loop n env s ts c = Some (r, c') \<Longrightarrow> r = Inr ()"
proof (induction ts arbitrary: c)
  case (Cons t ts)
  show ?case
  proof (cases "\<exists>p. get_by_id (dc_providers c) t = Some p \<and> md_scope (provider_metadata p) = Singleton \<and> \<not> is_cached t c")
    case False
    with Cons show ?thesis by (auto simp: Let_def split: option.splits if_splits)
  next
    case True
    then obtain p where p: "get_by_id (dc_providers c) t = Some p" "md_scope (provider_metadata p) = Singleton"
      "\<not> is_cached t c" by blast
    obtain q c1 where b: "build_provider_with_lifecycle n env s p c = Some (q, c1)"
      using Cons.prems(2) p by (auto simp: Let_def split: option.splits)
    obtain i where i: "q = Inr i" using succeeds(2) [OF Cons.prems(1) p(1) b] by blast
    have "injectable_container tid c1" "inst_type i = t"
      using injectables.build_keeps [OF Cons.prems(1) b p(1)] i by (simp_all add: injectables.resolves_def)
    then show ?thesis
      using Cons.IH [of c1] Cons.IH [OF injectables.inv_cache_singleton [of tid c1 i t]] Cons.prems(2) p b i
      by (auto simp: Let_def container split: if_splits)
  qed
qed simp

lemma injectables_declared: "injectable_container tid c \<Longrightarrow> declared_dependencies c"
  unfolding declared_dependencies_def injectable_container_def injectables_in_def
  by (fastforce simp: injectable_provider_def asks_build)

section \<open>Registration\<close>

type_synonym 'v Registration = "TypeId \<times> ProviderScope \<times> ('v FieldValue list \<Rightarrow> 'v) \<times> Injectable"

fun register_injectables ::
  "Env \<Rightarrow> ScopeId \<Rightarrow> (FieldType \<Rightarrow> TypeId) \<Rightarrow> 'v Registration list \<Rightarrow> 'v DependencyContainer \<Rightarrow> 'v DependencyContainer" where
  "register_injectables env s tid [] c = c"
| "register_injectables env s tid ((t, scope, mk, ij) # regs) c =
     register_injectables env s tid regs
       (register_injectable env s t scope (map tid (ij_dependencies ij)) (injectable_build tid mk (ij_init ij) []) c)"

definition container_with :: "Env \<Rightarrow> (TypeId \<times> 'v) list \<Rightarrow> 'v DependencyContainer" where
  "container_with env vals = fold (\<lambda>(t, v). register_value env t v) vals (snd container_new)"

lemma has_register_injectable: "has u (register_injectable env s t scope deps f c) \<longleftrightarrow> u = t \<or> has u c"
  by (auto simp: has_def provider_contains_def register_injectable_def container insert_by_id_def)

lemma has_register_injectables:
  "has u (register_injectables env s tid regs c) \<longleftrightarrow> u \<in> fst ` set regs \<or> has u c"
  by (induction env s tid regs c rule: register_injectables.induct) (auto simp: has_register_injectable)

lemma has_container_with: "has u (container_with env vals) \<longleftrightarrow> u \<in> fst ` set vals"
proof -
  have "has u (fold (\<lambda>(t, v). register_value env t v) vals c) \<longleftrightarrow> u \<in> fst ` set vals \<or> has u c"
    for c :: "'a DependencyContainer"
    by (induction vals arbitrary: c) (auto simp: has_register_value)
  then show ?thesis by (simp add: container_with_def container_new_def has_def provider_contains_def)
qed

lemma injectables_in_container_with: "injectables_in tid A (container_with env vals)"
proof -
  have "injectables_in tid A c \<Longrightarrow> injectables_in tid A (fold (\<lambda>(t, v). register_value env t v) vals c)"
    for c :: "'a DependencyContainer"
    by (induction vals arbitrary: c) (auto simp: injectables_in_register_value)
  moreover have "injectables_in tid A (snd (container_new :: _ \<times> 'a DependencyContainer))"
    by (simp add: injectables_in_def container_new_def get_by_id_def)
  ultimately show ?thesis by (simp add: container_with_def)
qed

definition expansion :: "Injectable \<Rightarrow> bool" where
  "expansion ij \<longleftrightarrow> (\<exists>scope generics fds. expand_injectable scope generics fds = Inr ij)"

lemma injectables_in_register:
  assumes "injectables_in tid A c" "expansion ij" "\<forall>ty. ResolveType ty \<in> set (ij_init ij) \<longrightarrow> tid ty \<in> A"
  shows "injectables_in tid A
    (register_injectable env s t scope (map tid (ij_dependencies ij)) (injectable_build tid mk (ij_init ij) []) c)"
proof -
  have "injectable_provider tid A t
      (class_provider_new env t scope (map tid (ij_dependencies ij)) (injectable_build tid mk (ij_init ij) []))"
  proof -
    have "ij_dependencies ij = concat (map eager (ij_init ij))"
      using assms(2) expand_injectable_fields(1) unfolding expansion_def by blast
    then show ?thesis using assms(3) unfolding injectable_provider_def class_provider_new_def by auto
  qed
  then show ?thesis using assms(1) by (simp add: injectables_in_def register_injectable_def container)
qed

lemma injectables_in_register_all:
  assumes "injectables_in tid A c"
    and "\<forall>(t, scope, mk, ij) \<in> set regs. expansion ij \<and> (\<forall>ty. ResolveType ty \<in> set (ij_init ij) \<longrightarrow> tid ty \<in> A)"
  shows "injectables_in tid A (register_injectables env s tid regs c)"
  using assms by (induction env s tid regs c rule: register_injectables.induct) (auto intro!: injectables_in_register)


lemma injectable_container_registered:
  assumes "c = register_injectables env s tid regs (container_with env vals)"
    and "\<forall>(t, scope, mk, ij) \<in> set regs. expansion ij \<and>
      (\<forall>ty. ResolveType ty \<in> set (ij_init ij) \<longrightarrow> tid ty \<in> fst ` set regs \<union> fst ` set vals)"
  shows "injectable_container tid c"
proof -
  have "{t. has t c} = fst ` set regs \<union> fst ` set vals"
    unfolding assms(1) has_register_injectables has_container_with by blast
  then show ?thesis
    unfolding injectable_container_def assms(1)
    using injectables_in_register_all [OF injectables_in_container_with assms(2)] by simp
qed

lemma injectables_initialize:
  assumes "injectable_container tid c" "set ks = dom (dc_providers c)"
    and "acyclic (graph_edges (provider_graph ks (dc_providers c)))" "iteration_of gks (provider_graph ks (dc_providers c))"
  shows "\<exists>n c'. \<forall>m \<ge> n. initialize m env s ks gks c = Some (Inr (), c')"
proof -
  obtain R where R: "wf R" "well_founded_factories R c"
    using declared_acyclic_wf [OF assms(2) injectables_declared [OF assms(1)] assms(3)] by blast
  obtain ord where ord: "resolve_order gks (provider_graph ks (dc_providers c)) = Some (Inr ord)"
    using di_solver.solvable_iff [of "(gks, provider_graph ks (dc_providers c))"] di_solve_resolve [OF assms(4)] assms(3,4)
    by auto
  obtain n r c' where n: "initialize_loop n env s ord c = Some (r, c')" using initialize_loop_terminates [OF R] by fast
  have "initialize m env s ks gks c = Some (Inr (), c')" if "n \<le> m" for m
    using initialize_loop_fuel [OF that n] initialize_loop_succeeds [OF assms(1) n] ord by (simp add: initialize_def)
  then show ?thesis by blast
qed

text \<open>C34: a container that holds values and expanded structs, in any scopes, such that every \<open>Arc\<close> field has a provider
  and the declared dependencies are acyclic, always gets through: every registered type resolves to an instance of it,
  and the initialisation succeeds. Optional fields may be missing, and lazy fields may close a cycle.\<close>

theorem injectables_start:
  assumes "c = register_injectables env s tid regs (container_with env vals)"
    and "\<forall>(t, scope, mk, ij) \<in> set regs. expansion ij \<and>
      (\<forall>ty. ResolveType ty \<in> set (ij_init ij) \<longrightarrow> tid ty \<in> fst ` set regs \<union> fst ` set vals)"
    and "set ks = dom (dc_providers c)" "acyclic (graph_edges (provider_graph ks (dc_providers c)))"
    and "iteration_of gks (provider_graph ks (dc_providers c))"
  shows "(\<forall>t \<in> fst ` set regs \<union> fst ` set vals.
      \<exists>n i c'. inst_type i = t \<and> (\<forall>m \<ge> n. resolve m env s t c = Some (Inr i, c'))) \<and>
    (\<exists>n c'. \<forall>m \<ge> n. initialize m env s ks gks c = Some (Inr (), c'))"
proof (intro conjI ballI)
  note c = injectable_container_registered [OF assms(1,2)]
  obtain R where R: "wf R" "well_founded_factories R c"
    using declared_acyclic_wf [OF assms(3) injectables_declared [OF c] assms(4)] by blast
  show "\<exists>n i c'. inst_type i = t \<and> (\<forall>m \<ge> n. resolve m env s t c = Some (Inr i, c'))"
    if "t \<in> fst ` set regs \<union> fst ` set vals" for t
  proof -
    have "has t c" using that unfolding assms(1) has_register_injectables has_container_with by blast
    obtain n r c' where n: "resolve n env s t c = Some (r, c')" using resolve_terminates_wf [OF R] by fast
    obtain i where i: "r = Inr i" using succeeds(1) [OF c \<open>has t c\<close> n] by blast
    have "inst_type i = t" using injectables.resolve_keeps(3) [OF c n [unfolded i]] .
    then show ?thesis using n i fuel_mono(1) by blast
  qed
  show "\<exists>n c'. \<forall>m \<ge> n. initialize m env s ks gks c = Some (Inr (), c')"
    by (rule injectables_initialize [OF c assms(3-5)])
qed

section \<open>An example\<close>

text \<open>
  A service with a pool, an optional cache that nobody registered, and a lazy reference to the pool; a pool with a
  reference back to the service, which is lazy too.
\<close>

definition path_type :: "string \<Rightarrow> FieldType" where
  "path_type name = PathType [] name None"

definition inside :: "string \<Rightarrow> FieldType \<Rightarrow> FieldType" where
  "inside name ty = PathType [] name (Some [TypeArg ty])"

definition plain_field :: "string \<Rightarrow> FieldType \<Rightarrow> InjectField" where
  "plain_field name ty = \<lparr>fd_name = Some name, fd_attrs = [], fd_ty = ty\<rparr>"

definition service_fields :: StructFields where
  "service_fields = Named
     [plain_field ''pool'' (inside ''Arc'' (path_type ''Pool'')),
      plain_field ''cache'' (inside ''Option'' (inside ''Arc'' (path_type ''Cache''))),
      plain_field ''later'' (inside ''Lazy'' (inside ''Arc'' (path_type ''Pool'')))]"

definition pool_fields :: StructFields where
  "pool_fields = Named [plain_field ''owner'' (inside ''Lazy'' (inside ''Arc'' (path_type ''Service'')))]"

definition demo_ids :: "FieldType \<Rightarrow> TypeId" where
  "demo_ids ty = (if ty = path_type ''Service'' then 1 else if ty = path_type ''Pool'' then 2 else 3)"

definition service_injectable :: Injectable where
  "service_injectable = \<lparr>ij_scope = Transient,
     ij_init = [ResolveType (path_type ''Pool''), ResolveOptional (path_type ''Cache''), ResolveLazily (path_type ''Pool'')],
     ij_dependencies = [path_type ''Pool'', path_type ''Cache''], ij_fields = service_fields, ij_generics = []\<rparr>"

definition pool_injectable :: Injectable where
  "pool_injectable = \<lparr>ij_scope = Singleton, ij_init = [ResolveLazily (path_type ''Service'')], ij_dependencies = [],
     ij_fields = pool_fields, ij_generics = []\<rparr>"

lemmas example_defs =
  path_type_def inside_def plain_field_def service_fields_def pool_fields_def demo_ids_def service_injectable_def
  pool_injectable_def

lemma example_expansions:
  "expand_injectable Transient [] service_fields = Inr service_injectable"
  "expand_injectable Singleton [] pool_fields = Inr pool_injectable"
  by (simp_all add: example_defs expand_injectable_def field_resolution_def has_inject_attr_def build_fallback_resolution_def
      extract_lazy_arc_inner_type_def extract_arc_inner_type_def extract_optional_arc_inner_type_def first_type_arg_def
      strip_inject_attr_def add_injectable_bounds_def)

theorem injectable_dependencies_exact_witness:
  "{d. asks (injectable_build demo_ids length (ij_init service_injectable) []) d} = {2, 3}"
  using injectable_dependencies_exact [OF example_expansions(1), of demo_ids length "[]"]
  by (simp add: example_defs)

definition example_regs :: "nat Registration list" where
  "example_regs = [(1, Transient, length, service_injectable), (2, Singleton, length, pool_injectable)]"

definition example_container :: "nat DependencyContainer" where
  "example_container = register_injectables demo_env 0 demo_ids example_regs (container_with demo_env [])"

lemma example_dom: "set [1, 2] = dom (dc_providers example_container)"
proof -
  have "has u example_container \<longleftrightarrow> u \<in> {1, 2}" for u
    unfolding example_container_def has_register_injectables has_container_with by (simp add: example_regs_def)
  then show ?thesis by (auto simp: has_def provider_contains_def dom_def)
qed

theorem injectables_start_witness:
  "\<exists>n i c'. inst_type i = 1 \<and> (\<forall>m \<ge> n. resolve m demo_env 0 1 example_container = Some (Inr i, c'))"
proof -
  let ?g = "provider_graph [1, 2] (dc_providers example_container)"
  have keys: "iteration_of [1, 2] ?g"
    using example_dom provider_graph_dom [OF example_dom] by (simp add: iteration_of_def)
  have "map_option isl (resolve_order [1, 2] ?g) = Some False" by code_simp
  then have "acyclic (graph_edges ?g)"
    using di_solver.solvable_iff [of "([1, 2], ?g)"] keys di_solve_resolve [of "[1, 2]" ?g]
    by (auto simp: isl_def) (metis sum.exhaust)
  moreover have "\<forall>(t, scope, mk, ij) \<in> set example_regs. expansion ij \<and>
      (\<forall>ty. ResolveType ty \<in> set (ij_init ij) \<longrightarrow> demo_ids ty \<in> fst ` set example_regs \<union> fst ` set ([] :: (TypeId \<times> nat) list))"
    using example_expansions unfolding expansion_def example_regs_def
    by (auto simp: service_injectable_def pool_injectable_def) (auto simp: demo_ids_def path_type_def)
  ultimately show ?thesis
    using injectables_start [OF example_container_def _ example_dom _ keys] by (auto simp: example_regs_def)
qed

end
