(* ===== verification/Module_Macro.thy ===== *)
theory Module_Macro
  imports Injectable Controller_Attributes Module_Runtime
begin

text \<open>
  The macro \<open>#[module]\<close> (\<open>nivasa-macros/src/module_macro.rs\<close>): its arguments, the attributes it reads from the struct, and
  the \<open>Module\<close> implementation it generates. The registrations of its controllers are in \<open>Application\<close>.
\<close>

section \<open>Arguments\<close>

text \<open>Types are paths here, in the spelling the macro prints.\<close>

record ModuleArgs =
  mg_imports :: "string list"
  mg_controllers :: "string list"
  mg_providers :: "string list"
  mg_exports :: "string list"
  mg_middlewares :: "string list"

definition no_module_args :: ModuleArgs where
  "no_module_args = \<lparr>mg_imports = [], mg_controllers = [], mg_providers = [], mg_exports = [], mg_middlewares = []\<rparr>"

definition insert_unique :: "string \<Rightarrow> string list \<Rightarrow> string list \<Rightarrow> MacroError + string list" where
  "insert_unique key target types =
     (if target \<noteq> [] then Inl (Custom (''duplicate `'' @ key @ ''` entry in `#[module]`'')) else Inr types)"

definition module_entry :: "string \<Rightarrow> string list \<Rightarrow> ModuleArgs \<Rightarrow> MacroError + ModuleArgs" where
  "module_entry key types args =
     (if key = ''imports'' then map_sum id (\<lambda>ts. args\<lparr>mg_imports := ts\<rparr>) (insert_unique key (mg_imports args) types)
      else if key = ''controllers'' then map_sum id (\<lambda>ts. args\<lparr>mg_controllers := ts\<rparr>) (insert_unique key (mg_controllers args) types)
      else if key = ''providers'' then map_sum id (\<lambda>ts. args\<lparr>mg_providers := ts\<rparr>) (insert_unique key (mg_providers args) types)
      else if key = ''exports'' then map_sum id (\<lambda>ts. args\<lparr>mg_exports := ts\<rparr>) (insert_unique key (mg_exports args) types)
      else if key = ''middlewares'' then map_sum id (\<lambda>ts. args\<lparr>mg_middlewares := ts\<rparr>) (insert_unique key (mg_middlewares args) types)
      else Inl (Custom (''unknown `#[module]` key `'' @ key @
        ''`; expected one of `imports`, `controllers`, `providers`, `exports`, or `middlewares`'')))"

fun module_entries_of :: "ModuleArgs \<Rightarrow> Tok list \<Rightarrow> MacroError + ModuleArgs" where
  "module_entries_of args [] = Inr args"
| "module_entries_of args (TPath key # TColon # TBrackets ts # rest) =
     (case parse_terminated path_tok ts of
        Inl e \<Rightarrow> Inl e
      | Inr types \<Rightarrow>
          (case module_entry key types args of
             Inl e \<Rightarrow> Inl e
           | Inr args' \<Rightarrow>
               (case rest of [] \<Rightarrow> Inr args' | TComma # rest' \<Rightarrow> module_entries_of args' rest' | _ \<Rightarrow> Inl Syn)))"
| "module_entries_of args _ = Inl Syn"

definition parse_module_args :: "Tok list \<Rightarrow> MacroError + ModuleArgs" where
  "parse_module_args ts = (case ts of [TBraces content] \<Rightarrow> module_entries_of no_module_args content | _ \<Rightarrow> Inl Syn)"

section \<open>Attributes of the struct\<close>

definition module_interceptor_binding :: "Attribute \<Rightarrow> MacroError + string list option" where
  "module_interceptor_binding =
     names_binding ''interceptor'' (parse_args_with (parse_terminated path_tok))
       ''`#[interceptor]` requires at least one interceptor type'' ''__NIVASA_INTERCEPTOR__'' ''invalid module interceptor marker''"

definition module_guard_binding :: "Attribute \<Rightarrow> MacroError + string list option" where
  "module_guard_binding =
     names_binding ''guard'' (parse_args_with (parse_terminated path_tok))
       ''`#[guard]` requires at least one guard type'' ''__NIVASA_GUARD__'' ''invalid module guard marker''"

definition module_roles_binding :: "Attribute \<Rightarrow> MacroError + string list option" where
  "module_roles_binding =
     names_binding ''roles'' (parse_args_with (parse_terminated path_tok))
       ''`#[roles]` requires at least one role type'' ''__NIVASA_ROLES__'' ''invalid module roles marker''"

definition module_set_metadata_binding :: "Attribute \<Rightarrow> MacroError + MetadataBinding list option" where
  "module_set_metadata_binding a =
     (if attr_path_matches a ''set_metadata''
      then (case parse_nested_meta metadata_entry (None, None) a of
              Inl e \<Rightarrow> Inl e
            | Inr found \<Rightarrow> map_sum id (\<lambda>m. Some [m]) (metadata_pair found))
      else (case marker ''nivasa-set-metadata:'' a of
              None \<Rightarrow> Inr None
            | Some rest \<Rightarrow>
                (case split_once CHR ''='' (trim rest) of
                   None \<Rightarrow> Inl (Custom ''invalid module set_metadata marker'')
                 | Some (key, val) \<Rightarrow>
                     if blank key \<or> blank val then Inl (Custom ''invalid module set_metadata marker'')
                     else Inr (Some [\<lparr>mb_key = trim key, mb_value = trim val\<rparr>]))))"

fun collect_bindings :: "(Attribute \<Rightarrow> MacroError + 'a list option) \<Rightarrow> Attribute list \<Rightarrow> MacroError + 'a list" where
  "collect_bindings parser [] = Inr []"
| "collect_bindings parser (a # as) =
     (case parser a of
        Inl e \<Rightarrow> Inl e
      | Inr None \<Rightarrow> collect_bindings parser as
      | Inr (Some xs) \<Rightarrow> map_sum id ((@) xs) (collect_bindings parser as))"

definition parse_module_interceptors :: "Attribute list \<Rightarrow> MacroError + string list" where
  "parse_module_interceptors = collect_bindings module_interceptor_binding"

definition parse_module_guards :: "Attribute list \<Rightarrow> MacroError + string list" where
  "parse_module_guards = collect_bindings module_guard_binding"

definition parse_module_roles :: "Attribute list \<Rightarrow> MacroError + string list" where
  "parse_module_roles = collect_bindings module_roles_binding"

definition parse_module_set_metadata :: "Attribute list \<Rightarrow> MacroError + MetadataBinding list" where
  "parse_module_set_metadata = collect_bindings module_set_metadata_binding"

section \<open>The generated module\<close>

record ModuleExpansion =
  mx_args :: ModuleArgs
  mx_guards :: "string list"
  mx_interceptors :: "string list"
  mx_roles :: "string list"
  mx_set_metadata :: "MetadataBinding list"

definition module_impl :: "Tok list \<Rightarrow> Attribute list \<Rightarrow> MacroError + ModuleExpansion" where
  "module_impl ts attrs =
     (case parse_module_args ts of
        Inl e \<Rightarrow> Inl e
      | Inr args \<Rightarrow>
          (case parse_module_interceptors attrs of
             Inl e \<Rightarrow> Inl e
           | Inr interceptors \<Rightarrow>
               (case parse_module_roles attrs of
                  Inl e \<Rightarrow> Inl e
                | Inr rls \<Rightarrow>
                    (case parse_module_set_metadata attrs of
                       Inl e \<Rightarrow> Inl e
                     | Inr ms \<Rightarrow>
                         (case parse_module_guards attrs of
                            Inl e \<Rightarrow> Inl e
                          | Inr gs \<Rightarrow>
                              Inr \<lparr>mx_args = args, mx_guards = gs, mx_interceptors = interceptors, mx_roles = rls,
                                   mx_set_metadata = ms\<rparr>)))))"

definition generated_metadata :: "(string \<Rightarrow> TypeId) \<Rightarrow> ModuleExpansion \<Rightarrow> ModuleMetadata" where
  "generated_metadata tid m =
     (let args = mx_args m; ids = map tid in
      with_global
        (with_middlewares
          (with_exports
            (with_controllers
              (with_providers
                (with_imports module_metadata_new (ids (mg_imports args)))
                (ids (mg_providers args)))
              (ids (mg_controllers args)))
            (ids (mg_exports args)))
          (ids (mg_middlewares args)))
        False)"

text \<open>\<open>configure\<close> registers each provider with what its \<open>Injectable\<close> implementation declares and builds.\<close>

fun configure_providers ::
  "Env \<Rightarrow> ScopeId \<Rightarrow> (string \<Rightarrow> TypeId) \<Rightarrow> (string \<Rightarrow> TypeId list) \<Rightarrow> (string \<Rightarrow> 'v Build) \<Rightarrow> string list \<Rightarrow>
   'v DependencyContainer \<Rightarrow> 'v DependencyContainer" where
  "configure_providers env s tid deps build [] c = c"
| "configure_providers env s tid deps build (p # ps) c =
     configure_providers env s tid deps build ps (register_injectable env s (tid p) Singleton (deps p) (build p) c)"

definition generated_configure ::
  "Env \<Rightarrow> ScopeId \<Rightarrow> (string \<Rightarrow> TypeId) \<Rightarrow> (string \<Rightarrow> TypeId list) \<Rightarrow> (string \<Rightarrow> 'v Build) \<Rightarrow> ModuleExpansion \<Rightarrow>
   'v DependencyContainer \<Rightarrow> (DiError, unit, 'v DependencyContainer) result" where
  "generated_configure env s tid deps build m c =
     Some (Inr (), configure_providers env s tid deps build (mg_providers (mx_args m)) c)"


section \<open>Markers\<close>

text \<open>
  The attribute macros write other markers than the module macro looks for: a guard, interceptor or role above
  \<open>#[module]\<close> is lost, one below it is read.
\<close>

lemma doc_no_match: "name \<noteq> ''doc'' \<Longrightarrow> \<not> attr_path_matches (doc_attr s) name"
  by (simp add: attr_path_matches_def is_ident_def doc_attr_def)

lemma marker_other:
  assumes "s = CHR ''n'' # s'" "prefix = CHR ''_'' # prefix'"
  shows "marker prefix (doc_attr s) = None"
proof -
  obtain t where t: "s = trim s @ t"
    using trim_end_matches_decomp [of s is_whitespace] assms(1)
    by (auto simp: trim_def trim_matches_def trim_start_matches_def is_whitespace_def)
  have "\<not> starts_with (trim s) prefix"
    using t assms by (cases "trim s") (auto simp: starts_with_iff)
  then show ?thesis by (simp add: marker_def doc_text_def is_ident_def doc_attr_def strip_prefix_eq_None)
qed

lemma names_binding_other:
  assumes "name \<noteq> ''doc''"
  shows "names_binding name args e1 (CHR ''_'' # prefix) e2 (doc_attr (CHR ''n'' # text)) = Inr None"
  using doc_no_match [OF assms] marker_other [OF refl refl] by (simp add: names_binding_def)

lemma module_markers_lost:
  "guard_macro args KStruct attrs = Inr attrs' \<Longrightarrow> parse_module_guards attrs' = parse_module_guards attrs"
  "interceptor_macro args KStruct attrs = Inr attrs' \<Longrightarrow> parse_module_interceptors attrs' = parse_module_interceptors attrs"
  "roles_macro args KStruct attrs = Inr attrs' \<Longrightarrow> parse_module_roles attrs' = parse_module_roles attrs"
  by (auto simp: guard_macro_def interceptor_macro_def roles_macro_def attach_def guard_marker_attr_def
      interceptor_marker_attr_def parse_module_guards_def parse_module_interceptors_def parse_module_roles_def
      module_guard_binding_def module_interceptor_binding_def module_roles_binding_def names_binding_other
      split: sum.splits if_splits)

lemma module_roles_need_paths:
  "attr_path_matches a ''roles'' \<Longrightarrow> at_meta a = MetaList (TStr r # ts) \<Longrightarrow> \<exists>e. module_roles_binding a = Inl e"
proof -
  have "\<exists>e. parse_terminated path_tok (TStr r # ts) = Inl e"
  proof (cases ts)
    case (Cons t us)
    then show ?thesis by (cases t) simp_all
  qed simp
  moreover assume "attr_path_matches a ''roles''" "at_meta a = MetaList (TStr r # ts)"
  ultimately show ?thesis by (auto simp: module_roles_binding_def names_binding_def parse_args_with_def)
qed

section \<open>Providers of a module\<close>

definition all_singletons :: "'v DependencyContainer \<Rightarrow> bool" where
  "all_singletons c \<longleftrightarrow> (\<forall>t p. get_by_id (dc_providers c) t = Some p \<longrightarrow> md_scope (provider_metadata p) = Singleton)"

interpretation singletons: resolution_invariant all_singletons "\<lambda>_ _ _. True" env s for env s
  by unfold_locales (auto simp: all_singletons_def container register_value_parts value_provider_from_arc_def)

lemma configure_registers:
  "configure_providers env s tid (\<lambda>p. map ftid (ij_dependencies (ij p))) (\<lambda>p. injectable_build ftid (mk p) (ij_init (ij p)) []) ps c =
   register_injectables env s ftid (map (\<lambda>p. (tid p, Singleton, mk p, ij p)) ps) c"
  by (induction ps arbitrary: c) simp_all

lemma singletons_register_injectable:
  "all_singletons c \<Longrightarrow> all_singletons (register_injectable env s t Singleton deps f c)"
  by (auto simp: all_singletons_def register_injectable_def container class_provider_new_def)

lemma singletons_configured: "all_singletons c \<Longrightarrow> all_singletons (configure_providers env s tid deps build ps c)"
  by (induction ps arbitrary: c) (simp_all add: singletons_register_injectable)

lemma singletons_container_with: "all_singletons (container_with env vals)"
proof -
  have "all_singletons c \<Longrightarrow> all_singletons (fold (\<lambda>(t, v). register_value env t v) vals c)" for c :: "'a DependencyContainer"
    by (induction vals arbitrary: c) (auto simp: singletons.inv_register_value)
  moreover have "all_singletons (snd container_new)"
    by (simp add: container_new_def all_singletons_def get_by_id_def)
  ultimately show ?thesis by (simp add: container_with_def)
qed

text \<open>C35: a module whose providers are expanded structs, in a container that holds values, starts: configuring succeeds,
  and so does the initialisation when the declared dependencies are acyclic and every \<open>Arc\<close> field has a provider. Each
  provider is then one instance for all scopes, whatever scope its \<open>#[injectable]\<close> attribute gives.\<close>

theorem module_providers_start:
  assumes "generated_configure env s tid (\<lambda>p. map ftid (ij_dependencies (ij p)))
      (\<lambda>p. injectable_build ftid (mk p) (ij_init (ij p)) []) m (container_with env vals) = Some (r, c)"
    and "\<forall>p \<in> set (mg_providers (mx_args m)). expansion (ij p) \<and>
      (\<forall>ty. ResolveType ty \<in> set (ij_init (ij p)) \<longrightarrow> ftid ty \<in> tid ` set (mg_providers (mx_args m)) \<union> fst ` set vals)"
    and "set ks = dom (dc_providers c)" "acyclic (graph_edges (provider_graph ks (dc_providers c)))"
    and "iteration_of gks (provider_graph ks (dc_providers c))"
  shows "r = Inr () \<and>
    (\<exists>n c'. (\<forall>k \<ge> n. initialize k env s ks gks c = Some (Inr (), c')) \<and>
      (\<forall>p \<in> set (mg_providers (mx_args m)). \<exists>i. inst_type i = tid p \<and>
        (\<forall>k s'. resolve (Suc k) env s' (tid p) c' = Some (Inr i, c'))))"
proof (intro conjI)
  let ?ps = "mg_providers (mx_args m)" and ?regs = "map (\<lambda>p. (tid p, Singleton, mk p, ij p)) (mg_providers (mx_args m))"
  have c: "r = Inr ()" "c = register_injectables env s ftid ?regs (container_with env vals)"
    using assms(1) by (simp_all add: generated_configure_def configure_registers)
  then show "r = Inr ()" by simp
  have ready: "injectable_container ftid c"
    by (rule injectable_container_registered [OF c(2)]) (use assms(2) in \<open>auto simp: image_image\<close>)
  obtain n c' where init: "\<forall>k \<ge> n. initialize k env s ks gks c = Some (Inr (), c')"
    using injectables_initialize [OF ready assms(3-5)] by blast
  then have "initialize n env s ks gks c = Some (Inr (), c')" by blast
  then obtain ord where ord: "resolve_order gks (provider_graph ks (dc_providers c)) = Some (Inr ord)"
    "initialize_loop n env s ord c = Some (Inr (), c')"
    by (auto simp: initialize_def split: option.splits sum.splits)
  have "all_singletons c"
    unfolding c(2) configure_registers [symmetric] by (rule singletons_configured [OF singletons_container_with])
  then have after: "injectable_container ftid c'" "all_singletons c'"
    using injectables.initialize_keeps [OF ready] singletons.initialize_keeps init by blast+
  have "\<exists>i. inst_type i = tid p \<and> (\<forall>k s'. resolve (Suc k) env s' (tid p) c' = Some (Inr i, c'))" if "p \<in> set ?ps" for p
  proof -
    have "has (tid p) c" using that unfolding c(2) has_register_injectables by force
    then have "tid p \<in> set ord" "has (tid p) c'"
      using resolve_order_spec [OF assms(5)] ord(1) provider_graph_dom [OF assms(3)]
        registered.initialize_keeps [of "tid p" c n env s ks gks "Inr ()" c'] init
      by (auto simp: has_def provider_contains_def)
    then obtain q where q: "get_by_id (dc_providers c') (tid p) = Some q"
      by (auto simp: has_def provider_contains_def get_by_id_def)
    then have cached: "is_cached (tid p) c'"
      using initialize_loop_serves [OF ord(2)] \<open>tid p \<in> set ord\<close> after(2) q unfolding served_def all_singletons_def by blast
    then obtain e where e: "dc_singletons c' (tid p) = Some e" "ci_version e = current_version (tid p) c'"
      by (auto simp: is_cached_def split: option.splits)
    then have "inst_type (ci_value e) = tid p"
      using after(1) by (simp add: injectable_container_def injectables_in_def)
    then show ?thesis
      using e q after(2) unfolding all_singletons_def by (intro exI [of _ "ci_value e"]) (simp add: Let_def read_cached_singleton_def downcast_def)
  qed
  with init show "\<exists>n c'. (\<forall>k \<ge> n. initialize k env s ks gks c = Some (Inr (), c')) \<and>
      (\<forall>p \<in> set ?ps. \<exists>i. inst_type i = tid p \<and> (\<forall>k s'. resolve (Suc k) env s' (tid p) c' = Some (Inr i, c')))"
    by blast
qed


text \<open>The service and the pool of \<open>Injectable\<close> in a module: the service is declared transient there.\<close>

definition example_module :: ModuleExpansion where
  "example_module =
     \<lparr>mx_args = no_module_args\<lparr>mg_providers := [''Service'', ''Pool'']\<rparr>, mx_guards = [''Auth''], mx_interceptors = [],
      mx_roles = [], mx_set_metadata = []\<rparr>"

lemma example_module_expands:
  "module_impl [TBraces [TPath ''providers'', TColon, TBrackets [TPath ''Service'', TComma, TPath ''Pool'']]]
     [\<lparr>at_path = [''guard''], at_meta = MetaList [TPath ''Auth'']\<rparr>] = Inr example_module"
  by (simp add: example_module_def module_impl_def parse_module_args_def no_module_args_def module_entry_def
      insert_unique_def parse_module_interceptors_def parse_module_guards_def parse_module_roles_def
      parse_module_set_metadata_def module_interceptor_binding_def module_guard_binding_def module_roles_binding_def
      module_set_metadata_binding_def names_binding_def attr_path_matches_def is_ident_def parse_args_with_def
      marker_def doc_text_def)

definition example_tid :: "string \<Rightarrow> TypeId" where
  "example_tid p = demo_ids (path_type p)"

definition example_ij :: "string \<Rightarrow> Injectable" where
  "example_ij p = (if p = ''Service'' then service_injectable else pool_injectable)"

definition configured_example :: "nat DependencyContainer" where
  "configured_example = snd (the (generated_configure demo_env 0 example_tid (\<lambda>p. map demo_ids (ij_dependencies (example_ij p)))
     (\<lambda>p. injectable_build demo_ids length (ij_init (example_ij p)) []) example_module (container_with demo_env [])))"

lemma configured_example_run:
  "generated_configure demo_env 0 example_tid (\<lambda>p. map demo_ids (ij_dependencies (example_ij p)))
     (\<lambda>p. injectable_build demo_ids length (ij_init (example_ij p)) []) example_module (container_with demo_env [])
   = Some (Inr (), configured_example)"
  by (simp add: configured_example_def generated_configure_def)

lemma configured_example_dom: "set [1, 2] = dom (dc_providers configured_example)"
proof -
  have "has u configured_example \<longleftrightarrow> u \<in> {1, 2}" for u
    unfolding configured_example_def generated_configure_def configure_registers option.sel snd_conv
      has_register_injectables has_container_with
    by (simp add: example_module_def no_module_args_def example_tid_def demo_ids_def path_type_def)
  then show ?thesis by (auto simp: has_def provider_contains_def dom_def)
qed

theorem module_providers_start_witness:
  "\<exists>c' i. inst_type i = 1 \<and> ij_scope (example_ij ''Service'') = Transient \<and>
     (\<forall>k s'. resolve (Suc k) demo_env s' 1 (c' :: nat DependencyContainer) = Some (Inr i, c'))"
proof -
  let ?g = "provider_graph [1, 2] (dc_providers configured_example)"
  have keys: "iteration_of [1, 2] ?g"
    using configured_example_dom provider_graph_dom [OF configured_example_dom] by (simp add: iteration_of_def)
  have "map_option isl (resolve_order [1, 2] ?g) = Some False" by code_simp
  then have acyclic: "acyclic (graph_edges ?g)"
    using di_solver.solvable_iff [of "([1, 2], ?g)"] keys di_solve_resolve [of "[1, 2]" ?g]
    by (auto simp: isl_def) (metis sum.exhaust)
  have expansions: "expansion (example_ij p)" for p
    using example_expansions by (auto simp: example_ij_def expansion_def)
  have fields: "\<forall>p \<in> set (mg_providers (mx_args example_module)). expansion (example_ij p) \<and>
      (\<forall>ty. ResolveType ty \<in> set (ij_init (example_ij p)) \<longrightarrow>
        demo_ids ty \<in> example_tid ` set (mg_providers (mx_args example_module)) \<union> fst ` set ([] :: (TypeId \<times> nat) list))"
    using expansions
    by (auto simp: example_module_def no_module_args_def example_ij_def example_tid_def service_injectable_def pool_injectable_def)
  have "''Service'' \<in> set (mg_providers (mx_args example_module))" "example_tid ''Service'' = 1"
    by (simp_all add: example_module_def example_tid_def demo_ids_def)
  then obtain c' i where "inst_type i = 1" "\<forall>k s'. resolve (Suc k) demo_env s' 1 c' = Some (Inr i, c' :: nat DependencyContainer)"
    using module_providers_start [OF configured_example_run fields configured_example_dom acyclic keys] by metis
  moreover have "ij_scope (example_ij ''Service'') = Transient" by (simp add: example_ij_def service_injectable_def)
  ultimately show ?thesis by blast
qed

end
