(* ===== verification/Module_Edit.thy ===== *)
theory Module_Edit
  imports Statechart_Codegen
begin

text \<open>
  How the command line tool (\<open>nivasa-cli/src/main.rs\<close>) edits the source of a module: it finds the body of the
  \<open>#[module({...})]\<close> attribute in the text, parses its fields, adds an item and prints the body again.
\<close>

section \<open>Finding the body\<close>

fun find_str :: "string \<Rightarrow> string \<Rightarrow> nat option" where
  "find_str p [] = (if p = [] then Some 0 else None)"
| "find_str p (c # cs) = (if starts_with (c # cs) p then Some 0 else map_option Suc (find_str p cs))"

definition str_contains :: "string \<Rightarrow> string \<Rightarrow> bool" where
  "str_contains s p \<longleftrightarrow> find_str p s \<noteq> None"

fun closing_brace :: "nat \<Rightarrow> string \<Rightarrow> nat option" where
  "closing_brace depth [] = None"
| "closing_brace depth (c # cs) =
     (if c = CHR ''{'' then map_option Suc (closing_brace (Suc depth) cs)
      else if c = CHR ''}'' then (if depth = 1 then Some 0 else map_option Suc (closing_brace (depth - 1) cs))
      else map_option Suc (closing_brace depth cs))"

definition module_marker :: string where
  "module_marker = ''#[module(''"

definition find_module_body :: "string \<Rightarrow> string + nat \<times> nat" where
  "find_module_body source =
     (case find_str module_marker source of
        None \<Rightarrow> Inl ''target file missing #[module(...)] attribute''
      | Some module_start \<Rightarrow>
          (case find_str ''{'' (drop module_start source) of
             None \<Rightarrow> Inl ''module attribute missing `{` body''
           | Some offset \<Rightarrow>
               let brace_start = module_start + offset + 1 in
               (case closing_brace 1 (drop brace_start source) of
                  None \<Rightarrow> Inl ''module attribute missing closing `}`''
                | Some len \<Rightarrow> Inr (brace_start, brace_start + len))))"

section \<open>Parsing the fields\<close>

text \<open>The scanner of a value: how deep it is in brackets, braces and parentheses, and whether it is in a string.\<close>

record Scan =
  sc_bracket :: nat
  sc_brace :: nat
  sc_paren :: nat
  sc_in_string :: bool
  sc_prev_escape :: bool

definition scan_start :: Scan where
  "scan_start = \<lparr>sc_bracket = 0, sc_brace = 0, sc_paren = 0, sc_in_string = False, sc_prev_escape = False\<rparr>"

definition at_top :: "Scan \<Rightarrow> bool" where
  "at_top st \<longleftrightarrow> sc_bracket st = 0 \<and> sc_brace st = 0 \<and> sc_paren st = 0"

definition scan_char :: "Scan \<Rightarrow> char \<Rightarrow> Scan" where
  "scan_char st c =
     (if sc_in_string st
      then st\<lparr>sc_in_string := \<not> (c = CHR 0x22 \<and> \<not> sc_prev_escape st),
              sc_prev_escape := c = CHR 0x5C \<and> \<not> sc_prev_escape st\<rparr>
      else if c = CHR 0x22 then st\<lparr>sc_in_string := True, sc_prev_escape := False\<rparr>
      else if c = CHR ''['' then st\<lparr>sc_bracket := sc_bracket st + 1\<rparr>
      else if c = CHR '']'' then st\<lparr>sc_bracket := sc_bracket st - 1\<rparr>
      else if c = CHR ''{'' then st\<lparr>sc_brace := sc_brace st + 1\<rparr>
      else if c = CHR ''}'' then st\<lparr>sc_brace := sc_brace st - 1\<rparr>
      else if c = CHR ''('' then st\<lparr>sc_paren := sc_paren st + 1\<rparr>
      else if c = CHR '')'' then st\<lparr>sc_paren := sc_paren st - 1\<rparr>
      else st)"

definition ends_value :: "Scan \<Rightarrow> char \<Rightarrow> bool" where
  "ends_value st c \<longleftrightarrow> \<not> sc_in_string st \<and> c = CHR '','' \<and> at_top st"

fun scan_value :: "Scan \<Rightarrow> string \<Rightarrow> string \<times> string" where
  "scan_value st [] = ([], [])"
| "scan_value st (c # cs) =
     (if ends_value st c then ([], c # cs) else map_prod ((#) c) id (scan_value (scan_char st c) cs))"

definition blank_char :: "char \<Rightarrow> bool" where
  "blank_char c \<longleftrightarrow> c \<in> {CHR '' '', CHR 0x0A, CHR 0x09}"

definition field_char :: "char \<Rightarrow> bool" where
  "field_char c \<longleftrightarrow> c = CHR ''_'' \<or> CHR ''A'' \<le> c \<and> c \<le> CHR ''Z'' \<or> CHR ''a'' \<le> c \<and> c \<le> CHR ''z'' \<or>
     CHR ''0'' \<le> c \<and> c \<le> CHR ''9''"

lemma scan_value_length: "length (snd (scan_value st s)) \<le> length s"
  by (induction st s rule: scan_value.induct) auto

function parse_module_fields :: "string \<Rightarrow> string + (string \<times> string) list" where
  "parse_module_fields body =
     (let s = dropWhile (\<lambda>c. blank_char c \<or> c = CHR '','') body in
      if s = [] then Inr []
      else
        let field_name = takeWhile field_char s in
        if field_name = [] then Inl ''failed to parse module metadata field name''
        else case dropWhile blank_char (dropWhile field_char s) of
            c # cs \<Rightarrow>
              if c \<noteq> CHR '':'' then Inl (''module metadata field `'' @ field_name @ ''` missing `:`'')
              else (case scan_value scan_start cs of
                 (val, rest) \<Rightarrow> map_sum id ((#) (field_name, trim val)) (parse_module_fields (drop 1 rest)))
          | [] \<Rightarrow> Inl (''module metadata field `'' @ field_name @ ''` missing `:`''))"
  by pat_completeness auto

termination parse_module_fields
proof (relation "measure length")
  fix body s c cs val rest
  assume s: "s = dropWhile (\<lambda>c. blank_char c \<or> c = CHR '','') body" "s \<noteq> []"
    and c: "dropWhile blank_char (dropWhile field_char s) = c # cs" and p: "(val, rest) = scan_value scan_start cs"
  have "length (drop 1 rest) \<le> length cs"
    using scan_value_length [of scan_start cs] p [symmetric] by simp
  also have "length cs < length (dropWhile blank_char (dropWhile field_char s))" using c by simp
  also have "\<dots> \<le> length s" using length_dropWhile_le le_trans by blast
  also have "\<dots> \<le> length body" using s(1) length_dropWhile_le by blast
  finally show "(drop 1 rest, body) \<in> measure length" by simp
qed simp

declare parse_module_fields.simps [simp del]

section \<open>Items of an array\<close>

fun array_items :: "nat \<Rightarrow> nat \<Rightarrow> nat \<Rightarrow> string \<Rightarrow> string \<Rightarrow> string list" where
  "array_items bracket brace paren current [] = (if trim current = [] then [] else [trim current])"
| "array_items bracket brace paren current (c # cs) =
     (if c = CHR '','' \<and> bracket = 0 \<and> brace = 0 \<and> paren = 0
      then (if trim current = [] then [] else [trim current]) @ array_items 0 0 0 [] cs
      else array_items
        (if c = CHR ''['' then bracket + 1 else if c = CHR '']'' then bracket - 1 else bracket)
        (if c = CHR ''{'' then brace + 1 else if c = CHR ''}'' then brace - 1 else brace)
        (if c = CHR ''('' then paren + 1 else if c = CHR '')'' then paren - 1 else paren)
        (current @ [c]) cs)"

definition parse_array_items :: "string \<Rightarrow> string + string list" where
  "parse_array_items val =
     (let trimmed = trim val in
      if \<not> starts_with trimmed ''['' \<or> \<not> ends_with trimmed '']''
      then Inl (''expected array value, found `'' @ trimmed @ ''`'')
      else Inr (array_items 0 0 0 [] (butlast (tl trimmed))))"

section \<open>Printing\<close>

definition render_array_items :: "string list \<Rightarrow> string" where
  "render_array_items items = ''['' @ nl @ concat (map (\<lambda>item. ''        '' @ item @ '','' @ nl) items) @ ''    ]''"

definition render_module_fields :: "(string \<times> string) list \<Rightarrow> string" where
  "render_module_fields fds =
     (if fds = [] then []
      else nl @ concat (map (\<lambda>(name, val).
        if CHR 0x0A \<in> set val then ''    '' @ name @ '': '' @ val @ '','' @ nl
        else ''    '' @ name @ '': '' @ trim val @ '','' @ nl) fds))"

section \<open>The edit\<close>

fun upsert_field :: "string \<Rightarrow> string \<Rightarrow> (string \<times> string) list \<Rightarrow> string + (string \<times> string) list" where
  "upsert_field field_name item_name [] = Inr [(field_name, render_array_items [item_name])]"
| "upsert_field field_name item_name ((name, val) # fds) =
     (if name = field_name
      then map_sum id
        (\<lambda>items. (name, render_array_items (if item_name \<in> set items then items else items @ [item_name])) # fds)
        (parse_array_items val)
      else map_sum id ((#) (name, val)) (upsert_field field_name item_name fds))"

definition upsert_module_metadata :: "string \<Rightarrow> string \<Rightarrow> string \<Rightarrow> string + string" where
  "upsert_module_metadata source field_name item_name =
     (case find_module_body source of
        Inl e \<Rightarrow> Inl e
      | Inr (body_start, body_end) \<Rightarrow>
          (case parse_module_fields (drop body_start (take body_end source)) of
             Inl e \<Rightarrow> Inl e
           | Inr fds \<Rightarrow>
               map_sum id (\<lambda>fds'. take body_start source @ render_module_fields fds' @ drop body_end source)
                 (upsert_field field_name item_name fds)))"

definition quote_mark :: string where
  "quote_mark = [CHR 0x22]"

definition ensure_import_block :: "string \<Rightarrow> string \<Rightarrow> string \<Rightarrow> string \<Rightarrow> string" where
  "ensure_import_block source relative_path module_ident type_name =
     (let mod_line = ''#[path = '' @ quote_mark @ relative_path @ quote_mark @ '']'' @ nl @ ''mod '' @ module_ident @ '';'' @ nl;
          use_line = ''use '' @ module_ident @ ''::'' @ type_name @ '';'' @ nl;
          updated = (if str_contains source mod_line then [] else mod_line)
            @ (if str_contains source use_line then [] else use_line)
      in updated @ (if updated = [] then [] else nl) @ source)"


section \<open>The text of a module\<close>

text \<open>What a module says, and how the tool prints it.\<close>

type_synonym ModuleFields = "(string \<times> string list) list"

definition print_fields :: "ModuleFields \<Rightarrow> string" where
  "print_fields fs = render_module_fields (map (\<lambda>(name, items). (name, render_array_items items)) fs)"

definition module_source :: "string \<Rightarrow> ModuleFields \<Rightarrow> string \<Rightarrow> string" where
  "module_source pre fs post = pre @ module_marker @ ''{'' @ print_fields fs @ ''}'' @ post"

fun add_item :: "string \<Rightarrow> string \<Rightarrow> ModuleFields \<Rightarrow> ModuleFields" where
  "add_item f item [] = [(f, [item])]"
| "add_item f item ((name, items) # fs) =
     (if name = f then (name, if item \<in> set items then items else items @ [item]) # fs else (name, items) # add_item f item fs)"

definition plain_char :: "char \<Rightarrow> bool" where
  "plain_char c \<longleftrightarrow> c \<notin> set ''[]{}()'' \<union> {CHR 0x22}"

definition item_ok :: "string \<Rightarrow> bool" where
  "item_ok i \<longleftrightarrow> i \<noteq> [] \<and> \<not> is_whitespace (hd i) \<and> \<not> is_whitespace (last i) \<and> CHR '','' \<notin> set i \<and> list_all plain_char i"

definition name_ok :: "string \<Rightarrow> bool" where
  "name_ok n \<longleftrightarrow> n \<noteq> [] \<and> list_all field_char n"

definition fields_ok :: "ModuleFields \<Rightarrow> bool" where
  "fields_ok fs \<longleftrightarrow> list_all (\<lambda>(name, items). name_ok name \<and> list_all item_ok items) fs"

lemma blanks [simp]: "is_whitespace (CHR '' '')" "is_whitespace (CHR 0x0A)" "plain_char (CHR '' '')" "plain_char (CHR 0x0A)"
  "plain_char (CHR '','')" "\<not> is_whitespace (CHR ''['')" "\<not> is_whitespace (CHR '']'')"
  by (simp_all add: is_whitespace_def plain_char_def)

lemma trim_blank: "list_all is_whitespace s \<Longrightarrow> trim s = []"
  by (auto simp: trim_def trim_matches_def trim_start_matches_def trim_end_matches_def list_all_iff dest: set_dropWhileD)

subsection \<open>Arrays\<close>

definition array_body :: "string list \<Rightarrow> string" where
  "array_body items = concat (map (\<lambda>item. nl @ ''        '' @ item @ '','') items) @ nl @ ''    ''"

lemma render_array_body: "render_array_items items = ''['' @ array_body items @ '']''"
proof -
  have "nl @ concat (map (\<lambda>item. ''        '' @ item @ '','' @ nl) items) = concat (map (\<lambda>item. nl @ ''        '' @ item @ '','') items) @ nl"
    by (induction items) auto
  then show ?thesis by (simp add: render_array_items_def array_body_def)
qed

lemma array_items_piece:
  "list_all plain_char u \<Longrightarrow> CHR '','' \<notin> set u \<Longrightarrow>
   array_items 0 0 0 cur (u @ v) = array_items 0 0 0 (cur @ u) v"
  by (induction u arbitrary: cur) (auto simp: plain_char_def)

lemma trim_item: "item_ok i \<Longrightarrow> trim (nl @ ''        '' @ i) = i"
  using trim_pad [of "nl @ ''        ''" "[]" i] by (simp add: item_ok_def nl_def)

lemma item_nonempty: "item_ok i \<Longrightarrow> i \<noteq> []"
  by (simp add: item_ok_def)

lemma array_items_body: "list_all item_ok items \<Longrightarrow> array_items 0 0 0 [] (array_body items) = items"
proof (induction items)
  case Nil
  then show ?case
    using array_items_piece [of "nl @ ''    ''" "[]" "[]"] by (simp add: array_body_def nl_def trim_blank)
next
  case (Cons i items)
  have "array_items 0 0 0 [] ((nl @ ''        '' @ i) @ CHR '','' # array_body items) =
      array_items 0 0 0 (nl @ ''        '' @ i) (CHR '','' # array_body items)"
    using array_items_piece [of "nl @ ''        '' @ i" "[]"] Cons.prems by (simp add: item_ok_def nl_def)
  then show ?case
    using Cons trim_item [of i] item_nonempty [of i] by (simp add: array_body_def)
qed

lemma trim_render: "trim (u @ render_array_items items) = render_array_items items" if "list_all is_whitespace u"
  using trim_pad [OF that, of "[]" "render_array_items items"] by (simp add: render_array_body)

lemma parse_render_array: "list_all item_ok items \<Longrightarrow> parse_array_items (render_array_items items) = Inr items"
  using trim_render [of "[]" items] array_items_body [of items]
  by (simp add: parse_array_items_def Let_def render_array_body starts_with_def ends_with_def butlast_append)

subsection \<open>Fields\<close>

lemma plain_body: "list_all item_ok items \<Longrightarrow> list_all plain_char (array_body items)"
  by (induction items) (auto simp: array_body_def nl_def item_ok_def)

lemma scan_plain:
  "list_all plain_char u \<Longrightarrow> \<not> sc_in_string st \<Longrightarrow> \<not> at_top st \<Longrightarrow>
   scan_value st (u @ v) = map_prod ((@) u) id (scan_value st v)"
proof (induction u)
  case Nil
  then show ?case by (cases "scan_value st v") simp
next
  case (Cons c u)
  then have "scan_char st c = st" by (auto simp: scan_char_def plain_char_def)
  with Cons show ?case by (cases "scan_value st v") (simp add: ends_value_def)
qed

lemma scan_array:
  assumes "list_all item_ok items"
  shows "scan_value scan_start (CHR '' '' # render_array_items items @ CHR '','' # rest) =
    (CHR '' '' # render_array_items items, CHR '','' # rest)"
proof -
  let ?in = "scan_start\<lparr>sc_bracket := 1\<rparr>"
  have "scan_value ?in (array_body items @ CHR '']'' # CHR '','' # rest) =
      map_prod ((@) (array_body items)) id (scan_value ?in (CHR '']'' # CHR '','' # rest))"
    by (rule scan_plain [OF plain_body [OF assms]]) (simp_all add: scan_start_def at_top_def)
  then show ?thesis
    by (simp add: render_array_body ends_value_def scan_char_def scan_start_def at_top_def)
qed

lemma field_chars: "field_char c \<Longrightarrow> \<not> blank_char c \<and> c \<noteq> CHR '','' \<and> c \<noteq> CHR '':''"
  by (auto simp: field_char_def blank_char_def)

lemma parse_field:
  assumes "name_ok name" "list_all item_ok items"
  shows "parse_module_fields (nl @ ''    '' @ name @ '': '' @ render_array_items items @ '','' @ rest) =
    map_sum id ((#) (name, render_array_items items)) (parse_module_fields rest)"
proof -
  obtain c cs where name: "name = c # cs" "field_char c" "list_all field_char cs"
    using assms(1) by (cases name) (auto simp: name_ok_def)
  let ?b = "nl @ ''    '' @ name @ '': '' @ render_array_items items @ '','' @ rest"
  have skip: "dropWhile (\<lambda>c. blank_char c \<or> c = CHR '','') ?b =
      name @ CHR '':'' # CHR '' '' # render_array_items items @ CHR '','' # rest"
    using name field_chars by (simp add: nl_def blank_char_def)
  have take: "takeWhile field_char (name @ CHR '':'' # x) = name" "dropWhile field_char (name @ CHR '':'' # x) = CHR '':'' # x" for x
    using assms(1) by (auto simp: name_ok_def list_all_iff field_char_def takeWhile_append2 dropWhile_append2)
  have "trim (CHR '' '' # render_array_items items) = render_array_items items" using trim_render [of "'' ''" items] by simp
  then show ?thesis
    unfolding parse_module_fields.simps [of ?b] Let_def skip take
    using assms(1) by (simp add: name_ok_def blank_char_def scan_array [OF assms(2)] del: scan_value.simps)
qed

lemma parse_print_fields: "fields_ok fs \<Longrightarrow>
   parse_module_fields (print_fields fs) = Inr (map (\<lambda>(name, items). (name, render_array_items items)) fs)"
proof -
  have rest: "parse_module_fields (concat (map (\<lambda>(name, val). nl @ ''    '' @ name @ '': '' @ val @ '','') xs) @ nl) = Inr xs"
    if "xs = map (\<lambda>(name, items). (name, render_array_items items)) fs" "fields_ok fs" for xs fs
    using that
  proof (induction fs arbitrary: xs)
    case Nil
    then show ?case by (simp add: parse_module_fields.simps nl_def blank_char_def)
  next
    case (Cons f fs)
    then show ?case using parse_field by (cases f) (simp add: fields_ok_def)
  qed
  have shape: "nl @ concat (map (\<lambda>(name, val). ''    '' @ name @ '': '' @ val @ '','' @ nl) xs) =
      concat (map (\<lambda>(name, val). nl @ ''    '' @ name @ '': '' @ val @ '','') xs) @ nl" for xs
    by (induction xs) auto
  have lines: "map (\<lambda>(name, val). if CHR 0x0A \<in> set val then ''    '' @ name @ '': '' @ val @ '','' @ nl
        else ''    '' @ name @ '': '' @ trim val @ '','' @ nl) (map (\<lambda>(name, items). (name, render_array_items items)) fs) =
      map (\<lambda>(name, val). ''    '' @ name @ '': '' @ val @ '','' @ nl) (map (\<lambda>(name, items). (name, render_array_items items)) fs)"
    by (auto simp: render_array_items_def nl_def)
  assume ok: "fields_ok fs"
  show ?thesis
  proof (cases "fs = []")
    case True
    then show ?thesis by (simp add: print_fields_def render_module_fields_def parse_module_fields.simps)
  next
    case False
    then show ?thesis
      unfolding print_fields_def render_module_fields_def lines using rest [OF refl ok] shape by (simp del: map_map append.simps)
  qed
qed


subsection \<open>The body\<close>

lemma find_str_append: "find_str p u = Some k \<Longrightarrow> find_str p (u @ v) = Some k"
proof (induction u arbitrary: k)
  case Nil
  then show ?case by (cases v) (auto split: if_splits)
next
  case (Cons c u)
  show ?case
  proof (cases "starts_with (c # u) p")
    case True
    then have "starts_with ((c # u) @ v) p" unfolding starts_with_iff by (metis append.assoc)
    then show ?thesis using True Cons.prems by simp
  next
    case False
    then obtain j where j: "find_str p u = Some j" "k = Suc j" using Cons.prems by auto
    then have len: "length p + j \<le> length u"
    proof (induction u arbitrary: j k)
      case (Cons d u)
      show ?case
      proof (cases "starts_with (d # u) p")
        case True
        then show ?thesis using Cons.prems by (auto simp: starts_with_iff simp flip: append_Cons dest: arg_cong [of _ _ length])
      next
        case False
        then show ?thesis using Cons by (auto simp del: append.simps)
      qed
    qed (simp split: if_splits)
    have "\<not> starts_with ((c # u) @ v) p"
      using False len by (simp add: starts_with_def take_Cons' split: if_splits)
    then show ?thesis using Cons.IH [OF j(1)] j(2) by simp
  qed
qed

lemma closing_brace_skip:
  "CHR ''{'' \<notin> set u \<Longrightarrow> CHR ''}'' \<notin> set u \<Longrightarrow> closing_brace d (u @ v) = map_option ((+) (length u)) (closing_brace d v)"
  by (cases "closing_brace d v"; induction u) auto

lemma print_fields_braces: "fields_ok fs \<Longrightarrow> c \<in> {CHR ''{'', CHR ''}''} \<Longrightarrow> c \<notin> set (print_fields fs)"
proof (induction fs)
  case (Cons f fs)
  obtain name items where f: "f = (name, items)" by force
  have "list_all plain_char (array_body items)" "list_all field_char name"
    using plain_body [of items] Cons.prems(1) f by (simp_all add: fields_ok_def name_ok_def)
  moreover have "\<not> plain_char c" "\<not> field_char c" "c \<noteq> CHR ''['' \<and> c \<noteq> CHR '']'' \<and> c \<notin> set (nl @ ''    '') \<and> c \<notin> set '': '' \<and> c \<notin> set '',''"
    using Cons.prems(2) by (auto simp: plain_char_def field_char_def nl_def)
  ultimately have "c \<notin> set (render_array_items items)" "c \<notin> set name"
    by (auto simp: render_array_body list_all_iff)
  moreover have "print_fields (f # fs) = nl @ ''    '' @ name @ '': '' @ render_array_items items @ '','' @ (if fs = [] then nl else print_fields fs)"
    using f by (simp add: print_fields_def render_module_fields_def render_array_items_def nl_def)
  moreover have "c \<notin> set nl \<union> set ''    '' \<union> set '': '' \<union> set '',''" using Cons.prems(2) by (auto simp: nl_def)
  moreover have "fs = [] \<or> c \<notin> set (print_fields fs)" using Cons by (simp add: fields_ok_def)
  ultimately show ?case by auto
qed (simp add: print_fields_def render_module_fields_def)

lemma find_module_body_source:
  assumes "find_str module_marker (pre @ module_marker) = Some (length pre)" "fields_ok fs"
  shows "find_module_body (module_source pre fs post) = Inr (length pre + 10, length pre + 10 + length (print_fields fs))"
proof -
  have start: "find_str module_marker (module_source pre fs post) = Some (length pre)"
    using find_str_append [OF assms(1)] by (simp add: module_source_def)
  have brace: "find_str ''{'' (drop (length pre) (module_source pre fs post)) = Some 9"
    by (simp add: module_source_def module_marker_def starts_with_def)
  have "drop (length pre + 10) (module_source pre fs post) = print_fields fs @ CHR ''}'' # post"
    by (simp add: module_source_def module_marker_def)
  then have "closing_brace 1 (drop (length pre + 10) (module_source pre fs post)) = Some (length (print_fields fs))"
    using closing_brace_skip print_fields_braces [OF assms(2)] by (simp del: drop_append)
  then show ?thesis using start brace by (simp add: find_module_body_def Let_def add.commute add.left_commute)
qed

lemma upsert_add_item: "fields_ok fs \<Longrightarrow>
   upsert_field f item (map (\<lambda>(name, items). (name, render_array_items items)) fs) =
     Inr (map (\<lambda>(name, items). (name, render_array_items items)) (add_item f item fs))"
  by (induction fs) (auto simp: fields_ok_def parse_render_array)

lemma add_item_twice: "add_item f item (add_item f item fs) = add_item f item fs"
  by (induction fs) auto

lemma add_item_ok: "fields_ok fs \<Longrightarrow> name_ok f \<Longrightarrow> item_ok item \<Longrightarrow> fields_ok (add_item f item fs)"
  by (induction fs) (auto simp: fields_ok_def)

lemma upsert_source:
  assumes "find_str module_marker (pre @ module_marker) = Some (length pre)" "fields_ok fs"
  shows "upsert_module_metadata (module_source pre fs post) f item = Inr (module_source pre (add_item f item fs) post)"
proof -
  let ?s = "module_source pre fs post" and ?b = "print_fields fs"
  have len: "length pre + 10 + length ?b = length (pre @ module_marker @ ''{'' @ ?b)" "length pre + 10 = length (pre @ module_marker @ ''{'')"
    by (simp_all add: module_marker_def)
  have s: "?s = (pre @ module_marker @ ''{'' @ ?b) @ CHR ''}'' # post" "?s = (pre @ module_marker @ ''{'') @ ?b @ CHR ''}'' # post"
    by (simp_all add: module_source_def)
  have "take (length pre + 10 + length ?b) ?s = pre @ module_marker @ ''{'' @ ?b"
    "drop (length pre + 10 + length ?b) ?s = CHR ''}'' # post"
    unfolding len(1) s(1) by (rule append_eq_conv_conj [THEN iffD1, OF refl, THEN conjunct1, symmetric], rule append_eq_conv_conj [THEN iffD1, OF refl, THEN conjunct2, symmetric])
  moreover have "take (length pre + 10) ?s = pre @ module_marker @ ''{''"
    unfolding len(2) s(2) by (rule append_eq_conv_conj [THEN iffD1, OF refl, THEN conjunct1, symmetric])
  moreover have "drop (length pre + 10) (pre @ module_marker @ ''{'' @ ?b) = ?b" by (simp add: module_marker_def)
  ultimately show ?thesis
    unfolding upsert_module_metadata_def find_module_body_source [OF assms]
    by (simp add: parse_print_fields [OF assms(2)] upsert_add_item [OF assms(2)])
       (simp add: module_source_def print_fields_def)
qed



text \<open>A module written with carriage returns is refused.\<close>

lemma carriage_return_refused:
  "parse_module_fields (CHR 0x0D # s) = Inl ''failed to parse module metadata field name''"
  by (subst parse_module_fields.simps) (simp add: blank_char_def field_char_def less_eq_char_def)

end
