(* ===== verification/Cli_Generate.thy ===== *)
theory Cli_Generate
  imports Module_Edit "HOL-Library.Sublist"
begin

text \<open>
  The generators of the command line tool (\<open>nivasa-cli/src/main.rs\<close>) on a tree of files. A path is its components; the
  tree maps absolute names to files and directories. Symbolic links, permissions and encodings are outside the model; the
  text of an error of the operating system is an argument.
\<close>

section \<open>Paths and files\<close>

datatype PathComponent = RootDir | CurDir | ParentDir | Normal string

type_synonym Path = "PathComponent list"

datatype FileNode = Directory | File string

type_synonym FileTree = "string list \<rightharpoonup> FileNode"

definition is_absolute :: "Path \<Rightarrow> bool" where
  "is_absolute p \<longleftrightarrow> p \<noteq> [] \<and> hd p = RootDir"

definition path_join :: "Path \<Rightarrow> Path \<Rightarrow> Path" where
  "path_join base p = (if is_absolute p then p else base @ p)"

fun component_text :: "PathComponent \<Rightarrow> string" where
  "component_text RootDir = []"
| "component_text CurDir = ''.''"
| "component_text ParentDir = ''..''"
| "component_text (Normal s) = s"

definition show_path :: "Path \<Rightarrow> string" where
  "show_path p = (if p = [RootDir] then ''/'' else join ''/'' (map component_text p))"

fun walk :: "string list \<Rightarrow> Path \<Rightarrow> string list" where
  "walk at [] = at"
| "walk at (RootDir # p) = walk [] p"
| "walk at (CurDir # p) = walk at p"
| "walk at (ParentDir # p) = walk (butlast at) p"
| "walk at (Normal s # p) = walk (at @ [s]) p"

definition file_key :: "Path \<Rightarrow> string list" where
  "file_key p = walk [] p"

definition path_exists :: "FileTree \<Rightarrow> Path \<Rightarrow> bool" where
  "path_exists files p \<longleftrightarrow> file_key p = [] \<or> files (file_key p) \<noteq> None"

definition file_at :: "FileTree \<Rightarrow> Path \<Rightarrow> string option" where
  "file_at files p = (case files (file_key p) of Some (File t) \<Rightarrow> Some t | _ \<Rightarrow> None)"

definition create_dir_all :: "FileTree \<Rightarrow> Path \<Rightarrow> FileTree option" where
  "create_dir_all files p =
     (if list_ex (\<lambda>k. case files k of Some (File _) \<Rightarrow> True | _ \<Rightarrow> False) (prefixes (file_key p)) then None
      else Some (\<lambda>k. if k \<in> set (prefixes (file_key p)) then Some Directory else files k))"

definition write_file :: "FileTree \<Rightarrow> Path \<Rightarrow> string \<Rightarrow> FileTree option" where
  "write_file files p text =
     (if file_key p = [] \<or> files (file_key p) = Some Directory \<or> (butlast (file_key p) \<noteq> [] \<and> files (butlast (file_key p)) \<noteq> Some Directory) then None
      else Some (files(file_key p \<mapsto> File text)))"

definition remove_file :: "FileTree \<Rightarrow> Path \<Rightarrow> FileTree" where
  "remove_file files p = (case files (file_key p) of Some (File _) \<Rightarrow> files(file_key p := None) | _ \<Rightarrow> files)"

definition write_project_file :: "(Path \<Rightarrow> string) \<Rightarrow> FileTree \<Rightarrow> Path \<Rightarrow> string \<Rightarrow> string + FileTree" where
  "write_project_file os files p contents =
     (case write_file files p contents of
        None \<Rightarrow> Inl (''failed to write '' @ show_path p @ '': '' @ os p)
      | Some files' \<Rightarrow> Inr files')"

section \<open>Names\<close>

definition normalize_char :: "char \<Rightarrow> char" where
  "normalize_char c =
     (if CHR ''A'' \<le> c \<and> c \<le> CHR ''Z'' then ascii_lower_char c
      else if CHR ''a'' \<le> c \<and> c \<le> CHR ''z'' \<or> CHR ''0'' \<le> c \<and> c \<le> CHR ''9'' then c
      else CHR ''_'')"

definition normalize_generator_name :: "string \<Rightarrow> string + string" where
  "normalize_generator_name name =
     (let normalized = trim_matches (\<lambda>c. c = CHR ''_'') (map normalize_char (trim name)) in
      if normalized = [] then Inl ''name cannot be empty'' else Inr normalized)"

definition cli_pascal_case :: "string \<Rightarrow> string" where
  "cli_pascal_case name =
     concat (map (\<lambda>segment. case segment of [] \<Rightarrow> [] | c # cs \<Rightarrow> ascii_upper_char c # cs)
       (filter (\<lambda>segment. segment \<noteq> []) (split_on CHR ''_'' name)))"

definition generated_type_name :: "string \<Rightarrow> string \<Rightarrow> string + string" where
  "generated_type_name name sfx = map_sum id (\<lambda>n. cli_pascal_case n @ sfx) (normalize_generator_name name)"

section \<open>Templates\<close>

definition text_lines :: "string list \<Rightarrow> string" where
  "text_lines ls = concat (map (\<lambda>l. l @ nl) ls)"

definition in_quotes :: "string \<Rightarrow> string" where
  "in_quotes s = quote_mark @ s @ quote_mark"

definition static_str :: string where
  "static_str = ''&'' @ [CHR 0x27] @ ''static str''"

definition prelude_line :: string where
  "prelude_line = ''use nivasa::prelude::*;''"

definition new_project_cargo_toml :: "string \<Rightarrow> string" where
  "new_project_cargo_toml project_name = text_lines
     [''[package]'', ''name = '' @ in_quotes project_name, ''version = '' @ in_quotes ''0.1.0'', ''edition = '' @ in_quotes ''2024'', [],
      ''[dependencies]'', ''nivasa = { path = '' @ in_quotes ''../nivasa'' @ '', features = ['' @ in_quotes ''config'' @ ''] }'']"

definition new_project_main_rs :: string where
  "new_project_main_rs = text_lines
     [''mod app_module;'', [], ''use app_module::AppModule;'', prelude_line, [], ''fn main() {'',
      ''    let _app = NestApplication::create(AppModule);'', ''}'']"

definition new_project_app_module_rs :: string where
  "new_project_app_module_rs = text_lines [prelude_line, [], ''#[module({})]'', ''pub struct AppModule;'']"

definition new_module_template :: "string \<Rightarrow> string \<Rightarrow> string" where
  "new_module_template module_name struct_name = text_lines
     [prelude_line, [], ''#[module({})]'', ''pub struct '' @ struct_name @ ''Module;'', [],
      ''impl '' @ struct_name @ ''Module {'', ''    pub const PATH: '' @ static_str @ '' = '' @ in_quotes module_name @ '';'', ''}'']"

definition new_controller_template :: "string \<Rightarrow> string \<Rightarrow> string" where
  "new_controller_template controller_name struct_name = text_lines
     [prelude_line, [], ''#[controller('' @ in_quotes (''/'' @ controller_name) @ '')]'', ''pub struct '' @ struct_name @ ''Controller;'', [],
      ''#[impl_controller]'', ''impl '' @ struct_name @ ''Controller {'', ''    #[get('' @ in_quotes ''/'' @ '')]'',
      ''    pub fn list(&self) -> '' @ static_str @ '' {'', ''        '' @ in_quotes controller_name, ''    }'', ''}'']"

text \<open>The templates of services, guards, interceptors, pipes, filters and middleware differ in the suffix of the type.\<close>

definition injectable_template :: "string \<Rightarrow> string \<Rightarrow> string \<Rightarrow> string" where
  "injectable_template sfx item_name struct_name = text_lines
     [prelude_line, [], ''#[injectable]'', ''pub struct '' @ struct_name @ sfx @ '';'', [],
      ''impl '' @ struct_name @ sfx @ '' {'', ''    pub const NAME: '' @ static_str @ '' = '' @ in_quotes item_name @ '';'', ''}'']"

definition new_service_template :: "string \<Rightarrow> string \<Rightarrow> string" where
  "new_service_template = injectable_template ''Service''"

definition new_guard_template :: "string \<Rightarrow> string \<Rightarrow> string" where
  "new_guard_template = injectable_template ''Guard''"

definition new_interceptor_template :: "string \<Rightarrow> string \<Rightarrow> string" where
  "new_interceptor_template = injectable_template ''Interceptor''"

definition new_pipe_template :: "string \<Rightarrow> string \<Rightarrow> string" where
  "new_pipe_template = injectable_template ''Pipe''"

definition new_filter_template :: "string \<Rightarrow> string \<Rightarrow> string" where
  "new_filter_template = injectable_template ''Filter''"

definition new_middleware_template :: "string \<Rightarrow> string \<Rightarrow> string" where
  "new_middleware_template = injectable_template ''Middleware''"

definition new_create_dto_template :: "string \<Rightarrow> string" where
  "new_create_dto_template resource_pascal = text_lines
     [''use serde::Deserialize;'', [], ''#[derive(Debug, Clone, Deserialize)]'', ''pub struct Create'' @ resource_pascal @ ''Dto {'',
      ''    pub name: String,'', ''}'']"

definition new_update_dto_template :: "string \<Rightarrow> string" where
  "new_update_dto_template resource_pascal = text_lines
     [''use serde::Deserialize;'', [], ''#[derive(Debug, Clone, Default, Deserialize)]'', ''pub struct Update'' @ resource_pascal @ ''Dto {'',
      ''    pub name: Option<String>,'', ''}'']"


section \<open>Generators\<close>

text \<open>
  \<open>generate_module\<close>, \<open>generate_controller\<close> and \<open>generate_service\<close> are \<open>generate_named_file\<close> written out; their
  messages differ only in the word.
\<close>

definition generated_path :: "Path \<Rightarrow> string \<Rightarrow> string \<Rightarrow> Path" where
  "generated_path base n sfx = base @ [Normal n, Normal (n @ ''_'' @ sfx @ ''.rs'')]"

definition generate_named_file ::
  "(Path \<Rightarrow> string) \<Rightarrow> Path \<Rightarrow> string \<Rightarrow> string \<Rightarrow> (string \<Rightarrow> string \<Rightarrow> string) \<Rightarrow> FileTree \<Rightarrow> (string + Path) \<times> FileTree" where
  "generate_named_file os base name sfx template files =
     (case normalize_generator_name name of
        Inl e \<Rightarrow> (Inl e, files)
      | Inr n \<Rightarrow>
          (case create_dir_all files (base @ [Normal n]) of
             None \<Rightarrow> (Inl (''failed to create '' @ sfx @ '' directory: '' @ os (base @ [Normal n])), files)
           | Some files1 \<Rightarrow>
               let file = generated_path base n sfx in
               if path_exists files1 file then (Inl (sfx @ '' file already exists: '' @ show_path file), files1)
               else (case write_project_file os files1 file (template n (cli_pascal_case n)) of
                  Inl e \<Rightarrow> (Inl e, files1)
                | Inr files2 \<Rightarrow> (Inr file, files2))))"

definition generate_module where
  "generate_module os base name = generate_named_file os base name ''module'' new_module_template"

definition generate_controller where
  "generate_controller os base name = generate_named_file os base name ''controller'' new_controller_template"

definition generate_service where
  "generate_service os base name = generate_named_file os base name ''service'' new_service_template"

definition generate_guard where
  "generate_guard os base name = generate_named_file os base name ''guard'' new_guard_template"

definition generate_interceptor where
  "generate_interceptor os base name = generate_named_file os base name ''interceptor'' new_interceptor_template"

definition generate_pipe where
  "generate_pipe os base name = generate_named_file os base name ''pipe'' new_pipe_template"

definition generate_filter where
  "generate_filter os base name = generate_named_file os base name ''filter'' new_filter_template"

definition generate_middleware where
  "generate_middleware os base name = generate_named_file os base name ''middleware'' new_middleware_template"

fun write_all :: "(Path \<Rightarrow> string) \<Rightarrow> (Path \<times> string) list \<Rightarrow> FileTree \<Rightarrow> (string + unit) \<times> FileTree" where
  "write_all os [] files = (Inr (), files)"
| "write_all os ((p, contents) # ps) files =
     (case write_project_file os files p contents of
        Inl e \<Rightarrow> (Inl e, files)
      | Inr files' \<Rightarrow> write_all os ps files')"

definition resource_files :: "Path \<Rightarrow> string \<Rightarrow> (Path \<times> string) list" where
  "resource_files dir n =
     (let dto_dir = dir @ [Normal ''dto'']; resource_pascal = cli_pascal_case n in
      [(dir @ [Normal (n @ ''_module.rs'')], new_module_template n resource_pascal),
       (dir @ [Normal (n @ ''_controller.rs'')], new_controller_template n resource_pascal),
       (dir @ [Normal (n @ ''_service.rs'')], new_service_template n resource_pascal),
       (dto_dir @ [Normal (''create_'' @ n @ ''_dto.rs'')], new_create_dto_template resource_pascal),
       (dto_dir @ [Normal (''update_'' @ n @ ''_dto.rs'')], new_update_dto_template resource_pascal)])"

definition generate_resource :: "(Path \<Rightarrow> string) \<Rightarrow> Path \<Rightarrow> string \<Rightarrow> FileTree \<Rightarrow> (string + Path) \<times> FileTree" where
  "generate_resource os base name files =
     (case normalize_generator_name name of
        Inl e \<Rightarrow> (Inl e, files)
      | Inr n \<Rightarrow>
          let dir = base @ [Normal n] in
          (case create_dir_all files (dir @ [Normal ''dto'']) of
             None \<Rightarrow> (Inl (''failed to create resource directory: '' @ os (dir @ [Normal ''dto''])), files)
           | Some files1 \<Rightarrow>
               (case find (path_exists files1 \<circ> fst) (resource_files dir n) of
                  Some (p, _) \<Rightarrow> (Inl (''resource file already exists: '' @ show_path p), files1)
                | None \<Rightarrow>
                    (case write_all os (resource_files dir n) files1 of
                       (Inl e, files2) \<Rightarrow> (Inl e, files2)
                     | (Inr _, files2) \<Rightarrow> (Inr dir, files2)))))"

text \<open>A new project; \<open>charts\<close> are the four documents compiled into the tool, in the order they are written.\<close>

definition project_files :: "(string \<times> string) list \<Rightarrow> string \<Rightarrow> Path \<Rightarrow> (Path \<times> string) list" where
  "project_files charts project_name dir =
     [(dir @ [Normal ''Cargo.toml''], new_project_cargo_toml project_name),
      (dir @ [Normal ''.env''], ''PORT=3000'' @ nl),
      (dir @ [Normal ''.gitignore''], ''/target'' @ nl @ ''.env.local'' @ nl),
      (dir @ [Normal ''src'', Normal ''main.rs''], new_project_main_rs),
      (dir @ [Normal ''src'', Normal ''app_module.rs''], new_project_app_module_rs)]
     @ map (\<lambda>(chart, text). (dir @ [Normal ''statecharts'', Normal chart], text)) charts"

definition scaffold_new_project ::
  "(Path \<Rightarrow> string) \<Rightarrow> (string \<Rightarrow> Path) \<Rightarrow> (string \<times> string) list \<Rightarrow> Path \<Rightarrow> string \<Rightarrow> FileTree \<Rightarrow> (string + unit) \<times> FileTree" where
  "scaffold_new_project os parse_path charts base name files =
     (let project_name = trim name in
      if project_name = [] then (Inl ''project name cannot be empty'', files)
      else
        let dir = path_join base (parse_path project_name) in
        if path_exists files dir then (Inl (''project directory already exists: '' @ show_path dir), files)
        else (case create_dir_all files (dir @ [Normal ''src'']) of
            None \<Rightarrow> (Inl (''failed to create src directory: '' @ os (dir @ [Normal ''src''])), files)
          | Some files1 \<Rightarrow>
              (case create_dir_all files1 (dir @ [Normal ''statecharts'']) of
                 None \<Rightarrow> (Inl (''failed to create statecharts directory: '' @ os (dir @ [Normal ''statecharts''])), files1)
               | Some files2 \<Rightarrow> write_all os (project_files charts project_name dir) files2)))"

section \<open>Registration in a module\<close>

definition resolve_target_file :: "FileTree \<Rightarrow> Path \<Rightarrow> Path \<Rightarrow> string + Path" where
  "resolve_target_file files base target =
     (let resolved = path_join base target in
      if file_at files resolved = None then Inl (''module file not found: '' @ show_path resolved) else Inr resolved)"

fun common_prefix :: "'a list \<Rightarrow> 'a list \<Rightarrow> nat" where
  "common_prefix (x # xs) (y # ys) = (if x = y then Suc (common_prefix xs ys) else 0)"
| "common_prefix _ _ = 0"

definition relative_components :: "Path \<Rightarrow> Path \<Rightarrow> Path" where
  "relative_components from_abs to_abs =
     (let common = common_prefix from_abs to_abs in
      concat (map (\<lambda>c. case c of Normal _ \<Rightarrow> [ParentDir] | _ \<Rightarrow> []) (drop common from_abs)) @ drop common to_abs)"

definition slashes :: "string \<Rightarrow> string" where
  "slashes = map (\<lambda>c. if c = CHR 0x5C then CHR ''/'' else c)"

text \<open>\<open>cwd\<close> is the current directory.\<close>

definition relative_path_string :: "Path \<Rightarrow> Path \<Rightarrow> Path \<Rightarrow> string" where
  "relative_path_string cwd from_dir to_file =
     (let from_abs = path_join cwd from_dir; to_abs = path_join cwd to_file in
      if common_prefix from_abs to_abs = 0 then slashes (show_path to_abs)
      else slashes (show_path (relative_components from_abs to_abs)))"

definition file_stem :: "string \<Rightarrow> string" where
  "file_stem name =
     (let parts = split_on CHR ''.'' name in
      if name = ''..'' \<or> length parts = 1 \<or> (length parts = 2 \<and> hd parts = []) then name else join ''.'' (butlast parts))"

definition file_name :: "Path \<Rightarrow> string option" where
  "file_name p = (if p = [] then None else case last p of Normal s \<Rightarrow> Some s | _ \<Rightarrow> None)"

definition register_generated_item ::
  "(Path \<Rightarrow> string) \<Rightarrow> Path \<Rightarrow> Path \<Rightarrow> Path \<Rightarrow> string \<Rightarrow> string \<Rightarrow> FileTree \<Rightarrow> (string + unit) \<times> FileTree" where
  "register_generated_item os cwd target generated type_name module_field files =
     (case map_option file_stem (file_name generated) of
        None \<Rightarrow> (Inl (''invalid generated file name: '' @ show_path generated), files)
      | Some module_ident \<Rightarrow>
          if target = [] \<or> target = [RootDir] then (Inl (''module file has no parent: '' @ show_path target), files)
          else (case file_at files target of
              None \<Rightarrow> (Inl (''failed to read '' @ show_path target @ '': '' @ os target), files)
            | Some source \<Rightarrow>
                (case upsert_module_metadata
                    (ensure_import_block source (relative_path_string cwd (butlast target) generated) module_ident type_name)
                    module_field type_name of
                   Inl e \<Rightarrow> (Inl e, files)
                 | Inr source' \<Rightarrow>
                     (case write_file files target source' of
                        None \<Rightarrow> (Inl (''failed to write '' @ show_path target @ '': '' @ os target), files)
                      | Some files' \<Rightarrow> (Inr (), files')))))"

text \<open>
  The commands for modules, controllers and services. A failed registration removes the generated file; the look-up of
  the module file returns before that.
\<close>

definition generate_command ::
  "(Path \<Rightarrow> string) \<Rightarrow> Path \<Rightarrow> string \<Rightarrow> string \<Rightarrow> (string \<Rightarrow> string \<Rightarrow> string) \<Rightarrow> string \<Rightarrow> string \<Rightarrow> Path option \<Rightarrow> FileTree \<Rightarrow>
   (string + Path) \<times> FileTree" where
  "generate_command os cwd name sfx template type_suffix module_field module_file files =
     (case generate_named_file os cwd name sfx template files of
        (Inl e, files1) \<Rightarrow> (Inl e, files1)
      | (Inr p, files1) \<Rightarrow>
          (case module_file of
             None \<Rightarrow> (Inr p, files1)
           | Some target \<Rightarrow>
               (case resolve_target_file files1 cwd target of
                  Inl e \<Rightarrow> (Inl e, files1)
                | Inr resolved \<Rightarrow>
                    (case generated_type_name name type_suffix of
                       Inl e \<Rightarrow> (Inl e, files1)
                     | Inr type_name \<Rightarrow>
                         (case register_generated_item os cwd resolved p type_name module_field files1 of
                            (Inl err, files2) \<Rightarrow> (Inl err, remove_file files2 p)
                          | (Inr _, files2) \<Rightarrow> (Inr p, files2))))))"

definition generate_module_command where
  "generate_module_command os cwd name = generate_command os cwd name ''module'' new_module_template ''Module'' ''imports''"

definition generate_controller_command where
  "generate_controller_command os cwd name =
     generate_command os cwd name ''controller'' new_controller_template ''Controller'' ''controllers''"

definition generate_service_command where
  "generate_service_command os cwd name =
     generate_command os cwd name ''service'' new_service_template ''Service'' ''providers''"


section \<open>Relative paths\<close>

lemma walk_append: "walk at (p @ q) = walk (walk at p) q"
  by (induction at p rule: walk.induct) auto

lemma walk_normal: "walk at (map Normal xs) = at @ xs"
  by (induction xs arbitrary: at) auto

lemma walk_up: "walk (at @ xs) (concat (map (\<lambda>c. case c of Normal _ \<Rightarrow> [ParentDir] | _ \<Rightarrow> []) (map Normal xs))) = at"
proof -
  have "concat (map (\<lambda>c. case c of Normal _ \<Rightarrow> [ParentDir] | _ \<Rightarrow> []) (map Normal xs)) = replicate (length xs) ParentDir"
    by (induction xs) auto
  moreover have "walk (at @ xs) (replicate (length xs) ParentDir) = at"
    by (induction xs rule: rev_induct) (simp_all add: butlast_append flip: append_assoc)
  ultimately show ?thesis by simp
qed

lemma common_prefix_split:
  "\<exists>c xs ys. from_abs = c @ xs \<and> to_abs = c @ ys \<and> common_prefix from_abs to_abs = length c"
proof (induction from_abs to_abs rule: common_prefix.induct)
  case (1 x xs y ys)
  show ?case
  proof (cases "x = y")
    case True
    with 1 obtain c us vs where "xs = c @ us" "ys = c @ vs" "common_prefix xs ys = length c" by blast
    then show ?thesis using True by (intro exI [of _ "x # c"] exI [of _ us] exI [of _ vs]) simp
  qed simp
qed auto

lemma common_prefix_names: "common_prefix (map Normal xs) (map Normal ys) = common_prefix xs ys"
  by (induction xs ys rule: common_prefix.induct) auto

text \<open>The path the tool writes into \<open>#[path = ...]\<close> leads from the directory of the module file to the generated file.\<close>

theorem relative_path_leads:
  "file_key ((RootDir # map Normal ss) @ relative_components (RootDir # map Normal ss) (RootDir # map Normal ts)) =
   file_key (RootDir # map Normal ts)"
proof -
  obtain cs xs ys where names: "ss = cs @ xs" "ts = cs @ ys" "common_prefix ss ts = length cs"
    using common_prefix_split [of "ss" "ts"] by blast
  let ?ups = "concat (map (\<lambda>c. case c of Normal _ \<Rightarrow> [ParentDir] | _ \<Rightarrow> []) (map Normal xs))"
  have "relative_components (RootDir # map Normal ss) (RootDir # map Normal ts) = ?ups @ map Normal ys"
  proof -
    have "common_prefix (map Normal ss) (map Normal ts) = length cs" using names(3) by (simp only: common_prefix_names)
    then show ?thesis by (simp add: relative_components_def Let_def) (simp add: names(1,2))
  qed
  moreover have "walk [] (RootDir # map Normal ss) = cs @ xs" using walk_normal [of "[]" ss] names(1) by simp
  ultimately have "file_key ((RootDir # map Normal ss) @ relative_components (RootDir # map Normal ss) (RootDir # map Normal ts))
      = walk (walk (cs @ xs) ?ups) (map Normal ys)"
    by (simp only: file_key_def walk_append)
  also have "\<dots> = ts" unfolding walk_up walk_normal using names(2) by simp
  also have "\<dots> = file_key (RootDir # map Normal ts)" by (simp add: file_key_def walk_normal)
  finally show ?thesis .
qed

section \<open>What a command changes\<close>

definition same_files :: "FileTree \<Rightarrow> FileTree \<Rightarrow> bool" where
  "same_files files files' \<longleftrightarrow> (\<forall>k t. files k = Some (File t) \<longleftrightarrow> files' k = Some (File t))"

lemma create_dir_all_same: "create_dir_all files p = Some files' \<Longrightarrow> same_files files files'"
  by (fastforce simp: create_dir_all_def same_files_def list_ex_iff split: if_splits option.splits FileNode.splits)

lemma file_at_Some: "file_at files p = Some t \<longleftrightarrow> files (file_key p) = Some (File t)"
  by (auto simp: file_at_def split: option.splits FileNode.splits)

lemma same_files_at: "same_files files files' \<Longrightarrow> file_at files' p = file_at files p"
proof -
  assume "same_files files files'"
  then have "file_at files' p = Some t \<longleftrightarrow> file_at files p = Some t" for t
    by (simp add: file_at_Some same_files_def)
  then show ?thesis by (metis not_None_eq)
qed

lemma write_file_Some: "write_file files p t = Some files' \<Longrightarrow> files' = files(file_key p \<mapsto> File t)"
  by (auto simp: write_file_def split: if_splits)

lemma generate_named_file_cases:
  assumes "generate_named_file os base name sfx template files = (r, files')"
  shows "(\<exists>e. r = Inl e \<and> same_files files files') \<or>
    (\<exists>n dirs. r = Inr (generated_path base n sfx) \<and> normalize_generator_name name = Inr n \<and> same_files files dirs \<and>
       dirs (file_key (generated_path base n sfx)) = None \<and>
       files' = dirs(file_key (generated_path base n sfx) \<mapsto> File (template n (cli_pascal_case n))))"
proof (cases "normalize_generator_name name")
  case (Inl e)
  then show ?thesis using assms by (auto simp: generate_named_file_def same_files_def)
next
  case (Inr n)
  show ?thesis
  proof (cases "create_dir_all files (base @ [Normal n])")
    case None
    then show ?thesis using assms Inr by (auto simp: generate_named_file_def same_files_def)
  next
    case (Some dirs)
    note same = create_dir_all_same [OF Some]
    show ?thesis
      using assms Inr Some same
      by (auto simp: generate_named_file_def Let_def write_project_file_def path_exists_def
          dest!: write_file_Some split: if_splits option.splits)
  qed
qed

lemma register_cases:
  assumes "register_generated_item os cwd target generated type_name field files = (r, files')"
  shows "(\<exists>e. r = Inl e \<and> files' = files) \<or>
    (\<exists>source source' module_ident. r = Inr () \<and> map_option file_stem (file_name generated) = Some module_ident \<and>
       file_at files target = Some source \<and>
       upsert_module_metadata
         (ensure_import_block source (relative_path_string cwd (butlast target) generated) module_ident type_name) field type_name
         = Inr source' \<and>
       files' = files(file_key target \<mapsto> File source'))"
  using assms
  by (auto simp: register_generated_item_def dest!: write_file_Some split: option.splits sum.splits if_splits)

text \<open>C37: what a generator command with a module file leaves behind. No existing file is overwritten except the module
  file, and that only when the command succeeds; on success the new file has the template and the module file is its old
  text with the import lines and the item added. A failure leaves no new file either, unless the module file is missing:
  then the generated file stays.\<close>

theorem generate_command_outcome:
  assumes "generate_command os cwd name sfx template type_suffix field (Some target) files = (r, files')"
  defines "resolved \<equiv> path_join cwd target"
  shows "(\<forall>k t. files k = Some (File t) \<and> files' k \<noteq> Some (File t) \<longrightarrow> \<not> isl r \<and> k = file_key resolved) \<and>
    (\<forall>p. r = Inr p \<and> file_key p \<noteq> file_key resolved \<longrightarrow>
       (\<exists>n source source' module_ident.
          normalize_generator_name name = Inr n \<and> p = generated_path cwd n sfx \<and> file_at files p = None \<and>
          file_at files' p = Some (template n (cli_pascal_case n)) \<and> file_at files resolved = Some source \<and>
          upsert_module_metadata
            (ensure_import_block source (relative_path_string cwd (butlast resolved) p) module_ident (cli_pascal_case n @ type_suffix))
            field (cli_pascal_case n @ type_suffix) = Inr source' \<and>
          file_at files' resolved = Some source')) \<and>
    (isl r \<and> file_at files' resolved \<noteq> None \<longrightarrow> same_files files files')"
proof -
  obtain r1 files1 where g: "generate_named_file os cwd name sfx template files = (r1, files1)" by force
  from generate_named_file_cases [OF g]
  consider (failed) e where "r1 = Inl e" "same_files files files1"
    | (made) n dirs where "r1 = Inr (generated_path cwd n sfx)" "normalize_generator_name name = Inr n" "same_files files dirs"
        "dirs (file_key (generated_path cwd n sfx)) = None"
        "files1 = dirs(file_key (generated_path cwd n sfx) \<mapsto> File (template n (cli_pascal_case n)))"
    by blast
  then show ?thesis
  proof cases
    case failed
    then have "r = Inl e" "files' = files1" using assms(1) g by (simp_all add: generate_command_def)
    then show ?thesis using failed(2) by (auto simp: same_files_def)
  next
    case made
    let ?p = "generated_path cwd n sfx" and ?ty = "cli_pascal_case n @ type_suffix"
    have fresh: "files (file_key ?p) \<noteq> Some (File t)" for t using made(3,4) by (simp add: same_files_def)
    have kept: "files1 k = Some (File t)" if "files k = Some (File t)" for k t
      using that made(3,5) fresh by (auto simp: same_files_def)
    have ty: "generated_type_name name type_suffix = Inr ?ty" using made(2) by (simp add: generated_type_name_def)
    show ?thesis
    proof (cases "file_at files1 resolved")
      case None
      then have "r = Inl (''module file not found: '' @ show_path resolved)" "files' = files1"
        using assms(1) g made(1) by (simp_all add: generate_command_def resolve_target_file_def resolved_def Let_def)
      then show ?thesis using None kept by auto
    next
      case (Some source)
      obtain r2 files2 where reg: "register_generated_item os cwd resolved ?p ?ty field files1 = (r2, files2)" by force
      have run: "(r, files') = (case r2 of Inl err \<Rightarrow> (Inl err, remove_file files2 ?p) | Inr _ \<Rightarrow> (Inr ?p, files2))"
        using assms(1) g made(1) Some reg ty
        by (simp add: generate_command_def resolve_target_file_def resolved_def Let_def split: sum.splits)
      from register_cases [OF reg] consider
        (refused) e where "r2 = Inl e" "files2 = files1"
        | (written) source' module_ident where "r2 = Inr ()"
            "upsert_module_metadata
              (ensure_import_block source (relative_path_string cwd (butlast resolved) ?p) module_ident ?ty) field ?ty = Inr source'"
            "files2 = files1(file_key resolved \<mapsto> File source')"
        using Some by auto
      then show ?thesis
      proof cases
        case refused
        then have "r = Inl e" "files' = dirs" using run made(4,5) by (auto simp: remove_file_def)
        then show ?thesis using made(3) by (auto simp: same_files_def)
      next
        case written
        then have r: "r = Inr ?p" "files' = files1(file_key resolved \<mapsto> File source')" using run by simp_all
        have "file_at files resolved = Some source" if "file_key ?p \<noteq> file_key resolved"
          using Some that made(5) same_files_at [OF made(3), of resolved] by (simp add: file_at_def)
        moreover have "file_at files ?p = None" using fresh by (auto simp: file_at_def split: option.splits FileNode.splits)
        ultimately show ?thesis
          using r written(2) made(2,5) kept by (auto simp: file_at_def)
      qed
    qed
  qed
qed


definition demo_files :: FileTree where
  "demo_files = [[''app''] \<mapsto> Directory, [''app'', ''m.rs''] \<mapsto> File (module_source [] [] '')]'')]"

text \<open>\<open>nivasa generate service Users --module-file m.rs\<close> in the directory \<open>/app\<close>.\<close>

theorem generate_command_outcome_witness:
  "\<exists>files'. generate_service_command (\<lambda>_. []) [RootDir, Normal ''app''] ''Users'' (Some [Normal ''m.rs'']) demo_files =
     (Inr [RootDir, Normal ''app'', Normal ''users'', Normal ''users_service.rs''], files') \<and>
     file_at files' [RootDir, Normal ''app'', Normal ''users'', Normal ''users_service.rs''] =
       Some (new_service_template ''users'' ''Users'')"
proof -
  let ?run = "generate_command (\<lambda>_. []) [RootDir, Normal ''app''] ''Users'' ''service'' new_service_template ''Service''
    ''providers'' (Some [Normal ''m.rs'']) demo_files"
  let ?p = "[RootDir, Normal ''app'', Normal ''users'', Normal ''users_service.rs'']"
  have "fst ?run = Inr ?p" by code_simp
  then obtain files' where run: "?run = (Inr ?p, files')" by (metis prod.collapse)
  have "file_key ?p \<noteq> file_key (path_join [RootDir, Normal ''app''] [Normal ''m.rs''])"
    "normalize_generator_name ''Users'' = Inr ''users''" "cli_pascal_case ''users'' = ''Users''"
    by code_simp+
  then have "file_at files' ?p = Some (new_service_template ''users'' ''Users'')"
    using generate_command_outcome [OF run] by auto
  then show ?thesis using run by (simp add: generate_service_command_def)
qed

text \<open>The generated file that stays when the module file is missing.\<close>

lemma missing_module_leaves_file:
  assumes "generate_named_file os cwd name sfx template files = (Inr p, files1)" "file_at files1 (path_join cwd target) = None"
  shows "generate_command os cwd name sfx template type_suffix field (Some target) files =
    (Inl (''module file not found: '' @ show_path (path_join cwd target)), files1)"
  using assms by (simp add: generate_command_def resolve_target_file_def Let_def)

lemma digits_make_no_identifier: "generated_type_name ''2fa'' ''Service'' = Inr ''2faService''"
  by code_simp

end
