(* ===== verification/Openapi.thy ===== *)
theory Openapi
  imports Application
begin

text \<open>
  The OpenAPI document of an application (\<open>nivasa/src/openapi.rs\<close>), its JSON form (\<open>nivasa/src/application.rs\<close>) and the
  page that shows it. A \<open>BTreeMap\<close> is the list of its entries in the order of the keys.
\<close>

section \<open>Ordered maps\<close>

fun bt_insert :: "string \<Rightarrow> 'v \<Rightarrow> (string \<times> 'v) list \<Rightarrow> (string \<times> 'v) list" where
  "bt_insert k v [] = [(k, v)]"
| "bt_insert k v ((k', v') # m) =
     (if k = k' then (k, v) # m else if k < k' then (k, v) # (k', v') # m else (k', v') # bt_insert k v m)"

text \<open>\<open>collect\<close>: a later entry replaces an earlier one.\<close>

definition bt_collect :: "(string \<times> 'v) list \<Rightarrow> (string \<times> 'v) list" where
  "bt_collect xs = fold (\<lambda>(k, v). bt_insert k v) xs []"

definition bt_or_insert :: "string \<Rightarrow> 'v \<Rightarrow> (string \<times> 'v) list \<Rightarrow> (string \<times> 'v) list" where
  "bt_or_insert k v m = (if map_of m k = None then bt_insert k v m else m)"

section \<open>Documents\<close>

record OpenApiInfo =
  oi_title :: string
  oi_version :: string

record OpenApiSecurityScheme =
  oss_type :: string
  oss_scheme :: string
  oss_bearer_format :: "string option"

record OpenApiParameter =
  op_name :: string
  op_location :: string
  op_description :: string
  op_required :: bool
  op_schema_type :: string

text \<open>A media type is its schema reference.\<close>

record OpenApiRequestBody =
  orb_required :: bool
  orb_content :: "(string \<times> string) list"

record OpenApiResponse =
  ors_description :: string
  ors_content :: "(string \<times> string) list"

record OpenApiOperation =
  oo_tags :: "string list"
  oo_summary :: "string option"
  oo_parameters :: "OpenApiParameter list"
  oo_request_body :: "OpenApiRequestBody option"
  oo_responses :: "(string \<times> OpenApiResponse) list"
  oo_security :: "(string \<times> string list) list list"

record OpenApiDocument =
  od_openapi :: string
  od_info :: OpenApiInfo
  od_paths :: "(string \<times> (string \<times> OpenApiOperation) list) list"
  od_schemas :: "(string \<times> string) list"
  od_security_schemes :: "(string \<times> OpenApiSecurityScheme) list"

text \<open>What the builder reads of a controller; the generated functions of \<open>Controller_Expansion\<close> return lists of this form.\<close>

record OpenApiControllerMetadata =
  oc_routes :: "(string \<times> string \<times> string) list"
  oc_api_tags :: "string list"
  oc_api_operations :: "(string \<times> string option) list"
  oc_api_params :: "(string \<times> (string \<times> string) list) list"
  oc_api_responses :: "(string \<times> (16 word \<times> string \<times> string) list) list"
  oc_api_bodies :: "(string \<times> string) list"
  oc_api_bearer_auth :: "string list"

section \<open>The builder\<close>

definition normalize_openapi_path :: "string \<Rightarrow> string" where
  "normalize_openapi_path p =
     (let trimmed = trim p;
          trimmed = (if trimmed = [] then ''/'' else trimmed);
          segments = map (\<lambda>segment. case strip_prefix segment '':'' of Some name \<Rightarrow> ''{'' @ name @ ''}'' | None \<Rightarrow> segment)
            (filter (\<lambda>segment. segment \<noteq> []) (split_on CHR ''/'' trimmed))
      in if segments = [] then ''/'' else ''/'' @ join ''/'' segments)"

definition normalize_type_name :: "string \<Rightarrow> string" where
  "normalize_type_name ty = filter (\<lambda>c. \<not> is_whitespace c) ty"

definition schema_ref :: "string \<Rightarrow> string" where
  "schema_ref schema_name = ''#/components/schemas/'' @ schema_name"

definition json_content :: "string \<Rightarrow> (string \<times> string) list" where
  "json_content schema_name = [(''application/json'', schema_ref schema_name)]"

definition last_of :: "(string \<times> 'v) list \<Rightarrow> string \<Rightarrow> 'v option" where
  "last_of xs k = map_of (bt_collect xs) k"

record BuildState =
  bs_paths :: "(string \<times> (string \<times> OpenApiOperation) list) list"
  bs_schemas :: "(string \<times> string) list"
  bs_security :: "(string \<times> OpenApiSecurityScheme) list"

definition note_schema :: "string \<Rightarrow> (string \<times> string) list \<Rightarrow> (string \<times> string) list" where
  "note_schema ty schemas = bt_or_insert (normalize_type_name ty) ''object'' schemas"

definition response_of :: "16 word \<times> string \<times> string \<Rightarrow> string \<times> OpenApiResponse" where
  "response_of r = (case r of (status, ty, description) \<Rightarrow>
     (show_nat (unat status), \<lparr>ors_description = description, ors_content = json_content (normalize_type_name ty)\<rparr>))"

definition responses_for :: "OpenApiControllerMetadata \<Rightarrow> string \<Rightarrow> (16 word \<times> string \<times> string) list" where
  "responses_for c handler = (case last_of (oc_api_responses c) handler of Some rs \<Rightarrow> rs | None \<Rightarrow> [])"

definition operation_of :: "OpenApiControllerMetadata \<Rightarrow> string \<Rightarrow> OpenApiOperation" where
  "operation_of c handler =
     \<lparr>oo_tags = oc_api_tags c,
      oo_summary = Option.bind (last_of (oc_api_operations c) handler) id,
      oo_parameters =
        map (\<lambda>(name, description). \<lparr>op_name = name, op_location = ''path'', op_description = description, op_required = True,
            op_schema_type = ''string''\<rparr>)
          (case last_of (oc_api_params c) handler of Some ps \<Rightarrow> ps | None \<Rightarrow> []),
      oo_request_body =
        map_option (\<lambda>ty. \<lparr>orb_required = True, orb_content = json_content (normalize_type_name ty)\<rparr>)
          (last_of (oc_api_bodies c) handler),
      oo_responses = bt_collect (map response_of (responses_for c handler)),
      oo_security = (if handler \<in> set (oc_api_bearer_auth c) then [[(''bearerAuth'', [])]] else [])\<rparr>"

definition bearer_scheme :: OpenApiSecurityScheme where
  "bearer_scheme = \<lparr>oss_type = ''http'', oss_scheme = ''bearer'', oss_bearer_format = Some ''JWT''\<rparr>"

definition add_operation :: "OpenApiControllerMetadata \<Rightarrow> string \<times> string \<times> string \<Rightarrow> BuildState \<Rightarrow> BuildState" where
  "add_operation c r st =
     (case r of (method, rpath, handler) \<Rightarrow>
        let schemas1 = (case last_of (oc_api_bodies c) handler of Some ty \<Rightarrow> note_schema ty (bs_schemas st) | None \<Rightarrow> bs_schemas st);
            schemas2 = fold (\<lambda>(_, ty, _). note_schema ty) (responses_for c handler) schemas1;
            security = (if handler \<in> set (oc_api_bearer_auth c) then bt_or_insert ''bearerAuth'' bearer_scheme (bs_security st)
                        else bs_security st);
            p = normalize_openapi_path rpath;
            operations = (case map_of (bs_paths st) p of Some os \<Rightarrow> os | None \<Rightarrow> [])
        in \<lparr>bs_paths = bt_insert p (bt_insert (to_ascii_lowercase method) (operation_of c handler) operations) (bs_paths st),
            bs_schemas = schemas2, bs_security = security\<rparr>)"

definition build_openapi_document :: "string \<Rightarrow> string \<Rightarrow> OpenApiControllerMetadata list \<Rightarrow> OpenApiDocument" where
  "build_openapi_document title version controllers =
     (let st = fold (\<lambda>c. fold (add_operation c) (oc_routes c)) controllers \<lparr>bs_paths = [], bs_schemas = [], bs_security = []\<rparr>
      in \<lparr>od_openapi = ''3.0.0'', od_info = \<lparr>oi_title = title, oi_version = version\<rparr>, od_paths = bs_paths st,
          od_schemas = bs_schemas st, od_security_schemes = bs_security st\<rparr>)"

section \<open>The document as JSON\<close>

datatype Value = VNull | VBool bool | VString string | VArray "Value list" | VObject "(string \<times> Value) list"

definition object_from :: "(string \<times> Value) list \<Rightarrow> Value" where
  "object_from map_to_value = VObject (bt_collect map_to_value)"

definition map_to_value :: "('v \<Rightarrow> Value) \<Rightarrow> (string \<times> 'v) list \<Rightarrow> Value" where
  "map_to_value f m = object_from (map (\<lambda>(k, v). (k, f v)) m)"

definition optional_string :: "string option \<Rightarrow> Value" where
  "optional_string s = (case s of Some v \<Rightarrow> VString v | None \<Rightarrow> VNull)"

definition openapi_media_type_to_value :: "string \<Rightarrow> Value" where
  "openapi_media_type_to_value ref = object_from [(''schema'', object_from [(''$ref'', VString ref)])]"

definition openapi_parameter_to_value :: "OpenApiParameter \<Rightarrow> Value" where
  "openapi_parameter_to_value p = object_from
     [(''name'', VString (op_name p)), (''in'', VString (op_location p)), (''description'', VString (op_description p)),
      (''required'', VBool (op_required p)), (''schema'', object_from [(''type'', VString (op_schema_type p))])]"

definition openapi_request_body_to_value :: "OpenApiRequestBody \<Rightarrow> Value" where
  "openapi_request_body_to_value b = object_from
     [(''required'', VBool (orb_required b)), (''content'', map_to_value openapi_media_type_to_value (orb_content b))]"

definition openapi_response_to_value :: "OpenApiResponse \<Rightarrow> Value" where
  "openapi_response_to_value r = object_from
     [(''description'', VString (ors_description r)), (''content'', map_to_value openapi_media_type_to_value (ors_content r))]"

definition openapi_security_requirement_to_value :: "(string \<times> string list) list \<Rightarrow> Value" where
  "openapi_security_requirement_to_value r = map_to_value (\<lambda>scopes. VArray (map VString scopes)) r"

definition openapi_operation_to_value :: "OpenApiOperation \<Rightarrow> Value" where
  "openapi_operation_to_value op = object_from
     [(''tags'', VArray (map VString (oo_tags op))), (''summary'', optional_string (oo_summary op)),
      (''parameters'', VArray (map openapi_parameter_to_value (oo_parameters op))),
      (''requestBody'', case oo_request_body op of Some b \<Rightarrow> openapi_request_body_to_value b | None \<Rightarrow> VNull),
      (''responses'', map_to_value openapi_response_to_value (oo_responses op)),
      (''security'', VArray (map openapi_security_requirement_to_value (oo_security op)))]"

definition openapi_paths_to_value :: "(string \<times> (string \<times> OpenApiOperation) list) list \<Rightarrow> Value" where
  "openapi_paths_to_value paths = map_to_value (map_to_value openapi_operation_to_value) paths"

definition security_scheme_to_value :: "OpenApiSecurityScheme \<Rightarrow> Value" where
  "security_scheme_to_value s = object_from
     [(''type'', VString (oss_type s)), (''scheme'', VString (oss_scheme s)), (''bearerFormat'', optional_string (oss_bearer_format s))]"

definition openapi_components_to_value :: "OpenApiDocument \<Rightarrow> Value" where
  "openapi_components_to_value d = object_from
     [(''schemas'', map_to_value (\<lambda>t. object_from [(''type'', VString t)]) (od_schemas d)),
      (''securitySchemes'', map_to_value security_scheme_to_value (od_security_schemes d))]"

definition openapi_document_to_value :: "OpenApiDocument \<Rightarrow> Value" where
  "openapi_document_to_value d = object_from
     [(''openapi'', VString (od_openapi d)),
      (''info'', object_from [(''title'', VString (oi_title (od_info d))), (''version'', VString (oi_version (od_info d)))]),
      (''paths'', openapi_paths_to_value (od_paths d)), (''components'', openapi_components_to_value d)]"

text \<open>The value at a chain of keys.\<close>

fun value_at :: "string list \<Rightarrow> Value \<Rightarrow> Value option" where
  "value_at [] v = Some v"
| "value_at (k # ks) (VObject m) = Option.bind (map_of m k) (value_at ks)"
| "value_at (k # ks) _ = None"


section \<open>The page that shows the document\<close>

definition normalize_spec_url :: "string \<Rightarrow> string" where
  "normalize_spec_url spec_url = (let trimmed = trim spec_url in if trimmed = [] then ''/api/docs/openapi.json'' else trimmed)"

text \<open>\<open>str::replace\<close> of one character.\<close>

definition replace_char :: "char \<Rightarrow> string \<Rightarrow> string \<Rightarrow> string" where
  "replace_char c w s = concat (map (\<lambda>x. if x = c then w else [x]) s)"

definition escape_html :: "string \<Rightarrow> string" where
  "escape_html s =
     replace_char (CHR 0x27) ''&#39;'' (replace_char (CHR 0x22) ''&quot;'' (replace_char CHR ''>'' ''&gt;''
       (replace_char CHR ''<'' ''&lt;'' (replace_char CHR ''&'' ''&amp;'' s))))"

definition swagger_ui_index_html :: "string \<Rightarrow> string \<Rightarrow> string \<Rightarrow> string \<Rightarrow> string" where
  \<open>swagger_ui_index_html spec_url title description version =
     (let spec_url = normalize_spec_url spec_url; title = escape_html title; description = escape_html description;
          version = escape_html version
      in join [CHR 0x0A]
        [''<!doctype html>'',
         ''<html lang="en">'',
         ''<head>'',
         ''  <meta charset="utf-8">'',
         ''  <meta name="viewport" content="width=device-width, initial-scale=1">'',
         ''  <meta name="description" content="'' @ description @ ''">'',
         ''  <title>'' @ title @ '' v'' @ version @ ''</title>'',
         ''  <link rel="stylesheet" href="https://cdn.jsdelivr.net/npm/swagger-ui-dist@5.17.14/swagger-ui.css">'',
         ''</head>'',
         ''<body>'',
         ''  <header id="swagger-ui-header">'',
         ''    <h1>'' @ title @ ''</h1>'',
         ''    <p>'' @ description @ ''</p>'',
         ''    <span class="swagger-ui-version">v'' @ version @ ''</span>'',
         ''  </header>'',
         ''  <div id="swagger-ui"></div>'',
         ''  <script src="https://cdn.jsdelivr.net/npm/swagger-ui-dist@5.17.14/swagger-ui-bundle.js"></script>'',
         ''  <script>'',
         ''    window.ui = SwaggerUIBundle({'',
         ''      url: "'' @ spec_url @ ''",'',
         ''      dom_id: '' @ [CHR 0x27] @ ''#swagger-ui'' @ [CHR 0x27] @ '','',
         ''      deepLinking: true,'',
         ''      presets: [SwaggerUIBundle.presets.apis],'',
         ''      layout: "BaseLayout"'',
         ''    });'',
         ''  </script>'',
         ''</body>'',
         ''</html>''])\<close>

record SwaggerUiAsset =
  sa_path :: string
  sa_content_type :: string
  sa_body :: string

definition swagger_ui_assets_with_metadata :: "string \<Rightarrow> string \<Rightarrow> string \<Rightarrow> string \<Rightarrow> SwaggerUiAsset list" where
  "swagger_ui_assets_with_metadata spec_url title description version =
     [\<lparr>sa_path = ''/index.html'', sa_content_type = ''text/html; charset=utf-8'',
       sa_body = swagger_ui_index_html spec_url title description version\<rparr>]"

definition swagger_ui_assets :: "string \<Rightarrow> SwaggerUiAsset list" where
  "swagger_ui_assets spec_url =
     swagger_ui_assets_with_metadata spec_url ''Nivasa API Docs'' ''OpenAPI documentation'' ''1.0.0''"

section \<open>The two endpoints\<close>

definition openapi_spec_json where
  "openapi_spec_json b p document = route b Get p (\<lambda>_ w. (Some (response_json document), w))"

definition serve_openapi_spec where
  "serve_openapi_spec storage clock cfg document =
     openapi_spec_json (server_builder storage clock cfg) (bc_openapi_spec_path cfg) (openapi_document_to_value document)"

definition serve_swagger_ui where
  "serve_swagger_ui storage clock cfg =
     (let html = swagger_ui_index_html (bc_openapi_spec_path cfg) ''Nivasa API Docs'' ''OpenAPI documentation'' ''1.0.0''
      in route (server_builder storage clock cfg) Get (bc_swagger_ui_path cfg) (\<lambda>_ w. (Some (response_html html), w)))"

section \<open>Escaping\<close>

definition entity :: "char \<Rightarrow> string" where
  "entity c = (if c = CHR ''&'' then ''&amp;'' else if c = CHR ''<'' then ''&lt;'' else if c = CHR ''>'' then ''&gt;''
     else if c = CHR 0x22 then ''&quot;'' else if c = CHR 0x27 then ''&#39;'' else [c])"

lemma replace_char_append [simp]: "replace_char c w (s @ t) = replace_char c w s @ replace_char c w t"
  by (simp add: replace_char_def)

lemma replace_char_Nil [simp]: "replace_char c w [] = []"
  by (simp add: replace_char_def)

lemma replace_char_Cons: "replace_char c w (x # s) = (if x = c then w else [x]) @ replace_char c w s"
  by (simp add: replace_char_def)

text \<open>The ampersand is replaced first, so that the entities of the other characters are not escaped again.\<close>

lemma escape_html_entities: "escape_html s = concat (map entity s)"
proof (induction s)
  case (Cons x s)
  have "escape_html (x # s) = entity x @ escape_html s"
    by (simp add: escape_html_def replace_char_Cons entity_def)
  then show ?case using Cons by simp
qed (simp add: escape_html_def)

lemma escape_html_inert: "set (escape_html s) \<inter> {CHR ''<'', CHR ''>'', CHR 0x22, CHR 0x27} = {}"
  by (auto simp: escape_html_entities entity_def split: if_splits)

section \<open>Ordered maps as maps\<close>

lemma map_of_bt_insert [simp]: "map_of (bt_insert k v m) = (map_of m)(k \<mapsto> v)"
  by (induction k v m rule: bt_insert.induct) auto

lemma map_of_fold_insert: "map_of (fold (\<lambda>(k, v). bt_insert k v) xs m) = map_of m ++ map_of (rev xs)"
  by (induction xs arbitrary: m) (auto simp: map_add_def fun_eq_iff split: option.splits)

lemma map_of_collect: "map_of (bt_collect xs) = map_of (rev xs)"
  by (simp add: bt_collect_def map_of_fold_insert)

lemma map_of_or_insert [simp]: "map_of (bt_or_insert k v m) = (case map_of m k of None \<Rightarrow> (map_of m)(k \<mapsto> v) | Some _ \<Rightarrow> map_of m)"
  by (simp add: bt_or_insert_def split: option.splits)

definition bt_sorted :: "(string \<times> 'v) list \<Rightarrow> bool" where
  "bt_sorted m \<longleftrightarrow> sorted_wrt (<) (map fst m)"

lemma bt_insert_keys: "fst ` set (bt_insert k v m) = insert k (fst ` set m)"
  by (induction k v m rule: bt_insert.induct) auto

lemma bt_insert_sorted: "bt_sorted m \<Longrightarrow> bt_sorted (bt_insert k v m)"
proof (induction k v m rule: bt_insert.induct)
  case (2 k v k' v' m)
  show ?case
    using 2 bt_insert_keys [of k v m] by (auto simp: bt_sorted_def simp flip: set_map)
qed (simp add: bt_sorted_def)

lemma bt_sorted_distinct: "bt_sorted m \<Longrightarrow> distinct (map fst m)"
  unfolding bt_sorted_def by (induction m) auto

lemma value_at_entries:
  assumes "bt_sorted m"
  shows "value_at (k # ks) (map_to_value f m) = Option.bind (map_of m k) (\<lambda>v. value_at ks (f v))"
proof -
  have keys: "map fst (map (\<lambda>(k, v). (k, f v)) m) = map fst m" by auto
  have "distinct (map fst (map (\<lambda>(k, v). (k, f v)) m))" unfolding keys by (rule bt_sorted_distinct [OF assms])
  then have "map_of (rev (map (\<lambda>(k, v). (k, f v)) m)) = map_of (map (\<lambda>(k, v). (k, f v)) m)"
    using map_of_inject_set [of "rev (map (\<lambda>(k, v). (k, f v)) m)" "map (\<lambda>(k, v). (k, f v)) m"]
    by (simp only: rev_map [symmetric] distinct_rev set_rev)
  moreover have "map_of (map (\<lambda>(k, v). (k, f v)) m) k = map_option f (map_of m k)" by (induction m) auto
  ultimately show ?thesis
    by (cases "map_of m k") (simp_all add: map_to_value_def object_from_def map_of_collect)
qed

section \<open>What the document says\<close>

definition all_routes :: "OpenApiControllerMetadata list \<Rightarrow> (OpenApiControllerMetadata \<times> string \<times> string \<times> string) list" where
  "all_routes cs = concat (map (\<lambda>c. map (Pair c) (oc_routes c)) cs)"

definition at_endpoint :: "string \<Rightarrow> string \<Rightarrow> OpenApiControllerMetadata \<times> string \<times> string \<times> string \<Rightarrow> bool" where
  "at_endpoint P M r = (case r of (c, m, p, h) \<Rightarrow> normalize_openapi_path p = P \<and> to_ascii_lowercase m = M)"

definition route_operation :: "OpenApiControllerMetadata \<times> string \<times> string \<times> string \<Rightarrow> OpenApiOperation" where
  "route_operation r = (case r of (c, m, p, h) \<Rightarrow> operation_of c h)"

definition paths_lookup :: "(string \<times> (string \<times> OpenApiOperation) list) list \<Rightarrow> string \<Rightarrow> string \<Rightarrow> OpenApiOperation option" where
  "paths_lookup paths P M = Option.bind (map_of paths P) (\<lambda>os. map_of os M)"

definition schema_refs :: "OpenApiOperation \<Rightarrow> string set" where
  "schema_refs op = (case oo_request_body op of Some b \<Rightarrow> snd ` set (orb_content b) | None \<Rightarrow> {})
     \<union> (\<Union>r \<in> ran (map_of (oo_responses op)). snd ` set (ors_content r))"

definition closed_operation :: "(string \<rightharpoonup> string) \<Rightarrow> (string \<rightharpoonup> OpenApiSecurityScheme) \<Rightarrow> OpenApiOperation \<Rightarrow> bool" where
  "closed_operation schemas schemes op \<longleftrightarrow>
     (\<forall>ref \<in> schema_refs op. \<exists>name \<in> dom schemas. ref = schema_ref name) \<and>
     (\<forall>req \<in> set (oo_security op). fst ` set req \<subseteq> dom schemes)"

lemma closed_mono: "closed_operation S Q op \<Longrightarrow> dom S \<subseteq> dom S' \<Longrightarrow> dom Q \<subseteq> dom Q' \<Longrightarrow> closed_operation S' Q' op"
  unfolding closed_operation_def by (meson subset_trans subsetD)

lemma note_dom: "dom (map_of (note_schema ty m)) = insert (normalize_type_name ty) (dom (map_of m))"
  by (auto simp: note_schema_def split: option.splits)

lemma note_all_dom: "dom (map_of (fold (\<lambda>(_, ty, _). note_schema ty) rs m)) = (\<lambda>(_, ty, _). normalize_type_name ty) ` set rs \<union> dom (map_of m)"
proof (induction rs arbitrary: m)
  case (Cons r rs)
  then show ?case by (cases r) (simp add: note_dom)
qed simp

lemma response_from:
  assumes "map_of (bt_collect (map response_of rs)) k = Some r"
  shows "\<exists>status ty description. (status, ty, description) \<in> set rs \<and> r = snd (response_of (status, ty, description))"
proof -
  have "map_of (rev (map response_of rs)) k = Some r" using assms unfolding map_of_collect .
  from map_of_SomeD [OF this] have "(k, r) \<in> response_of ` set rs" by simp
  then obtain x where x: "x \<in> set rs" "(k, r) = response_of x" by blast
  obtain status ty description where "x = (status, ty, description)" by (cases x)
  then show ?thesis using x by (metis snd_conv)
qed

lemma response_ref:
  assumes "map_of (bt_collect (map response_of rs)) k = Some r" "ref \<in> snd ` set (ors_content r)"
  shows "\<exists>name \<in> (\<lambda>(_, ty, _). normalize_type_name ty) ` set rs. ref = schema_ref name"
proof -
  obtain status ty description where x: "(status, ty, description) \<in> set rs" "r = snd (response_of (status, ty, description))"
    using response_from [OF assms(1)] by blast
  have "ref = schema_ref (normalize_type_name ty)" using assms(2) by (simp add: x(2) response_of_def json_content_def)
  then show ?thesis using x(1) by (intro bexI [of _ "normalize_type_name ty"]) (auto intro!: image_eqI)
qed

lemma operation_paths:
  "bs_paths (add_operation c (m, p, h) st) = bt_insert (normalize_openapi_path p)
     (bt_insert (to_ascii_lowercase m) (operation_of c h)
       (case map_of (bs_paths st) (normalize_openapi_path p) of Some os \<Rightarrow> os | None \<Rightarrow> [])) (bs_paths st)"
  by (simp add: add_operation_def Let_def)

lemma operation_schemas:
  "dom (map_of (bs_schemas (add_operation c (m, p, h) st))) =
   (\<lambda>(_, ty, _). normalize_type_name ty) ` set (responses_for c h) \<union>
   normalize_type_name ` set_option (last_of (oc_api_bodies c) h) \<union> dom (map_of (bs_schemas st))"
  by (auto simp: add_operation_def Let_def note_all_dom note_dom split: option.splits)

lemma operation_schemes:
  "dom (map_of (bs_security (add_operation c (m, p, h) st))) =
   (if h \<in> set (oc_api_bearer_auth c) then {''bearerAuth''} else {}) \<union> dom (map_of (bs_security st))"
  by (auto simp: add_operation_def Let_def split: option.splits)

lemma operation_schemas_grow: "dom (map_of (bs_schemas st)) \<subseteq> dom (map_of (bs_schemas (add_operation c (m, p, h) st)))"
  by (simp add: operation_schemas)

lemma operation_schemes_grow: "dom (map_of (bs_security st)) \<subseteq> dom (map_of (bs_security (add_operation c (m, p, h) st)))"
  by (simp add: operation_schemes)

lemma operation_refs:
  assumes "ref \<in> schema_refs (operation_of c h)"
  shows "\<exists>name \<in> dom (map_of (bs_schemas (add_operation c (m, p, h) st))). ref = schema_ref name"
proof -
  consider (body) ty where "last_of (oc_api_bodies c) h = Some ty" "ref = schema_ref (normalize_type_name ty)"
    | (response) k r where "map_of (bt_collect (map response_of (responses_for c h))) k = Some r" "ref \<in> snd ` set (ors_content r)"
    using assms by (auto simp: schema_refs_def operation_of_def json_content_def ran_def split: option.splits)
  then show ?thesis
  proof cases
    case body
    then show ?thesis unfolding operation_schemas by (intro bexI [of _ "normalize_type_name ty"]) auto
  next
    case response
    from response_ref [OF this] show ?thesis unfolding operation_schemas by blast
  qed
qed

lemma operation_closed:
  "closed_operation (map_of (bs_schemas (add_operation c (m, p, h) st))) (map_of (bs_security (add_operation c (m, p, h) st))) (operation_of c h)"
proof -
  have "oo_security (operation_of c h) = (if h \<in> set (oc_api_bearer_auth c) then [[(''bearerAuth'', [])]] else [])"
    by (simp add: operation_of_def)
  then have "fst ` set req \<subseteq> dom (map_of (bs_security (add_operation c (m, p, h) st)))" if "req \<in> set (oo_security (operation_of c h))" for req
    using that by (simp add: operation_schemes split: if_splits)
  then show ?thesis unfolding closed_operation_def using operation_refs [of _ c h m p st] by blast
qed

definition build_ok :: "(OpenApiControllerMetadata \<times> string \<times> string \<times> string) list \<Rightarrow> BuildState \<Rightarrow> bool" where
  "build_ok rs st \<longleftrightarrow>
     (\<forall>P M. paths_lookup (bs_paths st) P M = map_option route_operation (find (at_endpoint P M) (rev rs))) \<and>
     bt_sorted (bs_paths st) \<and> (\<forall>os \<in> ran (map_of (bs_paths st)). bt_sorted os) \<and>
     (\<forall>r \<in> set rs. closed_operation (map_of (bs_schemas st)) (map_of (bs_security st)) (route_operation r))"

lemma build_ok_step:
  assumes "build_ok rs st"
  shows "build_ok (rs @ [(c, m, p, h)]) (add_operation c (m, p, h) st)"
proof -
  let ?st = "add_operation c (m, p, h) st" and ?p = "normalize_openapi_path p"
  have inner: "bt_sorted (case map_of (bs_paths st) ?p of Some os \<Rightarrow> os | None \<Rightarrow> [])"
    using assms by (auto simp: build_ok_def bt_sorted_def ran_def split: option.splits)
  have "paths_lookup (bs_paths ?st) P M = map_option route_operation (find (at_endpoint P M) (rev (rs @ [(c, m, p, h)])))" for P M
  proof -
    have "paths_lookup (bs_paths st) P M = map_option route_operation (find (at_endpoint P M) (rev rs))"
      using assms by (simp add: build_ok_def)
    then show ?thesis
      by (auto simp: operation_paths paths_lookup_def at_endpoint_def route_operation_def split: option.splits)
  qed
  moreover have "bt_sorted (bs_paths ?st)" using assms by (simp add: build_ok_def operation_paths bt_insert_sorted)
  moreover have "\<forall>os \<in> ran (map_of (bs_paths ?st)). bt_sorted os"
    using assms bt_insert_sorted [OF inner] by (auto simp: build_ok_def operation_paths ran_def)
  moreover have "\<forall>r \<in> set (rs @ [(c, m, p, h)]). closed_operation (map_of (bs_schemas ?st)) (map_of (bs_security ?st)) (route_operation r)"
    using assms closed_mono [OF _ operation_schemas_grow operation_schemes_grow] operation_closed
    by (auto simp: build_ok_def route_operation_def)
  ultimately show ?thesis by (simp add: build_ok_def)
qed

lemma build_ok_fold: "build_ok rs st \<Longrightarrow> build_ok (rs @ rs') (fold (\<lambda>(c, r). add_operation c r) rs' st)"
proof (induction rs' arbitrary: rs st)
  case (Cons x rs')
  obtain c m p h where x: "x = (c, m, p, h)" by (cases x)
  show ?case using Cons.IH [OF build_ok_step [OF Cons.prems, of c m p h]] x by simp
qed simp

lemma build_fold:
  "fold (\<lambda>c. fold (add_operation c) (oc_routes c)) cs st = fold (\<lambda>(c, r). add_operation c r) (all_routes cs) st"
  by (induction cs arbitrary: st) (simp_all add: all_routes_def fold_map o_def)

text \<open>C38: the OpenAPI document has exactly one operation for each endpoint that some controller declares, with what the
  metadata of that controller's handler says, the last declaration of an endpoint counting; every schema an operation
  refers to and every security scheme it requires is declared in the document, and the JSON form has each operation
  under its path and method.\<close>

theorem openapi_document_exact:
  "(\<forall>P M. paths_lookup (od_paths (build_openapi_document title version cs)) P M =
       map_option route_operation (find (at_endpoint P M) (rev (all_routes cs)))) \<and>
   (\<forall>P M op. paths_lookup (od_paths (build_openapi_document title version cs)) P M = Some op \<longrightarrow>
       closed_operation (map_of (od_schemas (build_openapi_document title version cs)))
         (map_of (od_security_schemes (build_openapi_document title version cs))) op) \<and>
   (\<forall>P M. value_at [''paths'', P, M] (openapi_document_to_value (build_openapi_document title version cs)) =
       map_option openapi_operation_to_value (paths_lookup (od_paths (build_openapi_document title version cs)) P M))"
proof -
  define doc where "doc = build_openapi_document title version cs"
  let ?st = "fold (\<lambda>(c, r). add_operation c r) (all_routes cs) \<lparr>bs_paths = [], bs_schemas = [], bs_security = []\<rparr>"
  have doc: "od_paths doc = bs_paths ?st" "od_schemas doc = bs_schemas ?st" "od_security_schemes doc = bs_security ?st"
    by (simp_all add: doc_def build_openapi_document_def build_fold Let_def)
  have "build_ok [] \<lparr>bs_paths = [], bs_schemas = [], bs_security = []\<rparr>"
    by (simp add: build_ok_def paths_lookup_def bt_sorted_def)
  from build_ok_fold [OF this, of "all_routes cs"] have ok: "build_ok (all_routes cs) ?st" by simp
  then have exact: "paths_lookup (od_paths doc) P M = map_option route_operation (find (at_endpoint P M) (rev (all_routes cs)))" for P M
    by (simp add: build_ok_def doc)
  have "closed_operation (map_of (od_schemas doc)) (map_of (od_security_schemes doc)) op" if found: "paths_lookup (od_paths doc) P M = Some op" for P M op
  proof -
    obtain r where "find (at_endpoint P M) (rev (all_routes cs)) = Some r" "op = route_operation r" using found unfolding exact by auto
    moreover from this have "r \<in> set (all_routes cs)" by (metis find_Some_iff nth_mem set_rev)
    ultimately show ?thesis using ok by (simp add: build_ok_def doc)
  qed
  moreover have "value_at [''paths'', P, M] (openapi_document_to_value doc) =
      map_option openapi_operation_to_value (paths_lookup (od_paths doc) P M)" for P M
  proof -
    have "value_at [''paths'', P, M] (openapi_document_to_value doc) = value_at [P, M] (openapi_paths_to_value (od_paths doc))"
      by (simp add: openapi_document_to_value_def object_from_def map_of_collect)
    also have "\<dots> = Option.bind (map_of (od_paths doc) P) (\<lambda>os. value_at [M] (map_to_value openapi_operation_to_value os))"
      using ok by (simp add: openapi_paths_to_value_def build_ok_def doc value_at_entries del: value_at.simps)
    also have "\<dots> = Option.bind (map_of (od_paths doc) P) (\<lambda>os. map_option openapi_operation_to_value (map_of os M))"
    proof (cases "map_of (od_paths doc) P")
      case (Some os)
      then have "bt_sorted os" using ok by (auto simp: build_ok_def doc ran_def)
      from value_at_entries [OF this, of M "[]"] show ?thesis by (cases "map_of os M") (simp_all add: Some del: value_at.simps(2))
    qed simp
    finally show ?thesis by (cases "map_of (od_paths doc) P") (simp_all add: paths_lookup_def)
  qed
  ultimately show ?thesis using exact by (simp add: doc_def)
qed

definition docs_metadata :: OpenApiControllerMetadata where
  "docs_metadata =
     \<lparr>oc_routes = [(''GET'', ''/docs/:id'', ''show''), (''POST'', ''docs'', ''make'')], oc_api_tags = [''Docs''],
      oc_api_operations = [(''show'', Some ''Show docs''), (''make'', None)], oc_api_params = [(''show'', [(''id'', ''Doc ID'')])],
      oc_api_responses = [(''show'', [(200, ''Vec < Doc >'', ''ok'')])], oc_api_bodies = [(''make'', ''NewDoc'')],
      oc_api_bearer_auth = [''make'']\<rparr>"

lemma docs_found: "paths_lookup (od_paths (build_openapi_document ''Docs'' ''1'' [docs_metadata])) ''/docs/{id}'' ''get'' = Some (operation_of docs_metadata ''show'')"
  by code_simp

theorem openapi_document_exact_witness:
  "closed_operation (map_of (od_schemas (build_openapi_document ''Docs'' ''1'' [docs_metadata])))
     (map_of (od_security_schemes (build_openapi_document ''Docs'' ''1'' [docs_metadata]))) (operation_of docs_metadata ''show'') \<and>
   map fst (oo_responses (operation_of docs_metadata ''show'')) = [''200''] \<and>
   map fst (od_schemas (build_openapi_document ''Docs'' ''1'' [docs_metadata])) = [''NewDoc'', ''Vec<Doc>'']"
proof -
  have "map fst (oo_responses (operation_of docs_metadata ''show'')) = [''200'']" by code_simp
  moreover have "map fst (od_schemas (build_openapi_document ''Docs'' ''1'' [docs_metadata])) = [''NewDoc'', ''Vec<Doc>'']" by code_simp
  ultimately show ?thesis using openapi_document_exact [of "''Docs''" "''1''" "[docs_metadata]"] docs_found by blast
qed

text \<open>A parameter that a route leaves optional keeps its question mark in the document's path.\<close>

lemma optional_parameter_in_path: "normalize_openapi_path ''/docs/:id?'' = ''/docs/{id?}''"
  by code_simp

end
