(* ===== verification/Chart_Build.thy ===== *)
theory Chart_Build
  imports Statecharts Module_Edit Macro_Syntax "HOL-Library.Word"
begin

text \<open>
  What is done with the files of the charts: the build script (\<open>nivasa-statechart/build.rs\<close>) with the schema validation
  (\<open>schema.rs\<close>), the statechart commands of the command line tool (\<open>nivasa-cli/src/statechart.rs\<close>, \<open>main.rs\<close>) and the macro
  \<open>#[scxml_handler]\<close> (\<open>nivasa-macros/src/scxml_handler.rs\<close>). The XML reader, SHA-256 and the XSD validator of libxml are
  parameters, a directory is what \<open>read_dir\<close> yields of it.
\<close>

section \<open>Directories\<close>

text \<open>Each entry is an error or a file name with the text of the file, if it can be read. No directory is \<open>None\<close>.\<close>

type_synonym ChartDir = "(string \<times> string option) option list option"

definition path_extension :: "string \<Rightarrow> string option" where
  "path_extension name =
     (if name = ''..'' then None
      else case rsplit_once ''.'' name of Some (before, after) \<Rightarrow> if before = [] then None else Some after | None \<Rightarrow> None)"

definition path_stem :: "string \<Rightarrow> string" where
  "path_stem name =
     (if name = ''..'' then name
      else case rsplit_once ''.'' name of Some (before, _) \<Rightarrow> if before = [] then name else before | None \<Rightarrow> name)"

definition is_scxml :: "string \<Rightarrow> bool" where
  "is_scxml name \<longleftrightarrow> path_extension name = Some ''scxml''"

section \<open>Schema validation\<close>

datatype XmlErrorLevel = LevelNone | LevelWarning | LevelError | LevelFatal

record StructuredError =
  se_level :: XmlErrorLevel
  se_message :: "string option"
  se_filename :: "string option"
  se_line :: "32 word option"
  se_col :: "32 word option"
  se_domain :: "32 word"
  se_code :: "32 word"

record SchemaDiagnostic =
  sd_level :: string
  sd_message :: string
  sd_filename :: "string option"
  sd_line :: "32 word option"
  sd_column :: "32 word option"
  sd_domain :: "32 word"
  sd_code :: "32 word"

definition schema_diagnostic_from :: "StructuredError \<Rightarrow> SchemaDiagnostic" where
  "schema_diagnostic_from e =
     \<lparr>sd_level = (case se_level e of LevelNone \<Rightarrow> ''none'' | LevelWarning \<Rightarrow> ''warning'' | LevelError \<Rightarrow> ''error'' | LevelFatal \<Rightarrow> ''fatal''),
      sd_message = (case se_message e of Some m \<Rightarrow> m | None \<Rightarrow> ''SCXML XSD validation error''),
      sd_filename = se_filename e, sd_line = se_line e, sd_column = se_col e, sd_domain = se_domain e, sd_code = se_code e\<rparr>"

text \<open>An \<open>i32\<close> in decimal.\<close>

definition show_i32 :: "32 word \<Rightarrow> string" where
  "show_i32 w = (if sint w < 0 then ''-'' @ show_nat (nat (- sint w)) else show_nat (nat (sint w)))"

definition show_diagnostic :: "SchemaDiagnostic \<Rightarrow> string" where
  "show_diagnostic d =
     (case sd_filename d of
        Some f \<Rightarrow> f @ (if sd_line d \<noteq> None \<or> sd_column d \<noteq> None then '':'' else [])
      | None \<Rightarrow> []) @
     (case sd_line d of Some n \<Rightarrow> show_i32 n | None \<Rightarrow> []) @
     (case sd_column d of Some n \<Rightarrow> '':'' @ show_i32 n | None \<Rightarrow> []) @
     (if sd_filename d \<noteq> None \<or> sd_line d \<noteq> None \<or> sd_column d \<noteq> None then '': '' else []) @
     sd_message d @ '' (level='' @ sd_level d @ '', domain='' @ show_i32 (sd_domain d) @ '', code='' @ show_i32 (sd_code d) @ '')''"

definition show_diagnostics :: "SchemaDiagnostic list \<Rightarrow> string" where
  "show_diagnostics ds = join nl (map show_diagnostic ds)"

datatype SchemaValidationError = SchemaLoad "SchemaDiagnostic list" | SchemaInvalid string "SchemaDiagnostic list"

text \<open>
  The parameters: the events the XML reader yields for a text, SHA-256 in hexadecimal digits, and the two calls of
  libxml, to load the schema and to validate a file (its name and text).
\<close>

record ChartTools =
  xml_events :: "string \<Rightarrow> XmlEvent list"
  sha256_hex :: "string \<Rightarrow> string"
  load_schema :: "StructuredError list + unit"
  validate_file :: "string \<Rightarrow> string option \<Rightarrow> StructuredError list + unit"

definition validate_scxml_schema :: "ChartTools \<Rightarrow> string \<Rightarrow> string option \<Rightarrow> SchemaValidationError + unit" where
  "validate_scxml_schema T name content =
     (case load_schema T of
        Inl errors \<Rightarrow> Inl (SchemaLoad (map schema_diagnostic_from errors))
      | Inr _ \<Rightarrow>
          (case validate_file T name content of
             Inl errors \<Rightarrow> Inl (SchemaInvalid name (map schema_diagnostic_from errors))
           | Inr _ \<Rightarrow> Inr ()))"

section \<open>The build script\<close>

text \<open>Panics with what they report.\<close>

datatype BuildPanic =
    NoCharts | SchemaFailed string SchemaValidationError | ChartUnreadable string | ChartUnparsed string ParseError
  | ChartInvalid string "ValidationError list"

record GeneratedChart =
  gc_source_file :: string
  gc_generated_file :: string
  gc_chart_name :: string
  gc_scxml_hash :: string

record BuildOutput =
  bo_files :: "(string \<times> string) list"
  bo_charts :: "GeneratedChart list"
  bo_warnings :: "ValidationError list"

definition collect_scxml_sources :: "ChartDir \<Rightarrow> (string \<times> string option) list" where
  "collect_scxml_sources dir =
     (case dir of None \<Rightarrow> [] | Some es \<Rightarrow> filter (\<lambda>(name, _). is_scxml name) (List.map_filter id es))"

definition generated_file_name :: "string \<Rightarrow> string" where
  "generated_file_name name =
     (let stem = path_stem name;
          normalized = (case strip_prefix stem ''nivasa.'' of Some s \<Rightarrow> s | None \<Rightarrow> stem)
      in map (\<lambda>c. if c = CHR ''.'' then CHR ''_'' else c) normalized @ ''_scxml.rs'')"

definition raw_chart_name :: "ScxmlDocument \<Rightarrow> string" where
  "raw_chart_name doc = (case md_name (doc_metadata doc) of Some name \<Rightarrow> name | None \<Rightarrow> ''Unnamed'')"

definition build_chart :: "ChartTools \<Rightarrow> string \<times> string option \<Rightarrow> BuildOutput \<Rightarrow> BuildPanic + BuildOutput" where
  "build_chart T src out =
     (case src of (name, content) \<Rightarrow>
       (case validate_scxml_schema T name content of
          Inl err \<Rightarrow> Inl (SchemaFailed name err)
        | Inr _ \<Rightarrow>
            (case content of
               None \<Rightarrow> Inl (ChartUnreadable name)
             | Some source \<Rightarrow>
                 (case from_events (xml_events T source) of
                    Inl err \<Rightarrow> Inl (ChartUnparsed name err)
                  | Inr document \<Rightarrow>
                      (let validation = validate document; hash = sha256_hex T source in
                       if vr_errors validation \<noteq> [] then Inl (ChartInvalid name (vr_errors validation))
                       else Inr
                         \<lparr>bo_files = al_insert (generated_file_name name) (generate_rust_with_spec_path (\<lambda>_. hash) document ''crate'') (bo_files out),
                          bo_charts = bo_charts out @
                            [\<lparr>gc_source_file = name, gc_generated_file = generated_file_name name,
                              gc_chart_name = raw_chart_name document, gc_scxml_hash = hash\<rparr>],
                          bo_warnings = bo_warnings out @ vr_warnings validation\<rparr>)))))"

fun build_charts :: "ChartTools \<Rightarrow> (string \<times> string option) list \<Rightarrow> BuildOutput \<Rightarrow> BuildPanic + BuildOutput" where
  "build_charts T [] out = Inr out"
| "build_charts T (src # srcs) out = try_bind (build_chart T src out) (build_charts T srcs)"

text \<open>\<open>{:?}\<close> of a string, on the characters U+0000 to U+00FF.\<close>

definition hex_digit :: "nat \<Rightarrow> char" where
  "hex_digit n = (''0123456789abcdef'' ! n)"

definition debug_char :: "char \<Rightarrow> string" where
  "debug_char c =
     (let n = of_char c :: nat; bs = [CHR 0x5C] in
      if n = 0 then bs @ ''0'' else if n = 9 then bs @ ''t'' else if n = 13 then bs @ ''r'' else if n = 10 then bs @ ''n''
      else if n = 0x22 \<or> n = 0x5C then bs @ [c]
      else if n < 32 \<or> 127 \<le> n \<and> n \<le> 160 \<or> n = 173
        then bs @ ''u{'' @ (if n < 16 then [hex_digit n] else [hex_digit (n div 16), hex_digit (n mod 16)]) @ ''}''
      else [c])"

definition debug_str :: "string \<Rightarrow> string" where
  "debug_str s = quote @ concat (map debug_char s) @ quote"

definition write_registry :: "GeneratedChart list \<Rightarrow> string" where
  "write_registry generated =
     ''// AUTO-GENERATED by nivasa-statechart build.rs'' @ nl @
     ''// DO NOT EDIT - modify the .scxml file instead.'' @ nl @ nl @
     concat (map (\<lambda>c. ''include!('' @ quote @ gc_generated_file c @ quote @ '');'' @ nl) generated) @
     nl @ ''#[derive(Debug, Clone, Copy, PartialEq, Eq)]'' @ nl @
     ''pub struct GeneratedStatechart {'' @ nl @
     ''pub name: &'' @ [CHR 0x27] @ ''static str,'' @ nl @
     ''pub file_name: &'' @ [CHR 0x27] @ ''static str,'' @ nl @
     ''pub scxml_hash: &'' @ [CHR 0x27] @ ''static str,'' @ nl @
     ''}'' @ nl @ nl @
     ''pub const GENERATED_STATECHARTS: &[GeneratedStatechart] = &['' @ nl @
     concat (map (\<lambda>c. ''    GeneratedStatechart { name: '' @ debug_str (gc_chart_name c) @ '', file_name: '' @
        debug_str (gc_source_file c) @ '', scxml_hash: '' @ debug_str (gc_scxml_hash c) @ '' },'' @ nl) generated) @
     ''];'' @ nl"

text \<open>The whole script: the files it writes, the registry of charts that the crate is then compiled with, the warnings.\<close>

definition build_script :: "ChartTools \<Rightarrow> ChartDir \<Rightarrow> BuildPanic + BuildOutput" where
  "build_script T dir =
     (let sources = sort_key fst (collect_scxml_sources dir) in
      if sources = [] then Inl NoCharts
      else try_bind (build_charts T sources \<lparr>bo_files = [], bo_charts = [], bo_warnings = []\<rparr>) (\<lambda>out.
        Inr (out\<lparr>bo_files := al_insert ''mod.rs'' (write_registry (bo_charts out)) (bo_files out)\<rparr>)))"

section \<open>Commands on charts\<close>

datatype CliError =
    ReadDirFailed | EntryFailed | CliRead string | CliParse string ParseError | CliSchema string SchemaValidationError
  | CliValidation string | MissingArtifact string | HashMismatch string string string | HashNotEmbedded string
  | SourceMissing string | CliMessage string

fun entries_of :: "(string \<times> string option) option list \<Rightarrow> CliError + (string \<times> string option) list" where
  "entries_of [] = Inr []"
| "entries_of (None # es) = Inl EntryFailed"
| "entries_of (Some e # es) = map_sum id (\<lambda>fs. if is_scxml (fst e) then e # fs else fs) (entries_of es)"

definition collect_statechart_files :: "ChartDir \<Rightarrow> CliError + (string \<times> string option) list" where
  "collect_statechart_files dir =
     (case dir of None \<Rightarrow> Inl ReadDirFailed | Some es \<Rightarrow> map_sum id (sort_key fst) (entries_of es))"

text \<open>What a command prints, and its result.\<close>

definition validate_statechart_file :: "ChartTools \<Rightarrow> string \<times> string option \<Rightarrow> ValidationError list \<times> (CliError + string)" where
  "validate_statechart_file T src =
     (case src of (name, content) \<Rightarrow>
       (case validate_scxml_schema T name content of
          Inl err \<Rightarrow> ([], Inl (CliSchema name err))
        | Inr _ \<Rightarrow>
            (case content of
               None \<Rightarrow> ([], Inl (CliRead name))
             | Some source \<Rightarrow>
                 (case from_events (xml_events T source) of
                    Inl err \<Rightarrow> ([], Inl (CliParse name err))
                  | Inr document \<Rightarrow>
                      (let result = validate document in
                       if vr_errors result \<noteq> [] then (vr_warnings result @ vr_errors result, Inl (CliValidation name))
                       else (vr_warnings result, Inr (name @ '': valid'')))))))"

fun validate_files :: "ChartTools \<Rightarrow> (string \<times> string option) list \<Rightarrow> CliError + string list" where
  "validate_files T [] = Inr []"
| "validate_files T (src # srcs) =
     try_bind (snd (validate_statechart_file T src)) (\<lambda>line. map_sum id ((#) line) (validate_files T srcs))"

text \<open>A file given by name is looked up by \<open>resolve\<close>, first as it is and then below the directory.\<close>

definition resolve_statechart_path :: "(string \<Rightarrow> string option option) \<Rightarrow> (string \<Rightarrow> string option option) \<Rightarrow> string \<Rightarrow> CliError + string \<times> string option" where
  "resolve_statechart_path as_is below file =
     (case as_is file of
        Some content \<Rightarrow> Inr (file, content)
      | None \<Rightarrow>
          (case below file of
             Some content \<Rightarrow> Inr (file, content)
           | None \<Rightarrow> Inl (CliMessage (''statechart file not found: '' @ file))))"

definition validate_command ::
  "ChartTools \<Rightarrow> (string \<Rightarrow> string option option) \<Rightarrow> (string \<Rightarrow> string option option) \<Rightarrow> ChartDir \<Rightarrow> bool \<Rightarrow> string option \<Rightarrow>
   CliError + string list" where
  "validate_command T as_is below dir every file =
     (if every \<and> file \<noteq> None then Inl (CliMessage ''use either `--all` or a single file path, not both'')
      else
        try_bind
          (case file of
             Some p \<Rightarrow> if \<not> every then map_sum id (\<lambda>f. [f]) (resolve_statechart_path as_is below p) else collect_statechart_files dir
           | None \<Rightarrow> collect_statechart_files dir)
          (validate_files T))"

definition registry_map :: "GeneratedChart list \<Rightarrow> string \<rightharpoonup> GeneratedChart" where
  "registry_map generated = fold (\<lambda>c m. m(gc_source_file c \<mapsto> c)) generated Map.empty"

definition parity_file :: "ChartTools \<Rightarrow> (string \<rightharpoonup> GeneratedChart) \<Rightarrow> string \<times> string option \<Rightarrow> CliError + string" where
  "parity_file T compiled src =
     (case src of
        (source_name, None) \<Rightarrow> Inl (CliRead source_name)
      | (source_name, Some source) \<Rightarrow>
          (case from_events (xml_events T source) of
             Inl err \<Rightarrow> Inl (CliParse source_name err)
           | Inr document \<Rightarrow>
               (let hash = sha256_hex T source;
                    generated = generate_rust_with_spec_path (\<lambda>_. hash) document ''nivasa_statechart''
                in case compiled source_name of
                     None \<Rightarrow> Inl (MissingArtifact source_name)
                   | Some entry \<Rightarrow>
                       if gc_scxml_hash entry \<noteq> hash then Inl (HashMismatch source_name (gc_scxml_hash entry) hash)
                       else if \<not> str_contains generated (gc_scxml_hash entry) then Inl (HashNotEmbedded source_name)
                       else Inr source_name)))"

fun parity_files :: "ChartTools \<Rightarrow> (string \<rightharpoonup> GeneratedChart) \<Rightarrow> (string \<times> string option) list \<Rightarrow> CliError + string list" where
  "parity_files T compiled [] = Inr []"
| "parity_files T compiled (src # srcs) =
     try_bind (parity_file T compiled src) (\<lambda>name. map_sum id ((#) name) (parity_files T compiled srcs))"

text \<open>\<open>order\<close> is the order in which the map of compiled charts lists its keys. The result holds the names reported as ok.\<close>

definition parity_command :: "ChartTools \<Rightarrow> (string list \<Rightarrow> string list) \<Rightarrow> ChartDir \<Rightarrow> GeneratedChart list \<Rightarrow> CliError + string list" where
  "parity_command T order dir generated =
     try_bind (collect_statechart_files dir) (\<lambda>files.
     try_bind (parity_files T (registry_map generated) files) (\<lambda>seen.
       case find (\<lambda>name. name \<notin> set seen) (order (remdups (map gc_source_file generated))) of
         Some name \<Rightarrow> Inl (SourceMissing name)
       | None \<Rightarrow> Inr seen))"

section \<open>The handler macro\<close>

record ScxmlHandlerArgs =
  sh_statechart :: "string option"
  sh_state :: "string option"

fun parse_handler_args :: "ScxmlHandlerArgs \<Rightarrow> Tok list \<Rightarrow> MacroError + ScxmlHandlerArgs" where
  "parse_handler_args args [] = Inr args"
| "parse_handler_args args (TPath key # TEq # TStr val # ts) =
     try_bind
       (if key = ''statechart'' then
          if sh_statechart args \<noteq> None then Inl (Custom ''duplicate `statechart` argument'')
          else Inr (args\<lparr>sh_statechart := Some val\<rparr>)
        else if key = ''state'' then
          if sh_state args \<noteq> None then Inl (Custom ''duplicate `state` argument'')
          else Inr (args\<lparr>sh_state := Some val\<rparr>)
        else Inl (Custom (''unknown `#[scxml_handler]` argument `'' @ key @ ''`; expected `statechart` and `state`'')))
       (\<lambda>args'. case ts of [] \<Rightarrow> Inr args' | TComma # ts' \<Rightarrow> parse_handler_args args' ts' | _ \<Rightarrow> Inl Syn)"
| "parse_handler_args args _ = Inl Syn"

definition is_ascii_alphanumeric :: "char \<Rightarrow> bool" where
  "is_ascii_alphanumeric c \<longleftrightarrow>
     (let n = of_char c :: nat in 48 \<le> n \<and> n \<le> 57 \<or> 65 \<le> n \<and> n \<le> 90 \<or> 97 \<le> n \<and> n \<le> 122)"

definition validate_statechart_name :: "string \<Rightarrow> MacroError + unit" where
  "validate_statechart_name v =
     (if v = [] then Inl (Custom ''`statechart` cannot be empty'')
      else if CHR ''/'' \<in> set v \<or> CHR 0x5C \<in> set v \<or> str_contains v ''..'' \<or> CHR ''.'' \<in> set v
        then Inl (Custom ''`statechart` must be a bare SCXML name like `request`, not a path or dotted value'')
      else if \<not> list_all (\<lambda>c. is_ascii_alphanumeric c \<or> c = CHR ''_'' \<or> c = CHR ''-'') v
        then Inl (Custom ''`statechart` may only contain ASCII letters, digits, `_`, or `-`'')
      else Inr ())"

definition validate_state_name :: "string \<Rightarrow> MacroError + unit" where
  "validate_state_name v =
     (if v = [] then Inl (Custom ''`state` cannot be empty'')
      else if CHR ''/'' \<in> set v \<or> CHR 0x5C \<in> set v \<or> str_contains v ''..''
        then Inl (Custom ''`state` must be a single SCXML state identifier, not a path'')
      else Inr ())"

datatype HandlerError =
    HandlerArgs MacroError | ScxmlNotFound string | EscapesRoot string | HandlerRead string | HandlerParse string ParseError
  | UnknownState string "string list"

text \<open>\<open>inside\<close>: the file, with symbolic links followed, lies below the root of the workspace.\<close>

definition load_scxml_source :: "(string \<Rightarrow> bool) \<Rightarrow> ChartDir \<Rightarrow> string \<Rightarrow> HandlerError + string" where
  "load_scxml_source inside dir statechart_name =
     (let file = ''nivasa.'' @ statechart_name @ ''.scxml'' in
      case map_of (List.map_filter id (case dir of Some es \<Rightarrow> es | None \<Rightarrow> [])) file of
        None \<Rightarrow> Inl (ScxmlNotFound statechart_name)
      | Some content \<Rightarrow>
          if \<not> inside file then Inl (EscapesRoot file)
          else (case content of None \<Rightarrow> Inl (HandlerRead file) | Some source \<Rightarrow> Inr source))"

fun read_attr :: "attributes \<Rightarrow> string \<Rightarrow> ParseError + string option" where
  "read_attr [] name = Inr None"
| "read_attr (Inl err # attrs) name = Inl err"
| "read_attr (Inr (key, val) # attrs) name = (if key = name then Inr (Some val) else read_attr attrs name)"

definition state_tag :: "string \<Rightarrow> bool" where
  "state_tag tag \<longleftrightarrow> tag = ''state'' \<or> tag = ''parallel'' \<or> tag = ''final''"

text \<open>The set of ids as the list of its elements, not yet in order.\<close>

fun extract_state_ids :: "XmlEvent list \<Rightarrow> ParseError + string list" where
  "extract_state_ids [] = Inr []"
| "extract_state_ids (XStart tag e # events) =
     (if state_tag tag
      then try_bind (read_attr e ''id'') (\<lambda>i. map_sum id (\<lambda>ids. case i of Some x \<Rightarrow> x # ids | None \<Rightarrow> ids) (extract_state_ids events))
      else extract_state_ids events)"
| "extract_state_ids (XEmpty tag e # events) =
     (if state_tag tag
      then try_bind (read_attr e ''id'') (\<lambda>i. map_sum id (\<lambda>ids. case i of Some x \<Rightarrow> x # ids | None \<Rightarrow> ids) (extract_state_ids events))
      else extract_state_ids events)"
| "extract_state_ids (XError # events) = Inl Xml"
| "extract_state_ids (_ # events) = extract_state_ids events"

definition handler_args_error :: "MacroError + unit \<Rightarrow> HandlerError + unit" where
  "handler_args_error r = map_sum HandlerArgs id r"

definition validate_scxml_handler :: "ChartTools \<Rightarrow> (string \<Rightarrow> bool) \<Rightarrow> ChartDir \<Rightarrow> ScxmlHandlerArgs \<Rightarrow> HandlerError + unit" where
  "validate_scxml_handler T inside dir args =
     (case sh_statechart args of
        None \<Rightarrow> Inl (HandlerArgs (Custom ''missing required `statechart` argument''))
      | Some statechart_name \<Rightarrow>
          (case sh_state args of
             None \<Rightarrow> Inl (HandlerArgs (Custom ''missing required `state` argument''))
           | Some state_name \<Rightarrow>
               try_bind (handler_args_error (validate_statechart_name statechart_name)) (\<lambda>_.
               try_bind (handler_args_error (validate_state_name state_name)) (\<lambda>_.
               try_bind (load_scxml_source inside dir statechart_name) (\<lambda>source.
                 case extract_state_ids (xml_events T source) of
                   Inl err \<Rightarrow> Inl (HandlerParse statechart_name err)
                 | Inr states \<Rightarrow>
                     if state_name \<notin> set states then Inl (UnknownState state_name (sort (remdups states)))
                     else Inr ())))))"

definition scxml_handler_impl :: "ChartTools \<Rightarrow> (string \<Rightarrow> bool) \<Rightarrow> ChartDir \<Rightarrow> Tok list \<Rightarrow> HandlerError + unit" where
  "scxml_handler_impl T inside dir attr =
     try_bind (map_sum HandlerArgs id (parse_handler_args \<lparr>sh_statechart = None, sh_state = None\<rparr> attr))
       (validate_scxml_handler T inside dir)"

section \<open>Parity\<close>

lemma find_str_iff: "find_str p s \<noteq> None \<longleftrightarrow> (\<exists>u v. s = u @ p @ v)"
proof (induction s)
  case (Cons c s)
  have "starts_with (c # s) p \<longleftrightarrow> (\<exists>v. c # s = p @ v)" by (rule starts_with_iff)
  moreover have "(\<exists>u v. c # s = u @ p @ v) \<longleftrightarrow> (\<exists>v. c # s = p @ v) \<or> (\<exists>u v. s = u @ p @ v)"
    by (metis append_Cons append_Nil list.exhaust list.inject)
  ultimately show ?case using Cons.IH by (auto simp del: starts_with_iff)
qed simp

lemma str_containsI: "str_contains (u @ p @ v) p"
  using find_str_iff [of p "u @ p @ v"] by (auto simp: str_contains_def)

lemma generated_contains_hash: "str_contains (generate_rust_with_spec_path (\<lambda>_. hash) doc spec_path) hash"
proof -
  have "\<exists>u v. generate_rust_with_spec_path (\<lambda>_. hash) doc spec_path = u @ hash @ v"
    unfolding generate_rust_with_spec_path_def Let_def by (metis append_assoc)
  then show ?thesis using str_containsI by metis
qed

definition chart_hashes :: "ChartTools \<Rightarrow> (string \<times> string option) list \<Rightarrow> (string \<times> string) set" where
  "chart_hashes T srcs = (\<lambda>(name, content). (name, sha256_hex T (the content))) ` set srcs"

definition parsed_chart :: "ChartTools \<Rightarrow> string \<times> string option \<Rightarrow> bool" where
  "parsed_chart T src \<longleftrightarrow> (\<exists>source. snd src = Some source \<and> \<not> isl (from_events (xml_events T source)))"

definition readable_dir :: "ChartDir \<Rightarrow> bool" where
  "readable_dir dir \<longleftrightarrow> (\<exists>es. dir = Some es \<and> None \<notin> set es)"

abbreviation hash_entry :: "GeneratedChart \<Rightarrow> string \<times> string" where
  "hash_entry c \<equiv> (gc_source_file c, gc_scxml_hash c)"

lemma build_chart_result:
  "build_chart T src out = Inr out' \<Longrightarrow> parsed_chart T src \<and>
   map hash_entry (bo_charts out') = map hash_entry (bo_charts out) @ [(fst src, sha256_hex T (the (snd src)))]"
  by (cases src) (auto simp: build_chart_def parsed_chart_def Let_def split: sum.splits option.splits if_splits)

lemma build_charts_result:
  "build_charts T srcs out = Inr out' \<Longrightarrow> (\<forall>src \<in> set srcs. parsed_chart T src) \<and>
   map hash_entry (bo_charts out') = map hash_entry (bo_charts out) @ map (\<lambda>(n, c). (n, sha256_hex T (the c))) srcs"
proof (induction srcs arbitrary: out)
  case (Cons src srcs)
  then obtain out1 where "build_chart T src out = Inr out1" "build_charts T srcs out1 = Inr out'" by (auto simp: try_bind_Inr)
  with Cons.IH [of out1] build_chart_result [of T src out out1] show ?case by (cases src) auto
qed simp

lemma build_script_result:
  assumes "build_script T dir = Inr out"
  shows "(\<forall>src \<in> set (collect_scxml_sources dir). parsed_chart T src) \<and>
    map hash_entry (bo_charts out) = map (\<lambda>(n, c). (n, sha256_hex T (the c))) (sort_key fst (collect_scxml_sources dir))"
  using assms build_charts_result by (fastforce simp: build_script_def Let_def try_bind_Inr split: if_splits)

lemma registry_map_snoc: "registry_map (cs @ [c]) = (registry_map cs)(gc_source_file c \<mapsto> c)"
  by (simp add: registry_map_def)

lemma registry_map_Some:
  "distinct (map gc_source_file cs) \<Longrightarrow> registry_map cs n = Some c \<longleftrightarrow> c \<in> set cs \<and> gc_source_file c = n"
proof (induction cs rule: rev_induct)
  case (snoc c' cs)
  then show ?case by (auto simp: registry_map_snoc) (metis image_eqI)+
qed (simp add: registry_map_def)

lemma entries_of_eq:
  "entries_of es = (if None \<in> set es then Inl EntryFailed else Inr (filter (\<lambda>(name, _). is_scxml name) (List.map_filter id es)))"
  by (induction es rule: entries_of.induct) (simp_all add: map_filter_simps id_def split: prod.splits)

lemma collect_files:
  "collect_statechart_files dir = Inr files \<longleftrightarrow> readable_dir dir \<and> files = sort_key fst (collect_scxml_sources dir)"
  by (auto simp: collect_statechart_files_def readable_dir_def collect_scxml_sources_def map_sum_eq_Inr entries_of_eq split: option.splits)

lemma parity_file_ok:
  "parity_file T compiled src = Inr name \<longleftrightarrow> name = fst src \<and> parsed_chart T src \<and>
   (\<exists>entry. compiled (fst src) = Some entry \<and> gc_scxml_hash entry = sha256_hex T (the (snd src)))"
  by (cases src) (auto simp: parity_file_def parsed_chart_def Let_def generated_contains_hash split: sum.splits option.splits)

lemma parity_files_ok:
  "parity_files T compiled srcs = Inr names \<longleftrightarrow> names = map fst srcs \<and> (\<forall>src \<in> set srcs. parsed_chart T src \<and>
   (\<exists>entry. compiled (fst src) = Some entry \<and> gc_scxml_hash entry = sha256_hex T (the (snd src))))"
  by (induction srcs arbitrary: names) (auto simp: try_bind_Inr parity_file_ok map_sum_eq_Inr)

definition loads :: "ChartTools \<Rightarrow> ChartDir \<Rightarrow> bool" where
  "loads T dir \<longleftrightarrow> readable_dir dir \<and> (\<forall>src \<in> set (collect_scxml_sources dir). parsed_chart T src)"

lemma parity_command_ok:
  assumes "\<And>xs. set (order xs) = set xs" "distinct (map gc_source_file cs)"
  shows "\<not> isl (parity_command T order dir cs) \<longleftrightarrow> loads T dir \<and>
    (\<forall>(n, c) \<in> set (collect_scxml_sources dir). (n, sha256_hex T (the c)) \<in> hash_entry ` set cs) \<and>
    gc_source_file ` set cs \<subseteq> fst ` set (collect_scxml_sources dir)"
proof (cases "readable_dir dir")
  case True
  let ?srcs = "sort_key fst (collect_scxml_sources dir)"
  let ?ok = "\<forall>src \<in> set (collect_scxml_sources dir). parsed_chart T src \<and>
    (\<exists>entry. registry_map cs (fst src) = Some entry \<and> gc_scxml_hash entry = sha256_hex T (the (snd src)))"
  have files: "collect_statechart_files dir = Inr ?srcs" using True by (simp add: collect_files)
  have hashes: "?ok \<longleftrightarrow> (\<forall>src \<in> set (collect_scxml_sources dir). parsed_chart T src) \<and>
      (\<forall>(n, c) \<in> set (collect_scxml_sources dir). (n, sha256_hex T (the c)) \<in> hash_entry ` set cs)"
    unfolding registry_map_Some [OF assms(2)] by (fastforce simp: image_iff)
  show ?thesis
  proof (cases "parity_files T (registry_map cs) ?srcs")
    case (Inl e)
    then have "\<not> ?ok" using parity_files_ok [of T "registry_map cs" ?srcs "map fst ?srcs"] by auto
    then have "\<not> (loads T dir \<and> (\<forall>(n, c) \<in> set (collect_scxml_sources dir). (n, sha256_hex T (the c)) \<in> hash_entry ` set cs))"
      unfolding hashes loads_def by blast
    then show ?thesis using Inl by (auto simp: parity_command_def files)
  next
    case (Inr names)
    then have ok: "?ok" "names = map fst ?srcs" using parity_files_ok by fastforce+
    have "\<not> isl (parity_command T order dir cs) \<longleftrightarrow> find (\<lambda>name. name \<notin> set names) (order (remdups (map gc_source_file cs))) = None"
      by (simp add: parity_command_def files Inr split: option.splits)
    also have "\<dots> \<longleftrightarrow> gc_source_file ` set cs \<subseteq> fst ` set (collect_scxml_sources dir)"
      using assms(1) ok(2) by (auto simp: find_None_iff)
    finally show ?thesis using ok(1) hashes True by (simp add: loads_def)
  qed
next
  case False
  then obtain e where "collect_statechart_files dir = Inl e"
    by (cases "collect_statechart_files dir") (auto simp: collect_files)
  then show ?thesis using False by (simp add: parity_command_def loads_def)
qed

text \<open>C39: after a build, the parity command succeeds on a directory of charts exactly when every chart file in it can be
  read and parsed and the names of the files with the hashes of their texts are those of the charts the crate was built
  from: no chart was changed, added or removed.\<close>

theorem parity_means_unchanged:
  assumes "build_script T dir = Inr out"
    and "distinct (map fst (collect_scxml_sources dir))" "distinct (map fst (collect_scxml_sources dir'))"
    and "\<And>xs. set (order xs) = set xs"
  shows "\<not> isl (parity_command T order dir' (bo_charts out)) \<longleftrightarrow>
    loads T dir' \<and> chart_hashes T (collect_scxml_sources dir') = chart_hashes T (collect_scxml_sources dir)"
proof -
  have built: "map hash_entry (bo_charts out) = map (\<lambda>(n, c). (n, sha256_hex T (the c))) (sort_key fst (collect_scxml_sources dir))"
    using build_script_result [OF assms(1)] by blast
  have entries: "hash_entry ` set (bo_charts out) = chart_hashes T (collect_scxml_sources dir)"
    using arg_cong [OF built, of set] by (simp add: chart_hashes_def)
  have names: "map gc_source_file (bo_charts out) = map fst (sort_key fst (collect_scxml_sources dir))"
    using arg_cong [OF built, of "map fst"] by (simp add: comp_def case_prod_unfold)
  have uniq: "distinct (map gc_source_file (bo_charts out))"
    unfolding names using assms(2) by (simp add: distinct_map)
  have keys: "gc_source_file ` set (bo_charts out) = fst ` set (collect_scxml_sources dir)"
    using arg_cong [OF names, of set] by simp
  let ?A = "set (collect_scxml_sources dir')" and ?B = "set (collect_scxml_sources dir)"
  let ?h = "\<lambda>(n, c). (n, sha256_hex T (the c))"
  have "(\<forall>(n, c) \<in> ?A. (n, sha256_hex T (the c)) \<in> ?h ` ?B) \<and> fst ` ?B \<subseteq> fst ` ?A \<longleftrightarrow> ?h ` ?A = ?h ` ?B"
  proof
    assume l: "(\<forall>(n, c) \<in> ?A. (n, sha256_hex T (the c)) \<in> ?h ` ?B) \<and> fst ` ?B \<subseteq> fst ` ?A"
    have "?h b \<in> ?h ` ?A" if b: "b \<in> ?B" for b
    proof -
      obtain a where a: "a \<in> ?A" "fst a = fst b" using l b by (metis image_iff subsetD)
      then obtain b' where "b' \<in> ?B" "?h a = ?h b'" using l by fastforce
      then have "b' = b" using a(2) b assms(2) by (metis (no_types, lifting) case_prod_unfold distinct_map fst_conv inj_onD)
      then show ?thesis using a(1) \<open>?h a = ?h b'\<close> by (metis imageI)
    qed
    then show "?h ` ?A = ?h ` ?B" using l by (intro equalityI subsetI) fastforce+
  next
    assume eq: "?h ` ?A = ?h ` ?B"
    have "case a of (n, c) \<Rightarrow> (n, sha256_hex T (the c)) \<in> ?h ` ?B" if "a \<in> ?A" for a
    proof -
      have "?h a \<in> ?h ` ?B" using that unfolding eq [symmetric] by (rule imageI)
      then show ?thesis by (cases a) simp
    qed
    moreover have "fst ` ?B = fst ` ?A"
    proof -
      have "fst ` ?h ` ?A = fst ` ?A" "fst ` ?h ` ?B = fst ` ?B" by (simp_all add: image_image case_prod_unfold)
      then show ?thesis using eq by simp
    qed
    ultimately show "(\<forall>(n, c) \<in> ?A. (n, sha256_hex T (the c)) \<in> ?h ` ?B) \<and> fst ` ?B \<subseteq> fst ` ?A" by blast
  qed
  then show ?thesis
    unfolding parity_command_ok [OF assms(4) uniq] entries keys by (simp add: chart_hashes_def)
qed

section \<open>The handler macro\<close>

lemma read_attr_get_attr: "read_attr e name = get_attr e name"
  by (induction e name rule: read_attr.induct) auto

text \<open>The ids that the parser makes up for elements without one.\<close>

definition generated_id :: "string \<Rightarrow> bool" where
  "generated_id i \<longleftrightarrow> (\<exists>n. i = ''__anonymous_'' @ show_nat n \<or> i = ''__parallel_'' @ show_nat n \<or> i = ''__final_'' @ show_nat n)"

lemma keys_link_child: "keys (ps_states (link_child i ps)) = keys (ps_states ps)"
  by (simp add: link_child_def keys_al_modify split: option.splits)

lemma keys_add_state: "keys (ps_states (add_state i ty initial ps)) = insert i (keys (ps_states ps))"
  by (simp add: add_state_def Let_def keys_al_insert keys_link_child)

lemma states_enter_element: "ps_states (enter_element e i ps) = ps_states ps"
  by (simp add: enter_element_def)

lemma keys_on_current: "keys (ps_states (on_current f ps)) = keys (ps_states ps)"
  by (simp add: on_current_def keys_al_modify split: option.splits)

lemma keys_handle_element:
  assumes "handle_element tag e b ps = Inr ps'"
  shows "if state_tag tag
    then \<exists>i0. get_attr e ''id'' = Inr i0 \<and>
      (\<exists>i. keys (ps_states ps') = insert i (keys (ps_states ps)) \<and> (case i0 of Some x \<Rightarrow> i = x | None \<Rightarrow> generated_id i))
    else keys (ps_states ps') = keys (ps_states ps)"
proof (cases "state_tag tag")
  case True
  define made where "made = (if tag = ''state'' then ''__anonymous_'' else if tag = ''parallel'' then ''__parallel_'' else ''__final_'')
    @ show_nat (length (ps_states ps))"
  have made: "generated_id made" by (auto simp: generated_id_def made_def)
  obtain i0 where i0: "get_attr e ''id'' = Inr i0"
    using assms True by (auto simp: state_tag_def handle_element_def try_bind_Inr)
  have keys: "keys (ps_states ps') = insert (case i0 of Some x \<Rightarrow> x | None \<Rightarrow> made) (keys (ps_states ps))"
    using assms True i0 unfolding state_tag_def handle_element_def made_def
    by (cases i0) (elim disjE; simp add: try_bind_Inr Let_def; auto simp: states_enter_element keys_add_state)+
  show ?thesis using True i0 keys made by (cases i0) auto
next
  case False
  then show ?thesis using assms
    by (auto simp: state_tag_def handle_element_def try_bind_Inr keys_on_current split: if_splits)
qed

lemma states_handle_end: "ps_states (handle_end tag ps) = ps_states ps"
  by (simp add: handle_end_def Let_def)

definition ids_ok :: "string set \<Rightarrow> string list \<Rightarrow> string set \<Rightarrow> bool" where
  "ids_ok before ids after \<longleftrightarrow> (\<exists>gen. (\<forall>i \<in> gen. generated_id i) \<and> after = before \<union> set ids \<union> gen)"

lemma ids_ok_element:
  assumes "handle_element tag e b ps = Inr ps1" "ids_ok (keys (ps_states ps1)) ids after" "extract_state_ids events = Inr ids"
  shows "\<exists>ids'. (if state_tag tag
      then try_bind (read_attr e ''id'') (\<lambda>i. map_sum id (\<lambda>ids. case i of Some x \<Rightarrow> x # ids | None \<Rightarrow> ids) (extract_state_ids events))
      else extract_state_ids events) = Inr ids' \<and> ids_ok (keys (ps_states ps)) ids' after"
proof (cases "state_tag tag")
  case True
  then obtain i0 i where i: "get_attr e ''id'' = Inr i0" "keys (ps_states ps1) = insert i (keys (ps_states ps))"
    "case i0 of Some x \<Rightarrow> i = x | None \<Rightarrow> generated_id i"
    using keys_handle_element [OF assms(1)] by auto
  obtain gen where gen: "\<forall>i \<in> gen. generated_id i" "after = insert i (keys (ps_states ps)) \<union> set ids \<union> gen"
    using assms(2) i(2) by (auto simp: ids_ok_def)
  show ?thesis
  proof (cases i0)
    case None
    then have "ids_ok (keys (ps_states ps)) ids after" using i gen unfolding ids_ok_def by (intro exI [of _ "insert i gen"]) auto
    then show ?thesis using True assms(3) i(1) None by (simp add: read_attr_get_attr)
  next
    case (Some x)
    then have "ids_ok (keys (ps_states ps)) (x # ids) after" using i gen unfolding ids_ok_def by (intro exI [of _ gen]) auto
    then show ?thesis using True assms(3) i(1) Some by (simp add: read_attr_get_attr)
  qed
next
  case False
  then show ?thesis using keys_handle_element [OF assms(1)] assms(2,3) by simp
qed

lemma extract_ids_ok:
  "parse_loop events ps = Inr ps' \<Longrightarrow> \<exists>ids. extract_state_ids events = Inr ids \<and> ids_ok (keys (ps_states ps)) ids (keys (ps_states ps'))"
proof (induction events ps rule: parse_loop.induct)
  case (1 ps)
  then show ?case by (auto simp: ids_ok_def)
next
  case (2 tag e events ps)
  then obtain ps1 where ps1: "handle_element tag e False ps = Inr ps1" "parse_loop events ps1 = Inr ps'" by (auto simp: try_bind_Inr)
  from "2.IH" [OF this(2)] obtain ids where "extract_state_ids events = Inr ids" "ids_ok (keys (ps_states ps1)) ids (keys (ps_states ps'))" by blast
  from ids_ok_element [OF ps1(1) this(2,1)] show ?case by simp
next
  case (3 tag e events ps)
  then obtain ps1 where ps1: "handle_element tag e True ps = Inr ps1" "parse_loop events ps1 = Inr ps'" by (auto simp: try_bind_Inr)
  from "3.IH" [OF this(2)] obtain ids where "extract_state_ids events = Inr ids" "ids_ok (keys (ps_states ps1)) ids (keys (ps_states ps'))" by blast
  from ids_ok_element [OF ps1(1) this(2,1)] show ?case by simp
next
  case (4 tag events ps)
  then show ?case by (simp add: states_handle_end)
qed simp_all

lemma extracted_states:
  assumes "from_events events = Inr doc"
  shows "\<exists>ids. extract_state_ids events = Inr ids \<and> (\<forall>s. \<not> generated_id s \<longrightarrow> s \<in> set ids \<longleftrightarrow> has_state doc s)"
proof -
  obtain ps where ps: "parse_loop events parser_init = Inr ps" "doc_states doc = ps_states ps"
    using assms by (auto simp: from_events_def try_bind_Inr split: option.splits)
  obtain ids where "extract_state_ids events = Inr ids" "ids_ok (keys (ps_states parser_init)) ids (keys (ps_states ps))"
    using extract_ids_ok [OF ps(1)] by blast
  then show ?thesis using ps(2) by (auto simp: ids_ok_def has_state_keys parser_init_def keys_def)
qed

lemma collected_states: "s \<in> set (collect_states doc) \<longleftrightarrow> has_state doc s"
  by (auto simp: collect_states_def has_state_keys keys_def)

definition bare_name :: "string \<Rightarrow> bool" where
  "bare_name v \<longleftrightarrow> v \<noteq> [] \<and> (\<forall>c \<in> set v. is_ascii_alphanumeric c \<or> c = CHR ''_'' \<or> c = CHR ''-'')"

lemma str_contains_set: "str_contains v p \<Longrightarrow> set p \<subseteq> set v"
  using find_str_iff [of p v] by (auto simp: str_contains_def)

lemma valid_statechart_name: "validate_statechart_name v = Inr () \<longleftrightarrow> bare_name v"
proof -
  have "CHR ''/'' \<notin> set v \<and> CHR 0x5C \<notin> set v \<and> CHR ''.'' \<notin> set v" if "bare_name v"
    using that by (auto simp: bare_name_def is_ascii_alphanumeric_def Let_def)
  moreover from this have "\<not> str_contains v ''..''" if "bare_name v"
    using that str_contains_set [of v "''..''"] by auto
  ultimately show ?thesis by (auto simp: validate_statechart_name_def bare_name_def list_all_iff)
qed


section \<open>The charts of the framework\<close>

text \<open>A directory with the request chart, whose text is abbreviated to a word here, and tools for it.\<close>

definition demo_tools :: ChartTools where
  "demo_tools = \<lparr>xml_events = (\<lambda>source. if source = ''request'' then request_scxml else small_scxml), sha256_hex = (\<lambda>source. source),
     load_schema = Inr (), validate_file = (\<lambda>_ _. Inr ())\<rparr>"

definition demo_dir :: "string \<Rightarrow> ChartDir" where
  "demo_dir source = Some [Some (''README.md'', None), Some (''nivasa.request.scxml'', Some source)]"

lemma demo_sources: "collect_scxml_sources (demo_dir source) = [(''nivasa.request.scxml'', Some source)]"
  by (simp add: demo_dir_def collect_scxml_sources_def map_filter_simps is_scxml_def path_extension_def strip_prefix_def starts_with_def)

lemma built_demo: "\<exists>out. build_script demo_tools (demo_dir ''request'') = Inr out"
  using request_validated
  by (simp add: build_script_def demo_sources build_chart_def validate_scxml_schema_def demo_tools_def request_parsed is_valid_def Let_def)

theorem parity_means_unchanged_witness:
  "\<exists>out. build_script demo_tools (demo_dir ''request'') = Inr out \<and>
     \<not> isl (parity_command demo_tools rev (demo_dir ''request'') (bo_charts out)) \<and>
     isl (parity_command demo_tools rev (demo_dir ''changed'') (bo_charts out))"
proof -
  obtain out where out: "build_script demo_tools (demo_dir ''request'') = Inr out" using built_demo by blast
  have one: "distinct (map fst (collect_scxml_sources (demo_dir source)))" for source by (simp add: demo_sources)
  have parity: "\<not> isl (parity_command demo_tools rev (demo_dir source) (bo_charts out)) \<longleftrightarrow> loads demo_tools (demo_dir source) \<and>
      chart_hashes demo_tools (collect_scxml_sources (demo_dir source)) = chart_hashes demo_tools (collect_scxml_sources (demo_dir ''request''))" for source
    by (rule parity_means_unchanged [OF out one one]) simp
  have "loads demo_tools (demo_dir ''request'')"
    by (simp add: loads_def readable_dir_def demo_dir_def) (simp add: demo_sources [unfolded demo_dir_def] parsed_chart_def demo_tools_def request_parsed)
  moreover have "chart_hashes demo_tools (collect_scxml_sources (demo_dir ''changed'')) \<noteq> chart_hashes demo_tools (collect_scxml_sources (demo_dir ''request''))"
    by (simp add: demo_sources chart_hashes_def demo_tools_def)
  ultimately show ?thesis using out parity by auto
qed


text \<open>Two charts can be given the same file: the later one overwrites the code of the earlier one, and the registry
  includes it twice.\<close>

lemma generated_names_collide: "generated_file_name ''nivasa.request.scxml'' = generated_file_name ''request.scxml''"
  by code_simp

text \<open>A state without an id is in the generated code, but no handler can name it.\<close>

lemma anonymous_state_unknown:
  "\<exists>doc. from_events [XStart ''scxml'' [], XEmpty ''state'' []] = Inr doc \<and> has_state doc ''__anonymous_0'' \<and>
     extract_state_ids [XStart ''scxml'' [], XEmpty ''state'' []] = Inr []"
proof -
  have "\<not> isl (from_events [XStart ''scxml'' [], XEmpty ''state'' []])" by code_simp
  moreover have "has_state (projr (from_events [XStart ''scxml'' [], XEmpty ''state'' []])) ''__anonymous_0''" by code_simp
  moreover have "extract_state_ids [XStart ''scxml'' [], XEmpty ''state'' []] = Inr []" by code_simp
  ultimately show ?thesis by (metis sum.collapse(2))
qed

end
