(* ===== verification/Chart_Diagram.thy ===== *)
theory Chart_Diagram
  imports Chart_Build
begin

text \<open>
  The diagrams of charts and the inspection of a running application (\<open>nivasa-cli/src/statechart.rs\<close>). All coordinates of a
  diagram are whole numbers: the floating point numbers of the code are exact on them, and are natural numbers here.
\<close>

section \<open>Layout\<close>

record LayoutNode =
  ln_label :: string
  ln_subtitle :: string
  ln_kind :: StateType
  ln_x :: nat
  ln_y :: nat
  ln_width :: nat
  ln_height :: nat

record LayoutEdge =
  le_from_x :: nat
  le_from_y :: nat
  le_to_x :: nat
  le_to_y :: nat
  le_label :: string

definition subtitle_of :: "StateType \<Rightarrow> string" where
  "subtitle_of ty = (case ty of Atomic \<Rightarrow> ''atomic'' | Compound \<Rightarrow> ''compound'' | Parallel \<Rightarrow> ''parallel'' | Final \<Rightarrow> ''final'')"

text \<open>\<open>str::len\<close> counts the bytes of UTF-8.\<close>

definition utf8_width :: "string \<Rightarrow> nat" where
  "utf8_width s = sum_list (map (\<lambda>c. if (of_char c :: nat) < 128 then 1 else 2) s)"

definition box_width :: "string \<Rightarrow> string \<Rightarrow> nat" where
  "box_width label subtitle = min 220 (max 120 (max (utf8_width label) (utf8_width subtitle) * 8))"

definition layout_node :: "State \<Rightarrow> nat \<Rightarrow> nat \<Rightarrow> LayoutNode" where
  "layout_node st depth y =
     (let label = st_id st; subtitle = subtitle_of (st_type st) in
      \<lparr>ln_label = label, ln_subtitle = subtitle, ln_kind = st_type st, ln_x = 40 + depth * 240, ln_y = y,
       ln_width = box_width label subtitle, ln_height = 54\<rparr>)"

text \<open>The nested function \<open>visit\<close>: the calls still to be made, with their depths, are in a list, those of the children
  of a state first.\<close>

function visit_states ::
  "ScxmlDocument \<Rightarrow> (StateId \<times> nat) list \<Rightarrow> nat \<Rightarrow> LayoutNode list \<Rightarrow> StateId list \<Rightarrow> LayoutNode list" where
  "visit_states doc [] y ordered visited = ordered"
| "visit_states doc ((state_id, depth) # calls) y ordered visited =
     (if state_id \<in> set visited then visit_states doc calls y ordered visited
      else case map_of (doc_states doc) state_id of
        None \<Rightarrow> visit_states doc calls y ordered (state_id # visited)
      | Some st \<Rightarrow>
          visit_states doc (map (\<lambda>child. (child, depth + 1)) (st_children st) @ calls) (y + 92)
            (ordered @ [layout_node st depth y]) (state_id # visited))"
  by pat_completeness auto
termination
proof (relation "measures [\<lambda>(doc, calls, y, ordered, visited). card (keys (doc_states doc) - set visited), \<lambda>(doc, calls, y, ordered, visited). length calls]")
  fix doc and state_id :: StateId and depth y and calls :: "(StateId \<times> nat) list" and ordered :: "LayoutNode list"
    and visited :: "StateId list" and st
  assume new: "state_id \<notin> set visited"
  have finite: "finite (keys (doc_states doc) - set visited)" by (simp add: keys_def)
  { assume "map_of (doc_states doc) state_id = None"
    then have "keys (doc_states doc) - set (state_id # visited) = keys (doc_states doc) - set visited"
      by (auto simp: keys_def map_of_eq_None_iff)
    then show "((doc, calls, y, ordered, state_id # visited), doc, (state_id, depth) # calls, y, ordered, visited)
      \<in> measures [\<lambda>(doc, calls, y, ordered, visited). card (keys (doc_states doc) - set visited), \<lambda>(doc, calls, y, ordered, visited). length calls]"
      by simp }
  assume "map_of (doc_states doc) state_id = Some st"
  then have "state_id \<in> keys (doc_states doc)" by (force simp: keys_def dest: map_of_SomeD)
  then have "card (keys (doc_states doc) - set (state_id # visited)) < card (keys (doc_states doc) - set visited)"
    using new by (intro psubset_card_mono finite) auto
  then show "((doc, map (\<lambda>child. (child, depth + 1)) (st_children st) @ calls, y + 92, ordered @ [layout_node st depth y], state_id # visited),
      doc, (state_id, depth) # calls, y, ordered, visited)
    \<in> measures [\<lambda>(doc, calls, y, ordered, visited). card (keys (doc_states doc) - set visited), \<lambda>(doc, calls, y, ordered, visited). length calls]"
    by simp
qed simp_all

definition layout_nodes :: "ScxmlDocument \<Rightarrow> LayoutNode list" where
  "layout_nodes doc = visit_states doc (map (\<lambda>i. (i, 0)) (doc_top_level doc)) 90 [] []"

definition node_map :: "LayoutNode list \<Rightarrow> string \<rightharpoonup> LayoutNode" where
  "node_map nodes = map_of (rev (map (\<lambda>n. (ln_label n, n)) nodes))"

definition edge_of :: "(string \<rightharpoonup> LayoutNode) \<Rightarrow> LayoutNode \<Rightarrow> Transition \<Rightarrow> LayoutEdge option" where
  "edge_of nodes start tr =
     (case tr_target tr of
        [] \<Rightarrow> None
      | target # _ \<Rightarrow>
          (case nodes target of
             None \<Rightarrow> None
           | Some end' \<Rightarrow> Some
               \<lparr>le_from_x = ln_x start + ln_width start, le_from_y = ln_y start + ln_height start div 2,
                le_to_x = ln_x end', le_to_y = ln_y end' + ln_height end' div 2,
                le_label = (case tr_event tr of Some event \<Rightarrow> event | None \<Rightarrow> ''eventless'')\<rparr>))"

definition collect_edges :: "ScxmlDocument \<Rightarrow> LayoutNode list \<Rightarrow> LayoutEdge list" where
  "collect_edges doc nodes =
     concat (map (\<lambda>st. case node_map nodes (st_id st) of
         None \<Rightarrow> []
       | Some start \<Rightarrow> List.map_filter (edge_of (node_map nodes) start) (st_transitions st)) (state_values doc))"

definition picture_width :: "LayoutNode list \<Rightarrow> nat" where
  "picture_width nodes = fold max (map (\<lambda>n. ln_x n + ln_width n) nodes) 0 + 80"

definition picture_height :: "LayoutNode list \<Rightarrow> nat" where
  "picture_height nodes = fold max (map (\<lambda>n. ln_y n + ln_height n) nodes) 0 + 80"

section \<open>Drawing\<close>

definition xml_entity :: "char \<Rightarrow> string" where
  "xml_entity c = (if c = CHR ''&'' then ''&amp;'' else if c = CHR ''<'' then ''&lt;'' else if c = CHR ''>'' then ''&gt;''
     else if c = CHR 0x22 then ''&quot;'' else if c = CHR 0x27 then ''&apos;'' else [c])"

text \<open>Five replacements, one character each, the ampersand first.\<close>

definition replaced :: "char \<Rightarrow> string \<Rightarrow> string" where
  "replaced c s = concat (map (\<lambda>x. if x = c then xml_entity c else [x]) s)"

definition escape_xml :: "string \<Rightarrow> string" where
  "escape_xml s =
     replaced (CHR 0x27) (replaced (CHR 0x22) (replaced CHR ''>'' (replaced CHR ''<'' (replaced CHR ''&'' s))))"

text \<open>\<open>{:.1}\<close> of a whole number.\<close>

definition fixed1 :: "nat \<Rightarrow> string" where
  "fixed1 n = show_nat n @ ''.0''"

definition attr :: "string \<Rightarrow> string \<Rightarrow> string" where
  "attr name v = '' '' @ name @ ''='' @ quote @ v @ quote"

definition text_font :: string where
  "text_font = attr ''font-family'' ''Inter, system-ui, sans-serif''"

definition svg_edge :: "LayoutEdge \<Rightarrow> string" where
  "svg_edge e =
     ''<path'' @ attr ''d'' (''M '' @ fixed1 (le_from_x e) @ '' '' @ fixed1 (le_from_y e) @ '' L '' @ fixed1 (le_to_x e) @ '' '' @ fixed1 (le_to_y e)) @
     attr ''fill'' ''none'' @ attr ''stroke'' ''#64748b'' @ attr ''stroke-width'' ''1.5'' @ attr ''marker-end'' ''url(#arrowhead)'' @ ''/>'' @ nl @
     ''<text'' @ attr ''x'' (fixed1 ((le_from_x e + le_to_x e) div 2)) @ attr ''y'' (fixed1 ((le_from_y e + le_to_y e) div 2 - 4)) @
     text_font @ attr ''font-size'' ''10'' @ attr ''fill'' ''#475569'' @ ''>'' @ escape_xml (le_label e) @ ''</text>'' @ nl"

definition fill_of :: "StateType \<Rightarrow> string" where
  "fill_of ty = (case ty of Final \<Rightarrow> ''#d1fae5'' | Parallel \<Rightarrow> ''#e0e7ff'' | Compound \<Rightarrow> ''#fef3c7'' | Atomic \<Rightarrow> ''#ffffff'')"

definition stroke_of :: "StateType \<Rightarrow> string" where
  "stroke_of ty = (case ty of Final \<Rightarrow> ''#10b981'' | Parallel \<Rightarrow> ''#6366f1'' | Compound \<Rightarrow> ''#d97706'' | Atomic \<Rightarrow> ''#94a3b8'')"

definition centred_text :: "LayoutNode \<Rightarrow> nat \<Rightarrow> string \<Rightarrow> string \<Rightarrow> string" where
  "centred_text n dy style s =
     ''<text'' @ attr ''x'' (fixed1 (ln_x n + ln_width n div 2)) @ attr ''y'' (fixed1 (ln_y n + dy)) @ attr ''text-anchor'' ''middle'' @
     text_font @ style @ ''>'' @ escape_xml s @ ''</text>'' @ nl"

definition svg_node :: "LayoutNode \<Rightarrow> string" where
  "svg_node n =
     ''<rect'' @ attr ''x'' (fixed1 (ln_x n)) @ attr ''y'' (fixed1 (ln_y n)) @ attr ''width'' (fixed1 (ln_width n)) @
     attr ''height'' (fixed1 (ln_height n)) @ attr ''rx'' ''12'' @ attr ''ry'' ''12'' @ attr ''fill'' (fill_of (ln_kind n)) @
     attr ''stroke'' (stroke_of (ln_kind n)) @ attr ''stroke-width'' ''1.5'' @ ''/>'' @ nl @
     centred_text n 22 (attr ''font-size'' ''12'' @ attr ''font-weight'' ''600'' @ attr ''fill'' ''#0f172a'') (ln_label n) @
     centred_text n 39 (attr ''font-size'' ''10'' @ attr ''fill'' ''#475569'') (ln_subtitle n)"

definition render_svg :: "string \<Rightarrow> ScxmlDocument \<Rightarrow> string" where
  "render_svg content_hash doc =
     (let nodes = layout_nodes doc; width = show_nat (picture_width nodes); height = show_nat (picture_height nodes);
          name = escape_xml (raw_chart_name doc)
      in ''<svg'' @ attr ''xmlns'' ''http://www.w3.org/2000/svg'' @ attr ''width'' width @ attr ''height'' height @
         attr ''viewBox'' (''0 0 '' @ width @ '' '' @ height) @ attr ''role'' ''img'' @ attr ''aria-label'' (name @ '' statechart'') @ ''>'' @ nl @
         ''<defs><marker'' @ attr ''id'' ''arrowhead'' @ attr ''markerWidth'' ''10'' @ attr ''markerHeight'' ''7'' @ attr ''refX'' ''9'' @
         attr ''refY'' ''3.5'' @ attr ''orient'' ''auto'' @ ''><polygon'' @ attr ''points'' ''0 0, 10 3.5, 0 7'' @ attr ''fill'' ''#334155'' @
         ''/></marker></defs>'' @
         ''<rect'' @ attr ''x'' ''0'' @ attr ''y'' ''0'' @ attr ''width'' ''100%'' @ attr ''height'' ''100%'' @ attr ''fill'' ''#f8fafc'' @ ''/>'' @
         ''<text'' @ attr ''x'' ''32'' @ attr ''y'' ''32'' @ text_font @ attr ''font-size'' ''18'' @ attr ''font-weight'' ''700'' @
         attr ''fill'' ''#0f172a'' @ ''>'' @ name @ ''</text>'' @ nl @
         ''<text'' @ attr ''x'' ''32'' @ attr ''y'' ''54'' @ text_font @ attr ''font-size'' ''11'' @ attr ''fill'' ''#475569'' @ ''>SCXML hash: '' @
         escape_xml content_hash @ ''</text>'' @ nl @
         concat (map svg_edge (collect_edges doc nodes)) @ concat (map svg_node nodes) @ ''</svg>'' @ nl)"

definition render_statechart_svg :: "ChartTools \<Rightarrow> string \<times> string option \<Rightarrow> CliError + string" where
  "render_statechart_svg T src =
     (case src of
        (name, None) \<Rightarrow> Inl (CliRead name)
      | (name, Some source) \<Rightarrow>
          (case from_events (xml_events T source) of
             Inl err \<Rightarrow> Inl (CliParse name err)
           | Inr document \<Rightarrow> Inr (render_svg (sha256_hex T source) document)))"

fun render_all :: "ChartTools \<Rightarrow> (string \<times> string option) list \<Rightarrow> CliError + (string \<times> string) list" where
  "render_all T [] = Inr []"
| "render_all T (src # srcs) =
     try_bind (render_statechart_svg T src) (\<lambda>svg. map_sum id ((#) (fst src, svg)) (render_all T srcs))"

definition print_diagrams :: "(string \<times> string) list \<Rightarrow> string" where
  "print_diagrams outputs = join nl (map (\<lambda>(p, svg). ''<!-- '' @ p @ '' -->'' @ nl @ svg) outputs)"

definition visualize_command ::
  "ChartTools \<Rightarrow> (string \<Rightarrow> string option option) \<Rightarrow> (string \<Rightarrow> string option option) \<Rightarrow> ChartDir \<Rightarrow> string option \<Rightarrow> CliError + string" where
  "visualize_command T as_is below dir file =
     map_sum id print_diagrams
       (try_bind (case file of Some f \<Rightarrow> map_sum id (\<lambda>src. [src]) (resolve_statechart_path as_is below f) | None \<Rightarrow> collect_statechart_files dir)
         (render_all T))"

section \<open>Inspection and differences\<close>

record HttpResponse =
  hr_status :: "16 word"
  hr_reason :: string
  hr_body :: string

text \<open>\<open>str::parse::<u16>\<close>.\<close>

definition parse_u16 :: "string \<Rightarrow> 16 word option" where
  "parse_u16 s =
     (let digits = (case strip_prefix s ''+'' of Some ds \<Rightarrow> ds | None \<Rightarrow> s);
          val = foldl (\<lambda>n c. 10 * n + (of_char c - 48 :: nat)) 0 digits
      in if digits \<noteq> [] \<and> list_all (\<lambda>c. 48 \<le> (of_char c :: nat) \<and> (of_char c :: nat) \<le> 57) digits \<and> val < 65536
         then Some (of_nat val) else None)"

text \<open>The first item of \<open>str::lines\<close>.\<close>

definition first_line :: "string \<Rightarrow> string option" where
  "first_line s =
     (if s = [] then None
      else case split_once (CHR 0x0A) s of
        Some (line, _) \<Rightarrow> Some (if line \<noteq> [] \<and> last line = CHR 0x0D then butlast line else line)
      | None \<Rightarrow> Some s)"

definition parse_raw_http_response :: "string \<Rightarrow> string + HttpResponse" where
  "parse_raw_http_response raw =
     (let (header_block, body) =
        (case find_str [CHR 0x0D, CHR 0x0A, CHR 0x0D, CHR 0x0A] raw of Some k \<Rightarrow> (take k raw, drop (k + 4) raw) | None \<Rightarrow> (raw, []))
      in case first_line header_block of
           None \<Rightarrow> Inl ''missing HTTP status line''
         | Some status_line \<Rightarrow>
             (case split_once CHR '' '' status_line of
                None \<Rightarrow> Inl ''invalid HTTP status code''
              | Some (_, rest) \<Rightarrow>
                  (let (code, reason) = (case split_once CHR '' '' rest of Some p \<Rightarrow> p | None \<Rightarrow> (rest, []))
                   in case parse_u16 code of
                        None \<Rightarrow> Inl ''invalid HTTP status code''
                      | Some status \<Rightarrow> Inr \<lparr>hr_status = status, hr_reason = reason, hr_body = body\<rparr>)))"

definition http_request :: "string \<Rightarrow> 16 word \<Rightarrow> string \<Rightarrow> string" where
  "http_request host port p =
     (let crlf = [CHR 0x0D, CHR 0x0A] in
      ''GET '' @ p @ '' HTTP/1.1'' @ crlf @ ''Host: '' @ host @ '':'' @ show_nat (unat port) @ crlf @
      ''Accept: application/json'' @ crlf @ ''Connection: close'' @ crlf @ crlf)"

text \<open>\<open>exchange\<close> sends a request over a new connection and reads the answer to its end.\<close>

definition http_get :: "(string \<Rightarrow> string + string) \<Rightarrow> string \<Rightarrow> 16 word \<Rightarrow> string \<Rightarrow> string + HttpResponse" where
  "http_get exchange host port p = try_bind (exchange (http_request host port p)) parse_raw_http_response"

definition inspection_endpoints :: "string list" where
  "inspection_endpoints = [''/_nivasa/statechart'', ''/_nivasa/statechart/scxml'', ''/_nivasa/statechart/transitions'']"

fun inspect_endpoints ::
  "(string \<Rightarrow> string + string) \<Rightarrow> (string \<Rightarrow> string option) \<Rightarrow> string \<Rightarrow> 16 word \<Rightarrow> string list \<Rightarrow> string list \<Rightarrow> string option \<Rightarrow>
   string list \<times> string option" where
  "inspect_endpoints exchange pretty host port [] rendered last_error = (rendered, last_error)"
| "inspect_endpoints exchange pretty host port (p # ps) rendered last_error =
     (let place = host @ '':'' @ show_nat (unat port) @ p in
      case http_get exchange host port p of
        Inl err \<Rightarrow> inspect_endpoints exchange pretty host port ps rendered (Some err)
      | Inr response \<Rightarrow>
          if hr_status response = 200 then
            inspect_endpoints exchange pretty host port ps
              (rendered @ [''== '' @ place @ '' =='' @ nl @ (case pretty (hr_body response) of Some s \<Rightarrow> s | None \<Rightarrow> hr_body response)]) last_error
          else
            inspect_endpoints exchange pretty host port ps rendered
              (Some (place @ '' returned HTTP '' @ show_nat (unat (hr_status response)) @ '' '' @ hr_reason response)))"

definition inspect_statechart ::
  "(string \<Rightarrow> string + string) \<Rightarrow> (string \<Rightarrow> string option) \<Rightarrow> string \<Rightarrow> 16 word \<Rightarrow> string + string" where
  "inspect_statechart exchange pretty host port =
     (case inspect_endpoints exchange pretty host port inspection_endpoints [] None of
        ([], Some err) \<Rightarrow> Inl err
      | ([], None) \<Rightarrow> Inl (''no statechart debug endpoint responded on '' @ host @ '':'' @ show_nat (unat port))
      | (rendered, _) \<Rightarrow> Inr (join (nl @ nl) rendered))"

definition git_diff_args :: "string \<Rightarrow> string list" where
  "git_diff_args revision = [''diff'', ''--no-ext-diff'', ''--unified=1'', revision, ''--'', ''statecharts'']"

text \<open>\<open>git\<close> runs with its arguments and yields success, its standard output and its standard error.\<close>

definition diff_statecharts :: "(string list \<Rightarrow> (bool \<times> string \<times> string) option) \<Rightarrow> string \<Rightarrow> string + string" where
  "diff_statecharts git revision =
     (case git (git_diff_args revision) of
        None \<Rightarrow> Inl ''failed to run git diff''
      | Some (ok, out, err) \<Rightarrow>
          if \<not> ok then Inl (trim err)
          else if trim out = [] then Inr (''No SCXML differences found against '' @ revision @ ''.'')
          else Inr out)"

section \<open>The boxes of a diagram\<close>

definition child_edges :: "ScxmlDocument \<Rightarrow> (StateId \<times> StateId) set" where
  "child_edges doc = {(p, c). \<exists>st. map_of (doc_states doc) p = Some st \<and> c \<in> set (st_children st)}"

definition drawn :: "LayoutNode list \<Rightarrow> nat \<Rightarrow> bool" where
  "drawn nodes y \<longleftrightarrow> map ln_y nodes = map (\<lambda>i. 90 + 92 * i) [0..<length nodes] \<and> y = 90 + 92 * length nodes \<and>
     (\<forall>n \<in> set nodes. 40 \<le> ln_x n \<and> ln_height n = 54)"

lemma visit_states_drawn: "drawn ordered y \<Longrightarrow> \<exists>y'. drawn (visit_states doc calls y ordered visited) y'"
proof (induction doc calls y ordered visited rule: visit_states.induct)
  case (2 doc state_id depth calls y ordered visited)
  have "drawn (ordered @ [layout_node st depth y]) (y + 92)" for st
    using "2.prems" by (auto simp: drawn_def layout_node_def Let_def)
  with 2 show ?case by (auto split: option.splits)
qed auto

text \<open>What the search has still to do: what is reachable from the calls, by way of children that are not visited yet.\<close>

lemma visit_states_labels:
  assumes "doc_wf doc" "distinct (map ln_label ordered)" "set (map ln_label ordered) = set visited \<inter> keys (doc_states doc)"
    and "\<And>a b. a \<in> set visited \<Longrightarrow> (a, b) \<in> child_edges doc \<Longrightarrow> b \<in> set visited \<union> fst ` set calls"
  shows "distinct (map ln_label (visit_states doc calls y ordered visited)) \<and>
    set (map ln_label (visit_states doc calls y ordered visited)) = ((child_edges doc)\<^sup>* `` (set visited \<union> fst ` set calls)) \<inter> keys (doc_states doc)"
  using assms
proof (induction doc calls y ordered visited rule: visit_states.induct)
  case (1 doc y ordered visited)
  have "b \<in> set visited" if "(a, b) \<in> (child_edges doc)\<^sup>*" "a \<in> set visited" for a b
    using that by (induction rule: rtrancl_induct) (use "1.prems"(4) in force)+
  then have "(child_edges doc)\<^sup>* `` set visited = set visited" by (auto simp: Image_def)
  then show ?case using "1.prems" by simp
next
  case (2 doc state_id depth calls y ordered visited)
  show ?case
  proof (cases "state_id \<in> set visited")
    case True
    have "distinct (map ln_label (visit_states doc calls y ordered visited)) \<and>
      set (map ln_label (visit_states doc calls y ordered visited)) = ((child_edges doc)\<^sup>* `` (set visited \<union> fst ` set calls)) \<inter> keys (doc_states doc)"
      using "2.prems" True by (intro "2.IH"(1)) auto
    then show ?thesis using True by (simp add: insert_absorb)
  next
    case new: False
    show ?thesis
    proof (cases "map_of (doc_states doc) state_id")
      case None
      then have "state_id \<notin> keys (doc_states doc)" by (simp add: keys_def map_of_eq_None_iff)
      moreover have "(state_id, b) \<notin> child_edges doc" for b using None by (simp add: child_edges_def)
      moreover have "b \<in> set (state_id # visited) \<union> fst ` set calls" if "a \<in> set (state_id # visited)" "(a, b) \<in> child_edges doc" for a b
        using that "2.prems"(4) [of a b] calculation(2) by auto
      ultimately have "distinct (map ln_label (visit_states doc calls y ordered (state_id # visited))) \<and>
        set (map ln_label (visit_states doc calls y ordered (state_id # visited))) =
        ((child_edges doc)\<^sup>* `` (set (state_id # visited) \<union> fst ` set calls)) \<inter> keys (doc_states doc)"
        using "2.prems"(1,2,3) new None by (intro "2.IH"(2)) auto
      then show ?thesis using new None by simp
    next
      case (Some st)
      have key: "state_id \<in> keys (doc_states doc)" using Some by (force simp: keys_def dest: map_of_SomeD)
      have "st_id st = state_id" using Some "2.prems"(1) by (auto simp: doc_wf_def states_wf_def state_wf_def dest!: map_of_SomeD)
      then have label: "ln_label (layout_node st depth y) = state_id" by (simp add: layout_node_def Let_def)
      have children: "(state_id, b) \<in> child_edges doc \<longleftrightarrow> b \<in> set (st_children st)" for b using Some by (simp add: child_edges_def)
      let ?calls = "map (\<lambda>child. (child, depth + 1)) (st_children st) @ calls"
      have "distinct (map ln_label (visit_states doc ?calls (y + 92) (ordered @ [layout_node st depth y]) (state_id # visited))) \<and>
        set (map ln_label (visit_states doc ?calls (y + 92) (ordered @ [layout_node st depth y]) (state_id # visited))) =
        ((child_edges doc)\<^sup>* `` (set (state_id # visited) \<union> fst ` set ?calls)) \<inter> keys (doc_states doc)"
      proof (rule "2.IH"(3) [OF new Some])
        show "distinct (map ln_label (ordered @ [layout_node st depth y]))" using "2.prems"(2,3) new label by auto
        show "set (map ln_label (ordered @ [layout_node st depth y])) = set (state_id # visited) \<inter> keys (doc_states doc)"
          using "2.prems"(3) key label by auto
        show "b \<in> set (state_id # visited) \<union> fst ` set ?calls" if "a \<in> set (state_id # visited)" "(a, b) \<in> child_edges doc" for a b
        proof (cases "a = state_id")
          case True
          then show ?thesis using that(2) children by (simp add: image_Un image_image)
        next
          case False
          then show ?thesis using that "2.prems"(4) [of a b] by auto
        qed
      qed (use "2.prems"(1) in simp)
      moreover have "(child_edges doc)\<^sup>* `` (set (state_id # visited) \<union> fst ` set ?calls) =
          (child_edges doc)\<^sup>* `` (set visited \<union> fst ` set ((state_id, depth) # calls))"
      proof -
        have "(child_edges doc)\<^sup>* `` set (st_children st) \<subseteq> (child_edges doc)\<^sup>* `` {state_id}"
          using children by (auto intro: converse_rtrancl_into_rtrancl)
        moreover have "set (state_id # visited) \<union> fst ` set ?calls = (set visited \<union> fst ` set ((state_id, depth) # calls)) \<union> set (st_children st)"
          by (auto simp: image_Un image_image)
        ultimately show ?thesis by (auto simp: Image_Un)
      qed
      ultimately show ?thesis using new Some by simp
    qed
  qed
qed

lemma fold_max_ge: "x \<in> set xs \<or> x \<le> m \<Longrightarrow> (x :: nat) \<le> fold max xs m"
  by (induction xs arbitrary: m) (auto simp: le_max_iff_disj)

text \<open>The diagram of a parsed chart has exactly one box for every state that the top-level states contain, the boxes do
  not overlap, and all of them lie inside the picture.\<close>

theorem diagram_boxes:
  assumes "from_events events = Inr doc"
  shows "distinct (map ln_label (layout_nodes doc)) \<and>
    set (map ln_label (layout_nodes doc)) = (child_edges doc)\<^sup>* `` set (doc_top_level doc) \<and>
    (\<forall>i j. i < j \<and> j < length (layout_nodes doc) \<longrightarrow>
       ln_y (layout_nodes doc ! i) + ln_height (layout_nodes doc ! i) < ln_y (layout_nodes doc ! j)) \<and>
    (\<forall>n \<in> set (layout_nodes doc). 0 < ln_x n \<and> ln_x n + ln_width n < picture_width (layout_nodes doc) \<and>
       0 < ln_y n \<and> ln_y n + ln_height n < picture_height (layout_nodes doc))"
proof -
  have wf: "doc_wf doc" using from_events_wf [OF assms] .
  let ?ns = "layout_nodes doc"
  have "drawn [] 90" by (simp add: drawn_def)
  then obtain y where drawn: "drawn ?ns y" unfolding layout_nodes_def using visit_states_drawn by blast
  have ys: "ln_y (?ns ! i) = 90 + 92 * i" if "i < length ?ns" for i
    using arg_cong [of _ _ "\<lambda>xs. xs ! i", OF drawn [unfolded drawn_def, THEN conjunct1]] that by simp
  have heights: "ln_height (?ns ! i) = 54" if "i < length ?ns" for i using drawn that by (simp add: drawn_def)
  have "b \<in> keys (doc_states doc)" if "(a, b) \<in> (child_edges doc)\<^sup>*" "a \<in> keys (doc_states doc)" for a b
    using that
  proof (induction rule: rtrancl_induct)
    case (step b c)
    then obtain st where "(b, st) \<in> set (doc_states doc)" "c \<in> set (st_children st)" by (auto simp: child_edges_def dest!: map_of_SomeD)
    then show ?case using wf by (auto simp: doc_wf_def states_wf_def state_wf_def)
  qed
  then have inside: "(child_edges doc)\<^sup>* `` set (doc_top_level doc) \<subseteq> keys (doc_states doc)"
    using wf by (auto simp: doc_wf_def)
  have labels: "distinct (map ln_label ?ns) \<and> set (map ln_label ?ns) = (child_edges doc)\<^sup>* `` set (doc_top_level doc)"
    using visit_states_labels [OF wf, of "[]" "[]" "map (\<lambda>i. (i, 0)) (doc_top_level doc)" 90] inside
    by (simp add: layout_nodes_def image_image inf.absorb1)
  have width: "ln_x n + ln_width n < picture_width ?ns" if "n \<in> set ?ns" for n
    using fold_max_ge [of "ln_x n + ln_width n" "map (\<lambda>n. ln_x n + ln_width n) ?ns" 0] that by (auto simp: picture_width_def)
  have height: "ln_y n + ln_height n < picture_height ?ns" if "n \<in> set ?ns" for n
    using fold_max_ge [of "ln_y n + ln_height n" "map (\<lambda>n. ln_y n + ln_height n) ?ns" 0] that by (auto simp: picture_height_def)
  have positive: "0 < ln_x n \<and> 0 < ln_y n" if "n \<in> set ?ns" for n
    using drawn that ys by (force simp: drawn_def in_set_conv_nth)
  show ?thesis using labels ys heights width height positive by auto
qed

theorem diagram_boxes_witness:
  "distinct (map ln_label (layout_nodes request_doc)) \<and> (\<forall>n \<in> set (layout_nodes request_doc). ln_x n + ln_width n < picture_width (layout_nodes request_doc))"
  using diagram_boxes [OF request_parsed] by blast

end
