(* ===== verification/Core_Services.thy ===== *)
theory Core_Services
  imports Http_Common Module_Registry
begin

text \<open>
  Small services beside the framework's core: the event emitter and its module (\<open>nivasa-core/src/module/event_emitter.rs\<close>),
  the reflector (\<open>nivasa-core/src/reflector.rs\<close>), logging (\<open>nivasa-http/src/logging.rs\<close>) and health checks
  (\<open>nivasa-http/src/health.rs\<close>). A handler of events is a name; what running it does, to the emitter it shares and to the
  world, is a parameter.
\<close>

section \<open>The event emitter\<close>

record 'h EventListener =
  el_pattern :: string
  el_handler :: 'h

type_synonym 'h EventEmitter = "'h EventListener list"

definition emitter_new :: "'h EventEmitter" where
  "emitter_new = []"

definition emitter_on :: "string \<Rightarrow> 'h \<Rightarrow> 'h EventEmitter \<Rightarrow> 'h EventEmitter" where
  "emitter_on pat handler listeners = listeners @ [\<lparr>el_pattern = pat, el_handler = handler\<rparr>]"

definition listener_count :: "'h EventEmitter \<Rightarrow> nat" where
  "listener_count listeners = length listeners"

definition strip_suffix_str :: "string \<Rightarrow> string \<Rightarrow> string option" where
  "strip_suffix_str s p = map_option rev (strip_prefix (rev s) (rev p))"

definition matches_event :: "string \<Rightarrow> string \<Rightarrow> bool" where
  "matches_event event pat =
     (if pat = ''*'' then True
      else case strip_suffix_str pat ''.*'' of
        Some prefix \<Rightarrow>
          if prefix = [] then True
          else (case strip_prefix event prefix of Some rest \<Rightarrow> starts_with rest ''.'' | None \<Rightarrow> False)
      | None \<Rightarrow> event = pat)"

definition listeners_for :: "string \<Rightarrow> 'h EventEmitter \<Rightarrow> 'h EventListener list" where
  "listeners_for event listeners = filter (\<lambda>l. matches_event event (el_pattern l)) listeners"

type_synonym ('h, 'w) run_handler = "'h \<Rightarrow> string \<Rightarrow> 'h EventEmitter \<times> 'w \<Rightarrow> 'h EventEmitter \<times> 'w"

fun deliver_event :: "('h, 'w) run_handler \<Rightarrow> string \<Rightarrow> 'h EventListener list \<Rightarrow> nat \<Rightarrow> 'h EventEmitter \<times> 'w \<Rightarrow> nat \<times> 'h EventEmitter \<times> 'w" where
  "deliver_event run payload [] delivered s = (delivered, s)"
| "deliver_event run payload (l # ls) delivered s = deliver_event run payload ls (delivered + 1) (run (el_handler l) payload s)"

definition emit :: "('h, 'w) run_handler \<Rightarrow> string \<Rightarrow> string \<Rightarrow> 'h EventEmitter \<times> 'w \<Rightarrow> nat \<times> 'h EventEmitter \<times> 'w" where
  "emit run event payload s = deliver_event run payload (listeners_for event (fst s)) 0 s"

text \<open>The module: what it provides, and its registration as a singleton.\<close>

definition emitter_module_metadata :: "TypeId \<Rightarrow> ModuleMetadata" where
  "emitter_module_metadata emitter = with_global (with_exports (with_providers module_metadata_new [emitter]) [emitter]) True"

section \<open>The reflector\<close>

text \<open>\<open>de\<close> is \<open>serde_json::from_value\<close> for the type that is asked for.\<close>

definition get_handler_metadata :: "('j \<Rightarrow> 't option) \<Rightarrow> ('v, 'j) RequestContext \<Rightarrow> string \<Rightarrow> 't option" where
  "get_handler_metadata de ctx key = Option.bind (handler_metadata ctx key) de"

definition get_class_metadata :: "('j \<Rightarrow> 't option) \<Rightarrow> ('v, 'j) RequestContext \<Rightarrow> string \<Rightarrow> 't option" where
  "get_class_metadata de ctx key = Option.bind (class_metadata ctx key) de"

definition get_custom_data :: "('j \<Rightarrow> 't option) \<Rightarrow> ('v, 'j) RequestContext \<Rightarrow> string \<Rightarrow> 't option" where
  "get_custom_data de ctx key = Option.bind (custom_data ctx key) de"

definition option_or :: "'t option \<Rightarrow> 't option \<Rightarrow> 't option" where
  "option_or x y = (case x of Some v \<Rightarrow> Some v | None \<Rightarrow> y)"

definition get_metadata :: "('j \<Rightarrow> 't option) \<Rightarrow> ('v, 'j) RequestContext \<Rightarrow> string \<Rightarrow> 't option" where
  "get_metadata de ctx key =
     option_or (option_or (get_handler_metadata de ctx key) (get_class_metadata de ctx key)) (get_custom_data de ctx key)"

definition get_roles :: "('j \<Rightarrow> string list option) \<Rightarrow> ('v, 'j) RequestContext \<Rightarrow> string list option" where
  "get_roles de ctx = get_metadata de ctx ''roles''"

section \<open>Logging\<close>

datatype LoggerFormat = LogJson | LogPretty

text \<open>The levels of modules are a map in the order of its keys.\<close>

record LoggerOptions =
  lo_is_global :: bool
  lo_format :: LoggerFormat
  lo_default_level :: string
  lo_module_levels :: "(string \<times> string) list"

definition logger_options_new :: LoggerOptions where
  "logger_options_new = \<lparr>lo_is_global = False, lo_format = LogPretty, lo_default_level = ''info'', lo_module_levels = []\<rparr>"

definition logger_with_global :: "LoggerOptions \<Rightarrow> bool \<Rightarrow> LoggerOptions" where
  "logger_with_global opts is_global = opts\<lparr>lo_is_global := is_global\<rparr>"

definition logger_with_json :: "LoggerOptions \<Rightarrow> LoggerOptions" where
  "logger_with_json opts = opts\<lparr>lo_format := LogJson\<rparr>"

definition logger_with_pretty :: "LoggerOptions \<Rightarrow> LoggerOptions" where
  "logger_with_pretty opts = opts\<lparr>lo_format := LogPretty\<rparr>"

definition with_default_level :: "LoggerOptions \<Rightarrow> string \<Rightarrow> LoggerOptions" where
  "with_default_level opts level = opts\<lparr>lo_default_level := level\<rparr>"

definition with_module_level :: "LoggerOptions \<Rightarrow> string \<Rightarrow> string \<Rightarrow> LoggerOptions" where
  "with_module_level opts m level =
     opts\<lparr>lo_module_levels := insort_key fst (m, level) (filter (\<lambda>p. fst p \<noteq> m) (lo_module_levels opts))\<rparr>"

record LoggerContext =
  lc_request_id :: "string option"
  lc_user_id :: "string option"
  lc_module_name :: "string option"

definition log_context_new :: LoggerContext where
  "log_context_new = \<lparr>lc_request_id = None, lc_user_id = None, lc_module_name = None\<rparr>"

definition log_request_id :: "LoggerContext \<Rightarrow> string \<Rightarrow> LoggerContext" where
  "log_request_id ctx i = ctx\<lparr>lc_request_id := Some i\<rparr>"

definition log_user_id :: "LoggerContext \<Rightarrow> string \<Rightarrow> LoggerContext" where
  "log_user_id ctx i = ctx\<lparr>lc_user_id := Some i\<rparr>"

definition log_module_name :: "LoggerContext \<Rightarrow> string \<Rightarrow> LoggerContext" where
  "log_module_name ctx m = ctx\<lparr>lc_module_name := Some m\<rparr>"

text \<open>The filter of the tracing library: building it from a level, parsing a directive, adding one.\<close>

record ('f, 'd) FilterOps =
  fo_try_new :: "string \<Rightarrow> 'f option"
  fo_parse :: "string \<Rightarrow> 'd option"
  fo_add :: "'f \<Rightarrow> 'd \<Rightarrow> 'f"

datatype LoggerInitError = InvalidDirective string

fun add_directives :: "('f, 'd) FilterOps \<Rightarrow> (string \<times> string) list \<Rightarrow> 'f \<Rightarrow> LoggerInitError + 'f" where
  "add_directives F [] f = Inr f"
| "add_directives F ((m, level) # ls) f =
     (let directive = m @ ''='' @ level in
      case fo_parse F directive of
        None \<Rightarrow> Inl (InvalidDirective directive)
      | Some parsed \<Rightarrow> add_directives F ls (fo_add F f parsed))"

definition env_filter :: "('f, 'd) FilterOps \<Rightarrow> LoggerOptions \<Rightarrow> LoggerInitError + 'f" where
  "env_filter F opts =
     (case fo_try_new F (lo_default_level opts) of
        None \<Rightarrow> Inl (InvalidDirective (lo_default_level opts))
      | Some f \<Rightarrow> add_directives F (lo_module_levels opts) f)"

definition level_rank :: "string \<Rightarrow> nat" where
  "level_rank level =
     (let l = to_ascii_lowercase (trim level) in
      if l = ''trace'' then 0 else if l = ''debug'' then 1 else if l = ''info'' then 2 else if l = ''warn'' then 3
      else if l = ''error'' then 4 else 2 ^ 64 - 1)"

definition should_log :: "LoggerOptions \<Rightarrow> string \<Rightarrow> string \<Rightarrow> bool" where
  "should_log opts target level =
     (let configured = (case map_of (lo_module_levels opts) target of Some l \<Rightarrow> l | None \<Rightarrow> lo_default_level opts)
      in level_rank configured \<le> level_rank level)"

record LogEvent =
  lg_request_id :: string
  lg_user_id :: string
  lg_module_name :: string
  lg_message :: string

text \<open>What reaches the tracing library, if anything.\<close>

definition info_with_target :: "LoggerOptions \<Rightarrow> string \<Rightarrow> LoggerContext \<Rightarrow> string \<Rightarrow> LogEvent option" where
  "info_with_target opts target ctx msg =
     (if \<not> should_log opts target ''info'' then None
      else Some
        \<lparr>lg_request_id = (case lc_request_id ctx of Some i \<Rightarrow> i | None \<Rightarrow> []),
         lg_user_id = (case lc_user_id ctx of Some i \<Rightarrow> i | None \<Rightarrow> []),
         lg_module_name = (case lc_module_name ctx of Some m \<Rightarrow> m | None \<Rightarrow> target), lg_message = msg\<rparr>)"

text \<open>The module: \<open>service\<close> and \<open>opts_provider\<close> are the identities of its two types. The injectable service is built
  from fresh options.\<close>

definition logger_service_build :: LoggerOptions where
  "logger_service_build = logger_options_new"

definition logger_provider_types :: "TypeId \<Rightarrow> TypeId \<Rightarrow> TypeId list" where
  "logger_provider_types opts_provider service = [opts_provider, service]"

definition logger_export_types :: "TypeId \<Rightarrow> TypeId list" where
  "logger_export_types service = [service]"

definition logger_for_root :: "TypeId \<Rightarrow> TypeId \<Rightarrow> LoggerOptions \<Rightarrow> DynamicModule" where
  "logger_for_root opts_provider service opts =
     dynamic_with_global
       (dynamic_with_providers (dynamic_new (with_exports module_metadata_new (logger_export_types service)))
         (logger_provider_types opts_provider service))
       (lo_is_global opts)"

definition logger_for_feature :: "TypeId \<Rightarrow> TypeId \<Rightarrow> LoggerOptions \<Rightarrow> DynamicModule" where
  "logger_for_feature opts_provider service opts =
     dynamic_with_global
       (dynamic_with_providers (dynamic_new (with_exports module_metadata_new (logger_export_types service)))
         (logger_provider_types opts_provider service))
       (lo_is_global opts)"

section \<open>Health checks\<close>

datatype HealthStatus = Up | Down

record 'j HealthIndicatorResult =
  hi_status :: HealthStatus
  hi_details :: "'j option"

definition health_up :: "'j HealthIndicatorResult" where
  "health_up = \<lparr>hi_status = Up, hi_details = None\<rparr>"

definition health_down :: "'j HealthIndicatorResult" where
  "health_down = \<lparr>hi_status = Down, hi_details = None\<rparr>"

definition health_details :: "'j HealthIndicatorResult \<Rightarrow> 'j \<Rightarrow> 'j HealthIndicatorResult" where
  "health_details r d = r\<lparr>hi_details := Some d\<rparr>"

text \<open>An indicator looks at the world and may change it; \<open>object\<close> makes a JSON object of strings.\<close>

type_synonym ('j, 'w) HealthIndicator = "'w \<Rightarrow> 'j HealthIndicatorResult \<times> 'w"

definition status_text :: "HealthStatus \<Rightarrow> string" where
  "status_text status = (case status of Up \<Rightarrow> ''up'' | Down \<Rightarrow> ''down'')"

definition disk_indicator :: "((string \<times> string) list \<Rightarrow> 'j) \<Rightarrow> ('j, 'w) HealthIndicator" where
  "disk_indicator object w = (health_details health_up (object [(''name'', ''disk''), (''status'', ''up'')]), w)"

definition memory_indicator :: "((string \<times> string) list \<Rightarrow> 'j) \<Rightarrow> ('j, 'w) HealthIndicator" where
  "memory_indicator object w = (health_details health_up (object [(''name'', ''memory''), (''status'', ''up'')]), w)"

definition probe_indicator :: "string \<Rightarrow> ((string \<times> string) list \<Rightarrow> 'j) \<Rightarrow> ('w \<Rightarrow> bool \<times> 'w) \<Rightarrow> ('j, 'w) HealthIndicator" where
  "probe_indicator name object probe w =
     (case probe w of (ok, w1) \<Rightarrow>
       (let status = (if ok then Up else Down); d = object [(''name'', name), (''status'', status_text status)]
        in (health_details (case status of Up \<Rightarrow> health_up | Down \<Rightarrow> health_down) d, w1)))"

definition database_indicator :: "((string \<times> string) list \<Rightarrow> 'j) \<Rightarrow> ('w \<Rightarrow> bool \<times> 'w) \<Rightarrow> ('j, 'w) HealthIndicator" where
  "database_indicator object probe = probe_indicator ''database'' object probe"

definition http_indicator :: "((string \<times> string) list \<Rightarrow> 'j) \<Rightarrow> ('w \<Rightarrow> bool \<times> 'w) \<Rightarrow> ('j, 'w) HealthIndicator" where
  "http_indicator object probe = probe_indicator ''http'' object probe"

record 'j HealthCheckResult =
  hc_status :: HealthStatus
  hc_details :: "'j HealthIndicatorResult list"

fun health_loop :: "('j, 'w) HealthIndicator list \<Rightarrow> 'j HealthCheckResult \<Rightarrow> 'w \<Rightarrow> 'j HealthCheckResult \<times> 'w" where
  "health_loop [] acc w = (acc, w)"
| "health_loop (indicator # indicators) acc w =
     (case indicator w of (result, w1) \<Rightarrow>
       health_loop indicators
         \<lparr>hc_status = (if hi_status result = Down then Down else hc_status acc), hc_details = hc_details acc @ [result]\<rparr> w1)"

definition health_check :: "('j, 'w) HealthIndicator list \<Rightarrow> 'w \<Rightarrow> 'j HealthCheckResult \<times> 'w" where
  "health_check indicators w = health_loop indicators \<lparr>hc_status = Up, hc_details = []\<rparr> w"

section \<open>Facts\<close>

lemma strip_suffix_str_self [simp]: "strip_suffix_str (q @ p) p = Some q"
  by (simp add: strip_suffix_str_def strip_prefix_def starts_with_iff)

lemma strip_suffix_str_None: "\<forall>q. s \<noteq> q @ p \<Longrightarrow> strip_suffix_str s p = None"
  by (auto simp: strip_suffix_str_def strip_prefix_eq_None starts_with_iff) (metis rev_append rev_rev_ident)

text \<open>A pattern is a star, a name with a star, which stands for everything below the name, or a name.\<close>

lemma matches_event_iff:
  "matches_event event pat \<longleftrightarrow>
     pat = ''*'' \<or> pat = ''.*'' \<or> (\<exists>q r. q \<noteq> [] \<and> pat = q @ ''.*'' \<and> event = q @ ''.'' @ r) \<or>
     (event = pat \<and> (\<forall>q. pat \<noteq> q @ ''.*''))"
proof (cases "\<exists>q. pat = q @ ''.*''")
  case True
  then obtain q where q: "pat = q @ ''.*''" by blast
  have "(case strip_prefix event q of Some rest \<Rightarrow> starts_with rest ''.'' | None \<Rightarrow> False) \<longleftrightarrow> (\<exists>r. event = q @ ''.'' @ r)"
    by (auto simp: strip_prefix_eq_Some starts_with_iff strip_prefix_eq_None split: option.splits)
  moreover have "strip_suffix_str pat ''.*'' = Some q" unfolding q by (rule strip_suffix_str_self)
  moreover have "pat \<noteq> ''*''" using q by (cases q) auto
  ultimately show ?thesis using q by (auto simp: matches_event_def)
next
  case False
  then have "strip_suffix_str pat ''.*'' = None" by (intro strip_suffix_str_None) blast
  moreover have "pat \<noteq> ''.*''" using False by (metis append_Nil)
  ultimately show ?thesis using False by (auto simp: matches_event_def)
qed

lemma deliver_all: "deliver_event run payload ls n s = (n + length ls, fold (\<lambda>l. run (el_handler l) payload) ls s)"
  by (induction ls arbitrary: n s) auto

text \<open>An event reaches the listeners that were registered before it, each once and in their order, whatever the handlers
  register meanwhile.\<close>

lemma emit_exact:
  "emit run event payload (listeners, w) =
     (let ls = filter (\<lambda>l. matches_event event (el_pattern l)) listeners
      in (length ls, fold (\<lambda>l. run (el_handler l) payload) ls (listeners, w)))"
  by (simp add: emit_def deliver_all listeners_for_def Let_def)

lemma health_loop_all:
  "hc_status (fst (health_loop indicators acc w)) = Down \<longleftrightarrow>
     hc_status acc = Down \<or> (\<exists>r \<in> set (drop (length (hc_details acc)) (hc_details (fst (health_loop indicators acc w)))). hi_status r = Down)"
  "length (hc_details (fst (health_loop indicators acc w))) = length (hc_details acc) + length indicators"
  "take (length (hc_details acc)) (hc_details (fst (health_loop indicators acc w))) = hc_details acc"
proof -
  have "\<exists>rs. length rs = length indicators \<and> hc_details (fst (health_loop indicators acc w)) = hc_details acc @ rs \<and>
      (hc_status (fst (health_loop indicators acc w)) = Down \<longleftrightarrow> hc_status acc = Down \<or> (\<exists>r \<in> set rs. hi_status r = Down))"
  proof (induction indicators arbitrary: acc w)
    case (Cons i js)
    obtain result w1 where i: "i w = (result, w1)" by (cases "i w")
    let ?acc = "\<lparr>hc_status = (if hi_status result = Down then Down else hc_status acc), hc_details = hc_details acc @ [result]\<rparr>"
    obtain rs where "length rs = length js" "hc_details (fst (health_loop js ?acc w1)) = hc_details ?acc @ rs"
      "hc_status (fst (health_loop js ?acc w1)) = Down \<longleftrightarrow> hc_status ?acc = Down \<or> (\<exists>r \<in> set rs. hi_status r = Down)"
      using Cons.IH [of ?acc w1] by blast
    then show ?case using i by (intro exI [of _ "result # rs"]) auto
  qed simp
  then obtain rs where "length rs = length indicators" "hc_details (fst (health_loop indicators acc w)) = hc_details acc @ rs"
      "hc_status (fst (health_loop indicators acc w)) = Down \<longleftrightarrow> hc_status acc = Down \<or> (\<exists>r \<in> set rs. hi_status r = Down)"
    by blast
  then show "hc_status (fst (health_loop indicators acc w)) = Down \<longleftrightarrow>
     hc_status acc = Down \<or> (\<exists>r \<in> set (drop (length (hc_details acc)) (hc_details (fst (health_loop indicators acc w)))). hi_status r = Down)"
  "length (hc_details (fst (health_loop indicators acc w))) = length (hc_details acc) + length indicators"
  "take (length (hc_details acc)) (hc_details (fst (health_loop indicators acc w))) = hc_details acc"
    by simp_all
qed

text \<open>The whole is down exactly when an indicator is; every indicator is asked.\<close>

lemma health_check_all:
  "hc_status (fst (health_check indicators w)) = Down \<longleftrightarrow> (\<exists>r \<in> set (hc_details (fst (health_check indicators w))). hi_status r = Down)"
  "length (hc_details (fst (health_check indicators w))) = length indicators"
  using health_loop_all [where indicators = indicators and acc = "\<lparr>hc_status = Up, hc_details = []\<rparr>" and w = w] by (simp_all add: health_check_def)

text \<open>Of the options given to the logger's module only the visibility is used: levels and format are lost.\<close>

lemma logger_options_lost:
  "lo_is_global o1 = lo_is_global o2 \<Longrightarrow> logger_for_root p s o1 = logger_for_root p s o2"
  by (simp add: logger_for_root_def)

text \<open>A level with a spelling the logger does not know silences its module.\<close>

lemma misspelt_level_silences:
  "map_of (lo_module_levels opts) target = Some ''warning'' \<Longrightarrow> info_with_target opts target ctx msg = None"
proof -
  assume "map_of (lo_module_levels opts) target = Some ''warning''"
  moreover have "to_ascii_lowercase (trim ''warning'') = ''warning''" "to_ascii_lowercase (trim ''info'') = ''info''" by code_simp+
  then have "level_rank ''warning'' = 2 ^ 64 - 1" "level_rank ''info'' = 2" by (simp_all add: level_rank_def)
  ultimately show ?thesis by (simp add: info_with_target_def should_log_def)
qed

end
