(* ===== verification/Spec2Isabelle.thy ===== *)
theory Spec2Isabelle
  imports Route_Registry Http_Common Chart_Properties Di_Initialize Di_Race Module_Bootstrap
    Server_Properties Scheduler Config Rooms Application Controller_Actions Validation Controller_Properties Injectable Module_Macro Cli_Generate Openapi Chart_Diagram Core_Services
begin

text \<open>
  A verification library for Nivasa, a web framework in Rust whose life cycles are SCXML statecharts.

  \<^bold>\<open>The program\<close> is a workspace of crates. \<open>nivasa-routing\<close> matches request paths to handlers; \<open>nivasa-statechart\<close>
  parses SCXML documents, generates Rust from them (in a build script) and runs the generated charts;
  \<open>nivasa-core\<close> has the dependency injection container, the module graph and the module life cycle;
  \<open>nivasa-guards\<close> and \<open>nivasa-http\<close> take a request through the request chart: routing, guards, interceptors, pipes,
  the handler, filters and the response.

  \<^bold>\<open>Theories and sources\<close> (paths under \<open>src/\<close>):
  \<^item> \<open>Prelude\<close>: strings, splitting and trimming, maps, list lemmas that the other theories share.
  \<^item> \<open>Route_Pattern\<close>, \<open>Route_Registry\<close>: \<open>nivasa-routing/src/lib.rs\<close>. Patterns and captures; registration, dispatch,
    versioned dispatch. The interface between the two is the locale of pattern matching laws.
  \<^item> \<open>Http_Common\<close>: \<open>nivasa-common\<close>: status codes, HTTP exceptions, the request context.
  \<^item> \<open>Scxml_Document\<close>, \<open>Statechart_Engine\<close>, \<open>Statechart_Codegen\<close>: \<open>nivasa-statechart/src\<close>: \<open>parser.rs\<close>, \<open>types.rs\<close>,
    \<open>validator.rs\<close>; \<open>engine.rs\<close>; \<open>codegen.rs\<close>. \<open>Statecharts\<close> holds the four documents of \<open>statecharts/\<close>, \<open>Chart_Properties\<close>
    what their generated code can do, \<open>Chart_Code\<close> code equations that let the simplifier run them.
  \<^item> \<open>Di_Graph\<close>, \<open>Di_Provider\<close>, \<open>Di_Container\<close>, \<open>Di_Resolution\<close>, \<open>Di_Invariants\<close>, \<open>Di_Operations\<close>, \<open>Di_Properties\<close>,
    \<open>Di_Initialize\<close>, \<open>Di_Race\<close>: \<open>nivasa-core/src/di\<close>: the dependency graph, providers and their registry, the
    container with its scopes, resolution, registration, initialisation, and a race of two tasks. \<open>Dep_Order\<close> is the
    theory of orders by depth-first search that the dependency graph and the module graph share.
  \<^item> \<open>Module_Registry\<close>, \<open>Module_Order\<close>, \<open>Module_Visibility\<close>, \<open>Module_Runtime\<close>, \<open>Module_Lifecycle\<close>, \<open>Module_Bootstrap\<close>:
    \<open>nivasa-core/src/module\<close>: the graph of modules, the bootstrap order, exports and visibility, the runtime of one
    module, the orchestrator that starts and stops all of them.
  \<^item> \<open>Throttler_Storage\<close>, \<open>Guards\<close>: \<open>nivasa-guards/src/lib.rs\<close>. The storage is the provider of the locale
    \<open>throttler_storage\<close>, the guard its client.
  \<^item> \<open>Http_Request\<close>, \<open>Request_Pipeline\<close>: \<open>nivasa-http/src\<close>: \<open>request.rs\<close> and \<open>body.rs\<close>; \<open>pipeline.rs\<close>.
  \<^item> \<open>Http_Response\<close>: \<open>nivasa-http/src/response.rs\<close>, with the event source of the HTML standard as the client of its
    event streams. \<open>Http_Middleware\<close>: the middleware of \<open>nivasa-http/src/lib.rs\<close>. \<open>Http_Cors\<close>: the CORS part of
    \<open>nivasa-http/src/server.rs\<close>.
  \<^item> \<open>Interceptors\<close>, \<open>Pipes\<close>: \<open>nivasa-interceptors/src/lib.rs\<close>, \<open>nivasa-pipes/src/lib.rs\<close>.
  \<^item> \<open>Http_Server\<close>: the builder and the request handling of \<open>nivasa-http/src/server.rs\<close>, one definition per stage of
    \<open>handle_request\<close>; \<open>Server_Properties\<close>: that the statechart never refuses a transition the server asks for, and
    what follows of routing, middleware, guards, filters, body limits and caching.
  \<^item> \<open>Upload\<close>, \<open>Controller_Actions\<close>: \<open>nivasa-http/src/upload.rs\<close>, and the part of \<open>nivasa-http/src/lib.rs\<close> that extracts the
    arguments of controller methods, with \<open>throttling.rs\<close>. \<open>Validation\<close>: \<open>nivasa-validation/src/lib.rs\<close> and the derive macros
    of \<open>nivasa-macros/src/validation.rs\<close>, as what they accept, generate, and what the generated code reports.
  \<^item> \<open>Scheduler\<close>, \<open>Config\<close>, \<open>Rooms\<close>: \<open>nivasa-scheduling\<close>, \<open>nivasa-config\<close> and the registries of \<open>nivasa-websocket\<close>.
  \<^item> \<open>Application\<close>: \<open>nivasa/src/application.rs\<close> with the routes and handlers that \<open>nivasa-macros/src/controller.rs\<close> and
    \<open>module_macro.rs\<close> generate: from the declared controllers to the server an application listens with. \<open>Openapi\<close>:
    \<open>nivasa/src/openapi.rs\<close> with its JSON form in \<open>application.rs\<close>: the document of all controllers.
  \<^item> \<open>Macro_Syntax\<close>, \<open>Controller_Attributes\<close>, \<open>Controller_Expansion\<close>, \<open>Controller_Properties\<close>:
    \<open>nivasa-macros/src/controller.rs\<close>: tokens as \<open>syn\<close> hands them out, the parsers of every attribute and the macros that
    leave markers, the expansion of structs and impl blocks, what the generated metadata says.
  \<^item> \<open>Injectable\<close>, \<open>Module_Macro\<close>: \<open>injectable.rs\<close> and \<open>module_macro.rs\<close> of \<open>nivasa-macros/src\<close>: the generated constructors as
    requests to the container, the generated \<open>configure\<close>, and that containers made from both start.
  \<^item> \<open>Module_Edit\<close>, \<open>Cli_Generate\<close>: \<open>nivasa-cli/src/main.rs\<close>: the editor of module attributes as text, and the generators
    on a tree of files. \<open>Chart_Build\<close>, \<open>Chart_Diagram\<close>: \<open>nivasa-statechart/build.rs\<close> and \<open>schema.rs\<close>,
    \<open>nivasa-cli/src/statechart.rs\<close> and \<open>nivasa-macros/src/scxml_handler.rs\<close>: building the charts, checking the build
    against the files, the handler macro, diagrams.
  \<^item> \<open>Core_Services\<close>: \<open>event_emitter.rs\<close> and \<open>reflector.rs\<close> of \<open>nivasa-core/src\<close>, \<open>logging.rs\<close> and \<open>health.rs\<close> of
    \<open>nivasa-http/src\<close>.

  \<^bold>\<open>Conventions.\<close> A struct is a record, an enum a datatype, a \<open>Result\<close> a sum with the error on the left, an
  \<open>Option\<close> an option; a method that changes its object returns the new one. A machine integer is a word. A panic
  is \<open>None\<close> where the caller could observe it. A \<open>HashMap\<close> is a map; where its iteration order reaches a result it
  is a parameter (an arbitrary enumeration of the keys). Code outside the repository (tokio, http, url, serde_json,
  the XML reader) is an argument of the definitions that use it. What a user passes to the framework (handlers,
  guards, factories, hooks) is an arbitrary function, with a world it may change where it can have effects.

  \<^bold>\<open>Recursion and bounds.\<close> Loops over data are structural recursions. Depth-first searches carry fuel
  \<open>Suc (number of keys)\<close>: a path without repetition is no longer. Entering a state of a generated chart carries the
  number of states. The container's resolution carries fuel since a factory may resolve again: it is monotone in the
  fuel and \<open>resolve_terminates\<close> gives fuel that is enough for every acyclic container. Statements about runs hold
  for lists of calls of any length.

  \<^bold>\<open>Not modelled.\<close> Sockets, TLS, timeouts and shutdown of connections (calls of tokio, hyper and rustls); the GraphQL
  adapters around \<open>async-graphql\<close>; the reading of command lines by \<open>clap\<close>; the macros that only add a function
  returning a constant (\<open>on_event\<close>, \<open>subscribe_message\<close>, \<open>schedule\<close>, \<open>graphql\<close>, \<open>websocket_gateway\<close>, \<open>filter\<close>, \<open>middleware\<close>,
  \<open>config_schema\<close>); test support, benchmarks and examples; accessors and conversions that only copy a field. What
  \<open>syn\<close> and \<open>quote\<close> do around the macros, the XML reader, libxml, SHA-256, \<open>serde\<close> and the validator crate are parameters
  or stay outside.
\<close>

end
